(* ===== verification/Prelude.thy ===== *)
theory Prelude
  imports Main "HOL-Library.Word" "HOL-Library.Monad_Syntax"
begin

text \<open>
  Shared vocabulary of the development: the C integer types of \<^verbatim>\<open>stdint.h\<close> as fixed-width
  words, byte buffers, and the little-endian images of integers that the packed structures of the
  program (boot sectors, directory entries, GPT headers, command blocks) are read and written through.
  \<open>buf_get\<close> reads and \<open>buf_put\<close> overwrites a run of bytes at an offset; \<open>of_le\<close> and
  \<open>to_le\<close> are what a cast of a byte pointer to an integer pointer does on the little-endian target.
\<close>

unbundle bit_operations_syntax

type_synonym u8 = "8 word"
type_synonym u16 = "16 word"
type_synonym u32 = "32 word"
type_synonym u64 = "64 word"
type_synonym bytes = "u8 list"

named_theorems byte_simps

definition buf_get :: "nat \<Rightarrow> bytes \<Rightarrow> nat \<Rightarrow> bytes" where
  "buf_get n buf off = take n (drop off buf)"

definition buf_put :: "bytes \<Rightarrow> nat \<Rightarrow> bytes \<Rightarrow> bytes" where
  "buf_put buf off bs = take off buf @ bs @ drop (off + length bs) buf"

fun of_le :: "bytes \<Rightarrow> 'a::len word" where
  "of_le [] = 0"
| "of_le (b # bs) = ucast b OR push_bit 8 (of_le bs)"

fun to_le :: "nat \<Rightarrow> 'a::len word \<Rightarrow> bytes" where
  "to_le 0 w = []"
| "to_le (Suc n) w = ucast w # to_le n (drop_bit 8 w)"

lemma length_to_le [simp]: "length (to_le n w) = n"
  by (induction n arbitrary: w) auto

lemma length_buf_get [simp]: "off + n \<le> length buf \<Longrightarrow> length (buf_get n buf off) = n"
  by (simp add: buf_get_def)

lemma length_buf_put [simp]:
  "off + length bs \<le> length buf \<Longrightarrow> length (buf_put buf off bs) = length buf"
  by (simp add: buf_put_def)

lemma bit_of_le:
  "bit (of_le bs :: 'a::len word) k \<longleftrightarrow> k < LENGTH('a) \<and> k div 8 < length bs \<and> bit (bs ! (k div 8)) (k mod 8)"
proof (induction bs arbitrary: k)
  case Nil
  then show ?case by simp
next
  case (Cons b bs)
  show ?case
  proof (cases "k < 8")
    case True
    then show ?thesis by (auto simp: bit_or_iff bit_push_bit_iff bit_ucast_iff)
  next
    case False
    then obtain m where m: "k = m + 8" by (metis le_add_diff_inverse2 not_less)
    have "\<not> bit b (m + 8)" using bit_imp_le_length[of b "m+8"] by auto
    moreover have "(m + 8) div 8 = Suc (m div 8)" by simp
    ultimately show ?thesis using Cons.IH[of m] m
      by (auto simp: bit_or_iff bit_push_bit_iff bit_ucast_iff)
  qed
qed

lemma bit_nth_to_le:
  "i < n \<Longrightarrow> bit (to_le n (w::'a::len word) ! i) j \<longleftrightarrow> j < 8 \<and> bit w (8 * i + j)"
proof (induction n arbitrary: w i)
  case 0
  then show ?case by simp
next
  case (Suc n)
  show ?case
  proof (cases i)
    case 0
    then show ?thesis by (auto simp: bit_ucast_iff)
  next
    case (Suc i')
    with Suc.prems Suc.IH[of i' "drop_bit 8 w"] show ?thesis
      by (auto simp: bit_drop_bit_eq algebra_simps)
  qed
qed

lemma of_le_to_le [simp]:
  assumes "LENGTH('a) \<le> 8 * n"
  shows "of_le (to_le n (w :: 'a::len word)) = w"
proof (rule bit_word_eqI)
  fix k assume k: "k < LENGTH('a)"
  with assms have "k div 8 < n" by auto
  then show "bit (of_le (to_le n w) :: 'a word) k = bit w k"
    using k by (simp add: bit_of_le bit_nth_to_le)
qed

lemma to_le_of_le [simp]:
  assumes "length bs = n" "8 * n \<le> LENGTH('a)"
  shows "to_le n (of_le bs :: 'a::len word) = bs"
proof (rule nth_equalityI)
  show "length (to_le n (of_le bs :: 'a word)) = length bs" using assms by simp
next
  fix i assume "i < length (to_le n (of_le bs :: 'a word))"
  then have i: "i < n" by simp
  show "to_le n (of_le bs :: 'a word) ! i = bs ! i"
  proof (rule bit_word_eqI)
    fix j assume j: "j < LENGTH(8)"
    with i assms have "8 * i + j < LENGTH('a)" by auto
    with i j assms show "bit (to_le n (of_le bs :: 'a word) ! i) j = bit (bs ! i) j"
      by (simp add: bit_nth_to_le bit_of_le)
  qed
qed

lemma buf_get_put_same [simp]:
  "off \<le> length buf \<Longrightarrow> n = length bs \<Longrightarrow> buf_get n (buf_put buf off bs) off = bs"
  by (simp add: buf_get_def buf_put_def)

lemma buf_get_put_other:
  assumes "off + length bs \<le> length buf" "o2 + n \<le> off \<or> off + length bs \<le> o2"
  shows "buf_get n (buf_put buf off bs) o2 = buf_get n buf o2"
  using assms(2)
proof
  assume "o2 + n \<le> off"
  then show ?thesis using assms(1)
    by (simp add: buf_get_def buf_put_def take_drop min_absorb1 min_absorb2)
next
  assume a: "off + length bs \<le> o2"
  have "drop o2 (take off buf @ bs @ drop (off + length bs) buf) = drop o2 buf"
    using a assms(1) by (simp add: min_absorb2 add.commute)
  then show ?thesis by (simp add: buf_get_def buf_put_def)
qed

text \<open>Reading a field of a concatenation.\<close>

lemma buf_get_skip: "length xs \<le> off \<Longrightarrow> buf_get n (xs @ ys) off = buf_get n ys (off - length xs)"
  by (simp add: buf_get_def)

lemma buf_get_here: "length xs = n \<Longrightarrow> buf_get n (xs @ ys) 0 = xs"
  by (simp add: buf_get_def)

lemma buf_get_all: "length xs = n \<Longrightarrow> buf_get n xs 0 = xs"
  by (simp add: buf_get_def)

lemma buf_get_Cons: "0 < off \<Longrightarrow> buf_get n (x # ys) off = buf_get n ys (off - 1)"
  by (simp add: buf_get_def drop_Cons')

text \<open>Sums, products and casts of words that do not wrap.\<close>

lemma unat_u32_bound: "unat (x :: u32) < 4294967296"
proof -
  have "unat x < 2 ^ LENGTH(32)" by (rule unsigned_less)
  then show ?thesis by simp
qed

lemma unat_ucast_32_64 [simp]: "unat (ucast (x :: u32) :: u64) = unat x"
proof -
  have "unat x < 2 ^ 64" using unat_u32_bound[of x] by simp
  then show ?thesis by (simp add: unsigned_ucast_eq take_bit_nat_eq_self_iff)
qed

lemma unat_add_nowrap: "unat a + unat b < 2 ^ LENGTH('a) \<Longrightarrow> unat (a + b :: 'a::len word) = unat a + unat b"
  by (simp add: unat_add_lem)

lemma unat_mult_nowrap: "unat a * unat b < 2 ^ LENGTH('a) \<Longrightarrow> unat (a * b :: 'a::len word) = unat a * unat b"
  by (simp add: unat_mult_lem)

lemma unat_less: "(a < b) = (unat a < unat (b :: 'a::len word))"
  by (simp add: word_less_nat_alt)

lemma unat_ucast_64_32: "unat (x :: u64) < 2 ^ 32 \<Longrightarrow> unat (ucast x :: u32) = unat x"
  by (simp add: unsigned_ucast_eq take_bit_nat_eq_self_iff)

lemma unat_ucast_8_32 [simp]: "unat (ucast (x :: u8) :: u32) = unat x"
proof -
  have "unat x < 2 ^ LENGTH(8)" by (rule unsigned_less)
  then show ?thesis by (simp add: unsigned_ucast_eq take_bit_nat_eq_self_iff)
qed

lemma unat_ucast_16_32 [simp]: "unat (ucast (x :: u16) :: u32) = unat x"
proof -
  have "unat x < 2 ^ LENGTH(16)" by (rule unsigned_less)
  then show ?thesis by (simp add: unsigned_ucast_eq take_bit_nat_eq_self_iff)
qed

lemma bit_small: "unat (w :: 'a::len word) < 2 ^ k \<Longrightarrow> bit w n \<Longrightarrow> n < k"
proof (rule ccontr)
  assume w: "unat w < 2 ^ k" and b: "bit w n" and n: "\<not> n < k"
  have "(2 :: nat) ^ k \<le> 2 ^ n" using n by simp
  with w have "unat w < 2 ^ n" by (rule less_le_trans)
  then have "unat w div 2 ^ n = 0" by (rule div_less)
  then have "\<not> bit (unat w) n" by (simp add: bit_iff_odd)
  with b show False by (simp add: bit_unsigned_iff)
qed

text \<open>Searching lists, adjacent ranges and adjacent stores.\<close>

lemma find_append: "List.find P (xs @ ys) = (case List.find P xs of None \<Rightarrow> List.find P ys | Some x \<Rightarrow> Some x)"
  by (induction xs) auto

lemma find_SomeD: "List.find P xs = Some x \<Longrightarrow> x \<in> set xs \<and> P x"
  by (auto simp: find_Some_iff)

lemma sum_upt: "[a..<a + (n + m)] = [a..<a + n] @ [a + n..<a + n + m]"
  using upt_add_eq_append[of a "a + n" m] by (simp add: add.assoc)

lemma buf_put_put:
  "bi + length xs + length ys \<le> length buf \<Longrightarrow> buf_put (buf_put buf bi xs) (bi + length xs) ys = buf_put buf bi (xs @ ys)"
  by (simp add: buf_put_def ac_simps)

lemma buf_get_append: "buf_get n b i @ buf_get m b (i + n) = buf_get (n + m) b i"
  unfolding buf_get_def take_add drop_drop add.commute[of n i] by (rule refl)

end
