(* ===== verification/Scheduler_Model.thy ===== *)
theory Scheduler_Model
  imports Prelude
begin

text \<open>
  The cooperative scheduler, \<^verbatim>\<open>scheduler/scheduler.c\<close>, every function of it.  Function pointers and
  their arguments are 64-bit addresses (0 is NULL).  A task may do anything when it is called, also call
  the scheduler, so the meaning of calling an address is an argument \<open>call\<close> of the definitions that run
  tasks, a function on the whole state; \<open>world\<close> is the memory outside the scheduler.  The type \<^verbatim>\<open>double\<close> of
  sleep times is a type variable with the four operations the code applies to it as the record \<open>fp\<close>.
\<close>

record 'd fp =
  fp_zero :: 'd
  fp_add :: "'d \<Rightarrow> 'd \<Rightarrow> 'd"
  fp_sub :: "'d \<Rightarrow> 'd \<Rightarrow> 'd"
  fp_le :: "'d \<Rightarrow> 'd \<Rightarrow> bool"

datatype task_state = TASK_EMPTY | TASK_READY | TASK_SLEEPING | TASK_SUSPENDED

abbreviation (input) PRIO_LOW :: u32 where "PRIO_LOW \<equiv> 0"
abbreviation (input) PRIO_NORMAL :: u32 where "PRIO_NORMAL \<equiv> 1"
abbreviation (input) PRIO_HIGH :: u32 where "PRIO_HIGH \<equiv> 2"
abbreviation (input) PRIO_CRITICAL :: u32 where "PRIO_CRITICAL \<equiv> 3"

abbreviation (input) SCHEDULER_MAX_TASKS :: nat where "SCHEDULER_MAX_TASKS \<equiv> 16"
abbreviation (input) SCHED_NAME_MAX :: nat where "SCHED_NAME_MAX \<equiv> 24"

record 'd task_stats =
  run_count :: u64
  total_time_s :: 'd

record 'd task_entry =
  tk_fn :: u64
  tk_arg :: u64
  tk_state :: task_state
  tk_prio :: u32
  sleep_remaining :: 'd
  stats :: "'d task_stats"
  tk_name :: bytes

record ('d, 'w) sched =
  g_tasks :: "'d task_entry list"
  g_task_count :: int
  g_next_index :: nat
  world :: 'w

type_synonym ('d, 'w) task_call = "u64 \<Rightarrow> u64 \<Rightarrow> 'd \<Rightarrow> ('d, 'w) sched \<Rightarrow> ('d, 'w) sched"

definition id_valid :: "int \<Rightarrow> bool" where
  "id_valid i \<longleftrightarrow> i \<ge> 0 \<and> i < int SCHEDULER_MAX_TASKS"

text \<open>The source is the string with its terminator; None is the NULL pointer.\<close>

fun strncpy_loop :: "bytes \<Rightarrow> bytes \<Rightarrow> nat \<Rightarrow> nat \<Rightarrow> bytes" where
  "strncpy_loop dst [] n i = dst[i := 0]"
| "strncpy_loop dst (c # cs) n i =
     (if i + 1 < n \<and> c \<noteq> 0 then strncpy_loop (dst[i := c]) cs n (i + 1) else dst[i := 0])"

definition sched_strncpy :: "bytes \<Rightarrow> bytes option \<Rightarrow> nat \<Rightarrow> bytes" where
  "sched_strncpy dst src n = (case src of None \<Rightarrow> dst[0 := 0] | Some cs \<Rightarrow> strncpy_loop dst cs n 0)"

definition upd_task :: "nat \<Rightarrow> ('d task_entry \<Rightarrow> 'd task_entry) \<Rightarrow> ('d, 'w) sched \<Rightarrow> ('d, 'w) sched" where
  "upd_task i f s = s\<lparr>g_tasks := (g_tasks s)[i := f (g_tasks s ! i)]\<rparr>"

definition tick_entry :: "'d fp \<Rightarrow> 'd \<Rightarrow> 'd task_entry \<Rightarrow> 'd task_entry" where
  "tick_entry fp dt t =
     (if tk_state t \<noteq> TASK_SLEEPING then t
      else let r = fp_sub fp (sleep_remaining t) dt in
        if fp_le fp r (fp_zero fp) then t\<lparr>sleep_remaining := fp_zero fp, tk_state := TASK_READY\<rparr>
        else t\<lparr>sleep_remaining := r\<rparr>)"

definition tick_sleep_timers :: "'d fp \<Rightarrow> 'd \<Rightarrow> ('d, 'w) sched \<Rightarrow> ('d, 'w) sched" where
  "tick_sleep_timers fp dt s = fold (\<lambda>i. upd_task i (tick_entry fp dt)) [0..<SCHEDULER_MAX_TASKS] s"

definition count_run :: "'d fp \<Rightarrow> 'd \<Rightarrow> 'd task_entry \<Rightarrow> 'd task_entry" where
  "count_run fp dt t = t\<lparr>stats := (stats t)\<lparr>run_count := run_count (stats t) + 1,
     total_time_s := fp_add fp (total_time_s (stats t)) dt\<rparr>\<rparr>"

definition run_task :: "'d fp \<Rightarrow> ('d, 'w) task_call \<Rightarrow> nat \<Rightarrow> 'd \<Rightarrow> ('d, 'w) sched \<Rightarrow> ('d, 'w) sched" where
  "run_task fp call idx dt s =
     upd_task idx (count_run fp dt) (call (tk_fn (g_tasks s ! idx)) (tk_arg (g_tasks s ! idx)) dt s)"

definition init_entry :: "'d fp \<Rightarrow> 'd task_entry \<Rightarrow> 'd task_entry" where
  "init_entry fp t = t\<lparr>tk_fn := 0, tk_arg := 0, tk_state := TASK_EMPTY, tk_prio := PRIO_NORMAL, sleep_remaining := fp_zero fp,
     stats := (stats t)\<lparr>run_count := 0, total_time_s := fp_zero fp\<rparr>, tk_name := (tk_name t)[0 := 0]\<rparr>"

definition scheduler_init :: "'d fp \<Rightarrow> ('d, 'w) sched \<Rightarrow> ('d, 'w) sched" where
  "scheduler_init fp s =
     (fold (\<lambda>i. upd_task i (init_entry fp)) [0..<SCHEDULER_MAX_TASKS] s)\<lparr>g_task_count := 0, g_next_index := 0\<rparr>"

definition slot_order :: "('d, 'w) sched \<Rightarrow> nat list" where
  "slot_order s = map (\<lambda>i. (g_next_index s + i) mod SCHEDULER_MAX_TASKS) [0..<SCHEDULER_MAX_TASKS]"

definition registered :: "u64 \<Rightarrow> u64 \<Rightarrow> 'd task_entry \<Rightarrow> bool" where
  "registered fn arg t \<longleftrightarrow> tk_state t \<noteq> TASK_EMPTY \<and> tk_fn t = fn \<and> tk_arg t = arg"

definition unnamed :: bytes where
  "unnamed = [0x75, 0x6E, 0x6E, 0x61, 0x6D, 0x65, 0x64, 0]"

definition new_entry :: "'d fp \<Rightarrow> u64 \<Rightarrow> u64 \<Rightarrow> 'd task_entry \<Rightarrow> 'd task_entry" where
  "new_entry fp fn arg t = t\<lparr>tk_fn := fn, tk_arg := arg, tk_state := TASK_READY, tk_prio := PRIO_NORMAL,
     sleep_remaining := fp_zero fp, stats := (stats t)\<lparr>run_count := 0, total_time_s := fp_zero fp\<rparr>,
     tk_name := sched_strncpy (tk_name t) (Some unnamed) SCHED_NAME_MAX\<rparr>"

definition scheduler_add_task :: "'d fp \<Rightarrow> u64 \<Rightarrow> u64 \<Rightarrow> ('d, 'w) sched \<Rightarrow> int \<times> ('d, 'w) sched" where
  "scheduler_add_task fp fn arg s =
     (if fn = 0 then (- 1, s)
      else case find (\<lambda>i. registered fn arg (g_tasks s ! i)) [0..<SCHEDULER_MAX_TASKS] of
        Some i \<Rightarrow> (int i, s)
      | None \<Rightarrow> (case find (\<lambda>idx. tk_state (g_tasks s ! idx) = TASK_EMPTY) (slot_order s) of
          Some idx \<Rightarrow> (int idx, (upd_task idx (new_entry fp fn arg) s)
            \<lparr>g_task_count := g_task_count s + 1, g_next_index := (idx + 1) mod SCHEDULER_MAX_TASKS\<rparr>)
        | None \<Rightarrow> (- 1, s)))"

definition clear_entry :: "'d fp \<Rightarrow> 'd task_entry \<Rightarrow> 'd task_entry" where
  "clear_entry fp t = t\<lparr>tk_fn := 0, tk_arg := 0, tk_state := TASK_EMPTY, tk_prio := PRIO_NORMAL,
     sleep_remaining := fp_zero fp, tk_name := (tk_name t)[0 := 0]\<rparr>"

definition scheduler_remove_task :: "'d fp \<Rightarrow> int \<Rightarrow> ('d, 'w) sched \<Rightarrow> ('d, 'w) sched" where
  "scheduler_remove_task fp i s =
     (if \<not> id_valid i then s
      else if tk_state (g_tasks s ! nat i) = TASK_EMPTY then s
      else (upd_task (nat i) (clear_entry fp) s)
        \<lparr>g_task_count := (if g_task_count s > 0 then g_task_count s - 1 else g_task_count s)\<rparr>)"

definition runnable :: "'d task_entry \<Rightarrow> bool" where
  "runnable t \<longleftrightarrow> tk_state t = TASK_READY \<and> tk_fn t \<noteq> 0"

text \<open>One priority band: the cursor is read again for every slot, a task may have moved it.\<close>

fun run_band :: "'d fp \<Rightarrow> ('d, 'w) task_call \<Rightarrow> 'd \<Rightarrow> int \<Rightarrow> nat list \<Rightarrow> ('d, 'w) sched \<Rightarrow> ('d, 'w) sched" where
  "run_band fp call dt prio [] s = s"
| "run_band fp call dt prio (i # is) s =
     (let idx = (g_next_index s + i) mod SCHEDULER_MAX_TASKS in
      run_band fp call dt prio is
        (if runnable (g_tasks s ! idx) \<and> sint (tk_prio (g_tasks s ! idx)) = prio then run_task fp call idx dt s else s))"

definition advance_cursor :: "('d, 'w) sched \<Rightarrow> ('d, 'w) sched" where
  "advance_cursor s = s\<lparr>g_next_index := (g_next_index s + 1) mod SCHEDULER_MAX_TASKS\<rparr>"

definition scheduler_run_all :: "'d fp \<Rightarrow> ('d, 'w) task_call \<Rightarrow> 'd \<Rightarrow> ('d, 'w) sched \<Rightarrow> ('d, 'w) sched" where
  "scheduler_run_all fp call dt s =
     advance_cursor (fold (\<lambda>prio. run_band fp call dt prio [0..<SCHEDULER_MAX_TASKS]) [3, 2, 1, 0] (tick_sleep_timers fp dt s))"

definition next_runnable :: "('d, 'w) sched \<Rightarrow> nat option" where
  "next_runnable s = find (\<lambda>idx. runnable (g_tasks s ! idx)) (slot_order s)"

definition scheduler_run_once :: "'d fp \<Rightarrow> ('d, 'w) task_call \<Rightarrow> 'd \<Rightarrow> ('d, 'w) sched \<Rightarrow> ('d, 'w) sched" where
  "scheduler_run_once fp call dt s =
     (let s1 = tick_sleep_timers fp dt s in
      case next_runnable s1 of
        None \<Rightarrow> s1
      | Some idx \<Rightarrow> (run_task fp call idx dt s1)\<lparr>g_next_index := (idx + 1) mod SCHEDULER_MAX_TASKS\<rparr>)"

text \<open>The endless loop, as its state after \<open>n\<close> rounds.\<close>

primrec scheduler_run_loop :: "'d fp \<Rightarrow> ('d, 'w) task_call \<Rightarrow> nat \<Rightarrow> ('d, 'w) sched \<Rightarrow> ('d, 'w) sched" where
  "scheduler_run_loop fp call 0 s = s"
| "scheduler_run_loop fp call (Suc n) s = scheduler_run_loop fp call n (scheduler_run_once fp call (fp_zero fp) s)"

definition scheduler_set_priority :: "int \<Rightarrow> u32 \<Rightarrow> ('d, 'w) sched \<Rightarrow> ('d, 'w) sched" where
  "scheduler_set_priority i prio s =
     (if \<not> id_valid i then s
      else if tk_state (g_tasks s ! nat i) = TASK_EMPTY then s
      else upd_task (nat i) (\<lambda>t. t\<lparr>tk_prio := prio\<rparr>) s)"

definition scheduler_suspend :: "int \<Rightarrow> ('d, 'w) sched \<Rightarrow> ('d, 'w) sched" where
  "scheduler_suspend i s =
     (if \<not> id_valid i then s
      else if tk_state (g_tasks s ! nat i) = TASK_READY then upd_task (nat i) (\<lambda>t. t\<lparr>tk_state := TASK_SUSPENDED\<rparr>) s
      else s)"

definition scheduler_resume :: "'d fp \<Rightarrow> int \<Rightarrow> ('d, 'w) sched \<Rightarrow> ('d, 'w) sched" where
  "scheduler_resume fp i s =
     (if \<not> id_valid i then s
      else if tk_state (g_tasks s ! nat i) = TASK_SUSPENDED \<or> tk_state (g_tasks s ! nat i) = TASK_SLEEPING
      then upd_task (nat i) (\<lambda>t. t\<lparr>sleep_remaining := fp_zero fp, tk_state := TASK_READY\<rparr>) s
      else s)"

definition scheduler_sleep :: "'d fp \<Rightarrow> int \<Rightarrow> 'd \<Rightarrow> ('d, 'w) sched \<Rightarrow> ('d, 'w) sched" where
  "scheduler_sleep fp i seconds s =
     (if \<not> id_valid i then s
      else if tk_state (g_tasks s ! nat i) = TASK_EMPTY then s
      else if fp_le fp seconds (fp_zero fp) then s
      else upd_task (nat i) (\<lambda>t. t\<lparr>sleep_remaining := seconds, tk_state := TASK_SLEEPING\<rparr>) s)"

definition scheduler_remove_by_fn :: "'d fp \<Rightarrow> u64 \<Rightarrow> ('d, 'w) sched \<Rightarrow> ('d, 'w) sched" where
  "scheduler_remove_by_fn fp fn s =
     (if fn = 0 then s
      else fold (\<lambda>i t. if tk_state (g_tasks t ! i) \<noteq> TASK_EMPTY \<and> tk_fn (g_tasks t ! i) = fn
                       then scheduler_remove_task fp (int i) t else t) [0..<SCHEDULER_MAX_TASKS] s)"

end
