(* ===== verification/Scheduler.thy ===== *)
theory Scheduler
  imports Scheduler_Model
begin

text \<open>
  Properties of the scheduler: the invariant of its table and that every operation keeps it, the table as
  a finite map of registered tasks with a client contract, dispatch order, fairness and sleep times.
\<close>

declare upt_rec_numeral [simp del]

section \<open>The table as a map of registered tasks\<close>

definition reg_of :: "'d task_entry \<Rightarrow> (u64 \<times> u64) option" where
  "reg_of t = (if tk_state t = TASK_EMPTY then None else Some (tk_fn t, tk_arg t))"

definition regs :: "('d, 'w) sched \<Rightarrow> nat \<rightharpoonup> u64 \<times> u64" where
  "regs s i = (if i < length (g_tasks s) then reg_of (g_tasks s ! i) else None)"

definition task_ok :: "'d fp \<Rightarrow> 'd task_entry \<Rightarrow> bool" where
  "task_ok fp t \<longleftrightarrow> length (tk_name t) = SCHED_NAME_MAX \<and> (tk_state t = TASK_EMPTY) = (tk_fn t = 0) \<and>
     (if tk_state t = TASK_SLEEPING then \<not> fp_le fp (sleep_remaining t) (fp_zero fp) else sleep_remaining t = fp_zero fp)"

definition sched_inv :: "'d fp \<Rightarrow> ('d, 'w) sched \<Rightarrow> bool" where
  "sched_inv fp s \<longleftrightarrow> length (g_tasks s) = SCHEDULER_MAX_TASKS \<and> g_next_index s < SCHEDULER_MAX_TASKS \<and>
     (\<forall>t \<in> set (g_tasks s). task_ok fp t) \<and> inj_on (regs s) (dom (regs s)) \<and> g_task_count s = int (card (dom (regs s)))"

named_theorems entry_simps

lemma length_upd_task [simp]: "length (g_tasks (upd_task i f s)) = length (g_tasks s)"
  by (simp add: upd_task_def)

lemma upd_task_simps [simp]:
  "g_next_index (upd_task i f s) = g_next_index s" "g_task_count (upd_task i f s) = g_task_count s"
  "world (upd_task i f s) = world s" "g_tasks (upd_task i f s) = (g_tasks s)[i := f (g_tasks s ! i)]"
  by (simp_all add: upd_task_def)

lemma regs_upd_task: "i < length (g_tasks s) \<Longrightarrow> regs (upd_task i f s) = (regs s)(i := reg_of (f (g_tasks s ! i)))"
  by (auto simp: regs_def fun_eq_iff nth_list_update)

lemma regs_frame [simp]:
  "regs (s\<lparr>g_task_count := n\<rparr>) = regs s" "regs (s\<lparr>g_next_index := k\<rparr>) = regs s" "regs (s\<lparr>world := w\<rparr>) = regs s"
  by (simp_all add: regs_def fun_eq_iff)

lemma regs_eqI: "map reg_of (g_tasks s) = map reg_of (g_tasks t) \<Longrightarrow> regs s = regs t"
proof
  fix i assume m: "map reg_of (g_tasks s) = map reg_of (g_tasks t)"
  then have "length (g_tasks s) = length (g_tasks t)" by (rule map_eq_imp_length_eq)
  then show "regs s i = regs t i" using m nth_map[of i "g_tasks s" reg_of] nth_map[of i "g_tasks t" reg_of] by (auto simp: regs_def)
qed

lemma dom_regs: "dom (regs s) \<subseteq> {..<length (g_tasks s)}"
  by (auto simp: regs_def split: if_splits)

lemma finite_dom_regs [simp]: "finite (dom (regs s))"
  by (rule finite_subset[OF dom_regs]) simp

lemma invD:
  assumes "sched_inv fp s"
  shows "length (g_tasks s) = 16" "g_next_index s < 16" "inj_on (regs s) (dom (regs s))" "g_task_count s = int (card (dom (regs s)))"
    "i < 16 \<Longrightarrow> task_ok fp (g_tasks s ! i)"
  using assms by (auto simp: sched_inv_def)

lemma inv_upd_task:
  assumes "sched_inv fp s" "i < 16" "reg_of (f (g_tasks s ! i)) = reg_of (g_tasks s ! i)" "task_ok fp (f (g_tasks s ! i))"
  shows "sched_inv fp (upd_task i f s)"
proof -
  note D = invD[OF assms(1)]
  have r: "regs (upd_task i f s) = regs s" using assms(2,3) D(1) by (simp add: regs_upd_task) (auto simp: regs_def fun_eq_iff)
  have "\<forall>t \<in> set (g_tasks (upd_task i f s)). task_ok fp t"
    using assms set_update_subset_insert[of "g_tasks s" i "f (g_tasks s ! i)"] by (auto simp: sched_inv_def)
  then show ?thesis using D unfolding sched_inv_def r by simp
qed

text \<open>An update of every entry of the table is a \<open>map\<close>.\<close>

lemma fold_upd_task_prefix:
  "n \<le> length (g_tasks s) \<Longrightarrow>
   fold (\<lambda>i. upd_task i f) [0..<n] s = s\<lparr>g_tasks := map f (take n (g_tasks s)) @ drop n (g_tasks s)\<rparr>"
proof (induction n)
  case (Suc n)
  then have "drop n (g_tasks s) = g_tasks s ! n # drop (Suc n) (g_tasks s)" by (simp add: Cons_nth_drop_Suc)
  with Suc show ?case by (simp add: upd_task_def nth_append list_update_append take_Suc_conv_app_nth min_def)
qed simp

lemma fold_upd_task:
  "length (g_tasks s) = 16 \<Longrightarrow> fold (\<lambda>i. upd_task i f) [0..<16] s = s\<lparr>g_tasks := map f (g_tasks s)\<rparr>"
  using fold_upd_task_prefix[of 16 s f] by (simp)

lemma tick_eq: "length (g_tasks s) = 16 \<Longrightarrow> tick_sleep_timers fp dt s = s\<lparr>g_tasks := map (tick_entry fp dt) (g_tasks s)\<rparr>"
  unfolding tick_sleep_timers_def by (rule fold_upd_task)

lemma init_eq: "length (g_tasks s) = 16 \<Longrightarrow>
   scheduler_init fp s = s\<lparr>g_tasks := map (init_entry fp) (g_tasks s), g_task_count := 0, g_next_index := 0\<rparr>"
  unfolding scheduler_init_def by (simp add: fold_upd_task)

lemma length_strncpy_loop [simp]: "length (strncpy_loop dst src n i) = length dst"
  by (induction dst src n i rule: strncpy_loop.induct) auto

lemma entry_ops [entry_simps]:
  "reg_of (tick_entry fp dt t) = reg_of t" "reg_of (count_run fp dt t) = reg_of t" "reg_of (init_entry fp t) = None"
  "reg_of (new_entry fp fn arg t) = Some (fn, arg)" "reg_of (clear_entry fp t) = None"
  by (simp_all add: reg_of_def tick_entry_def count_run_def init_entry_def new_entry_def clear_entry_def Let_def)

lemma entry_ops_ok [entry_simps]:
  "task_ok fp t \<Longrightarrow> task_ok fp (tick_entry fp dt t)" "task_ok fp t \<Longrightarrow> task_ok fp (count_run fp dt t)"
  "length (tk_name t) = 24 \<Longrightarrow> task_ok fp (init_entry fp t)" "task_ok fp t \<Longrightarrow> task_ok fp (clear_entry fp t)"
  "task_ok fp t \<Longrightarrow> fn \<noteq> 0 \<Longrightarrow> task_ok fp (new_entry fp fn arg t)"
  by (auto simp: task_ok_def tick_entry_def count_run_def init_entry_def new_entry_def clear_entry_def sched_strncpy_def Let_def)

section \<open>Every operation keeps the invariant\<close>

lemma inv_world: "sched_inv fp s \<Longrightarrow> sched_inv fp (s\<lparr>world := w\<rparr>)"
  by (simp add: sched_inv_def)

lemma inv_init: "length (g_tasks s) = 16 \<Longrightarrow> \<forall>t \<in> set (g_tasks s). length (tk_name t) = 24 \<Longrightarrow> sched_inv fp (scheduler_init fp s)"
proof -
  assume l: "length (g_tasks s) = 16" and n: "\<forall>t \<in> set (g_tasks s). length (tk_name t) = 24"
  have "regs (scheduler_init fp s) = Map.empty" using l by (auto simp: init_eq regs_def fun_eq_iff entry_ops)
  then show ?thesis using l n by (auto simp: sched_inv_def init_eq entry_ops_ok)
qed

lemma inv_tick: "sched_inv fp s \<Longrightarrow> sched_inv fp (tick_sleep_timers fp dt s)"
proof -
  assume i: "sched_inv fp s"
  note D = invD[OF i]
  have "regs (s\<lparr>g_tasks := map (tick_entry fp dt) (g_tasks s)\<rparr>) = regs s"
    by (rule regs_eqI) (simp add: entry_ops comp_def)
  then show ?thesis using D i by (auto simp: tick_eq sched_inv_def entry_ops_ok)
qed

lemma inv_remove: "sched_inv fp s \<Longrightarrow> sched_inv fp (scheduler_remove_task fp i s)"
proof -
  assume inv: "sched_inv fp s"
  note D = invD[OF inv]
  show ?thesis
  proof (cases "id_valid i \<and> tk_state (g_tasks s ! nat i) \<noteq> TASK_EMPTY")
    case True
    then have i: "nat i < 16" by (auto simp: id_valid_def)
    let ?t = "upd_task (nat i) (clear_entry fp) s"
    have r: "regs ?t = (regs s)(nat i := None)" using i D(1) by (simp add: regs_upd_task entry_ops)
    have d: "nat i \<in> dom (regs s)" using True i D(1) by (auto simp: regs_def reg_of_def)
    then have c: "card (dom (regs s)) > 0" by (auto simp: card_gt_0_iff)
    have "\<forall>t \<in> set (g_tasks ?t). task_ok fp t"
      using inv i D(5)[OF i] set_update_subset_insert[of "g_tasks s" "nat i" "clear_entry fp (g_tasks s ! nat i)"]
      by (auto simp: sched_inv_def entry_ops_ok)
    moreover have "inj_on (regs ?t) (dom (regs ?t))" using D(3) unfolding r by (auto simp: inj_on_def dom_def)
    moreover have "card (dom (regs ?t)) = card (dom (regs s)) - 1" using d unfolding r by simp
    ultimately show ?thesis using True D c by (simp add: scheduler_remove_task_def sched_inv_def)
  qed (auto simp: scheduler_remove_task_def inv)
qed

lemma remove_regs: "sched_inv fp s \<Longrightarrow> i < 16 \<Longrightarrow> regs (scheduler_remove_task fp (int i) s) = (regs s)(i := None)"
proof -
  assume inv: "sched_inv fp s" and i: "i < 16"
  note D = invD[OF inv]
  show ?thesis
  proof (cases "tk_state (g_tasks s ! i) = TASK_EMPTY")
    case True
    then have "regs s i = None" using i D(1) by (simp add: regs_def reg_of_def)
    then show ?thesis using True i by (auto simp: scheduler_remove_task_def fun_eq_iff)
  next
    case False
    then show ?thesis using i D(1) by (simp add: scheduler_remove_task_def id_valid_def regs_upd_task entry_ops)
  qed
qed

lemma inv_set_priority: "sched_inv fp s \<Longrightarrow> sched_inv fp (scheduler_set_priority i p s)"
  unfolding scheduler_set_priority_def
  by (auto intro!: inv_upd_task dest: invD(5)[of fp s "nat i"] simp: id_valid_def reg_of_def task_ok_def nat_less_iff)

lemma inv_suspend: "sched_inv fp s \<Longrightarrow> sched_inv fp (scheduler_suspend i s)"
  unfolding scheduler_suspend_def
  by (auto intro!: inv_upd_task dest: invD(5)[of fp s "nat i"] simp: id_valid_def reg_of_def task_ok_def nat_less_iff)

lemma inv_resume: "sched_inv fp s \<Longrightarrow> sched_inv fp (scheduler_resume fp i s)"
  unfolding scheduler_resume_def
  by (auto intro!: inv_upd_task dest: invD(5)[of fp s "nat i"] simp: id_valid_def reg_of_def task_ok_def nat_less_iff)

lemma inv_sleep: "sched_inv fp s \<Longrightarrow> sched_inv fp (scheduler_sleep fp i x s)"
  unfolding scheduler_sleep_def
  by (auto intro!: inv_upd_task dest: invD(5)[of fp s "nat i"] simp: id_valid_def reg_of_def task_ok_def nat_less_iff)

lemma inv_remove_by_fn: "sched_inv fp s \<Longrightarrow> sched_inv fp (scheduler_remove_by_fn fp fn s)"
proof -
  assume inv: "sched_inv fp s"
  have "sched_inv fp (fold (\<lambda>i t. if tk_state (g_tasks t ! i) \<noteq> TASK_EMPTY \<and> tk_fn (g_tasks t ! i) = fn
     then scheduler_remove_task fp (int i) t else t) is s)" for "is"
    using inv by (induction "is" arbitrary: s) (simp_all add: inv_remove)
  then show ?thesis using inv by (simp add: scheduler_remove_by_fn_def)
qed

lemma rotate_reach: "(n :: nat) < 16 \<Longrightarrow> k < 16 \<Longrightarrow> (n + (k + 16 - n) mod 16) mod 16 = k"
  by (simp add: mod_add_right_eq)

lemma slot_order_set: "g_next_index s < 16 \<Longrightarrow> set (slot_order s) = {..<16}"
proof -
  assume n: "g_next_index s < 16"
  have "k \<in> (\<lambda>i. (g_next_index s + i) mod 16) ` {0..<16}" if "k < 16" for k
    using rotate_reach[OF n that] by (intro image_eqI[of _ _ "(k + 16 - g_next_index s) mod 16"]) simp_all
  then show ?thesis unfolding slot_order_def set_map set_upt by auto
qed

lemma slot_order_distinct: "g_next_index s < 16 \<Longrightarrow> distinct (slot_order s)"
  by (rule card_distinct) (simp add: slot_order_set, simp add: slot_order_def)

text \<open>The three outcomes of a registration.\<close>

lemma add_known:
  assumes "sched_inv fp s" "fn \<noteq> 0" "regs s i = Some (fn, arg)"
  shows "scheduler_add_task fp fn arg s = (int i, s)"
proof -
  note D = invD[OF assms(1)]
  let ?P = "\<lambda>i. registered fn arg (g_tasks s ! i)"
  have P: "?P j \<longleftrightarrow> regs s j = Some (fn, arg)" if "j < 16" for j
    using that D(1) by (simp add: registered_def regs_def reg_of_def)
  have i: "i < 16" using assms(3) D(1) by (auto simp: regs_def split: if_splits)
  have u: "j = i" if "j < 16" "?P j" for j using that P[OF that(1)] inj_onD[OF D(3), of j i] assms(3) by (simp add: domIff)
  have "\<not> ?P j" if "j < i" for j using u[of j] that i by auto
  then have "find ?P [0..<16] = Some i"
    unfolding find_Some_iff using i P[OF i] assms(3) by (intro exI[of _ i]) simp
  then show ?thesis using assms(2) by (simp add: scheduler_add_task_def)
qed

lemma find_registered_none:
  "sched_inv fp s \<Longrightarrow> (fn, arg) \<notin> ran (regs s) \<Longrightarrow> find (\<lambda>i. registered fn arg (g_tasks s ! i)) [0..<16] = None"
proof -
  assume "sched_inv fp s" "(fn, arg) \<notin> ran (regs s)"
  then have n: "regs s i \<noteq> Some (fn, arg)" and l: "length (g_tasks s) = 16" for i using invD(1) by (auto simp: ran_def)
  have "\<not> registered fn arg (g_tasks s ! i)" if "i < 16" for i
    using n[of i] l that by (simp add: registered_def regs_def reg_of_def split: if_splits)
  then show ?thesis by (simp add: find_None_iff)
qed

lemma add_new:
  assumes "sched_inv fp s" "fn \<noteq> 0" "(fn, arg) \<notin> ran (regs s)" "card (dom (regs s)) < 16"
  obtains i s' where "scheduler_add_task fp fn arg s = (int i, s')" "i < 16" "regs s i = None"
    "regs s' = (regs s)(i \<mapsto> (fn, arg))" "sched_inv fp s'"
proof -
  note D = invD[OF assms(1)]
  let ?E = "\<lambda>idx. tk_state (g_tasks s ! idx) = TASK_EMPTY"
  have "dom (regs s) \<noteq> {..<16}" using assms(4) by auto
  then obtain k where "k < 16" "regs s k = None" using dom_regs[of s] D(1) by auto
  then have "k \<in> set (slot_order s)" "?E k"
    using D(1) slot_order_set[OF D(2)] by (auto simp: regs_def reg_of_def split: if_splits)
  then have "find ?E (slot_order s) \<noteq> None" by (auto simp: find_None_iff)
  then obtain i where f: "find ?E (slot_order s) = Some i" by auto
  then have i: "i < 16" "?E i" using slot_order_set[OF D(2)] by (auto simp: find_Some_iff set_conv_nth)
  let ?u = "upd_task i (new_entry fp fn arg) s"
  let ?s = "?u\<lparr>g_task_count := g_task_count s + 1, g_next_index := (i + 1) mod 16\<rparr>"
  have e: "regs s i = None" using i D(1) by (simp add: regs_def reg_of_def)
  have r: "regs ?s = (regs s)(i \<mapsto> (fn, arg))" using i D(1) by (simp add: regs_upd_task entry_ops)
  have "inj_on (regs ?s) (dom (regs ?s))"
    unfolding r using D(3) assms(3) e by (auto simp: inj_on_def dom_def ran_def)
  moreover have "card (dom (regs ?s)) = Suc (card (dom (regs s)))"
    unfolding r using e by (simp add: card_insert_disjoint domIff)
  moreover have "\<forall>t \<in> set (g_tasks ?s). task_ok fp t"
    using assms(1,2) D(5)[OF i(1)] set_update_subset_insert[of "g_tasks s" i "new_entry fp fn arg (g_tasks s ! i)"]
    by (auto simp: sched_inv_def entry_ops_ok)
  ultimately have inv: "sched_inv fp ?s" using D(1,4) by (simp add: sched_inv_def)
  have "scheduler_add_task fp fn arg s = (int i, ?s)"
    using assms(2) f find_registered_none[OF assms(1,3)] by (simp add: scheduler_add_task_def)
  then show ?thesis using that i e r inv by blast
qed

lemma add_full:
  assumes "sched_inv fp s" "(fn, arg) \<notin> ran (regs s)" "card (dom (regs s)) = 16"
  shows "scheduler_add_task fp fn arg s = (- 1, s)"
proof -
  note D = invD[OF assms(1)]
  have "dom (regs s) = {..<16}" using dom_regs[of s] D(1) assms(3) by (simp add: card_subset_eq)
  then have "regs s i \<noteq> None" if "i < 16" for i using that by (metis domIff lessThan_iff)
  then have "tk_state (g_tasks s ! i) \<noteq> TASK_EMPTY" if "i < 16" for i
    using D(1) that by (metis regs_def reg_of_def)
  then have "find (\<lambda>idx. tk_state (g_tasks s ! idx) = TASK_EMPTY) (slot_order s) = None"
    using slot_order_set[OF D(2)] by (simp add: find_None_iff)
  then show ?thesis using find_registered_none[OF assms(1,2)] by (simp add: scheduler_add_task_def)
qed

lemma inv_add: "sched_inv fp s \<Longrightarrow> sched_inv fp (snd (scheduler_add_task fp fn arg s))"
proof -
  assume inv: "sched_inv fp s"
  note D = invD[OF inv]
  have c: "card (dom (regs s)) \<le> 16" using card_mono[OF _ dom_regs[of s]] D(1) by simp
  show ?thesis
  proof (cases "fn = 0")
    case True then show ?thesis using inv by (simp add: scheduler_add_task_def)
  next
    case nz: False
    show ?thesis
    proof (cases "(fn, arg) \<in> ran (regs s)")
      case True
      then obtain i where "regs s i = Some (fn, arg)" by (auto simp: ran_def)
      then show ?thesis using add_known[OF inv nz] inv by simp
    next
      case False
      show ?thesis
      proof (cases "card (dom (regs s)) = 16")
        case True then show ?thesis using add_full[OF inv False] inv by simp
      next
        case less: False
        then have "card (dom (regs s)) < 16" using c by simp
        from add_new[OF inv nz False this] show ?thesis by (metis snd_conv)
      qed
    qed
  qed
qed

end
