(* ===== verification/Scheduler_Correct.thy ===== *)
theory Scheduler_Correct
  imports Scheduler
begin

text \<open>
  The scheduler towards its clients: the registry contract and its interpretation, states reachable
  through the interface with tasks that call back into it, dispatch order, fairness and sleep times.
\<close>

section \<open>The registry contract\<close>

locale task_registry =
  fixes add :: "u64 \<Rightarrow> u64 \<Rightarrow> 's \<Rightarrow> int \<times> 's" and remove :: "int \<Rightarrow> 's \<Rightarrow> 's"
    and tasks :: "'s \<Rightarrow> nat \<rightharpoonup> u64 \<times> u64" and inv :: "'s \<Rightarrow> bool" and cap :: nat
  assumes add_same: "\<And>s fn arg i. inv s \<Longrightarrow> fn \<noteq> 0 \<Longrightarrow> tasks s i = Some (fn, arg) \<Longrightarrow> add fn arg s = (int i, s)"
    and add_fresh: "\<And>s fn arg. inv s \<Longrightarrow> fn \<noteq> 0 \<Longrightarrow> (fn, arg) \<notin> ran (tasks s) \<Longrightarrow> card (dom (tasks s)) < cap \<Longrightarrow>
      \<exists>i s'. add fn arg s = (int i, s') \<and> i < cap \<and> tasks s i = None \<and> tasks s' = (tasks s)(i \<mapsto> (fn, arg)) \<and> inv s'"
    and add_over: "\<And>s fn arg. inv s \<Longrightarrow> (fn, arg) \<notin> ran (tasks s) \<Longrightarrow> card (dom (tasks s)) = cap \<Longrightarrow> add fn arg s = (- 1, s)"
    and remove_tasks: "\<And>s i. inv s \<Longrightarrow> i < cap \<Longrightarrow> tasks (remove (int i) s) = (tasks s)(i := None) \<and> inv (remove (int i) s)"
    and tasks_finite: "\<And>s. finite (dom (tasks s))"
begin

primrec add_all :: "(u64 \<times> u64) list \<Rightarrow> 's \<Rightarrow> 's" where
  "add_all [] s = s"
| "add_all (t # ts) s = add_all ts (snd (add (fst t) (snd t) s))"

lemma add_twice:
  assumes "inv s" "fn \<noteq> 0" "(fn, arg) \<notin> ran (tasks s)" "card (dom (tasks s)) < cap"
  shows "add fn arg (snd (add fn arg s)) = add fn arg s"
proof -
  obtain i s' where a: "add fn arg s = (int i, s')" "tasks s' = (tasks s)(i \<mapsto> (fn, arg))" "inv s'"
    using add_fresh[OF assms] by blast
  then show ?thesis using add_same[of s' fn i arg] assms(2) by simp
qed

lemma add_remove:
  assumes "inv s" "fn \<noteq> 0" "(fn, arg) \<notin> ran (tasks s)" "card (dom (tasks s)) < cap"
  shows "tasks (case add fn arg s of (i, s') \<Rightarrow> remove i s') = tasks s"
proof -
  obtain i s' where a: "add fn arg s = (int i, s')" "i < cap" "tasks s i = None" "tasks s' = (tasks s)(i \<mapsto> (fn, arg))" "inv s'"
    using add_fresh[OF assms] by blast
  have "tasks (remove (int i) s') = (tasks s)(i := None)" using remove_tasks[OF a(5,2)] a(4) by simp
  then show ?thesis using a(1,3) by (simp add: fun_upd_idem)
qed

lemma add_all_fit:
  "inv s \<Longrightarrow> distinct ts \<Longrightarrow> \<forall>t \<in> set ts. fst t \<noteq> 0 \<Longrightarrow> set ts \<inter> ran (tasks s) = {} \<Longrightarrow> card (dom (tasks s)) + length ts \<le> cap \<Longrightarrow>
   inv (add_all ts s) \<and> ran (tasks (add_all ts s)) = ran (tasks s) \<union> set ts \<and>
   card (dom (tasks (add_all ts s))) = card (dom (tasks s)) + length ts"
proof (induction ts arbitrary: s)
  case (Cons t ts)
  obtain fn arg where t: "t = (fn, arg)" by (cases t)
  obtain i s' where a: "add fn arg s = (int i, s')" "tasks s i = None" "tasks s' = (tasks s)(i \<mapsto> (fn, arg))" "inv s'"
    using add_fresh[of s fn arg] Cons.prems by (auto simp: t)
  have r: "ran (tasks s') = insert t (ran (tasks s))" using a(2,3) by (simp add: t)
  have c: "card (dom (tasks s')) = Suc (card (dom (tasks s)))" using a(2,3) tasks_finite[of s] by (simp add: domIff)
  have "set ts \<inter> ran (tasks s') = {}" using Cons.prems(2,4) r by auto
  then show ?case using Cons.IH[OF a(4)] Cons.prems r c a(1) by (simp add: t)
qed simp

end

interpretation registry: task_registry "scheduler_add_task fp" "scheduler_remove_task fp" regs "sched_inv fp" 16 for fp
proof
  fix s :: "('a, 'b) sched" and fn arg
  assume "sched_inv fp s" "fn \<noteq> 0" "(fn, arg) \<notin> ran (regs s)" "card (dom (regs s)) < 16"
  then show "\<exists>i s'. scheduler_add_task fp fn arg s = (int i, s') \<and> i < 16 \<and> regs s i = None \<and> regs s' = (regs s)(i \<mapsto> (fn, arg)) \<and> sched_inv fp s'"
    by (rule add_new) blast
qed (simp_all add: add_known add_full remove_regs inv_remove)

section \<open>Reachable states\<close>

text \<open>One call of the interface, or a change of the memory outside the scheduler.\<close>

inductive api_call :: "'d fp \<Rightarrow> ('d, 'w) sched \<Rightarrow> ('d, 'w) sched \<Rightarrow> bool" for fp where
  add_call: "api_call fp s (snd (scheduler_add_task fp fn arg s))"
| remove_call: "api_call fp s (scheduler_remove_task fp i s)"
| priority_call: "api_call fp s (scheduler_set_priority i p s)"
| suspend_call: "api_call fp s (scheduler_suspend i s)"
| resume_call: "api_call fp s (scheduler_resume fp i s)"
| sleep_call: "api_call fp s (scheduler_sleep fp i x s)"
| remove_by_fn_call: "api_call fp s (scheduler_remove_by_fn fp fn s)"
| outside: "api_call fp s (s\<lparr>world := w\<rparr>)"

text \<open>A task does to the scheduler only what a sequence of such calls does.\<close>

definition well_behaved :: "'d fp \<Rightarrow> ('d, 'w) task_call \<Rightarrow> bool" where
  "well_behaved fp call \<longleftrightarrow> (\<forall>fn arg dt s. (api_call fp)\<^sup>*\<^sup>* s (call fn arg dt s))"

inductive reachable :: "'d fp \<Rightarrow> ('d, 'w) task_call \<Rightarrow> ('d, 'w) sched \<Rightarrow> bool" for fp call where
  start: "length (g_tasks s) = 16 \<Longrightarrow> \<forall>t \<in> set (g_tasks s). length (tk_name t) = 24 \<Longrightarrow> reachable fp call (scheduler_init fp s)"
| called: "reachable fp call s \<Longrightarrow> api_call fp s s' \<Longrightarrow> reachable fp call s'"
| ran_all: "reachable fp call s \<Longrightarrow> reachable fp call (scheduler_run_all fp call dt s)"
| ran_once: "reachable fp call s \<Longrightarrow> reachable fp call (scheduler_run_once fp call dt s)"

lemmas inv_ops = inv_add inv_remove inv_set_priority inv_suspend inv_resume inv_sleep inv_remove_by_fn inv_world

lemma inv_api_call: "api_call fp s s' \<Longrightarrow> sched_inv fp s \<Longrightarrow> sched_inv fp s'"
  by (induction rule: api_call.induct) (simp_all add: inv_ops)

lemma inv_api_calls: "(api_call fp)\<^sup>*\<^sup>* s s' \<Longrightarrow> sched_inv fp s \<Longrightarrow> sched_inv fp s'"
  by (induction rule: rtranclp_induct) (auto intro: inv_api_call)

lemma inv_run_task:
  assumes "well_behaved fp call" "sched_inv fp s" "idx < 16"
  shows "sched_inv fp (run_task fp call idx dt s)"
proof -
  let ?u = "call (tk_fn (g_tasks s ! idx)) (tk_arg (g_tasks s ! idx)) dt s"
  have "sched_inv fp ?u" using assms(1,2) inv_api_calls unfolding well_behaved_def by blast
  then show ?thesis unfolding run_task_def using assms(3) by (intro inv_upd_task) (simp_all add: entry_simps invD)
qed

lemma inv_run_band: "well_behaved fp call \<Longrightarrow> sched_inv fp s \<Longrightarrow> sched_inv fp (run_band fp call dt prio is s)"
  by (induction "is" arbitrary: s) (simp_all add: Let_def inv_run_task)

lemma inv_cursor: "sched_inv fp s \<Longrightarrow> sched_inv fp (s\<lparr>g_next_index := k mod 16\<rparr>)"
  by (simp add: sched_inv_def)

lemma inv_run_all: "well_behaved fp call \<Longrightarrow> sched_inv fp s \<Longrightarrow> sched_inv fp (scheduler_run_all fp call dt s)"
  by (simp add: scheduler_run_all_def advance_cursor_def inv_cursor inv_run_band inv_tick)

lemma next_runnable_slot:
  assumes "sched_inv fp s" "next_runnable s = Some i"
  shows "i < 16" "runnable (g_tasks s ! i)"
proof -
  have "i \<in> set (slot_order s)" "runnable (g_tasks s ! i)"
    using assms(2) by (auto simp: next_runnable_def find_Some_iff set_conv_nth)
  then show "i < 16" "runnable (g_tasks s ! i)" using slot_order_set invD(2)[OF assms(1)] by auto
qed

lemma inv_run_once:
  assumes "well_behaved fp call" "sched_inv fp s"
  shows "sched_inv fp (scheduler_run_once fp call dt s)"
proof -
  have i: "sched_inv fp (tick_sleep_timers fp dt s)" by (rule inv_tick[OF assms(2)])
  show ?thesis
    using i next_runnable_slot(1)[OF i] assms(1)
    by (auto simp: scheduler_run_once_def Let_def intro: inv_cursor inv_run_task split: option.split)
qed

text \<open>
  C9. In every state the scheduler can reach through its interface, with tasks that themselves call the
  interface while they run, the task counter is the number of occupied slots, no two slots hold the same
  function and argument, the cursor is inside the table, exactly the occupied slots have a function, and
  exactly the sleeping tasks have time left.
\<close>
theorem scheduler_invariant:
  assumes "well_behaved fp call" "reachable fp call s"
  shows "sched_inv fp s"
  using assms(2)
  by (induction rule: reachable.induct) (auto intro: inv_init inv_api_call inv_run_all[OF assms(1)] inv_run_once[OF assms(1)])

section \<open>Dispatch with tasks that leave the scheduler alone\<close>

definition quiet_call :: "('d, 'w) task_call \<Rightarrow> bool" where
  "quiet_call call \<longleftrightarrow> (\<forall>fn arg dt s. g_tasks (call fn arg dt s) = g_tasks s \<and>
     g_next_index (call fn arg dt s) = g_next_index s \<and> g_task_count (call fn arg dt s) = g_task_count s)"

text \<open>What dispatch looks at in an entry.\<close>

definition static :: "'d task_entry \<Rightarrow> task_state \<times> u64 \<times> u32 \<times> 'd" where
  "static t = (tk_state t, tk_fn t, tk_prio t, sleep_remaining t)"

lemma static_eqD:
  assumes "map static (g_tasks s) = map static (g_tasks t)" "i < length (g_tasks s)"
  shows "runnable (g_tasks s ! i) = runnable (g_tasks t ! i)" "tk_prio (g_tasks s ! i) = tk_prio (g_tasks t ! i)"
    "tk_state (g_tasks s ! i) = tk_state (g_tasks t ! i)" "sleep_remaining (g_tasks s ! i) = sleep_remaining (g_tasks t ! i)"
proof -
  have "static (g_tasks s ! i) = static (g_tasks t ! i)"
    using assms nth_map[of i "g_tasks s" static] nth_map[of i "g_tasks t" static] map_eq_imp_length_eq[OF assms(1)] by simp
  then show "runnable (g_tasks s ! i) = runnable (g_tasks t ! i)" "tk_prio (g_tasks s ! i) = tk_prio (g_tasks t ! i)"
    "tk_state (g_tasks s ! i) = tk_state (g_tasks t ! i)" "sleep_remaining (g_tasks s ! i) = sleep_remaining (g_tasks t ! i)"
    by (simp_all add: static_def runnable_def)
qed

lemma quiet_run_task:
  assumes "quiet_call call"
  shows "map static (g_tasks (run_task fp call i dt s)) = map static (g_tasks s)"
    "g_next_index (run_task fp call i dt s) = g_next_index s" "length (g_tasks (run_task fp call i dt s)) = length (g_tasks s)"
proof -
  have "static (count_run fp dt t) = static t" for t by (simp add: static_def count_run_def)
  then show "map static (g_tasks (run_task fp call i dt s)) = map static (g_tasks s)"
    using assms by (simp add: run_task_def quiet_call_def map_update list_update_same_conv)
      (metis length_map list_update_beyond list_update_id not_le nth_map)
qed (use assms in \<open>simp_all add: run_task_def quiet_call_def\<close>)

definition due :: "int \<Rightarrow> ('d, 'w) sched \<Rightarrow> nat \<Rightarrow> bool" where
  "due prio s idx \<longleftrightarrow> runnable (g_tasks s ! idx) \<and> sint (tk_prio (g_tasks s ! idx)) = prio"

definition dispatch_order :: "('d, 'w) sched \<Rightarrow> nat list" where
  "dispatch_order s = concat (map (\<lambda>prio. filter (due prio s) (slot_order s)) [3, 2, 1, 0])"

lemma run_band_Cons:
  "run_band fp call dt prio (i # is) s = run_band fp call dt prio is
     (if due prio s ((g_next_index s + i) mod 16) then run_task fp call ((g_next_index s + i) mod 16) dt s else s)"
  by (simp add: due_def Let_def)

lemma quiet_run_band:
  assumes q: "quiet_call call"
  shows "length (g_tasks s) = 16 \<Longrightarrow> run_band fp call dt prio is s =
    fold (\<lambda>idx. run_task fp call idx dt) (filter (due prio s) (map (\<lambda>i. (g_next_index s + i) mod 16) is)) s"
proof (induction "is" arbitrary: s)
  case (Cons i "is")
  let ?idx = "(g_next_index s + i) mod 16"
  let ?s = "run_task fp call ?idx dt s"
  have "due prio ?s j = due prio s j" if "j < 16" for j
    using static_eqD[OF quiet_run_task(1)[OF q, of fp ?idx dt s, symmetric], of j] that Cons.prems by (simp add: due_def)
  then have "filter (due prio ?s) (map (\<lambda>i. (g_next_index s + i) mod 16) is) = filter (due prio s) (map (\<lambda>i. (g_next_index s + i) mod 16) is)"
    by (intro filter_cong) auto
  then show ?case using Cons.IH[of ?s] Cons.IH[of s] Cons.prems quiet_run_task[OF q, of fp ?idx dt s] by (simp add: run_band_Cons del: run_band.simps)
qed simp

lemma quiet_fold:
  assumes q: "quiet_call call"
  shows "map static (g_tasks (fold (\<lambda>idx. run_task fp call idx dt) xs s)) = map static (g_tasks s)"
    "g_next_index (fold (\<lambda>idx. run_task fp call idx dt) xs s) = g_next_index s"
  by (induction xs arbitrary: s) (simp_all add: quiet_run_task[OF q])

lemma slot_order_cong: "g_next_index s = g_next_index t \<Longrightarrow> slot_order s = slot_order t"
  by (simp add: slot_order_def)

lemma quiet_bands:
  assumes q: "quiet_call call" and "sched_inv fp s"
  shows "fold (\<lambda>prio. run_band fp call dt prio [0..<16]) ps s =
    fold (\<lambda>idx. run_task fp call idx dt) (concat (map (\<lambda>prio. filter (due prio s) (slot_order s)) ps)) s"
proof -
  note D = invD[OF assms(2)]
  have "map static (g_tasks t) = map static (g_tasks s) \<Longrightarrow> g_next_index t = g_next_index s \<Longrightarrow>
    fold (\<lambda>prio. run_band fp call dt prio [0..<16]) ps t =
    fold (\<lambda>idx. run_task fp call idx dt) (concat (map (\<lambda>prio. filter (due prio s) (slot_order s)) ps)) t" for t
  proof (induction ps arbitrary: t)
    case (Cons p ps)
    have l: "length (g_tasks t) = 16" using map_eq_imp_length_eq[OF Cons.prems(1)] D(1) by simp
    have "due p t j = due p s j" if "j < 16" for j using static_eqD[OF Cons.prems(1), of j] l that by (simp add: due_def)
    then have "filter (due p t) (slot_order s) = filter (due p s) (slot_order s)"
      using slot_order_set[OF D(2)] by (intro filter_cong) auto
    then have "run_band fp call dt p [0..<16] t = fold (\<lambda>idx. run_task fp call idx dt) (filter (due p s) (slot_order s)) t"
      using quiet_run_band[OF q l, of fp dt p "[0..<16]"] Cons.prems(2) by (simp add: slot_order_def)
    then show ?case using Cons quiet_fold[OF q] by simp
  qed simp
  then show ?thesis by simp
qed

lemma small_prio: "(tk_prio t \<in> {0, 1, 2, 3}) = (sint (tk_prio t) \<in> {3, 2, 1, 0})"
proof -
  have e: "(sint p = sint q) = (p = q)" for p q :: u32 by (auto intro: signed_word_eqI)
  show ?thesis using e[of "tk_prio t" 0] e[of "tk_prio t" 1] e[of "tk_prio t" 2] e[of "tk_prio t" 3] by auto
qed

lemma dispatch_order_set:
  "sched_inv fp s \<Longrightarrow> set (dispatch_order s) = {i. i < 16 \<and> runnable (g_tasks s ! i) \<and> tk_prio (g_tasks s ! i) \<in> {0, 1, 2, 3}}"
  unfolding small_prio using slot_order_set[OF invD(2)] by (auto simp: dispatch_order_def due_def)

lemma dispatch_order_distinct: "sched_inv fp s \<Longrightarrow> distinct (dispatch_order s)"
  by (auto simp: dispatch_order_def due_def slot_order_distinct invD(2))

lemma dispatch_order_sorted: "sorted_wrt (\<lambda>i j. sint (tk_prio (g_tasks s ! i)) \<ge> sint (tk_prio (g_tasks s ! j))) (dispatch_order s)"
proof -
  have "sorted_wrt (\<lambda>i j. sint (tk_prio (g_tasks s ! i)) \<ge> sint (tk_prio (g_tasks s ! j))) (filter (due p s) xs)" for p xs
    by (induction xs) (auto simp: due_def)
  then show ?thesis by (auto simp: dispatch_order_def sorted_wrt_append due_def)
qed

text \<open>
  C32. When tasks leave the scheduler alone, one frame of \<^verbatim>\<open>scheduler_run_all\<close> runs every ready task of a
  valid priority exactly once, and no other, from the highest priority to the lowest, and then moves the
  cursor on by one slot.
\<close>
theorem run_all_dispatches:
  assumes "quiet_call call" "sched_inv fp s"
  shows "scheduler_run_all fp call dt s =
      advance_cursor (fold (\<lambda>idx. run_task fp call idx dt) (dispatch_order (tick_sleep_timers fp dt s)) (tick_sleep_timers fp dt s)) \<and>
    distinct (dispatch_order (tick_sleep_timers fp dt s)) \<and>
    set (dispatch_order (tick_sleep_timers fp dt s)) = {i. i < 16 \<and> runnable (g_tasks (tick_sleep_timers fp dt s) ! i) \<and>
      tk_prio (g_tasks (tick_sleep_timers fp dt s) ! i) \<in> {0, 1, 2, 3}} \<and>
    sorted_wrt (\<lambda>i j. sint (tk_prio (g_tasks (tick_sleep_timers fp dt s) ! i)) \<ge> sint (tk_prio (g_tasks (tick_sleep_timers fp dt s) ! j)))
      (dispatch_order (tick_sleep_timers fp dt s))"
proof -
  have i: "sched_inv fp (tick_sleep_timers fp dt s)" by (rule inv_tick[OF assms(2)])
  have "scheduler_run_all fp call dt s =
      advance_cursor (fold (\<lambda>idx. run_task fp call idx dt) (dispatch_order (tick_sleep_timers fp dt s)) (tick_sleep_timers fp dt s))"
    unfolding scheduler_run_all_def quiet_bands[OF assms(1) i] dispatch_order_def by (rule refl)
  then show ?thesis by (intro conjI dispatch_order_set[OF i] dispatch_order_distinct[OF i] dispatch_order_sorted)
qed

section \<open>Fairness\<close>

lemma next_runnable_first:
  assumes "(g_next_index s + d) mod 16 = idx" "d < 16" "runnable (g_tasks s ! idx)"
  obtains m where "m \<le> d" "next_runnable s = Some ((g_next_index s + m) mod 16)"
proof -
  let ?P = "\<lambda>m. runnable (g_tasks s ! ((g_next_index s + m) mod 16))"
  define m where "m = (LEAST m. ?P m)"
  have m: "?P m" "m \<le> d" "\<And>j. j < m \<Longrightarrow> \<not> ?P j"
    using assms LeastI[of ?P d] Least_le[of ?P d] not_less_Least[of _ ?P] unfolding m_def by auto
  then have "next_runnable s = Some ((g_next_index s + m) mod 16)"
    unfolding next_runnable_def find_Some_iff using assms(2) by (intro exI[of _ m]) (simp add: slot_order_def)
  then show ?thesis using that m by blast
qed

lemma tick_runnable: "length (g_tasks s) = 16 \<Longrightarrow> i < 16 \<Longrightarrow> runnable (g_tasks s ! i) \<Longrightarrow> runnable (g_tasks (tick_sleep_timers fp dt s) ! i)"
  by (simp add: tick_eq tick_entry_def runnable_def)

lemma tick_cursor: "length (g_tasks s) = 16 \<Longrightarrow> g_next_index (tick_sleep_timers fp dt s) = g_next_index s"
  by (simp add: tick_eq)

lemma quiet_run_once:
  assumes q: "quiet_call call" and l: "length (g_tasks s) = 16"
  shows "map static (g_tasks (scheduler_run_once fp call dt s)) = map static (g_tasks (tick_sleep_timers fp dt s))"
    "length (g_tasks (scheduler_run_once fp call dt s)) = 16"
    "next_runnable (tick_sleep_timers fp dt s) = Some j \<Longrightarrow> g_next_index (scheduler_run_once fp call dt s) = (j + 1) mod 16"
proof -
  show st: "map static (g_tasks (scheduler_run_once fp call dt s)) = map static (g_tasks (tick_sleep_timers fp dt s))"
    by (simp add: scheduler_run_once_def Let_def quiet_run_task[OF q] split: option.split)
  show "length (g_tasks (scheduler_run_once fp call dt s)) = 16" using map_eq_imp_length_eq[OF st] l by (simp add: tick_eq)
qed (simp add: scheduler_run_once_def)

lemma runs_within:
  assumes q: "quiet_call call"
  shows "length (g_tasks s) = 16 \<Longrightarrow> idx < 16 \<Longrightarrow> runnable (g_tasks s ! idx) \<Longrightarrow> (g_next_index s + d) mod 16 = idx \<Longrightarrow> d < 16 \<Longrightarrow>
   \<exists>k \<le> d. next_runnable (tick_sleep_timers fp dt ((scheduler_run_once fp call dt ^^ k) s)) = Some idx"
proof (induction d arbitrary: s rule: less_induct)
  case (less d)
  let ?t = "tick_sleep_timers fp dt s" and ?u = "scheduler_run_once fp call dt s"
  have r: "runnable (g_tasks ?t ! idx)" "g_next_index ?t = g_next_index s"
    using tick_runnable[OF less.prems(1,2,3)] tick_cursor[OF less.prems(1)] by simp_all
  have "(g_next_index ?t + d) mod 16 = idx" using r(2) less.prems(4) by (simp only:)
  then obtain m where "m \<le> d" "next_runnable ?t = Some ((g_next_index ?t + m) mod 16)"
    by (rule next_runnable_first[OF _ less.prems(5) r(1)])
  then have m: "m \<le> d" "next_runnable ?t = Some ((g_next_index s + m) mod 16)" by (simp_all only: r(2))
  show ?case
  proof (cases "m = d")
    case True
    then show ?thesis using m(2) less.prems(4) by (intro exI[of _ 0]) (simp only: funpow_0 simp_thms le0)
  next
    case False
    note U = quiet_run_once[OF q less.prems(1), of fp dt]
    have lt: "length (g_tasks ?t) = 16" using less.prems(1) by (simp add: tick_eq)
    have ru: "runnable (g_tasks ?u ! idx)" using static_eqD(1)[OF U(1), of idx] r(1) U(2) less.prems(2) by simp
    have "((g_next_index s + m) mod 16 + 1) mod 16 = (g_next_index s + m + 1) mod 16" by (rule mod_add_left_eq)
    then have "(g_next_index ?u + (d - m - 1)) mod 16 = (g_next_index s + m + 1 + (d - m - 1)) mod 16"
      unfolding U(3)[OF m(2)] by (simp only: mod_add_left_eq)
    moreover have "g_next_index s + m + 1 + (d - m - 1) = g_next_index s + d" using m(1) False by simp
    ultimately have at: "(g_next_index ?u + (d - m - 1)) mod 16 = idx" using less.prems(4) by simp
    have "d - m - 1 < d" "d - m - 1 < 16" using less.prems(5) m(1) False by simp_all
    then obtain k where "k \<le> d - m - 1" "next_runnable (tick_sleep_timers fp dt ((scheduler_run_once fp call dt ^^ k) ?u)) = Some idx"
      using less.IH[OF _ U(2) less.prems(2) ru at] by blast
    moreover have "(scheduler_run_once fp call dt ^^ Suc k) s = (scheduler_run_once fp call dt ^^ k) ?u"
      by (simp only: funpow_Suc_right comp_def)
    moreover have "Suc k \<le> d" using \<open>k \<le> d - m - 1\<close> m(1) False by simp
    ultimately show ?thesis by metis
  qed
qed

text \<open>
  C13. Round-robin fairness: with tasks that leave the scheduler alone, every ready task is the one that
  \<^verbatim>\<open>scheduler_run_once\<close> picks within the next sixteen calls, wherever the cursor stands.
\<close>
theorem run_once_fair:
  assumes "quiet_call call" "sched_inv fp s" "idx < 16" "runnable (g_tasks s ! idx)"
  shows "\<exists>k < 16. next_runnable (tick_sleep_timers fp dt ((scheduler_run_once fp call dt ^^ k) s)) = Some idx \<and>
    (scheduler_run_once fp call dt ^^ Suc k) s =
      (run_task fp call idx dt (tick_sleep_timers fp dt ((scheduler_run_once fp call dt ^^ k) s)))\<lparr>g_next_index := (idx + 1) mod 16\<rparr>"
proof -
  note D = invD[OF assms(2)]
  let ?d = "(idx + 16 - g_next_index s) mod 16"
  obtain k where k: "k \<le> ?d" "next_runnable (tick_sleep_timers fp dt ((scheduler_run_once fp call dt ^^ k) s)) = Some idx"
    using runs_within[OF assms(1) D(1) assms(3,4) rotate_reach[OF D(2) assms(3)], of fp dt] by auto
  have "k < 16" using k(1) mod_less_divisor[of 16 "idx + 16 - g_next_index s"] by linarith
  then show ?thesis using k(2) by (intro exI[of _ k]) (simp add: scheduler_run_once_def)
qed

section \<open>Sleeping\<close>

lemma quiet_run_all:
  assumes "quiet_call call" "sched_inv fp s"
  shows "map static (g_tasks (scheduler_run_all fp call dt s)) = map static (g_tasks (tick_sleep_timers fp dt s))"
  unfolding scheduler_run_all_def quiet_bands[OF assms(1) inv_tick[OF assms(2)]]
  by (simp add: advance_cursor_def quiet_fold[OF assms(1)])

lemma quiet_inv_task: "quiet_call call \<Longrightarrow> sched_inv fp s \<Longrightarrow> idx < 16 \<Longrightarrow> sched_inv fp (run_task fp call idx dt s)"
proof -
  assume q: "quiet_call call" and i: "sched_inv fp s" and b: "idx < 16"
  let ?u = "call (tk_fn (g_tasks s ! idx)) (tk_arg (g_tasks s ! idx)) dt s"
  have "regs ?u = regs s" using q by (intro regs_eqI) (simp add: quiet_call_def)
  then have "sched_inv fp ?u" using q i by (simp add: sched_inv_def quiet_call_def)
  then show ?thesis unfolding run_task_def using b by (intro inv_upd_task) (simp_all add: entry_simps invD)
qed

lemma quiet_inv_band: "quiet_call call \<Longrightarrow> sched_inv fp s \<Longrightarrow> sched_inv fp (run_band fp call dt prio is s)"
  by (induction "is" arbitrary: s) (simp_all add: Let_def quiet_inv_task)

lemma quiet_inv_all: "quiet_call call \<Longrightarrow> sched_inv fp s \<Longrightarrow> sched_inv fp (scheduler_run_all fp call dt s)"
  by (simp add: scheduler_run_all_def advance_cursor_def inv_cursor quiet_inv_band inv_tick)

lemma tick_sleeping:
  assumes "length (g_tasks s) = 16" "i < 16" "tk_state (g_tasks s ! i) = TASK_SLEEPING"
  shows "tk_state (g_tasks (tick_sleep_timers fp dt s) ! i) =
      (if fp_le fp (fp_sub fp (sleep_remaining (g_tasks s ! i)) dt) (fp_zero fp) then TASK_READY else TASK_SLEEPING)"
    "\<not> fp_le fp (fp_sub fp (sleep_remaining (g_tasks s ! i)) dt) (fp_zero fp) \<Longrightarrow>
      sleep_remaining (g_tasks (tick_sleep_timers fp dt s) ! i) = fp_sub fp (sleep_remaining (g_tasks s ! i)) dt"
  using assms by (simp_all add: tick_eq tick_entry_def Let_def)

lemma asleep_until:
  assumes q: "quiet_call call" and i: "idx < 16"
  shows "sched_inv fp s \<Longrightarrow> tk_state (g_tasks s ! idx) = TASK_SLEEPING \<Longrightarrow> r = sleep_remaining (g_tasks s ! idx) \<Longrightarrow>
    \<forall>k. 0 < k \<and> k \<le> n \<longrightarrow> \<not> fp_le fp (((\<lambda>x. fp_sub fp x dt) ^^ k) r) (fp_zero fp) \<Longrightarrow>
    sched_inv fp ((scheduler_run_all fp call dt ^^ n) s) \<and> tk_state (g_tasks ((scheduler_run_all fp call dt ^^ n) s) ! idx) = TASK_SLEEPING \<and>
    sleep_remaining (g_tasks ((scheduler_run_all fp call dt ^^ n) s) ! idx) = ((\<lambda>x. fp_sub fp x dt) ^^ n) r"
proof (induction n)
  case (Suc n)
  let ?u = "(scheduler_run_all fp call dt ^^ n) s"
  have u: "sched_inv fp ?u" "tk_state (g_tasks ?u ! idx) = TASK_SLEEPING" "sleep_remaining (g_tasks ?u ! idx) = ((\<lambda>x. fp_sub fp x dt) ^^ n) r"
    using Suc by auto
  note D = invD[OF u(1)]
  have n: "\<not> fp_le fp (fp_sub fp (sleep_remaining (g_tasks ?u ! idx)) dt) (fp_zero fp)" using Suc.prems(4) u(3) by force
  have v: "sched_inv fp (scheduler_run_all fp call dt ?u)" by (rule quiet_inv_all[OF q u(1)])
  note E = static_eqD(3,4)[OF quiet_run_all[OF q u(1)], of idx]
  show ?case using E tick_sleeping[OF D(1) i u(2), of fp dt] n i invD(1)[OF v] v u(3) by simp
qed simp

text \<open>
  A sleeping task sleeps for exactly the frames its timer says: while the remaining time, decreased by
  \<^verbatim>\<open>dt\<close> every frame, stays above zero the task is not ready, and in the first frame in which it is not it is.
\<close>
theorem sleep_wakes_on_time:
  assumes "quiet_call call" "sched_inv fp s" "idx < 16" "tk_state (g_tasks s ! idx) = TASK_SLEEPING"
    and "\<forall>k. 0 < k \<and> k \<le> n \<longrightarrow> \<not> fp_le fp (((\<lambda>x. fp_sub fp x dt) ^^ k) (sleep_remaining (g_tasks s ! idx))) (fp_zero fp)"
    and "fp_le fp (((\<lambda>x. fp_sub fp x dt) ^^ Suc n) (sleep_remaining (g_tasks s ! idx))) (fp_zero fp)"
  shows "(\<forall>k \<le> n. tk_state (g_tasks ((scheduler_run_all fp call dt ^^ k) s) ! idx) = TASK_SLEEPING) \<and>
    tk_state (g_tasks ((scheduler_run_all fp call dt ^^ Suc n) s) ! idx) = TASK_READY"
proof (intro conjI allI impI)
  fix k assume "k \<le> n"
  then show "tk_state (g_tasks ((scheduler_run_all fp call dt ^^ k) s) ! idx) = TASK_SLEEPING"
    using asleep_until[OF assms(1,3,2,4) refl, of k dt] assms(5) by simp
next
  let ?u = "(scheduler_run_all fp call dt ^^ n) s"
  note u = asleep_until[OF assms(1,3,2,4) refl assms(5)]
  have v: "sched_inv fp (scheduler_run_all fp call dt ?u)" by (rule quiet_inv_all[OF assms(1)]) (use u in simp)
  show "tk_state (g_tasks ((scheduler_run_all fp call dt ^^ Suc n) s) ! idx) = TASK_READY"
    using static_eqD(3)[OF quiet_run_all[OF assms(1), of fp ?u dt], of idx] tick_sleeping(1)[of ?u idx fp dt] u assms(3,6) invD(1)[OF v] invD(1)[of fp ?u]
    by simp
qed

text \<open>
  \<^verbatim>\<open>scheduler_run_loop\<close> passes a time step of zero, and subtracting zero changes no floating-point
  number, so a task that is asleep when the loop starts never wakes up.
\<close>
theorem run_loop_never_wakes:
  assumes "quiet_call call" "sched_inv fp s" "idx < 16" "tk_state (g_tasks s ! idx) = TASK_SLEEPING"
    and "\<forall>x. fp_sub fp x (fp_zero fp) = x"
  shows "tk_state (g_tasks (scheduler_run_loop fp call n s) ! idx) = TASK_SLEEPING"
proof -
  have r: "\<not> fp_le fp (sleep_remaining (g_tasks s ! idx)) (fp_zero fp)" using invD(5)[OF assms(2,3)] assms(4) by (simp add: task_ok_def)
  have "length (g_tasks s) = 16 \<Longrightarrow> tk_state (g_tasks s ! idx) = TASK_SLEEPING \<Longrightarrow>
    \<not> fp_le fp (sleep_remaining (g_tasks s ! idx)) (fp_zero fp) \<Longrightarrow>
    tk_state (g_tasks (scheduler_run_loop fp call n s) ! idx) = TASK_SLEEPING" for s
  proof (induction n arbitrary: s)
    case (Suc n)
    note U = quiet_run_once[OF assms(1) Suc.prems(1), of fp "fp_zero fp"]
    show ?case using Suc.IH[OF U(2)] static_eqD(3,4)[OF U(1), of idx] U(2) tick_sleeping[OF Suc.prems(1) assms(3) Suc.prems(2), of fp "fp_zero fp"]
        Suc.prems(3) assms(3,5) by simp
  qed simp
  then show ?thesis using invD(1)[OF assms(2)] assms(4) r by blast
qed

section \<open>Registration\<close>

text \<open>
  \<^verbatim>\<open>scheduler_add_task\<close> is insertion into the finite map of registered tasks: a pair of function and
  argument that is registered keeps its slot and nothing changes; a new pair takes a free slot; the call
  fails, changing nothing, exactly for a NULL function or a new pair when all sixteen slots are taken.
\<close>
theorem add_task_refines:
  assumes "sched_inv fp s"
  shows "(if fn = 0 \<or> (fn, arg) \<notin> ran (regs s) \<and> card (dom (regs s)) = 16 then scheduler_add_task fp fn arg s = (- 1, s)
    else \<exists>i s'. scheduler_add_task fp fn arg s = (int i, s') \<and> i < 16 \<and> sched_inv fp s' \<and> regs s' = (regs s)(i \<mapsto> (fn, arg)) \<and>
      (if (fn, arg) \<in> ran (regs s) then s' = s else regs s i = None))"
proof -
  note D = invD[OF assms]
  have c: "card (dom (regs s)) \<le> 16" using card_mono[OF _ dom_regs[of s]] D(1) by simp
  consider "fn = 0" | i where "fn \<noteq> 0" "regs s i = Some (fn, arg)" | "fn \<noteq> 0" "(fn, arg) \<notin> ran (regs s)" by (auto simp: ran_def)
  then show ?thesis
  proof cases
    case 1
    then show ?thesis by (simp add: scheduler_add_task_def)
  next
    case (2 i)
    have "i < 16" using 2(2) D(1) by (auto simp: regs_def split: if_splits)
    moreover have "(fn, arg) \<in> ran (regs s)" "(regs s)(i \<mapsto> (fn, arg)) = regs s" using 2(2) by (auto simp: ran_def)
    ultimately show ?thesis using add_known[OF assms 2] 2(1) assms by auto
  next
    case 3
    then show ?thesis using c registry.add_fresh[OF assms 3] registry.add_over[OF assms 3(2)] by (cases "card (dom (regs s)) = 16") auto
  qed
qed

text \<open>
  Removing a task right after it was registered gives back the map of registered tasks there was before,
  and registering it twice is the same as registering it once.
\<close>
theorem add_remove_task:
  assumes "sched_inv fp s" "fn \<noteq> 0" "(fn, arg) \<notin> ran (regs s)" "card (dom (regs s)) < 16"
  shows "regs (case scheduler_add_task fp fn arg s of (i, s') \<Rightarrow> scheduler_remove_task fp i s') = regs s \<and>
    scheduler_add_task fp fn arg (snd (scheduler_add_task fp fn arg s)) = scheduler_add_task fp fn arg s"
  using registry.add_remove[OF assms] registry.add_twice[OF assms] by blast

section \<open>Concrete schedulers\<close>

definition int_fp :: "int fp" where
  "int_fp = \<lparr>fp_zero = 0, fp_add = (+), fp_sub = (-), fp_le = (\<le>)\<rparr>"

definition blank_entry :: "int task_entry" where
  "blank_entry = \<lparr>tk_fn = 0, tk_arg = 0, tk_state = TASK_EMPTY, tk_prio = 0, sleep_remaining = 0,
     stats = \<lparr>run_count = 0, total_time_s = 0\<rparr>, tk_name = replicate 24 0\<rparr>"

definition boot_sched :: "(int, u64 list) sched" where
  "boot_sched = scheduler_init int_fp \<lparr>g_tasks = replicate 16 blank_entry, g_task_count = 0, g_next_index = 0, world = []\<rparr>"

text \<open>Tasks that only record that they ran, and a task that registers another one.\<close>

definition log_call :: "(int, u64 list) task_call" where
  "log_call fn arg dt s = s\<lparr>world := world s @ [arg]\<rparr>"

definition spawn_call :: "(int, u64 list) task_call" where
  "spawn_call fn arg dt s = (if arg = 1 then snd (scheduler_add_task int_fp 7 3 (log_call fn arg dt s)) else log_call fn arg dt s)"

definition two_tasks :: "(int, u64 list) sched" where
  "two_tasks = snd (scheduler_add_task int_fp 7 2 (snd (scheduler_add_task int_fp 7 1 boot_sched)))"

definition one_asleep :: "(int, u64 list) sched" where
  "one_asleep = scheduler_sleep int_fp 1 2 two_tasks"

lemma log_quiet: "quiet_call log_call"
  by (simp add: quiet_call_def log_call_def)

lemma spawn_well_behaved: "well_behaved int_fp spawn_call"
  unfolding well_behaved_def
proof (intro allI)
  fix fn arg dt and s :: "(int, u64 list) sched"
  have "api_call int_fp s (log_call fn arg dt s)" unfolding log_call_def by (rule api_call.outside)
  moreover have "api_call int_fp t (snd (scheduler_add_task int_fp 7 3 t))" for t :: "(int, u64 list) sched" by (rule api_call.add_call)
  ultimately show "(api_call int_fp)\<^sup>*\<^sup>* s (spawn_call fn arg dt s)"
    unfolding spawn_call_def by (auto intro: rtranclp.rtrancl_into_rtrancl r_into_rtranclp)
qed

lemma two_tasks_reachable: "reachable int_fp call two_tasks"
  unfolding two_tasks_def boot_sched_def
  by (intro reachable.called[OF _ api_call.add_call] reachable.start) (simp_all add: blank_entry_def)

lemma boot_inv: "sched_inv int_fp boot_sched"
  unfolding boot_sched_def by (rule inv_init) (simp_all add: blank_entry_def)

lemma two_tasks_inv: "sched_inv int_fp two_tasks"
  unfolding two_tasks_def by (intro inv_add boot_inv)

lemma one_asleep_inv: "sched_inv int_fp one_asleep"
  unfolding one_asleep_def by (intro inv_sleep two_tasks_inv)

lemma one_asleep_eval:
  "tk_state (g_tasks one_asleep ! 1) = TASK_SLEEPING" "sleep_remaining (g_tasks one_asleep ! 1) = 2" "runnable (g_tasks one_asleep ! 0)"
  by code_simp+

theorem scheduler_invariant_witness: "sched_inv int_fp two_tasks \<and> g_task_count two_tasks = 2"
proof -
  have "g_task_count two_tasks = 2" by code_simp
  then show ?thesis using scheduler_invariant[OF spawn_well_behaved two_tasks_reachable] by simp
qed

theorem run_all_dispatches_witness:
  "scheduler_run_all int_fp log_call 1 two_tasks = advance_cursor (fold (\<lambda>idx. run_task int_fp log_call idx 1)
     (dispatch_order (tick_sleep_timers int_fp 1 two_tasks)) (tick_sleep_timers int_fp 1 two_tasks))"
  using run_all_dispatches[OF log_quiet two_tasks_inv, of 1] by (rule conjunct1)

theorem run_once_fair_witness:
  "\<exists>k < 16. next_runnable (tick_sleep_timers int_fp 1 ((scheduler_run_once int_fp log_call 1 ^^ k) one_asleep)) = Some 0"
  using run_once_fair[OF log_quiet one_asleep_inv _ one_asleep_eval(3), of 1] by auto

theorem sleep_wakes_on_time_witness:
  "tk_state (g_tasks (scheduler_run_all int_fp log_call 1 one_asleep) ! 1) = TASK_SLEEPING \<and>
   tk_state (g_tasks ((scheduler_run_all int_fp log_call 1 ^^ 2) one_asleep) ! 1) = TASK_READY"
proof -
  have "0 < k \<and> k \<le> 1 \<longrightarrow> \<not> fp_le int_fp (((\<lambda>x. fp_sub int_fp x 1) ^^ k) (sleep_remaining (g_tasks one_asleep ! 1))) (fp_zero int_fp)" for k
    by (cases k) (simp_all add: one_asleep_eval[simplified] int_fp_def)
  moreover have "fp_le int_fp (((\<lambda>x. fp_sub int_fp x 1) ^^ Suc 1) (sleep_remaining (g_tasks one_asleep ! 1))) (fp_zero int_fp)"
    by (simp add: one_asleep_eval[simplified] int_fp_def)
  ultimately show ?thesis
    using sleep_wakes_on_time[OF log_quiet one_asleep_inv _ one_asleep_eval(1), of 1 1] by (auto simp: numeral_2_eq_2)
qed

theorem run_loop_never_wakes_witness:
  "tk_state (g_tasks (scheduler_run_loop int_fp log_call 1000 one_asleep) ! 1) = TASK_SLEEPING"
  using run_loop_never_wakes[OF log_quiet one_asleep_inv _ one_asleep_eval(1)] by (simp add: int_fp_def)

lemma two_tasks_regs: "regs two_tasks = [0 \<mapsto> (7, 1), 1 \<mapsto> (7, 2)]"
proof
  fix i
  have l: "length (g_tasks two_tasks) = 16" by (rule invD(1)[OF two_tasks_inv])
  have e: "map reg_of (g_tasks two_tasks) = [Some (7, 1), Some (7, 2)] @ replicate 14 None" by code_simp
  have "regs two_tasks i = (if i < 16 then ([Some (7, 1), Some (7, 2)] @ replicate 14 None) ! i else None)"
    using l unfolding regs_def e[symmetric] by simp
  also have "\<dots> = ([0 \<mapsto> (7, 1), 1 \<mapsto> (7, 2)] :: nat \<rightharpoonup> u64 \<times> u64) i" by (auto simp: nth_append nth_Cons split: nat.split)
  finally show "regs two_tasks i = [0 \<mapsto> (7, 1), 1 \<mapsto> (7, 2)] i" .
qed

theorem add_task_refines_witness: "scheduler_add_task int_fp 7 2 two_tasks = (1, two_tasks)"
proof -
  have r: "(7, 2) \<in> ran (regs two_tasks)" by (auto simp: two_tasks_regs ran_def)
  obtain i where i: "scheduler_add_task int_fp 7 2 two_tasks = (int i, two_tasks)" "regs two_tasks = (regs two_tasks)(i \<mapsto> (7, 2))"
    using add_task_refines[OF two_tasks_inv, of 7 2] r by auto
  have "regs two_tasks i = Some (7, 2)" using fun_cong[OF i(2), of i] by simp
  then have "i = 1" by (auto simp: two_tasks_regs split: if_splits)
  then show ?thesis using i(1) by simp
qed

theorem add_remove_task_witness:
  "regs (case scheduler_add_task int_fp 9 5 two_tasks of (i, s) \<Rightarrow> scheduler_remove_task int_fp i s) = regs two_tasks"
proof -
  have "(9, 5) \<notin> ran (regs two_tasks)" by (auto simp: two_tasks_regs ran_def)
  moreover have "dom (regs two_tasks) = {0, 1}" by (auto simp: two_tasks_regs)
  ultimately show ?thesis using add_remove_task[OF two_tasks_inv, of 9 5] by simp
qed

text \<open>
  A task that registers another one while it runs moves the cursor the frame is being walked with: here
  the task in slot 0 registers a third task, which runs at once, and the ready task in slot 1 is passed over.
\<close>
theorem reentrant_add_skips:
  "well_behaved int_fp spawn_call \<and> reachable int_fp spawn_call two_tasks \<and>
   runnable (g_tasks two_tasks ! 1) \<and> tk_arg (g_tasks two_tasks ! 1) = 2 \<and> tk_prio (g_tasks two_tasks ! 1) = PRIO_NORMAL \<and>
   world (scheduler_run_all int_fp spawn_call 1 two_tasks) = [1, 3]"
proof (intro conjI spawn_well_behaved two_tasks_reachable)
  show "runnable (g_tasks two_tasks ! 1)" "tk_arg (g_tasks two_tasks ! 1) = 2" "tk_prio (g_tasks two_tasks ! 1) = PRIO_NORMAL"
    by code_simp+
  show "world (scheduler_run_all int_fp spawn_call 1 two_tasks) = [1, 3]" by code_simp
qed

end
