(* ===== verification/Ps2_Model.thy ===== *)
theory Ps2_Model
  imports Prelude
begin

text \<open>
  The PS/2 input path: \<^verbatim>\<open>drivers/ps2/ps2.c\<close> and \<^verbatim>\<open>ps2_diag.c\<close> (ring buffers, demultiplexer, mouse and
  keyboard polls), the older stand-alone pollers \<^verbatim>\<open>drivers/ps2/keyboard_ps2.c\<close> and \<^verbatim>\<open>drivers/touchpad.c\<close>, and
  the layers above them, \<^verbatim>\<open>drivers/hid/hid.c\<close>, \<^verbatim>\<open>drivers/hid/keyboard.c\<close> and \<^verbatim>\<open>drivers/usb/touchpad_adapter.c\<close>.
  The port instructions are the record \<open>ps2_io\<close>.  Loops that wait for the controller may never end and are
  option-valued partial functions: \<open>None\<close> is a call that does not return.
\<close>

unbundle bit_operations_syntax

record 'p ps2_io =
  inb :: "u16 \<Rightarrow> 'p \<Rightarrow> u8 \<times> 'p"
  outb :: "u16 \<Rightarrow> u8 \<Rightarrow> 'p \<Rightarrow> 'p"

abbreviation (input) KBD_DATA_PORT :: u16 where "KBD_DATA_PORT \<equiv> 0x60"
abbreviation (input) KBD_STATUS_PORT :: u16 where "KBD_STATUS_PORT \<equiv> 0x64"
abbreviation (input) KBD_CMD_PORT :: u16 where "KBD_CMD_PORT \<equiv> 0x64"
abbreviation (input) PS2_STATUS_OUTPUT_BUFFER :: u8 where "PS2_STATUS_OUTPUT_BUFFER \<equiv> 0x01"
abbreviation (input) PS2_STATUS_INPUT_BUFFER :: u8 where "PS2_STATUS_INPUT_BUFFER \<equiv> 0x02"
abbreviation (input) PS2_STATUS_AUX :: u8 where "PS2_STATUS_AUX \<equiv> 0x20"
abbreviation (input) PS2_BUF_SIZE :: nat where "PS2_BUF_SIZE \<equiv> 64"

partial_function (option) ps2_wait_input :: "'p ps2_io \<Rightarrow> 'p \<Rightarrow> 'p option" where
  "ps2_wait_input io p =
     (case inb io KBD_STATUS_PORT p of (st, p') \<Rightarrow>
        if st AND PS2_STATUS_INPUT_BUFFER \<noteq> 0 then ps2_wait_input io p' else Some p')"

fun ps2_wait_output :: "'p ps2_io \<Rightarrow> nat \<Rightarrow> 'p \<Rightarrow> bool \<times> 'p" where
  "ps2_wait_output io 0 p = (False, p)"
| "ps2_wait_output io (Suc timeout) p =
     (case inb io KBD_STATUS_PORT p of (st, p') \<Rightarrow>
        if st AND PS2_STATUS_OUTPUT_BUFFER \<noteq> 0 then (True, p') else ps2_wait_output io timeout p')"

section \<open>Ring buffers\<close>

record ring =
  rb_buf :: bytes
  rb_head :: u8
  rb_tail :: u8

definition ring_next :: "u8 \<Rightarrow> u8" where
  "ring_next i = of_nat ((unat i + 1) mod PS2_BUF_SIZE)"

definition ring_push :: "u8 \<Rightarrow> ring \<Rightarrow> ring" where
  "ring_push v r =
     (let nxt = ring_next (rb_head r) in
      if nxt = rb_tail r then r
      else r\<lparr>rb_buf := (rb_buf r)[unat (rb_head r) := v], rb_head := nxt\<rparr>)"

definition ring_pop :: "ring \<Rightarrow> (u8 \<times> ring) option" where
  "ring_pop r =
     (if rb_tail r = rb_head r then None
      else Some (rb_buf r ! unat (rb_tail r), r\<lparr>rb_tail := ring_next (rb_tail r)\<rparr>))"

definition ring_back :: "nat \<Rightarrow> ring \<Rightarrow> ring" where
  "ring_back n r = r\<lparr>rb_tail := of_nat ((unat (rb_tail r) + PS2_BUF_SIZE - n) mod PS2_BUF_SIZE)\<rparr>"

section \<open>The driver\<close>

record 'p ps2 =
  mouse_ring :: ring
  kbd_ring :: ring
  packet_idx :: nat
  abs_pos_x :: int
  abs_pos_y :: int
  g_ps2_mouse_bytes :: int
  g_ps2_kbd_bytes :: int
  ports :: 'p

definition ps2_inc_mouse_byte :: "'p ps2 \<Rightarrow> 'p ps2" where
  "ps2_inc_mouse_byte s = s\<lparr>g_ps2_mouse_bytes := g_ps2_mouse_bytes s + 1\<rparr>"

definition ps2_inc_kbd_byte :: "'p ps2 \<Rightarrow> 'p ps2" where
  "ps2_inc_kbd_byte s = s\<lparr>g_ps2_kbd_bytes := g_ps2_kbd_bytes s + 1\<rparr>"

text \<open>The two arguments say which of the pointers is not NULL.\<close>

definition ps2_get_and_clear_counters :: "bool \<Rightarrow> bool \<Rightarrow> 'p ps2 \<Rightarrow> int option \<times> int option \<times> 'p ps2" where
  "ps2_get_and_clear_counters mouse_bytes kbd_bytes s =
     (let (m, s1) = (if mouse_bytes then (Some (g_ps2_mouse_bytes s), s\<lparr>g_ps2_mouse_bytes := 0\<rparr>) else (None, s));
          (k, s2) = (if kbd_bytes then (Some (g_ps2_kbd_bytes s1), s1\<lparr>g_ps2_kbd_bytes := 0\<rparr>) else (None, s1))
      in (m, k, s2))"

definition file_byte :: "u8 \<Rightarrow> u8 \<Rightarrow> 'p ps2 \<Rightarrow> 'p ps2" where
  "file_byte status b s =
     (if status AND PS2_STATUS_AUX \<noteq> 0 then ps2_inc_mouse_byte (s\<lparr>mouse_ring := ring_push b (mouse_ring s)\<rparr>)
      else ps2_inc_kbd_byte (s\<lparr>kbd_ring := ring_push b (kbd_ring s)\<rparr>))"

partial_function (option) ps2_process_incoming :: "'p ps2_io \<Rightarrow> 'p ps2 \<Rightarrow> 'p ps2 option" where
  "ps2_process_incoming io s =
     (case inb io KBD_STATUS_PORT (ports s) of (st, p1) \<Rightarrow>
        if st AND PS2_STATUS_OUTPUT_BUFFER = 0 then Some (s\<lparr>ports := p1\<rparr>)
        else (case inb io KBD_STATUS_PORT p1 of (status, p2) \<Rightarrow>
          if status AND PS2_STATUS_OUTPUT_BUFFER = 0 then Some (s\<lparr>ports := p2\<rparr>)
          else (case inb io KBD_DATA_PORT p2 of (b, p3) \<Rightarrow>
            ps2_process_incoming io (file_byte status b (s\<lparr>ports := p3\<rparr>)))))"

text \<open>A byte sent to the controller or, through it, to the mouse.\<close>

definition wait_out :: "'p ps2_io \<Rightarrow> u16 \<Rightarrow> u8 \<Rightarrow> 'p \<Rightarrow> 'p option" where
  "wait_out io pt v p = map_option (outb io pt v) (ps2_wait_input io p)"

definition mouse_command :: "'p ps2_io \<Rightarrow> u8 \<Rightarrow> 'p \<Rightarrow> 'p option" where
  "mouse_command io c p = do {
     p1 \<leftarrow> wait_out io KBD_CMD_PORT 0xD4 p;
     p2 \<leftarrow> wait_out io KBD_DATA_PORT c p1;
     Some (snd (inb io KBD_DATA_PORT (snd (ps2_wait_output io 100000 p2)))) }"

definition mouse_setup :: "'p ps2_io \<Rightarrow> 'p \<Rightarrow> (int \<times> 'p) option" where
  "mouse_setup io p = do {
     p1 \<leftarrow> wait_out io KBD_CMD_PORT 0xA8 p;
     p2 \<leftarrow> wait_out io KBD_CMD_PORT 0x20 p1;
     (case ps2_wait_output io 100000 p2 of (ready, p3) \<Rightarrow>
        if \<not> ready then Some (- 1, p3)
        else (case inb io KBD_DATA_PORT p3 of (cfg0, p4) \<Rightarrow> do {
          p5 \<leftarrow> wait_out io KBD_CMD_PORT 0x60 p4;
          p6 \<leftarrow> wait_out io KBD_DATA_PORT ((cfg0 OR 0x02) AND NOT 0x20) p5;
          p7 \<leftarrow> mouse_command io 0xF6 p6;
          p8 \<leftarrow> mouse_command io 0xF4 p7;
          Some (0, p8) })) }"

definition ps2_touchpad_init :: "'p ps2_io \<Rightarrow> 'p ps2 \<Rightarrow> (int \<times> 'p ps2) option" where
  "ps2_touchpad_init io s = map_option (\<lambda>(rc, p). (rc, if rc = 0 then s\<lparr>ports := p, packet_idx := 0\<rparr> else s\<lparr>ports := p\<rparr>)) (mouse_setup io (ports s))"

text \<open>A 9-bit movement: the sign bit of the first byte fills the upper bits of a 32-bit integer.\<close>

definition sign_extend :: "bool \<Rightarrow> u8 \<Rightarrow> int" where
  "sign_extend neg b = sint ((ucast b :: u32) OR (if neg then 0xFFFFFF00 else 0))"

record motion =
  mo_any :: bool
  total_dx :: int
  total_dy :: int
  last_buttons :: u8

definition no_motion :: motion where
  "no_motion = \<lparr>mo_any = False, total_dx = 0, total_dy = 0, last_buttons = 0\<rparr>"

definition add_packet :: "u8 \<Rightarrow> u8 \<Rightarrow> u8 \<Rightarrow> motion \<Rightarrow> motion" where
  "add_packet b0 b1 b2 m = \<lparr>mo_any = True, total_dx = total_dx m + sign_extend (b0 AND 0x10 \<noteq> 0) b1,
     total_dy = total_dy m + sign_extend (b0 AND 0x20 \<noteq> 0) b2, last_buttons = b0 AND 0x07\<rparr>"

partial_function (option) packet_loop :: "ring \<Rightarrow> motion \<Rightarrow> (ring \<times> motion) option" where
  "packet_loop r m =
     (case ring_pop r of
        None \<Rightarrow> Some (r, m)
      | Some (b0, r1) \<Rightarrow> (case ring_pop r1 of
          None \<Rightarrow> Some (ring_back 1 r1, m)
        | Some (b1, r2) \<Rightarrow> (case ring_pop r2 of
            None \<Rightarrow> Some (ring_back 2 r2, m)
          | Some (b2, r3) \<Rightarrow> packet_loop r3 (if b0 AND 0x08 = 0 then m else add_packet b0 b1 b2 m))))"

definition clamp :: "int \<Rightarrow> int \<Rightarrow> int \<Rightarrow> int" where
  "clamp lo hi x = (let y = if x > hi then hi else x in if y < lo then lo else y)"

definition clamp_pos :: "int \<Rightarrow> int" where
  "clamp_pos x = (let y = if x < 0 then 0 else x in if y > 32767 then 32767 else y)"

text \<open>The end of both mouse polls: the event, if any, and the absolute position.  The deltas are \<^verbatim>\<open>int8_t\<close>.\<close>

definition finish_poll :: "motion \<Rightarrow> int \<Rightarrow> int \<Rightarrow> (u8 \<times> u8 \<times> u8) option \<times> int \<times> int" where
  "finish_poll m x y =
     (if \<not> mo_any m then (None, x, y)
      else let dx = clamp (- 128) 127 (total_dx m); dy = clamp (- 128) 127 (total_dy m)
        in (Some (word_of_int dx, word_of_int dy, last_buttons m), clamp_pos (x + dx * 512), clamp_pos (y - dy * 512)))"

definition touchpad_poll :: "'p ps2_io \<Rightarrow> 'p ps2 \<Rightarrow> ((u8 \<times> u8 \<times> u8) option \<times> 'p ps2) option" where
  "touchpad_poll io s = do {
     s1 \<leftarrow> ps2_process_incoming io s;
     (r, m) \<leftarrow> packet_loop (mouse_ring s1) no_motion;
     (case finish_poll m (abs_pos_x s1) (abs_pos_y s1) of (ev, x, y) \<Rightarrow>
        Some (ev, s1\<lparr>mouse_ring := r, abs_pos_x := x, abs_pos_y := y\<rparr>)) }"

definition ps2_keyboard_init :: int where
  "ps2_keyboard_init = 0"

partial_function (option) make_code_loop :: "ring \<Rightarrow> (u8 option \<times> ring) option" where
  "make_code_loop r =
     (case ring_pop r of
        None \<Rightarrow> Some (None, r)
      | Some (b, r1) \<Rightarrow>
          if b = 0xE0 then make_code_loop r1
          else if b AND 0x80 \<noteq> 0 \<or> b = 0xFA then make_code_loop r1
          else Some (Some (b AND 0x7F), r1))"

definition ps2_keyboard_poll :: "'p ps2_io \<Rightarrow> 'p ps2 \<Rightarrow> (u8 option \<times> 'p ps2) option" where
  "ps2_keyboard_poll io s = do {
     s1 \<leftarrow> ps2_process_incoming io s;
     (k, r) \<leftarrow> make_code_loop (kbd_ring s1);
     Some (k, s1\<lparr>kbd_ring := r\<rparr>) }"

text \<open>The single-precision operations the absolute poll uses.\<close>

record 'f float_ops =
  f_of_int :: "int \<Rightarrow> 'f"
  f_div :: "'f \<Rightarrow> 'f \<Rightarrow> 'f"
  f_mul :: "'f \<Rightarrow> 'f \<Rightarrow> 'f"

definition screen_pos :: "'f float_ops \<Rightarrow> int \<Rightarrow> int \<Rightarrow> int \<Rightarrow> int \<Rightarrow> 'f \<times> 'f" where
  "screen_pos f x y screen_width screen_height =
     (let norm_x = f_div f (f_of_int f x) (f_of_int f 32767); norm_y = f_div f (f_of_int f y) (f_of_int f 32767)
      in if screen_width > 0 \<and> screen_height > 0
         then (f_mul f norm_x (f_of_int f screen_width), f_mul f norm_y (f_of_int f screen_height))
         else (norm_x, norm_y))"

definition touchpad_poll_absolute ::
  "'p ps2_io \<Rightarrow> 'f float_ops \<Rightarrow> int \<Rightarrow> int \<Rightarrow> 'p ps2 \<Rightarrow> (('f \<times> 'f \<times> u8) option \<times> 'p ps2) option" where
  "touchpad_poll_absolute io f screen_width screen_height s = do {
     (ev, s1) \<leftarrow> touchpad_poll io s;
     (case ev of
        None \<Rightarrow> Some (None, s1)
      | Some (dx, dy, btn) \<Rightarrow>
          (case screen_pos f (abs_pos_x s1) (abs_pos_y s1) screen_width screen_height of (ax, ay) \<Rightarrow> Some (Some (ax, ay, btn), s1))) }"

section \<open>The stand-alone pollers\<close>

text \<open>\<^verbatim>\<open>drivers/ps2/keyboard_ps2.c\<close> reads the controller directly.\<close>

partial_function (option) keyboard_poll_direct :: "'p ps2_io \<Rightarrow> 'p \<Rightarrow> (u8 option \<times> 'p) option" where
  "keyboard_poll_direct io p =
     (case inb io KBD_STATUS_PORT p of (st, p1) \<Rightarrow>
        if st AND PS2_STATUS_OUTPUT_BUFFER = 0 then Some (None, p1)
        else (case inb io KBD_DATA_PORT p1 of (b, p2) \<Rightarrow>
          if b = 0xE0 then keyboard_poll_direct io p2
          else if b AND 0x80 \<noteq> 0 \<or> b = 0xFA then keyboard_poll_direct io p2
          else Some (Some (b AND 0x7F), p2)))"

text \<open>\<^verbatim>\<open>drivers/touchpad.c\<close> assembles packets byte by byte from the controller.\<close>

record 'p touchpad =
  tp_packet :: bytes
  tp_packet_idx :: nat
  tp_abs_x :: int
  tp_abs_y :: int
  tp_ports :: 'p

definition touchpad_init :: "'p ps2_io \<Rightarrow> 'p touchpad \<Rightarrow> (int \<times> 'p touchpad) option" where
  "touchpad_init io s = map_option (\<lambda>(rc, p). (rc, if rc = 0 then s\<lparr>tp_ports := p, tp_packet_idx := 0\<rparr> else s\<lparr>tp_ports := p\<rparr>)) (mouse_setup io (tp_ports s))"

definition take_byte :: "u8 \<Rightarrow> 'p touchpad \<Rightarrow> motion \<Rightarrow> 'p touchpad \<times> motion" where
  "take_byte b s m =
     (if tp_packet_idx s = 0 \<and> b AND 0x08 = 0 then (s, m)
      else let pk = (tp_packet s)[tp_packet_idx s := b]; i = tp_packet_idx s + 1 in
        if i < 3 then (s\<lparr>tp_packet := pk, tp_packet_idx := i\<rparr>, m)
        else (s\<lparr>tp_packet := pk, tp_packet_idx := 0\<rparr>, add_packet (pk ! 0) (pk ! 1) (pk ! 2) m))"

partial_function (option) byte_loop :: "'p ps2_io \<Rightarrow> 'p touchpad \<Rightarrow> motion \<Rightarrow> ('p touchpad \<times> motion) option" where
  "byte_loop io s m =
     (case inb io KBD_STATUS_PORT (tp_ports s) of (st, p1) \<Rightarrow>
        if st AND PS2_STATUS_OUTPUT_BUFFER = 0 then Some (s\<lparr>tp_ports := p1\<rparr>, m)
        else (case inb io KBD_DATA_PORT p1 of (b, p2) \<Rightarrow>
          (case take_byte b (s\<lparr>tp_ports := p2\<rparr>) m of (s', m') \<Rightarrow> byte_loop io s' m')))"

definition touchpad_poll_direct :: "'p ps2_io \<Rightarrow> 'p touchpad \<Rightarrow> ((u8 \<times> u8 \<times> u8) option \<times> 'p touchpad) option" where
  "touchpad_poll_direct io s = do {
     (s1, m) \<leftarrow> byte_loop io s no_motion;
     (case finish_poll m (tp_abs_x s1) (tp_abs_y s1) of (ev, x, y) \<Rightarrow> Some (ev, s1\<lparr>tp_abs_x := x, tp_abs_y := y\<rparr>)) }"

definition touchpad_absolute_direct ::
  "'p ps2_io \<Rightarrow> 'f float_ops \<Rightarrow> int \<Rightarrow> int \<Rightarrow> 'p touchpad \<Rightarrow> (('f \<times> 'f \<times> u8) option \<times> 'p touchpad) option" where
  "touchpad_absolute_direct io f screen_width screen_height s = do {
     (ev, s1) \<leftarrow> touchpad_poll_direct io s;
     (case ev of
        None \<Rightarrow> Some (None, s1)
      | Some (dx, dy, btn) \<Rightarrow>
          (case screen_pos f (tp_abs_x s1) (tp_abs_y s1) screen_width screen_height of (ax, ay) \<Rightarrow> Some (Some (ax, ay, btn), s1))) }"

section \<open>The layers above\<close>

text \<open>\<^verbatim>\<open>hid.c\<close>, \<^verbatim>\<open>touchpad_adapter.c\<close> and \<^verbatim>\<open>keyboard.c\<close>; whether an xHCI controller was found is an argument.\<close>

record 'p input =
  in_ps2 :: "'p ps2"
  g_hid_enabled :: bool
  g_inited :: bool
  g_using_usb :: bool
  g_last_scancode :: u8
  poll_ctr :: int

definition usb_hid_init :: "'p ps2_io \<Rightarrow> bool \<Rightarrow> 'p input \<Rightarrow> (int \<times> 'p input) option" where
  "usb_hid_init io xhci_is_present s =
     (if xhci_is_present
      then map_option (\<lambda>(rc, t). (0, s\<lparr>in_ps2 := t, g_hid_enabled := True\<rparr>)) (ps2_touchpad_init io (in_ps2 s))
      else Some (- 1, s))"

definition poll_ps2 :: "'p ps2_io \<Rightarrow> 'p input \<Rightarrow> ((u8 \<times> u8 \<times> u8) option \<times> 'p input) option" where
  "poll_ps2 io s = map_option (\<lambda>(ev, t). (ev, s\<lparr>in_ps2 := t\<rparr>)) (touchpad_poll io (in_ps2 s))"

definition usb_hid_poll :: "'p ps2_io \<Rightarrow> 'p input \<Rightarrow> ((u8 \<times> u8 \<times> u8) option \<times> 'p input) option" where
  "usb_hid_poll io s = (if \<not> g_hid_enabled s then Some (None, s) else poll_ps2 io s)"

definition init_ps2 :: "'p ps2_io \<Rightarrow> 'p input \<Rightarrow> (int \<times> 'p input) option" where
  "init_ps2 io s = map_option (\<lambda>(rc, t). if rc = 0 then (0, s\<lparr>in_ps2 := t, g_using_usb := False, g_inited := True\<rparr>)
     else (- 1, s\<lparr>in_ps2 := t, g_inited := True\<rparr>)) (ps2_touchpad_init io (in_ps2 s))"

definition usb_touchpad_init :: "'p ps2_io \<Rightarrow> bool \<Rightarrow> 'p input \<Rightarrow> (int \<times> 'p input) option" where
  "usb_touchpad_init io xhci_is_present s =
     (if g_inited s then Some (0, s)
      else if xhci_is_present
      then do { (rc, s1) \<leftarrow> usb_hid_init io xhci_is_present s;
        if rc = 0 then Some (0, s1\<lparr>g_using_usb := True, g_inited := True\<rparr>) else init_ps2 io s1 }
      else init_ps2 io s)"

definition usb_touchpad_poll :: "'p ps2_io \<Rightarrow> 'p input \<Rightarrow> ((u8 \<times> u8 \<times> u8) option \<times> 'p input) option" where
  "usb_touchpad_poll io s =
     (if \<not> g_inited s then Some (None, s)
      else if g_using_usb s
      then do { (ev, s1) \<leftarrow> usb_hid_poll io s;
        (case ev of Some e \<Rightarrow> Some (Some e, s1) | None \<Rightarrow> poll_ps2 io s1) }
      else poll_ps2 io s)"

definition keyboard_init :: int where
  "keyboard_init = (let _ = ps2_keyboard_init in 0)"

definition keyboard_task :: "'p ps2_io \<Rightarrow> 'p input \<Rightarrow> 'p input option" where
  "keyboard_task io s = do {
     (k, t) \<leftarrow> ps2_keyboard_poll io (in_ps2 s);
     (case k of
        Some sc \<Rightarrow> Some (s\<lparr>in_ps2 := t, g_last_scancode := sc, poll_ctr := 0\<rparr>)
      | None \<Rightarrow>
          if (poll_ctr s + 1) mod 200 = 0
          then Some (s\<lparr>in_ps2 := t\<lparr>ports := snd (inb io 0x64 (ports t))\<rparr>, poll_ctr := poll_ctr s + 1\<rparr>)
          else Some (s\<lparr>in_ps2 := t, poll_ctr := poll_ctr s + 1\<rparr>)) }"

definition keyboard_get_scancode_and_clear :: "'p input \<Rightarrow> u8 option \<times> 'p input" where
  "keyboard_get_scancode_and_clear s =
     (let v = g_last_scancode s; s1 = s\<lparr>g_last_scancode := 0\<rparr> in if v = 0 then (None, s1) else (Some v, s1))"

end
