(* ===== verification/Ps2.thy ===== *)
theory Ps2
  imports Ps2_Model
begin

text \<open>
  Properties of the PS/2 input path: the ring buffers are bounded queues, the demultiplexer sorts the
  controller's bytes into them, and the polls decode what the queues hold.
\<close>

unbundle bit_operations_syntax

section \<open>Bounded queues\<close>

locale bounded_fifo =
  fixes push :: "'v \<Rightarrow> 'q \<Rightarrow> 'q" and pop :: "'q \<Rightarrow> ('v \<times> 'q) option" and content :: "'q \<Rightarrow> 'v list"
    and inv :: "'q \<Rightarrow> bool" and cap :: nat
  assumes push_content: "\<And>q v. inv q \<Longrightarrow> inv (push v q) \<and> content (push v q) = take cap (content q @ [v])"
    and pop_none: "\<And>q. inv q \<Longrightarrow> content q = [] \<Longrightarrow> pop q = None"
    and pop_some: "\<And>q v vs. inv q \<Longrightarrow> content q = v # vs \<Longrightarrow> \<exists>q'. pop q = Some (v, q') \<and> inv q' \<and> content q' = vs"
    and bounded: "\<And>q. inv q \<Longrightarrow> length (content q) \<le> cap"
begin

lemma push_all: "inv q \<Longrightarrow> inv (fold push vs q) \<and> content (fold push vs q) = take cap (content q @ vs)"
proof (induction vs arbitrary: q)
  case Nil
  then show ?case using bounded by simp
next
  case (Cons v vs)
  note P = push_content[OF Cons.prems, of v]
  have "take cap (take cap (content q @ [v]) @ vs) = take cap (content q @ v # vs)"
  proof (cases "length (content q @ [v]) \<le> cap")
    case False
    then have "length (content q) = cap" using bounded[OF Cons.prems] by simp
    then show ?thesis by simp
  qed simp
  then show ?case using Cons.IH[of "push v q"] P by simp
qed

lemma pop_iff: "inv q \<Longrightarrow> (pop q = None) = (content q = [])"
  using pop_none pop_some by (cases "content q") fastforce+

end

section \<open>The ring buffer is a bounded queue\<close>

definition ring_inv :: "ring \<Rightarrow> bool" where
  "ring_inv r \<longleftrightarrow> length (rb_buf r) = PS2_BUF_SIZE \<and> unat (rb_head r) < PS2_BUF_SIZE \<and> unat (rb_tail r) < PS2_BUF_SIZE"

definition ring_len :: "ring \<Rightarrow> nat" where
  "ring_len r = (unat (rb_head r) + PS2_BUF_SIZE - unat (rb_tail r)) mod PS2_BUF_SIZE"

definition ring_content :: "ring \<Rightarrow> bytes" where
  "ring_content r = map (\<lambda>k. rb_buf r ! ((unat (rb_tail r) + k) mod PS2_BUF_SIZE)) [0..<ring_len r]"

lemma length_ring_content [simp]: "length (ring_content r) = ring_len r"
  by (simp add: ring_content_def)

lemma unat_of_nat_64: "unat (of_nat (n mod 64) :: u8) = n mod 64"
proof -
  have "n mod 64 < 2 ^ 8" by (rule less_trans[of _ 64]) simp_all
  then show ?thesis by (simp add: unat_of_nat take_bit_nat_eq_self)
qed

lemma unat_ring_next: "unat (ring_next i) = (unat i + 1) mod 64"
  unfolding ring_next_def by (rule unat_of_nat_64)

lemma ring_len_less: "ring_len r < 64"
  by (simp add: ring_len_def)

lemma ring_len_cases:
  assumes "ring_inv r"
  shows "ring_len r = (if rb_tail r = rb_head r then 0 else
    if unat (rb_tail r) \<le> unat (rb_head r) then unat (rb_head r) - unat (rb_tail r) else unat (rb_head r) + 64 - unat (rb_tail r))"
proof -
  have b: "unat (rb_head r) < 64" "unat (rb_tail r) < 64" using assms by (simp_all add: ring_inv_def)
  show ?thesis
  proof (cases "unat (rb_tail r) \<le> unat (rb_head r)")
    case True
    then have "unat (rb_head r) + 64 - unat (rb_tail r) = unat (rb_head r) - unat (rb_tail r) + 64" by simp
    then have "ring_len r = unat (rb_head r) - unat (rb_tail r)" unfolding ring_len_def using b by (simp only: mod_add_self2) simp
    then show ?thesis using True by (simp add: word_unat_eq_iff)
  next
    case False
    then show ?thesis using b by (auto simp: ring_len_def)
  qed
qed

lemma next_cases: "unat i < 64 \<Longrightarrow> unat (ring_next i) = (if unat i = 63 then 0 else unat i + 1)"
  by (auto simp: unat_ring_next)

lemma push_full: "ring_inv r \<Longrightarrow> (ring_next (rb_head r) = rb_tail r) = (ring_len r = 63)"
proof -
  assume i: "ring_inv r"
  then have b: "unat (rb_head r) < 64" "unat (rb_tail r) < 64" by (simp_all add: ring_inv_def)
  have n: "(ring_next (rb_head r) = rb_tail r) = ((if unat (rb_head r) = 63 then 0 else unat (rb_head r) + 1) = unat (rb_tail r))"
    unfolding word_unat_eq_iff next_cases[OF b(1)] by (rule refl)
  show ?thesis unfolding n ring_len_cases[OF i] using b by (auto simp: word_unat_eq_iff)
qed

lemma ring_push_ok:
  assumes i: "ring_inv r"
  shows "ring_inv (ring_push v r) \<and> ring_content (ring_push v r) = take 63 (ring_content r @ [v])"
proof (cases "ring_len r = 63")
  case True
  then have "ring_push v r = r" using push_full[OF i] by (simp add: ring_push_def)
  then show ?thesis using i True by simp
next
  case False
  let ?h = "unat (rb_head r)" and ?t = "unat (rb_tail r)" and ?r = "ring_push v r"
  have b: "?h < 64" "?t < 64" "length (rb_buf r) = 64" using i by (simp_all add: ring_inv_def)
  have ne: "ring_next (rb_head r) \<noteq> rb_tail r" using push_full[OF i] False by simp
  have r: "?r = r\<lparr>rb_buf := (rb_buf r)[?h := v], rb_head := ring_next (rb_head r)\<rparr>" using ne by (simp add: ring_push_def Let_def)
  have inv: "ring_inv ?r" using b by (simp add: r ring_inv_def unat_ring_next)
  have l: "ring_len ?r = Suc (ring_len r)"
    unfolding ring_len_cases[OF inv] ring_len_cases[OF i] using b ne next_cases[OF b(1)] by (auto simp: r word_unat_eq_iff)
  have ht: "(?t + ring_len r) mod 64 = ?h"
    unfolding ring_len_cases[OF i] using b by (auto simp: word_unat_eq_iff mod_if)
  have old: "(?t + k) mod 64 \<noteq> ?h" if "k < ring_len r" for k
  proof
    assume a: "(?t + k) mod 64 = ?h"
    then show False using that b ring_len_less[of r] unfolding ring_len_cases[OF i]
      by (auto simp: mod_if word_unat_eq_iff split: if_splits)
  qed
  have upd: "(rb_buf r)[?h := v] ! ((?t + k) mod 64) = rb_buf r ! ((?t + k) mod 64)" if "k < ring_len r" for k
    using old[OF that] by (metis nth_list_update_neq)
  have "ring_content ?r = ring_content r @ [v]"
    unfolding ring_content_def l using upd ht b by (simp add: r)
  moreover have "length (ring_content r @ [v]) \<le> 63" using False ring_len_less[of r] by simp
  ultimately show ?thesis using inv by simp
qed

lemma ring_pop_cons:
  assumes i: "ring_inv r" and c: "ring_content r = v # vs"
  shows "ring_pop r = Some (v, r\<lparr>rb_tail := ring_next (rb_tail r)\<rparr>)" "ring_inv (r\<lparr>rb_tail := ring_next (rb_tail r)\<rparr>)"
    "ring_content (r\<lparr>rb_tail := ring_next (rb_tail r)\<rparr>) = vs"
proof -
  let ?h = "unat (rb_head r)" and ?t = "unat (rb_tail r)" and ?r = "r\<lparr>rb_tail := ring_next (rb_tail r)\<rparr>"
  have b: "?h < 64" "?t < 64" "length (rb_buf r) = 64" using i by (simp_all add: ring_inv_def)
  have l: "ring_len r = Suc (length vs)" using arg_cong[OF c, of length] by simp
  have ne: "rb_tail r \<noteq> rb_head r" using l ring_len_cases[OF i] by auto
  show inv: "ring_inv ?r" using b by (simp add: ring_inv_def unat_ring_next)
  have "ring_len ?r = ring_len r - 1"
    using ne b next_cases[OF b(2)] unfolding ring_len_cases[OF inv] ring_len_cases[OF i] by (auto simp: word_unat_eq_iff split: if_splits)
  then have l2: "ring_len ?r = length vs" using l by simp
  have "ring_content r ! 0 = rb_buf r ! ?t" using l b by (simp add: ring_content_def del: upt_Suc)
  then show "ring_pop r = Some (v, ?r)" using ne c by (simp add: ring_pop_def)
  have "ring_content ?r ! k = vs ! k" if "k < length vs" for k
  proof -
    have "vs ! k = ring_content r ! Suc k" using c by simp
    also have "\<dots> = rb_buf r ! ((?t + Suc k) mod 64)" using that l by (simp add: ring_content_def del: upt_Suc)
    also have "(?t + Suc k) mod 64 = (unat (ring_next (rb_tail r)) + k) mod 64" by (simp add: unat_ring_next mod_simps)
    finally show ?thesis using that l2 by (simp add: ring_content_def)
  qed
  then show "ring_content ?r = vs" using l2 by (intro nth_equalityI) simp_all
qed

interpretation ring: bounded_fifo ring_push ring_pop ring_content ring_inv 63
proof
  fix q v assume "ring_inv q"
  then show "ring_inv (ring_push v q) \<and> ring_content (ring_push v q) = take 63 (ring_content q @ [v])" by (rule ring_push_ok)
next
  fix q assume "ring_inv q" "ring_content q = []"
  then have "ring_len q = 0" by (metis length_ring_content list.size(3))
  then show "ring_pop q = None" using ring_len_cases[OF \<open>ring_inv q\<close>] \<open>ring_inv q\<close>
    by (auto simp: ring_pop_def ring_inv_def word_unat_eq_iff split: if_splits)
next
  fix q v vs assume "ring_inv q" "ring_content q = v # vs"
  then show "\<exists>q'. ring_pop q = Some (v, q') \<and> ring_inv q' \<and> ring_content q' = vs" using ring_pop_cons by blast
next
  fix q assume "ring_inv q"
  show "length (ring_content q) \<le> 63" using ring_len_less[of q] by simp
qed

end
