(* ===== verification/Ps2_Correct.thy ===== *)
theory Ps2_Correct
  imports Ps2
begin

text \<open>
  The PS/2 polls over a controller that holds a list of bytes, each tagged with the device it came from:
  what the demultiplexer, the mouse poll and the keyboard poll make of them.
\<close>

unbundle bit_operations_syntax

section \<open>The controller\<close>

text \<open>
  The i8042 as its data sheet has it, with \<open>pend\<close> the bytes waiting in it: reading the status shows whether a
  byte is waiting and whether it is the mouse's, and changes nothing; reading the data port takes the byte.
\<close>

definition i8042 :: "'p ps2_io \<Rightarrow> ('p \<Rightarrow> (bool \<times> u8) list) \<Rightarrow> bool" where
  "i8042 io pend \<longleftrightarrow>
     (\<forall>p. case inb io KBD_STATUS_PORT p of (st, p') \<Rightarrow> pend p' = pend p \<and> (st AND 0x01 \<noteq> 0) = (pend p \<noteq> []) \<and>
        (pend p \<noteq> [] \<longrightarrow> (st AND 0x20 \<noteq> 0) = fst (hd (pend p)))) \<and>
     (\<forall>p b bs. pend p = b # bs \<longrightarrow> (case inb io KBD_DATA_PORT p of (v, p') \<Rightarrow> v = snd b \<and> pend p' = bs))"

definition aux_bytes :: "(bool \<times> u8) list \<Rightarrow> bytes" where
  "aux_bytes bs = map snd (filter fst bs)"

definition key_bytes :: "(bool \<times> u8) list \<Rightarrow> bytes" where
  "key_bytes bs = map snd (filter (\<lambda>b. \<not> fst b) bs)"

lemma status_read:
  assumes "i8042 io pend"
  obtains st p' where "inb io KBD_STATUS_PORT p = (st, p')" "pend p' = pend p" "(st AND 0x01 = 0) = (pend p = [])"
    "pend p \<noteq> [] \<Longrightarrow> (st AND 0x20 \<noteq> 0) = fst (hd (pend p))"
proof -
  obtain st p' where r: "inb io KBD_STATUS_PORT p = (st, p')" by (metis surj_pair)
  have "case inb io KBD_STATUS_PORT p of (st, p') \<Rightarrow> pend p' = pend p \<and> (st AND 0x01 \<noteq> 0) = (pend p \<noteq> []) \<and>
        (pend p \<noteq> [] \<longrightarrow> (st AND 0x20 \<noteq> 0) = fst (hd (pend p)))" using assms unfolding i8042_def by (rule conjunct1[THEN spec])
  then show ?thesis using r that by auto
qed

lemma data_read:
  assumes "i8042 io pend" "pend p = b # bs"
  obtains p' where "inb io KBD_DATA_PORT p = (snd b, p')" "pend p' = bs"
proof -
  have "case inb io KBD_DATA_PORT p of (v, p') \<Rightarrow> v = snd b \<and> pend p' = bs"
    using assms(1)[unfolded i8042_def, THEN conjunct2, rule_format, OF assms(2)] .
  then show ?thesis using that by (cases "inb io KBD_DATA_PORT p") auto
qed

lemma process_incoming_run:
  assumes "i8042 io pend"
  shows "\<exists>s'. ps2_process_incoming io s = Some s' \<and> pend (ports s') = [] \<and>
    mouse_ring s' = fold ring_push (aux_bytes (pend (ports s))) (mouse_ring s) \<and>
    kbd_ring s' = fold ring_push (key_bytes (pend (ports s))) (kbd_ring s) \<and>
    g_ps2_mouse_bytes s' = g_ps2_mouse_bytes s + int (length (aux_bytes (pend (ports s)))) \<and>
    g_ps2_kbd_bytes s' = g_ps2_kbd_bytes s + int (length (key_bytes (pend (ports s)))) \<and>
    abs_pos_x s' = abs_pos_x s \<and> abs_pos_y s' = abs_pos_y s"
proof (induction "pend (ports s)" arbitrary: s)
  case Nil
  then obtain st p' where "inb io KBD_STATUS_PORT (ports s) = (st, p')" "pend p' = []" "st AND 0x01 = 0"
    using status_read[OF assms, of "ports s"] by metis
  then show ?case using Nil by (subst ps2_process_incoming.simps) (simp add: aux_bytes_def key_bytes_def)
next
  case (Cons b bs)
  obtain st p1 where 1: "inb io KBD_STATUS_PORT (ports s) = (st, p1)" "pend p1 = b # bs" "st AND 0x01 \<noteq> 0"
    using status_read[OF assms, of "ports s"] Cons.hyps(2) by (metis list.distinct(1))
  obtain st2 p2 where 2: "inb io KBD_STATUS_PORT p1 = (st2, p2)" "pend p2 = b # bs" "st2 AND 0x01 \<noteq> 0" "(st2 AND 0x20 \<noteq> 0) = fst b"
    using status_read[OF assms, of p1] 1(2) by (metis list.distinct(1) list.sel(1))
  obtain p3 where 3: "inb io KBD_DATA_PORT p2 = (snd b, p3)" "pend p3 = bs" by (rule data_read[OF assms 2(2)])
  let ?s = "file_byte st2 (snd b) (s\<lparr>ports := p3\<rparr>)"
  have p: "pend (ports ?s) = bs" using 3 by (simp add: file_byte_def ps2_inc_mouse_byte_def ps2_inc_kbd_byte_def)
  have u: "ps2_process_incoming io s = ps2_process_incoming io ?s"
    by (subst ps2_process_incoming.simps) (simp add: 1 2 3)
  show ?case using Cons.hyps(1)[of ?s] unfolding u p Cons.hyps(2)[symmetric] using 2(4)
    by (simp add: file_byte_def ps2_inc_mouse_byte_def ps2_inc_kbd_byte_def aux_bytes_def key_bytes_def add.assoc split: if_splits)
qed

text \<open>
  C33. Draining the controller returns, and sorts the waiting bytes by the device they came from: each ring
  holds what it held followed by its device's bytes in order, cut at the 63 bytes a ring can hold.
\<close>
theorem process_incoming_demux:
  assumes "i8042 io pend" "ring_inv (mouse_ring s)" "ring_inv (kbd_ring s)"
  shows "\<exists>s'. ps2_process_incoming io s = Some s' \<and> pend (ports s') = [] \<and> ring_inv (mouse_ring s') \<and> ring_inv (kbd_ring s') \<and>
    ring_content (mouse_ring s') = take 63 (ring_content (mouse_ring s) @ aux_bytes (pend (ports s))) \<and>
    ring_content (kbd_ring s') = take 63 (ring_content (kbd_ring s) @ key_bytes (pend (ports s)))"
  using process_incoming_run[OF assms(1), of s] ring.push_all[OF assms(2), of "aux_bytes (pend (ports s))"]
    ring.push_all[OF assms(3), of "key_bytes (pend (ports s))"] by auto

section \<open>Mouse packets\<close>

fun packets :: "bytes \<Rightarrow> (u8 \<times> u8 \<times> u8) list" where
  "packets (b0 # b1 # b2 # bs) = (b0, b1, b2) # packets bs"
| "packets _ = []"

fun leftover :: "bytes \<Rightarrow> bytes" where
  "leftover (b0 # b1 # b2 # bs) = leftover bs"
| "leftover bs = bs"

definition valid_packets :: "bytes \<Rightarrow> (u8 \<times> u8 \<times> u8) list" where
  "valid_packets bs = filter (\<lambda>(b0, b1, b2). b0 AND 0x08 \<noteq> 0) (packets bs)"

text \<open>The movement of a packet as the protocol defines it: two 9-bit two's complement numbers.\<close>

definition delta_x :: "u8 \<times> u8 \<times> u8 \<Rightarrow> int" where
  "delta_x = (\<lambda>(b0, b1, b2). int (unat b1) - (if b0 AND 0x10 \<noteq> 0 then 256 else 0))"

definition delta_y :: "u8 \<times> u8 \<times> u8 \<Rightarrow> int" where
  "delta_y = (\<lambda>(b0, b1, b2). int (unat b2) - (if b0 AND 0x20 \<noteq> 0 then 256 else 0))"

lemma sign_extend_eq: "sign_extend neg b = int (unat b) - (if neg then 256 else 0)"
proof -
  have "unat b < 2 ^ LENGTH(8)" by (rule unsigned_less)
  then have "unat b < 256" by simp
  then have r: "- 256 \<le> int (unat b)" "int (unat b) < 256" "- 256 \<le> int (unat b) - 256" "int (unat b) - 256 < 256" by linarith+
  have s: "sint (word_of_int k :: u32) = k" if "- 256 \<le> k" "k < 256" for k
    using that by (simp add: signed_of_int signed_take_bit_int_eq_self)
  have z: "(ucast b :: u32) = word_of_int (int (unat b))" by (simp add: unsigned_ucast_eq word_unat_eq_iff)
  have "(ucast b :: u32) AND 0xFFFFFF00 = 0"
  proof (rule bit_word_eqI)
    fix n assume n: "n < LENGTH(32)"
    have e: "(0xFFFFFF00 :: u32) = NOT (mask 8)" by (simp add: mask_eq_exp_minus_1)
    show "bit ((ucast b :: u32) AND 0xFFFFFF00) n = bit (0 :: u32) n"
      unfolding e using bit_imp_le_length[of b n] by (auto simp: bit_and_iff bit_not_iff bit_mask_iff bit_unsigned_iff)
  qed
  then have orp: "(ucast b :: u32) OR 0xFFFFFF00 = ucast b + 0xFFFFFF00" using word_plus_and_or[of "ucast b :: u32" "0xFFFFFF00"] by simp
  have "(ucast b :: u32) + 0xFFFFFF00 = word_of_int (int (unat b) - 256)" unfolding z of_int_diff by simp
  then have "sint ((ucast b :: u32) OR 0xFFFFFF00) = int (unat b) - 256" unfolding orp using s[OF r(3,4)] by (simp only:)
  moreover have "sint (ucast b :: u32) = int (unat b)" unfolding z by (rule s[OF r(1,2)])
  ultimately show ?thesis by (simp add: sign_extend_def)
qed

lemma ring_restore:
  assumes "ring_inv r"
  shows "ring_back 1 (r\<lparr>rb_tail := ring_next (rb_tail r)\<rparr>) = r"
    "ring_back 2 (r\<lparr>rb_tail := ring_next (ring_next (rb_tail r))\<rparr>) = r"
proof -
  have t: "unat (rb_tail r) < 64" using assms by (simp add: ring_inv_def)
  have "(of_nat (unat (rb_tail r)) :: u8) = rb_tail r" by simp
  moreover have "(unat (ring_next (rb_tail r)) + 64 - 1) mod 64 = unat (rb_tail r)"
    "(unat (ring_next (ring_next (rb_tail r))) + 64 - 2) mod 64 = unat (rb_tail r)"
    using t by (auto simp: unat_ring_next mod_if)
  ultimately show "ring_back 1 (r\<lparr>rb_tail := ring_next (rb_tail r)\<rparr>) = r"
    "ring_back 2 (r\<lparr>rb_tail := ring_next (ring_next (rb_tail r))\<rparr>) = r"
    by (simp_all add: ring_back_def)
qed

definition step_packet :: "u8 \<times> u8 \<times> u8 \<Rightarrow> motion \<Rightarrow> motion" where
  "step_packet = (\<lambda>(b0, b1, b2) m. if b0 AND 0x08 = 0 then m else add_packet b0 b1 b2 m)"

lemma packet_loop_run:
  "ring_inv r \<Longrightarrow> ring_content r = bs \<Longrightarrow>
   \<exists>r'. packet_loop r m = Some (r', fold step_packet (packets bs) m) \<and> ring_inv r' \<and> ring_content r' = leftover bs"
proof (induction bs arbitrary: r m rule: packets.induct, goal_cases)
  case (1 b0 b1 b2 bs r m)
  note A = ring_pop_cons[OF 1(2,3)]
  note B = ring_pop_cons[OF A(2,3)]
  note C = ring_pop_cons[OF B(2,3)]
  have "packet_loop r m = packet_loop (r\<lparr>rb_tail := ring_next (ring_next (ring_next (rb_tail r)))\<rparr>) (step_packet (b0, b1, b2) m)"
    using A(1) B(1) C(1) by (subst packet_loop.simps) (simp add: step_packet_def)
  then show ?case using 1(1)[OF C(2,3), of "step_packet (b0, b1, b2) m"] by simp
next
  case (2 r m)
  then have "packet_loop r m = Some (r, m)" using ring.pop_none by (subst packet_loop.simps) simp
  then show ?case using 2 by simp
next
  case (3 v r m)
  note A = ring_pop_cons[OF 3(1,2)]
  have "packet_loop r m = Some (r, m)"
    using A ring.pop_none[OF A(2,3)] ring_restore(1)[OF 3(1)] by (subst packet_loop.simps) simp
  then show ?case using 3 by simp
next
  case (4 v w r m)
  note A = ring_pop_cons[OF 4(1,2)]
  note B = ring_pop_cons[OF A(2,3)]
  have "packet_loop r m = Some (r, m)"
    using A(1) B(1) ring.pop_none[OF B(2,3)] ring_restore(2)[OF 4(1)] by (subst packet_loop.simps) simp
  then show ?case using 4 by simp
qed

lemma fold_packets:
  "fold step_packet ps m = (let vs = filter (\<lambda>(b0, b1, b2). b0 AND 0x08 \<noteq> 0) ps in
     \<lparr>mo_any = mo_any m \<or> vs \<noteq> [], total_dx = total_dx m + sum_list (map delta_x vs), total_dy = total_dy m + sum_list (map delta_y vs),
      last_buttons = (if vs = [] then last_buttons m else fst (last vs) AND 0x07)\<rparr>)"
proof (induction ps arbitrary: m)
  case Nil
  then show ?case by (simp add: Let_def)
next
  case (Cons p ps)
  obtain b0 b1 b2 where p: "p = (b0, b1, b2)" by (cases p)
  show ?case using Cons[of "step_packet p m"]
    by (simp add: p step_packet_def add_packet_def sign_extend_eq delta_x_def delta_y_def Let_def add.assoc)
qed

lemma clamp_eq: "clamp (- 128) 127 x = max (- 128) (min 127 x)" "clamp_pos x = max 0 (min 32767 x)"
  by (auto simp: clamp_def clamp_pos_def Let_def)

lemma sint_clamp: "sint (word_of_int (clamp (- 128) 127 x) :: u8) = max (- 128) (min 127 x)"
  unfolding clamp_eq by (simp add: signed_of_int signed_take_bit_int_eq_self min_def max_def)

lemma touchpad_poll_eq:
  assumes "i8042 io pend" "ring_inv (mouse_ring s)"
    and "bs = take 63 (ring_content (mouse_ring s) @ aux_bytes (pend (ports s)))"
  obtains s1 r' where "touchpad_poll io s = (case finish_poll (fold step_packet (packets bs) no_motion) (abs_pos_x s) (abs_pos_y s) of (ev, x, y) \<Rightarrow>
      Some (ev, s1\<lparr>mouse_ring := r', abs_pos_x := x, abs_pos_y := y\<rparr>))" "ring_content r' = leftover bs"
proof -
  obtain s1 where s1: "ps2_process_incoming io s = Some s1" "mouse_ring s1 = fold ring_push (aux_bytes (pend (ports s))) (mouse_ring s)"
    "abs_pos_x s1 = abs_pos_x s" "abs_pos_y s1 = abs_pos_y s"
    using process_incoming_run[OF assms(1), of s] by blast
  have r: "ring_inv (mouse_ring s1)" "ring_content (mouse_ring s1) = bs"
    using ring.push_all[OF assms(2)] s1(2) assms(3) by simp_all
  obtain r' where l: "packet_loop (mouse_ring s1) no_motion = Some (r', fold step_packet (packets bs) no_motion)" "ring_content r' = leftover bs"
    using packet_loop_run[OF r] by blast
  show ?thesis by (rule that[of r' s1]) (use s1 l in \<open>simp_all add: touchpad_poll_def\<close>)
qed

lemma finish_none: "valid_packets bs = [] \<Longrightarrow> finish_poll (fold step_packet (packets bs) no_motion) x y = (None, x, y)"
  unfolding fold_packets valid_packets_def by (simp add: finish_poll_def no_motion_def)

text \<open>
  C14. The mouse poll returns and decodes everything that is waiting: of the bytes in the mouse ring and the
  controller, taken three by three, the packets whose first byte has its sync bit give the event, with the
  sums of their 9-bit movements cut to the range of \<^verbatim>\<open>int8_t\<close> and the buttons of the last packet; the one or two bytes of an
  unfinished packet stay in the ring; without a packet there is no event and the position does not move.
\<close>
theorem touchpad_poll_decodes:
  assumes "i8042 io pend" "ring_inv (mouse_ring s)"
    and "bs = take 63 (ring_content (mouse_ring s) @ aux_bytes (pend (ports s)))"
  shows "\<exists>ev s'. touchpad_poll io s = Some (ev, s') \<and> ring_content (mouse_ring s') = leftover bs \<and>
    (case ev of
       None \<Rightarrow> valid_packets bs = [] \<and> abs_pos_x s' = abs_pos_x s \<and> abs_pos_y s' = abs_pos_y s
     | Some (dx, dy, btn) \<Rightarrow> valid_packets bs \<noteq> [] \<and> btn = fst (last (valid_packets bs)) AND 0x07 \<and>
         sint dx = max (- 128) (min 127 (sum_list (map delta_x (valid_packets bs)))) \<and>
         sint dy = max (- 128) (min 127 (sum_list (map delta_y (valid_packets bs)))) \<and>
         abs_pos_x s' = max 0 (min 32767 (abs_pos_x s + 512 * sint dx)) \<and>
         abs_pos_y s' = max 0 (min 32767 (abs_pos_y s - 512 * sint dy)))"
proof -
  let ?m = "fold step_packet (packets bs) no_motion"
  note m = fold_packets[of "packets bs" no_motion, folded valid_packets_def, unfolded Let_def]
  obtain s1 r' where run: "touchpad_poll io s = (case finish_poll ?m (abs_pos_x s) (abs_pos_y s) of (ev, x, y) \<Rightarrow>
      Some (ev, s1\<lparr>mouse_ring := r', abs_pos_x := x, abs_pos_y := y\<rparr>))" "ring_content r' = leftover bs"
    by (rule touchpad_poll_eq[OF assms])
  show ?thesis
  proof (cases "valid_packets bs = []")
    case True
    then show ?thesis using run finish_none[OF True, of "abs_pos_x s" "abs_pos_y s"] by simp
  next
    case False
    let ?x = "sum_list (map delta_x (valid_packets bs))" and ?y = "sum_list (map delta_y (valid_packets bs))"
    have "finish_poll ?m (abs_pos_x s) (abs_pos_y s) = (Some (word_of_int (clamp (- 128) 127 ?x), word_of_int (clamp (- 128) 127 ?y),
        fst (last (valid_packets bs)) AND 0x07), clamp_pos (abs_pos_x s + clamp (- 128) 127 ?x * 512), clamp_pos (abs_pos_y s - clamp (- 128) 127 ?y * 512))"
      unfolding m using False by (simp add: finish_poll_def no_motion_def Let_def)
    then show ?thesis using run False by (simp add: sint_clamp[unfolded clamp_eq] clamp_eq mult.commute[of 512])
  qed
qed

section \<open>The state of the driver under any controller\<close>

definition ps2_ok :: "'p ps2 \<Rightarrow> bool" where
  "ps2_ok s \<longleftrightarrow> ring_inv (mouse_ring s) \<and> ring_inv (kbd_ring s) \<and> abs_pos_x s \<in> {0..32767} \<and> abs_pos_y s \<in> {0..32767}"

lemma process_incoming_ok:
  assumes "ps2_process_incoming io s = Some s'" "ps2_ok s"
  shows "ps2_ok s'"
proof -
  have "ps2_ok s \<longrightarrow> ps2_ok s'"
  proof (rule ps2_process_incoming.raw_induct[OF _ assms(1), where P = "\<lambda>io s s'. ps2_ok s \<longrightarrow> ps2_ok s'"], intro impI)
    fix f :: "'a ps2_io \<Rightarrow> 'a ps2 \<Rightarrow> 'a ps2 option" and io s s'
    assume IH: "\<And>io s s'. f io s = Some s' \<Longrightarrow> ps2_ok s \<longrightarrow> ps2_ok s'" and ok: "ps2_ok s"
      and run: "(case inb io KBD_STATUS_PORT (ports s) of (st, p1) \<Rightarrow>
        if st AND PS2_STATUS_OUTPUT_BUFFER = 0 then Some (s\<lparr>ports := p1\<rparr>)
        else (case inb io KBD_STATUS_PORT p1 of (status, p2) \<Rightarrow>
          if status AND PS2_STATUS_OUTPUT_BUFFER = 0 then Some (s\<lparr>ports := p2\<rparr>)
          else (case inb io KBD_DATA_PORT p2 of (b, p3) \<Rightarrow> f io (file_byte status b (s\<lparr>ports := p3\<rparr>))))) = Some s'"
    have "ps2_ok (file_byte st b (s\<lparr>ports := p\<rparr>))" for st b p
      using ok ring.push_content by (auto simp: ps2_ok_def file_byte_def ps2_inc_mouse_byte_def ps2_inc_kbd_byte_def)
    moreover have "ps2_ok (s\<lparr>ports := p\<rparr>)" for p using ok by (simp add: ps2_ok_def)
    ultimately show "ps2_ok s'" using run IH by (auto split: prod.splits if_splits)
  qed
  then show ?thesis using assms(2) by simp
qed

text \<open>Key codes: a byte with its top bit clear is a make code; 0xE0 and 0xFA have it set.\<close>

definition make_code :: "u8 \<Rightarrow> bool" where
  "make_code b \<longleftrightarrow> b AND 0x80 = 0"

lemma make_code_value: "make_code b \<Longrightarrow> b AND 0x7F = b"
proof (rule bit_word_eqI)
  fix n assume m: "make_code b" and n: "n < LENGTH(8)"
  have e: "(0x7F :: u8) = mask 7" "(0x80 :: u8) = 2 ^ 7" by (simp_all add: mask_eq_exp_minus_1)
  have "\<not> bit (b AND 0x80) 7" using m by (simp add: make_code_def)
  then have "\<not> bit b 7" unfolding e by (simp add: bit_and_iff bit_exp_iff)
  moreover have "n < 7 \<or> n = 7" using n by auto
  ultimately show "bit (b AND 0x7F) n = bit b n" unfolding e by (auto simp: bit_and_iff bit_mask_iff)
qed

lemma make_code_loop_run:
  "ring_inv r \<Longrightarrow> ring_content r = bs \<Longrightarrow>
   \<exists>r'. make_code_loop r = Some (find make_code bs, r') \<and> ring_inv r' \<and> ring_content r' = tl (dropWhile (\<lambda>b. \<not> make_code b) bs)"
proof (induction bs arbitrary: r)
  case Nil
  then have "make_code_loop r = Some (None, r)" using ring.pop_none by (subst make_code_loop.simps) simp
  then show ?case using Nil by simp
next
  case (Cons b bs)
  note A = ring_pop_cons[OF Cons.prems]
  let ?r = "r\<lparr>rb_tail := ring_next (rb_tail r)\<rparr>"
  show ?case
  proof (cases "make_code b")
    case True
    then have "b \<noteq> 0xE0" "b \<noteq> 0xFA" "b AND 0x80 = 0" by (auto simp: make_code_def)
    then have "make_code_loop r = Some (Some (b AND 0x7F), ?r)" using A(1) by (subst make_code_loop.simps) simp
    then show ?thesis using True A make_code_value[OF True] by simp
  next
    case False
    then have "make_code_loop r = make_code_loop ?r" using A(1) by (subst make_code_loop.simps) (simp add: make_code_def)
    then show ?thesis using False Cons.IH[OF A(2,3)] by simp
  qed
qed

lemma keyboard_poll_run:
  assumes "i8042 io pend" "ring_inv (kbd_ring s)"
    and "bs = take 63 (ring_content (kbd_ring s) @ key_bytes (pend (ports s)))"
  shows "\<exists>s'. ps2_keyboard_poll io s = Some (find make_code bs, s') \<and> pend (ports s') = [] \<and>
    ring_content (kbd_ring s') = tl (dropWhile (\<lambda>b. \<not> make_code b) bs)"
proof -
  obtain s1 where s1: "ps2_process_incoming io s = Some s1" "kbd_ring s1 = fold ring_push (key_bytes (pend (ports s))) (kbd_ring s)" "pend (ports s1) = []"
    using process_incoming_run[OF assms(1), of s] by blast
  have r: "ring_inv (kbd_ring s1)" "ring_content (kbd_ring s1) = bs" using ring.push_all[OF assms(2)] s1(2) assms(3) by simp_all
  show ?thesis using make_code_loop_run[OF r] s1 by (auto simp: ps2_keyboard_poll_def)
qed

text \<open>
  The keyboard poll returns the first make code among the bytes in the keyboard ring and the controller,
  skipping break codes, acknowledgements and extension prefixes, and leaves the bytes after it in the ring.
\<close>
theorem keyboard_poll_first_make:
  assumes "i8042 io pend" "ring_inv (kbd_ring s)"
    and "bs = take 63 (ring_content (kbd_ring s) @ key_bytes (pend (ports s)))"
  shows "\<exists>s'. ps2_keyboard_poll io s = Some (find make_code bs, s') \<and> pend (ports s') = [] \<and>
    ring_content (kbd_ring s') = tl (dropWhile (\<lambda>b. \<not> make_code b) bs)"
  by (rule keyboard_poll_run[OF assms])

text \<open>
  C34. Whatever the controller answers, a poll that returns leaves both rings with their indices inside the
  buffer and the absolute position inside [0, 32767].
\<close>
theorem polls_keep_state:
  assumes "ps2_ok s"
  shows "(touchpad_poll io s = Some (ev, s') \<longrightarrow> ps2_ok s') \<and> (ps2_keyboard_poll io s = Some (k, s'') \<longrightarrow> ps2_ok s'')"
proof (intro conjI impI)
  assume run: "touchpad_poll io s = Some (ev, s')"
  then obtain s1 where s1: "ps2_process_incoming io s = Some s1" by (auto simp: touchpad_poll_def bind_eq_Some_conv)
  have ok: "ps2_ok s1" by (rule process_incoming_ok[OF s1 assms])
  then obtain r' m where l: "packet_loop (mouse_ring s1) no_motion = Some (r', m)" "ring_inv r'"
    using packet_loop_run[OF _ refl, of "mouse_ring s1" no_motion] by (auto simp: ps2_ok_def)
  show "ps2_ok s'" using run s1 l ok
    by (auto simp: touchpad_poll_def finish_poll_def ps2_ok_def clamp_eq Let_def split: if_splits)
next
  assume run: "ps2_keyboard_poll io s = Some (k, s'')"
  then obtain s1 where s1: "ps2_process_incoming io s = Some s1" by (auto simp: ps2_keyboard_poll_def bind_eq_Some_conv)
  have ok: "ps2_ok s1" by (rule process_incoming_ok[OF s1 assms])
  then obtain k' r' where l: "make_code_loop (kbd_ring s1) = Some (k', r')" "ring_inv r'"
    using make_code_loop_run[OF _ refl, of "kbd_ring s1"] by (auto simp: ps2_ok_def)
  show "ps2_ok s''" using run s1 l ok by (auto simp: ps2_keyboard_poll_def ps2_ok_def)
qed

section \<open>Lost synchronisation\<close>

definition flat_packet :: "u8 \<times> u8 \<times> u8 \<Rightarrow> bytes" where
  "flat_packet = (\<lambda>(b0, b1, b2). [b0, b1, b2])"

lemma shifted_packets:
  "x AND 0x08 = 0 \<Longrightarrow> \<forall>(b0, b1, b2) \<in> set ps. b2 AND 0x08 = 0 \<Longrightarrow>
   valid_packets (x # concat (map flat_packet ps)) = [] \<and> (\<exists>y. leftover (x # concat (map flat_packet ps)) = [y] \<and> y AND 0x08 = 0)"
proof (induction ps arbitrary: x)
  case (Cons p ps)
  obtain b0 b1 b2 where p: "p = (b0, b1, b2)" by (cases p)
  show ?case using Cons.IH[of b2] Cons.prems by (simp add: p flat_packet_def valid_packets_def)
qed (simp add: valid_packets_def)

lemma length_flat: "length (concat (map flat_packet ps)) = 3 * length ps"
  by (induction ps) (auto simp: flat_packet_def)

text \<open>
  The mouse poll does not find its way back after a stray byte: it drops three bytes at a time, so when
  the ring holds one left-over byte without the sync bit and whole packets follow whose last byte has that
  bit clear, none of them is seen, and the ring is again left with one such byte.
\<close>
theorem stray_byte_loses_packets:
  assumes "i8042 io pend" "ring_inv (mouse_ring s)" "ring_content (mouse_ring s) = [x]" "x AND 0x08 = 0"
    and "aux_bytes (pend (ports s)) = concat (map flat_packet ps)" "\<forall>(b0, b1, b2) \<in> set ps. b2 AND 0x08 = 0" "length ps \<le> 20"
  shows "\<exists>s' y. touchpad_poll io s = Some (None, s') \<and> ring_content (mouse_ring s') = [y] \<and> y AND 0x08 = 0"
proof -
  let ?bs = "x # concat (map flat_packet ps)"
  have "length ?bs \<le> 63" using assms(7) by (simp add: length_flat)
  then have b: "?bs = take 63 (ring_content (mouse_ring s) @ aux_bytes (pend (ports s)))" unfolding assms(3,5) by simp
  have v: "valid_packets ?bs = []" and "\<exists>y. leftover ?bs = [y] \<and> y AND 0x08 = 0" using shifted_packets[OF assms(4,6)] by blast+
  then obtain y where y: "leftover ?bs = [y]" "y AND 0x08 = 0" by blast
  show ?thesis
    by (rule touchpad_poll_eq[OF assms(1,2) b]) (use y finish_none[OF v, of "abs_pos_x s" "abs_pos_y s"] in simp)
qed

section \<open>The stand-alone mouse poll\<close>

lemma take_byte_ports: "take_byte b (s\<lparr>tp_ports := p\<rparr>) m = (case take_byte b s m of (s', m') \<Rightarrow> (s'\<lparr>tp_ports := p\<rparr>, m'))"
  by (simp add: take_byte_def Let_def)

lemma byte_loop_run:
  assumes "i8042 io pend"
  shows "\<exists>s' m'. byte_loop io s m = Some (s', m') \<and> pend (tp_ports s') = [] \<and>
    fold (\<lambda>b (s, m). take_byte b s m) (map snd (pend (tp_ports s))) (s\<lparr>tp_ports := q\<rparr>, m) = (s'\<lparr>tp_ports := q\<rparr>, m')"
proof (induction "pend (tp_ports s)" arbitrary: s m)
  case Nil
  then obtain st p' where "inb io KBD_STATUS_PORT (tp_ports s) = (st, p')" "pend p' = []" "st AND 0x01 = 0"
    using status_read[OF assms, of "tp_ports s"] by metis
  then show ?case using Nil by (subst byte_loop.simps) simp
next
  case (Cons b bs)
  obtain st p1 where 1: "inb io KBD_STATUS_PORT (tp_ports s) = (st, p1)" "pend p1 = b # bs" "st AND 0x01 \<noteq> 0"
    using status_read[OF assms, of "tp_ports s"] Cons.hyps(2) by (metis list.distinct(1))
  obtain p2 where 2: "inb io KBD_DATA_PORT p1 = (snd b, p2)" "pend p2 = bs" by (rule data_read[OF assms 1(2)])
  obtain t m' where t: "take_byte (snd b) s m = (t, m')" by (metis surj_pair)
  have u: "byte_loop io s m = byte_loop io (t\<lparr>tp_ports := p2\<rparr>) m'"
    by (subst byte_loop.simps) (simp add: 1 2 take_byte_ports t)
  show ?case using Cons.hyps(1)[of "t\<lparr>tp_ports := p2\<rparr>" m'] 2(2) unfolding u Cons.hyps(2)[symmetric]
    by (simp add: take_byte_ports t)
qed

lemma junk_skipped:
  "tp_packet_idx s = 0 \<Longrightarrow> \<forall>b \<in> set junk. b AND 0x08 = 0 \<Longrightarrow> fold (\<lambda>b (s, m). take_byte b s m) junk (s, m) = (s, m)"
  by (induction junk) (simp_all add: take_byte_def)

lemma packet_taken:
  assumes "tp_packet_idx s = 0" "length (tp_packet s) = 3" "b0 AND 0x08 \<noteq> 0"
  shows "fold (\<lambda>b (s, m). take_byte b s m) [b0, b1, b2] (s, m) =
    (s\<lparr>tp_packet := [b0, b1, b2], tp_packet_idx := 0\<rparr>, step_packet (b0, b1, b2) m)"
proof -
  obtain x xs where a: "tp_packet s = x # xs" using assms(2) by (cases "tp_packet s") auto
  obtain y ys where b: "xs = y # ys" using assms(2) a by (cases xs) auto
  obtain z where c: "ys = [z]" using assms(2) a b by (cases ys) auto
  have 1: "take_byte b0 s m = (s\<lparr>tp_packet := [b0, y, z], tp_packet_idx := Suc 0\<rparr>, m)"
    using assms(1,3) by (simp add: take_byte_def a b c Let_def)
  have 2: "take_byte b1 (s\<lparr>tp_packet := [b0, y, z], tp_packet_idx := Suc 0\<rparr>) m = (s\<lparr>tp_packet := [b0, b1, z], tp_packet_idx := 2\<rparr>, m)"
    by (simp add: take_byte_def Let_def)
  have 3: "take_byte b2 (s\<lparr>tp_packet := [b0, b1, z], tp_packet_idx := 2\<rparr>) m =
      (s\<lparr>tp_packet := [b0, b1, b2], tp_packet_idx := 0\<rparr>, add_packet b0 b1 b2 m)"
    by (simp add: take_byte_def Let_def)
  show ?thesis using assms(3) by (simp add: 1 2 3 step_packet_def)
qed

lemma packets_taken:
  "tp_packet_idx s = 0 \<Longrightarrow> length (tp_packet s) = 3 \<Longrightarrow> \<forall>(b0, b1, b2) \<in> set ps. b0 AND 0x08 \<noteq> 0 \<Longrightarrow>
   \<exists>pk. fold (\<lambda>b (s, m). take_byte b s m) (concat (map flat_packet ps)) (s, m) = (s\<lparr>tp_packet := pk, tp_packet_idx := 0\<rparr>, fold step_packet ps m)"
proof (induction ps arbitrary: s m)
  case Nil
  then show ?case by (intro exI[of _ "tp_packet s"]) simp
next
  case (Cons p ps)
  obtain b0 b1 b2 where p: "p = (b0, b1, b2)" by (cases p)
  let ?pk = "[b0, b1, b2]"
  have "b0 AND 0x08 \<noteq> 0" using Cons.prems(3) by (simp add: p)
  then have "fold (\<lambda>b (s, m). take_byte b s m) (flat_packet p) (s, m) = (s\<lparr>tp_packet := ?pk, tp_packet_idx := 0\<rparr>, step_packet p m)"
    using packet_taken[OF Cons.prems(1,2)] by (simp only: p flat_packet_def prod.case)
  then show ?case using Cons.IH[of "s\<lparr>tp_packet := ?pk, tp_packet_idx := 0\<rparr>" "step_packet p m"] Cons.prems by simp
qed

lemma all_valid: "\<forall>(b0, b1, b2) \<in> set ps. b0 AND 0x08 \<noteq> 0 \<Longrightarrow> filter (\<lambda>(b0, b1, b2). b0 AND 0x08 \<noteq> 0) ps = ps"
  by (simp add: filter_id_conv)

text \<open>
  The stand-alone poll of \<^verbatim>\<open>drivers/touchpad.c\<close> does resynchronise: bytes without the sync bit in front of
  whole packets are skipped and every packet after them counts.
\<close>
theorem direct_poll_resynchronises:
  assumes "i8042 io pend" "tp_packet_idx s = 0" "length (tp_packet s) = 3"
    and "map snd (pend (tp_ports s)) = junk @ concat (map flat_packet ps)"
    and "\<forall>b \<in> set junk. b AND 0x08 = 0" "\<forall>(b0, b1, b2) \<in> set ps. b0 AND 0x08 \<noteq> 0" "ps \<noteq> []"
  shows "\<exists>dx dy s'. touchpad_poll_direct io s = Some (Some (dx, dy, fst (last ps) AND 0x07), s') \<and>
    sint dx = max (- 128) (min 127 (sum_list (map delta_x ps))) \<and> sint dy = max (- 128) (min 127 (sum_list (map delta_y ps)))"
proof -
  let ?q = "tp_ports s"
  obtain s' m' where l: "byte_loop io s no_motion = Some (s', m')"
    "fold (\<lambda>b (s, m). take_byte b s m) (junk @ concat (map flat_packet ps)) (s\<lparr>tp_ports := ?q\<rparr>, no_motion) = (s'\<lparr>tp_ports := ?q\<rparr>, m')"
    using byte_loop_run[OF assms(1), of s no_motion ?q] unfolding assms(4) by blast
  obtain pk where "fold (\<lambda>b (s, m). take_byte b s m) (concat (map flat_packet ps)) (s, no_motion) =
      (s\<lparr>tp_packet := pk, tp_packet_idx := 0\<rparr>, fold step_packet ps no_motion)" using packets_taken[OF assms(2,3,6)] by blast
  then have m: "m' = fold step_packet ps no_motion" using l(2) junk_skipped[OF assms(2,5)] by simp
  show ?thesis using l(1) assms(7) unfolding touchpad_poll_direct_def m fold_packets all_valid[OF assms(6)]
    by (simp add: finish_poll_def no_motion_def Let_def sint_clamp)
qed

section \<open>The adapter\<close>

text \<open>
  A failed initialisation is reported once: the second call of \<^verbatim>\<open>usb_touchpad_init\<close> returns success.
\<close>
theorem adapter_hides_failure:
  assumes "usb_touchpad_init io x s = Some (rc, s')" "rc \<noteq> 0"
  shows "usb_touchpad_init io x s' = Some (0, s')"
proof -
  have "g_inited s'" using assms
    by (auto simp: usb_touchpad_init_def init_ps2_def bind_eq_Some_conv split: if_splits prod.splits)
  then show ?thesis by (simp add: usb_touchpad_init_def)
qed

section \<open>A controller and a driver\<close>

definition ref_8042 :: "(bool \<times> u8) list ps2_io" where
  "ref_8042 = \<lparr>inb = (\<lambda>pt p. if pt = KBD_STATUS_PORT then (case p of [] \<Rightarrow> 0 | (aux, b) # _ \<Rightarrow> if aux then 0x21 else 0x01, p)
       else if pt = KBD_DATA_PORT then (case p of [] \<Rightarrow> (0, []) | (aux, b) # q \<Rightarrow> (b, q)) else (0, p)),
     outb = (\<lambda>pt v p. p)\<rparr>"

lemma ref_8042_ok: "i8042 ref_8042 (\<lambda>p. p)"
  by (auto simp: i8042_def ref_8042_def split: list.splits)

definition empty_ring :: ring where
  "empty_ring = \<lparr>rb_buf = replicate 64 0, rb_head = 0, rb_tail = 0\<rparr>"

definition fresh_ps2 :: "(bool \<times> u8) list \<Rightarrow> (bool \<times> u8) list ps2" where
  "fresh_ps2 p = \<lparr>mouse_ring = empty_ring, kbd_ring = empty_ring, packet_idx = 0, abs_pos_x = 16384, abs_pos_y = 16384,
     g_ps2_mouse_bytes = 0, g_ps2_kbd_bytes = 0, ports = p\<rparr>"

lemma fresh_simps [simp]:
  "mouse_ring (fresh_ps2 p) = empty_ring" "kbd_ring (fresh_ps2 p) = empty_ring" "ports (fresh_ps2 p) = p"
  "abs_pos_x (fresh_ps2 p) = 16384" "abs_pos_y (fresh_ps2 p) = 16384"
  by (simp_all add: fresh_ps2_def)

lemma empty_ring_ok: "ring_inv empty_ring" "ring_content empty_ring = []"
  by (simp_all add: empty_ring_def ring_inv_def ring_content_def ring_len_def)

theorem process_incoming_demux_witness:
  "\<exists>s'. ps2_process_incoming ref_8042 (fresh_ps2 [(True, 8), (False, 0x1E), (True, 5)]) = Some s' \<and>
     ring_content (mouse_ring s') = [8, 5] \<and> ring_content (kbd_ring s') = [0x1E]"
  using process_incoming_demux[OF ref_8042_ok, of "fresh_ps2 [(True, 8), (False, 0x1E), (True, 5)]"]
  by (auto simp: empty_ring_ok aux_bytes_def key_bytes_def)

theorem touchpad_poll_decodes_witness:
  "\<exists>dx dy s'. touchpad_poll ref_8042 (fresh_ps2 [(True, 0x19), (True, 0xFE), (True, 3), (True, 8)]) = Some (Some (dx, dy, 1), s') \<and>
     sint dx = - 2 \<and> sint dy = 3 \<and> abs_pos_x s' = 15360 \<and> ring_content (mouse_ring s') = [8]"
proof -
  let ?s = "fresh_ps2 [(True, 0x19), (True, 0xFE), (True, 3), (True, 8)]"
  have b: "[0x19, 0xFE, 3, 8] = take 63 (ring_content (mouse_ring ?s) @ aux_bytes (ports ?s))"
    by (simp add: empty_ring_ok aux_bytes_def)
  obtain ev s' where r: "touchpad_poll ref_8042 ?s = Some (ev, s')" "ring_content (mouse_ring s') = leftover [0x19, 0xFE, 3, 8]"
    "(case ev of
       None \<Rightarrow> valid_packets [0x19, 0xFE, 3, 8] = [] \<and> abs_pos_x s' = abs_pos_x ?s \<and> abs_pos_y s' = abs_pos_y ?s
     | Some (dx, dy, btn) \<Rightarrow> valid_packets [0x19, 0xFE, 3, 8] \<noteq> [] \<and> btn = fst (last (valid_packets [0x19, 0xFE, 3, 8])) AND 0x07 \<and>
         sint dx = max (- 128) (min 127 (sum_list (map delta_x (valid_packets [0x19, 0xFE, 3, 8])))) \<and>
         sint dy = max (- 128) (min 127 (sum_list (map delta_y (valid_packets [0x19, 0xFE, 3, 8])))) \<and>
         abs_pos_x s' = max 0 (min 32767 (abs_pos_x ?s + 512 * sint dx)) \<and>
         abs_pos_y s' = max 0 (min 32767 (abs_pos_y ?s - 512 * sint dy)))"
    using touchpad_poll_decodes[OF ref_8042_ok _ b] by (auto simp: empty_ring_ok)
  have v: "valid_packets [0x19, 0xFE, 3, 8] = [(0x19, 0xFE, 3)]" by (simp add: valid_packets_def)
  show ?thesis using r unfolding v by (cases ev) (auto simp: delta_x_def delta_y_def)
qed

theorem keyboard_poll_first_make_witness:
  "\<exists>s'. ps2_keyboard_poll ref_8042 (fresh_ps2 [(False, 0xE0), (False, 0x9E), (True, 8), (False, 0x1E), (False, 0x30)]) = Some (Some 0x1E, s') \<and>
     ring_content (kbd_ring s') = [0x30]"
  using keyboard_poll_first_make[OF ref_8042_ok, of "fresh_ps2 [(False, 0xE0), (False, 0x9E), (True, 8), (False, 0x1E), (False, 0x30)]" "[0xE0, 0x9E, 0x1E, 0x30]"]
  by (auto simp: empty_ring_ok key_bytes_def make_code_def)

lemma fresh_ok: "ps2_ok (fresh_ps2 p)"
  by (simp add: ps2_ok_def empty_ring_ok)

theorem polls_keep_state_witness:
  "\<exists>k s'. ps2_keyboard_poll ref_8042 (fresh_ps2 [(False, 0x1E), (True, 8)]) = Some (k, s') \<and> ps2_ok s'"
proof -
  obtain k s' where r: "ps2_keyboard_poll ref_8042 (fresh_ps2 [(False, 0x1E), (True, 8)]) = Some (k, s')"
    using keyboard_poll_run[OF ref_8042_ok, of "fresh_ps2 [(False, 0x1E), (True, 8)]"] empty_ring_ok by auto
  then show ?thesis using polls_keep_state[OF fresh_ok, of ref_8042 "[(False, 0x1E), (True, 8)]" _ _ k s'] by blast
qed

lemma one_stray: "ring_inv (ring_push 0 empty_ring)" "ring_content (ring_push 0 empty_ring) = [0]"
  using ring_push_ok[OF empty_ring_ok(1), of 0] by (simp_all add: empty_ring_ok(2))

theorem stray_byte_loses_packets_witness:
  "\<exists>s'. touchpad_poll ref_8042 ((fresh_ps2 [(True, 8), (True, 1), (True, 0), (True, 8), (True, 2), (True, 0)])\<lparr>mouse_ring := ring_push 0 empty_ring\<rparr>) = Some (None, s')"
  using stray_byte_loses_packets[OF ref_8042_ok,
      of "(fresh_ps2 [(True, 8), (True, 1), (True, 0), (True, 8), (True, 2), (True, 0)])\<lparr>mouse_ring := ring_push 0 empty_ring\<rparr>" 0 "[(8, 1, 0), (8, 2, 0)]"]
  by (auto simp: one_stray aux_bytes_def flat_packet_def)

definition fresh_touchpad :: "(bool \<times> u8) list \<Rightarrow> (bool \<times> u8) list touchpad" where
  "fresh_touchpad p = \<lparr>tp_packet = [0, 0, 0], tp_packet_idx = 0, tp_abs_x = 16384, tp_abs_y = 16384, tp_ports = p\<rparr>"

theorem direct_poll_resynchronises_witness:
  "\<exists>dx dy s'. touchpad_poll_direct ref_8042 (fresh_touchpad [(True, 0), (True, 8), (True, 1), (True, 0), (True, 8), (True, 2), (True, 0)]) = Some (Some (dx, dy, 0), s') \<and>
     sint dx = 3 \<and> sint dy = 0"
  using direct_poll_resynchronises[OF ref_8042_ok,
      of "fresh_touchpad [(True, 0), (True, 8), (True, 1), (True, 0), (True, 8), (True, 2), (True, 0)]" "[0]" "[(8, 1, 0), (8, 2, 0)]"]
  by (auto simp: fresh_touchpad_def flat_packet_def delta_x_def delta_y_def)

lemma ref_no_output: "ps2_wait_output ref_8042 n [] = (False, [])"
  by (induction n) (simp_all add: ref_8042_def)

lemma ref_wait_out: "wait_out ref_8042 pt v p = Some p"
proof -
  have "fst (inb ref_8042 KBD_STATUS_PORT p) AND 0x02 = 0" "snd (inb ref_8042 KBD_STATUS_PORT p) = p"
    by (auto simp: ref_8042_def split: list.split)
  then have "ps2_wait_input ref_8042 p = Some p" by (subst ps2_wait_input.simps) (simp add: case_prod_beta)
  then show ?thesis by (simp add: wait_out_def ref_8042_def)
qed

definition fresh_input :: "(bool \<times> u8) list \<Rightarrow> (bool \<times> u8) list input" where
  "fresh_input p = \<lparr>in_ps2 = fresh_ps2 p, g_hid_enabled = False, g_inited = False, g_using_usb = False, g_last_scancode = 0, poll_ctr = 0\<rparr>"

theorem adapter_hides_failure_witness:
  "\<exists>s'. usb_touchpad_init ref_8042 False (fresh_input []) = Some (- 1, s') \<and> usb_touchpad_init ref_8042 False s' = Some (0, s')"
proof -
  have "mouse_setup ref_8042 [] = Some (- 1, [])" by (simp add: mouse_setup_def ref_wait_out ref_no_output)
  then have "ps2_touchpad_init ref_8042 (fresh_ps2 []) = Some (- 1, (fresh_ps2 [])\<lparr>ports := []\<rparr>)" by (simp add: ps2_touchpad_init_def)
  then obtain s' where "usb_touchpad_init ref_8042 False (fresh_input []) = Some (- 1, s')"
    by (simp add: usb_touchpad_init_def init_ps2_def fresh_input_def)
  then show ?thesis using adapter_hides_failure[of ref_8042 False "fresh_input []" "- 1" s'] by simp
qed

end
