(* ===== verification/CMem.thy ===== *)
theory CMem
  imports Prelude
begin

text \<open>
  The freestanding memory and string helpers that \<^verbatim>\<open>fat32.c\<close> and \<^verbatim>\<open>gpt.c\<close> define for themselves
  (memcpy, memset, memcmp, strlen), as the byte loops the code runs.  A store or load outside its
  buffer is \<open>None\<close>: undefined behaviour of the C code, never a default value.  The lemmas give the
  closed form of every helper on in-range arguments.
\<close>

fun memcpy_loop :: "nat list \<Rightarrow> bytes \<Rightarrow> nat \<Rightarrow> bytes \<Rightarrow> nat \<Rightarrow> bytes option" where
  "memcpy_loop [] d od s os = Some d"
| "memcpy_loop (i # is) d od s os =
     (if od + i < length d \<and> os + i < length s
      then memcpy_loop is (d[od + i := s ! (os + i)]) od s os
      else None)"

definition memcpy :: "bytes \<Rightarrow> nat \<Rightarrow> bytes \<Rightarrow> nat \<Rightarrow> nat \<Rightarrow> bytes option" where
  "memcpy d od s os n = memcpy_loop [0..<n] d od s os"

fun memset_loop :: "nat list \<Rightarrow> bytes \<Rightarrow> nat \<Rightarrow> u8 \<Rightarrow> bytes option" where
  "memset_loop [] p off c = Some p"
| "memset_loop (i # is) p off c =
     (if off + i < length p then memset_loop is (p[off + i := c]) off c else None)"

definition memset :: "bytes \<Rightarrow> nat \<Rightarrow> u8 \<Rightarrow> nat \<Rightarrow> bytes option" where
  "memset p off c n = memset_loop [0..<n] p off c"

fun memcmp_loop :: "nat list \<Rightarrow> bytes \<Rightarrow> bytes \<Rightarrow> int option" where
  "memcmp_loop [] p1 p2 = Some 0"
| "memcmp_loop (i # is) p1 p2 =
     (if i < length p1 \<and> i < length p2
      then (if p1 ! i \<noteq> p2 ! i then Some (uint (p1 ! i) - uint (p2 ! i))
            else memcmp_loop is p1 p2)
      else None)"

definition memcmp :: "bytes \<Rightarrow> bytes \<Rightarrow> nat \<Rightarrow> int option" where
  "memcmp p1 p2 n = memcmp_loop [0..<n] p1 p2"

definition cchar :: "bytes \<Rightarrow> nat \<Rightarrow> u8" where
  "cchar s i = (if i < length s then s ! i else 0)"

function strlen_from :: "bytes \<Rightarrow> nat \<Rightarrow> nat" where
  "strlen_from s len = (if cchar s len \<noteq> 0 then strlen_from s (Suc len) else len)"
  by pat_completeness auto
termination
  by (relation "measure (\<lambda>(s, len). length s - len)") (auto simp: cchar_def split: if_splits)

declare strlen_from.simps [simp del]

definition strlen :: "bytes \<Rightarrow> nat" where
  "strlen s = strlen_from s 0"

lemma buf_put_snoc:
  assumes "od + length xs < length d"
  shows "(buf_put d od xs)[od + length xs := x] = buf_put d od (xs @ [x])"
proof -
  have "drop (od + length xs) d = d ! (od + length xs) # drop (Suc (od + length xs)) d"
    using assms by (simp add: Cons_nth_drop_Suc)
  then show ?thesis using assms
    by (simp add: buf_put_def list_update_append min_absorb2)
qed

lemma buf_put_Nil [simp]: "buf_put d od [] = d"
  by (simp add: buf_put_def)

lemma memcpy_loop_append:
  "memcpy_loop (is @ js) d od s os =
     (case memcpy_loop is d od s os of None \<Rightarrow> None | Some d' \<Rightarrow> memcpy_loop js d' od s os)"
  by (induction "is" arbitrary: d) auto

lemma memset_loop_append:
  "memset_loop (is @ js) d od c =
     (case memset_loop is d od c of None \<Rightarrow> None | Some d' \<Rightarrow> memset_loop js d' od c)"
  by (induction "is" arbitrary: d) auto

lemma memcmp_loop_append:
  "memcmp_loop (is @ js) p q =
     (case memcmp_loop is p q of Some r \<Rightarrow> if r = 0 then memcmp_loop js p q else Some r | None \<Rightarrow> None)"
  by (induction "is") (auto simp: word_uint_eq_iff)

lemma buf_get_snoc:
  "os + n < length s \<Longrightarrow> buf_get (Suc n) s os = buf_get n s os @ [s ! (os + n)]"
  by (simp add: buf_get_def take_Suc_conv_app_nth)

lemma memcpy_eq [simp]:
  "od + n \<le> length d \<Longrightarrow> os + n \<le> length s \<Longrightarrow>
   memcpy d od s os n = Some (buf_put d od (buf_get n s os))"
proof (induction n)
  case 0
  then show ?case by (simp add: memcpy_def buf_get_def)
next
  case (Suc n)
  then show ?case
    using buf_put_snoc[of od "buf_get n s os" d]
    by (simp add: memcpy_def memcpy_loop_append buf_get_snoc)
qed

lemma memset_eq [simp]:
  "off + n \<le> length p \<Longrightarrow> memset p off c n = Some (buf_put p off (replicate n c))"
proof (induction n)
  case 0
  then show ?case by (simp add: memset_def)
next
  case (Suc n)
  then show ?case
    using buf_put_snoc[of off "replicate n c" p]
    by (simp add: memset_def memset_loop_append replicate_append_same)
qed

lemma memcmp_zero_iff:
  "n \<le> length p \<Longrightarrow> n \<le> length q \<Longrightarrow> memcmp p q n = Some 0 \<longleftrightarrow> take n p = take n q"
proof (induction n)
  case 0
  then show ?case by (simp add: memcmp_def)
next
  case (Suc n)
  then show ?case
    by (auto simp: memcmp_def memcmp_loop_append take_Suc_conv_app_nth word_uint_eq_iff
        split: option.splits)
qed

lemma memcmp_defined:
  "n \<le> length p \<Longrightarrow> n \<le> length q \<Longrightarrow> \<exists>r. memcmp p q n = Some r"
proof (induction n)
  case 0
  then show ?case by (simp add: memcmp_def)
next
  case (Suc n)
  then show ?case
    by (auto simp: memcmp_def memcmp_loop_append split: option.splits)
qed

lemma memcpy_overrun:
  "0 < n \<Longrightarrow> length d < od + n \<or> length s < os + n \<Longrightarrow> memcpy d od s os n = None"
proof (induction n)
  case 0
  then show ?case by simp
next
  case (Suc n)
  show ?case
  proof (cases "od + n \<le> length d \<and> os + n \<le> length s")
    case True
    then have "memcpy d od s os n = Some (buf_put d od (buf_get n s os))" by simp
    with Suc.prems True show ?thesis by (auto simp: memcpy_def memcpy_loop_append)
  next
    case False
    show ?thesis
    proof (cases "n = 0")
      case True
      with Suc.prems show ?thesis by (auto simp: memcpy_def)
    next
      case n: False
      with False Suc.IH have "memcpy d od s os n = None" by auto
      then show ?thesis by (simp add: memcpy_def memcpy_loop_append)
    qed
  qed
qed

lemma strlen_from_eq: "strlen_from s n = n + length (takeWhile (\<lambda>c. c \<noteq> 0) (drop n s))"
proof (induction s n rule: strlen_from.induct)
  case (1 s n)
  show ?case
  proof (cases "cchar s n \<noteq> 0")
    case True
    then have n: "n < length s" "s ! n \<noteq> 0" by (auto simp: cchar_def split: if_splits)
    have "strlen_from s n = strlen_from s (Suc n)" using True by (subst strlen_from.simps) simp
    also have "\<dots> = Suc n + length (takeWhile (\<lambda>c. c \<noteq> 0) (drop (Suc n) s))"
      using 1 True by simp
    finally show ?thesis using n by (simp add: Cons_nth_drop_Suc[symmetric])
  next
    case False
    then have "n < length s \<Longrightarrow> s ! n = 0" by (auto simp: cchar_def split: if_splits)
    then have "takeWhile (\<lambda>c. c \<noteq> 0) (drop n s) = []"
      by (cases "n < length s") (auto simp: Cons_nth_drop_Suc[symmetric])
    with False show ?thesis by (subst strlen_from.simps) simp
  qed
qed

end
