(* ===== verification/Block.thy ===== *)
theory Block
  imports CMem
begin

text \<open>
  The block layer \<^verbatim>\<open>drivers/block/block.c\<close>: sector reads and writes dispatched to the SATA driver when
  it is present and to the USB mass-storage driver otherwise.  The two drivers are the fields of a
  \<open>storage\<close> record, over an arbitrary device state.  The locale \<open>block_device\<close> is the contract the file
  systems above rely on; \<open>storage_backends\<close> is what the two drivers owe, and the sublocale shows that
  the dispatch code turns the second into the first.
\<close>

record 's storage =
  st_sata_present :: "'s \<Rightarrow> bool"
  st_sata_read :: "u64 \<Rightarrow> bytes \<Rightarrow> 's \<Rightarrow> int \<times> bytes \<times> 's"
  st_sata_write :: "u64 \<Rightarrow> bytes \<Rightarrow> 's \<Rightarrow> int \<times> 's"
  st_sata_flush :: "'s \<Rightarrow> int \<times> 's"
  st_ms_present :: "'s \<Rightarrow> bool"
  st_ms_read :: "u64 \<Rightarrow> u32 \<Rightarrow> bytes \<Rightarrow> 's \<Rightarrow> int \<times> bytes \<times> 's"
  st_ms_write :: "u64 \<Rightarrow> u32 \<Rightarrow> bytes \<Rightarrow> 's \<Rightarrow> int \<times> 's"

definition block_read_sector :: "'s storage \<Rightarrow> u64 \<Rightarrow> bytes \<Rightarrow> 's \<Rightarrow> int \<times> bytes \<times> 's" where
  "block_read_sector ops lba buf s =
     (if st_sata_present ops s then st_sata_read ops lba buf s
      else if st_ms_present ops s then
        (case st_ms_read ops lba 1 buf s of
           (rc, buf', s') \<Rightarrow> if rc \<noteq> 0 then (-1, buf', s') else (0, buf', s'))
      else (-1, buf, s))"

definition block_write_sector :: "'s storage \<Rightarrow> u64 \<Rightarrow> bytes \<Rightarrow> 's \<Rightarrow> int \<times> 's" where
  "block_write_sector ops lba buf s =
     (if st_sata_present ops s then st_sata_write ops lba buf s
      else if st_ms_present ops s then
        (case st_ms_write ops lba 1 buf s of
           (rc, s') \<Rightarrow> if rc \<noteq> 0 then (-1, s') else (0, s'))
      else (-1, s))"

definition block_is_present :: "'s storage \<Rightarrow> 's \<Rightarrow> bool" where
  "block_is_present ops s = (st_sata_present ops s \<or> st_ms_present ops s)"

text \<open>
  One request for a sector of \<open>lbas\<close>, the readable and writable part of the disk.  Nothing is promised for
  other sectors, not even that the device stays usable.
\<close>

definition read_ok :: "('s \<Rightarrow> nat \<Rightarrow> bytes) \<Rightarrow> ('s \<Rightarrow> bool) \<Rightarrow> nat set \<Rightarrow> 's \<Rightarrow> u64 \<Rightarrow> int \<times> bytes \<times> 's \<Rightarrow> bool" where
  "read_ok sect dev_ok lbas s lba r \<longleftrightarrow>
     (unat lba \<in> lbas \<longrightarrow>
        (case r of (rc, buf', s') \<Rightarrow> rc = 0 \<and> dev_ok s' \<and> sect s' = sect s \<and> buf' = sect s (unat lba)))"

definition write_ok :: "('s \<Rightarrow> nat \<Rightarrow> bytes) \<Rightarrow> ('s \<Rightarrow> bool) \<Rightarrow> nat set \<Rightarrow> 's \<Rightarrow> u64 \<Rightarrow> bytes \<Rightarrow> int \<times> 's \<Rightarrow> bool" where
  "write_ok sect dev_ok lbas s lba buf r \<longleftrightarrow>
     (unat lba \<in> lbas \<longrightarrow>
        (case r of (rc, s') \<Rightarrow> rc = 0 \<and> dev_ok s' \<and> sect s' = (sect s)(unat lba := buf)))"

locale block_device =
  fixes ops :: "'s storage"
    and sect :: "'s \<Rightarrow> nat \<Rightarrow> bytes"
    and dev_ok :: "'s \<Rightarrow> bool"
    and lbas :: "nat set"
  assumes sect_len: "dev_ok s \<Longrightarrow> length (sect s l) = 512"
    and present: "dev_ok s \<Longrightarrow> block_is_present ops s"
    and read_law: "dev_ok s \<Longrightarrow> length buf = 512 \<Longrightarrow>
          read_ok sect dev_ok lbas s lba (block_read_sector ops lba buf s)"
    and write_law: "dev_ok s \<Longrightarrow> length buf = 512 \<Longrightarrow>
          write_ok sect dev_ok lbas s lba buf (block_write_sector ops lba buf s)"
    and flush_law: "dev_ok s \<Longrightarrow> st_sata_flush ops s = (rc, s') \<Longrightarrow>
          dev_ok s' \<and> sect s' = sect s"
begin

lemma read_sector:
  assumes "dev_ok s" "length buf = 512" "unat lba \<in> lbas"
  obtains s' where "block_read_sector ops lba buf s = (0, sect s (unat lba), s')"
    "dev_ok s'" "sect s' = sect s"
  using read_law[OF assms(1,2), of lba] assms(3)
  by (cases "block_read_sector ops lba buf s") (auto simp: read_ok_def)

lemma write_sector:
  assumes "dev_ok s" "length buf = 512" "unat lba \<in> lbas"
  obtains s' where "block_write_sector ops lba buf s = (0, s')"
    "dev_ok s'" "sect s' = (sect s)(unat lba := buf)"
  using write_law[OF assms(1,2), of lba] assms(3)
  by (cases "block_write_sector ops lba buf s") (auto simp: write_ok_def fun_eq_iff)

lemma read_after_write:
  assumes "dev_ok s" "length buf = 512" "length buf0 = 512" "unat lba \<in> lbas" "unat lba' \<in> lbas"
    and "block_write_sector ops lba buf s = (rc, s1)"
  obtains s2 where "block_read_sector ops lba' buf0 s1 = (0, if lba' = lba then buf else sect s (unat lba'), s2)"
proof -
  have s1: "dev_ok s1" "sect s1 = (sect s)(unat lba := buf)"
    using write_law[OF assms(1,2), of lba] assms(4,6) by (simp_all add: write_ok_def)
  obtain s2 where "block_read_sector ops lba' buf0 s1 = (0, sect s1 (unat lba'), s2)"
    by (rule read_sector[OF s1(1) assms(3,5)])
  with s1(2) show thesis using that by (simp add: word_unat_eq_iff)
qed

end

locale storage_backends =
  fixes ops :: "'s storage"
    and sect :: "'s \<Rightarrow> nat \<Rightarrow> bytes"
    and dev_ok :: "'s \<Rightarrow> bool"
    and lbas :: "nat set"
  assumes backend_sect_len: "dev_ok s \<Longrightarrow> length (sect s l) = 512"
    and backend_present: "dev_ok s \<Longrightarrow> st_sata_present ops s \<or> st_ms_present ops s"
    and sata_read_law: "dev_ok s \<Longrightarrow> length buf = 512 \<Longrightarrow> st_sata_present ops s \<Longrightarrow>
          read_ok sect dev_ok lbas s lba (st_sata_read ops lba buf s)"
    and sata_write_law: "dev_ok s \<Longrightarrow> length buf = 512 \<Longrightarrow> st_sata_present ops s \<Longrightarrow>
          write_ok sect dev_ok lbas s lba buf (st_sata_write ops lba buf s)"
    and sata_flush_law: "dev_ok s \<Longrightarrow> st_sata_flush ops s = (rc, s') \<Longrightarrow>
          dev_ok s' \<and> sect s' = sect s"
    and ms_read_law: "dev_ok s \<Longrightarrow> length buf = 512 \<Longrightarrow> \<not> st_sata_present ops s \<Longrightarrow> st_ms_present ops s \<Longrightarrow>
          read_ok sect dev_ok lbas s lba (st_ms_read ops lba 1 buf s)"
    and ms_write_law: "dev_ok s \<Longrightarrow> length buf = 512 \<Longrightarrow> \<not> st_sata_present ops s \<Longrightarrow> st_ms_present ops s \<Longrightarrow>
          write_ok sect dev_ok lbas s lba buf (st_ms_write ops lba 1 buf s)"

sublocale storage_backends \<subseteq> block_device ops sect dev_ok lbas
proof
  fix s buf lba
  assume ok: "dev_ok s" and len: "length (buf :: bytes) = 512"
  show "read_ok sect dev_ok lbas s lba (block_read_sector ops lba buf s)"
    using backend_present[OF ok] sata_read_law[OF ok len, of lba] ms_read_law[OF ok len, of lba]
    by (auto simp: block_read_sector_def read_ok_def split: prod.splits)
  show "write_ok sect dev_ok lbas s lba buf (block_write_sector ops lba buf s)"
    using backend_present[OF ok] sata_write_law[OF ok len, of lba] ms_write_law[OF ok len, of lba]
    by (auto simp: block_write_sector_def write_ok_def split: prod.splits)
qed (auto simp: backend_sect_len block_is_present_def dest: backend_present sata_flush_law)

context storage_backends
begin

lemma backends_block_device: "block_device ops sect dev_ok lbas"
  by (rule block_device_axioms)

end

text \<open>A perfect disk whose SATA side answers every request from an array of sectors.\<close>

definition ram_storage :: "(nat \<Rightarrow> bytes) storage" where
  "ram_storage =
     \<lparr>st_sata_present = (\<lambda>d. True),
      st_sata_read = (\<lambda>lba buf d. (0, d (unat lba), d)),
      st_sata_write = (\<lambda>lba buf d. (0, d(unat lba := buf))),
      st_sata_flush = (\<lambda>d. (0, d)),
      st_ms_present = (\<lambda>d. False),
      st_ms_read = (\<lambda>lba n buf d. (-1, buf, d)),
      st_ms_write = (\<lambda>lba n buf d. (-1, d))\<rparr>"

definition ram_ok :: "(nat \<Rightarrow> bytes) \<Rightarrow> bool" where
  "ram_ok d \<longleftrightarrow> (\<forall>l. length (d l) = 512)"

interpretation ram: storage_backends ram_storage "\<lambda>d. d" ram_ok UNIV
  by unfold_locales (auto simp: ram_storage_def ram_ok_def read_ok_def write_ok_def)

lemma ram_block_device: "block_device ram_storage (\<lambda>d. d) ram_ok UNIV"
  by (rule ram.block_device_axioms)

end
