(* ===== verification/Pci.thy ===== *)
theory Pci
  imports Block
begin

text \<open>
  PCI configuration space, \<^verbatim>\<open>drivers/pci/pci.c\<close>, and the device table of \<^verbatim>\<open>drivers/pcie/pcie.c\<close>.  The port
  instructions are a record of operations over an arbitrary machine state; \<open>config_bridge\<close> is what the
  host bridge documents for ports 0xCF8 and 0xCFC.  Walking a capability list is a partial function:
  the hardware can present a cyclic list, on which the code never returns.
\<close>

unbundle bit_operations_syntax

record 'p port_io =
  outl :: "u16 \<Rightarrow> u32 \<Rightarrow> 'p \<Rightarrow> 'p"
  inl :: "u16 \<Rightarrow> 'p \<Rightarrow> u32 \<times> 'p"

abbreviation (input) PCI_CONFIG_ADDR :: u16 where "PCI_CONFIG_ADDR \<equiv> 0xCF8"
abbreviation (input) PCI_CONFIG_DATA :: u16 where "PCI_CONFIG_DATA \<equiv> 0xCFC"

type_synonym bdf = "u8 \<times> u8 \<times> u8"

definition config_addr :: "bdf \<Rightarrow> u8 \<Rightarrow> u32" where
  "config_addr a offset =
     (case a of (bus, slot, func) \<Rightarrow>
        0x80000000 OR push_bit 16 (ucast bus) OR push_bit 11 (ucast slot) OR push_bit 8 (ucast func) OR
        ucast (offset AND 0xFC))"

definition pci_config_read32 :: "'p port_io \<Rightarrow> bdf \<Rightarrow> u8 \<Rightarrow> 'p \<Rightarrow> u32 \<times> 'p" where
  "pci_config_read32 io a offset p = inl io PCI_CONFIG_DATA (outl io PCI_CONFIG_ADDR (config_addr a offset) p)"

definition pci_config_write32 :: "'p port_io \<Rightarrow> bdf \<Rightarrow> u8 \<Rightarrow> u32 \<Rightarrow> 'p \<Rightarrow> 'p" where
  "pci_config_write32 io a offset val p = outl io PCI_CONFIG_DATA val (outl io PCI_CONFIG_ADDR (config_addr a offset) p)"

definition class_of :: "u32 \<Rightarrow> u8 \<times> u8 \<times> u8" where
  "class_of d2 = (ucast (drop_bit 24 d2 AND 0xFF), ucast (drop_bit 16 d2 AND 0xFF), ucast (drop_bit 8 d2 AND 0xFF))"

definition all_functions :: "nat \<Rightarrow> bdf list" where
  "all_functions buses =
     [(of_nat bus, of_nat slot, of_nat func). bus \<leftarrow> [0..<buses], slot \<leftarrow> [0..<32], func \<leftarrow> [0..<8]]"

fun find_class_loop :: "'p port_io \<Rightarrow> u8 \<times> u8 \<times> u8 \<Rightarrow> bdf list \<Rightarrow> 'p \<Rightarrow> bdf option \<times> 'p" where
  "find_class_loop io cls [] p = (None, p)"
| "find_class_loop io cls (a # as) p =
     (case pci_config_read32 io a 0 p of (d0, p1) \<Rightarrow>
        if d0 = 0xFFFFFFFF then find_class_loop io cls as p1
        else case pci_config_read32 io a 8 p1 of (d2, p2) \<Rightarrow>
          if class_of d2 = cls then (Some a, p2) else find_class_loop io cls as p2)"

definition pci_find_device_by_class :: "'p port_io \<Rightarrow> u8 \<Rightarrow> u8 \<Rightarrow> u8 \<Rightarrow> 'p \<Rightarrow> bdf option \<times> 'p" where
  "pci_find_device_by_class io class_code subclass prog_if p =
     find_class_loop io (class_code, subclass, prog_if) (all_functions 256) p"

definition pci_get_bar :: "'p port_io \<Rightarrow> bdf \<Rightarrow> int \<Rightarrow> 'p \<Rightarrow> u64 \<times> 'p" where
  "pci_get_bar io a bar_index p =
     (if bar_index < 0 \<or> bar_index > 5 then (0, p)
      else
        let off = 0x10 + of_int bar_index * 4 in
        case pci_config_read32 io a off p of (low, p1) \<Rightarrow>
        if low = 0 \<or> low = 0xFFFFFFFF then (0, p1)
        else if low AND 1 \<noteq> 0 then (ucast (low AND NOT 3), p1)
        else if drop_bit 1 low AND 3 = 2 then
          (case pci_config_read32 io a (off + 4) p1 of (high, p2) \<Rightarrow>
             (push_bit 32 (ucast high) OR (ucast low AND NOT 0xF), p2))
        else (ucast low AND NOT 0xF, p1))"

partial_function (option) cap_walk :: "'p port_io \<Rightarrow> bdf \<Rightarrow> u8 \<Rightarrow> 'p \<Rightarrow> (u8 \<times> 'p) option" where
  "cap_walk io a cap_ptr p =
     (if cap_ptr \<noteq> 0 then
        (case pci_config_read32 io a (cap_ptr AND 0xFC) p of (cap, p1) \<Rightarrow>
           if cap AND 0xFF = 0x10 then Some (cap_ptr, p1)
           else cap_walk io a (ucast (drop_bit 8 cap AND 0xFF)) p1)
      else Some (0, p))"

definition pci_device_has_pcie :: "'p port_io \<Rightarrow> bdf \<Rightarrow> 'p \<Rightarrow> (bool \<times> 'p) option" where
  "pci_device_has_pcie io a p =
     (case pci_config_read32 io a 4 p of (d1, p1) \<Rightarrow>
        if drop_bit 16 d1 AND 0xFFFF AND 0x10 = 0 then Some (False, p1)
        else case pci_config_read32 io a (0x34 AND 0xFC) p1 of (w, p2) \<Rightarrow>
        do { (c, p3) \<leftarrow> cap_walk io a (ucast (w AND 0xFF)) p2; Some (c \<noteq> 0, p3) })"

subsection \<open>The device table\<close>

record pcie_device =
  dv_bus :: u8
  dv_slot :: u8
  dv_func :: u8
  dv_vendor_id :: u16
  dv_device_id :: u16
  dv_class_code :: u8
  dv_subclass :: u8
  dv_prog_if :: u8
  dv_header_type :: u8
  dv_bar :: "u64 list"
  dv_pcie_cap_offset :: u8
  dv_pcie_cap :: "u32 list"

abbreviation (input) PCIE_MAX_DEVICES :: nat where "PCIE_MAX_DEVICES \<equiv> 64"

fun read_bars :: "'p port_io \<Rightarrow> bdf \<Rightarrow> nat list \<Rightarrow> 'p \<Rightarrow> u64 list \<times> 'p" where
  "read_bars io a [] p = ([], p)"
| "read_bars io a (i # is) p =
     (case pci_get_bar io a (int i) p of (b, p1) \<Rightarrow> case read_bars io a is p1 of (bs, p2) \<Rightarrow> (b # bs, p2))"

fun read_cap :: "'p port_io \<Rightarrow> bdf \<Rightarrow> u8 \<Rightarrow> nat list \<Rightarrow> 'p \<Rightarrow> u32 list \<times> 'p" where
  "read_cap io a cap_ptr [] p = ([], p)"
| "read_cap io a cap_ptr (k # ks) p =
     (case pci_config_read32 io a ((cap_ptr AND 0xFC) + of_nat (k * 4)) p of (d, p1) \<Rightarrow>
        case read_cap io a cap_ptr ks p1 of (ds, p2) \<Rightarrow> (d # ds, p2))"

definition probe_device :: "'p port_io \<Rightarrow> bdf \<Rightarrow> u32 \<Rightarrow> u32 \<Rightarrow> 'p \<Rightarrow> (pcie_device \<times> 'p) option" where
  "probe_device io a d0 d2 p =
     (case pci_config_read32 io a 0x0C p of (hdr_word, p1) \<Rightarrow>
      case read_bars io a [0..<6] p1 of (bars, p2) \<Rightarrow>
      case pci_config_read32 io a (0x34 AND 0xFC) p2 of (w, p3) \<Rightarrow>
      do {
        (c, p4) \<leftarrow> cap_walk io a (ucast (w AND 0xFF)) p3;
        let (caps, p5) = (if c \<noteq> 0 then read_cap io a c [0..<4] p4 else (replicate 4 0, p4));
        let (bus, slot, func) = a;
        let (cls, sub, pi) = class_of d2;
        Some (\<lparr>dv_bus = bus, dv_slot = slot, dv_func = func, dv_vendor_id = ucast (d0 AND 0xFFFF),
               dv_device_id = ucast (drop_bit 16 d0 AND 0xFFFF), dv_class_code = cls, dv_subclass = sub,
               dv_prog_if = pi, dv_header_type = ucast (drop_bit 16 hdr_word AND 0xFF), dv_bar = bars,
               dv_pcie_cap_offset = c, dv_pcie_cap = caps\<rparr>, p5)
      })"

fun scan_functions :: "'p port_io \<Rightarrow> bdf list \<Rightarrow> pcie_device list \<Rightarrow> 'p \<Rightarrow> (pcie_device list \<times> 'p) option" where
  "scan_functions io [] g_devices p = Some (g_devices, p)"
| "scan_functions io (a # as) g_devices p =
     (case pci_config_read32 io a 0 p of (d0, p1) \<Rightarrow>
        if d0 = 0xFFFFFFFF then scan_functions io as g_devices p1
        else case pci_config_read32 io a 8 p1 of (d2, p2) \<Rightarrow>
        if length g_devices \<ge> PCIE_MAX_DEVICES then scan_functions io as g_devices p2
        else do {
          (dev, p3) \<leftarrow> probe_device io a d0 d2 p2;
          scan_functions io as (g_devices @ [dev]) p3
        })"

definition pcie_init :: "'p port_io \<Rightarrow> 'p \<Rightarrow> (int \<times> pcie_device list \<times> 'p) option" where
  "pcie_init io p =
     do {
       (g_devices, p') \<leftarrow> scan_functions io (all_functions 8) [] p;
       Some (if length g_devices > 0 then 0 else -1, g_devices, p')
     }"

definition pcie_is_present :: "pcie_device list \<Rightarrow> bool" where
  "pcie_is_present g_devices = (length g_devices > 0)"

definition pcie_device_count :: "pcie_device list \<Rightarrow> int" where
  "pcie_device_count g_devices = int (length g_devices)"

definition pcie_get_device :: "pcie_device list \<Rightarrow> int \<Rightarrow> pcie_device option" where
  "pcie_get_device g_devices idx =
     (if idx < 0 \<or> idx \<ge> int (length g_devices) then None else Some (g_devices ! nat idx))"

fun pcie_find_device_by_class :: "pcie_device list \<Rightarrow> u8 \<Rightarrow> u8 \<Rightarrow> u8 \<Rightarrow> bdf option" where
  "pcie_find_device_by_class [] class_code subclass prog_if = None"
| "pcie_find_device_by_class (d # ds) class_code subclass prog_if =
     (if dv_class_code d = class_code \<and> dv_subclass d = subclass \<and> dv_prog_if d = prog_if
      then Some (dv_bus d, dv_slot d, dv_func d)
      else pcie_find_device_by_class ds class_code subclass prog_if)"

subsection \<open>What the code computes on a conforming bridge\<close>

definition config_bridge :: "'p port_io \<Rightarrow> ('p \<Rightarrow> u32 \<Rightarrow> u32) \<Rightarrow> bool" where
  "config_bridge io cfg \<longleftrightarrow>
     (\<forall>p addr. \<exists>p'. inl io PCI_CONFIG_DATA (outl io PCI_CONFIG_ADDR addr p) = (cfg p addr, p') \<and> cfg p' = cfg p)"

definition reg :: "(u32 \<Rightarrow> u32) \<Rightarrow> bdf \<Rightarrow> u8 \<Rightarrow> u32" where
  "reg c a off = c (config_addr a off)"

inductive cap_path :: "(u32 \<Rightarrow> u32) \<Rightarrow> bdf \<Rightarrow> u8 \<Rightarrow> u8 \<Rightarrow> bool" for c a where
  end_of_list: "cap_path c a 0 0"
| found: "ptr \<noteq> 0 \<Longrightarrow> reg c a (ptr AND 0xFC) AND 0xFF = 0x10 \<Longrightarrow> cap_path c a ptr ptr"
| skip: "ptr \<noteq> 0 \<Longrightarrow> reg c a (ptr AND 0xFC) AND 0xFF \<noteq> 0x10 \<Longrightarrow>
     cap_path c a (ucast (drop_bit 8 (reg c a (ptr AND 0xFC)) AND 0xFF)) r \<Longrightarrow> cap_path c a ptr r"

lemma config_read:
  assumes "config_bridge io cfg"
  obtains p' where "pci_config_read32 io a off p = (reg (cfg p) a off, p')" "cfg p' = cfg p"
  using assms unfolding config_bridge_def pci_config_read32_def reg_def by metis

lemma cap_walk_complete:
  assumes b: "config_bridge io cfg"
  shows "cap_path c a ptr r \<Longrightarrow> cfg p = c \<Longrightarrow> \<exists>p'. cap_walk io a ptr p = Some (r, p') \<and> cfg p' = c"
proof (induction arbitrary: p rule: cap_path.induct)
  case end_of_list
  then show ?case by (subst cap_walk.simps) simp
next
  case (found ptr)
  obtain p' where "pci_config_read32 io a (ptr AND 0xFC) p = (reg (cfg p) a (ptr AND 0xFC), p')" "cfg p' = cfg p"
    by (rule config_read[OF b])
  with found show ?case by (subst cap_walk.simps) simp
next
  case (skip ptr r)
  obtain p' where p': "pci_config_read32 io a (ptr AND 0xFC) p = (reg (cfg p) a (ptr AND 0xFC), p')" "cfg p' = cfg p"
    by (rule config_read[OF b])
  have "cfg p' = c" using p'(2) skip.prems by simp
  from skip.IH[OF this] p' skip.hyps(1,2) skip.prems show ?case
    by (subst cap_walk.simps) simp
qed

lemma cap_walk_sound:
  assumes b: "config_bridge io cfg" and w: "cap_walk io a ptr p = Some y"
  shows "cap_path (cfg p) a ptr (fst y) \<and> cfg (snd y) = cfg p"
proof -
  let ?P = "\<lambda>io' a' ptr p y. io' = io \<and> a' = a \<longrightarrow> cap_path (cfg p) a ptr (fst y) \<and> cfg (snd y) = cfg p"
  have "?P io a ptr p y"
  proof (rule cap_walk.raw_induct[where P = ?P, OF _ w], rule impI)
    fix f io' a' ptr p y
    assume IH: "\<And>io' a' ptr p y. f io' a' ptr p = Some y \<Longrightarrow> ?P io' a' ptr p y"
      and run: "(if ptr \<noteq> 0 then (case pci_config_read32 io' a' (ptr AND 0xFC) p of (cap, p1) \<Rightarrow>
           if cap AND 0xFF = 0x10 then Some (ptr, p1) else f io' a' (ucast (drop_bit 8 cap AND 0xFF)) p1)
         else Some (0, p)) = Some y"
      and e: "io' = io \<and> a' = a"
    obtain p1 where p1: "pci_config_read32 io a (ptr AND 0xFC) p = (reg (cfg p) a (ptr AND 0xFC), p1)" "cfg p1 = cfg p"
      by (rule config_read[OF b])
    let ?next = "ucast (drop_bit 8 (reg (cfg p) a (ptr AND 0xFC)) AND 0xFF)"
    consider "ptr = 0" | "ptr \<noteq> 0" "reg (cfg p) a (ptr AND 0xFC) AND 0xFF = 0x10"
      | "ptr \<noteq> 0" "reg (cfg p) a (ptr AND 0xFC) AND 0xFF \<noteq> 0x10" by blast
    then show "cap_path (cfg p) a ptr (fst y) \<and> cfg (snd y) = cfg p"
    proof cases
      case 3
      then have "f io a ?next p1 = Some y" using run p1 e by simp
      from IH[OF this] p1(2) 3 show ?thesis by (auto intro: cap_path.intros)
    qed (use run p1 e in \<open>auto intro: cap_path.intros\<close>)
  qed
  then show ?thesis by simp
qed

definition bar_spec :: "(u32 \<Rightarrow> u32) \<Rightarrow> bdf \<Rightarrow> nat \<Rightarrow> u64" where
  "bar_spec c a i =
     (let low = reg c a (0x10 + of_nat i * 4) in
      if low = 0 \<or> low = 0xFFFFFFFF then 0
      else if low AND 1 \<noteq> 0 then ucast (low AND NOT 3)
      else if drop_bit 1 low AND 3 = 2
        then push_bit 32 (ucast (reg c a (0x10 + of_nat i * 4 + 4))) OR (ucast low AND NOT 0xF)
        else ucast low AND NOT 0xF)"

lemma get_bar_run:
  assumes b: "config_bridge io cfg" and i: "i < 6"
  obtains p' where "pci_get_bar io a (int i) p = (bar_spec (cfg p) a i, p')" "cfg p' = cfg p"
proof -
  define off :: u8 where "off = 0x10 + of_nat i * 4"
  obtain p1 where p1: "pci_config_read32 io a off p = (reg (cfg p) a off, p1)" "cfg p1 = cfg p" by (rule config_read[OF b])
  obtain p2 where p2: "pci_config_read32 io a (off + 4) p1 = (reg (cfg p1) a (off + 4), p2)" "cfg p2 = cfg p1" by (rule config_read[OF b])
  define low where "low = reg (cfg p) a off"
  have g: "\<not> (int i < 0 \<or> int i > 5)" "of_int (int i) = (of_nat i :: u8)" using i by simp_all
  have "pci_get_bar io a (int i) p = (bar_spec (cfg p) a i,
      if low \<noteq> 0 \<and> low \<noteq> 0xFFFFFFFF \<and> low AND 1 = 0 \<and> drop_bit 1 low AND 3 = 2 then p2 else p1)"
    unfolding pci_get_bar_def bar_spec_def Let_def g(2) off_def[symmetric] p1(1) p2(1) low_def[symmetric] case_prod_conv p1(2)
    using g(1) p2(1) p1(2) by simp
  then show thesis using that p1(2) p2(2) by simp
qed

lemma read_bars_run:
  assumes b: "config_bridge io cfg"
  shows "\<forall>i\<in>set is. i < 6 \<Longrightarrow> \<exists>p'. read_bars io a is p = (map (bar_spec (cfg p) a) is, p') \<and> cfg p' = cfg p"
proof (induction "is" arbitrary: p)
  case Nil
  then show ?case by simp
next
  case (Cons i "is")
  then have i: "i < 6" by simp
  obtain p1 where p1: "pci_get_bar io a (int i) p = (bar_spec (cfg p) a i, p1)" "cfg p1 = cfg p" by (rule get_bar_run[OF b i])
  from Cons p1 show ?case using Cons.IH[of p1] by auto
qed

lemma read_cap_run:
  assumes b: "config_bridge io cfg"
  shows "\<exists>p'. read_cap io a ptr ks p = (map (\<lambda>k. reg (cfg p) a ((ptr AND 0xFC) + of_nat (k * 4))) ks, p') \<and> cfg p' = cfg p"
proof (induction ks arbitrary: p)
  case Nil
  then show ?case by simp
next
  case (Cons k ks)
  obtain p1 where p1: "pci_config_read32 io a ((ptr AND 0xFC) + of_nat (k * 4)) p = (reg (cfg p) a ((ptr AND 0xFC) + of_nat (k * 4)), p1)"
    "cfg p1 = cfg p" by (rule config_read[OF b])
  with Cons[of p1] show ?case by auto
qed

definition dev_spec :: "(u32 \<Rightarrow> u32) \<Rightarrow> bdf \<Rightarrow> u8 \<Rightarrow> pcie_device" where
  "dev_spec c a cap =
     \<lparr>dv_bus = fst a, dv_slot = fst (snd a), dv_func = snd (snd a), dv_vendor_id = ucast (reg c a 0 AND 0xFFFF),
      dv_device_id = ucast (drop_bit 16 (reg c a 0) AND 0xFFFF), dv_class_code = fst (class_of (reg c a 8)),
      dv_subclass = fst (snd (class_of (reg c a 8))), dv_prog_if = snd (snd (class_of (reg c a 8))),
      dv_header_type = ucast (drop_bit 16 (reg c a 0x0C) AND 0xFF), dv_bar = map (bar_spec c a) [0..<6],
      dv_pcie_cap_offset = cap,
      dv_pcie_cap = (if cap \<noteq> 0 then map (\<lambda>k. reg c a ((cap AND 0xFC) + of_nat (k * 4))) [0..<4] else replicate 4 0)\<rparr>"

definition fn_present :: "(u32 \<Rightarrow> u32) \<Rightarrow> bdf \<Rightarrow> bool" where
  "fn_present c a \<longleftrightarrow> reg c a 0 \<noteq> 0xFFFFFFFF"

lemma probe_device_run:
  assumes b: "config_bridge io cfg" and cap: "cap_path (cfg p) a (ucast (reg (cfg p) a 0x34 AND 0xFF)) r"
  obtains p' where "probe_device io a (reg (cfg p) a 0) (reg (cfg p) a 8) p = Some (dev_spec (cfg p) a r, p')" "cfg p' = cfg p"
proof -
  obtain p1 where p1: "pci_config_read32 io a 0x0C p = (reg (cfg p) a 0x0C, p1)" "cfg p1 = cfg p" by (rule config_read[OF b])
  have "\<forall>i\<in>set [0..<6]. i < (6 :: nat)" by simp
  from read_bars_run[OF b this, of a p1] obtain p2 where p2: "read_bars io a [0..<6] p1 = (map (bar_spec (cfg p) a) [0..<6], p2)" "cfg p2 = cfg p"
    using p1(2) by metis
  obtain p3 where p3: "pci_config_read32 io a 0x34 p2 = (reg (cfg p) a 0x34, p3)" "cfg p3 = cfg p"
    using config_read[OF b, of a "0x34" p2] p2(2) by metis
  obtain p4 where p4: "cap_walk io a (ucast (reg (cfg p) a 0x34 AND 0xFF)) p3 = Some (r, p4)" "cfg p4 = cfg p"
    using cap_walk_complete[OF b cap p3(2)] by blast
  obtain p5 where p5: "read_cap io a r [0..<4] p4 = (map (\<lambda>k. reg (cfg p) a ((r AND 0xFC) + of_nat (k * 4))) [0..<4], p5)" "cfg p5 = cfg p"
    using read_cap_run[OF b, of a r "[0..<4]" p4] p4(2) by auto
  show thesis
    by (rule that[of "if r \<noteq> 0 then p5 else p4"])
       (use p1 p2 p3 p4 p5 in \<open>simp_all add: probe_device_def dev_spec_def Let_def case_prod_beta\<close>)
qed

lemma scan_functions_run:
  assumes b: "config_bridge io cfg" and cap: "\<forall>a\<in>set as. fn_present c a \<longrightarrow> cap_path c a (ucast (reg c a 0x34 AND 0xFF)) (capof a)"
  shows "length ds \<le> 64 \<Longrightarrow> cfg p = c \<Longrightarrow>
    \<exists>p'. scan_functions io as ds p = Some (take 64 (ds @ map (\<lambda>a. dev_spec c a (capof a)) (filter (fn_present c) as)), p') \<and> cfg p' = c"
  using cap
proof (induction "as" arbitrary: ds p)
  case Nil
  then show ?case by simp
next
  case (Cons a "as")
  obtain p1 where p1: "pci_config_read32 io a 0 p = (reg (cfg p) a 0, p1)" "cfg p1 = cfg p" by (rule config_read[OF b])
  obtain p2 where p2: "pci_config_read32 io a 8 p1 = (reg (cfg p1) a 8, p2)" "cfg p2 = cfg p1" by (rule config_read[OF b])
  have c: "cfg p = c" "cfg p1 = c" "cfg p2 = c" using Cons.prems p1 p2 by simp_all
  have IH: "length ds \<le> 64 \<Longrightarrow> cfg q = c \<Longrightarrow> \<exists>p'. scan_functions io as ds q =
      Some (take 64 (ds @ map (\<lambda>a. dev_spec c a (capof a)) (filter (fn_present c) as)), p') \<and> cfg p' = c" for ds q
    using Cons.IH Cons.prems(3) by simp
  consider "\<not> fn_present c a" | "fn_present c a" "length ds = 64" | "fn_present c a" "length ds < 64"
    using Cons.prems(1) by linarith
  then show ?case
  proof cases
    case 3
    then have "cap_path c a (ucast (reg c a 0x34 AND 0xFF)) (capof a)" using Cons.prems(3) by simp
    then have "cap_path (cfg p2) a (ucast (reg (cfg p2) a 0x34 AND 0xFF)) (capof a)" using c by simp
    then obtain p3 where p3: "probe_device io a (reg (cfg p2) a 0) (reg (cfg p2) a 8) p2 = Some (dev_spec (cfg p2) a (capof a), p3)" "cfg p3 = cfg p2"
      by (rule probe_device_run[OF b])
    have "reg c a 0 \<noteq> 0xFFFFFFFF" using 3 by (simp add: fn_present_def)
    with 3 p1 p2 p3 c IH[of "ds @ [dev_spec c a (capof a)]" p3] show ?thesis by simp
  next
    case 1
    then have "reg c a 0 = 0xFFFFFFFF" by (simp add: fn_present_def)
    with 1 p1 c IH[of ds p1] Cons.prems(1) show ?thesis by simp
  next
    case 2
    then have "reg c a 0 \<noteq> 0xFFFFFFFF" by (simp add: fn_present_def)
    with 2 p1 p2 c IH[of ds p2] show ?thesis by simp
  qed
qed

lemma bit_config_addr:
  "n < 32 \<Longrightarrow> bit (config_addr (bus, slot, func) off) n \<longleftrightarrow>
     n = 31 \<or> (16 \<le> n \<and> bit bus (n - 16)) \<or> (11 \<le> n \<and> bit slot (n - 11)) \<or> (8 \<le> n \<and> bit func (n - 8)) \<or>
     (bit off n \<and> bit (0xFC :: u8) n)"
proof -
  have top: "bit (0x80000000 :: u32) n \<longleftrightarrow> n = 31"
  proof -
    have e: "(0x80000000 :: u32) = 2 ^ 31" by simp
    show ?thesis unfolding e bit_exp_iff by auto
  qed
  have e: "bit (ucast (w :: u8) :: u32) k \<longleftrightarrow> bit w k" for w k
    using bit_imp_le_length[of w k] by (auto simp: bit_unsigned_iff)
  assume "n < 32"
  then show ?thesis
    by (simp only: config_addr_def case_prod_conv bit_or_iff bit_push_bit_iff e bit_and_iff top possible_bit_word)
       (simp add: disj_assoc)
qed

lemma config_addr_fields:
  assumes "slot < 32" "func < 8"
  shows "ucast (drop_bit 16 (config_addr (bus, slot, func) off)) = bus"
    "ucast (drop_bit 11 (config_addr (bus, slot, func) off)) AND 0x1F = slot"
    "ucast (drop_bit 8 (config_addr (bus, slot, func) off)) AND 0x07 = func"
    "ucast (config_addr (bus, slot, func) off) AND 0xFC = off AND 0xFC"
proof -
  have s: "bit slot n \<Longrightarrow> n < 5" and f: "bit func n \<Longrightarrow> n < 3" for n
    using assms bit_small[of slot 5 n] bit_small[of func 3 n] by (simp_all add: word_less_nat_alt)
  have o: "bit (0xFC :: u8) n \<Longrightarrow> n < 8" for n by (drule bit_imp_le_length) simp
  have m: "(0x1F :: u8) = mask 5" "(0x07 :: u8) = mask 3" by (simp_all add: mask_eq_exp_minus_1)
  show "ucast (drop_bit 16 (config_addr (bus, slot, func) off)) = bus"
    by (rule bit_word_eqI) (auto simp: bit_unsigned_iff bit_drop_bit_eq bit_config_addr dest!: s f o)
  show "ucast (drop_bit 11 (config_addr (bus, slot, func) off)) AND 0x1F = slot" unfolding m
    by (rule bit_word_eqI) (auto simp: bit_unsigned_iff bit_drop_bit_eq bit_config_addr bit_and_iff bit_mask_iff dest: s f o)
  show "ucast (drop_bit 8 (config_addr (bus, slot, func) off)) AND 0x07 = func" unfolding m
    by (rule bit_word_eqI) (auto simp: bit_unsigned_iff bit_drop_bit_eq bit_config_addr bit_and_iff bit_mask_iff dest: s f o)
  show "ucast (config_addr (bus, slot, func) off) AND 0xFC = off AND 0xFC"
    by (rule bit_word_eqI) (auto simp: bit_unsigned_iff bit_config_addr bit_and_iff)
qed

text \<open>The latch of a host bridge: port 0xCF8 selects a register, port 0xCFC reads and writes it.\<close>

definition latch_io :: "(u32 \<times> (u32 \<Rightarrow> u32)) port_io" where
  "latch_io = \<lparr>outl = (\<lambda>port v (sel, c). if port = PCI_CONFIG_ADDR then (v, c) else (sel, c(sel := v))),
     inl = (\<lambda>port (sel, c). (if port = PCI_CONFIG_DATA then c sel else 0, (sel, c)))\<rparr>"

lemma latch_bridge: "config_bridge latch_io snd"
  by (auto simp: config_bridge_def latch_io_def)

lemma length_all_functions: "length (all_functions n) = n * 256"
proof -
  have c: "sum_list (map (\<lambda>_. k :: nat) [0..<m]) = m * k" for k m by (induction m) simp_all
  show ?thesis by (simp add: all_functions_def length_concat comp_def c)
qed

subsection \<open>Properties\<close>

text \<open>
  C29 (refinement).  On a conforming host bridge whose capability lists end, \<^verbatim>\<open>pcie_init\<close> terminates and the device
  table is the first 64 present functions of buses 0 to 7 in bus, slot, function order, each with the
  identifiers, class, base addresses and PCI Express capability its configuration registers hold.
\<close>

theorem pcie_init_enumerates:
  assumes b: "config_bridge io cfg"
    and cap: "\<forall>a\<in>set (all_functions 8). fn_present (cfg p) a \<longrightarrow> cap_path (cfg p) a (ucast (reg (cfg p) a 0x34 AND 0xFF)) (capof a)"
  shows "\<exists>p'. pcie_init io p =
     (let ds = take PCIE_MAX_DEVICES (map (\<lambda>a. dev_spec (cfg p) a (capof a)) (filter (fn_present (cfg p)) (all_functions 8)))
      in Some (if ds = [] then -1 else 0, ds, p')) \<and> cfg p' = cfg p"
proof -
  obtain p' where "scan_functions io (all_functions 8) [] p =
      Some (take 64 ([] @ map (\<lambda>a. dev_spec (cfg p) a (capof a)) (filter (fn_present (cfg p)) (all_functions 8))), p')" "cfg p' = cfg p"
    using scan_functions_run[OF b cap, of "[]" p] by auto
  then show ?thesis by (simp add: pcie_init_def Let_def)
qed

theorem pcie_init_enumerates_witness:
  "\<exists>ds p'. pcie_init latch_io (0, \<lambda>addr. 0) = Some (0, ds, p') \<and> length ds = 64"
proof -
  let ?p = "(0 :: u32, \<lambda>addr. 0 :: u32)"
  have "\<forall>a\<in>set (all_functions 8). fn_present (snd ?p) a \<longrightarrow> cap_path (snd ?p) a (ucast (reg (snd ?p) a 0x34 AND 0xFF)) 0"
    by (simp add: reg_def cap_path.end_of_list)
  from pcie_init_enumerates[OF latch_bridge this] obtain p' where
    r: "pcie_init latch_io ?p = (let ds = take 64 (map (\<lambda>a. dev_spec (snd ?p) a 0) (filter (fn_present (snd ?p)) (all_functions 8)))
        in Some (if ds = [] then -1 else 0, ds, p'))" by blast
  have f: "filter (fn_present (snd ?p)) (all_functions 8) = all_functions 8" by (simp add: fn_present_def reg_def)
  let ?ds = "take 64 (map (\<lambda>a. dev_spec (snd ?p) a 0) (all_functions 8))"
  have l: "length ?ds = 64" by (simp add: length_all_functions)
  then have "?ds \<noteq> []" by (metis list.size(3) zero_neq_numeral)
  then have "pcie_init latch_io ?p = Some (0, ?ds, p')" using r unfolding f Let_def by simp
  with l show ?thesis by blast
qed

text \<open>
  C30 (termination).  The capability walk of \<^verbatim>\<open>pci_device_has_pcie\<close> and \<^verbatim>\<open>pcie_init\<close> returns \<open>r\<close> exactly when following
  the next pointers from \<open>ptr\<close> ends at \<open>r\<close> (0 for the end of the list); on every other list, such as one
  whose entry points to itself, it never returns.
\<close>

theorem cap_walk_decides:
  assumes "config_bridge io cfg"
  shows "((\<exists>p'. cap_walk io a ptr p = Some (r, p')) \<longleftrightarrow> cap_path (cfg p) a ptr r) \<and>
     (cap_walk io a ptr p = None \<longleftrightarrow> (\<nexists>r. cap_path (cfg p) a ptr r))"
  using cap_walk_complete[OF assms _ refl, of p a ptr] cap_walk_sound[OF assms, of a ptr p]
  by (cases "cap_walk io a ptr p") fastforce+

theorem cap_walk_decides_witness:
  "cap_walk latch_io (0, 3, 0) 0x40 (0, \<lambda>addr. 0x4005) = None"
proof -
  have "cap_path (\<lambda>addr. 0x4005) a ptr r \<Longrightarrow> ptr = 0x40 \<Longrightarrow> False" for a ptr r
    by (induction rule: cap_path.induct) (simp_all add: reg_def)
  then have "\<nexists>r. cap_path (snd (0 :: u32, \<lambda>addr. 0x4005)) (0, 3, 0) 0x40 r" by (metis snd_conv)
  then show ?thesis
    using cap_walk_decides[OF latch_bridge, of "(0, 3, 0)" "0x40" "(0, \<lambda>addr. 0x4005)" 0] by blast
qed

text \<open>
  Distinct configuration registers have distinct addresses: bus, slot, function and dword
  offset can all be read back from the value written to port 0xCF8.
\<close>

theorem config_addr_inj:
  assumes "slot < 32" "func < 8" "slot' < 32" "func' < 8"
  shows "config_addr (bus, slot, func) off = config_addr (bus', slot', func') off' \<longleftrightarrow>
     bus = bus' \<and> slot = slot' \<and> func = func' \<and> off AND 0xFC = off' AND 0xFC"
    (is "?l \<longleftrightarrow> ?r")
proof
  show "?l \<Longrightarrow> ?r"
    using config_addr_fields[OF assms(1,2), of bus off] config_addr_fields[OF assms(3,4), of bus' off'] by metis
qed (simp add: config_addr_def)

theorem config_addr_inj_witness:
  "config_addr (0, 31, 2) 0x24 \<noteq> config_addr (0, 31, 3) 0x24"
  by (subst config_addr_inj) simp_all

end
