(* ===== verification/Sata_Model.thy ===== *)
theory Sata_Model
  imports Pci
begin

text \<open>
  The AHCI SATA driver, \<^verbatim>\<open>drivers/sata/sata.c\<close>, every function of it.  The host bus adapter is a record of
  two operations, a 32-bit register read and write, over its own state and the memory it shares with
  the driver: the command list, the command tables and the caller's buffer.  Their addresses are the
  record \<open>layout\<close>.  Delay loops and log messages are left out.
\<close>

unbundle bit_operations_syntax

record layout =
  la_cmd_list :: u64
  la_fis :: u64
  la_cmd_table :: u64
  la_buf :: u64

record 'h dma =
  cmd_list_mem :: bytes
  cmd_table_mem :: bytes
  dma_buf :: bytes
  hba_state :: 'h

record 'h hba =
  mmio_read :: "u64 \<Rightarrow> 'h dma \<Rightarrow> u32 \<times> 'h dma"
  mmio_write :: "u64 \<Rightarrow> u32 \<Rightarrow> 'h dma \<Rightarrow> 'h dma"

record 'h sata =
  sata_controller :: pcie_device
  sata_controller_found :: bool
  ahci_base :: u64
  ahci_initialized :: bool
  active_port :: u8
  sata_dma :: "'h dma"

abbreviation (input) PORT_CLB :: u32 where "PORT_CLB \<equiv> 0x00"
abbreviation (input) PORT_CLBU :: u32 where "PORT_CLBU \<equiv> 0x04"
abbreviation (input) PORT_FB :: u32 where "PORT_FB \<equiv> 0x08"
abbreviation (input) PORT_FBU :: u32 where "PORT_FBU \<equiv> 0x0C"
abbreviation (input) PORT_IS :: u32 where "PORT_IS \<equiv> 0x10"
abbreviation (input) PORT_CMD :: u32 where "PORT_CMD \<equiv> 0x18"
abbreviation (input) PORT_TFD :: u32 where "PORT_TFD \<equiv> 0x20"
abbreviation (input) PORT_SSTS :: u32 where "PORT_SSTS \<equiv> 0x28"
abbreviation (input) PORT_SERR :: u32 where "PORT_SERR \<equiv> 0x30"
abbreviation (input) PORT_SACT :: u32 where "PORT_SACT \<equiv> 0x34"
abbreviation (input) PORT_CI :: u32 where "PORT_CI \<equiv> 0x38"

abbreviation (input) AHCI_PORT_STOP_RETRIES :: nat where "AHCI_PORT_STOP_RETRIES \<equiv> 500"
abbreviation (input) AHCI_CMD_TIMEOUT :: nat where "AHCI_CMD_TIMEOUT \<equiv> 10000"
abbreviation (input) ATA_CMD_READ_DMA_EX :: u8 where "ATA_CMD_READ_DMA_EX \<equiv> 0x25"
abbreviation (input) ATA_CMD_WRITE_DMA_EX :: u8 where "ATA_CMD_WRITE_DMA_EX \<equiv> 0x35"
abbreviation (input) ATA_CMD_IDENTIFY :: u8 where "ATA_CMD_IDENTIFY \<equiv> 0xEC"
abbreviation (input) ATA_CMD_FLUSH_CACHE_EXT :: u8 where "ATA_CMD_FLUSH_CACHE_EXT \<equiv> 0xEA"

definition ahci_read32 :: "'h hba \<Rightarrow> u64 \<Rightarrow> u32 \<Rightarrow> 'h dma \<Rightarrow> u32 \<times> 'h dma" where
  "ahci_read32 hb base off m = mmio_read hb (base + ucast off) m"

definition ahci_write32 :: "'h hba \<Rightarrow> u64 \<Rightarrow> u32 \<Rightarrow> u32 \<Rightarrow> 'h dma \<Rightarrow> 'h dma" where
  "ahci_write32 hb base off val m = mmio_write hb (base + ucast off) val m"

text \<open>Polls a register up to \<open>n\<close> times until the bits of the mask are clear.\<close>

fun poll_clear :: "'h hba \<Rightarrow> u64 \<Rightarrow> u32 \<Rightarrow> u32 \<Rightarrow> nat \<Rightarrow> 'h dma \<Rightarrow> bool \<times> 'h dma" where
  "poll_clear hb base off bits 0 m = (False, m)"
| "poll_clear hb base off bits (Suc n) m =
     (case ahci_read32 hb base off m of (v, m1) \<Rightarrow>
        if v AND bits = 0 then (True, m1) else poll_clear hb base off bits n m1)"

definition ahci_port_stop :: "'h hba \<Rightarrow> u64 \<Rightarrow> 'h dma \<Rightarrow> 'h dma" where
  "ahci_port_stop hb port_base m =
     (case ahci_read32 hb port_base PORT_CMD m of (cmd, m1) \<Rightarrow>
        let m2 = ahci_write32 hb port_base PORT_CMD (cmd AND NOT 0x11) m1 in
        case poll_clear hb port_base PORT_CMD 0xC000 AHCI_PORT_STOP_RETRIES m2 of (stopped, m3) \<Rightarrow>
          if stopped then m3 else snd (ahci_read32 hb port_base PORT_CMD m3))"

definition ahci_port_start :: "'h hba \<Rightarrow> u64 \<Rightarrow> 'h dma \<Rightarrow> 'h dma" where
  "ahci_port_start hb port_base m =
     (case poll_clear hb port_base PORT_CMD 0x8000 AHCI_PORT_STOP_RETRIES m of (idle, m1) \<Rightarrow>
      case ahci_read32 hb port_base PORT_CMD m1 of (cmd, m2) \<Rightarrow>
        ahci_write32 hb port_base PORT_CMD (cmd OR 0x11) m2)"

definition port_address :: "u64 \<Rightarrow> u8 \<Rightarrow> u64" where
  "port_address base port = base + 0x100 + ucast port * 0x80"

definition lo32 :: "u64 \<Rightarrow> u32" where
  "lo32 x = ucast (x AND 0xFFFFFFFF)"

definition hi32 :: "u64 \<Rightarrow> u32" where
  "hi32 x = ucast (drop_bit 32 x)"

definition ahci_port_init :: "'h hba \<Rightarrow> layout \<Rightarrow> u8 \<Rightarrow> 'h sata \<Rightarrow> int \<times> 'h sata" where
  "ahci_port_init hb la port_num s =
     (if ahci_base s = 0 then (-1, s)
      else
        let pb = port_address (ahci_base s) port_num;
            m1 = ahci_port_stop hb pb (sata_dma s);
            m2 = ahci_write32 hb pb PORT_CLB (lo32 (la_cmd_list la)) m1;
            m3 = ahci_write32 hb pb PORT_CLBU (hi32 (la_cmd_list la)) m2;
            m4 = ahci_write32 hb pb PORT_FB (lo32 (la_fis la)) m3;
            m5 = ahci_write32 hb pb PORT_FBU (hi32 (la_fis la)) m4;
            m6 = ahci_write32 hb pb PORT_SERR 0xFFFFFFFF m5;
            m7 = ahci_write32 hb pb PORT_IS 0xFFFFFFFF m6
        in (0, s\<lparr>sata_dma := ahci_port_start hb pb m7, active_port := port_num\<rparr>))"

fun free_slot :: "u32 \<Rightarrow> nat list \<Rightarrow> nat option" where
  "free_slot occupied [] = None"
| "free_slot occupied (sl # sls) =
     (if occupied AND push_bit sl 1 = 0 then Some sl else free_slot occupied sls)"

definition ahci_find_free_slot :: "'h hba \<Rightarrow> u64 \<Rightarrow> 'h dma \<Rightarrow> nat option \<times> 'h dma" where
  "ahci_find_free_slot hb port_base m =
     (case ahci_read32 hb port_base PORT_SACT m of (sact, m1) \<Rightarrow>
      case ahci_read32 hb port_base PORT_CI m1 of (ci, m2) \<Rightarrow>
        (free_slot (sact OR ci) [0..<32], m2))"

record hba_cmd_header =
  ch_cfl :: u8
  ch_w :: bool
  ch_prdtl :: u16
  ch_ctba :: u32
  ch_ctbau :: u32

definition cmd_header_bytes :: "hba_cmd_header \<Rightarrow> bytes" where
  "cmd_header_bytes h =
     [(ch_cfl h AND 0x1F) OR (if ch_w h then 0x40 else 0), 0] @ to_le 2 (ch_prdtl h) @ to_le 4 (0 :: u32) @
     to_le 4 (ch_ctba h) @ to_le 4 (ch_ctbau h) @ replicate 16 0"

record hba_prdt_entry =
  pr_dba :: u32
  pr_dbau :: u32
  pr_dbc :: u32

definition prdt_bytes :: "hba_prdt_entry \<Rightarrow> bytes" where
  "prdt_bytes e = to_le 4 (pr_dba e) @ to_le 4 (pr_dbau e) @ to_le 4 (0 :: u32) @ to_le 4 (pr_dbc e AND 0x3FFFFF)"

record fis_reg_h2d =
  fs_command :: u8
  fs_lba :: u64
  fs_count :: u16

definition fis_bytes :: "fis_reg_h2d \<Rightarrow> bytes" where
  "fis_bytes f =
     [0x27, 0x80, fs_command f, 0,
      ucast (fs_lba f AND 0xFF), ucast (drop_bit 8 (fs_lba f) AND 0xFF), ucast (drop_bit 16 (fs_lba f) AND 0xFF), 0x40,
      ucast (drop_bit 24 (fs_lba f) AND 0xFF), ucast (drop_bit 32 (fs_lba f) AND 0xFF), ucast (drop_bit 40 (fs_lba f) AND 0xFF), 0] @
     to_le 2 (fs_count f) @ [0, 0, 0, 0, 0, 0]"

definition ahci_build_cmd ::
    "layout \<Rightarrow> nat \<Rightarrow> bool \<Rightarrow> u16 \<Rightarrow> u64 option \<Rightarrow> u32 \<Rightarrow> u8 \<Rightarrow> u64 \<Rightarrow> u16 \<Rightarrow> 'h dma \<Rightarrow> 'h dma" where
  "ahci_build_cmd la slot wr prdtl buf buf_len cmd lba count m =
     (let tbl_phys = la_cmd_table la + of_nat (slot * 256);
          hdr = \<lparr>ch_cfl = 5, ch_w = wr, ch_prdtl = prdtl, ch_ctba = lo32 tbl_phys, ch_ctbau = hi32 tbl_phys\<rparr>;
          prd = (case buf of
                   Some addr \<Rightarrow> if prdtl > 0 then prdt_bytes \<lparr>pr_dba = lo32 addr, pr_dbau = hi32 addr, pr_dbc = buf_len - 1\<rparr>
                                else replicate 16 0
                 | None \<Rightarrow> replicate 16 0);
          fis = fis_bytes \<lparr>fs_command = cmd, fs_lba = lba, fs_count = count\<rparr>;
          tbl = buf_put (buf_put (replicate 256 0) 128 prd) 0 fis
      in m\<lparr>cmd_list_mem := buf_put (cmd_list_mem m) (slot * 32) (cmd_header_bytes hdr),
           cmd_table_mem := buf_put (cmd_table_mem m) (slot * 256) tbl\<rparr>)"

definition ahci_issue_and_wait :: "'h hba \<Rightarrow> u64 \<Rightarrow> nat \<Rightarrow> 'h dma \<Rightarrow> int \<times> 'h dma" where
  "ahci_issue_and_wait hb port_base slot m =
     (let m1 = ahci_write32 hb port_base PORT_IS 0xFFFFFFFF m;
          m2 = ahci_write32 hb port_base PORT_CI (push_bit slot 1) m1
      in case poll_clear hb port_base PORT_CI (push_bit slot 1) AHCI_CMD_TIMEOUT m2 of (completed, m3) \<Rightarrow>
         case ahci_read32 hb port_base PORT_IS m3 of (is, m4) \<Rightarrow>
         let m5 = (if is \<noteq> 0 then ahci_write32 hb port_base PORT_IS is m4 else m4) in
         if is AND 0x40000000 \<noteq> 0 then
           (case ahci_read32 hb port_base PORT_TFD m5 of (tfd, m6) \<Rightarrow>
            case ahci_read32 hb port_base PORT_SERR m6 of (serr, m7) \<Rightarrow>
              (-1, ahci_write32 hb port_base PORT_SERR 0xFFFFFFFF m7))
         else (0, m5))"

fun detect_loop :: "pcie_device list \<Rightarrow> nat list \<Rightarrow> bool \<Rightarrow> 'h sata \<Rightarrow> int \<times> 'h sata" where
  "detect_loop devs [] found_non_ahci s = (if found_non_ahci then 2 else 1, s)"
| "detect_loop devs (i # is) found_non_ahci s =
     (case pcie_get_device devs (int i) of
        None \<Rightarrow> detect_loop devs is found_non_ahci s
      | Some dev \<Rightarrow>
          if dv_class_code dev \<noteq> 0x01 \<or> dv_subclass dev \<noteq> 0x06 then detect_loop devs is found_non_ahci s
          else
            let s1 = s\<lparr>sata_controller := dev, sata_controller_found := True\<rparr> in
            if dv_prog_if dev = 0x01 then (0, s1) else detect_loop devs is True s1)"

definition sata_detect :: "pcie_device list \<Rightarrow> 'h sata \<Rightarrow> int \<times> 'h sata" where
  "sata_detect devs s = detect_loop devs [0..<nat (pcie_device_count devs)] False s"

fun port_loop :: "'h hba \<Rightarrow> layout \<Rightarrow> u32 \<Rightarrow> nat list \<Rightarrow> 'h sata \<Rightarrow> int \<times> 'h sata" where
  "port_loop hb la pi [] s = (-1, s)"
| "port_loop hb la pi (i # is) s =
     (if pi AND push_bit i 1 = 0 then port_loop hb la pi is s
      else case ahci_read32 hb (port_address (ahci_base s) (of_nat i)) PORT_SSTS (sata_dma s) of (ssts, m) \<Rightarrow>
        let s1 = s\<lparr>sata_dma := m\<rparr> in
        if ssts AND 0xF = 3 then
          (case ahci_port_init hb la (of_nat i) s1 of (rc, s2) \<Rightarrow>
             if rc = 0 then (0, s2\<lparr>ahci_initialized := True\<rparr>) else port_loop hb la pi is s2)
        else port_loop hb la pi is s1)"

definition sata_init :: "'p port_io \<Rightarrow> 'h hba \<Rightarrow> layout \<Rightarrow> pcie_device list \<Rightarrow> 'h sata \<times> 'p \<Rightarrow> int \<times> 'h sata \<times> 'p" where
  "sata_init io hb la devs sp =
     (case sp of (s0, p) \<Rightarrow>
      let s1 = (if sata_controller_found s0 then s0 else snd (sata_detect devs s0)) in
      if \<not> sata_controller_found s1 then (-1, s1, p)
      else
        let s2 = s1\<lparr>ahci_base := dv_bar (sata_controller s1) ! 5\<rparr> in
        if ahci_base s2 = 0 then (-1, s2, p)
        else case ahci_read32 hb (ahci_base s2) 0x04 (sata_dma s2) of (ghc, m1) \<Rightarrow>
        let m2 = (if ghc AND 0x80000000 = 0 then ahci_write32 hb (ahci_base s2) 0x04 (ghc OR 0x80000000) m1 else m1);
            a = (dv_bus (sata_controller s2), dv_slot (sata_controller s2), dv_func (sata_controller s2))
        in case pci_config_read32 io a 0x04 p of (pcicmd, p1) \<Rightarrow>
        let p2 = pci_config_write32 io a 0x04 (pcicmd OR 0x06) p1 in
        case ahci_read32 hb (ahci_base s2) 0x0C m2 of (pi, m3) \<Rightarrow>
        case port_loop hb la pi [0..<32] (s2\<lparr>sata_dma := m3\<rparr>) of (rc, s3) \<Rightarrow> (rc, s3, p2))"

definition sata_ready :: "'h sata \<Rightarrow> bool" where
  "sata_ready s \<longleftrightarrow> ahci_initialized s \<and> active_port s \<noteq> 0xFF"

definition sata_read_sector :: "'h hba \<Rightarrow> layout \<Rightarrow> u64 \<Rightarrow> bytes \<Rightarrow> 'h sata \<Rightarrow> int \<times> bytes \<times> 'h sata" where
  "sata_read_sector hb la lba buffer s =
     (if \<not> sata_ready s then (-1, buffer, s)
      else
        let pb = port_address (ahci_base s) (active_port s);
            m0 = (sata_dma s)\<lparr>dma_buf := buffer\<rparr>
        in case poll_clear hb pb PORT_TFD 0x88 1000 m0 of (idle, m1) \<Rightarrow>
        case ahci_find_free_slot hb pb m1 of (sl, m2) \<Rightarrow>
        case sl of
          None \<Rightarrow> (-1, dma_buf m2, s\<lparr>sata_dma := m2\<rparr>)
        | Some slot \<Rightarrow>
            let m3 = ahci_build_cmd la slot False 1 (Some (la_buf la)) 512 ATA_CMD_READ_DMA_EX lba 1 m2 in
            case ahci_issue_and_wait hb pb slot m3 of (rc, m4) \<Rightarrow> (rc, dma_buf m4, s\<lparr>sata_dma := m4\<rparr>))"

fun write_attempts :: "'h hba \<Rightarrow> layout \<Rightarrow> nat \<Rightarrow> u64 \<Rightarrow> nat list \<Rightarrow> 'h sata \<Rightarrow> int \<times> 'h sata" where
  "write_attempts hb la slot lba [] s = (-1, s)"
| "write_attempts hb la slot lba (attempt # rest) s =
     (let pb = port_address (ahci_base s) (active_port s);
          m1 = ahci_build_cmd la slot True 1 (Some (la_buf la)) 512 ATA_CMD_WRITE_DMA_EX lba 1 (sata_dma s)
      in case ahci_issue_and_wait hb pb slot m1 of (rc, m2) \<Rightarrow>
         let s1 = s\<lparr>sata_dma := m2\<rparr> in
         if rc = 0 then (0, s1)
         else if attempt < 3 then write_attempts hb la slot lba rest (snd (ahci_port_init hb la (active_port s1) s1))
         else write_attempts hb la slot lba rest s1)"

definition sata_write_sector :: "'h hba \<Rightarrow> layout \<Rightarrow> u64 \<Rightarrow> bytes \<Rightarrow> 'h sata \<Rightarrow> int \<times> 'h sata" where
  "sata_write_sector hb la lba buffer s =
     (if \<not> sata_ready s then (-1, s)
      else
        let pb = port_address (ahci_base s) (active_port s);
            m0 = (sata_dma s)\<lparr>dma_buf := buffer\<rparr>
        in case poll_clear hb pb PORT_TFD 0x88 1000 m0 of (idle, m1) \<Rightarrow>
        case ahci_find_free_slot hb pb m1 of (sl, m2) \<Rightarrow>
        case sl of
          None \<Rightarrow> (-1, s\<lparr>sata_dma := m2\<rparr>)
        | Some slot \<Rightarrow> write_attempts hb la slot lba [1, 2, 3] (s\<lparr>sata_dma := m2\<rparr>))"

definition identify_word :: "bytes \<Rightarrow> nat \<Rightarrow> u16" where
  "identify_word b i = of_le (buf_get 2 b (2 * i))"

definition identify_total :: "bytes \<Rightarrow> u64 option" where
  "identify_total b =
     (let lba48_max = push_bit 48 (ucast (identify_word b 103)) OR push_bit 32 (ucast (identify_word b 102)) OR
                      push_bit 16 (ucast (identify_word b 101)) OR (ucast (identify_word b 100) :: u64);
          lba28_cnt = ucast (push_bit 16 (ucast (identify_word b 61)) OR (ucast (identify_word b 60) :: u32)) :: u64
      in if lba48_max \<noteq> 0 then Some (lba48_max + 1)
         else if lba28_cnt \<noteq> 0 then Some lba28_cnt
         else None)"

definition sata_get_num_blocks :: "'h hba \<Rightarrow> layout \<Rightarrow> 'h sata \<Rightarrow> int \<times> u64 option \<times> 'h sata" where
  "sata_get_num_blocks hb la s =
     (if \<not> sata_ready s then (-1, None, s)
      else
        let pb = port_address (ahci_base s) (active_port s);
            m0 = (sata_dma s)\<lparr>dma_buf := replicate 512 0\<rparr>
        in case ahci_find_free_slot hb pb m0 of (sl, m1) \<Rightarrow>
        case sl of
          None \<Rightarrow> (-1, None, s\<lparr>sata_dma := m1\<rparr>)
        | Some slot \<Rightarrow>
            let m2 = ahci_build_cmd la slot False 1 (Some (la_buf la)) 512 ATA_CMD_IDENTIFY 0 0 m1 in
            case ahci_issue_and_wait hb pb slot m2 of (rc, m3) \<Rightarrow>
            let s1 = s\<lparr>sata_dma := m3\<rparr> in
            if rc \<noteq> 0 then (-1, None, s1)
            else case identify_total (dma_buf m3) of
              None \<Rightarrow> (-1, None, s1)
            | Some n \<Rightarrow> (0, Some n, s1))"

definition sata_flush_cache :: "'h hba \<Rightarrow> layout \<Rightarrow> 'h sata \<Rightarrow> int \<times> 'h sata" where
  "sata_flush_cache hb la s =
     (if \<not> sata_ready s then (-1, s)
      else
        let pb = port_address (ahci_base s) (active_port s) in
        case ahci_find_free_slot hb pb (sata_dma s) of (sl, m1) \<Rightarrow>
        case sl of
          None \<Rightarrow> (-1, s\<lparr>sata_dma := m1\<rparr>)
        | Some slot \<Rightarrow>
            let m2 = ahci_build_cmd la slot False 0 None 0 ATA_CMD_FLUSH_CACHE_EXT 0 0 m1 in
            case ahci_issue_and_wait hb pb slot m2 of (rc, m3) \<Rightarrow>
              (if rc \<noteq> 0 then -1 else 0, s\<lparr>sata_dma := m3\<rparr>))"

definition sata_is_present :: "'h sata \<Rightarrow> bool" where
  "sata_is_present s = ahci_initialized s"

end
