(* ===== verification/Sata.thy ===== *)
theory Sata
  imports Sata_Model
begin

text \<open>
  Correctness of the SATA driver on a conforming host bus adapter.  \<open>ahci_conforms\<close> collects what the AHCI
  and ATA specifications say of the registers the driver touches: an idle port accepts a command slot,
  reports it in PORT_CI for some polls and then has executed the request found in the command list and
  command table.  Under it the driver is the SATA half of the block layer's contract.
\<close>

unbundle bit_operations_syntax

subsection \<open>The request the hardware finds in memory\<close>

record ata_request =
  rq_fis :: "u8 \<times> u8"
  rq_command :: u8
  rq_write :: bool
  rq_lba :: nat
  rq_count :: u16
  rq_prdtl :: u16
  rq_buf :: u64
  rq_bytes :: nat

definition table_at :: "layout \<Rightarrow> 'h dma \<Rightarrow> nat \<Rightarrow> bytes" where
  "table_at la m slot =
     buf_get 256 (cmd_table_mem m) (unat (of_le (buf_get 8 (cmd_list_mem m) (slot * 32 + 8)) - la_cmd_table la :: u64))"

definition request_at :: "layout \<Rightarrow> 'h dma \<Rightarrow> nat \<Rightarrow> ata_request" where
  "request_at la m slot =
     (let t = table_at la m slot in
      \<lparr>rq_fis = (t ! 0, t ! 1), rq_command = t ! 2, rq_write = bit (cmd_list_mem m ! (slot * 32)) 6,
       rq_lba = unat (of_le [t ! 4, t ! 5, t ! 6, t ! 8, t ! 9, t ! 10] :: u64), rq_count = of_le (buf_get 2 t 12),
       rq_prdtl = of_le (buf_get 2 (cmd_list_mem m) (slot * 32 + 2)), rq_buf = of_le (buf_get 8 t 128),
       rq_bytes = Suc (unat (of_le (buf_get 4 t 140) :: u32))\<rparr>)"

definition dma_wf :: "'h dma \<Rightarrow> bool" where
  "dma_wf m \<longleftrightarrow> length (cmd_list_mem m) = 1024 \<and> length (cmd_table_mem m) = 8192"

lemma lo_hi: "of_le (to_le 4 (lo32 x) @ to_le 4 (hi32 x)) = x"
proof -
  have "to_le 4 (lo32 x) @ to_le 4 (hi32 x) = to_le 8 x"
  proof (rule nth_equalityI)
    fix i assume "i < length (to_le 4 (lo32 x) @ to_le 4 (hi32 x))"
    then have i: "i < 8" by simp
    have m: "(0xFFFFFFFF :: u64) = mask 32" by (simp add: mask_eq_exp_minus_1)
    show "(to_le 4 (lo32 x) @ to_le 4 (hi32 x)) ! i = to_le 8 x ! i"
      by (rule bit_word_eqI) (use i in \<open>auto simp: nth_append bit_nth_to_le lo32_def hi32_def m bit_simps algebra_simps\<close>)
  qed simp
  then show ?thesis by simp
qed

lemma ucast_low_byte: "ucast ((w :: u64) AND 0xFF) = (ucast w :: u8)"
proof -
  have m: "(0xFF :: u64) = mask 8" by (simp add: mask_eq_exp_minus_1)
  show ?thesis unfolding m by (rule bit_word_eqI) (simp add: bit_simps)
qed

lemma of_le_to_le_take: "(of_le (to_le n x) :: u64) = take_bit (8 * n) (x :: u64)"
proof (rule bit_word_eqI)
  fix k assume k: "k < LENGTH(64)"
  have "k div 8 < n \<longleftrightarrow> k < 8 * n" by auto
  then show "bit (of_le (to_le n x) :: u64) k = bit (take_bit (8 * n) x) k"
    using k by (auto simp: bit_of_le bit_nth_to_le bit_take_bit_iff)
qed

lemma buf_get_inside_put:
  "off \<le> length buf \<Longrightarrow> k + n \<le> length bs \<Longrightarrow> buf_get n (buf_put buf off bs) (off + k) = buf_get n bs k"
  by (simp add: buf_get_def buf_put_def)

lemma nth_inside_put: "off \<le> length buf \<Longrightarrow> k < length bs \<Longrightarrow> buf_put buf off bs ! (off + k) = bs ! k"
  by (simp add: buf_put_def nth_append)

lemma lba_bytes: "(of_le [ucast (x AND 0xFF), ucast (drop_bit 8 x AND 0xFF), ucast (drop_bit 16 x AND 0xFF),
    ucast (drop_bit 24 x AND 0xFF), ucast (drop_bit 32 x AND 0xFF), ucast (drop_bit 40 x AND 0xFF)] :: u64) = take_bit 48 x"
proof -
  have "[ucast (x AND 0xFF), ucast (drop_bit 8 x AND 0xFF), ucast (drop_bit 16 x AND 0xFF),
    ucast (drop_bit 24 x AND 0xFF), ucast (drop_bit 32 x AND 0xFF), ucast (drop_bit 40 x AND 0xFF)] = to_le (Suc (Suc (Suc (Suc (Suc (Suc 0)))))) x"
    unfolding to_le.simps ucast_low_byte by simp
  also have "(of_le \<dots> :: u64) = take_bit 48 x" unfolding of_le_to_le_take by simp
  finally show ?thesis .
qed

lemma take_bit_48: "unat x < 2 ^ 48 \<Longrightarrow> unat (take_bit 48 x :: u64) = unat x"
  by (simp add: unsigned_take_bit_eq take_bit_nat_eq_self)

lemma table_built:
  assumes "slot < 32" "dma_wf m"
  shows "table_at la (ahci_build_cmd la slot wr prdtl b n cmd lba count m) slot =
    buf_put (buf_put (replicate 256 0) 128 (case b of Some addr \<Rightarrow> if prdtl > 0 then prdt_bytes \<lparr>pr_dba = lo32 addr, pr_dbau = hi32 addr, pr_dbc = n - 1\<rparr> else replicate 16 0 | None \<Rightarrow> replicate 16 0)) 0
      (fis_bytes \<lparr>fs_command = cmd, fs_lba = lba, fs_count = count\<rparr>)" (is "_ = ?t")
proof -
  let ?m = "ahci_build_cmd la slot wr prdtl b n cmd lba count m"
  let ?a = "la_cmd_table la + of_nat (slot * 256)"
  let ?h = "cmd_header_bytes \<lparr>ch_cfl = 5, ch_w = wr, ch_prdtl = prdtl, ch_ctba = lo32 ?a, ch_ctbau = hi32 ?a\<rparr>"
  have lt: "length ?t = 256" by (simp add: prdt_bytes_def fis_bytes_def split: option.split)
  have lh: "length ?h = 32" by (simp add: cmd_header_bytes_def)
  have lm: "cmd_list_mem ?m = buf_put (cmd_list_mem m) (slot * 32) ?h" "cmd_table_mem ?m = buf_put (cmd_table_mem m) (slot * 256) ?t"
    by (simp_all add: ahci_build_cmd_def Let_def)
  have wf: "slot * 32 \<le> length (cmd_list_mem m)" "slot * 256 \<le> length (cmd_table_mem m)"
    using assms by (simp_all add: dma_wf_def)
  have h: "buf_get 8 (cmd_list_mem ?m) (slot * 32 + 8) = to_le 4 (lo32 ?a) @ to_le 4 (hi32 ?a)"
  proof -
    have "buf_get 8 (cmd_list_mem ?m) (slot * 32 + 8) = buf_get 8 ?h 8"
      unfolding lm by (rule buf_get_inside_put[OF wf(1)]) (simp add: cmd_header_bytes_def)
    also have "\<dots> = to_le 4 (lo32 ?a) @ to_le 4 (hi32 ?a)"
      by (simp add: cmd_header_bytes_def buf_get_Cons buf_get_skip) (simp add: buf_get_def)
    finally show ?thesis .
  qed
  have u: "unat (of_nat (slot * 256) :: u64) = slot * 256" unfolding unat_of_nat using assms(1) by simp
  have "buf_get 256 (cmd_table_mem ?m) (slot * 256) = ?t"
    unfolding lm by (rule buf_get_put_same[OF wf(2)]) (simp only: lt)
  then show ?thesis unfolding table_at_def h lo_hi by (simp add: u del: of_nat_mult)
qed

lemma request_built:
  assumes "slot < 32" "dma_wf m"
  shows "request_at la (ahci_build_cmd la slot wr 1 (Some b) 512 cmd lba count m) slot =
    \<lparr>rq_fis = (0x27, 0x80), rq_command = cmd, rq_write = wr, rq_lba = unat (take_bit 48 lba), rq_count = count, rq_prdtl = 1,
     rq_buf = b, rq_bytes = 512\<rparr>"
proof -
  let ?m = "ahci_build_cmd la slot wr 1 (Some b) 512 cmd lba count m"
  let ?a = "la_cmd_table la + of_nat (slot * 256)"
  let ?h = "cmd_header_bytes \<lparr>ch_cfl = 5, ch_w = wr, ch_prdtl = 1, ch_ctba = lo32 ?a, ch_ctbau = hi32 ?a\<rparr>"
  let ?f = "fis_bytes \<lparr>fs_command = cmd, fs_lba = lba, fs_count = count\<rparr>"
  let ?p = "prdt_bytes \<lparr>pr_dba = lo32 b, pr_dbau = hi32 b, pr_dbc = 511\<rparr>"
  let ?t = "buf_put (buf_put (replicate 256 0) 128 ?p) 0 ?f"
  have lm: "cmd_list_mem ?m = buf_put (cmd_list_mem m) (slot * 32) ?h" by (simp add: ahci_build_cmd_def Let_def)
  have t: "table_at la ?m slot = ?t" using table_built[OF assms, of la wr 1 "Some b" 512 cmd lba count] by simp
  have l: "length ?h = 32" "length ?p = 16" "length ?f = 20" by (simp_all add: cmd_header_bytes_def prdt_bytes_def fis_bytes_def)
  have wf: "slot * 32 \<le> length (cmd_list_mem m)" using assms by (simp add: dma_wf_def)
  have f: "?t ! i = ?f ! i" if "i < 20" for i using that nth_inside_put[of 0 "buf_put (replicate 256 0) 128 ?p" i ?f] l by simp
  have c: "buf_get 2 ?t 12 = to_le 2 count"
    using buf_get_inside_put[of 0 "buf_put (replicate 256 0) 128 ?p" 12 2 ?f] l
    by (simp add: fis_bytes_def buf_get_Cons buf_get_here)
  have p: "buf_get n ?t (128 + k) = buf_get n ?p k" if "k + n \<le> 16" for k n
    using that buf_get_put_other[of 0 ?f "buf_put (replicate 256 0) 128 ?p" "128 + k" n] buf_get_inside_put[of 128 "replicate 256 0" k n ?p] l
    by simp
  have p8: "buf_get 8 ?t 128 = to_le 4 (lo32 b) @ to_le 4 (hi32 b)" using p[of 0 8] by (simp add: prdt_bytes_def buf_get_def)
  have p4: "buf_get 4 ?t 140 = to_le 4 (511 :: u32)" using p[of 12 4] by (simp add: prdt_bytes_def buf_get_skip buf_get_all)
  have h0: "cmd_list_mem ?m ! (slot * 32) = 5 OR (if wr then 0x40 else 0)"
    using nth_inside_put[OF wf, of 0 ?h] l unfolding lm by (simp add: cmd_header_bytes_def)
  have h2: "buf_get 2 (cmd_list_mem ?m) (slot * 32 + 2) = to_le 2 (1 :: u16)"
    using buf_get_inside_put[OF wf, of 2 2 ?h] l unfolding lm by (simp add: cmd_header_bytes_def buf_get_Cons buf_get_here)
  have w: "bit ((5 :: u8) OR (if wr then 0x40 else 0)) 6 = wr" by simp
  have g: "?t ! 0 = 0x27" "?t ! 1 = 0x80" "?t ! 2 = cmd" "?t ! 4 = ucast (lba AND 0xFF)" "?t ! 5 = ucast (drop_bit 8 lba AND 0xFF)"
    "?t ! 6 = ucast (drop_bit 16 lba AND 0xFF)" "?t ! 8 = ucast (drop_bit 24 lba AND 0xFF)" "?t ! 9 = ucast (drop_bit 32 lba AND 0xFF)"
    "?t ! 10 = ucast (drop_bit 40 lba AND 0xFF)"
    by (subst f, simp, simp add: fis_bytes_def)+
  show ?thesis
    unfolding request_at_def Let_def t c p8 p4 h0 h2 lo_hi w g lba_bytes by simp
qed

lemma flush_request_built:
  assumes "slot < 32" "dma_wf m"
  shows "rq_fis (request_at la (ahci_build_cmd la slot False 0 None 0 cmd 0 0 m) slot) = (0x27, 0x80)"
    "rq_command (request_at la (ahci_build_cmd la slot False 0 None 0 cmd 0 0 m) slot) = cmd"
proof -
  let ?f = "fis_bytes \<lparr>fs_command = cmd, fs_lba = 0, fs_count = 0\<rparr>"
  let ?t = "buf_put (buf_put (replicate 256 0) 128 (replicate 16 0)) 0 ?f"
  have t: "table_at la (ahci_build_cmd la slot False 0 None 0 cmd 0 0 m) slot = ?t"
    using table_built[OF assms, of la False 0 None 0 cmd 0 0] by simp
  have l: "length ?f = 20" by (simp add: fis_bytes_def)
  have f: "?t ! i = ?f ! i" if "i < 20" for i
    using that nth_inside_put[of 0 "buf_put (replicate 256 0) 128 (replicate 16 0)" i ?f] l by simp
  have g: "?t ! 0 = 0x27" "?t ! 1 = 0x80" "?t ! 2 = cmd" by (subst f, simp, simp add: fis_bytes_def)+
  show "rq_fis (request_at la (ahci_build_cmd la slot False 0 None 0 cmd 0 0 m) slot) = (0x27, 0x80)"
    "rq_command (request_at la (ahci_build_cmd la slot False 0 None 0 cmd 0 0 m) slot) = cmd"
    unfolding request_at_def Let_def t g by simp_all
qed

lemma build_cmd_frame [simp]:
  "dma_buf (ahci_build_cmd la slot wr prdtl b n cmd lba count m) = dma_buf m"
  "hba_state (ahci_build_cmd la slot wr prdtl b n cmd lba count m) = hba_state m"
  by (simp_all add: ahci_build_cmd_def Let_def)

lemma build_cmd_wf:
  "slot < 32 \<Longrightarrow> dma_wf m \<Longrightarrow> dma_wf (ahci_build_cmd la slot wr prdtl b n cmd lba count m)"
  by (simp add: dma_wf_def ahci_build_cmd_def Let_def cmd_header_bytes_def prdt_bytes_def fis_bytes_def split: option.split)

subsection \<open>What a conforming adapter does\<close>

datatype cmd_phase = Idle | Busy nat nat

record 'h hba_view =
  vw_phase :: "'h \<Rightarrow> cmd_phase"
  vw_error :: "'h \<Rightarrow> bool"
  vw_disk :: "'h \<Rightarrow> nat \<Rightarrow> bytes"
  vw_identify :: bytes

definition quiet :: "'h hba_view \<Rightarrow> 'h dma \<Rightarrow> 'h dma \<Rightarrow> bool" where
  "quiet vw m m' \<longleftrightarrow> cmd_list_mem m' = cmd_list_mem m \<and> cmd_table_mem m' = cmd_table_mem m \<and> dma_buf m' = dma_buf m \<and>
     vw_disk vw (hba_state m') = vw_disk vw (hba_state m)"

definition data_request :: "layout \<Rightarrow> nat set \<Rightarrow> ata_request \<Rightarrow> bool" where
  "data_request la lbas rq \<longleftrightarrow> rq_fis rq = (0x27, 0x80) \<and> rq_count rq = 1 \<and> rq_prdtl rq = 1 \<and> rq_buf rq = la_buf la \<and>
     rq_bytes rq = 512 \<and> rq_lba rq \<in> lbas"

definition executed :: "layout \<Rightarrow> 'h hba_view \<Rightarrow> nat set \<Rightarrow> ata_request \<Rightarrow> 'h dma \<Rightarrow> 'h dma \<Rightarrow> bool" where
  "executed la vw lbas rq m m' \<longleftrightarrow>
     length (cmd_list_mem m') = length (cmd_list_mem m) \<and> cmd_table_mem m' = cmd_table_mem m \<and>
     (data_request la lbas rq \<and> rq_command rq = ATA_CMD_READ_DMA_EX \<and> \<not> rq_write rq \<longrightarrow>
        dma_buf m' = vw_disk vw (hba_state m) (rq_lba rq) \<and> vw_disk vw (hba_state m') = vw_disk vw (hba_state m) \<and>
        vw_error vw (hba_state m') = vw_error vw (hba_state m)) \<and>
     (data_request la lbas rq \<and> rq_command rq = ATA_CMD_WRITE_DMA_EX \<and> rq_write rq \<longrightarrow>
        dma_buf m' = dma_buf m \<and> vw_disk vw (hba_state m') = (vw_disk vw (hba_state m))(rq_lba rq := dma_buf m) \<and>
        vw_error vw (hba_state m') = vw_error vw (hba_state m)) \<and>
     (rq_fis rq = (0x27, 0x80) \<and> rq_command rq = ATA_CMD_FLUSH_CACHE_EXT \<longrightarrow>
        dma_buf m' = dma_buf m \<and> vw_disk vw (hba_state m') = vw_disk vw (hba_state m) \<and>
        vw_error vw (hba_state m') = vw_error vw (hba_state m)) \<and>
     (rq_fis rq = (0x27, 0x80) \<and> rq_prdtl rq = 1 \<and> rq_buf rq = la_buf la \<and> rq_bytes rq = 512 \<and> rq_command rq = ATA_CMD_IDENTIFY \<longrightarrow>
        dma_buf m' = vw_identify vw \<and> vw_disk vw (hba_state m') = vw_disk vw (hba_state m) \<and>
        vw_error vw (hba_state m') = vw_error vw (hba_state m))"

definition ahci_conforms :: "'h hba \<Rightarrow> layout \<Rightarrow> u64 \<Rightarrow> 'h hba_view \<Rightarrow> nat set \<Rightarrow> bool" where
  "ahci_conforms hb la pb vw lbas \<longleftrightarrow> (\<forall>m.
     (vw_phase vw (hba_state m) = Idle \<longrightarrow>
        (\<exists>v m'. ahci_read32 hb pb PORT_TFD m = (v, m') \<and> v AND 0x88 = 0 \<and> quiet vw m m' \<and> vw_phase vw (hba_state m') = Idle) \<and>
        (\<exists>m'. ahci_read32 hb pb PORT_SACT m = (0, m') \<and> quiet vw m m' \<and> vw_phase vw (hba_state m') = Idle) \<and>
        (\<exists>m'. ahci_read32 hb pb PORT_CI m = (0, m') \<and> quiet vw m m' \<and> vw_phase vw (hba_state m') = Idle) \<and>
        (\<exists>v m'. ahci_read32 hb pb PORT_IS m = (v, m') \<and> (v AND 0x40000000 \<noteq> 0 \<longleftrightarrow> vw_error vw (hba_state m)) \<and> quiet vw m m' \<and>
           vw_phase vw (hba_state m') = Idle) \<and>
        (\<forall>v. quiet vw m (ahci_write32 hb pb PORT_IS v m) \<and> vw_phase vw (hba_state (ahci_write32 hb pb PORT_IS v m)) = Idle \<and>
           vw_error vw (hba_state (ahci_write32 hb pb PORT_IS v m)) = (vw_error vw (hba_state m) \<and> v AND 0x40000000 = 0)) \<and>
        (\<forall>slot<32. \<exists>k<AHCI_CMD_TIMEOUT. let m' = ahci_write32 hb pb PORT_CI (push_bit slot 1) m in
           quiet vw m m' \<and> vw_phase vw (hba_state m') = Busy slot k \<and> vw_error vw (hba_state m') = vw_error vw (hba_state m))) \<and>
     (\<forall>slot k. vw_phase vw (hba_state m) = Busy slot (Suc k) \<and> slot < 32 \<longrightarrow>
        (\<exists>v m'. ahci_read32 hb pb PORT_CI m = (v, m') \<and> v AND push_bit slot 1 \<noteq> 0 \<and> quiet vw m m' \<and>
           vw_phase vw (hba_state m') = Busy slot k \<and> vw_error vw (hba_state m') = vw_error vw (hba_state m))) \<and>
     (\<forall>slot. vw_phase vw (hba_state m) = Busy slot 0 \<longrightarrow>
        (\<exists>v m'. ahci_read32 hb pb PORT_CI m = (v, m') \<and> v AND push_bit slot 1 = 0 \<and> vw_phase vw (hba_state m') = Idle \<and>
           executed la vw lbas (request_at la m slot) m m')))"

lemma conforms_idle:
  assumes "ahci_conforms hb la pb vw lbas" "vw_phase vw (hba_state m) = Idle"
  shows "\<exists>v m'. ahci_read32 hb pb PORT_TFD m = (v, m') \<and> v AND 0x88 = 0 \<and> quiet vw m m' \<and> vw_phase vw (hba_state m') = Idle"
    "\<exists>m'. ahci_read32 hb pb PORT_SACT m = (0, m') \<and> quiet vw m m' \<and> vw_phase vw (hba_state m') = Idle"
    "\<exists>m'. ahci_read32 hb pb PORT_CI m = (0, m') \<and> quiet vw m m' \<and> vw_phase vw (hba_state m') = Idle"
    "\<exists>v m'. ahci_read32 hb pb PORT_IS m = (v, m') \<and> (v AND 0x40000000 \<noteq> 0 \<longleftrightarrow> vw_error vw (hba_state m)) \<and> quiet vw m m' \<and>
       vw_phase vw (hba_state m') = Idle"
    "quiet vw m (ahci_write32 hb pb PORT_IS v m)" "vw_phase vw (hba_state (ahci_write32 hb pb PORT_IS v m)) = Idle"
    "vw_error vw (hba_state (ahci_write32 hb pb PORT_IS v m)) = (vw_error vw (hba_state m) \<and> v AND 0x40000000 = 0)"
    "slot < 32 \<Longrightarrow> \<exists>k<AHCI_CMD_TIMEOUT. let m' = ahci_write32 hb pb PORT_CI (push_bit slot 1) m in
       quiet vw m m' \<and> vw_phase vw (hba_state m') = Busy slot k \<and> vw_error vw (hba_state m') = vw_error vw (hba_state m)"
proof -
  note a = spec[OF assms(1)[unfolded ahci_conforms_def], of m]
  note i = mp[OF conjunct1[OF a] assms(2)]
  show "\<exists>v m'. ahci_read32 hb pb PORT_TFD m = (v, m') \<and> v AND 0x88 = 0 \<and> quiet vw m m' \<and> vw_phase vw (hba_state m') = Idle"
    using i by (elim conjE)
  show "\<exists>m'. ahci_read32 hb pb PORT_SACT m = (0, m') \<and> quiet vw m m' \<and> vw_phase vw (hba_state m') = Idle"
    using i by (elim conjE)
  show "\<exists>m'. ahci_read32 hb pb PORT_CI m = (0, m') \<and> quiet vw m m' \<and> vw_phase vw (hba_state m') = Idle"
    using i by (elim conjE)
  show "\<exists>v m'. ahci_read32 hb pb PORT_IS m = (v, m') \<and> (v AND 0x40000000 \<noteq> 0 \<longleftrightarrow> vw_error vw (hba_state m)) \<and> quiet vw m m' \<and>
       vw_phase vw (hba_state m') = Idle"
    using i by (elim conjE)
  show "quiet vw m (ahci_write32 hb pb PORT_IS v m)" "vw_phase vw (hba_state (ahci_write32 hb pb PORT_IS v m)) = Idle"
    "vw_error vw (hba_state (ahci_write32 hb pb PORT_IS v m)) = (vw_error vw (hba_state m) \<and> v AND 0x40000000 = 0)"
    using conjunct1[OF conjunct2[OF conjunct2[OF conjunct2[OF conjunct2[OF i]]]], THEN spec, of v] by simp_all
  show "slot < 32 \<Longrightarrow> \<exists>k<AHCI_CMD_TIMEOUT. let m' = ahci_write32 hb pb PORT_CI (push_bit slot 1) m in
       quiet vw m m' \<and> vw_phase vw (hba_state m') = Busy slot k \<and> vw_error vw (hba_state m') = vw_error vw (hba_state m)"
    using i by (elim conjE) (drule spec[of _ slot], erule mp)
qed

lemma conforms_busy:
  assumes "ahci_conforms hb la pb vw lbas"
  shows "vw_phase vw (hba_state m) = Busy slot (Suc k) \<Longrightarrow> slot < 32 \<Longrightarrow>
        \<exists>v m'. ahci_read32 hb pb PORT_CI m = (v, m') \<and> v AND push_bit slot 1 \<noteq> 0 \<and> quiet vw m m' \<and>
           vw_phase vw (hba_state m') = Busy slot k \<and> vw_error vw (hba_state m') = vw_error vw (hba_state m)"
    "vw_phase vw (hba_state m) = Busy slot 0 \<Longrightarrow>
        \<exists>v m'. ahci_read32 hb pb PORT_CI m = (v, m') \<and> v AND push_bit slot 1 = 0 \<and> vw_phase vw (hba_state m') = Idle \<and>
           executed la vw lbas (request_at la m slot) m m'"
  using spec[OF assms[unfolded ahci_conforms_def], of m] by blast+

lemma quiet_refl: "quiet vw m m" by (simp add: quiet_def)

lemma quiet_trans: "quiet vw a b \<Longrightarrow> quiet vw b c \<Longrightarrow> quiet vw a c" by (simp add: quiet_def)

lemma quiet_request: "quiet vw m m' \<Longrightarrow> request_at la m' slot = request_at la m slot"
  by (simp add: quiet_def request_at_def table_at_def)

lemma quiet_wf: "quiet vw m m' \<Longrightarrow> dma_wf m' = dma_wf m"
  by (simp add: quiet_def dma_wf_def)

lemma executed_quiet:
  "quiet vw m m0 \<Longrightarrow> vw_error vw (hba_state m0) = vw_error vw (hba_state m) \<Longrightarrow> executed la vw lbas rq m0 m' \<Longrightarrow> executed la vw lbas rq m m'"
  by (simp add: quiet_def executed_def)

subsection \<open>The driver on a conforming adapter\<close>

lemma poll_command:
  assumes c: "ahci_conforms hb la pb vw lbas" and s: "slot < 32"
  shows "vw_phase vw (hba_state m) = Busy slot k \<Longrightarrow> k < n \<Longrightarrow>
    \<exists>m'. poll_clear hb pb PORT_CI (push_bit slot 1) n m = (True, m') \<and> vw_phase vw (hba_state m') = Idle \<and>
      executed la vw lbas (request_at la m slot) m m'"
proof (induction k arbitrary: m n)
  case 0
  from conforms_busy(2)[OF c 0(1)] 0(2) show ?case by (cases n) auto
next
  case (Suc k)
  from Suc.prems(2) obtain n' where n: "n = Suc n'" "k < n'" by (cases n) auto
  from conforms_busy(1)[OF c Suc.prems(1) s] obtain v m1 where m1: "ahci_read32 hb pb PORT_CI m = (v, m1)" "v AND push_bit slot 1 \<noteq> 0"
    "quiet vw m m1" "vw_phase vw (hba_state m1) = Busy slot k" "vw_error vw (hba_state m1) = vw_error vw (hba_state m)" by blast
  from Suc.IH[OF m1(4) n(2)] obtain m' where "poll_clear hb pb PORT_CI (push_bit slot 1) n' m1 = (True, m')"
    "vw_phase vw (hba_state m') = Idle" "executed la vw lbas (request_at la m1 slot) m1 m'" by blast
  with m1 n(1) show ?case using executed_quiet[OF m1(3,5)] quiet_request[OF m1(3)] by auto
qed

definition known_request :: "layout \<Rightarrow> nat set \<Rightarrow> ata_request \<Rightarrow> bool" where
  "known_request la lbas rq \<longleftrightarrow>
     (data_request la lbas rq \<and> rq_command rq = ATA_CMD_READ_DMA_EX \<and> \<not> rq_write rq) \<or>
     (data_request la lbas rq \<and> rq_command rq = ATA_CMD_WRITE_DMA_EX \<and> rq_write rq) \<or>
     (rq_fis rq = (0x27, 0x80) \<and> rq_command rq = ATA_CMD_FLUSH_CACHE_EXT) \<or>
     (rq_fis rq = (0x27, 0x80) \<and> rq_prdtl rq = 1 \<and> rq_buf rq = la_buf la \<and> rq_bytes rq = 512 \<and> rq_command rq = ATA_CMD_IDENTIFY)"

lemma known_keeps_error: "executed la vw lbas rq m m' \<Longrightarrow> known_request la lbas rq \<Longrightarrow>
    vw_error vw (hba_state m') = vw_error vw (hba_state m)"
  unfolding executed_def known_request_def by blast

lemma issue_run:
  assumes c: "ahci_conforms hb la pb vw lbas" and i: "vw_phase vw (hba_state m) = Idle" and s: "slot < 32"
    and k: "known_request la lbas (request_at la m slot)"
  obtains m1 m2 m' where "ahci_issue_and_wait hb pb slot m = (0, m')" "quiet vw m m1"
    "executed la vw lbas (request_at la m slot) m1 m2" "quiet vw m2 m'" "vw_phase vw (hba_state m') = Idle"
proof -
  let ?a = "ahci_write32 hb pb PORT_IS 0xFFFFFFFF m"
  note w = conforms_idle(5-7)[OF c i, of "0xFFFFFFFF"]
  have ne: "\<not> vw_error vw (hba_state ?a)" using w(3) by simp
  let ?b = "ahci_write32 hb pb PORT_CI (push_bit slot 1) ?a"
  from conforms_idle(8)[OF c w(2) s] obtain n where n: "n < AHCI_CMD_TIMEOUT" "quiet vw ?a ?b"
    "vw_phase vw (hba_state ?b) = Busy slot n" "vw_error vw (hba_state ?b) = vw_error vw (hba_state ?a)" by (auto simp: Let_def)
  have q: "quiet vw m ?b" using w(1) n(2) by (rule quiet_trans)
  from poll_command[OF c s n(3,1)] obtain m2 where m2: "poll_clear hb pb PORT_CI (push_bit slot 1) AHCI_CMD_TIMEOUT ?b = (True, m2)"
    "vw_phase vw (hba_state m2) = Idle" "executed la vw lbas (request_at la ?b slot) ?b m2" by blast
  have ex: "executed la vw lbas (request_at la m slot) ?b m2" using m2(3) quiet_request[OF q] by simp
  have ne2: "\<not> vw_error vw (hba_state m2)" using known_keeps_error[OF ex k] n(4) ne by simp
  from conforms_idle(4)[OF c m2(2)] ne2 obtain v m3 where m3: "ahci_read32 hb pb PORT_IS m2 = (v, m3)" "v AND 0x40000000 = 0"
    "quiet vw m2 m3" "vw_phase vw (hba_state m3) = Idle" by auto
  let ?m' = "if v \<noteq> 0 then ahci_write32 hb pb PORT_IS v m3 else m3"
  have r: "ahci_issue_and_wait hb pb slot m = (0, ?m')"
    unfolding ahci_issue_and_wait_def Let_def m2(1) m3(1) case_prod_conv using m3(2) by simp
  have "quiet vw m2 ?m'" using quiet_trans[OF m3(3) conforms_idle(5)[OF c m3(4)]] m3(3) by simp
  moreover have "vw_phase vw (hba_state ?m') = Idle" using conforms_idle(6)[OF c m3(4)] m3(4) by simp
  ultimately show thesis by (rule that[OF r q ex])
qed

lemma poll_first: "ahci_read32 hb b off m = (v, m1) \<Longrightarrow> v AND bits = 0 \<Longrightarrow> 0 < n \<Longrightarrow> poll_clear hb b off bits n m = (True, m1)"
  by (cases n) simp_all

lemma idle_prologue:
  assumes c: "ahci_conforms hb la pb vw lbas" and i: "vw_phase vw (hba_state m) = Idle"
  shows "\<exists>m'. poll_clear hb pb PORT_TFD 0x88 1000 m = (True, m') \<and> quiet vw m m' \<and> vw_phase vw (hba_state m') = Idle"
    "\<exists>m'. ahci_find_free_slot hb pb m = (Some 0, m') \<and> quiet vw m m' \<and> vw_phase vw (hba_state m') = Idle"
proof -
  show "\<exists>m'. poll_clear hb pb PORT_TFD 0x88 1000 m = (True, m') \<and> quiet vw m m' \<and> vw_phase vw (hba_state m') = Idle"
    using conforms_idle(1)[OF c i] poll_first[of hb pb PORT_TFD m _ _ "0x88" 1000] by fastforce
  from conforms_idle(2)[OF c i] obtain m1 where m1: "ahci_read32 hb pb PORT_SACT m = (0, m1)" "quiet vw m m1" "vw_phase vw (hba_state m1) = Idle" by blast
  from conforms_idle(3)[OF c m1(3)] obtain m2 where m2: "ahci_read32 hb pb PORT_CI m1 = (0, m2)" "quiet vw m1 m2" "vw_phase vw (hba_state m2) = Idle" by blast
  have "[0..<32] = 0 # [1..<32 :: nat]" by (simp add: upt_conv_Cons)
  then have "ahci_find_free_slot hb pb m = (Some 0, m2)" by (simp add: ahci_find_free_slot_def m1(1) m2(1))
  with quiet_trans[OF m1(2) m2(2)] m2(3)
  show "\<exists>m'. ahci_find_free_slot hb pb m = (Some 0, m') \<and> quiet vw m m' \<and> vw_phase vw (hba_state m') = Idle" by blast
qed

definition sata_ok :: "'h hba_view \<Rightarrow> u64 \<Rightarrow> 'h sata \<Rightarrow> bool" where
  "sata_ok vw pb s \<longleftrightarrow> sata_ready s \<and> port_address (ahci_base s) (active_port s) = pb \<and> dma_wf (sata_dma s) \<and>
     vw_phase vw (hba_state (sata_dma s)) = Idle \<and> (\<forall>l. length (vw_disk vw (hba_state (sata_dma s)) l) = 512)"

definition sata_sect :: "'h hba_view \<Rightarrow> 'h sata \<Rightarrow> nat \<Rightarrow> bytes" where
  "sata_sect vw s = vw_disk vw (hba_state (sata_dma s))"

text \<open>One command of the driver: prologue, build, issue.\<close>

lemma command_run:
  assumes c: "ahci_conforms hb la pb vw lbas" and i: "vw_phase vw (hba_state m) = Idle" and wf: "dma_wf m"
    and b: "bm = ahci_build_cmd la 0 wr prdtl b n cmd lba count m" and k: "known_request la lbas (request_at la bm 0)"
  obtains m1 m2 m' where "ahci_issue_and_wait hb pb 0 bm = (0, m')" "quiet vw bm m1"
    "executed la vw lbas (request_at la bm 0) m1 m2" "quiet vw m2 m'" "vw_phase vw (hba_state m') = Idle" "dma_wf m'"
proof -
  have "vw_phase vw (hba_state bm) = Idle" using i b by simp
  then obtain m1 m2 m' where r: "ahci_issue_and_wait hb pb 0 bm = (0, m')" "quiet vw bm m1"
    "executed la vw lbas (request_at la bm 0) m1 m2" "quiet vw m2 m'" "vw_phase vw (hba_state m') = Idle"
    by (rule issue_run[OF c _ _ k]) auto
  have "dma_wf bm" using wf b by (simp add: build_cmd_wf)
  then have "dma_wf m1" using quiet_wf[OF r(2)] by simp
  then have "dma_wf m2" using r(3) by (simp add: executed_def dma_wf_def)
  then have "dma_wf m'" using quiet_wf[OF r(4)] by simp
  with r show thesis by (rule that)
qed

lemma sata_read_run:
  assumes c: "ahci_conforms hb la pb vw lbas" and ok: "sata_ok vw pb s" and l: "unat lba \<in> lbas" "unat lba < 2 ^ 48"
  obtains s' where "sata_read_sector hb la lba buf s = (0, sata_sect vw s (unat lba), s')" "sata_ok vw pb s'" "sata_sect vw s' = sata_sect vw s"
proof -
  have S: "sata_ready s" "port_address (ahci_base s) (active_port s) = pb" "dma_wf (sata_dma s)"
    "vw_phase vw (hba_state (sata_dma s)) = Idle" "\<forall>l. length (vw_disk vw (hba_state (sata_dma s)) l) = 512"
    using ok by (simp_all add: sata_ok_def)
  let ?m0 = "(sata_dma s)\<lparr>dma_buf := buf\<rparr>"
  have i0: "vw_phase vw (hba_state ?m0) = Idle" using S(4) by simp
  from idle_prologue(1)[OF c i0] obtain m1 where m1: "poll_clear hb pb PORT_TFD 0x88 1000 ?m0 = (True, m1)" "quiet vw ?m0 m1"
    "vw_phase vw (hba_state m1) = Idle" by blast
  from idle_prologue(2)[OF c m1(3)] obtain m2 where m2: "ahci_find_free_slot hb pb m1 = (Some 0, m2)" "quiet vw m1 m2"
    "vw_phase vw (hba_state m2) = Idle" by blast
  have q: "quiet vw ?m0 m2" using m1(2) m2(2) by (rule quiet_trans)
  have wf: "dma_wf m2" using quiet_wf[OF q] S(3) by (simp add: dma_wf_def)
  define bm where "bm = ahci_build_cmd la 0 False 1 (Some (la_buf la)) 512 ATA_CMD_READ_DMA_EX lba 1 m2"
  have rq: "request_at la bm 0 = \<lparr>rq_fis = (0x27, 0x80), rq_command = ATA_CMD_READ_DMA_EX, rq_write = False, rq_lba = unat lba,
      rq_count = 1, rq_prdtl = 1, rq_buf = la_buf la, rq_bytes = 512\<rparr>"
    unfolding bm_def using request_built[OF _ wf, of 0 la False "la_buf la" "0x25" lba 1] take_bit_48[OF l(2)] by simp
  then have k: "known_request la lbas (request_at la bm 0)" using l(1) by (simp add: known_request_def data_request_def)
  obtain m3 m4 m' where r: "ahci_issue_and_wait hb pb 0 bm = (0, m')" "quiet vw bm m3"
    "executed la vw lbas (request_at la bm 0) m3 m4" "quiet vw m4 m'" "vw_phase vw (hba_state m') = Idle" "dma_wf m'"
    by (rule command_run[OF c m2(3) wf bm_def k])
  have "dma_buf m4 = vw_disk vw (hba_state m3) (unat lba) \<and> vw_disk vw (hba_state m4) = vw_disk vw (hba_state m3)"
    using r(3) l(1) unfolding executed_def rq by (simp add: data_request_def)
  then have e: "dma_buf m' = sata_sect vw s (unat lba)" "vw_disk vw (hba_state m') = sata_sect vw s"
    using q r(2,4) by (simp_all add: quiet_def bm_def sata_sect_def)
  let ?s = "s\<lparr>sata_dma := m'\<rparr>"
  have run: "sata_read_sector hb la lba buf s = (0, sata_sect vw s (unat lba), ?s)"
    unfolding sata_read_sector_def S(2) Let_def using S(1) by (simp add: m1(1) m2(1) bm_def[symmetric] r(1) e(1))
  have ok': "sata_ok vw pb ?s" using S r(5,6) e(2) by (simp add: sata_ok_def sata_ready_def sata_sect_def)
  show thesis by (rule that[OF run ok']) (use e(2) in \<open>simp add: sata_sect_def\<close>)
qed

lemma sata_write_run:
  assumes c: "ahci_conforms hb la pb vw lbas" and ok: "sata_ok vw pb s" and l: "unat lba \<in> lbas" "unat lba < 2 ^ 48" and bl: "length buf = 512"
  obtains s' where "sata_write_sector hb la lba buf s = (0, s')" "sata_ok vw pb s'" "sata_sect vw s' = (sata_sect vw s)(unat lba := buf)"
proof -
  have S: "sata_ready s" "port_address (ahci_base s) (active_port s) = pb" "dma_wf (sata_dma s)"
    "vw_phase vw (hba_state (sata_dma s)) = Idle" "\<forall>l. length (vw_disk vw (hba_state (sata_dma s)) l) = 512"
    using ok by (simp_all add: sata_ok_def)
  let ?m0 = "(sata_dma s)\<lparr>dma_buf := buf\<rparr>"
  have i0: "vw_phase vw (hba_state ?m0) = Idle" using S(4) by simp
  from idle_prologue(1)[OF c i0] obtain m1 where m1: "poll_clear hb pb PORT_TFD 0x88 1000 ?m0 = (True, m1)" "quiet vw ?m0 m1"
    "vw_phase vw (hba_state m1) = Idle" by blast
  from idle_prologue(2)[OF c m1(3)] obtain m2 where m2: "ahci_find_free_slot hb pb m1 = (Some 0, m2)" "quiet vw m1 m2"
    "vw_phase vw (hba_state m2) = Idle" by blast
  have q: "quiet vw ?m0 m2" using m1(2) m2(2) by (rule quiet_trans)
  have wf: "dma_wf m2" using quiet_wf[OF q] S(3) by (simp add: dma_wf_def)
  define bm where "bm = ahci_build_cmd la 0 True 1 (Some (la_buf la)) 512 ATA_CMD_WRITE_DMA_EX lba 1 m2"
  have rq: "request_at la bm 0 = \<lparr>rq_fis = (0x27, 0x80), rq_command = ATA_CMD_WRITE_DMA_EX, rq_write = True, rq_lba = unat lba,
      rq_count = 1, rq_prdtl = 1, rq_buf = la_buf la, rq_bytes = 512\<rparr>"
    unfolding bm_def using request_built[OF _ wf, of 0 la True "la_buf la" "0x35" lba 1] take_bit_48[OF l(2)] by simp
  then have k: "known_request la lbas (request_at la bm 0)" using l(1) by (simp add: known_request_def data_request_def)
  obtain m3 m4 m' where r: "ahci_issue_and_wait hb pb 0 bm = (0, m')" "quiet vw bm m3"
    "executed la vw lbas (request_at la bm 0) m3 m4" "quiet vw m4 m'" "vw_phase vw (hba_state m') = Idle" "dma_wf m'"
    by (rule command_run[OF c m2(3) wf bm_def k])
  have "vw_disk vw (hba_state m4) = (vw_disk vw (hba_state m3))(unat lba := dma_buf m3)"
    using r(3) l(1) unfolding executed_def rq by (simp add: data_request_def)
  then have e: "vw_disk vw (hba_state m') = (sata_sect vw s)(unat lba := buf)"
    using q r(2,4) by (simp add: quiet_def bm_def sata_sect_def)
  let ?s = "s\<lparr>sata_dma := m'\<rparr>"
  have run: "sata_write_sector hb la lba buf s = (0, ?s)"
    unfolding sata_write_sector_def S(2) Let_def using S(1,2) by (simp add: m1(1) m2(1) Let_def bm_def[symmetric] r(1))
  have ok': "sata_ok vw pb ?s" using S r(5,6) e bl by (simp add: sata_ok_def sata_ready_def sata_sect_def)
  show thesis by (rule that[OF run ok']) (use e in \<open>simp add: sata_sect_def\<close>)
qed

lemma sata_flush_run:
  assumes c: "ahci_conforms hb la pb vw lbas" and ok: "sata_ok vw pb s"
  obtains s' where "sata_flush_cache hb la s = (0, s')" "sata_ok vw pb s'" "sata_sect vw s' = sata_sect vw s"
proof -
  have S: "sata_ready s" "port_address (ahci_base s) (active_port s) = pb" "dma_wf (sata_dma s)"
    "vw_phase vw (hba_state (sata_dma s)) = Idle" "\<forall>l. length (vw_disk vw (hba_state (sata_dma s)) l) = 512"
    using ok by (simp_all add: sata_ok_def)
  from idle_prologue(2)[OF c S(4)] obtain m2 where m2: "ahci_find_free_slot hb pb (sata_dma s) = (Some 0, m2)" "quiet vw (sata_dma s) m2"
    "vw_phase vw (hba_state m2) = Idle" by blast
  have wf: "dma_wf m2" using quiet_wf[OF m2(2)] S(3) by simp
  define bm where "bm = ahci_build_cmd la 0 False 0 None 0 ATA_CMD_FLUSH_CACHE_EXT 0 0 m2"
  have rq: "rq_fis (request_at la bm 0) = (0x27, 0x80)" "rq_command (request_at la bm 0) = ATA_CMD_FLUSH_CACHE_EXT"
    unfolding bm_def by (rule flush_request_built[OF _ wf]; simp)+
  then have k: "known_request la lbas (request_at la bm 0)" by (simp add: known_request_def)
  obtain m3 m4 m' where r: "ahci_issue_and_wait hb pb 0 bm = (0, m')" "quiet vw bm m3"
    "executed la vw lbas (request_at la bm 0) m3 m4" "quiet vw m4 m'" "vw_phase vw (hba_state m') = Idle" "dma_wf m'"
    by (rule command_run[OF c m2(3) wf bm_def k])
  have "vw_disk vw (hba_state m4) = vw_disk vw (hba_state m3)" using r(3) rq unfolding executed_def by simp
  then have e: "vw_disk vw (hba_state m') = sata_sect vw s" using m2(2) r(2,4) by (simp add: quiet_def bm_def sata_sect_def)
  let ?s = "s\<lparr>sata_dma := m'\<rparr>"
  have run: "sata_flush_cache hb la s = (0, ?s)"
    unfolding sata_flush_cache_def S(2) Let_def using S(1) by (simp add: m2(1) bm_def[symmetric] r(1))
  have ok': "sata_ok vw pb ?s" using S r(5,6) e by (simp add: sata_ok_def sata_ready_def sata_sect_def)
  show thesis by (rule that[OF run ok']) (use e in \<open>simp add: sata_sect_def\<close>)
qed

lemma sata_identify_run:
  assumes c: "ahci_conforms hb la pb vw lbas" and ok: "sata_ok vw pb s"
  obtains s' where "sata_get_num_blocks hb la s = (case identify_total (vw_identify vw) of None \<Rightarrow> (-1, None, s') | Some n \<Rightarrow> (0, Some n, s'))"
    "sata_ok vw pb s'" "sata_sect vw s' = sata_sect vw s"
proof -
  have S: "sata_ready s" "port_address (ahci_base s) (active_port s) = pb" "dma_wf (sata_dma s)"
    "vw_phase vw (hba_state (sata_dma s)) = Idle" "\<forall>l. length (vw_disk vw (hba_state (sata_dma s)) l) = 512"
    using ok by (simp_all add: sata_ok_def)
  let ?m0 = "(sata_dma s)\<lparr>dma_buf := replicate 512 0\<rparr>"
  have i0: "vw_phase vw (hba_state ?m0) = Idle" using S(4) by simp
  from idle_prologue(2)[OF c i0] obtain m2 where m2: "ahci_find_free_slot hb pb ?m0 = (Some 0, m2)" "quiet vw ?m0 m2"
    "vw_phase vw (hba_state m2) = Idle" by blast
  have wf: "dma_wf m2" using quiet_wf[OF m2(2)] S(3) by (simp add: dma_wf_def)
  define bm where "bm = ahci_build_cmd la 0 False 1 (Some (la_buf la)) 512 ATA_CMD_IDENTIFY 0 0 m2"
  have rq: "request_at la bm 0 = \<lparr>rq_fis = (0x27, 0x80), rq_command = ATA_CMD_IDENTIFY, rq_write = False, rq_lba = 0,
      rq_count = 0, rq_prdtl = 1, rq_buf = la_buf la, rq_bytes = 512\<rparr>"
    unfolding bm_def using request_built[OF _ wf, of 0 la False "la_buf la" "0xEC" 0 0] by simp
  then have k: "known_request la lbas (request_at la bm 0)" by (simp add: known_request_def)
  obtain m3 m4 m' where r: "ahci_issue_and_wait hb pb 0 bm = (0, m')" "quiet vw bm m3"
    "executed la vw lbas (request_at la bm 0) m3 m4" "quiet vw m4 m'" "vw_phase vw (hba_state m') = Idle" "dma_wf m'"
    by (rule command_run[OF c m2(3) wf bm_def k])
  have "dma_buf m4 = vw_identify vw \<and> vw_disk vw (hba_state m4) = vw_disk vw (hba_state m3)"
    using r(3) unfolding executed_def rq by simp
  then have e: "dma_buf m' = vw_identify vw" "vw_disk vw (hba_state m') = sata_sect vw s"
    using m2(2) r(2,4) by (simp_all add: quiet_def bm_def sata_sect_def)
  let ?s = "s\<lparr>sata_dma := m'\<rparr>"
  have run: "sata_get_num_blocks hb la s = (case identify_total (vw_identify vw) of None \<Rightarrow> (-1, None, ?s) | Some n \<Rightarrow> (0, Some n, ?s))"
    unfolding sata_get_num_blocks_def S(2) Let_def using S(1) by (simp add: m2(1) bm_def[symmetric] r(1) e(1))
  have ok': "sata_ok vw pb ?s" using S r(5,6) e(2) by (simp add: sata_ok_def sata_ready_def sata_sect_def)
  show thesis by (rule that[OF run ok']) (use e(2) in \<open>simp add: sata_sect_def\<close>)
qed

subsection \<open>Reads beyond the capacity\<close>

text \<open>
  What the ATA and AHCI specifications say of a read outside the device's address range: the command
  ends with an error, which the adapter reports as a task file error in PORT_IS, and moves no data; the
  driver then reads and clears PORT_SERR.
\<close>

definition ahci_rejects :: "'h hba \<Rightarrow> layout \<Rightarrow> u64 \<Rightarrow> 'h hba_view \<Rightarrow> nat set \<Rightarrow> bool" where
  "ahci_rejects hb la pb vw lbas \<longleftrightarrow> (\<forall>m.
     (vw_phase vw (hba_state m) = Idle \<longrightarrow>
        (\<exists>v m'. ahci_read32 hb pb PORT_SERR m = (v, m') \<and> quiet vw m m' \<and> vw_phase vw (hba_state m') = Idle) \<and>
        (\<forall>v. quiet vw m (ahci_write32 hb pb PORT_SERR v m) \<and> vw_phase vw (hba_state (ahci_write32 hb pb PORT_SERR v m)) = Idle)) \<and>
     (\<forall>slot rq. vw_phase vw (hba_state m) = Busy slot 0 \<and> rq = request_at la m slot \<and> data_request la UNIV rq \<and> rq_lba rq \<notin> lbas \<and>
        rq_command rq = ATA_CMD_READ_DMA_EX \<and> \<not> rq_write rq \<longrightarrow>
        (let m' = snd (ahci_read32 hb pb PORT_CI m) in vw_error vw (hba_state m') \<and> vw_disk vw (hba_state m') = vw_disk vw (hba_state m))))"

lemma poll_rejected:
  assumes c: "ahci_conforms hb la pb vw lbas" and j: "ahci_rejects hb la pb vw lbas" and s: "slot < 32"
  shows "vw_phase vw (hba_state m) = Busy slot k \<Longrightarrow> k < n \<Longrightarrow> data_request la UNIV (request_at la m slot) \<Longrightarrow>
    rq_lba (request_at la m slot) \<notin> lbas \<Longrightarrow> rq_command (request_at la m slot) = ATA_CMD_READ_DMA_EX \<Longrightarrow> \<not> rq_write (request_at la m slot) \<Longrightarrow>
    \<exists>m'. poll_clear hb pb PORT_CI (push_bit slot 1) n m = (True, m') \<and> vw_phase vw (hba_state m') = Idle \<and>
      vw_error vw (hba_state m') \<and> vw_disk vw (hba_state m') = vw_disk vw (hba_state m) \<and> dma_wf m' = dma_wf m"
proof (induction k arbitrary: m n)
  case 0
  from conforms_busy(2)[OF c 0(1)] obtain v m' where m': "ahci_read32 hb pb PORT_CI m = (v, m')" "v AND push_bit slot 1 = 0"
    "vw_phase vw (hba_state m') = Idle" "executed la vw lbas (request_at la m slot) m m'" by blast
  have "let m' = snd (ahci_read32 hb pb PORT_CI m) in vw_error vw (hba_state m') \<and> vw_disk vw (hba_state m') = vw_disk vw (hba_state m)"
    using j 0 unfolding ahci_rejects_def by blast
  moreover have "dma_wf m' = dma_wf m" using m'(4) by (simp add: executed_def dma_wf_def)
  ultimately show ?case using m' 0(2) by (cases n) (auto simp: Let_def)
next
  case (Suc k)
  from Suc.prems(2) obtain n' where n: "n = Suc n'" "k < n'" by (cases n) auto
  from conforms_busy(1)[OF c Suc.prems(1) s] obtain v m1 where m1: "ahci_read32 hb pb PORT_CI m = (v, m1)" "v AND push_bit slot 1 \<noteq> 0"
    "quiet vw m m1" "vw_phase vw (hba_state m1) = Busy slot k" by blast
  note rq = quiet_request[OF m1(3), of la slot]
  from Suc.IH[OF m1(4) n(2)] Suc.prems(3-6) obtain m' where "poll_clear hb pb PORT_CI (push_bit slot 1) n' m1 = (True, m')"
    "vw_phase vw (hba_state m') = Idle" "vw_error vw (hba_state m')" "vw_disk vw (hba_state m') = vw_disk vw (hba_state m1)" "dma_wf m' = dma_wf m1"
    unfolding rq by blast
  then show ?case using m1 n(1) quiet_wf[OF m1(3)] by (auto simp: quiet_def)
qed

lemma issue_rejected:
  assumes c: "ahci_conforms hb la pb vw lbas" and j: "ahci_rejects hb la pb vw lbas" and i: "vw_phase vw (hba_state m) = Idle" and s: "slot < 32"
    and rq: "data_request la UNIV (request_at la m slot)" "rq_lba (request_at la m slot) \<notin> lbas"
      "rq_command (request_at la m slot) = ATA_CMD_READ_DMA_EX" "\<not> rq_write (request_at la m slot)"
  obtains m' where "ahci_issue_and_wait hb pb slot m = (-1, m')" "vw_disk vw (hba_state m') = vw_disk vw (hba_state m)"
    "vw_phase vw (hba_state m') = Idle" "dma_wf m' = dma_wf m"
proof -
  let ?a = "ahci_write32 hb pb PORT_IS 0xFFFFFFFF m"
  note w = conforms_idle(5-7)[OF c i, of "0xFFFFFFFF"]
  let ?b = "ahci_write32 hb pb PORT_CI (push_bit slot 1) ?a"
  from conforms_idle(8)[OF c w(2) s] obtain n where n: "n < AHCI_CMD_TIMEOUT" "quiet vw ?a ?b"
    "vw_phase vw (hba_state ?b) = Busy slot n" by (auto simp: Let_def)
  have q: "quiet vw m ?b" using w(1) n(2) by (rule quiet_trans)
  note rb = quiet_request[OF q, of la slot]
  from poll_rejected[OF c j s n(3,1)] rq obtain m2 where m2: "poll_clear hb pb PORT_CI (push_bit slot 1) AHCI_CMD_TIMEOUT ?b = (True, m2)"
    "vw_phase vw (hba_state m2) = Idle" "vw_error vw (hba_state m2)" "vw_disk vw (hba_state m2) = vw_disk vw (hba_state ?b)" "dma_wf m2 = dma_wf ?b"
    unfolding rb by blast
  from conforms_idle(4)[OF c m2(2)] m2(3) obtain v m3 where m3: "ahci_read32 hb pb PORT_IS m2 = (v, m3)" "v AND 0x40000000 \<noteq> 0"
    "quiet vw m2 m3" "vw_phase vw (hba_state m3) = Idle" by auto
  let ?m5 = "ahci_write32 hb pb PORT_IS v m3"
  have v: "v \<noteq> 0" using m3(2) by auto
  note w5 = conforms_idle(5,6)[OF c m3(4), of v]
  from conforms_idle(1)[OF c w5(2)] obtain tfd m6 where m6: "ahci_read32 hb pb PORT_TFD ?m5 = (tfd, m6)" "quiet vw ?m5 m6"
    "vw_phase vw (hba_state m6) = Idle" by blast
  obtain se m7 where m7: "ahci_read32 hb pb PORT_SERR m6 = (se, m7)" "quiet vw m6 m7" "vw_phase vw (hba_state m7) = Idle"
    using j m6(3) unfolding ahci_rejects_def by blast
  let ?m8 = "ahci_write32 hb pb PORT_SERR 0xFFFFFFFF m7"
  have m8: "quiet vw m7 ?m8" "vw_phase vw (hba_state ?m8) = Idle" using j m7(3) unfolding ahci_rejects_def by blast+
  have run: "ahci_issue_and_wait hb pb slot m = (-1, ?m8)"
    unfolding ahci_issue_and_wait_def Let_def m2(1) m3(1) case_prod_conv using m3(2) v m6(1) m7(1) by simp
  have q8: "quiet vw m2 ?m8" using m3(3) w5(1) m6(2) m7(2) m8(1) by (meson quiet_trans)
  show thesis
    by (rule that[OF run _ m8(2)]) (use q8 q m2(4,5) quiet_wf[OF q8] quiet_wf[OF q] in \<open>simp_all add: quiet_def\<close>)
qed

lemma sata_read_rejected:
  assumes c: "ahci_conforms hb la pb vw lbas" and j: "ahci_rejects hb la pb vw lbas" and ok: "sata_ok vw pb s"
    and l: "unat lba \<notin> lbas" "unat lba < 2 ^ 48"
  obtains b s' where "sata_read_sector hb la lba buf s = (-1, b, s')" "sata_ok vw pb s'" "sata_sect vw s' = sata_sect vw s"
proof -
  have S: "sata_ready s" "port_address (ahci_base s) (active_port s) = pb" "dma_wf (sata_dma s)"
    "vw_phase vw (hba_state (sata_dma s)) = Idle" "\<forall>l. length (vw_disk vw (hba_state (sata_dma s)) l) = 512"
    using ok by (simp_all add: sata_ok_def)
  let ?m0 = "(sata_dma s)\<lparr>dma_buf := buf\<rparr>"
  have i0: "vw_phase vw (hba_state ?m0) = Idle" using S(4) by simp
  from idle_prologue(1)[OF c i0] obtain m1 where m1: "poll_clear hb pb PORT_TFD 0x88 1000 ?m0 = (True, m1)" "quiet vw ?m0 m1"
    "vw_phase vw (hba_state m1) = Idle" by blast
  from idle_prologue(2)[OF c m1(3)] obtain m2 where m2: "ahci_find_free_slot hb pb m1 = (Some 0, m2)" "quiet vw m1 m2"
    "vw_phase vw (hba_state m2) = Idle" by blast
  have q: "quiet vw ?m0 m2" using m1(2) m2(2) by (rule quiet_trans)
  have wf: "dma_wf m2" using quiet_wf[OF q] S(3) by (simp add: dma_wf_def)
  define bm where "bm = ahci_build_cmd la 0 False 1 (Some (la_buf la)) 512 ATA_CMD_READ_DMA_EX lba 1 m2"
  have rq: "request_at la bm 0 = \<lparr>rq_fis = (0x27, 0x80), rq_command = ATA_CMD_READ_DMA_EX, rq_write = False, rq_lba = unat lba,
      rq_count = 1, rq_prdtl = 1, rq_buf = la_buf la, rq_bytes = 512\<rparr>"
    unfolding bm_def using request_built[OF _ wf, of 0 la False "la_buf la" "0x25" lba 1] take_bit_48[OF l(2)] by simp
  have R: "data_request la UNIV (request_at la bm 0)" "rq_lba (request_at la bm 0) \<notin> lbas"
      "rq_command (request_at la bm 0) = ATA_CMD_READ_DMA_EX" "\<not> rq_write (request_at la bm 0)"
    unfolding rq using l(1) by (simp_all add: data_request_def)
  have ib: "vw_phase vw (hba_state bm) = Idle" "dma_wf bm" using m2(3) wf by (simp_all add: bm_def build_cmd_wf)
  obtain m' where r: "ahci_issue_and_wait hb pb 0 bm = (-1, m')" "vw_disk vw (hba_state m') = vw_disk vw (hba_state bm)"
    "vw_phase vw (hba_state m') = Idle" "dma_wf m' = dma_wf bm"
    by (rule issue_rejected[OF c j ib(1) _ R]) simp_all
  have e: "vw_disk vw (hba_state m') = sata_sect vw s" using r(2) q by (simp add: quiet_def bm_def sata_sect_def)
  let ?s = "s\<lparr>sata_dma := m'\<rparr>"
  have run: "sata_read_sector hb la lba buf s = (-1, dma_buf m', ?s)"
    unfolding sata_read_sector_def S(2) Let_def using S(1) by (simp add: m1(1) m2(1) bm_def[symmetric] r(1))
  have ok': "sata_ok vw pb ?s" using S r(3,4) ib(2) e by (simp add: sata_ok_def sata_ready_def sata_sect_def)
  show thesis by (rule that[OF run ok']) (use e in \<open>simp add: sata_sect_def\<close>)
qed

end
