(* ===== verification/Mass_Storage.thy ===== *)
theory Mass_Storage
  imports Block
begin

text \<open>
  The USB mass-storage class driver \<^verbatim>\<open>drivers/thumbdrive/mass_storage.c\<close>: command and status wrappers
  of the Bulk-Only Transport, READ CAPACITY at start-up, READ(10) and WRITE(10) transfers.  The host
  controller below it is a record of operations over an arbitrary controller state; its search for a
  device may not return.  Local buffers the code leaves uninitialised start as zeros.  The locale
  \<open>bulk_only_target\<close> is what the driver relies on: the outcome of one command, data and status exchange.
\<close>

record cbw =
  cbw_signature :: u32
  cbw_tag :: u32
  cbw_data_transfer_length :: u32
  cbw_flags :: u8
  cbw_lun :: u8
  cbw_cb_length :: u8
  cbw_cb :: bytes

record csw =
  csw_signature :: u32
  csw_tag :: u32
  csw_data_residue :: u32
  csw_status :: u8

definition cbw_bytes :: "cbw \<Rightarrow> bytes" where
  "cbw_bytes p = to_le 4 (cbw_signature p) @ to_le 4 (cbw_tag p) @
     to_le 4 (cbw_data_transfer_length p) @ [cbw_flags p, cbw_lun p, cbw_cb_length p] @ cbw_cb p"

definition csw_of :: "bytes \<Rightarrow> csw" where
  "csw_of b = \<lparr>csw_signature = of_le (buf_get 4 b 0), csw_tag = of_le (buf_get 4 b 4),
     csw_data_residue = of_le (buf_get 4 b 8), csw_status = b ! 12\<rparr>"

record 'u usb_host =
  uh_init :: "'u \<Rightarrow> int \<times> 'u"
  uh_find_mass_storage :: "'u \<Rightarrow> (int \<times> u8 \<times> u8 \<times> u8 \<times> 'u) option"
  uh_bulk_out :: "u8 \<Rightarrow> bytes \<Rightarrow> u32 \<Rightarrow> 'u \<Rightarrow> int \<times> u32 \<times> 'u"
  uh_bulk_in :: "u8 \<Rightarrow> bytes \<Rightarrow> u32 \<Rightarrow> 'u \<Rightarrow> int \<times> bytes \<times> u32 \<times> 'u"

record 'u ms_state =
  g_ep_in :: u8
  g_ep_out :: u8
  g_interface :: u8
  g_num_blocks :: u64
  g_block_size :: u32
  g_present :: bool
  ms_usb :: 'u

definition cbw_packet :: "u32 \<Rightarrow> u8 \<Rightarrow> bytes \<Rightarrow> u8 \<Rightarrow> u32 \<Rightarrow> cbw" where
  "cbw_packet tag flags cdb cdb_len data_len =
     \<lparr>cbw_signature = 0x43425355, cbw_tag = tag, cbw_data_transfer_length = data_len, cbw_flags = flags, cbw_lun = 0,
      cbw_cb_length = cdb_len, cbw_cb = buf_put (replicate 16 0) 0 (buf_get (unat cdb_len) cdb 0)\<rparr>"

definition send_cbw :: "'u usb_host \<Rightarrow> u32 \<Rightarrow> u8 \<Rightarrow> bytes \<Rightarrow> u8 \<Rightarrow> u32 \<Rightarrow> 'u ms_state \<Rightarrow> int \<times> 'u ms_state" where
  "send_cbw uh tag flags cdb cdb_len data_len s =
     (if cdb_len > 16 then (-1, s)
      else case uh_bulk_out uh (g_ep_out s) (cbw_bytes (cbw_packet tag flags cdb cdb_len data_len)) 31 (ms_usb s) of
        (rc, actual, u) \<Rightarrow> (rc, s\<lparr>ms_usb := u\<rparr>))"

definition recv_csw :: "'u usb_host \<Rightarrow> u32 \<Rightarrow> 'u ms_state \<Rightarrow> int \<times> 'u ms_state" where
  "recv_csw uh expected_tag s =
     (case uh_bulk_in uh (g_ep_in s) (replicate 13 0) 13 (ms_usb s) of
        (r, out, actual, u) \<Rightarrow>
          let s' = s\<lparr>ms_usb := u\<rparr>; c = csw_of out in
          if r \<noteq> 0 then (r, s')
          else if actual < 13 then (-1, s')
          else if csw_signature c \<noteq> 0x53425355 then (-1, s')
          else if csw_tag c \<noteq> expected_tag then (-1, s')
          else (0, s'))"

definition be32 :: "u8 \<Rightarrow> u8 \<Rightarrow> u8 \<Rightarrow> u8 \<Rightarrow> u32" where
  "be32 a b c d = push_bit 24 (ucast a) OR push_bit 16 (ucast b) OR push_bit 8 (ucast c) OR ucast d"

definition ms_init :: "'u usb_host \<Rightarrow> 'u ms_state \<Rightarrow> (int \<times> 'u ms_state) option" where
  "ms_init uh s =
     (if g_present s then Some (0, s)
      else case uh_init uh (ms_usb s) of (r0, u0) \<Rightarrow>
      let s0 = s\<lparr>ms_usb := u0\<rparr> in
      if r0 \<noteq> 0 then Some (-1, s0)
      else do {
        (r1, ein, eout, ifn, u1) \<leftarrow> uh_find_mass_storage uh (ms_usb s0);
        Some (if r1 \<noteq> 0 then (-1, s0\<lparr>ms_usb := u1\<rparr>)
        else
          let s1 = s0\<lparr>g_ep_in := ein, g_ep_out := eout, g_interface := ifn, ms_usb := u1\<rparr> in
          case send_cbw uh 1 0x80 (0x25 # replicate 9 0) 10 8 s1 of (r2, s2) \<Rightarrow>
          if r2 \<noteq> 0 then (-1, s2)
          else case uh_bulk_in uh (g_ep_in s2) (replicate 8 0) 8 (ms_usb s2) of (r3, data, actual, u3) \<Rightarrow>
          let s3 = s2\<lparr>ms_usb := u3\<rparr> in
          if r3 \<noteq> 0 then (-1, s3)
          else case recv_csw uh 1 s3 of (r4, s4) \<Rightarrow>
          if r4 \<noteq> 0 then (-1, s4)
          else
            let last_lba = be32 (data ! 0) (data ! 1) (data ! 2) (data ! 3);
                block_len = be32 (data ! 4) (data ! 5) (data ! 6) (data ! 7)
            in (0, s4\<lparr>g_num_blocks := ucast last_lba + 1,
                      g_block_size := (if block_len \<noteq> 0 then block_len else 512),
                      g_present := True\<rparr>))
      })"

definition ms_is_present :: "'u ms_state \<Rightarrow> bool" where
  "ms_is_present s = g_present s"

definition rw_cdb :: "u8 \<Rightarrow> u64 \<Rightarrow> u32 \<Rightarrow> bytes" where
  "rw_cdb opcode lba count =
     [opcode, 0, ucast (drop_bit 24 lba AND 0xFF), ucast (drop_bit 16 lba AND 0xFF),
      ucast (drop_bit 8 lba AND 0xFF), ucast (lba AND 0xFF), 0,
      ucast (drop_bit 8 count AND 0xFF), ucast (count AND 0xFF), 0]"

definition ms_read_blocks :: "'u usb_host \<Rightarrow> u64 \<Rightarrow> u32 \<Rightarrow> bytes \<Rightarrow> 'u ms_state \<Rightarrow> int \<times> bytes \<times> 'u ms_state" where
  "ms_read_blocks uh lba count buf s =
     (if \<not> g_present s then (-1, buf, s)
      else if count = 0 then (0, buf, s)
      else if drop_bit 32 lba \<noteq> 0 then (-1, buf, s)
      else
        let data_len = count * g_block_size s in
        case send_cbw uh 0xA5 0x80 (rw_cdb 0x28 lba count) 10 data_len s of (r1, s1) \<Rightarrow>
        if r1 \<noteq> 0 then (-1, buf, s1)
        else case uh_bulk_in uh (g_ep_in s1) buf data_len (ms_usb s1) of (r2, buf', actual, u2) \<Rightarrow>
        let s2 = s1\<lparr>ms_usb := u2\<rparr> in
        if r2 \<noteq> 0 then (-1, buf', s2)
        else case recv_csw uh 0xA5 s2 of (r3, s3) \<Rightarrow>
        if r3 \<noteq> 0 then (-1, buf', s3) else (0, buf', s3))"

definition ms_write_blocks :: "'u usb_host \<Rightarrow> u64 \<Rightarrow> u32 \<Rightarrow> bytes \<Rightarrow> 'u ms_state \<Rightarrow> int \<times> 'u ms_state" where
  "ms_write_blocks uh lba count buf s =
     (if \<not> g_present s then (-1, s)
      else if count = 0 then (0, s)
      else if drop_bit 32 lba \<noteq> 0 then (-1, s)
      else
        let data_len = count * g_block_size s in
        case send_cbw uh 0xB6 0x00 (rw_cdb 0x2A lba count) 10 data_len s of (r1, s1) \<Rightarrow>
        if r1 \<noteq> 0 then (-1, s1)
        else case uh_bulk_out uh (g_ep_out s1) buf data_len (ms_usb s1) of (r2, actual, u2) \<Rightarrow>
        let s2 = s1\<lparr>ms_usb := u2\<rparr> in
        if r2 \<noteq> 0 then (-1, s2)
        else case recv_csw uh 0xB6 s2 of (r3, s3) \<Rightarrow>
        if r3 \<noteq> 0 then (-1, s3) else (0, s3))"

definition ms_get_num_blocks :: "'u ms_state \<Rightarrow> u64" where
  "ms_get_num_blocks s = g_num_blocks s"

definition ms_get_block_size :: "'u ms_state \<Rightarrow> u32" where
  "ms_get_block_size s = g_block_size s"

subsection \<open>The transport contract\<close>

definition csw_reply :: "u32 \<Rightarrow> bytes \<Rightarrow> u32 \<Rightarrow> bool" where
  "csw_reply tag st actual \<longleftrightarrow> actual = 13 \<and> csw_signature (csw_of st) = 0x53425355 \<and> csw_tag (csw_of st) = tag"

definition read10_ok ::
    "'u usb_host \<Rightarrow> ('u \<Rightarrow> nat \<Rightarrow> bytes) \<Rightarrow> ('u \<Rightarrow> bool) \<Rightarrow> u8 \<Rightarrow> u8 \<Rightarrow> u32 \<Rightarrow> u64 \<Rightarrow> u32 \<Rightarrow> bytes \<Rightarrow> 'u \<Rightarrow> bool" where
  "read10_ok uh sect uok ein eout tag lba n buf u \<longleftrightarrow>
     (case uh_bulk_out uh eout (cbw_bytes (cbw_packet tag 0x80 (rw_cdb 0x28 lba n) 10 (n * 512))) 31 u of (r1, a1, u1) \<Rightarrow>
      case uh_bulk_in uh ein buf (n * 512) u1 of (r2, out, a2, u2) \<Rightarrow>
      case uh_bulk_in uh ein (replicate 13 0) 13 u2 of (r3, st, a3, u3) \<Rightarrow>
        r1 = 0 \<and> r2 = 0 \<and> r3 = 0 \<and> out = concat (map (\<lambda>i. sect u (unat lba + i)) [0..<unat n]) \<and>
        csw_reply tag st a3 \<and> uok u3 \<and> sect u3 = sect u)"

definition write10_ok ::
    "'u usb_host \<Rightarrow> ('u \<Rightarrow> nat \<Rightarrow> bytes) \<Rightarrow> ('u \<Rightarrow> bool) \<Rightarrow> u8 \<Rightarrow> u8 \<Rightarrow> u32 \<Rightarrow> u64 \<Rightarrow> u32 \<Rightarrow> bytes \<Rightarrow> 'u \<Rightarrow> bool" where
  "write10_ok uh sect uok ein eout tag lba n buf u \<longleftrightarrow>
     (case uh_bulk_out uh eout (cbw_bytes (cbw_packet tag 0x00 (rw_cdb 0x2A lba n) 10 (n * 512))) 31 u of (r1, a1, u1) \<Rightarrow>
      case uh_bulk_out uh eout buf (n * 512) u1 of (r2, a2, u2) \<Rightarrow>
      case uh_bulk_in uh ein (replicate 13 0) 13 u2 of (r3, st, a3, u3) \<Rightarrow>
        r1 = 0 \<and> r2 = 0 \<and> r3 = 0 \<and> csw_reply tag st a3 \<and> uok u3 \<and>
        sect u3 = (\<lambda>l. if unat lba \<le> l \<and> l < unat lba + unat n then buf_get 512 buf ((l - unat lba) * 512) else sect u l))"

text \<open>The command block signature at the front of a data packet, which the transport does not allow for.\<close>

definition looks_like_cbw :: "bytes \<Rightarrow> bool" where
  "looks_like_cbw b \<longleftrightarrow> take 4 b = to_le 4 (0x43425355 :: u32)"

definition block_range :: "nat set \<Rightarrow> u64 \<Rightarrow> u32 \<Rightarrow> bool" where
  "block_range lbas lba n \<longleftrightarrow> 0 < n \<and> n < 0x10000 \<and> unat lba + unat n \<le> 2 ^ 31 \<and> {unat lba..<unat lba + unat n} \<subseteq> lbas"

lemma range_lba: "block_range lbas lba n \<Longrightarrow> drop_bit 32 lba = 0 \<and> n \<noteq> 0"
proof -
  assume r: "block_range lbas lba n"
  then have "unat lba < 2 ^ 32" by (simp add: block_range_def)
  then have "unat (drop_bit 32 lba) = 0" by (simp add: drop_bit_eq_div unat_div)
  with r show ?thesis by (auto simp: unat_eq_0 block_range_def)
qed

locale bulk_only_target =
  fixes uh :: "'u usb_host"
    and sect :: "'u \<Rightarrow> nat \<Rightarrow> bytes"
    and uok :: "'u \<Rightarrow> bool"
    and lbas :: "nat set"
  assumes target_sect_len: "uok u \<Longrightarrow> length (sect u l) = 512"
    and read10_law: "uok u \<Longrightarrow> block_range lbas lba n \<Longrightarrow> length buf = unat n * 512 \<Longrightarrow> read10_ok uh sect uok ein eout tag lba n buf u"
    and write10_law: "uok u \<Longrightarrow> block_range lbas lba n \<Longrightarrow> length buf = unat n * 512 \<Longrightarrow> \<not> looks_like_cbw buf \<Longrightarrow>
          write10_ok uh sect uok ein eout tag lba n buf u"
begin

definition ms_ok :: "'u ms_state \<Rightarrow> bool" where
  "ms_ok s \<longleftrightarrow> g_present s \<and> g_block_size s = 512 \<and> uok (ms_usb s)"

lemma ms_read_run:
  assumes "ms_ok s" "block_range lbas lba n" "length buf = unat n * 512"
  obtains s' where "ms_read_blocks uh lba n buf s = (0, concat (map (\<lambda>i. sect (ms_usb s) (unat lba + i)) [0..<unat n]), s')"
    "ms_ok s'" "sect (ms_usb s') = sect (ms_usb s)"
proof -
  let ?p = "cbw_bytes (cbw_packet 0xA5 0x80 (rw_cdb 0x28 lba n) 10 (n * 512))"
  have "read10_ok uh sect uok (g_ep_in s) (g_ep_out s) 0xA5 lba n buf (ms_usb s)"
    using assms by (intro read10_law) (simp_all add: ms_ok_def)
  then obtain a1 u1 out a2 u2 st a3 u3 where r: "uh_bulk_out uh (g_ep_out s) ?p 31 (ms_usb s) = (0, a1, u1)"
    "uh_bulk_in uh (g_ep_in s) buf (n * 512) u1 = (0, out, a2, u2)" "uh_bulk_in uh (g_ep_in s) (replicate 13 0) 13 u2 = (0, st, a3, u3)"
    "out = concat (map (\<lambda>i. sect (ms_usb s) (unat lba + i)) [0..<unat n])" "csw_reply 0xA5 st a3" "uok u3" "sect u3 = sect (ms_usb s)"
    unfolding read10_ok_def by (auto split: prod.splits)
  have "ms_read_blocks uh lba n buf s = (0, out, s\<lparr>ms_usb := u3\<rparr>)"
    using assms(1) range_lba[OF assms(2)] r(1,2,3,5)
    by (simp add: ms_read_blocks_def ms_ok_def send_cbw_def recv_csw_def csw_reply_def Let_def)
  then show thesis using that[of "s\<lparr>ms_usb := u3\<rparr>"] r(4,6,7) assms(1) by (simp add: ms_ok_def)
qed

lemma ms_write_run:
  assumes "ms_ok s" "block_range lbas lba n" "length buf = unat n * 512" "\<not> looks_like_cbw buf"
  obtains s' where "ms_write_blocks uh lba n buf s = (0, s')" "ms_ok s'"
    "sect (ms_usb s') = (\<lambda>l. if unat lba \<le> l \<and> l < unat lba + unat n then buf_get 512 buf ((l - unat lba) * 512) else sect (ms_usb s) l)"
proof -
  let ?p = "cbw_bytes (cbw_packet 0xB6 0x00 (rw_cdb 0x2A lba n) 10 (n * 512))"
  have "write10_ok uh sect uok (g_ep_in s) (g_ep_out s) 0xB6 lba n buf (ms_usb s)"
    using assms by (intro write10_law) (simp_all add: ms_ok_def)
  then obtain a1 u1 a2 u2 st a3 u3 where r: "uh_bulk_out uh (g_ep_out s) ?p 31 (ms_usb s) = (0, a1, u1)"
    "uh_bulk_out uh (g_ep_out s) buf (n * 512) u1 = (0, a2, u2)" "uh_bulk_in uh (g_ep_in s) (replicate 13 0) 13 u2 = (0, st, a3, u3)"
    "csw_reply 0xB6 st a3" "uok u3"
    "sect u3 = (\<lambda>l. if unat lba \<le> l \<and> l < unat lba + unat n then buf_get 512 buf ((l - unat lba) * 512) else sect (ms_usb s) l)"
    unfolding write10_ok_def by (auto split: prod.splits)
  have "ms_write_blocks uh lba n buf s = (0, s\<lparr>ms_usb := u3\<rparr>)"
    using assms(1) range_lba[OF assms(2)] r(1-4)
    by (simp add: ms_write_blocks_def ms_ok_def send_cbw_def recv_csw_def csw_reply_def Let_def)
  then show thesis using that[of "s\<lparr>ms_usb := u3\<rparr>"] r(5,6) assms(1) by (simp add: ms_ok_def)
qed

end

end
