(* ===== verification/Usb_Host.thy ===== *)
theory Usb_Host
  imports Mass_Storage
begin

text \<open>
  The USB host layer \<^verbatim>\<open>drivers/usb/usb_host_xhci.c\<close>: a Bulk-Only Transport target emulated over the block
  layer, with READ CAPACITY, READ(10) and WRITE(10), and the probe for the size of the disk behind it.
  Its file-scope variables are the record \<open>usb_emu\<close>; the two controller start-up calls into the xHCI
  driver are arguments.  The transfer functions take the caller's buffer at the transferred length; a
  shorter one reads as if it ended there.
\<close>

unbundle bit_operations_syntax

record 's usb_emu =
  g_usb_present :: bool
  us_cbw_tag :: u32
  us_cbw_flags :: u8
  us_cbw_cdb :: bytes
  us_cbw_data_len :: u32
  us_cbw_valid :: bool
  us_expect_csw :: bool
  us_csw_buf :: bytes
  us_last_lba :: u64
  us_block_size :: u32
  us_disk :: 's

definition usb_host_init :: "('s \<Rightarrow> int \<times> 's) \<Rightarrow> ('s \<Rightarrow> int \<times> 's) \<Rightarrow> 's usb_emu \<Rightarrow> int \<times> 's usb_emu" where
  "usb_host_init xhci_init_full xhci_init u =
     (case xhci_init_full (us_disk u) of (r1, d1) \<Rightarrow>
        if r1 = 0 then (0, u\<lparr>us_disk := d1, g_usb_present := True\<rparr>)
        else case xhci_init d1 of (r2, d2) \<Rightarrow>
          if r2 = 0 then (0, u\<lparr>us_disk := d2, g_usb_present := True\<rparr>)
          else (0, u\<lparr>us_disk := d2, g_usb_present := False\<rparr>))"

fun probe_grow :: "'s storage \<Rightarrow> nat \<Rightarrow> u64 \<Rightarrow> u64 \<Rightarrow> bytes \<Rightarrow> 's \<Rightarrow> u64 \<times> u64 \<times> bytes \<times> 's" where
  "probe_grow ops 0 probe last_good tmp d = (probe, last_good, tmp, d)"
| "probe_grow ops (Suc n) probe last_good tmp d =
     (case st_sata_read ops probe tmp d of (rc, tmp1, d1) \<Rightarrow>
        if rc = 0 then
          (if push_bit 1 probe = 0 then (0, probe, tmp1, d1)
           else probe_grow ops n (push_bit 1 probe) probe tmp1 d1)
        else (probe, last_good, tmp1, d1))"

definition probe_mid :: "u64 \<Rightarrow> u64 \<Rightarrow> u64" where
  "probe_mid lo hi = lo + (hi - lo + 1) div 2"

partial_function (option) probe_search :: "'s storage \<Rightarrow> u64 \<Rightarrow> u64 \<Rightarrow> bytes \<Rightarrow> 's \<Rightarrow> (u64 \<times> 's) option" where
  "probe_search ops lo hi tmp d =
     (if lo < hi then
        (let mid = probe_mid lo hi in
         case st_sata_read ops mid tmp d of (rc, tmp1, d1) \<Rightarrow>
           if rc = 0 then probe_search ops mid hi tmp1 d1 else probe_search ops lo (mid - 1) tmp1 d1)
      else Some (lo, d))"

definition probe_sata_last_lba :: "'s storage \<Rightarrow> 's \<Rightarrow> (u64 \<times> 's) option" where
  "probe_sata_last_lba ops d =
     (if \<not> st_sata_present ops d then Some (0, d)
      else case probe_grow ops 30 (push_bit 20 1) 0 (replicate 512 0) d of (probe, last_good, tmp, d1) \<Rightarrow>
      if last_good = 0 then
        (case st_sata_read ops 0 tmp d1 of (rc, tmp2, d2) \<Rightarrow> Some (0, d2))
      else probe_search ops last_good (probe - 1) tmp d1)"

definition usb_host_find_mass_storage :: "'s storage \<Rightarrow> 's usb_emu \<Rightarrow> (int \<times> u8 \<times> u8 \<times> u8 \<times> 's usb_emu) option" where
  "usb_host_find_mass_storage ops u =
     (if \<not> st_sata_present ops (us_disk u) then Some (-1, 0, 0, 0, u)
      else if us_last_lba u = 0 then
        do {
          (l, d) \<leftarrow> probe_sata_last_lba ops (us_disk u);
          Some (if l = 0 then -1 else 0, 1, 2, 0, u\<lparr>us_last_lba := l, us_block_size := 512, us_disk := d\<rparr>)
        }
      else Some (0, 1, 2, 0, u))"

definition le32 :: "u8 \<Rightarrow> u8 \<Rightarrow> u8 \<Rightarrow> u8 \<Rightarrow> u32" where
  "le32 a b c d = ucast a OR push_bit 8 (ucast b) OR push_bit 16 (ucast c) OR push_bit 24 (ucast d)"

definition prepare_csw :: "'s usb_emu \<Rightarrow> 's usb_emu" where
  "prepare_csw u =
     (let tag = us_cbw_tag u in
      u\<lparr>us_csw_buf := [0x55, 0x53, 0x42, 0x53, ucast (tag AND 0xFF), ucast (drop_bit 8 tag AND 0xFF),
          ucast (drop_bit 16 tag AND 0xFF), ucast (drop_bit 24 tag AND 0xFF), 0, 0, 0, 0, us_csw_buf u ! 12],
        us_expect_csw := True, us_cbw_valid := False\<rparr>)"

definition cdb_lba :: "bytes \<Rightarrow> u64" where
  "cdb_lba cdb = ucast (be32 (cdb ! 2) (cdb ! 3) (cdb ! 4) (cdb ! 5))"

definition cdb_count :: "bytes \<Rightarrow> u32" where
  "cdb_count cdb = push_bit 8 (ucast (cdb ! 7)) OR ucast (cdb ! 8)"

fun emu_write_loop :: "'s storage \<Rightarrow> u64 \<Rightarrow> u32 \<Rightarrow> bytes \<Rightarrow> nat list \<Rightarrow> 's \<Rightarrow> int \<times> 's" where
  "emu_write_loop ops lba bs src [] d = (0, d)"
| "emu_write_loop ops lba bs src (i # is) d =
     (case block_write_sector ops (lba + of_nat i) (buf_get 512 src (unat (of_nat i * bs))) d of (rc, d1) \<Rightarrow>
        if rc \<noteq> 0 then (-1, d1) else emu_write_loop ops lba bs src is d1)"

fun emu_read_loop :: "'s storage \<Rightarrow> u64 \<Rightarrow> u32 \<Rightarrow> nat list \<Rightarrow> bytes \<Rightarrow> 's \<Rightarrow> int \<times> bytes \<times> 's" where
  "emu_read_loop ops lba bs [] b d = (0, b, d)"
| "emu_read_loop ops lba bs (i # is) b d =
     (case block_read_sector ops (lba + of_nat i) (buf_get 512 b (unat (of_nat i * bs))) d of (rc, sec, d1) \<Rightarrow>
        let b1 = buf_put b (unat (of_nat i * bs)) sec in
        if rc \<noteq> 0 then (-1, b1, d1) else emu_read_loop ops lba bs is b1 d1)"

definition is_cbw :: "bytes \<Rightarrow> u32 \<Rightarrow> bool" where
  "is_cbw b len \<longleftrightarrow> len \<ge> 31 \<and> le32 (b ! 0) (b ! 1) (b ! 2) (b ! 3) = 0x43425355"

definition usb_host_bulk_out :: "'s storage \<Rightarrow> u8 \<Rightarrow> bytes \<Rightarrow> u32 \<Rightarrow> 's usb_emu \<Rightarrow> int \<times> u32 \<times> 's usb_emu" where
  "usb_host_bulk_out ops ep b len u =
     (if is_cbw b len then
        (0, len, u\<lparr>us_cbw_valid := True, us_cbw_tag := le32 (b ! 4) (b ! 5) (b ! 6) (b ! 7),
           us_cbw_data_len := le32 (b ! 8) (b ! 9) (b ! 10) (b ! 11), us_cbw_flags := b ! 12,
           us_cbw_cdb := buf_get 16 b 15, us_expect_csw := False\<rparr>)
      else if us_cbw_valid u \<and> us_cbw_flags u = 0 \<and> us_cbw_cdb u ! 0 = 0x2A then
        (case emu_write_loop ops (cdb_lba (us_cbw_cdb u)) (us_block_size u) b [0..<unat (cdb_count (us_cbw_cdb u))] (us_disk u) of
           (rc, d) \<Rightarrow>
             if rc \<noteq> 0 then (-1, 0, u\<lparr>us_disk := d\<rparr>)
             else (0, len, prepare_csw (u\<lparr>us_disk := d\<rparr>)))
      else (0, 0, u))"

definition capacity_data :: "'s usb_emu \<Rightarrow> bytes" where
  "capacity_data u =
     (let l = ucast (us_last_lba u AND 0xFFFFFFFF) :: u32; bl = us_block_size u in
      [ucast (drop_bit 24 l AND 0xFF), ucast (drop_bit 16 l AND 0xFF), ucast (drop_bit 8 l AND 0xFF), ucast (l AND 0xFF),
       ucast (drop_bit 24 bl AND 0xFF), ucast (drop_bit 16 bl AND 0xFF), ucast (drop_bit 8 bl AND 0xFF), ucast (bl AND 0xFF)])"

definition bulk_in_status :: "bytes \<Rightarrow> u32 \<Rightarrow> 's usb_emu \<Rightarrow> int \<times> bytes \<times> u32 \<times> 's usb_emu" where
  "bulk_in_status b len u =
     (if us_expect_csw u \<and> len \<ge> 13 then (0, buf_put b 0 (take 13 (us_csw_buf u)), 13, u\<lparr>us_expect_csw := False\<rparr>)
      else (0, b, 0, u))"

definition usb_host_bulk_in :: "'s storage \<Rightarrow> u8 \<Rightarrow> bytes \<Rightarrow> u32 \<Rightarrow> 's usb_emu \<Rightarrow> int \<times> bytes \<times> u32 \<times> 's usb_emu" where
  "usb_host_bulk_in ops ep b len u =
     (if us_cbw_valid u \<and> us_cbw_flags u AND 0x80 \<noteq> 0 \<and> us_cbw_cdb u ! 0 = 0x25 then
        (if len < 8 then (-1, b, 0, u) else (0, buf_put b 0 (capacity_data u), 8, prepare_csw u))
      else if us_cbw_valid u \<and> us_cbw_flags u AND 0x80 \<noteq> 0 \<and> us_cbw_cdb u ! 0 = 0x28 then
        (if us_cbw_cdb u ! 2 AND 0x80 \<noteq> 0 then (-1, b, 0, u)
         else
           let cnt = cdb_count (us_cbw_cdb u); to_read = cnt * us_block_size u in
           if len < to_read then (-1, b, 0, u)
           else case emu_read_loop ops (cdb_lba (us_cbw_cdb u)) (us_block_size u) [0..<unat cnt] b (us_disk u) of (rc, b1, d) \<Rightarrow>
             if rc \<noteq> 0 then (-1, b1, 0, u\<lparr>us_disk := d\<rparr>)
             else (0, b1, to_read, prepare_csw (u\<lparr>us_disk := d\<rparr>)))
      else bulk_in_status b len u)"

definition usb_host_is_present :: "'s usb_emu \<Rightarrow> bool" where
  "usb_host_is_present u = g_usb_present u"

definition emulated_host :: "'s storage \<Rightarrow> ('s \<Rightarrow> int \<times> 's) \<Rightarrow> ('s \<Rightarrow> int \<times> 's) \<Rightarrow> 's usb_emu usb_host" where
  "emulated_host ops xhci_init_full xhci_init =
     \<lparr>uh_init = usb_host_init xhci_init_full xhci_init, uh_find_mass_storage = usb_host_find_mass_storage ops,
      uh_bulk_out = usb_host_bulk_out ops, uh_bulk_in = usb_host_bulk_in ops\<rparr>"

end
