(* ===== verification/Usb_Target.thy ===== *)
theory Usb_Target
  imports Usb_Host
begin

text \<open>
  The emulated target keeps the transport contract of the mass-storage driver over any block device
  that satisfies \<open>block_device\<close>, and the probe finds the last readable sector.
\<close>

unbundle bit_operations_syntax

subsection \<open>Byte order\<close>

lemma le32_of_le: "le32 a b c d = of_le [a, b, c, d]"
  by (simp add: le32_def push_bit_or disj_assoc ac_simps)

lemma be32_of_le: "be32 a b c d = of_le [d, c, b, a]"
  by (simp add: be32_def push_bit_or ac_simps)

lemma low_byte: "ucast ((w :: 'a::len word) AND 0xFF) = (ucast w :: u8)"
proof (rule bit_word_eqI)
  fix n assume n: "n < LENGTH(8)"
  have "bit (0xFF :: 'a word) n \<longleftrightarrow> n < LENGTH('a)"
  proof -
    have m: "(0xFF :: 'a word) = mask 8" by (simp add: mask_eq_exp_minus_1)
    show ?thesis unfolding m bit_mask_iff using n by auto
  qed
  then show "bit (ucast (w AND 0xFF) :: u8) n = bit (ucast w :: u8) n"
    using n by (auto simp: bit_unsigned_iff bit_and_iff dest: bit_imp_le_length)
qed

lemma to_le_2: "to_le 2 w = [ucast w, ucast (drop_bit 8 w)]"
  by (simp add: numeral_2_eq_2)

lemma to_le_4: "to_le 4 w = [ucast w, ucast (drop_bit 8 w), ucast (drop_bit 16 w), ucast (drop_bit 24 w)]"
proof -
  have "to_le 4 w = to_le (Suc (Suc (Suc (Suc 0)))) w" by (simp add: numeral_eq_Suc)
  then show ?thesis unfolding to_le.simps by simp
qed

lemma of_le_to_le_ucast: "8 * n \<le> LENGTH('b) \<Longrightarrow> (of_le (to_le n (w :: 'a::len word)) :: 'b::len word) = ucast (take_bit (8 * n) w)"
proof (rule bit_word_eqI)
  fix k assume "8 * n \<le> LENGTH('b)" "k < LENGTH('b)"
  moreover have "k div 8 < n \<longleftrightarrow> k < 8 * n" by auto
  ultimately show "bit (of_le (to_le n w) :: 'b word) k = bit (ucast (take_bit (8 * n) w) :: 'b word) k"
    by (auto simp: bit_of_le bit_nth_to_le bit_take_bit_iff bit_unsigned_iff dest: bit_imp_le_length)
qed

lemma to_le_bytes_8: "[ucast (w AND 0xFF), ucast (drop_bit 8 w AND 0xFF), ucast (drop_bit 16 w AND 0xFF), ucast (drop_bit 24 w AND 0xFF)] = to_le 4 w"
  by (simp add: to_le_4 low_byte)

lemma be32_bytes: "be32 (ucast (drop_bit 24 w AND 0xFF)) (ucast (drop_bit 16 w AND 0xFF)) (ucast (drop_bit 8 w AND 0xFF)) (ucast (w AND 0xFF)) = (w :: u32)"
  unfolding be32_of_le to_le_bytes_8 by simp

lemma low_word: "k < 2 ^ 32 \<Longrightarrow> (ucast ((of_nat k :: u64) AND 0xFFFFFFFF) :: u32) = of_nat k" "k < 2 ^ 32 \<Longrightarrow> ucast (of_nat k :: u32) = (of_nat k :: u64)"
proof -
  have m: "(0xFFFFFFFF :: u64) = mask 32" by (simp add: mask_eq_exp_minus_1)
  show "k < 2 ^ 32 \<Longrightarrow> (ucast ((of_nat k :: u64) AND 0xFFFFFFFF) :: u32) = of_nat k"
    unfolding m take_bit_eq_mask[symmetric] word_unat_eq_iff unsigned_ucast_eq unsigned_take_bit_eq
    by (simp add: unat_of_nat take_bit_nat_eq_self)
  show "k < 2 ^ 32 \<Longrightarrow> ucast (of_nat k :: u32) = (of_nat k :: u64)"
    unfolding word_unat_eq_iff unsigned_ucast_eq by (simp add: unat_of_nat take_bit_nat_eq_self)
qed

lemma rw_cdb_fields:
  assumes "unat lba < 2 ^ 32" "n < 0x10000"
  shows "cdb_lba (rw_cdb op lba n @ rest) = lba" "cdb_count (rw_cdb op lba n @ rest) = n"
proof -
  have "be32 (ucast (drop_bit 24 lba AND 0xFF)) (ucast (drop_bit 16 lba AND 0xFF)) (ucast (drop_bit 8 lba AND 0xFF)) (ucast (lba AND 0xFF)) =
      ucast (take_bit 32 lba)"
    unfolding be32_of_le to_le_bytes_8 using of_le_to_le_ucast[of 4, where 'b = 32, of lba] by simp
  moreover have "take_bit 32 lba = lba"
    using assms(1) by (intro word_unat_eq_iff[THEN iffD2]) (simp add: unsigned_take_bit_eq take_bit_nat_eq_self)
  moreover have "ucast (ucast lba :: u32) = take_bit 32 lba"
    by (rule bit_word_eqI) (auto simp: bit_unsigned_iff bit_take_bit_iff)
  ultimately show "cdb_lba (rw_cdb op lba n @ rest) = lba" by (simp add: cdb_lba_def rw_cdb_def)
  have "push_bit 8 (ucast (ucast (drop_bit 8 n AND 0xFF) :: u8)) OR ucast (ucast (n AND 0xFF) :: u8) = (of_le (to_le 2 n) :: u32)"
    by (simp add: to_le_2 low_byte ac_simps)
  also have "\<dots> = take_bit 16 n" using of_le_to_le_ucast[of 2, where 'b = 32, of n] by simp
  also have "\<dots> = n"
    using assms(2) by (intro word_unat_eq_iff[THEN iffD2]) (simp add: unsigned_take_bit_eq take_bit_nat_eq_self word_less_nat_alt)
  finally show "cdb_count (rw_cdb op lba n @ rest) = n" by (simp add: cdb_count_def rw_cdb_def)
qed

text \<open>What the target stores of a command block wrapper the driver sends.\<close>

definition take_cbw :: "u32 \<Rightarrow> u8 \<Rightarrow> bytes \<Rightarrow> u32 \<Rightarrow> 's usb_emu \<Rightarrow> 's usb_emu" where
  "take_cbw tag flags cdb dlen u = u\<lparr>us_cbw_valid := True, us_cbw_tag := tag, us_cbw_data_len := dlen, us_cbw_flags := flags,
     us_cbw_cdb := cdb @ replicate 6 0, us_expect_csw := False\<rparr>"

lemma bulk_out_cbw:
  assumes "length cdb = 10"
  shows "usb_host_bulk_out ops ep (cbw_bytes (cbw_packet tag flags cdb 10 dlen)) 31 u = (0, 31, take_cbw tag flags cdb dlen u)"
proof -
  let ?b = "cbw_bytes (cbw_packet tag flags cdb 10 dlen)"
  have b: "?b = [0x55, 0x53, 0x42, 0x43] @ to_le 4 tag @ to_le 4 dlen @ [flags, 0, 10] @ cdb @ replicate 6 0"
    using assms by (simp add: cbw_bytes_def cbw_packet_def to_le_4 buf_get_def buf_put_def)
  have sig: "le32 (?b ! 0) (?b ! 1) (?b ! 2) (?b ! 3) = 0x43425355"
    unfolding b le32_of_le by simp
  have tg: "le32 (?b ! 4) (?b ! 5) (?b ! 6) (?b ! 7) = tag" "le32 (?b ! 8) (?b ! 9) (?b ! 10) (?b ! 11) = dlen"
    unfolding b le32_of_le using of_le_to_le[of 4 tag] of_le_to_le[of 4 dlen] by (simp_all add: to_le_4 nth_append)
  have fl: "?b ! 12 = flags" "buf_get 16 ?b 15 = cdb @ replicate 6 0"
    unfolding b using assms by (simp_all add: nth_append buf_get_def)
  show ?thesis unfolding usb_host_bulk_out_def is_cbw_def sig tg fl take_cbw_def by simp
qed

lemma prepare_csw_simps [simp]:
  "us_disk (prepare_csw u) = us_disk u" "us_expect_csw (prepare_csw u)" "\<not> us_cbw_valid (prepare_csw u)"
  "us_last_lba (prepare_csw u) = us_last_lba u" "us_block_size (prepare_csw u) = us_block_size u"
  by (simp_all add: prepare_csw_def Let_def)

lemma bulk_in_csw:
  "\<exists>st. usb_host_bulk_in ops ep (replicate 13 0) 13 (prepare_csw u) = (0, st, 13, (prepare_csw u)\<lparr>us_expect_csw := False\<rparr>) \<and>
     csw_reply (us_cbw_tag u) st 13"
proof -
  let ?st = "[0x55, 0x53, 0x42, 0x53] @ to_le 4 (us_cbw_tag u) @ [0, 0, 0, 0, us_csw_buf u ! 12]"
  have c: "us_csw_buf (prepare_csw u) = ?st" by (simp add: prepare_csw_def Let_def to_le_4 low_byte)
  have "csw_reply (us_cbw_tag u) ?st 13"
    using of_le_to_le[of 4 "us_cbw_tag u"] by (simp add: csw_reply_def csw_of_def buf_get_def to_le_4)
  moreover have "usb_host_bulk_in ops ep (replicate 13 0) 13 (prepare_csw u) = (0, ?st, 13, (prepare_csw u)\<lparr>us_expect_csw := False\<rparr>)"
    by (simp add: usb_host_bulk_in_def bulk_in_status_def c buf_put_def)
  ultimately show ?thesis by blast
qed

subsection \<open>The data phases\<close>

lemma offset_512: "i < 0x10000 \<Longrightarrow> unat (of_nat i * 512 :: u32) = i * 512"
proof -
  assume i: "i < 0x10000"
  have "(of_nat i * 512 :: u32) = of_nat (i * 512)" by simp
  also have "unat \<dots> = i * 512" unfolding unat_of_nat using i by simp
  finally show ?thesis .
qed

lemma lba_plus: "unat (lba :: u64) + n \<le> 2 ^ 63 \<Longrightarrow> i < n \<Longrightarrow> unat (lba + of_nat i) = unat lba + i"
  by (subst unat_add_nowrap) (simp_all add: unat_of_nat)

lemma concat_sectors_snoc: "concat (map f [0..<Suc k]) = concat (map f [0..<k]) @ f k" by simp

lemma length_concat_sectors: "(\<And>i. length (f i) = 512) \<Longrightarrow> length (concat (map f [0..<k])) = k * 512"
  by (induction k) simp_all

lemma put_next_sector:
  assumes "length b = n * 512" "k < n" "length p = k * 512" "length x = 512" "take (k * 512) b = p"
  shows "take (Suc k * 512) (buf_put b (k * 512) x) = p @ x" "length (buf_put b (k * 512) x) = n * 512"
proof -
  have "k * 512 + 512 \<le> n * 512" using assms(2) by simp
  then show "take (Suc k * 512) (buf_put b (k * 512) x) = p @ x" "length (buf_put b (k * 512) x) = n * 512"
    using assms by (simp_all add: buf_put_def)
qed

context block_device
begin

lemma emu_read_run:
  assumes "dev_ok d" "length b = n * 512" "n < 0x10000" "unat lba + n \<le> 2 ^ 63" "{unat lba..<unat lba + n} \<subseteq> lbas" "k \<le> n"
    "take (k * 512) b = concat (map (\<lambda>i. sect d (unat lba + i)) [0..<k])"
  shows "\<exists>d'. emu_read_loop ops lba 512 [k..<n] b d = (0, concat (map (\<lambda>i. sect d (unat lba + i)) [0..<n]), d') \<and> dev_ok d' \<and> sect d' = sect d"
  using assms
proof (induction "n - k" arbitrary: k b d)
  case 0
  then show ?case by simp
next
  case (Suc j)
  then have k: "k < n" "k < 0x10000" by simp_all
  have upt: "[k..<n] = k # [Suc k..<n]" using k by (simp add: upt_conv_Cons)
  have u: "unat (lba + of_nat k) = unat lba + k" by (rule lba_plus[OF Suc.prems(4) k(1)])
  then have mem: "unat (lba + of_nat k) \<in> lbas" using Suc.prems(5) k by auto
  have "length (buf_get 512 b (k * 512)) = 512" using Suc.prems(2) k by simp
  from read_sector[OF Suc.prems(1) this mem] obtain d1 where
    d1: "block_read_sector ops (lba + of_nat k) (buf_get 512 b (k * 512)) d = (0, sect d (unat lba + k), d1)" "dev_ok d1" "sect d1 = sect d"
    unfolding u by metis
  let ?b = "buf_put b (k * 512) (sect d (unat lba + k))"
  have L: "\<And>l. length (sect d l) = 512" using sect_len[OF Suc.prems(1)] .
  note put = put_next_sector[OF Suc.prems(2) k(1) length_concat_sectors L Suc.prems(7), OF L, of "unat lba + k"]
  have "\<exists>d'. emu_read_loop ops lba 512 [Suc k..<n] ?b d1 = (0, concat (map (\<lambda>i. sect d1 (unat lba + i)) [0..<n]), d') \<and> dev_ok d' \<and> sect d' = sect d1"
    by (rule Suc.hyps(1)) (use Suc.hyps(2) Suc.prems k d1 put in \<open>simp_all\<close>)
  then show ?case unfolding upt using d1 offset_512[OF k(2)] by (simp add: Let_def)
qed

lemma emu_write_run:
  assumes "dev_ok d" "length src = n * 512" "n < 0x10000" "unat lba + n \<le> 2 ^ 63" "{unat lba..<unat lba + n} \<subseteq> lbas" "k \<le> n"
  shows "\<exists>d'. emu_write_loop ops lba 512 src [k..<n] d = (0, d') \<and> dev_ok d' \<and>
    sect d' = (\<lambda>l. if unat lba + k \<le> l \<and> l < unat lba + n then buf_get 512 src ((l - unat lba) * 512) else sect d l)"
  using assms
proof (induction "n - k" arbitrary: k d)
  case 0
  then show ?case by (auto simp: fun_eq_iff)
next
  case (Suc j)
  then have k: "k < n" "k < 0x10000" by simp_all
  have upt: "[k..<n] = k # [Suc k..<n]" using k by (simp add: upt_conv_Cons)
  have u: "unat (lba + of_nat k) = unat lba + k" by (rule lba_plus[OF Suc.prems(4) k(1)])
  then have mem: "unat (lba + of_nat k) \<in> lbas" using Suc.prems(5) k by auto
  have "length (buf_get 512 src (k * 512)) = 512" using Suc.prems(2) k by simp
  from write_sector[OF Suc.prems(1) this mem] obtain d1 where
    d1: "block_write_sector ops (lba + of_nat k) (buf_get 512 src (k * 512)) d = (0, d1)" "dev_ok d1"
      "sect d1 = (sect d)(unat lba + k := buf_get 512 src (k * 512))" unfolding u by metis
  have "\<exists>d'. emu_write_loop ops lba 512 src [Suc k..<n] d1 = (0, d') \<and> dev_ok d' \<and>
    sect d' = (\<lambda>l. if unat lba + Suc k \<le> l \<and> l < unat lba + n then buf_get 512 src ((l - unat lba) * 512) else sect d1 l)"
    by (rule Suc.hyps(1)) (use Suc.hyps(2) Suc.prems k d1 in \<open>simp_all\<close>)
  then obtain d' where d': "emu_write_loop ops lba 512 src [Suc k..<n] d1 = (0, d')" "dev_ok d'"
    "sect d' = (\<lambda>l. if unat lba + Suc k \<le> l \<and> l < unat lba + n then buf_get 512 src ((l - unat lba) * 512) else sect d1 l)" by blast
  have "sect d' = (\<lambda>l. if unat lba + k \<le> l \<and> l < unat lba + n then buf_get 512 src ((l - unat lba) * 512) else sect d l)"
    unfolding d'(3) d1(3) using k(1) by (auto simp: fun_eq_iff)
  then show ?case unfolding upt using d1(1) d'(1,2) offset_512[OF k(2)] by simp
qed

end

definition emu_ok :: "('s \<Rightarrow> bool) \<Rightarrow> 's usb_emu \<Rightarrow> bool" where
  "emu_ok dev_ok u \<longleftrightarrow> dev_ok (us_disk u) \<and> us_block_size u = 512"

lemma emu_sect_cong [simp]: "us_disk (take_cbw tag flags cdb dlen u) = us_disk u" "us_block_size (take_cbw tag flags cdb dlen u) = us_block_size u"
  by (simp_all add: take_cbw_def)

lemma bit_31_clear: "unat (lba :: u64) < 2 ^ 31 \<Longrightarrow> (ucast (drop_bit 24 lba AND 0xFF) :: u8) AND 0x80 = 0"
proof -
  assume "unat lba < 2 ^ 31"
  then have "unat (drop_bit 24 lba) < 128" by (simp add: drop_bit_eq_div unat_div)
  then have l: "unat (ucast (drop_bit 24 lba) :: u8) < 128" by (simp add: unsigned_ucast_eq take_bit_nat_eq_self)
  have e: "(0x80 :: u8) = 2 ^ 7" by simp
  have b: "bit (0x80 :: u8) n \<longleftrightarrow> n = 7" for n unfolding e bit_exp_iff by auto
  have "\<not> bit (ucast (drop_bit 24 lba) :: u8) 7" using l bit_iff_odd[of "unat (ucast (drop_bit 24 lba) :: u8)" 7] by (simp add: bit_unsigned_iff)
  then have "(ucast (drop_bit 24 lba) :: u8) AND 0x80 = 0"
    by (intro bit_word_eqI) (simp only: bit_and_iff b, auto)
  then show ?thesis by (simp add: low_byte)
qed

lemma take_four: "4 \<le> length b \<Longrightarrow> take 4 b = [b ! 0, b ! 1, b ! 2, b ! 3]"
proof (rule nth_equalityI)
  fix i assume "4 \<le> length b" "i < length (take 4 b)"
  then have "i < 4" by simp
  then consider "i = 0" | "i = 1" | "i = 2" | "i = 3" by linarith
  then show "take 4 b ! i = [b ! 0, b ! 1, b ! 2, b ! 3] ! i" by cases simp_all
qed simp

lemma data_not_cbw: "length buf = k * 512 \<Longrightarrow> \<not> looks_like_cbw buf \<Longrightarrow> 0 < k \<Longrightarrow> \<not> is_cbw buf len"
proof
  assume l: "length buf = k * 512" "0 < k" and n: "\<not> looks_like_cbw buf" and c: "is_cbw buf len"
  have "4 \<le> length buf" using l by simp
  then have t: "take 4 buf = [buf ! 0, buf ! 1, buf ! 2, buf ! 3]"
    by (rule take_four)
  have "to_le 4 (of_le [buf ! 0, buf ! 1, buf ! 2, buf ! 3] :: u32) = take 4 buf" unfolding t by (rule to_le_of_le) simp_all
  with c n show False by (simp add: is_cbw_def looks_like_cbw_def le32_of_le)
qed

context block_device
begin

lemma emu_read10:
  assumes "emu_ok dev_ok u" "block_range lbas lba n" "length buf = unat n * 512"
  shows "read10_ok (emulated_host ops xf xi) (\<lambda>u. sect (us_disk u)) (emu_ok dev_ok) ein eout tag lba n buf u"
proof -
  have R: "0 < n" "n < 0x10000" "unat lba + unat n \<le> 2 ^ 31" "{unat lba..<unat lba + unat n} \<subseteq> lbas"
    using assms(2) by (simp_all add: block_range_def)
  have n: "0 < unat n" "unat n < 0x10000" using R(1,2) by (simp_all add: word_less_nat_alt)
  have l: "unat lba < 2 ^ 32" "unat lba < 2 ^ 31" using R(3) n(1) by simp_all
  let ?cdb = "rw_cdb 0x28 lba n"
  let ?u1 = "take_cbw tag 0x80 ?cdb (n * 512) u"
  have D: "dev_ok (us_disk u)" "us_block_size u = 512" using assms(1) by (simp_all add: emu_ok_def)
  have "\<exists>d'. emu_read_loop ops lba 512 [0..<unat n] buf (us_disk u) = (0, concat (map (\<lambda>i. sect (us_disk u) (unat lba + i)) [0..<unat n]), d') \<and>
      dev_ok d' \<and> sect d' = sect (us_disk u)"
    by (rule emu_read_run) (use D assms(3) n R(3,4) in auto)
  then obtain d' where d': "emu_read_loop ops lba 512 [0..<unat n] buf (us_disk u) = (0, concat (map (\<lambda>i. sect (us_disk u) (unat lba + i)) [0..<unat n]), d')"
    "dev_ok d'" "sect d' = sect (us_disk u)" by blast
  have o: "usb_host_bulk_out ops eout (cbw_bytes (cbw_packet tag 0x80 ?cdb 10 (n * 512))) 31 u = (0, 31, ?u1)"
    by (rule bulk_out_cbw) (simp add: rw_cdb_def)
  have cd: "us_cbw_cdb ?u1 ! 0 = 0x28" "us_cbw_cdb ?u1 ! 2 = ucast (drop_bit 24 lba AND 0xFF)" "us_cbw_valid ?u1" "us_cbw_flags ?u1 = 0x80" "us_cbw_tag ?u1 = tag"
    by (simp_all add: take_cbw_def rw_cdb_def)
  have cf: "cdb_lba (us_cbw_cdb ?u1) = lba" "cdb_count (us_cbw_cdb ?u1) = n"
    using rw_cdb_fields[OF l(1) R(2)] by (simp_all add: take_cbw_def)
  let ?u2 = "prepare_csw (?u1\<lparr>us_disk := d'\<rparr>)"
  have i: "usb_host_bulk_in ops ein buf (n * 512) ?u1 = (0, concat (map (\<lambda>i. sect (us_disk u) (unat lba + i)) [0..<unat n]), n * 512, ?u2)"
    unfolding usb_host_bulk_in_def Let_def cf cd emu_sect_cong D(2) using cd(3) bit_31_clear[OF l(2)] d'(1) by simp
  have "us_cbw_tag (?u1\<lparr>us_disk := d'\<rparr>) = tag" using cd(5) by simp
  then obtain st where "usb_host_bulk_in ops ein (replicate 13 0) 13 ?u2 = (0, st, 13, ?u2\<lparr>us_expect_csw := False\<rparr>)" "csw_reply tag st 13"
    using bulk_in_csw[of ops ein "?u1\<lparr>us_disk := d'\<rparr>"] by auto
  with o i d' D show ?thesis by (simp add: read10_ok_def emulated_host_def emu_ok_def)
qed

lemma emu_write10:
  assumes "emu_ok dev_ok u" "block_range lbas lba n" "length buf = unat n * 512" "\<not> looks_like_cbw buf"
  shows "write10_ok (emulated_host ops xf xi) (\<lambda>u. sect (us_disk u)) (emu_ok dev_ok) ein eout tag lba n buf u"
proof -
  have R: "0 < n" "n < 0x10000" "unat lba + unat n \<le> 2 ^ 31" "{unat lba..<unat lba + unat n} \<subseteq> lbas"
    using assms(2) by (simp_all add: block_range_def)
  have n: "0 < unat n" "unat n < 0x10000" using R(1,2) by (simp_all add: word_less_nat_alt)
  have l: "unat lba < 2 ^ 32" using R(3) n(1) by simp
  let ?cdb = "rw_cdb 0x2A lba n"
  let ?u1 = "take_cbw tag 0 ?cdb (n * 512) u"
  have D: "dev_ok (us_disk u)" "us_block_size u = 512" using assms(1) by (simp_all add: emu_ok_def)
  have "\<exists>d'. emu_write_loop ops lba 512 buf [0..<unat n] (us_disk u) = (0, d') \<and> dev_ok d' \<and>
      sect d' = (\<lambda>l. if unat lba + 0 \<le> l \<and> l < unat lba + unat n then buf_get 512 buf ((l - unat lba) * 512) else sect (us_disk u) l)"
    by (rule emu_write_run) (use D assms(3) n R(3,4) in auto)
  then obtain d' where d': "emu_write_loop ops lba 512 buf [0..<unat n] (us_disk u) = (0, d')" "dev_ok d'"
      "sect d' = (\<lambda>l. if unat lba \<le> l \<and> l < unat lba + unat n then buf_get 512 buf ((l - unat lba) * 512) else sect (us_disk u) l)" by auto
  have o: "usb_host_bulk_out ops eout (cbw_bytes (cbw_packet tag 0 ?cdb 10 (n * 512))) 31 u = (0, 31, ?u1)"
    by (rule bulk_out_cbw) (simp add: rw_cdb_def)
  have cd: "us_cbw_cdb ?u1 ! 0 = 0x2A" "us_cbw_valid ?u1" "us_cbw_flags ?u1 = 0" "us_cbw_tag ?u1 = tag"
    by (simp_all add: take_cbw_def rw_cdb_def)
  have cf: "cdb_lba (us_cbw_cdb ?u1) = lba" "cdb_count (us_cbw_cdb ?u1) = n"
    using rw_cdb_fields[OF l R(2)] by (simp_all add: take_cbw_def)
  have nc: "\<not> is_cbw buf (n * 512)" using data_not_cbw[OF assms(3,4)] n(1) by simp
  let ?u2 = "prepare_csw (?u1\<lparr>us_disk := d'\<rparr>)"
  have i: "usb_host_bulk_out ops eout buf (n * 512) ?u1 = (0, n * 512, ?u2)"
    unfolding usb_host_bulk_out_def cf cd emu_sect_cong D(2) using cd(2) nc d'(1) by simp
  have "us_cbw_tag (?u1\<lparr>us_disk := d'\<rparr>) = tag" using cd(4) by simp
  then obtain st where "usb_host_bulk_in ops ein (replicate 13 0) 13 ?u2 = (0, st, 13, ?u2\<lparr>us_expect_csw := False\<rparr>)" "csw_reply tag st 13"
    using bulk_in_csw[of ops ein "?u1\<lparr>us_disk := d'\<rparr>"] by auto
  with o i d' D show ?thesis by (simp add: write10_ok_def emulated_host_def emu_ok_def)
qed

end

sublocale block_device \<subseteq> emu: bulk_only_target "emulated_host ops xf xi" "\<lambda>u. sect (us_disk u)" "emu_ok dev_ok" lbas for xf xi
proof
  show "length (sect (us_disk u) l) = 512" if "emu_ok dev_ok u" for u l using that sect_len by (simp add: emu_ok_def)
qed (rule emu_read10 emu_write10; assumption)+

lemma concat_slices: "k * 512 \<le> length b \<Longrightarrow> concat (map (\<lambda>i. buf_get 512 b (i * 512)) [0..<k]) = take (k * 512) b"
proof (induction k)
  case 0
  then show ?case by simp
next
  case (Suc k)
  then show ?case by (simp add: buf_get_def take_add[of "k * 512" 512] add.commute[of 512])
qed

context block_device
begin

lemma emu_target: "bulk_only_target (emulated_host ops xf xi) (\<lambda>u. sect (us_disk u)) (emu_ok dev_ok) lbas"
  by (rule emu.bulk_only_target_axioms)

lemma emu_write_read:
  assumes s: "g_present s" "g_block_size s = 512" "emu_ok dev_ok (ms_usb s)"
    and r: "block_range lbas lba n" and b: "length buf = unat n * 512" "\<not> looks_like_cbw buf" "length out = unat n * 512"
  shows "\<exists>s1 s2. ms_write_blocks (emulated_host ops xf xi) lba n buf s = (0, s1) \<and>
     (\<forall>l. l \<notin> {unat lba..<unat lba + unat n} \<longrightarrow> sect (us_disk (ms_usb s1)) l = sect (us_disk (ms_usb s)) l) \<and>
     ms_read_blocks (emulated_host ops xf xi) lba n out s1 = (0, buf, s2) \<and> sect (us_disk (ms_usb s2)) = sect (us_disk (ms_usb s1))"
proof -
  have ok: "emu.ms_ok s" using s by (simp add: emu.ms_ok_def)
  obtain s1 where s1: "ms_write_blocks (emulated_host ops xf xi) lba n buf s = (0, s1)" "emu.ms_ok s1"
    "sect (us_disk (ms_usb s1)) = (\<lambda>l. if unat lba \<le> l \<and> l < unat lba + unat n then buf_get 512 buf ((l - unat lba) * 512) else sect (us_disk (ms_usb s)) l)"
    by (rule emu.ms_write_run[OF ok r b(1,2), of xf xi])
  obtain s2 where s2: "ms_read_blocks (emulated_host ops xf xi) lba n out s1 = (0, concat (map (\<lambda>i. sect (us_disk (ms_usb s1)) (unat lba + i)) [0..<unat n]), s2)"
    "sect (us_disk (ms_usb s2)) = sect (us_disk (ms_usb s1))"
    by (rule emu.ms_read_run[OF s1(2) r b(3), of xf xi])
  have "concat (map (\<lambda>i. sect (us_disk (ms_usb s1)) (unat lba + i)) [0..<unat n]) = concat (map (\<lambda>i. buf_get 512 buf (i * 512)) [0..<unat n])"
    unfolding s1(3) by (intro arg_cong[where f = concat] map_cong) auto
  also have "\<dots> = buf" using concat_slices[of "unat n" buf] b(1) by simp
  finally show ?thesis using s1(1) s1(3) s2 by (intro exI[of _ s1] exI[of _ s2]) simp
qed

end

subsection \<open>Probing the size of the disk\<close>

text \<open>
  The disk's readable sectors are 0 to \<open>lst\<close>, as far as the 48 address bits of the ATA command reach.  That the
  SATA driver behaves so on an adapter of that capacity is proved in \<open>Sata_Correct\<close>.
\<close>

definition prefix_disk :: "'s storage \<Rightarrow> ('s \<Rightarrow> bool) \<Rightarrow> nat \<Rightarrow> bool" where
  "prefix_disk ops ok lst \<longleftrightarrow> (\<forall>d. ok d \<longrightarrow> st_sata_present ops d) \<and>
     (\<forall>d lba buf. ok d \<and> unat lba < 2 ^ 48 \<longrightarrow>
        (case st_sata_read ops lba buf d of (rc, b, d') \<Rightarrow> ok d' \<and> (rc = 0 \<longleftrightarrow> unat lba \<le> lst)))"

lemma prefix_present: "prefix_disk ops ok lst \<Longrightarrow> ok d \<Longrightarrow> st_sata_present ops d"
  by (simp add: prefix_disk_def)

lemma prefix_read:
  assumes "prefix_disk ops ok lst" "ok d" "unat (lba :: u64) < 2 ^ 48"
  obtains rc b d' where "st_sata_read ops lba buf d = (rc, b, d')" "ok d'" "rc = 0 \<longleftrightarrow> unat lba \<le> lst"
proof -
  obtain rc b d' where r: "st_sata_read ops lba buf d = (rc, b, d')" by (metis prod_cases3)
  have "case st_sata_read ops lba buf d of (rc, b, d') \<Rightarrow> ok d' \<and> (rc = 0 \<longleftrightarrow> unat lba \<le> lst)"
    using assms unfolding prefix_disk_def by (elim conjE allE[of _ d] allE[of _ lba] allE[of _ buf]) simp
  with r show thesis using that by simp
qed

lemma double_power: "unat (p :: u64) = 2 ^ k \<Longrightarrow> k < 63 \<Longrightarrow> unat (push_bit 1 p) = 2 ^ Suc k"
proof -
  assume p: "unat p = 2 ^ k" and k: "k < 63"
  have "(2 :: nat) ^ Suc k < 2 ^ 64" using k by (intro power_strict_increasing) simp_all
  then show ?thesis using p by (simp add: push_bit_eq_mult unat_mult_nowrap mult.commute)
qed

lemma probe_grow_run:
  assumes "prefix_disk ops ok lst" "lst < 2 ^ 47"
  shows "ok d \<Longrightarrow> unat probe = 2 ^ k \<Longrightarrow> k \<le> 47 \<Longrightarrow> \<exists>p g t d'. probe_grow ops n probe lg tmp d = (p, g, t, d') \<and> ok d' \<and>
    ((lst < 2 ^ k \<or> n = 0) \<and> p = probe \<and> g = lg \<or>
     (\<exists>j. k \<le> j \<and> j < k + n \<and> unat p = 2 ^ Suc j \<and> unat g = 2 ^ j \<and> 2 ^ j \<le> lst \<and> (lst < 2 ^ Suc j \<or> Suc j = k + n)))"
proof (induction n arbitrary: k probe lg tmp d)
  case 0
  then show ?case by simp
next
  case (Suc n)
  obtain rc b d1 where r: "st_sata_read ops probe tmp d = (rc, b, d1)" "ok d1" "rc = 0 \<longleftrightarrow> unat probe \<le> lst"
  proof (rule prefix_read[OF assms(1) Suc.prems(1)])
    have "(2 :: nat) ^ k \<le> 2 ^ 47" using Suc.prems(3) by (intro power_increasing) simp_all
    then show "unat probe < 2 ^ 48" using Suc.prems(2) by simp
  qed
  show ?case
  proof (cases "rc = 0")
    case False
    then show ?thesis using r Suc.prems(2) by simp
  next
    case True
    have le: "2 ^ k \<le> lst" using True r(3) Suc.prems(2) by simp
    have k: "Suc k \<le> 47"
    proof (rule ccontr)
      assume "\<not> Suc k \<le> 47"
      then have "(2 :: nat) ^ 47 \<le> 2 ^ k" by (intro power_increasing) simp_all
      with le assms(2) show False by simp
    qed
    have u: "unat (push_bit 1 probe) = 2 ^ Suc k" by (rule double_power[OF Suc.prems(2)]) (use k in simp)
    then have nz: "push_bit 1 probe \<noteq> 0" by (metis power_not_zero unat_eq_0 zero_neq_numeral)
    from Suc.IH[OF r(2) u k, of probe b] obtain p g t d' where
      i: "probe_grow ops n (push_bit 1 probe) probe b d1 = (p, g, t, d')" "ok d'"
      "(lst < 2 ^ Suc k \<or> n = 0) \<and> p = push_bit 1 probe \<and> g = probe \<or>
       (\<exists>j. Suc k \<le> j \<and> j < Suc k + n \<and> unat p = 2 ^ Suc j \<and> unat g = 2 ^ j \<and> 2 ^ j \<le> lst \<and> (lst < 2 ^ Suc j \<or> Suc j = Suc k + n))"
      by auto
    have "\<exists>j. k \<le> j \<and> j < k + Suc n \<and> unat p = 2 ^ Suc j \<and> unat g = 2 ^ j \<and> 2 ^ j \<le> lst \<and> (lst < 2 ^ Suc j \<or> Suc j = k + Suc n)"
      using i(3)
    proof
      assume "(lst < 2 ^ Suc k \<or> n = 0) \<and> p = push_bit 1 probe \<and> g = probe"
      then show ?thesis using u Suc.prems(2) le by (intro exI[of _ k]) auto
    next
      assume "\<exists>j. Suc k \<le> j \<and> j < Suc k + n \<and> unat p = 2 ^ Suc j \<and> unat g = 2 ^ j \<and> 2 ^ j \<le> lst \<and> (lst < 2 ^ Suc j \<or> Suc j = Suc k + n)"
      then obtain j where "Suc k \<le> j" "j < Suc k + n" "unat p = 2 ^ Suc j" "unat g = 2 ^ j" "2 ^ j \<le> lst" "lst < 2 ^ Suc j \<or> Suc j = Suc k + n" by blast
      then show ?thesis by (intro exI[of _ j]) auto
    qed
    then show ?thesis using i(1,2) r(1) True nz by simp
  qed
qed

lemma probe_mid_bounds:
  assumes "lo < hi" "0 < lo"
  shows "unat lo < unat (probe_mid lo hi)" "unat (probe_mid lo hi) \<le> unat hi" "unat (probe_mid lo hi - 1) = unat (probe_mid lo hi) - 1"
proof -
  have lt: "unat lo < unat hi" "0 < unat lo" using assms by (simp_all add: word_less_nat_alt)
  have b: "unat hi < 2 ^ 64" using unsigned_less[of hi] by simp
  have d: "unat (hi - lo) = unat hi - unat lo" using assms(1) by (simp add: unat_sub order.strict_implies_order)
  have d1: "unat (hi - lo + 1) = unat hi - unat lo + 1"
    by (subst unat_add_nowrap) (use d lt b in simp_all)
  have h: "unat ((hi - lo + 1) div 2) = (unat hi - unat lo + 1) div 2" unfolding unat_div d1 by simp
  have m: "unat (probe_mid lo hi) = unat lo + (unat hi - unat lo + 1) div 2"
    unfolding probe_mid_def by (subst unat_add_nowrap) (use h lt b in simp_all)
  show "unat lo < unat (probe_mid lo hi)" "unat (probe_mid lo hi) \<le> unat hi" unfolding m using lt by linarith+
  then have nz: "1 \<le> probe_mid lo hi" using lt by (simp add: word_le_nat_alt)
  show "unat (probe_mid lo hi - 1) = unat (probe_mid lo hi) - 1" using unat_sub[OF nz] by simp
qed

lemma probe_search_run:
  assumes P: "prefix_disk ops ok lst"
  shows "ok d \<Longrightarrow> 0 < lo \<Longrightarrow> unat lo \<le> lst \<Longrightarrow> lst \<le> unat hi \<Longrightarrow> unat hi < 2 ^ 48 \<Longrightarrow>
    \<exists>d'. probe_search ops lo hi tmp d = Some (of_nat lst, d') \<and> ok d'"
proof (induction "unat hi - unat lo" arbitrary: lo hi tmp d rule: less_induct)
  case less
  show ?case
  proof (cases "lo < hi")
    case False
    then have "unat lo = lst" using less.prems(3,4) by (simp add: word_less_nat_alt)
    then show ?thesis using False less.prems(1) by (subst probe_search.simps) auto
  next
    case True
    define mid where "mid = probe_mid lo hi"
    note b = probe_mid_bounds[OF True less.prems(2), folded mid_def]
    obtain rc bb d1 where r: "st_sata_read ops mid tmp d = (rc, bb, d1)" "ok d1" "rc = 0 \<longleftrightarrow> unat mid \<le> lst"
      by (rule prefix_read[OF P less.prems(1), of mid]) (use b(2) less.prems(5) in simp_all)
    have "\<exists>d'. (if rc = 0 then probe_search ops mid hi bb d1 else probe_search ops lo (mid - 1) bb d1) = Some (of_nat lst, d') \<and> ok d'"
    proof (cases "rc = 0")
      case t: True
      have "0 < mid" using b(1) by (simp add: word_less_nat_alt)
      from less.hyps[OF _ r(2) this, of hi] t r(3) b(1,2) less.prems(4,5) show ?thesis using t by auto
    next
      case f: False
      from less.hyps[OF _ r(2) less.prems(2), of "mid - 1"] f r(3) b less.prems(3,5) show ?thesis by auto
    qed
    then show ?thesis using True r(1) by (subst probe_search.simps) (cases "rc = 0"; simp add: Let_def flip: mid_def)
  qed
qed

subsection \<open>A disk of known size\<close>

definition sized_storage :: "nat \<Rightarrow> (nat \<Rightarrow> bytes) storage" where
  "sized_storage lst = ram_storage\<lparr>st_sata_read := (\<lambda>lba buf d. if unat lba \<le> lst then (0, d (unat lba), d) else (-1, buf, d))\<rparr>"

lemma sized_prefix: "prefix_disk (sized_storage lst) ram_ok lst"
  by (auto simp: prefix_disk_def sized_storage_def ram_storage_def)

lemma sized_block_device: "block_device (sized_storage lst) (\<lambda>d. d) ram_ok {..lst}"
  by unfold_locales
     (auto simp: sized_storage_def ram_storage_def ram_ok_def read_ok_def write_ok_def block_read_sector_def block_write_sector_def block_is_present_def)

definition fresh_emu :: "'s \<Rightarrow> 's usb_emu" where
  "fresh_emu d = \<lparr>g_usb_present = False, us_cbw_tag = 0, us_cbw_flags = 0, us_cbw_cdb = replicate 16 0, us_cbw_data_len = 0,
     us_cbw_valid = False, us_expect_csw = False, us_csw_buf = replicate 13 0, us_last_lba = 0, us_block_size = 0, us_disk = d\<rparr>"

definition fresh_ms :: "'u \<Rightarrow> 'u ms_state" where
  "fresh_ms u = \<lparr>g_ep_in = 0, g_ep_out = 0, g_interface = 0, g_num_blocks = 0, g_block_size = 512, g_present = False, ms_usb = u\<rparr>"

lemma probe_small:
  assumes P: "prefix_disk ops ok lst" and ok: "ok d" and l: "lst < 2 ^ 20"
  shows "\<exists>d'. probe_sata_last_lba ops d = Some (0, d') \<and> ok d'"
proof -
  have u: "unat (push_bit 20 1 :: u64) = 2 ^ 20" by simp
  have p: "st_sata_present ops d" by (rule prefix_present[OF P ok])
  have b: "20 \<le> (47 :: nat)" by simp
  have l47: "lst < 2 ^ 47" using l by simp
  from probe_grow_run[OF P l47 ok u b, of 30 0 "replicate 512 0"] obtain p g t d1 where
    r: "probe_grow ops 30 (push_bit 20 1) 0 (replicate 512 0) d = (p, g, t, d1)" "ok d1"
    "g = 0 \<or> (\<exists>j. 20 \<le> j \<and> (2 :: nat) ^ j \<le> lst)" by blast
  have "\<not> (2 :: nat) ^ j \<le> lst" if "20 \<le> j" for j
    using power_increasing[OF that, of "2 :: nat"] l by simp
  then have g: "g = 0" using r(3) by auto
  obtain rc b d2 where "st_sata_read ops 0 t d1 = (rc, b, d2)" "ok d2" by (rule prefix_read[OF P r(2), of 0 t]) simp_all
  then show ?thesis using p r(1) g by (simp add: probe_sata_last_lba_def)
qed

lemma probe_large:
  assumes P: "prefix_disk ops ok lst" and ok: "ok d" and l: "2 ^ 20 \<le> lst" "lst < 2 ^ 47"
  shows "\<exists>d'. probe_sata_last_lba ops d = Some (of_nat lst, d') \<and> ok d'"
proof -
  have u: "unat (push_bit 20 1 :: u64) = 2 ^ 20" by simp
  have p: "st_sata_present ops d" by (rule prefix_present[OF P ok])
  have b: "20 \<le> (47 :: nat)" by simp
  have n0: "\<not> (lst < 2 ^ 20 \<or> (30 :: nat) = 0)" using l(1) by simp
  from probe_grow_run[OF P l(2) ok u b, of 30 0 "replicate 512 0"] n0 obtain p g t d1 j where
    r: "probe_grow ops 30 (push_bit 20 1) 0 (replicate 512 0) d = (p, g, t, d1)" "ok d1"
    and j: "20 \<le> j" "j < 20 + 30" "unat p = 2 ^ Suc j" "unat g = 2 ^ j" "2 ^ j \<le> lst" "lst < 2 ^ Suc j \<or> Suc j = 20 + 30" by blast
  have j47: "Suc j \<le> 47"
  proof (rule ccontr)
    assume "\<not> Suc j \<le> 47"
    then have "(2 :: nat) ^ 47 \<le> 2 ^ j" by (intro power_increasing) simp_all
    with j(5) l(2) show False by simp
  qed
  then have hi: "lst < 2 ^ Suc j" using j(6) by auto
  have "(2 :: nat) ^ Suc j \<le> 2 ^ 47" using j47 by (intro power_increasing) simp_all
  have "0 < unat g" unfolding j(4) by simp
  then have g: "0 < g" "g \<noteq> 0" by (auto simp: word_less_nat_alt)
  have "1 \<le> p" using j(3) by (simp add: word_le_nat_alt)
  then have pm: "unat (p - 1) = 2 ^ Suc j - 1" using unat_sub[of 1 p] j(3) by simp
  then have "lst \<le> unat (p - 1)" "unat (p - 1) < 2 ^ 48" using hi \<open>2 ^ Suc j \<le> 2 ^ 47\<close> by simp_all
  from probe_search_run[OF P r(2) g(1) _ this, of t] j(4,5) obtain d' where "probe_search ops g (p - 1) t d1 = Some (of_nat lst, d')" "ok d'" by auto
  then show ?thesis using p r(1) g(2) by (simp add: probe_sata_last_lba_def)
qed

lemma cdb_count_small: "cdb_count c < 0x10000"
proof -
  have "cdb_count c = of_le [c ! 8, c ! 7]" by (simp add: cdb_count_def ac_simps)
  also have "\<dots> = (take_bit 16 (of_le [c ! 8, c ! 7]) :: u32)"
  proof (rule bit_word_eqI)
    fix k assume "k < LENGTH(32)"
    have "k div 8 < 2 \<longleftrightarrow> k < 16" by auto
    then show "bit (of_le [c ! 8, c ! 7] :: u32) k = bit (take_bit 16 (of_le [c ! 8, c ! 7]) :: u32) k"
      unfolding bit_take_bit_iff bit_of_le by (auto simp del: of_le.simps)
  qed
  finally have "unat (cdb_count c) < 2 ^ 16" by (metis take_bit_nat_less_exp unsigned_take_bit_eq)
  then show ?thesis by (simp add: word_less_nat_alt)
qed

text \<open>A target that owes no status answers a 13-byte read with fewer than 13 bytes.\<close>

lemma short_status:
  assumes "\<not> us_expect_csw u" "us_block_size u = 512" "usb_host_bulk_in ops ep (replicate 13 0) 13 u = (rc, out, a, u')"
  shows "a < 13 \<and> us_disk u' = us_disk u"
proof -
  let ?n = "cdb_count (us_cbw_cdb u)"
  have "unat (?n * 512) = unat ?n * 512"
    by (subst unat_mult_nowrap) (use cdb_count_small[of "us_cbw_cdb u"] in \<open>simp_all add: word_less_nat_alt\<close>)
  then have z: "?n = 0" if "\<not> 13 < ?n * 512"
  proof -
    have "unat ?n = 0" using that \<open>unat (?n * 512) = unat ?n * 512\<close> by (simp add: word_less_nat_alt)
    then show ?thesis by (simp add: unat_eq_0)
  qed
  show ?thesis
    using assms z by (auto simp: usb_host_bulk_in_def bulk_in_status_def Let_def split: if_splits)
qed

subsection \<open>Properties\<close>

text \<open>
  A disk of at most 2\<open>^20\<close> sectors (512 MB) is never offered: the doubling starts at sector 2\<open>^20\<close>,
  the probe reports 0 and the search for a device fails.
\<close>

theorem small_disk_rejected:
  assumes "prefix_disk ops ok lst" "ok (us_disk u)" "lst < 2 ^ 20" "us_last_lba u = 0"
  shows "\<exists>u'. usb_host_find_mass_storage ops u = Some (-1, 1, 2, 0, u')"
proof -
  have "st_sata_present ops (us_disk u)" by (rule prefix_present[OF assms(1,2)])
  then show ?thesis using probe_small[OF assms(1-3)] assms(4) by (auto simp: usb_host_find_mass_storage_def)
qed

theorem small_disk_rejected_witness:
  "\<exists>u'. usb_host_find_mass_storage (sized_storage 1000) (fresh_emu (\<lambda>l. replicate 512 0)) = Some (-1, 1, 2, 0, u')"
  by (rule small_disk_rejected[OF sized_prefix]) (simp_all add: ram_ok_def fresh_emu_def)

text \<open>
  On a disk of up to 2\<open>^32\<close> sectors \<^verbatim>\<open>ms_init\<close> over the emulated target returns 0 and reports exactly
  the number of readable sectors, 512 bytes each, through a READ CAPACITY exchange.
\<close>

theorem ms_init_capacity:
  assumes P: "prefix_disk ops ok lst" and ok: "ok (us_disk u)" and l: "2 ^ 20 \<le> lst" "lst < 2 ^ 32"
    and f: "us_last_lba u = 0" "\<not> g_present s" "ms_usb s = u" and x: "\<And>d. xf d = (0, d)"
  shows "\<exists>s'. ms_init (emulated_host ops xf xi) s = Some (0, s') \<and> ms_is_present s' \<and> ok (us_disk (ms_usb s')) \<and>
     ms_get_num_blocks s' = of_nat lst + 1 \<and> ms_get_block_size s' = 512 \<and> us_block_size (ms_usb s') = 512"
proof -
  obtain d' where p: "probe_sata_last_lba ops (us_disk u) = Some (of_nat lst, d')" "ok d'"
    using probe_large[OF P ok l(1)] l(2) by auto
  let ?l = "of_nat lst :: u64"
  have nz: "?l \<noteq> 0"
  proof
    assume "?l = 0"
    then have "unat ?l = 0" by simp
    then show False using l by (simp add: unat_of_nat)
  qed
  let ?u = "u\<lparr>g_usb_present := True, us_last_lba := ?l, us_block_size := 512, us_disk := d'\<rparr>"
  have pres: "st_sata_present ops (us_disk u)" by (rule prefix_present[OF P ok])
  have fnd: "usb_host_find_mass_storage ops (u\<lparr>g_usb_present := True\<rparr>) = Some (0, 1, 2, 0, ?u)"
    using pres p(1) f(1) nz by (simp add: usb_host_find_mass_storage_def)
  let ?cdb = "0x25 # replicate 9 0 :: bytes"
  let ?u1 = "take_cbw 1 0x80 ?cdb 8 ?u"
  have o: "usb_host_bulk_out ops 2 (cbw_bytes (cbw_packet 1 0x80 ?cdb 10 8)) 31 ?u = (0, 31, ?u1)"
    by (rule bulk_out_cbw) simp
  have i: "usb_host_bulk_in ops 1 (replicate 8 0) 8 ?u1 = (0, capacity_data ?u, 8, prepare_csw ?u1)"
    by (simp add: usb_host_bulk_in_def take_cbw_def capacity_data_def Let_def buf_put_def)
  have "us_cbw_tag ?u1 = 1" by (simp add: take_cbw_def)
  then obtain st where c: "usb_host_bulk_in ops 1 (replicate 13 0) 13 (prepare_csw ?u1) = (0, st, 13, (prepare_csw ?u1)\<lparr>us_expect_csw := False\<rparr>)"
    "csw_reply 1 st 13" using bulk_in_csw[of ops 1 ?u1] by auto
  have cap: "be32 (capacity_data ?u ! 0) (capacity_data ?u ! 1) (capacity_data ?u ! 2) (capacity_data ?u ! 3) = of_nat lst"
      "be32 (capacity_data ?u ! 4) (capacity_data ?u ! 5) (capacity_data ?u ! 6) (capacity_data ?u ! 7) = 512"
    unfolding capacity_data_def Let_def using be32_bytes[of "of_nat lst"] be32_bytes[of 512] low_word(1)[OF l(2)] by simp_all
  show ?thesis
    using low_word(2)[OF l(2)] f(2,3) x fnd o i c cap
    by (simp add: ms_init_def emulated_host_def usb_host_init_def send_cbw_def recv_csw_def csw_reply_def Let_def ms_is_present_def
        ms_get_num_blocks_def ms_get_block_size_def p(2))
qed


theorem ms_init_capacity_witness:
  "\<exists>s'. ms_init (emulated_host (sized_storage 3000000) (\<lambda>d. (0, d)) (\<lambda>d. (-1, d))) (fresh_ms (fresh_emu (\<lambda>l. replicate 512 0))) = Some (0, s') \<and>
     ms_get_num_blocks s' = 3000001"
  using ms_init_capacity[OF sized_prefix, of "fresh_emu (\<lambda>l. replicate 512 0)" 3000000 "fresh_ms (fresh_emu (\<lambda>l. replicate 512 0))" "\<lambda>d. (0, d)" "\<lambda>d. (-1, d)"]
  by (auto simp: ram_ok_def fresh_emu_def fresh_ms_def)

text \<open>
  C31 (roundtrip).  What \<^verbatim>\<open>ms_write_blocks\<close> writes through the emulated target, \<^verbatim>\<open>ms_read_blocks\<close> reads back, for any
  run of up to 65535 blocks below LBA 2\<open>^31\<close>, and no other sector of the disk changes; the data must not start
  with the command block signature.
\<close>

theorem ms_write_read_blocks:
  assumes bd: "block_device ops sect dev_ok lbas" and s: "g_present s" "g_block_size s = 512" "emu_ok dev_ok (ms_usb s)"
    and r: "block_range lbas lba n" and b: "length buf = unat n * 512" "\<not> looks_like_cbw buf" "length out = unat n * 512"
  shows "\<exists>s1 s2. ms_write_blocks (emulated_host ops xf xi) lba n buf s = (0, s1) \<and>
     (\<forall>l. l \<notin> {unat lba..<unat lba + unat n} \<longrightarrow> sect (us_disk (ms_usb s1)) l = sect (us_disk (ms_usb s)) l) \<and>
     ms_read_blocks (emulated_host ops xf xi) lba n out s1 = (0, buf, s2) \<and> sect (us_disk (ms_usb s2)) = sect (us_disk (ms_usb s1))"
  by (rule block_device.emu_write_read[OF assms])

definition sample_ms :: "(nat \<Rightarrow> bytes) usb_emu ms_state" where
  "sample_ms = (fresh_ms ((fresh_emu (\<lambda>l. replicate 512 0))\<lparr>us_block_size := 512\<rparr>))\<lparr>g_present := True\<rparr>"

lemma sample_range: "block_range UNIV 5 1"
  by (simp add: block_range_def)

lemma sample_data: "\<not> looks_like_cbw (replicate 512 7)"
proof -
  have "take 4 (replicate 512 7 :: bytes) = [7, 7, 7, 7]" by (simp add: numeral_eq_Suc)
  then show ?thesis by (simp add: looks_like_cbw_def to_le_4)
qed

theorem ms_write_read_blocks_witness:
  "\<exists>s1 s2. ms_write_blocks (emulated_host ram_storage (\<lambda>d. (0, d)) (\<lambda>d. (0, d))) 5 1 (replicate 512 7) sample_ms = (0, s1) \<and>
     ms_read_blocks (emulated_host ram_storage (\<lambda>d. (0, d)) (\<lambda>d. (0, d))) 5 1 (replicate 512 0) s1 = (0, replicate 512 7, s2)"
  using ms_write_read_blocks[OF ram_block_device, of sample_ms 5 1 "replicate 512 7" "replicate 512 0" "\<lambda>d. (0, d)" "\<lambda>d. (0, d)"]
  using sample_range sample_data by (auto simp: sample_ms_def fresh_ms_def fresh_emu_def emu_ok_def ram_ok_def)

text \<open>
  A block whose data begins with the bytes of the command block signature cannot be written: the
  target takes the data phase for a new command, \<^verbatim>\<open>ms_write_blocks\<close> returns -1 and the disk is unchanged.
\<close>

theorem ms_write_signature_lost:
  assumes s: "g_present s" "g_block_size s = 512" "us_block_size (ms_usb s) = 512" and r: "block_range lbas lba n"
    and b: "length buf = unat n * 512" "looks_like_cbw buf"
  shows "\<exists>s'. ms_write_blocks (emulated_host ops xf xi) lba n buf s = (-1, s') \<and> us_disk (ms_usb s') = us_disk (ms_usb s)"
proof -
  let ?u1 = "take_cbw 0xB6 0 (rw_cdb 0x2A lba n) (n * 512) (ms_usb s)"
  have n: "0 < unat n" "unat n < 0x10000" "drop_bit 32 lba = 0" "n \<noteq> 0"
    using r range_lba[OF r] by (auto simp: block_range_def word_less_nat_alt)
  have "unat (n * 512) = unat n * 512" by (subst unat_mult_nowrap) (use n(2) in simp_all)
  then have dl: "31 \<le> n * 512" using n(1) by (simp add: word_le_nat_alt)
  have o: "usb_host_bulk_out ops ep (cbw_bytes (cbw_packet 0xB6 0 (rw_cdb 0x2A lba n) 10 (n * 512))) 31 (ms_usb s) = (0, 31, ?u1)" for ep
    by (rule bulk_out_cbw) (simp add: rw_cdb_def)
  have "4 \<le> length buf" using b(1) n(1) by simp
  then have "is_cbw buf (n * 512)"
    using dl b(2) of_le_to_le[of 4 "0x43425355 :: u32"] take_four[of buf] by (simp add: is_cbw_def le32_of_le looks_like_cbw_def)
  then obtain u2 where u2: "\<And>ep. usb_host_bulk_out ops ep buf (n * 512) ?u1 = (0, n * 512, u2)" "us_disk u2 = us_disk (ms_usb s)"
    "\<not> us_expect_csw u2" "us_block_size u2 = 512"
    using s(3) by (simp add: usb_host_bulk_out_def)
  obtain rc out a u3 where u3: "usb_host_bulk_in ops (g_ep_in s) (replicate 13 0) 13 u2 = (rc, out, a, u3)" by (metis prod_cases4)
  from short_status[OF u2(3,4) u3] have a: "a < 13" "us_disk u3 = us_disk u2" by simp_all
  have "ms_write_blocks (emulated_host ops xf xi) lba n buf s = (-1, s\<lparr>ms_usb := u3\<rparr>)"
    using s n(3,4) o u2(1) u3 a(1) by (simp add: ms_write_blocks_def emulated_host_def send_cbw_def recv_csw_def Let_def)
  then show ?thesis using a(2) u2(2) by simp
qed

theorem ms_write_signature_lost_witness:
  "\<exists>s'. ms_write_blocks (emulated_host ram_storage (\<lambda>d. (0, d)) (\<lambda>d. (0, d))) 5 1 (to_le 4 (0x43425355 :: u32) @ replicate 508 7) sample_ms = (-1, s') \<and>
     us_disk (ms_usb s') = us_disk (ms_usb sample_ms)"
  by (rule ms_write_signature_lost[OF _ _ _ sample_range])
     (simp_all add: sample_ms_def fresh_ms_def fresh_emu_def looks_like_cbw_def)

text \<open>
  Without a SATA disk the mass-storage driver never comes up, so the block layer has no device: its
  fall-back to USB is only reachable when SATA, which it prefers, is present.
\<close>

theorem ms_init_needs_sata:
  assumes "\<not> g_present s" "\<And>d. xf d = (0, d)" "\<not> st_sata_present ops (us_disk (ms_usb s))"
  shows "\<exists>s'. ms_init (emulated_host ops xf xi) s = Some (-1, s') \<and> \<not> ms_is_present s' \<and> us_disk (ms_usb s') = us_disk (ms_usb s)"
  using assms by (simp add: ms_init_def emulated_host_def usb_host_init_def usb_host_find_mass_storage_def Let_def ms_is_present_def)

theorem ms_init_needs_sata_witness:
  "\<exists>s'. ms_init (emulated_host (ram_storage\<lparr>st_sata_present := (\<lambda>d. False)\<rparr>) (\<lambda>d. (0, d)) (\<lambda>d. (0, d))) (fresh_ms (fresh_emu (\<lambda>l. replicate 512 0))) = Some (-1, s') \<and>
     \<not> ms_is_present s'"
  using ms_init_needs_sata[of "fresh_ms (fresh_emu (\<lambda>l. replicate 512 0))" "\<lambda>d. (0, d)" "ram_storage\<lparr>st_sata_present := (\<lambda>d. False)\<rparr>" "\<lambda>d. (0, d)"]
  by (auto simp: fresh_ms_def fresh_emu_def)

end
