(* ===== verification/Sata_Correct.thy ===== *)
theory Sata_Correct
  imports Sata Usb_Target
begin

text \<open>
  A reference host bus adapter, the properties of the SATA driver, and port selection by \<^verbatim>\<open>sata_init\<close>.
\<close>

unbundle bit_operations_syntax

subsection \<open>A reference adapter\<close>

text \<open>
  One implemented port with a disk; every command completes after \<open>rh_latency\<close> polls.  The adapter reads
  its commands from the shared memory, as the driver leaves them there.
\<close>

record ref_hba =
  rh_disk :: "nat \<Rightarrow> bytes"
  rh_busy :: "(nat \<times> nat) option"
  rh_error :: bool

definition ref_execute :: "bytes \<Rightarrow> ata_request \<Rightarrow> ref_hba dma \<Rightarrow> ref_hba dma" where
  "ref_execute ident rq m =
     (let h = hba_state m in
      if rq_command rq = ATA_CMD_READ_DMA_EX then m\<lparr>dma_buf := rh_disk h (rq_lba rq)\<rparr>
      else if rq_command rq = ATA_CMD_WRITE_DMA_EX then m\<lparr>hba_state := h\<lparr>rh_disk := (rh_disk h)(rq_lba rq := dma_buf m)\<rparr>\<rparr>
      else if rq_command rq = ATA_CMD_IDENTIFY then m\<lparr>dma_buf := ident\<rparr>
      else m)"

definition ref_read :: "layout \<Rightarrow> u64 \<Rightarrow> bytes \<Rightarrow> u64 \<Rightarrow> ref_hba dma \<Rightarrow> u32 \<times> ref_hba dma" where
  "ref_read la pb ident a m =
     (let h = hba_state m in
      if a = pb + 0x38 then
        (case rh_busy h of
           None \<Rightarrow> (0, m)
         | Some (slot, Suc k) \<Rightarrow> (push_bit slot 1, m\<lparr>hba_state := h\<lparr>rh_busy := Some (slot, k)\<rparr>\<rparr>)
         | Some (slot, 0) \<Rightarrow>
             let m' = ref_execute ident (request_at la m slot) m in (0, m'\<lparr>hba_state := (hba_state m')\<lparr>rh_busy := None\<rparr>\<rparr>))
      else if a = pb + 0x10 then (if rh_error h then 0x40000000 else 0, m)
      else if a = pb + 0x28 then (3, m)
      else if a = pb - 0x100 + 0x0C then (1, m)
      else (0, m))"

definition ref_write :: "u64 \<Rightarrow> nat \<Rightarrow> u64 \<Rightarrow> u32 \<Rightarrow> ref_hba dma \<Rightarrow> ref_hba dma" where
  "ref_write pb latency a v m =
     (let h = hba_state m in
      if a = pb + 0x38 then m\<lparr>hba_state := h\<lparr>rh_busy := Some (length (takeWhile (\<lambda>i. \<not> bit v i) [0..<32]), latency)\<rparr>\<rparr>
      else if a = pb + 0x10 then m\<lparr>hba_state := h\<lparr>rh_error := (rh_error h \<and> v AND 0x40000000 = 0)\<rparr>\<rparr>
      else m)"

definition ref_adapter :: "layout \<Rightarrow> u64 \<Rightarrow> bytes \<Rightarrow> nat \<Rightarrow> ref_hba hba" where
  "ref_adapter la pb ident latency = \<lparr>mmio_read = ref_read la pb ident, mmio_write = ref_write pb latency\<rparr>"

definition ref_view :: "bytes \<Rightarrow> ref_hba hba_view" where
  "ref_view ident = \<lparr>vw_phase = (\<lambda>h. case rh_busy h of None \<Rightarrow> Idle | Some (slot, k) \<Rightarrow> Busy slot k),
     vw_error = rh_error, vw_disk = rh_disk, vw_identify = ident\<rparr>"

lemma lowest_bit: "slot < 32 \<Longrightarrow> length (takeWhile (\<lambda>i. \<not> bit (push_bit slot 1 :: u32) i) [0..<32]) = slot"
proof -
  assume s: "slot < 32"
  have b: "bit (push_bit slot 1 :: u32) i \<longleftrightarrow> i = slot" if "i < 32" for i
    using that s by (auto simp: bit_exp_iff)
  have "[0..<32] = [0..<slot] @ slot # [Suc slot..<32]" using s by (metis less_imp_add_positive upt_add_eq_append upt_conv_Cons le0 add_0 less_imp_le)
  then show ?thesis using b s by (simp add: takeWhile_append)
qed

lemma ref_conforms:
  assumes "latency < 10000"
  shows "ahci_conforms (ref_adapter la pb ident latency) la pb (ref_view ident) lbas"
proof -
  note D = ref_adapter_def ahci_read32_def ahci_write32_def ref_read_def ref_write_def ref_view_def quiet_def Let_def
  have "ahci_read32 (ref_adapter la pb ident latency) pb PORT_TFD m = (0, m)" "ahci_read32 (ref_adapter la pb ident latency) pb PORT_SACT m = (0, m)"
    "ahci_read32 (ref_adapter la pb ident latency) pb PORT_IS m = (if rh_error (hba_state m) then 0x40000000 else 0, m)" for m
    by (simp_all add: D)
  note R = this
  have ci: "ahci_read32 (ref_adapter la pb ident latency) pb PORT_CI m = (case rh_busy (hba_state m) of
           None \<Rightarrow> (0, m)
         | Some (slot, Suc k) \<Rightarrow> (push_bit slot 1, m\<lparr>hba_state := (hba_state m)\<lparr>rh_busy := Some (slot, k)\<rparr>\<rparr>)
         | Some (slot, 0) \<Rightarrow> let m' = ref_execute ident (request_at la m slot) m in (0, m'\<lparr>hba_state := (hba_state m')\<lparr>rh_busy := None\<rparr>\<rparr>))" for m
    by (simp add: D)
  have wi: "ahci_write32 (ref_adapter la pb ident latency) pb PORT_IS v m =
      m\<lparr>hba_state := (hba_state m)\<lparr>rh_error := (rh_error (hba_state m) \<and> v AND 0x40000000 = 0)\<rparr>\<rparr>" for v m
    by (simp add: D)
  have wc: "ahci_write32 (ref_adapter la pb ident latency) pb PORT_CI (push_bit slot 1) m = m\<lparr>hba_state := (hba_state m)\<lparr>rh_busy := Some (slot, latency)\<rparr>\<rparr>"
    if "slot < 32" for slot m using lowest_bit[OF that] by (simp add: D)
  have ph: "vw_phase (ref_view ident) h = Idle \<longleftrightarrow> rh_busy h = None" "vw_phase (ref_view ident) h = Busy slot k \<longleftrightarrow> rh_busy h = Some (slot, k)" for h slot k
    by (auto simp: ref_view_def split: option.splits prod.splits)
  have vw: "vw_error (ref_view ident) = rh_error" "vw_disk (ref_view ident) = rh_disk" "vw_identify (ref_view ident) = ident" by (simp_all add: ref_view_def)
  have b: "(push_bit slot 1 :: u32) AND push_bit slot 1 \<noteq> 0" if "slot < 32" for slot
    using that by (simp add: and.idem)
  show ?thesis
    unfolding ahci_conforms_def ph vw quiet_def R ci
    using assms b by (auto simp: wi wc[simplified] Let_def ref_execute_def executed_def vw)
qed









subsection \<open>The block layer on the driver\<close>

text \<open>The storage operations \<^verbatim>\<open>block.c\<close> dispatches to, over the state of the two drivers.\<close>

record ('h, 'u) machine =
  ma_sata :: "'h sata"
  ma_ms :: "'u ms_state"

definition machine_storage :: "'h hba \<Rightarrow> layout \<Rightarrow> 'u usb_host \<Rightarrow> ('h, 'u) machine storage" where
  "machine_storage hb la uh =
     \<lparr>st_sata_present = (\<lambda>s. sata_is_present (ma_sata s)),
      st_sata_read = (\<lambda>lba buf s. case sata_read_sector hb la lba buf (ma_sata s) of (rc, b, t) \<Rightarrow> (rc, b, s\<lparr>ma_sata := t\<rparr>)),
      st_sata_write = (\<lambda>lba buf s. case sata_write_sector hb la lba buf (ma_sata s) of (rc, t) \<Rightarrow> (rc, s\<lparr>ma_sata := t\<rparr>)),
      st_sata_flush = (\<lambda>s. case sata_flush_cache hb la (ma_sata s) of (rc, t) \<Rightarrow> (rc, s\<lparr>ma_sata := t\<rparr>)),
      st_ms_present = (\<lambda>s. ms_is_present (ma_ms s)),
      st_ms_read = (\<lambda>lba n buf s. case ms_read_blocks uh lba n buf (ma_ms s) of (rc, b, t) \<Rightarrow> (rc, b, s\<lparr>ma_ms := t\<rparr>)),
      st_ms_write = (\<lambda>lba n buf s. case ms_write_blocks uh lba n buf (ma_ms s) of (rc, t) \<Rightarrow> (rc, s\<lparr>ma_ms := t\<rparr>))\<rparr>"

lemma sata_backends:
  assumes c: "ahci_conforms hb la pb vw lbas" and l: "lbas \<subseteq> {..<2 ^ 48}"
  shows "storage_backends (machine_storage hb la uh) (\<lambda>s. sata_sect vw (ma_sata s)) (\<lambda>s. sata_ok vw pb (ma_sata s)) lbas"
proof
  fix s :: "('a, 'b) machine" and lba and buf :: bytes
  assume ok: "sata_ok vw pb (ma_sata s)" and len: "length buf = 512"
  show "read_ok (\<lambda>s. sata_sect vw (ma_sata s)) (\<lambda>s. sata_ok vw pb (ma_sata s)) lbas s lba (st_sata_read (machine_storage hb la uh) lba buf s)"
    unfolding read_ok_def
  proof
    assume m: "unat lba \<in> lbas"
    then have "unat lba < 2 ^ 48" using l by auto
    then obtain s' where "sata_read_sector hb la lba buf (ma_sata s) = (0, sata_sect vw (ma_sata s) (unat lba), s')" "sata_ok vw pb s'"
      "sata_sect vw s' = sata_sect vw (ma_sata s)" by (rule sata_read_run[OF c ok m])
    then show "case st_sata_read (machine_storage hb la uh) lba buf s of (rc, buf', s') \<Rightarrow> rc = 0 \<and> sata_ok vw pb (ma_sata s') \<and>
        sata_sect vw (ma_sata s') = sata_sect vw (ma_sata s) \<and> buf' = sata_sect vw (ma_sata s) (unat lba)"
      by (simp add: machine_storage_def)
  qed
  show "write_ok (\<lambda>s. sata_sect vw (ma_sata s)) (\<lambda>s. sata_ok vw pb (ma_sata s)) lbas s lba buf (st_sata_write (machine_storage hb la uh) lba buf s)"
    unfolding write_ok_def
  proof
    assume m: "unat lba \<in> lbas"
    then have "unat lba < 2 ^ 48" using l by auto
    then obtain s' where "sata_write_sector hb la lba buf (ma_sata s) = (0, s')" "sata_ok vw pb s'"
      "sata_sect vw s' = (sata_sect vw (ma_sata s))(unat lba := buf)" by (rule sata_write_run[OF c ok m _ len])
    then show "case st_sata_write (machine_storage hb la uh) lba buf s of (rc, s') \<Rightarrow> rc = 0 \<and> sata_ok vw pb (ma_sata s') \<and>
        sata_sect vw (ma_sata s') = (sata_sect vw (ma_sata s))(unat lba := buf)"
      by (simp add: machine_storage_def)
  qed
next
  fix s s' :: "('a, 'b) machine" and rc
  assume ok: "sata_ok vw pb (ma_sata s)" and f: "st_sata_flush (machine_storage hb la uh) s = (rc, s')"
  obtain t where "sata_flush_cache hb la (ma_sata s) = (0, t)" "sata_ok vw pb t" "sata_sect vw t = sata_sect vw (ma_sata s)"
    by (rule sata_flush_run[OF c ok])
  then show "sata_ok vw pb (ma_sata s') \<and> sata_sect vw (ma_sata s') = sata_sect vw (ma_sata s)"
    using f by (auto simp: machine_storage_def)
qed (simp_all add: sata_ok_def sata_sect_def machine_storage_def sata_is_present_def sata_ready_def)

definition ref_layout :: layout where
  "ref_layout = \<lparr>la_cmd_list = 0x100000, la_fis = 0x101000, la_cmd_table = 0x102000, la_buf = 0x110000\<rparr>"

abbreviation "ref_identify \<equiv> replicate 512 (0 :: u8)"

text \<open>The driver on the reference adapter, with 20 polls per command, is a block device.\<close>

lemma ref_conforms_48: "ahci_conforms (ref_adapter ref_layout 0xFEB00100 ref_identify 20) ref_layout 0xFEB00100 (ref_view ref_identify) {..<2 ^ 48}"
  by (rule ref_conforms) simp

interpretation ahci: storage_backends "machine_storage (ref_adapter ref_layout 0xFEB00100 ref_identify 20) ref_layout uh"
  "\<lambda>s. sata_sect (ref_view ref_identify) (ma_sata s)" "\<lambda>s. sata_ok (ref_view ref_identify) 0xFEB00100 (ma_sata s)" "{..<2 ^ 48}" for uh
  by (rule sata_backends[OF ref_conforms_48]) simp

subsection \<open>IDENTIFY data\<close>

lemma of_le_append: "(of_le (xs @ ys) :: 'a::len word) = of_le xs OR push_bit (8 * length xs) (of_le ys)"
  by (induction xs) (simp_all add: push_bit_or ac_simps)

lemma ucast_of_le: "8 * length bs \<le> LENGTH('a) \<Longrightarrow> (ucast (of_le bs :: 'a::len word) :: 'b::len word) = of_le bs"
proof (rule bit_word_eqI)
  fix k assume l: "8 * length bs \<le> LENGTH('a)" and k: "k < LENGTH('b)"
  have "k div 8 < length bs \<longleftrightarrow> k < 8 * length bs" by auto
  then have "k div 8 < length bs \<Longrightarrow> k < LENGTH('a)" using l by linarith
  then show "bit (ucast (of_le bs :: 'a word) :: 'b word) k = bit (of_le bs :: 'b word) k"
    using k by (auto simp: bit_unsigned_iff bit_of_le)
qed

lemma identify_word_ucast:
  assumes "i < 256" "length b = 512"
  shows "(ucast (identify_word b i) :: 'x::len word) = of_le (buf_get 2 b (2 * i))"
  unfolding identify_word_def by (rule ucast_of_le) (use assms in simp)

lemma identify_words:
  assumes "length b = 512"
  shows "(push_bit 48 (ucast (identify_word b 103)) OR push_bit 32 (ucast (identify_word b 102)) OR
     push_bit 16 (ucast (identify_word b 101)) OR (ucast (identify_word b 100)) :: u64) = of_le (buf_get 8 b 200)"
    "(push_bit 16 (ucast (identify_word b 61)) OR (ucast (identify_word b 60)) :: u32) = of_le (buf_get 4 b 120)"
proof -
  have l: "length (buf_get 2 b (2 * i)) = 2" if "i < 256" for i using that assms by simp
  have s: "buf_get (n + 2) b p = buf_get 2 b p @ buf_get n b (p + 2)" for n p
    using take_add[of 2 n "drop p b"] by (simp add: buf_get_def add.commute)
  have e8: "buf_get 8 b 200 = buf_get 2 b 200 @ buf_get 2 b 202 @ buf_get 2 b 204 @ buf_get 2 b 206"
    using s[of 6 200] s[of 4 202] s[of 2 204] by simp
  have e4: "buf_get 4 b 120 = buf_get 2 b 120 @ buf_get 2 b 122" using s[of 2 120] by simp
  show "(push_bit 48 (ucast (identify_word b 103)) OR push_bit 32 (ucast (identify_word b 102)) OR
     push_bit 16 (ucast (identify_word b 101)) OR (ucast (identify_word b 100)) :: u64) = of_le (buf_get 8 b 200)"
    unfolding e8 of_le_append using assms
    by (simp add: identify_word_ucast push_bit_or ac_simps)
  show "(push_bit 16 (ucast (identify_word b 61)) OR (ucast (identify_word b 60)) :: u32) = of_le (buf_get 4 b 120)"
    unfolding e4 of_le_append using assms by (simp add: identify_word_ucast ac_simps)
qed

lemma identify_total_words:
  assumes "length b = 512"
  shows "identify_total b = (let n48 = of_le (buf_get 8 b 200) :: u64; n28 = of_le (buf_get 4 b 120) :: u64 in
      if n48 \<noteq> 0 then Some (n48 + 1) else if n28 \<noteq> 0 then Some n28 else None)"
  unfolding identify_total_def Let_def identify_words[OF assms] using assms by (simp add: ucast_of_le)

subsection \<open>Properties\<close>

text \<open>
  C10 (refinement).  On a conforming AHCI adapter the SATA driver behind the block layer implements an array of sectors:
  a write of 512 bytes below LBA 2\<open>^48\<close> succeeds, a later read returns the bytes written to that sector, and
  every other sector reads as before the write.
\<close>

theorem sata_write_then_read:
  assumes c: "ahci_conforms hb la pb vw lbas" and l: "lbas \<subseteq> {..<2 ^ 48}" and ok: "sata_ok vw pb (ma_sata s)"
    and b: "length buf = 512" "length out = 512" and m: "unat lba \<in> lbas" "unat lba' \<in> lbas"
  shows "\<exists>s1 s2. block_write_sector (machine_storage hb la uh) lba buf s = (0, s1) \<and>
     block_read_sector (machine_storage hb la uh) lba' out s1 = (0, if lba' = lba then buf else sata_sect vw (ma_sata s) (unat lba'), s2) \<and>
     sata_ok vw pb (ma_sata s2)"
proof -
  have B: "block_device (machine_storage hb la uh) (\<lambda>s. sata_sect vw (ma_sata s)) (\<lambda>s. sata_ok vw pb (ma_sata s)) lbas"
    by (rule storage_backends.backends_block_device[OF sata_backends[OF c l]])
  obtain s1 where s1: "block_write_sector (machine_storage hb la uh) lba buf s = (0, s1)" "sata_ok vw pb (ma_sata s1)"
    "sata_sect vw (ma_sata s1) = (sata_sect vw (ma_sata s))(unat lba := buf)"
    by (rule block_device.write_sector[OF B ok b(1) m(1)])
  obtain s2 where s2: "block_read_sector (machine_storage hb la uh) lba' out s1 = (0, sata_sect vw (ma_sata s1) (unat lba'), s2)" "sata_ok vw pb (ma_sata s2)"
    by (rule block_device.read_sector[OF B s1(2) b(2) m(2)])
  have "sata_sect vw (ma_sata s1) (unat lba') = (if lba' = lba then buf else sata_sect vw (ma_sata s) (unat lba'))"
    using s1(3) by (simp add: word_unat_eq_iff)
  with s1(1) s2 show ?thesis by auto
qed

definition ref_sata :: "ref_hba sata" where
  "ref_sata = \<lparr>sata_controller = undefined, sata_controller_found = True, ahci_base = 0xFEB00000, ahci_initialized = True, active_port = 0,
     sata_dma = \<lparr>cmd_list_mem = replicate 1024 0, cmd_table_mem = replicate 8192 0, dma_buf = [],
       hba_state = \<lparr>rh_disk = (\<lambda>l. replicate 512 0), rh_busy = None, rh_error = False\<rparr>\<rparr>\<rparr>"

lemma ref_sata_ok: "sata_ok (ref_view ref_identify) 0xFEB00100 ref_sata"
  by (simp add: sata_ok_def ref_sata_def sata_ready_def port_address_def dma_wf_def ref_view_def)

theorem sata_write_then_read_witness:
  "\<exists>s1 s2. block_write_sector (machine_storage (ref_adapter ref_layout 0xFEB00100 ref_identify 20) ref_layout (emulated_host ram_storage (Pair 0) (Pair 0)))
       9 (replicate 512 1) \<lparr>ma_sata = ref_sata, ma_ms = sample_ms\<rparr> = (0, s1) \<and>
     block_read_sector (machine_storage (ref_adapter ref_layout 0xFEB00100 ref_identify 20) ref_layout (emulated_host ram_storage (Pair 0) (Pair 0)))
       9 (replicate 512 0) s1 = (0, replicate 512 1, s2)"
  using sata_write_then_read[OF ref_conforms_48, of "\<lparr>ma_sata = ref_sata, ma_ms = sample_ms\<rparr>" "replicate 512 1" "replicate 512 0" 9 9 "emulated_host ram_storage (Pair 0) (Pair 0)"]
    ref_sata_ok by auto




text \<open>
  For each of the 32 command slots, the header, FIS and descriptor that \<^verbatim>\<open>ahci_build_cmd\<close> stores decode,
  at the byte offsets of the AHCI specification, to the command, direction, sector count, buffer and
  the low 48 bits of the sector address it was given.
\<close>

theorem ahci_build_cmd_decodes:
  assumes "slot < 32" "dma_wf m"
  shows "request_at la (ahci_build_cmd la slot wr 1 (Some b) 512 cmd lba count m) slot =
    \<lparr>rq_fis = (0x27, 0x80), rq_command = cmd, rq_write = wr, rq_lba = unat (take_bit 48 lba), rq_count = count, rq_prdtl = 1,
     rq_buf = b, rq_bytes = 512\<rparr>"
  by (rule request_built[OF assms])

theorem ahci_build_cmd_decodes_witness:
  "rq_lba (request_at ref_layout (ahci_build_cmd ref_layout 7 True 1 (Some 0x110000) 512 0x35 0x123456789A 1 (sata_dma ref_sata)) 7) = 0x123456789A"
proof -
  have "dma_wf (sata_dma ref_sata)" by (simp add: dma_wf_def ref_sata_def)
  from ahci_build_cmd_decodes[OF _ this, of 7] show ?thesis by (simp add: take_bit_eq_mod)
qed

text \<open>
  On a conforming adapter \<^verbatim>\<open>sata_get_num_blocks\<close> reports the 64-bit value in words 100 to 103 of the
  IDENTIFY data plus one, or the 32-bit value of words 60 and 61 when that is zero, and fails only
  when both are zero.
\<close>

theorem sata_get_num_blocks_capacity:
  assumes c: "ahci_conforms hb la pb vw lbas" and ok: "sata_ok vw pb s" and l: "length (vw_identify vw) = 512"
  shows "\<exists>s'. sata_get_num_blocks hb la s =
     (let n48 = of_le (buf_get 8 (vw_identify vw) 200) :: u64; n28 = of_le (buf_get 4 (vw_identify vw) 120) :: u64 in
      if n48 \<noteq> 0 then (0, Some (n48 + 1), s') else if n28 \<noteq> 0 then (0, Some n28, s') else (-1, None, s')) \<and>
     sata_ok vw pb s' \<and> sata_sect vw s' = sata_sect vw s"
proof -
  obtain s' where "sata_get_num_blocks hb la s = (case identify_total (vw_identify vw) of None \<Rightarrow> (-1, None, s') | Some n \<Rightarrow> (0, Some n, s'))"
    "sata_ok vw pb s'" "sata_sect vw s' = sata_sect vw s" by (rule sata_identify_run[OF c ok])
  then show ?thesis using identify_total_words[OF l] by (auto simp: Let_def)
qed

lemma of_le_all_zero: "of_le (replicate n 0) = 0"
  by (induction n) simp_all

theorem sata_get_num_blocks_capacity_witness:
  "\<exists>s'. sata_get_num_blocks (ref_adapter ref_layout 0xFEB00100 (replicate 200 0 @ 99 # replicate 311 0) 20) ref_layout ref_sata = (0, Some 100, s')"
proof -
  let ?i = "replicate 200 0 @ 99 # replicate 311 0 :: bytes"
  have ok: "sata_ok (ref_view ?i) 0xFEB00100 ref_sata"
    by (simp add: sata_ok_def ref_sata_def sata_ready_def port_address_def dma_wf_def ref_view_def)
  have "buf_get 8 ?i 200 = 99 # replicate 7 0" by (simp add: buf_get_def)
  then have "of_le (buf_get 8 ?i 200) = (99 :: u64)" by (simp add: of_le_all_zero)
  moreover have "vw_identify (ref_view ?i) = ?i" by (simp add: ref_view_def)
  moreover have "ahci_conforms (ref_adapter ref_layout 0xFEB00100 ?i 20) ref_layout 0xFEB00100 (ref_view ?i) UNIV" by (rule ref_conforms) simp
  ultimately show ?thesis using sata_get_num_blocks_capacity[OF _ ok] by (fastforce simp: Let_def)
qed

text \<open>
  A command that never completes is reported as a success: when the issue bit stays set for all 10000
  polls and no task file error shows, \<^verbatim>\<open>ahci_issue_and_wait\<close> returns 0 although its comment promises -1.
\<close>

theorem ahci_timeout_returns_success:
  assumes "\<And>m. fst (ahci_read32 hb pb PORT_CI m) AND push_bit slot 1 \<noteq> 0" "\<And>m. fst (ahci_read32 hb pb PORT_IS m) AND 0x40000000 = 0"
  shows "\<not> fst (poll_clear hb pb PORT_CI (push_bit slot 1) AHCI_CMD_TIMEOUT m1) \<and> fst (ahci_issue_and_wait hb pb slot m) = 0"
proof
  have "\<not> fst (poll_clear hb pb PORT_CI (push_bit slot 1) n m1)" for n m1
  proof (induction n arbitrary: m1)
    case (Suc n)
    then show ?case using assms(1)[of m1] by (cases "ahci_read32 hb pb PORT_CI m1") auto
  qed simp
  then show "\<not> fst (poll_clear hb pb PORT_CI (push_bit slot 1) AHCI_CMD_TIMEOUT m1)" .
  let ?m2 = "ahci_write32 hb pb PORT_CI (push_bit slot 1) (ahci_write32 hb pb PORT_IS 0xFFFFFFFF m)"
  obtain fin m3 where p: "poll_clear hb pb PORT_CI (push_bit slot 1) AHCI_CMD_TIMEOUT ?m2 = (fin, m3)" by fastforce
  obtain v m4 where r: "ahci_read32 hb pb PORT_IS m3 = (v, m4)" by fastforce
  then have "v AND 0x40000000 = 0" using assms(2)[of m3] by simp
  then show "fst (ahci_issue_and_wait hb pb slot m) = 0" unfolding ahci_issue_and_wait_def Let_def p case_prod_conv r by simp
qed

theorem ahci_timeout_returns_success_witness:
  "fst (ahci_issue_and_wait \<lparr>mmio_read = (\<lambda>a m. (if a = 0x138 then 1 else 0, m)), mmio_write = (\<lambda>a v m. m)\<rparr> 0x100 0 (sata_dma ref_sata)) = 0"
  by (rule conjunct2[OF ahci_timeout_returns_success]) (simp_all add: ahci_read32_def)

end
