(* ===== verification/Fat32_Model.thy ===== *)
theory Fat32_Model
  imports Block
begin

text \<open>
  The FAT32 file system \<^verbatim>\<open>fs/fat32/fat32.c\<close>, every function of it, over an arbitrary block device.
  The file-scope variables of the C file are the record \<open>fat\<close>.  An outer \<open>option\<close> is \<open>None\<close> where the
  C code has undefined behaviour (a buffer overrun, a division by zero) or does not return (a cluster
  chain with a cycle); the integer in a result is the C return value.  Console output is not modelled.
\<close>

unbundle bit_operations_syntax

record fat32_boot_sector =
  bs_jmp :: bytes
  bs_oem :: bytes
  bs_bytes_per_sector :: u16
  bs_sectors_per_cluster :: u8
  bs_reserved_sectors :: u16
  bs_num_fats :: u8
  bs_root_entries :: u16
  bs_total_sectors_16 :: u16
  bs_media_type :: u8
  bs_fat_size_16 :: u16
  bs_sectors_per_track :: u16
  bs_num_heads :: u16
  bs_hidden_sectors :: u32
  bs_total_sectors_32 :: u32
  bs_fat_size_32 :: u32
  bs_ext_flags :: u16
  bs_fs_version :: u16
  bs_root_cluster :: u32
  bs_fs_info :: u16
  bs_backup_boot :: u16
  bs_reserved :: bytes
  bs_drive_number :: u8
  bs_reserved1 :: u8
  bs_boot_signature :: u8
  bs_volume_id :: u32
  bs_volume_label :: bytes
  bs_fs_type :: bytes

record fat32_dir_entry =
  de_name :: bytes
  de_attr :: u8
  de_nt_reserved :: u8
  de_create_time_tenth :: u8
  de_create_time :: u16
  de_create_date :: u16
  de_last_access_date :: u16
  de_first_cluster_hi :: u16
  de_write_time :: u16
  de_write_date :: u16
  de_first_cluster_lo :: u16
  de_file_size :: u32

abbreviation ATTR_VOLUME_ID :: u8 where "ATTR_VOLUME_ID \<equiv> 0x08"
abbreviation ATTR_DIRECTORY :: u8 where "ATTR_DIRECTORY \<equiv> 0x10"
abbreviation ATTR_ARCHIVE :: u8 where "ATTR_ARCHIVE \<equiv> 0x20"
abbreviation FAT32_EOC :: u32 where "FAT32_EOC \<equiv> 0x0FFFFFF8"
abbreviation FAT32_FREE :: u32 where "FAT32_FREE \<equiv> 0"
abbreviation FREE_UNKNOWN :: u32 where "FREE_UNKNOWN \<equiv> 0xFFFFFFFF"

record fat32_fs =
  fat_begin_lba :: u32
  cluster_begin_lba :: u32
  sectors_per_cluster :: u32
  root_dir_cluster :: u32
  fat_size :: u32
  num_fats :: u32
  total_clusters :: u32
  initialized :: bool

record 's fat =
  disk :: 's
  g_fs :: fat32_fs
  g_partition_offset :: u64
  g_free_clusters :: u32
  sector_buffer :: bytes

definition boot_bytes :: "fat32_boot_sector \<Rightarrow> bytes" where
  "boot_bytes b =
     bs_jmp b @ bs_oem b @ to_le 2 (bs_bytes_per_sector b) @ [bs_sectors_per_cluster b] @
     to_le 2 (bs_reserved_sectors b) @ [bs_num_fats b] @ to_le 2 (bs_root_entries b) @
     to_le 2 (bs_total_sectors_16 b) @ [bs_media_type b] @ to_le 2 (bs_fat_size_16 b) @
     to_le 2 (bs_sectors_per_track b) @ to_le 2 (bs_num_heads b) @ to_le 4 (bs_hidden_sectors b) @
     to_le 4 (bs_total_sectors_32 b) @ to_le 4 (bs_fat_size_32 b) @ to_le 2 (bs_ext_flags b) @
     to_le 2 (bs_fs_version b) @ to_le 4 (bs_root_cluster b) @ to_le 2 (bs_fs_info b) @
     to_le 2 (bs_backup_boot b) @ bs_reserved b @ [bs_drive_number b, bs_reserved1 b, bs_boot_signature b] @
     to_le 4 (bs_volume_id b) @ bs_volume_label b @ bs_fs_type b"

definition boot_of :: "bytes \<Rightarrow> fat32_boot_sector" where
  "boot_of s =
     \<lparr>bs_jmp = buf_get 3 s 0, bs_oem = buf_get 8 s 3,
      bs_bytes_per_sector = of_le (buf_get 2 s 11), bs_sectors_per_cluster = s ! 13,
      bs_reserved_sectors = of_le (buf_get 2 s 14), bs_num_fats = s ! 16,
      bs_root_entries = of_le (buf_get 2 s 17), bs_total_sectors_16 = of_le (buf_get 2 s 19),
      bs_media_type = s ! 21, bs_fat_size_16 = of_le (buf_get 2 s 22),
      bs_sectors_per_track = of_le (buf_get 2 s 24), bs_num_heads = of_le (buf_get 2 s 26),
      bs_hidden_sectors = of_le (buf_get 4 s 28), bs_total_sectors_32 = of_le (buf_get 4 s 32),
      bs_fat_size_32 = of_le (buf_get 4 s 36), bs_ext_flags = of_le (buf_get 2 s 40),
      bs_fs_version = of_le (buf_get 2 s 42), bs_root_cluster = of_le (buf_get 4 s 44),
      bs_fs_info = of_le (buf_get 2 s 48), bs_backup_boot = of_le (buf_get 2 s 50),
      bs_reserved = buf_get 12 s 52, bs_drive_number = s ! 64, bs_reserved1 = s ! 65,
      bs_boot_signature = s ! 66, bs_volume_id = of_le (buf_get 4 s 67),
      bs_volume_label = buf_get 11 s 71, bs_fs_type = buf_get 8 s 82\<rparr>"

definition dir_entry_bytes :: "fat32_dir_entry \<Rightarrow> bytes" where
  "dir_entry_bytes e =
     de_name e @ [de_attr e, de_nt_reserved e, de_create_time_tenth e] @
     to_le 2 (de_create_time e) @ to_le 2 (de_create_date e) @ to_le 2 (de_last_access_date e) @
     to_le 2 (de_first_cluster_hi e) @ to_le 2 (de_write_time e) @ to_le 2 (de_write_date e) @
     to_le 2 (de_first_cluster_lo e) @ to_le 4 (de_file_size e)"

definition dir_entry_of :: "bytes \<Rightarrow> fat32_dir_entry" where
  "dir_entry_of b =
     \<lparr>de_name = buf_get 11 b 0, de_attr = b ! 11, de_nt_reserved = b ! 12,
      de_create_time_tenth = b ! 13, de_create_time = of_le (buf_get 2 b 14),
      de_create_date = of_le (buf_get 2 b 16), de_last_access_date = of_le (buf_get 2 b 18),
      de_first_cluster_hi = of_le (buf_get 2 b 20), de_write_time = of_le (buf_get 2 b 22),
      de_write_date = of_le (buf_get 2 b 24), de_first_cluster_lo = of_le (buf_get 2 b 26),
      de_file_size = of_le (buf_get 4 b 28)\<rparr>"

definition entry_at :: "bytes \<Rightarrow> nat \<Rightarrow> fat32_dir_entry" where
  "entry_at buf i = dir_entry_of (buf_get 32 buf (32 * i))"

definition set_entry :: "bytes \<Rightarrow> nat \<Rightarrow> fat32_dir_entry \<Rightarrow> bytes" where
  "set_entry buf i e = buf_put buf (32 * i) (dir_entry_bytes e)"

definition first_cluster_of :: "fat32_dir_entry \<Rightarrow> u32" where
  "first_cluster_of e = push_bit 16 (ucast (de_first_cluster_hi e)) OR ucast (de_first_cluster_lo e)"

definition name0 :: "fat32_dir_entry \<Rightarrow> u8" where
  "name0 e = de_name e ! 0"

definition fat32_set_partition_offset :: "u64 \<Rightarrow> 's fat \<Rightarrow> 's fat" where
  "fat32_set_partition_offset off s = s\<lparr>g_partition_offset := off\<rparr>"

definition fat_upper :: "u8 \<Rightarrow> u8" where
  "fat_upper c = (if 0x61 \<le> c \<and> c \<le> 0x7A then c - 32 else c)"

function name_loop :: "bytes \<Rightarrow> (u8 \<Rightarrow> bool) \<Rightarrow> nat \<Rightarrow> nat \<Rightarrow> nat \<Rightarrow> bytes \<Rightarrow> nat \<times> bytes" where
  "name_loop name stop lim i j fat_name =
     (if cchar name i \<noteq> 0 \<and> \<not> stop (cchar name i) \<and> j < lim
      then name_loop name stop lim (Suc i) (Suc j) (fat_name[j := fat_upper (cchar name i)])
      else (i, fat_name))"
  by pat_completeness auto
termination
  by (relation "measure (\<lambda>(name, stop, lim, i, j, f). lim - j)") auto

declare name_loop.simps [simp del]

definition name_to_fat :: "bytes \<Rightarrow> bytes" where
  "name_to_fat name =
     (let (i, fat_name) = name_loop name (\<lambda>c. c = 0x2E) 8 0 0 (replicate 11 0x20) in
      if cchar name i = 0x2E then snd (name_loop name (\<lambda>c. False) 11 (Suc i) 8 fat_name)
      else fat_name)"

definition fat32_cluster_to_lba :: "'s fat \<Rightarrow> u32 \<Rightarrow> u32" where
  "fat32_cluster_to_lba s cluster =
     cluster_begin_lba (g_fs s) + (cluster - 2) * sectors_per_cluster (g_fs s)"

fun read_cluster_loop :: "'s storage \<Rightarrow> u32 \<Rightarrow> nat list \<Rightarrow> bytes \<Rightarrow> 's fat \<Rightarrow> (int \<times> bytes \<times> 's fat) option" where
  "read_cluster_loop ops lba [] buf s = Some (0, buf, s)"
| "read_cluster_loop ops lba (i # is) buf s =
     (if i * 512 + 512 \<le> length buf then
        case block_read_sector ops (g_partition_offset s + ucast lba + of_nat i)
               (buf_get 512 buf (i * 512)) (disk s) of
          (rc, sec, d) \<Rightarrow>
            if rc \<noteq> 0 then Some (-1, buf_put buf (i * 512) sec, s\<lparr>disk := d\<rparr>)
            else read_cluster_loop ops lba is (buf_put buf (i * 512) sec) (s\<lparr>disk := d\<rparr>)
      else None)"

definition fat32_read_cluster :: "'s storage \<Rightarrow> u32 \<Rightarrow> bytes \<Rightarrow> 's fat \<Rightarrow> (int \<times> bytes \<times> 's fat) option" where
  "fat32_read_cluster ops cluster buf s =
     read_cluster_loop ops (fat32_cluster_to_lba s cluster)
       [0..<unat (sectors_per_cluster (g_fs s))] buf s"

fun write_cluster_loop :: "'s storage \<Rightarrow> u32 \<Rightarrow> nat list \<Rightarrow> bytes \<Rightarrow> 's fat \<Rightarrow> (int \<times> 's fat) option" where
  "write_cluster_loop ops lba [] buf s = Some (0, s)"
| "write_cluster_loop ops lba (i # is) buf s =
     (if i * 512 + 512 \<le> length buf then
        case block_write_sector ops (g_partition_offset s + ucast lba + of_nat i)
               (buf_get 512 buf (i * 512)) (disk s) of
          (rc, d) \<Rightarrow>
            if rc \<noteq> 0 then Some (-1, s\<lparr>disk := d\<rparr>)
            else write_cluster_loop ops lba is buf (s\<lparr>disk := d\<rparr>)
      else None)"

definition fat32_write_cluster :: "'s storage \<Rightarrow> u32 \<Rightarrow> bytes \<Rightarrow> 's fat \<Rightarrow> (int \<times> 's fat) option" where
  "fat32_write_cluster ops cluster buf s =
     write_cluster_loop ops (fat32_cluster_to_lba s cluster)
       [0..<unat (sectors_per_cluster (g_fs s))] buf s"

definition fat32_get_next_cluster :: "'s storage \<Rightarrow> u32 \<Rightarrow> 's fat \<Rightarrow> u32 \<times> 's fat" where
  "fat32_get_next_cluster ops cluster s =
     (let fat_offset = cluster * 4;
          fat_sector = fat_begin_lba (g_fs s) + fat_offset div 512;
          entry_offset = unat (fat_offset mod 512)
      in case block_read_sector ops (g_partition_offset s + ucast fat_sector) (sector_buffer s) (disk s) of
           (rc, sec, d) \<Rightarrow>
             let s' = s\<lparr>disk := d, sector_buffer := sec\<rparr> in
             if rc \<noteq> 0 then (FAT32_EOC, s')
             else (of_le (buf_get 4 sec entry_offset) AND 0x0FFFFFFF, s'))"

definition fat32_set_next_cluster :: "'s storage \<Rightarrow> u32 \<Rightarrow> u32 \<Rightarrow> 's fat \<Rightarrow> int \<times> 's fat" where
  "fat32_set_next_cluster ops cluster nxt s =
     (let fat_offset = cluster * 4;
          fat_sector = fat_begin_lba (g_fs s) + fat_offset div 512;
          entry_offset = unat (fat_offset mod 512)
      in case block_read_sector ops (g_partition_offset s + ucast fat_sector) (sector_buffer s) (disk s) of
           (rc, sec, d) \<Rightarrow>
             if rc \<noteq> 0 then (-1, s\<lparr>disk := d, sector_buffer := sec\<rparr>)
             else
               let old = of_le (buf_get 4 sec entry_offset);
                   val = (old AND 0xF0000000) OR (nxt AND 0x0FFFFFFF);
                   sec' = buf_put sec entry_offset (to_le 4 (val :: u32))
               in case block_write_sector ops (g_partition_offset s + ucast fat_sector) sec' d of
                    (rc1, d1) \<Rightarrow>
                      if rc1 \<noteq> 0 then (-1, s\<lparr>disk := d1, sector_buffer := sec'\<rparr>)
                      else if num_fats (g_fs s) > 1 then
                        (case block_write_sector ops
                                (g_partition_offset s + ucast (fat_sector + fat_size (g_fs s))) sec' d1 of
                           (rc2, d2) \<Rightarrow>
                             (if rc2 \<noteq> 0 then -1 else 0, s\<lparr>disk := d2, sector_buffer := sec'\<rparr>))
                      else (0, s\<lparr>disk := d1, sector_buffer := sec'\<rparr>))"

definition fsinfo_signature :: "bytes \<Rightarrow> bool" where
  "fsinfo_signature b = (b ! 0 = 0x52 \<and> b ! 1 = 0x52 \<and> b ! 2 = 0x61 \<and> b ! 3 = 0x41)"

definition put_le32_bytes :: "bytes \<Rightarrow> nat \<Rightarrow> u32 \<Rightarrow> bytes" where
  "put_le32_bytes b off v =
     b[off := ucast (v AND 0xFF), off + 1 := ucast (drop_bit 8 v AND 0xFF),
       off + 2 := ucast (drop_bit 16 v AND 0xFF), off + 3 := ucast (drop_bit 24 v AND 0xFF)]"

definition fat32_update_fsinfo :: "'s storage \<Rightarrow> u32 \<Rightarrow> u32 \<Rightarrow> 's fat \<Rightarrow> int \<times> 's fat" where
  "fat32_update_fsinfo ops free_count next_free s =
     (case block_read_sector ops (g_partition_offset s + 1) (sector_buffer s) (disk s) of
        (rc, sec, d) \<Rightarrow>
          if rc \<noteq> 0 then (-1, s\<lparr>disk := d, sector_buffer := sec\<rparr>)
          else if \<not> fsinfo_signature sec then (-1, s\<lparr>disk := d, sector_buffer := sec\<rparr>)
          else
            let sec1 = (if free_count \<noteq> 0xFFFFFFFF then put_le32_bytes sec 488 free_count else sec);
                sec2 = (if next_free \<noteq> 0xFFFFFFFF then put_le32_bytes sec1 492 next_free else sec1)
            in case block_write_sector ops (g_partition_offset s + 1) sec2 d of
                 (rc1, d1) \<Rightarrow>
                   if rc1 \<noteq> 0 then (-1, s\<lparr>disk := d1, sector_buffer := sec2\<rparr>)
                   else case block_write_sector ops (g_partition_offset s + 7) sec2 d1 of
                          (rc2, d2) \<Rightarrow> (0, s\<lparr>disk := d2, sector_buffer := sec2\<rparr>))"

fun allocate_loop :: "'s storage \<Rightarrow> u32 list \<Rightarrow> 's fat \<Rightarrow> u32 \<times> 's fat" where
  "allocate_loop ops [] s = (0, s)"
| "allocate_loop ops (cluster # cs) s =
     (case fat32_get_next_cluster ops cluster s of
        (nxt, s1) \<Rightarrow>
          if nxt = FAT32_FREE then
            (case fat32_set_next_cluster ops cluster FAT32_EOC s1 of
               (rc, s2) \<Rightarrow>
                 if rc = 0 then
                   (cluster,
                    if g_free_clusters s2 \<noteq> FREE_UNKNOWN \<and> g_free_clusters s2 > 0
                    then s2\<lparr>g_free_clusters := g_free_clusters s2 - 1\<rparr> else s2)
                 else allocate_loop ops cs s2)
          else allocate_loop ops cs s1)"

definition cluster_numbers :: "fat32_fs \<Rightarrow> u32 list" where
  "cluster_numbers fs = map of_nat [2..<unat (total_clusters fs + 2)]"

definition fat32_allocate_cluster :: "'s storage \<Rightarrow> 's fat \<Rightarrow> u32 \<times> 's fat" where
  "fat32_allocate_cluster ops s = allocate_loop ops (cluster_numbers (g_fs s)) s"

definition fat32_free_cluster :: "'s storage \<Rightarrow> u32 \<Rightarrow> 's fat \<Rightarrow> int \<times> 's fat" where
  "fat32_free_cluster ops cluster s =
     (case fat32_set_next_cluster ops cluster FAT32_FREE s of
        (result, s1) \<Rightarrow>
          (result,
           if result = 0 \<and> g_free_clusters s1 \<noteq> FREE_UNKNOWN
           then s1\<lparr>g_free_clusters := g_free_clusters s1 + 1\<rparr> else s1))"

definition in_chain :: "u32 \<Rightarrow> bool" where
  "in_chain c = (c \<ge> 2 \<and> c < FAT32_EOC)"

definition entries_per_cluster :: "'s fat \<Rightarrow> nat" where
  "entries_per_cluster s = unat (sectors_per_cluster (g_fs s) * 512) div 32"

definition cluster_bytes :: "'s fat \<Rightarrow> u32" where
  "cluster_bytes s = sectors_per_cluster (g_fs s) * 512"

datatype find_res = Find_end | Find_at nat | Find_more

fun find_loop :: "bytes \<Rightarrow> bytes \<Rightarrow> nat list \<Rightarrow> find_res" where
  "find_loop buf fat_name [] = Find_more"
| "find_loop buf fat_name (i # is) =
     (let e = entry_at buf i in
      if name0 e = 0x00 then Find_end
      else if name0 e = 0xE5 then find_loop buf fat_name is
      else if de_attr e AND ATTR_VOLUME_ID \<noteq> 0 then find_loop buf fat_name is
      else if de_name e = fat_name then Find_at i
      else find_loop buf fat_name is)"

partial_function (option) fat32_find_entry ::
    "'s storage \<Rightarrow> u32 \<Rightarrow> bytes \<Rightarrow> 's fat \<Rightarrow> ((fat32_dir_entry \<times> u32 \<times> nat) option \<times> 's fat) option" where
  "fat32_find_entry ops cur fat_name s =
     (if in_chain cur then
        do {
          (rc, buf, s1) \<leftarrow> fat32_read_cluster ops cur (replicate 4096 0) s;
          if rc \<noteq> 0 then Some (None, s1)
          else case find_loop buf fat_name [0..<entries_per_cluster s1] of
            Find_end \<Rightarrow> Some (None, s1)
          | Find_at i \<Rightarrow> Some (Some (entry_at buf i, cur, i), s1)
          | Find_more \<Rightarrow>
              (case fat32_get_next_cluster ops cur s1 of
                 (nxt, s2) \<Rightarrow> fat32_find_entry ops nxt fat_name s2)
        }
      else Some (None, s))"


definition volume_label_bytes :: "bytes option \<Rightarrow> bytes" where
  "volume_label_bytes lab =
     (case lab of
        Some l \<Rightarrow>
          (let len = (if strlen l > 11 then 11 else strlen l)
           in map (\<lambda>i. if i < len then fat_upper (cchar l i) else 0x20) [0..<11])
      | None \<Rightarrow> [0x4E, 0x4F, 0x20, 0x4E, 0x41, 0x4D, 0x45, 0x20, 0x20, 0x20, 0x20])"

definition format_fat_size :: "u64 \<Rightarrow> u32" where
  "format_fat_size total_sectors =
     (let tmp1 = ucast total_sectors - 32; tmp2 = 8 * 128 + 2
      in (tmp1 + tmp2 - 1) div tmp2)"

definition format_boot :: "u64 \<Rightarrow> bytes option \<Rightarrow> fat32_boot_sector" where
  "format_boot total_sectors lab =
     \<lparr>bs_jmp = [0xEB, 0x58, 0x90],
      bs_oem = [0x4D, 0x53, 0x57, 0x49, 0x4E, 0x34, 0x2E, 0x31],
      bs_bytes_per_sector = 512, bs_sectors_per_cluster = 8, bs_reserved_sectors = 32,
      bs_num_fats = 2, bs_root_entries = 0, bs_total_sectors_16 = 0, bs_media_type = 0xF8,
      bs_fat_size_16 = 0, bs_sectors_per_track = 63, bs_num_heads = 255, bs_hidden_sectors = 0,
      bs_total_sectors_32 = ucast total_sectors, bs_fat_size_32 = format_fat_size total_sectors,
      bs_ext_flags = 0, bs_fs_version = 0, bs_root_cluster = 2, bs_fs_info = 1, bs_backup_boot = 6,
      bs_reserved = replicate 12 0, bs_drive_number = 0x80, bs_reserved1 = 0,
      bs_boot_signature = 0x29, bs_volume_id = 0x12345678,
      bs_volume_label = volume_label_bytes lab,
      bs_fs_type = [0x46, 0x41, 0x54, 0x33, 0x32, 0x20, 0x20, 0x20]\<rparr>"

definition format_boot_sector :: "u64 \<Rightarrow> bytes option \<Rightarrow> bytes" where
  "format_boot_sector total_sectors lab =
     (buf_put (replicate 512 0) 0 (boot_bytes (format_boot total_sectors lab)))[510 := 0x55, 511 := 0xAA]"

definition format_free_clusters :: "u64 \<Rightarrow> u32" where
  "format_free_clusters total_sectors =
     (ucast total_sectors - (32 + 2 * format_fat_size total_sectors)) div 8 - 1"

definition format_fsinfo_sector :: "u64 \<Rightarrow> bytes" where
  "format_fsinfo_sector total_sectors =
     (let b1 = (replicate 512 0)[0 := 0x52, 1 := 0x52, 2 := 0x61, 3 := 0x41,
                 484 := 0x72, 485 := 0x72, 486 := 0x41, 487 := 0x61];
          b2 = put_le32_bytes b1 488 (format_free_clusters total_sectors)
      in b2[492 := 0x03, 493 := 0x00, 494 := 0x00, 495 := 0x00, 510 := 0x55, 511 := 0xAA])"

definition format_fat_sector :: bytes where
  "format_fat_sector =
     buf_put (replicate 512 0) 0
       (to_le 4 (0x0FFFFFF8 :: u32) @ to_le 4 (0x0FFFFFFF :: u32) @ to_le 4 (0x0FFFFFFF :: u32))"

fun write_sectors :: "'s storage \<Rightarrow> u64 list \<Rightarrow> bytes \<Rightarrow> 's \<Rightarrow> int \<times> 's" where
  "write_sectors ops [] buf d = (0, d)"
| "write_sectors ops (l # ls) buf d =
     (case block_write_sector ops l buf d of
        (rc, d1) \<Rightarrow> if rc \<noteq> 0 then (-1, d1) else write_sectors ops ls buf d1)"

fun format_fats :: "'s storage \<Rightarrow> u64 \<Rightarrow> u32 \<Rightarrow> nat list \<Rightarrow> bytes \<Rightarrow> 's \<Rightarrow> int \<times> bytes \<times> 's" where
  "format_fats ops off fsz [] buf d = (0, buf, d)"
| "format_fats ops off fsz (i # is) buf d =
     (let fat_start = 32 + of_nat i * fsz in
      case block_write_sector ops (off + ucast fat_start) buf d of
        (rc, d1) \<Rightarrow>
          if rc \<noteq> 0 then (-1, buf, d1)
          else
            let zero = replicate 512 0 in
            case write_sectors ops (map (\<lambda>j. off + ucast fat_start + of_nat j) [1..<unat fsz]) zero d1 of
              (rc2, d2) \<Rightarrow>
                if rc2 \<noteq> 0 then (-1, zero, d2) else format_fats ops off fsz is zero d2)"

fun flush_times :: "'s storage \<Rightarrow> nat \<Rightarrow> 's \<Rightarrow> 's" where
  "flush_times ops 0 d = d"
| "flush_times ops (Suc n) d = (case st_sata_flush ops d of (rc, d') \<Rightarrow> flush_times ops n d')"

definition flush_cache_5 :: "'s storage \<Rightarrow> 's fat \<Rightarrow> 's fat" where
  "flush_cache_5 ops s =
     (if st_sata_present ops (disk s) then s\<lparr>disk := flush_times ops 5 (disk s)\<rparr> else s)"

definition fat32_format :: "'s storage \<Rightarrow> u64 \<Rightarrow> bytes option \<Rightarrow> 's fat \<Rightarrow> int \<times> 's fat" where
  "fat32_format ops total_sectors lab s =
     (if \<not> block_is_present ops (disk s) then (-1, s)
      else
        let off = g_partition_offset s; fsz = format_fat_size total_sectors;
            b0 = format_boot_sector total_sectors lab in
        case block_write_sector ops (off + 0) b0 (disk s) of (rc1, d1) \<Rightarrow>
        if rc1 \<noteq> 0 then (-1, s\<lparr>disk := d1, sector_buffer := b0\<rparr>)
        else case block_write_sector ops (off + 6) b0 d1 of (rc2, d2) \<Rightarrow>
        if rc2 \<noteq> 0 then (-1, s\<lparr>disk := d2, sector_buffer := b0\<rparr>)
        else
          let b1 = format_fsinfo_sector total_sectors in
          case block_write_sector ops (off + 1) b1 d2 of (rc3, d3) \<Rightarrow>
          if rc3 \<noteq> 0 then (-1, s\<lparr>disk := d3, sector_buffer := b1\<rparr>)
          else case block_write_sector ops (off + 7) b1 d3 of (rc4, d4) \<Rightarrow>
          case format_fats ops off fsz [0..<2] format_fat_sector d4 of (rc5, b2, d5) \<Rightarrow>
          if rc5 \<noteq> 0 then (-1, s\<lparr>disk := d5, sector_buffer := b2\<rparr>)
          else
            let root_lba = 32 + 2 * fsz; zero = replicate 512 0 in
            case write_sectors ops (map (\<lambda>i. off + ucast root_lba + of_nat i) [0..<8]) zero d5 of
              (rc6, d6) \<Rightarrow>
                if rc6 \<noteq> 0 then (-1, s\<lparr>disk := d6, sector_buffer := zero\<rparr>)
                else (0, flush_cache_5 ops
                          (s\<lparr>disk := d6, sector_buffer := zero,
                             g_free_clusters := format_free_clusters total_sectors\<rparr>)))"

definition fat32_init :: "'s storage \<Rightarrow> 's fat \<Rightarrow> (int \<times> 's fat) option" where
  "fat32_init ops s =
     (if \<not> block_is_present ops (disk s) then Some (-1, s)
      else case block_read_sector ops (g_partition_offset s + 0) (sector_buffer s) (disk s) of
        (rc, sec, d) \<Rightarrow>
          if rc \<noteq> 0 then Some (-1, s\<lparr>disk := d, sector_buffer := sec\<rparr>)
          else if sec ! 510 \<noteq> 0x55 \<or> sec ! 511 \<noteq> 0xAA
          then Some (-1, s\<lparr>disk := d, sector_buffer := sec\<rparr>)
          else
            let boot = boot_of sec;
                cbegin = ucast (bs_reserved_sectors boot) + ucast (bs_num_fats boot) * bs_fat_size_32 boot;
                data_sectors = bs_total_sectors_32 boot - cbegin
            in if bs_sectors_per_cluster boot = 0 then None
               else
                 let fs = \<lparr>fat_begin_lba = ucast (bs_reserved_sectors boot),
                           cluster_begin_lba = cbegin,
                           sectors_per_cluster = ucast (bs_sectors_per_cluster boot),
                           root_dir_cluster = bs_root_cluster boot,
                           fat_size = bs_fat_size_32 boot,
                           num_fats = ucast (bs_num_fats boot),
                           total_clusters = data_sectors div ucast (bs_sectors_per_cluster boot),
                           initialized = True\<rparr>
                 in case block_read_sector ops (g_partition_offset s + 1) sec d of
                      (rc2, sec2, d2) \<Rightarrow>
                        Some (0, s\<lparr>disk := d2, sector_buffer := sec2, g_fs := fs,
                          g_free_clusters :=
                            (if rc2 = 0 \<and> fsinfo_signature sec2 then
                               ucast (sec2 ! 488) OR push_bit 8 (ucast (sec2 ! 489)) OR
                               push_bit 16 (ucast (sec2 ! 490)) OR push_bit 24 (ucast (sec2 ! 491))
                             else 0xFFFFFFFF)\<rparr>))"

definition min_u32 :: "u32 \<Rightarrow> u32 \<Rightarrow> u32" where
  "min_u32 a b = (if a < b then a else b)"

partial_function (option) read_file_loop ::
    "'s storage \<Rightarrow> u32 \<Rightarrow> u32 \<Rightarrow> nat \<Rightarrow> bytes \<Rightarrow> 's fat \<Rightarrow> (int \<times> bytes \<times> 's fat) option" where
  "read_file_loop ops cluster remaining dest buffer s =
     (if in_chain cluster \<and> remaining > 0 then
        do {
          (rc, cbuf, s1) \<leftarrow> fat32_read_cluster ops cluster (replicate 4096 0) s;
          if rc \<noteq> 0 then Some (-1, buffer, s1)
          else do {
            let chunk = min_u32 remaining (cluster_bytes s1);
            buffer' \<leftarrow> memcpy buffer dest cbuf 0 (unat chunk);
            (case fat32_get_next_cluster ops cluster s1 of
               (nxt, s2) \<Rightarrow> read_file_loop ops nxt (remaining - chunk) (dest + unat chunk) buffer' s2)
          }
        }
      else Some (0, buffer, s))"

definition fat32_read_file_in ::
    "'s storage \<Rightarrow> u32 \<Rightarrow> bytes \<Rightarrow> bytes \<Rightarrow> u32 \<Rightarrow> 's fat \<Rightarrow> (int \<times> bytes \<times> u32 option \<times> 's fat) option" where
  "fat32_read_file_in ops parent filename buffer max_size s =
     (if \<not> initialized (g_fs s) then Some (-1, buffer, None, s)
      else do {
        (r, s1) \<leftarrow> fat32_find_entry ops parent (name_to_fat filename) s;
        (case r of
           None \<Rightarrow> Some (-1, buffer, None, s1)
         | Some (entry, _, _) \<Rightarrow> do {
             let to_read = min_u32 (de_file_size entry) max_size;
             (rc, buffer', s2) \<leftarrow> read_file_loop ops (first_cluster_of entry) to_read 0 buffer s1;
             Some (if rc \<noteq> 0 then (-1, buffer', None, s2) else (0, buffer', Some to_read, s2))
           })
      })"

definition fat32_read_file ::
    "'s storage \<Rightarrow> bytes \<Rightarrow> bytes \<Rightarrow> u32 \<Rightarrow> 's fat \<Rightarrow> (int \<times> bytes \<times> u32 option \<times> 's fat) option" where
  "fat32_read_file ops filename buffer max_size s =
     fat32_read_file_in ops (root_dir_cluster (g_fs s)) filename buffer max_size s"

definition fat32_get_file_size_in ::
    "'s storage \<Rightarrow> u32 \<Rightarrow> bytes \<Rightarrow> 's fat \<Rightarrow> (int \<times> u32 option \<times> 's fat) option" where
  "fat32_get_file_size_in ops parent filename s =
     (if \<not> initialized (g_fs s) then Some (-1, None, s)
      else do {
        (r, s1) \<leftarrow> fat32_find_entry ops parent (name_to_fat filename) s;
        Some (case r of None \<Rightarrow> (-1, None, s1)
              | Some (entry, _, _) \<Rightarrow> (0, Some (de_file_size entry), s1))
      })"


fun first_mismatch :: "bytes \<Rightarrow> bytes \<Rightarrow> nat \<Rightarrow> nat list \<Rightarrow> nat option option" where
  "first_mismatch cbuf expected pos [] = Some None"
| "first_mismatch cbuf expected pos (i # is) =
     (if i < length cbuf \<and> pos + i < length expected
      then (if cbuf ! i \<noteq> expected ! (pos + i) then Some (Some i)
            else first_mismatch cbuf expected pos is)
      else None)"

partial_function (option) snip_loop ::
    "'s storage \<Rightarrow> bytes \<Rightarrow> nat \<Rightarrow> u32 \<Rightarrow> u32 \<Rightarrow> u32 \<Rightarrow> u32 \<Rightarrow> bytes \<Rightarrow> bytes \<Rightarrow> bytes \<Rightarrow> 's fat \<Rightarrow>
     (u32 \<times> bytes \<times> bytes \<times> 's fat) option" where
  "snip_loop ops expected base copy_len copied off cur cbuf dsnip esnip s =
     (if copied < copy_len \<and> in_chain cur then
        do {
          let avail = cluster_bytes s - off;
          let to_copy = min_u32 avail (copy_len - copied);
          dsnip' \<leftarrow> memcpy dsnip (unat copied) cbuf (unat off) (unat to_copy);
          esnip' \<leftarrow> memcpy esnip (unat copied) expected (base + unat copied) (unat to_copy);
          let copied' = copied + to_copy;
          (case fat32_get_next_cluster ops cur s of
             (nxt, s1) \<Rightarrow>
               if copied' < copy_len \<and> in_chain nxt then
                 do {
                   (rc, cbuf', s2) \<leftarrow> fat32_read_cluster ops nxt cbuf s1;
                   if rc \<noteq> 0 then Some (copied', dsnip', esnip', s2)
                   else snip_loop ops expected base copy_len copied' 0 nxt cbuf' dsnip' esnip' s2
                 }
               else snip_loop ops expected base copy_len copied' 0 nxt cbuf dsnip' esnip' s1)
        }
      else Some (copied, dsnip, esnip, s))"

definition report_snips ::
    "'s storage \<Rightarrow> bytes \<Rightarrow> u32 \<Rightarrow> u32 \<Rightarrow> nat \<Rightarrow> u32 \<Rightarrow> bytes \<Rightarrow> (bytes \<times> bytes \<times> u32) option \<Rightarrow> 's fat \<Rightarrow>
     ((bytes \<times> bytes) option \<times> 's fat) option" where
  "report_snips ops expected file_size file_pos i cluster cbuf snips s =
     (case snips of
        None \<Rightarrow> Some (None, s)
      | Some (dsnip, esnip, snip_len) \<Rightarrow>
          if snip_len = 0 then Some (Some (dsnip, esnip), s)
          else do {
            let remain = file_size - (file_pos + of_nat i);
            let copy_len = min_u32 snip_len remain;
            (copied, d1, e1, s1) \<leftarrow> snip_loop ops expected (unat file_pos + i) copy_len 0 (of_nat i) cluster cbuf dsnip esnip s;
            d2 \<leftarrow> memset d1 (unat copied) 0 (unat copy_len - unat copied);
            e2 \<leftarrow> memset e1 (unat copied) 0 (unat copy_len - unat copied);
            Some (Some (d2, e2), s1)
          })"

record cmp_result =
  cmp_rc :: int
  cmp_mismatch :: "u32 option"
  cmp_snips :: "(bytes \<times> bytes) option"

partial_function (option) compare_loop ::
    "'s storage \<Rightarrow> bytes \<Rightarrow> (bytes \<times> bytes \<times> u32) option \<Rightarrow> u32 \<Rightarrow> u32 \<Rightarrow> u32 \<Rightarrow> 's fat \<Rightarrow>
     (cmp_result \<times> 's fat) option" where
  "compare_loop ops expected snips file_size cluster file_pos s =
     (if in_chain cluster \<and> file_pos < file_size then
        do {
          (rc, cbuf, s1) \<leftarrow> fat32_read_cluster ops cluster (replicate 4096 0) s;
          if rc \<noteq> 0 then Some (\<lparr>cmp_rc = -1, cmp_mismatch = None, cmp_snips = None\<rparr>, s1)
          else do {
            let chunk = min_u32 (file_size - file_pos) (cluster_bytes s1);
            m \<leftarrow> first_mismatch cbuf expected (unat file_pos) [0..<unat chunk];
            (case m of
               Some i \<Rightarrow> do {
                 (sn, s2) \<leftarrow> report_snips ops expected file_size file_pos i cluster cbuf snips s1;
                 Some (\<lparr>cmp_rc = -1, cmp_mismatch = Some (file_pos + of_nat i), cmp_snips = sn\<rparr>, s2)
               }
             | None \<Rightarrow>
                 (case fat32_get_next_cluster ops cluster s1 of
                    (nxt, s2) \<Rightarrow> compare_loop ops expected snips file_size nxt (file_pos + chunk) s2))
          }
        }
      else Some (\<lparr>cmp_rc = 0, cmp_mismatch = None, cmp_snips = None\<rparr>, s))"

definition fat32_compare_file_in ::
    "'s storage \<Rightarrow> u32 \<Rightarrow> bytes \<Rightarrow> bytes \<Rightarrow> u32 \<Rightarrow> (bytes \<times> bytes \<times> u32) option \<Rightarrow> 's fat \<Rightarrow>
     (cmp_result \<times> 's fat) option" where
  "fat32_compare_file_in ops parent filename expected expected_size snips s =
     (if \<not> initialized (g_fs s) then
        Some (\<lparr>cmp_rc = -1, cmp_mismatch = None, cmp_snips = None\<rparr>, s)
      else do {
        (r, s1) \<leftarrow> fat32_find_entry ops parent (name_to_fat filename) s;
        (case r of
           None \<Rightarrow> Some (\<lparr>cmp_rc = -1, cmp_mismatch = None, cmp_snips = None\<rparr>, s1)
         | Some (entry, _, _) \<Rightarrow>
             if de_file_size entry \<noteq> expected_size then
               Some (\<lparr>cmp_rc = -1, cmp_mismatch = Some (min_u32 (de_file_size entry) expected_size),
                      cmp_snips = None\<rparr>, s1)
             else compare_loop ops expected snips (de_file_size entry) (first_cluster_of entry) 0 s1)
      })"

partial_function (option) free_chain :: "'s storage \<Rightarrow> u32 \<Rightarrow> 's fat \<Rightarrow> 's fat option" where
  "free_chain ops cluster s =
     (if in_chain cluster then
        (case fat32_get_next_cluster ops cluster s of
           (nxt, s1) \<Rightarrow>
             (case fat32_free_cluster ops cluster s1 of
                (rc, s2) \<Rightarrow> free_chain ops nxt s2))
      else Some s)"

record slot =
  entry_cluster :: u32
  entry_index :: nat
  write_dir_buffer :: bytes

datatype scan_res = Scan_end slot | Scan_exists nat | Scan_more slot

definition take_slot :: "u32 \<Rightarrow> nat \<Rightarrow> bytes \<Rightarrow> nat \<Rightarrow> slot \<Rightarrow> slot" where
  "take_slot cur i dir_buffer n sl =
     sl\<lparr>entry_cluster := cur, entry_index := i,
        write_dir_buffer := buf_put (write_dir_buffer sl) 0 (buf_get n dir_buffer 0)\<rparr>"

fun scan_loop :: "u32 \<Rightarrow> bytes \<Rightarrow> nat \<Rightarrow> bytes \<Rightarrow> (nat \<Rightarrow> fat32_dir_entry \<Rightarrow> bool) \<Rightarrow> nat list \<Rightarrow> slot \<Rightarrow> scan_res" where
  "scan_loop cur dir_buffer n fat_name skip [] sl = Scan_more sl"
| "scan_loop cur dir_buffer n fat_name skip (i # is) sl =
     (let e = entry_at dir_buffer i in
      if skip i e then scan_loop cur dir_buffer n fat_name skip is sl
      else if name0 e = 0x00 \<or> name0 e = 0xE5 then
        (let sl' = (if entry_cluster sl = 0 then take_slot cur i dir_buffer n sl else sl)
         in if name0 e = 0x00 then Scan_end sl'
            else scan_loop cur dir_buffer n fat_name skip is sl')
      else if de_name e = fat_name then Scan_exists i
      else scan_loop cur dir_buffer n fat_name skip is sl)"

definition no_slot :: slot where
  "no_slot = \<lparr>entry_cluster = 0, entry_index = 0, write_dir_buffer = replicate 4096 0\<rparr>"

partial_function (option) write_scan ::
    "'s storage \<Rightarrow> bytes \<Rightarrow> u32 \<Rightarrow> slot \<Rightarrow> 's fat \<Rightarrow> (int \<times> slot \<times> 's fat) option" where
  "write_scan ops fat_name cur sl s =
     (if in_chain cur then
        do {
          (rc, dir_buffer, s1) \<leftarrow> fat32_read_cluster ops cur (replicate 4096 0) s;
          if rc \<noteq> 0 then Some (-1, sl, s1)
          else case scan_loop cur dir_buffer (unat (cluster_bytes s1)) fat_name (\<lambda>_ _. False)
                      [0..<entries_per_cluster s1] sl of
            Scan_end sl' \<Rightarrow> Some (0, sl', s1)
          | Scan_exists i \<Rightarrow> do {
              s2 \<leftarrow> free_chain ops (first_cluster_of (entry_at dir_buffer i)) s1;
              Some (0, take_slot cur i dir_buffer (unat (cluster_bytes s1)) sl, s2)
            }
          | Scan_more sl' \<Rightarrow>
              (case fat32_get_next_cluster ops cur s1 of
                 (nxt, s2) \<Rightarrow> write_scan ops fat_name nxt sl' s2)
        }
      else Some (0, sl, s))"

record file_head =
  fh_first :: u32
  fh_prev :: u32

partial_function (option) write_data_loop ::
    "'s storage \<Rightarrow> bytes \<Rightarrow> u32 \<Rightarrow> nat \<Rightarrow> file_head \<Rightarrow> 's fat \<Rightarrow> (int \<times> file_head \<times> 's fat) option" where
  "write_data_loop ops src remaining pos h s =
     (if remaining > 0 then
        (case fat32_allocate_cluster ops s of
           (cluster, s1) \<Rightarrow>
             if cluster = 0 \<or> cluster < 2 then Some (-1, h, s1)
             else do {
               let h1 = (if fh_first h = 0 then h\<lparr>fh_first := cluster\<rparr> else h);
               let s2 = (if fh_prev h1 \<noteq> 0 then snd (fat32_set_next_cluster ops (fh_prev h1) cluster s1) else s1);
               let chunk = min_u32 remaining (cluster_bytes s2);
               fbuf0 \<leftarrow> memset (replicate 4096 0) 0 0 (unat (cluster_bytes s2));
               fbuf \<leftarrow> memcpy fbuf0 0 src pos (unat chunk);
               (rc, s3) \<leftarrow> fat32_write_cluster ops cluster fbuf s2;
               if rc \<noteq> 0 then Some (-1, h1, s3)
               else do {
                 (rc2, verify_buffer, s4) \<leftarrow> fat32_read_cluster ops cluster (replicate 4096 0) s3;
                 if rc2 \<noteq> 0 then Some (-1, h1, s4)
                 else do {
                   c \<leftarrow> memcmp verify_buffer fbuf (unat (cluster_bytes s4));
                   if c \<noteq> 0 then Some (-1, h1, s4)
                   else write_data_loop ops src (remaining - chunk) (pos + unat chunk)
                          (h1\<lparr>fh_prev := cluster\<rparr>) s4
                 }
               }
             })
      else Some (0, h, s))"

definition file_entry :: "bytes \<Rightarrow> u32 \<Rightarrow> u32 \<Rightarrow> fat32_dir_entry" where
  "file_entry fat_name first_cluster sz =
     \<lparr>de_name = fat_name, de_attr = ATTR_ARCHIVE, de_nt_reserved = 0, de_create_time_tenth = 0,
      de_create_time = 0, de_create_date = 0, de_last_access_date = 0,
      de_first_cluster_hi = ucast (drop_bit 16 first_cluster AND 0xFFFF),
      de_write_time = 0, de_write_date = 0,
      de_first_cluster_lo = ucast (first_cluster AND 0xFFFF), de_file_size = sz\<rparr>"

definition fat32_write_file_in ::
    "'s storage \<Rightarrow> u32 \<Rightarrow> bytes \<Rightarrow> bytes \<Rightarrow> u32 \<Rightarrow> 's fat \<Rightarrow> (int \<times> 's fat) option" where
  "fat32_write_file_in ops parent filename buffer sz s =
     (if \<not> initialized (g_fs s) then Some (-1, s)
      else do {
        let fat_name = name_to_fat filename;
        (rc, sl, s1) \<leftarrow> write_scan ops fat_name parent no_slot s;
        if rc \<noteq> 0 then Some (-1, s1)
        else if entry_cluster sl = 0 then Some (-1, s1)
        else do {
          (rc2, h, s2) \<leftarrow> write_data_loop ops buffer sz 0 \<lparr>fh_first = 0, fh_prev = 0\<rparr> s1;
          if rc2 \<noteq> 0 then Some (-1, s2)
          else do {
            let wdb = set_entry (write_dir_buffer sl) (entry_index sl) (file_entry fat_name (fh_first h) sz);
            (rc3, s3) \<leftarrow> fat32_write_cluster ops (entry_cluster sl) wdb s2;
            if rc3 \<noteq> 0 then Some (-1, s3)
            else
              (let s4 = (if g_free_clusters s3 \<noteq> FREE_UNKNOWN
                         then snd (fat32_update_fsinfo ops (g_free_clusters s3) (fh_prev h + 1) s3) else s3)
               in Some (0, flush_cache_5 ops s4))
          }
        }
      })"

definition fat32_write_file :: "'s storage \<Rightarrow> bytes \<Rightarrow> bytes \<Rightarrow> u32 \<Rightarrow> 's fat \<Rightarrow> (int \<times> 's fat) option" where
  "fat32_write_file ops filename buffer sz s =
     fat32_write_file_in ops (root_dir_cluster (g_fs s)) filename buffer sz s"


definition dot_name :: bytes where
  "dot_name = 0x2E # replicate 10 0x20"

definition dotdot_name :: bytes where
  "dotdot_name = 0x2E # 0x2E # replicate 9 0x20"

definition dir_entry_for :: "bytes \<Rightarrow> u32 \<Rightarrow> fat32_dir_entry" where
  "dir_entry_for name cluster =
     \<lparr>de_name = name, de_attr = ATTR_DIRECTORY, de_nt_reserved = 0, de_create_time_tenth = 0,
      de_create_time = 0, de_create_date = 0, de_last_access_date = 0,
      de_first_cluster_hi = ucast (drop_bit 16 cluster AND 0xFFFF),
      de_write_time = 0, de_write_date = 0,
      de_first_cluster_lo = ucast (cluster AND 0xFFFF), de_file_size = 0\<rparr>"

definition dot_skip :: "bool \<Rightarrow> nat \<Rightarrow> fat32_dir_entry \<Rightarrow> bool" where
  "dot_skip non_root i e =
     (non_root \<and> ((i = 0 \<and> de_name e = dot_name) \<or> (i = 1 \<and> de_name e = dotdot_name)))"

partial_function (option) mkdir_scan ::
    "'s storage \<Rightarrow> bytes \<Rightarrow> u32 \<Rightarrow> slot \<Rightarrow> 's fat \<Rightarrow> (int \<times> slot \<times> 's fat) option" where
  "mkdir_scan ops fat_name cur sl s =
     (if in_chain cur then
        do {
          (rc, dir_buffer, s1) \<leftarrow> fat32_read_cluster ops cur (replicate 4096 0) s;
          if rc \<noteq> 0 then Some (-1, sl, s1)
          else case scan_loop cur dir_buffer (unat (cluster_bytes s1)) fat_name
                      (dot_skip (cur \<noteq> root_dir_cluster (g_fs s1))) [0..<entries_per_cluster s1] sl of
            Scan_end sl' \<Rightarrow> Some (0, sl', s1)
          | Scan_exists i \<Rightarrow> Some (-1, sl, s1)
          | Scan_more sl' \<Rightarrow>
              (case fat32_get_next_cluster ops cur s1 of
                 (nxt, s2) \<Rightarrow> mkdir_scan ops fat_name nxt sl' s2)
        }
      else Some (0, sl, s))"

definition fat32_create_directory_in ::
    "'s storage \<Rightarrow> u32 \<Rightarrow> bytes \<Rightarrow> 's fat \<Rightarrow> (int \<times> 's fat) option" where
  "fat32_create_directory_in ops parent dirname s =
     (if \<not> initialized (g_fs s) then Some (-1, s)
      else do {
        let fat_name = name_to_fat dirname;
        (rc, sl, s1) \<leftarrow> mkdir_scan ops fat_name parent no_slot s;
        if rc \<noteq> 0 then Some (-1, s1)
        else if entry_cluster sl = 0 then Some (-1, s1)
        else case fat32_allocate_cluster ops s1 of (dir_cluster, s2) \<Rightarrow>
          if dir_cluster = 0 \<or> dir_cluster < 2 then Some (-1, s2)
          else do {
            cbuf0 \<leftarrow> memset (replicate 4096 0) 0 0 (unat (cluster_bytes s2));
            let dotdot = (if parent = root_dir_cluster (g_fs s2) then 0 else parent);
            let cbuf = set_entry (set_entry cbuf0 0 (dir_entry_for dot_name dir_cluster))
                                 1 (dir_entry_for dotdot_name dotdot);
            (rc2, s3) \<leftarrow> fat32_write_cluster ops dir_cluster cbuf s2;
            if rc2 \<noteq> 0 then Some (-1, snd (fat32_free_cluster ops dir_cluster s3))
            else do {
              let wdb = set_entry (write_dir_buffer sl) (entry_index sl) (dir_entry_for fat_name dir_cluster);
              (rc3, s4) \<leftarrow> fat32_write_cluster ops (entry_cluster sl) wdb s3;
              if rc3 \<noteq> 0 then Some (-1, s4)
              else
                (let s5 = (if g_free_clusters s4 \<noteq> FREE_UNKNOWN
                           then snd (fat32_update_fsinfo ops (g_free_clusters s4) (dir_cluster + 1) s4) else s4)
                 in Some (0, flush_cache_5 ops s5))
            }
          }
      })"

definition fat32_create_directory :: "'s storage \<Rightarrow> bytes \<Rightarrow> 's fat \<Rightarrow> (int \<times> 's fat) option" where
  "fat32_create_directory ops dirname s =
     fat32_create_directory_in ops (root_dir_cluster (g_fs s)) dirname s"

definition fat32_get_root_cluster :: "'s fat \<Rightarrow> u32" where
  "fat32_get_root_cluster s = root_dir_cluster (g_fs s)"

definition fat32_find_directory :: "'s storage \<Rightarrow> u32 \<Rightarrow> bytes \<Rightarrow> 's fat \<Rightarrow> (u32 \<times> 's fat) option" where
  "fat32_find_directory ops parent dirname s =
     do {
       (r, s1) \<leftarrow> fat32_find_entry ops parent (name_to_fat dirname) s;
       Some (case r of
               None \<Rightarrow> (0, s1)
             | Some (entry, _, _) \<Rightarrow>
                 if de_attr entry AND ATTR_DIRECTORY = 0 then (0, s1)
                 else (first_cluster_of entry, s1))
     }"

datatype empty_res = Empty_end | Empty_entry | Empty_more

fun empty_loop :: "bytes \<Rightarrow> nat list \<Rightarrow> empty_res" where
  "empty_loop buf [] = Empty_more"
| "empty_loop buf (i # is) =
     (let e = entry_at buf i in
      if name0 e = 0x00 then Empty_end
      else if name0 e = 0xE5 then empty_loop buf is
      else if de_name e = dot_name then empty_loop buf is
      else if de_name e = dotdot_name then empty_loop buf is
      else Empty_entry)"

partial_function (option) fat32_is_directory_empty :: "'s storage \<Rightarrow> u32 \<Rightarrow> 's fat \<Rightarrow> (int \<times> 's fat) option" where
  "fat32_is_directory_empty ops cur s =
     (if in_chain cur then
        do {
          (rc, buf, s1) \<leftarrow> fat32_read_cluster ops cur (replicate 4096 0) s;
          if rc \<noteq> 0 then Some (-1, s1)
          else case empty_loop buf [0..<entries_per_cluster s1] of
            Empty_end \<Rightarrow> Some (1, s1)
          | Empty_entry \<Rightarrow> Some (0, s1)
          | Empty_more \<Rightarrow>
              (case fat32_get_next_cluster ops cur s1 of
                 (nxt, s2) \<Rightarrow> fat32_is_directory_empty ops nxt s2)
        }
      else Some (1, s))"

definition mark_deleted :: "'s storage \<Rightarrow> u32 \<Rightarrow> nat \<Rightarrow> 's fat \<Rightarrow> (int \<times> 's fat) option" where
  "mark_deleted ops found_cluster found_index s =
     do {
       (rc, dir_buffer, s1) \<leftarrow> fat32_read_cluster ops found_cluster (replicate 4096 0) s;
       if rc \<noteq> 0 then Some (-1, s1)
       else do {
         (rc2, s2) \<leftarrow> fat32_write_cluster ops found_cluster (dir_buffer[32 * found_index := 0xE5]) s1;
         if rc2 \<noteq> 0 then Some (-1, s2)
         else Some (0, if g_free_clusters s2 \<noteq> FREE_UNKNOWN
                       then snd (fat32_update_fsinfo ops (g_free_clusters s2) 0xFFFFFFFF s2) else s2)
       }
     }"

definition fat32_delete_directory_in :: "'s storage \<Rightarrow> u32 \<Rightarrow> bytes \<Rightarrow> 's fat \<Rightarrow> (int \<times> 's fat) option" where
  "fat32_delete_directory_in ops parent dirname s =
     (if \<not> initialized (g_fs s) then Some (-1, s)
      else do {
        (r, s1) \<leftarrow> fat32_find_entry ops parent (name_to_fat dirname) s;
        (case r of
           None \<Rightarrow> Some (-1, s1)
         | Some (entry, found_cluster, found_index) \<Rightarrow>
             if de_attr entry AND ATTR_DIRECTORY = 0 then Some (-1, s1)
             else do {
               let dir_cluster = first_cluster_of entry;
               (em, s2) \<leftarrow> fat32_is_directory_empty ops dir_cluster s1;
               if em = 0 then Some (-1, s2)
               else mark_deleted ops found_cluster found_index
                      (snd (fat32_free_cluster ops dir_cluster s2))
             })
      })"

definition fat32_delete_directory :: "'s storage \<Rightarrow> bytes \<Rightarrow> 's fat \<Rightarrow> (int \<times> 's fat) option" where
  "fat32_delete_directory ops dirname s =
     fat32_delete_directory_in ops (root_dir_cluster (g_fs s)) dirname s"

definition fat32_delete_file :: "'s storage \<Rightarrow> bytes \<Rightarrow> 's fat \<Rightarrow> (int \<times> 's fat) option" where
  "fat32_delete_file ops filename s =
     (if \<not> initialized (g_fs s) then Some (-1, s)
      else do {
        (r, s1) \<leftarrow> fat32_find_entry ops (root_dir_cluster (g_fs s)) (name_to_fat filename) s;
        (case r of
           None \<Rightarrow> Some (-1, s1)
         | Some (entry, found_cluster, found_index) \<Rightarrow> do {
             s2 \<leftarrow> free_chain ops (first_cluster_of entry) s1;
             mark_deleted ops found_cluster found_index s2
           })
      })"

definition fat_to_name :: "bytes \<Rightarrow> bytes" where
  "fat_to_name n =
     takeWhile (\<lambda>c. c \<noteq> 0x20) (buf_get 8 n 0) @
     (if n ! 8 \<noteq> 0x20 then 0x2E # takeWhile (\<lambda>c. c \<noteq> 0x20) (buf_get 3 n 8) else [])"

type_synonym listing = "(bytes \<times> u32 \<times> u8) list"

fun list_loop :: "bytes \<Rightarrow> nat list \<Rightarrow> bool \<times> listing" where
  "list_loop buf [] = (False, [])"
| "list_loop buf (i # is) =
     (let e = entry_at buf i in
      if name0 e = 0x00 then (True, [])
      else if name0 e = 0xE5 then list_loop buf is
      else if de_attr e AND ATTR_VOLUME_ID \<noteq> 0 then list_loop buf is
      else case list_loop buf is of
             (fin, out) \<Rightarrow>
               (fin, (fat_to_name (de_name e), de_file_size e, de_attr e AND ATTR_DIRECTORY) # out))"

partial_function (option) list_chain :: "'s storage \<Rightarrow> u32 \<Rightarrow> listing \<Rightarrow> 's fat \<Rightarrow> (int \<times> listing \<times> 's fat) option" where
  "list_chain ops cur acc s =
     (if in_chain cur then
        do {
          (rc, buf, s1) \<leftarrow> fat32_read_cluster ops cur (replicate 4096 0) s;
          if rc \<noteq> 0 then Some (-1, acc, s1)
          else case list_loop buf [0..<entries_per_cluster s1] of (fin, out) \<Rightarrow>
            if fin then Some (0, acc @ out, s1)
            else (case fat32_get_next_cluster ops cur s1 of
                    (nxt, s2) \<Rightarrow> list_chain ops nxt (acc @ out) s2)
        }
      else Some (0, acc, s))"

definition fat32_list_files :: "'s storage \<Rightarrow> 's fat \<Rightarrow> (int \<times> listing \<times> 's fat) option" where
  "fat32_list_files ops s =
     (if \<not> initialized (g_fs s) then Some (-1, [], s)
      else list_chain ops (root_dir_cluster (g_fs s)) [] s)"

end
