(* ===== verification/Fat32_Table.thy ===== *)
theory Fat32_Table
  imports Fat32_Model
begin

text \<open>
  Geometry and the two abstract views of a FAT32 volume: \<open>fat_map\<close>, the allocation table as a partial
  map from clusters to 28-bit entries, and \<open>data_map\<close>, the contents of the clusters.  Reading and
  writing clusters, following and changing links, allocating and freeing are shown to be exactly the
  corresponding operations on the two maps, and to touch no sector outside the volume.
\<close>

unbundle bit_operations_syntax

lemma nibble_low: "((old AND 0xF0000000) OR (n AND 0x0FFFFFFF)) AND 0x0FFFFFFF = n AND (0x0FFFFFFF :: u32)"
  by (simp add: bit.conj_disj_distrib2 and.assoc)

lemma nibble_high: "((old AND 0xF0000000) OR (n AND 0x0FFFFFFF)) AND 0xF0000000 = old AND (0xF0000000 :: u32)"
  by (simp add: bit.conj_disj_distrib2 and.assoc)

definition geom_ok :: "fat32_fs \<Rightarrow> bool" where
  "geom_ok g \<longleftrightarrow>
     1 \<le> unat (sectors_per_cluster g) \<and> unat (sectors_per_cluster g) \<le> 8 \<and>
     8 \<le> unat (fat_begin_lba g) \<and> 1 \<le> unat (num_fats g) \<and>
     unat (fat_begin_lba g) + unat (num_fats g) * unat (fat_size g) \<le> unat (cluster_begin_lba g) \<and>
     unat (cluster_begin_lba g) + unat (total_clusters g) * unat (sectors_per_cluster g) < 2 ^ 32 \<and>
     4 * (unat (total_clusters g) + 2) \<le> 512 * unat (fat_size g) \<and>
     unat (total_clusters g) + 2 < 0x0FFFFFF7"

definition valid_cluster :: "fat32_fs \<Rightarrow> u32 \<Rightarrow> bool" where
  "valid_cluster g c \<longleftrightarrow> 2 \<le> unat c \<and> unat c < unat (total_clusters g) + 2"

definition volume_lbas :: "'s fat \<Rightarrow> nat set" where
  "volume_lbas s = {unat (g_partition_offset s) ..<
     unat (g_partition_offset s) + unat (cluster_begin_lba (g_fs s)) +
     unat (total_clusters (g_fs s)) * unat (sectors_per_cluster (g_fs s))}"

definition fat_ok :: "('s \<Rightarrow> bool) \<Rightarrow> nat set \<Rightarrow> 's fat \<Rightarrow> bool" where
  "fat_ok dev_ok lbas s \<longleftrightarrow>
     dev_ok (disk s) \<and> geom_ok (g_fs s) \<and> initialized (g_fs s) \<and> length (sector_buffer s) = 512 \<and>
     unat (g_partition_offset s) + 2 ^ 32 \<le> 2 ^ 64 \<and> volume_lbas s \<subseteq> lbas"

definition fat_lba :: "'s fat \<Rightarrow> u32 \<Rightarrow> nat" where
  "fat_lba s c = unat (g_partition_offset s) + unat (fat_begin_lba (g_fs s)) + 4 * unat c div 512"

definition fat_off :: "u32 \<Rightarrow> nat" where
  "fat_off c = 4 * unat c mod 512"

definition clu_lba :: "'s fat \<Rightarrow> u32 \<Rightarrow> nat \<Rightarrow> nat" where
  "clu_lba s c i = unat (g_partition_offset s) + unat (cluster_begin_lba (g_fs s)) +
     (unat c - 2) * unat (sectors_per_cluster (g_fs s)) + i"

definition fat_word :: "('s \<Rightarrow> nat \<Rightarrow> bytes) \<Rightarrow> 's fat \<Rightarrow> u32 \<Rightarrow> u32" where
  "fat_word sect s c = of_le (buf_get 4 (sect (disk s) (fat_lba s c)) (fat_off c))"

definition fat_map :: "('s \<Rightarrow> nat \<Rightarrow> bytes) \<Rightarrow> 's fat \<Rightarrow> u32 \<rightharpoonup> u32" where
  "fat_map sect s c = (if valid_cluster (g_fs s) c then Some (fat_word sect s c AND 0x0FFFFFFF) else None)"

definition data_map :: "('s \<Rightarrow> nat \<Rightarrow> bytes) \<Rightarrow> 's fat \<Rightarrow> u32 \<rightharpoonup> bytes" where
  "data_map sect s c =
     (if valid_cluster (g_fs s) c
      then Some (concat (map (\<lambda>i. sect (disk s) (clu_lba s c i)) [0..<unat (sectors_per_cluster (g_fs s))]))
      else None)"

definition same_volume :: "('s \<Rightarrow> nat \<Rightarrow> bytes) \<Rightarrow> 's fat \<Rightarrow> 's fat \<Rightarrow> bool" where
  "same_volume sect s t \<longleftrightarrow> g_fs t = g_fs s \<and> g_partition_offset t = g_partition_offset s \<and>
     g_free_clusters t = g_free_clusters s \<and> sect (disk t) = sect (disk s)"

definition free_dec :: "u32 \<Rightarrow> u32" where
  "free_dec n = (if n \<noteq> FREE_UNKNOWN \<and> n > 0 then n - 1 else n)"

definition free_inc :: "u32 \<Rightarrow> u32" where
  "free_inc n = (if n \<noteq> FREE_UNKNOWN then n + 1 else n)"

lemma valid_cluster_numbers:
  assumes "geom_ok g"
  shows "set (cluster_numbers g) = {c. valid_cluster g c}"
    "sorted (map unat (cluster_numbers g))" "distinct (cluster_numbers g)"
proof -
  have b: "unat (total_clusters g) + 2 < 0x0FFFFFF7" using assms by (simp add: geom_ok_def)
  then have "unat (total_clusters g) + unat (2 :: u32) < 2 ^ LENGTH(32)" by simp
  from unat_add_nowrap[OF this] have u: "unat (total_clusters g + 2) = unat (total_clusters g) + 2" by simp
  have m: "map unat (cluster_numbers g) = [2..<unat (total_clusters g) + 2]"
    unfolding cluster_numbers_def u map_map
    by (rule map_idI) (use b in \<open>auto simp: unat_of_nat\<close>)
  show "sorted (map unat (cluster_numbers g))" unfolding m by (rule sorted_upt)
  have "distinct (map unat (cluster_numbers g))" unfolding m by (rule distinct_upt)
  then show "distinct (cluster_numbers g)" by (simp add: distinct_map)
  have "valid_cluster g c \<longleftrightarrow> unat c \<in> unat ` set (cluster_numbers g)" for c
  proof -
    have "unat ` set (cluster_numbers g) = set [2..<unat (total_clusters g) + 2]"
      using m by (metis set_map)
    then show ?thesis by (auto simp: valid_cluster_def)
  qed
  then show "set (cluster_numbers g) = {c. valid_cluster g c}"
    by (auto simp flip: word_unat_eq_iff)
qed

definition frame :: "('s \<Rightarrow> nat \<Rightarrow> bytes) \<Rightarrow> 's fat \<Rightarrow> 's fat \<Rightarrow> bool" where
  "frame sect s t \<longleftrightarrow> g_fs t = g_fs s \<and> g_partition_offset t = g_partition_offset s \<and>
     (\<forall>l. l \<notin> volume_lbas s \<longrightarrow> sect (disk t) l = sect (disk s) l)"

definition mirrored :: "('s \<Rightarrow> nat \<Rightarrow> bytes) \<Rightarrow> 's fat \<Rightarrow> u32 \<Rightarrow> bool" where
  "mirrored sect t c \<longleftrightarrow> (num_fats (g_fs t) > 1 \<longrightarrow>
     sect (disk t) (fat_lba t c + unat (fat_size (g_fs t))) = sect (disk t) (fat_lba t c))"

lemma clu_lba_disk [simp]: "clu_lba (s\<lparr>disk := d\<rparr>) = clu_lba s" "fat_lba (s\<lparr>disk := d\<rparr>) = fat_lba s"
    "clu_lba (s\<lparr>sector_buffer := b\<rparr>) = clu_lba s" "fat_lba (s\<lparr>sector_buffer := b\<rparr>) = fat_lba s"
  by (auto simp: clu_lba_def fat_lba_def fun_eq_iff)

lemma geomD:
  assumes "geom_ok g"
  shows "1 \<le> unat (sectors_per_cluster g)" "unat (sectors_per_cluster g) \<le> 8"
    "8 \<le> unat (fat_begin_lba g)" "1 \<le> unat (num_fats g)"
    "unat (fat_begin_lba g) + unat (num_fats g) * unat (fat_size g) \<le> unat (cluster_begin_lba g)"
    "unat (cluster_begin_lba g) + unat (total_clusters g) * unat (sectors_per_cluster g) < 2 ^ 32"
    "4 * (unat (total_clusters g) + 2) \<le> 512 * unat (fat_size g)"
    "unat (total_clusters g) + 2 < 0x0FFFFFF7"
    "unat (fat_begin_lba g) + unat (fat_size g) \<le> unat (cluster_begin_lba g)"
proof -
  show "unat (fat_begin_lba g) + unat (fat_size g) \<le> unat (cluster_begin_lba g)"
  proof -
    have "1 * unat (fat_size g) \<le> unat (num_fats g) * unat (fat_size g)"
      by (rule mult_le_mono1) (use assms in \<open>simp add: geom_ok_def\<close>)
    then show ?thesis using assms unfolding geom_ok_def by linarith
  qed
qed (use assms in \<open>simp_all add: geom_ok_def\<close>)

lemma fat_sector_index:
  assumes "geom_ok g" "valid_cluster g c"
  shows "4 * unat c div 512 < unat (fat_size g)"
  using geomD(7)[OF assms(1)] assms(2) by (simp add: valid_cluster_def) linarith

lemma unat_fat_offset:
  assumes "geom_ok g" "valid_cluster g c"
  shows "unat (c * 4) = 4 * unat c"
proof -
  have "unat c * unat (4::u32) < 2 ^ LENGTH(32)"
    using geomD(8)[OF assms(1)] assms(2) by (simp add: valid_cluster_def)
  from unat_mult_nowrap[OF this] show ?thesis by simp
qed

lemma fat_off_le: "fat_off c + 4 \<le> 512"
proof -
  have "4 * unat c mod (4 * 128) = 4 * (unat c mod 128)"
    by (rule mult_mod_right[symmetric])
  moreover have "unat c mod 128 < 128" by simp
  ultimately show ?thesis by (simp add: fat_off_def)
qed

lemma fat_off_inj: "4 * unat c div 512 = 4 * unat d div 512 \<Longrightarrow> c \<noteq> d \<Longrightarrow>
  fat_off c + 4 \<le> fat_off d \<or> fat_off d + 4 \<le> fat_off c"
proof -
  assume a: "4 * unat c div 512 = 4 * unat d div 512" and "c \<noteq> d"
  then have ne: "unat c \<noteq> unat d" by (simp add: word_unat_eq_iff)
  have m: "4 * x mod (4 * 128) = 4 * (x mod 128)" for x :: nat by (rule mult_mod_right[symmetric])
  have "4 * x div (4 * 128) = x div (128::nat)" for x :: nat by simp
  then have "unat c div 128 = unat d div 128" using a by simp
  then have "unat c mod 128 \<noteq> unat d mod 128" using ne by (metis div_mult_mod_eq)
  then show ?thesis using m[of "unat c"] m[of "unat d"] by (simp add: fat_off_def) linarith
qed

lemma concat_map_len:
  "(\<And>i. i < n \<Longrightarrow> length (f i) = k) \<Longrightarrow> length (concat (map f [0..<n])) = n * k"
  by (induction n) auto

lemma fold_buf_put:
  assumes "\<And>i. i < n \<Longrightarrow> length (f i) = 512" "n * 512 \<le> length buf"
  shows "fold (\<lambda>i b. buf_put b (i * 512) (f i)) [0..<n] buf = buf_put buf 0 (concat (map f [0..<n]))"
  using assms
proof (induction n)
  case 0
  then show ?case by simp
next
  case (Suc n)
  have "length (concat (map f [0..<n])) = n * 512" by (rule concat_map_len) (simp add: Suc.prems)
  then show ?case using Suc buf_put_put[of 0 "concat (map f [0..<n])" "f n" buf] by simp
qed

lemma concat_buf_get:
  "n * 512 \<le> length buf \<Longrightarrow> concat (map (\<lambda>i. buf_get 512 buf (i * 512)) [0..<n]) = take (n * 512) buf"
proof (induction n)
  case 0
  then show ?case by simp
next
  case (Suc n)
  have "take (n * 512) buf @ buf_get 512 buf (n * 512) = take (n * 512 + 512) buf"
    by (simp add: buf_get_def take_add)
  then show ?case using Suc by (simp add: add.commute)
qed

fun sector_upd :: "(nat \<Rightarrow> nat) \<Rightarrow> (nat \<Rightarrow> bytes) \<Rightarrow> nat list \<Rightarrow> (nat \<Rightarrow> bytes) \<Rightarrow> nat \<Rightarrow> bytes" where
  "sector_upd A g [] f = f"
| "sector_upd A g (i # is) f = sector_upd A g is (f(A i := g i))"

lemma sector_upd_notin: "l \<notin> A ` set is \<Longrightarrow> sector_upd A g is f l = f l"
  by (induction "is" arbitrary: f) auto

lemma sector_upd_in:
  "inj_on A (set is) \<Longrightarrow> distinct is \<Longrightarrow> i \<in> set is \<Longrightarrow> sector_upd A g is f (A i) = g i"
proof (induction "is" arbitrary: f)
  case Nil
  then show ?case by simp
next
  case (Cons j js)
  show ?case
  proof (cases "i = j")
    case True
    with Cons.prems have "A i \<notin> A ` set js" by (auto simp: inj_on_def)
    with True show ?thesis by (simp add: sector_upd_notin)
  next
    case False
    with Cons show ?thesis by auto
  qed
qed

context block_device
begin

abbreviation "FM \<equiv> fat_map sect"
abbreviation "DM \<equiv> data_map sect"
abbreviation "ok \<equiv> fat_ok dev_ok lbas"

lemma okD:
  assumes "ok s"
  shows "dev_ok (disk s)" "geom_ok (g_fs s)" "length (sector_buffer s) = 512"
    "unat (g_partition_offset s) + 2 ^ 32 \<le> 2 ^ 64" "volume_lbas s \<subseteq> lbas" "initialized (g_fs s)"
  using assms by (auto simp: fat_ok_def)

lemma fat_sector_addr:
  assumes "ok s" "valid_cluster (g_fs s) c"
  shows "unat (g_partition_offset s + ucast (fat_begin_lba (g_fs s) + c * 4 div 512)) = fat_lba s c"
    "unat (c * 4 mod 512) = fat_off c"
    "fat_lba s c \<in> lbas" "fat_lba s c \<in> volume_lbas s"
proof -
  note g = geomD[OF okD(2)[OF assms(1)]]
  let ?i = "c * 4 div 512"
  have i: "unat ?i = 4 * unat c div 512"
    using unat_fat_offset[OF okD(2)[OF assms(1)] assms(2)] by (simp add: unat_div)
  have ilt: "unat ?i < unat (fat_size (g_fs s))"
    using fat_sector_index[OF okD(2)[OF assms(1)] assms(2)] i by simp
  have sum: "unat (fat_begin_lba (g_fs s) + ?i) = unat (fat_begin_lba (g_fs s)) + 4 * unat c div 512"
  proof -
    have "unat (fat_begin_lba (g_fs s)) + unat ?i < 2 ^ LENGTH(32)"
      using g(6) g(9) ilt by simp
    from unat_add_nowrap[OF this] i show ?thesis by simp
  qed
  have "unat (fat_begin_lba (g_fs s) + ?i) < 2 ^ 32" using unat_u32_bound[of "fat_begin_lba (g_fs s) + ?i"] by simp
  then have "unat (g_partition_offset s) + unat (ucast (fat_begin_lba (g_fs s) + ?i) :: u64) < 2 ^ LENGTH(64)"
    using okD(4)[OF assms(1)] by simp
  from unat_add_nowrap[OF this] sum
  show "unat (g_partition_offset s + ucast (fat_begin_lba (g_fs s) + ?i)) = fat_lba s c"
    by (simp add: fat_lba_def)
  show "unat (c * 4 mod 512) = fat_off c"
    using unat_fat_offset[OF okD(2)[OF assms(1)] assms(2)] by (simp add: fat_off_def unat_mod)
  show "fat_lba s c \<in> volume_lbas s"
    using ilt i g(9) by (simp add: fat_lba_def volume_lbas_def)
  then show "fat_lba s c \<in> lbas" using okD(5)[OF assms(1)] by blast
qed


abbreviation "same_vol \<equiv> same_volume sect"

lemma same_vol_refl [simp]: "same_vol s s"
  by (simp add: same_volume_def)

lemma same_vol_trans: "same_vol s t \<Longrightarrow> same_vol t u \<Longrightarrow> same_vol s u"
  by (simp add: same_volume_def)

lemma same_vol_maps: "same_vol s t \<Longrightarrow> FM t = FM s" "same_vol s t \<Longrightarrow> DM t = DM s"
  by (auto simp: same_volume_def fun_eq_iff fat_map_def data_map_def fat_word_def fat_lba_def clu_lba_def)

abbreviation "fr \<equiv> frame sect"

lemma fr_refl [simp]: "fr s s"
  by (simp add: frame_def)

lemma fr_trans: "fr s t \<Longrightarrow> fr t u \<Longrightarrow> fr s u"
  by (simp add: frame_def volume_lbas_def)

lemma fr_same: "same_vol s t \<Longrightarrow> fr s t"
  by (simp add: frame_def same_volume_def)

lemma ok_same:
  "ok s \<Longrightarrow> dev_ok d \<Longrightarrow> length b = 512 \<Longrightarrow> ok (s\<lparr>disk := d, sector_buffer := b\<rparr>)"
  "ok s \<Longrightarrow> dev_ok d \<Longrightarrow> ok (s\<lparr>disk := d\<rparr>)"
  by (auto simp: fat_ok_def volume_lbas_def)

lemma FM_valid: "FM s c = Some n \<Longrightarrow> valid_cluster (g_fs s) c"
  by (auto simp: fat_map_def split: if_splits)

lemma get_next:
  assumes "ok s" "FM s c = Some n"
  obtains t where "fat32_get_next_cluster ops c s = (n, t)" "ok t" "same_vol s t"
proof -
  from FM_valid[OF assms(2)] have v: "valid_cluster (g_fs s) c" .
  note a = fat_sector_addr[OF assms(1) v]
  obtain d where d: "block_read_sector ops (g_partition_offset s + ucast (fat_begin_lba (g_fs s) + c * 4 div 512))
      (sector_buffer s) (disk s) = (0, sect (disk s) (fat_lba s c), d)" "dev_ok d" "sect d = sect (disk s)"
    using read_sector[OF okD(1)[OF assms(1)] okD(3)[OF assms(1)]] a by metis
  show thesis
  proof (rule that)
    show "fat32_get_next_cluster ops c s = (n, s\<lparr>disk := d, sector_buffer := sect (disk s) (fat_lba s c)\<rparr>)"
      using assms(2) v d(1) a(2)
      by (simp add: fat32_get_next_cluster_def Let_def fat_map_def fat_word_def)
  qed (use assms(1) d okD(1) in \<open>auto intro!: ok_same simp: same_volume_def sect_len\<close>)
qed

lemma clu_addr:
  assumes "ok s" "valid_cluster (g_fs s) c" "i < unat (sectors_per_cluster (g_fs s))"
  shows "unat (g_partition_offset s + ucast (fat32_cluster_to_lba s c) + of_nat i) = clu_lba s c i"
    "clu_lba s c i \<in> lbas" "clu_lba s c i \<in> volume_lbas s"
proof -
  note g = geomD[OF okD(2)[OF assms(1)]]
  let ?g = "g_fs s"
  let ?spc = "unat (sectors_per_cluster ?g)"
  have c2: "unat (c - 2) = unat c - 2"
    using assms(2) by (subst unat_sub) (auto simp: valid_cluster_def word_le_nat_alt)
  have lt: "(unat c - 2) * ?spc + ?spc \<le> unat (total_clusters ?g) * ?spc"
  proof -
    have "Suc (unat c - 2) * ?spc \<le> unat (total_clusters ?g) * ?spc"
      by (rule mult_le_mono1) (use assms(2) in \<open>auto simp: valid_cluster_def\<close>)
    then show ?thesis by simp
  qed
  have m: "unat ((c - 2) * sectors_per_cluster ?g) = (unat c - 2) * ?spc"
  proof -
    have "unat (c - 2) * ?spc < 2 ^ LENGTH(32)" using lt g(6) c2 assms(3) by simp
    from unat_mult_nowrap[OF this] c2 show ?thesis by simp
  qed
  have l: "unat (fat32_cluster_to_lba s c) = unat (cluster_begin_lba ?g) + (unat c - 2) * ?spc"
  proof -
    have "unat (cluster_begin_lba ?g) + unat ((c - 2) * sectors_per_cluster ?g) < 2 ^ LENGTH(32)"
      using lt g(6) m assms(3) by simp
    from unat_add_nowrap[OF this] m show ?thesis by (simp add: fat32_cluster_to_lba_def)
  qed
  have b: "unat (cluster_begin_lba ?g) + (unat c - 2) * ?spc + i < 2 ^ 32"
    using lt g(6) assms(3) by simp
  have s1: "unat (g_partition_offset s + ucast (fat32_cluster_to_lba s c)) =
      unat (g_partition_offset s) + (unat (cluster_begin_lba ?g) + (unat c - 2) * ?spc)"
  proof -
    have "unat (g_partition_offset s) + unat (ucast (fat32_cluster_to_lba s c) :: u64) < 2 ^ LENGTH(64)"
      using okD(4)[OF assms(1)] b l by simp
    from unat_add_nowrap[OF this] l show ?thesis by simp
  qed
  have oi: "unat (of_nat i :: u64) = i" using b by (simp add: unat_of_nat)
  have "unat (g_partition_offset s + ucast (fat32_cluster_to_lba s c)) + unat (of_nat i :: u64) < 2 ^ LENGTH(64)"
    using okD(4)[OF assms(1)] b s1 oi by simp
  from unat_add_nowrap[OF this] s1 oi
  show "unat (g_partition_offset s + ucast (fat32_cluster_to_lba s c) + of_nat i) = clu_lba s c i"
    by (simp add: clu_lba_def)
  show "clu_lba s c i \<in> volume_lbas s" using lt assms(3) by (simp add: clu_lba_def volume_lbas_def)
  then show "clu_lba s c i \<in> lbas" using okD(5)[OF assms(1)] by blast
qed


lemma read_loop:
  assumes "ok s" "\<forall>i\<in>set is. i * 512 + 512 \<le> length buf"
    and "\<forall>i\<in>set is. unat (g_partition_offset s + ucast lba + of_nat i) = A i \<and> A i \<in> lbas"
  shows "\<exists>t. read_cluster_loop ops lba is buf s =
      Some (0, fold (\<lambda>i b. buf_put b (i * 512) (sect (disk s) (A i))) is buf, t) \<and> ok t \<and> same_vol s t"
  using assms
proof (induction "is" arbitrary: buf s)
  case Nil
  then show ?case by simp
next
  case (Cons i js)
  have len: "length (buf_get 512 buf (i * 512)) = 512" using Cons.prems(2) by simp
  obtain d where d: "block_read_sector ops (g_partition_offset s + ucast lba + of_nat i)
      (buf_get 512 buf (i * 512)) (disk s) = (0, sect (disk s) (A i), d)" "dev_ok d" "sect d = sect (disk s)"
    using read_sector[OF okD(1)[OF Cons.prems(1)] len] Cons.prems(3) by (metis list.set_intros(1))
  let ?b = "buf_put buf (i * 512) (sect (disk s) (A i))"
  have l: "length ?b = length buf"
    using Cons.prems(2) sect_len[OF okD(1)[OF Cons.prems(1)]] by simp
  have "\<exists>t. read_cluster_loop ops lba js ?b (s\<lparr>disk := d\<rparr>) =
      Some (0, fold (\<lambda>i b. buf_put b (i * 512) (sect (disk (s\<lparr>disk := d\<rparr>)) (A i))) js ?b, t) \<and>
      ok t \<and> same_vol (s\<lparr>disk := d\<rparr>) t"
    by (rule Cons.IH) (use Cons.prems d l ok_same(2) in auto)
  then show ?case using Cons.prems(2) d by (auto simp: same_volume_def)
qed

lemma write_loop:
  assumes "ok s" "\<forall>i\<in>set is. i * 512 + 512 \<le> length buf"
    and "\<forall>i\<in>set is. unat (g_partition_offset s + ucast lba + of_nat i) = A i \<and> A i \<in> lbas"
  shows "\<exists>d. write_cluster_loop ops lba is buf s = Some (0, s\<lparr>disk := d\<rparr>) \<and> dev_ok d \<and>
      sect d = sector_upd A (\<lambda>i. buf_get 512 buf (i * 512)) is (sect (disk s))"
  using assms
proof (induction "is" arbitrary: s)
  case Nil
  then show ?case using okD(1) by (intro exI[of _ "disk s"]) auto
next
  case (Cons i js)
  have len: "length (buf_get 512 buf (i * 512)) = 512" using Cons.prems(2) by simp
  obtain d where d: "block_write_sector ops (g_partition_offset s + ucast lba + of_nat i)
      (buf_get 512 buf (i * 512)) (disk s) = (0, d)" "dev_ok d"
      "sect d = (sect (disk s))(A i := buf_get 512 buf (i * 512))"
    using write_sector[OF okD(1)[OF Cons.prems(1)] len] Cons.prems(3) by (metis list.set_intros(1))
  have "\<exists>d'. write_cluster_loop ops lba js buf (s\<lparr>disk := d\<rparr>) = Some (0, s\<lparr>disk := d\<rparr>\<lparr>disk := d'\<rparr>) \<and>
      dev_ok d' \<and> sect d' = sector_upd A (\<lambda>i. buf_get 512 buf (i * 512)) js (sect (disk (s\<lparr>disk := d\<rparr>)))"
    by (rule Cons.IH) (use Cons.prems d ok_same(2) in auto)
  then show ?case using Cons.prems(2) d by auto
qed

abbreviation "csize s \<equiv> unat (sectors_per_cluster (g_fs s)) * 512"

lemma length_DM: "ok s \<Longrightarrow> DM s c = Some bs \<Longrightarrow> length bs = csize s"
  using sect_len okD(1)
  by (auto simp: data_map_def split: if_splits intro!: concat_map_len)

lemma csize_le: "ok s \<Longrightarrow> csize s \<le> 4096" "ok s \<Longrightarrow> 512 \<le> csize s"
  using geomD(1,2)[OF okD(2)] by auto

lemma read_cluster:
  assumes "ok s" "DM s c = Some bs" "length buf = 4096"
  obtains t where "fat32_read_cluster ops c buf s = Some (0, buf_put buf 0 bs, t)" "ok t" "same_vol s t"
proof -
  let ?n = "unat (sectors_per_cluster (g_fs s))"
  have v: "valid_cluster (g_fs s) c" and bs: "bs = concat (map (\<lambda>i. sect (disk s) (clu_lba s c i)) [0..<?n])"
    using assms(2) by (auto simp: data_map_def split: if_splits)
  have n8: "?n * 512 \<le> length buf" using csize_le[OF assms(1)] assms(3) by simp
  obtain t where t: "read_cluster_loop ops (fat32_cluster_to_lba s c) [0..<?n] buf s =
      Some (0, fold (\<lambda>i b. buf_put b (i * 512) (sect (disk s) (clu_lba s c i))) [0..<?n] buf, t)"
      "ok t" "same_vol s t"
    using read_loop[OF assms(1), of "[0..<?n]" buf "fat32_cluster_to_lba s c" "clu_lba s c"]
      clu_addr[OF assms(1) v] n8 by auto
  have "fold (\<lambda>i b. buf_put b (i * 512) (sect (disk s) (clu_lba s c i))) [0..<?n] buf = buf_put buf 0 bs"
    unfolding bs by (rule fold_buf_put) (use sect_len okD(1)[OF assms(1)] n8 in auto)
  then show thesis using that t by (simp add: fat32_read_cluster_def)
qed


lemma clu_lba_inj:
  assumes "ok s" "valid_cluster (g_fs s) c" "valid_cluster (g_fs s) c'"
    "i < unat (sectors_per_cluster (g_fs s))" "i' < unat (sectors_per_cluster (g_fs s))"
    "clu_lba s c i = clu_lba s c' i'"
  shows "c = c' \<and> i = i'"
proof -
  let ?n = "unat (sectors_per_cluster (g_fs s))"
  have e: "(unat c - 2) * ?n + i = (unat c' - 2) * ?n + i'"
    using assms(6) by (simp add: clu_lba_def)
  have "((unat c - 2) * ?n + i) div ?n = unat c - 2" "((unat c' - 2) * ?n + i') div ?n = unat c' - 2"
    using assms(4,5) by auto
  with e have "unat c - 2 = unat c' - 2" by simp
  then have "unat c = unat c'" using assms(2,3) by (auto simp: valid_cluster_def)
  then show ?thesis using e by (simp add: word_unat_eq_iff)
qed

lemma fat_lba_below:
  assumes "ok s" "valid_cluster (g_fs s) c"
  shows "fat_lba s c < unat (g_partition_offset s) + unat (cluster_begin_lba (g_fs s))"
    "fat_lba s c + unat (fat_size (g_fs s)) < unat (g_partition_offset s) + unat (cluster_begin_lba (g_fs s)) + unat (fat_size (g_fs s))"
  using fat_sector_index[OF okD(2)[OF assms(1)] assms(2)] geomD(9)[OF okD(2)[OF assms(1)]]
  by (simp_all add: fat_lba_def)

lemma write_cluster:
  assumes "ok s" "valid_cluster (g_fs s) c" "length buf = 4096"
  obtains d where "fat32_write_cluster ops c buf s = Some (0, s\<lparr>disk := d\<rparr>)" "ok (s\<lparr>disk := d\<rparr>)"
    "FM (s\<lparr>disk := d\<rparr>) = FM s" "DM (s\<lparr>disk := d\<rparr>) = (DM s)(c \<mapsto> take (csize s) buf)"
    "fr s (s\<lparr>disk := d\<rparr>)"
proof -
  let ?n = "unat (sectors_per_cluster (g_fs s))"
  have n8: "?n * 512 \<le> length buf" using csize_le[OF assms(1)] assms(3) by simp
  obtain d where d: "write_cluster_loop ops (fat32_cluster_to_lba s c) [0..<?n] buf s = Some (0, s\<lparr>disk := d\<rparr>)"
      "dev_ok d" "sect d = sector_upd (clu_lba s c) (\<lambda>i. buf_get 512 buf (i * 512)) [0..<?n] (sect (disk s))"
    using write_loop[OF assms(1), of "[0..<?n]" buf "fat32_cluster_to_lba s c" "clu_lba s c"]
      clu_addr[OF assms(1,2)] n8 by auto
  let ?t = "s\<lparr>disk := d\<rparr>"
  have inj: "inj_on (clu_lba s c) (set [0..<?n])" by (simp add: inj_on_def clu_lba_def)
  have low: "sect d l = sect (disk s) l"
    if "l < unat (g_partition_offset s) + unat (cluster_begin_lba (g_fs s))" for l
    unfolding d(3) by (rule sector_upd_notin) (use that in \<open>auto simp: clu_lba_def\<close>)
  have hit: "sect d (clu_lba s c i) = buf_get 512 buf (i * 512)" if "i < ?n" for i
    unfolding d(3) using sector_upd_in[OF inj] that by simp
  have miss: "sect d (clu_lba s c' i) = sect (disk s) (clu_lba s c' i)"
    if "c' \<noteq> c" "valid_cluster (g_fs s) c'" "i < ?n" for c' i
    unfolding d(3)
  proof (rule sector_upd_notin, rule notI)
    assume "clu_lba s c' i \<in> clu_lba s c ` set [0..<?n]"
    then obtain x where "x < ?n" "clu_lba s c' i = clu_lba s c x" by auto
    then have "c' = c" using clu_lba_inj[OF assms(1) that(2) assms(2) that(3)] by blast
    with that(1) show False by contradiction
  qed
  have "FM ?t c' = FM s c'" for c'
    using low[OF fat_lba_below(1)[OF assms(1), of c']]
    by (auto simp: fat_map_def fat_word_def fat_lba_def)
  moreover have "DM ?t c' = ((DM s)(c \<mapsto> take (csize s) buf)) c'" for c'
  proof (cases "c' = c")
    case True
    have m: "map (\<lambda>i. sect d (clu_lba s c i)) [0..<?n] = map (\<lambda>i. buf_get 512 buf (i * 512)) [0..<?n]"
      using hit by simp
    have "concat (map (\<lambda>i. sect d (clu_lba s c i)) [0..<?n]) = take (?n * 512) buf"
      unfolding m by (rule concat_buf_get[OF n8])
    with True assms(2) show ?thesis by (simp add: data_map_def)
  next
    case False
    have "concat (map (\<lambda>i. sect d (clu_lba s c' i)) [0..<?n]) = concat (map (\<lambda>i. sect (disk s) (clu_lba s c' i)) [0..<?n])"
      if "valid_cluster (g_fs s) c'" by (rule arg_cong[where f = concat]) (use miss[OF False that] in simp)
    with False show ?thesis by (simp add: data_map_def)
  qed
  moreover have "fr s ?t"
  proof -
    have "sect d l = sect (disk s) l" if "l \<notin> volume_lbas s" for l
      unfolding d(3)
      by (rule sector_upd_notin) (use that clu_addr(3)[OF assms(1,2)] in auto)
    then show ?thesis by (simp add: frame_def)
  qed
  ultimately show thesis
    using that[of d] d(1,2) ok_same(2)[OF assms(1)]
    by (auto simp: fat32_write_cluster_def fun_eq_iff)
qed

lemma backup_addr:
  assumes "ok s" "valid_cluster (g_fs s) c" "num_fats (g_fs s) > 1"
  shows "unat (g_partition_offset s + ucast (fat_begin_lba (g_fs s) + c * 4 div 512 + fat_size (g_fs s))) =
      fat_lba s c + unat (fat_size (g_fs s))"
    "fat_lba s c + unat (fat_size (g_fs s)) \<in> volume_lbas s"
    "fat_lba s c + unat (fat_size (g_fs s)) < unat (g_partition_offset s) + unat (cluster_begin_lba (g_fs s))"
proof -
  note g = geomD[OF okD(2)[OF assms(1)]]
  let ?i = "c * 4 div 512" and ?f = "fat_size (g_fs s)" and ?b = "fat_begin_lba (g_fs s)"
  have i: "unat ?i = 4 * unat c div 512"
    using unat_fat_offset[OF okD(2)[OF assms(1)] assms(2)] by (simp add: unat_div)
  have ilt: "unat ?i < unat ?f" using fat_sector_index[OF okD(2)[OF assms(1)] assms(2)] i by simp
  have "2 * unat ?f \<le> unat (num_fats (g_fs s)) * unat ?f"
    by (rule mult_le_mono1) (use assms(3) in \<open>simp add: word_less_nat_alt\<close>)
  then have top: "unat ?b + 2 * unat ?f \<le> unat (cluster_begin_lba (g_fs s))" using g(5) by linarith
  have "unat ?b + unat ?i < 2 ^ LENGTH(32)" using top ilt g(6) by simp
  from unat_add_nowrap[OF this] have s1: "unat (?b + ?i) = unat ?b + unat ?i" .
  have "unat (?b + ?i) + unat ?f < 2 ^ LENGTH(32)" using s1 top ilt g(6) by simp
  from unat_add_nowrap[OF this] s1 i have s2: "unat (?b + ?i + ?f) = unat ?b + 4 * unat c div 512 + unat ?f" by simp
  have "unat (g_partition_offset s) + unat (ucast (?b + ?i + ?f) :: u64) < 2 ^ LENGTH(64)"
    using okD(4)[OF assms(1)] unat_u32_bound[of "?b + ?i + ?f"] by simp
  from unat_add_nowrap[OF this] s2
  show "unat (g_partition_offset s + ucast (?b + ?i + ?f)) = fat_lba s c + unat ?f"
    by (simp add: fat_lba_def)
  show lt: "fat_lba s c + unat ?f < unat (g_partition_offset s) + unat (cluster_begin_lba (g_fs s))"
    using top ilt i by (simp add: fat_lba_def)
  then show "fat_lba s c + unat ?f \<in> volume_lbas s"
    by (simp add: fat_lba_def volume_lbas_def)
qed

lemma fat_sector_other:
  assumes "ok s" "valid_cluster (g_fs s) c" "valid_cluster (g_fs s) c'"
  shows "fat_lba s c' \<noteq> fat_lba s c + unat (fat_size (g_fs s))"
  using fat_sector_index[OF okD(2)[OF assms(1)] assms(3)] by (simp add: fat_lba_def)

lemma fat_word_upd:
  assumes "ok s" "valid_cluster (g_fs s) c" "c' \<noteq> c" "fat_lba s c' = fat_lba s c" "length sec = 512"
  shows "buf_get 4 (buf_put sec (fat_off c) (to_le 4 (v :: u32))) (fat_off c') = buf_get 4 sec (fat_off c')"
  by (rule buf_get_put_other)
     (use assms(4,5) fat_off_le[of c] fat_off_inj[of c' c] assms(3) in \<open>auto simp: fat_lba_def\<close>)

abbreviation "fat_entry \<equiv> fat_word sect"

lemma set_next_views:
  assumes "ok s" "valid_cluster (g_fs s) c" "dev_ok d" "length b = 512"
    and hit: "sect d (fat_lba s c) = buf_put (sect (disk s) (fat_lba s c)) (fat_off c)
      (to_le 4 ((fat_entry s c AND 0xF0000000) OR (n AND 0x0FFFFFFF)))"
    and miss: "\<And>l. l \<noteq> fat_lba s c \<Longrightarrow>
      num_fats (g_fs s) > 1 \<and> l = fat_lba s c + unat (fat_size (g_fs s)) \<or> sect d l = sect (disk s) l"
  defines "t \<equiv> s\<lparr>disk := d, sector_buffer := b\<rparr>"
  shows "ok t" "fr s t" "FM t = (FM s)(c \<mapsto> n AND 0x0FFFFFFF)" "DM t = DM s"
    "fat_entry t c AND 0xF0000000 = fat_entry s c AND 0xF0000000"
proof -
  show "ok t" unfolding t_def by (rule ok_same(1)[OF assms(1,3,4)])
  show "fr s t"
    using miss backup_addr(2)[OF assms(1,2)] fat_sector_addr(4)[OF assms(1,2)]
    by (auto simp: frame_def t_def) metis
  have len: "length (sect (disk s) (fat_lba s c)) = 512" using sect_len okD(1)[OF assms(1)] by blast
  have w: "fat_entry t c = (fat_entry s c AND 0xF0000000) OR (n AND 0x0FFFFFFF)"
    using fat_off_le[of c] len by (simp add: fat_word_def t_def hit)
  show "fat_entry t c AND 0xF0000000 = fat_entry s c AND 0xF0000000" by (simp add: w nibble_high)
  have same: "fat_entry t c' = fat_entry s c'" if "c' \<noteq> c" "valid_cluster (g_fs s) c'" for c'
  proof (cases "fat_lba s c' = fat_lba s c")
    case True
    then show ?thesis
      using fat_word_upd[OF assms(1,2) that(1) True len] hit
      by (simp add: fat_word_def t_def)
  next
    case False
    then show ?thesis
      using miss[OF False] fat_sector_other[OF assms(1,2) that(2)] by (simp add: fat_word_def t_def)
  qed
  show "FM t = (FM s)(c \<mapsto> n AND 0x0FFFFFFF)"
  proof
    fix c'
    show "FM t c' = ((FM s)(c \<mapsto> n AND 0x0FFFFFFF)) c'"
      using same[of c'] w assms(2) by (cases "c' = c") (auto simp: fat_map_def nibble_low t_def)
  qed
  have "sect d (clu_lba s c' i) = sect (disk s) (clu_lba s c' i)" for c' i
    using miss[of "clu_lba s c' i"] fat_lba_below(1)[OF assms(1,2)] backup_addr(3)[OF assms(1,2)]
    by (auto simp: clu_lba_def)
  then show "DM t = DM s"
    by (simp add: fun_eq_iff data_map_def t_def)
qed

lemma set_next:
  assumes "ok s" "valid_cluster (g_fs s) c"
  obtains t where "fat32_set_next_cluster ops c n s = (0, t)" "ok t" "fr s t"
    "FM t = (FM s)(c \<mapsto> n AND 0x0FFFFFFF)" "DM t = DM s" "g_free_clusters t = g_free_clusters s"
    "fat_entry t c AND 0xF0000000 = fat_entry s c AND 0xF0000000" "mirrored sect t c"
proof -
  note a = fat_sector_addr[OF assms]
  obtain d where d: "block_read_sector ops (g_partition_offset s + ucast (fat_begin_lba (g_fs s) + c * 4 div 512))
      (sector_buffer s) (disk s) = (0, sect (disk s) (fat_lba s c), d)" "dev_ok d" "sect d = sect (disk s)"
    using read_sector[OF okD(1)[OF assms(1)] okD(3)[OF assms(1)]] a by metis
  have len: "length (sect (disk s) (fat_lba s c)) = 512" using sect_len okD(1)[OF assms(1)] by blast
  define sec where "sec = buf_put (sect (disk s) (fat_lba s c)) (fat_off c)
      (to_le 4 ((fat_entry s c AND 0xF0000000) OR (n AND 0x0FFFFFFF)))"
  have sl: "length sec = 512" using len fat_off_le[of c] by (simp add: sec_def)
  obtain d1 where d1: "block_write_sector ops (g_partition_offset s + ucast (fat_begin_lba (g_fs s) + c * 4 div 512))
      sec d = (0, d1)" "dev_ok d1" "sect d1 = (sect (disk s))(fat_lba s c := sec)"
    using write_sector[OF d(2) sl] a d(3) by metis
  show thesis
  proof (cases "num_fats (g_fs s) > 1")
    case False
    let ?t = "s\<lparr>disk := d1, sector_buffer := sec\<rparr>"
    have eq: "fat32_set_next_cluster ops c n s = (0, ?t)"
      using d(1) d1(1) a(2) False
      by (simp add: fat32_set_next_cluster_def Let_def sec_def fat_word_def)
    note v = set_next_views[OF assms d1(2) sl, of n]
    show thesis
      by (rule that[OF eq]) (use v d1(3) False in \<open>auto simp: sec_def mirrored_def\<close>)
  next
    case True
    note b = backup_addr[OF assms True]
    have blba: "fat_lba s c + unat (fat_size (g_fs s)) \<in> lbas" using b(2) okD(5)[OF assms(1)] by blast
    obtain d2 where d2: "block_write_sector ops
        (g_partition_offset s + ucast (fat_begin_lba (g_fs s) + c * 4 div 512 + fat_size (g_fs s))) sec d1 = (0, d2)"
        "dev_ok d2" "sect d2 = (sect d1)(fat_lba s c + unat (fat_size (g_fs s)) := sec)"
      using write_sector[OF d1(2) sl] b(1) blba by metis
    have pos: "0 < unat (fat_size (g_fs s))"
      using fat_sector_index[OF okD(2)[OF assms(1)] assms(2)] by linarith
    let ?t = "s\<lparr>disk := d2, sector_buffer := sec\<rparr>"
    have eq: "fat32_set_next_cluster ops c n s = (0, ?t)"
      using d(1) d1(1) d2(1) a(2) True
      by (simp add: fat32_set_next_cluster_def Let_def sec_def fat_word_def)
    note v = set_next_views[OF assms d2(2) sl, of n]
    show thesis
      by (rule that[OF eq])
         (use v d1(3) d2(3) True pos in \<open>auto simp: sec_def mirrored_def\<close>)
  qed
qed

lemma ok_free: "ok s \<Longrightarrow> ok (s\<lparr>g_free_clusters := n\<rparr>)"
  by (auto simp: fat_ok_def volume_lbas_def)

lemma free_views [simp]:
  "FM (s\<lparr>g_free_clusters := n\<rparr>) = FM s" "DM (s\<lparr>g_free_clusters := n\<rparr>) = DM s"
  "fr s (t\<lparr>g_free_clusters := n\<rparr>) = fr s t" "fr (s\<lparr>g_free_clusters := n\<rparr>) t = fr s t"
  by (auto simp: fun_eq_iff fat_map_def data_map_def fat_word_def fat_lba_def clu_lba_def frame_def volume_lbas_def)

lemma free_cluster:
  assumes "ok s" "valid_cluster (g_fs s) c"
  obtains t where "fat32_free_cluster ops c s = (0, t)" "ok t" "fr s t"
    "FM t = (FM s)(c \<mapsto> 0)" "DM t = DM s" "g_free_clusters t = free_inc (g_free_clusters s)"
proof -
  obtain t where t: "fat32_set_next_cluster ops c 0 s = (0, t)" "ok t" "fr s t"
    "FM t = (FM s)(c \<mapsto> 0)" "DM t = DM s" "g_free_clusters t = g_free_clusters s"
    by (rule set_next[OF assms, of 0]) simp
  show thesis
    by (rule that[of "if g_free_clusters t \<noteq> FREE_UNKNOWN then t\<lparr>g_free_clusters := g_free_clusters t + 1\<rparr> else t"])
       (use t in \<open>auto simp: fat32_free_cluster_def free_inc_def intro: ok_free\<close>)
qed

lemma alloc_loop_hit:
  assumes "ok s" "\<forall>x\<in>set pre. \<exists>n. FM s x = Some n \<and> n \<noteq> 0" "FM s c = Some 0"
  shows "\<exists>t. allocate_loop ops (pre @ c # post) s = (c, t) \<and> ok t \<and> fr s t \<and>
    FM t = (FM s)(c \<mapsto> FAT32_EOC) \<and> DM t = DM s \<and> g_free_clusters t = free_dec (g_free_clusters s)"
  using assms
proof (induction pre arbitrary: s)
  case Nil
  obtain t where t: "fat32_get_next_cluster ops c s = (0, t)" "ok t" "same_vol s t"
    using get_next[OF Nil.prems(1,3)] by blast
  have v: "valid_cluster (g_fs t) c" using FM_valid[OF Nil.prems(3)] t(3) by (simp add: same_volume_def)
  obtain u where u: "fat32_set_next_cluster ops c FAT32_EOC t = (0, u)" "ok u" "fr t u"
    "FM u = (FM t)(c \<mapsto> FAT32_EOC)" "DM u = DM t" "g_free_clusters u = g_free_clusters t"
    by (rule set_next[OF t(2) v, of FAT32_EOC]) simp
  have e: "g_free_clusters t = g_free_clusters s" using t(3) by (simp add: same_volume_def)
  show ?case
    using t u e same_vol_maps[OF t(3)] fr_trans[OF fr_same[OF t(3)] u(3)]
    by (auto simp: free_dec_def intro: ok_free)
next
  case (Cons x pre)
  then obtain n where n: "FM s x = Some n" "n \<noteq> 0" by auto
  obtain t where t: "fat32_get_next_cluster ops x s = (n, t)" "ok t" "same_vol s t"
    using get_next[OF Cons.prems(1) n(1)] by blast
  have "\<exists>u. allocate_loop ops (pre @ c # post) t = (c, u) \<and> ok u \<and> fr t u \<and>
    FM u = (FM t)(c \<mapsto> FAT32_EOC) \<and> DM u = DM t \<and> g_free_clusters u = free_dec (g_free_clusters t)"
    by (rule Cons.IH) (use Cons.prems t same_vol_maps[OF t(3)] in auto)
  then show ?case
    using t(1) n(2) same_vol_maps[OF t(3)] fr_trans[OF fr_same[OF t(3)]] t(3)
    by (auto simp: same_volume_def)
qed

lemma alloc_loop_miss:
  assumes "ok s" "\<forall>x\<in>set cs. \<exists>n. FM s x = Some n \<and> n \<noteq> 0"
  shows "\<exists>t. allocate_loop ops cs s = (0, t) \<and> ok t \<and> same_vol s t"
  using assms
proof (induction cs arbitrary: s)
  case Nil
  then show ?case by simp
next
  case (Cons x cs)
  then obtain n where n: "FM s x = Some n" "n \<noteq> 0" by auto
  obtain t where t: "fat32_get_next_cluster ops x s = (n, t)" "ok t" "same_vol s t"
    using get_next[OF Cons.prems(1) n(1)] by blast
  have "\<exists>u. allocate_loop ops cs t = (0, u) \<and> ok u \<and> same_vol t u"
    by (rule Cons.IH) (use Cons.prems t same_vol_maps[OF t(3)] in auto)
  then show ?case using t n same_vol_trans by auto
qed

lemma FM_defined: "valid_cluster (g_fs s) x \<Longrightarrow> \<exists>n. FM s x = Some n"
  by (simp add: fat_map_def)

lemma allocate_none:
  assumes "ok s" "\<forall>c. FM s c \<noteq> Some 0"
  obtains t where "fat32_allocate_cluster ops s = (0, t)" "ok t" "same_vol s t"
proof -
  have "\<forall>x\<in>set (cluster_numbers (g_fs s)). \<exists>n. FM s x = Some n \<and> n \<noteq> 0"
    using valid_cluster_numbers(1)[OF okD(2)[OF assms(1)]] FM_defined assms(2) by fastforce
  from alloc_loop_miss[OF assms(1) this] that show thesis
    by (auto simp: fat32_allocate_cluster_def)
qed

lemma allocate_some:
  assumes "ok s" "FM s c0 = Some 0"
  obtains c t where "fat32_allocate_cluster ops s = (c, t)" "FM s c = Some 0"
    "\<forall>c'. FM s c' = Some 0 \<longrightarrow> c \<le> c'" "ok t" "fr s t"
    "FM t = (FM s)(c \<mapsto> FAT32_EOC)" "DM t = DM s" "g_free_clusters t = free_dec (g_free_clusters s)"
proof -
  let ?cs = "cluster_numbers (g_fs s)"
  note v = valid_cluster_numbers[OF okD(2)[OF assms(1)]]
  have mem: "c' \<in> set ?cs" if "FM s c' = Some 0" for c'
    using FM_valid[OF that] v(1) by simp
  obtain pre c post where split: "?cs = pre @ c # post" "FM s c = Some 0" "\<forall>x\<in>set pre. FM s x \<noteq> Some 0"
    using split_list_first_prop[of ?cs "\<lambda>x. FM s x = Some 0"] mem[OF assms(2)] assms(2) by blast
  have pre: "\<forall>x\<in>set pre. \<exists>n. FM s x = Some n \<and> n \<noteq> 0"
    using split v(1) FM_defined by fastforce
  have least: "c \<le> c'" if "FM s c' = Some 0" for c'
  proof -
    have "c' \<in> set (c # post)" using mem[OF that] split that by auto
    then show ?thesis using v(2) split(1) by (auto simp: sorted_append word_le_nat_alt)
  qed
  from alloc_loop_hit[OF assms(1) pre split(2), of post] split(1)
  show thesis using that[of c] split(2) least by (auto simp: fat32_allocate_cluster_def)
qed

end

end
