(* ===== verification/Fat32_Dirs.thy ===== *)
theory Fat32_Dirs
  imports Fat32_Table
begin

text \<open>
  Cluster chains and directories.  A chain is a list of clusters linked through the allocation table
  and closed by an end-of-chain mark; it is unique, free of repetitions and never contains a free
  cluster.  A directory is the list of the 32-byte slots of its chain; \<open>dir_lookup\<close> is what a name
  search means on that list, and \<open>scan_choice\<close> what the search for a place to write an entry means.
  The chain-walking loops \<^verbatim>\<open>fat32_find_entry\<close> and the scan of \<^verbatim>\<open>fat32_write_file_in\<close> compute them.
\<close>

unbundle bit_operations_syntax

fun chain :: "(u32 \<rightharpoonup> u32) \<Rightarrow> u32 \<Rightarrow> u32 list \<Rightarrow> bool" where
  "chain m c [] \<longleftrightarrow> FAT32_EOC \<le> c"
| "chain m c (x # xs) \<longleftrightarrow> c = x \<and> in_chain x \<and> (case m x of None \<Rightarrow> False | Some n \<Rightarrow> chain m n xs)"

lemma chain_unique: "chain m c xs \<Longrightarrow> chain m c ys \<Longrightarrow> xs = ys"
proof (induction xs arbitrary: c ys)
  case Nil
  then show ?case by (cases ys) (auto simp: in_chain_def)
next
  case (Cons x xs)
  then show ?case by (cases ys) (auto simp: in_chain_def split: option.splits)
qed

lemma chain_suffix: "chain m c (xs @ y # ys) \<Longrightarrow> chain m y (y # ys)"
proof (induction xs arbitrary: c)
  case Nil
  then show ?case by simp
next
  case (Cons x xs)
  then obtain n where "chain m n (xs @ y # ys)" by (auto split: option.splits)
  then show ?case by (rule Cons.IH)
qed

lemma chain_distinct: "chain m c xs \<Longrightarrow> distinct xs"
proof (induction xs arbitrary: c)
  case Nil
  then show ?case by simp
next
  case (Cons x xs)
  then have d: "distinct xs" by (auto split: option.splits)
  have "x \<notin> set xs"
  proof
    assume "x \<in> set xs"
    then obtain us vs where "xs = us @ x # vs" by (meson split_list)
    then have "chain m x (x # vs)" using Cons.prems chain_suffix[of m c "x # us" x vs] by auto
    moreover have "chain m x (x # xs)" using Cons.prems by auto
    ultimately have "vs = xs" using chain_unique by blast
    with \<open>xs = us @ x # vs\<close> show False by simp
  qed
  with d show ?case by simp
qed

lemma chain_used: "chain m c xs \<Longrightarrow> x \<in> set xs \<Longrightarrow> \<exists>n. m x = Some n \<and> n \<noteq> 0"
proof (induction xs arbitrary: c)
  case Nil
  then show ?case by simp
next
  case (Cons y ys)
  then obtain n where n: "m y = Some n" "chain m n ys" by (auto split: option.splits)
  then have "n \<noteq> 0" by (cases ys) (auto simp: in_chain_def)
  with Cons n show ?case by auto
qed

lemma chain_cong: "(\<And>x. x \<in> set xs \<Longrightarrow> m' x = m x) \<Longrightarrow> chain m c xs = chain m' c xs"
  by (induction xs arbitrary: c) (auto split: option.splits)

lemma not_in_chain_eoc: "FAT32_EOC \<le> c \<Longrightarrow> \<not> in_chain c"
  by (auto simp: in_chain_def)

text \<open>Directories as lists of slots: the cluster, the index in it and the entry there.\<close>

type_synonym dslot = "u32 \<times> nat \<times> fat32_dir_entry"

definition cluster_slots :: "(u32 \<rightharpoonup> bytes) \<Rightarrow> nat \<Rightarrow> u32 \<Rightarrow> dslot list" where
  "cluster_slots D epc c = map (\<lambda>i. (c, i, entry_at (the (D c)) i)) [0..<epc]"

definition dir_slots :: "(u32 \<rightharpoonup> bytes) \<Rightarrow> nat \<Rightarrow> u32 list \<Rightarrow> dslot list" where
  "dir_slots D epc cs = concat (map (cluster_slots D epc) cs)"

definition slot_used :: "dslot \<Rightarrow> bool" where
  "slot_used sl = (case sl of (c, i, e) \<Rightarrow> name0 e \<noteq> 0)"

definition slot_match :: "bytes \<Rightarrow> dslot \<Rightarrow> bool" where
  "slot_match name sl = (case sl of (c, i, e) \<Rightarrow>
     name0 e \<noteq> 0xE5 \<and> de_attr e AND ATTR_VOLUME_ID = 0 \<and> de_name e = name)"

definition slot_same_name :: "bytes \<Rightarrow> dslot \<Rightarrow> bool" where
  "slot_same_name name sl = (case sl of (c, i, e) \<Rightarrow> name0 e \<noteq> 0xE5 \<and> de_name e = name)"

definition slot_free :: "dslot \<Rightarrow> bool" where
  "slot_free sl = (case sl of (c, i, e) \<Rightarrow> name0 e = 0 \<or> name0 e = 0xE5)"

definition dir_lookup :: "bytes \<Rightarrow> dslot list \<Rightarrow> dslot option" where
  "dir_lookup name sls = List.find (slot_match name) (takeWhile slot_used sls)"

lemma entry_at_prefix:
  assumes "32 * Suc i \<le> length bs" "length bs \<le> length buf"
  shows "entry_at (buf_put buf 0 bs) i = entry_at bs i"
  using assms by (simp add: entry_at_def buf_get_def buf_put_def min_def)

fun find_result :: "u32 \<Rightarrow> bytes \<Rightarrow> nat list \<Rightarrow> bytes \<Rightarrow> find_res" where
  "find_result c bs is name =
     (case List.find (slot_match name) (takeWhile slot_used (map (\<lambda>i. (c, i, entry_at bs i)) is)) of
        Some (_, i, _) \<Rightarrow> Find_at i
      | None \<Rightarrow> if \<forall>i\<in>set is. name0 (entry_at bs i) \<noteq> 0 then Find_more else Find_end)"

lemma find_loop_eq: "find_loop bs name is = find_result c bs is name"
  by (induction "is") (auto simp: Let_def slot_used_def slot_match_def split: option.splits)

lemma find_loop_cong:
  "(\<And>i. i \<in> set is \<Longrightarrow> entry_at b i = entry_at b' i) \<Longrightarrow> find_loop b name is = find_loop b' name is"
  by (induction "is") (auto simp: Let_def)

lemma find_loop_at: "find_loop b name is = Find_at i \<Longrightarrow> i \<in> set is"
  by (induction "is") (auto simp: Let_def split: if_splits)

lemma dir_lookup_Cons:
  "dir_lookup name (dir_slots D epc (c # cs)) =
     (case find_loop (the (D c)) name [0..<epc] of
        Find_at i \<Rightarrow> Some (c, i, entry_at (the (D c)) i)
      | Find_end \<Rightarrow> None
      | Find_more \<Rightarrow> dir_lookup name (dir_slots D epc cs))"
proof -
  let ?xs = "cluster_slots D epc c"
  have all: "(\<forall>x\<in>set ?xs. slot_used x) \<longleftrightarrow> (\<forall>i\<in>set [0..<epc]. name0 (entry_at (the (D c)) i) \<noteq> 0)"
    by (auto simp: cluster_slots_def slot_used_def)
  have hit: "\<exists>i. x = (c, i, entry_at (the (D c)) i)" if "List.find P (takeWhile Q ?xs) = Some x" for x P Q
  proof -
    from that have "x \<in> set (takeWhile Q ?xs)" by (auto simp: find_Some_iff)
    then have "x \<in> set ?xs" by (meson set_takeWhileD)
    then show ?thesis by (auto simp: cluster_slots_def)
  qed
  show ?thesis
  proof (cases "\<forall>x\<in>set ?xs. slot_used x")
    case True
    then have tw: "takeWhile slot_used ?xs = ?xs" "takeWhile slot_used (?xs @ ys) = ?xs @ takeWhile slot_used ys" for ys
      by (auto simp: takeWhile_append)
    with True all hit[of "slot_match name" slot_used] show ?thesis
      unfolding find_loop_eq[where c = c]
      by (auto simp: tw dir_lookup_def dir_slots_def find_append cluster_slots_def[symmetric] split: option.splits)
  next
    case False
    then have tw: "takeWhile slot_used (?xs @ ys) = takeWhile slot_used ?xs" for ys
      by (auto simp: takeWhile_append)
    with False all hit[of "slot_match name" slot_used] show ?thesis
      unfolding find_loop_eq[where c = c]
      by (auto simp: dir_lookup_def dir_slots_def cluster_slots_def[symmetric] split: option.splits)
  qed
qed

context block_device
begin

lemma epc: "ok s \<Longrightarrow> entries_per_cluster s = csize s div 32" "ok s \<Longrightarrow> unat (cluster_bytes s) = csize s"
  "ok s \<Longrightarrow> 32 * entries_per_cluster s = csize s"
proof -
  assume "ok s"
  then have "unat (sectors_per_cluster (g_fs s)) \<le> 8" using geomD(2)[OF okD(2)] by blast
  then have "unat (sectors_per_cluster (g_fs s)) * unat (512 :: u32) < 2 ^ LENGTH(32)" by simp
  from unat_mult_nowrap[OF this] show 1: "unat (cluster_bytes s) = csize s"
    by (simp add: cluster_bytes_def)
  then show "entries_per_cluster s = csize s div 32"
    by (simp add: entries_per_cluster_def cluster_bytes_def)
  then show "32 * entries_per_cluster s = csize s" by simp
qed

lemma epc_geom: "g_fs t = g_fs s \<Longrightarrow> entries_per_cluster t = entries_per_cluster s"
  by (simp add: entries_per_cluster_def)

lemma chain_DM: "ok s \<Longrightarrow> chain (FM s) c (x # xs) \<Longrightarrow> \<exists>bs. DM s x = Some bs"
  by (auto simp: data_map_def fat_map_def split: option.splits if_splits)

lemma entry_at_cluster:
  assumes "ok s" "DM s c = Some bs" "length buf = 4096" "i < entries_per_cluster s"
  shows "entry_at (buf_put buf 0 bs) i = entry_at bs i"
proof (rule entry_at_prefix)
  show "32 * Suc i \<le> length bs" using length_DM[OF assms(1,2)] epc(3)[OF assms(1)] assms(4) by simp
  show "length bs \<le> length buf" using length_DM[OF assms(1,2)] csize_le(1)[OF assms(1)] assms(3) by simp
qed

definition as_found :: "dslot \<Rightarrow> fat32_dir_entry \<times> u32 \<times> nat" where
  "as_found sl = (case sl of (c, i, e) \<Rightarrow> (e, c, i))"

lemma chain_step:
  assumes "ok s" "chain (FM s) cur (c # cs)"
  obtains n bs s1 s2 where "cur = c" "in_chain c" "FM s c = Some n" "chain (FM s) n cs" "DM s c = Some bs"
    "length bs = csize s"
    "fat32_read_cluster ops c (replicate 4096 0) s = Some (0, buf_put (replicate 4096 0) 0 bs, s1)"
    "ok s1" "same_vol s s1" "entries_per_cluster s1 = entries_per_cluster s"
    "fat32_get_next_cluster ops c s1 = (n, s2)" "ok s2" "same_vol s s2"
    "FM s2 = FM s" "DM s2 = DM s" "entries_per_cluster s2 = entries_per_cluster s"
proof -
  from assms(2) obtain n where n: "cur = c" "in_chain c" "FM s c = Some n" "chain (FM s) n cs"
    by (auto split: option.splits)
  obtain bs where bs: "DM s c = Some bs" using chain_DM[OF assms] by blast
  have len: "length (replicate 4096 (0 :: u8)) = 4096" by simp
  obtain s1 where s1: "fat32_read_cluster ops c (replicate 4096 0) s = Some (0, buf_put (replicate 4096 0) 0 bs, s1)"
      "ok s1" "same_vol s s1"
    by (rule read_cluster[OF assms(1) bs len])
  have "FM s1 c = Some n" using n(3) same_vol_maps[OF s1(3)] by simp
  then obtain s2 where s2: "fat32_get_next_cluster ops c s1 = (n, s2)" "ok s2" "same_vol s1 s2"
    by (rule get_next[OF s1(2)])
  have t: "same_vol s s2" by (rule same_vol_trans[OF s1(3) s2(3)])
  show thesis
    by (rule that[OF n bs length_DM[OF assms(1) bs] s1 epc_geom s2(1,2) t same_vol_maps[OF t] epc_geom])
       (use s1(3) t in \<open>simp_all add: same_volume_def\<close>)
qed

lemma find_entry:
  assumes "ok s" "chain (FM s) cur ds"
  shows "\<exists>t. fat32_find_entry ops cur name s =
      Some (map_option as_found (dir_lookup name (dir_slots (DM s) (entries_per_cluster s) ds)), t) \<and>
      ok t \<and> same_vol s t"
  using assms
proof (induction ds arbitrary: cur s)
  case Nil
  then show ?case
    using not_in_chain_eoc[of cur]
    by (subst fat32_find_entry.simps) (auto simp: dir_lookup_def dir_slots_def)
next
  case (Cons c cs)
  obtain n bs s1 s2 where st: "cur = c" "in_chain c" "chain (FM s) n cs" "DM s c = Some bs"
    "fat32_read_cluster ops c (replicate 4096 0) s = Some (0, buf_put (replicate 4096 0) 0 bs, s1)"
    "ok s1" "same_vol s s1" "entries_per_cluster s1 = entries_per_cluster s"
    "fat32_get_next_cluster ops c s1 = (n, s2)" "ok s2" "same_vol s s2"
    "FM s2 = FM s" "DM s2 = DM s" "entries_per_cluster s2 = entries_per_cluster s"
    by (rule chain_step[OF Cons.prems])
  have ea: "entry_at (buf_put (replicate 4096 0) 0 bs) i = entry_at bs i" if "i < entries_per_cluster s" for i
    using entry_at_cluster[OF Cons.prems(1) st(4) _ that, of "replicate 4096 0"] by simp
  have fl: "find_loop (buf_put (replicate 4096 0) 0 bs) name [0..<entries_per_cluster s] =
      find_loop bs name [0..<entries_per_cluster s]"
    by (rule find_loop_cong) (simp add: ea)
  note step = fat32_find_entry.simps[of ops c name s]
  show ?case
  proof (cases "find_loop bs name [0..<entries_per_cluster s]")
    case Find_end
    then show ?thesis using st fl by (simp add: step dir_lookup_Cons)
  next
    case (Find_at i)
    then show ?thesis using st fl find_loop_at[OF Find_at] ea[of i]
      by (simp add: step dir_lookup_Cons as_found_def)
  next
    case Find_more
    have "\<exists>t. fat32_find_entry ops n name s2 =
      Some (map_option as_found (dir_lookup name (dir_slots (DM s2) (entries_per_cluster s2) cs)), t) \<and> ok t \<and> same_vol s2 t"
      by (rule Cons.IH) (use st in auto)
    then obtain t where "fat32_find_entry ops n name s2 =
      Some (map_option as_found (dir_lookup name (dir_slots (DM s) (entries_per_cluster s) cs)), t)" "ok t" "same_vol s2 t"
      using st by auto
    then show ?thesis using st fl Find_more same_vol_trans[OF st(11)]
      by (simp add: step dir_lookup_Cons)
  qed
qed

end

definition kept :: "(nat \<Rightarrow> fat32_dir_entry \<Rightarrow> bool) \<Rightarrow> dslot \<Rightarrow> bool" where
  "kept skip sl = (case sl of (c, i, e) \<Rightarrow> \<not> skip i e)"

definition scan_choice :: "(dslot \<Rightarrow> slot) \<Rightarrow> dslot list \<Rightarrow> slot \<Rightarrow> slot" where
  "scan_choice mk sls sl =
     (if entry_cluster sl \<noteq> 0 then sl
      else case List.find slot_free sls of None \<Rightarrow> sl | Some x \<Rightarrow> mk x)"

definition scan_result :: "(dslot \<Rightarrow> slot) \<Rightarrow> bytes \<Rightarrow> dslot list \<Rightarrow> slot \<Rightarrow> scan_res" where
  "scan_result mk name sls sl =
     (case List.find (slot_same_name name) (takeWhile slot_used sls) of
        Some (_, i, _) \<Rightarrow> Scan_exists i
      | None \<Rightarrow> if \<forall>x\<in>set sls. slot_used x then Scan_more (scan_choice mk sls sl)
                else Scan_end (scan_choice mk sls sl))"

lemma scan_result_end: "\<not> slot_used x \<Longrightarrow> scan_result mk name (x # xs) sl = Scan_end (if entry_cluster sl \<noteq> 0 then sl else mk x)"
  by (auto simp: scan_result_def scan_choice_def slot_used_def slot_free_def)

lemma scan_result_exists:
  "slot_used x \<Longrightarrow> slot_same_name name x \<Longrightarrow> scan_result mk name (x # xs) sl = Scan_exists (fst (snd x))"
  by (auto simp: scan_result_def split: prod.splits)

lemma scan_result_step:
  assumes "slot_used x" "\<not> slot_same_name name x" "scan_choice mk (x # xs) sl = scan_choice mk' xs sl'"
  shows "scan_result mk name (x # xs) sl = scan_result mk' name xs sl'"
  using assms
  by (cases "List.find (slot_same_name name) (takeWhile slot_used xs)") (auto simp: scan_result_def)

lemma scan_result_skip:
  "slot_used x \<Longrightarrow> \<not> slot_same_name name x \<Longrightarrow> \<not> slot_free x \<Longrightarrow>
   scan_result mk name (x # xs) sl = scan_result mk name xs sl"
  by (rule scan_result_step) (simp_all add: scan_choice_def)

lemma scan_result_taken:
  "entry_cluster sl \<noteq> 0 \<Longrightarrow> scan_result mk name xs sl = scan_result mk' name xs sl"
  unfolding scan_result_def by (simp add: scan_choice_def cong: option.case_cong if_cong)

lemma scan_result_deleted:
  assumes "slot_used x" "slot_free x" "entry_cluster (mk x) \<noteq> 0"
  shows "scan_result mk name (x # xs) sl = scan_result mk name xs (if entry_cluster sl \<noteq> 0 then sl else mk x)"
proof -
  have "\<not> slot_same_name name x"
    using assms by (auto simp: slot_same_name_def slot_free_def slot_used_def)
  with assms show ?thesis by (intro scan_result_step) (auto simp: scan_choice_def)
qed

lemma scan_loop_eq:
  "c \<noteq> 0 \<Longrightarrow> scan_loop c buf n name skip is sl =
     scan_result (\<lambda>(c, i, e). take_slot c i buf n sl) name
       (filter (kept skip) (map (\<lambda>i. (c, i, entry_at buf i)) is)) sl"
proof (induction "is" arbitrary: sl)
  case Nil
  then show ?case by (simp add: scan_result_def scan_choice_def)
next
  case (Cons i js)
  let ?e = "entry_at buf i" and ?t = "take_slot c i buf n sl" and ?mk = "\<lambda>(c, i, e). take_slot c i buf n sl"
  have t: "entry_cluster ?t \<noteq> 0" using Cons.prems by (simp add: take_slot_def)
  show ?case
  proof (cases "skip i ?e")
    case True
    with Cons show ?thesis by (simp add: kept_def Let_def)
  next
    case False
    then have k: "kept skip (c, i, ?e)" by (simp add: kept_def)
    consider "name0 ?e = 0" | "name0 ?e = 0xE5" | "name0 ?e \<noteq> 0" "name0 ?e \<noteq> 0xE5" "de_name ?e = name"
      | "name0 ?e \<noteq> 0" "name0 ?e \<noteq> 0xE5" "de_name ?e \<noteq> name" by blast
    then show ?thesis
    proof cases
      case 1
      then have "\<not> slot_used (c, i, ?e)" by (simp add: slot_used_def)
      with 1 False k show ?thesis by (auto simp: Let_def scan_result_end)
    next
      case 2
      then have u: "slot_used (c, i, ?e)" "slot_free (c, i, ?e)" by (simp_all add: slot_used_def slot_free_def)
      have "scan_loop c buf n name skip js ?t = scan_result ?mk name (filter (kept skip) (map (\<lambda>i. (c, i, entry_at buf i)) js)) ?t"
        by (subst Cons.IH[OF Cons.prems]) (rule scan_result_taken[OF t])
      with 2 False k u t Cons.IH[OF Cons.prems, of sl] show ?thesis
        by (simp add: Let_def scan_result_deleted)
    next
      case 3
      then have "slot_used (c, i, ?e)" "slot_same_name name (c, i, ?e)" by (simp_all add: slot_used_def slot_same_name_def)
      with 3 False k show ?thesis by (simp add: Let_def scan_result_exists)
    next
      case 4
      then have "slot_used (c, i, ?e)" "\<not> slot_same_name name (c, i, ?e)" "\<not> slot_free (c, i, ?e)"
        by (simp_all add: slot_used_def slot_same_name_def slot_free_def)
      with 4 False k Cons show ?thesis by (simp add: Let_def scan_result_skip)
    qed
  qed
qed

text \<open>Scanning one cluster after another is scanning the concatenation.\<close>

lemma find_takeWhile_append:
  "List.find P (takeWhile Q (xs @ ys)) =
     (case List.find P (takeWhile Q xs) of
        Some x \<Rightarrow> Some x
      | None \<Rightarrow> if \<forall>x\<in>set xs. Q x then List.find P (takeWhile Q ys) else None)"
proof (cases "\<forall>x\<in>set xs. Q x")
  case True
  then have "takeWhile Q xs = xs" "takeWhile Q (xs @ ys) = xs @ takeWhile Q ys" by (auto simp: takeWhile_append)
  with True show ?thesis by (simp only: find_append) simp
next
  case False
  then have "takeWhile Q (xs @ ys) = takeWhile Q xs" by (auto simp: takeWhile_append)
  with False show ?thesis by (cases "List.find P (takeWhile Q xs)") auto
qed

lemma scan_choice_append:
  assumes "\<And>x. x \<in> set xs \<Longrightarrow> entry_cluster (mk x) \<noteq> 0"
  shows "scan_choice mk (xs @ ys) sl =
     (if \<forall>x\<in>set xs. slot_used x then scan_choice mk ys (scan_choice mk xs sl) else scan_choice mk xs sl)"
proof (cases "\<forall>x\<in>set xs. slot_used x")
  case True
  have "scan_choice mk (xs @ ys) sl = scan_choice mk ys (scan_choice mk xs sl)"
    using assms by (cases "List.find slot_free xs"; cases "List.find slot_free ys")
      (auto simp: scan_choice_def find_append dest!: find_SomeD)
  with True show ?thesis by simp
next
  case False
  then obtain x where "x \<in> set xs" "slot_free x" by (auto simp: slot_used_def slot_free_def)
  then have "List.find slot_free xs \<noteq> None" unfolding find_None_iff by blast
  then have "scan_choice mk (xs @ ys) sl = scan_choice mk xs sl"
    by (auto simp: scan_choice_def find_append)
  with False show ?thesis by auto
qed

definition sl_of :: "(u32 \<rightharpoonup> bytes) \<Rightarrow> dslot \<Rightarrow> slot" where
  "sl_of D x = (case x of (c, i, e) \<Rightarrow>
     \<lparr>entry_cluster = c, entry_index = i,
      write_dir_buffer = the (D c) @ replicate (4096 - length (the (D c))) 0\<rparr>)"

definition slot_inv :: "nat \<Rightarrow> slot \<Rightarrow> bool" where
  "slot_inv n sl \<longleftrightarrow> length (write_dir_buffer sl) = 4096 \<and>
     drop n (write_dir_buffer sl) = replicate (4096 - n) 0"

lemma slot_inv_no_slot: "slot_inv n no_slot"
  by (simp add: slot_inv_def no_slot_def)

lemma take_slot_sl_of:
  assumes "slot_inv n sl" "D c = Some bs" "length bs = n" "n \<le> 4096"
  shows "take_slot c i (buf_put (replicate 4096 0) 0 bs) n sl = sl_of D (c, i, e)"
  using assms by (simp add: take_slot_def sl_of_def slot_inv_def buf_put_def buf_get_def)

lemma slot_inv_sl_of: "D c = Some bs \<Longrightarrow> length bs = n \<Longrightarrow> n \<le> 4096 \<Longrightarrow> slot_inv n (sl_of D (c, i, e))"
  by (simp add: slot_inv_def sl_of_def)

lemma scan_result_cong:
  assumes "\<And>x. x \<in> set sls \<Longrightarrow> mk x = mk' x"
  shows "scan_result mk name sls sl = scan_result mk' name sls sl"
proof -
  have "scan_choice mk sls sl = scan_choice mk' sls sl"
    using assms by (cases "List.find slot_free sls") (auto simp: scan_choice_def dest!: find_SomeD)
  then show ?thesis
    by (cases "List.find (slot_same_name name) (takeWhile slot_used sls)") (auto simp: scan_result_def)
qed

lemma scan_choice_inv:
  assumes "slot_inv n sl" "\<And>x. x \<in> set sls \<Longrightarrow> slot_inv n (mk x)"
  shows "slot_inv n (scan_choice mk sls sl)"
  using assms by (cases "List.find slot_free sls") (auto simp: scan_choice_def dest!: find_SomeD)

lemma scan_result_more: "scan_result mk name sls sl = Scan_more sl' \<Longrightarrow> sl' = scan_choice mk sls sl"
  by (auto simp: scan_result_def split: option.splits if_splits)

lemma cluster_slotsD: "(c', i, e) \<in> set (cluster_slots D n c) \<Longrightarrow> c' = c \<and> i < n \<and> e = entry_at (the (D c)) i"
  by (auto simp: cluster_slots_def)

lemma dir_slotsD: "(c, i, e) \<in> set (dir_slots D n cs) \<Longrightarrow> c \<in> set cs \<and> i < n \<and> e = entry_at (the (D c)) i"
  by (auto simp: dir_slots_def dest: cluster_slotsD)

lemma dir_slots_Cons: "dir_slots D n (c # cs) = cluster_slots D n c @ dir_slots D n cs"
  by (simp add: dir_slots_def)

lemma scan_loop_cong:
  "(\<And>i. i \<in> set is \<Longrightarrow> entry_at b i = entry_at b' i) \<Longrightarrow>
   map (\<lambda>i. (c, i, entry_at b i)) is = map (\<lambda>i. (c, i, entry_at b' i)) is"
  by simp

lemma in_chain_nonzero: "in_chain c \<Longrightarrow> c \<noteq> 0"
  by (auto simp: in_chain_def)

lemma slots_nonzero: "in_chain c \<Longrightarrow> x \<in> set (cluster_slots D n c) \<Longrightarrow> entry_cluster (sl_of D x) \<noteq> 0"
  by (cases x) (auto simp: sl_of_def dest!: cluster_slotsD in_chain_nonzero)

context block_device
begin

lemma scan_cluster:
  assumes "ok s" "DM s c = Some bs" "in_chain c" "slot_inv (csize s) sl"
  shows "scan_loop c (buf_put (replicate 4096 0) 0 bs) (csize s) name skip [0..<entries_per_cluster s] sl =
     scan_result (sl_of (DM s)) name (filter (kept skip) (cluster_slots (DM s) (entries_per_cluster s) c)) sl"
proof -
  let ?b = "buf_put (replicate 4096 0) 0 bs"
  have "map (\<lambda>i. (c, i, entry_at ?b i)) [0..<entries_per_cluster s] = cluster_slots (DM s) (entries_per_cluster s) c"
    using entry_at_cluster[OF assms(1,2), of "replicate 4096 0"] assms(2) by (simp add: cluster_slots_def)
  then have "scan_loop c ?b (csize s) name skip [0..<entries_per_cluster s] sl =
      scan_result (\<lambda>(c, i, e). take_slot c i ?b (csize s) sl) name
        (filter (kept skip) (cluster_slots (DM s) (entries_per_cluster s) c)) sl"
    using scan_loop_eq[OF in_chain_nonzero[OF assms(3)]] by simp
  also have "\<dots> = scan_result (sl_of (DM s)) name (filter (kept skip) (cluster_slots (DM s) (entries_per_cluster s) c)) sl"
    using take_slot_sl_of[where D = "DM s", OF assms(4,2) length_DM[OF assms(1,2)] csize_le(1)[OF assms(1)]]
    by (intro scan_result_cong) (auto dest!: cluster_slotsD)
  finally show ?thesis .
qed

lemma scan_inv:
  assumes "ok s" "DM s c = Some bs" "slot_inv (csize s) sl"
  shows "slot_inv (csize s) (scan_choice (sl_of (DM s)) (filter P (cluster_slots (DM s) n c)) sl)"
  by (rule scan_choice_inv[OF assms(3)])
     (use slot_inv_sl_of[where D = "DM s", OF assms(2) length_DM[OF assms(1,2)] csize_le(1)[OF assms(1)]] in
       \<open>auto dest!: cluster_slotsD\<close>)

definition write_scan_spec :: "(u32 \<rightharpoonup> bytes) \<Rightarrow> bytes \<Rightarrow> dslot list \<Rightarrow> slot \<Rightarrow> 's fat \<Rightarrow> (int \<times> slot \<times> 's fat) option" where
  "write_scan_spec D name sls sl t =
     (case List.find (slot_same_name name) (takeWhile slot_used sls) of
        None \<Rightarrow> Some (0, scan_choice (sl_of D) sls sl, t)
      | Some (c, i, e) \<Rightarrow> do {
          s2 \<leftarrow> free_chain ops (first_cluster_of e) t;
          Some (0, sl_of D (c, i, e), s2)
        })"

lemma write_scan_spec_append:
  assumes "\<And>x. x \<in> set xs \<Longrightarrow> entry_cluster (sl_of D x) \<noteq> 0"
    "List.find (slot_same_name name) (takeWhile slot_used xs) = None"
  shows "write_scan_spec D name (xs @ ys) sl t =
     (if \<forall>x\<in>set xs. slot_used x then write_scan_spec D name ys (scan_choice (sl_of D) xs sl) t
      else Some (0, scan_choice (sl_of D) xs sl, t))"
proof -
  have "scan_choice (sl_of D) (xs @ ys) sl = (if \<forall>x\<in>set xs. slot_used x
      then scan_choice (sl_of D) ys (scan_choice (sl_of D) xs sl) else scan_choice (sl_of D) xs sl)"
    by (rule scan_choice_append) (rule assms(1))
  then show ?thesis
    unfolding write_scan_spec_def find_takeWhile_append assms(2)
    by (cases "\<forall>x\<in>set xs. slot_used x"; cases "List.find (slot_same_name name) (takeWhile slot_used ys)") auto
qed

lemma write_scan_run:
  assumes "ok s" "chain (FM s) cur ds" "slot_inv (csize s) sl"
  shows "\<exists>t. ok t \<and> same_vol s t \<and> write_scan ops name cur sl s =
     write_scan_spec (DM s) name (dir_slots (DM s) (entries_per_cluster s) ds) sl t"
  using assms
proof (induction ds arbitrary: cur s sl)
  case Nil
  then show ?case
    using not_in_chain_eoc[of cur] by (subst write_scan.simps) (auto simp: dir_slots_def scan_choice_def write_scan_spec_def)
next
  case (Cons c cs)
  obtain n bs s1 s2 where st: "cur = c" "in_chain c" "chain (FM s) n cs" "DM s c = Some bs"
    "fat32_read_cluster ops c (replicate 4096 0) s = Some (0, buf_put (replicate 4096 0) 0 bs, s1)"
    "ok s1" "same_vol s s1" "entries_per_cluster s1 = entries_per_cluster s"
    "fat32_get_next_cluster ops c s1 = (n, s2)" "ok s2" "same_vol s s2"
    "FM s2 = FM s" "DM s2 = DM s" "entries_per_cluster s2 = entries_per_cluster s"
    by (rule chain_step[OF Cons.prems(1,2)])
  let ?xs = "cluster_slots (DM s) (entries_per_cluster s) c" and ?ys = "dir_slots (DM s) (entries_per_cluster s) cs"
  let ?b = "buf_put (replicate 4096 0) 0 bs"
  have cb: "unat (cluster_bytes s1) = csize s" using epc(2)[OF st(6)] st(7) by (simp add: same_volume_def)
  have "filter (kept (\<lambda>_ _. False)) ?xs = ?xs" by (simp add: kept_def filter_id_conv)
  then have sc: "scan_loop c ?b (csize s) name (\<lambda>_ _. False) [0..<entries_per_cluster s] sl =
      scan_result (sl_of (DM s)) name ?xs sl"
    using scan_cluster[OF Cons.prems(1) st(4,2) Cons.prems(3), of name "\<lambda>_ _. False"] by simp
  note step = write_scan.simps[of ops name c sl s]
  show ?case
  proof (cases "List.find (slot_same_name name) (takeWhile slot_used ?xs)")
    case (Some x)
    obtain i where i: "x = (c, i, entry_at bs i)" "i < entries_per_cluster s"
      using find_SomeD[OF Some] st(4) by (cases x) (auto dest!: set_takeWhileD cluster_slotsD)
    have e: "entry_at ?b i = entry_at bs i" "take_slot c i ?b (csize s) sl = sl_of (DM s) (c, i, entry_at bs i)"
      using entry_at_cluster[OF Cons.prems(1) st(4) _ i(2), of "replicate 4096 0"]
        take_slot_sl_of[where D = "DM s", OF Cons.prems(3) st(4) length_DM[OF Cons.prems(1) st(4)] csize_le(1)[OF Cons.prems(1)]]
      by simp_all
    have "scan_result (sl_of (DM s)) name ?xs sl = Scan_exists i"
      using Some i by (simp add: scan_result_def)
    then show ?thesis using st sc cb e Some i(1)
      by (intro exI[of _ s1]) (simp add: step dir_slots_Cons write_scan_spec_def find_takeWhile_append)
  next
    case None
    note ap = write_scan_spec_append[OF slots_nonzero[OF st(2)] None]
    let ?sl = "scan_choice (sl_of (DM s)) ?xs sl"
    show ?thesis
    proof (cases "\<forall>x\<in>set ?xs. slot_used x")
      case True
      have "csize s2 = csize s" using st(11) by (simp add: same_volume_def)
      then have "slot_inv (csize s2) ?sl"
        using scan_inv[OF Cons.prems(1) st(4) Cons.prems(3), of "\<lambda>_. True"] by simp
      from Cons.IH[OF st(10) _ this, of n] st obtain t where
        t: "ok t" "same_vol s2 t" "write_scan ops name n ?sl s2 = write_scan_spec (DM s) name ?ys ?sl t"
        by auto
      have "scan_result (sl_of (DM s)) name ?xs sl = Scan_more ?sl" using True None by (simp add: scan_result_def)
      then show ?thesis using st sc cb t(1,3) same_vol_trans[OF st(11) t(2)] True None
        by (intro exI[of _ t]) (simp add: step dir_slots_Cons ap)
    next
      case False
      have "scan_result (sl_of (DM s)) name ?xs sl = Scan_end ?sl" using False None by (simp add: scan_result_def)
      then show ?thesis using st sc cb False None
        by (intro exI[of _ s1]) (auto simp: step dir_slots_Cons ap)
    qed
  qed
qed

end

subsection \<open>Directory entries and their update\<close>

lemma length_dir_entry_bytes: "length (de_name e) = 11 \<Longrightarrow> length (dir_entry_bytes e) = 32"
  by (simp add: dir_entry_bytes_def)

lemma dir_entry_roundtrip:
  assumes "length (de_name e) = 11"
  shows "dir_entry_of (dir_entry_bytes e) = e"
  using assms
  by (cases e) (simp add: dir_entry_of_def dir_entry_bytes_def buf_get_skip buf_get_here buf_get_all buf_get_Cons nth_append)

lemma entry_at_set_same:
  assumes "length (de_name e) = 11" "32 * Suc i \<le> length buf"
  shows "entry_at (set_entry buf i e) i = e"
proof -
  have "buf_get 32 (set_entry buf i e) (32 * i) = dir_entry_bytes e"
    unfolding set_entry_def by (rule buf_get_put_same) (use assms length_dir_entry_bytes in auto)
  then show ?thesis using dir_entry_roundtrip[OF assms(1)] by (simp add: entry_at_def)
qed

lemma entry_at_set_other:
  assumes "length (de_name e) = 11" "32 * Suc i \<le> length buf" "j \<noteq> i"
  shows "entry_at (set_entry buf i e) j = entry_at buf j"
proof -
  have "buf_get 32 (set_entry buf i e) (32 * j) = buf_get 32 buf (32 * j)"
    unfolding set_entry_def
    by (rule buf_get_put_other) (use assms length_dir_entry_bytes[OF assms(1)] in auto)
  then show ?thesis by (simp add: entry_at_def)
qed

lemma hi_lo_word:
  "push_bit 16 (ucast (ucast (drop_bit 16 c AND 0xFFFF) :: u16)) OR ucast (ucast (c AND 0xFFFF) :: u16) = (c :: u32)"
proof -
  have m: "(0xFFFF :: u32) = mask 16" by (simp add: mask_eq_exp_minus_1)
  show ?thesis unfolding m by (rule bit_word_eqI) (auto simp: bit_simps)
qed

lemma first_cluster_file_entry: "first_cluster_of (file_entry n c sz) = c"
  unfolding first_cluster_of_def file_entry_def by (simp add: hi_lo_word)

lemma first_cluster_dir_entry_for: "first_cluster_of (dir_entry_for n c) = c"
  unfolding first_cluster_of_def dir_entry_for_def by (simp add: hi_lo_word)

lemma name_loop_length: "name_loop name stop lim i j f = (k, g) \<Longrightarrow> length g = length f"
  by (induction name stop lim i j f rule: name_loop.induct) (subst (asm) (2) name_loop.simps, auto split: if_splits)

lemma length_name_to_fat: "length (name_to_fat name) = 11"
  by (auto simp: name_to_fat_def dest: name_loop_length split: prod.splits)
     (metis length_replicate name_loop_length surj_pair snd_conv)

lemma name_loop_low: "name_loop name stop lim i j f = (k, g) \<Longrightarrow> x < j \<Longrightarrow> g ! x = f ! x"
  by (induction name stop lim i j f rule: name_loop.induct) (subst (asm) (2) name_loop.simps, auto split: if_splits)

lemma name_to_fat_first:
  "name_to_fat name ! 0 = (if cchar name 0 = 0 \<or> cchar name 0 = 0x2E then 0x20 else fat_upper (cchar name 0))"
proof -
  obtain i f where f: "name_loop name (\<lambda>c. c = 0x2E) 8 0 0 (replicate 11 0x20) = (i, f)" by (cases "name_loop name (\<lambda>c. c = 0x2E) 8 0 0 (replicate 11 0x20)")
  have "name_to_fat name ! 0 = f ! 0"
  proof (cases "cchar name i = 0x2E")
    case True
    obtain k g where g: "name_loop name (\<lambda>c. False) 11 (Suc i) 8 f = (k, g)" by (cases "name_loop name (\<lambda>c. False) 11 (Suc i) 8 f")
    with f True name_loop_low[OF g, of 0] show ?thesis by (simp add: name_to_fat_def)
  qed (simp add: name_to_fat_def f)
  also have "f ! 0 = (if cchar name 0 = 0 \<or> cchar name 0 = 0x2E then 0x20 else fat_upper (cchar name 0))"
  proof (cases "cchar name 0 = 0 \<or> cchar name 0 = 0x2E")
    case True
    with f show ?thesis by (subst (asm) name_loop.simps) auto
  next
    case False
    with f have "name_loop name (\<lambda>c. c = 0x2E) 8 1 1 ((replicate 11 0x20)[0 := fat_upper (cchar name 0)]) = (i, f)"
      by (subst (asm) name_loop.simps) simp
    from name_loop_low[OF this, of 0] False show ?thesis by simp
  qed
  finally show ?thesis .
qed

lemma name_to_fat_nonzero: "name_to_fat name ! 0 \<noteq> 0"
proof -
  have "fat_upper c \<noteq> 0" if "c \<noteq> 0" for c
    using that by (auto simp: fat_upper_def word_le_nat_alt word_unat_eq_iff unat_sub)
  then show ?thesis by (simp add: name_to_fat_first)
qed

lemma name0_name_to_fat: "de_name e = name_to_fat name \<Longrightarrow> name0 e \<noteq> 0"
  by (simp add: name0_def name_to_fat_nonzero)

lemma dir_slots_map:
  assumes "\<And>c' j. c' \<in> set ds \<Longrightarrow> j < n \<Longrightarrow>
    entry_at (the (D' c')) j = (if c' = c \<and> j = i then e else entry_at (the (D c')) j)"
  shows "dir_slots D' n ds = map (\<lambda>(c', j, x). if c' = c \<and> j = i then (c, i, e) else (c', j, x)) (dir_slots D n ds)"
  using assms by (induction ds) (auto simp: dir_slots_def cluster_slots_def)

lemma dir_slots_keys: "distinct ds \<Longrightarrow> distinct (map (\<lambda>(c, i, e). (c, i)) (dir_slots D n ds))"
proof (induction ds)
  case Nil
  then show ?case by (simp add: dir_slots_def)
next
  case (Cons c cs)
  have "distinct (map (\<lambda>(c, i, e). (c, i)) (cluster_slots D n c))"
    by (simp add: cluster_slots_def comp_def distinct_map inj_on_def)
  moreover have "set (map (\<lambda>(c, i, e). (c, i)) (cluster_slots D n c)) \<inter>
      set (map (\<lambda>(c, i, e). (c, i)) (dir_slots D n cs)) = {}"
    using Cons.prems by (auto dest!: cluster_slotsD dir_slotsD)
  ultimately show ?case using Cons by (simp add: dir_slots_Cons)
qed

lemma dir_slots_update:
  assumes "distinct ds" "dir_slots D n ds = pre @ (c, i, e0) # post"
    "\<And>c' j. c' \<in> set ds \<Longrightarrow> j < n \<Longrightarrow>
      entry_at (the (D' c')) j = (if c' = c \<and> j = i then e else entry_at (the (D c')) j)"
  shows "dir_slots D' n ds = pre @ (c, i, e) # post"
proof -
  let ?u = "\<lambda>(c', j, x). if c' = c \<and> j = i then (c, i, e) else (c', j, x)"
  have k: "(c, i) \<notin> set (map (\<lambda>(c, i, e). (c, i)) pre)" "(c, i) \<notin> set (map (\<lambda>(c, i, e). (c, i)) post)"
    using dir_slots_keys[OF assms(1), of D n] unfolding assms(2) by (auto simp: image_iff)
  have "map ?u pre = pre" "map ?u post = post"
    using k by (auto simp: image_iff intro!: map_idI split: prod.splits)
  with dir_slots_map[OF assms(3)] show ?thesis by (simp add: assms(2))
qed

lemma dir_lookup_here:
  assumes "\<forall>x\<in>set pre. slot_used x \<and> \<not> slot_match name x" "slot_used x" "slot_match name x"
  shows "dir_lookup name (pre @ x # post) = Some x"
proof -
  have "takeWhile slot_used (pre @ x # post) = pre @ x # takeWhile slot_used post"
    using assms by (auto simp: takeWhile_append)
  moreover have "List.find (slot_match name) pre = None" using assms(1) by (auto simp: find_None_iff)
  ultimately show ?thesis using assms(3) by (simp add: dir_lookup_def find_append)
qed

lemma find_split:
  assumes "List.find P xs = Some x"
  obtains pre post where "xs = pre @ x # post" "\<forall>y\<in>set pre. \<not> P y" "P x"
proof -
  from assms obtain i where i: "i < length xs" "P (xs ! i)" "x = xs ! i" "\<forall>j<i. \<not> P (xs ! j)"
    by (auto simp: find_Some_iff)
  show thesis
    by (rule that[of "take i xs" "drop (Suc i) xs"])
       (use i in \<open>auto simp: id_take_nth_drop[symmetric] in_set_conv_nth\<close>)
qed

lemma distinct_split_unique:
  assumes "distinct (map f (xs @ x # ys))" "xs @ x # ys = us @ x # vs"
  shows "xs = us \<and> ys = vs"
proof -
  have "distinct (xs @ x # ys)" using assms(1) unfolding distinct_map by (rule conjunct1)
  then have "x \<notin> set xs" "x \<notin> set ys" by auto
  moreover have "x \<notin> set us" "x \<notin> set vs" using \<open>distinct (xs @ x # ys)\<close> unfolding assms(2) by auto
  ultimately show ?thesis using assms(2) by (simp add: append_Cons_eq_iff)
qed

lemma takeWhile_split:
  assumes "takeWhile P xs = pre @ x # post"
  obtains rest where "xs = pre @ x # rest" "\<forall>y\<in>set pre. P y" "P x"
proof -
  have "xs = pre @ x # (post @ dropWhile P xs)" using assms takeWhile_dropWhile_id[of P xs] by (metis append_Cons append_assoc)
  moreover have "\<forall>y\<in>set (pre @ x # post). P y" using assms by (metis set_takeWhileD)
  ultimately show thesis using that by auto
qed

text \<open>The clusters an entry owns; none of them belongs to the directory that holds the entry.\<close>

definition owned_chain :: "(u32 \<rightharpoonup> u32) \<Rightarrow> u32 list \<Rightarrow> fat32_dir_entry \<Rightarrow> u32 list \<Rightarrow> bool" where
  "owned_chain m ds e old \<longleftrightarrow> set old \<inter> set ds = {} \<and>
     (if in_chain (first_cluster_of e) then chain m (first_cluster_of e) old else old = [])"

text \<open>The slot a file of the given name goes to, and the clusters its previous contents occupy.\<close>

definition write_target :: "(u32 \<rightharpoonup> u32) \<Rightarrow> u32 list \<Rightarrow> dslot list \<Rightarrow> bytes \<Rightarrow> u32 \<Rightarrow> nat \<Rightarrow> u32 list \<Rightarrow> bool" where
  "write_target m ds sls name c i old \<longleftrightarrow>
     (case List.find (slot_same_name name) (takeWhile slot_used sls) of
        Some (c', i', e) \<Rightarrow> c' = c \<and> i' = i \<and> owned_chain m ds e old
      | None \<Rightarrow> old = [] \<and>
          (case List.find slot_free sls of Some (c', i', e) \<Rightarrow> c' = c \<and> i' = i | None \<Rightarrow> False))"

lemma write_target_split:
  assumes "write_target m ds sls name c i old"
  obtains pre e0 post where "sls = pre @ (c, i, e0) # post" "\<forall>x\<in>set pre. slot_used x \<and> \<not> slot_same_name name x"
    "slot_free (c, i, e0) \<or> slot_same_name name (c, i, e0)"
proof (cases "List.find (slot_same_name name) (takeWhile slot_used sls)")
  case (Some x)
  with assms obtain e0 where x: "x = (c, i, e0)" by (cases x) (auto simp: write_target_def)
  obtain pre post where p: "takeWhile slot_used sls = pre @ x # post" "\<forall>y\<in>set pre. \<not> slot_same_name name y"
    "slot_same_name name x" by (rule find_split[OF Some])
  obtain rest where "sls = pre @ x # rest" "\<forall>y\<in>set pre. slot_used y" by (rule takeWhile_split[OF p(1)])
  with p x that show thesis by blast
next
  case None
  with assms obtain e0 where f: "List.find slot_free sls = Some (c, i, e0)"
    by (auto simp: write_target_def split: option.splits)
  obtain pre post where p: "sls = pre @ (c, i, e0) # post" "\<forall>y\<in>set pre. \<not> slot_free y" "slot_free (c, i, e0)"
    by (rule find_split[OF f])
  have u: "\<forall>y\<in>set pre. slot_used y" using p(2) by (auto simp: slot_used_def slot_free_def)
  then have "takeWhile slot_used sls = pre @ takeWhile slot_used ((c, i, e0) # post)"
    unfolding p(1) by (auto simp: takeWhile_append)
  then have "\<forall>y\<in>set pre. \<not> slot_same_name name y" using None by (auto simp: find_None_iff)
  with p u that show thesis by blast
qed

end
