(* ===== verification/Fat32_Files.thy ===== *)
theory Fat32_Files
  imports Fat32_Dirs
begin

text \<open>
  Files: following, freeing and building cluster chains.  \<open>file_bytes\<close> is the contents of a chain;
  \<^verbatim>\<open>read_file_loop\<close> returns a prefix of it, \<open>free_chain\<close> gives its clusters back, and the data loop of
  \<^verbatim>\<open>fat32_write_file_in\<close> builds a fresh chain (\<open>links\<close>) out of free clusters whose contents are the
  source bytes.
\<close>

unbundle bit_operations_syntax

definition free_all :: "(u32 \<rightharpoonup> u32) \<Rightarrow> u32 list \<Rightarrow> u32 \<rightharpoonup> u32" where
  "free_all m xs = (\<lambda>x. if x \<in> set xs then Some 0 else m x)"

definition file_bytes :: "(u32 \<rightharpoonup> bytes) \<Rightarrow> u32 list \<Rightarrow> bytes" where
  "file_bytes D xs = concat (map (\<lambda>c. the (D c)) xs)"

lemma free_all_Cons: "free_all (m(x \<mapsto> 0)) xs = free_all m (x # xs)"
  by (auto simp: free_all_def fun_eq_iff)

lemma min_u32_unat: "unat (min_u32 a b) = min (unat a) (unat b)"
  by (auto simp: min_u32_def word_less_nat_alt)

lemma min_u32_sub: "unat (a - min_u32 a b) = unat a - min (unat a) (unat b)"
proof -
  have "min_u32 a b \<le> a" by (auto simp: min_u32_def)
  then show ?thesis by (simp add: unat_sub word_le_nat_alt min_u32_unat)
qed

lemma buf_put_split:
  assumes "off + length xs + length ys \<le> length buf"
  shows "buf_put (buf_put buf off xs) (off + length xs) ys = buf_put buf off (xs @ ys)"
  using assms by (simp add: buf_put_def add.commute add.left_commute)

context block_device
begin

lemma free_chain_run:
  assumes "ok s" "chain (FM s) c xs"
  shows "\<exists>t. free_chain ops c s = Some t \<and> ok t \<and> fr s t \<and> FM t = free_all (FM s) xs \<and> DM t = DM s \<and>
     g_free_clusters t = (free_inc ^^ length xs) (g_free_clusters s)"
  using assms
proof (induction xs arbitrary: c s)
  case Nil
  then show ?case
    using not_in_chain_eoc[of c] by (subst free_chain.simps) (auto simp: free_all_def)
next
  case (Cons x xs)
  then obtain n where n: "c = x" "in_chain x" "FM s x = Some n" "chain (FM s) n xs"
    by (auto split: option.splits)
  obtain s1 where s1: "fat32_get_next_cluster ops x s = (n, s1)" "ok s1" "same_vol s s1"
    by (rule get_next[OF Cons.prems(1) n(3)])
  have v: "valid_cluster (g_fs s1) x" using FM_valid[OF n(3)] s1(3) by (simp add: same_volume_def)
  obtain s2 where s2: "fat32_free_cluster ops x s1 = (0, s2)" "ok s2" "fr s1 s2"
    "FM s2 = (FM s1)(x \<mapsto> 0)" "DM s2 = DM s1" "g_free_clusters s2 = free_inc (g_free_clusters s1)"
    by (rule free_cluster[OF s1(2) v])
  note m1 = same_vol_maps[OF s1(3)]
  have "x \<notin> set xs" using chain_distinct[OF Cons.prems(2)] by simp
  then have "chain (FM s2) n xs" using n(4) s2(4) m1 by (subst chain_cong[of xs "FM s"]) auto
  from Cons.IH[OF s2(2) this] obtain t where t: "free_chain ops n s2 = Some t" "ok t" "fr s2 t"
    "FM t = free_all (FM s2) xs" "DM t = DM s2"
    "g_free_clusters t = (free_inc ^^ length xs) (g_free_clusters s2)" by blast
  have "fr s t" by (rule fr_trans[OF fr_trans[OF fr_same[OF s1(3)] s2(3)] t(3)])
  moreover have "g_free_clusters s1 = g_free_clusters s" using s1(3) by (simp add: same_volume_def)
  ultimately show ?case
    using n s1(1) s2 t m1
    by (subst free_chain.simps) (simp add: free_all_Cons funpow_swap1)
qed

lemma free_chain_none: "\<not> in_chain c \<Longrightarrow> free_chain ops c s = Some s"
  by (subst free_chain.simps) simp

lemma length_file_bytes: "ok s \<Longrightarrow> chain (FM s) c xs \<Longrightarrow> length (file_bytes (DM s) xs) = csize s * length xs"
proof (induction xs arbitrary: c)
  case Nil
  then show ?case by (simp add: file_bytes_def)
next
  case (Cons x xs)
  obtain bs where "DM s x = Some bs" using chain_DM[OF Cons.prems] by blast
  moreover from Cons.prems obtain n where "chain (FM s) n xs" by (auto split: option.splits)
  ultimately show ?case using Cons length_DM[OF Cons.prems(1)] by (auto simp: file_bytes_def)
qed

lemma read_file_run:
  assumes "ok s" "chain (FM s) c xs" "unat rem \<le> length (file_bytes (DM s) xs)" "dest + unat rem \<le> length buf"
  shows "\<exists>t. read_file_loop ops c rem dest buf s =
      Some (0, buf_put buf dest (take (unat rem) (file_bytes (DM s) xs)), t) \<and> ok t \<and> same_vol s t"
  using assms
proof (induction xs arbitrary: c rem dest buf s)
  case Nil
  then have "rem = 0" by (simp add: file_bytes_def word_unat_eq_iff)
  then show ?case using Nil by (subst read_file_loop.simps) simp
next
  case (Cons x xs)
  show ?case
  proof (cases "rem = 0")
    case True
    then show ?thesis using Cons.prems by (subst read_file_loop.simps) simp
  next
    case False
    obtain n bs s1 s2 where st: "c = x" "in_chain x" "chain (FM s) n xs" "DM s x = Some bs" "length bs = csize s"
      "fat32_read_cluster ops x (replicate 4096 0) s = Some (0, buf_put (replicate 4096 0) 0 bs, s1)"
      "ok s1" "same_vol s s1" "fat32_get_next_cluster ops x s1 = (n, s2)" "ok s2" "same_vol s s2"
      "FM s2 = FM s" "DM s2 = DM s"
      by (rule chain_step[OF Cons.prems(1,2)])
    let ?chunk = "min_u32 rem (cluster_bytes s1)"
    have cb: "unat (cluster_bytes s1) = csize s" using epc(2)[OF st(7)] st(8) by (simp add: same_volume_def)
    have ch: "unat ?chunk = min (unat rem) (csize s)" by (simp add: min_u32_unat cb)
    let ?b = "buf_put buf dest (take (unat ?chunk) bs)"
    have l: "length bs \<le> 4096" "length bs = csize s" using st(5) csize_le(1)[OF Cons.prems(1)] by auto
    have mc: "memcpy buf dest (buf_put (replicate 4096 0) 0 bs) 0 (unat ?chunk) = Some ?b"
      using Cons.prems(4) l by (simp add: ch buf_get_def buf_put_def)
    have fb: "file_bytes (DM s) (x # xs) = bs @ file_bytes (DM s) xs" using st(4) by (simp add: file_bytes_def)
    have r: "unat (rem - ?chunk) = unat rem - csize s" by (simp add: min_u32_sub cb)
    have lb: "length ?b = length buf" using Cons.prems(4) l by (simp add: ch)
    have p1: "unat (rem - ?chunk) \<le> length (file_bytes (DM s2) xs)"
      using Cons.prems(3) fb l(2) by (simp add: r st(13))
    have p2: "dest + unat ?chunk + unat (rem - ?chunk) \<le> length ?b"
      using Cons.prems(4) lb r ch by (simp add: min_def split: if_splits)
    have c2: "chain (FM s2) n xs" using st(3,12) by simp
    obtain t where t: "read_file_loop ops n (rem - ?chunk) (dest + unat ?chunk) ?b s2 =
        Some (0, buf_put ?b (dest + unat ?chunk) (take (unat (rem - ?chunk)) (file_bytes (DM s2) xs)), t)"
        "ok t" "same_vol s2 t"
      using Cons.IH[OF st(10) c2 p1 p2] by blast
    have "buf_put ?b (dest + unat ?chunk) (take (unat (rem - ?chunk)) (file_bytes (DM s2) xs)) =
        buf_put buf dest (take (unat rem) (file_bytes (DM s) (x # xs)))"
    proof -
      have e: "take (unat rem) (file_bytes (DM s) (x # xs)) =
          take (unat ?chunk) bs @ take (unat (rem - ?chunk)) (file_bytes (DM s2) xs)"
        using l by (simp add: fb r ch st(13) min_def)
      have "length (take (unat ?chunk) bs) = unat ?chunk" using l ch by simp
      then show ?thesis unfolding e
        using buf_put_split[of dest "take (unat ?chunk) bs" "take (unat (rem - ?chunk)) (file_bytes (DM s2) xs)" buf]
          Cons.prems(4) r ch by simp
    qed
    then show ?thesis
      using False st t mc same_vol_trans[OF st(11) t(3)]
      by (subst read_file_loop.simps) (simp add: word_gt_0)
  qed
qed

end

definition links :: "(u32 \<rightharpoonup> u32) \<Rightarrow> u32 \<Rightarrow> u32 list \<Rightarrow> (u32 \<rightharpoonup> u32) \<Rightarrow> bool" where
  "links m p xs m' \<longleftrightarrow>
     (\<forall>x\<in>set xs. m x = Some 0) \<and> distinct xs \<and>
     (\<forall>x. x \<notin> set xs \<and> (x \<noteq> p \<or> xs = []) \<longrightarrow> m' x = m x) \<and>
     (xs \<noteq> [] \<longrightarrow> chain m' (hd xs) xs \<and> (p \<noteq> 0 \<longrightarrow> m' p = Some (hd xs)))"

definition link_after :: "(u32 \<rightharpoonup> u32) \<Rightarrow> u32 \<Rightarrow> u32 \<Rightarrow> u32 \<rightharpoonup> u32" where
  "link_after m p c = (if p \<noteq> 0 then m(c \<mapsto> FAT32_EOC, p \<mapsto> c) else m(c \<mapsto> FAT32_EOC))"

lemma links_Nil: "links m p [] m"
  by (simp add: links_def)

lemma links_Cons:
  assumes "m c = Some 0" "in_chain c" "p \<noteq> c" "p \<noteq> 0 \<Longrightarrow> m p \<noteq> Some 0"
    and L: "links (link_after m p c) c xs m'"
  shows "links m p (c # xs) m'"
proof -
  let ?m = "link_after m p c"
  have mc: "?m c = Some FAT32_EOC" using assms(3) by (simp add: link_after_def)
  then have c: "c \<notin> set xs" using L by (auto simp: links_def)
  have p: "p \<noteq> 0 \<Longrightarrow> ?m p = Some c" by (simp add: link_after_def)
  then have pn: "p \<noteq> 0 \<Longrightarrow> p \<notin> set xs" using L in_chain_nonzero[OF assms(2)] by (auto simp: links_def)
  have free: "\<forall>x\<in>set xs. m x = Some 0"
  proof
    fix x assume x: "x \<in> set xs"
    then have "?m x = Some 0" "x \<noteq> c" "p \<noteq> 0 \<longrightarrow> x \<noteq> p" using L c pn by (auto simp: links_def)
    then show "m x = Some 0" by (auto simp: link_after_def split: if_splits)
  qed
  have rest: "m' x = m x" if "x \<notin> set (c # xs)" "x \<noteq> p" for x
    using that L by (auto simp: links_def link_after_def split: if_splits)
  have mp: "p \<noteq> 0 \<longrightarrow> m' p = Some c"
    using L pn p assms(3) by (auto simp: links_def)
  have "chain m' c (c # xs)"
  proof (cases "xs = []")
    case True
    then have "m' c = Some FAT32_EOC" using L mc c by (auto simp: links_def)
    with True assms(2) show ?thesis by simp
  next
    case False
    then have "chain m' (hd xs) xs" "m' c = Some (hd xs)"
      using L in_chain_nonzero[OF assms(2)] by (auto simp: links_def)
    with assms(2) show ?thesis by simp
  qed
  with assms(1) free c rest mp L show ?thesis by (auto simp: links_def)
qed

lemma card_free_link:
  assumes "finite {x. m x = Some (0 :: u32)}" "m c = Some 0" "in_chain c" "p \<noteq> c" "p \<noteq> 0 \<Longrightarrow> m p \<noteq> Some 0"
  shows "card {x. link_after m p c x = Some 0} = card {x. m x = Some 0} - 1"
    "finite {x. link_after m p c x = Some 0}"
proof -
  have "{x. link_after m p c x = Some 0} = {x. m x = Some 0} - {c}"
    using assms(3-5) in_chain_nonzero[OF assms(3)] by (auto simp: link_after_def)
  then show "card {x. link_after m p c x = Some 0} = card {x. m x = Some 0} - 1"
    "finite {x. link_after m p c x = Some 0}"
    using assms(1,2) by simp_all
qed

lemma take_pad:
  assumes "length xs \<le> n" "n \<le> 4096"
  shows "take n (buf_put (replicate 4096 0) 0 xs) = xs @ replicate (n - length xs) 0"
  using assms by (simp add: buf_put_def)

definition clusters_needed :: "nat \<Rightarrow> nat \<Rightarrow> nat" where
  "clusters_needed cs n = (n + cs - 1) div cs"

lemma clusters_needed_0: "clusters_needed cs 0 = 0" if "0 < cs"
  using that by (simp add: clusters_needed_def)

lemma clusters_needed_step:
  assumes "0 < n" "0 < cs"
  shows "clusters_needed cs n = Suc (clusters_needed cs (n - min n cs))"
proof (cases "n \<le> cs")
  case True
  obtain m where m: "n = Suc m" using assms by (cases n) auto
  then have "(n + cs - 1) div cs = Suc (m div cs)" using assms by (simp add: div_add_self2)
  also have "m div cs = 0" using True m by simp
  finally show ?thesis using True assms by (simp add: clusters_needed_def)
next
  case False
  then obtain m where m: "n = m + cs" by (metis le_add_diff_inverse2 nat_le_linear)
  then have "n + cs - 1 = (m + cs - 1) + cs" using assms by simp
  then have "(n + cs - 1) div cs = Suc ((m + cs - 1) div cs)" using assms(2) by (simp only: div_add_self2)
  then show ?thesis using m by (simp add: clusters_needed_def)
qed

lemma buf_get_add: "buf_get (a + b) src pos = buf_get a src pos @ buf_get b src (pos + a)"
  by (simp add: buf_get_def take_add add.commute)

lemma chunk_bytes:
  assumes "take (n - min n cs) fb = buf_get (n - min n cs) src (pos + min n cs)"
    "n - min n cs \<le> length fb" "pos + n \<le> length src"
  shows "take n (buf_get (min n cs) src pos @ replicate (cs - min n cs) 0 @ fb) = buf_get n src pos"
    "n \<le> length (buf_get (min n cs) src pos @ replicate (cs - min n cs) 0 @ fb)"
proof -
  have l: "length (buf_get (min n cs) src pos) = min n cs" using assms(3) by simp
  show "n \<le> length (buf_get (min n cs) src pos @ replicate (cs - min n cs) 0 @ fb)"
    using assms(2) l by simp
  show "take n (buf_get (min n cs) src pos @ replicate (cs - min n cs) 0 @ fb) = buf_get n src pos"
  proof (cases "n \<le> cs")
    case True
    with l show ?thesis by (simp add: min_absorb1)
  next
    case False
    with l assms(1) buf_get_add[of cs "n - cs" src pos] show ?thesis by (simp add: min_absorb2)
  qed
qed

context block_device
begin

lemma valid_in_chain:
  assumes "ok s" "valid_cluster (g_fs s) c"
  shows "in_chain c" "c AND 0x0FFFFFFF = c" "\<not> (c = 0 \<or> c < 2)"
proof -
  have u: "2 \<le> unat c" "unat c < 0x0FFFFFF7"
    using assms geomD(8)[OF okD(2)[OF assms(1)]] by (auto simp: valid_cluster_def)
  then show "in_chain c" "\<not> (c = 0 \<or> c < 2)" by (auto simp: in_chain_def word_le_nat_alt word_less_nat_alt)


  have "unat (take_bit 28 c) = unat c"
    using u(2) by (simp add: unsigned_take_bit_eq take_bit_nat_eq_self_iff)
  then have "take_bit 28 c = c" by (simp only: word_unat_eq_iff)
  moreover have "take_bit 28 c = c AND 0x0FFFFFFF"
    by (simp add: take_bit_eq_mask mask_eq_exp_minus_1)
  ultimately show "c AND 0x0FFFFFFF = c" by simp
qed

definition data_written :: "bytes \<Rightarrow> nat \<Rightarrow> nat \<Rightarrow> u32 \<Rightarrow> 's fat \<Rightarrow> u32 list \<Rightarrow> 's fat \<Rightarrow> bool" where
  "data_written src pos n p s xs t \<longleftrightarrow>
     ok t \<and> fr s t \<and> links (FM s) p xs (FM t) \<and> (\<forall>x. x \<notin> set xs \<longrightarrow> DM t x = DM s x) \<and>
     take n (file_bytes (DM t) xs) = buf_get n src pos \<and> n \<le> length (file_bytes (DM t) xs) \<and>
     g_free_clusters t = (free_dec ^^ length xs) (g_free_clusters s)"

lemma alloc_step:
  assumes "ok s" "FM s c0 = Some 0" "p \<noteq> 0 \<Longrightarrow> \<exists>n. FM s p = Some n \<and> n \<noteq> 0"
  obtains c s1 s2 where "fat32_allocate_cluster ops s = (c, s1)" "\<not> (c = 0 \<or> c < 2)" "in_chain c"
    "(if p \<noteq> 0 then snd (fat32_set_next_cluster ops p c s1) else s1) = s2" "ok s2" "fr s s2"
    "valid_cluster (g_fs s2) c" "FM s c = Some 0" "p \<noteq> c"
    "FM s2 = link_after (FM s) p c" "DM s2 = DM s" "g_free_clusters s2 = free_dec (g_free_clusters s)"
proof -
  obtain c s1 where s1: "fat32_allocate_cluster ops s = (c, s1)" "FM s c = Some 0" "ok s1" "fr s s1"
    "FM s1 = (FM s)(c \<mapsto> FAT32_EOC)" "DM s1 = DM s" "g_free_clusters s1 = free_dec (g_free_clusters s)"
    by (rule allocate_some[OF assms(1,2)])
  note v = valid_in_chain[OF assms(1) FM_valid[OF s1(2)]]
  have pc: "p \<noteq> c" using assms(3) s1(2) v(3) by auto
  have g1: "g_fs s1 = g_fs s" using s1(4) by (simp add: frame_def)
  have vc: "valid_cluster (g_fs s1) c" using FM_valid[OF s1(2)] g1 by simp
  show thesis
  proof (cases "p = 0")
    case True
    show thesis
      by (rule that[OF s1(1) v(3,1) _ s1(3,4) vc s1(2) pc _ s1(6,7)])
         (use True s1(5) in \<open>simp_all add: link_after_def\<close>)
  next
    case False
    then obtain n where n: "FM s p = Some n" "n \<noteq> 0" using assms(3) by blast
    then have vp: "valid_cluster (g_fs s1) p" using FM_valid[OF n(1)] g1 by simp
    obtain s2 where s2: "fat32_set_next_cluster ops p c s1 = (0, s2)" "ok s2" "fr s1 s2"
      "FM s2 = (FM s1)(p \<mapsto> c AND 0x0FFFFFFF)" "DM s2 = DM s1" "g_free_clusters s2 = g_free_clusters s1"
      by (rule set_next[OF s1(3) vp])
    have "g_fs s2 = g_fs s1" using s2(3) by (simp add: frame_def)
    with vc have vc2: "valid_cluster (g_fs s2) c" by simp
    show thesis
      by (rule that[OF s1(1) v(3,1) _ s2(2) fr_trans[OF s1(4) s2(3)] vc2 s1(2) pc])
         (use False s1 s2 v(2) in \<open>simp_all add: link_after_def\<close>)
  qed
qed

lemma store_step:
  assumes "ok s" "valid_cluster (g_fs s) c" "n \<le> csize s" "pos + n \<le> length src"
  obtains f s3 s4 where
    "memset (replicate 4096 0) 0 0 (csize s) = Some (replicate 4096 0)"
    "memcpy (replicate 4096 0) 0 src pos n = Some f"
    "fat32_write_cluster ops c f s = Some (0, s3)"
    "fat32_read_cluster ops c (replicate 4096 0) s3 = Some (0, f, s4)"
    "memcmp f f (csize s) = Some 0" "ok s4" "fr s s4" "FM s4 = FM s"
    "DM s4 = (DM s)(c \<mapsto> buf_get n src pos @ replicate (csize s - n) 0)"
    "g_free_clusters s4 = g_free_clusters s"
proof -
  let ?d = "buf_get n src pos"
  let ?f = "buf_put (replicate 4096 0) 0 ?d"
  have l: "length ?d = n" using assms(4) by simp
  have cs: "csize s \<le> 4096" by (rule csize_le(1)[OF assms(1)])
  have lf: "length ?f = 4096" using l assms(3) cs by (simp add: buf_put_def)
  have tk: "take (csize s) ?f = ?d @ replicate (csize s - n) 0"
    using take_pad[of ?d "csize s"] l assms(3) cs by simp
  obtain d where w: "fat32_write_cluster ops c ?f s = Some (0, s\<lparr>disk := d\<rparr>)" "ok (s\<lparr>disk := d\<rparr>)"
    "FM (s\<lparr>disk := d\<rparr>) = FM s" "DM (s\<lparr>disk := d\<rparr>) = (DM s)(c \<mapsto> take (csize s) ?f)" "fr s (s\<lparr>disk := d\<rparr>)"
    by (rule write_cluster[OF assms(1,2) lf])
  have dc: "DM (s\<lparr>disk := d\<rparr>) c = Some (?d @ replicate (csize s - n) 0)" using w(4) tk by simp
  have l0: "length (replicate 4096 (0 :: u8)) = 4096" by simp
  obtain s4 where r: "fat32_read_cluster ops c (replicate 4096 0) (s\<lparr>disk := d\<rparr>) =
      Some (0, buf_put (replicate 4096 0) 0 (?d @ replicate (csize s - n) 0), s4)" "ok s4" "same_vol (s\<lparr>disk := d\<rparr>) s4"
    by (rule read_cluster[OF w(2) dc l0])
  have pad: "buf_put (replicate 4096 0) 0 (?d @ replicate (csize s - n) 0) = ?f"
    using l assms(3) cs by (simp add: buf_put_def replicate_add[symmetric])
  have ms: "memset (replicate 4096 0) 0 0 (csize s) = Some (replicate 4096 0)"
    using cs by (simp add: buf_put_def replicate_add[symmetric])
  have mc: "memcpy (replicate 4096 0) 0 src pos n = Some ?f" using assms(3,4) cs by simp
  have me: "memcmp ?f ?f (csize s) = Some 0" by (subst memcmp_zero_iff) (use lf cs in auto)
  show thesis
    by (rule that[OF ms mc w(1) r(1)[unfolded pad] me r(2) fr_trans[OF w(5) fr_same[OF r(3)]]])
       (use w(3) dc w(4) tk same_vol_maps[OF r(3)] r(3) in \<open>simp_all add: same_volume_def\<close>)
qed

lemma write_data_run:
  assumes "ok s" "clusters_needed (csize s) (unat rem) \<le> card {x. FM s x = Some 0}"
    "pos + unat rem \<le> length src"
    "fh_prev h = 0 \<longleftrightarrow> fh_first h = 0" "fh_prev h \<noteq> 0 \<Longrightarrow> \<exists>n. FM s (fh_prev h) = Some n \<and> n \<noteq> 0"
  shows "\<exists>xs t. write_data_loop ops src rem pos h s =
      Some (0, \<lparr>fh_first = (if fh_first h = 0 \<and> xs \<noteq> [] then hd xs else fh_first h),
               fh_prev = (if xs = [] then fh_prev h else last xs)\<rparr>, t) \<and>
      data_written src pos (unat rem) (fh_prev h) s xs t \<and> length xs = clusters_needed (csize s) (unat rem)"
  using assms
proof (induction "unat rem" arbitrary: rem pos h s rule: less_induct)
  case less
  have cs: "0 < csize s" using csize_le(2)[OF less.prems(1)] by simp
  show ?case
  proof (cases "rem = 0")
    case True
    then show ?thesis using less.prems cs
      by (intro exI[of _ "[]"] exI[of _ s], subst write_data_loop.simps)
         (auto simp: data_written_def links_Nil file_bytes_def buf_get_def clusters_needed_0)
  next
    case False
    then have pos: "0 < unat rem" by (simp add: unat_gt_0)
    note need = clusters_needed_step[OF pos cs]
    then have "card {x. FM s x = Some 0} \<noteq> 0" using less.prems(2) by linarith
    then have "{x. FM s x = Some 0} \<noteq> {}" by (metis card.empty)
    then obtain c0 where "FM s c0 = Some 0" by blast
    from alloc_step[OF less.prems(1) this less.prems(5)] obtain c s1 s2 where
      a: "fat32_allocate_cluster ops s = (c, s1)" "\<not> (c = 0 \<or> c < 2)" "in_chain c"
      "(if fh_prev h \<noteq> 0 then snd (fat32_set_next_cluster ops (fh_prev h) c s1) else s1) = s2" "ok s2" "fr s s2"
      "valid_cluster (g_fs s2) c" "FM s c = Some 0" "fh_prev h \<noteq> c"
      "FM s2 = link_after (FM s) (fh_prev h) c" "DM s2 = DM s" "g_free_clusters s2 = free_dec (g_free_clusters s)"
      by blast
    have g2: "g_fs s2 = g_fs s" using a(6) by (simp add: frame_def)
    let ?h = "if fh_first h = 0 then h\<lparr>fh_first := c\<rparr> else h"
    let ?chunk = "min_u32 rem (cluster_bytes s2)"
    have cb: "unat (cluster_bytes s2) = csize s" using epc(2)[OF a(5)] g2 by simp
    have ch: "unat ?chunk = min (unat rem) (csize s)" by (simp add: min_u32_unat cb)
    have le: "unat ?chunk \<le> csize s2" "pos + unat ?chunk \<le> length src" using ch g2 less.prems(3) by auto
    obtain f s3 s4 where b: "memset (replicate 4096 0) 0 0 (csize s2) = Some (replicate 4096 0)"
      "memcpy (replicate 4096 0) 0 src pos (unat ?chunk) = Some f" "fat32_write_cluster ops c f s2 = Some (0, s3)"
      "fat32_read_cluster ops c (replicate 4096 0) s3 = Some (0, f, s4)"
      "memcmp f f (csize s2) = Some 0" "ok s4" "fr s2 s4" "FM s4 = FM s2"
      "DM s4 = (DM s2)(c \<mapsto> buf_get (unat ?chunk) src pos @ replicate (csize s2 - unat ?chunk) 0)"
      "g_free_clusters s4 = g_free_clusters s2"
      by (rule store_step[OF a(5,7) le])
    have g4: "g_fs s4 = g_fs s" "cluster_bytes s4 = cluster_bytes s2" using b(7) g2 by (simp_all add: frame_def cluster_bytes_def)
    let ?h' = "?h\<lparr>fh_prev := c\<rparr>" and ?r = "rem - ?chunk"
    have r: "unat ?r = unat rem - min (unat rem) (csize s)" by (simp add: min_u32_sub cb)
    have c0: "c \<noteq> 0" using a(2) by simp
    have unf: "write_data_loop ops src rem pos h s = write_data_loop ops src ?r (pos + unat ?chunk) ?h' s4"
    proof (cases "fh_prev h = 0")
      case p0: True
      with False a(1,2,4) b(1-5) cb g2 g4 less.prems(4) show ?thesis
        by (subst write_data_loop.simps) (simp add: Let_def word_gt_0)
    next
      case p1: False
      then have "snd (fat32_set_next_cluster ops (fh_prev h) c s1) = s2" "fh_first h \<noteq> 0"
        using a(4) less.prems(4) by auto
      with p1 False a(1,2) b(1-5) cb g2 g4 show ?thesis
        by (subst write_data_loop.simps) (simp add: Let_def word_gt_0)
    qed
    have pf: "FM s (fh_prev h) \<noteq> Some 0" if "fh_prev h \<noteq> 0" using less.prems(5)[OF that] by auto
    have free: "card {x. FM s4 x = Some 0} = card {x. FM s x = Some 0} - 1"
      unfolding b(8) a(10) by (rule card_free_link(1)[OF _ _ a(3,9)]) (use a(8) pf in simp_all)
    have "\<exists>xs t. write_data_loop ops src ?r (pos + unat ?chunk) ?h' s4 =
      Some (0, \<lparr>fh_first = (if fh_first ?h' = 0 \<and> xs \<noteq> [] then hd xs else fh_first ?h'),
               fh_prev = (if xs = [] then fh_prev ?h' else last xs)\<rparr>, t) \<and>
      data_written src (pos + unat ?chunk) (unat ?r) (fh_prev ?h') s4 xs t \<and> length xs = clusters_needed (csize s4) (unat ?r)"
    proof (rule less.hyps)
      show "unat ?r < unat rem" using r pos cs by simp
      show "clusters_needed (csize s4) (unat ?r) \<le> card {x. FM s4 x = Some 0}"
        unfolding g4(1) r free using less.prems(2) need by linarith
      show "pos + unat ?chunk + unat ?r \<le> length src" using less.prems(3) r ch by simp
      show "(fh_prev ?h' = 0) = (fh_first ?h' = 0)" using c0 by simp
      have "FM s4 c = Some FAT32_EOC" using b(8) a(9,10) by (simp add: link_after_def)
      then show "\<exists>n. FM s4 (fh_prev ?h') = Some n \<and> n \<noteq> 0" by simp
    qed (rule b(6))
    then obtain xs t where t0: "write_data_loop ops src ?r (pos + unat ?chunk) ?h' s4 =
      Some (0, \<lparr>fh_first = (if fh_first ?h' = 0 \<and> xs \<noteq> [] then hd xs else fh_first ?h'),
               fh_prev = (if xs = [] then fh_prev ?h' else last xs)\<rparr>, t)"
      "data_written src (pos + unat ?chunk) (unat ?r) (fh_prev ?h') s4 xs t"
      "length xs = clusters_needed (csize s4) (unat ?r)" by blast
    have h': "fh_first ?h' \<noteq> 0" "fh_prev ?h' = c" using c0 by simp_all
    have t: "write_data_loop ops src ?r (pos + unat ?chunk) ?h' s4 =
      Some (0, \<lparr>fh_first = fh_first ?h', fh_prev = (if xs = [] then c else last xs)\<rparr>, t)"
      "data_written src (pos + unat ?chunk) (unat ?r) c s4 xs t" "length xs = clusters_needed (csize s) (unat ?r)"
      using t0 h' g4(1) by simp_all
    have lk: "links (FM s) (fh_prev h) (c # xs) (FM t)"
      using t(2) b(8) a(10) less.prems(5) by (intro links_Cons[where m = "FM s", OF a(8,3,9)]) (auto simp: data_written_def)
    have dw: "take (unat ?r) (file_bytes (DM t) xs) = buf_get (unat ?r) src (pos + unat ?chunk)"
      "unat ?r \<le> length (file_bytes (DM t) xs)" "ok t" "fr s4 t" "\<forall>x. x \<notin> set xs \<longrightarrow> DM t x = DM s4 x"
      "g_free_clusters t = (free_dec ^^ length xs) (g_free_clusters s4)"
      using t(2) by (simp_all add: data_written_def)
    have cx: "c \<notin> set xs" using lk by (simp add: links_def)
    have fb: "file_bytes (DM t) (c # xs) =
        buf_get (min (unat rem) (csize s)) src pos @ replicate (csize s - min (unat rem) (csize s)) 0 @ file_bytes (DM t) xs"
      using dw(5) cx b(9) g2 ch by (simp add: file_bytes_def)
    have "take (unat rem) (file_bytes (DM t) (c # xs)) = buf_get (unat rem) src pos"
      "unat rem \<le> length (file_bytes (DM t) (c # xs))"
      unfolding fb using chunk_bytes[of "unat rem" "csize s" "file_bytes (DM t) xs" src pos] dw(1,2) r ch less.prems(3)
      by simp_all
    then have "data_written src pos (unat rem) (fh_prev h) s (c # xs) t"
      unfolding data_written_def
      using lk dw a(12) b(9,10) a(11) fr_trans[OF fr_trans[OF a(6) b(7)] dw(4)] by (simp add: funpow_swap1)
    moreover have "length (c # xs) = clusters_needed (csize s) (unat rem)" using t(3) need r by simp
    ultimately show ?thesis
      using unf t(1) c0 by (intro exI[of _ "c # xs"] exI[of _ t]) simp
  qed
qed

end

end
