(* ===== verification/Fat32_Ops.thy ===== *)
theory Fat32_Ops
  imports Fat32_Files
begin

text \<open>
  The public file operations on the abstract views: writing a file (new or replacing one), reading it
  back, and deleting it, each as a change of the directory's slot list, of the allocation table and of
  the cluster contents.  FSInfo updates and cache flushes change neither view (\<open>meta_step\<close>).
\<close>

unbundle bit_operations_syntax

lemma length_put_le32 [simp]: "length (put_le32_bytes b off v) = length b"
  by (simp add: put_le32_bytes_def)

lemma file_bytes_cong: "(\<And>x. x \<in> set xs \<Longrightarrow> D x = D' x) \<Longrightarrow> file_bytes D xs = file_bytes D' xs"
  unfolding file_bytes_def by (rule arg_cong[where f = concat]) simp

definition first_of :: "u32 list \<Rightarrow> u32" where
  "first_of xs = (if xs = [] then 0 else hd xs)"

definition last_of :: "u32 list \<Rightarrow> u32" where
  "last_of xs = (if xs = [] then 0 else last xs)"

definition file_chain :: "(u32 \<rightharpoonup> u32) \<Rightarrow> u32 \<Rightarrow> u32 list \<Rightarrow> bool" where
  "file_chain m first xs \<longleftrightarrow> first = 0 \<and> xs = [] \<or> chain m first xs"

definition dir_wf :: "dslot list \<Rightarrow> bool" where
  "dir_wf sls \<longleftrightarrow> (\<forall>x\<in>set (dropWhile slot_used sls). \<not> slot_used x)"

lemma dir_lookup_end:
  assumes "\<forall>x\<in>set post. \<not> slot_used x"
  shows "dir_lookup name (pre @ post) = dir_lookup name pre"
proof -
  have "takeWhile slot_used post = []" using assms by (cases post) auto
  then show ?thesis
    by (cases "\<forall>x\<in>set pre. slot_used x")
       (auto simp: dir_lookup_def takeWhile_append takeWhile_eq_all_conv[THEN iffD2])
qed

lemma dir_lookup_other:
  assumes "dir_wf (pre @ x # post)" "\<forall>y\<in>set pre. slot_used y" "slot_used x \<Longrightarrow> \<not> slot_match name x" "slot_used x'" "\<not> slot_match name x'"
  shows "dir_lookup name (pre @ x' # post) = dir_lookup name (pre @ x # post)"
proof -
  have skip: "dir_lookup name (pre @ y # post) = (case List.find (slot_match name) pre of
      Some z \<Rightarrow> Some z | None \<Rightarrow> dir_lookup name post)" if "slot_used y" "\<not> slot_match name y" for y
    using assms(2) that
    by (cases "List.find (slot_match name) pre") (auto simp: dir_lookup_def takeWhile_append find_append)
  show ?thesis
  proof (cases "slot_used x")
    case True
    then show ?thesis using skip assms by simp
  next
    case False
    then have un: "\<forall>y\<in>set (x # post). \<not> slot_used y"
      using assms(1,2) by (auto simp: dir_wf_def dropWhile_append)
    have "dir_lookup name pre = List.find (slot_match name) pre"
      using assms(2) by (simp add: dir_lookup_def takeWhile_eq_all_conv[THEN iffD2])
    moreover have "dir_lookup name post = None"
      using dir_lookup_end[of post name "[]"] un by (simp add: dir_lookup_def)
    ultimately show ?thesis
      using skip[OF assms(4,5)] dir_lookup_end[OF un, of name pre]
      by (cases "List.find (slot_match name) pre") auto
  qed
qed

context block_device
begin

text \<open>Sectors of the reserved area, which neither view of the volume sees.\<close>

lemma reserved_addr:
  assumes "ok s" "k < 8"
  shows "unat (g_partition_offset s + of_nat k) = unat (g_partition_offset s) + k"
    "unat (g_partition_offset s) + k \<in> volume_lbas s"
proof -
  have k: "unat (of_nat k :: u64) = k" using assms(2) by (simp add: unat_of_nat)
  have "unat (g_partition_offset s) + unat (of_nat k :: u64) < 2 ^ LENGTH(64)"
    using okD(4)[OF assms(1)] assms(2) k by simp
  from unat_add_nowrap[OF this] k show "unat (g_partition_offset s + of_nat k) = unat (g_partition_offset s) + k" by simp
  show "unat (g_partition_offset s) + k \<in> volume_lbas s"
    using geomD(3,9)[OF okD(2)[OF assms(1)]] assms(2) by (simp add: volume_lbas_def)
qed

lemma reserved_write:
  assumes "ok s" "k < 8" "dev_ok d" "\<forall>l. l \<noteq> unat (g_partition_offset s) + k \<longrightarrow> sect d l = sect (disk s) l" "length b = 512"
  shows "ok (s\<lparr>disk := d, sector_buffer := b\<rparr>)" "fr s (s\<lparr>disk := d, sector_buffer := b\<rparr>)"
    "FM (s\<lparr>disk := d, sector_buffer := b\<rparr>) = FM s" "DM (s\<lparr>disk := d, sector_buffer := b\<rparr>) = DM s"
proof -
  note g = geomD[OF okD(2)[OF assms(1)]]
  show "ok (s\<lparr>disk := d, sector_buffer := b\<rparr>)" by (rule ok_same(1)[OF assms(1,3,5)])
  show "fr s (s\<lparr>disk := d, sector_buffer := b\<rparr>)"
    using assms(4) reserved_addr(2)[OF assms(1,2)] by (simp add: frame_def) metis
  have "sect d (fat_lba s c) = sect (disk s) (fat_lba s c)" for c
    using assms(2,4) g(3) by (simp add: fat_lba_def)
  then show "FM (s\<lparr>disk := d, sector_buffer := b\<rparr>) = FM s" by (simp add: fat_map_def fat_word_def fun_eq_iff)
  have "sect d (clu_lba s c i) = sect (disk s) (clu_lba s c i)" for c i
    using assms(2,4) g(3,9) by (simp add: clu_lba_def)
  then show "DM (s\<lparr>disk := d, sector_buffer := b\<rparr>) = DM s" by (simp add: data_map_def fun_eq_iff)
qed

definition meta_step :: "'s fat \<Rightarrow> 's fat \<Rightarrow> bool" where
  "meta_step s t \<longleftrightarrow> ok t \<and> fr s t \<and> FM t = FM s \<and> DM t = DM s \<and> g_free_clusters t = g_free_clusters s"

lemma meta_refl: "ok s \<Longrightarrow> meta_step s s"
  by (simp add: meta_step_def)

lemma meta_trans: "meta_step s t \<Longrightarrow> meta_step t u \<Longrightarrow> meta_step s u"
  using fr_trans by (auto simp: meta_step_def)

lemma meta_same: "ok t \<Longrightarrow> same_vol s t \<Longrightarrow> meta_step s t"
  unfolding meta_step_def using fr_same[of s t] same_vol_maps[of s t] by (simp add: same_volume_def[of sect s t])

lemma meta_reserved:
  assumes "ok s" "k < 8" "length b = 512" "lba = g_partition_offset s + of_nat k"
    "block_write_sector ops lba b (disk s) = (rc, d)"
  shows "meta_step s (s\<lparr>disk := d, sector_buffer := b\<rparr>)" "rc = 0"
proof -
  have a: "unat lba = unat (g_partition_offset s) + k" using reserved_addr(1)[OF assms(1,2)] assms(4) by simp
  have "unat lba \<in> lbas" using reserved_addr(2)[OF assms(1,2)] okD(5)[OF assms(1)] unfolding a by blast
  then obtain d' where d': "block_write_sector ops lba b (disk s) = (0, d')" "dev_ok d'" "sect d' = (sect (disk s))(unat lba := b)"
    by (rule write_sector[OF okD(1)[OF assms(1)] assms(3)])
  from d'(1) assms(5) have "d' = d" "rc = 0" by simp_all
  show "rc = 0" by fact
  have "\<forall>l. l \<noteq> unat (g_partition_offset s) + k \<longrightarrow> sect d l = sect (disk s) l" "dev_ok d"
    using d'(2,3) unfolding a \<open>d' = d\<close> by simp_all
  from reserved_write[OF assms(1,2) this(2,1) assms(3)] show "meta_step s (s\<lparr>disk := d, sector_buffer := b\<rparr>)"
    by (simp add: meta_step_def)
qed

lemma update_fsinfo_meta:
  assumes "ok s"
  shows "meta_step s (snd (fat32_update_fsinfo ops a b s))"
proof -
  have one: "unat (g_partition_offset s + 1) \<in> lbas"
    using reserved_addr[OF assms, of 1] okD(5)[OF assms] by auto
  obtain d where d: "block_read_sector ops (g_partition_offset s + 1) (sector_buffer s) (disk s) =
      (0, sect (disk s) (unat (g_partition_offset s + 1)), d)" "dev_ok d" "sect d = sect (disk s)"
    using read_sector[OF okD(1)[OF assms] okD(3)[OF assms] one] by blast
  define sec where "sec = sect (disk s) (unat (g_partition_offset s + 1))"
  have sl: "length sec = 512" unfolding sec_def using sect_len okD(1)[OF assms] by blast
  have m0: "meta_step s (s\<lparr>disk := d, sector_buffer := sec\<rparr>)"
    using ok_same(1)[OF assms d(2) sl] d(3) by (intro meta_same) (simp_all add: same_volume_def)
  show ?thesis
  proof (cases "fsinfo_signature sec")
    case False
    then show ?thesis using d(1) m0 by (simp add: fat32_update_fsinfo_def sec_def)
  next
    case True
    define sec2 where "sec2 = (let sec1 = (if a \<noteq> 0xFFFFFFFF then put_le32_bytes sec 488 a else sec)
      in if b \<noteq> 0xFFFFFFFF then put_le32_bytes sec1 492 b else sec1)"
    have l2: "length sec2 = 512" using sl by (simp add: sec2_def Let_def)
    let ?s0 = "s\<lparr>disk := d, sector_buffer := sec\<rparr>"
    have ok0: "ok ?s0" using m0 by (simp add: meta_step_def)
    obtain rc1 d1 where w1: "block_write_sector ops (g_partition_offset s + 1) sec2 d = (rc1, d1)" by fastforce
    have m1: "meta_step ?s0 (?s0\<lparr>disk := d1, sector_buffer := sec2\<rparr>)" "rc1 = 0"
      by (rule meta_reserved[OF ok0, of 1 sec2 "g_partition_offset s + 1" rc1 d1]; use l2 w1 in simp)+
    let ?s1 = "?s0\<lparr>disk := d1, sector_buffer := sec2\<rparr>"
    have ok1: "ok ?s1" using m1 by (simp add: meta_step_def)
    obtain rc2 d2 where w2: "block_write_sector ops (g_partition_offset s + 7) sec2 d1 = (rc2, d2)" by fastforce
    have m2: "meta_step ?s1 (?s1\<lparr>disk := d2, sector_buffer := sec2\<rparr>)"
      by (rule meta_reserved[OF ok1, of 7 sec2 "g_partition_offset s + 7" rc2 d2]; use l2 w2 in simp)
    have "snd (fat32_update_fsinfo ops a b s) = ?s1\<lparr>disk := d2, sector_buffer := sec2\<rparr>"
      using d(1) True w1 w2 m1(2) by (simp add: fat32_update_fsinfo_def sec_def[symmetric] sec2_def Let_def)
    with meta_trans[OF meta_trans[OF m0 m1(1)] m2] show ?thesis by simp
  qed
qed

lemma flush_times_law: "dev_ok d \<Longrightarrow> dev_ok (flush_times ops n d) \<and> sect (flush_times ops n d) = sect d"
proof (induction n arbitrary: d)
  case 0
  then show ?case by simp
next
  case (Suc n)
  obtain rc d' where f: "st_sata_flush ops d = (rc, d')" by fastforce
  from flush_law[OF Suc.prems f] Suc.IH[of d'] f show ?case by simp
qed

lemma flush_meta: "ok s \<Longrightarrow> meta_step s (flush_cache_5 ops s)"
  using flush_times_law[OF okD(1), of s 5] ok_same(2)[of s "flush_times ops 5 (disk s)"]
  by (auto simp: flush_cache_5_def same_volume_def meta_refl intro!: meta_same)

lemma free_owned:
  assumes "ok s" "owned_chain (FM s) ds e old"
  shows "\<exists>t. free_chain ops (first_cluster_of e) s = Some t \<and> ok t \<and> fr s t \<and> FM t = free_all (FM s) old \<and>
    DM t = DM s \<and> g_free_clusters t = (free_inc ^^ length old) (g_free_clusters s)"
proof (cases "in_chain (first_cluster_of e)")
  case True
  then show ?thesis using free_chain_run[OF assms(1)] assms(2) by (simp add: owned_chain_def)
next
  case False
  then have "old = []" using assms(2) by (simp add: owned_chain_def)
  then show ?thesis using free_chain_none[OF False] assms(1) by (auto simp: free_all_def)
qed

lemma scan_target:
  assumes "ok s" "chain (FM s) cur ds"
    "write_target (FM s) ds (dir_slots (DM s) (entries_per_cluster s) ds) name c i old"
  shows "\<exists>e0 t. write_scan ops name cur no_slot s = Some (0, sl_of (DM s) (c, i, e0), t) \<and>
     ok t \<and> fr s t \<and> FM t = free_all (FM s) old \<and> DM t = DM s"
proof -
  let ?sls = "dir_slots (DM s) (entries_per_cluster s) ds"
  obtain t where t: "ok t" "same_vol s t" "write_scan ops name cur no_slot s = write_scan_spec (DM s) name ?sls no_slot t"
    using write_scan_run[OF assms(1,2) slot_inv_no_slot, of name] by blast
  note m = same_vol_maps[OF t(2)]
  show ?thesis
  proof (cases "List.find (slot_same_name name) (takeWhile slot_used ?sls)")
    case None
    then obtain e0 where "old = []" "List.find slot_free ?sls = Some (c, i, e0)"
      using assms(3) by (auto simp: write_target_def split: option.splits)
    then show ?thesis using t None m fr_same[OF t(2)]
      by (intro exI[of _ e0] exI[of _ t])
         (simp add: write_scan_spec_def scan_choice_def no_slot_def free_all_def)
  next
    case (Some x)
    then obtain e0 where x: "x = (c, i, e0)" "owned_chain (FM s) ds e0 old"
      using assms(3) by (cases x) (auto simp: write_target_def)
    have "owned_chain (FM t) ds e0 old" using x(2) m by simp
    from free_owned[OF t(1) this] obtain u where u: "free_chain ops (first_cluster_of e0) t = Some u" "ok u" "fr t u"
        "FM u = free_all (FM t) old" "DM u = DM t" by blast
    show ?thesis using t(3) u Some x(1) m fr_trans[OF fr_same[OF t(2)] u(3)]
      by (intro exI[of _ e0] exI[of _ u]) (simp add: write_scan_spec_def)
  qed
qed

lemma entry_at_take: "32 * Suc j \<le> n \<Longrightarrow> entry_at (take n b) j = entry_at b j"
  by (simp add: entry_at_def buf_get_def drop_take)

lemma put_entry_run:
  assumes "ok s" "DM s c = Some bs" "i < entries_per_cluster s" "length (de_name e) = 11"
  obtains d where "fat32_write_cluster ops c (set_entry (write_dir_buffer (sl_of (DM s) (c, i, e0))) i e) s = Some (0, s\<lparr>disk := d\<rparr>)"
    "ok (s\<lparr>disk := d\<rparr>)" "fr s (s\<lparr>disk := d\<rparr>)" "FM (s\<lparr>disk := d\<rparr>) = FM s"
    "\<And>x. x \<noteq> c \<Longrightarrow> DM (s\<lparr>disk := d\<rparr>) x = DM s x"
    "\<And>j. j < entries_per_cluster s \<Longrightarrow>
       entry_at (the (DM (s\<lparr>disk := d\<rparr>) c)) j = (if j = i then e else entry_at bs j)"
proof -
  let ?w = "bs @ replicate (4096 - length bs) 0"
  have lb: "length bs = csize s" "csize s \<le> 4096" using length_DM[OF assms(1,2)] csize_le(1)[OF assms(1)] by auto
  have ib: "32 * Suc j \<le> csize s" if "j < entries_per_cluster s" for j using epc(3)[OF assms(1)] that by simp
  have lw: "length ?w = 4096" "32 * Suc i \<le> length ?w" using lb ib[OF assms(3)] by auto
  let ?buf = "set_entry ?w i e"
  have l: "length ?buf = 4096"
    unfolding set_entry_def using lw length_dir_entry_bytes[OF assms(4)] by simp
  have v: "valid_cluster (g_fs s) c" using assms(2) by (auto simp: data_map_def split: if_splits)
  obtain d where d: "fat32_write_cluster ops c ?buf s = Some (0, s\<lparr>disk := d\<rparr>)" "ok (s\<lparr>disk := d\<rparr>)"
    "FM (s\<lparr>disk := d\<rparr>) = FM s" "DM (s\<lparr>disk := d\<rparr>) = (DM s)(c \<mapsto> take (csize s) ?buf)" "fr s (s\<lparr>disk := d\<rparr>)"
    by (rule write_cluster[OF assms(1) v l])
  have e: "entry_at (the (DM (s\<lparr>disk := d\<rparr>) c)) j = (if j = i then e else entry_at bs j)" if "j < entries_per_cluster s" for j
  proof -
    have "entry_at (the (DM (s\<lparr>disk := d\<rparr>) c)) j = entry_at ?buf j"
      using entry_at_take[OF ib[OF that]] d(4) by simp
    also have "\<dots> = (if j = i then e else entry_at ?w j)"
      using entry_at_set_same[OF assms(4) lw(2)] entry_at_set_other[OF assms(4) lw(2)] by simp
    also have "entry_at ?w j = entry_at bs j" using entry_at_take[OF ib[OF that], of ?w] lb by simp
    finally show ?thesis .
  qed
  have b: "write_dir_buffer (sl_of (DM s) (c, i, e0)) = ?w" using assms(2) by (simp add: sl_of_def)
  show thesis by (rule that[of d]) (use d e in \<open>simp_all add: b\<close>)
qed

definition file_stored :: "u32 list \<Rightarrow> u32 \<Rightarrow> nat \<Rightarrow> u32 list \<Rightarrow> bytes \<Rightarrow> bytes \<Rightarrow> u32 \<Rightarrow> u32 list \<Rightarrow> 's fat \<Rightarrow> 's fat \<Rightarrow> bool" where
  "file_stored ds c i old name src sz xs s t \<longleftrightarrow>
     ok t \<and> fr s t \<and> links (free_all (FM s) old) 0 xs (FM t) \<and>
     take (unat sz) (file_bytes (DM t) xs) = take (unat sz) src \<and> unat sz \<le> length (file_bytes (DM t) xs) \<and>
     (\<forall>x. x \<notin> set xs \<and> x \<noteq> c \<longrightarrow> DM t x = DM s x) \<and>
     (\<forall>x\<in>set ds. \<forall>j<entries_per_cluster s. entry_at (the (DM t x)) j =
        (if x = c \<and> j = i then file_entry name (first_of xs) sz else entry_at (the (DM s x)) j)) \<and>
     length xs = clusters_needed (csize s) (unat sz)"

lemma target_in_dir:
  assumes "write_target m ds (dir_slots D n ds) name c i old"
  shows "c \<in> set ds" "i < n"
proof -
  obtain pre e0 post where "dir_slots D n ds = pre @ (c, i, e0) # post" by (rule write_target_split[OF assms])
  then have "(c, i, e0) \<in> set (dir_slots D n ds)" by simp
  from dir_slotsD[OF this] show "c \<in> set ds" "i < n" by auto
qed

lemma target_old_disjoint: "write_target m ds sls name c i old \<Longrightarrow> set old \<inter> set ds = {}"
  by (auto simp: write_target_def owned_chain_def split: option.splits prod.splits)

lemma dir_not_reused:
  assumes "chain m cur ds" "set old \<inter> set ds = {}" "links (free_all m old) 0 xs m'" "x \<in> set ds"
  shows "x \<notin> set xs" "m' x = m x"
proof -
  obtain n where n: "m x = Some n" "n \<noteq> 0" using chain_used[OF assms(1,4)] by blast
  then have f: "free_all m old x = m x" using assms(2,4) by (auto simp: free_all_def)
  show "x \<notin> set xs" using assms(3) f n by (auto simp: links_def)
  moreover have "x \<noteq> 0"
  proof -
    obtain us vs where "ds = us @ x # vs" using assms(4) by (meson split_list)
    then have "chain m x (x # vs)" using chain_suffix assms(1) by blast
    then show ?thesis using in_chain_nonzero by auto
  qed
  ultimately show "m' x = m x" using assms(3) f by (auto simp: links_def)
qed

lemma write_data_fresh:
  assumes "ok s" "clusters_needed (csize s) (unat sz) \<le> card {x. FM s x = Some 0}" "unat sz \<le> length src"
  obtains xs t where
    "write_data_loop ops src sz 0 \<lparr>fh_first = 0, fh_prev = 0\<rparr> s = Some (0, \<lparr>fh_first = first_of xs, fh_prev = last_of xs\<rparr>, t)"
    "ok t" "fr s t" "links (FM s) 0 xs (FM t)" "\<forall>x. x \<notin> set xs \<longrightarrow> DM t x = DM s x"
    "take (unat sz) (file_bytes (DM t) xs) = take (unat sz) src" "unat sz \<le> length (file_bytes (DM t) xs)"
    "length xs = clusters_needed (csize s) (unat sz)"
proof -
  let ?h = "\<lparr>fh_first = 0, fh_prev = 0\<rparr>"
  obtain xs t where r: "write_data_loop ops src sz 0 ?h s =
      Some (0, \<lparr>fh_first = (if fh_first ?h = 0 \<and> xs \<noteq> [] then hd xs else fh_first ?h),
               fh_prev = (if xs = [] then fh_prev ?h else last xs)\<rparr>, t)"
      "data_written src 0 (unat sz) (fh_prev ?h) s xs t" "length xs = clusters_needed (csize s) (unat sz)"
    using write_data_run[OF assms(1,2), of 0 src ?h] assms(3) by auto
  show thesis
    by (rule that[of xs t]) (use r in \<open>simp_all add: first_of_def last_of_def data_written_def buf_get_def\<close>)
qed

lemma finish_entry:
  assumes "ok s" "DM s c = Some bs" "i < entries_per_cluster s" "length (de_name e) = 11"
  obtains d t where
    "fat32_write_cluster ops c (set_entry (write_dir_buffer (sl_of (DM s) (c, i, e0))) i e) s = Some (0, s\<lparr>disk := d\<rparr>)"
    "flush_cache_5 ops (if g_free_clusters (s\<lparr>disk := d\<rparr>) \<noteq> FREE_UNKNOWN
       then snd (fat32_update_fsinfo ops (g_free_clusters (s\<lparr>disk := d\<rparr>)) nf (s\<lparr>disk := d\<rparr>)) else s\<lparr>disk := d\<rparr>) = t"
    "ok t" "fr s t" "FM t = FM s" "\<And>x. x \<noteq> c \<Longrightarrow> DM t x = DM s x"
    "\<And>j. j < entries_per_cluster s \<Longrightarrow> entry_at (the (DM t c)) j = (if j = i then e else entry_at bs j)"
proof -
  obtain d where d: "fat32_write_cluster ops c (set_entry (write_dir_buffer (sl_of (DM s) (c, i, e0))) i e) s = Some (0, s\<lparr>disk := d\<rparr>)"
    "ok (s\<lparr>disk := d\<rparr>)" "fr s (s\<lparr>disk := d\<rparr>)" "FM (s\<lparr>disk := d\<rparr>) = FM s"
    "\<And>x. x \<noteq> c \<Longrightarrow> DM (s\<lparr>disk := d\<rparr>) x = DM s x"
    "\<And>j. j < entries_per_cluster s \<Longrightarrow>
       entry_at (the (DM (s\<lparr>disk := d\<rparr>) c)) j = (if j = i then e else entry_at bs j)"
    by (rule put_entry_run[OF assms]) blast
  let ?s3 = "s\<lparr>disk := d\<rparr>"
  let ?s4 = "if g_free_clusters ?s3 \<noteq> FREE_UNKNOWN then snd (fat32_update_fsinfo ops (g_free_clusters ?s3) nf ?s3) else ?s3"
  have m4: "meta_step ?s3 ?s4" using update_fsinfo_meta[OF d(2)] meta_refl[OF d(2)] by simp
  then have "meta_step ?s4 (flush_cache_5 ops ?s4)" by (intro flush_meta) (simp only: meta_step_def)
  with m4 have m: "meta_step ?s3 (flush_cache_5 ops ?s4)" by (rule meta_trans)
  then have k: "ok (flush_cache_5 ops ?s4)" "fr ?s3 (flush_cache_5 ops ?s4)" "FM (flush_cache_5 ops ?s4) = FM ?s3"
    "DM (flush_cache_5 ops ?s4) = DM ?s3" by (simp_all only: meta_step_def)
  show thesis
    by (rule that[OF d(1) refl k(1) fr_trans[OF d(3) k(2)]]) (use d(4-6) in \<open>simp_all only: k(3,4)\<close>)
qed

lemma write_file_in_run:
  assumes "ok s" "chain (FM s) cur ds"
    "write_target (FM s) ds (dir_slots (DM s) (entries_per_cluster s) ds) (name_to_fat fname) c i old"
    "clusters_needed (csize s) (unat sz) \<le> card {x. free_all (FM s) old x = Some 0}" "unat sz \<le> length src"
  shows "\<exists>xs t. fat32_write_file_in ops cur fname src sz s = Some (0, t) \<and>
     file_stored ds c i old (name_to_fat fname) src sz xs s t"
proof -
  let ?n = "name_to_fat fname"
  note tg = target_in_dir[OF assms(3)] target_old_disjoint[OF assms(3)]
  obtain e0 s1 where s1: "write_scan ops ?n cur no_slot s = Some (0, sl_of (DM s) (c, i, e0), s1)"
    "ok s1" "fr s s1" "FM s1 = free_all (FM s) old" "DM s1 = DM s" using scan_target[OF assms(1-3)] by blast
  have g1: "csize s1 = csize s" using s1(3) by (simp add: frame_def)
  have need: "clusters_needed (csize s1) (unat sz) \<le> card {x. FM s1 x = Some 0}" using assms(4) g1 s1(4) by simp
  obtain xs s2 where s2: "write_data_loop ops src sz 0 \<lparr>fh_first = 0, fh_prev = 0\<rparr> s1 =
      Some (0, \<lparr>fh_first = first_of xs, fh_prev = last_of xs\<rparr>, s2)"
    "ok s2" "fr s1 s2" "links (FM s1) 0 xs (FM s2)" "\<forall>x. x \<notin> set xs \<longrightarrow> DM s2 x = DM s1 x"
    "take (unat sz) (file_bytes (DM s2) xs) = take (unat sz) src" "unat sz \<le> length (file_bytes (DM s2) xs)"
    "length xs = clusters_needed (csize s1) (unat sz)"
    by (rule write_data_fresh[OF s1(2) need assms(5)])
  have fs: "fr s s2" by (rule fr_trans[OF s1(3) s2(3)])
  have g2: "entries_per_cluster s2 = entries_per_cluster s" using fs by (intro epc_geom) (simp add: frame_def)
  note nr = dir_not_reused[OF assms(2) tg(3) s2(4)[unfolded s1(4)]]
  obtain k where "FM s c = Some k" using chain_used[OF assms(2) tg(1)] by blast
  then obtain bs where bs: "DM s c = Some bs" by (auto simp: fat_map_def data_map_def split: if_splits)
  then have bs2: "DM s2 c = Some bs" using s2(5) s1(5) nr(1)[OF tg(1)] by simp
  have sl: "sl_of (DM s) (c, i, e0) = sl_of (DM s2) (c, i, e0)" using bs bs2 by (simp add: sl_of_def)
  have i2: "i < entries_per_cluster s2" using tg(2) g2 by simp
  let ?e = "file_entry ?n (first_of xs) sz"
  have nl: "length (de_name ?e) = 11" by (simp add: file_entry_def length_name_to_fat)
  obtain d t where d: "fat32_write_cluster ops c (set_entry (write_dir_buffer (sl_of (DM s2) (c, i, e0))) i ?e) s2 = Some (0, s2\<lparr>disk := d\<rparr>)"
    "flush_cache_5 ops (if g_free_clusters (s2\<lparr>disk := d\<rparr>) \<noteq> FREE_UNKNOWN
       then snd (fat32_update_fsinfo ops (g_free_clusters (s2\<lparr>disk := d\<rparr>)) (last_of xs + 1) (s2\<lparr>disk := d\<rparr>)) else s2\<lparr>disk := d\<rparr>) = t"
    "ok t" "fr s2 t" "FM t = FM s2" "\<And>x. x \<noteq> c \<Longrightarrow> DM t x = DM s2 x"
    "\<And>j. j < entries_per_cluster s2 \<Longrightarrow> entry_at (the (DM t c)) j = (if j = i then ?e else entry_at bs j)"
    by (rule finish_entry[OF s2(2) bs2 i2 nl]) blast
  have ec: "entry_cluster (sl_of (DM s2) (c, i, e0)) = c" "entry_index (sl_of (DM s2) (c, i, e0)) = i" "c \<noteq> 0"
    using in_chain_nonzero valid_in_chain(1)[OF s2(2)] bs2 by (auto simp: sl_of_def data_map_def split: if_splits)
  have run: "fat32_write_file_in ops cur fname src sz s = Some (0, t)"
    using okD(6)[OF assms(1)] s1(1) s2(1) ec d(1,2) unfolding sl
    by (cases "g_free_clusters s2 = FREE_UNKNOWN") (simp_all add: fat32_write_file_in_def Let_def)
  have "file_bytes (DM t) xs = file_bytes (DM s2) xs"
    by (rule file_bytes_cong) (use d(6) nr(1)[OF tg(1)] in metis)
  moreover have "entry_at (the (DM t x)) j = (if x = c \<and> j = i then ?e else entry_at (the (DM s x)) j)"
    if "x \<in> set ds" "j < entries_per_cluster s" for x j
    using that d(6)[of x] d(7)[of j] s2(5) s1(5) nr(1)[of x] g2 bs by (cases "x = c") auto
  ultimately have "file_stored ds c i old ?n src sz xs s t"
    unfolding file_stored_def
    using d(3,5,6) s2(4-8) s1(4,5) fr_trans[OF fs d(4)] g1 by auto
  with run show ?thesis by blast
qed

lemma read_file_in_run:
  assumes "ok s" "chain (FM s) cur ds"
    "dir_lookup (name_to_fat fname) (dir_slots (DM s) (entries_per_cluster s) ds) = Some (c, i, e)"
    "file_chain (FM s) (first_cluster_of e) xs" "unat (de_file_size e) \<le> length (file_bytes (DM s) xs)"
    "min (unat (de_file_size e)) (unat mx) \<le> length buf"
  shows "\<exists>t. fat32_read_file_in ops cur fname buf mx s =
      Some (0, buf_put buf 0 (take (min (unat (de_file_size e)) (unat mx)) (file_bytes (DM s) xs)),
            Some (min_u32 (de_file_size e) mx), t) \<and> ok t \<and> same_vol s t"
proof -
  obtain s1 where s1: "fat32_find_entry ops cur (name_to_fat fname) s = Some (Some (e, c, i), s1)" "ok s1" "same_vol s s1"
    using find_entry[OF assms(1,2), of "name_to_fat fname"] assms(3) by (auto simp: as_found_def)
  note m = same_vol_maps[OF s1(3)]
  let ?r = "min_u32 (de_file_size e) mx"
  have r: "unat ?r = min (unat (de_file_size e)) (unat mx)" by (rule min_u32_unat)
  have "\<exists>t. read_file_loop ops (first_cluster_of e) ?r 0 buf s1 =
      Some (0, buf_put buf 0 (take (unat ?r) (file_bytes (DM s1) xs)), t) \<and> ok t \<and> same_vol s1 t"
  proof (cases "chain (FM s1) (first_cluster_of e) xs")
    case True
    show ?thesis by (rule read_file_run[OF s1(2) True]) (use assms(5,6) r m in auto)
  next
    case False
    then have "first_cluster_of e = 0" "xs = []" using assms(4) m by (auto simp: file_chain_def)
    then show ?thesis using s1(2)
      by (subst read_file_loop.simps) (simp add: in_chain_def file_bytes_def)
  qed
  then obtain t where t: "read_file_loop ops (first_cluster_of e) ?r 0 buf s1 =
      Some (0, buf_put buf 0 (take (unat ?r) (file_bytes (DM s1) xs)), t)" "ok t" "same_vol s1 t" by blast
  then show ?thesis
    using s1(1) okD(6)[OF assms(1)] same_vol_trans[OF s1(3) t(3)] m r
    by (simp add: fat32_read_file_in_def)
qed

lemma stored_dir:
  assumes "ok s" "chain (FM s) cur ds"
    "write_target (FM s) ds (dir_slots (DM s) (entries_per_cluster s) ds) name c i old"
    "file_stored ds c i old name src sz xs s t" "length name = 11" "name ! 0 \<noteq> 0" "name ! 0 \<noteq> 0xE5"
  shows "chain (FM t) cur ds" "entries_per_cluster t = entries_per_cluster s" "file_chain (FM t) (first_of xs) xs"
    "dir_lookup name (dir_slots (DM t) (entries_per_cluster t) ds) = Some (c, i, file_entry name (first_of xs) sz)"
    "\<And>name'. name' \<noteq> name \<Longrightarrow> dir_wf (dir_slots (DM s) (entries_per_cluster s) ds) \<Longrightarrow>
       dir_lookup name' (dir_slots (DM t) (entries_per_cluster t) ds) =
       dir_lookup name' (dir_slots (DM s) (entries_per_cluster s) ds)"
proof -
  let ?e = "file_entry name (first_of xs) sz"
  have st: "fr s t" "links (free_all (FM s) old) 0 xs (FM t)"
    "\<And>x j. x \<in> set ds \<Longrightarrow> j < entries_per_cluster s \<Longrightarrow>
       entry_at (the (DM t x)) j = (if x = c \<and> j = i then ?e else entry_at (the (DM s x)) j)"
    using assms(4) by (simp_all add: file_stored_def)
  show eq: "entries_per_cluster t = entries_per_cluster s" using st(1) by (intro epc_geom) (simp add: frame_def)
  have "FM t x = FM s x" if "x \<in> set ds" for x
    by (rule dir_not_reused(2)[OF assms(2) target_old_disjoint[OF assms(3)] st(2) that])
  then show "chain (FM t) cur ds" using assms(2) chain_cong[of ds "FM t" "FM s" cur] by metis
  show "file_chain (FM t) (first_of xs) xs" using st(2) by (auto simp: file_chain_def first_of_def links_def)
  obtain pre e0 post where sp: "dir_slots (DM s) (entries_per_cluster s) ds = pre @ (c, i, e0) # post"
    "\<forall>x\<in>set pre. slot_used x \<and> \<not> slot_same_name name x" "slot_free (c, i, e0) \<or> slot_same_name name (c, i, e0)"
    by (rule write_target_split[OF assms(3)])
  have up: "dir_slots (DM t) (entries_per_cluster t) ds = pre @ (c, i, ?e) # post"
    unfolding eq by (rule dir_slots_update[OF chain_distinct[OF assms(2)] sp(1) st(3)])
  have new: "slot_used (c, i, ?e)" "slot_match name (c, i, ?e)"
    using assms(6,7) by (simp_all add: slot_used_def slot_match_def file_entry_def name0_def)
  have "\<forall>x\<in>set pre. slot_used x \<and> \<not> slot_match name x"
    using sp(2) by (auto simp: slot_match_def slot_same_name_def)
  then show "dir_lookup name (dir_slots (DM t) (entries_per_cluster t) ds) = Some (c, i, ?e)"
    unfolding up by (rule dir_lookup_here[OF _ new])
  fix name' assume n': "name' \<noteq> name" "dir_wf (dir_slots (DM s) (entries_per_cluster s) ds)"
  show "dir_lookup name' (dir_slots (DM t) (entries_per_cluster t) ds) =
       dir_lookup name' (dir_slots (DM s) (entries_per_cluster s) ds)"
    unfolding up sp(1)
    by (rule dir_lookup_other[OF n'(2)[unfolded sp(1)] _ _ new(1)])
       (use sp(2,3) n'(1) in \<open>auto simp: slot_used_def slot_match_def slot_same_name_def slot_free_def file_entry_def\<close>)
qed

end

subsection \<open>Deletion\<close>

definition deleted_entry :: "fat32_dir_entry \<Rightarrow> fat32_dir_entry" where
  "deleted_entry e = e\<lparr>de_name := (de_name e)[0 := 0xE5]\<rparr>"

lemma dir_entry_of_mark: "length b = 32 \<Longrightarrow> dir_entry_of (b[0 := 0xE5]) = deleted_entry (dir_entry_of b)"
  by (simp add: dir_entry_of_def deleted_entry_def buf_get_def take_update_swap drop_update_cancel)

lemma entry_at_mark:
  assumes "32 * Suc i \<le> length b" "32 * Suc j \<le> length b"
  shows "entry_at (b[32 * i := 0xE5]) j = (if j = i then deleted_entry (entry_at b i) else entry_at b j)"
proof (cases "j = i")
  case True
  have "buf_get 32 (b[32 * i := 0xE5]) (32 * i) = (buf_get 32 b (32 * i))[0 := 0xE5]"
    by (simp add: buf_get_def drop_update_swap take_update_swap)
  with True show ?thesis using dir_entry_of_mark[of "buf_get 32 b (32 * i)"] assms by (simp add: entry_at_def)
next
  case False
  then consider "j < i" | "i < j" by linarith
  then have "buf_get 32 (b[32 * i := 0xE5]) (32 * j) = buf_get 32 b (32 * j)"
  proof cases
    case 1
    then have "drop (32 * j) (b[32 * i := 0xE5]) = (drop (32 * j) b)[32 * i - 32 * j := 0xE5]"
      by (simp add: drop_update_swap)
    with 1 show ?thesis by (simp add: buf_get_def take_update_cancel)
  next
    case 2
    then show ?thesis by (simp add: buf_get_def drop_update_cancel)
  qed
  with False show ?thesis by (simp add: entry_at_def)
qed

lemma deleted_slot: "length (de_name e) = 11 \<Longrightarrow> slot_used (c, i, deleted_entry e)"
  "length (de_name e) = 11 \<Longrightarrow> \<not> slot_match name (c, i, deleted_entry e)"
  by (simp_all add: slot_used_def slot_match_def deleted_entry_def name0_def)

lemma length_name_entry_at: "32 * Suc i \<le> length b \<Longrightarrow> length (de_name (entry_at b i)) = 11"
  by (simp add: entry_at_def dir_entry_of_def buf_get_def)

lemma dir_lookup_skip:
  assumes "\<forall>y\<in>set pre. slot_used y" "slot_used x" "\<not> slot_match name x"
  shows "dir_lookup name (pre @ x # post) = dir_lookup name (pre @ post)"
  using assms
  by (cases "List.find (slot_match name) pre") (auto simp: dir_lookup_def takeWhile_append find_append)

lemma dir_lookup_split:
  assumes "dir_lookup name sls = Some x"
  obtains pre post where "sls = pre @ x # post" "\<forall>y\<in>set pre. slot_used y \<and> \<not> slot_match name y" "slot_used x" "slot_match name x"
proof -
  obtain pre post where p: "takeWhile slot_used sls = pre @ x # post" "\<forall>y\<in>set pre. \<not> slot_match name y" "slot_match name x"
    using assms unfolding dir_lookup_def by (rule find_split)
  obtain rest where "sls = pre @ x # rest" "\<forall>y\<in>set pre. slot_used y" "slot_used x" by (rule takeWhile_split[OF p(1)])
  with p that show thesis by blast
qed

context block_device
begin

lemma mark_deleted_run:
  assumes "ok s" "DM s c = Some bs" "i < entries_per_cluster s"
  obtains t where "mark_deleted ops c i s = Some (0, t)" "ok t" "fr s t" "FM t = FM s" "\<And>x. x \<noteq> c \<Longrightarrow> DM t x = DM s x"
    "\<And>j. j < entries_per_cluster s \<Longrightarrow>
       entry_at (the (DM t c)) j = (if j = i then deleted_entry (entry_at bs i) else entry_at bs j)"
    "g_free_clusters t = g_free_clusters s"
proof -
  let ?z = "replicate 4096 (0 :: u8)"
  have l0: "length ?z = 4096" by simp
  obtain s1 where s1: "fat32_read_cluster ops c ?z s = Some (0, buf_put ?z 0 bs, s1)" "ok s1" "same_vol s s1"
    by (rule read_cluster[OF assms(1,2) l0])
  note m = same_vol_maps[OF s1(3)]
  have g: "g_fs s1 = g_fs s" using s1(3) by (simp add: same_volume_def)
  have v: "valid_cluster (g_fs s1) c" using assms(2) g by (auto simp: data_map_def split: if_splits)
  have lb: "length bs = csize s" "csize s \<le> 4096" using length_DM[OF assms(1,2)] csize_le(1)[OF assms(1)] by auto
  let ?b = "(buf_put ?z 0 bs)[32 * i := 0xE5]"
  have l: "length ?b = 4096" using lb by (simp add: buf_put_def)
  obtain d where d: "fat32_write_cluster ops c ?b s1 = Some (0, s1\<lparr>disk := d\<rparr>)" "ok (s1\<lparr>disk := d\<rparr>)"
    "FM (s1\<lparr>disk := d\<rparr>) = FM s1" "DM (s1\<lparr>disk := d\<rparr>) = (DM s1)(c \<mapsto> take (csize s1) ?b)" "fr s1 (s1\<lparr>disk := d\<rparr>)"
    by (rule write_cluster[OF s1(2) v l])
  let ?s2 = "s1\<lparr>disk := d\<rparr>"
  define t where "t = (if g_free_clusters ?s2 \<noteq> FREE_UNKNOWN
      then snd (fat32_update_fsinfo ops (g_free_clusters ?s2) 0xFFFFFFFF ?s2) else ?s2)"
  have mt: "meta_step ?s2 t" using update_fsinfo_meta[OF d(2)] meta_refl[OF d(2)] by (simp add: t_def)
  have run: "mark_deleted ops c i s = Some (0, t)"
    using s1(1) d(1) by (simp add: mark_deleted_def t_def)
  have ib: "32 * Suc j \<le> csize s" if "j < entries_per_cluster s" for j using epc(3)[OF assms(1)] that by simp
  have e: "entry_at (the (DM t c)) j = (if j = i then deleted_entry (entry_at bs i) else entry_at bs j)"
    if j: "j < entries_per_cluster s" for j
  proof -
    have "entry_at (the (DM t c)) j = entry_at ?b j"
      using mt d(4) g entry_at_take[OF ib[OF j]] by (simp add: meta_step_def)
    also have "\<dots> = (if j = i then deleted_entry (entry_at (buf_put ?z 0 bs) i) else entry_at (buf_put ?z 0 bs) j)"
      by (rule entry_at_mark) (use lb ib[OF j] ib[OF assms(3)] in \<open>simp_all add: buf_put_def\<close>)
    finally show ?thesis using entry_at_cluster[OF assms(1,2) l0] assms(3) j by simp
  qed
  have f: "fr s t" using mt fr_trans[OF fr_trans[OF fr_same[OF s1(3)] d(5)]] by (simp add: meta_step_def)
  show thesis
    by (rule that[OF run _ f _ _ e])
       (use mt d(3,4) m s1(3) in \<open>simp_all add: meta_step_def same_volume_def[of sect s s1]\<close>)
qed

lemma chain_free_all:
  assumes "chain m cur ds" "set old \<inter> set ds = {}"
  shows "chain (free_all m old) cur ds"
proof -
  have "free_all m old x = m x" if "x \<in> set ds" for x using assms(2) that by (auto simp: free_all_def)
  then show ?thesis using assms(1) chain_cong[of ds "free_all m old" m cur] by blast
qed

lemma delete_file_run:
  assumes "ok s" "chain (FM s) (root_dir_cluster (g_fs s)) ds"
    "dir_slots (DM s) (entries_per_cluster s) ds = pre @ (c, i, e) # post"
    "dir_lookup (name_to_fat fname) (pre @ (c, i, e) # post) = Some (c, i, e)" "owned_chain (FM s) ds e old"
  shows "\<exists>t. fat32_delete_file ops fname s = Some (0, t) \<and> ok t \<and> fr s t \<and> FM t = free_all (FM s) old \<and>
     (\<forall>x. x \<noteq> c \<longrightarrow> DM t x = DM s x) \<and> chain (FM t) (root_dir_cluster (g_fs t)) ds \<and>
     dir_slots (DM t) (entries_per_cluster t) ds = pre @ (c, i, deleted_entry e) # post \<and>
     g_free_clusters t = (free_inc ^^ length old) (g_free_clusters s)"
proof -
  let ?root = "root_dir_cluster (g_fs s)" and ?n = "entries_per_cluster s"
  obtain s1 where s1: "fat32_find_entry ops ?root (name_to_fat fname) s = Some (Some (e, c, i), s1)" "ok s1" "same_vol s s1"
    using find_entry[OF assms(1,2), of "name_to_fat fname"] assms(3,4) by (auto simp: as_found_def)
  note m1 = same_vol_maps[OF s1(3)]
  have "owned_chain (FM s1) ds e old" using assms(5) m1 by (simp add: owned_chain_def)
  from free_owned[OF s1(2) this] obtain s2 where s2: "free_chain ops (first_cluster_of e) s1 = Some s2" "ok s2" "fr s1 s2"
    "FM s2 = free_all (FM s1) old" "DM s2 = DM s1" "g_free_clusters s2 = (free_inc ^^ length old) (g_free_clusters s1)"
    by blast
  have "(c, i, e) \<in> set (dir_slots (DM s) ?n ds)" using assms(3) by simp
  from dir_slotsD[OF this] have ci: "c \<in> set ds" "i < ?n" "e = entry_at (the (DM s c)) i" by auto
  obtain k where "FM s c = Some k" using chain_used[OF assms(2) ci(1)] by blast
  then have "valid_cluster (g_fs s) c" by (rule FM_valid)
  then obtain bs where bs: "DM s c = Some bs" by (simp add: data_map_def)
  have fs: "fr s s2" by (rule fr_trans[OF fr_same[OF s1(3)] s2(3)])
  have g2: "entries_per_cluster s2 = ?n" using fs by (intro epc_geom) (simp add: frame_def)
  have bs2: "DM s2 c = Some bs" "i < entries_per_cluster s2" using bs s2(5) m1 ci(2) g2 by auto
  obtain t where t: "mark_deleted ops c i s2 = Some (0, t)" "ok t" "fr s2 t" "FM t = FM s2" "\<And>x. x \<noteq> c \<Longrightarrow> DM t x = DM s2 x"
    "\<And>j. j < entries_per_cluster s2 \<Longrightarrow>
       entry_at (the (DM t c)) j = (if j = i then deleted_entry (entry_at bs i) else entry_at bs j)"
    "g_free_clusters t = g_free_clusters s2"
    by (rule mark_deleted_run[OF s2(2) bs2]) blast
  have ft: "fr s t" by (rule fr_trans[OF fs t(3)])
  then have g: "g_fs t = g_fs s" by (simp add: frame_def)
  note gt = g epc_geom[OF g]
  have run: "fat32_delete_file ops fname s = Some (0, t)"
    using okD(6)[OF assms(1)] s1(1) s2(1) t(1) by (simp add: fat32_delete_file_def)
  have "entry_at (the (DM t x)) j = (if x = c \<and> j = i then deleted_entry e else entry_at (the (DM s x)) j)"
    if "j < ?n" for x j
    using that t(5)[of x] t(6)[of j] g2 s2(5) m1(2) bs ci(3) by (cases "x = c") simp_all
  then have "dir_slots (DM t) ?n ds = pre @ (c, i, deleted_entry e) # post"
    by (intro dir_slots_update[OF chain_distinct[OF assms(2)] assms(3)])
  moreover have "chain (FM t) ?root ds"
    using chain_free_all[OF assms(2)] assms(5) t(4) s2(4) m1 by (simp add: owned_chain_def)
  moreover have "g_free_clusters s1 = g_free_clusters s" using s1(3) by (simp add: same_volume_def)
  ultimately show ?thesis
    by (intro exI[of _ t]) (simp add: run t(2,4,5,7) s2(4,5,6) m1 ft gt)
qed

end

end
