(* ===== verification/Fat32_Correct.thy ===== *)
theory Fat32_Correct
  imports Fat32_Ops
begin

text \<open>
  The correctness statements of the FAT32 component, each for an arbitrary device that satisfies the
  block-device contract, with a small concrete volume on which each is applied.
\<close>

unbundle bit_operations_syntax

subsection \<open>A small concrete volume\<close>

text \<open>
  Sixteen one-sector clusters, two one-sector copies of the table at sectors 32 and 33, data from
  sector 34; cluster 2 is the root directory and every other cluster is free.
\<close>

definition sample_fs :: fat32_fs where
  "sample_fs = \<lparr>fat_begin_lba = 32, cluster_begin_lba = 34, sectors_per_cluster = 1,
     root_dir_cluster = 2, fat_size = 1, num_fats = 2, total_clusters = 16, initialized = True\<rparr>"

definition sample_disk :: "nat \<Rightarrow> bytes" where
  "sample_disk l = (if l = 32 \<or> l = 33 then format_fat_sector else replicate 512 0)"

definition sample_volume :: "(nat \<Rightarrow> bytes) fat" where
  "sample_volume = \<lparr>disk = sample_disk, g_fs = sample_fs, g_partition_offset = 0,
     g_free_clusters = 15, sector_buffer = replicate 512 0\<rparr>"

lemma sample_volume_ok: "fat_ok ram_ok UNIV sample_volume"
  by (simp add: fat_ok_def sample_volume_def sample_fs_def geom_ok_def ram_ok_def sample_disk_def
      format_fat_sector_def)

lemma sample_valid: "valid_cluster (g_fs sample_volume) c \<longleftrightarrow> 2 \<le> unat c \<and> unat c < 18"
  by (simp add: valid_cluster_def sample_volume_def sample_fs_def)

lemma sample_free: "fat_map (\<lambda>d. d) sample_volume 3 = Some 0"
proof -
  have "buf_get 4 format_fat_sector 12 = replicate 4 0"
    unfolding format_fat_sector_def by (subst buf_get_put_other) (auto simp: buf_get_def)
  moreover have "replicate 4 (0 :: u8) = [0, 0, 0, 0]" by (simp add: numeral_eq_Suc)
  ultimately show ?thesis
    by (simp add: fat_map_def sample_valid fat_word_def fat_lba_def fat_off_def)
       (simp add: sample_volume_def sample_fs_def sample_disk_def)
qed

text \<open>
  C22 (refinement).  On a well-formed volume, \<^verbatim>\<open>fat32_set_next_cluster\<close> succeeds and is exactly the map
  update of the 28-bit entry of that one cluster: every other entry, every cluster's contents, the top
  four bits of the entry, the geometry and every sector outside the volume are unchanged, and the
  second copy of the table sector equals the first afterwards.
\<close>

theorem set_next_cluster_refines:
  assumes "block_device ops sect dev_ok lbas" "fat_ok dev_ok lbas s" "valid_cluster (g_fs s) c"
  shows "\<exists>t. fat32_set_next_cluster ops c n s = (0, t) \<and> fat_ok dev_ok lbas t \<and> frame sect s t \<and>
     fat_map sect t = (fat_map sect s)(c \<mapsto> n AND 0x0FFFFFFF) \<and> data_map sect t = data_map sect s \<and>
     fat_word sect t c AND 0xF0000000 = fat_word sect s c AND 0xF0000000 \<and> mirrored sect t c"
  by (rule block_device.set_next[OF assms, of n]) blast

theorem set_next_cluster_refines_witness:
  "\<exists>t. fat32_set_next_cluster ram_storage 3 0x0FFFFFF8 sample_volume = (0, t) \<and>
     fat_map (\<lambda>d. d) t 3 = Some 0x0FFFFFF8"
  using set_next_cluster_refines[OF ram_block_device sample_volume_ok, of 3 "0x0FFFFFF8"]
  by (auto simp: sample_valid)

text \<open>
  \<^verbatim>\<open>fat32_allocate_cluster\<close> returns the lowest-numbered free cluster and marks it as
  the end of a chain, changing no other entry and no data; it returns 0 exactly when no cluster is
  free, and then the volume is unchanged.  The cached free count follows.
\<close>

theorem allocate_cluster_lowest_free:
  assumes "block_device ops sect dev_ok lbas" "fat_ok dev_ok lbas s"
  shows "\<exists>c t. fat32_allocate_cluster ops s = (c, t) \<and> fat_ok dev_ok lbas t \<and> frame sect s t \<and>
     data_map sect t = data_map sect s \<and>
     (if (\<exists>c'. fat_map sect s c' = Some 0)
      then fat_map sect s c = Some 0 \<and> (\<forall>c'. fat_map sect s c' = Some 0 \<longrightarrow> c \<le> c') \<and>
           fat_map sect t = (fat_map sect s)(c \<mapsto> FAT32_EOC) \<and>
           g_free_clusters t = free_dec (g_free_clusters s)
      else c = 0 \<and> fat_map sect t = fat_map sect s \<and> g_free_clusters t = g_free_clusters s)"
proof (cases "\<exists>c'. fat_map sect s c' = Some 0")
  case True
  then obtain c0 where c0: "fat_map sect s c0 = Some 0" by blast
  obtain c t where "fat32_allocate_cluster ops s = (c, t)" "fat_map sect s c = Some 0"
    "\<forall>c'. fat_map sect s c' = Some 0 \<longrightarrow> c \<le> c'" "fat_ok dev_ok lbas t" "frame sect s t"
    "fat_map sect t = (fat_map sect s)(c \<mapsto> FAT32_EOC)" "data_map sect t = data_map sect s"
    "g_free_clusters t = free_dec (g_free_clusters s)"
    by (rule block_device.allocate_some[OF assms c0])
  with True show ?thesis by (intro exI[of _ c] exI[of _ t]) simp
next
  case False
  then have "\<forall>c. fat_map sect s c \<noteq> Some 0" by blast
  then obtain t where t: "fat32_allocate_cluster ops s = (0, t)" "fat_ok dev_ok lbas t" "same_volume sect s t"
    by (rule block_device.allocate_none[OF assms])
  show ?thesis
    by (rule exI[of _ 0], rule exI[of _ t])
       (use t False block_device.fr_same[OF assms(1) t(3)] block_device.same_vol_maps[OF assms(1) t(3)] in
         \<open>simp add: same_volume_def\<close>)
qed

theorem allocate_cluster_lowest_free_witness:
  "\<exists>c t. fat32_allocate_cluster ram_storage sample_volume = (c, t) \<and> c \<le> 3 \<and>
     fat_map (\<lambda>d. d) sample_volume c = Some 0"
  using allocate_cluster_lowest_free[OF ram_block_device sample_volume_ok] sample_free by metis

text \<open>
  Writing a cluster and reading it back (after any other cluster has been written)
  returns the bytes written, for every cluster of the volume and every buffer of 4096 bytes; the
  allocation table and the sectors outside the volume do not change.
\<close>

theorem write_read_cluster:
  assumes "block_device ops sect dev_ok lbas" "fat_ok dev_ok lbas s"
    "valid_cluster (g_fs s) c" "valid_cluster (g_fs s) c'" "c' \<noteq> c"
    "length buf = 4096" "length buf' = 4096" "length out = 4096"
  shows "\<exists>t u v. fat32_write_cluster ops c buf s = Some (0, t) \<and> fat32_write_cluster ops c' buf' t = Some (0, u) \<and>
     fat_map sect u = fat_map sect s \<and> frame sect s u \<and>
     fat32_read_cluster ops c out u =
       Some (0, buf_put out 0 (take (unat (sectors_per_cluster (g_fs s)) * 512) buf), v)"
proof -
  note bd = assms(1)
  obtain d where t: "fat32_write_cluster ops c buf s = Some (0, s\<lparr>disk := d\<rparr>)" "fat_ok dev_ok lbas (s\<lparr>disk := d\<rparr>)"
      "fat_map sect (s\<lparr>disk := d\<rparr>) = fat_map sect s" "frame sect s (s\<lparr>disk := d\<rparr>)"
      "data_map sect (s\<lparr>disk := d\<rparr>) = (data_map sect s)(c \<mapsto> take (unat (sectors_per_cluster (g_fs s)) * 512) buf)"
    by (rule block_device.write_cluster[OF bd assms(2,3,6)])
  let ?t = "s\<lparr>disk := d\<rparr>"
  have v': "valid_cluster (g_fs ?t) c'" using assms(4) by simp
  obtain e where u: "fat32_write_cluster ops c' buf' ?t = Some (0, ?t\<lparr>disk := e\<rparr>)"
      "fat_ok dev_ok lbas (?t\<lparr>disk := e\<rparr>)"
      "fat_map sect (?t\<lparr>disk := e\<rparr>) = fat_map sect ?t" "frame sect ?t (?t\<lparr>disk := e\<rparr>)"
      "data_map sect (?t\<lparr>disk := e\<rparr>) = (data_map sect ?t)(c' \<mapsto> take (unat (sectors_per_cluster (g_fs ?t)) * 512) buf')"
    by (rule block_device.write_cluster[OF bd t(2) v' assms(7)])
  have dc: "data_map sect (?t\<lparr>disk := e\<rparr>) c = Some (take (unat (sectors_per_cluster (g_fs s)) * 512) buf)"
    using u(5) t(5) assms(5) by (simp only: fun_upd_apply) simp
  obtain v where "fat32_read_cluster ops c out (?t\<lparr>disk := e\<rparr>) =
      Some (0, buf_put out 0 (take (unat (sectors_per_cluster (g_fs s)) * 512) buf), v)"
    by (rule block_device.read_cluster[OF bd u(2) dc assms(8)])
  then show ?thesis using t(1,3) u(1,3) block_device.fr_trans[OF bd t(4) u(4)] by fastforce
qed

theorem write_read_cluster_witness:
  "\<exists>t u v. fat32_write_cluster ram_storage 3 (replicate 4096 7) sample_volume = Some (0, t) \<and>
     fat32_write_cluster ram_storage 4 (replicate 4096 9) t = Some (0, u) \<and>
     fat32_read_cluster ram_storage 3 (replicate 4096 0) u =
       Some (0, buf_put (replicate 4096 0) 0 (replicate 512 7), v)"
proof -
  have "unat (sectors_per_cluster (g_fs sample_volume)) * 512 = 512"
    by (simp add: sample_volume_def sample_fs_def)
  moreover have "take 512 (replicate 4096 (7 :: u8)) = replicate 512 7" by simp
  ultimately show ?thesis
    using write_read_cluster[OF ram_block_device sample_volume_ok, of 3 4 "replicate 4096 7" "replicate 4096 9" "replicate 4096 0"]
    by (simp only: sample_valid) (simp, blast)
qed

lemma sample_root_data: "data_map (\<lambda>d. d) sample_volume 2 = Some (replicate 512 0)"
  by (simp add: data_map_def sample_valid clu_lba_def)
     (simp add: sample_volume_def sample_fs_def sample_disk_def)

lemma sample_epc: "entries_per_cluster sample_volume = 16"
  by (simp add: entries_per_cluster_def sample_volume_def sample_fs_def)

lemma sample_root_chain: "chain (fat_map (\<lambda>d. d) sample_volume) 2 [2]"
proof -
  have "buf_get 4 format_fat_sector 8 = to_le 4 (0x0FFFFFFF :: u32)"
    by (simp add: format_fat_sector_def buf_get_def buf_put_def)
  then have "fat_map (\<lambda>d. d) sample_volume 2 = Some 0x0FFFFFFF"
    by (simp add: fat_map_def sample_valid fat_word_def fat_lba_def fat_off_def)
       (simp add: sample_volume_def sample_fs_def sample_disk_def)
  then show ?thesis by (simp add: in_chain_def)
qed

lemma sample_root_empty: "x \<in> set (dir_slots (data_map (\<lambda>d. d) sample_volume) 16 [2]) \<Longrightarrow> \<not> slot_used x"
  by (auto simp: slot_used_def sample_root_data entry_at_def dir_entry_of_def name0_def buf_get_def dest!: dir_slotsD)

lemma sample_target: "write_target (fat_map (\<lambda>d. d) sample_volume) [2]
   (dir_slots (data_map (\<lambda>d. d) sample_volume) (entries_per_cluster sample_volume) [2]) name 2 0 []"
proof -
  let ?sls = "dir_slots (data_map (\<lambda>d. d) sample_volume) 16 [2]"
  have hd: "?sls = (2, 0, entry_at (replicate 512 0) 0) # map (\<lambda>i. (2, i, entry_at (replicate 512 0) i)) [1..<16]"
    by (simp add: dir_slots_def cluster_slots_def sample_root_data upt_conv_Cons)
  have "\<not> slot_used (2, 0, entry_at (replicate 512 0) 0)" using sample_root_empty unfolding hd by auto
  then have "takeWhile slot_used ?sls = []" "List.find slot_free ?sls = Some (2, 0, entry_at (replicate 512 0) 0)"
    unfolding hd by (simp_all add: slot_used_def slot_free_def)
  then show ?thesis by (simp add: write_target_def sample_epc)
qed

lemma sample_room: "clusters_needed (unat (sectors_per_cluster (g_fs sample_volume)) * 512) (unat (3 :: u32)) \<le>
    card {x. free_all (fat_map (\<lambda>d. d) sample_volume) [] x = Some 0}"
proof -
  have "card {x. fat_map (\<lambda>d. d) sample_volume x = Some 0} > 0" using sample_free by (auto simp: card_gt_0_iff)
  then show ?thesis
    by (simp add: free_all_def clusters_needed_def) (simp add: sample_volume_def sample_fs_def)
qed

text \<open>
  C1 (roundtrip).  Writing a file into a directory and reading it back returns exactly the bytes written
  (the first \<open>mx\<close> of them when the caller asks for fewer), for a new name or for one that is replaced, for
  any directory chain, any file size that fits the free space and any file name whose first byte is not
  the deletion mark 0xE5; the write stays inside the volume and keeps it well-formed.
\<close>

theorem write_file_read_back:
  assumes bd: "block_device ops sect dev_ok lbas" and ok: "fat_ok dev_ok lbas s"
    and dir: "chain (fat_map sect s) dir ds"
    and target: "write_target (fat_map sect s) ds
          (dir_slots (data_map sect s) (entries_per_cluster s) ds) (name_to_fat fname) c i old"
    and room: "clusters_needed (unat (sectors_per_cluster (g_fs s)) * 512) (unat sz) \<le>
          card {x. free_all (fat_map sect s) old x = Some 0}"
    and src: "unat sz \<le> length src" and name: "name_to_fat fname ! 0 \<noteq> 0xE5"
    and buf: "min (unat sz) (unat mx) \<le> length buf"
  shows "\<exists>t u. fat32_write_file_in ops dir fname src sz s = Some (0, t) \<and> fat_ok dev_ok lbas t \<and> frame sect s t \<and>
     fat32_read_file_in ops dir fname buf mx t =
       Some (0, buf_put buf 0 (take (min (unat sz) (unat mx)) src), Some (min_u32 sz mx), u)"
proof -
  let ?n = "name_to_fat fname"
  obtain xs t where t: "fat32_write_file_in ops dir fname src sz s = Some (0, t)"
      "block_device.file_stored sect dev_ok lbas ds c i old ?n src sz xs s t"
    using block_device.write_file_in_run[OF bd ok dir target room src] by blast
  note st = block_device.stored_dir[OF bd ok dir target t(2) length_name_to_fat name_to_fat_nonzero name]
  note f = t(2)[unfolded block_device.file_stored_def[OF bd]]
  let ?e = "file_entry ?n (first_of xs) sz"
  have e: "first_cluster_of ?e = first_of xs" "de_file_size ?e = sz"
    by (simp_all only: first_cluster_file_entry) (simp add: file_entry_def)
  have "\<exists>u. fat32_read_file_in ops dir fname buf mx t =
      Some (0, buf_put buf 0 (take (min (unat (de_file_size ?e)) (unat mx)) (file_bytes (data_map sect t) xs)),
            Some (min_u32 (de_file_size ?e) mx), u) \<and> fat_ok dev_ok lbas u \<and> same_volume sect t u"
    by (rule block_device.read_file_in_run[OF bd _ st(1,4)]) (use f st(3) buf in \<open>simp_all add: e\<close>)
  moreover have "take (min (unat sz) (unat mx)) (file_bytes (data_map sect t) xs) = take (min (unat sz) (unat mx)) src"
    using f by (metis min.commute take_take)
  ultimately show ?thesis using t(1) f unfolding e by auto
qed

theorem write_file_read_back_witness:
  "\<exists>t u. fat32_write_file_in ram_storage 2 [0x61] [1, 2, 3] 3 sample_volume = Some (0, t) \<and>
     fat32_read_file_in ram_storage 2 [0x61] (replicate 8 0) 8 t =
       Some (0, buf_put (replicate 8 0) 0 [1, 2, 3], Some 3, u)"
proof -
  have n: "name_to_fat [0x61] ! 0 \<noteq> 0xE5" by (simp add: name_to_fat_first cchar_def fat_upper_def)
  have m: "min_u32 3 8 = 3" by (simp add: min_u32_def)
  show ?thesis
    using write_file_read_back[OF ram_block_device sample_volume_ok sample_root_chain sample_target sample_room _ n,
        of "[1, 2, 3]" 8 "replicate 8 0"] by (auto simp: m)
qed

text \<open>
  C8 (safety).  Writing a file disturbs nothing else: every other name of the directory resolves to the
  same entry as before, every allocated cluster that is not part of the replaced file keeps its link, and
  every such cluster other than the directory cluster holding the new entry keeps its contents.
\<close>

theorem write_file_preserves_others:
  assumes bd: "block_device ops sect dev_ok lbas" and ok: "fat_ok dev_ok lbas s"
    and dir: "chain (fat_map sect s) dir ds"
    and target: "write_target (fat_map sect s) ds
          (dir_slots (data_map sect s) (entries_per_cluster s) ds) (name_to_fat fname) c i old"
    and room: "clusters_needed (unat (sectors_per_cluster (g_fs s)) * 512) (unat sz) \<le>
          card {x. free_all (fat_map sect s) old x = Some 0}"
    and src: "unat sz \<le> length src" and name: "name_to_fat fname ! 0 \<noteq> 0xE5"
    and wf: "dir_wf (dir_slots (data_map sect s) (entries_per_cluster s) ds)"
  shows "\<exists>t. fat32_write_file_in ops dir fname src sz s = Some (0, t) \<and>
     (\<forall>name'. name' \<noteq> name_to_fat fname \<longrightarrow>
        dir_lookup name' (dir_slots (data_map sect t) (entries_per_cluster t) ds) =
        dir_lookup name' (dir_slots (data_map sect s) (entries_per_cluster s) ds)) \<and>
     (\<forall>x n. fat_map sect s x = Some n \<and> n \<noteq> 0 \<and> x \<notin> set old \<longrightarrow>
        fat_map sect t x = Some n \<and> (x \<noteq> c \<longrightarrow> data_map sect t x = data_map sect s x))"
proof -
  obtain xs t where t: "fat32_write_file_in ops dir fname src sz s = Some (0, t)"
      "block_device.file_stored sect dev_ok lbas ds c i old (name_to_fat fname) src sz xs s t"
    using block_device.write_file_in_run[OF bd ok dir target room src] by blast
  note st = block_device.stored_dir[OF bd ok dir target t(2) length_name_to_fat name_to_fat_nonzero name]
  have f: "links (free_all (fat_map sect s) old) 0 xs (fat_map sect t)"
    "\<forall>x. x \<notin> set xs \<and> x \<noteq> c \<longrightarrow> data_map sect t x = data_map sect s x"
    using t(2) unfolding block_device.file_stored_def[OF bd] by blast+
  have "fat_map sect t x = Some n \<and> x \<notin> set xs" if "fat_map sect s x = Some n" "n \<noteq> 0" "x \<notin> set old" for x n
  proof -
    have "free_all (fat_map sect s) old x = Some n" using that by (simp add: free_all_def)
    moreover have "x \<noteq> 0" using block_device.FM_valid[OF bd that(1)] by (auto simp: valid_cluster_def)
    moreover have "x \<notin> set xs" using f(1) that(2) calculation(1) by (auto simp: links_def)
    ultimately show ?thesis using f(1) by (simp add: links_def)
  qed
  with t(1) f(2) st(5)[OF _ wf] show ?thesis by blast
qed

lemma sample_root_wf: "dir_wf (dir_slots (data_map (\<lambda>d. d) sample_volume) (entries_per_cluster sample_volume) [2])"
  using sample_root_empty by (auto simp: dir_wf_def sample_epc dest: set_dropWhileD)

theorem write_file_preserves_others_witness:
  "\<exists>t. fat32_write_file_in ram_storage 2 [0x61] [1, 2, 3] 3 sample_volume = Some (0, t) \<and>
     fat_map (\<lambda>d. d) t 2 = fat_map (\<lambda>d. d) sample_volume 2"
proof -
  have n: "name_to_fat [0x61] ! 0 \<noteq> 0xE5" by (simp add: name_to_fat_first cchar_def fat_upper_def)
  obtain k where k: "fat_map (\<lambda>d. d) sample_volume 2 = Some k" "k \<noteq> 0"
    using chain_used[OF sample_root_chain, of 2] by auto
  show ?thesis
    using write_file_preserves_others[OF ram_block_device sample_volume_ok sample_root_chain sample_target
        sample_room _ n sample_root_wf, of "[1, 2, 3]"] k by auto
qed

text \<open>
  C21 (functional).  Deleting a file of the root directory succeeds, returns exactly the clusters of its
  chain to the free pool (and adds their number to the cached free count), changes the contents of no
  cluster but the directory cluster, and leaves its name without an entry when the directory holds that
  name once; every other name of the directory resolves as before.
\<close>

theorem delete_file_frees_chain:
  assumes bd: "block_device ops sect dev_ok lbas" and ok: "fat_ok dev_ok lbas s"
    and dir: "chain (fat_map sect s) (root_dir_cluster (g_fs s)) ds"
    and slots: "dir_slots (data_map sect s) (entries_per_cluster s) ds = pre @ (c, i, e) # post"
    and found: "dir_lookup (name_to_fat fname) (pre @ (c, i, e) # post) = Some (c, i, e)"
    and once: "dir_lookup (name_to_fat fname) (pre @ post) = None"
    and own: "owned_chain (fat_map sect s) ds e old"
  shows "\<exists>t. fat32_delete_file ops fname s = Some (0, t) \<and> fat_ok dev_ok lbas t \<and> frame sect s t \<and>
     fat_map sect t = free_all (fat_map sect s) old \<and> (\<forall>x. x \<noteq> c \<longrightarrow> data_map sect t x = data_map sect s x) \<and>
     g_free_clusters t = (free_inc ^^ length old) (g_free_clusters s) \<and>
     dir_lookup (name_to_fat fname) (dir_slots (data_map sect t) (entries_per_cluster t) ds) = None \<and>
     (\<forall>name'. name' \<noteq> name_to_fat fname \<longrightarrow>
        dir_lookup name' (dir_slots (data_map sect t) (entries_per_cluster t) ds) = dir_lookup name' (pre @ (c, i, e) # post))"
proof -
  obtain t where t: "fat32_delete_file ops fname s = Some (0, t)" "fat_ok dev_ok lbas t" "frame sect s t"
     "fat_map sect t = free_all (fat_map sect s) old" "\<forall>x. x \<noteq> c \<longrightarrow> data_map sect t x = data_map sect s x"
     "dir_slots (data_map sect t) (entries_per_cluster t) ds = pre @ (c, i, deleted_entry e) # post"
     "g_free_clusters t = (free_inc ^^ length old) (g_free_clusters s)"
    using block_device.delete_file_run[OF bd ok dir slots found own] by blast
  obtain pre' post' where "pre @ (c, i, e) # post = pre' @ (c, i, e) # post'"
    "\<forall>y\<in>set pre'. slot_used y \<and> \<not> slot_match (name_to_fat fname) y" "slot_used (c, i, e)" "slot_match (name_to_fat fname) (c, i, e)"
    by (rule dir_lookup_split[OF found])
  moreover have "distinct (map (\<lambda>(c, i, e). (c, i)) (pre @ (c, i, e) # post))"
    unfolding slots[symmetric] by (rule dir_slots_keys[OF chain_distinct[OF dir]])
  ultimately have p: "\<forall>y\<in>set pre. slot_used y" "slot_used (c, i, e)" "de_name e = name_to_fat fname"
    using distinct_split_unique[of "\<lambda>(c, i, e). (c, i)" pre "(c, i, e)" post pre' post'] by (auto simp: slot_match_def)
  have d: "slot_used (c, i, deleted_entry e)" "\<And>n. \<not> slot_match n (c, i, deleted_entry e)"
    using deleted_slot[of e] p(3) length_name_to_fat[of fname] by auto
  have "dir_lookup n (pre @ (c, i, deleted_entry e) # post) = dir_lookup n (pre @ post)" for n
    by (rule dir_lookup_skip[OF p(1) d])
  moreover have "dir_lookup n (pre @ (c, i, e) # post) = dir_lookup n (pre @ post)" if "n \<noteq> name_to_fat fname" for n
    by (rule dir_lookup_skip[OF p(1,2)]) (use p(3) that in \<open>simp add: slot_match_def\<close>)
  ultimately show ?thesis using t once by simp
qed

text \<open>The same volume with a three-byte file in cluster 3 as the first entry of the root directory.\<close>

definition sample_entry :: fat32_dir_entry where
  "sample_entry = file_entry (name_to_fat [0x61]) 3 3"

definition sample_file_disk :: "nat \<Rightarrow> bytes" where
  "sample_file_disk l =
     (if l = 32 \<or> l = 33 then buf_put format_fat_sector 12 (to_le 4 FAT32_EOC)
      else if l = 34 then set_entry (replicate 512 0) 0 sample_entry
      else if l = 35 then buf_put (replicate 512 0) 0 [1, 2, 3] else replicate 512 0)"

definition sample_file_volume :: "(nat \<Rightarrow> bytes) fat" where
  "sample_file_volume = sample_volume\<lparr>disk := sample_file_disk, g_free_clusters := 14\<rparr>"

lemma length_sample_entry: "length (de_name sample_entry) = 11"
  by (simp add: sample_entry_def file_entry_def length_name_to_fat)

lemma length_format_fat_sector: "length format_fat_sector = 512"
  by (simp add: format_fat_sector_def)

lemma length_sample_root: "length (set_entry (replicate 512 0) 0 sample_entry) = 512"
  unfolding set_entry_def using length_dir_entry_bytes[OF length_sample_entry] by simp

lemma sample_file_volume_ok: "fat_ok ram_ok UNIV sample_file_volume"
  using sample_volume_ok length_format_fat_sector length_sample_root
  by (simp add: fat_ok_def sample_file_volume_def ram_ok_def sample_file_disk_def volume_lbas_def)

lemma sample_file_fat: "fat_map (\<lambda>d. d) sample_file_volume 3 = Some FAT32_EOC"
  "fat_map (\<lambda>d. d) sample_file_volume 2 = Some 0x0FFFFFFF"
proof -
  let ?f = "buf_put format_fat_sector 12 (to_le 4 FAT32_EOC)"
  have "buf_get 4 ?f 12 = to_le 4 FAT32_EOC" by (rule buf_get_put_same) (simp_all add: length_format_fat_sector)
  then show "fat_map (\<lambda>d. d) sample_file_volume 3 = Some FAT32_EOC"
    by (simp add: fat_map_def sample_file_volume_def sample_valid fat_word_def fat_lba_def fat_off_def)
       (simp add: sample_volume_def sample_fs_def sample_file_disk_def)
  have "buf_get 4 ?f 8 = buf_get 4 format_fat_sector 8"
    by (rule buf_get_put_other) (simp_all add: length_format_fat_sector)
  also have "\<dots> = to_le 4 (0x0FFFFFFF :: u32)" by (simp add: format_fat_sector_def buf_get_def buf_put_def)
  finally show "fat_map (\<lambda>d. d) sample_file_volume 2 = Some 0x0FFFFFFF"
    by (simp add: fat_map_def sample_file_volume_def sample_valid fat_word_def fat_lba_def fat_off_def)
       (simp add: sample_volume_def sample_fs_def sample_file_disk_def)
qed

lemma sample_file_slots:
  "dir_slots (data_map (\<lambda>d. d) sample_file_volume) (entries_per_cluster sample_file_volume) [2] =
     (2, 0, sample_entry) # map (\<lambda>i. (2, i, entry_at (replicate 512 0) i)) [1..<16]"
proof -
  have d: "data_map (\<lambda>d. d) sample_file_volume 2 = Some (set_entry (replicate 512 0) 0 sample_entry)"
    by (simp add: data_map_def sample_file_volume_def sample_valid clu_lba_def)
       (simp add: sample_volume_def sample_fs_def sample_file_disk_def)
  have e: "entries_per_cluster sample_file_volume = 16"
    using sample_epc by (simp add: sample_file_volume_def entries_per_cluster_def)
  have "entry_at (set_entry (replicate 512 0) 0 sample_entry) 0 = sample_entry"
    by (rule entry_at_set_same[OF length_sample_entry]) simp
  moreover have "entry_at (set_entry (replicate 512 0) 0 sample_entry) j = entry_at (replicate 512 0) j" if "1 \<le> j" for j
    by (rule entry_at_set_other[OF length_sample_entry]) (use that in simp_all)
  ultimately show ?thesis
    by (simp add: e d dir_slots_def cluster_slots_def upt_conv_Cons)
qed

theorem delete_file_frees_chain_witness:
  "\<exists>t. fat32_delete_file ram_storage [0x61] sample_file_volume = Some (0, t) \<and>
     fat_map (\<lambda>d. d) t 3 = Some 0 \<and> g_free_clusters t = 15"
proof -
  let ?rest = "map (\<lambda>i. (2, i, entry_at (replicate 512 0) i)) [1..<16] :: dslot list"
  have root: "root_dir_cluster (g_fs sample_file_volume) = 2"
    by (simp add: sample_file_volume_def sample_volume_def sample_fs_def)
  have dir: "chain (fat_map (\<lambda>d. d) sample_file_volume) (root_dir_cluster (g_fs sample_file_volume)) [2]"
    by (simp add: root sample_file_fat in_chain_def)
  have un: "\<forall>x\<in>set ?rest. \<not> slot_used x"
    by (auto simp: slot_used_def entry_at_def dir_entry_of_def name0_def buf_get_def)
  have se: "slot_used (2, 0, sample_entry)" "slot_match (name_to_fat [0x61]) (2, 0, sample_entry)"
    by (simp_all add: sample_entry_def slot_used_def slot_match_def file_entry_def name0_def name_to_fat_first
        cchar_def fat_upper_def)
  have found: "dir_lookup (name_to_fat [0x61]) ([] @ (2, 0, sample_entry) # ?rest) = Some (2, 0, sample_entry)"
    by (rule dir_lookup_here[OF _ se]) simp
  have once: "dir_lookup (name_to_fat [0x61]) ([] @ ?rest) = None"
    using dir_lookup_end[OF un, of _ "[]"] by (simp add: dir_lookup_def)
  have own: "owned_chain (fat_map (\<lambda>d. d) sample_file_volume) [2] sample_entry [3]"
    unfolding owned_chain_def sample_entry_def first_cluster_file_entry
    by (simp add: in_chain_def sample_file_fat)
  have "free_inc 14 = 15" "g_free_clusters sample_file_volume = 14"
    by (simp_all add: free_inc_def sample_file_volume_def)
  then show ?thesis
    using delete_file_frees_chain[OF ram_block_device sample_file_volume_ok dir _ found once own] sample_file_slots
    by (auto simp: free_all_def)
qed

end
