(* ===== verification/Fat32_Format.thy ===== *)
theory Fat32_Format
  imports Fat32_Correct
begin

text \<open>
  Formatting and mounting: \<^verbatim>\<open>fat32_format\<close> writes the boot sector, the FSInfo sector, both tables and an
  empty root directory; \<^verbatim>\<open>fat32_init\<close> reads the geometry back.  The boot sector codec round-trips, and the
  two together produce an empty well-formed volume.
\<close>

unbundle bit_operations_syntax

text \<open>Total sizes for which the 32-bit arithmetic of \<^verbatim>\<open>fat32_format\<close> does not wrap, and those of them for
  which the table holds an entry for every cluster.\<close>

definition format_range :: "u64 \<Rightarrow> bool" where
  "format_range ts \<longleftrightarrow> 128 \<le> unat ts \<and> unat ts < 2147480000"

definition format_size_ok :: "u64 \<Rightarrow> bool" where
  "format_size_ok ts \<longleftrightarrow> 128 \<le> unat ts \<and> unat ts < 2147480000 \<and>
     (unat ts - (32 + 2 * unat (format_fat_size ts))) div 8 + 2 \<le> 128 * unat (format_fat_size ts)"

lemma format_size_range: "format_size_ok ts \<Longrightarrow> format_range ts"
  by (simp add: format_size_ok_def format_range_def)

lemma format_fat_size_nat:
  assumes "format_range ts"
  shows "unat (format_fat_size ts) = (unat ts + 993) div 1026"
    "32 + 2 * unat (format_fat_size ts) + 8 \<le> unat ts" "1 \<le> unat (format_fat_size ts)"
proof -
  have t: "128 \<le> unat ts" "unat ts < 2147480000" using assms by (auto simp: format_range_def)
  then have u: "unat (ucast ts :: u32) = unat ts" by (intro unat_ucast_64_32) simp
  have a: "unat (ucast ts - 32 :: u32) = unat ts - 32"
    by (subst unat_sub) (use t u in \<open>simp_all add: word_le_nat_alt\<close>)
  have b: "unat (ucast ts - 32 + 1026 :: u32) = unat ts - 32 + 1026"
    by (subst unat_add_nowrap) (use t a in simp_all)
  have c: "unat (ucast ts - 32 + 1026 - 1 :: u32) = unat ts - 32 + 1026 - 1"
    by (subst unat_sub) (use t b in \<open>simp_all add: word_le_nat_alt\<close>)
  show f: "unat (format_fat_size ts) = (unat ts + 993) div 1026"
    using c t by (simp add: format_fat_size_def Let_def unat_div)
  show "1 \<le> unat (format_fat_size ts)" unfolding f using t by linarith
  show "32 + 2 * unat (format_fat_size ts) + 8 \<le> unat ts" unfolding f using t by linarith
qed

definition boot_wf :: "fat32_boot_sector \<Rightarrow> bool" where
  "boot_wf b \<longleftrightarrow> length (bs_jmp b) = 3 \<and> length (bs_oem b) = 8 \<and> length (bs_reserved b) = 12 \<and>
     length (bs_volume_label b) = 11 \<and> length (bs_fs_type b) = 8"

lemma length_boot_bytes: "boot_wf b \<Longrightarrow> length (boot_bytes b) = 90"
  by (simp add: boot_bytes_def boot_wf_def)

lemma boot_roundtrip: "boot_wf b \<Longrightarrow> boot_of (boot_bytes b @ rest) = b"
  by (cases b)
     (simp add: boot_wf_def boot_of_def boot_bytes_def buf_get_skip buf_get_here buf_get_Cons nth_append)

lemma format_boot_wf: "boot_wf (format_boot ts lab)"
  by (simp add: boot_wf_def format_boot_def volume_label_bytes_def split: option.splits)

lemma format_boot_sector_split:
  "format_boot_sector ts lab = boot_bytes (format_boot ts lab) @ (replicate 422 0)[420 := 0x55, 421 := 0xAA]"
  using length_boot_bytes[OF format_boot_wf[of ts lab]]
  by (simp add: format_boot_sector_def buf_put_def list_update_append)

lemma format_boot_sector_parse:
  "length (format_boot_sector ts lab) = 512" "boot_of (format_boot_sector ts lab) = format_boot ts lab"
  "format_boot_sector ts lab ! 510 = 0x55" "format_boot_sector ts lab ! 511 = 0xAA"
  using length_boot_bytes[OF format_boot_wf[of ts lab]] boot_roundtrip[OF format_boot_wf[of ts lab]]
  by (simp_all add: format_boot_sector_split nth_append)

lemma put_le32_get:
  assumes "off + 4 \<le> length b"
  shows "ucast (put_le32_bytes b off v ! off) OR push_bit 8 (ucast (put_le32_bytes b off v ! Suc off)) OR
     push_bit 16 (ucast (put_le32_bytes b off v ! (off + 2))) OR push_bit 24 (ucast (put_le32_bytes b off v ! (off + 3))) = v"
proof -
  have m: "(0xFF :: u32) = mask 8" by (simp add: mask_eq_exp_minus_1)
  have "ucast (ucast (v AND 0xFF) :: u8) OR push_bit 8 (ucast (ucast (drop_bit 8 v AND 0xFF) :: u8)) OR
      push_bit 16 (ucast (ucast (drop_bit 16 v AND 0xFF) :: u8)) OR push_bit 24 (ucast (ucast (drop_bit 24 v AND 0xFF) :: u8)) = v"
    unfolding m
  proof (rule bit_word_eqI)
    fix n assume n: "n < LENGTH(32)"
    consider "n < 8" | "8 \<le> n" "n < 16" | "16 \<le> n" "n < 24" | "24 \<le> n" by linarith
    then show "bit (ucast (ucast (v AND mask 8) :: u8) OR push_bit 8 (ucast (ucast (drop_bit 8 v AND mask 8) :: u8)) OR
      push_bit 16 (ucast (ucast (drop_bit 16 v AND mask 8) :: u8)) OR push_bit 24 (ucast (ucast (drop_bit 24 v AND mask 8) :: u8)) :: u32) n = bit v n"
      using n by cases (auto simp: bit_simps)
  qed
  then show ?thesis using assms by (simp add: put_le32_bytes_def)
qed

lemma format_fsinfo_parse:
  "length (format_fsinfo_sector ts) = 512" "fsinfo_signature (format_fsinfo_sector ts)"
  "ucast (format_fsinfo_sector ts ! 488) OR push_bit 8 (ucast (format_fsinfo_sector ts ! 489)) OR
   push_bit 16 (ucast (format_fsinfo_sector ts ! 490)) OR push_bit 24 (ucast (format_fsinfo_sector ts ! 491)) =
   format_free_clusters ts"
proof -
  show "length (format_fsinfo_sector ts) = 512" by (simp add: format_fsinfo_sector_def)
  let ?b = "(replicate 512 0)[0 := 0x52, 1 := 0x52, 2 := 0x61, 3 := 0x41,
                 484 := 0x72, 485 := 0x72, 486 := 0x41, 487 := 0x61] :: bytes"
  have at: "format_fsinfo_sector ts ! k = put_le32_bytes ?b 488 (format_free_clusters ts) ! k" if "k < 492" for k
    using that by (simp add: format_fsinfo_sector_def Let_def)
  show "fsinfo_signature (format_fsinfo_sector ts)"
    by (simp add: fsinfo_signature_def at) (simp add: put_le32_bytes_def)
  show "ucast (format_fsinfo_sector ts ! 488) OR push_bit 8 (ucast (format_fsinfo_sector ts ! 489)) OR
   push_bit 16 (ucast (format_fsinfo_sector ts ! 490)) OR push_bit 24 (ucast (format_fsinfo_sector ts ! 491)) =
   format_free_clusters ts"
    using put_le32_get[of 488 ?b "format_free_clusters ts"] by (simp add: at)
qed

definition formatted :: "('s \<Rightarrow> nat \<Rightarrow> bytes) \<Rightarrow> u64 \<Rightarrow> bytes option \<Rightarrow> nat \<Rightarrow> 's \<Rightarrow> bool" where
  "formatted sect ts lab p d \<longleftrightarrow>
     sect d p = format_boot_sector ts lab \<and> sect d (p + 1) = format_fsinfo_sector ts \<and>
     sect d (p + 32) = format_fat_sector \<and>
     (\<forall>j. 1 \<le> j \<and> j < unat (format_fat_size ts) \<longrightarrow> sect d (p + 32 + j) = replicate 512 0) \<and>
     (\<forall>j. j < unat (format_fat_size ts) \<longrightarrow>
        sect d (p + 32 + unat (format_fat_size ts) + j) = replicate 512 0) \<and>
     (\<forall>j<8. sect d (p + 32 + 2 * unat (format_fat_size ts) + j) = replicate 512 0)"

definition empty_volume :: "('s \<Rightarrow> nat \<Rightarrow> bytes) \<Rightarrow> 's fat \<Rightarrow> bool" where
  "empty_volume sect t \<longleftrightarrow> fat_map sect t 2 = Some 0x0FFFFFFF \<and> data_map sect t 2 = Some (replicate 4096 0) \<and>
     (\<forall>c. valid_cluster (g_fs t) c \<and> c \<noteq> 2 \<longrightarrow> fat_map sect t c = Some 0)"

definition fresh_fs :: "u64 \<Rightarrow> fat32_fs" where
  "fresh_fs ts = \<lparr>fat_begin_lba = 32, cluster_begin_lba = 32 + 2 * format_fat_size ts, sectors_per_cluster = 8,
     root_dir_cluster = 2, fat_size = format_fat_size ts, num_fats = 2,
     total_clusters = (ucast ts - (32 + 2 * format_fat_size ts)) div 8, initialized = True\<rparr>"

lemma fresh_numbers:
  assumes "format_range ts"
  shows "unat (cluster_begin_lba (fresh_fs ts)) = 32 + 2 * unat (format_fat_size ts)"
    "unat (total_clusters (fresh_fs ts)) = (unat ts - (32 + 2 * unat (format_fat_size ts))) div 8"
proof -
  let ?f = "unat (format_fat_size ts)"
  note F = format_fat_size_nat[OF assms]
  have tb: "unat ts < 2147480000" using assms by (auto simp: format_range_def)
  have fb: "32 + 2 * ?f + 8 < 2 ^ 32" using F(2) tb by simp
  have w2: "unat (2 * format_fat_size ts) = 2 * ?f" by (subst unat_mult_nowrap) (use fb in simp_all)
  have w3: "unat (32 + 2 * format_fat_size ts) = 32 + 2 * ?f" by (subst unat_add_nowrap) (use fb w2 in simp_all)
  then show "unat (cluster_begin_lba (fresh_fs ts)) = 32 + 2 * ?f" by (simp add: fresh_fs_def)
  have u: "unat (ucast ts :: u32) = unat ts" by (rule unat_ucast_64_32) (use tb in simp)
  have "unat (ucast ts - (32 + 2 * format_fat_size ts) :: u32) = unat ts - (32 + 2 * ?f)"
    by (subst unat_sub) (use F(2) u w3 in \<open>simp_all add: word_le_nat_alt\<close>)
  then show "unat (total_clusters (fresh_fs ts)) = (unat ts - (32 + 2 * ?f)) div 8"
    by (simp add: fresh_fs_def unat_div)
qed

lemma fresh_geom:
  assumes "format_size_ok ts"
  shows "geom_ok (fresh_fs ts)"
proof -
  let ?f = "unat (format_fat_size ts)"
  note F = format_fat_size_nat[OF format_size_range[OF assms]] and N = fresh_numbers[OF format_size_range[OF assms]]
  have tb: "unat ts < 2147480000" "(unat ts - (32 + 2 * ?f)) div 8 + 2 \<le> 128 * ?f"
    using assms by (auto simp: format_size_ok_def)
  have "(unat ts - (32 + 2 * ?f)) div 8 * 8 \<le> unat ts - (32 + 2 * ?f)" by simp
  then have "32 + 2 * ?f + (unat ts - (32 + 2 * ?f)) div 8 * 8 \<le> unat ts" using F(2) by linarith
  moreover have "(unat ts - (32 + 2 * ?f)) div 8 + 2 < 0x0FFFFFF7" using tb by linarith
  ultimately show "geom_ok (fresh_fs ts)"
    unfolding geom_ok_def N using tb F by (simp add: fresh_fs_def)
qed

lemma of_le_zeros: "of_le (replicate n 0) = 0"
  by (induction n) auto

lemma fresh_fat_entry:
  assumes "4 * unat (c :: u32) div 512 = 0" "2 \<le> unat c"
  shows "(of_le (buf_get 4 format_fat_sector (fat_off c)) :: u32) = (if c = 2 then 0x0FFFFFFF else 0)"
proof (cases "c = 2")
  case True
  then have "fat_off c = 8" by (simp add: fat_off_def)
  moreover have "buf_get 4 format_fat_sector 8 = to_le 4 (0x0FFFFFFF :: u32)"
    by (simp add: format_fat_sector_def buf_get_def buf_put_def)
  ultimately show ?thesis using True by simp
next
  case False
  then have "unat c \<noteq> 2" by (simp add: word_unat_eq_iff)
  moreover have off: "fat_off c = 4 * unat c" using assms(1) by (simp add: fat_off_def div_eq_0_iff)
  ultimately have "12 \<le> fat_off c" "fat_off c + 4 \<le> 512" using assms(2) fat_off_le[of c] by auto
  then have "buf_get 4 format_fat_sector (fat_off c) = replicate 4 0"
    unfolding format_fat_sector_def by (subst buf_get_put_other) (auto simp: buf_get_def)
  then show ?thesis using False of_le_zeros by (simp only: if_False)
qed

context block_device
begin

lemma write_sectors_run:
  assumes "dev_ok d" "length buf = 512" "\<forall>l\<in>set ls. unat l \<in> lbas"
  shows "\<exists>d'. write_sectors ops ls buf d = (0, d') \<and> dev_ok d' \<and>
     sect d' = (\<lambda>l. if l \<in> unat ` set ls then buf else sect d l)"
  using assms
proof (induction ls arbitrary: d)
  case Nil
  then show ?case by simp
next
  case (Cons l ls)
  have "unat l \<in> lbas" using Cons.prems(3) by simp
  then obtain d1 where d1: "block_write_sector ops l buf d = (0, d1)" "dev_ok d1" "sect d1 = (sect d)(unat l := buf)"
    by (rule write_sector[OF Cons.prems(1,2)])
  obtain d2 where "write_sectors ops ls buf d1 = (0, d2)" "dev_ok d2"
    "sect d2 = (\<lambda>l. if l \<in> unat ` set ls then buf else sect d1 l)"
    using Cons.IH[OF d1(2) Cons.prems(2)] Cons.prems(3) by auto
  with d1 show ?case by (auto simp: fun_eq_iff)
qed

lemma off_addr:
  assumes "unat off + 2 ^ 32 \<le> 2 ^ 64" "unat (w :: u32) + j < 2 ^ 32"
  shows "unat (off + ucast w + of_nat j :: u64) = unat off + unat w + j" "unat (off + ucast w :: u64) = unat off + unat w"
proof -
  have "unat off + unat (ucast w :: u64) < 2 ^ LENGTH(64)" using assms by simp
  from unat_add_nowrap[OF this] show 1: "unat (off + ucast w :: u64) = unat off + unat w" by simp
  have j: "unat (of_nat j :: u64) = j" using assms(2) by (simp add: unat_of_nat)
  have "unat (off + ucast w :: u64) + unat (of_nat j :: u64) < 2 ^ LENGTH(64)" using assms 1 j by simp
  from unat_add_nowrap[OF this] 1 j show "unat (off + ucast w + of_nat j :: u64) = unat off + unat w + j" by simp
qed

lemma write_run:
  assumes "dev_ok d" "length buf = 512" "unat off + 2 ^ 32 \<le> 2 ^ 64" "unat (w :: u32) + n \<le> 2 ^ 32"
    "\<forall>j. m \<le> j \<and> j < n \<longrightarrow> unat off + unat w + j \<in> lbas"
  shows "\<exists>d'. write_sectors ops (map (\<lambda>j. off + ucast w + of_nat j) [m..<n]) buf d = (0, d') \<and> dev_ok d' \<and>
     sect d' = (\<lambda>l. if unat off + unat w + m \<le> l \<and> l < unat off + unat w + n then buf else sect d l)"
proof -
  have u: "unat (off + ucast w + of_nat j :: u64) = unat off + unat w + j" if "j < n" for j
    using off_addr(1)[OF assms(3), of w j] assms(4) that by simp
  have "\<forall>l\<in>set (map (\<lambda>j. off + ucast w + of_nat j) [m..<n]). unat l \<in> lbas" using u assms(5) by auto
  from write_sectors_run[OF assms(1,2) this] obtain d' where
    d': "write_sectors ops (map (\<lambda>j. off + ucast w + of_nat j) [m..<n]) buf d = (0, d')" "dev_ok d'"
    "sect d' = (\<lambda>l. if l \<in> unat ` set (map (\<lambda>j. off + ucast w + of_nat j) [m..<n]) then buf else sect d l)" by blast
  have "unat ` set (map (\<lambda>j. off + ucast w + of_nat j) [m..<n]) = (\<lambda>j. unat off + unat w + j) ` {m..<n}"
    unfolding set_map image_image set_upt by (rule image_cong) (use u in auto)
  also have "\<dots> = {l. unat off + unat w + m \<le> l \<and> l < unat off + unat w + n}"
    using image_add_atLeastLessThan[of "unat off + unat w" m n] by auto
  finally have "unat ` set (map (\<lambda>j. off + ucast w + of_nat j) [m..<n]) =
    {l. unat off + unat w + m \<le> l \<and> l < unat off + unat w + n}" .
  with d' show ?thesis by (intro exI[of _ d']) simp
qed

lemma write_at:
  assumes "dev_ok d" "length buf = 512" "unat lba = p" "p \<in> lbas"
  obtains d' where "block_write_sector ops lba buf d = (0, d')" "dev_ok d'" "sect d' = (sect d)(p := buf)"
  using write_sector[OF assms(1,2), of lba] assms(3,4) by metis

lemma format_fat_step:
  assumes "dev_ok d" "length buf = 512" "unat off + 2 ^ 32 \<le> 2 ^ 64" "w = 32 + of_nat i * fsz" "unat w = a"
    "a + unat fsz \<le> 2 ^ 32" "1 \<le> unat fsz" "\<forall>j<unat fsz. unat off + a + j \<in> lbas"
  shows "\<exists>d'. format_fats ops off fsz (i # is) buf d = format_fats ops off fsz is (replicate 512 0) d' \<and> dev_ok d' \<and>
     sect d' = (\<lambda>l. if l = unat off + a then buf
       else if unat off + a < l \<and> l < unat off + a + unat fsz then replicate 512 0 else sect d l)"
proof -
  have a: "unat (off + ucast w) = unat off + a"
    using off_addr(2)[OF assms(3), of w 0] assms(5-7) by simp
  have mem: "unat off + a \<in> lbas" using assms(7,8) by (metis Suc_le_lessD add.right_neutral One_nat_def)
  obtain d1 where d1: "block_write_sector ops (off + ucast w) buf d = (0, d1)" "dev_ok d1"
    "sect d1 = (sect d)(unat off + a := buf)" by (rule write_at[OF assms(1,2) a mem])
  have "\<exists>d'. write_sectors ops (map (\<lambda>j. off + ucast w + of_nat j) [1..<unat fsz]) (replicate 512 0) d1 = (0, d') \<and> dev_ok d' \<and>
     sect d' = (\<lambda>l. if unat off + unat w + 1 \<le> l \<and> l < unat off + unat w + unat fsz then replicate 512 0 else sect d1 l)"
    by (rule write_run[OF d1(2) _ assms(3)]) (use assms(5,6,8) in simp_all)
  then obtain d2 where d2: "write_sectors ops (map (\<lambda>j. off + ucast w + of_nat j) [1..<unat fsz]) (replicate 512 0) d1 = (0, d2)" "dev_ok d2"
     "sect d2 = (\<lambda>l. if unat off + a + 1 \<le> l \<and> l < unat off + a + unat fsz then replicate 512 0 else sect d1 l)"
    unfolding assms(5) by blast
  show ?thesis
    using d1 d2 assms(4) by (intro exI[of _ d2]) (auto simp: Let_def fun_eq_iff)
qed

lemma format_fats_run:
  assumes "dev_ok d" "unat off + 2 ^ 32 \<le> 2 ^ 64" "32 + 2 * unat fsz < 2 ^ 32" "1 \<le> unat fsz"
    "\<And>k. k < 32 + 2 * unat fsz \<Longrightarrow> unat off + k \<in> lbas"
  shows "\<exists>d'. format_fats ops off fsz [0..<2] format_fat_sector d = (0, replicate 512 0, d') \<and> dev_ok d' \<and>
     sect d' = (\<lambda>l. if l = unat off + 32 then format_fat_sector
       else if unat off + 32 < l \<and> l < unat off + 32 + 2 * unat fsz then replicate 512 0 else sect d l)"
proof -
  let ?p = "unat off" and ?f = "unat fsz" and ?z = "replicate 512 (0 :: u8)"
  have w1: "unat (32 + fsz) = 32 + ?f" by (subst unat_add_nowrap) (use assms(3) in simp_all)
  have "\<exists>d'. format_fats ops off fsz (0 # [1]) format_fat_sector d = format_fats ops off fsz [1] ?z d' \<and> dev_ok d' \<and>
     sect d' = (\<lambda>l. if l = ?p + 32 then format_fat_sector else if ?p + 32 < l \<and> l < ?p + 32 + ?f then ?z else sect d l)"
    by (rule format_fat_step[OF assms(1) length_format_fat_sector assms(2), where w = 32])
       (use assms(3,4,5) in \<open>simp_all add: add.assoc\<close>)
  then obtain d5 where d5: "format_fats ops off fsz [0, 1] format_fat_sector d = format_fats ops off fsz [1] ?z d5" "dev_ok d5"
     "sect d5 = (\<lambda>l. if l = ?p + 32 then format_fat_sector else if ?p + 32 < l \<and> l < ?p + 32 + ?f then ?z else sect d l)"
    by blast
  have "\<exists>d6. format_fats ops off fsz (1 # []) ?z d5 = format_fats ops off fsz [] ?z d6 \<and> dev_ok d6 \<and>
     sect d6 = (\<lambda>l. if l = ?p + (32 + ?f) then ?z
       else if ?p + (32 + ?f) < l \<and> l < ?p + (32 + ?f) + ?f then ?z else sect d5 l)"
    by (rule format_fat_step[OF d5(2) _ assms(2), where w = "32 + fsz"])
       (use assms(3,4,5) in \<open>simp_all add: w1 add.assoc\<close>)
  then obtain d6 where d6: "format_fats ops off fsz [1] ?z d5 = (0, ?z, d6)" "dev_ok d6"
     "sect d6 = (\<lambda>l. if l = ?p + (32 + ?f) then ?z
       else if ?p + (32 + ?f) < l \<and> l < ?p + (32 + ?f) + ?f then ?z else sect d5 l)"
    unfolding format_fats.simps(1) by blast
  have "sect d6 = (\<lambda>l. if l = ?p + 32 then format_fat_sector
       else if ?p + 32 < l \<and> l < ?p + 32 + 2 * ?f then ?z else sect d l)"
    using assms(4) unfolding d6(3) d5(3) by (auto simp: fun_eq_iff)
  moreover have "[0..<2] = [0, 1 :: nat]" by (simp add: upt_conv_Cons)
  ultimately show ?thesis using d5(1) d6(1,2) by metis
qed

lemma format_run:
  assumes "dev_ok (disk s)" "unat (g_partition_offset s) + 2 ^ 32 \<le> 2 ^ 64" "format_range ts"
    "{unat (g_partition_offset s) ..< unat (g_partition_offset s) + unat ts} \<subseteq> lbas"
  shows "\<exists>t. fat32_format ops ts lab s = (0, t) \<and> dev_ok (disk t) \<and> g_partition_offset t = g_partition_offset s \<and>
     length (sector_buffer t) = 512 \<and> formatted sect ts lab (unat (g_partition_offset s)) (disk t) \<and>
     (\<forall>l. l \<notin> {unat (g_partition_offset s) ..< unat (g_partition_offset s) + unat ts} \<longrightarrow> sect (disk t) l = sect (disk s) l)"
proof -
  let ?off = "g_partition_offset s" and ?fsz = "format_fat_size ts" and ?z = "replicate 512 (0 :: u8)"
  let ?p = "unat ?off" and ?f = "unat ?fsz"
  note F = format_fat_size_nat[OF assms(3)]
  have tb: "unat ts < 2147480000" using assms(3) by (simp add: format_range_def)
  have fb: "32 + 2 * ?f + 8 < 2 ^ 32" using F(2) tb by simp
  have mem: "?p + k \<in> lbas" if "k < 32 + 2 * ?f + 8" for k using assms(4) F(2) that by auto
  have small: "unat (?off + of_nat k) = ?p + k" if "k < 32" for k
    using off_addr(1)[OF assms(2), of 0 k] that by simp
  note lens = format_boot_sector_parse(1) format_fsinfo_parse(1) length_format_fat_sector
  obtain d1 where d1: "block_write_sector ops (?off + 0) (format_boot_sector ts lab) (disk s) = (0, d1)" "dev_ok d1"
    "sect d1 = (sect (disk s))(?p + 0 := format_boot_sector ts lab)"
    by (rule write_at[OF assms(1) lens(1) _ mem[of 0]]) simp_all
  obtain d2 where d2: "block_write_sector ops (?off + 6) (format_boot_sector ts lab) d1 = (0, d2)" "dev_ok d2"
    "sect d2 = (sect d1)(?p + 6 := format_boot_sector ts lab)"
    by (rule write_at[OF d1(2) lens(1) _ mem[of 6]]) (use small[of 6] in simp_all)
  obtain d3 where d3: "block_write_sector ops (?off + 1) (format_fsinfo_sector ts) d2 = (0, d3)" "dev_ok d3"
    "sect d3 = (sect d2)(?p + 1 := format_fsinfo_sector ts)"
    by (rule write_at[OF d2(2) lens(2) _ mem[of 1]]) (use small[of 1] in simp_all)
  obtain d4 where d4: "block_write_sector ops (?off + 7) (format_fsinfo_sector ts) d3 = (0, d4)" "dev_ok d4"
    "sect d4 = (sect d3)(?p + 7 := format_fsinfo_sector ts)"
    by (rule write_at[OF d3(2) lens(2) _ mem[of 7]]) (use small[of 7] in simp_all)
  obtain d5 where d5: "format_fats ops ?off ?fsz [0..<2] format_fat_sector d4 = (0, ?z, d5)" "dev_ok d5"
     "sect d5 = (\<lambda>l. if l = ?p + 32 then format_fat_sector
       else if ?p + 32 < l \<and> l < ?p + 32 + 2 * ?f then ?z else sect d4 l)"
    using format_fats_run[OF d4(2) assms(2) _ F(3)] fb mem by fastforce
  have w2: "unat (2 * ?fsz) = 2 * ?f" by (subst unat_mult_nowrap) (use fb in simp_all)
  have w3: "unat (32 + 2 * ?fsz) = 32 + 2 * ?f" by (subst unat_add_nowrap) (use fb w2 in simp_all)
  have "\<exists>d7. write_sectors ops (map (\<lambda>j. ?off + ucast (32 + 2 * ?fsz) + of_nat j) [0..<8]) ?z d5 = (0, d7) \<and> dev_ok d7 \<and>
     sect d7 = (\<lambda>l. if ?p + unat (32 + 2 * ?fsz) + 0 \<le> l \<and> l < ?p + unat (32 + 2 * ?fsz) + 8 then ?z else sect d5 l)"
    by (rule write_run[OF d5(2) _ assms(2)]) (use fb mem in \<open>auto simp: w3 add.assoc\<close>)
  then obtain d7 where d7: "write_sectors ops (map (\<lambda>j. ?off + ucast (32 + 2 * ?fsz) + of_nat j) [0..<8]) ?z d5 = (0, d7)" "dev_ok d7"
     "sect d7 = (\<lambda>l. if ?p + 32 + 2 * ?f \<le> l \<and> l < ?p + 32 + 2 * ?f + 8 then ?z else sect d5 l)"
    unfolding w3 by (auto simp: add.assoc)
  let ?t0 = "s\<lparr>disk := d7, sector_buffer := ?z, g_free_clusters := format_free_clusters ts\<rparr>"
  have run: "fat32_format ops ts lab s = (0, flush_cache_5 ops ?t0)"
    using present[OF assms(1)] d1(1) d2(1) d3(1) d4(1) d5(1) d7(1)
    by (simp add: fat32_format_def Let_def)
  have fl: "dev_ok (disk (flush_cache_5 ops ?t0))" "sect (disk (flush_cache_5 ops ?t0)) = sect d7"
    "g_partition_offset (flush_cache_5 ops ?t0) = ?off" "sector_buffer (flush_cache_5 ops ?t0) = ?z"
    using flush_times_law[OF d7(2), of 5] d7(2) by (simp_all add: flush_cache_5_def)
  have chg: "sect d7 l = (if ?p + 32 + 2 * ?f \<le> l \<and> l < ?p + 32 + 2 * ?f + 8 then ?z
       else if l = ?p + 32 then format_fat_sector
       else if ?p + 32 < l \<and> l < ?p + 32 + 2 * ?f then ?z
       else if l = ?p + 7 \<or> l = ?p + 1 then format_fsinfo_sector ts
       else if l = ?p + 6 \<or> l = ?p then format_boot_sector ts lab else sect (disk s) l)" for l
    unfolding d7(3) d5(3) d4(3) d3(3) d2(3) d1(3) by auto
  have "formatted sect ts lab ?p d7"
    unfolding formatted_def using F(3) by (auto simp: chg)
  then have "formatted sect ts lab ?p (disk (flush_cache_5 ops ?t0))"
    unfolding formatted_def fl(2) .
  moreover have "sect d7 l = sect (disk s) l" if "l \<notin> {?p ..< ?p + unat ts}" for l
    using that F(2) unfolding chg by (auto split: if_splits)
  ultimately show ?thesis using run fl by (intro exI[of _ "flush_cache_5 ops ?t0"]) simp
qed

lemma formatted_empty:
  assumes "format_size_ok ts" "formatted sect ts lab (unat (g_partition_offset t)) (disk t)" "g_fs t = fresh_fs ts"
  shows "empty_volume sect t"
proof -
  let ?f = "unat (format_fat_size ts)" and ?p = "unat (g_partition_offset t)"
  note F = format_fat_size_nat[OF format_size_range[OF assms(1)]] and G = fresh_numbers[OF format_size_range[OF assms(1)]]
  have tc: "(unat ts - (32 + 2 * ?f)) div 8 + 2 \<le> 128 * ?f" using assms(1) by (simp add: format_size_ok_def)
  have v: "valid_cluster (g_fs t) c \<longleftrightarrow> 2 \<le> unat c \<and> unat c < (unat ts - (32 + 2 * ?f)) div 8 + 2" for c
    unfolding valid_cluster_def assms(3) G(2) ..
  have v2: "valid_cluster (g_fs t) 2" using v F(2) by simp
  have fl: "fat_lba t c = ?p + 32 + 4 * unat c div 512" for c by (simp add: fat_lba_def assms(3) fresh_fs_def)
  have e: "fat_word sect t c = (if c = 2 then 0x0FFFFFFF else 0)" if "valid_cluster (g_fs t) c" for c
  proof (cases "4 * unat c div 512 = 0")
    case True
    then have "fat_word sect t c = of_le (buf_get 4 format_fat_sector (fat_off c))"
      using assms(2) by (simp add: fat_word_def fl formatted_def)
    then show ?thesis using fresh_fat_entry[OF True] that v by simp
  next
    case False
    have "4 * unat c div 512 < ?f" using that v[of c] tc by linarith
    then have "sect (disk t) (fat_lba t c) = replicate 512 0" using assms(2) False by (simp add: fl formatted_def)
    then have "fat_word sect t c = of_le (replicate 4 0)"
      using fat_off_le[of c] by (simp add: fat_word_def buf_get_def)
    moreover have "c \<noteq> 2" using False by auto
    ultimately show ?thesis using of_le_zeros by (simp only: if_False)
  qed
  have d: "DM t 2 = Some (concat (map (\<lambda>i. replicate 512 0) [0..<8]))"
  proof -
    have s8: "unat (sectors_per_cluster (g_fs t)) = 8" by (simp add: assms(3) fresh_fs_def)
    have "sect (disk t) (clu_lba t 2 i) = replicate 512 0" if "i < 8" for i
    proof -
      have "clu_lba t 2 i = ?p + 32 + 2 * ?f + i" using G(1) by (simp add: clu_lba_def assms(3))
      then show ?thesis using assms(2) that by (simp add: formatted_def)
    qed
    then show ?thesis unfolding data_map_def s8 using v2 by (simp add: upt_conv_Cons)
  qed
  show ?thesis unfolding empty_volume_def
    using d v2 e by (auto simp: fat_map_def upt_conv_Cons replicate_add[symmetric])
qed

lemma init_reads:
  assumes "dev_ok (disk t)" "unat (g_partition_offset t) + 2 ^ 32 \<le> 2 ^ 64" "format_range ts" "length (sector_buffer t) = 512"
    "{unat (g_partition_offset t) ..< unat (g_partition_offset t) + unat ts} \<subseteq> lbas"
    "formatted sect ts lab (unat (g_partition_offset t)) (disk t)"
  obtains d where "fat32_init ops t = Some (0, t\<lparr>disk := d, sector_buffer := format_fsinfo_sector ts, g_fs := fresh_fs ts,
      g_free_clusters := format_free_clusters ts\<rparr>)" "dev_ok d" "sect d = sect (disk t)"
proof -
  let ?off = "g_partition_offset t" let ?p = "unat ?off"
  note F = format_fat_size_nat[OF assms(3)]
  have mem: "?p + k \<in> lbas" if "k < 2" for k using assms(5) F(2) that by auto
  have a: "unat (?off + 0) \<in> lbas" "unat (?off + 1) = ?p + 1"
    using mem[of 0] off_addr(1)[OF assms(2), of 0 1] by simp_all
  obtain d where d: "block_read_sector ops (?off + 0) (sector_buffer t) (disk t) = (0, sect (disk t) (unat (?off + 0)), d)"
    "dev_ok d" "sect d = sect (disk t)" by (rule read_sector[OF assms(1,4) a(1)])
  have s0: "sect (disk t) (unat (?off + 0)) = format_boot_sector ts lab" "sect (disk t) (?p + 1) = format_fsinfo_sector ts"
    using assms(6) by (simp_all add: formatted_def)
  have a1: "unat (?off + 1) \<in> lbas" using a(2) mem[of 1] by simp
  obtain d2 where d2: "block_read_sector ops (?off + 1) (format_boot_sector ts lab) d = (0, sect d (unat (?off + 1)), d2)"
    "dev_ok d2" "sect d2 = sect d" by (rule read_sector[OF d(2) format_boot_sector_parse(1) a1])
  have init: "fat32_init ops t = Some (0, t\<lparr>disk := d2, sector_buffer := format_fsinfo_sector ts, g_fs := fresh_fs ts,
      g_free_clusters := format_free_clusters ts\<rparr>)"
    using present[OF assms(1)] d(1) d2(1) unfolding s0 a(2) d(3) 
    by (simp add: fat32_init_def Let_def format_boot_sector_parse format_fsinfo_parse)
       (simp add: format_boot_def fresh_fs_def)
  show thesis by (rule that[OF init d2(2)]) (simp add: d2(3) d(3))
qed

lemma init_run:
  assumes "dev_ok (disk t)" "unat (g_partition_offset t) + 2 ^ 32 \<le> 2 ^ 64" "format_size_ok ts" "length (sector_buffer t) = 512"
    "{unat (g_partition_offset t) ..< unat (g_partition_offset t) + unat ts} \<subseteq> lbas"
    "formatted sect ts lab (unat (g_partition_offset t)) (disk t)"
  shows "\<exists>u. fat32_init ops t = Some (0, u) \<and> ok u \<and> g_fs u = fresh_fs ts \<and> empty_volume sect u \<and>
     g_partition_offset u = g_partition_offset t \<and> sect (disk u) = sect (disk t) \<and>
     g_free_clusters u = format_free_clusters ts"
proof -
  note R = format_size_range[OF assms(3)]
  note F = format_fat_size_nat[OF R] and G = fresh_numbers[OF R]
  obtain d where d: "fat32_init ops t = Some (0, t\<lparr>disk := d, sector_buffer := format_fsinfo_sector ts, g_fs := fresh_fs ts,
      g_free_clusters := format_free_clusters ts\<rparr>)" "dev_ok d" "sect d = sect (disk t)"
    by (rule init_reads[OF assms(1,2) R assms(4-6)])
  let ?u = "t\<lparr>disk := d, sector_buffer := format_fsinfo_sector ts, g_fs := fresh_fs ts, g_free_clusters := format_free_clusters ts\<rparr>"
  have "ok ?u"
  proof -
    have "32 + 2 * unat (format_fat_size ts) + (unat ts - (32 + 2 * unat (format_fat_size ts))) div 8 * 8 \<le> unat ts"
      using F(2) by simp
    then have "volume_lbas ?u \<subseteq> lbas"
      using assms(5) G(1,2) unfolding volume_lbas_def by (auto simp: fresh_fs_def)
    then show ?thesis
      unfolding fat_ok_def using d(2) fresh_geom[OF assms(3)] assms(2) format_fsinfo_parse(1) by (simp add: fresh_fs_def)
  qed
  moreover have "empty_volume sect ?u"
    by (rule formatted_empty[OF assms(3)]) (use assms(6) d(3) in \<open>simp_all add: formatted_def\<close>)
  ultimately show ?thesis using d(1,3) by (intro exI[of _ ?u]) simp
qed

end

text \<open>
  C24 (roundtrip).  Formatting a partition and mounting it yields an empty well-formed volume with exactly
  the geometry that was written: 32 reserved sectors, two tables, eight sectors per cluster, root at
  cluster 2 (its only cluster, all zero), every other cluster free, the free count from the FSInfo sector;
  formatting writes no sector outside the partition.  This holds for every size for which the table
  written by \<^verbatim>\<open>fat32_format\<close> has an entry for every cluster.
\<close>

theorem format_init_roundtrip:
  assumes bd: "block_device ops sect dev_ok lbas" and dev: "dev_ok (disk s)"
    and off: "unat (g_partition_offset s) + 2 ^ 32 \<le> 2 ^ 64" and sz: "format_size_ok ts"
    and lb: "{unat (g_partition_offset s) ..< unat (g_partition_offset s) + unat ts} \<subseteq> lbas"
  shows "\<exists>t u. fat32_format ops ts lab s = (0, t) \<and> fat32_init ops t = Some (0, u) \<and>
     fat_ok dev_ok lbas u \<and> g_fs u = fresh_fs ts \<and> empty_volume sect u \<and>
     g_free_clusters u = format_free_clusters ts \<and>
     (\<forall>l. l \<notin> {unat (g_partition_offset s) ..< unat (g_partition_offset s) + unat ts} \<longrightarrow>
        sect (disk u) l = sect (disk s) l)"
proof -
  obtain t where t: "fat32_format ops ts lab s = (0, t)" "dev_ok (disk t)" "g_partition_offset t = g_partition_offset s"
     "length (sector_buffer t) = 512" "formatted sect ts lab (unat (g_partition_offset s)) (disk t)"
     "\<forall>l. l \<notin> {unat (g_partition_offset s) ..< unat (g_partition_offset s) + unat ts} \<longrightarrow> sect (disk t) l = sect (disk s) l"
    using block_device.format_run[OF bd dev off format_size_range[OF sz] lb] by blast
  obtain u where "fat32_init ops t = Some (0, u)" "fat_ok dev_ok lbas u" "g_fs u = fresh_fs ts" "empty_volume sect u"
    "sect (disk u) = sect (disk t)" "g_free_clusters u = format_free_clusters ts"
    using block_device.init_run[OF bd t(2) _ sz t(4), of lab] t(3,5) off lb by auto
  with t(1,6) show ?thesis by auto
qed

lemma format_size_256: "format_size_ok 256"
  by (simp add: format_size_ok_def format_fat_size_def)

theorem format_init_roundtrip_witness:
  "\<exists>t u. fat32_format ram_storage 256 None sample_volume = (0, t) \<and> fat32_init ram_storage t = Some (0, u) \<and>
     root_dir_cluster (g_fs u) = 2 \<and> empty_volume (\<lambda>d. d) u"
proof -
  have "ram_ok (disk sample_volume)" "unat (g_partition_offset sample_volume) + 2 ^ 32 \<le> 2 ^ 64"
    using sample_volume_ok by (simp_all add: fat_ok_def)
  from format_init_roundtrip[OF ram_block_device this format_size_256, of None] show ?thesis
    by (auto simp: fresh_fs_def)
qed

subsection \<open>Sizes for which the table is too short\<close>

lemma short_numbers:
  assumes "unat ts + r = 32 + 1026 * k" "r \<le> 8" "format_range ts"
  shows "unat (format_fat_size ts) = k" "unat (total_clusters (fresh_fs ts)) = 128 * k - (if r = 0 then 0 else 1)" "1 \<le> k" "k < 2100000"
proof -
  have t: "128 \<le> unat ts" "unat ts < 2147480000" using assms(3) by (auto simp: format_range_def)
  show f: "unat (format_fat_size ts) = k" unfolding format_fat_size_nat(1)[OF assms(3)] using assms(1,2) by linarith
  show "1 \<le> k" "k < 2100000" using assms(1,2) t by linarith+
  show "unat (total_clusters (fresh_fs ts)) = 128 * k - (if r = 0 then 0 else 1)"
    unfolding fresh_numbers(2)[OF assms(3)] f using assms(1,2) \<open>1 \<le> k\<close> by auto
qed

context block_device
begin

lemma set_next_past_table:
  assumes dev: "dev_ok (disk u)" and off: "unat (g_partition_offset u) + 2 ^ 32 \<le> 2 ^ 64" and fs: "g_fs u = fresh_fs ts"
    and k: "unat (format_fat_size ts) = k" "k < 2100000" and c: "4 * unat c div 512 = k" and b: "length (sector_buffer u) = 512"
    and lb: "unat (g_partition_offset u) + 32 + k \<in> lbas" "unat (g_partition_offset u) + 32 + 2 * k \<in> lbas"
    and z: "sect (disk u) (unat (g_partition_offset u) + 32 + k) = replicate 512 0"
  obtains v where "fat32_set_next_cluster ops c n u = (0, v)"
    "sect (disk v) (unat (g_partition_offset u) + 32 + 2 * k) = buf_put (replicate 512 0) (fat_off c) (to_le 4 (n AND 0x0FFFFFFF))"
proof -
  let ?off = "g_partition_offset u" let ?p = "unat ?off"
  let ?sec = "buf_put (replicate 512 0) (fat_off c) (to_le 4 (n AND 0x0FFFFFFF))"
  have "4 * unat c < 512 * k + 512" using c by linarith
  then have "4 * unat c < 2 ^ 32" using k(2) by simp
  then have m: "unat (c * 4) = 4 * unat c" by (subst unat_mult_nowrap) (simp_all add: mult.commute)
  have d: "unat (c * 4 div 512) = k" "unat (c * 4 mod 512) = fat_off c"
    using c m by (simp_all add: unat_div unat_mod fat_off_def)
  have s1: "unat (32 + c * 4 div 512) = 32 + k" by (subst unat_add_nowrap) (use d(1) k(2) in simp_all)
  have s2: "unat (32 + c * 4 div 512 + format_fat_size ts) = 32 + 2 * k"
    by (subst unat_add_nowrap) (use s1 k in simp_all)
  have a: "unat (?off + ucast (32 + c * 4 div 512)) = ?p + 32 + k"
    "unat (?off + ucast (32 + c * 4 div 512 + format_fat_size ts)) = ?p + 32 + 2 * k"
    using off_addr(2)[OF off, of "32 + c * 4 div 512" 0] off_addr(2)[OF off, of "32 + c * 4 div 512 + format_fat_size ts" 0] s1 s2 k(2) by simp_all
  obtain d1 where d1: "block_read_sector ops (?off + ucast (32 + c * 4 div 512)) (sector_buffer u) (disk u) = (0, replicate 512 0, d1)"
    "dev_ok d1" "sect d1 = sect (disk u)"
    using read_sector[OF dev b, of "?off + ucast (32 + c * 4 div 512)"] lb(1) z unfolding a by metis
  have l: "length ?sec = 512" using fat_off_le[of c] by simp
  obtain d2 where d2: "block_write_sector ops (?off + ucast (32 + c * 4 div 512)) ?sec d1 = (0, d2)" "dev_ok d2"
    by (rule write_at[OF d1(2) l a(1) lb(1)])
  obtain d3 where d3: "block_write_sector ops (?off + ucast (32 + c * 4 div 512 + format_fat_size ts)) ?sec d2 = (0, d3)"
    "sect d3 = (sect d2)(?p + 32 + 2 * k := ?sec)"
    by (rule write_at[OF d2(2) l a(2) lb(2)])
  have "buf_get 4 (replicate 512 0) (fat_off c) = replicate 4 (0 :: u8)" using fat_off_le[of c] by (simp add: buf_get_def)
  then have o: "of_le (buf_get 4 (replicate 512 0) (fat_off c)) = (0 :: u32)" by (simp only: of_le_zeros)
  have run: "fat32_set_next_cluster ops c n u = (0, u\<lparr>disk := d3, sector_buffer := ?sec\<rparr>)"
    unfolding fat32_set_next_cluster_def Let_def fs using d1(1) d2(1) d3(1) d(2)
    by (simp add: fresh_fs_def o)
  have "sect (disk (u\<lparr>disk := d3, sector_buffer := ?sec\<rparr>)) (?p + 32 + 2 * k) = ?sec" using d3(2) by simp
  then show thesis by (rule that[OF run])
qed

end

text \<open>
  C28 (bounds).  For 9 sizes of every 1026 (32 + 1026 k sectors and up to 8 less) \<^verbatim>\<open>fat32_format\<close> lays out
  a table of k sectors, one sector less than its clusters need: the size formula ignores the two
  reserved entries.  Format and mount succeed, but the entry of the last cluster lies one sector behind
  the table, in the second copy, and its mirror in the first sector of the root directory:
  \<^verbatim>\<open>fat32_set_next_cluster\<close> on that cluster returns 0 and overwrites the root directory, all zero until then.
\<close>

theorem format_fat_size_short:
  assumes bd: "block_device ops sect dev_ok lbas" and dev: "dev_ok (disk s)"
    and off: "unat (g_partition_offset s) + 2 ^ 32 \<le> 2 ^ 64" and sz: "format_range ts"
    and lb: "{unat (g_partition_offset s) ..< unat (g_partition_offset s) + unat ts} \<subseteq> lbas"
    and ts: "unat ts + r = 32 + 1026 * k" "r \<le> 8"
  shows "\<exists>t u v. fat32_format ops ts lab s = (0, t) \<and> fat32_init ops t = Some (0, u) \<and> unat (fat_size (g_fs u)) = k \<and>
     128 * k < unat (total_clusters (g_fs u)) + 2 \<and> unat (total_clusters (g_fs u)) + 2 \<le> 128 * (k + 1) \<and>
     (let c = total_clusters (g_fs u) + 1 in
        valid_cluster (g_fs u) c \<and> fat_lba u c = fat_lba u 0 + k \<and> fat_lba u c + k = clu_lba u (root_dir_cluster (g_fs u)) 0 \<and>
        sect (disk u) (clu_lba u (root_dir_cluster (g_fs u)) 0) = replicate 512 0 \<and>
        fat32_set_next_cluster ops c n u = (0, v) \<and>
        sect (disk v) (clu_lba u (root_dir_cluster (g_fs u)) 0) = buf_put (replicate 512 0) (fat_off c) (to_le 4 (n AND 0x0FFFFFFF)))"
proof -
  note N = short_numbers[OF ts sz]
  let ?p = "unat (g_partition_offset s)" and ?c = "total_clusters (fresh_fs ts) + 1"
  obtain t where t: "fat32_format ops ts lab s = (0, t)" "dev_ok (disk t)" "g_partition_offset t = g_partition_offset s"
     "length (sector_buffer t) = 512" "formatted sect ts lab ?p (disk t)"
    using block_device.format_run[OF bd dev off sz lb] by blast
  obtain d where d: "fat32_init ops t = Some (0, t\<lparr>disk := d, sector_buffer := format_fsinfo_sector ts, g_fs := fresh_fs ts,
      g_free_clusters := format_free_clusters ts\<rparr>)" "dev_ok d" "sect d = sect (disk t)"
    by (rule block_device.init_reads[OF bd t(2) _ sz t(4), of lab]) (use t(3,5) off lb in simp_all)
  define u where "u = t\<lparr>disk := d, sector_buffer := format_fsinfo_sector ts, g_fs := fresh_fs ts, g_free_clusters := format_free_clusters ts\<rparr>"
  have U: "g_fs u = fresh_fs ts" "g_partition_offset u = g_partition_offset s" "disk u = d" "length (sector_buffer u) = 512"
    using t(3) format_fsinfo_parse(1) by (simp_all add: u_def)
  have c: "unat ?c = (if r = 0 then 128 * k + 1 else 128 * k)"
    by (subst unat_add_nowrap) (use N in simp_all)
  then have cs: "4 * unat ?c div 512 = k" by (auto split: if_splits)
  have z: "sect d (?p + 32 + k) = replicate 512 0" "sect d (?p + 32 + 2 * k) = replicate 512 0"
    using t(5) N(1,3) unfolding d(3) formatted_def by (metis add.right_neutral less_eq_Suc_le One_nat_def, metis add.right_neutral zero_less_numeral)
  have m: "?p + 32 + k \<in> lbas" "?p + 32 + 2 * k \<in> lbas" using lb ts N(3) by auto
  obtain v where v: "fat32_set_next_cluster ops ?c n u = (0, v)"
    "sect (disk v) (?p + 32 + 2 * k) = buf_put (replicate 512 0) (fat_off ?c) (to_le 4 (n AND 0x0FFFFFFF))"
    by (rule block_device.set_next_past_table[OF bd _ _ U(1) N(1,4) cs U(4)]) (use U d(2) off m z in simp_all)
  have root: "clu_lba u 2 0 = ?p + 32 + 2 * k"
    using fresh_numbers(1)[OF sz] N(1) by (simp add: clu_lba_def U)
  have "fat_lba u ?c = ?p + 32 + k" "fat_lba u 0 = ?p + 32" by (simp_all add: fat_lba_def U cs) (simp_all add: fresh_fs_def)
  moreover have "valid_cluster (fresh_fs ts) ?c" using c N by (simp add: valid_cluster_def)
  moreover have "root_dir_cluster (fresh_fs ts) = 2" "fat_size (fresh_fs ts) = format_fat_size ts" by (simp_all add: fresh_fs_def)
  ultimately show ?thesis
    using t(1) d(1) v z(2) N root unfolding u_def[symmetric]
    by - (rule exI[of _ t], rule exI[of _ u], rule exI[of _ v], simp add: U Let_def, arith)
qed

theorem format_fat_size_short_witness:
  "\<exists>t u v. fat32_format ram_storage 1058 None sample_volume = (0, t) \<and> fat32_init ram_storage t = Some (0, u) \<and>
     unat (fat_size (g_fs u)) = 1 \<and> 128 < unat (total_clusters (g_fs u)) + 2 \<and>
     fat32_set_next_cluster ram_storage (total_clusters (g_fs u) + 1) 0x0FFFFFFF u = (0, v) \<and>
     disk u (clu_lba u (root_dir_cluster (g_fs u)) 0) = replicate 512 0 \<and>
     disk v (clu_lba u (root_dir_cluster (g_fs u)) 0) \<noteq> replicate 512 0"
proof -
  have "ram_ok (disk sample_volume)" "unat (g_partition_offset sample_volume) + 2 ^ 32 \<le> 2 ^ 64"
    using sample_volume_ok by (simp_all add: fat_ok_def)
  moreover have "format_range 1058" "unat (1058 :: u64) + 0 = 32 + 1026 * 1" by (simp_all add: format_range_def)
  moreover have "buf_put (replicate 512 0) o4 (to_le 4 (0x0FFFFFFF AND 0x0FFFFFFF :: u32)) \<noteq> (replicate 512 0 :: bytes)" if "o4 + 4 \<le> 512" for o4
  proof
    assume e: "buf_put (replicate 512 0) o4 (to_le 4 (0x0FFFFFFF AND 0x0FFFFFFF :: u32)) = (replicate 512 0 :: bytes)"
    have "of_le (buf_get 4 (buf_put (replicate 512 0) o4 (to_le 4 (0x0FFFFFFF :: u32))) o4) = (0x0FFFFFFF :: u32)"
      using that by simp
    moreover have "of_le (buf_get 4 (replicate 512 0) o4) = (0 :: u32)"
      using that of_le_zeros[of 4] by (simp add: buf_get_def)
    ultimately show False using e by simp
  qed
  ultimately show ?thesis
    using format_fat_size_short[OF ram_block_device, of sample_volume 1058 0 1 None "0x0FFFFFFF"] fat_off_le
    by (auto simp: Let_def)
qed

end
