(* ===== verification/Crc32.thy ===== *)
theory Crc32
  imports CMem
begin

text \<open>
  The CRC-32 of \<^verbatim>\<open>fs/gpt/gpt.c\<close>: the 256-entry lookup table and the byte loop, and the bit-by-bit
  polynomial division over 0xEDB88320 it has to agree with.
\<close>

unbundle bit_operations_syntax

definition crc32_table :: "u32 list" where
  "crc32_table =
    [0x00000000, 0x77073096, 0xEE0E612C, 0x990951BA, 0x076DC419, 0x706AF48F, 0xE963A535, 0x9E6495A3,
     0x0EDB8832, 0x79DCB8A4, 0xE0D5E91E, 0x97D2D988, 0x09B64C2B, 0x7EB17CBD, 0xE7B82D07, 0x90BF1D91,
     0x1DB71064, 0x6AB020F2, 0xF3B97148, 0x84BE41DE, 0x1ADAD47D, 0x6DDDE4EB, 0xF4D4B551, 0x83D385C7,
     0x136C9856, 0x646BA8C0, 0xFD62F97A, 0x8A65C9EC, 0x14015C4F, 0x63066CD9, 0xFA0F3D63, 0x8D080DF5,
     0x3B6E20C8, 0x4C69105E, 0xD56041E4, 0xA2677172, 0x3C03E4D1, 0x4B04D447, 0xD20D85FD, 0xA50AB56B,
     0x35B5A8FA, 0x42B2986C, 0xDBBBC9D6, 0xACBCF940, 0x32D86CE3, 0x45DF5C75, 0xDCD60DCF, 0xABD13D59,
     0x26D930AC, 0x51DE003A, 0xC8D75180, 0xBFD06116, 0x21B4F4B5, 0x56B3C423, 0xCFBA9599, 0xB8BDA50F,
     0x2802B89E, 0x5F058808, 0xC60CD9B2, 0xB10BE924, 0x2F6F7C87, 0x58684C11, 0xC1611DAB, 0xB6662D3D,
     0x76DC4190, 0x01DB7106, 0x98D220BC, 0xEFD5102A, 0x71B18589, 0x06B6B51F, 0x9FBFE4A5, 0xE8B8D433,
     0x7807C9A2, 0x0F00F934, 0x9609A88E, 0xE10E9818, 0x7F6A0DBB, 0x086D3D2D, 0x91646C97, 0xE6635C01,
     0x6B6B51F4, 0x1C6C6162, 0x856530D8, 0xF262004E, 0x6C0695ED, 0x1B01A57B, 0x8208F4C1, 0xF50FC457,
     0x65B0D9C6, 0x12B7E950, 0x8BBEB8EA, 0xFCB9887C, 0x62DD1DDF, 0x15DA2D49, 0x8CD37CF3, 0xFBD44C65,
     0x4DB26158, 0x3AB551CE, 0xA3BC0074, 0xD4BB30E2, 0x4ADFA541, 0x3DD895D7, 0xA4D1C46D, 0xD3D6F4FB,
     0x4369E96A, 0x346ED9FC, 0xAD678846, 0xDA60B8D0, 0x44042D73, 0x33031DE5, 0xAA0A4C5F, 0xDD0D7CC9,
     0x5005713C, 0x270241AA, 0xBE0B1010, 0xC90C2086, 0x5768B525, 0x206F85B3, 0xB966D409, 0xCE61E49F,
     0x5EDEF90E, 0x29D9C998, 0xB0D09822, 0xC7D7A8B4, 0x59B33D17, 0x2EB40D81, 0xB7BD5C3B, 0xC0BA6CAD,
     0xEDB88320, 0x9ABFB3B6, 0x03B6E20C, 0x74B1D29A, 0xEAD54739, 0x9DD277AF, 0x04DB2615, 0x73DC1683,
     0xE3630B12, 0x94643B84, 0x0D6D6A3E, 0x7A6A5AA8, 0xE40ECF0B, 0x9309FF9D, 0x0A00AE27, 0x7D079EB1,
     0xF00F9344, 0x8708A3D2, 0x1E01F268, 0x6906C2FE, 0xF762575D, 0x806567CB, 0x196C3671, 0x6E6B06E7,
     0xFED41B76, 0x89D32BE0, 0x10DA7A5A, 0x67DD4ACC, 0xF9B9DF6F, 0x8EBEEFF9, 0x17B7BE43, 0x60B08ED5,
     0xD6D6A3E8, 0xA1D1937E, 0x38D8C2C4, 0x4FDFF252, 0xD1BB67F1, 0xA6BC5767, 0x3FB506DD, 0x48B2364B,
     0xD80D2BDA, 0xAF0A1B4C, 0x36034AF6, 0x41047A60, 0xDF60EFC3, 0xA867DF55, 0x316E8EEF, 0x4669BE79,
     0xCB61B38C, 0xBC66831A, 0x256FD2A0, 0x5268E236, 0xCC0C7795, 0xBB0B4703, 0x220216B9, 0x5505262F,
     0xC5BA3BBE, 0xB2BD0B28, 0x2BB45A92, 0x5CB36A04, 0xC2D7FFA7, 0xB5D0CF31, 0x2CD99E8B, 0x5BDEAE1D,
     0x9B64C2B0, 0xEC63F226, 0x756AA39C, 0x026D930A, 0x9C0906A9, 0xEB0E363F, 0x72076785, 0x05005713,
     0x95BF4A82, 0xE2B87A14, 0x7BB12BAE, 0x0CB61B38, 0x92D28E9B, 0xE5D5BE0D, 0x7CDCEFB7, 0x0BDBDF21,
     0x86D3D2D4, 0xF1D4E242, 0x68DDB3F8, 0x1FDA836E, 0x81BE16CD, 0xF6B9265B, 0x6FB077E1, 0x18B74777,
     0x88085AE6, 0xFF0F6A70, 0x66063BCA, 0x11010B5C, 0x8F659EFF, 0xF862AE69, 0x616BFFD3, 0x166CCF45,
     0xA00AE278, 0xD70DD2EE, 0x4E048354, 0x3903B3C2, 0xA7672661, 0xD06016F7, 0x4969474D, 0x3E6E77DB,
     0xAED16A4A, 0xD9D65ADC, 0x40DF0B66, 0x37D83BF0, 0xA9BCAE53, 0xDEBB9EC5, 0x47B2CF7F, 0x30B5FFE9,
     0xBDBDF21C, 0xCABAC28A, 0x53B39330, 0x24B4A3A6, 0xBAD03605, 0xCDD70693, 0x54DE5729, 0x23D967BF,
     0xB3667A2E, 0xC4614AB8, 0x5D681B02, 0x2A6F2B94, 0xB40BBE37, 0xC30C8EA1, 0x5A05DF1B, 0x2D02EF8D]"

definition crc_byte :: "u32 \<Rightarrow> u8 \<Rightarrow> u32" where
  "crc_byte crc b = (crc32_table ! unat ((crc XOR ucast b) AND 0xFF)) XOR drop_bit 8 crc"

fun crc_loop :: "bytes \<Rightarrow> u32 \<Rightarrow> u32" where
  "crc_loop [] crc = crc"
| "crc_loop (b # bs) crc = crc_loop bs (crc_byte crc b)"

text \<open>A length beyond the object is a read out of bounds.\<close>

definition crc32 :: "bytes \<Rightarrow> nat \<Rightarrow> u32 option" where
  "crc32 data n = (if n \<le> length data then Some (crc_loop (take n data) 0xFFFFFFFF XOR 0xFFFFFFFF) else None)"

text \<open>Reference: one division step per bit.\<close>

definition crc_step :: "u32 \<Rightarrow> u32" where
  "crc_step c = (if bit c 0 then drop_bit 1 c XOR 0xEDB88320 else drop_bit 1 c)"

definition crc_ref_byte :: "u32 \<Rightarrow> u8 \<Rightarrow> u32" where
  "crc_ref_byte c b = (crc_step ^^ 8) (c XOR ucast b)"

definition crc32_ref :: "bytes \<Rightarrow> u32" where
  "crc32_ref bs = foldl crc_ref_byte 0xFFFFFFFF bs XOR 0xFFFFFFFF"

text \<open>The table holds the eight-step remainder of every byte value.\<close>

fun crc_table_ok :: "u32 \<Rightarrow> u32 list \<Rightarrow> bool" where
  "crc_table_ok w [] = True"
| "crc_table_ok w (t # ts) = (t = (crc_step ^^ 8) w \<and> crc_table_ok (w + 1) ts)"

lemma crc_step_8: "(crc_step ^^ 8) x =
   crc_step (crc_step (crc_step (crc_step (crc_step (crc_step (crc_step (crc_step x)))))))"
  by (simp add: numeral_eq_Suc)

lemma crc_table_ok_nth: "crc_table_ok w ts \<Longrightarrow> i < length ts \<Longrightarrow> ts ! i = (crc_step ^^ 8) (w + of_nat i)"
proof (induction ts arbitrary: w i)
  case Nil
  then show ?case by simp
next
  case (Cons t ts)
  then show ?case by (cases i) (auto simp: ac_simps)
qed

lemma crc32_table_ok: "crc_table_ok 0 crc32_table"
  unfolding crc32_table_def crc_table_ok.simps crc_step_8
  by (intro conjI) (simp_all add: crc_step_def)

lemma crc32_table_nth: "i < 256 \<Longrightarrow> crc32_table ! i = (crc_step ^^ 8) (of_nat i)"
  using crc_table_ok_nth[OF crc32_table_ok, of i] by (simp add: crc32_table_def)

lemma xor_self_left: "(a :: u32) XOR (a XOR b) = b"
  by (simp flip: xor.assoc)

lemma crc_step_xor: "crc_step (x XOR y) = crc_step x XOR crc_step y"
  by (cases "bit x 0"; cases "bit y 0")
     (simp_all add: crc_step_def drop_bit_xor bit_xor_iff ac_simps xor_self_left)

lemma crc_steps_xor: "(crc_step ^^ n) (x XOR y) = (crc_step ^^ n) x XOR (crc_step ^^ n) y"
  by (induction n) (simp_all add: crc_step_xor)

lemma crc_steps_high: "(\<forall>k<n. \<not> bit x k) \<Longrightarrow> (crc_step ^^ n) x = drop_bit n x"
proof (induction n arbitrary: x)
  case 0
  then show ?case by simp
next
  case (Suc n)
  then have s: "crc_step x = drop_bit 1 x" by (auto simp: crc_step_def)
  have "\<forall>k<n. \<not> bit (drop_bit 1 x) k" using Suc.prems by (auto simp: bit_drop_bit_eq)
  from Suc.IH[OF this] s show ?case by (simp add: funpow_Suc_right del: funpow.simps)
qed

lemma crc_byte_ref: "crc_byte c b = crc_ref_byte c b"
proof -
  let ?x = "c XOR ucast b"
  have m: "(0xFF :: u32) = mask 8" by (simp add: mask_eq_exp_minus_1)
  have split: "?x = (?x AND 0xFF) XOR (?x AND NOT 0xFF)"
    unfolding m by (rule bit_word_eqI) (auto simp: bit_simps)
  have hi: "(crc_step ^^ 8) (?x AND NOT 0xFF) = drop_bit 8 c"
  proof -
    have "(crc_step ^^ 8) (?x AND NOT 0xFF) = drop_bit 8 (?x AND NOT 0xFF)"
      unfolding m by (rule crc_steps_high) (auto simp: bit_simps)
    also have "\<dots> = drop_bit 8 c" unfolding m
      by (rule bit_word_eqI) (auto simp: bit_simps dest: bit_imp_le_length)
    finally show ?thesis .
  qed
  have "unat (?x AND 0xFF) < 256"
  proof -
    have "?x AND 0xFF \<le> 0xFF" by (rule word_and_le1)
    then show ?thesis by (simp add: word_le_nat_alt)
  qed
  then have "crc32_table ! unat (?x AND 0xFF) = (crc_step ^^ 8) (?x AND 0xFF)"
    using crc32_table_nth[of "unat (?x AND 0xFF)"] by simp
  then show ?thesis
    unfolding crc_byte_def crc_ref_byte_def using hi crc_steps_xor[of 8 "?x AND 0xFF" "?x AND NOT 0xFF"] split by simp
qed

lemma crc_loop_ref: "crc_loop bs c = foldl crc_ref_byte c bs"
  by (induction bs arbitrary: c) (simp_all add: crc_byte_ref)

text \<open>CRC is affine: the checksums of two messages of one length differ by the remainder of their difference.\<close>

lemma crc_byte_xor: "crc_byte (c XOR d) (a XOR b) = crc_byte c a XOR crc_byte d b"
proof -
  have "ucast (a XOR b) = (ucast a XOR ucast b :: u32)" by (rule bit_word_eqI) (auto simp: bit_simps)
  moreover have "c XOR d XOR (ucast a XOR ucast b) = (c XOR ucast a) XOR (d XOR ucast b :: u32)" by (simp add: ac_simps)
  ultimately show ?thesis unfolding crc_byte_ref crc_ref_byte_def by (simp add: crc_steps_xor ac_simps)
qed

lemma crc_loop_xor:
  "length xs = length ys \<Longrightarrow> crc_loop (map2 (XOR) xs ys) (c XOR d) = crc_loop xs c XOR crc_loop ys d"
  by (induction xs ys arbitrary: c d rule: list_induct2) (simp_all add: crc_byte_xor)

end
