(* ===== verification/Gpt_Model.thy ===== *)
theory Gpt_Model
  imports Block Crc32
begin

text \<open>
  GUID partition tables, \<^verbatim>\<open>fs/gpt/gpt.c\<close>, every function of it.  The file-scope variables are the record
  \<open>gpt\<close>, the \<^verbatim>\<open>static\<close> seed of \<^verbatim>\<open>generate_guid\<close> included.  \<open>None\<close> is undefined behaviour: a checksum or
  a copy that runs over the end of its object.
\<close>

unbundle bit_operations_syntax

record gpt_header =
  hd_signature :: bytes
  hd_revision :: u32
  hd_header_size :: u32
  hd_header_crc32 :: u32
  hd_reserved :: u32
  hd_current_lba :: u64
  hd_backup_lba :: u64
  hd_first_usable_lba :: u64
  hd_last_usable_lba :: u64
  hd_disk_guid :: bytes
  hd_partition_entries_lba :: u64
  hd_num_partition_entries :: u32
  hd_partition_entry_size :: u32
  hd_partition_array_crc32 :: u32

record gpt_partition_entry =
  pe_type_guid :: bytes
  pe_partition_guid :: bytes
  pe_first_lba :: u64
  pe_last_lba :: u64
  pe_attributes :: u64
  pe_name :: "u16 list"

record gpt_partition_info =
  pi_type_guid :: bytes
  pi_partition_guid :: bytes
  pi_first_lba :: u64
  pi_last_lba :: u64
  pi_attributes :: u64
  pi_name :: bytes

record 's gpt =
  gdisk :: 's
  g_gpt_header :: gpt_header
  g_partitions :: "gpt_partition_entry list"
  g_gpt_initialized :: bool
  gpt_sector_buffer :: bytes
  guid_seed :: u32

definition header_bytes :: "gpt_header \<Rightarrow> bytes" where
  "header_bytes h =
     hd_signature h @ to_le 4 (hd_revision h) @ to_le 4 (hd_header_size h) @ to_le 4 (hd_header_crc32 h) @
     to_le 4 (hd_reserved h) @ to_le 8 (hd_current_lba h) @ to_le 8 (hd_backup_lba h) @
     to_le 8 (hd_first_usable_lba h) @ to_le 8 (hd_last_usable_lba h) @ hd_disk_guid h @
     to_le 8 (hd_partition_entries_lba h) @ to_le 4 (hd_num_partition_entries h) @
     to_le 4 (hd_partition_entry_size h) @ to_le 4 (hd_partition_array_crc32 h)"

definition header_of :: "bytes \<Rightarrow> gpt_header" where
  "header_of b =
     \<lparr>hd_signature = buf_get 8 b 0, hd_revision = of_le (buf_get 4 b 8),
      hd_header_size = of_le (buf_get 4 b 12), hd_header_crc32 = of_le (buf_get 4 b 16),
      hd_reserved = of_le (buf_get 4 b 20), hd_current_lba = of_le (buf_get 8 b 24),
      hd_backup_lba = of_le (buf_get 8 b 32), hd_first_usable_lba = of_le (buf_get 8 b 40),
      hd_last_usable_lba = of_le (buf_get 8 b 48), hd_disk_guid = buf_get 16 b 56,
      hd_partition_entries_lba = of_le (buf_get 8 b 72), hd_num_partition_entries = of_le (buf_get 4 b 80),
      hd_partition_entry_size = of_le (buf_get 4 b 84), hd_partition_array_crc32 = of_le (buf_get 4 b 88)\<rparr>"

fun words16_bytes :: "u16 list \<Rightarrow> bytes" where
  "words16_bytes [] = []"
| "words16_bytes (w # ws) = to_le 2 w @ words16_bytes ws"

fun words16_of :: "nat \<Rightarrow> bytes \<Rightarrow> u16 list" where
  "words16_of 0 b = []"
| "words16_of (Suc n) b = of_le (take 2 b) # words16_of n (drop 2 b)"

definition part_bytes :: "gpt_partition_entry \<Rightarrow> bytes" where
  "part_bytes e =
     pe_type_guid e @ pe_partition_guid e @ to_le 8 (pe_first_lba e) @ to_le 8 (pe_last_lba e) @
     to_le 8 (pe_attributes e) @ words16_bytes (pe_name e)"

definition part_of :: "bytes \<Rightarrow> gpt_partition_entry" where
  "part_of b =
     \<lparr>pe_type_guid = buf_get 16 b 0, pe_partition_guid = buf_get 16 b 16,
      pe_first_lba = of_le (buf_get 8 b 32), pe_last_lba = of_le (buf_get 8 b 40),
      pe_attributes = of_le (buf_get 8 b 48), pe_name = words16_of 36 (buf_get 72 b 56)\<rparr>"

definition table_bytes :: "gpt_partition_entry list \<Rightarrow> bytes" where
  "table_bytes ps = concat (map part_bytes ps)"

abbreviation GPT_MAX_PARTITIONS :: nat where "GPT_MAX_PARTITIONS \<equiv> 128"
abbreviation GPT_REVISION :: u32 where "GPT_REVISION \<equiv> 0x00010000"

definition gpt_signature :: bytes where
  "gpt_signature = [0x45, 0x46, 0x49, 0x20, 0x50, 0x41, 0x52, 0x54]"

definition zero_guid :: bytes where
  "zero_guid = replicate 16 0"

definition zero_entry :: gpt_partition_entry where
  "zero_entry = \<lparr>pe_type_guid = replicate 16 0, pe_partition_guid = replicate 16 0, pe_first_lba = 0,
     pe_last_lba = 0, pe_attributes = 0, pe_name = replicate 36 0\<rparr>"

fun guid_loop :: "nat \<Rightarrow> u32 \<Rightarrow> bytes \<times> u32" where
  "guid_loop 0 seed = ([], seed)"
| "guid_loop (Suc n) seed =
     (let seed' = seed * 1103515245 + 12345 in
      case guid_loop n seed' of (bs, s) \<Rightarrow> (ucast (drop_bit 16 seed' AND 0xFF) # bs, s))"

definition generate_guid :: "u32 \<Rightarrow> bytes \<times> u32" where
  "generate_guid seed =
     (case guid_loop 16 seed of (g, seed') \<Rightarrow>
        (g[6 := (g ! 6 AND 0x0F) OR 0x40, 8 := (g ! 8 AND 0x3F) OR 0x80], seed'))"

function utf8_loop :: "bytes \<Rightarrow> u16 list \<Rightarrow> nat \<Rightarrow> nat \<Rightarrow> nat \<times> u16 list" where
  "utf8_loop utf8 utf16 max_chars i =
     (if cchar utf8 i \<noteq> 0 \<and> i < max_chars - 1
      then utf8_loop utf8 (utf16[i := scast (cchar utf8 i)]) max_chars (Suc i)
      else (i, utf16))"
  by pat_completeness auto
termination
  by (relation "measure (\<lambda>(u, v, m, i). m - i)") auto

declare utf8_loop.simps [simp del]

definition utf8_to_utf16le :: "bytes \<Rightarrow> u16 list \<Rightarrow> nat \<Rightarrow> u16 list" where
  "utf8_to_utf16le utf8 utf16 max_chars =
     (case utf8_loop utf8 utf16 max_chars 0 of (i, out) \<Rightarrow> out[i := 0])"

function utf16_loop :: "u16 list \<Rightarrow> nat \<Rightarrow> nat \<Rightarrow> bytes \<Rightarrow> bytes option" where
  "utf16_loop utf16 max_bytes i out =
     (if i < length utf16 then
        (if utf16 ! i \<noteq> 0 \<and> i < max_bytes - 1
         then utf16_loop utf16 max_bytes (Suc i) (out @ [ucast (utf16 ! i)])
         else Some out)
      else None)"
  by pat_completeness auto
termination
  by (relation "measure (\<lambda>(u, m, i, out). length u - i)") auto

declare utf16_loop.simps [simp del]

definition utf16le_to_utf8 :: "u16 list \<Rightarrow> nat \<Rightarrow> bytes option" where
  "utf16le_to_utf8 utf16 max_bytes = utf16_loop utf16 max_bytes 0 []"

fun read_entries :: "u32 \<Rightarrow> u32 \<Rightarrow> u32 \<Rightarrow> bytes \<Rightarrow> nat list \<Rightarrow> gpt_partition_entry list \<Rightarrow> gpt_partition_entry list option" where
  "read_entries esz base_entry entries_to_read sec [] ps = Some ps"
| "read_entries esz base_entry entries_to_read sec (j # js) ps =
     (let entry_idx = base_entry + of_nat j in
      if entry_idx \<ge> entries_to_read then Some ps
      else do {
        img \<leftarrow> memcpy (replicate 128 0) 0 sec (j * unat esz) 128;
        read_entries esz base_entry entries_to_read sec js (ps[unat entry_idx := part_of img])
      })"

fun read_table :: "'s storage \<Rightarrow> u64 \<Rightarrow> u32 \<Rightarrow> u32 \<Rightarrow> nat list \<Rightarrow> 's gpt \<Rightarrow> (int \<times> 's gpt) option" where
  "read_table ops lba esz entries_to_read [] s = Some (0, s)"
| "read_table ops lba esz entries_to_read (i # is) s =
     (case block_read_sector ops (lba + of_nat i) (gpt_sector_buffer s) (gdisk s) of
        (rc, sec, d) \<Rightarrow>
          let s1 = s\<lparr>gdisk := d, gpt_sector_buffer := sec\<rparr> in
          if rc \<noteq> 0 then Some (-1, s1)
          else if esz = 0 then None
          else
            let entries_this_sector = 512 div esz; base_entry = of_nat i * entries_this_sector in
            do {
              ps \<leftarrow> read_entries esz base_entry entries_to_read sec [0..<unat entries_this_sector] (g_partitions s1);
              read_table ops lba esz entries_to_read is (s1\<lparr>g_partitions := ps\<rparr>)
            })"

definition gpt_init :: "'s storage \<Rightarrow> 's gpt \<Rightarrow> (int \<times> 's gpt) option" where
  "gpt_init ops s =
     (if \<not> block_is_present ops (gdisk s) then Some (-1, s)
      else case block_read_sector ops 1 (gpt_sector_buffer s) (gdisk s) of (rc, sec, d) \<Rightarrow>
      let s1 = s\<lparr>gdisk := d, gpt_sector_buffer := sec\<rparr> in
      if rc \<noteq> 0 then Some (-1, s1)
      else
        let h = header_of (buf_get 92 sec 0); s2 = s1\<lparr>g_gpt_header := h\<rparr> in
        if hd_signature h \<noteq> gpt_signature then Some (-1, s2)
        else if hd_revision h \<noteq> GPT_REVISION then Some (-1, s2)
        else
          let saved_crc = hd_header_crc32 h; h0 = h\<lparr>hd_header_crc32 := 0\<rparr> in
          do {
            calc_crc \<leftarrow> crc32 (header_bytes h0) (unat (hd_header_size h0));
            if saved_crc \<noteq> calc_crc then Some (-1, s2\<lparr>g_gpt_header := h0\<rparr>)
            else
              let entries_to_read = (if hd_num_partition_entries h > 128 then 128 else hd_num_partition_entries h);
                  sectors_needed = (entries_to_read * hd_partition_entry_size h + 511) div 512
              in do {
                (rc2, s3) \<leftarrow> read_table ops (hd_partition_entries_lba h) (hd_partition_entry_size h) entries_to_read
                               [0..<unat sectors_needed] s2;
                if rc2 \<noteq> 0 then Some (-1, s3)
                else Some (0, s3\<lparr>g_gpt_initialized := True\<rparr>)
              }
          })"

definition mbr_sector :: "u64 \<Rightarrow> bytes" where
  "mbr_sector total_sectors =
     (let b1 = (replicate 512 0)[446 := 0x00, 450 := 0xEE];
          b2 = buf_put b1 454 (to_le 4 (1 :: u32));
          b3 = buf_put b2 458 (to_le 4 (if total_sectors > 0xFFFFFFFF then 0xFFFFFFFF else ucast total_sectors - 1 :: u32))
      in buf_put b3 510 (to_le 2 (0xAA55 :: u16)))"

definition sign_header :: "gpt_header \<Rightarrow> gpt_header option" where
  "sign_header h =
     (let h0 = h\<lparr>hd_header_crc32 := 0\<rparr> in
      do { c \<leftarrow> crc32 (header_bytes h0) 92; Some (h0\<lparr>hd_header_crc32 := c\<rparr>) })"

definition header_sector :: "gpt_header \<Rightarrow> bytes" where
  "header_sector h = buf_put (replicate 512 0) 0 (header_bytes h)"

fun write_table :: "'s storage \<Rightarrow> nat list \<Rightarrow> 's gpt \<Rightarrow> int \<times> 's gpt" where
  "write_table ops [] s = (0, s)"
| "write_table ops (i # is) s =
     (let sec = buf_get 512 (table_bytes (g_partitions s)) (i * 512) in
      case block_write_sector ops (2 + of_nat i) sec (gdisk s) of (rc, d) \<Rightarrow>
        let s1 = s\<lparr>gdisk := d, gpt_sector_buffer := sec\<rparr> in
        if rc \<noteq> 0 then (-1, s1) else write_table ops is s1)"

definition table_sectors :: nat where
  "table_sectors = (GPT_MAX_PARTITIONS * 128 + 511) div 512"

definition new_header :: "u64 \<Rightarrow> bytes \<Rightarrow> u32 \<Rightarrow> gpt_header" where
  "new_header total_sectors guid array_crc =
     \<lparr>hd_signature = gpt_signature, hd_revision = GPT_REVISION, hd_header_size = 92, hd_header_crc32 = 0,
      hd_reserved = 0, hd_current_lba = 1, hd_backup_lba = total_sectors - 1, hd_first_usable_lba = 34,
      hd_last_usable_lba = total_sectors - 34, hd_disk_guid = guid, hd_partition_entries_lba = 2,
      hd_num_partition_entries = 128, hd_partition_entry_size = 128, hd_partition_array_crc32 = array_crc\<rparr>"

definition gpt_create_table :: "'s storage \<Rightarrow> u64 \<Rightarrow> bytes option \<Rightarrow> 's gpt \<Rightarrow> (int \<times> 's gpt) option" where
  "gpt_create_table ops total_sectors disk_guid s =
     (if \<not> block_is_present ops (gdisk s) then Some (-1, s)
      else case block_write_sector ops 0 (mbr_sector total_sectors) (gdisk s) of (rc, d) \<Rightarrow>
      let s1 = s\<lparr>gdisk := d, gpt_sector_buffer := mbr_sector total_sectors\<rparr> in
      if rc \<noteq> 0 then Some (-1, s1)
      else
        let (guid, seed) = (case disk_guid of Some g \<Rightarrow> (buf_get 16 g 0, guid_seed s1) | None \<Rightarrow> generate_guid (guid_seed s1));
            ps = replicate GPT_MAX_PARTITIONS zero_entry;
            s2 = s1\<lparr>g_partitions := ps, guid_seed := seed\<rparr>
        in do {
          acrc \<leftarrow> crc32 (table_bytes ps) (GPT_MAX_PARTITIONS * 128);
          h \<leftarrow> sign_header (new_header total_sectors guid acrc);
          (case block_write_sector ops 1 (header_sector h) (gdisk s2) of (rc1, d1) \<Rightarrow>
             let s3 = s2\<lparr>gdisk := d1, g_gpt_header := h, gpt_sector_buffer := header_sector h\<rparr> in
             if rc1 \<noteq> 0 then Some (-1, s3)
             else case write_table ops [0..<table_sectors] s3 of (rc2, s4) \<Rightarrow>
             if rc2 \<noteq> 0 then Some (-1, s4)
             else do {
               hb \<leftarrow> sign_header (h\<lparr>hd_current_lba := total_sectors - 1, hd_backup_lba := 1,
                                     hd_partition_entries_lba := total_sectors - 33\<rparr>);
               (case block_write_sector ops (total_sectors - 1) (header_sector hb) (gdisk s4) of (rc3, d3) \<Rightarrow>
                  Some (0, s4\<lparr>gdisk := d3, gpt_sector_buffer := header_sector hb,
                    g_gpt_header := hb\<lparr>hd_current_lba := 1, hd_backup_lba := total_sectors - 1,
                                       hd_partition_entries_lba := 2\<rparr>,
                    g_gpt_initialized := True\<rparr>))
             })
        })"

fun free_index :: "gpt_partition_entry list \<Rightarrow> nat list \<Rightarrow> nat option" where
  "free_index ps [] = None"
| "free_index ps (i # is) = (if pe_type_guid (ps ! i) = zero_guid then Some i else free_index ps is)"

definition store_table :: "'s storage \<Rightarrow> 's gpt \<Rightarrow> (int \<times> 's gpt) option" where
  "store_table ops s =
     do {
       acrc \<leftarrow> crc32 (table_bytes (g_partitions s)) (GPT_MAX_PARTITIONS * 128);
       h \<leftarrow> sign_header ((g_gpt_header s)\<lparr>hd_partition_array_crc32 := acrc\<rparr>);
       (case block_write_sector ops 1 (header_sector h) (gdisk s) of (rc, d) \<Rightarrow>
          let s1 = s\<lparr>gdisk := d, g_gpt_header := h, gpt_sector_buffer := header_sector h\<rparr> in
          Some (if rc \<noteq> 0 then (-1, s1) else write_table ops [0..<table_sectors] s1))
     }"

definition gpt_add_partition ::
    "'s storage \<Rightarrow> u64 \<Rightarrow> u64 \<Rightarrow> bytes \<Rightarrow> bytes option \<Rightarrow> 's gpt \<Rightarrow> (int \<times> 's gpt) option" where
  "gpt_add_partition ops first_lba last_lba type_guid name s =
     (if \<not> g_gpt_initialized s then Some (-1, s)
      else case free_index (g_partitions s) [0..<GPT_MAX_PARTITIONS] of
        None \<Rightarrow> Some (-1, s)
      | Some free_idx \<Rightarrow>
          if first_lba < hd_first_usable_lba (g_gpt_header s) \<or>
             last_lba > hd_last_usable_lba (g_gpt_header s) \<or> first_lba \<ge> last_lba
          then Some (-1, s)
          else
            let (guid, seed) = generate_guid (guid_seed s);
                old = g_partitions s ! free_idx;
                e = \<lparr>pe_type_guid = buf_get 16 type_guid 0, pe_partition_guid = guid,
                     pe_first_lba = first_lba, pe_last_lba = last_lba, pe_attributes = 0,
                     pe_name = (case name of Some n \<Rightarrow> utf8_to_utf16le n (pe_name old) 36 | None \<Rightarrow> pe_name old)\<rparr>
            in store_table ops (s\<lparr>g_partitions := (g_partitions s)[free_idx := e], guid_seed := seed\<rparr>))"

definition gpt_get_partition :: "u32 \<Rightarrow> 's gpt \<Rightarrow> (int \<times> gpt_partition_info option) option" where
  "gpt_get_partition index s =
     (if \<not> g_gpt_initialized s \<or> index \<ge> 128 then Some (-1, None)
      else
        let e = g_partitions s ! unat index in
        if pe_type_guid e = zero_guid then Some (-1, None)
        else do {
          nm \<leftarrow> utf16le_to_utf8 (pe_name e) 73;
          Some (0, Some \<lparr>pi_type_guid = pe_type_guid e, pi_partition_guid = pe_partition_guid e,
                         pi_first_lba = pe_first_lba e, pi_last_lba = pe_last_lba e,
                         pi_attributes = pe_attributes e, pi_name = nm\<rparr>)
        })"

fun list_loop_gpt :: "nat list \<Rightarrow> 's gpt \<Rightarrow> (nat \<times> gpt_partition_info) list option" where
  "list_loop_gpt [] s = Some []"
| "list_loop_gpt (i # is) s =
     do {
       (rc, info) \<leftarrow> gpt_get_partition (of_nat i) s;
       rest \<leftarrow> list_loop_gpt is s;
       Some (case info of Some x \<Rightarrow> if rc = 0 then (i, x) # rest else rest | None \<Rightarrow> rest)
     }"

definition gpt_list_partitions :: "'s gpt \<Rightarrow> (int \<times> (nat \<times> gpt_partition_info) list) option" where
  "gpt_list_partitions s =
     (if \<not> g_gpt_initialized s then Some (-1, [])
      else do { calls \<leftarrow> list_loop_gpt [0..<GPT_MAX_PARTITIONS] s; Some (0, calls) })"

definition gpt_delete_partition :: "'s storage \<Rightarrow> u32 \<Rightarrow> 's gpt \<Rightarrow> (int \<times> 's gpt) option" where
  "gpt_delete_partition ops index s =
     (if \<not> g_gpt_initialized s \<or> index \<ge> 128 then Some (-1, s)
      else store_table ops (s\<lparr>g_partitions := (g_partitions s)[unat index := zero_entry]\<rparr>))"

definition gpt_verify :: "'s gpt \<Rightarrow> int option" where
  "gpt_verify s =
     (if \<not> g_gpt_initialized s then Some (-1)
      else
        let h = g_gpt_header s in
        do {
          calc_crc \<leftarrow> crc32 (header_bytes (h\<lparr>hd_header_crc32 := 0\<rparr>)) (unat (hd_header_size h));
          if hd_header_crc32 h \<noteq> calc_crc then Some (-1)
          else do {
            array_crc \<leftarrow> crc32 (table_bytes (g_partitions s)) (GPT_MAX_PARTITIONS * 128);
            Some (if array_crc \<noteq> hd_partition_array_crc32 h then -1 else 0)
          }
        })"

end
