(* ===== verification/Gpt.thy ===== *)
theory Gpt
  imports Gpt_Model
begin

text \<open>
  Correctness of the partition table code: the sector layout of header and table, the invariant \<open>gpt_inv\<close> that
  every operation keeps, runs of \<^verbatim>\<open>gpt_init\<close> and of the store path on any block device (in the locale
  \<open>block_device\<close>), names and GUIDs, and the properties of create, add, get, delete and verify.
\<close>

unbundle bit_operations_syntax

definition part_wf :: "gpt_partition_entry \<Rightarrow> bool" where
  "part_wf e \<longleftrightarrow> length (pe_type_guid e) = 16 \<and> length (pe_partition_guid e) = 16 \<and> length (pe_name e) = 36"

definition table_wf :: "gpt_partition_entry list \<Rightarrow> bool" where
  "table_wf ps \<longleftrightarrow> length ps = 128 \<and> (\<forall>e\<in>set ps. part_wf e)"

definition header_std :: "gpt_header \<Rightarrow> bool" where
  "header_std h \<longleftrightarrow> hd_signature h = gpt_signature \<and> hd_revision h = GPT_REVISION \<and> hd_header_size h = 92 \<and>
     length (hd_disk_guid h) = 16 \<and> hd_partition_entries_lba h = 2 \<and> hd_num_partition_entries h = 128 \<and>
     hd_partition_entry_size h = 128"

definition signed :: "gpt_header \<Rightarrow> bool" where
  "signed h \<longleftrightarrow> crc32 (header_bytes (h\<lparr>hd_header_crc32 := 0\<rparr>)) 92 = Some (hd_header_crc32 h)"

definition gpt_stored :: "('s \<Rightarrow> nat \<Rightarrow> bytes) \<Rightarrow> 's \<Rightarrow> gpt_header \<Rightarrow> gpt_partition_entry list \<Rightarrow> bool" where
  "gpt_stored sect d h ps \<longleftrightarrow> sect d 1 = header_sector h \<and>
     (\<forall>i<32. sect d (2 + i) = buf_get 512 (table_bytes ps) (i * 512))"

definition gpt_inv :: "('s \<Rightarrow> bool) \<Rightarrow> 's gpt \<Rightarrow> bool" where
  "gpt_inv dev_ok s \<longleftrightarrow> dev_ok (gdisk s) \<and> g_gpt_initialized s \<and> header_std (g_gpt_header s) \<and>
     table_wf (g_partitions s) \<and> length (gpt_sector_buffer s) = 512"

definition gpt_synced :: "('s \<Rightarrow> nat \<Rightarrow> bytes) \<Rightarrow> 's gpt \<Rightarrow> bool" where
  "gpt_synced sect s \<longleftrightarrow> gpt_stored sect (gdisk s) (g_gpt_header s) (g_partitions s) \<and> signed (g_gpt_header s) \<and>
     crc32 (table_bytes (g_partitions s)) 16384 = Some (hd_partition_array_crc32 (g_gpt_header s))"

lemma length_words16 [simp]: "length (words16_bytes ws) = 2 * length ws"
  by (induction ws) auto

lemma words16_roundtrip: "length ws = n \<Longrightarrow> words16_of n (words16_bytes ws) = ws"
  by (induction ws arbitrary: n) auto

lemma length_part_bytes: "part_wf e \<Longrightarrow> length (part_bytes e) = 128"
  by (simp add: part_bytes_def part_wf_def)

lemma part_roundtrip: "part_wf e \<Longrightarrow> part_of (part_bytes e) = e"
  by (cases e)
     (simp add: part_wf_def part_of_def part_bytes_def buf_get_skip buf_get_here buf_get_all words16_roundtrip)

lemma length_header_bytes: "header_std h \<Longrightarrow> length (header_bytes h) = 92"
  by (simp add: header_bytes_def header_std_def gpt_signature_def)

lemma header_roundtrip: "length (hd_signature h) = 8 \<Longrightarrow> length (hd_disk_guid h) = 16 \<Longrightarrow> header_of (header_bytes h @ rest) = h"
  by (cases h) (simp add: header_of_def header_bytes_def buf_get_skip buf_get_here buf_get_all)

lemma length_table_bytes: "(\<forall>e\<in>set ps. part_wf e) \<Longrightarrow> length (table_bytes ps) = 128 * length ps"
  by (induction ps) (auto simp: table_bytes_def length_part_bytes)

lemma table_entry: "(\<forall>e\<in>set ps. part_wf e) \<Longrightarrow> k < length ps \<Longrightarrow> buf_get 128 (table_bytes ps) (128 * k) = part_bytes (ps ! k)"
proof (induction ps arbitrary: k)
  case Nil
  then show ?case by simp
next
  case (Cons p ps)
  have l: "length (part_bytes p) = 128" using Cons.prems by (simp add: length_part_bytes)
  have tb: "table_bytes (p # ps) = part_bytes p @ table_bytes ps" by (simp add: table_bytes_def)
  show ?case
  proof (cases k)
    case 0
    with l tb show ?thesis by (simp add: buf_get_here)
  next
    case (Suc m)
    then show ?thesis using Cons l tb by (simp add: buf_get_skip)
  qed
qed

lemma buf_get_buf_get: "off + n \<le> m \<Longrightarrow> buf_get n (buf_get m b o1) off = buf_get n b (o1 + off)"
  by (simp add: buf_get_def drop_take min_def add.commute)

lemma sector_entry:
  assumes "table_wf ps" "i < 32" "j < 4"
  shows "buf_get 128 (buf_get 512 (table_bytes ps) (i * 512)) (j * 128) = part_bytes (ps ! (4 * i + j))"
proof -
  have "buf_get 128 (buf_get 512 (table_bytes ps) (i * 512)) (j * 128) = buf_get 128 (table_bytes ps) (128 * (4 * i + j))"
    using assms(3) by (subst buf_get_buf_get) (auto simp: algebra_simps)
  also have "\<dots> = part_bytes (ps ! (4 * i + j))"
    by (rule table_entry) (use assms in \<open>auto simp: table_wf_def\<close>)
  finally show ?thesis .
qed

lemma length_table_sector: "table_wf ps \<Longrightarrow> i < 32 \<Longrightarrow> length (buf_get 512 (table_bytes ps) (i * 512)) = 512"
  by (simp add: table_wf_def length_table_bytes)

lemma sign_header_signed:
  assumes "header_std h"
  obtains h' where "sign_header h = Some h'" "h' = h\<lparr>hd_header_crc32 := hd_header_crc32 h'\<rparr>" "signed h'" "header_std h'"
proof -
  let ?h0 = "h\<lparr>hd_header_crc32 := 0\<rparr>"
  have "header_std ?h0" using assms by (simp add: header_std_def)
  from length_header_bytes[OF this] obtain c where c: "crc32 (header_bytes ?h0) 92 = Some c" by (simp add: crc32_def)
  show thesis
    by (rule that[of "?h0\<lparr>hd_header_crc32 := c\<rparr>"]) (use c assms in \<open>auto simp: sign_header_def signed_def header_std_def\<close>)
qed

lemma table_crc_defined: "table_wf ps \<Longrightarrow> \<exists>c. crc32 (table_bytes ps) 16384 = Some c"
  by (simp add: crc32_def table_wf_def length_table_bytes)

lemma length_header_sector: "header_std h \<Longrightarrow> length (header_sector h) = 512"
  by (simp add: header_sector_def length_header_bytes)

lemma header_sector_parse:
  assumes "header_std h"
  shows "header_of (buf_get 92 (header_sector h) 0) = h"
proof -
  have "buf_get 92 (header_sector h) 0 = header_bytes h"
    unfolding header_sector_def by (rule buf_get_put_same) (simp_all add: length_header_bytes[OF assms])
  then show ?thesis using header_roundtrip[of h "[]"] assms by (simp add: header_std_def gpt_signature_def)
qed

text \<open>Reading the table back, one sector of four entries at a time.\<close>

lemma read_entries_sector:
  assumes "table_wf ps" "i < 32" "length qs = 128" "sec = buf_get 512 (table_bytes ps) (i * 512)"
  shows "read_entries 128 (of_nat i * 4) 128 sec [0..<4] qs =
     Some (qs[4 * i := ps ! (4 * i), 4 * i + 1 := ps ! (4 * i + 1), 4 * i + 2 := ps ! (4 * i + 2), 4 * i + 3 := ps ! (4 * i + 3)])"
proof -
  have l: "length sec = 512" using length_table_sector[OF assms(1,2)] assms(4) by simp
  have m: "memcpy (replicate 128 0) 0 sec (j * 128) 128 = Some (part_bytes (ps ! (4 * i + j)))" if "j < 4" for j
  proof -
    have "part_wf (ps ! (4 * i + j))" using assms(1,2) that by (simp add: table_wf_def)
    then have "length (part_bytes (ps ! (4 * i + j))) = 128" by (rule length_part_bytes)
    then show ?thesis using sector_entry[OF assms(1,2) that] l that assms(4) by (simp add: buf_put_def)
  qed
  have p: "part_of (part_bytes (ps ! (4 * i + j))) = ps ! (4 * i + j)" if "j < 4" for j
    by (rule part_roundtrip) (use assms(1,2) that in \<open>simp add: table_wf_def\<close>)
  have u: "unat (of_nat i * 4 + of_nat j :: u32) = 4 * i + j" if "j < 4" for j
  proof -
    have "(of_nat i * 4 + of_nat j :: u32) = of_nat (4 * i + j)" by simp
    then show ?thesis using assms(2) that by (simp add: unat_of_nat del: of_nat_add of_nat_mult)
  qed
  have lt: "\<not> (128 :: u32) \<le> of_nat i * 4 + of_nat j" if "j < 4" for j
    using u[OF that] assms(2) that by (simp add: word_le_nat_alt)
  have "[0..<4] = [0, 1, 2, 3 :: nat]" by (simp add: upt_conv_Cons)
  then show ?thesis
    using m[of 0] m[of 1] m[of 2] m[of 3] p[of 0] p[of 1] p[of 2] p[of 3] u[of 0] u[of 1] u[of 2] u[of 3]
      lt[of 0] lt[of 1] lt[of 2] lt[of 3]
    by (simp add: Let_def)
qed

lemma sector_merge:
  assumes "length ps = 128" "length qs = 128" "i < 32"
  shows "(take (4 * i) ps @ drop (4 * i) qs)[4 * i := ps ! (4 * i), 4 * i + 1 := ps ! (4 * i + 1),
      4 * i + 2 := ps ! (4 * i + 2), 4 * i + 3 := ps ! (4 * i + 3)] = take (4 * Suc i) ps @ drop (4 * Suc i) qs"
  (is "?l = ?r")
proof (rule nth_equalityI)
  show "length ?l = length ?r" using assms by simp
  fix k assume "k < length ?l"
  then have k: "k < 128" using assms by simp
  consider "k < 4 * i" | "k = 4 * i" | "k = 4 * i + 1" | "k = 4 * i + 2" | "k = 4 * i + 3" | "4 * i + 4 \<le> k" by linarith
  then show "?l ! k = ?r ! k"
    using assms k by cases (auto simp: nth_append min_def)
qed

context block_device
begin

lemma read_table_run:
  assumes "dev_ok (gdisk s)" "length (gpt_sector_buffer s) = 512" "table_wf ps" "length qs = 128"
    "\<forall>i<32. sect (gdisk s) (2 + i) = buf_get 512 (table_bytes ps) (i * 512)" "{2..<34} \<subseteq> lbas"
    "g_partitions s = take (4 * k) ps @ drop (4 * k) qs" "k \<le> 32"
  shows "\<exists>t. read_table ops 2 128 128 [k..<32] s = Some (0, t) \<and> dev_ok (gdisk t) \<and> sect (gdisk t) = sect (gdisk s) \<and>
     g_partitions t = ps \<and> g_gpt_header t = g_gpt_header s \<and> length (gpt_sector_buffer t) = 512 \<and> guid_seed t = guid_seed s"
  using assms
proof (induction "32 - k" arbitrary: k s)
  case 0
  then have "k = 32" by simp
  with 0 show ?case by (simp add: table_wf_def)
next
  case (Suc n)
  then have k: "k < 32" by simp
  then have upt: "[k..<32] = k # [Suc k..<32]" by (simp add: upt_conv_Cons)
  have a: "unat (2 + of_nat k :: u64) = 2 + k"
    by (subst unat_add_nowrap) (use k in \<open>simp_all add: unat_of_nat\<close>)
  have "unat (2 + of_nat k :: u64) \<in> lbas" unfolding a using k Suc.prems(6) by auto
  then obtain d where d: "block_read_sector ops (2 + of_nat k) (gpt_sector_buffer s) (gdisk s) =
      (0, sect (gdisk s) (unat (2 + of_nat k :: u64)), d)" "dev_ok d" "sect d = sect (gdisk s)"
    by (rule read_sector[OF Suc.prems(1,2)])
  define sec where "sec = buf_get 512 (table_bytes ps) (k * 512)"
  have sec: "sect (gdisk s) (unat (2 + of_nat k :: u64)) = sec" unfolding a sec_def using Suc.prems(5) k by blast
  have lq: "length (g_partitions s) = 128" using Suc.prems(3,4,7,8) by (simp add: table_wf_def)
  let ?qs = "take (4 * Suc k) ps @ drop (4 * Suc k) qs"
  have "length ps = 128" using Suc.prems(3) by (simp add: table_wf_def)
  then have re: "read_entries 128 (of_nat k * 4) 128 sec [0..<4] (g_partitions s) = Some ?qs"
    using read_entries_sector[OF Suc.prems(3) k lq sec_def] sector_merge[OF _ Suc.prems(4) k] Suc.prems(7) by simp
  let ?s1 = "s\<lparr>gdisk := d, gpt_sector_buffer := sec, g_partitions := ?qs\<rparr>"
  have "\<exists>t. read_table ops 2 128 128 [Suc k..<32] ?s1 = Some (0, t) \<and> dev_ok (gdisk t) \<and> sect (gdisk t) = sect (gdisk ?s1) \<and>
     g_partitions t = ps \<and> g_gpt_header t = g_gpt_header ?s1 \<and> length (gpt_sector_buffer t) = 512 \<and> guid_seed t = guid_seed ?s1"
    by (rule Suc.hyps(1)) (use Suc.hyps(2) Suc.prems d(2,3) k length_table_sector[OF Suc.prems(3) k] sec_def in simp_all)
  moreover have "read_table ops 2 128 128 [k..<32] s = read_table ops 2 128 128 [Suc k..<32] ?s1"
    using d(1) re unfolding upt sec by (simp add: Let_def)
  ultimately show ?case using d(3) by simp
qed

lemma gpt_init_run:
  assumes "dev_ok (gdisk s)" "length (gpt_sector_buffer s) = 512" "length (g_partitions s) = 128"
    "gpt_stored sect (gdisk s) h ps" "header_std h" "signed h" "table_wf ps" "{1..<34} \<subseteq> lbas"
  shows "\<exists>t. gpt_init ops s = Some (0, t) \<and> gpt_inv dev_ok t \<and> g_gpt_header t = h \<and> g_partitions t = ps \<and>
     sect (gdisk t) = sect (gdisk s) \<and> guid_seed t = guid_seed s"
proof -
  have l1: "unat (1 :: u64) \<in> lbas" using assms(8) by auto
  obtain d where d: "block_read_sector ops 1 (gpt_sector_buffer s) (gdisk s) = (0, sect (gdisk s) (unat (1 :: u64)), d)"
    "dev_ok d" "sect d = sect (gdisk s)" by (rule read_sector[OF assms(1,2) l1])
  have s1: "sect (gdisk s) (unat (1 :: u64)) = header_sector h" using assms(4) by (simp add: gpt_stored_def)
  have H: "hd_signature h = gpt_signature" "hd_revision h = GPT_REVISION" "hd_header_size h = 92"
    "hd_partition_entries_lba h = 2" "hd_num_partition_entries h = 128" "hd_partition_entry_size h = 128"
    using assms(5) by (simp_all add: header_std_def)
  let ?s2 = "s\<lparr>gdisk := d, gpt_sector_buffer := header_sector h, g_gpt_header := h\<rparr>"
  have "\<exists>t. read_table ops 2 128 128 [0..<32] ?s2 = Some (0, t) \<and> dev_ok (gdisk t) \<and> sect (gdisk t) = sect (gdisk ?s2) \<and>
     g_partitions t = ps \<and> g_gpt_header t = g_gpt_header ?s2 \<and> length (gpt_sector_buffer t) = 512 \<and> guid_seed t = guid_seed ?s2"
    by (rule read_table_run[where qs = "g_partitions s"])
       (use assms d length_header_sector[OF assms(5)] in \<open>auto simp: gpt_stored_def\<close>)
  then obtain t where t: "read_table ops 2 128 128 [0..<32] ?s2 = Some (0, t)" "dev_ok (gdisk t)" "sect (gdisk t) = sect (gdisk s)"
     "g_partitions t = ps" "g_gpt_header t = h" "length (gpt_sector_buffer t) = 512" "guid_seed t = guid_seed s"
    using d(3) by auto
  have "gpt_init ops s = Some (0, t\<lparr>g_gpt_initialized := True\<rparr>)"
    using present[OF assms(1)] d(1) t(1) assms(6) H unfolding s1
    by (simp add: gpt_init_def Let_def header_sector_parse[OF assms(5)] signed_def)
  with t assms(5,7) show ?thesis by (auto simp: gpt_inv_def)
qed

lemma write_table_run:
  assumes "dev_ok (gdisk s)" "table_wf (g_partitions s)" "{2..<34} \<subseteq> lbas" "k \<le> 32" "length (gpt_sector_buffer s) = 512"
  shows "\<exists>t. write_table ops [k..<32] s = (0, t) \<and> dev_ok (gdisk t) \<and>
     sect (gdisk t) = (\<lambda>l. if 2 + k \<le> l \<and> l < 34 then buf_get 512 (table_bytes (g_partitions s)) ((l - 2) * 512) else sect (gdisk s) l) \<and>
     length (gpt_sector_buffer t) = 512 \<and> t = s\<lparr>gdisk := gdisk t, gpt_sector_buffer := gpt_sector_buffer t\<rparr>"
  using assms
proof (induction "32 - k" arbitrary: k s)
  case 0
  then have "k = 32" by simp
  with 0 show ?case by (auto simp: fun_eq_iff)
next
  case (Suc n)
  then have k: "k < 32" by simp
  then have upt: "[k..<32] = k # [Suc k..<32]" by (simp add: upt_conv_Cons)
  have a: "unat (2 + of_nat k :: u64) = 2 + k"
    by (subst unat_add_nowrap) (use k in \<open>simp_all add: unat_of_nat\<close>)
  define sec where "sec = buf_get 512 (table_bytes (g_partitions s)) (k * 512)"
  have ls: "length sec = 512" unfolding sec_def by (rule length_table_sector[OF Suc.prems(2) k])
  have "unat (2 + of_nat k :: u64) \<in> lbas" unfolding a using k Suc.prems(3) by auto
  then obtain d where d: "block_write_sector ops (2 + of_nat k) sec (gdisk s) = (0, d)" "dev_ok d"
    "sect d = (sect (gdisk s))(unat (2 + of_nat k :: u64) := sec)"
    by (rule write_sector[OF Suc.prems(1) ls])
  let ?s1 = "s\<lparr>gdisk := d, gpt_sector_buffer := sec\<rparr>"
  have "\<exists>t. write_table ops [Suc k..<32] ?s1 = (0, t) \<and> dev_ok (gdisk t) \<and>
     sect (gdisk t) = (\<lambda>l. if 2 + Suc k \<le> l \<and> l < 34 then buf_get 512 (table_bytes (g_partitions ?s1)) ((l - 2) * 512) else sect (gdisk ?s1) l) \<and>
     length (gpt_sector_buffer t) = 512 \<and> t = ?s1\<lparr>gdisk := gdisk t, gpt_sector_buffer := gpt_sector_buffer t\<rparr>"
    by (rule Suc.hyps(1)) (use Suc.hyps(2) Suc.prems d(2) k ls in simp_all)
  then obtain t where t: "write_table ops [Suc k..<32] ?s1 = (0, t)" "dev_ok (gdisk t)"
     "sect (gdisk t) = (\<lambda>l. if 2 + Suc k \<le> l \<and> l < 34 then buf_get 512 (table_bytes (g_partitions ?s1)) ((l - 2) * 512) else sect (gdisk ?s1) l)"
     "length (gpt_sector_buffer t) = 512" "t = ?s1\<lparr>gdisk := gdisk t, gpt_sector_buffer := gpt_sector_buffer t\<rparr>" by blast
  have "write_table ops [k..<32] s = (0, t)" using d(1) t(1) unfolding upt by (simp add: Let_def sec_def)
  moreover have "sect (gdisk t) = (\<lambda>l. if 2 + k \<le> l \<and> l < 34 then buf_get 512 (table_bytes (g_partitions s)) ((l - 2) * 512) else sect (gdisk s) l)"
    unfolding t(3) using k d(3) a by (auto simp: fun_eq_iff sec_def)
  moreover have "t = s\<lparr>gdisk := gdisk t, gpt_sector_buffer := gpt_sector_buffer t\<rparr>" using t(5) by (cases t) simp
  ultimately show ?case using t(2,4) by blast
qed

lemma store_table_run:
  assumes "gpt_inv dev_ok s" "{1..<34} \<subseteq> lbas"
  shows "\<exists>t. store_table ops s = Some (0, t) \<and> gpt_inv dev_ok t \<and> gpt_synced sect t \<and> g_partitions t = g_partitions s \<and>
     hd_first_usable_lba (g_gpt_header t) = hd_first_usable_lba (g_gpt_header s) \<and>
     hd_last_usable_lba (g_gpt_header t) = hd_last_usable_lba (g_gpt_header s) \<and>
     (\<forall>l. l \<notin> {1..<34} \<longrightarrow> sect (gdisk t) l = sect (gdisk s) l)"
proof -
  have I: "dev_ok (gdisk s)" "table_wf (g_partitions s)" "header_std (g_gpt_header s)" using assms(1) by (simp_all add: gpt_inv_def)
  obtain c where c: "crc32 (table_bytes (g_partitions s)) 16384 = Some c" using table_crc_defined[OF I(2)] by blast
  let ?h = "(g_gpt_header s)\<lparr>hd_partition_array_crc32 := c\<rparr>"
  have "header_std ?h" using I(3) by (simp add: header_std_def)
  then obtain h where h: "sign_header ?h = Some h" "h = ?h\<lparr>hd_header_crc32 := hd_header_crc32 h\<rparr>" "signed h" "header_std h"
    by (rule sign_header_signed)
  have l1: "unat (1 :: u64) \<in> lbas" using assms(2) by auto
  obtain d where d: "block_write_sector ops 1 (header_sector h) (gdisk s) = (0, d)" "dev_ok d"
    "sect d = (sect (gdisk s))(unat (1 :: u64) := header_sector h)"
    by (rule write_sector[OF I(1) length_header_sector[OF h(4)] l1])
  let ?s1 = "s\<lparr>gdisk := d, g_gpt_header := h, gpt_sector_buffer := header_sector h\<rparr>"
  have "\<exists>t. write_table ops [0..<32] ?s1 = (0, t) \<and> dev_ok (gdisk t) \<and>
     sect (gdisk t) = (\<lambda>l. if 2 + 0 \<le> l \<and> l < 34 then buf_get 512 (table_bytes (g_partitions ?s1)) ((l - 2) * 512) else sect (gdisk ?s1) l) \<and>
     length (gpt_sector_buffer t) = 512 \<and> t = ?s1\<lparr>gdisk := gdisk t, gpt_sector_buffer := gpt_sector_buffer t\<rparr>"
    by (rule write_table_run) (use d(2) I(2) assms(2) length_header_sector[OF h(4)] in auto)
  then obtain t where t: "write_table ops [0..<32] ?s1 = (0, t)" "dev_ok (gdisk t)"
     "sect (gdisk t) = (\<lambda>l. if 2 + 0 \<le> l \<and> l < 34 then buf_get 512 (table_bytes (g_partitions ?s1)) ((l - 2) * 512) else sect (gdisk ?s1) l)"
     "length (gpt_sector_buffer t) = 512" "t = ?s1\<lparr>gdisk := gdisk t, gpt_sector_buffer := gpt_sector_buffer t\<rparr>" by blast
  have F: "g_gpt_header t = h" "g_partitions t = g_partitions s" "g_gpt_initialized t = g_gpt_initialized s"
    using arg_cong[OF t(5), of g_gpt_header] arg_cong[OF t(5), of g_partitions] arg_cong[OF t(5), of g_gpt_initialized] by simp_all
  have ts: "table_sectors = 32" by (simp add: table_sectors_def)
  have "store_table ops s = Some (0, t)"
    using c h(1) d(1) t(1) by (simp add: store_table_def Let_def ts)
  moreover have "gpt_inv dev_ok t" using assms(1) t(2,4) F h(4) by (simp add: gpt_inv_def)
  moreover have "hd_partition_array_crc32 h = c" using arg_cong[OF h(2), of hd_partition_array_crc32] by simp
  then have "gpt_synced sect t"
    unfolding gpt_synced_def gpt_stored_def t(3) F using h(3) c d(3) by simp
  moreover have "hd_first_usable_lba h = hd_first_usable_lba (g_gpt_header s)" "hd_last_usable_lba h = hd_last_usable_lba (g_gpt_header s)"
    using arg_cong[OF h(2), of hd_first_usable_lba] arg_cong[OF h(2), of hd_last_usable_lba] by simp_all
  moreover have "\<forall>l. l \<notin> {1..<34} \<longrightarrow> sect (gdisk t) l = sect (gdisk s) l" unfolding t(3) using d(3) by auto
  ultimately show ?thesis using F by (intro exI[of _ t]) simp
qed

lemma synced_verify: "gpt_inv dev_ok s \<Longrightarrow> gpt_synced sect s \<Longrightarrow> gpt_verify s = Some 0"
  by (simp add: gpt_verify_def gpt_synced_def gpt_inv_def header_std_def signed_def Let_def)

lemma synced_reload:
  assumes "gpt_inv dev_ok t" "gpt_synced sect t" "{1..<34} \<subseteq> lbas"
    "gdisk u = gdisk t" "length (gpt_sector_buffer u) = 512" "length (g_partitions u) = 128"
  shows "\<exists>v. gpt_init ops u = Some (0, v) \<and> g_gpt_header v = g_gpt_header t \<and> g_partitions v = g_partitions t \<and> gpt_inv dev_ok v"
proof -
  have "dev_ok (gdisk u)" "header_std (g_gpt_header t)" "table_wf (g_partitions t)"
    "gpt_stored sect (gdisk u) (g_gpt_header t) (g_partitions t)" "signed (g_gpt_header t)"
    using assms by (simp_all add: gpt_inv_def gpt_synced_def)
  from gpt_init_run[OF this(1) assms(5,6) this(4,2,5,3) assms(3)] show ?thesis by blast
qed

end

subsection \<open>Names and GUIDs\<close>

lemma utf8_loop_run:
  assumes "0 \<notin> set n" "length n < m" "length buf = m" "i \<le> length n" "take i buf = map scast (take i n)"
  shows "utf8_loop n buf m i = (length n, map scast n @ drop (length n) buf)"
  using assms(3-5)
proof (induction "length n - i" arbitrary: i buf)
  case 0
  then have "i = length n" by simp
  then have "utf8_loop n buf m i = (i, buf)" by (subst utf8_loop.simps) (simp add: cchar_def)
  moreover have "take i buf @ drop i buf = map scast n @ drop (length n) buf" using 0 \<open>i = length n\<close> by simp
  ultimately show ?case using \<open>i = length n\<close> by simp
next
  case (Suc k)
  then have i: "i < length n" by simp
  let ?b = "buf[i := scast (n ! i)]"
  have "n ! i \<noteq> 0" using assms(1) i nth_mem by metis
  then have step: "utf8_loop n buf m i = utf8_loop n ?b m (Suc i)"
    using i assms(2) less_diff_conv[of i m 1] by (subst utf8_loop.simps) (simp add: cchar_def)
  have "utf8_loop n ?b m (Suc i) = (length n, map scast n @ drop (length n) ?b)"
    by (rule Suc.hyps(1))
       (use Suc i assms(2) in \<open>auto simp: take_Suc_conv_app_nth take_update_cancel\<close>)
  with step i show ?case by simp
qed

lemma utf16_loop_run:
  assumes "0 \<notin> set ws" "length ws < m - 1 \<or> length ws = m - 1" "i \<le> length ws"
  shows "utf16_loop (ws @ 0 # rest) m i (map ucast (take i ws)) = Some (map ucast ws)"
  using assms(3)
proof (induction "length ws - i" arbitrary: i)
  case 0
  then have "i = length ws" by simp
  then show ?case by (subst utf16_loop.simps) (simp add: nth_append)
next
  case (Suc k)
  then have i: "i < length ws" by simp
  then have nz: "ws ! i \<noteq> 0" using assms(1) nth_mem by metis
  have "utf16_loop (ws @ 0 # rest) m (Suc i) (map ucast (take (Suc i) ws)) = Some (map ucast ws)"
    by (rule Suc.hyps(1)) (use Suc i in auto)
  with i nz assms(2) show ?case
    by (subst utf16_loop.simps) (auto simp: nth_append take_Suc_conv_app_nth)
qed

lemma scast_ucast_byte: "ucast (scast (b :: u8) :: u16) = b"
  by (rule bit_word_eqI) (auto simp: bit_simps)

lemma scast_nonzero: "b \<noteq> 0 \<Longrightarrow> (scast (b :: u8) :: u16) \<noteq> 0"
  by (metis scast_ucast_byte ucast_0)

lemma name_roundtrip:
  assumes "0 \<notin> set n" "length n \<le> 35" "length old = 36"
  shows "utf16le_to_utf8 (utf8_to_utf16le n old 36) 73 = Some n"
proof -
  have loop: "utf8_loop n old 36 0 = (length n, map scast n @ drop (length n) old)"
    by (rule utf8_loop_run) (use assms in auto)
  have "drop (length n) old = old ! length n # drop (Suc (length n)) old"
    using assms(2,3) by (simp add: Cons_nth_drop_Suc)
  then have "utf8_to_utf16le n old 36 = map scast n @ 0 # drop (Suc (length n)) old"
    by (simp add: utf8_to_utf16le_def loop list_update_append)
  moreover have "0 \<notin> set (map scast n :: u16 list)" 
    using assms(1) scast_nonzero by (metis (no_types, lifting) imageE list.set_map)
  ultimately show ?thesis
    using utf16_loop_run[of "map scast n" 73 0 "drop (Suc (length n)) old"] assms(2)
    by (simp add: utf16le_to_utf8_def comp_def scast_ucast_byte)
qed

lemma length_utf8_loop: "length (snd (utf8_loop n buf m i)) = length buf"
  by (induction n buf m i rule: utf8_loop.induct) (subst utf8_loop.simps, simp)

lemma length_utf8_to_utf16le: "length (utf8_to_utf16le n old m) = length old"
  by (simp add: utf8_to_utf16le_def length_utf8_loop split: prod.splits) (metis length_utf8_loop snd_conv)

lemma length_guid_loop: "guid_loop n seed = (g, t) \<Longrightarrow> length g = n"
  by (induction n arbitrary: seed g t) (auto simp: Let_def split: prod.splits)

lemma length_generate_guid: "generate_guid seed = (g, t) \<Longrightarrow> length g = 16"
  by (auto simp: generate_guid_def dest: length_guid_loop split: prod.splits)

lemma generate_guid_v4: "generate_guid seed = (g, t) \<Longrightarrow> g ! 6 AND 0xF0 = 0x40 \<and> g ! 8 AND 0xC0 = 0x80"
proof -
  have a: "((x AND 0x0F) OR 0x40) AND 0xF0 = (0x40 :: u8)" "((x AND 0x3F) OR 0x80) AND 0xC0 = (0x80 :: u8)" for x
    by (simp_all add: bit.conj_disj_distrib2 and.assoc)
  assume "generate_guid seed = (g, t)"
  then show ?thesis by (auto simp: generate_guid_def a dest: length_guid_loop split: prod.splits)
qed

lemma free_index_some: "free_index ps is = Some k \<Longrightarrow> k \<in> set is \<and> pe_type_guid (ps ! k) = zero_guid"
  by (induction "is") (auto split: if_splits)

lemma table_wf_update: "table_wf ps \<Longrightarrow> part_wf e \<Longrightarrow> table_wf (ps[k := e])"
  by (auto simp: table_wf_def dest!: set_update_subset_insert[THEN subsetD])

lemma zero_entry_wf: "part_wf zero_entry"
  by (simp add: part_wf_def zero_entry_def)

subsection \<open>A concrete table\<close>

definition sample_gpt :: "(nat \<Rightarrow> bytes) gpt" where
  "sample_gpt = \<lparr>gdisk = (\<lambda>l. replicate 512 0), g_gpt_header = new_header 2048 (replicate 16 7) 0,
     g_partitions = replicate 128 zero_entry, g_gpt_initialized = True, gpt_sector_buffer = replicate 512 0,
     guid_seed = 0x12345678\<rparr>"

lemma sample_gpt_inv: "gpt_inv ram_ok sample_gpt"
  by (simp add: gpt_inv_def sample_gpt_def ram_ok_def header_std_def new_header_def table_wf_def zero_entry_wf)

lemma sample_gpt_free: "pe_type_guid (g_partitions sample_gpt ! 0) = zero_guid"
  by (simp add: sample_gpt_def zero_entry_def zero_guid_def)

text \<open>The same table with its first slot in use.\<close>

definition used_gpt :: "(nat \<Rightarrow> bytes) gpt" where
  "used_gpt = sample_gpt\<lparr>g_partitions := (replicate 128 zero_entry)[0 := zero_entry\<lparr>pe_type_guid := replicate 16 9\<rparr>]\<rparr>"

lemma used_gpt_inv: "gpt_inv ram_ok used_gpt"
proof -
  have "part_wf (zero_entry\<lparr>pe_type_guid := replicate 16 9\<rparr>)" by (simp add: part_wf_def zero_entry_def)
  moreover have "table_wf (replicate 128 zero_entry)" by (simp add: table_wf_def zero_entry_wf)
  ultimately have "table_wf ((replicate 128 zero_entry)[0 := zero_entry\<lparr>pe_type_guid := replicate 16 9\<rparr>])" by (intro table_wf_update)
  then show ?thesis using sample_gpt_inv unfolding gpt_inv_def used_gpt_def by simp
qed

lemma used_gpt_free: "pe_type_guid (g_partitions used_gpt ! 1) = zero_guid" "pe_type_guid (g_partitions used_gpt ! 0) = replicate 16 9"
  by (simp_all add: used_gpt_def zero_entry_def zero_guid_def)

lemma free_index_none: "free_index ps is = None \<longleftrightarrow> (\<forall>i\<in>set is. pe_type_guid (ps ! i) \<noteq> zero_guid)"
  by (induction "is") auto

lemma free_index_first:
  assumes "k < n" "pe_type_guid (ps ! k) = zero_guid" "\<forall>j<k. pe_type_guid (ps ! j) \<noteq> zero_guid"
  shows "free_index ps [0..<n] = Some k"
proof -
  have app: "free_index ps (xs @ ys) = (case free_index ps xs of None \<Rightarrow> free_index ps ys | Some i \<Rightarrow> Some i)" for xs ys
    by (induction xs) simp_all
  have "[0..<n] = [0..<k] @ k # [Suc k..<n]"
    using assms(1) upt_add_eq_append[of 0 k "n - k"] upt_conv_Cons[of k n] by simp
  moreover have "free_index ps [0..<k] = None" using assms(3) by (simp add: free_index_none)
  ultimately show ?thesis using assms(2) by (simp add: app)
qed

definition added_entry :: "'s gpt \<Rightarrow> u64 \<Rightarrow> u64 \<Rightarrow> bytes \<Rightarrow> bytes option \<Rightarrow> nat \<Rightarrow> gpt_partition_entry" where
  "added_entry s lo hi tg name k =
     \<lparr>pe_type_guid = tg, pe_partition_guid = fst (generate_guid (guid_seed s)), pe_first_lba = lo, pe_last_lba = hi,
      pe_attributes = 0, pe_name = (case name of Some n \<Rightarrow> utf8_to_utf16le n (pe_name (g_partitions s ! k)) 36
                                    | None \<Rightarrow> pe_name (g_partitions s ! k))\<rparr>"

lemma added_entry_wf:
  "part_wf (g_partitions s ! k) \<Longrightarrow> length tg = 16 \<Longrightarrow> part_wf (added_entry s lo hi tg name k)"
  by (cases "generate_guid (guid_seed s)")
     (simp add: added_entry_def part_wf_def length_utf8_to_utf16le length_generate_guid split: option.split)

lemma add_partition_run:
  assumes bd: "block_device ops sect dev_ok lbas" and inv: "gpt_inv dev_ok s" and lb: "{1..<34} \<subseteq> lbas"
    and free: "free_index (g_partitions s) [0..<128] = Some k"
    and range: "hd_first_usable_lba (g_gpt_header s) \<le> lo" "hi \<le> hd_last_usable_lba (g_gpt_header s)" "lo < hi"
    and tg: "length tg = 16"
  obtains t where "gpt_add_partition ops lo hi tg name s = Some (0, t)" "gpt_inv dev_ok t" "gpt_synced sect t"
    "g_partitions t = (g_partitions s)[k := added_entry s lo hi tg name k]" "k < 128"
    "\<forall>l. l \<notin> {1..<34} \<longrightarrow> sect (gdisk t) l = sect (gdisk s) l"
proof -
  let ?e = "added_entry s lo hi tg name k"
  let ?s = "s\<lparr>g_partitions := (g_partitions s)[k := ?e], guid_seed := snd (generate_guid (guid_seed s))\<rparr>"
  have k: "k < 128" using free_index_some[OF free] by simp
  have "part_wf (g_partitions s ! k)" using inv k by (simp add: gpt_inv_def table_wf_def)
  then have "part_wf ?e" by (rule added_entry_wf[OF _ tg])
  then have "gpt_inv dev_ok ?s" using inv by (simp add: gpt_inv_def table_wf_update)
  from block_device.store_table_run[OF bd this lb] obtain t where
    t: "store_table ops ?s = Some (0, t)" "gpt_inv dev_ok t" "gpt_synced sect t" "g_partitions t = (g_partitions s)[k := ?e]"
    "\<forall>l. l \<notin> {1..<34} \<longrightarrow> sect (gdisk t) l = sect (gdisk s) l" by auto
  have "gpt_add_partition ops lo hi tg name s = Some (0, t)"
    using t(1) inv free range tg
    by (simp add: gpt_add_partition_def gpt_inv_def Let_def not_less not_le added_entry_def buf_get_def case_prod_beta)
  with t k show thesis using that by blast
qed

lemma delete_partition_run:
  assumes bd: "block_device ops sect dev_ok lbas" and inv: "gpt_inv dev_ok s" and lb: "{1..<34} \<subseteq> lbas" and i: "i < 128"
  obtains t where "gpt_delete_partition ops i s = Some (0, t)" "gpt_inv dev_ok t" "gpt_synced sect t"
    "g_partitions t = (g_partitions s)[unat i := zero_entry]" "\<forall>l. l \<notin> {1..<34} \<longrightarrow> sect (gdisk t) l = sect (gdisk s) l"
proof -
  have "gpt_inv dev_ok (s\<lparr>g_partitions := (g_partitions s)[unat i := zero_entry]\<rparr>)"
    using inv by (simp add: gpt_inv_def table_wf_update zero_entry_wf)
  from block_device.store_table_run[OF bd this lb] obtain t where
    t: "store_table ops (s\<lparr>g_partitions := (g_partitions s)[unat i := zero_entry]\<rparr>) = Some (0, t)"
    "gpt_inv dev_ok t" "gpt_synced sect t" "g_partitions t = (g_partitions s)[unat i := zero_entry]"
    "\<forall>l. l \<notin> {1..<34} \<longrightarrow> sect (gdisk t) l = sect (gdisk s) l" by auto
  have "gpt_delete_partition ops i s = Some (0, t)"
    using t(1) inv i by (simp add: gpt_delete_partition_def gpt_inv_def not_le)
  with t show thesis using that by blast
qed

subsection \<open>Correctness of the operations\<close>

text \<open>
  C26 (equivalence).  The table-driven checksum of \<^verbatim>\<open>gpt.c\<close> is the CRC-32 obtained by dividing the message
  bit by bit by the reflected polynomial 0xEDB88320, for every message; every one of the 256 table
  entries is checked on the way.
\<close>

theorem crc32_is_polynomial_crc:
  "crc32 data n = (if n \<le> length data then Some (crc32_ref (take n data)) else None)"
  by (simp add: crc32_def crc32_ref_def crc_loop_ref)

text \<open>
  C11 (functional).  On a well-formed table whose slot \<open>k\<close> is the first with an all-zero type GUID, adding a
  partition inside the usable range succeeds: the entry takes slot \<open>k\<close> with the given type and bounds,
  the other 127 entries and every sector outside LBA 1 to 33 are unchanged, the checksums verify, and
  reading the disk back with \<^verbatim>\<open>gpt_init\<close> from any memory state reproduces the header and the whole table.
\<close>

theorem gpt_add_partition_stored:
  assumes bd: "block_device ops sect dev_ok lbas" and inv: "gpt_inv dev_ok s" and lb: "{1..<34} \<subseteq> lbas"
    and free: "k < 128" "pe_type_guid (g_partitions s ! k) = zero_guid" "\<forall>j<k. pe_type_guid (g_partitions s ! j) \<noteq> zero_guid"
    and range: "hd_first_usable_lba (g_gpt_header s) \<le> lo" "hi \<le> hd_last_usable_lba (g_gpt_header s)" "lo < hi"
    and tg: "length tg = 16"
  shows "\<exists>t. gpt_add_partition ops lo hi tg name s = Some (0, t) \<and> gpt_inv dev_ok t \<and> gpt_verify t = Some 0 \<and>
     (\<forall>j. j \<noteq> k \<longrightarrow> g_partitions t ! j = g_partitions s ! j) \<and>
     pe_type_guid (g_partitions t ! k) = tg \<and> pe_first_lba (g_partitions t ! k) = lo \<and> pe_last_lba (g_partitions t ! k) = hi \<and>
     (\<forall>l. l \<notin> {1..<34} \<longrightarrow> sect (gdisk t) l = sect (gdisk s) l) \<and>
     (\<forall>u. gdisk u = gdisk t \<and> length (gpt_sector_buffer u) = 512 \<and> length (g_partitions u) = 128 \<longrightarrow>
        (\<exists>v. gpt_init ops u = Some (0, v) \<and> g_gpt_header v = g_gpt_header t \<and> g_partitions v = g_partitions t))"
proof -
  obtain t where t: "gpt_add_partition ops lo hi tg name s = Some (0, t)" "gpt_inv dev_ok t" "gpt_synced sect t"
    "g_partitions t = (g_partitions s)[k := added_entry s lo hi tg name k]" "k < 128"
    "\<forall>l. l \<notin> {1..<34} \<longrightarrow> sect (gdisk t) l = sect (gdisk s) l"
    by (rule add_partition_run[OF bd inv lb free_index_first[OF free] range tg])
  have "length (g_partitions s) = 128" using inv by (simp add: gpt_inv_def table_wf_def)
  then have "pe_type_guid (g_partitions t ! k) = tg" "pe_first_lba (g_partitions t ! k) = lo"
    "pe_last_lba (g_partitions t ! k) = hi" "\<forall>j. j \<noteq> k \<longrightarrow> g_partitions t ! j = g_partitions s ! j"
    using t(4,5) by (simp_all add: added_entry_def)
  moreover have "\<exists>v. gpt_init ops u = Some (0, v) \<and> g_gpt_header v = g_gpt_header t \<and> g_partitions v = g_partitions t"
    if "gdisk u = gdisk t" "length (gpt_sector_buffer u) = 512" "length (g_partitions u) = 128" for u
    using block_device.synced_reload[OF bd t(2,3) lb that] by blast
  ultimately show ?thesis
    using t(1,2,6) block_device.synced_verify[OF bd t(2,3)] by blast
qed

lemma sample_gpt_range: "hd_first_usable_lba (g_gpt_header sample_gpt) = 34" "hd_last_usable_lba (g_gpt_header sample_gpt) = 2014"
  by (simp_all add: sample_gpt_def new_header_def)

theorem gpt_add_partition_stored_witness:
  "\<exists>t. gpt_add_partition ram_storage 100 200 (replicate 16 1) None used_gpt = Some (0, t) \<and>
     gpt_verify t = Some 0 \<and> pe_type_guid (g_partitions t ! 0) = replicate 16 9 \<and> pe_first_lba (g_partitions t ! 1) = 100"
proof -
  have r: "hd_first_usable_lba (g_gpt_header used_gpt) = 34" "hd_last_usable_lba (g_gpt_header used_gpt) = 2014"
    using sample_gpt_range by (simp_all add: used_gpt_def)
  have "(replicate 16 9 :: bytes) \<noteq> zero_guid" by (simp add: zero_guid_def)
  then have f: "\<forall>j<1. pe_type_guid (g_partitions used_gpt ! j) \<noteq> zero_guid" using used_gpt_free(2) by simp
  from gpt_add_partition_stored[OF ram_block_device used_gpt_inv _ _ used_gpt_free(1) f, of 100 200 "replicate 16 1" None]
  show ?thesis using r used_gpt_free(2) by auto
qed

text \<open>
  A partition added under a name of at most 35 non-zero bytes is what \<^verbatim>\<open>gpt_get_partition\<close>
  returns for its slot: the type, the bounds, a version 4 GUID and the name byte for byte.
\<close>

theorem gpt_add_get_partition:
  assumes bd: "block_device ops sect dev_ok lbas" and inv: "gpt_inv dev_ok s" and lb: "{1..<34} \<subseteq> lbas"
    and free: "k < 128" "pe_type_guid (g_partitions s ! k) = zero_guid" "\<forall>j<k. pe_type_guid (g_partitions s ! j) \<noteq> zero_guid"
    and range: "hd_first_usable_lba (g_gpt_header s) \<le> lo" "hi \<le> hd_last_usable_lba (g_gpt_header s)" "lo < hi"
    and tg: "length tg = 16" "tg \<noteq> zero_guid" and name: "0 \<notin> set name" "length name \<le> 35"
  shows "\<exists>t info. gpt_add_partition ops lo hi tg (Some name) s = Some (0, t) \<and>
     gpt_get_partition (of_nat k) t = Some (0, Some info) \<and> pi_type_guid info = tg \<and>
     pi_first_lba info = lo \<and> pi_last_lba info = hi \<and> pi_name info = name \<and>
     length (pi_partition_guid info) = 16 \<and> pi_partition_guid info ! 6 AND 0xF0 = 0x40 \<and>
     pi_partition_guid info ! 8 AND 0xC0 = 0x80"
proof -
  obtain t where t: "gpt_add_partition ops lo hi tg (Some name) s = Some (0, t)" "gpt_inv dev_ok t" "gpt_synced sect t"
    "g_partitions t = (g_partitions s)[k := added_entry s lo hi tg (Some name) k]" "k < 128"
    by (rule add_partition_run[OF bd inv lb free_index_first[OF free] range tg(1)])
  have ln: "length (g_partitions s) = 128" "length (pe_name (g_partitions s ! k)) = 36"
    using inv t(5) by (simp_all add: gpt_inv_def table_wf_def part_wf_def)
  have k: "unat (of_nat k :: u32) = k" "(of_nat k :: u32) < 128" using t(5) by (simp_all add: unat_of_nat word_less_nat_alt)
  have e: "g_partitions t ! k = added_entry s lo hi tg (Some name) k" using t(4,5) ln by simp
  have "g_gpt_initialized t" using t(2) by (simp add: gpt_inv_def)
  then have "gpt_get_partition (of_nat k) t = Some (0, Some \<lparr>pi_type_guid = tg, pi_partition_guid = fst (generate_guid (guid_seed s)),
      pi_first_lba = lo, pi_last_lba = hi, pi_attributes = 0, pi_name = name\<rparr>)"
    using k tg(2) name_roundtrip[OF name ln(2)] e by (simp add: gpt_get_partition_def not_le added_entry_def)
  moreover obtain g sd where "generate_guid (guid_seed s) = (g, sd)" by fastforce
  ultimately show ?thesis using t(1) generate_guid_v4 length_generate_guid by (intro exI[of _ t]) auto
qed

theorem gpt_add_get_partition_witness:
  "\<exists>t info. gpt_add_partition ram_storage 100 200 (replicate 16 1) (Some [0x72, 0x6F, 0x6F, 0x74]) sample_gpt = Some (0, t) \<and>
     gpt_get_partition (of_nat 0) t = Some (0, Some info) \<and> pi_name info = [0x72, 0x6F, 0x6F, 0x74]"
  using gpt_add_get_partition[OF ram_block_device sample_gpt_inv _ _ sample_gpt_free, of 100 200 "replicate 16 1" "[0x72, 0x6F, 0x6F, 0x74]"]
  by (auto simp: sample_gpt_range zero_guid_def)

text \<open>
  Adding a partition fails exactly when the table is full or the range leaves the usable area
  or is empty, and then nothing changes, in memory or on disk.
\<close>

theorem gpt_add_partition_rejects:
  assumes bd: "block_device ops sect dev_ok lbas" and inv: "gpt_inv dev_ok s" and lb: "{1..<34} \<subseteq> lbas"
    and tg: "length tg = 16"
  shows "gpt_add_partition ops lo hi tg name s = Some (-1, s) \<longleftrightarrow>
     (\<forall>i\<in>{..<128}. pe_type_guid (g_partitions s ! i) \<noteq> zero_guid) \<or> lo < hd_first_usable_lba (g_gpt_header s) \<or>
     hd_last_usable_lba (g_gpt_header s) < hi \<or> hi \<le> lo"
    (is "?l \<longleftrightarrow> ?r")
proof
  have full: "(\<forall>i\<in>{..<128}. pe_type_guid (g_partitions s ! i) \<noteq> zero_guid) \<longleftrightarrow> free_index (g_partitions s) [0..<128] = None"
    by (simp add: free_index_none atLeast0LessThan)
  assume ?r
  then show ?l unfolding full using inv by (auto simp: gpt_add_partition_def gpt_inv_def split: option.splits)
next
  assume l: ?l
  show ?r
  proof (rule ccontr)
    assume n: "\<not> ?r"
    then have "free_index (g_partitions s) [0..<128] \<noteq> None" by (auto simp: free_index_none)
    then obtain k where k: "free_index (g_partitions s) [0..<128] = Some k" by blast
    have r: "hd_first_usable_lba (g_gpt_header s) \<le> lo" "hi \<le> hd_last_usable_lba (g_gpt_header s)" "lo < hi"
      using n by (simp_all add: not_less not_le)
    obtain t where "gpt_add_partition ops lo hi tg name s = Some (0, t)"
      by (rule add_partition_run[OF bd inv lb k r tg])
    with l show False by simp
  qed
qed

theorem gpt_add_partition_rejects_witness:
  "gpt_add_partition ram_storage 20 200 (replicate 16 1) None sample_gpt = Some (-1, sample_gpt)"
  by (subst gpt_add_partition_rejects[OF ram_block_device sample_gpt_inv]) (auto simp: sample_gpt_range)

text \<open>
  Deleting a partition clears exactly its slot: \<^verbatim>\<open>gpt_get_partition\<close> refuses it afterwards and
  answers as before for every other index, the checksums verify, and the disk reloads to the same table.
\<close>

theorem gpt_delete_partition_clears:
  assumes bd: "block_device ops sect dev_ok lbas" and inv: "gpt_inv dev_ok s" and lb: "{1..<34} \<subseteq> lbas" and i: "i < 128"
  shows "\<exists>t. gpt_delete_partition ops i s = Some (0, t) \<and> gpt_inv dev_ok t \<and> gpt_verify t = Some 0 \<and>
     gpt_get_partition i t = Some (-1, None) \<and>
     (\<forall>j. j \<noteq> i \<longrightarrow> gpt_get_partition j t = gpt_get_partition j s) \<and>
     (\<forall>l. l \<notin> {1..<34} \<longrightarrow> sect (gdisk t) l = sect (gdisk s) l) \<and>
     (\<forall>u. gdisk u = gdisk t \<and> length (gpt_sector_buffer u) = 512 \<and> length (g_partitions u) = 128 \<longrightarrow>
        (\<exists>v. gpt_init ops u = Some (0, v) \<and> g_partitions v = g_partitions t))"
proof -
  obtain t where t: "gpt_delete_partition ops i s = Some (0, t)" "gpt_inv dev_ok t" "gpt_synced sect t"
    "g_partitions t = (g_partitions s)[unat i := zero_entry]" "\<forall>l. l \<notin> {1..<34} \<longrightarrow> sect (gdisk t) l = sect (gdisk s) l"
    by (rule delete_partition_run[OF bd inv lb i])
  have I: "length (g_partitions s) = 128" "g_gpt_initialized s" "g_gpt_initialized t"
    using inv t(2) by (simp_all add: gpt_inv_def table_wf_def)
  have "unat i < 128" using i by (simp add: word_less_nat_alt)
  then have "gpt_get_partition i t = Some (-1, None)"
    using t(4) I by (simp add: gpt_get_partition_def zero_entry_def zero_guid_def)
  moreover have "gpt_get_partition j t = gpt_get_partition j s" if "j \<noteq> i" for j
  proof -
    have "unat j \<noteq> unat i" using that by (metis unsigned_word_eqI)
    then show ?thesis using t(4) I by (simp add: gpt_get_partition_def)
  qed
  moreover have "\<exists>v. gpt_init ops u = Some (0, v) \<and> g_partitions v = g_partitions t"
    if "gdisk u = gdisk t" "length (gpt_sector_buffer u) = 512" "length (g_partitions u) = 128" for u
    using block_device.synced_reload[OF bd t(2,3) lb that] by blast
  ultimately show ?thesis using t(1,2,5) block_device.synced_verify[OF bd t(2,3)] by blast
qed

theorem gpt_delete_partition_clears_witness:
  "\<exists>t. gpt_delete_partition ram_storage 3 sample_gpt = Some (0, t) \<and> gpt_verify t = Some 0 \<and>
     gpt_get_partition 3 t = Some (-1, None)"
  using gpt_delete_partition_clears[OF ram_block_device sample_gpt_inv, of 3] by auto

subsection \<open>Creating a table\<close>

lemma zero_table_wf: "table_wf (replicate 128 zero_entry)"
  by (simp add: table_wf_def zero_entry_wf)

lemma length_mbr_sector: "length (mbr_sector n) = 512"
  by (simp add: mbr_sector_def Let_def)

lemma create_run:
  assumes bd: "block_device ops sect dev_ok lbas" and ok: "dev_ok (gdisk s)" and lb: "{0..<34} \<subseteq> lbas"
    "unat (total_sectors - 1) \<in> lbas" "35 \<le> total_sectors" and g: "length g = 16"
  obtains t h c where "gpt_create_table ops total_sectors (Some g) s = Some (0, t)" "dev_ok (gdisk t)"
    "crc32 (table_bytes (replicate 128 zero_entry)) 16384 = Some c"
    "sign_header (new_header total_sectors g c) = Some h" "signed h" "header_std h"
    "h = (new_header total_sectors g c)\<lparr>hd_header_crc32 := hd_header_crc32 h\<rparr>"
    "gpt_stored sect (gdisk t) h (replicate 128 zero_entry)" "sect (gdisk t) 0 = mbr_sector total_sectors"
    "sign_header (h\<lparr>hd_current_lba := total_sectors - 1, hd_backup_lba := 1, hd_partition_entries_lba := total_sectors - 33\<rparr>) =
       Some ((g_gpt_header t)\<lparr>hd_current_lba := total_sectors - 1, hd_backup_lba := 1, hd_partition_entries_lba := total_sectors - 33\<rparr>)"
    "g_partitions t = replicate 128 zero_entry" "g_gpt_initialized t"
    "hd_current_lba (g_gpt_header t) = 1" "hd_backup_lba (g_gpt_header t) = total_sectors - 1" "hd_partition_entries_lba (g_gpt_header t) = 2"
proof -
  have z: "unat (0 :: u64) \<in> lbas" "unat (1 :: u64) \<in> lbas" using lb(1) by auto
  obtain d where d: "block_write_sector ops 0 (mbr_sector total_sectors) (gdisk s) = (0, d)" "dev_ok d"
    "sect d = (sect (gdisk s))(unat (0 :: u64) := mbr_sector total_sectors)"
    by (rule block_device.write_sector[OF bd ok length_mbr_sector z(1)])
  obtain c where c: "crc32 (table_bytes (replicate 128 zero_entry)) 16384 = Some c"
    using table_crc_defined[OF zero_table_wf] by blast
  let ?h = "new_header total_sectors g c"
  have "header_std ?h" using g by (simp add: header_std_def new_header_def)
  then obtain h where h: "sign_header ?h = Some h" "h = ?h\<lparr>hd_header_crc32 := hd_header_crc32 h\<rparr>" "signed h" "header_std h"
    by (rule sign_header_signed)
  obtain d1 where d1: "block_write_sector ops 1 (header_sector h) d = (0, d1)" "dev_ok d1"
    "sect d1 = (sect d)(unat (1 :: u64) := header_sector h)"
    by (rule block_device.write_sector[OF bd d(2) length_header_sector[OF h(4)] z(2)])
  let ?s3 = "s\<lparr>g_partitions := replicate 128 zero_entry, gdisk := d1, g_gpt_header := h, gpt_sector_buffer := header_sector h\<rparr>"
  have "\<exists>t. write_table ops [0..<32] ?s3 = (0, t) \<and> dev_ok (gdisk t) \<and>
     sect (gdisk t) = (\<lambda>l. if 2 + 0 \<le> l \<and> l < 34 then buf_get 512 (table_bytes (g_partitions ?s3)) ((l - 2) * 512) else sect (gdisk ?s3) l) \<and>
     length (gpt_sector_buffer t) = 512 \<and> t = ?s3\<lparr>gdisk := gdisk t, gpt_sector_buffer := gpt_sector_buffer t\<rparr>"
    by (rule block_device.write_table_run[OF bd]) (use d1(2) zero_table_wf lb(1) length_header_sector[OF h(4)] in auto)
  then obtain t where t: "write_table ops [0..<32] ?s3 = (0, t)" "dev_ok (gdisk t)"
     "sect (gdisk t) = (\<lambda>l. if 2 + 0 \<le> l \<and> l < 34 then buf_get 512 (table_bytes (g_partitions ?s3)) ((l - 2) * 512) else sect (gdisk ?s3) l)"
     "t = ?s3\<lparr>gdisk := gdisk t, gpt_sector_buffer := gpt_sector_buffer t\<rparr>" by blast
  let ?hb = "h\<lparr>hd_current_lba := total_sectors - 1, hd_backup_lba := 1, hd_partition_entries_lba := total_sectors - 33\<rparr>"
  have lhb: "length (header_bytes (x\<lparr>hd_header_crc32 := y\<rparr>)) = length (header_bytes x)" for x y by (simp add: header_bytes_def)
  have "length (header_bytes ?hb) = length (header_bytes h)" by (simp add: header_bytes_def)
  then have lb92: "length (header_bytes (?hb\<lparr>hd_header_crc32 := y\<rparr>)) = 92" for y
    unfolding lhb using length_header_bytes[OF h(4)] by simp
  then obtain cb where hb: "sign_header ?hb = Some (?hb\<lparr>hd_header_crc32 := cb\<rparr>)"
    by (fastforce simp: sign_header_def crc32_def Let_def)
  let ?b = "?hb\<lparr>hd_header_crc32 := cb\<rparr>"
  have "length (header_sector ?b) = 512" using lb92[of cb] by (simp add: header_sector_def buf_put_def)
  then obtain d3 where d3: "block_write_sector ops (total_sectors - 1) (header_sector ?b) (gdisk t) = (0, d3)" "dev_ok d3"
    "sect d3 = (sect (gdisk t))(unat (total_sectors - 1) := header_sector ?b)"
    by (rule block_device.write_sector[OF bd t(2) _ lb(2)])
  let ?r = "t\<lparr>gdisk := d3, gpt_sector_buffer := header_sector ?b,
     g_gpt_header := ?b\<lparr>hd_current_lba := 1, hd_backup_lba := total_sectors - 1, hd_partition_entries_lba := 2\<rparr>, g_gpt_initialized := True\<rparr>"
  have ts: "table_sectors = 32" by (simp add: table_sectors_def)
  have F: "g_partitions t = replicate 128 zero_entry" using arg_cong[OF t(4), of g_partitions] by simp
  have "buf_get 16 g 0 = g" using g by (simp add: buf_get_def)
  then have run: "gpt_create_table ops total_sectors (Some g) s = Some (0, ?r)"
    using block_device.present[OF bd ok] d(1) c h(1) d1(1) t(1) hb d3(1)
    by (simp add: gpt_create_table_def Let_def ts)
  have "34 \<le> unat (total_sectors - 1)"
  proof -
    have le: "1 \<le> total_sectors" using lb(3) by (rule order_trans[rotated]) simp
    have "35 \<le> unat total_sectors" using lb(3) by (simp add: word_le_nat_alt)
    then show ?thesis using unat_sub[OF le] by simp
  qed
  then have st: "gpt_stored sect (gdisk ?r) h (replicate 128 zero_entry)" and m: "sect (gdisk ?r) 0 = mbr_sector total_sectors"
    using t(3) d1(3) d(3) d3(3) by (simp_all add: gpt_stored_def)
  have std: "?b = (g_gpt_header ?r)\<lparr>hd_current_lba := total_sectors - 1, hd_backup_lba := 1, hd_partition_entries_lba := total_sectors - 33\<rparr>"
    by simp
  show thesis
    by (rule that[OF run _ c h(1,3,4,2) st m]) (use hb d3(2) F std in simp_all)
qed

text \<open>
  C25 (roundtrip).  A table created on a disk of at least 35 sectors is read back by \<^verbatim>\<open>gpt_init\<close> from any memory
  state: no partition, the given disk GUID, the usable range 34 to total - 34, checksums that
  verify, and a protective master boot record in sector 0.
\<close>

theorem gpt_create_init_roundtrip:
  assumes bd: "block_device ops sect dev_ok lbas" and ok: "dev_ok (gdisk s)" and lb: "{0..<34} \<subseteq> lbas"
    "unat (total_sectors - 1) \<in> lbas" "35 \<le> total_sectors" and g: "length g = 16"
  shows "\<exists>t. gpt_create_table ops total_sectors (Some g) s = Some (0, t) \<and> sect (gdisk t) 0 = mbr_sector total_sectors \<and>
     (\<forall>u. gdisk u = gdisk t \<and> length (gpt_sector_buffer u) = 512 \<and> length (g_partitions u) = 128 \<longrightarrow>
        (\<exists>v. gpt_init ops u = Some (0, v) \<and> gpt_inv dev_ok v \<and> gpt_verify v = Some 0 \<and>
           g_partitions v = replicate 128 zero_entry \<and> hd_disk_guid (g_gpt_header v) = g \<and>
           hd_first_usable_lba (g_gpt_header v) = 34 \<and> hd_last_usable_lba (g_gpt_header v) = total_sectors - 34))"
proof -
  obtain t h c where t: "gpt_create_table ops total_sectors (Some g) s = Some (0, t)" "dev_ok (gdisk t)"
    "crc32 (table_bytes (replicate 128 zero_entry)) 16384 = Some c" "signed h" "header_std h"
    "h = (new_header total_sectors g c)\<lparr>hd_header_crc32 := hd_header_crc32 h\<rparr>"
    "gpt_stored sect (gdisk t) h (replicate 128 zero_entry)" "sect (gdisk t) 0 = mbr_sector total_sectors"
    by (rule create_run[OF bd ok lb g])
  have H: "hd_disk_guid h = g" "hd_first_usable_lba h = 34" "hd_last_usable_lba h = total_sectors - 34" "hd_partition_array_crc32 h = c"
    by (subst t(6), simp add: new_header_def)+
  have "\<exists>v. gpt_init ops u = Some (0, v) \<and> gpt_inv dev_ok v \<and> gpt_verify v = Some 0 \<and>
           g_partitions v = replicate 128 zero_entry \<and> hd_disk_guid (g_gpt_header v) = g \<and>
           hd_first_usable_lba (g_gpt_header v) = 34 \<and> hd_last_usable_lba (g_gpt_header v) = total_sectors - 34"
    if u: "gdisk u = gdisk t" "length (gpt_sector_buffer u) = 512" "length (g_partitions u) = 128" for u
  proof -
    have "dev_ok (gdisk u)" "gpt_stored sect (gdisk u) h (replicate 128 zero_entry)" using u(1) t(2,7) by simp_all
    moreover have "{1..<34} \<subseteq> lbas" using lb(1) by auto
    ultimately obtain v where
      v: "gpt_init ops u = Some (0, v)" "gpt_inv dev_ok v" "g_gpt_header v = h" "g_partitions v = replicate 128 zero_entry"
        "sect (gdisk v) = sect (gdisk u)"
      using block_device.gpt_init_run[OF bd _ u(2,3) _ t(5,4) zero_table_wf] by blast
    have "gpt_synced sect v"
      using v(3-5) u(1) t(3,4,7) H(4) by (simp add: gpt_synced_def gpt_stored_def)
    from block_device.synced_verify[OF bd v(2) this] v H show ?thesis by blast
  qed
  with t(1,8) show ?thesis by blast
qed

theorem gpt_create_init_roundtrip_witness:
  "\<exists>t. gpt_create_table ram_storage 2048 (Some (replicate 16 7)) sample_gpt = Some (0, t) \<and> gdisk t 0 = mbr_sector 2048"
  using gpt_create_init_roundtrip[OF ram_block_device, of sample_gpt 2048 "replicate 16 7"] sample_gpt_inv
  by (auto simp: gpt_inv_def)

end
