(* ===== verification/Gpt_Residue.thy ===== *)
theory Gpt_Residue
  imports Crc32
begin

text \<open>
  When two messages that differ in a few words have the same CRC-32.  The checksum is affine in the
  message, so two GPT headers have one checksum exactly when the remainder of their difference is
  zero.  The difference between the primary and the backup header of a disk holds \<open>1 XOR w\<close> at the two
  header addresses and \<open>2 XOR (w - 32)\<close> at the table address, \<open>w\<close> the last sector.  As a linear map on
  32-bit words the remainder is invertible, so for each position of the borrow in \<open>w - 32\<close> there is one
  candidate \<open>w\<close>; of the 27 candidates two have their borrow at that position.
\<close>

unbundle bit_operations_syntax

lemma crc_byte_steps: "crc_byte c b = (crc_step ^^ 8) (c XOR ucast b)"
  by (simp add: crc_byte_ref crc_ref_byte_def)

lemma crc_loop_append: "crc_loop (xs @ ys) c = crc_loop ys (crc_loop xs c)"
  by (induction xs arbitrary: c) simp_all

lemma steps_add: "(crc_step ^^ m) ((crc_step ^^ n) c) = (crc_step ^^ (m + n)) c"
  by (simp add: funpow_add)

lemma crc_loop_zeros: "crc_loop (replicate k 0) c = (crc_step ^^ (8 * k)) c"
  by (induction k arbitrary: c) (simp_all add: crc_byte_steps steps_add add.commute)

lemma crc_loop_word:
  fixes w :: u32
  shows "(\<And>i. 8 * n \<le> i \<Longrightarrow> \<not> bit w i) \<Longrightarrow> crc_loop (to_le n w) c = (crc_step ^^ (8 * n)) (c XOR w)"
proof (induction n arbitrary: w c)
  case 0
  have "w = 0" by (rule bit_word_eqI) (use 0 in simp)
  then show ?case by simp
next
  case (Suc n)
  have "\<not> bit (drop_bit 8 w) i" if "8 * n \<le> i" for i
    unfolding bit_drop_bit_eq o_def by (rule Suc.prems) (use that in simp)
  note IH = Suc.IH[OF this]
  have hi: "(crc_step ^^ 8) (w AND NOT (mask 8)) = drop_bit 8 w"
  proof (subst crc_steps_high)
    show "drop_bit 8 (w AND NOT (mask 8)) = drop_bit 8 w"
      by (rule bit_word_eqI) (auto simp: bit_simps dest: bit_imp_le_length)
  qed (auto simp: bit_simps)
  have lo: "ucast (ucast w :: u8) = w AND mask 8"
    by (rule bit_word_eqI) (auto simp: bit_simps)
  have split: "c XOR w = (c XOR (w AND mask 8)) XOR (w AND NOT (mask 8))"
    by (rule bit_word_eqI) (auto simp: bit_simps)
  have "crc_byte c (ucast w) XOR drop_bit 8 w = (crc_step ^^ 8) (c XOR w)"
    unfolding split crc_steps_xor hi crc_byte_steps lo ..
  then show ?case by (simp add: IH steps_add ac_simps)
qed

lemma residue_zero: "(crc_step ^^ n) 0 = 0"
  by (induction n) (simp_all add: crc_step_def)

text \<open>The remainder of a message that holds \<open>d\<close> at the two sector numbers of a header and \<open>e\<close> at the
  address of the table, and zeros elsewhere.\<close>

definition header_residue :: "u32 \<Rightarrow> u32 \<Rightarrow> u32" where
  "header_residue d e = (crc_step ^^ 544) d XOR (crc_step ^^ 480) d XOR (crc_step ^^ 160) e"

lemma to_le_8_small:
  assumes "unat (x :: u64) < 2 ^ 32"
  shows "to_le 8 x = to_le 4 (ucast x :: u32) @ replicate 4 0"
proof (rule nth_equalityI)
  fix i assume "i < length (to_le 8 x)"
  then have i: "i < 8" by simp
  have "x = take_bit 32 x" using assms by (simp add: word_unat_eq_iff unsigned_take_bit_eq take_bit_nat_eq_self)
  then have z: "\<not> bit x k" if "32 \<le> k" for k using that by (metis bit_take_bit_iff not_less)
  show "to_le 8 x ! i = (to_le 4 (ucast x :: u32) @ replicate 4 0) ! i"
    by (rule bit_word_eqI) (use i z in \<open>auto simp: nth_append bit_nth_to_le bit_simps\<close>)
qed simp

lemma header_residue:
  assumes "unat (d :: u64) < 2 ^ 32" "unat (e :: u64) < 2 ^ 32"
  shows "crc_loop (replicate 24 0 @ (to_le 8 d @ to_le 8 d) @ replicate 32 0 @ to_le 8 e @ replicate 12 0) 0 =
    header_residue (ucast d) (ucast e)"
proof -
  have w: "crc_loop (to_le 4 v) c = (crc_step ^^ 32) (c XOR v)" for v c
    by (subst crc_loop_word) (auto dest: bit_imp_le_length)
  show ?thesis
    unfolding to_le_8_small[OF assms(1)] to_le_8_small[OF assms(2)] crc_loop_append crc_loop_zeros w
    by (simp add: crc_steps_xor steps_add residue_zero header_residue_def ac_simps)
qed

lemmas crc_compute = crc_byte_ref crc_ref_byte_def crc_step_8 crc_step_def

fun columns_sum :: "u32 list \<Rightarrow> u32 \<Rightarrow> u32" where
  "columns_sum [] w = 0"
| "columns_sum (c # cs) w = (if bit w 0 then c else 0) XOR columns_sum cs (drop_bit 1 w)"

lemma columns_sum_xor: "columns_sum cs (v XOR w) = columns_sum cs v XOR columns_sum cs w"
  by (induction cs arbitrary: v w) (auto simp: bit_simps drop_bit_xor ac_simps xor_self_left)

definition residue_inverse :: "u32 list" where
  "residue_inverse = [0xF6D9E6D, 0x1EDB3CDA, 0x3DB679B4, 0x7B6CF368, 0xF6D9E6D0, 0x36C2CBE1, 0x6D8597C2, 0xDB0B2F84,
     0x6D675949, 0xDACEB292, 0x6EEC6365, 0xDDD8C6CA, 0x60C08BD5, 0xC18117AA, 0x58732915, 0xB0E6522A,
     0xBABDA215, 0xAE0A426B, 0x87658297, 0xD5BA036F, 0x7005009F, 0xE00A013E, 0x1B65043D, 0x36CA087A,
     0x6D9410F4, 0xDB2821E8, 0x6D214591, 0xDA428B22, 0x6FF41005, 0xDFE8200A, 0x64A14655, 0xC9428CAA]"

lemma zeros_20: "(crc_step ^^ 160) c = crc_loop [0, 0, 0, 0, 0, 0, 0, 0, 0, 0, 0, 0, 0, 0, 0, 0, 0, 0, 0, 0] c"
proof -
  have "replicate 20 0 = [0, 0, 0, 0, 0, 0, 0, 0, 0, 0, 0, 0, 0, 0, 0, 0, 0, 0, 0, 0 :: u8]" by (simp add: numeral_eq_Suc)
  then show ?thesis using crc_loop_zeros[of 20 c] by simp
qed

lemma steps_160: "(crc_step ^^ 160) 0x80000000 = 0xBA8CCBE8"
  unfolding zeros_20 by (simp add: crc_compute)

lemma steps_480: "(crc_step ^^ 480) 0x80000000 = 0xE3720ACB"
proof -
  have "(crc_step ^^ 480) 0x80000000 = (crc_step ^^ 160) ((crc_step ^^ 160) 0xBA8CCBE8)" unfolding steps_160[symmetric] steps_add by simp
  also have "\<dots> = 0xE3720ACB" unfolding zeros_20 by (simp add: crc_compute)
  finally show ?thesis .
qed

lemma header_residue_xor: "header_residue (d XOR d') (e XOR e') = header_residue d e XOR header_residue d' e'"
  by (simp add: header_residue_def crc_steps_xor ac_simps)

lemma header_residue_step: "crc_step (header_residue w w) = header_residue (crc_step w) (crc_step w)"
  by (simp add: header_residue_def crc_step_xor funpow_swap1)

lemma residue_top: "header_residue 0x80000000 0x80000000 = 0xF3DCD4C9"
proof -
  have "(crc_step ^^ 544) 0x80000000 = (crc_step ^^ 64) (0xE3720ACB)" unfolding steps_480[symmetric] steps_add by simp
  also have "\<dots> = crc_loop [0, 0, 0, 0, 0, 0, 0, 0] 0xE3720ACB"
    using crc_loop_zeros[of 8 "0xE3720ACB"] by (simp add: numeral_eq_Suc)
  also have "\<dots> = 0xAA2215EA" by (simp add: crc_compute)
  finally show ?thesis by (simp add: header_residue_def steps_160 steps_480)
qed

lemma unit_step: "crc_step (push_bit (Suc i) 1) = push_bit i 1" if "i < 31"
proof -
  have "\<not> bit (push_bit (Suc i) 1 :: u32) 0" by (simp add: bit_simps)
  then show ?thesis using that by (auto simp: crc_step_def bit_simps intro!: bit_word_eqI)
qed

lemma xor_bits:
  assumes f: "\<And>v w :: u32. f (v XOR w) = (f v XOR f w :: u32)" and g: "\<And>v w. g (v XOR w) = (g v XOR g w)"
    and u: "\<And>i. i < 32 \<Longrightarrow> f (push_bit i 1) = g (push_bit i 1)"
  shows "f w = g w"
proof -
  have z: "f 0 = 0" "g 0 = 0" using f[of 0 0] g[of 0 0] by simp_all
  have "f (take_bit n w) = g (take_bit n w)" if "n \<le> 32" for n
    using that
  proof (induction n)
    case 0
    then show ?case by (simp add: z)
  next
    case (Suc n)
    have "take_bit (Suc n) w = (if bit w n then push_bit n 1 else 0) XOR take_bit n w"
      by (rule bit_word_eqI) (auto simp: bit_simps less_Suc_eq)
    then show ?case using Suc u[of n] z by (simp add: f g)
  qed
  moreover have "take_bit 32 w = w" by (rule bit_word_eqI) (simp add: bit_simps)
  ultimately show ?thesis by (metis order_refl)
qed

definition residue_columns :: "u32 list" where
  "residue_columns =
    [0xCA892DEB, 0x4E635D97, 0x9CC6BB2E, 0xE2FC701D, 0x1E89E67B, 0x3D13CCF6, 0x7A2799EC, 0xF44F33D8,
     0x33EF61F1, 0x67DEC3E2, 0xCFBD87C4, 0x440A09C9, 0x88141392, 0xCB592165, 0x4DC3448B, 0x9B868916,
     0xEC7C146D, 0x3892E9B, 0x7125D36, 0xE24BA6C, 0x1C4974D8, 0x3892E9B0, 0x7125D360, 0xE24BA6C0,
     0x1FE64BC1, 0x3FCC9782, 0x7F992F04, 0xFF325E08, 0x2515BA51, 0x4A2B74A2, 0x9456E944, 0xF3DCD4C9]"

definition steps_columns :: "u32 list" where
  "steps_columns =
    [0x65673B46, 0xCACE768C, 0x4EEDEB59, 0x9DDBD6B2, 0xE0C6AB25, 0x1AFC500B, 0x35F8A016, 0x6BF1402C,
     0xD7E28058, 0x74B406F1, 0xE9680DE2, 0x9A11D85, 0x13423B0A, 0x26847614, 0x4D08EC28, 0x9A11D850,
     0xEF52B6E1, 0x5D46B83, 0xBA8D706, 0x1751AE0C, 0x2EA35C18, 0x5D46B830, 0xBA8D7060, 0xAE6BE681,
     0x87A6CB43, 0xD43C90C7, 0x730827CF, 0xE6104F9E, 0x1751997D, 0x2EA332FA, 0x5D4665F4, 0xBA8CCBE8]"

text \<open>A linear map that commutes with the division step is given by its value at the highest bit.\<close>

lemma chain_columns:
  assumes f: "\<And>w. f (crc_step w) = crc_step (f w)" and cs: "map crc_step (tl cs) = butlast cs" "length cs = 32"
    and top: "f 0x80000000 = cs ! 31"
  shows "i < 32 \<Longrightarrow> f (push_bit i 1) = cs ! i"
proof (induction "31 - i" arbitrary: i)
  case 0
  then have "i = 31" by simp
  then show ?case using top by simp
next
  case (Suc n)
  then have i: "i < 31" by simp
  have "crc_step (cs ! Suc i) = cs ! i"
    using arg_cong[OF cs(1), of "\<lambda>xs. xs ! i"] i cs(2) by (simp add: nth_tl nth_butlast)
  moreover have "f (push_bit (Suc i) 1) = cs ! Suc i"
    by (rule Suc.hyps(1)) (use Suc.hyps(2) i in simp_all)
  ultimately show ?case using f[of "push_bit (Suc i) 1"] unit_step[OF i] by metis
qed

lemma columns_chain:
  "map crc_step (tl residue_columns) = butlast residue_columns" "length residue_columns = 32"
  "map crc_step (tl steps_columns) = butlast steps_columns" "length steps_columns = 32"
  by (simp_all add: residue_columns_def steps_columns_def crc_step_def)

lemma residue_columns: "i < 32 \<Longrightarrow> header_residue (push_bit i 1) (push_bit i 1) = residue_columns ! i"
  by (rule chain_columns[where f = "\<lambda>w. header_residue w w", OF header_residue_step[symmetric] columns_chain(1,2)])
     (simp_all add: residue_top residue_columns_def)

lemma columns_sum_unit: "columns_sum cs (push_bit i 1) = (if i < length cs \<and> i < 32 then cs ! i else 0)"
proof (induction cs arbitrary: i)
  case (Cons c cs)
  have z: "columns_sum cs 0 = 0" for cs using columns_sum_xor[of cs 0 0] by simp
  show ?case
  proof (cases i)
    case 0
    then show ?thesis by (simp add: z)
  next
    case (Suc j)
    have "drop_bit 1 (push_bit i 1 :: u32) = (if i < 32 then push_bit j 1 else 0)"
      by (rule bit_word_eqI) (auto simp: bit_simps Suc)
    then show ?thesis using Cons.IH[of j] by (auto simp: z Suc bit_simps simp del: push_bit_of_1)
  qed
qed simp

lemma steps_160_columns: "(crc_step ^^ 160) w = columns_sum steps_columns w"
proof (rule xor_bits[where f = "crc_step ^^ 160" and g = "columns_sum steps_columns"])
  fix i :: nat assume i: "i < 32"
  have "(crc_step ^^ 160) (push_bit i 1) = steps_columns ! i"
    by (rule chain_columns[where f = "crc_step ^^ 160", OF _ columns_chain(3,4) _ i])
       (simp_all add: steps_160 steps_columns_def funpow_swap1)
  then show "(crc_step ^^ 160) (push_bit i 1) = columns_sum steps_columns (push_bit i 1)"
    using i by (simp only: columns_sum_unit columns_chain(4)) simp
qed (simp_all add: crc_steps_xor columns_sum_xor)

lemma columns_inverse: "map (columns_sum residue_inverse) residue_columns = map (\<lambda>i. push_bit i 1) [0..<32]"
  by (simp add: residue_columns_def residue_inverse_def upt_conv_Cons)

lemma residue_inverse: "columns_sum residue_inverse (header_residue w w) = w"
proof (rule xor_bits[where f = "\<lambda>w. columns_sum residue_inverse (header_residue w w)" and g = "\<lambda>w. w"])
  fix i :: nat assume i: "i < 32"
  have "columns_sum residue_inverse (residue_columns ! i) = push_bit i 1"
    using arg_cong[OF columns_inverse, of "\<lambda>xs. xs ! i"] i by (simp add: columns_chain(2))
  then show "columns_sum residue_inverse (header_residue (push_bit i 1) (push_bit i 1)) = push_bit i 1"
    unfolding residue_columns[OF i] .
qed (simp_all add: header_residue_xor columns_sum_xor)

subsection \<open>Disk sizes whose two headers have one checksum\<close>

definition borrow_mask :: "nat \<Rightarrow> u32" where
  "borrow_mask t = push_bit 5 (mask (t - 4))"

lemma sub_32_xor:
  fixes w :: u32
  assumes t: "5 \<le> t" "t < 32" "bit w t" and z: "\<forall>i. 5 \<le> i \<and> i < t \<longrightarrow> \<not> bit w i"
  shows "w - 32 = w XOR borrow_mask t"
proof -
  let ?m = "push_bit 5 (mask (t - 5)) :: u32"
  define a where "a = w XOR push_bit t 1"
  have "w = a + push_bit t 1"
    unfolding a_def by (subst disjunctive_add_eq_xor) (use t in \<open>auto simp: bit_simps xor.assoc intro!: bit_word_eqI\<close>)
  moreover have "(push_bit t 1 :: u32) = ?m + 32"
  proof -
    have "?m = 2 ^ (t - 5) * 32 - 32" by (simp add: push_bit_eq_mult mask_eq_exp_minus_1 algebra_simps)
    moreover have "(2 :: u32) ^ (t - 5) * 32 = 2 ^ (t - 5 + 5)" unfolding power_add by simp
    ultimately show ?thesis using t(1) by simp
  qed
  ultimately have "w - 32 = a + ?m" by simp
  also have "\<dots> = a XOR ?m"
    unfolding a_def by (rule disjunctive_add_eq_xor, rule bit_word_eqI) (use t z in \<open>auto simp: bit_simps\<close>)
  also have "\<dots> = w XOR borrow_mask t"
    unfolding a_def by (rule bit_word_eqI) (use t in \<open>auto simp: bit_simps borrow_mask_def\<close>)
  finally show ?thesis .
qed

lemma lowest_bit_from_5:
  fixes w :: u32
  assumes "32 \<le> w"
  obtains t where "5 \<le> t" "t < 32" "bit w t" "\<forall>i. 5 \<le> i \<and> i < t \<longrightarrow> \<not> bit w i"
proof -
  have "\<exists>t. 5 \<le> t \<and> bit w t"
  proof (rule ccontr)
    assume "\<not> ?thesis"
    then have "\<not> bit w t" if "5 \<le> t" for t using that by blast
    then have "take_bit 5 w = w" by (intro bit_word_eqI) (auto simp: bit_simps not_le[symmetric])
    then have "unat w < 2 ^ 5" by (metis take_bit_nat_less_exp unsigned_take_bit_eq)
    with assms show False by (simp add: word_le_nat_alt)
  qed
  then obtain t where t: "5 \<le> t \<and> bit w t" "\<forall>i<t. \<not> (5 \<le> i \<and> bit w i)" using exists_least_iff[of "\<lambda>t. 5 \<le> t \<and> bit w t"] by blast
  then have "t < 32" using bit_imp_le_length[of w t] by simp
  with t show thesis using that[of t] by blast
qed

definition collision_candidates :: "u32 list" where
  "collision_candidates =
    [0x28239CF9, 0x54431124, 0xAC820A9E, 0x86713BAB, 0xD39759C1, 0x785B9D15, 0xF4B312FC, 0x36130B6F, 0x68223E08,
     0xD44054C6, 0x77F5871B, 0xEBEF26E0, 0x8AB6357, 0x1552EE78, 0x2EA1F426, 0x5947C09A, 0xB68BA9E2, 0xB2627D53,
     0xBBB1D431, 0xA81686F5, 0x8F58237D, 0xC1C5686D, 0x5CFFFE4D, 0xBDFBD44C, 0xA482860F, 0x96702289, 0xF3956B85]"

lemma residue_12: "header_residue 1 2 = 0x65206021"
proof -
  have "header_residue (1 XOR 0) (1 XOR 3) = header_residue 1 1 XOR header_residue 0 3" by (rule header_residue_xor)
  moreover have "header_residue 1 1 = 0xCA892DEB" using residue_columns[of 0] by (simp add: residue_columns_def)
  moreover have "header_residue 0 3 = 0xAFA94DCA"
    using residue_zero by (simp add: header_residue_def steps_160_columns steps_columns_def)
  ultimately show ?thesis by simp
qed

lemma borrow_masks: "map borrow_mask [5..<32] =
    [0x20, 0x60, 0xE0, 0x1E0, 0x3E0, 0x7E0, 0xFE0, 0x1FE0, 0x3FE0,
     0x7FE0, 0xFFE0, 0x1FFE0, 0x3FFE0, 0x7FFE0, 0xFFFE0, 0x1FFFE0, 0x3FFFE0, 0x7FFFE0,
     0xFFFFE0, 0x1FFFFE0, 0x3FFFFE0, 0x7FFFFE0, 0xFFFFFE0, 0x1FFFFFE0, 0x3FFFFFE0, 0x7FFFFFE0, 0xFFFFFFE0]"
  by (simp add: upt_conv_Cons borrow_mask_def mask_numeral)

lemma borrow_steps: "map (\<lambda>t. 0x65206021 XOR columns_sum steps_columns (borrow_mask t)) [5..<32] =
    [0x7FDC302A, 0x4A24903C, 0x21D5D010, 0xF6375048, 0x828356B9, 0x6BEB5B5B, 0x624A46DE, 0x71087DD4, 0x578C0BC0,
     0x1A84E7E8, 0x80953FB8, 0x6FC78959, 0x6A13E2DA, 0x61BB35DC, 0x76EA9BD0, 0x5849C7C8, 0x50F7FF8, 0xBF820F98,
     0x11E9E919, 0x964F225A, 0x4273B29D, 0x317B9552, 0xD76BDACC, 0xC03A43B1, 0xEE99714B, 0xB3DF14BF, 0x953DF57]"
proof -
  have "map (\<lambda>t. 0x65206021 XOR columns_sum steps_columns (borrow_mask t)) [5..<32] =
      map (\<lambda>m. 0x65206021 XOR columns_sum steps_columns m) (map borrow_mask [5..<32])" by simp
  then show ?thesis unfolding borrow_masks by (simp add: steps_columns_def)
qed

lemma candidates:
  "map (\<lambda>t. columns_sum residue_inverse (0x65206021 XOR columns_sum steps_columns (borrow_mask t))) [5..<32] = collision_candidates"
proof -
  have "map (\<lambda>t. columns_sum residue_inverse (0x65206021 XOR columns_sum steps_columns (borrow_mask t))) [5..<32] =
     map (columns_sum residue_inverse) (map (\<lambda>t. 0x65206021 XOR columns_sum steps_columns (borrow_mask t)) [5..<32])" by simp
  then show ?thesis unfolding borrow_steps by (simp add: residue_inverse_def collision_candidates_def)
qed

lemma candidate_bits:
  assumes "5 \<le> t" "t < 32" "bit (collision_candidates ! (t - 5)) t" "\<forall>i. 5 \<le> i \<and> i < t \<longrightarrow> \<not> bit (collision_candidates ! (t - 5)) i"
  shows "collision_candidates ! (t - 5) \<in> {0x28239CF9, 0xAC820A9E}"
proof -
  have "\<forall>t\<in>set [5..<32]. t = 5 \<or> t = 7 \<or> list_ex (bit (collision_candidates ! (t - 5))) [5..<t] \<or> \<not> bit (collision_candidates ! (t - 5)) t"
    by (simp add: upt_conv_Cons collision_candidates_def)
  then have "t = 5 \<or> t = 7" using assms unfolding set_upt list_ex_iff by (metis atLeastLessThan_iff)
  then show ?thesis by (auto simp: collision_candidates_def)
qed

lemma residue_columns_sum: "header_residue w w = columns_sum residue_columns w"
proof (rule xor_bits[where f = "\<lambda>w. header_residue w w" and g = "columns_sum residue_columns"])
  fix i :: nat assume i: "i < 32"
  then show "header_residue (push_bit i 1) (push_bit i 1) = columns_sum residue_columns (push_bit i 1)"
    by (simp only: columns_sum_unit columns_chain(2) residue_columns) simp
qed (simp_all add: header_residue_xor columns_sum_xor)

lemma residue_split:
  "header_residue (1 XOR w) (2 XOR (w XOR b)) = header_residue w w XOR (0x65206021 XOR columns_sum steps_columns b)"
proof -
  have "header_residue (1 XOR (w XOR 0)) (2 XOR (w XOR b)) = header_residue 1 2 XOR (header_residue w w XOR header_residue 0 b)"
    unfolding header_residue_xor ..
  moreover have "header_residue 0 b = columns_sum steps_columns b"
    using residue_zero by (simp add: header_residue_def steps_160_columns)
  ultimately show ?thesis by (simp add: residue_12 ac_simps)
qed

lemma xor_eq_0: "(a :: u32) XOR b = 0 \<longleftrightarrow> a = b"
  by (metis xor.assoc xor.right_neutral xor_self_eq xor.commute)

lemma residue_collides:
  assumes "32 \<le> w"
  shows "header_residue (1 XOR w) (2 XOR (w - 32)) = 0 \<longleftrightarrow> w \<in> {0x28239CF9, 0xAC820A9E}"
proof
  obtain t where t: "5 \<le> t" "t < 32" "bit w t" "\<forall>i. 5 \<le> i \<and> i < t \<longrightarrow> \<not> bit w i" by (rule lowest_bit_from_5[OF assms])
  assume "header_residue (1 XOR w) (2 XOR (w - 32)) = 0"
  then have "header_residue w w = 0x65206021 XOR columns_sum steps_columns (borrow_mask t)"
    unfolding sub_32_xor[OF t] residue_split xor_eq_0 .
  then have "w = columns_sum residue_inverse (0x65206021 XOR columns_sum steps_columns (borrow_mask t))"
    using residue_inverse[of w] by simp
  also have "\<dots> = collision_candidates ! (t - 5)"
  proof -
    have "5 + (t - 5) < 32" "t - 5 < length [5..<32]" using t(1,2) by simp_all
    then have "map f [5..<32] ! (t - 5) = f t" for f :: "nat \<Rightarrow> u32"
      using nth_map[of "t - 5" "[5..<32]" f] nth_upt[of 5 "t - 5" 32] t(1) by (metis le_add_diff_inverse)
    from this[of "\<lambda>t. columns_sum residue_inverse (0x65206021 XOR columns_sum steps_columns (borrow_mask t))"]
    show ?thesis unfolding candidates by (rule sym)
  qed
  finally have "w = collision_candidates ! (t - 5)" .
  then show "w \<in> {0x28239CF9, 0xAC820A9E}" using candidate_bits[OF t(1,2)] t(3,4) by simp
next
  have m: "0x28239CF9 - 32 = (0x28239CF9 XOR 0x20 :: u32)" "0xAC820A9E - 32 = (0xAC820A9E XOR 0xE0 :: u32)" by simp_all
  assume "w \<in> {0x28239CF9, 0xAC820A9E}"
  then consider "w = 0x28239CF9" | "w = 0xAC820A9E" by blast
  then show "header_residue (1 XOR w) (2 XOR (w - 32)) = 0"
  proof cases
    case 1
    show ?thesis unfolding 1 m residue_split residue_columns_sum by (simp add: residue_columns_def steps_columns_def)
  next
    case 2
    show ?thesis unfolding 2 m residue_split residue_columns_sum by (simp add: residue_columns_def steps_columns_def)
  qed
qed

end
