(* ===== verification/Gpt_Create.thy ===== *)
theory Gpt_Create
  imports Gpt Gpt_Residue
begin

text \<open>
  The header checksum that \<^verbatim>\<open>gpt_create_table\<close> leaves in memory: it is the checksum of the backup header,
  and \<open>Gpt_Residue\<close> says for which disks that is also the checksum of the primary header.
\<close>

unbundle bit_operations_syntax

subsection \<open>The header left in memory\<close>

lemma xor_same_zeros: "map2 (XOR) xs xs = replicate (length xs) (0 :: u8)"
  by (induction xs) simp_all

lemma to_le_xor: "map2 (XOR) (to_le n x) (to_le n y) = to_le n (x XOR y :: u64)"
  by (rule nth_equalityI) (auto simp: bit_nth_to_le bit_simps intro!: bit_word_eqI)

lemma map2_parts:
  "length x = length y \<Longrightarrow> length c = length d \<Longrightarrow>
   map2 f (p @ x @ m @ c @ q) (p @ y @ m @ d @ q) = map2 f p p @ map2 f x y @ map2 f m m @ map2 f c d @ map2 f q q"
  by simp

lemma xor_cancel_right: "(a :: u32) XOR c = b XOR c \<Longrightarrow> a = b"
  by (metis xor.assoc xor.right_neutral xor_self_eq)

lemma header_diff:
  assumes "length (hd_signature h) = 8" "length (hd_disk_guid h) = 16"
  shows "map2 (XOR) (header_bytes (h\<lparr>hd_current_lba := 1, hd_backup_lba := m, hd_partition_entries_lba := 2\<rparr>))
       (header_bytes (h\<lparr>hd_current_lba := m, hd_backup_lba := 1, hd_partition_entries_lba := k\<rparr>)) =
     replicate 24 0 @ (to_le 8 (1 XOR m) @ to_le 8 (1 XOR m)) @ replicate 32 0 @ to_le 8 (2 XOR k) @ replicate 12 0"
proof -
  let ?p = "hd_signature h @ to_le 4 (hd_revision h) @ to_le 4 (hd_header_size h) @ to_le 4 (hd_header_crc32 h) @ to_le 4 (hd_reserved h)"
  let ?m = "to_le 8 (hd_first_usable_lba h) @ to_le 8 (hd_last_usable_lba h) @ hd_disk_guid h"
  let ?q = "to_le 4 (hd_num_partition_entries h) @ to_le 4 (hd_partition_entry_size h) @ to_le 4 (hd_partition_array_crc32 h)"
  have e: "header_bytes (h\<lparr>hd_current_lba := a, hd_backup_lba := b, hd_partition_entries_lba := c\<rparr>) =
      ?p @ (to_le 8 a @ to_le 8 b) @ ?m @ to_le 8 c @ ?q" for a b c
    by (simp add: header_bytes_def)
  have z: "map2 (XOR) ?p ?p = replicate 24 0" "map2 (XOR) ?m ?m = replicate 32 0" "map2 (XOR) ?q ?q = replicate 12 0"
    unfolding xor_same_zeros using assms by simp_all
  have d: "map2 (XOR) (to_le 8 (1 :: u64) @ to_le 8 m) (to_le 8 m @ to_le 8 (1 :: u64)) = to_le 8 (1 XOR m) @ to_le 8 (1 XOR m)"
    using to_le_xor[of 8 1 m] to_le_xor[of 8 m 1] by (simp add: xor.commute)
  show ?thesis
    unfolding e by (subst map2_parts) (simp, simp, simp only: z d to_le_xor)
qed

lemma header_diff_residue:
  assumes "32 \<le> (m :: u64)" "unat m < 2 ^ 32"
  shows "crc_loop (replicate 24 0 @ (to_le 8 (1 XOR m) @ to_le 8 (1 XOR m)) @ replicate 32 0 @ to_le 8 (2 XOR (m - 32)) @ replicate 12 0) 0 = 0
     \<longleftrightarrow> m \<in> {0x28239CF9, 0xAC820A9E}"
proof -
  let ?w = "ucast m :: u32"
  have u: "unat ?w = unat m" by (rule unat_ucast_64_32[OF assms(2)])
  have s: "unat (m - 32) = unat m - 32" using unat_sub[OF assms(1)] by simp
  have w: "32 \<le> ?w" using assms(1) u by (simp add: word_le_nat_alt)
  have x: "ucast (a XOR b :: u64) = (ucast a XOR ucast b :: u32)" for a b by (rule bit_word_eqI) (auto simp: bit_simps)
  have "unat (ucast (m - 32) :: u32) = unat m - 32" using unat_ucast_64_32[of "m - 32"] s assms(2) by simp
  then have d: "ucast (m - 32) = ?w - 32" using unat_sub[OF w] u by (simp add: word_unat_eq_iff)
  have small: "unat (a XOR b :: u64) < 2 ^ 32" if "unat a < 2 ^ 32" "unat b < 2 ^ 32" for a b
  proof -
    have "take_bit 32 a = a" "take_bit 32 b = b" using that by (simp_all add: word_unat_eq_iff unsigned_take_bit_eq take_bit_nat_eq_self)
    then have "take_bit 32 (a XOR b) = a XOR b" by (metis take_bit_xor)
    then show ?thesis by (metis take_bit_nat_less_exp unsigned_take_bit_eq)
  qed
  have "m \<in> {0x28239CF9, 0xAC820A9E} \<longleftrightarrow> ?w \<in> {0x28239CF9, 0xAC820A9E}" using u by (auto simp: word_unat_eq_iff)
  moreover have b: "unat (1 XOR m) < 2 ^ 32" "unat (2 XOR (m - 32)) < 2 ^ 32" by (rule small; use assms(2) s in simp)+
  have "ucast (1 XOR m) = (1 XOR ?w)" "ucast (2 XOR (m - 32)) = (2 XOR (?w - 32))" by (simp_all add: x d)
  ultimately show ?thesis unfolding header_residue[OF b] using residue_collides[OF w] by simp
qed

text \<open>Without a GUID from the caller the table is the one created with the generated GUID.\<close>

lemma create_generated:
  assumes "block_is_present ops (gdisk s)" "block_write_sector ops 0 (mbr_sector n) (gdisk s) = (0, d)"
  shows "gpt_create_table ops n None s =
    gpt_create_table ops n (Some (fst (generate_guid (guid_seed s)))) (s\<lparr>guid_seed := snd (generate_guid (guid_seed s))\<rparr>)"
proof -
  obtain g sd where g: "generate_guid (guid_seed s) = (g, sd)" by fastforce
  then have "buf_get 16 g 0 = g" using length_generate_guid[OF g] by (simp add: buf_get_def)
  then show ?thesis using assms g by (simp add: gpt_create_table_def Let_def)
qed

lemma backup_signed:
  assumes "sign_header (h\<lparr>hd_current_lba := n, hd_backup_lba := 1, hd_partition_entries_lba := e\<rparr>) =
       Some (k\<lparr>hd_current_lba := n, hd_backup_lba := 1, hd_partition_entries_lba := e\<rparr>)" "header_std h"
  shows "length (hd_signature k) = 8" "length (hd_disk_guid k) = 16" "hd_header_size k = 92"
    "hd_partition_array_crc32 k = hd_partition_array_crc32 h"
    "crc32 (header_bytes (k\<lparr>hd_current_lba := n, hd_backup_lba := 1, hd_partition_entries_lba := e, hd_header_crc32 := 0\<rparr>)) 92 =
       Some (hd_header_crc32 k)"
proof -
  let ?h = "h\<lparr>hd_current_lba := n, hd_backup_lba := 1, hd_partition_entries_lba := e, hd_header_crc32 := 0\<rparr>"
  obtain x where x: "crc32 (header_bytes ?h) 92 = Some x"
    "k\<lparr>hd_current_lba := n, hd_backup_lba := 1, hd_partition_entries_lba := e\<rparr> = ?h\<lparr>hd_header_crc32 := x\<rparr>"
    using assms(1) by (auto simp: sign_header_def Let_def split: bind_splits)
  have "hd_signature k = hd_signature h" "hd_disk_guid k = hd_disk_guid h" "hd_header_size k = hd_header_size h"
    using arg_cong[OF x(2), of hd_signature] arg_cong[OF x(2), of hd_disk_guid] arg_cong[OF x(2), of hd_header_size] by simp_all
  then show "length (hd_signature k) = 8" "length (hd_disk_guid k) = 16" "hd_header_size k = 92"
    using assms(2) by (simp_all add: header_std_def gpt_signature_def)
  show "hd_partition_array_crc32 k = hd_partition_array_crc32 h"
    using arg_cong[OF x(2), of hd_partition_array_crc32] by simp
  have "k\<lparr>hd_current_lba := n, hd_backup_lba := 1, hd_partition_entries_lba := e, hd_header_crc32 := 0\<rparr> = ?h"
    using arg_cong[OF x(2), of "\<lambda>v. v\<lparr>hd_header_crc32 := 0\<rparr>"] by (cases k; cases h) simp
  moreover have "hd_header_crc32 k = x" using arg_cong[OF x(2), of hd_header_crc32] by simp
  ultimately show "crc32 (header_bytes (k\<lparr>hd_current_lba := n, hd_backup_lba := 1, hd_partition_entries_lba := e, hd_header_crc32 := 0\<rparr>)) 92 =
       Some (hd_header_crc32 k)" using x(1) by simp
qed

lemma primary_checksum:
  assumes k: "hd_current_lba k = 1" "hd_backup_lba k = n" "hd_partition_entries_lba k = 2"
    and l: "length (hd_signature k) = 8" "length (hd_disk_guid k) = 16" and n: "32 \<le> n" "unat n < 2 ^ 32"
    and c: "crc32 (header_bytes (k\<lparr>hd_current_lba := n, hd_backup_lba := 1, hd_partition_entries_lba := n - 32, hd_header_crc32 := 0\<rparr>)) 92 =
       Some (hd_header_crc32 k)"
  shows "\<exists>y. crc32 (header_bytes (k\<lparr>hd_header_crc32 := 0\<rparr>)) 92 = Some y \<and>
     (hd_header_crc32 k = y \<longleftrightarrow> n \<in> {0x28239CF9, 0xAC820A9E})"
proof -
  let ?k = "k\<lparr>hd_header_crc32 := 0\<rparr>"
  let ?p = "header_bytes (?k\<lparr>hd_current_lba := 1, hd_backup_lba := n, hd_partition_entries_lba := 2\<rparr>)"
    and ?b = "header_bytes (?k\<lparr>hd_current_lba := n, hd_backup_lba := 1, hd_partition_entries_lba := n - 32\<rparr>)"
  have p: "header_bytes ?k = ?p" by (simp add: header_bytes_def k)
  have lk: "length ?p = 92" "length ?b = 92" using l by (simp_all add: header_bytes_def)
  have "crc_loop ?p 0xFFFFFFFF XOR crc_loop ?b 0xFFFFFFFF = crc_loop (map2 (XOR) ?p ?b) 0"
    using crc_loop_xor[of ?p ?b "0xFFFFFFFF" "0xFFFFFFFF"] lk by simp
  also have "map2 (XOR) ?p ?b = replicate 24 0 @ (to_le 8 (1 XOR n) @ to_le 8 (1 XOR n)) @ replicate 32 0 @ to_le 8 (2 XOR (n - 32)) @ replicate 12 0"
    by (rule header_diff) (use l in simp_all)
  finally have q: "crc_loop ?p 0xFFFFFFFF = crc_loop ?b 0xFFFFFFFF \<longleftrightarrow> n \<in> {0x28239CF9, 0xAC820A9E}"
    using header_diff_residue[OF n] xor_eq_0[of "crc_loop ?p 0xFFFFFFFF" "crc_loop ?b 0xFFFFFFFF"] by simp
  have "crc32 ?b 92 = Some (hd_header_crc32 k)" using c by (simp add: header_bytes_def)
  then have "hd_header_crc32 k = crc_loop ?b 0xFFFFFFFF XOR 0xFFFFFFFF" using lk(2) by (simp add: crc32_def)
  then have "hd_header_crc32 k = crc_loop ?p 0xFFFFFFFF XOR 0xFFFFFFFF \<longleftrightarrow> n \<in> {0x28239CF9, 0xAC820A9E}"
    unfolding q[symmetric] by (metis xor_cancel_right)
  then show ?thesis unfolding p using lk(1) by (simp add: crc32_def)
qed

lemma verify_result:
  assumes "g_gpt_initialized t" "hd_header_size (g_gpt_header t) = 92"
    "crc32 (header_bytes ((g_gpt_header t)\<lparr>hd_header_crc32 := 0\<rparr>)) 92 = Some y"
    "crc32 (table_bytes (g_partitions t)) 16384 = Some (hd_partition_array_crc32 (g_gpt_header t))"
  shows "gpt_verify t = Some (if hd_header_crc32 (g_gpt_header t) = y then 0 else -1)"
  using assms by (simp add: gpt_verify_def Let_def)

lemma create_verify:
  assumes bd: "block_device ops sect dev_ok lbas" and ok: "dev_ok (gdisk s)" and lb: "{0..<34} \<subseteq> lbas"
    "unat (total_sectors - 1) \<in> lbas" "35 \<le> total_sectors" "unat total_sectors \<le> 2 ^ 32" and g: "length g = 16"
  shows "\<exists>t. gpt_create_table ops total_sectors (Some g) s = Some (0, t) \<and>
     gpt_verify t = Some (if total_sectors \<in> {673422586, 2894203551} then 0 else -1)"
proof -
  let ?n = "total_sectors - 1" and ?e = "total_sectors - 33"
  obtain t h c where t: "gpt_create_table ops total_sectors (Some g) s = Some (0, t)"
    "crc32 (table_bytes (replicate 128 zero_entry)) 16384 = Some c" "header_std h"
    "h = (new_header total_sectors g c)\<lparr>hd_header_crc32 := hd_header_crc32 h\<rparr>"
    "sign_header (h\<lparr>hd_current_lba := ?n, hd_backup_lba := 1, hd_partition_entries_lba := ?e\<rparr>) =
       Some ((g_gpt_header t)\<lparr>hd_current_lba := ?n, hd_backup_lba := 1, hd_partition_entries_lba := ?e\<rparr>)"
    "g_partitions t = replicate 128 zero_entry" "g_gpt_initialized t" "hd_current_lba (g_gpt_header t) = 1"
    "hd_backup_lba (g_gpt_header t) = ?n" "hd_partition_entries_lba (g_gpt_header t) = 2"
    by (rule create_run[OF bd ok lb(1-3) g])
  note B = backup_signed[OF t(5,3)]
  have "unat ?n = unat total_sectors - 1" using lb(3) unat_sub[of 1 total_sectors] by (simp add: word_le_nat_alt)
  then have n: "32 \<le> ?n" "unat ?n < 2 ^ 32" using lb(3,4) by (simp_all add: word_le_nat_alt)
  have e: "?e = ?n - 32" by simp
  obtain y where y: "crc32 (header_bytes ((g_gpt_header t)\<lparr>hd_header_crc32 := 0\<rparr>)) 92 = Some y"
    "hd_header_crc32 (g_gpt_header t) = y \<longleftrightarrow> ?n \<in> {0x28239CF9, 0xAC820A9E}"
    using primary_checksum[OF t(8-10) B(1,2) n B(5)[unfolded e]] by blast
  have c: "hd_partition_array_crc32 (g_gpt_header t) = c" unfolding B(4) by (subst t(4)) (simp add: new_header_def)
  have m: "?n \<in> {0x28239CF9, 0xAC820A9E} \<longleftrightarrow> total_sectors \<in> {673422586, 2894203551}" by (simp add: diff_eq_eq)
  have "crc32 (table_bytes (g_partitions t)) 16384 = Some (hd_partition_array_crc32 (g_gpt_header t))" unfolding t(6) c by (rule t(2))
  from verify_result[OF t(7) B(3) y(1) this]
  have "gpt_verify t = Some (if total_sectors \<in> {673422586, 2894203551} then 0 else -1)" unfolding y(2) m .
  with t(1) show ?thesis by blast
qed


text \<open>
  C27 (error).  Right after \<^verbatim>\<open>gpt_create_table\<close> the in-memory header keeps the checksum of the backup header, so
  \<^verbatim>\<open>gpt_verify\<close> rejects the table just created: for every disk of 35 to 2\<open>^32\<close> sectors and every disk GUID, given
  or generated, except the two sizes 673422586 and 2894203551, where the two headers happen to have
  the same CRC-32.
\<close>

theorem gpt_verify_fails_after_create:
  assumes bd: "block_device ops sect dev_ok lbas" and ok: "dev_ok (gdisk s)" and lb: "{0..<34} \<subseteq> lbas"
    "unat (total_sectors - 1) \<in> lbas" "35 \<le> total_sectors" "unat total_sectors \<le> 2 ^ 32"
    and g: "case disk_guid of None \<Rightarrow> True | Some g \<Rightarrow> length g = 16"
  shows "\<exists>t. gpt_create_table ops total_sectors disk_guid s = Some (0, t) \<and>
     gpt_verify t = Some (if total_sectors \<in> {673422586, 2894203551} then 0 else -1)"
proof (cases disk_guid)
  case None
  have z: "unat (0 :: u64) \<in> lbas" using lb(1) by auto
  obtain d where "block_write_sector ops 0 (mbr_sector total_sectors) (gdisk s) = (0, d)"
    by (rule block_device.write_sector[OF bd ok length_mbr_sector z])
  note c = create_generated[OF block_device.present[OF bd ok] this]
  obtain x sd where x: "generate_guid (guid_seed s) = (x, sd)" by fastforce
  show ?thesis unfolding None c
    by (rule create_verify[OF bd _ lb]) (use ok length_generate_guid[OF x] x in simp_all)
next
  case (Some x)
  then show ?thesis using create_verify[OF bd ok lb] g by simp
qed

theorem gpt_verify_fails_after_create_witness:
  "\<exists>t u v. gpt_create_table ram_storage 204800 (Some (replicate 16 7)) sample_gpt = Some (0, t) \<and> gpt_verify t = Some (-1) \<and>
     gpt_create_table ram_storage 4294967296 None sample_gpt = Some (0, u) \<and> gpt_verify u = Some (-1) \<and>
     gpt_create_table ram_storage 673422586 None sample_gpt = Some (0, v) \<and> gpt_verify v = Some 0"
proof -
  have ok: "ram_ok (gdisk sample_gpt)" using sample_gpt_inv by (simp add: gpt_inv_def)
  note w = gpt_verify_fails_after_create[OF ram_block_device, of sample_gpt]
  show ?thesis using ok w[of 204800 "Some (replicate 16 7)"] w[of 4294967296 None] w[of 673422586 None] by auto
qed

end
