(* ===== verification/Exfat_Time.thy ===== *)
theory Exfat_Time
  imports Prelude
begin

text \<open>
  Time stamps of the exFAT driver, \<^verbatim>\<open>fs/exfat/time.c\<close>.  The time zone the file keeps in \<^verbatim>\<open>exfat_timezone\<close> is an
  argument; in the UEFI build \<^verbatim>\<open>exfat_tzset\<close> sets it to 0.  \<^verbatim>\<open>time_t\<close> and \<^verbatim>\<open>int\<close> are unbounded integers: every value the
  two functions compute from a 16-bit date or from a time before the year 2108 is far inside 32 bits.
\<close>

unbundle bit_operations_syntax

abbreviation (input) SEC_IN_MIN :: int where "SEC_IN_MIN \<equiv> 60"
abbreviation (input) SEC_IN_HOUR :: int where "SEC_IN_HOUR \<equiv> 3600"
abbreviation (input) SEC_IN_DAY :: int where "SEC_IN_DAY \<equiv> 86400"
abbreviation (input) SEC_IN_YEAR :: int where "SEC_IN_YEAR \<equiv> 31536000"
abbreviation (input) EXFAT_EPOCH_YEAR :: int where "EXFAT_EPOCH_YEAR \<equiv> 1980"

definition EPOCH_DIFF_SEC :: int where
  "EPOCH_DIFF_SEC = (10 * 365 + 10 div 4) * SEC_IN_DAY"

definition LEAP_YEARS :: "int \<Rightarrow> int" where
  "LEAP_YEARS year = (EXFAT_EPOCH_YEAR + year - 1) div 4 - (EXFAT_EPOCH_YEAR - 1) div 4"

definition IS_LEAP_YEAR :: "int \<Rightarrow> bool" where
  "IS_LEAP_YEAR year \<longleftrightarrow> (EXFAT_EPOCH_YEAR + year) mod 4 = 0"

definition days_in_year :: "int list" where
  "days_in_year = [0, 0, 31, 59, 90, 120, 151, 181, 212, 243, 273, 304, 334]"

text \<open>\<^verbatim>\<open>(int8_t)(tzoffset << 1) * 15 * 60 / 2\<close>; the product is even, so the division is exact.\<close>

definition tz_seconds :: "u8 \<Rightarrow> int" where
  "tz_seconds tzoffset = sint (push_bit 1 tzoffset) * 15 * 60 div 2"

definition exfat_exfat2unix :: "int \<Rightarrow> u16 \<Rightarrow> u16 \<Rightarrow> u8 \<Rightarrow> u8 \<Rightarrow> int" where
  "exfat_exfat2unix exfat_timezone ndate ntime centisec tzoffset =
     (let day = uint (ndate AND 0x1f); month = uint (drop_bit 5 ndate AND 0xf); year = uint (drop_bit 9 ndate);
          twosec = uint (ntime AND 0x1f); mins = uint (drop_bit 5 ntime AND 0x3f); hour = uint (drop_bit 11 ntime) in
      if day = 0 \<or> month = 0 \<or> month > 12 then 0
      else if hour > 23 \<or> mins > 59 \<or> twosec > 29 then 0
      else if centisec > 199 then 0
      else
        EPOCH_DIFF_SEC + (year * SEC_IN_YEAR + LEAP_YEARS year * SEC_IN_DAY) + days_in_year ! nat month * SEC_IN_DAY +
        (if (EXFAT_EPOCH_YEAR + year) mod 4 = 0 \<and> month > 2 then SEC_IN_DAY else 0) + (day - 1) * SEC_IN_DAY +
        hour * SEC_IN_HOUR + mins * SEC_IN_MIN + twosec * 2 + uint centisec div 100 +
        (if tzoffset AND 0x80 \<noteq> 0 then - tz_seconds tzoffset else exfat_timezone))"

text \<open>The search for the month: the month and the days left in it.\<close>

fun month_loop :: "bool \<Rightarrow> int \<Rightarrow> nat list \<Rightarrow> nat \<times> int" where
  "month_loop leap days [] = (0, days)"
| "month_loop leap days (i # is) =
     (let leap_day = (if leap \<and> i = 2 then 1 else 0); leap_sub = (if leap \<and> i \<ge> 3 then 1 else 0) in
      if i = 12 \<or> days - leap_sub < days_in_year ! (i + 1) + leap_day
      then (i, days - (days_in_year ! i + leap_sub)) else month_loop leap days is)"

text \<open>Division in C rounds towards zero.\<close>

definition c_div :: "int \<Rightarrow> int \<Rightarrow> int" where
  "c_div a b = sgn a * sgn b * (\<bar>a\<bar> div \<bar>b\<bar>)"

record exfat_stamp =
  es_date :: u16
  es_time :: u16
  es_centisec :: u8
  es_tzoffset :: u8

definition exfat_unix2exfat :: "int \<Rightarrow> int \<Rightarrow> exfat_stamp" where
  "exfat_unix2exfat exfat_timezone unix_time =
     (let shift = EPOCH_DIFF_SEC + exfat_timezone;
          t = (if unix_time < shift then shift else unix_time) - shift;
          days = t div SEC_IN_DAY;
          year = (word_of_int ((4 * days) div (4 * 365 + 1)) :: u16);
          days1 = days - (uint year * 365 + LEAP_YEARS (uint year));
          (month, days2) = month_loop (IS_LEAP_YEAR (uint year)) days1 [1..<13];
          day = (word_of_int (days2 + 1) :: u16);
          hour = (word_of_int (t mod SEC_IN_DAY div SEC_IN_HOUR) :: u16);
          mins = (word_of_int (t mod SEC_IN_HOUR div SEC_IN_MIN) :: u16);
          twosec = (word_of_int (t mod SEC_IN_MIN div 2) :: u16)
      in \<lparr>es_date = day OR push_bit 5 (of_nat month) OR push_bit 9 year,
          es_time = twosec OR push_bit 5 mins OR push_bit 11 hour,
          es_centisec = word_of_int (t mod 2 * 100),
          es_tzoffset = word_of_int (c_div (c_div (- exfat_timezone) 60) 15) OR 0x80\<rparr>)"

definition exfat_tzset :: int where
  "exfat_tzset = 0"

section \<open>The calendar\<close>

lemma month_loop_ok:
  assumes "0 \<le> r" "r < (if leap then 366 else 365)"
  obtains m d where "month_loop leap r [1..<13] = (m, d)" "1 \<le> m" "m \<le> 12" "0 \<le> d" "d < 31"
    "days_in_year ! m + (if leap \<and> m > 2 then 1 else 0) + d = r"
proof -
  have u: "[1..<13] = [1, 2, 3, 4, 5, 6, 7, 8, 9, 10, 11, 12 :: nat]" by code_simp
  have "\<exists>m d. month_loop leap r [1..<13] = (m, d) \<and> 1 \<le> m \<and> m \<le> 12 \<and> 0 \<le> d \<and> d < 31 \<and>
    days_in_year ! m + (if leap \<and> m > 2 then 1 else 0) + d = r"
    unfolding u using assms by (cases leap) (auto simp: days_in_year_def Let_def)
  then show ?thesis using that by blast
qed

lemma year_ok:
  fixes d :: int
  assumes "0 \<le> d" "y = 4 * d div 1461"
  shows "0 \<le> d - (y * 365 + LEAP_YEARS y)" "d - (y * 365 + LEAP_YEARS y) < (if IS_LEAP_YEAR y then 366 else 365)" "0 \<le> y" "d < 46752 \<Longrightarrow> y \<le> 127"
proof -
  define q e where "q = d div 1461" and "e = d mod 1461"
  have d: "d = 1461 * q + e" and e: "0 \<le> e" "e < 1461" and q: "0 \<le> q" using assms by (auto simp: q_def e_def)
  define j where "j = 4 * e div 1461"
  have j: "j = 0 \<or> j = 1 \<or> j = 2 \<or> j = 3" using e unfolding j_def by auto
  have y: "y = 4 * q + j" unfolding assms(2) d j_def by simp
  have b: "1461 * j \<le> 4 * e" "4 * e < 1461 * j + 1461" unfolding j_def by (simp_all add: minus_mod_eq_mult_div [symmetric])
  have l: "LEAP_YEARS y = q + (if j = 0 then 0 else 1)" using j unfolding LEAP_YEARS_def y by auto
  have i: "IS_LEAP_YEAR y = (j = 0)" using j unfolding IS_LEAP_YEAR_def y by presburger
  show "0 \<le> d - (y * 365 + LEAP_YEARS y)" unfolding l using j b unfolding y d by auto
  show "d - (y * 365 + LEAP_YEARS y) < (if IS_LEAP_YEAR y then 366 else 365)" unfolding l i using j b unfolding y d by auto
  show "0 \<le> y" using j q by (auto simp: y)
  show "y \<le> 127" if "d < 46752" using that b j unfolding y d by auto
qed

section \<open>Packed fields\<close>

lemma packed_fields:
  fixes a b c :: u16
  assumes "unat a < 2 ^ k" "unat b < 2 ^ (m - k)" "unat c < 2 ^ (16 - m)" "k \<le> m" "m \<le> 16"
  shows "(a OR push_bit k b OR push_bit m c) AND mask k = a"
    "drop_bit k (a OR push_bit k b OR push_bit m c) AND mask (m - k) = b"
    "drop_bit m (a OR push_bit k b OR push_bit m c) = c"
proof -
  have a: "bit a n \<Longrightarrow> n < k" and b: "bit b n \<Longrightarrow> n < m - k" and c: "bit c n \<Longrightarrow> n < 16 - m" for n
    using bit_small assms by blast+
  note simps = bit_or_iff bit_and_iff bit_push_bit_iff bit_drop_bit_eq bit_mask_iff
  show "(a OR push_bit k b OR push_bit m c) AND mask k = a"
    by (rule bit_word_eqI) (use a assms(4) in \<open>auto simp: simps\<close>)
  show "drop_bit k (a OR push_bit k b OR push_bit m c) AND mask (m - k) = b"
    by (rule bit_word_eqI) (use a b assms(4,5) in \<open>fastforce simp: simps\<close>)
  show "drop_bit m (a OR push_bit k b OR push_bit m c) = c"
    by (rule bit_word_eqI) (use a b c assms(4,5) in \<open>fastforce simp: simps\<close>)
qed

lemma uint_field:
  assumes "0 \<le> x" "x < 65536"
  shows "uint (word_of_int x :: u16) = x" "unat (word_of_int x :: u16) = nat x"
proof -
  have "take_bit 16 x = x" using assms by (simp add: take_bit_int_eq_self)
  then show u: "uint (word_of_int x :: u16) = x" using assms by (simp add: unsigned_of_int)
  have "int (unat (word_of_int x :: u16)) = x" using u by simp
  then show "unat (word_of_int x :: u16) = nat x" by linarith
qed

lemma packed_ints:
  assumes "t = (word_of_int a OR push_bit k (word_of_int b) OR push_bit m (word_of_int c) :: u16)" "0 \<le> a" "a < 2 ^ k" "0 \<le> b" "b < 2 ^ (m - k)"
    "0 \<le> c" "c < 2 ^ (16 - m)" "k \<le> m" "m \<le> 16"
  shows "uint (t AND mask k) = a" "uint (drop_bit k t AND mask (m - k)) = b" "uint (drop_bit m t) = c"
proof -
  have le: "(2 :: int) ^ k \<le> 2 ^ 16" "(2 :: int) ^ (m - k) \<le> 2 ^ 16" "(2 :: int) ^ (16 - m) \<le> 2 ^ 16"
    by (rule power_increasing; use assms(8,9) in simp)+
  then have f: "a < 65536" "b < 65536" "c < 65536" using assms(3,5,7) by simp_all
  note A = uint_field[OF assms(2) f(1)] and B = uint_field[OF assms(4) f(2)] and C = uint_field[OF assms(6) f(3)]
  have n: "nat a < 2 ^ k" "nat b < 2 ^ (m - k)" "nat c < 2 ^ (16 - m)"
    using assms(2-7) by (simp_all add: nat_less_iff)
  note P = packed_fields[of "word_of_int a" k "word_of_int b" m "word_of_int c", unfolded A B C, OF n assms(8,9)]
  show "uint (t AND mask k) = a" "uint (drop_bit k t AND mask (m - k)) = b" "uint (drop_bit m t) = c"
    unfolding assms(1) P by (fact A B C)+
qed

lemma masks: "(0x1f :: u16) = mask 5" "(0xf :: u16) = mask 4" "(0x3f :: u16) = mask 6"
  by (simp_all add: mask_eq_exp_minus_1)

text \<open>Every zone that is a whole number of quarters of an hour, up to sixteen hours, survives the offset byte.\<close>

lemma tz_roundtrip:
  assumes "- 63 \<le> k" "k \<le> 64"
  shows "tz_seconds (word_of_int (- k) OR 0x80) = - (900 * k)"  "(word_of_int (- k) OR 0x80 :: u8) AND 0x80 \<noteq> 0"
proof -
  have "\<forall>k \<in> set [- 63..64]. tz_seconds (word_of_int (- k) OR 0x80) = - (900 * k) \<and> (word_of_int (- k) OR 0x80 :: u8) AND 0x80 \<noteq> 0"
    by code_simp
  moreover have k: "k \<in> set [- 63..64]" using assms unfolding set_upto by simp
  ultimately show "tz_seconds (word_of_int (- k) OR 0x80) = - (900 * k)" "(word_of_int (- k) OR 0x80 :: u8) AND 0x80 \<noteq> 0"
    by (blast+)
qed

lemma c_div_quarters: "c_div (c_div (- (900 * k)) 60) 15 = - k"
  by (cases "k = 0"; cases "k < 0") (simp_all add: c_div_def sgn_mult abs_mult)

lemma div_bound: "x < a * b \<Longrightarrow> 0 < b \<Longrightarrow> x div b < (a :: int)"
  using div_mult_mod_eq[of x b] pos_mod_sign[of b x] mult_right_mono[of a "x div b" b] by linarith

lemma clock_bounds:
  "0 \<le> (T :: int) mod 60 div 2" "T mod 60 div 2 < 30" "0 \<le> T mod 3600 div 60" "T mod 3600 div 60 < 60" "0 \<le> T mod 86400 div 3600" "T mod 86400 div 3600 < 24"
  by (simp_all add: div_bound pos_imp_zdiv_nonneg_iff)

lemma clock_sum: "(T :: int) mod 86400 div 3600 * 3600 + T mod 3600 div 60 * 60 + T mod 60 div 2 * 2 + T mod 2 = T mod 86400"
proof -
  have "T mod 86400 mod 3600 = T mod 3600" "T mod 3600 mod 60 = T mod 60" "T mod 60 mod 2 = T mod 2" by (simp_all add: mod_mod_cancel)
  then show ?thesis using div_mult_mod_eq[of "T mod 86400" 3600] div_mult_mod_eq[of "T mod 3600" 60] div_mult_mod_eq[of "T mod 60" 2] by linarith
qed

lemma stamp_time_fields:
  assumes "t = (word_of_int a OR push_bit 5 (word_of_int b) OR push_bit 11 (word_of_int c) :: u16)" "0 \<le> a" "a < 30" "0 \<le> b" "b < 60" "0 \<le> c" "c < 24"
  shows "uint (t AND 0x1f) = a" "uint (drop_bit 5 t AND 0x3f) = b" "uint (drop_bit 11 t) = c"
proof -
  have m: "mask (11 - 5) = (mask 6 :: u16)" by simp
  show "uint (t AND 0x1f) = a" "uint (drop_bit 5 t AND 0x3f) = b" "uint (drop_bit 11 t) = c" unfolding masks m[symmetric]
    by (rule packed_ints[OF assms(1)]; use assms(2-7) in simp)+
qed

text \<open>The date word of a day number, read back.\<close>

lemma stamp_date_fields:
  fixes days :: int
  assumes "0 \<le> days" "days < 46752" and y: "y = 4 * days div 1461"
    and md: "month_loop (IS_LEAP_YEAR y) (days - (y * 365 + LEAP_YEARS y)) [1..<13] = (m, d)"
    and t: "t = (word_of_int (d + 1) OR push_bit 5 (of_nat m) OR push_bit 9 (word_of_int y) :: u16)"
  shows "uint (t AND 0x1f) = d + 1" "uint (drop_bit 5 t AND 0xf) = int m" "uint (drop_bit 9 t) = y" "1 \<le> m" "m \<le> 12" "0 \<le> d" "d < 31"
    "y * 365 + LEAP_YEARS y + days_in_year ! m + (if IS_LEAP_YEAR y \<and> m > 2 then 1 else 0) + d = days" "0 \<le> y" "y \<le> 127"
proof -
  note Y = year_ok[OF assms(1) y]
  have y127: "y \<le> 127" by (rule Y(4)[OF assms(2)])
  have M: "1 \<le> m" "m \<le> 12" "0 \<le> d" "d < 31" "days_in_year ! m + (if IS_LEAP_YEAR y \<and> m > 2 then 1 else 0) + d = days - (y * 365 + LEAP_YEARS y)"
    using month_loop_ok[OF Y(1,2)] md by (metis prod.inject)+
  have w: "(of_nat m :: u16) = word_of_int (int m)" by simp
  note P = packed_ints[OF t[unfolded w]]
  show "uint (t AND 0x1f) = d + 1" unfolding masks by (rule P(1)) (use M Y(3) y127 in simp_all)
  show "uint (drop_bit 5 t AND 0xf) = int m" using P(2) M Y(3) y127 unfolding masks by simp
  show "uint (drop_bit 9 t) = y" by (rule P(3)) (use M Y(3) y127 in simp_all)
  show "1 \<le> m" "m \<le> 12" "0 \<le> d" "d < 31" by (fact M)+
  show "y * 365 + LEAP_YEARS y + days_in_year ! m + (if IS_LEAP_YEAR y \<and> m > 2 then 1 else 0) + d = days" using M(5) by linarith
  show "0 \<le> y" "y \<le> 127" by (fact Y(3), fact y127)
qed

lemma stamp_value:
  assumes "uint (dt AND 0x1f) = d + 1" "uint (drop_bit 5 dt AND 0xf) = int m" "uint (drop_bit 9 dt) = y"
    "uint (tm AND 0x1f) = a" "uint (drop_bit 5 tm AND 0x3f) = b" "uint (drop_bit 11 tm) = c"
    "1 \<le> m" "m \<le> 12" "0 \<le> d" "d < 31" "y * 365 + LEAP_YEARS y + days_in_year ! m + (if IS_LEAP_YEAR y \<and> m > 2 then 1 else 0) + d = days"
    "a < 30" "b < 60" "c < 24" "cs \<le> 199" "uint cs div 100 = h" "tz AND 0x80 \<noteq> 0"
  shows "exfat_exfat2unix local_zone dt tm cs tz = EPOCH_DIFF_SEC + days * 86400 + c * 3600 + b * 60 + a * 2 + h - tz_seconds tz"
proof -
  have g: "\<not> (d + 1 = 0 \<or> int m = 0 \<or> int m > 12)" "\<not> (c > 23 \<or> b > 59 \<or> a > 29)" "\<not> cs > 199"
    using assms(7-10,12-15) by auto
  have l: "(if (1980 + y) mod 4 = 0 \<and> int m > 2 then 86400 else 0) = 86400 * (if IS_LEAP_YEAR y \<and> m > 2 then 1 else (0 :: int))"
    by (auto simp: IS_LEAP_YEAR_def)
  show ?thesis
    unfolding exfat_exfat2unix_def Let_def assms(1-6,16) l if_not_P[OF g(1)] if_not_P[OF g(2)] if_not_P[OF g(3)] if_P[OF assms(17)] assms(11)[symmetric]
    by (simp add: algebra_simps)
qed

text \<open>
  C35. A time stamp written by \<^verbatim>\<open>exfat_unix2exfat\<close> is read back by \<^verbatim>\<open>exfat_exfat2unix\<close> to the second, for every
  time from 1980 to the end of 2107 and every time zone that is a whole number of quarters of an hour.
\<close>
theorem exfat_time_roundtrip:
  assumes "exfat_timezone = 900 * k" "- 63 \<le> k" "k \<le> 64"
    and "EPOCH_DIFF_SEC + exfat_timezone \<le> t" "t < EPOCH_DIFF_SEC + exfat_timezone + 46752 * 86400"
  shows "(let e = exfat_unix2exfat exfat_timezone t in
    exfat_exfat2unix local_zone (es_date e) (es_time e) (es_centisec e) (es_tzoffset e)) = t"
proof -
  define T where "T = t - (EPOCH_DIFF_SEC + exfat_timezone)"
  define days where "days = T div 86400"
  define y where "y = 4 * days div 1461"
  obtain m d where md: "month_loop (IS_LEAP_YEAR y) (days - (y * 365 + LEAP_YEARS y)) [1..<13] = (m, d)" by (metis surj_pair)
  have T: "0 \<le> T" "T < 46752 * 86400" using assms(4,5) by (simp_all add: T_def)
  then have dd: "0 \<le> days" "days < 46752" unfolding days_def by linarith+
  define dt where "dt = (word_of_int (d + 1) OR push_bit 5 (of_nat m) OR push_bit 9 (word_of_int y) :: u16)"
  define tm where "tm = (word_of_int (T mod 60 div 2) OR push_bit 5 (word_of_int (T mod 3600 div 60)) OR push_bit 11 (word_of_int (T mod 86400 div 3600)) :: u16)"
  note F = stamp_date_fields[OF dd y_def md dt_def] and G = stamp_time_fields[OF tm_def clock_bounds]
  have yw: "uint (word_of_int y :: u16) = y" using F(9,10) by (intro uint_field) linarith+
  have cs: "word_of_int (T mod 2 * 100) \<le> (199 :: u8)" "uint (word_of_int (T mod 2 * 100) :: u8) div 100 = T mod 2"
    by (cases "T mod 2 = 0"; simp add: mod2_eq_if)+
  have st: "exfat_unix2exfat exfat_timezone t = \<lparr>es_date = dt, es_time = tm, es_centisec = word_of_int (T mod 2 * 100), es_tzoffset = word_of_int (- k) OR 0x80\<rparr>"
    using assms(4) md by (simp add: exfat_unix2exfat_def Let_def T_def[symmetric] days_def[symmetric] y_def[symmetric] yw dt_def tm_def assms(1)[symmetric] c_div_quarters[of k, folded assms(1)])
  have "exfat_exfat2unix local_zone dt tm (word_of_int (T mod 2 * 100)) (word_of_int (- k) OR 0x80) =
      EPOCH_DIFF_SEC + days * 86400 + T mod 86400 div 3600 * 3600 + T mod 3600 div 60 * 60 + T mod 60 div 2 * 2 + T mod 2 + 900 * k"
    using stamp_value[OF F(1,2,3) G F(4-8) clock_bounds(2,4,6) cs tz_roundtrip(2)[OF assms(2,3)]] tz_roundtrip(1)[OF assms(2,3)] by simp
  also have "\<dots> = t" using clock_sum[of T] div_mult_mod_eq[of T 86400] unfolding days_def T_def assms(1) by linarith
  finally have "exfat_exfat2unix local_zone dt tm (word_of_int (T mod 2 * 100)) (word_of_int (- k) OR 0x80) = t" .
  then show ?thesis unfolding st by simp
qed

theorem exfat_time_roundtrip_witness:
  "(let e = exfat_unix2exfat (- 3600) 1700000001 in exfat_exfat2unix 0 (es_date e) (es_time e) (es_centisec e) (es_tzoffset e)) = 1700000001 \<and>
   es_date (exfat_unix2exfat (- 3600) 1700000001) = 0x576E"
proof
  show "(let e = exfat_unix2exfat (- 3600) 1700000001 in exfat_exfat2unix 0 (es_date e) (es_time e) (es_centisec e) (es_tzoffset e)) = 1700000001"
    by (rule exfat_time_roundtrip[of _ "- 4"]) (simp_all add: EPOCH_DIFF_SEC_def)
  show "es_date (exfat_unix2exfat (- 3600) 1700000001) = 0x576E" by code_simp
qed

end
