(* ===== verification/Exfat_Utf.thy ===== *)
theory Exfat_Utf
  imports Prelude
begin

text \<open>
  Name conversion of the exFAT driver, \<^verbatim>\<open>fs/exfat/utf.c\<close>.  The code goes through \<^verbatim>\<open>wchar_t\<close>, whose width depends on the
  compiler: 16 bits in this build (mingw), 32 bits on the systems the code was written for.  The
  definitions are generic in the width, a type argument.  Output buffers are lists with a write position,
  a returned pointer is the rest of the input.
\<close>

unbundle bit_operations_syntax

datatype utf_rc = UTF_OK | EILSEQ | ENAMETOOLONG

section \<open>The conversions\<close>

definition wchar_to_utf8 :: "'w::len word \<Rightarrow> nat \<Rightarrow> bytes option" where
  "wchar_to_utf8 wc outsize =
     (if unat wc \<le> 0x7f then if outsize < 1 then None else Some [ucast wc]
      else if unat wc \<le> 0x7ff then if outsize < 2 then None
        else Some [0xc0 OR ucast (drop_bit 6 wc), 0x80 OR ucast (wc AND 0x3f)]
      else if unat wc \<le> 0xffff then if outsize < 3 then None
        else Some [0xe0 OR ucast (drop_bit 12 wc), 0x80 OR ucast (drop_bit 6 wc AND 0x3f), 0x80 OR ucast (wc AND 0x3f)]
      else if unat wc \<le> 0x1fffff then if outsize < 4 then None
        else Some [0xf0 OR ucast (drop_bit 18 wc), 0x80 OR ucast (drop_bit 12 wc AND 0x3f),
                   0x80 OR ucast (drop_bit 6 wc AND 0x3f), 0x80 OR ucast (wc AND 0x3f)]
      else if unat wc \<le> 0x3ffffff then if outsize < 5 then None
        else Some [0xf8 OR ucast (drop_bit 24 wc), 0x80 OR ucast (drop_bit 18 wc AND 0x3f), 0x80 OR ucast (drop_bit 12 wc AND 0x3f),
                   0x80 OR ucast (drop_bit 6 wc AND 0x3f), 0x80 OR ucast (wc AND 0x3f)]
      else if unat wc \<le> 0x7fffffff then if outsize < 6 then None
        else Some [0xfc OR ucast (drop_bit 30 wc), 0x80 OR ucast (drop_bit 24 wc AND 0x3f), 0x80 OR ucast (drop_bit 18 wc AND 0x3f),
                   0x80 OR ucast (drop_bit 12 wc AND 0x3f), 0x80 OR ucast (drop_bit 6 wc AND 0x3f), 0x80 OR ucast (wc AND 0x3f)]
      else None)"

fun utf16_to_wchar :: "u16 list \<Rightarrow> ('w::len word \<times> u16 list) option" where
  "utf16_to_wchar [] = None"
| "utf16_to_wchar (u # us) =
     (if u AND 0xfc00 = 0xd800 then
        (case us of
           [] \<Rightarrow> None
         | v # vs \<Rightarrow> if v AND 0xfc00 \<noteq> 0xdc00 then None
             else Some ((push_bit 10 (ucast (u AND 0x3ff)) OR ucast (v AND 0x3ff)) + 0x10000, vs))
      else Some (ucast u, us))"

lemma utf16_to_wchar_less: "utf16_to_wchar us = Some (wc, rest) \<Longrightarrow> length rest < length us"
  by (cases us) (auto split: if_splits list.splits)

function utf16_to_utf8_loop :: "'w::len itself \<Rightarrow> bytes \<Rightarrow> nat \<Rightarrow> nat \<Rightarrow> u16 list \<Rightarrow> utf_rc \<times> bytes" where
  "utf16_to_utf8_loop W out pos outsize input =
     (if input = [] then if pos \<ge> outsize then (ENAMETOOLONG, out) else (UTF_OK, out[pos := 0])
      else case utf16_to_wchar input of
        None \<Rightarrow> (EILSEQ, out)
      | Some (wc, rest) \<Rightarrow>
          (case wchar_to_utf8 (wc :: 'w word) (outsize - pos) of
             None \<Rightarrow> (ENAMETOOLONG, out)
           | Some bs \<Rightarrow>
               if wc = 0 then (UTF_OK, buf_put out pos bs)
               else utf16_to_utf8_loop W (buf_put out pos bs) (pos + length bs) outsize rest))"
  by pat_completeness auto
termination by (relation "measure (\<lambda>(W, out, pos, outsize, input). length input)") (auto dest: utf16_to_wchar_less)

declare utf16_to_utf8_loop.simps [simp del]

definition exfat_utf16_to_utf8 :: "'w::len itself \<Rightarrow> bytes \<Rightarrow> u16 list \<Rightarrow> nat \<Rightarrow> utf_rc \<times> bytes" where
  "exfat_utf16_to_utf8 W output input outsize = utf16_to_utf8_loop W output 0 outsize input"

fun cont_loop :: "'w::len word \<Rightarrow> nat \<Rightarrow> bytes \<Rightarrow> ('w word \<times> bytes) option" where
  "cont_loop wc 0 bs = Some (wc, bs)"
| "cont_loop wc (Suc n) [] = None"
| "cont_loop wc (Suc n) (b # bs) =
     (if b AND 0xc0 \<noteq> 0x80 then None else cont_loop (wc OR push_bit (n * 6) (ucast (b AND 0x3f))) n bs)"

text \<open>\<open>None\<close> stands for the NULL result; the call with no input, which stops the program, does not occur.\<close>

fun utf8_to_wchar :: "bytes \<Rightarrow> ('w::len word \<times> bytes) option" where
  "utf8_to_wchar [] = None"
| "utf8_to_wchar (b # bs) =
     (if b AND 0x80 = 0 then Some (ucast b, bs)
      else if b AND 0xe0 = 0xc0 then if length (b # bs) < 2 then None else cont_loop (push_bit 6 (ucast (b AND 0x1f))) 1 bs
      else if b AND 0xf0 = 0xe0 then if length (b # bs) < 3 then None else cont_loop (push_bit 12 (ucast (b AND 0x0f))) 2 bs
      else if b AND 0xf8 = 0xf0 then if length (b # bs) < 4 then None else cont_loop (push_bit 18 (ucast (b AND 0x07))) 3 bs
      else if b AND 0xfc = 0xf8 then if length (b # bs) < 5 then None else cont_loop (push_bit 24 (ucast (b AND 0x03))) 4 bs
      else if b AND 0xfe = 0xfc then if length (b # bs) < 6 then None else cont_loop (push_bit 30 (ucast (b AND 0x01))) 5 bs
      else None)"

lemma cont_loop_less: "cont_loop wc n bs = Some (wc', rest) \<Longrightarrow> length rest \<le> length bs"
  by (induction wc n bs rule: cont_loop.induct) (auto split: if_splits)

lemma utf8_to_wchar_less: "utf8_to_wchar bs = Some (wc, rest) \<Longrightarrow> length rest < length bs"
  by (cases bs) (auto split: if_splits dest: cont_loop_less)

definition wchar_to_utf16 :: "'w::len word \<Rightarrow> nat \<Rightarrow> u16 list option" where
  "wchar_to_utf16 wc outsize =
     (if unat wc \<le> 0xffff then if outsize = 0 then None else Some [ucast wc]
      else if outsize < 2 then None
      else let w = wc - 0x10000 in Some [0xd800 OR (ucast (drop_bit 10 w) AND 0x3ff), 0xdc00 OR (ucast w AND 0x3ff)])"

definition put_units :: "u16 list \<Rightarrow> nat \<Rightarrow> u16 list \<Rightarrow> u16 list" where
  "put_units out pos us = take pos out @ us @ drop (pos + length us) out"

function utf8_to_utf16_loop :: "'w::len itself \<Rightarrow> u16 list \<Rightarrow> nat \<Rightarrow> nat \<Rightarrow> bytes \<Rightarrow> utf_rc \<times> u16 list" where
  "utf8_to_utf16_loop W out pos outsize input =
     (if input = [] then if pos \<ge> outsize then (ENAMETOOLONG, out) else (UTF_OK, out[pos := 0])
      else case utf8_to_wchar input of
        None \<Rightarrow> (EILSEQ, out)
      | Some (wc, rest) \<Rightarrow>
          (case wchar_to_utf16 (wc :: 'w word) (outsize - pos) of
             None \<Rightarrow> (ENAMETOOLONG, out)
           | Some us \<Rightarrow>
               if wc = 0 then
                 (if pos + length us \<ge> outsize then (ENAMETOOLONG, put_units out pos us)
                  else (UTF_OK, (put_units out pos us)[pos + length us := 0]))
               else utf8_to_utf16_loop W (put_units out pos us) (pos + length us) outsize rest))"
  by pat_completeness auto
termination by (relation "measure (\<lambda>(W, out, pos, outsize, input). length input)") (auto dest: utf8_to_wchar_less)

declare utf8_to_utf16_loop.simps [simp del]

definition exfat_utf8_to_utf16 :: "'w::len itself \<Rightarrow> u16 list \<Rightarrow> bytes \<Rightarrow> nat \<Rightarrow> utf_rc \<times> u16 list" where
  "exfat_utf8_to_utf16 W output input outsize = utf8_to_utf16_loop W output 0 outsize input"

text \<open>The length of a terminated string; \<open>None\<close> is a read past the end of an unterminated one.\<close>

fun exfat_utf16_length :: "u16 list \<Rightarrow> nat option" where
  "exfat_utf16_length [] = None"
| "exfat_utf16_length (u # us) = (if u = 0 then Some 0 else map_option Suc (exfat_utf16_length us))"

section \<open>One character\<close>

text \<open>Facts on bytes and units, checked value by value.\<close>

lemma all_below: "\<forall>x \<in> set (map of_nat [0..<n]). P x \<Longrightarrow> unat (x :: 'a::len word) < n \<Longrightarrow> P x"
proof -
  assume a: "\<forall>x \<in> set (map of_nat [0..<n]). P (x :: 'a word)" and x: "unat x < n"
  have "(of_nat (unat x) :: 'a word) \<in> set (map of_nat [0..<n])" unfolding set_map set_upt by (rule imageI) (use x in simp)
  then show ?thesis using bspec[OF a, of "of_nat (unat x)"] by simp
qed

lemma lead_bytes:
  "unat (x :: u8) < 32 \<Longrightarrow> (0xc0 OR x) AND 0x80 \<noteq> 0 \<and> (0xc0 OR x) AND 0xe0 = 0xc0 \<and> (0xc0 OR x) AND 0x1f = x"
  "unat x < 16 \<Longrightarrow> (0xe0 OR x) AND 0x80 \<noteq> 0 \<and> (0xe0 OR x) AND 0xe0 \<noteq> 0xc0 \<and> (0xe0 OR x) AND 0xf0 = 0xe0 \<and> (0xe0 OR x) AND 0x0f = x"
  "unat x < 8 \<Longrightarrow> (0xf0 OR x) AND 0x80 \<noteq> 0 \<and> (0xf0 OR x) AND 0xe0 \<noteq> 0xc0 \<and> (0xf0 OR x) AND 0xf0 \<noteq> 0xe0 \<and> (0xf0 OR x) AND 0xf8 = 0xf0 \<and> (0xf0 OR x) AND 0x07 = x"
  "unat x < 64 \<Longrightarrow> (0x80 OR x) AND 0xc0 = 0x80 \<and> (0x80 OR x) AND 0x3f = x"
  "unat x < 128 \<Longrightarrow> x AND 0x80 = 0"
  by (erule all_below[rotated]; code_simp)+

lemma unat_drop: "unat (wc :: 'w::len word) < 2 ^ (m + k) \<Longrightarrow> unat (drop_bit m wc) < 2 ^ k"
proof -
  assume a: "unat wc < 2 ^ (m + k)"
  have t: "take_bit LENGTH('w) (unat wc) = unat wc" by (rule take_bit_nat_eq_self) (rule unsigned_less)
  have "unat (drop_bit m wc) = unat wc div 2 ^ m" by (simp only: unsigned_drop_bit_eq t) (simp add: drop_bit_eq_div)
  then show ?thesis using a by (simp add: less_mult_imp_div_less power_add mult.commute)
qed

lemma drop_part: "unat (wc :: 'w::len word) < 2 ^ (m + k) \<Longrightarrow> unat (ucast (drop_bit m wc) :: u8) < 2 ^ k"
proof -
  assume "unat wc < 2 ^ (m + k)"
  moreover have "unat (ucast (drop_bit m wc) :: u8) \<le> unat (drop_bit m wc)" by (simp only: unsigned_ucast_eq) (simp add: take_bit_nat_def)
  ultimately show ?thesis using unat_drop[of wc m k] by simp
qed

lemma and_six: "unat (v AND 0x3f) < 64" for v :: "'w::len word"
proof -
  have "unat (v AND 0x3f) \<le> unat (0x3f :: 'w word)" using word_and_le1[of v "0x3f"] by (simp add: word_le_nat_alt)
  also have "\<dots> \<le> 63" by (simp only: unsigned_numeral) (simp add: take_bit_nat_def)
  finally show ?thesis by simp
qed

lemma six_bits: "unat (ucast (v AND 0x3f) :: u8) < 64" for v :: "'w::len word"
proof -
  have "unat (ucast (v AND 0x3f) :: u8) \<le> unat (v AND 0x3f)" by (simp only: unsigned_ucast_eq) (simp add: take_bit_nat_def)
  then show ?thesis using and_six[of v] by simp
qed

text \<open>The six-bit groups of a character put together again.\<close>

lemma byte_cast: "unat (x :: 'w::len word) < 256 \<Longrightarrow> ucast (ucast x :: u8) = x"
  by (simp add: word_unat_eq_iff unsigned_ucast_eq unsigned_take_bit_eq take_bit_nat_eq_self)

lemma join: "push_bit n (drop_bit n w) OR (w AND mask n) = (w :: 'w::len word)"
  by (rule bit_word_eqI) (auto simp: bit_or_iff bit_and_iff bit_push_bit_iff bit_drop_bit_eq bit_mask_iff)

lemma regroup:
  fixes wc :: "'w::len word"
  shows "unat wc < 2 ^ 11 \<Longrightarrow> push_bit 6 (ucast (ucast (drop_bit 6 wc) :: u8)) OR ucast (ucast (wc AND 0x3f) :: u8) = wc"
    "unat wc < 2 ^ 16 \<Longrightarrow> push_bit 12 (ucast (ucast (drop_bit 12 wc) :: u8)) OR push_bit 6 (ucast (ucast (drop_bit 6 wc AND 0x3f) :: u8)) OR
       ucast (ucast (wc AND 0x3f) :: u8) = wc"
    "unat wc < 2 ^ 21 \<Longrightarrow> push_bit 18 (ucast (ucast (drop_bit 18 wc) :: u8)) OR push_bit 12 (ucast (ucast (drop_bit 12 wc AND 0x3f) :: u8)) OR
       push_bit 6 (ucast (ucast (drop_bit 6 wc AND 0x3f) :: u8)) OR ucast (ucast (wc AND 0x3f) :: u8) = wc"
proof -
  have m: "(0x3f :: 'w word) = mask 6" by (simp add: mask_eq_exp_minus_1)
  have j: "push_bit (6 + k) (drop_bit (6 + k) wc) OR push_bit k (drop_bit k wc AND mask 6) = push_bit k (drop_bit k wc)" for k
    using arg_cong[OF join[of 6 "drop_bit k wc"], of "push_bit k"] by (simp add: push_bit_or add.commute)
  have c: "ucast (ucast (v AND 0x3f) :: u8) = v AND 0x3f" for v :: "'w word" by (rule byte_cast) (use and_six[of v] in simp)
  show "push_bit 6 (ucast (ucast (drop_bit 6 wc) :: u8)) OR ucast (ucast (wc AND 0x3f) :: u8) = wc" if "unat wc < 2 ^ 11"
    unfolding c using byte_cast[of "drop_bit 6 wc"] unat_drop[of wc 6 5] that join[of 6 wc] by (simp add: m)
  show "push_bit 12 (ucast (ucast (drop_bit 12 wc) :: u8)) OR push_bit 6 (ucast (ucast (drop_bit 6 wc AND 0x3f) :: u8)) OR
       ucast (ucast (wc AND 0x3f) :: u8) = wc" if "unat wc < 2 ^ 16"
    unfolding c using byte_cast[of "drop_bit 12 wc"] unat_drop[of wc 12 4] that join[of 6 wc] j[of 6] by (simp add: m flip: or.assoc)
  show "push_bit 18 (ucast (ucast (drop_bit 18 wc) :: u8)) OR push_bit 12 (ucast (ucast (drop_bit 12 wc AND 0x3f) :: u8)) OR
       push_bit 6 (ucast (ucast (drop_bit 6 wc AND 0x3f) :: u8)) OR ucast (ucast (wc AND 0x3f) :: u8) = wc" if "unat wc < 2 ^ 21"
    unfolding c using byte_cast[of "drop_bit 18 wc"] unat_drop[of wc 18 3] that join[of 6 wc] j[of 6] j[of 12] by (simp add: m flip: or.assoc)
qed

lemma cont_numerals:
  "cont_loop wc 2 bs = cont_loop wc (Suc (Suc 0)) bs" "cont_loop wc 3 bs = cont_loop wc (Suc (Suc (Suc 0))) bs"
  by (simp_all add: numeral_2_eq_2 numeral_3_eq_3)

lemma utf8_char:
  fixes wc :: "'w::len word"
  assumes "wchar_to_utf8 wc n = Some bs" "unat wc < 2 ^ 21"
  shows "utf8_to_wchar (bs @ rest) = Some (wc, rest)" "bs \<noteq> []" "length bs \<le> n"
proof -
  have six: "(0x80 OR ucast (v AND 0x3f) :: u8) AND 0xc0 = 0x80" "(0x80 OR ucast (v AND 0x3f) :: u8) AND 0x3f = ucast (v AND 0x3f)" for v :: "'w word"
    using lead_bytes(4)[OF six_bits, of v] by blast+
  consider (1) "unat wc \<le> 0x7f" | (2) "0x7f < unat wc" "unat wc \<le> 0x7ff" | (3) "0x7ff < unat wc" "unat wc \<le> 0xffff"
    | (4) "0xffff < unat wc" "unat wc \<le> 0x1fffff" using assms(2) by fastforce
  then have "utf8_to_wchar (bs @ rest) = Some (wc, rest) \<and> bs \<noteq> [] \<and> length bs \<le> n"
  proof cases
    case 1
    then have b: "bs = [ucast wc]" "1 \<le> n" using assms(1) by (auto simp: wchar_to_utf8_def split: if_splits)
    have "unat (ucast wc :: u8) < 128" using drop_part[of wc 0 7] 1 by simp
    then show ?thesis using lead_bytes(5) byte_cast[of wc] 1 b by simp
  next
    case 2
    then have b: "bs = [0xc0 OR ucast (drop_bit 6 wc), 0x80 OR ucast (wc AND 0x3f)]" "2 \<le> n"
      using assms(1) by (auto simp: wchar_to_utf8_def split: if_splits)
    have "unat (ucast (drop_bit 6 wc) :: u8) < 32" using drop_part[of wc 6 5] 2 by simp
    then show ?thesis using lead_bytes(1) regroup(1)[of wc] 2 b by (simp add: six)
  next
    case 3
    then have b: "bs = [0xe0 OR ucast (drop_bit 12 wc), 0x80 OR ucast (drop_bit 6 wc AND 0x3f), 0x80 OR ucast (wc AND 0x3f)]" "3 \<le> n"
      using assms(1) by (auto simp: wchar_to_utf8_def split: if_splits)
    have "unat (ucast (drop_bit 12 wc) :: u8) < 16" using drop_part[of wc 12 4] 3 by simp
    then show ?thesis using lead_bytes(2) regroup(2)[of wc] 3 b by (simp add: six cont_numerals or.assoc)
  next
    case 4
    then have b: "bs = [0xf0 OR ucast (drop_bit 18 wc), 0x80 OR ucast (drop_bit 12 wc AND 0x3f), 0x80 OR ucast (drop_bit 6 wc AND 0x3f), 0x80 OR ucast (wc AND 0x3f)]" "4 \<le> n"
      using assms(1) by (auto simp: wchar_to_utf8_def split: if_splits)
    have "unat (ucast (drop_bit 18 wc) :: u8) < 8" using drop_part[of wc 18 3] 4 by simp
    then show ?thesis using lead_bytes(3) regroup(3)[of wc] 4 b by (simp add: six cont_numerals or.assoc)
  qed
  then show "utf8_to_wchar (bs @ rest) = Some (wc, rest)" "bs \<noteq> []" "length bs \<le> n" by blast+
qed

lemma utf8_char_fits:
  "unat (wc :: 'w::len word) < 2 ^ 21 \<Longrightarrow> (if unat wc \<le> 0xffff then 3 else 4) \<le> n \<Longrightarrow> \<exists>bs. wchar_to_utf8 wc n = Some bs \<and> length bs \<le> (if unat wc \<le> 0xffff then 3 else 4)"
  by (auto simp: wchar_to_utf8_def split: if_splits)

text \<open>A code unit, and a surrogate pair.\<close>

lemma surrogate_units:
  "u AND 0xfc00 = (0xd800 :: u16) \<Longrightarrow> 0xd800 OR (u AND 0x3ff) = u" "v AND 0xfc00 = (0xdc00 :: u16) \<Longrightarrow> 0xdc00 OR (v AND 0x3ff) = v"
proof -
  have e: "(0xfc00 OR 0x3ff :: u16) = - 1" by simp
  have s: "(w AND 0xfc00) OR (w AND 0x3ff) = w" for w :: u16
    unfolding bit.conj_disj_distrib[symmetric] e by simp
  show "u AND 0xfc00 = (0xd800 :: u16) \<Longrightarrow> 0xd800 OR (u AND 0x3ff) = u" "v AND 0xfc00 = (0xdc00 :: u16) \<Longrightarrow> 0xdc00 OR (v AND 0x3ff) = v"
    using s[of u] s[of v] by simp_all
qed

lemma ten_bits: "unat ((u :: u16) AND 0x3ff) < 1024"
proof -
  have "unat (u AND 0x3ff) \<le> unat (0x3ff :: u16)" using word_and_le1[of u "0x3ff"] by (simp only: word_le_nat_alt)
  then show ?thesis by simp
qed

lemma pair_value:
  fixes a b :: "'w::len word"
  assumes "21 \<le> LENGTH('w)" "unat a < 1024" "unat b < 1024"
  shows "unat ((push_bit 10 a OR b) + 0x10000) = 1024 * unat a + unat b + 0x10000"
    "drop_bit 10 (push_bit 10 a OR b) = a" "(push_bit 10 a OR b) AND mask 10 = b"
proof -
  have sa: "bit a n \<Longrightarrow> n < 10" and sb: "bit b n \<Longrightarrow> n < 10" for n using bit_small[of a 10] bit_small[of b 10] assms by auto
  have pw: "(2 :: nat) ^ 21 \<le> 2 ^ LENGTH('w)" using assms(1) by (rule power_increasing) simp
  have z: "push_bit 10 a AND b = 0" by (rule bit_word_eqI) (use sb in \<open>fastforce simp: bit_and_iff bit_push_bit_iff\<close>)
  then have o: "push_bit 10 a OR b = push_bit 10 a + b" using word_plus_and_or[of "push_bit 10 a" b] by simp
  have p: "unat (push_bit 10 a) = 1024 * unat a"
  proof -
    have e: "push_bit 10 a = 1024 * a" by (simp add: push_bit_eq_mult mult.commute)
    have k: "unat (1024 :: 'w word) = 1024" by (simp only: unsigned_numeral of_nat_id) (rule take_bit_nat_eq_self, use pw in simp)
    show ?thesis unfolding e using unat_mult_nowrap[of 1024 a] k assms(2) pw by simp
  qed
  have k: "unat (0x10000 :: 'w word) = 0x10000" by (simp only: unsigned_numeral of_nat_id) (rule take_bit_nat_eq_self, use pw in simp)
  have s: "unat (push_bit 10 a + b) = 1024 * unat a + unat b" using unat_add_nowrap[of "push_bit 10 a" b] p assms(2,3) pw by simp
  show "unat ((push_bit 10 a OR b) + 0x10000) = 1024 * unat a + unat b + 0x10000"
    unfolding o using unat_add_nowrap[of "push_bit 10 a + b" "0x10000"] s k assms(2,3) pw by simp
  show "drop_bit 10 (push_bit 10 a OR b) = a"
    by (rule bit_word_eqI) (use sa sb assms(1) in \<open>fastforce simp: bit_or_iff bit_push_bit_iff bit_drop_bit_eq\<close>)
  show "(push_bit 10 a OR b) AND mask 10 = b"
    by (rule bit_word_eqI) (use sa sb in \<open>auto simp: bit_or_iff bit_push_bit_iff bit_and_iff bit_mask_iff\<close>)
qed

lemma unit_roundtrip:
  fixes wc :: "'w::len word"
  assumes L: "16 \<le> LENGTH('w)" and d: "utf16_to_wchar (u # us) = Some (wc, rest)" and w: "u AND 0xfc00 = 0xd800 \<Longrightarrow> 21 \<le> LENGTH('w)"
  obtains c where "u # us = c @ rest" "c \<noteq> []" "\<And>m. length c \<le> m \<Longrightarrow> wchar_to_utf16 wc m = Some c" "unat wc < 2 ^ 21"
    "(if unat wc \<le> 0xffff then 3 else 4) \<le> 3 * length c" "wc = 0 \<Longrightarrow> u = 0"
proof (cases "u AND 0xfc00 = 0xd800")
  case False
  then have r: "wc = ucast u" "rest = us" using d by auto
  have b: "unat u < 2 ^ 16" using unsigned_less[of u] by simp
  have p: "(2 :: nat) ^ 16 \<le> 2 ^ LENGTH('w)" using L by (rule power_increasing) simp
  have u: "unat wc = unat u" unfolding r by (simp only: unsigned_ucast_eq) (rule take_bit_nat_eq_self, use b p in simp)
  have e: "ucast wc = u" by (simp add: word_unat_eq_iff unsigned_ucast_eq u take_bit_nat_eq_self b[simplified])
  show ?thesis by (rule that[of "[u]"]) (use r u b e in \<open>simp_all add: wchar_to_utf16_def word_unat_eq_iff\<close>)
next
  case True
  then obtain v vs where v: "us = v # vs" "v AND 0xfc00 = 0xdc00" "rest = vs"
    "wc = (push_bit 10 (ucast (u AND 0x3ff)) OR ucast (v AND 0x3ff)) + 0x10000"
    using d by (auto split: list.splits if_splits)
  let ?a = "ucast (u AND 0x3ff) :: 'w word" and ?b = "ucast (v AND 0x3ff) :: 'w word"
  have p: "(2 :: nat) ^ 16 \<le> 2 ^ LENGTH('w)" using L by (rule power_increasing) simp
  have c: "unat (ucast (x AND 0x3ff) :: 'w word) = unat (x AND 0x3ff)" for x :: u16
    by (simp only: unsigned_ucast_eq) (rule take_bit_nat_eq_self, use ten_bits[of x] p in simp)
  note P = pair_value[OF w[OF True], of ?a ?b, unfolded c, OF ten_bits ten_bits]
  have m: "(0x3ff :: u16) = mask 10" by (simp add: mask_eq_exp_minus_1)
  have bk: "ucast (ucast (x AND 0x3ff) :: 'w word) = x AND (0x3ff :: u16)" for x :: u16
    unfolding word_unat_eq_iff unsigned_ucast_eq[of "ucast (x AND 0x3ff) :: 'w word"] c by (rule take_bit_nat_eq_self) (use ten_bits[of x] in simp)
  have hi: "ucast (drop_bit 10 (wc - 0x10000)) AND (0x3ff :: u16) = u AND 0x3ff"
    unfolding v(4) add_diff_cancel_right' P(2) bk by (simp add: and.assoc)
  have "ucast (wc - 0x10000) AND (0x3ff :: u16) = ucast ((wc - 0x10000) AND mask 10)"
    unfolding m by (rule bit_word_eqI) (auto simp: bit_and_iff bit_mask_iff bit_unsigned_iff dest: bit_imp_le_length)
  then have lo: "ucast (wc - 0x10000) AND (0x3ff :: u16) = v AND 0x3ff"
    unfolding v(4) add_diff_cancel_right' P(3) bk .
  have big: "unat wc > 0xffff" "unat wc < 2 ^ 21" unfolding v(4) P(1) using ten_bits[of u] ten_bits[of v] by simp_all
  show ?thesis
    by (rule that[of "[u, v]"]) (use v big hi lo surrogate_units(1)[OF True] surrogate_units(2)[OF v(2)] in \<open>auto simp: wchar_to_utf16_def Let_def\<close>)
qed

section \<open>Whole names\<close>

text \<open>
  A name without zero units in which every high surrogate is followed by a low one; with narrow
  characters there must be no high surrogate at all.
\<close>

fun units_ok :: "bool \<Rightarrow> u16 list \<Rightarrow> bool" where
  "units_ok wide [] = True"
| "units_ok wide (u # us) =
     (u \<noteq> 0 \<and> (if u AND 0xfc00 = 0xd800 then wide \<and> (case us of [] \<Rightarrow> False | v # vs \<Rightarrow> v AND 0xfc00 = 0xdc00 \<and> units_ok wide vs)
                else units_ok wide us))"

lemma units_ok_step:
  fixes W :: "'w::len itself"
  assumes "units_ok wide (u # us)"
  obtains wc :: "'w word" and rest where "utf16_to_wchar (u # us) = Some (wc, rest)" "units_ok wide rest" "u \<noteq> 0" "u AND 0xfc00 = 0xd800 \<Longrightarrow> wide"
  using assms by (auto split: if_splits list.splits)

lemma put_bytes_more:
  "pos + length bs + length cs \<le> length out \<Longrightarrow> buf_put (buf_put out pos bs) (pos + length bs) cs = buf_put out pos (bs @ cs)"
  by (simp add: buf_put_def ac_simps)

lemma put_byte_last: "pos < length out \<Longrightarrow> out[pos := x] = buf_put out pos [x]"
  by (simp add: buf_put_def upd_conv_take_nth_drop)

lemma put_units_more:
  "pos + length bs + length cs \<le> length out \<Longrightarrow> put_units (put_units out pos bs) (pos + length bs) cs = put_units out pos (bs @ cs)"
  by (simp add: put_units_def ac_simps)

lemma put_unit_last: "pos < length out \<Longrightarrow> out[pos := x] = put_units out pos [x]"
  by (simp add: put_units_def upd_conv_take_nth_drop)

lemma length_put_units: "pos + length us \<le> length out \<Longrightarrow> length (put_units out pos us) = length out"
  by (simp add: put_units_def)

lemma names_run:
  fixes W :: "'w::len itself"
  assumes L: "16 \<le> LENGTH('w)" and wide: "wide \<Longrightarrow> 21 \<le> LENGTH('w)"
  shows "units_ok wide us \<Longrightarrow> pos + 3 * length us < outsize \<Longrightarrow> outsize \<le> length out \<Longrightarrow>
    \<exists>bs. length bs \<le> 3 * length us \<and> utf16_to_utf8_loop W out pos outsize us = (UTF_OK, buf_put out pos (bs @ [0])) \<and>
      (\<forall>out2 pos2 size2. pos2 + length us < size2 \<and> size2 \<le> length out2 \<longrightarrow>
        utf8_to_utf16_loop W out2 pos2 size2 bs = (UTF_OK, put_units out2 pos2 (us @ [0])))"
proof (induction us arbitrary: out pos rule: length_induct)
  case (1 us)
  show ?case
  proof (cases us)
    case Nil
    then show ?thesis using 1 by (intro exI[of _ "[]"]) (simp add: utf16_to_utf8_loop.simps utf8_to_utf16_loop.simps put_byte_last put_unit_last)
  next
    case (Cons u us')
    obtain wc :: "'w word" and rest where d: "utf16_to_wchar us = Some (wc, rest)" "units_ok wide rest" "u \<noteq> 0" "u AND 0xfc00 = 0xd800 \<Longrightarrow> wide"
      using units_ok_step[of wide u us'] 1(2) unfolding Cons by metis
    obtain c where c: "us = c @ rest" "c \<noteq> []" "\<And>m. length c \<le> m \<Longrightarrow> wchar_to_utf16 wc m = Some c" "unat wc < 2 ^ 21"
      "(if unat wc \<le> 0xffff then 3 else 4) \<le> 3 * length c" "wc = 0 \<Longrightarrow> u = 0"
      using unit_roundtrip[OF L d(1)[unfolded Cons] wide[OF d(4)]] unfolding Cons by metis
    have z: "wc \<noteq> 0" using c(6) d(3) by blast
    obtain e where e: "wchar_to_utf8 wc (outsize - pos) = Some e" "length e \<le> 3 * length c"
      using utf8_char_fits[OF c(4), of "outsize - pos"] c(1,5) 1(3) by force
    note E = utf8_char[OF e(1) c(4)]
    have lr: "length rest < length us" using c(1,2) by simp
    have "pos + length e + 3 * length rest < outsize" "outsize \<le> length (buf_put out pos e)" using 1(3,4) e(2) c(1) E(3) by simp_all
    then obtain bs where bs: "length bs \<le> 3 * length rest"
      "utf16_to_utf8_loop W (buf_put out pos e) (pos + length e) outsize rest = (UTF_OK, buf_put (buf_put out pos e) (pos + length e) (bs @ [0]))"
      "\<And>out2 pos2 size2. pos2 + length rest < size2 \<Longrightarrow> size2 \<le> length out2 \<Longrightarrow>
        utf8_to_utf16_loop W out2 pos2 size2 bs = (UTF_OK, put_units out2 pos2 (rest @ [0]))"
      using 1(1)[rule_format, OF lr d(2), of "pos + length e" "buf_put out pos e"] by blast
    have full: "pos + length e + length (bs @ [0]) \<le> length out" using 1(3,4) e(2) bs(1) c(1) by simp
    have ne: "us \<noteq> []" by (simp add: Cons)
    have "utf16_to_utf8_loop W out pos outsize us = (UTF_OK, buf_put out pos ((e @ bs) @ [0]))"
      using d(1) e(1) z bs(2) put_bytes_more[of pos e "bs @ [0]" out] full
      by (subst utf16_to_utf8_loop.simps) (simp add: ne)
    moreover have "utf8_to_utf16_loop W out2 pos2 size2 (e @ bs) = (UTF_OK, put_units out2 pos2 (us @ [0]))"
      if "pos2 + length us < size2" "size2 \<le> length out2" for out2 pos2 size2
      using E(1)[of bs] E(2) z c(1) c(3)[of "size2 - pos2"] bs(3)[of "pos2 + length c" size2 "put_units out2 pos2 c"] that
        put_units_more[of pos2 c "rest @ [0]" out2] length_put_units[of pos2 c out2]
      by (subst utf8_to_utf16_loop.simps) simp
    ultimately show ?thesis using bs(1) e(2) c(1) by (intro exI[of _ "e @ bs"]) simp
  qed
qed

text \<open>
  C36. A name converted to UTF-8 and back is the same name, and both conversions succeed, whenever the
  buffers hold the longest possible result: for 32-bit wide characters every name of valid UTF-16, for the
  16-bit wide characters of this build every name without surrogate pairs.
\<close>
theorem exfat_name_roundtrip:
  fixes W :: "'w::len itself"
  assumes "16 \<le> LENGTH('w)" "wide \<longrightarrow> 21 \<le> LENGTH('w)" "units_ok wide name"
    and "3 * length name < outsize" "outsize \<le> length out" "length name < outsize2" "outsize2 \<le> length out2"
  shows "\<exists>bs. exfat_utf16_to_utf8 W out name outsize = (UTF_OK, buf_put out 0 (bs @ [0])) \<and>
    exfat_utf8_to_utf16 W out2 bs outsize2 = (UTF_OK, put_units out2 0 (name @ [0]))"
  using names_run[OF assms(1) _ assms(3), of 0 outsize out W] assms unfolding exfat_utf16_to_utf8_def exfat_utf8_to_utf16_def by auto

theorem exfat_name_roundtrip_witness:
  "\<exists>bs. exfat_utf16_to_utf8 TYPE(16) (replicate 8 0) [0x41, 0x20AC] 8 = (UTF_OK, buf_put (replicate 8 0) 0 (bs @ [0])) \<and>
     exfat_utf8_to_utf16 TYPE(16) (replicate 4 0) bs 4 = (UTF_OK, put_units (replicate 4 0) 0 [0x41, 0x20AC, 0])"
  using exfat_name_roundtrip[of False "[0x41, 0x20AC]" 8 "replicate 8 0" 4 "replicate 4 0" "TYPE(16)"] by simp

text \<open>
  With the 16-bit wide characters of this build a surrogate pair is not converted: the pair for
  U+1F600 becomes the three bytes of U+F600, which read back as one other unit, and no error is reported.
\<close>
theorem surrogate_pair_lost:
  "exfat_utf16_to_utf8 TYPE(16) [0, 0, 0, 0, 0, 0, 0, 0] [0xD83D, 0xDE00] 8 = (UTF_OK, [0xEF, 0x98, 0x80, 0, 0, 0, 0, 0]) \<and>
   exfat_utf8_to_utf16 TYPE(16) [0, 0, 0, 0] [0xEF, 0x98, 0x80] 4 = (UTF_OK, [0xF600, 0, 0, 0])"
  by (simp add: exfat_utf16_to_utf8_def exfat_utf8_to_utf16_def utf16_to_utf8_loop.simps utf8_to_utf16_loop.simps wchar_to_utf8_def
      wchar_to_utf16_def buf_put_def put_units_def cont_numerals Let_def)

end
