(* ===== verification/Exfat_Model.thy ===== *)
theory Exfat_Model
  imports Block
begin

text \<open>
  The exFAT volume access of \<^verbatim>\<open>fs/exfat/io.c\<close> and the cluster management of \<^verbatim>\<open>fs/exfat/cluster.c\<close>, in the UEFI build: bytes of a partition
  read and written through the block layer, the free-space bitmap, cluster chains, growing, shrinking
  and erasing files, and file reads and writes.  An outer \<open>option\<close> is \<open>None\<close> where the C code overruns a buffer
  or stops in \<^verbatim>\<open>exfat_bug\<close>, which never returns.  Messages are not modelled; the clock of this build
  always reads 0.
\<close>

unbundle bit_operations_syntax

section \<open>Bytes of the partition\<close>

datatype exfat_mode = EXFAT_MODE_RO | EXFAT_MODE_RW | EXFAT_MODE_ANY

record exfat_dev =
  dev_fd :: int
  dev_mode :: exfat_mode
  dev_size :: u64
  dev_pos :: u64

text \<open>
  The state behind a device: the disk, \<^verbatim>\<open>exfat_partition_offset\<close>, and the static sector buffers of the two transfer
  functions.
\<close>

record 's exfat_io =
  io_disk :: 's
  exfat_partition_offset :: u64
  pread_buf :: bytes
  pwrite_buf :: bytes

definition exfat_set_partition_offset :: "u64 \<Rightarrow> 's exfat_io \<Rightarrow> 's exfat_io" where
  "exfat_set_partition_offset offset io = io\<lparr>exfat_partition_offset := offset\<rparr>"

text \<open>
  \<open>spec\<close> tells whether a path was passed; \<open>alloc\<close> whether \<^verbatim>\<open>malloc\<close> had memory, \<open>ms_blocks\<close> and \<open>sata_blocks\<close> stand for \<^verbatim>\<open>ms_get_num_blocks\<close> and
  \<^verbatim>\<open>sata_get_num_blocks\<close>.
\<close>

definition exfat_open :: "'s storage \<Rightarrow> ('s \<Rightarrow> u64) \<Rightarrow> ('s \<Rightarrow> int \<times> u64 \<times> 's) \<Rightarrow> bool \<Rightarrow> bool \<Rightarrow> exfat_mode \<Rightarrow> 's \<Rightarrow> exfat_dev option \<times> 's" where
  "exfat_open ops ms_blocks sata_blocks alloc spec mode s =
     (if spec then (None, s)
      else if \<not> alloc then (None, s)
      else
        case (if st_ms_present ops s then (ms_blocks s, s)
              else if st_sata_present ops s then
                (case sata_blocks s of (rc, tmp, s1) \<Rightarrow> (if rc = 0 then tmp else 0, s1))
              else (0, s)) of
          (sectors, s1) \<Rightarrow> (Some \<lparr>dev_fd = -1, dev_mode = mode, dev_size = sectors * 512, dev_pos = 0\<rparr>, s1))"

abbreviation (input) SEEK_SET :: int where "SEEK_SET \<equiv> 0"
abbreviation (input) SEEK_CUR :: int where "SEEK_CUR \<equiv> 1"
abbreviation (input) SEEK_END :: int where "SEEK_END \<equiv> 2"

definition exfat_seek :: "exfat_dev \<Rightarrow> u64 \<Rightarrow> int \<Rightarrow> u64 \<times> exfat_dev" where
  "exfat_seek dev offset whence =
     (if whence = SEEK_SET then let dev = dev\<lparr>dev_pos := offset\<rparr> in (dev_pos dev, dev)
      else if whence = SEEK_CUR then let dev = dev\<lparr>dev_pos := dev_pos dev + offset\<rparr> in (dev_pos dev, dev)
      else if whence = SEEK_END then let dev = dev\<lparr>dev_pos := dev_size dev + offset\<rparr> in (dev_pos dev, dev)
      else (-1, dev))"

text \<open>
  The transfer loops.  \<open>bi\<close> is the position in the caller's buffer, \<open>pos\<close> the position on the disk; a piece
  ends at the end of the buffer's demand or of the sector.
\<close>

definition sector_chunk :: "u64 \<Rightarrow> nat \<Rightarrow> nat" where
  "sector_chunk pos remaining = (let off = unat (pos mod 512) in if remaining > 512 - off then 512 - off else remaining)"

lemma sector_chunk_bounds:
  "0 < remaining \<Longrightarrow> 0 < sector_chunk pos remaining" "sector_chunk pos remaining \<le> remaining"
  "unat (pos mod 512) + sector_chunk pos remaining \<le> 512"
proof -
  have "unat (pos mod 512) < 512" using unat_mod[of pos 512] by simp
  then show "0 < remaining \<Longrightarrow> 0 < sector_chunk pos remaining" "sector_chunk pos remaining \<le> remaining"
    "unat (pos mod 512) + sector_chunk pos remaining \<le> 512"
    by (auto simp: sector_chunk_def Let_def)
qed

function pread_loop :: "'s storage \<Rightarrow> bytes \<Rightarrow> nat \<Rightarrow> u64 \<Rightarrow> nat \<Rightarrow> nat \<Rightarrow> 's exfat_io \<Rightarrow> (int \<times> bytes \<times> 's exfat_io) option" where
  "pread_loop ops buf bi pos remaining bytes_read io =
     (if remaining > 0 then
        case block_read_sector ops (pos div 512) (pread_buf io) (io_disk io) of
          (rc, sector_buf, s1) \<Rightarrow>
            let io1 = io\<lparr>io_disk := s1, pread_buf := sector_buf\<rparr>; chunk = sector_chunk pos remaining in
            if rc \<noteq> 0 then Some (-1, buf, io1)
            else
              case memcpy buf bi sector_buf (unat (pos mod 512)) chunk of
                None \<Rightarrow> None
              | Some buf1 \<Rightarrow> pread_loop ops buf1 (bi + chunk) (pos + of_nat chunk) (remaining - chunk) (bytes_read + chunk) io1
      else Some (int bytes_read, buf, io))"
  by pat_completeness auto
termination
  by (relation "measure (\<lambda>(ops, buf, bi, pos, remaining, r). remaining)") (auto simp: sector_chunk_bounds(1))

definition exfat_pread :: "'s storage \<Rightarrow> bytes \<Rightarrow> nat \<Rightarrow> nat \<Rightarrow> u64 \<Rightarrow> 's exfat_io \<Rightarrow> (int \<times> bytes \<times> 's exfat_io) option" where
  "exfat_pread ops buf bi n offset io = pread_loop ops buf bi (offset + exfat_partition_offset io * 512) n 0 io"

function pwrite_loop :: "'s storage \<Rightarrow> bytes \<Rightarrow> nat \<Rightarrow> u64 \<Rightarrow> nat \<Rightarrow> nat \<Rightarrow> 's exfat_io \<Rightarrow> (int \<times> 's exfat_io) option" where
  "pwrite_loop ops buf bi pos remaining n io =
     (if remaining > 0 then
        case block_read_sector ops (pos div 512) (pwrite_buf io) (io_disk io) of
          (rc, sector_buf, s1) \<Rightarrow>
            let io1 = io\<lparr>io_disk := s1, pwrite_buf := sector_buf\<rparr>; chunk = sector_chunk pos remaining in
            if rc \<noteq> 0 then Some (-1, io1)
            else
              case memcpy sector_buf (unat (pos mod 512)) buf bi chunk of
                None \<Rightarrow> None
              | Some sector_buf1 \<Rightarrow>
                  (case block_write_sector ops (pos div 512) sector_buf1 (io_disk io1) of
                     (rc1, s2) \<Rightarrow>
                       let io2 = io1\<lparr>io_disk := s2, pwrite_buf := sector_buf1\<rparr> in
                       if rc1 \<noteq> 0 then Some (-1, io2)
                       else pwrite_loop ops buf (bi + chunk) (pos + of_nat chunk) (remaining - chunk) n io2)
      else Some (int n, io))"
  by pat_completeness auto
termination
  by (relation "measure (\<lambda>(ops, buf, bi, pos, remaining, r). remaining)") (auto simp: sector_chunk_bounds(1))

definition exfat_pwrite :: "'s storage \<Rightarrow> bytes \<Rightarrow> nat \<Rightarrow> nat \<Rightarrow> u64 \<Rightarrow> 's exfat_io \<Rightarrow> (int \<times> 's exfat_io) option" where
  "exfat_pwrite ops buf bi n offset io = pwrite_loop ops buf bi (offset + exfat_partition_offset io * 512) n n io"

definition exfat_read :: "'s storage \<Rightarrow> exfat_dev \<Rightarrow> bytes \<Rightarrow> nat \<Rightarrow> 's exfat_io \<Rightarrow> (int \<times> bytes \<times> 's exfat_io) option" where
  "exfat_read ops dev buf n io = exfat_pread ops buf 0 n (dev_pos dev) io"

definition exfat_write :: "'s storage \<Rightarrow> exfat_dev \<Rightarrow> bytes \<Rightarrow> nat \<Rightarrow> 's exfat_io \<Rightarrow> (int \<times> exfat_dev \<times> 's exfat_io) option" where
  "exfat_write ops dev buf n io =
     (case exfat_pwrite ops buf 0 n (dev_pos dev) io of
        None \<Rightarrow> None
      | Some (r, io1) \<Rightarrow> Some (r, if r > 0 then dev\<lparr>dev_pos := dev_pos dev + word_of_int r\<rparr> else dev, io1))"

section \<open>Clusters\<close>

text \<open>The packed super block, field by field.\<close>

record exfat_super_block =
  sb_jump :: bytes
  sb_oem_name :: bytes
  sb_unused1 :: bytes
  sb_sector_start :: u64
  sb_sector_count :: u64
  sb_fat_sector_start :: u32
  sb_fat_sector_count :: u32
  sb_cluster_sector_start :: u32
  sb_cluster_count :: u32
  sb_rootdir_cluster :: u32
  sb_volume_serial :: u32
  sb_version_minor :: u8
  sb_version_major :: u8
  sb_volume_state :: u16
  sb_sector_bits :: u8
  sb_spc_bits :: u8
  sb_fat_count :: u8
  sb_drive_no :: u8
  sb_allocated_percent :: u8
  sb_unused2 :: bytes
  sb_boot_signature :: u16

text \<open>
  The fields of a node that reading and writing its contents involves (the names and links of nodes belong
  to the directory tree); \<open>nd_parent\<close> tells whether it has a parent.
\<close>

record exfat_node =
  nd_parent :: bool
  nd_references :: int
  fptr_index :: u32
  fptr_cluster :: u32
  start_cluster :: u32
  nd_attrib :: u16
  is_contiguous :: bool
  is_dirty :: bool
  valid_size :: u64
  nd_size :: u64
  nd_mtime :: int
  nd_atime :: int

record 's exfat =
  ef_io :: "'s exfat_io"
  ef_sb :: exfat_super_block
  cmap_start_cluster :: u32
  cmap_size :: u32
  cmap_chunk :: "u64 list"
  cmap_chunk_size :: u32
  cmap_dirty :: bool
  zero_cluster :: bytes
  ef_ro :: bool
  ef_noatime :: bool

abbreviation (input) EXFAT_FIRST_DATA_CLUSTER :: u32 where "EXFAT_FIRST_DATA_CLUSTER \<equiv> 2"
abbreviation (input) EXFAT_CLUSTER_FREE :: u32 where "EXFAT_CLUSTER_FREE \<equiv> 0"
abbreviation (input) EXFAT_CLUSTER_BAD :: u32 where "EXFAT_CLUSTER_BAD \<equiv> 0xfffffff7"
abbreviation (input) EXFAT_CLUSTER_END :: u32 where "EXFAT_CLUSTER_END \<equiv> 0xffffffff"
abbreviation (input) EXFAT_ATTRIB_DIR :: u16 where "EXFAT_ATTRIB_DIR \<equiv> 0x10"
abbreviation (input) EIO :: int where "EIO \<equiv> 5"
abbreviation (input) EINVAL :: int where "EINVAL \<equiv> 22"
abbreviation (input) ENOSPC :: int where "ENOSPC \<equiv> 28"

definition SECTOR_SIZE :: "exfat_super_block \<Rightarrow> u32" where
  "SECTOR_SIZE sb = push_bit (unat (sb_sector_bits sb)) 1"

definition CLUSTER_SIZE :: "exfat_super_block \<Rightarrow> u32" where
  "CLUSTER_SIZE sb = push_bit (unat (sb_spc_bits sb)) (SECTOR_SIZE sb)"

definition CLUSTER_INVALID :: "exfat_super_block \<Rightarrow> u32 \<Rightarrow> bool" where
  "CLUSTER_INVALID sb c \<longleftrightarrow> c < EXFAT_FIRST_DATA_CLUSTER \<or> c - EXFAT_FIRST_DATA_CLUSTER \<ge> sb_cluster_count sb"

definition s2o :: "exfat_super_block \<Rightarrow> u64 \<Rightarrow> u64" where
  "s2o sb sector = push_bit (unat (sb_sector_bits sb)) sector"

definition c2s :: "exfat_super_block \<Rightarrow> u32 \<Rightarrow> u64 option" where
  "c2s sb cluster =
     (if cluster < EXFAT_FIRST_DATA_CLUSTER then None
      else Some (ucast (sb_cluster_sector_start sb) + push_bit (unat (sb_spc_bits sb)) (ucast (cluster - EXFAT_FIRST_DATA_CLUSTER))))"

definition exfat_c2o :: "exfat_super_block \<Rightarrow> u32 \<Rightarrow> u64 option" where
  "exfat_c2o sb cluster = map_option (s2o sb) (c2s sb cluster)"

definition s2c :: "exfat_super_block \<Rightarrow> u64 \<Rightarrow> u32" where
  "s2c sb sector = ucast (signed_drop_bit (unat (sb_spc_bits sb)) (sector - ucast (sb_cluster_sector_start sb)) + 2)"

definition bytes2clusters :: "exfat_super_block \<Rightarrow> u64 \<Rightarrow> u32" where
  "bytes2clusters sb n = (let cluster_size = ucast (CLUSTER_SIZE sb) in ucast ((n + cluster_size - 1) div cluster_size))"

definition fat_offset :: "exfat_super_block \<Rightarrow> u32 \<Rightarrow> u64" where
  "fat_offset sb cluster = s2o sb (ucast (sb_fat_sector_start sb)) + ucast cluster * 4"

definition exfat_next_cluster :: "'s storage \<Rightarrow> exfat_node \<Rightarrow> u32 \<Rightarrow> 's exfat \<Rightarrow> (u32 \<times> 's exfat) option" where
  "exfat_next_cluster ops node cluster ef =
     (if cluster < EXFAT_FIRST_DATA_CLUSTER then None
      else if is_contiguous node then Some (cluster + 1, ef)
      else
        case exfat_pread ops (replicate 4 0) 0 4 (fat_offset (ef_sb ef) cluster) (ef_io ef) of
          None \<Rightarrow> None
        | Some (rc, nxt, io) \<Rightarrow> Some (if rc < 0 then EXFAT_CLUSTER_BAD else of_le nxt, ef\<lparr>ef_io := io\<rparr>))"

fun advance_loop :: "'s storage \<Rightarrow> nat list \<Rightarrow> exfat_node \<Rightarrow> 's exfat \<Rightarrow> (exfat_node \<times> 's exfat) option" where
  "advance_loop ops [] node ef = Some (node, ef)"
| "advance_loop ops (i # is) node ef =
     (case exfat_next_cluster ops node (fptr_cluster node) ef of
        None \<Rightarrow> None
      | Some (c, ef1) \<Rightarrow>
          let node1 = node\<lparr>fptr_cluster := c\<rparr> in
          if CLUSTER_INVALID (ef_sb ef1) c then Some (node1, ef1) else advance_loop ops is node1 ef1)"

definition exfat_advance_cluster :: "'s storage \<Rightarrow> u32 \<Rightarrow> exfat_node \<Rightarrow> 's exfat \<Rightarrow> (u32 \<times> exfat_node \<times> 's exfat) option" where
  "exfat_advance_cluster ops count node ef =
     (let node0 = (if fptr_index node > count then node\<lparr>fptr_index := 0, fptr_cluster := start_cluster node\<rparr> else node) in
      case advance_loop ops [unat (fptr_index node0)..<unat count] node0 ef of
        None \<Rightarrow> None
      | Some (node1, ef1) \<Rightarrow> Some (fptr_cluster node1, node1\<lparr>fptr_index := count\<rparr>, ef1))"

section \<open>The bitmap of used clusters\<close>

definition BMAP_GET :: "u64 list \<Rightarrow> nat \<Rightarrow> u64" where
  "BMAP_GET bitmap index = bitmap ! (index div 8 div 8) AND push_bit (index mod 64) 1"

definition BMAP_SET :: "u64 list \<Rightarrow> nat \<Rightarrow> u64 list" where
  "BMAP_SET bitmap index = (let b = index div 8 div 8 in bitmap[b := bitmap ! b OR push_bit (index mod 64) 1])"

definition BMAP_CLR :: "u64 list \<Rightarrow> nat \<Rightarrow> u64 list" where
  "BMAP_CLR bitmap index = (let b = index div 8 div 8 in bitmap[b := bitmap ! b AND NOT (push_bit (index mod 64) 1)])"

fun find_bit :: "u64 list \<Rightarrow> nat list \<Rightarrow> nat option" where
  "find_bit bitmap [] = None"
| "find_bit bitmap (c # cs) = (if BMAP_GET bitmap c = 0 then Some c else find_bit bitmap cs)"

fun find_word :: "u64 list \<Rightarrow> nat \<Rightarrow> nat \<Rightarrow> nat list \<Rightarrow> nat option option" where
  "find_word bitmap start stop [] = Some None"
| "find_word bitmap start stop (i # is) =
     (if i \<ge> length bitmap then None
      else if bitmap ! i = NOT 0 then find_word bitmap start stop is
      else
        case find_bit bitmap [max (i * 64) start..<min ((i + 1) * 64) stop] of
          None \<Rightarrow> find_word bitmap start stop is
        | Some c \<Rightarrow> Some (Some c))"

definition find_bit_and_set :: "u64 list \<Rightarrow> nat \<Rightarrow> nat \<Rightarrow> (u32 \<times> u64 list) option" where
  "find_bit_and_set bitmap start stop =
     (case find_word bitmap start stop [start div 8 div 8..<(stop + 64 - 1) div 64] of
        None \<Rightarrow> None
      | Some None \<Rightarrow> Some (EXFAT_CLUSTER_END, bitmap)
      | Some (Some c) \<Rightarrow> Some (of_nat c + EXFAT_FIRST_DATA_CLUSTER, BMAP_SET bitmap c))"

definition allocate_cluster :: "u32 \<Rightarrow> 's exfat \<Rightarrow> (u32 \<times> 's exfat) option" where
  "allocate_cluster hint ef =
     (let hint = hint - EXFAT_FIRST_DATA_CLUSTER;
          hint = (if hint \<ge> cmap_chunk_size ef then 0 else hint) in
      case find_bit_and_set (cmap_chunk ef) (unat hint) (unat (cmap_chunk_size ef)) of
        None \<Rightarrow> None
      | Some (cluster, chunk) \<Rightarrow>
          (case (if cluster = EXFAT_CLUSTER_END then find_bit_and_set chunk 0 (unat hint) else Some (cluster, chunk)) of
             None \<Rightarrow> None
           | Some (cluster, chunk) \<Rightarrow>
               if cluster = EXFAT_CLUSTER_END then Some (EXFAT_CLUSTER_END, ef\<lparr>cmap_chunk := chunk\<rparr>)
               else Some (cluster, ef\<lparr>cmap_chunk := chunk, cmap_dirty := True\<rparr>)))"

definition free_cluster :: "u32 \<Rightarrow> 's exfat \<Rightarrow> 's exfat option" where
  "free_cluster cluster ef =
     (let index = cluster - EXFAT_FIRST_DATA_CLUSTER in
      if index \<ge> cmap_size ef then None
      else if unat index div 64 \<ge> length (cmap_chunk ef) then None
      else Some (ef\<lparr>cmap_chunk := BMAP_CLR (cmap_chunk ef) (unat index), cmap_dirty := True\<rparr>))"

fun count_free_loop :: "u64 list \<Rightarrow> nat list \<Rightarrow> u32 \<Rightarrow> u32 option" where
  "count_free_loop bitmap [] free_clusters = Some free_clusters"
| "count_free_loop bitmap (i # is) free_clusters =
     (if i div 64 \<ge> length bitmap then None
      else count_free_loop bitmap is (if BMAP_GET bitmap i = 0 then free_clusters + 1 else free_clusters))"

definition exfat_count_free_clusters :: "'s exfat \<Rightarrow> u32 option" where
  "exfat_count_free_clusters ef = count_free_loop (cmap_chunk ef) [0..<unat (cmap_size ef)] 0"

definition BMAP_SIZE :: "nat \<Rightarrow> nat" where
  "BMAP_SIZE count = (count + 64 - 1) div 64 * 64 div 8"

definition exfat_flush :: "'s storage \<Rightarrow> 's exfat \<Rightarrow> (int \<times> 's exfat) option" where
  "exfat_flush ops ef =
     (if cmap_dirty ef then
        case exfat_c2o (ef_sb ef) (cmap_start_cluster ef) of
          None \<Rightarrow> None
        | Some offset \<Rightarrow>
            (case exfat_pwrite ops (concat (map (to_le 8) (cmap_chunk ef))) 0 (BMAP_SIZE (unat (cmap_chunk_size ef))) offset (ef_io ef) of
               None \<Rightarrow> None
             | Some (rc, io) \<Rightarrow>
                 if rc < 0 then Some (-EIO, ef\<lparr>ef_io := io\<rparr>) else Some (0, ef\<lparr>ef_io := io, cmap_dirty := False\<rparr>))
      else Some (0, ef))"

section \<open>Growing and shrinking\<close>

definition set_next_cluster :: "'s storage \<Rightarrow> bool \<Rightarrow> u32 \<Rightarrow> u32 \<Rightarrow> 's exfat \<Rightarrow> (bool \<times> 's exfat) option" where
  "set_next_cluster ops contiguous current nxt ef =
     (if contiguous then Some (True, ef)
      else
        case exfat_pwrite ops (to_le 4 nxt) 0 4 (fat_offset (ef_sb ef) current) (ef_io ef) of
          None \<Rightarrow> None
        | Some (rc, io) \<Rightarrow> Some (\<not> rc < 0, ef\<lparr>ef_io := io\<rparr>))"

fun make_noncontiguous_loop :: "'s storage \<Rightarrow> nat list \<Rightarrow> 's exfat \<Rightarrow> (bool \<times> 's exfat) option" where
  "make_noncontiguous_loop ops [] ef = Some (True, ef)"
| "make_noncontiguous_loop ops (c # cs) ef =
     (case set_next_cluster ops False (of_nat c) (of_nat c + 1) ef of
        None \<Rightarrow> None
      | Some (ok, ef1) \<Rightarrow> if \<not> ok then Some (False, ef1) else make_noncontiguous_loop ops cs ef1)"

definition make_noncontiguous :: "'s storage \<Rightarrow> u32 \<Rightarrow> u32 \<Rightarrow> 's exfat \<Rightarrow> (bool \<times> 's exfat) option" where
  "make_noncontiguous ops first final ef = make_noncontiguous_loop ops [unat first..<unat final] ef"

fun shrink_loop :: "'s storage \<Rightarrow> nat \<Rightarrow> u32 \<Rightarrow> exfat_node \<Rightarrow> 's exfat \<Rightarrow> (int \<times> 's exfat) option" where
  "shrink_loop ops 0 previous node ef = Some (0, ef)"
| "shrink_loop ops (Suc difference) previous node ef =
     (if CLUSTER_INVALID (ef_sb ef) previous then Some (-EIO, ef)
      else
        case exfat_next_cluster ops node previous ef of
          None \<Rightarrow> None
        | Some (nxt, ef1) \<Rightarrow>
            (case set_next_cluster ops (is_contiguous node) previous EXFAT_CLUSTER_FREE ef1 of
               None \<Rightarrow> None
             | Some (ok, ef2) \<Rightarrow>
                 if \<not> ok then Some (-EIO, ef2)
                 else
                   case free_cluster previous ef2 of
                     None \<Rightarrow> None
                   | Some ef3 \<Rightarrow> shrink_loop ops difference nxt node ef3))"

text \<open>The crop: the first cluster to free, or the error code.\<close>

definition crop_file :: "'s storage \<Rightarrow> u32 \<Rightarrow> u32 \<Rightarrow> exfat_node \<Rightarrow> 's exfat \<Rightarrow> ((int + u32) \<times> exfat_node \<times> 's exfat) option" where
  "crop_file ops current difference node ef =
     (if current > difference then
        case exfat_advance_cluster ops (current - difference - 1) node ef of
          None \<Rightarrow> None
        | Some (final, node1, ef1) \<Rightarrow>
            if CLUSTER_INVALID (ef_sb ef1) final then Some (Inl (-EIO), node1, ef1)
            else
              (case exfat_next_cluster ops node1 final ef1 of
                 None \<Rightarrow> None
               | Some (previous, ef2) \<Rightarrow>
                   (case set_next_cluster ops (is_contiguous node1) final EXFAT_CLUSTER_END ef2 of
                      None \<Rightarrow> None
                    | Some (ok, ef3) \<Rightarrow> Some (if ok then Inr previous else Inl (-EIO), node1, ef3)))
      else Some (Inr (start_cluster node), node\<lparr>start_cluster := EXFAT_CLUSTER_FREE, is_dirty := True\<rparr>, ef))"

definition shrink_file :: "'s storage \<Rightarrow> u32 \<Rightarrow> u32 \<Rightarrow> exfat_node \<Rightarrow> 's exfat \<Rightarrow> (int \<times> exfat_node \<times> 's exfat) option" where
  "shrink_file ops current difference node ef =
     (if difference = 0 \<or> start_cluster node = EXFAT_CLUSTER_FREE \<or> current < difference then None
      else
        case crop_file ops current difference node ef of
          None \<Rightarrow> None
        | Some (Inl rc, node1, ef1) \<Rightarrow> Some (rc, node1, ef1)
        | Some (Inr previous, node1, ef1) \<Rightarrow>
            let node2 = node1\<lparr>fptr_index := 0, fptr_cluster := start_cluster node1\<rparr> in
            map_option (\<lambda>(rc, ef2). (rc, node2, ef2)) (shrink_loop ops (unat difference) previous node2 ef1))"

text \<open>The allocation loop: the last cluster of the file, or the error code.\<close>

function grow_loop :: "'s storage \<Rightarrow> u32 \<Rightarrow> u32 \<Rightarrow> u32 \<Rightarrow> u32 \<Rightarrow> exfat_node \<Rightarrow> 's exfat \<Rightarrow> ((int + u32) \<times> exfat_node \<times> 's exfat) option" where
  "grow_loop ops current difference previous allocated node ef =
     (if allocated < difference then
        case allocate_cluster (previous + 1) ef of
          None \<Rightarrow> None
        | Some (nxt, ef1) \<Rightarrow>
            if CLUSTER_INVALID (ef_sb ef1) nxt then
              (if allocated \<noteq> 0 then
                 map_option (\<lambda>(rc, node1, ef2). (Inl (-ENOSPC), node1, ef2)) (shrink_file ops (current + allocated) allocated node ef1)
               else Some (Inl (-ENOSPC), node, ef1))
            else
              (case (if nxt \<noteq> previous + 1 \<and> is_contiguous node then
                       map_option (\<lambda>(ok, ef2). (ok, if ok then node\<lparr>is_contiguous := False, is_dirty := True\<rparr> else node, ef2))
                         (make_noncontiguous ops (start_cluster node) previous ef1)
                     else Some (True, node, ef1)) of
                 None \<Rightarrow> None
               | Some (ok, node2, ef2) \<Rightarrow>
                   if \<not> ok then Some (Inl (-EIO), node2, ef2)
                   else
                     (case set_next_cluster ops (is_contiguous node2) previous nxt ef2 of
                        None \<Rightarrow> None
                      | Some (ok, ef3) \<Rightarrow>
                          if \<not> ok then Some (Inl (-EIO), node2, ef3)
                          else grow_loop ops current difference nxt (allocated + 1) node2 ef3))
      else Some (Inr previous, node, ef))"
  by pat_completeness auto
termination
proof (relation "measure (\<lambda>(ops, current, difference, previous, allocated, r). unat difference - unat allocated)", goal_cases)
  case 1
  show ?case by simp
next
  case (2 ops current difference previous allocated)
  then have "unat allocated < unat difference" by (simp add: word_less_nat_alt)
  moreover have "unat (allocated + 1) = unat allocated + 1"
    using calculation unat_u32_bound[of difference] by (simp add: unat_word_ariths)
  ultimately show ?case by simp
qed

definition grow_first :: "'s storage \<Rightarrow> u32 \<Rightarrow> exfat_node \<Rightarrow> 's exfat \<Rightarrow> ((int + u32 \<times> u32) \<times> exfat_node \<times> 's exfat) option" where
  "grow_first ops current node ef =
     (if start_cluster node \<noteq> EXFAT_CLUSTER_FREE then
        case exfat_advance_cluster ops (current - 1) node ef of
          None \<Rightarrow> None
        | Some (previous, node1, ef1) \<Rightarrow>
            Some (if CLUSTER_INVALID (ef_sb ef1) previous then Inl (-EIO) else Inr (previous, 0), node1, ef1)
      else if fptr_index node \<noteq> 0 then None
      else
        case allocate_cluster 0 ef of
          None \<Rightarrow> None
        | Some (previous, ef1) \<Rightarrow>
            if CLUSTER_INVALID (ef_sb ef1) previous then Some (Inl (-ENOSPC), node, ef1)
            else Some (Inr (previous, 1), node\<lparr>fptr_cluster := previous, start_cluster := previous, is_contiguous := True\<rparr>, ef1))"

definition grow_file :: "'s storage \<Rightarrow> u32 \<Rightarrow> u32 \<Rightarrow> exfat_node \<Rightarrow> 's exfat \<Rightarrow> (int \<times> exfat_node \<times> 's exfat) option" where
  "grow_file ops current difference node ef =
     (if difference = 0 then None
      else
        case grow_first ops current node ef of
          None \<Rightarrow> None
        | Some (Inl rc, node1, ef1) \<Rightarrow> Some (rc, node1, ef1)
        | Some (Inr (previous, allocated), node1, ef1) \<Rightarrow>
            (case grow_loop ops current difference previous allocated node1 ef1 of
               None \<Rightarrow> None
             | Some (Inl rc, node2, ef2) \<Rightarrow> Some (rc, node2, ef2)
             | Some (Inr final, node2, ef2) \<Rightarrow>
                 map_option (\<lambda>(ok, ef3). (if ok then 0 else -EIO, node2, ef3))
                   (set_next_cluster ops (is_contiguous node2) final EXFAT_CLUSTER_END ef2)))"

section \<open>Erasing and truncating\<close>

definition erase_raw :: "'s storage \<Rightarrow> u64 \<Rightarrow> u64 \<Rightarrow> 's exfat \<Rightarrow> (bool \<times> 's exfat) option" where
  "erase_raw ops n offset ef =
     map_option (\<lambda>(rc, io). (\<not> rc < 0, ef\<lparr>ef_io := io\<rparr>)) (exfat_pwrite ops (zero_cluster ef) 0 (unat n) offset (ef_io ef))"

partial_function (option) erase_loop :: "'s storage \<Rightarrow> u32 \<Rightarrow> u64 \<Rightarrow> u64 \<Rightarrow> exfat_node \<Rightarrow> 's exfat \<Rightarrow> (int \<times> 's exfat) option" where
  "erase_loop ops cluster cluster_boundary stop node ef =
     (if cluster_boundary < stop then
        case exfat_next_cluster ops node cluster ef of
          None \<Rightarrow> None
        | Some (cluster1, ef1) \<Rightarrow>
            if CLUSTER_INVALID (ef_sb ef1) cluster1 then None
            else
              (case exfat_c2o (ef_sb ef1) cluster1 of
                 None \<Rightarrow> None
               | Some offset \<Rightarrow>
                   (case erase_raw ops (ucast (CLUSTER_SIZE (ef_sb ef1))) offset ef1 of
                      None \<Rightarrow> None
                    | Some (ok, ef2) \<Rightarrow>
                        if \<not> ok then Some (-EIO, ef2)
                        else erase_loop ops cluster1 (cluster_boundary + ucast (CLUSTER_SIZE (ef_sb ef2))) stop node ef2))
      else Some (0, ef))"

definition erase_range :: "'s storage \<Rightarrow> u64 \<Rightarrow> u64 \<Rightarrow> exfat_node \<Rightarrow> 's exfat \<Rightarrow> (int \<times> exfat_node \<times> 's exfat) option" where
  "erase_range ops start stop node ef =
     (if start \<ge> stop then Some (0, node, ef)
      else
        let cs = ucast (CLUSTER_SIZE (ef_sb ef));
            cluster_boundary = (start OR (cs - 1)) + 1 in
        case exfat_advance_cluster ops (ucast (start div cs)) node ef of
          None \<Rightarrow> None
        | Some (cluster, node1, ef1) \<Rightarrow>
            if CLUSTER_INVALID (ef_sb ef1) cluster then Some (-EIO, node1, ef1)
            else
              (case exfat_c2o (ef_sb ef1) cluster of
                 None \<Rightarrow> None
               | Some offset \<Rightarrow>
                   (case erase_raw ops (min cluster_boundary stop - start) (offset + start mod cs) ef1 of
                      None \<Rightarrow> None
                    | Some (ok, ef2) \<Rightarrow>
                        if \<not> ok then Some (-EIO, node1, ef2)
                        else map_option (\<lambda>(rc, ef3). (rc, node1, ef3)) (erase_loop ops cluster cluster_boundary stop node1 ef2))))"

definition exfat_update_atime :: "exfat_node \<Rightarrow> exfat_node" where
  "exfat_update_atime node = node\<lparr>nd_atime := 0, is_dirty := True\<rparr>"

definition exfat_update_mtime :: "exfat_node \<Rightarrow> exfat_node" where
  "exfat_update_mtime node = node\<lparr>nd_mtime := 0, is_dirty := True\<rparr>"

definition exfat_truncate :: "'s storage \<Rightarrow> u64 \<Rightarrow> bool \<Rightarrow> exfat_node \<Rightarrow> 's exfat \<Rightarrow> (int \<times> exfat_node \<times> 's exfat) option" where
  "exfat_truncate ops n erase node ef =
     (let c1 = bytes2clusters (ef_sb ef) (nd_size node); c2 = bytes2clusters (ef_sb ef) n in
      if nd_references node = 0 \<and> nd_parent node then None
      else if nd_size node = n then Some (0, node, ef)
      else
        case (if c1 < c2 then grow_file ops c1 (c2 - c1) node ef
              else if c1 > c2 then shrink_file ops c1 (c1 - c2) node ef
              else Some (0, node, ef)) of
          None \<Rightarrow> None
        | Some (rc, node1, ef1) \<Rightarrow>
            if rc \<noteq> 0 then Some (rc, node1, ef1)
            else
              (case (if erase then
                       map_option (\<lambda>(rc, node2, ef2). (rc, if rc = 0 then node2\<lparr>valid_size := n\<rparr> else node2, ef2))
                         (erase_range ops (valid_size node1) n node1 ef1)
                     else Some (0, node1\<lparr>valid_size := min (valid_size node1) n\<rparr>, ef1)) of
                 None \<Rightarrow> None
               | Some (rc, node2, ef2) \<Rightarrow>
                   if rc \<noteq> 0 then Some (rc, node2, ef2)
                   else Some (0, (exfat_update_mtime node2)\<lparr>nd_size := n, is_dirty := True\<rparr>, ef2)))"

section \<open>Reading and writing files\<close>

partial_function (option) read_clusters :: "'s storage \<Rightarrow> exfat_node \<Rightarrow> bytes \<Rightarrow> nat \<Rightarrow> u32 \<Rightarrow> int \<Rightarrow> int \<Rightarrow> 's exfat \<Rightarrow> ((int + int) \<times> bytes \<times> 's exfat) option" where
  "read_clusters ops node buf bi cluster loffset remainder ef =
     (if remainder > 0 then
        if CLUSTER_INVALID (ef_sb ef) cluster then Some (Inl (-EIO), buf, ef)
        else
          let lsize = min (sint (CLUSTER_SIZE (ef_sb ef)) - loffset) remainder in
          case exfat_c2o (ef_sb ef) cluster of
            None \<Rightarrow> None
          | Some offset \<Rightarrow>
              (case exfat_pread ops buf bi (nat lsize) (offset + word_of_int loffset) (ef_io ef) of
                 None \<Rightarrow> None
               | Some (rc, buf1, io) \<Rightarrow>
                   let ef1 = ef\<lparr>ef_io := io\<rparr> in
                   if rc < 0 then Some (Inl (-EIO), buf1, ef1)
                   else
                     case exfat_next_cluster ops node cluster ef1 of
                       None \<Rightarrow> None
                     | Some (cluster1, ef2) \<Rightarrow> read_clusters ops node buf1 (bi + nat lsize) cluster1 0 (remainder - lsize) ef2)
      else Some (Inr remainder, buf, ef))"

text \<open>The part of \<^verbatim>\<open>exfat_generic_pread\<close> that reads from the clusters.\<close>

definition pread_clusters :: "'s storage \<Rightarrow> exfat_node \<Rightarrow> bytes \<Rightarrow> nat \<Rightarrow> u64 \<Rightarrow> u64 \<Rightarrow> 's exfat \<Rightarrow> (int \<times> bytes \<times> exfat_node \<times> 's exfat) option" where
  "pread_clusters ops node buf bi n uoffset ef =
     (let cs = ucast (CLUSTER_SIZE (ef_sb ef)); m = min n (nd_size node - uoffset) in
      case exfat_advance_cluster ops (ucast (uoffset div cs)) node ef of
        None \<Rightarrow> None
      | Some (cluster, node1, ef1) \<Rightarrow>
          if CLUSTER_INVALID (ef_sb ef1) cluster then Some (-EIO, buf, node1, ef1)
          else
            (case read_clusters ops node1 buf bi cluster (uint (uoffset mod cs)) (sint m) ef1 of
               None \<Rightarrow> None
             | Some (Inl rc, buf1, ef2) \<Rightarrow> Some (rc, buf1, node1, ef2)
             | Some (Inr remainder, buf1, ef2) \<Rightarrow>
                 Some (sint (m - word_of_int remainder), buf1,
                       if nd_attrib node1 AND EXFAT_ATTRIB_DIR = 0 \<and> \<not> ef_ro ef2 \<and> \<not> ef_noatime ef2
                       then exfat_update_atime node1 else node1, ef2)))"

text \<open>The recursive call reads up to \<^verbatim>\<open>valid_size\<close> and is never in the recursive case itself.\<close>

definition exfat_generic_pread :: "'s storage \<Rightarrow> exfat_node \<Rightarrow> bytes \<Rightarrow> nat \<Rightarrow> u64 \<Rightarrow> u64 \<Rightarrow> 's exfat \<Rightarrow> (int \<times> bytes \<times> exfat_node \<times> 's exfat) option" where
  "exfat_generic_pread ops node buf bi n offset ef =
     (if offset <s 0 then Some (-EINVAL, buf, node, ef)
      else if offset \<ge> nd_size node then Some (0, buf, node, ef)
      else if n = 0 then Some (0, buf, node, ef)
      else if offset + n > valid_size node then
        (case (if offset < valid_size node then pread_clusters ops node buf bi (valid_size node - offset) offset ef
               else Some (0, buf, node, ef)) of
           None \<Rightarrow> None
         | Some (bytes, buf1, node1, ef1) \<Rightarrow>
             if offset < valid_size node \<and> (bytes < 0 \<or> word_of_int bytes < valid_size node1 - offset) then Some (bytes, buf1, node1, ef1)
             else
               case memset buf1 (bi + nat bytes) 0 (unat (min (n - word_of_int bytes) (nd_size node1 - valid_size node1))) of
                 None \<Rightarrow> None
               | Some buf2 \<Rightarrow> Some (sint (min n (nd_size node1 - offset)), buf2, node1, ef1))
      else pread_clusters ops node buf bi n offset ef)"

partial_function (option) write_clusters :: "'s storage \<Rightarrow> bytes \<Rightarrow> nat \<Rightarrow> u64 \<Rightarrow> u64 \<Rightarrow> u32 \<Rightarrow> int \<Rightarrow> int \<Rightarrow> exfat_node \<Rightarrow> 's exfat \<Rightarrow> ((int + int) \<times> exfat_node \<times> 's exfat) option" where
  "write_clusters ops buf bi n uoffset cluster loffset remainder node ef =
     (if remainder > 0 then
        if CLUSTER_INVALID (ef_sb ef) cluster then Some (Inl (-EIO), node, ef)
        else
          let lsize = min (sint (CLUSTER_SIZE (ef_sb ef)) - loffset) remainder in
          case exfat_c2o (ef_sb ef) cluster of
            None \<Rightarrow> None
          | Some offset \<Rightarrow>
              (case exfat_pwrite ops buf bi (nat lsize) (offset + word_of_int loffset) (ef_io ef) of
                 None \<Rightarrow> None
               | Some (rc, io) \<Rightarrow>
                   let ef1 = ef\<lparr>ef_io := io\<rparr>; remainder1 = remainder - lsize in
                   if rc < 0 then Some (Inl (-EIO), node, ef1)
                   else
                     let node1 = node\<lparr>valid_size := max (valid_size node) (uoffset + n - word_of_int remainder1)\<rparr> in
                     case exfat_next_cluster ops node1 cluster ef1 of
                       None \<Rightarrow> None
                     | Some (cluster1, ef2) \<Rightarrow> write_clusters ops buf (bi + nat lsize) n uoffset cluster1 0 remainder1 node1 ef2)
      else Some (Inr remainder, node, ef))"

definition pwrite_clusters :: "'s storage \<Rightarrow> bytes \<Rightarrow> u64 \<Rightarrow> u64 \<Rightarrow> exfat_node \<Rightarrow> 's exfat \<Rightarrow> (int \<times> exfat_node \<times> 's exfat) option" where
  "pwrite_clusters ops buf n uoffset node ef =
     (let cs = ucast (CLUSTER_SIZE (ef_sb ef)) in
      case exfat_advance_cluster ops (ucast (uoffset div cs)) node ef of
        None \<Rightarrow> None
      | Some (cluster, node1, ef1) \<Rightarrow>
          if CLUSTER_INVALID (ef_sb ef1) cluster then Some (-EIO, node1, ef1)
          else
            (case write_clusters ops buf 0 n uoffset cluster (uint (uoffset mod cs)) (sint n) node1 ef1 of
               None \<Rightarrow> None
             | Some (Inl rc, node2, ef2) \<Rightarrow> Some (rc, node2, ef2)
             | Some (Inr remainder, node2, ef2) \<Rightarrow>
                 Some (sint (n - word_of_int remainder),
                       if nd_attrib node2 AND EXFAT_ATTRIB_DIR = 0 then exfat_update_mtime node2 else node2, ef2)))"

definition exfat_generic_pwrite :: "'s storage \<Rightarrow> bytes \<Rightarrow> u64 \<Rightarrow> u64 \<Rightarrow> exfat_node \<Rightarrow> 's exfat \<Rightarrow> (int \<times> exfat_node \<times> 's exfat) option" where
  "exfat_generic_pwrite ops buf n offset node ef =
     (if offset <s 0 then Some (-EINVAL, node, ef)
      else
        case (if offset > nd_size node then exfat_truncate ops offset True node ef else Some (0, node, ef)) of
          None \<Rightarrow> None
        | Some (rc, node1, ef1) \<Rightarrow>
            if rc \<noteq> 0 then Some (rc, node1, ef1)
            else
              (case (if offset + n > nd_size node1 then exfat_truncate ops (offset + n) False node1 ef1 else Some (0, node1, ef1)) of
                 None \<Rightarrow> None
               | Some (rc, node2, ef2) \<Rightarrow>
                   if rc \<noteq> 0 then Some (rc, node2, ef2)
                   else if n = 0 then Some (0, node2, ef2)
                   else pwrite_clusters ops buf n offset node2 ef2))"

end
