(* ===== verification/Exfat_Disk.thy ===== *)
theory Exfat_Disk
  imports Exfat_Model Exfat_Time Exfat_Utf
begin

text \<open>
  The structures of \<^verbatim>\<open>fs/exfat/exfatfs.h\<close> on the disk, as records with the bytes of their packed layout, and the checksums and small
  helpers of \<^verbatim>\<open>fs/exfat/utils.c\<close>.
\<close>

section \<open>The super block\<close>

definition sb_bytes :: "exfat_super_block \<Rightarrow> bytes" where
  "sb_bytes sb = sb_jump sb @ sb_oem_name sb @ sb_unused1 sb @ to_le 8 (sb_sector_start sb) @ to_le 8 (sb_sector_count sb) @
     to_le 4 (sb_fat_sector_start sb) @ to_le 4 (sb_fat_sector_count sb) @ to_le 4 (sb_cluster_sector_start sb) @ to_le 4 (sb_cluster_count sb) @
     to_le 4 (sb_rootdir_cluster sb) @ to_le 4 (sb_volume_serial sb) @ [sb_version_minor sb, sb_version_major sb] @ to_le 2 (sb_volume_state sb) @
     [sb_sector_bits sb, sb_spc_bits sb, sb_fat_count sb, sb_drive_no sb, sb_allocated_percent sb] @ sb_unused2 sb @ to_le 2 (sb_boot_signature sb)"

definition sb_of :: "bytes \<Rightarrow> exfat_super_block" where
  "sb_of b = \<lparr>sb_jump = buf_get 3 b 0, sb_oem_name = buf_get 8 b 3, sb_unused1 = buf_get 53 b 11,
     sb_sector_start = of_le (buf_get 8 b 0x40), sb_sector_count = of_le (buf_get 8 b 0x48),
     sb_fat_sector_start = of_le (buf_get 4 b 0x50), sb_fat_sector_count = of_le (buf_get 4 b 0x54),
     sb_cluster_sector_start = of_le (buf_get 4 b 0x58), sb_cluster_count = of_le (buf_get 4 b 0x5C),
     sb_rootdir_cluster = of_le (buf_get 4 b 0x60), sb_volume_serial = of_le (buf_get 4 b 0x64),
     sb_version_minor = b ! 0x68, sb_version_major = b ! 0x69, sb_volume_state = of_le (buf_get 2 b 0x6A),
     sb_sector_bits = b ! 0x6C, sb_spc_bits = b ! 0x6D, sb_fat_count = b ! 0x6E, sb_drive_no = b ! 0x6F, sb_allocated_percent = b ! 0x70,
     sb_unused2 = buf_get 397 b 0x71, sb_boot_signature = of_le (buf_get 2 b 0x1FE)\<rparr>"

definition sb_sized :: "exfat_super_block \<Rightarrow> bool" where
  "sb_sized sb \<longleftrightarrow> length (sb_jump sb) = 3 \<and> length (sb_oem_name sb) = 8 \<and> length (sb_unused1 sb) = 53 \<and> length (sb_unused2 sb) = 397"

lemma length_sb_bytes [simp]: "sb_sized sb \<Longrightarrow> length (sb_bytes sb) = 512"
  by (simp add: sb_sized_def sb_bytes_def)

lemma sb_of_bytes: "sb_sized sb \<Longrightarrow> sb_of (sb_bytes sb) = sb"
  by (simp add: sb_sized_def sb_bytes_def sb_of_def buf_get_def nth_append numeral_eq_Suc del: to_le.simps)

section \<open>Directory entries\<close>

abbreviation (input) EXFAT_ENTRY_VALID :: u8 where "EXFAT_ENTRY_VALID \<equiv> 0x80"
abbreviation (input) EXFAT_ENTRY_BITMAP :: u8 where "EXFAT_ENTRY_BITMAP \<equiv> 0x81"
abbreviation (input) EXFAT_ENTRY_UPCASE :: u8 where "EXFAT_ENTRY_UPCASE \<equiv> 0x82"
abbreviation (input) EXFAT_ENTRY_LABEL :: u8 where "EXFAT_ENTRY_LABEL \<equiv> 0x83"
abbreviation (input) EXFAT_ENTRY_FILE :: u8 where "EXFAT_ENTRY_FILE \<equiv> 0x85"
abbreviation (input) EXFAT_ENTRY_FILE_INFO :: u8 where "EXFAT_ENTRY_FILE_INFO \<equiv> 0xC0"
abbreviation (input) EXFAT_ENTRY_FILE_NAME :: u8 where "EXFAT_ENTRY_FILE_NAME \<equiv> 0xC1"
abbreviation (input) EXFAT_ENTRY_FILE_TAIL :: u8 where "EXFAT_ENTRY_FILE_TAIL \<equiv> 0xE0"
abbreviation (input) EXFAT_ENAME_MAX :: nat where "EXFAT_ENAME_MAX \<equiv> 15"
abbreviation (input) EXFAT_UPCASE_CHARS :: nat where "EXFAT_UPCASE_CHARS \<equiv> 0x10000"

record exfat_entry_bitmap =
  be_type :: u8
  be_unknown1 :: bytes
  be_start_cluster :: u32
  be_size :: u64

definition bitmap_bytes :: "exfat_entry_bitmap \<Rightarrow> bytes" where
  "bitmap_bytes e = be_type e # be_unknown1 e @ to_le 4 (be_start_cluster e) @ to_le 8 (be_size e)"

definition bitmap_of :: "bytes \<Rightarrow> exfat_entry_bitmap" where
  "bitmap_of b = \<lparr>be_type = b ! 0, be_unknown1 = buf_get 19 b 1, be_start_cluster = of_le (buf_get 4 b 20), be_size = of_le (buf_get 8 b 24)\<rparr>"

record exfat_entry_upcase =
  ue_type :: u8
  ue_unknown1 :: bytes
  ue_checksum :: u32
  ue_unknown2 :: bytes
  ue_start_cluster :: u32
  ue_size :: u64

definition upcase_bytes :: "exfat_entry_upcase \<Rightarrow> bytes" where
  "upcase_bytes e = ue_type e # ue_unknown1 e @ to_le 4 (ue_checksum e) @ ue_unknown2 e @ to_le 4 (ue_start_cluster e) @ to_le 8 (ue_size e)"

definition upcase_of :: "bytes \<Rightarrow> exfat_entry_upcase" where
  "upcase_of b = \<lparr>ue_type = b ! 0, ue_unknown1 = buf_get 3 b 1, ue_checksum = of_le (buf_get 4 b 4), ue_unknown2 = buf_get 12 b 8,
     ue_start_cluster = of_le (buf_get 4 b 20), ue_size = of_le (buf_get 8 b 24)\<rparr>"

definition units_bytes :: "u16 list \<Rightarrow> bytes" where
  "units_bytes us = concat (map (to_le 2) us)"

fun units_of :: "bytes \<Rightarrow> u16 list" where
  "units_of (a # b # bs) = of_le [a, b] # units_of bs"
| "units_of bs = []"

record exfat_entry_label =
  le_type :: u8
  le_length :: u8
  le_name :: "u16 list"

definition label_bytes :: "exfat_entry_label \<Rightarrow> bytes" where
  "label_bytes e = le_type e # le_length e # units_bytes (le_name e)"

definition label_of :: "bytes \<Rightarrow> exfat_entry_label" where
  "label_of b = \<lparr>le_type = b ! 0, le_length = b ! 1, le_name = units_of (buf_get 30 b 2)\<rparr>"

record exfat_entry_meta1 =
  m1_type :: u8
  m1_continuations :: u8
  m1_checksum :: u16
  m1_attrib :: u16
  m1_unknown1 :: u16
  m1_crtime :: u16
  m1_crdate :: u16
  m1_mtime :: u16
  m1_mdate :: u16
  m1_atime :: u16
  m1_adate :: u16
  m1_crtime_cs :: u8
  m1_mtime_cs :: u8
  m1_crtime_tzo :: u8
  m1_mtime_tzo :: u8
  m1_atime_tzo :: u8
  m1_unknown2 :: bytes

definition meta1_bytes :: "exfat_entry_meta1 \<Rightarrow> bytes" where
  "meta1_bytes e = [m1_type e, m1_continuations e] @ to_le 2 (m1_checksum e) @ to_le 2 (m1_attrib e) @ to_le 2 (m1_unknown1 e) @
     to_le 2 (m1_crtime e) @ to_le 2 (m1_crdate e) @ to_le 2 (m1_mtime e) @ to_le 2 (m1_mdate e) @ to_le 2 (m1_atime e) @ to_le 2 (m1_adate e) @
     [m1_crtime_cs e, m1_mtime_cs e, m1_crtime_tzo e, m1_mtime_tzo e, m1_atime_tzo e] @ m1_unknown2 e"

definition meta1_of :: "bytes \<Rightarrow> exfat_entry_meta1" where
  "meta1_of b = \<lparr>m1_type = b ! 0, m1_continuations = b ! 1, m1_checksum = of_le (buf_get 2 b 2), m1_attrib = of_le (buf_get 2 b 4),
     m1_unknown1 = of_le (buf_get 2 b 6), m1_crtime = of_le (buf_get 2 b 8), m1_crdate = of_le (buf_get 2 b 10), m1_mtime = of_le (buf_get 2 b 12),
     m1_mdate = of_le (buf_get 2 b 14), m1_atime = of_le (buf_get 2 b 16), m1_adate = of_le (buf_get 2 b 18), m1_crtime_cs = b ! 20,
     m1_mtime_cs = b ! 21, m1_crtime_tzo = b ! 22, m1_mtime_tzo = b ! 23, m1_atime_tzo = b ! 24, m1_unknown2 = buf_get 7 b 25\<rparr>"

record exfat_entry_meta2 =
  m2_type :: u8
  m2_flags :: u8
  m2_unknown1 :: u8
  m2_name_length :: u8
  m2_name_hash :: u16
  m2_unknown2 :: u16
  m2_valid_size :: u64
  m2_unknown3 :: bytes
  m2_start_cluster :: u32
  m2_size :: u64

definition meta2_bytes :: "exfat_entry_meta2 \<Rightarrow> bytes" where
  "meta2_bytes e = [m2_type e, m2_flags e, m2_unknown1 e, m2_name_length e] @ to_le 2 (m2_name_hash e) @ to_le 2 (m2_unknown2 e) @
     to_le 8 (m2_valid_size e) @ m2_unknown3 e @ to_le 4 (m2_start_cluster e) @ to_le 8 (m2_size e)"

definition meta2_of :: "bytes \<Rightarrow> exfat_entry_meta2" where
  "meta2_of b = \<lparr>m2_type = b ! 0, m2_flags = b ! 1, m2_unknown1 = b ! 2, m2_name_length = b ! 3, m2_name_hash = of_le (buf_get 2 b 4),
     m2_unknown2 = of_le (buf_get 2 b 6), m2_valid_size = of_le (buf_get 8 b 8), m2_unknown3 = buf_get 4 b 16,
     m2_start_cluster = of_le (buf_get 4 b 20), m2_size = of_le (buf_get 8 b 24)\<rparr>"

record exfat_entry_name =
  ne_type :: u8
  ne_unknown :: u8
  ne_name :: "u16 list"

definition name_bytes :: "exfat_entry_name \<Rightarrow> bytes" where
  "name_bytes e = ne_type e # ne_unknown e # units_bytes (ne_name e)"

definition name_of :: "bytes \<Rightarrow> exfat_entry_name" where
  "name_of b = \<lparr>ne_type = b ! 0, ne_unknown = b ! 1, ne_name = units_of (buf_get 30 b 2)\<rparr>"

lemma length_units_bytes [simp]: "length (units_bytes us) = 2 * length us"
  by (induction us) (auto simp: units_bytes_def)

lemma unit_to_le: "to_le 2 (w :: u16) = [ucast w, ucast (drop_bit 8 w)]"
  by (simp add: numeral_2_eq_2)

lemma units_of_bytes [simp]: "units_of (units_bytes us) = us"
proof (induction us)
  case (Cons u us)
  have "of_le (to_le 2 u) = u" by simp
  then show ?case using Cons by (simp add: units_bytes_def unit_to_le)
qed (simp add: units_bytes_def)

lemma bitmap_of_bytes: "length (be_unknown1 e) = 19 \<Longrightarrow> bitmap_of (bitmap_bytes e) = e" "length (be_unknown1 e) = 19 \<Longrightarrow> length (bitmap_bytes e) = 32"
  by (simp_all add: bitmap_bytes_def bitmap_of_def buf_get_def numeral_eq_Suc del: to_le.simps)

lemma upcase_of_bytes: "length (ue_unknown1 e) = 3 \<Longrightarrow> length (ue_unknown2 e) = 12 \<Longrightarrow> upcase_of (upcase_bytes e) = e"
  "length (ue_unknown1 e) = 3 \<Longrightarrow> length (ue_unknown2 e) = 12 \<Longrightarrow> length (upcase_bytes e) = 32"
  by (simp_all add: upcase_bytes_def upcase_of_def buf_get_def numeral_eq_Suc del: to_le.simps)

lemma label_of_bytes: "length (le_name e) = 15 \<Longrightarrow> label_of (label_bytes e) = e" "length (le_name e) = 15 \<Longrightarrow> length (label_bytes e) = 32"
  by (simp_all add: label_bytes_def label_of_def buf_get_def)

lemma meta1_of_bytes: "length (m1_unknown2 e) = 7 \<Longrightarrow> meta1_of (meta1_bytes e) = e" "length (m1_unknown2 e) = 7 \<Longrightarrow> length (meta1_bytes e) = 32"
  by (simp_all add: meta1_bytes_def meta1_of_def buf_get_def nth_append numeral_eq_Suc del: to_le.simps)

lemma meta2_of_bytes: "length (m2_unknown3 e) = 4 \<Longrightarrow> meta2_of (meta2_bytes e) = e" "length (m2_unknown3 e) = 4 \<Longrightarrow> length (meta2_bytes e) = 32"
  by (simp_all add: meta2_bytes_def meta2_of_def buf_get_def numeral_eq_Suc del: to_le.simps)

lemma name_of_bytes: "length (ne_name e) = 15 \<Longrightarrow> name_of (name_bytes e) = e" "length (ne_name e) = 15 \<Longrightarrow> length (name_bytes e) = 32"
  by (simp_all add: name_bytes_def name_of_def buf_get_def)

section \<open>Checksums\<close>

definition add_checksum_byte :: "u16 \<Rightarrow> u8 \<Rightarrow> u16" where
  "add_checksum_byte chk b = (push_bit 15 chk OR drop_bit 1 chk) + ucast b"

definition add_checksum_bytes :: "u16 \<Rightarrow> bytes \<Rightarrow> u16" where
  "add_checksum_bytes chk bs = foldl add_checksum_byte chk bs"

definition exfat_start_checksum :: "bytes \<Rightarrow> u16" where
  "exfat_start_checksum entry = foldl (\<lambda>chk i. if i \<noteq> 2 \<and> i \<noteq> 3 then add_checksum_byte chk (entry ! i) else chk) 0 [0..<32]"

definition exfat_add_checksum :: "bytes \<Rightarrow> u16 \<Rightarrow> u16" where
  "exfat_add_checksum entry chk = add_checksum_bytes chk entry"

definition exfat_calc_checksum :: "bytes list \<Rightarrow> u16" where
  "exfat_calc_checksum entries = foldl (\<lambda>chk e. exfat_add_checksum e chk) (exfat_start_checksum (hd entries)) (tl entries)"

definition vbr_step :: "u32 \<Rightarrow> u8 \<Rightarrow> u32" where
  "vbr_step chk b = (push_bit 31 chk OR drop_bit 1 chk) + ucast b"

definition exfat_vbr_start_checksum :: "bytes \<Rightarrow> nat \<Rightarrow> u32" where
  "exfat_vbr_start_checksum sector n =
     foldl (\<lambda>chk i. if i \<noteq> 0x6a \<and> i \<noteq> 0x6b \<and> i \<noteq> 0x70 then vbr_step chk (sector ! i) else chk) 0 [0..<n]"

definition exfat_vbr_add_checksum :: "bytes \<Rightarrow> nat \<Rightarrow> u32 \<Rightarrow> u32" where
  "exfat_vbr_add_checksum sector n chk = foldl (\<lambda>chk i. vbr_step chk (sector ! i)) chk [0..<n]"

definition hash_step :: "u16 \<Rightarrow> u16 \<Rightarrow> u16" where
  "hash_step hash x = (push_bit 15 hash OR drop_bit 1 hash) + x"

text \<open>The up-case table is a list of 65536 units.\<close>

definition exfat_calc_name_hash :: "u16 list \<Rightarrow> u16 list \<Rightarrow> nat \<Rightarrow> u16" where
  "exfat_calc_name_hash upcase name n =
     foldl (\<lambda>hash i. let c = upcase ! unat (name ! i) in hash_step (hash_step hash (c AND 0xff)) (drop_bit 8 c)) 0 [0..<n]"

text \<open>The checksum of the super block does not see the volume state and the percentage in use.\<close>

lemma vbr_start_checksum_cong:
  assumes "\<And>i. i < n \<Longrightarrow> i \<noteq> 0x6a \<Longrightarrow> i \<noteq> 0x6b \<Longrightarrow> i \<noteq> 0x70 \<Longrightarrow> a ! i = b ! i"
  shows "exfat_vbr_start_checksum a n = exfat_vbr_start_checksum b n"
  unfolding exfat_vbr_start_checksum_def by (rule foldl_cong) (use assms in auto)

lemma vbr_add_checksum_cong: "(\<And>i. i < n \<Longrightarrow> a ! i = b ! i) \<Longrightarrow> exfat_vbr_add_checksum a n chk = exfat_vbr_add_checksum b n chk"
  unfolding exfat_vbr_add_checksum_def by (rule foldl_cong) auto

lemma start_checksum_cong: "(\<And>i. i < 32 \<Longrightarrow> i \<noteq> 2 \<Longrightarrow> i \<noteq> 3 \<Longrightarrow> a ! i = b ! i) \<Longrightarrow> exfat_start_checksum a = exfat_start_checksum b"
  unfolding exfat_start_checksum_def by (rule foldl_cong) auto

section \<open>Sizes for people\<close>

text \<open>The value and the index of its unit; \<open>None\<close> is a read past the table of seven units.\<close>

definition human_value :: "u64 \<Rightarrow> u64 \<Rightarrow> u64" where
  "human_value n divisor = (n + divisor div 2) div divisor"

function humanize_loop :: "u64 \<Rightarrow> nat \<Rightarrow> u64 \<Rightarrow> (u64 \<times> nat) option" where
  "humanize_loop n i divisor =
     (if i \<ge> 7 then None
      else
        let temp = human_value n divisor in
        if temp = 0 then Some (temp, i)
        else if temp div 1024 * 1024 \<noteq> temp \<and> temp < 10240 then Some (temp, i)
        else humanize_loop n (i + 1) (divisor * 1024))"
  by pat_completeness auto
termination by (relation "measure (\<lambda>(n, i, divisor). 7 - i)") auto

definition exfat_humanize_bytes :: "u64 \<Rightarrow> (u64 \<times> nat) option" where
  "exfat_humanize_bytes n = humanize_loop n 0 1"

end
