(* ===== verification/Exfat_Format_Model.thy ===== *)
theory Exfat_Format_Model
  imports Exfat_Disk Exfat_Upcase
begin

text \<open>
  The exFAT formatter, \<^verbatim>\<open>fs/exfat/mkfs\<close>, as the UEFI build uses it: the parameters and the allocator of \<^verbatim>\<open>fs/exfat/compat.c\<close>, the five objects a
  volume is made of, the three passes of \<^verbatim>\<open>mkexfat.c\<close> over them, and \<^verbatim>\<open>exfat_format\<close> of \<^verbatim>\<open>fs/exfat/exfat.c\<close>.  Offsets are signed (\<^verbatim>\<open>off_t\<close>)
  and are integers here; \<^verbatim>\<open>free\<close> does nothing in this build.
\<close>

section \<open>Parameters and memory\<close>

record mkfs_param =
  mp_sector_bits :: int
  mp_spc_bits :: int
  mp_volume_size :: int
  mp_volume_label :: "u16 list"
  mp_volume_serial :: u32
  mp_first_sector :: u64

definition mkfs_param_init :: mkfs_param where
  "mkfs_param_init = \<lparr>mp_sector_bits = 9, mp_spc_bits = 3, mp_volume_size = 0, mp_volume_label = replicate 16 0,
     mp_volume_serial = 0x12345678, mp_first_sector = 0\<rparr>"

definition exfat_mkfs_set_volume_size :: "int \<Rightarrow> mkfs_param \<Rightarrow> mkfs_param" where
  "exfat_mkfs_set_volume_size n p = p\<lparr>mp_volume_size := n\<rparr>"

definition get_sector_size :: int where
  "get_sector_size = 512"

definition get_cluster_size :: int where
  "get_cluster_size = 4096"

definition exfat_malloc :: "u64 \<Rightarrow> u64 \<Rightarrow> u64 option \<times> u64" where
  "exfat_malloc n used = (let n = (n + 7) AND NOT 7 in if used + n > 2 * 1024 * 1024 then (None, used) else (Some used, used + n))"

definition exfat_heap_reset :: u64 where
  "exfat_heap_reset = 0"

record 's mkfs_run =
  mk_io :: "'s exfat_io"
  mk_dev :: exfat_dev
  mk_param :: mkfs_param
  exfat_heap_used :: u64

definition DIV_ROUND_UP :: "int \<Rightarrow> int \<Rightarrow> int" where
  "DIV_ROUND_UP x d = c_div (x + d - 1) d"

definition ROUND_UP :: "int \<Rightarrow> int \<Rightarrow> int" where
  "ROUND_UP x d = DIV_ROUND_UP x d * d"

definition mk_write :: "'s storage \<Rightarrow> bytes \<Rightarrow> nat \<Rightarrow> 's mkfs_run \<Rightarrow> (int \<times> 's mkfs_run) option" where
  "mk_write ops buf n st =
     (case exfat_write ops (mk_dev st) buf n (mk_io st) of
        None \<Rightarrow> None
      | Some (r, dev, io) \<Rightarrow> Some (r, st\<lparr>mk_dev := dev, mk_io := io\<rparr>))"

section \<open>Sizes and positions\<close>

datatype fs_object = Vbr | Fat | Cbm | Uct | Rootdir

definition objects :: "fs_object list" where
  "objects = [Vbr, Vbr, Fat, Cbm, Uct, Rootdir]"

definition vbr_size :: int where "vbr_size = 12 * get_sector_size"

definition fat_size :: "mkfs_param \<Rightarrow> int" where "fat_size p = c_div (mp_volume_size p) get_cluster_size * 4"

definition uct_size :: int where "uct_size = int (length upcase_table)"

definition rootdir_size :: int where "rootdir_size = get_cluster_size"

fun get_alignment :: "fs_object \<Rightarrow> int" where
  "get_alignment Vbr = get_sector_size"
| "get_alignment Fat = 128 * get_sector_size"
| "get_alignment Cbm = get_cluster_size"
| "get_alignment Uct = get_cluster_size"
| "get_alignment Rootdir = get_cluster_size"

text \<open>The size of the bitmap depends on its own position, which only depends on the objects in front of it.\<close>

function position_loop :: "mkfs_param \<Rightarrow> fs_object \<Rightarrow> fs_object list \<Rightarrow> int \<Rightarrow> int option" and get_size :: "mkfs_param \<Rightarrow> fs_object \<Rightarrow> int option" where
  "position_loop p ob [] position = None"
| "position_loop p ob (o1 # os) position =
     (if o1 = ob then Some (ROUND_UP position (get_alignment o1))
      else
        case get_size p o1 of
          None \<Rightarrow> None
        | Some n \<Rightarrow> position_loop p ob os (ROUND_UP position (get_alignment o1) + n))"
| "get_size p Vbr = Some vbr_size"
| "get_size p Fat = Some (fat_size p)"
| "get_size p Cbm = map_option (\<lambda>pos. DIV_ROUND_UP (c_div (mp_volume_size p - pos) get_cluster_size) 8) (position_loop p Cbm objects 0)"
| "get_size p Uct = Some uct_size"
| "get_size p Rootdir = Some rootdir_size"
  by pat_completeness auto
termination
  by (relation "measures [\<lambda>x. case x of Inl (p, ob, os, pos) \<Rightarrow> if ob = Cbm then 1 else 3 | Inr (p, ob) \<Rightarrow> if ob = Cbm then 2 else 0,
                          \<lambda>x. case x of Inl (p, ob, os, pos) \<Rightarrow> length os | Inr r \<Rightarrow> 0]") auto

definition get_position :: "mkfs_param \<Rightarrow> fs_object \<Rightarrow> int option" where
  "get_position p ob = position_loop p ob objects 0"

section \<open>The objects\<close>

definition init_sb :: "mkfs_param \<Rightarrow> exfat_super_block option" where
  "init_sb p =
     (case (get_position p Cbm, get_position p Rootdir) of
        (Some cbm_pos, Some root_pos) \<Rightarrow>
          (let clusters_max = (word_of_int (c_div (mp_volume_size p) get_cluster_size) :: u32);
               fat_sectors = (ucast ((ucast clusters_max * 4 + 512 - 1) div (512 :: u64)) :: u32);
               fat_start = (word_of_int (c_div (get_alignment Fat) get_sector_size) :: u32);
               spc = (push_bit (nat (mp_spc_bits p)) 1 :: u32);
               fat_count = (fat_start + fat_sectors + spc - 1) div spc * spc - fat_start in
           Some \<lparr>sb_jump = [0xeb, 0x76, 0x90], sb_oem_name = map (of_nat \<circ> of_char) ''EXFAT   '', sb_unused1 = replicate 53 0,
             sb_sector_start = mp_first_sector p,
             sb_sector_count = word_of_int (c_div (mp_volume_size p) get_sector_size),
             sb_fat_sector_start = fat_start,
             sb_fat_sector_count = fat_count,
             sb_cluster_sector_start = word_of_int (c_div cbm_pos get_sector_size),
             sb_cluster_count = clusters_max - drop_bit (nat (mp_spc_bits p)) (fat_start + fat_count),
             sb_rootdir_cluster = word_of_int (c_div (root_pos - cbm_pos) get_cluster_size + 2),
             sb_volume_serial = mp_volume_serial p, sb_version_minor = 0, sb_version_major = 1, sb_volume_state = 0,
             sb_sector_bits = word_of_int (mp_sector_bits p), sb_spc_bits = word_of_int (mp_spc_bits p), sb_fat_count = 1, sb_drive_no = 0x80,
             sb_allocated_percent = 0, sb_unused2 = replicate 397 0, sb_boot_signature = 0xaa55\<rparr>)
      | r \<Rightarrow> None)"

text \<open>A run of equal sectors, added to the checksum one by one; the flag tells whether a write failed.\<close>

fun write_equal_sectors :: "'s storage \<Rightarrow> nat \<Rightarrow> bytes \<Rightarrow> u32 \<Rightarrow> 's mkfs_run \<Rightarrow> (bool \<times> u32 \<times> 's mkfs_run) option" where
  "write_equal_sectors ops 0 sector checksum st = Some (True, checksum, st)"
| "write_equal_sectors ops (Suc n) sector checksum st =
     (case mk_write ops sector 512 st of
        None \<Rightarrow> None
      | Some (r, st1) \<Rightarrow>
          if r < 0 then Some (False, checksum, st1)
          else write_equal_sectors ops n sector (exfat_vbr_add_checksum sector 512 checksum) st1)"

definition vbr_write :: "'s storage \<Rightarrow> 's mkfs_run \<Rightarrow> (int \<times> 's mkfs_run) option" where
  "vbr_write ops st =
     (case exfat_malloc 512 (exfat_heap_used st) of
        (None, used) \<Rightarrow> Some (1, st\<lparr>exfat_heap_used := used\<rparr>)
      | (Some p, used) \<Rightarrow>
          do {
            sb \<leftarrow> init_sb (mk_param st);
            (r, st1) \<leftarrow> mk_write ops (sb_bytes sb) 512 (st\<lparr>exfat_heap_used := used\<rparr>);
            if r < 0 then Some (1, st1)
            else do {
              let checksum = exfat_vbr_start_checksum (sb_bytes sb) 512;
              (ok, checksum, st2) \<leftarrow> write_equal_sectors ops 8 (replicate 508 0 @ to_le 4 (0xaa550000 :: u32)) checksum st1;
              if \<not> ok then Some (1, st2)
              else do {
                (ok, checksum, st3) \<leftarrow> write_equal_sectors ops 2 (replicate 512 0) checksum st2;
                if \<not> ok then Some (1, st3)
                else do {
                  (r, st4) \<leftarrow> mk_write ops (concat (replicate 128 (to_le 4 checksum))) 512 st3;
                  Some (if r < 0 then 1 else 0, st4)
                }
              }
            }
          })"

definition fat_write_entry :: "'s storage \<Rightarrow> u32 \<Rightarrow> u32 \<Rightarrow> 's mkfs_run \<Rightarrow> (u32 \<times> 's mkfs_run) option" where
  "fat_write_entry ops cluster v st =
     (case mk_write ops (to_le 4 v) 4 st of
        None \<Rightarrow> None
      | Some (r, st1) \<Rightarrow> Some (if r < 0 then 0 else cluster + 1, st1))"

lemma fat_write_entry_next: "fat_write_entry ops cluster v st = Some (c, st1) \<Longrightarrow> c \<noteq> 0 \<Longrightarrow> c = cluster + 1"
  by (auto simp: fat_write_entry_def split: option.splits if_splits)

text \<open>The links of a chain; \<open>None\<close> in the result is a failed write.\<close>

function entries_loop :: "'s storage \<Rightarrow> u32 \<Rightarrow> u32 \<Rightarrow> 's mkfs_run \<Rightarrow> (u32 option \<times> 's mkfs_run) option" where
  "entries_loop ops stop cluster st =
     (if cluster < stop - 1 then
        case fat_write_entry ops cluster (cluster + 1) st of
          None \<Rightarrow> None
        | Some (c, st1) \<Rightarrow> if c = 0 then Some (None, st1) else entries_loop ops stop c st1
      else Some (Some cluster, st))"
  by pat_completeness auto
termination
proof (relation "measure (\<lambda>(ops, stop, cluster, st). unat (stop - 1) - unat cluster)", goal_cases)
  case (2 ops stop cluster st x2 c st1)
  then have "c = cluster + 1" by (intro fat_write_entry_next[of ops cluster "cluster + 1" st c st1]) auto
  moreover have l: "unat cluster < unat (stop - 1)" using 2(1) by (simp add: word_less_nat_alt)
  moreover have "unat (cluster + 1) = unat cluster + 1" using l unat_u32_bound[of "stop - 1"] by (simp add: unat_word_ariths)
  ultimately show ?case by simp
qed simp

definition fat_write_entries :: "'s storage \<Rightarrow> u32 \<Rightarrow> u64 \<Rightarrow> 's mkfs_run \<Rightarrow> (u32 \<times> 's mkfs_run) option" where
  "fat_write_entries ops cluster n st =
     (let stop = ucast (ucast cluster + (n + 4096 - 1) div 4096) in
      case entries_loop ops stop cluster st of
        None \<Rightarrow> None
      | Some (None, st1) \<Rightarrow> Some (0, st1)
      | Some (Some c, st1) \<Rightarrow> fat_write_entry ops c EXFAT_CLUSTER_END st1)"

definition fat_write :: "'s storage \<Rightarrow> 's mkfs_run \<Rightarrow> (int \<times> 's mkfs_run) option" where
  "fat_write ops st =
     do {
       (c, st) \<leftarrow> fat_write_entry ops 0 0xfffffff8 st;
       if c = 0 then Some (1, st)
       else do {
         (c, st) \<leftarrow> fat_write_entry ops c 0xffffffff st;
         if c = 0 then Some (1, st)
         else do {
           n \<leftarrow> get_size (mk_param st) Cbm;
           (c, st) \<leftarrow> fat_write_entries ops c (word_of_int n) st;
           if c = 0 then Some (1, st)
           else do {
             n \<leftarrow> get_size (mk_param st) Uct;
             (c, st) \<leftarrow> fat_write_entries ops c (word_of_int n) st;
             if c = 0 then Some (1, st)
             else do {
               n \<leftarrow> get_size (mk_param st) Rootdir;
               (c, st) \<leftarrow> fat_write_entries ops c (word_of_int n) st;
               Some (if c = 0 then 1 else 0, st)
             }
           }
         }
       }
     }"

definition cbm_write :: "'s storage \<Rightarrow> 's mkfs_run \<Rightarrow> (int \<times> 's mkfs_run) option" where
  "cbm_write ops st =
     do {
       cbm \<leftarrow> get_size (mk_param st) Cbm;
       uct \<leftarrow> get_size (mk_param st) Uct;
       root \<leftarrow> get_size (mk_param st) Rootdir;
       let allocated_clusters = (word_of_int (DIV_ROUND_UP cbm get_cluster_size + DIV_ROUND_UP uct get_cluster_size + DIV_ROUND_UP root get_cluster_size) :: u32);
       let bitmap_size = unat ((allocated_clusters + 8 - 1) div 8 * 8);
       case exfat_malloc (of_nat (BMAP_SIZE bitmap_size)) (exfat_heap_used st) of
         (None, used) \<Rightarrow> Some (1, st\<lparr>exfat_heap_used := used\<rparr>)
       | (Some p, used) \<Rightarrow>
           let bitmap = foldl (\<lambda>b i. if i < unat allocated_clusters then BMAP_SET b i else b) (replicate (BMAP_SIZE bitmap_size div 8) 0) [0..<bitmap_size] in
           do {
             (r, st1) \<leftarrow> mk_write ops (concat (map (to_le 8) bitmap)) (bitmap_size div 8) (st\<lparr>exfat_heap_used := used\<rparr>);
             Some (if r < 0 then 1 else 0, st1)
           }
     }"

definition uct_write :: "'s storage \<Rightarrow> 's mkfs_run \<Rightarrow> (int \<times> 's mkfs_run) option" where
  "uct_write ops st = map_option (\<lambda>(r, st1). (if r < 0 then 1 else 0, st1)) (mk_write ops upcase_table 5836 st)"

definition init_label_entry :: "mkfs_param \<Rightarrow> exfat_entry_label option" where
  "init_label_entry p =
     (let e = \<lparr>le_type = EXFAT_ENTRY_LABEL XOR EXFAT_ENTRY_VALID, le_length = 0, le_name = replicate 15 0\<rparr> in
      map_option (\<lambda>n. if n = 0 then e
                      else \<lparr>le_type = le_type e OR EXFAT_ENTRY_VALID, le_length = of_nat n, le_name = take 15 (mp_volume_label p)\<rparr>)
        (exfat_utf16_length (mp_volume_label p)))"

definition init_bitmap_entry :: "mkfs_param \<Rightarrow> exfat_entry_bitmap option" where
  "init_bitmap_entry p =
     map_option (\<lambda>n. \<lparr>be_type = EXFAT_ENTRY_BITMAP, be_unknown1 = replicate 19 0, be_start_cluster = EXFAT_FIRST_DATA_CLUSTER, be_size = word_of_int n\<rparr>)
       (get_size p Cbm)"

definition upcase_sum :: u32 where
  "upcase_sum = foldl vbr_step 0 upcase_table"

definition init_upcase_entry :: "mkfs_param \<Rightarrow> exfat_entry_upcase option" where
  "init_upcase_entry p =
     (case (get_position p Uct, get_position p Cbm) of
        (Some uct_pos, Some cbm_pos) \<Rightarrow>
          Some \<lparr>ue_type = EXFAT_ENTRY_UPCASE, ue_unknown1 = replicate 3 0, ue_checksum = upcase_sum, ue_unknown2 = replicate 12 0,
            ue_start_cluster = word_of_int (c_div (uct_pos - cbm_pos) get_cluster_size + 2), ue_size = 5836\<rparr>
      | r \<Rightarrow> None)"

definition rootdir_write :: "'s storage \<Rightarrow> 's mkfs_run \<Rightarrow> (int \<times> 's mkfs_run) option" where
  "rootdir_write ops st =
     do {
       label \<leftarrow> init_label_entry (mk_param st);
       bitmap \<leftarrow> init_bitmap_entry (mk_param st);
       upcase \<leftarrow> init_upcase_entry (mk_param st);
       (r, st) \<leftarrow> mk_write ops (label_bytes label) 32 st;
       if r < 0 then Some (1, st)
       else do {
         (r, st) \<leftarrow> mk_write ops (bitmap_bytes bitmap) 32 st;
         if r < 0 then Some (1, st)
         else do {
           (r, st) \<leftarrow> mk_write ops (upcase_bytes upcase) 32 st;
           Some (if r < 0 then 1 else 0, st)
         }
       }
     }"

fun object_write :: "'s storage \<Rightarrow> fs_object \<Rightarrow> 's mkfs_run \<Rightarrow> (int \<times> 's mkfs_run) option" where
  "object_write ops Vbr st = vbr_write ops st"
| "object_write ops Fat st = fat_write ops st"
| "object_write ops Cbm st = cbm_write ops st"
| "object_write ops Uct st = uct_write ops st"
| "object_write ops Rootdir st = rootdir_write ops st"

section \<open>The passes\<close>

fun size_loop :: "mkfs_param \<Rightarrow> fs_object list \<Rightarrow> int \<Rightarrow> int option" where
  "size_loop p [] position = Some position"
| "size_loop p (ob # os) position =
     (case get_size p ob of None \<Rightarrow> None | Some n \<Rightarrow> size_loop p os (ROUND_UP position (get_alignment ob) + n))"

definition check_size :: "mkfs_param \<Rightarrow> int \<Rightarrow> int option" where
  "check_size p volume_size = map_option (\<lambda>position. if position > volume_size then 1 else 0) (size_loop p objects 0)"

definition mk_seek :: "int \<Rightarrow> 's mkfs_run \<Rightarrow> bool \<times> 's mkfs_run" where
  "mk_seek position st = (case exfat_seek (mk_dev st) (word_of_int position) SEEK_SET of (r, dev) \<Rightarrow> (r \<noteq> -1, st\<lparr>mk_dev := dev\<rparr>))"

function erase_blocks :: "'s storage \<Rightarrow> bytes \<Rightarrow> int \<Rightarrow> int \<Rightarrow> 's mkfs_run \<Rightarrow> (int \<times> 's mkfs_run) option" where
  "erase_blocks ops block n i st =
     (if i < n then
        case mk_write ops block (nat (min (n - i) (4 * 1024))) st of
          None \<Rightarrow> None
        | Some (r, st1) \<Rightarrow> if r < 0 then Some (1, st1) else erase_blocks ops block n (i + 4 * 1024) st1
      else Some (0, st))"
  by pat_completeness auto
termination by (relation "measure (\<lambda>(ops, block, n, i, st). nat (n - i))") auto

definition erase_object :: "'s storage \<Rightarrow> bytes \<Rightarrow> int \<Rightarrow> int \<Rightarrow> 's mkfs_run \<Rightarrow> (int \<times> 's mkfs_run) option" where
  "erase_object ops block start n st = (case mk_seek start st of (ok, st1) \<Rightarrow> if \<not> ok then Some (1, st1) else erase_blocks ops block n 0 st1)"

fun erase_objects :: "'s storage \<Rightarrow> bytes \<Rightarrow> fs_object list \<Rightarrow> int \<Rightarrow> 's mkfs_run \<Rightarrow> (int \<times> 's mkfs_run) option" where
  "erase_objects ops block [] position st = Some (0, st)"
| "erase_objects ops block (ob # os) position st =
     (case get_size (mk_param st) ob of
        None \<Rightarrow> None
      | Some n \<Rightarrow>
          (case erase_object ops block (ROUND_UP position (get_alignment ob)) n st of
             None \<Rightarrow> None
           | Some (rc, st1) \<Rightarrow>
               if rc \<noteq> 0 then Some (1, st1) else erase_objects ops block os (ROUND_UP position (get_alignment ob) + n) st1))"

definition mkfs_erase :: "'s storage \<Rightarrow> 's mkfs_run \<Rightarrow> (int \<times> 's mkfs_run) option" where
  "mkfs_erase ops st =
     (case exfat_malloc (4 * 1024) (exfat_heap_used st) of
        (None, used) \<Rightarrow> Some (1, st\<lparr>exfat_heap_used := used\<rparr>)
      | (Some p, used) \<Rightarrow> erase_objects ops (replicate (4 * 1024) 0) objects 0 (st\<lparr>exfat_heap_used := used\<rparr>))"

fun create_objects :: "'s storage \<Rightarrow> fs_object list \<Rightarrow> int \<Rightarrow> 's mkfs_run \<Rightarrow> (int \<times> 's mkfs_run) option" where
  "create_objects ops [] position st = Some (0, st)"
| "create_objects ops (ob # os) position st =
     (let position = ROUND_UP position (get_alignment ob) in
      case mk_seek position st of
        (ok, st1) \<Rightarrow>
          if \<not> ok then Some (1, st1)
          else
            (case object_write ops ob st1 of
               None \<Rightarrow> None
             | Some (rc, st2) \<Rightarrow>
                 if rc \<noteq> 0 then Some (1, st2)
                 else (case get_size (mk_param st2) ob of None \<Rightarrow> None | Some n \<Rightarrow> create_objects ops os (position + n) st2)))"

definition mkfs_create :: "'s storage \<Rightarrow> 's mkfs_run \<Rightarrow> (int \<times> 's mkfs_run) option" where
  "mkfs_create ops st = create_objects ops objects 0 st"

definition mkfs :: "'s storage \<Rightarrow> int \<Rightarrow> 's mkfs_run \<Rightarrow> (int \<times> 's mkfs_run) option" where
  "mkfs ops volume_size st =
     (case check_size (mk_param st) volume_size of
        None \<Rightarrow> None
      | Some rc \<Rightarrow>
          if rc \<noteq> 0 then Some (1, st)
          else
            (case mkfs_erase ops st of
               None \<Rightarrow> None
             | Some (rc, st1) \<Rightarrow>
                 if rc \<noteq> 0 then Some (1, st1)
                 else map_option (\<lambda>(rc, st2). (if rc \<noteq> 0 then 1 else 0, st2)) (mkfs_create ops st1)))"

text \<open>
  \<^verbatim>\<open>exfat_format\<close>.  The device structure takes 24 bytes of the heap; the label argument of the source is not used by it.
  \<open>ms_blocks\<close> and \<open>sata_blocks\<close> are the capacities the two drivers report.
\<close>

definition exfat_format :: "'s storage \<Rightarrow> ('s \<Rightarrow> u64) \<Rightarrow> ('s \<Rightarrow> int \<times> u64 \<times> 's) \<Rightarrow> u64 \<Rightarrow> 's mkfs_run \<Rightarrow> (int \<times> 's mkfs_run) option" where
  "exfat_format ops ms_blocks sata_blocks total_sectors st =
     (if \<not> block_is_present ops (io_disk (mk_io st)) then Some (-1, st)
      else
        case exfat_malloc 24 (exfat_heap_used st) of
          (alloc, used) \<Rightarrow>
            (case exfat_open ops ms_blocks sata_blocks (alloc \<noteq> None) False EXFAT_MODE_RW (io_disk (mk_io st)) of
               (None, s) \<Rightarrow> Some (-1, st\<lparr>mk_io := (mk_io st)\<lparr>io_disk := s\<rparr>, exfat_heap_used := used\<rparr>)
             | (Some dev, s) \<Rightarrow>
                 let volsize = sint (total_sectors * 512);
                     st1 = st\<lparr>mk_io := (mk_io st)\<lparr>io_disk := s\<rparr>, exfat_heap_used := used, mk_dev := dev,
                              mk_param := exfat_mkfs_set_volume_size volsize (mk_param st)\<rparr> in
                 (case mkfs ops volsize st1 of
                    None \<Rightarrow> None
                  | Some (rc, st2) \<Rightarrow>
                      if rc \<noteq> 0 then Some (-1, st2)
                      else
                        (case st_sata_flush ops (io_disk (mk_io st2)) of
                           (rc, s) \<Rightarrow> Some (0, st2\<lparr>mk_io := (mk_io st2)\<lparr>io_disk := s\<rparr>, exfat_heap_used := exfat_heap_reset\<rparr>)))))"

end
