(* ===== verification/Exfat_Io.thy ===== *)
theory Exfat_Io
  imports Exfat_Model
begin

text \<open>
  Byte access to the partition.  The locale \<open>byte_volume\<close> is the contract of \<^verbatim>\<open>exfat_pread\<close> and \<^verbatim>\<open>exfat_pwrite\<close>: a volume is an array of
  bytes.  Every block device provides it, for any partition offset.
\<close>

section \<open>Byte arrays\<close>

definition overwrite :: "(nat \<Rightarrow> u8) \<Rightarrow> nat \<Rightarrow> bytes \<Rightarrow> nat \<Rightarrow> u8" where
  "overwrite f a bs = (\<lambda>p. if a \<le> p \<and> p < a + length bs then bs ! (p - a) else f p)"

lemma overwrite_Nil [simp]: "overwrite f a [] = f"
  by (auto simp: overwrite_def fun_eq_iff)

lemma overwrite_append: "overwrite (overwrite f a xs) (a + length xs) ys = overwrite f a (xs @ ys)"
  by (auto simp: overwrite_def fun_eq_iff nth_append)

lemma overwrite_outside: "p < a \<or> a + length bs \<le> p \<Longrightarrow> overwrite f a bs p = f p"
  by (auto simp: overwrite_def)

lemma overwrite_inside: "i < length bs \<Longrightarrow> overwrite f a bs (a + i) = bs ! i"
  by (simp add: overwrite_def)

lemma map_overwrite_same: "length bs = n \<Longrightarrow> map (overwrite f a bs) [a..<a + n] = bs"
  by (rule nth_equalityI) (auto simp: overwrite_inside)

lemma map_overwrite_other: "b + n \<le> a \<or> a + length bs \<le> b \<Longrightarrow> map (overwrite f a bs) [b..<b + n] = map f [b..<b + n]"
  by (auto simp: overwrite_def)

section \<open>The transfer loops\<close>

definition disk_byte :: "('s \<Rightarrow> nat \<Rightarrow> bytes) \<Rightarrow> 's exfat_io \<Rightarrow> nat \<Rightarrow> u8" where
  "disk_byte sect io q = sect (io_disk io) (q div 512) ! (q mod 512)"

definition io_ok :: "('s \<Rightarrow> bool) \<Rightarrow> u64 \<Rightarrow> 's exfat_io \<Rightarrow> bool" where
  "io_ok dev_ok P io \<longleftrightarrow> dev_ok (io_disk io) \<and> length (pread_buf io) = 512 \<and> length (pwrite_buf io) = 512 \<and> exfat_partition_offset io = P"

lemma unat_pos: "unat (pos div 512 :: u64) = unat pos div 512" "unat (pos mod 512 :: u64) = unat pos mod 512"
  by (simp_all add: unat_div unat_mod)

lemma chunk_sector: "i < sector_chunk pos n \<Longrightarrow> (unat pos + i) div 512 = unat pos div 512 \<and> (unat pos + i) mod 512 = unat pos mod 512 + i"
proof -
  assume "i < sector_chunk pos n"
  with sector_chunk_bounds(3)[of pos n] have l: "unat pos mod 512 + i < 512" by (simp add: unat_pos)
  have "unat pos + i = (unat pos mod 512 + i) + 512 * (unat pos div 512)" by simp
  then show ?thesis using l by (metis div_less div_mult_self2 mod_less mod_mult_self2 add_0_right zero_neq_numeral)
qed

lemma sector_bytes:
  assumes "length (sect s (unat pos div 512)) = 512"
  shows "buf_get (sector_chunk pos n) (sect s (unat pos div 512)) (unat (pos mod 512)) =
    map (\<lambda>q. sect s (q div 512) ! (q mod 512)) [unat pos..<unat pos + sector_chunk pos n]"
  using assms sector_chunk_bounds(3)[of pos n] chunk_sector[of _ pos n]
  by (intro nth_equalityI) (auto simp: buf_get_def unat_pos)

context block_device
begin

lemma pread_loop_ok:
  assumes "io_ok dev_ok P io" "\<forall>q. unat pos \<le> q \<and> q < unat pos + n \<longrightarrow> q div 512 \<in> lbas" "unat pos + n < 2 ^ 64" "bi + n \<le> length buf"
  shows "\<exists>io'. pread_loop ops buf bi pos n br io =
      Some (int (br + n), buf_put buf bi (map (disk_byte sect io) [unat pos..<unat pos + n]), io') \<and>
      io_ok dev_ok P io' \<and> disk_byte sect io' = disk_byte sect io"
  using assms
proof (induction n arbitrary: buf bi pos br io rule: less_induct)
  case (less n)
  show ?case
  proof (cases "n = 0")
    case True
    then show ?thesis using less.prems by auto
  next
    case False
    define k where "k = sector_chunk pos n"
    have k: "0 < k" "k \<le> n" "unat (pos mod 512) + k \<le> 512" using sector_chunk_bounds(1)[of n pos] sector_chunk_bounds(2,3)[of pos n] False by (auto simp: k_def)
    have dk: "dev_ok (io_disk io)" "length (pread_buf io) = 512" using less.prems(1) by (auto simp: io_ok_def)
    have "unat (pos div 512) \<in> lbas" using less.prems(2) False by (auto simp: unat_pos)
    from read_sector[OF dk this] obtain s1 where
      r: "block_read_sector ops (pos div 512) (pread_buf io) (io_disk io) = (0, sect (io_disk io) (unat pos div 512), s1)"
        "dev_ok s1" "sect s1 = sect (io_disk io)" by (auto simp: unat_pos)
    let ?sb = "sect (io_disk io) (unat pos div 512)"
    let ?io = "io\<lparr>io_disk := s1, pread_buf := ?sb\<rparr>"
    have len: "length ?sb = 512" by (rule sect_len[OF dk(1)])
    let ?buf = "buf_put buf bi (buf_get k ?sb (unat (pos mod 512)))"
    have io1: "io_ok dev_ok P ?io" "disk_byte sect ?io = disk_byte sect io"
      using less.prems(1) r len by (auto simp: io_ok_def disk_byte_def fun_eq_iff)
    have p1: "unat (pos + of_nat k) = unat pos + k"
      using less.prems(3) k(2) by (subst unat_add_nowrap) (auto simp: unat_of_nat take_bit_nat_eq_self_iff)
    have lk: "length (buf_get k ?sb (unat (pos mod 512))) = k" using k(3) len by simp
    have lb: "length ?buf = length buf" using less.prems(4) k(2) lk by simp
    have step: "pread_loop ops buf bi pos n br io = pread_loop ops ?buf (bi + k) (pos + of_nat k) (n - k) (br + k) ?io"
      using False less.prems(4) k len by (subst pread_loop.simps) (simp add: r(1) Let_def k_def[symmetric])
    have "\<exists>io'. pread_loop ops ?buf (bi + k) (pos + of_nat k) (n - k) (br + k) ?io =
        Some (int (br + k + (n - k)), buf_put ?buf (bi + k) (map (disk_byte sect ?io) [unat (pos + of_nat k)..<unat (pos + of_nat k) + (n - k)]), io') \<and>
        io_ok dev_ok P io' \<and> disk_byte sect io' = disk_byte sect ?io"
      by (rule less.IH[OF _ io1(1)]) (use less.prems(2-4) k p1 lb False in auto)
    moreover have "buf_put ?buf (bi + k) (map (disk_byte sect ?io) [unat (pos + of_nat k)..<unat (pos + of_nat k) + (n - k)]) =
        buf_put buf bi (map (disk_byte sect io) [unat pos..<unat pos + n])"
    proof -
      have "buf_get k ?sb (unat (pos mod 512)) = map (disk_byte sect io) [unat pos..<unat pos + k]"
        using sector_bytes[where sect = sect and s = "io_disk io" and pos = pos and n = n] len by (simp add: k_def disk_byte_def)
      then show ?thesis
        using buf_put_put[of bi "map (disk_byte sect io) [unat pos..<unat pos + k]" _ buf] less.prems(4) k(2) sum_upt[of "unat pos" k "n - k"]
        unfolding p1 io1(2) by simp
    qed
    ultimately show ?thesis unfolding step io1(2) using k(2) by simp
  qed
qed

lemma pwrite_loop_ok:
  assumes "io_ok dev_ok P io" "\<forall>q. unat pos \<le> q \<and> q < unat pos + n \<longrightarrow> q div 512 \<in> lbas" "unat pos + n < 2 ^ 64" "bi + n \<le> length buf"
  shows "\<exists>io'. pwrite_loop ops buf bi pos n m io = Some (int m, io') \<and>
      io_ok dev_ok P io' \<and> disk_byte sect io' = overwrite (disk_byte sect io) (unat pos) (buf_get n buf bi)"
  using assms
proof (induction n arbitrary: bi pos io rule: less_induct)
  case (less n)
  show ?case
  proof (cases "n = 0")
    case True
    then show ?thesis using less.prems by (auto simp: buf_get_def)
  next
    case False
    define k where "k = sector_chunk pos n"
    have k: "0 < k" "k \<le> n" "unat (pos mod 512) + k \<le> 512" using sector_chunk_bounds(1)[of n pos] sector_chunk_bounds(2,3)[of pos n] False by (auto simp: k_def)
    have dk: "dev_ok (io_disk io)" "length (pwrite_buf io) = 512" using less.prems(1) by (auto simp: io_ok_def)
    have lba: "unat (pos div 512) \<in> lbas" using less.prems(2) False by (auto simp: unat_pos)
    from read_sector[OF dk this] obtain s1 where
      r: "block_read_sector ops (pos div 512) (pwrite_buf io) (io_disk io) = (0, sect (io_disk io) (unat pos div 512), s1)"
        "dev_ok s1" "sect s1 = sect (io_disk io)" by (auto simp: unat_pos)
    let ?sb = "sect (io_disk io) (unat pos div 512)"
    have len: "length ?sb = 512" by (rule sect_len[OF dk(1)])
    let ?sb1 = "buf_put ?sb (unat (pos mod 512)) (buf_get k buf bi)"
    have lk: "length (buf_get k buf bi) = k" using less.prems(4) k(2) by simp
    have len1: "length ?sb1 = 512" using lk k(3) len by simp
    from write_sector[OF r(2) len1 lba] obtain s2 where
      w: "block_write_sector ops (pos div 512) ?sb1 s1 = (0, s2)" "dev_ok s2" "sect s2 = (sect (io_disk io))(unat pos div 512 := ?sb1)"
      using r(3) by (auto simp: unat_pos)
    let ?io = "io\<lparr>io_disk := s2, pwrite_buf := ?sb1\<rparr>"
    have io1: "io_ok dev_ok P ?io" using less.prems(1) w len1 by (simp add: io_ok_def)
    have p1: "unat (pos + of_nat k) = unat pos + k"
      using less.prems(3) k(2) by (subst unat_add_nowrap) (auto simp: unat_of_nat take_bit_nat_eq_self_iff)
    have step: "pwrite_loop ops buf bi pos n m io = pwrite_loop ops buf (bi + k) (pos + of_nat k) (n - k) m ?io"
      using False less.prems(4) k len by (subst pwrite_loop.simps) (simp add: r(1) w(1) Let_def k_def[symmetric])
    have byte: "disk_byte sect ?io = overwrite (disk_byte sect io) (unat pos) (buf_get k buf bi)"
    proof
      fix q
      have u: "unat pos = 512 * (unat pos div 512) + unat pos mod 512" by simp
      show "disk_byte sect ?io q = overwrite (disk_byte sect io) (unat pos) (buf_get k buf bi) q"
      proof (cases "q div 512 = unat pos div 512")
        case True
        then have q: "q = 512 * (unat pos div 512) + q mod 512" by (metis mult_div_mod_eq)
        have "?sb1 ! (q mod 512) = (if unat pos mod 512 \<le> q mod 512 \<and> q mod 512 < unat pos mod 512 + k then buf_get k buf bi ! (q mod 512 - unat pos mod 512) else ?sb ! (q mod 512))"
          using len k(3) lk unfolding unat_pos by (auto simp: buf_put_def nth_append min_absorb2)
        moreover have "(unat pos \<le> q) = (unat pos mod 512 \<le> q mod 512)" "(q < unat pos + k) = (q mod 512 < unat pos mod 512 + k)"
          "q - unat pos = q mod 512 - unat pos mod 512" using q u by linarith+
        ultimately show ?thesis using True w(3) lk by (simp add: disk_byte_def overwrite_def)
      next
        case False
        have "q - unat pos < k" if "unat pos \<le> q \<and> q < unat pos + k" using that by linarith
        then have "\<not> (unat pos \<le> q \<and> q < unat pos + k)" using chunk_sector[of "q - unat pos" pos n] False by (auto simp: k_def)
        then show ?thesis using False w(3) lk by (auto simp: disk_byte_def overwrite_def)
      qed
    qed
    have "\<exists>io'. pwrite_loop ops buf (bi + k) (pos + of_nat k) (n - k) m ?io = Some (int m, io') \<and> io_ok dev_ok P io' \<and>
        disk_byte sect io' = overwrite (disk_byte sect ?io) (unat (pos + of_nat k)) (buf_get (n - k) buf (bi + k))"
      by (rule less.IH[OF _ io1]) (use less.prems(2-4) k p1 False in auto)
    moreover have "overwrite (disk_byte sect ?io) (unat (pos + of_nat k)) (buf_get (n - k) buf (bi + k)) =
        overwrite (disk_byte sect io) (unat pos) (buf_get n buf bi)"
      using overwrite_append[of "disk_byte sect io" "unat pos" "buf_get k buf bi" "buf_get (n - k) buf (bi + k)"] k(2)
      unfolding byte p1 lk buf_get_append by simp
    ultimately show ?thesis unfolding step by simp
  qed
qed

end

section \<open>Volumes\<close>

definition vol_byte :: "('s \<Rightarrow> nat \<Rightarrow> bytes) \<Rightarrow> 's exfat_io \<Rightarrow> nat \<Rightarrow> u8" where
  "vol_byte sect io p = disk_byte sect io (p + 512 * unat (exfat_partition_offset io))"

definition vol_bytes :: "nat set \<Rightarrow> u64 \<Rightarrow> nat set" where
  "vol_bytes lbas P = {p. p div 512 + unat P \<in> lbas \<and> p + 512 * unat P < 2 ^ 63}"

locale byte_volume =
  fixes ops :: "'s storage"
    and img :: "'s exfat_io \<Rightarrow> nat \<Rightarrow> u8"
    and ok :: "'s exfat_io \<Rightarrow> bool"
    and vol :: "nat set"
  assumes pread_law: "ok io \<Longrightarrow> {unat off..<unat off + n} \<subseteq> vol \<Longrightarrow> bi + n \<le> length buf \<Longrightarrow>
      \<exists>io'. exfat_pread ops buf bi n off io = Some (int n, buf_put buf bi (map (img io) [unat off..<unat off + n]), io') \<and> ok io' \<and> img io' = img io"
    and pwrite_law: "ok io \<Longrightarrow> {unat off..<unat off + n} \<subseteq> vol \<Longrightarrow> bi + n \<le> length buf \<Longrightarrow>
      \<exists>io'. exfat_pwrite ops buf bi n off io = Some (int n, io') \<and> ok io' \<and> img io' = overwrite (img io) (unat off) (buf_get n buf bi)"
    and vol_bound: "p \<in> vol \<Longrightarrow> p < 2 ^ 63"

lemma vol_position:
  assumes "{unat off..<unat off + n} \<subseteq> vol_bytes lbas P" "0 < n"
  shows "unat (off + P * 512) = unat off + 512 * unat P" "unat off + 512 * unat P + n < 2 ^ 64"
    "\<forall>q. unat off + 512 * unat P \<le> q \<and> q < unat off + 512 * unat P + n \<longrightarrow> q div 512 \<in> lbas"
proof -
  have "unat off + (n - 1) \<in> vol_bytes lbas P" using assms by auto
  then have b: "unat off + (n - 1) + 512 * unat P < 2 ^ 63" by (simp add: vol_bytes_def)
  then have "unat P * 512 < 2 ^ 63" by linarith
  then have p: "unat (P * 512) = 512 * unat P" by (subst unat_mult_nowrap) auto
  have "unat off + 512 * unat P < 2 ^ 63" using b by linarith
  then show "unat (off + P * 512) = unat off + 512 * unat P" by (subst unat_add_nowrap) (auto simp: p)
  show "unat off + 512 * unat P + n < 2 ^ 64" using b assms(2) by simp
  show "\<forall>q. unat off + 512 * unat P \<le> q \<and> q < unat off + 512 * unat P + n \<longrightarrow> q div 512 \<in> lbas"
  proof (intro allI impI)
    fix q assume q: "unat off + 512 * unat P \<le> q \<and> q < unat off + 512 * unat P + n"
    then have "q - 512 * unat P \<in> {unat off..<unat off + n}" by simp linarith
    with assms(1) have "q - 512 * unat P \<in> vol_bytes lbas P" by blast
    moreover have "(q - 512 * unat P) div 512 + unat P = q div 512"
    proof -
      obtain r where "q = r + 512 * unat P" using q by (metis add.commute add_leD2 le_add_diff_inverse)
      then show ?thesis by simp
    qed
    ultimately show "q div 512 \<in> lbas" by (simp add: vol_bytes_def)
  qed
qed

lemma vol_byte_map:
  "exfat_partition_offset io = P \<Longrightarrow> map (disk_byte sect io) [a + 512 * unat P..<a + 512 * unat P + n] = map (vol_byte sect io) [a..<a + n]"
  by (intro nth_equalityI) (auto simp: vol_byte_def algebra_simps)

lemma vol_byte_overwrite:
  assumes "exfat_partition_offset io = P" "exfat_partition_offset io' = P" "disk_byte sect io' = overwrite (disk_byte sect io) (a + 512 * unat P) bs"
  shows "vol_byte sect io' = overwrite (vol_byte sect io) a bs"
  using assms by (auto simp: vol_byte_def overwrite_def fun_eq_iff)

sublocale block_device \<subseteq> volume: byte_volume ops "vol_byte sect" "io_ok dev_ok P" "vol_bytes lbas P" for P
proof
  fix io n bi and off :: u64 and buf :: bytes
  assume ok: "io_ok dev_ok P io" and sub: "{unat off..<unat off + n} \<subseteq> vol_bytes lbas P" and len: "bi + n \<le> length buf"
  have P: "exfat_partition_offset io = P" using ok by (simp add: io_ok_def)
  show "\<exists>io'. exfat_pread ops buf bi n off io = Some (int n, buf_put buf bi (map (vol_byte sect io) [unat off..<unat off + n]), io') \<and>
      io_ok dev_ok P io' \<and> vol_byte sect io' = vol_byte sect io"
  proof (cases "n = 0")
    case True
    then show ?thesis using ok by (auto simp: exfat_pread_def)
  next
    case False
    note v = vol_position[OF sub]
    from pread_loop_ok[OF ok, of "off + P * 512" n bi buf 0] v False len
    obtain io' where r: "pread_loop ops buf bi (off + P * 512) n 0 io =
        Some (int n, buf_put buf bi (map (disk_byte sect io) [unat off + 512 * unat P..<unat off + 512 * unat P + n]), io')"
      "io_ok dev_ok P io'" "disk_byte sect io' = disk_byte sect io" by auto
    then have "vol_byte sect io' = vol_byte sect io" using P by (auto simp: vol_byte_def fun_eq_iff io_ok_def)
    then show ?thesis using r P by (simp add: exfat_pread_def vol_byte_map)
  qed
  show "\<exists>io'. exfat_pwrite ops buf bi n off io = Some (int n, io') \<and>
      io_ok dev_ok P io' \<and> vol_byte sect io' = overwrite (vol_byte sect io) (unat off) (buf_get n buf bi)"
  proof (cases "n = 0")
    case True
    then show ?thesis using ok by (auto simp: exfat_pwrite_def buf_get_def)
  next
    case False
    note v = vol_position[OF sub]
    from pwrite_loop_ok[OF ok, of "off + P * 512" n bi buf n] v False len
    obtain io' where r: "pwrite_loop ops buf bi (off + P * 512) n n io = Some (int n, io')"
      "io_ok dev_ok P io'" "disk_byte sect io' = overwrite (disk_byte sect io) (unat off + 512 * unat P) (buf_get n buf bi)" by auto
    have "vol_byte sect io' = overwrite (vol_byte sect io) (unat off) (buf_get n buf bi)"
      by (rule vol_byte_overwrite[OF P _ r(3)]) (use r(2) in \<open>simp add: io_ok_def\<close>)
    then show ?thesis using r P by (simp add: exfat_pwrite_def)
  qed
next
  fix p assume "p \<in> vol_bytes lbas P"
  then show "p < 2 ^ 63" by (simp add: vol_bytes_def)
qed

end
