(* ===== verification/Exfat_Alloc.thy ===== *)
theory Exfat_Alloc
  imports Exfat_Io
begin

text \<open>
  The bitmap of used clusters: the word-wise search for a clear bit finds the first free cluster after
  the hint, cyclically, and setting, clearing and counting bits are what they should be on the set of
  used clusters.
\<close>

definition used_bit :: "u64 list \<Rightarrow> nat \<Rightarrow> bool" where
  "used_bit b i \<longleftrightarrow> bit (b ! (i div 64)) (i mod 64)"

lemma BMAP_GET_zero: "BMAP_GET b i = 0 \<longleftrightarrow> \<not> used_bit b i"
proof -
  have "i div 8 div 8 = i div 64" by (simp add: div_mult2_eq[symmetric])
  then show ?thesis by (simp add: BMAP_GET_def used_bit_def and_exp_eq_0_iff_not_bit)
qed

lemma used_bit_set:
  assumes "i < 64 * length b"
  shows "used_bit (BMAP_SET b i) j \<longleftrightarrow> used_bit b j \<or> j = i"
proof -
  have d: "i div 8 div 8 = i div 64" by (simp add: div_mult2_eq[symmetric])
  have l: "i div 64 < length b" using assms by (simp add: less_mult_imp_div_less mult.commute)
  have e: "j = i \<longleftrightarrow> j div 64 = i div 64 \<and> j mod 64 = i mod 64" by (metis mult_div_mod_eq)
  have "bit (2 ^ (i mod 64) :: u64) (j mod 64) \<longleftrightarrow> j mod 64 = i mod 64" by (auto simp: bit_exp_iff)
  then show ?thesis using l e
    by (cases "j div 64 = i div 64") (auto simp: used_bit_def BMAP_SET_def d bit_or_iff Let_def)
qed

lemma used_bit_clr:
  assumes "i < 64 * length b"
  shows "used_bit (BMAP_CLR b i) j \<longleftrightarrow> used_bit b j \<and> j \<noteq> i"
proof -
  have d: "i div 8 div 8 = i div 64" by (simp add: div_mult2_eq[symmetric])
  have l: "i div 64 < length b" using assms by (simp add: less_mult_imp_div_less mult.commute)
  have e: "j = i \<longleftrightarrow> j div 64 = i div 64 \<and> j mod 64 = i mod 64" by (metis mult_div_mod_eq)
  have "bit (2 ^ (i mod 64) :: u64) (j mod 64) \<longleftrightarrow> j mod 64 = i mod 64" by (auto simp: bit_exp_iff)
  then show ?thesis using l e
    by (cases "j div 64 = i div 64") (auto simp: used_bit_def BMAP_CLR_def d bit_and_iff bit_not_iff Let_def)
qed

lemma length_bmap [simp]: "length (BMAP_SET b i) = length b" "length (BMAP_CLR b i) = length b"
  by (simp_all add: BMAP_SET_def BMAP_CLR_def Let_def)

section \<open>The search\<close>

lemma find_bit_eq: "find_bit b cs = List.find (\<lambda>c. \<not> used_bit b c) cs"
  by (induction cs) (auto simp: BMAP_GET_zero)

lemma full_word: "b ! i = NOT 0 \<Longrightarrow> c div 64 = i \<Longrightarrow> used_bit b c"
  by (simp add: used_bit_def bit_not_iff)

lemma word_ranges:
  "[max (i * 64) s..<min (k * 64) e] = [max (i * 64) s..<min ((i + 1) * 64) e] @ [max ((i + 1) * 64) s..<min (k * 64) e]" if "i < k" for i k s e :: nat
proof -
  have "(i + 1) * 64 \<le> k * 64" using that by simp
  then consider "s \<ge> (i + 1) * 64" | "e \<le> (i + 1) * 64" "s < (i + 1) * 64" | "s < (i + 1) * 64" "(i + 1) * 64 < e" by linarith
  then show ?thesis
  proof cases
    case 3
    have "[max (i * 64) s..<(i + 1) * 64 + (min (k * 64) e - (i + 1) * 64)] =
        [max (i * 64) s..<(i + 1) * 64] @ [(i + 1) * 64..<(i + 1) * 64 + (min (k * 64) e - (i + 1) * 64)]"
      by (rule upt_add_eq_append) (use 3 in simp)
    moreover have "(i + 1) * 64 + (min (k * 64) e - (i + 1) * 64) = min (k * 64) e" using 3 \<open>(i + 1) * 64 \<le> k * 64\<close> by simp
    ultimately show ?thesis using 3 by (simp add: max_absorb1 min_absorb1)
  next
    case 2
    then have "min (k * 64) e = e" "min ((i + 1) * 64) e = e" using \<open>(i + 1) * 64 \<le> k * 64\<close> by linarith+
    then show ?thesis using 2 by simp
  qed (auto simp: max_def min_def)
qed

lemma find_word_eq:
  "k \<le> length b \<Longrightarrow> i \<le> k \<Longrightarrow> find_word b s e [i..<k] = Some (List.find (\<lambda>c. \<not> used_bit b c) [max (i * 64) s..<min (k * 64) e])"
proof (induction "k - i" arbitrary: i)
  case 0
  then show ?case by (auto simp: max_def min_def)
next
  case (Suc d)
  then have ik: "i < k" "[i..<k] = i # [i + 1..<k]" by (auto simp: upt_conv_Cons)
  have IH: "find_word b s e [i + 1..<k] = Some (List.find (\<lambda>c. \<not> used_bit b c) [max ((i + 1) * 64) s..<min (k * 64) e])"
    by (rule Suc.hyps(1)) (use Suc ik in auto)
  let ?r = "[max (i * 64) s..<min ((i + 1) * 64) e]"
  have full: "List.find (\<lambda>c. \<not> used_bit b c) ?r = None" if "b ! i = NOT 0"
  proof -
    have "c div 64 = i" if "c \<in> set ?r" for c using that by (auto simp: div_nat_eqI)
    then show ?thesis using full_word[OF that] by (auto simp: find_None_iff)
  qed
  show ?case
    using Suc.prems(1) ik(1) full IH unfolding ik(2) word_ranges[OF ik(1)] find_append
    by (auto simp: find_bit_eq split: option.splits)
qed

lemma find_bit_and_set_eq:
  assumes "e \<le> 64 * length b" "s \<le> e"
  shows "find_bit_and_set b s e = Some (case List.find (\<lambda>c. \<not> used_bit b c) [s..<e] of
      None \<Rightarrow> (0xffffffff, b) | Some c \<Rightarrow> (of_nat c + 2, BMAP_SET b c))"
proof -
  have d: "s div 8 div 8 = s div 64" by (simp add: div_mult2_eq[symmetric])
  have r: "max (s div 64 * 64) s = s" by (simp add: max_absorb2)
  have u: "min ((e + 64 - 1) div 64 * 64) e = e"
  proof -
    have "e + 63 = 64 * ((e + 63) div 64) + (e + 63) mod 64" by simp
    moreover have "(e + 63) mod 64 < 64" by simp
    ultimately show ?thesis by (simp add: min_absorb2 mult.commute)
  qed
  have l: "(e + 64 - 1) div 64 \<le> length b" 
  proof -
    have "(e + 63) div 64 \<le> (64 * length b + 63) div 64" by (rule div_le_mono) (use assms(1) in simp)
    then show ?thesis by simp
  qed
  have m: "s div 64 \<le> (e + 64 - 1) div 64" by (rule div_le_mono) (use assms(2) in simp)
  show ?thesis
    using find_word_eq[OF l m, of s e] unfolding find_bit_and_set_def d r u
    by (auto split: option.splits)
qed

section \<open>Allocation\<close>

definition map_ok :: "'s exfat \<Rightarrow> bool" where
  "map_ok ef \<longleftrightarrow> cmap_chunk_size ef = cmap_size ef \<and> cmap_size ef = sb_cluster_count (ef_sb ef) \<and>
     unat (cmap_size ef) \<le> 64 * length (cmap_chunk ef) \<and> cmap_size ef \<le> 0xFFFFFFF5"

lemma map_len: "map_ok ef \<Longrightarrow> unat (cmap_size ef) \<le> 64 * length (cmap_chunk ef)"
  unfolding map_ok_def by blast

abbreviation used :: "'s exfat \<Rightarrow> nat \<Rightarrow> bool" where "used ef \<equiv> used_bit (cmap_chunk ef)"

definition start_at :: "u32 \<Rightarrow> 's exfat \<Rightarrow> nat" where
  "start_at hint ef = (if hint - 2 \<ge> cmap_size ef then 0 else unat (hint - 2))"

lemma allocate_cluster_eq:
  assumes "map_ok ef"
  shows "allocate_cluster hint ef = Some (case List.find (\<lambda>i. \<not> used ef i) ([start_at hint ef..<unat (cmap_size ef)] @ [0..<start_at hint ef]) of
      None \<Rightarrow> (0xffffffff, ef) | Some i \<Rightarrow> (of_nat i + 2, ef\<lparr>cmap_chunk := BMAP_SET (cmap_chunk ef) i, cmap_dirty := True\<rparr>))"
proof -
  let ?h = "start_at hint ef" and ?n = "unat (cmap_size ef)"
  have h: "?h \<le> ?n" by (auto simp: start_at_def word_le_nat_alt)
  have n: "?n \<le> 64 * length (cmap_chunk ef)" "?n \<le> 4294967285" "cmap_chunk_size ef = cmap_size ef" using assms by (auto simp: map_ok_def word_le_nat_alt)
  have hint: "unat (if hint - 2 \<ge> cmap_size ef then 0 else hint - 2 :: u32) = ?h" by (simp add: start_at_def)
  have f1: "find_bit_and_set (cmap_chunk ef) ?h ?n = Some (case List.find (\<lambda>c. \<not> used ef c) [?h..<?n] of
      None \<Rightarrow> (0xffffffff, cmap_chunk ef) | Some c \<Rightarrow> (of_nat c + 2, BMAP_SET (cmap_chunk ef) c))"
    by (rule find_bit_and_set_eq[OF n(1) h])
  have f2: "find_bit_and_set (cmap_chunk ef) 0 ?h = Some (case List.find (\<lambda>c. \<not> used ef c) [0..<?h] of
      None \<Rightarrow> (0xffffffff, cmap_chunk ef) | Some c \<Rightarrow> (of_nat c + 2, BMAP_SET (cmap_chunk ef) c))"
    by (rule find_bit_and_set_eq) (use n h in auto)
  have e: "(of_nat c + 2 :: u32) \<noteq> 0xffffffff" if "c < ?n" for c
  proof
    assume "(of_nat c + 2 :: u32) = 0xffffffff"
    then have "unat (of_nat c + 2 :: u32) = 4294967295" by simp
    then show False using that n(2) by (simp add: unat_word_ariths unat_of_nat)
  qed
  have e1: "(of_nat c + 2 :: u32) \<noteq> 0xffffffff" if "List.find (\<lambda>c. \<not> used ef c) [?h..<?n] = Some c" for c
    using find_SomeD[OF that] e by auto
  have e2: "(of_nat c + 2 :: u32) \<noteq> 0xffffffff" if "List.find (\<lambda>c. \<not> used ef c) [0..<?h] = Some c" for c
    using find_SomeD[OF that] e h by auto
  show ?thesis
    unfolding allocate_cluster_def Let_def n(3) hint f1 option.case find_append
    by (cases "List.find (\<lambda>c. \<not> used ef c) [?h..<?n]"; cases "List.find (\<lambda>c. \<not> used ef c) [0..<?h]") (use f2 e1 e2 in \<open>auto\<close>)
qed

lemma find_upt:
  "List.find P [a..<b] = Some i \<Longrightarrow> a \<le> i \<and> i < b \<and> P i \<and> (\<forall>j. a \<le> j \<and> j < i \<longrightarrow> \<not> P j)"
proof (induction "b - a" arbitrary: a)
  case 0
  then show ?case by simp
next
  case (Suc d)
  then have u: "[a..<b] = a # [Suc a..<b]" by (simp add: upt_conv_Cons)
  show ?case
  proof (cases "P a")
    case False
    with Suc.prems u have "List.find P [Suc a..<b] = Some i" by simp
    from Suc.hyps(1)[OF _ this] Suc.hyps(2) have "Suc a \<le> i \<and> i < b \<and> P i \<and> (\<forall>j. Suc a \<le> j \<and> j < i \<longrightarrow> \<not> P j)" by simp
    then show ?thesis using False by (metis Suc_leD Suc_leI le_neq_implies_less)
  qed (use Suc.prems Suc.hyps(2) u in auto)
qed

lemma start_at_le: "start_at hint ef \<le> unat (cmap_size ef)"
  by (auto simp: start_at_def word_le_nat_alt)

lemma allocate_cases:
  assumes "map_ok ef"
  obtains (full) "\<forall>i < unat (cmap_size ef). used ef i" "allocate_cluster hint ef = Some (0xffffffff, ef)"
  | (found) i where "i < unat (cmap_size ef)" "\<not> used ef i"
      "if start_at hint ef \<le> i then \<forall>j. start_at hint ef \<le> j \<and> j < i \<longrightarrow> used ef j
       else \<forall>j < unat (cmap_size ef). j < i \<or> start_at hint ef \<le> j \<longrightarrow> used ef j"
      "allocate_cluster hint ef = Some (of_nat i + 2, ef\<lparr>cmap_chunk := BMAP_SET (cmap_chunk ef) i, cmap_dirty := True\<rparr>)"
proof (cases "List.find (\<lambda>i. \<not> used ef i) [start_at hint ef..<unat (cmap_size ef)]")
  case (Some i)
  from find_upt[OF this] show thesis
    using allocate_cluster_eq[OF assms, of hint] Some by (intro found[of i]) (auto simp: find_append)
next
  case None
  then have n1: "\<forall>j. start_at hint ef \<le> j \<and> j < unat (cmap_size ef) \<longrightarrow> used ef j" by (auto simp: find_None_iff)
  show thesis
  proof (cases "List.find (\<lambda>i. \<not> used ef i) [0..<start_at hint ef]")
    case (Some i)
    from find_upt[OF this] start_at_le[of hint ef] show thesis
      using allocate_cluster_eq[OF assms, of hint] Some None n1 by (intro found[of i]) (auto simp: find_append)
  next
    case None2: None
    then have "\<forall>i < unat (cmap_size ef). used ef i" using n1 by (auto simp: find_None_iff) (metis not_le)
    then show thesis using allocate_cluster_eq[OF assms, of hint] None None2 by (intro full) (auto simp: find_append)
  qed
qed

lemma free_cluster_ok:
  assumes "map_ok ef" "2 \<le> unat c" "unat c < unat (cmap_size ef) + 2"
  shows "free_cluster c ef = Some (ef\<lparr>cmap_chunk := BMAP_CLR (cmap_chunk ef) (unat c - 2), cmap_dirty := True\<rparr>)"
    "used_bit (BMAP_CLR (cmap_chunk ef) (unat c - 2)) j \<longleftrightarrow> used ef j \<and> j \<noteq> unat c - 2"
proof -
  have u: "unat (c - 2) = unat c - 2" using assms(2) by (simp add: unat_sub word_le_nat_alt)
  have l: "unat c - 2 < 64 * length (cmap_chunk ef)" using map_len[OF assms(1)] assms(2,3) by linarith
  then have "(unat c - 2) div 64 < length (cmap_chunk ef)" by (simp add: less_mult_imp_div_less mult.commute)
  then show "free_cluster c ef = Some (ef\<lparr>cmap_chunk := BMAP_CLR (cmap_chunk ef) (unat c - 2), cmap_dirty := True\<rparr>)"
    using assms by (simp add: free_cluster_def Let_def u word_le_nat_alt)
  show "used_bit (BMAP_CLR (cmap_chunk ef) (unat c - 2)) j \<longleftrightarrow> used ef j \<and> j \<noteq> unat c - 2"
    by (rule used_bit_clr[OF l])
qed

lemma count_free_loop_eq:
  "\<forall>i \<in> set is. i < 64 * length b \<Longrightarrow> count_free_loop b is n = Some (n + of_nat (length (filter (\<lambda>i. \<not> used_bit b i) is)))"
proof (induction "is" arbitrary: n)
  case (Cons i "is")
  have "i div 64 < length b" using Cons.prems by (simp add: less_mult_imp_div_less mult.commute)
  then show ?case using Cons by (simp add: BMAP_GET_zero)
qed simp

definition free_count :: "'s exfat \<Rightarrow> nat" where
  "free_count ef = card {i. i < unat (cmap_size ef) \<and> \<not> used ef i}"

lemma count_free_eq: "map_ok ef \<Longrightarrow> exfat_count_free_clusters ef = Some (of_nat (free_count ef))"
proof -
  assume m: "map_ok ef"
  have "length (filter (\<lambda>i. \<not> used ef i) [0..<unat (cmap_size ef)]) = free_count ef"
    by (simp add: free_count_def length_filter_conv_card) (rule arg_cong[where f = card], auto)
  moreover have "\<forall>i \<in> set [0..<unat (cmap_size ef)]. i < 64 * length (cmap_chunk ef)" using map_len[OF m] by auto
  ultimately show ?thesis unfolding exfat_count_free_clusters_def by (simp add: count_free_loop_eq)
qed

end
