(* ===== verification/Exfat_Chain.thy ===== *)
theory Exfat_Chain
  imports Exfat_Alloc
begin

text \<open>
  Cluster chains on a volume.  The locale \<open>exfat_volume\<close> adds to a byte volume a super block whose allocation table and
  cluster area lie on it; the allocation table is then a map from clusters to clusters and each cluster
  an array of bytes, disjoint from the table and from other clusters.
\<close>

section \<open>Geometry\<close>

definition clus_size :: "exfat_super_block \<Rightarrow> nat" where
  "clus_size sb = 2 ^ (unat (sb_sector_bits sb) + unat (sb_spc_bits sb))"

definition clus_off :: "exfat_super_block \<Rightarrow> u32 \<Rightarrow> nat" where
  "clus_off sb c = unat (sb_cluster_sector_start sb) * 2 ^ unat (sb_sector_bits sb) + (unat c - 2) * clus_size sb"

definition fat_pos :: "exfat_super_block \<Rightarrow> u32 \<Rightarrow> nat" where
  "fat_pos sb c = unat (sb_fat_sector_start sb) * 2 ^ unat (sb_sector_bits sb) + 4 * unat c"

definition data_cluster :: "exfat_super_block \<Rightarrow> u32 \<Rightarrow> bool" where
  "data_cluster sb c \<longleftrightarrow> 2 \<le> unat c \<and> unat c < unat (sb_cluster_count sb) + 2"

definition geometry :: "exfat_super_block \<Rightarrow> nat set \<Rightarrow> bool" where
  "geometry sb vol \<longleftrightarrow>
     unat (sb_sector_bits sb) + unat (sb_spc_bits sb) \<le> 25 \<and> unat (sb_cluster_count sb) \<le> 4294967285 \<and>
     unat (sb_fat_sector_start sb) * 2 ^ unat (sb_sector_bits sb) + 4 * (unat (sb_cluster_count sb) + 2)
       \<le> unat (sb_cluster_sector_start sb) * 2 ^ unat (sb_sector_bits sb) \<and>
     {unat (sb_fat_sector_start sb) * 2 ^ unat (sb_sector_bits sb)..<
      unat (sb_cluster_sector_start sb) * 2 ^ unat (sb_sector_bits sb) + unat (sb_cluster_count sb) * clus_size sb} \<subseteq> vol"

lemma unat_push_bit: "unat w * 2 ^ n < 2 ^ LENGTH('a) \<Longrightarrow> unat (push_bit n (w :: 'a::len word)) = unat w * 2 ^ n"
  by (simp only: unsigned_push_bit_eq) (simp add: push_bit_eq_mult take_bit_nat_eq_self_iff)

locale exfat_volume = byte_volume ops img ok vol
  for ops :: "'s storage" and img :: "'s exfat_io \<Rightarrow> nat \<Rightarrow> u8" and ok :: "'s exfat_io \<Rightarrow> bool" and vol :: "nat set" +
  fixes sb :: exfat_super_block
  assumes geo: "geometry sb vol"
begin

lemma bits: "unat (sb_sector_bits sb) + unat (sb_spc_bits sb) \<le> 25"
  using geo by (simp add: geometry_def)

lemma clus_pos: "0 < clus_size sb" "clus_size sb \<le> 2 ^ 25"
  using power_increasing[OF bits, of "2 :: nat"] by (simp_all add: clus_size_def)

lemma CLUSTER_SIZE_eq: "unat (CLUSTER_SIZE sb) = clus_size sb"
proof -
  have s: "(2 :: nat) ^ unat (sb_sector_bits sb) \<le> 2 ^ 25" by (rule power_increasing) (use bits in auto)
  then have s1: "unat (SECTOR_SIZE sb) = 2 ^ unat (sb_sector_bits sb)"
    unfolding SECTOR_SIZE_def by (subst unat_push_bit) auto
  show ?thesis using clus_pos(2) unfolding CLUSTER_SIZE_def clus_size_def
    by (subst unat_push_bit) (auto simp: s1 power_add)
qed

lemma CLUSTER_SIZE_sint: "sint (CLUSTER_SIZE sb) = int (clus_size sb)"
proof -
  have u: "uint (CLUSTER_SIZE sb) = int (clus_size sb)" unfolding CLUSTER_SIZE_eq[symmetric] by simp
  have "\<not> bit (CLUSTER_SIZE sb) 31" using bit_small[of "CLUSTER_SIZE sb" 26 31] clus_pos(2) CLUSTER_SIZE_eq by auto
  then have "\<not> bit (uint (CLUSTER_SIZE sb)) 31" by (simp add: bit_uint_iff)
  moreover have "uint (CLUSTER_SIZE sb) < 2 ^ 31" using u clus_pos(2) by simp
  ultimately show ?thesis by (simp add: sint_uint signed_take_bit_eq_if_positive take_bit_int_eq_self u[symmetric])
qed

lemma CLUSTER_SIZE_64: "unat (ucast (CLUSTER_SIZE sb) :: u64) = clus_size sb"
  by (simp add: CLUSTER_SIZE_eq)

lemma invalid_iff: "CLUSTER_INVALID sb c \<longleftrightarrow> \<not> data_cluster sb c"
proof -
  have "unat (c - 2) = unat c - 2" if "2 \<le> unat c" using that by (simp add: unat_sub word_le_nat_alt)
  then show ?thesis by (auto simp: CLUSTER_INVALID_def data_cluster_def word_le_nat_alt word_less_nat_alt not_less)
qed

lemma data_bound:
  assumes "data_cluster sb c" "k < clus_size sb"
  shows "clus_off sb c + k \<in> vol" "clus_off sb c + k < 2 ^ 63"
proof -
  have "unat c - 2 + 1 \<le> unat (sb_cluster_count sb)" using assms(1) by (auto simp: data_cluster_def)
  then have "(unat c - 2 + 1) * clus_size sb \<le> unat (sb_cluster_count sb) * clus_size sb" by (rule mult_le_mono1)
  then have "(unat c - 2) * clus_size sb + k < unat (sb_cluster_count sb) * clus_size sb" using assms(2) by (simp add: algebra_simps)
  then show v: "clus_off sb c + k \<in> vol" using geo unfolding geometry_def clus_off_def by auto
  show "clus_off sb c + k < 2 ^ 63" by (rule vol_bound[OF v])
qed

lemma fat_bound:
  assumes "data_cluster sb c"
  shows "{fat_pos sb c..<fat_pos sb c + 4} \<subseteq> vol" "fat_pos sb c < 2 ^ 63"
    "fat_pos sb c + 4 \<le> unat (sb_cluster_sector_start sb) * 2 ^ unat (sb_sector_bits sb)"
proof -
  show f: "fat_pos sb c + 4 \<le> unat (sb_cluster_sector_start sb) * 2 ^ unat (sb_sector_bits sb)"
  proof -
    have "4 * (unat c + 1) \<le> 4 * (unat (sb_cluster_count sb) + 2)" by (rule mult_le_mono2) (use assms in \<open>simp add: data_cluster_def\<close>)
    moreover have "unat (sb_fat_sector_start sb) * 2 ^ unat (sb_sector_bits sb) + 4 * (unat (sb_cluster_count sb) + 2)
       \<le> unat (sb_cluster_sector_start sb) * 2 ^ unat (sb_sector_bits sb)" using geo unfolding geometry_def by blast
    moreover define A where "A = unat (sb_fat_sector_start sb) * 2 ^ unat (sb_sector_bits sb)"
    moreover define B where "B = unat (sb_cluster_sector_start sb) * 2 ^ unat (sb_sector_bits sb)"
    ultimately show ?thesis unfolding fat_pos_def A_def[symmetric] B_def[symmetric] by simp
  qed
  show v: "{fat_pos sb c..<fat_pos sb c + 4} \<subseteq> vol"
    using geo f unfolding geometry_def fat_pos_def by auto
  then have "fat_pos sb c \<in> vol" by auto
  then show "fat_pos sb c < 2 ^ 63" by (rule vol_bound)
qed

lemma c2o_eq:
  assumes "data_cluster sb c"
  obtains off where "exfat_c2o sb c = Some off" "unat off = clus_off sb c"
proof -
  let ?S = "2 ^ unat (sb_sector_bits sb) :: nat" and ?P = "2 ^ unat (sb_spc_bits sb) :: nat"
  have c: "\<not> c < 2" "unat (c - 2) = unat c - 2" using assms by (auto simp: data_cluster_def word_less_nat_alt unat_sub word_le_nat_alt)
  have b: "unat (sb_cluster_sector_start sb) * ?S + (unat c - 2) * (?S * ?P) < 2 ^ 63"
    using data_bound(2)[OF assms, of 0] clus_pos(1) by (simp add: clus_off_def clus_size_def power_add)
  have "(unat c - 2) * ?P * 1 \<le> (unat c - 2) * ?P * ?S" by (rule mult_le_mono2) simp
  moreover have "(unat c - 2) * ?P * ?S = (unat c - 2) * (?S * ?P)" by simp
  ultimately have b1: "(unat c - 2) * ?P < 2 ^ 63" using b by linarith
  have eq: "(unat (sb_cluster_sector_start sb) + (unat c - 2) * ?P) * ?S = unat (sb_cluster_sector_start sb) * ?S + (unat c - 2) * (?S * ?P)"
    by (simp add: add_mult_distrib)
  then have b3: "(unat (sb_cluster_sector_start sb) + (unat c - 2) * ?P) * ?S < 2 ^ 63" using b by linarith
  have "(unat (sb_cluster_sector_start sb) + (unat c - 2) * ?P) * 1 \<le> (unat (sb_cluster_sector_start sb) + (unat c - 2) * ?P) * ?S"
    by (rule mult_le_mono2) simp
  then have b2: "unat (sb_cluster_sector_start sb) + (unat c - 2) * ?P < 2 ^ 63" unfolding mult_1_right using b3 by (rule le_less_trans)
  have p: "unat (push_bit (unat (sb_spc_bits sb)) (ucast (c - 2) :: u64)) = (unat c - 2) * ?P"
    using b1 by (subst unat_push_bit) (auto simp: c)
  have s: "unat (ucast (sb_cluster_sector_start sb) + push_bit (unat (sb_spc_bits sb)) (ucast (c - 2)) :: u64) =
      unat (sb_cluster_sector_start sb) + (unat c - 2) * ?P" using b2 by (subst unat_add_nowrap) (auto simp: p)
  show thesis
  proof
    show "exfat_c2o sb c = Some (s2o sb (ucast (sb_cluster_sector_start sb) + push_bit (unat (sb_spc_bits sb)) (ucast (c - 2))))"
      using c by (simp add: exfat_c2o_def c2s_def)
    show "unat (s2o sb (ucast (sb_cluster_sector_start sb) + push_bit (unat (sb_spc_bits sb)) (ucast (c - 2)))) = clus_off sb c"
      unfolding s2o_def clus_off_def clus_size_def power_add eq[symmetric] s[symmetric] by (rule unat_push_bit) (use b3 s in simp)
  qed
qed

lemma fat_offset_eq:
  assumes "data_cluster sb c"
  shows "unat (fat_offset sb c) = fat_pos sb c"
proof -
  have b: "unat (sb_fat_sector_start sb) * 2 ^ unat (sb_sector_bits sb) + 4 * unat c < 2 ^ 63"
    using fat_bound(2)[OF assms] by (simp add: fat_pos_def)
  then have s: "unat (s2o sb (ucast (sb_fat_sector_start sb))) = unat (sb_fat_sector_start sb) * 2 ^ unat (sb_sector_bits sb)"
    unfolding s2o_def by (subst unat_push_bit) auto
  have m: "unat (ucast c * 4 :: u64) = 4 * unat c" using unat_u32_bound[of c] by (subst unat_mult_nowrap) auto
  show ?thesis unfolding fat_offset_def fat_pos_def using b by (subst unat_add_nowrap) (auto simp: s m)
qed

section \<open>The allocation table and the data\<close>

definition table :: "'s exfat \<Rightarrow> u32 \<Rightarrow> u32" where
  "table ef c = of_le (map (img (ef_io ef)) [fat_pos sb c..<fat_pos sb c + 4])"

definition data :: "'s exfat \<Rightarrow> u32 \<Rightarrow> nat \<Rightarrow> u8" where
  "data ef c k = img (ef_io ef) (clus_off sb c + k)"

definition meta_eq :: "'s exfat \<Rightarrow> 's exfat \<Rightarrow> bool" where
  "meta_eq ef ef' \<longleftrightarrow> ef_sb ef' = ef_sb ef \<and> cmap_start_cluster ef' = cmap_start_cluster ef \<and> cmap_size ef' = cmap_size ef \<and>
     cmap_chunk_size ef' = cmap_chunk_size ef \<and> length (cmap_chunk ef') = length (cmap_chunk ef) \<and>
     zero_cluster ef' = zero_cluster ef \<and> ef_ro ef' = ef_ro ef \<and> ef_noatime ef' = ef_noatime ef"

definition vol_ok :: "'s exfat \<Rightarrow> bool" where
  "vol_ok ef \<longleftrightarrow> ok (ef_io ef) \<and> ef_sb ef = sb \<and> map_ok ef"

text \<open>What a step leaves alone: the table entries outside a set of clusters, and all data.\<close>

definition fat_frame :: "u32 set \<Rightarrow> 's exfat \<Rightarrow> 's exfat \<Rightarrow> bool" where
  "fat_frame S ef ef' \<longleftrightarrow> vol_ok ef' \<and> meta_eq ef ef' \<and>
     (\<forall>c. data_cluster sb c \<longrightarrow> (c \<notin> S \<longrightarrow> table ef' c = table ef c) \<and> (\<forall>k < clus_size sb. data ef' c k = data ef c k))"

lemma fat_frame_refl: "vol_ok ef \<Longrightarrow> fat_frame S ef ef"
  by (simp add: fat_frame_def meta_eq_def)

lemma fat_frame_trans: "fat_frame S ef ef' \<Longrightarrow> fat_frame T ef' ef'' \<Longrightarrow> S \<union> T \<subseteq> U \<Longrightarrow> fat_frame U ef ef''"
proof -
  assume a: "fat_frame S ef ef'" "fat_frame T ef' ef''" and u: "S \<union> T \<subseteq> U"
  have "c \<notin> S" "c \<notin> T" if "c \<notin> U" for c using that u by auto
  with a show ?thesis unfolding fat_frame_def meta_eq_def by simp
qed

lemma fat_frameD: "fat_frame S ef ef' \<Longrightarrow> vol_ok ef'" "fat_frame S ef ef' \<Longrightarrow> data_cluster sb c \<Longrightarrow> c \<notin> S \<Longrightarrow> table ef' c = table ef c"
  "fat_frame S ef ef' \<Longrightarrow> data_cluster sb c \<Longrightarrow> k < clus_size sb \<Longrightarrow> data ef' c k = data ef c k"
  "fat_frame S ef ef' \<Longrightarrow> cmap_size ef' = cmap_size ef"
  by (auto simp: fat_frame_def meta_eq_def)

lemma vol_okD: "vol_ok ef \<Longrightarrow> ef_sb ef = sb" "vol_ok ef \<Longrightarrow> map_ok ef" "vol_ok ef \<Longrightarrow> ok (ef_io ef)"
  "vol_ok ef \<Longrightarrow> cmap_size ef = sb_cluster_count sb"
  by (auto simp: vol_ok_def map_ok_def)

lemma fat_disjoint: "data_cluster sb c \<Longrightarrow> data_cluster sb c' \<Longrightarrow> c \<noteq> c' \<Longrightarrow> fat_pos sb c' + 4 \<le> fat_pos sb c \<or> fat_pos sb c + 4 \<le> fat_pos sb c'"
  by (auto simp: fat_pos_def word_unat_eq_iff)

lemma next_cluster_any:
  assumes "vol_ok ef" "data_cluster sb c"
  obtains ef' where "exfat_next_cluster ops node c ef = Some (if is_contiguous node then c + 1 else table ef c, ef')"
    "fat_frame {} ef ef'" "cmap_chunk ef' = cmap_chunk ef" "img (ef_io ef') = img (ef_io ef)"
proof (cases "is_contiguous node")
  case True
  then show thesis using assms that[of ef] fat_frame_refl[OF assms(1)] by (auto simp: exfat_next_cluster_def data_cluster_def word_less_nat_alt)
next
  case False
  have "\<exists>io'. exfat_pread ops (replicate 4 0) 0 4 (fat_offset sb c) (ef_io ef) =
      Some (int 4, buf_put (replicate 4 0) 0 (map (img (ef_io ef)) [unat (fat_offset sb c)..<unat (fat_offset sb c) + 4]), io') \<and> ok io' \<and> img io' = img (ef_io ef)"
    by (rule pread_law) (use vol_okD[OF assms(1)] fat_bound[OF assms(2)] fat_offset_eq[OF assms(2)] in auto)
  then obtain io' where r: "exfat_pread ops (replicate 4 0) 0 4 (fat_offset sb c) (ef_io ef) = Some (4, map (img (ef_io ef)) [fat_pos sb c..<fat_pos sb c + 4], io')"
    "ok io'" "img io' = img (ef_io ef)"
    unfolding fat_offset_eq[OF assms(2)] by (auto simp: buf_put_def)
  show thesis
  proof (rule that[of "ef\<lparr>ef_io := io'\<rparr>"])
    show "exfat_next_cluster ops node c ef = Some (if is_contiguous node then c + 1 else table ef c, ef\<lparr>ef_io := io'\<rparr>)"
      using False assms vol_okD[OF assms(1)] r(1) by (simp add: exfat_next_cluster_def data_cluster_def word_less_nat_alt table_def)
    show "fat_frame {} ef (ef\<lparr>ef_io := io'\<rparr>)"
      using assms(1) r(2,3) by (auto simp: fat_frame_def meta_eq_def vol_ok_def map_ok_def table_def data_def)
  qed (simp_all add: r(3))
qed

lemma set_next_any:
  assumes "vol_ok ef" "data_cluster sb c"
  obtains ef' where "set_next_cluster ops contiguous c v ef = Some (True, ef')" "fat_frame (if contiguous then {} else {c}) ef ef'"
    "cmap_chunk ef' = cmap_chunk ef" "\<not> contiguous \<Longrightarrow> table ef' c = v"
proof (cases contiguous)
  case True
  then show thesis using that[of ef] fat_frame_refl[OF assms(1)] by (simp add: set_next_cluster_def)
next
  case False
  have "\<exists>io'. exfat_pwrite ops (to_le 4 v) 0 4 (fat_offset sb c) (ef_io ef) = Some (int 4, io') \<and> ok io' \<and>
      img io' = overwrite (img (ef_io ef)) (unat (fat_offset sb c)) (buf_get 4 (to_le 4 v) 0)"
    by (rule pwrite_law) (use vol_okD[OF assms(1)] fat_bound[OF assms(2)] fat_offset_eq[OF assms(2)] in auto)
  then obtain io' where r: "exfat_pwrite ops (to_le 4 v) 0 4 (fat_offset sb c) (ef_io ef) = Some (4, io')" "ok io'"
    "img io' = overwrite (img (ef_io ef)) (fat_pos sb c) (to_le 4 v)"
    unfolding fat_offset_eq[OF assms(2)] by (auto simp: buf_get_all)
  let ?ef = "ef\<lparr>ef_io := io'\<rparr>"
  have same: "table ?ef c = v" using r(3) map_overwrite_same[of "to_le 4 v" 4] by (simp add: table_def)
  have other: "table ?ef c' = table ef c'" if "data_cluster sb c'" "c' \<noteq> c" for c'
  proof -
    have "map (overwrite (img (ef_io ef)) (fat_pos sb c) (to_le 4 v)) [fat_pos sb c'..<fat_pos sb c' + 4] = map (img (ef_io ef)) [fat_pos sb c'..<fat_pos sb c' + 4]"
      by (rule map_overwrite_other) (use fat_disjoint[OF assms(2) that(1)] that(2) in auto)
    then show ?thesis using r(3) by (simp add: table_def del: map_eq_conv)
  qed
  have dat: "data ?ef c' k = data ef c' k" if "data_cluster sb c'" "k < clus_size sb" for c' k
    using fat_bound(3)[OF assms(2)] r(3) by (simp add: data_def overwrite_outside clus_off_def)
  show thesis
  proof (rule that[of ?ef])
    show "set_next_cluster ops contiguous c v ef = Some (True, ?ef)"
      using False vol_okD[OF assms(1)] r(1) by (simp add: set_next_cluster_def)
    show "fat_frame (if contiguous then {} else {c}) ef ?ef"
      using assms(1) r(2) other dat False by (auto simp: fat_frame_def meta_eq_def vol_ok_def map_ok_def)
  qed (simp_all add: same)
qed

section \<open>Chains\<close>

definition linked :: "'s exfat \<Rightarrow> bool \<Rightarrow> u32 list \<Rightarrow> bool" where
  "linked ef contiguous cs \<longleftrightarrow> distinct cs \<and> (\<forall>c \<in> set cs. data_cluster sb c) \<and>
     (\<forall>i. Suc i < length cs \<longrightarrow> cs ! Suc i = (if contiguous then cs ! i + 1 else table ef (cs ! i)))"

definition idx :: "u32 \<Rightarrow> nat" where
  "idx c = unat c - 2"

definition file_at :: "'s exfat \<Rightarrow> exfat_node \<Rightarrow> u32 list \<Rightarrow> bool" where
  "file_at ef node cs \<longleftrightarrow> linked ef (is_contiguous node) cs \<and> start_cluster node = (if cs = [] then 0 else hd cs) \<and>
     (if cs = [] then fptr_index node = 0 else unat (fptr_index node) < length cs \<and> fptr_cluster node = cs ! unat (fptr_index node)) \<and>
     (\<forall>c \<in> set cs. used ef (idx c))"

definition ended :: "'s exfat \<Rightarrow> exfat_node \<Rightarrow> u32 list \<Rightarrow> bool" where
  "ended ef node cs \<longleftrightarrow> is_contiguous node \<or> cs = [] \<or> table ef (last cs) = 0xffffffff"

definition node_eq :: "exfat_node \<Rightarrow> exfat_node \<Rightarrow> bool" where
  "node_eq node node' \<longleftrightarrow> nd_size node' = nd_size node \<and> valid_size node' = valid_size node \<and> nd_attrib node' = nd_attrib node \<and>
     nd_references node' = nd_references node \<and> nd_parent node' = nd_parent node"

lemma node_eq_refl [simp]: "node_eq node node"
  by (simp add: node_eq_def)

lemma node_eq_trans: "node_eq a b \<Longrightarrow> node_eq b c \<Longrightarrow> node_eq a c"
  by (simp add: node_eq_def)

lemma idx_inj: "data_cluster sb c \<Longrightarrow> data_cluster sb d \<Longrightarrow> idx c = idx d \<longleftrightarrow> c = d"
  by (auto simp: idx_def data_cluster_def word_unat_eq_iff)

lemma idx_less: "data_cluster sb c \<Longrightarrow> idx c < unat (sb_cluster_count sb)"
  by (auto simp: idx_def data_cluster_def)

lemma valid_nonzero: "data_cluster sb c \<Longrightarrow> c \<noteq> 0"
  by (auto simp: data_cluster_def)

lemma count_le: "unat (sb_cluster_count sb) \<le> 4294967285"
  using geo by (simp add: geometry_def)

lemma valid_Suc: "data_cluster sb c \<Longrightarrow> unat (c + 1) = unat c + 1"
  using count_le by (subst unat_add_nowrap) (auto simp: data_cluster_def)

lemma linked_length: "linked ef b cs \<Longrightarrow> length cs \<le> unat (sb_cluster_count sb)"
proof -
  assume l: "linked ef b cs"
  then have "inj_on idx (set cs)" by (auto simp: inj_on_def linked_def idx_inj)
  then have "card (idx ` set cs) = length cs" using l by (simp add: card_image distinct_card linked_def)
  moreover have "idx ` set cs \<subseteq> {..<unat (sb_cluster_count sb)}" using l idx_less by (auto simp: linked_def)
  ultimately show ?thesis using card_mono[of "{..<unat (sb_cluster_count sb)}" "idx ` set cs"] by simp
qed

lemma linked_nth: "linked ef b cs \<Longrightarrow> i < length cs \<Longrightarrow> data_cluster sb (cs ! i)"
  by (simp add: linked_def)

lemma linked_frame:
  "linked ef b cs \<Longrightarrow> (\<And>i. Suc i < length cs \<Longrightarrow> table ef' (cs ! i) = table ef (cs ! i)) \<Longrightarrow> linked ef' b cs"
  unfolding linked_def by simp

lemma file_at_frame:
  assumes "file_at ef node cs" "fat_frame S ef ef'" "set cs \<inter> S = {}" "\<And>c. c \<in> set cs \<Longrightarrow> used ef (idx c) \<Longrightarrow> used ef' (idx c)"
  shows "file_at ef' node cs" "ended ef node cs \<Longrightarrow> ended ef' node cs"
proof -
  have t: "table ef' c = table ef c" if "c \<in> set cs" for c
    using fat_frameD(2)[OF assms(2)] that assms(1,3) by (auto simp: file_at_def linked_def)
  have "linked ef' (is_contiguous node) cs" by (rule linked_frame[of ef]) (use assms(1) t in \<open>auto simp: file_at_def\<close>)
  then show "file_at ef' node cs" using assms(1,4) by (simp add: file_at_def)
  show "ended ef node cs \<Longrightarrow> ended ef' node cs" using t[of "last cs"] by (cases "cs = []") (auto simp: ended_def)
qed

lemma advance_loop_ok:
  assumes "vol_ok ef" "linked ef (is_contiguous node) cs" "fptr_cluster node = cs ! i" "i \<le> n" "n < length cs"
  shows "\<exists>ef'. advance_loop ops [i..<n] node ef = Some (node\<lparr>fptr_cluster := cs ! n\<rparr>, ef') \<and> fat_frame {} ef ef' \<and> cmap_chunk ef' = cmap_chunk ef"
  using assms
proof (induction "n - i" arbitrary: i node ef)
  case 0
  then have "i = n" by simp
  then show ?case using 0 fat_frame_refl[OF 0(2)] by auto
next
  case (Suc d)
  then have u: "[i..<n] = i # [Suc i..<n]" by (simp add: upt_conv_Cons)
  have i: "Suc i < length cs" "data_cluster sb (cs ! i)" "data_cluster sb (cs ! Suc i)" using Suc linked_nth[OF Suc.prems(2)] by auto
  obtain ef1 where n: "exfat_next_cluster ops node (cs ! i) ef = Some (if is_contiguous node then cs ! i + 1 else table ef (cs ! i), ef1)"
    "fat_frame {} ef ef1" "cmap_chunk ef1 = cmap_chunk ef" by (rule next_cluster_any[OF Suc.prems(1) i(2), of node])
  have e: "(if is_contiguous node then cs ! i + 1 else table ef (cs ! i)) = cs ! Suc i" using Suc.prems(2) i(1) by (auto simp: linked_def)
  let ?node = "node\<lparr>fptr_cluster := cs ! Suc i\<rparr>"
  have l: "linked ef1 (is_contiguous ?node) cs"
    by (rule linked_frame[of ef]) (use Suc.prems(2) fat_frameD(2)[OF n(2)] linked_nth[OF Suc.prems(2)] in auto)
  have "\<exists>ef'. advance_loop ops [Suc i..<n] ?node ef1 = Some (?node\<lparr>fptr_cluster := cs ! n\<rparr>, ef') \<and> fat_frame {} ef1 ef' \<and> cmap_chunk ef' = cmap_chunk ef1"
    by (rule Suc.hyps(1)) (use Suc.hyps(2) Suc.prems l fat_frameD(1)[OF n(2)] in auto)
  then obtain ef' where r: "advance_loop ops [Suc i..<n] ?node ef1 = Some (?node\<lparr>fptr_cluster := cs ! n\<rparr>, ef')" "fat_frame {} ef1 ef'" "cmap_chunk ef' = cmap_chunk ef1" by blast
  have "advance_loop ops [i..<n] node ef = Some (node\<lparr>fptr_cluster := cs ! n\<rparr>, ef')"
    using n(1) e r(1) Suc.prems(3) i(3) vol_okD(1)[OF fat_frameD(1)[OF n(2)]] unfolding u by (simp add: invalid_iff)
  moreover have "fat_frame {} ef ef'" by (rule fat_frame_trans[OF n(2) r(2)]) simp
  ultimately show ?case using r(3) n(3) by simp
qed

lemma advance_ok:
  assumes "vol_ok ef" "file_at ef node cs" "unat n < length cs"
  obtains ef' where "exfat_advance_cluster ops n node ef = Some (cs ! unat n, node\<lparr>fptr_index := n, fptr_cluster := cs ! unat n\<rparr>, ef')"
    "fat_frame {} ef ef'" "cmap_chunk ef' = cmap_chunk ef"
proof -
  have c: "cs \<noteq> []" using assms(3) by auto
  let ?node = "if fptr_index node > n then node\<lparr>fptr_index := 0, fptr_cluster := start_cluster node\<rparr> else node"
  have f: "unat (fptr_index ?node) \<le> unat n" "fptr_cluster ?node = cs ! unat (fptr_index ?node)" "linked ef (is_contiguous ?node) cs"
    using assms(2) c by (auto simp: file_at_def word_less_nat_alt not_less hd_conv_nth)
  from advance_loop_ok[OF assms(1) f(3) f(2) f(1) assms(3)] obtain ef' where
    r: "advance_loop ops [unat (fptr_index ?node)..<unat n] ?node ef = Some (?node\<lparr>fptr_cluster := cs ! unat n\<rparr>, ef')" "fat_frame {} ef ef'" "cmap_chunk ef' = cmap_chunk ef"
    by blast
  have "exfat_advance_cluster ops n node ef = Some (cs ! unat n, ?node\<lparr>fptr_cluster := cs ! unat n, fptr_index := n\<rparr>, ef')"
    unfolding exfat_advance_cluster_def Let_def r(1) by simp
  then show thesis using that[of ef'] r(2,3) by (cases "fptr_index node > n") simp_all
qed

lemma file_at_pointer: "file_at ef node cs \<Longrightarrow> unat n < length cs \<Longrightarrow> file_at ef (node\<lparr>fptr_index := n, fptr_cluster := cs ! unat n\<rparr>) cs"
  by (auto simp: file_at_def)

section \<open>Shrinking\<close>

lemma shrink_loop_ok:
  assumes "vol_ok ef" "linked ef (is_contiguous node) ds" "ds \<noteq> [] \<Longrightarrow> previous = hd ds"
  shows "\<exists>ef'. shrink_loop ops (length ds) previous node ef = Some (0, ef') \<and> fat_frame (set ds) ef ef' \<and>
    (\<forall>j. used ef' j \<longleftrightarrow> used ef j \<and> j \<notin> idx ` set ds)"
  using assms
proof (induction ds arbitrary: ef previous)
  case Nil
  then show ?case using fat_frame_refl by auto
next
  case (Cons d ds)
  then have p: "previous = d" and d: "data_cluster sb d" by (auto simp: linked_def)
  obtain ef1 where n: "exfat_next_cluster ops node d ef = Some (if is_contiguous node then d + 1 else table ef d, ef1)"
    "fat_frame {} ef ef1" "cmap_chunk ef1 = cmap_chunk ef" by (rule next_cluster_any[OF Cons.prems(1) d, of node])
  note ok1 = fat_frameD(1)[OF n(2)]
  obtain ef2 where w: "set_next_cluster ops (is_contiguous node) d 0 ef1 = Some (True, ef2)" "fat_frame (if is_contiguous node then {} else {d}) ef1 ef2"
    "cmap_chunk ef2 = cmap_chunk ef1" by (rule set_next_any[OF ok1 d, of "is_contiguous node" 0])
  note ok2 = fat_frameD(1)[OF w(2)]
  let ?ef = "ef2\<lparr>cmap_chunk := BMAP_CLR (cmap_chunk ef2) (unat d - 2), cmap_dirty := True\<rparr>"
  have v: "2 \<le> unat d" "unat d < unat (cmap_size ef2) + 2" using d vol_okD(4)[OF ok2] by (auto simp: data_cluster_def)
  note fr = free_cluster_ok[OF vol_okD(2)[OF ok2] v]
  have ok3: "vol_ok ?ef" using ok2 by (auto simp: vol_ok_def map_ok_def)
  have fr3: "fat_frame {} ef2 ?ef" using ok3 by (auto simp: fat_frame_def meta_eq_def table_def data_def)
  have f13: "fat_frame {d} ef ?ef"
    by (rule fat_frame_trans[OF fat_frame_trans[OF n(2) w(2) order_refl] fr3]) auto
  have nxt: "ds \<noteq> [] \<Longrightarrow> (if is_contiguous node then d + 1 else table ef d) = hd ds"
    using Cons.prems(2) by (auto simp: linked_def hd_conv_nth dest: spec[of _ 0])
  have tl: "linked ef (is_contiguous node) ds" using Cons.prems(2) by (auto simp: linked_def dest: spec[of _ "Suc _"])
  have l3: "linked ?ef (is_contiguous node) ds"
  proof (rule linked_frame[OF tl])
    fix i assume "Suc i < length ds"
    then have "ds ! i \<in> set ds" by simp
    then show "table ?ef (ds ! i) = table ef (ds ! i)" by (intro fat_frameD(2)[OF f13]) (use Cons.prems(2) in \<open>auto simp: linked_def\<close>)
  qed
  from Cons.IH[OF ok3 l3 nxt] obtain ef' where
    r: "shrink_loop ops (length ds) (if is_contiguous node then d + 1 else table ef d) node ?ef = Some (0, ef')" "fat_frame (set ds) ?ef ef'"
      "\<forall>j. used ef' j \<longleftrightarrow> used ?ef j \<and> j \<notin> idx ` set ds" by blast
  have "shrink_loop ops (length (d # ds)) previous node ef = Some (0, ef')"
    using n(1) w(1) fr(1) r(1) d vol_okD(1)[OF Cons.prems(1)] by (simp add: p invalid_iff)
  moreover have "fat_frame (set (d # ds)) ef ef'" by (rule fat_frame_trans[OF f13 r(2)]) auto
  moreover have "\<forall>j. used ef' j \<longleftrightarrow> used ef j \<and> j \<notin> idx ` set (d # ds)"
    using r(3) fr(2) w(3) n(3) by (auto simp: idx_def)
  ultimately show ?case by blast
qed

lemma linked_take: "linked ef b cs \<Longrightarrow> linked ef b (take n cs)"
  by (auto simp: linked_def dest: in_set_takeD)

lemma linked_drop: "linked ef b cs \<Longrightarrow> linked ef b (drop n cs)"
  by (auto simp: linked_def dest: in_set_dropD spec[of _ "n + _"])

lemma take_drop_disjoint: "distinct cs \<Longrightarrow> set (take n cs) \<inter> set (drop n cs) = {}"
  by (metis append_take_drop_id distinct_append)

lemma idx_image_disjoint:
  assumes "linked ef b cs" "c \<in> set (take n cs)"
  shows "idx c \<notin> idx ` set (drop n cs)"
proof
  assume "idx c \<in> idx ` set (drop n cs)"
  then obtain d where d: "d \<in> set (drop n cs)" "idx d = idx c" by auto
  have "data_cluster sb c" "data_cluster sb d" using assms d(1) by (auto simp: linked_def dest: in_set_takeD in_set_dropD)
  with d(2) have "c = d" by (simp add: idx_inj)
  then show False using take_drop_disjoint[of cs n] assms d(1) by (auto simp: linked_def)
qed

text \<open>The crop of a file that keeps \<open>n\<close> clusters.\<close>

lemma crop_file_ok:
  assumes "vol_ok ef" "file_at ef node cs" "length cs = unat current" "unat difference \<le> unat current" "0 < unat difference"
  defines "n \<equiv> unat current - unat difference"
  obtains node1 ef1 where "crop_file ops current difference node ef = Some (Inr (cs ! n), node1, ef1)"
    "fat_frame (set (take n cs)) ef ef1" "cmap_chunk ef1 = cmap_chunk ef" "node_eq node node1" "is_contiguous node1 = is_contiguous node"
    "start_cluster node1 = (if n = 0 then 0 else hd cs)" "linked ef1 (is_contiguous node) (take n cs)" "linked ef1 (is_contiguous node) (drop n cs)"
    "ended ef1 node (take n cs)"
proof (cases "n = 0")
  case True
  then have "\<not> current > difference" "cs \<noteq> []" using assms by (auto simp: word_less_nat_alt)
  then have "crop_file ops current difference node ef = Some (Inr (cs ! n), node\<lparr>start_cluster := 0, is_dirty := True\<rparr>, ef)"
    using assms(2) True by (simp add: crop_file_def file_at_def hd_conv_nth)
  then show thesis using that[of "node\<lparr>start_cluster := 0, is_dirty := True\<rparr>" ef] True assms(1,2) fat_frame_refl[OF assms(1)]
    by (auto simp: node_eq_def ended_def file_at_def linked_def)
next
  case False
  have lk: "linked ef (is_contiguous node) cs" using assms(2) by (simp add: file_at_def)
  have gt: "current > difference" using False by (auto simp: n_def word_less_nat_alt)
  have u: "unat (current - difference - 1) = n - 1"
  proof -
    have "unat (current - difference) = n" using gt unfolding n_def by (subst unat_sub) (auto simp: order_less_imp_le)
    moreover from this have "1 \<le> current - difference" using False by (simp add: word_le_nat_alt)
    ultimately show ?thesis by (subst unat_sub) auto
  qed
  have nl: "n < length cs" "n - 1 < length cs" using assms(3-5) unfolding n_def by linarith+
  obtain ef1 where a: "exfat_advance_cluster ops (current - difference - 1) node ef = Some (cs ! (n - 1), node\<lparr>fptr_index := current - difference - 1, fptr_cluster := cs ! (n - 1)\<rparr>, ef1)"
    "fat_frame {} ef ef1" "cmap_chunk ef1 = cmap_chunk ef"
    using advance_ok[OF assms(1,2), of "current - difference - 1"] nl(2) unfolding u by blast
  let ?node = "node\<lparr>fptr_index := current - difference - 1, fptr_cluster := cs ! (n - 1)\<rparr>"
  note ok1 = fat_frameD(1)[OF a(2)]
  have v: "data_cluster sb (cs ! (n - 1))" by (rule linked_nth[OF lk nl(2)])
  obtain ef2 where b: "exfat_next_cluster ops ?node (cs ! (n - 1)) ef1 = Some (if is_contiguous ?node then cs ! (n - 1) + 1 else table ef1 (cs ! (n - 1)), ef2)"
    "fat_frame {} ef1 ef2" "cmap_chunk ef2 = cmap_chunk ef1" by (rule next_cluster_any[OF ok1 v, of ?node])
  have nx: "(if is_contiguous ?node then cs ! (n - 1) + 1 else table ef1 (cs ! (n - 1))) = cs ! n"
  proof -
    have "Suc (n - 1) < length cs" "Suc (n - 1) = n" using nl False by auto
    then have "cs ! n = (if is_contiguous node then cs ! (n - 1) + 1 else table ef (cs ! (n - 1)))" using lk unfolding linked_def by metis
    then show ?thesis using fat_frameD(2)[OF a(2) v] by simp
  qed
  obtain ef3 where c: "set_next_cluster ops (is_contiguous node) (cs ! (n - 1)) 0xffffffff ef2 = Some (True, ef3)"
    "fat_frame (if is_contiguous node then {} else {cs ! (n - 1)}) ef2 ef3" "cmap_chunk ef3 = cmap_chunk ef2"
    "\<not> is_contiguous node \<Longrightarrow> table ef3 (cs ! (n - 1)) = 0xffffffff"
    by (rule set_next_any[OF fat_frameD(1)[OF b(2)] v, of "is_contiguous node" "0xffffffff"]) blast
  have f: "fat_frame {cs ! (n - 1)} ef ef3"
    by (rule fat_frame_trans[OF fat_frame_trans[OF a(2) b(2) order_refl] c(2)]) auto
  have t: "table ef3 (cs ! i) = table ef (cs ! i)" if "i < length cs" "i \<noteq> n - 1" for i
    by (rule fat_frameD(2)[OF f linked_nth[OF lk that(1)]]) (use that nl(2) lk in \<open>auto simp: linked_def nth_eq_iff_index_eq\<close>)
  have tk: "take n cs \<noteq> []" using False nl by auto
  then have tl: "last (take n cs) = cs ! (n - 1)" using False nl by (simp add: last_conv_nth)
  show thesis
  proof (rule that)
    show "crop_file ops current difference node ef = Some (Inr (cs ! n), ?node, ef3)"
      using gt a(1) b(1) nx c(1) v vol_okD(1)[OF ok1] by (simp add: crop_file_def invalid_iff)
    show "fat_frame (set (take n cs)) ef ef3"
      by (rule fat_frame_trans[OF f fat_frame_refl[OF fat_frameD(1)[OF f]], of "{}"]) (use tl last_in_set[OF tk] in auto)
    show "linked ef3 (is_contiguous node) (take n cs)"
      by (rule linked_frame[OF linked_take[OF lk]]) (use t nl in auto)
    show "linked ef3 (is_contiguous node) (drop n cs)"
      by (rule linked_frame[OF linked_drop[OF lk]]) (use t nl False in auto)
    show "ended ef3 node (take n cs)" using c(4) tl by (auto simp: ended_def)
  qed (use a(3) b(3) c(3) False assms(2) nl in \<open>auto simp: node_eq_def file_at_def\<close>)
qed

lemma shrink_file_ok:
  assumes "vol_ok ef" "file_at ef node cs" "length cs = unat current" "unat difference \<le> unat current" "0 < unat difference"
  defines "n \<equiv> unat current - unat difference"
  shows "\<exists>node' ef'. shrink_file ops current difference node ef = Some (0, node', ef') \<and> file_at ef' node' (take n cs) \<and> ended ef' node' (take n cs) \<and>
    node_eq node node' \<and> fat_frame (set cs) ef ef' \<and> (\<forall>j. used ef' j \<longleftrightarrow> used ef j \<and> j \<notin> idx ` set (drop n cs))"
proof -
  obtain node1 ef1 where c: "crop_file ops current difference node ef = Some (Inr (cs ! n), node1, ef1)"
    "fat_frame (set (take n cs)) ef ef1" "cmap_chunk ef1 = cmap_chunk ef" "node_eq node node1" "is_contiguous node1 = is_contiguous node"
    "start_cluster node1 = (if n = 0 then 0 else hd cs)" "linked ef1 (is_contiguous node) (take n cs)" "linked ef1 (is_contiguous node) (drop n cs)"
    "ended ef1 node (take n cs)"
    using crop_file_ok[OF assms(1-5)] unfolding n_def by blast
  have nl: "n < length cs" "length (drop n cs) = unat difference" using assms(3-5) unfolding n_def by auto
  let ?node = "node1\<lparr>fptr_index := 0, fptr_cluster := start_cluster node1\<rparr>"
  have "hd (drop n cs) = cs ! n" using nl by (simp add: hd_drop_conv_nth)
  then obtain ef' where r: "shrink_loop ops (unat difference) (cs ! n) ?node ef1 = Some (0, ef')" "fat_frame (set (drop n cs)) ef1 ef'"
    "\<forall>j. used ef' j \<longleftrightarrow> used ef1 j \<and> j \<notin> idx ` set (drop n cs)"
    using shrink_loop_ok[OF fat_frameD(1)[OF c(2)], of ?node "drop n cs" "cs ! n"] c(5,8) nl(2) by auto
  have lk: "linked ef (is_contiguous node) cs" using assms(2) by (simp add: file_at_def)
  have start: "start_cluster node \<noteq> 0" using assms(2,3,5,4) valid_nonzero[of "hd cs"] by (auto simp: file_at_def linked_def)
  have "difference \<noteq> 0" "\<not> current < difference" using assms(4,5) by (auto simp: word_less_nat_alt)
  then have "shrink_file ops current difference node ef = Some (0, ?node, ef')" using start c(1) r(1) by (simp add: shrink_file_def Let_def)
  moreover have fa: "file_at ef1 ?node (take n cs)" using c assms(2) nl(1) by (auto simp: file_at_def hd_conv_nth dest: in_set_takeD)
  moreover have keep: "used ef' (idx x)" if "x \<in> set (take n cs)" "used ef1 (idx x)" for x
    using that r(3) idx_image_disjoint[OF lk] by blast
  moreover have dj: "set (take n cs) \<inter> set (drop n cs) = {}" by (rule take_drop_disjoint) (use lk in \<open>simp add: linked_def\<close>)
  moreover have "ended ef1 ?node (take n cs)" using c(5,9) by (simp add: ended_def)
  moreover have "fat_frame (set cs) ef ef'" by (rule fat_frame_trans[OF c(2) r(2)]) (auto dest: in_set_takeD in_set_dropD)
  ultimately show ?thesis using file_at_frame[OF fa r(2) dj keep] r(3) c(3,4) by (auto simp: node_eq_def)
qed

end

end
