(* ===== verification/Exfat_Format.thy ===== *)
theory Exfat_Format
  imports Exfat_Format_Model Exfat_Chain
begin

text \<open>
  Correctness of the formatter.  First the layout: the positions of the objects, which do not overlap, and
  the super block, whose geometry is that of a volume.  Then the writes: each object stores a run of bytes
  at its position.
\<close>

section \<open>Layout\<close>

lemma c_div_nonneg [simp]: "0 \<le> a \<Longrightarrow> 0 < b \<Longrightarrow> c_div a b = a div b"
  by (cases "a = 0") (auto simp: c_div_def sgn_if)

text \<open>The positions for a volume of \<open>v\<close> bytes.\<close>

definition up4096 :: "nat \<Rightarrow> nat" where
  "up4096 n = (n + 4095) div 4096 * 4096"

definition fmt_cbm :: "nat \<Rightarrow> nat" where "fmt_cbm v = up4096 (65536 + v div 4096 * 4)"
definition fmt_cbm_size :: "nat \<Rightarrow> nat" where "fmt_cbm_size v = ((v - fmt_cbm v) div 4096 + 7) div 8"
definition fmt_uct :: "nat \<Rightarrow> nat" where "fmt_uct v = up4096 (fmt_cbm v + fmt_cbm_size v)"
definition fmt_root :: "nat \<Rightarrow> nat" where "fmt_root v = up4096 (fmt_uct v + 5836)"

lemma up4096: "n \<le> up4096 n" "up4096 n < n + 4096" "4096 dvd up4096 n"
proof -
  have "n + 4095 = (n + 4095) div 4096 * 4096 + (n + 4095) mod 4096" by simp
  moreover have "(n + 4095) mod 4096 < 4096" by simp
  ultimately show "n \<le> up4096 n" "up4096 n < n + 4096" unfolding up4096_def by linarith+
qed (simp add: up4096_def)

lemma round_up_4096: "ROUND_UP (int n) get_cluster_size = int (up4096 n)"
  by (simp add: ROUND_UP_def DIV_ROUND_UP_def get_cluster_size_def up4096_def zdiv_int)

lemma position_cbm:
  assumes "mp_volume_size p = int v"
  shows "get_position p Cbm = Some (int (fmt_cbm v))"
proof -
  have "position_loop p Cbm objects 0 = Some (ROUND_UP (int (65536 + v div 4096 * 4)) get_cluster_size)"
    by (simp add: objects_def assms ROUND_UP_def DIV_ROUND_UP_def get_sector_size_def get_cluster_size_def vbr_size_def fat_size_def zdiv_int)
  then show ?thesis by (simp only: get_position_def round_up_4096 fmt_cbm_def)
qed

lemma size_cbm:
  assumes "mp_volume_size p = int v" "fmt_cbm v \<le> v"
  shows "get_size p Cbm = Some (int (fmt_cbm_size v))"
proof -
  have "c_div (int v - int (fmt_cbm v)) get_cluster_size = int ((v - fmt_cbm v) div 4096)"
    using assms(2) by (simp add: get_cluster_size_def zdiv_int of_nat_diff)
  then have "DIV_ROUND_UP (c_div (int v - int (fmt_cbm v)) get_cluster_size) 8 = int (fmt_cbm_size v)"
    by (simp add: DIV_ROUND_UP_def fmt_cbm_size_def zdiv_int)
  then show ?thesis using position_cbm[OF assms(1)] by (simp add: get_position_def assms(1))
qed

lemma cbm_loop: "position_loop p ob objects 0 = position_loop p ob [Cbm, Uct, Rootdir] (65536 + fat_size p)" if "ob \<in> {Uct, Rootdir}"
  using that by (auto simp: objects_def ROUND_UP_def DIV_ROUND_UP_def get_sector_size_def vbr_size_def)

lemma position_uct:
  assumes "mp_volume_size p = int v" "fmt_cbm v \<le> v"
  shows "get_position p Uct = Some (int (fmt_uct v))" "get_position p Rootdir = Some (int (fmt_root v))"
proof -
  have f: "65536 + fat_size p = int (65536 + v div 4096 * 4)" by (simp add: fat_size_def assms(1) get_cluster_size_def zdiv_int)
  have c: "ROUND_UP (65536 + fat_size p) get_cluster_size = int (fmt_cbm v)" unfolding f round_up_4096 fmt_cbm_def ..
  have u: "ROUND_UP (int (fmt_cbm v) + int (fmt_cbm_size v)) get_cluster_size = int (fmt_uct v)"
    unfolding of_nat_add[symmetric] round_up_4096 fmt_uct_def ..
  have r: "ROUND_UP (int (fmt_uct v) + uct_size) get_cluster_size = int (fmt_root v)"
    using round_up_4096[of "fmt_uct v + 5836"] by (simp add: uct_size_def fmt_root_def)
  note size = size_cbm[OF assms]
  show "get_position p Uct = Some (int (fmt_uct v))" "get_position p Rootdir = Some (int (fmt_root v))"
    by (simp_all add: get_position_def cbm_loop c size u r del: get_size.simps(3))
qed

lemma check_size_ok:
  assumes "mp_volume_size p = int v" "fmt_root v + 4096 \<le> v"
  shows "check_size p (int v) = Some 0"
proof -
  have le: "fmt_cbm v \<le> v" using assms(2) up4096(1)[of "fmt_cbm v + fmt_cbm_size v"] up4096(1)[of "fmt_uct v + 5836"] by (simp add: fmt_root_def fmt_uct_def)
  have f: "65536 + fat_size p = int (65536 + v div 4096 * 4)" by (simp add: fat_size_def assms(1) get_cluster_size_def zdiv_int)
  have c: "ROUND_UP (65536 + fat_size p) get_cluster_size = int (fmt_cbm v)" unfolding f round_up_4096 fmt_cbm_def ..
  have u: "ROUND_UP (int (fmt_cbm v) + int (fmt_cbm_size v)) get_cluster_size = int (fmt_uct v)"
    unfolding of_nat_add[symmetric] round_up_4096 fmt_uct_def ..
  have r: "ROUND_UP (int (fmt_uct v) + uct_size) get_cluster_size = int (fmt_root v)"
    using round_up_4096[of "fmt_uct v + 5836"] by (simp add: uct_size_def fmt_root_def)
  have "size_loop p objects 0 = size_loop p [Cbm, Uct, Rootdir] (65536 + fat_size p)"
    by (simp add: objects_def ROUND_UP_def DIV_ROUND_UP_def get_sector_size_def vbr_size_def)
  also have "\<dots> = Some (int (fmt_root v) + rootdir_size)" using size_cbm[OF assms(1) le] by (simp add: c u r del: get_size.simps(3))
  finally show ?thesis using assms(2) by (simp add: check_size_def rootdir_size_def get_cluster_size_def)
qed

text \<open>The checks of the formatter fix the order and the bounds of the objects.\<close>

definition fmt_fits :: "nat \<Rightarrow> bool" where
  "fmt_fits v \<longleftrightarrow> fmt_root v + 4096 \<le> v \<and> v < 2 ^ 44"

lemma fmt_order:
  assumes "fmt_fits v"
  shows "65536 + v div 4096 * 4 \<le> fmt_cbm v" "fmt_cbm v + fmt_cbm_size v \<le> fmt_uct v" "fmt_uct v + 5836 \<le> fmt_root v" "fmt_root v + 4096 \<le> v" "v < 2 ^ 44"
    "fmt_cbm v \<le> v"
proof -
  show a: "65536 + v div 4096 * 4 \<le> fmt_cbm v" "fmt_cbm v + fmt_cbm_size v \<le> fmt_uct v" "fmt_uct v + 5836 \<le> fmt_root v"
    unfolding fmt_cbm_def fmt_uct_def fmt_root_def by (rule up4096(1))+
  show b: "fmt_root v + 4096 \<le> v" "v < 2 ^ 44" using assms by (auto simp: fmt_fits_def)
  show "fmt_cbm v \<le> v" using a b by linarith
qed

section \<open>The super block\<close>

definition fmt_sb :: "mkfs_param \<Rightarrow> exfat_super_block" where
  "fmt_sb p = the (init_sb p)"

lemma len32: "LENGTH(32) = 32" by simp

lemma word_of_int_nat: "word_of_int (int n) = (of_nat n :: 'a::len word)"
  by simp

lemma unat_of_nat_small: "n < 2 ^ LENGTH('a) \<Longrightarrow> unat (of_nat n :: 'a::len word) = n"
  by (simp add: unat_of_nat take_bit_nat_eq_self_iff)

text \<open>The parameters of the UEFI build for a volume of \<open>v\<close> bytes.\<close>

definition fmt_params :: "mkfs_param \<Rightarrow> nat \<Rightarrow> bool" where
  "fmt_params p v \<longleftrightarrow> mp_volume_size p = int v \<and> mp_sector_bits p = 9 \<and> mp_spc_bits p = 3 \<and> length (mp_volume_label p) = 16 \<and> mp_volume_label p ! 0 = 0"

lemma fat_in_sectors: "(128 + (4 * cm + 511) div 512 + 7) div 8 = (65536 + cm * 4 + 4095) div (4096 :: nat)"
proof -
  have "(65536 + cm * 4 + 4095) div 4096 = (65536 + cm * 4 + 4095) div 512 div 8" by (simp add: div_mult2_eq[symmetric])
  also have "(65536 + cm * 4 + 4095) div 512 = (135 * 512 + (4 * cm + 511)) div 512" by (simp add: algebra_simps)
  also have "\<dots> = 135 + (4 * cm + 511) div 512" by simp
  finally show ?thesis by simp
qed

lemma fat_words:
  fixes cmax :: u32
  assumes "unat cmax = cm"
  defines "fs \<equiv> ucast ((ucast cmax * 4 + 512 - 1) div (512 :: u64)) :: u32"
  shows "unat fs = (4 * cm + 511) div 512"
    "unat ((128 :: u32) + ((128 + fs + push_bit 3 1 - 1) div push_bit 3 1 * push_bit 3 1 - 128)) = (65536 + cm * 4 + 4095) div 4096 * 8"
proof -
  have cm: "cm < 2 ^ 32" using unat_u32_bound[of cmax] assms(1) by simp
  have m: "unat (ucast cmax * 4 :: u64) = 4 * cm" using cm assms(1) by (subst unat_mult_nowrap) auto
  have a: "unat (ucast cmax * 4 + 512 :: u64) = 4 * cm + 512" using cm m by (subst unat_add_nowrap) auto
  have "unat (ucast cmax * 4 + 512 - 1 :: u64) = 4 * cm + 511" using a by (subst unat_sub) (auto simp: word_le_nat_alt)
  then have "unat ((ucast cmax * 4 + 512 - 1) div (512 :: u64)) = (4 * cm + 511) div 512" by (simp add: unat_div)
  moreover have "(4 * cm + 511) div 512 < 2 ^ 26" using cm by (simp add: less_mult_imp_div_less)
  ultimately show fs: "unat fs = (4 * cm + 511) div 512" unfolding fs_def by (subst unat_ucast_64_32) auto
  have b: "unat fs < 2 ^ 26" using fs \<open>(4 * cm + 511) div 512 < 2 ^ 26\<close> by simp
  have p: "push_bit 3 1 = (8 :: u32)" by (simp add: push_bit_eq_mult)
  have x: "unat (128 + fs + 8) = 136 + unat fs" using b by (subst unat_add_nowrap, simp add: unat_add_nowrap)+ simp
  have "unat (128 + fs + 8 - 1) = 135 + unat fs" using x by (subst unat_sub) (auto simp: word_le_nat_alt)
  then have "unat ((128 + fs + 8 - 1) div 8 * 8) = (135 + unat fs) div 8 * 8" using b by (subst unat_mult_nowrap) (auto simp: unat_div)
  then show "unat ((128 :: u32) + ((128 + fs + push_bit 3 1 - 1) div push_bit 3 1 * push_bit 3 1 - 128)) = (65536 + cm * 4 + 4095) div 4096 * 8"
    unfolding p using fat_in_sectors[of cm] fs by (simp add: add.commute)
qed

lemma unat_drop_bit_32: "unat (drop_bit n (w :: u32)) = unat w div 2 ^ n"
proof -
  have "take_bit 32 (unat w) = unat w" using unat_u32_bound[of w] by (intro take_bit_nat_eq_self) simp
  then have "drop_bit n (take_bit 32 (unat w)) = unat w div 2 ^ n" by (simp add: drop_bit_eq_div)
  then show ?thesis by (simp only: unsigned_drop_bit_eq len32)
qed

lemma init_sb_ok:
  assumes p: "fmt_params p v" and v: "fmt_fits v"
  shows "init_sb p = Some (fmt_sb p)" "sb_sized (fmt_sb p)" "sb_sector_bits (fmt_sb p) = 9" "sb_spc_bits (fmt_sb p) = 3"
    "sb_oem_name (fmt_sb p) = map (of_nat \<circ> of_char) ''EXFAT   ''" "sb_version_major (fmt_sb p) = 1" "sb_version_minor (fmt_sb p) = 0" "sb_fat_count (fmt_sb p) = 1"
    "unat (sb_fat_sector_start (fmt_sb p)) = 128" "unat (sb_cluster_sector_start (fmt_sb p)) = fmt_cbm v div 512"
    "unat (sb_cluster_count (fmt_sb p)) = v div 4096 - fmt_cbm v div 4096" "unat (sb_rootdir_cluster (fmt_sb p)) = (fmt_root v - fmt_cbm v) div 4096 + 2"
    "sb_volume_state (fmt_sb p) = 0"
proof -
  note o = fmt_order[OF v]
  have V: "mp_volume_size p = int v" "mp_spc_bits p = 3" "mp_sector_bits p = 9" using p by (auto simp: fmt_params_def)
  note pos = position_cbm[OF V(1)] position_uct[OF V(1) o(6)]
  let ?cm = "v div 4096"
  have cm: "?cm < 2 ^ 32" using o(5) by (simp add: less_mult_imp_div_less)
  define cmax :: u32 where "cmax = word_of_int (c_div (mp_volume_size p) get_cluster_size)"
  have cmax: "cmax = of_nat ?cm" unfolding cmax_def V(1) get_cluster_size_def by (simp add: zdiv_int[symmetric] del: of_nat_numeral) (metis of_nat_div of_nat_numeral of_int_of_nat_eq)
  have cmaxV: "word_of_int (c_div (int v) get_cluster_size) = cmax" by (simp add: cmax_def V)
  have ucm: "unat cmax = ?cm" unfolding cmax by (rule unat_of_nat_small) (use cm in simp)
  have fst: "(word_of_int (c_div (get_alignment Fat) get_sector_size) :: u32) = 128" by (simp add: get_sector_size_def)
  have S: "init_sb p \<noteq> None" using pos by (simp add: init_sb_def Let_def)
  then show "init_sb p = Some (fmt_sb p)" by (auto simp: fmt_sb_def)
  have eq: "fmt_sb p = \<lparr>sb_jump = [0xeb, 0x76, 0x90], sb_oem_name = map (of_nat \<circ> of_char) ''EXFAT   '', sb_unused1 = replicate 53 0,
             sb_sector_start = mp_first_sector p, sb_sector_count = word_of_int (c_div (int v) get_sector_size), sb_fat_sector_start = 128,
             sb_fat_sector_count = (128 + ucast ((ucast cmax * 4 + 512 - 1) div (512 :: u64)) + push_bit 3 1 - 1) div push_bit 3 1 * push_bit 3 1 - 128,
             sb_cluster_sector_start = word_of_int (c_div (int (fmt_cbm v)) get_sector_size),
             sb_cluster_count = cmax - drop_bit 3 (128 + ((128 + ucast ((ucast cmax * 4 + 512 - 1) div (512 :: u64)) + push_bit 3 1 - 1) div push_bit 3 1 * push_bit 3 1 - 128)),
             sb_rootdir_cluster = word_of_int (c_div (int (fmt_root v) - int (fmt_cbm v)) get_cluster_size + 2),
             sb_volume_serial = mp_volume_serial p, sb_version_minor = 0, sb_version_major = 1, sb_volume_state = 0,
             sb_sector_bits = 9, sb_spc_bits = 3, sb_fat_count = 1, sb_drive_no = 0x80,
             sb_allocated_percent = 0, sb_unused2 = replicate 397 0, sb_boot_signature = 0xaa55\<rparr>"
    unfolding fmt_sb_def init_sb_def pos prod.case option.case Let_def option.sel fst V by (simp add: cmaxV)
  show "sb_sized (fmt_sb p)" "sb_sector_bits (fmt_sb p) = 9" "sb_spc_bits (fmt_sb p) = 3"
    "sb_oem_name (fmt_sb p) = map (of_nat \<circ> of_char) ''EXFAT   ''" "sb_version_major (fmt_sb p) = 1" "sb_version_minor (fmt_sb p) = 0" "sb_fat_count (fmt_sb p) = 1"
    "unat (sb_fat_sector_start (fmt_sb p)) = 128" "sb_volume_state (fmt_sb p) = 0"
    unfolding eq by (simp_all add: sb_sized_def)
  have b: "fmt_cbm v < 2 ^ 44" "fmt_root v < 2 ^ 44" using o by linarith+
  have "c_div (int (fmt_cbm v)) get_sector_size = int (fmt_cbm v div 512)" by (simp add: get_sector_size_def zdiv_int)
  moreover have "fmt_cbm v div 512 < 2 ^ 32"
  proof -
    have "fmt_cbm v < 65536 + ?cm * 4 + 4096" unfolding fmt_cbm_def by (rule up4096(2))
    then have "fmt_cbm v < 2 ^ 35" using cm by simp
    then show ?thesis by (simp add: less_mult_imp_div_less)
  qed
  ultimately show "unat (sb_cluster_sector_start (fmt_sb p)) = fmt_cbm v div 512"
    unfolding eq by (simp del: of_nat_div of_nat_numeral add: unat_of_nat_small word_of_int_nat)
  have "c_div (int (fmt_root v) - int (fmt_cbm v)) get_cluster_size + 2 = int ((fmt_root v - fmt_cbm v) div 4096 + 2)"
    using o by (simp add: get_cluster_size_def zdiv_int of_nat_diff)
  moreover have "(fmt_root v - fmt_cbm v) div 4096 + 2 < 2 ^ 32"
  proof -
    have "(fmt_root v - fmt_cbm v) div 4096 \<le> (v - 65536) div 4096" by (rule div_le_mono) (use o in linarith)
    also have "\<dots> \<le> ?cm - 16"
    proof -
      have "v = (v - 65536) + 65536" using o by linarith
      then have "?cm = (v - 65536 + 16 * 4096) div 4096" by simp
      then show ?thesis by (simp only: div_mult_self1)
    qed
    finally have "(fmt_root v - fmt_cbm v) div 4096 \<le> ?cm - 16" .
    moreover have "16 \<le> ?cm" using div_le_mono[of 65536 v 4096] o by simp
    ultimately show ?thesis using cm by linarith
  qed
  ultimately show "unat (sb_rootdir_cluster (fmt_sb p)) = (fmt_root v - fmt_cbm v) div 4096 + 2"
    unfolding eq by (simp only: exfat_super_block.select_convs word_of_int_nat unat_of_nat_small len32)
  have f: "fmt_cbm v div 4096 = (65536 + ?cm * 4 + 4095) div 4096" by (simp add: fmt_cbm_def up4096_def)
  have "unat (drop_bit 3 ((128 :: u32) + ((128 + ucast ((ucast cmax * 4 + 512 - 1) div (512 :: u64)) + push_bit 3 1 - 1) div push_bit 3 1 * push_bit 3 1 - 128))) = fmt_cbm v div 4096"
    unfolding unat_drop_bit_32 fat_words(2)[OF ucm] f by simp
  moreover have "fmt_cbm v div 4096 \<le> ?cm" by (rule div_le_mono[OF o(6)])
  ultimately show "unat (sb_cluster_count (fmt_sb p)) = v div 4096 - fmt_cbm v div 4096"
    unfolding eq using ucm by (simp add: unat_sub word_le_nat_alt)
qed

lemma fat_room: "m + 16 \<le> q \<Longrightarrow> 65536 + q * 4 \<le> c \<Longrightarrow> 65536 + 4 * (m + 2) \<le> (c :: nat)"
  by presburger

lemma fmt_geometry:
  assumes p: "fmt_params p v" and v: "fmt_fits v" and vol: "{..<v} \<subseteq> vol"
  shows "geometry (fmt_sb p) vol"
proof -
  note o = fmt_order[OF v] and sb = init_sb_ok[OF p v]
  have c: "fmt_cbm v div 512 * 512 = fmt_cbm v" "fmt_cbm v div 4096 * 4096 = fmt_cbm v"
    using up4096(3)[of "65536 + v div 4096 * 4"] unfolding fmt_cbm_def[symmetric] by (auto intro: dvd_trans[of 512 4096])
  have cs: "clus_size (fmt_sb p) = 4096" by (simp add: clus_size_def sb)
  have le: "fmt_cbm v div 4096 \<le> v div 4096" by (rule div_le_mono[OF o(6)])
  have cm: "v div 4096 < 2 ^ 32" using o(5) by (simp add: less_mult_imp_div_less)
  have "16 \<le> fmt_cbm v div 4096" using div_le_mono[of 65536 "fmt_cbm v" 4096] o(1) by simp
  then have n: "v div 4096 - fmt_cbm v div 4096 + 16 \<le> v div 4096" using le by linarith
  have "fmt_cbm v + (v div 4096 - fmt_cbm v div 4096) * 4096 = v div 4096 * 4096" using le c(2) by (simp add: diff_mult_distrib)
  also have "\<dots> \<le> v" by simp
  finally have e: "fmt_cbm v + (v div 4096 - fmt_cbm v div 4096) * 4096 \<le> v" .
  define m where "m = v div 4096 - fmt_cbm v div 4096"
  have "65536 + 4 * (m + 2) \<le> fmt_cbm v" using n o(1) unfolding m_def[symmetric] by (rule fat_room)
  then show ?thesis using c(1) n cm e vol unfolding geometry_def cs sb m_def by auto
qed

section \<open>Writing\<close>

text \<open>A run of bytes has been written at a position, where the file pointer now ends.\<close>

context byte_volume
begin

definition wrote :: "'s mkfs_run \<Rightarrow> nat \<Rightarrow> bytes \<Rightarrow> 's mkfs_run \<Rightarrow> bool" where
  "wrote st p bs st' \<longleftrightarrow> ok (mk_io st') \<and> img (mk_io st') = overwrite (img (mk_io st)) p bs \<and> unat (dev_pos (mk_dev st')) = p + length bs \<and>
     mk_param st' = mk_param st \<and> exfat_heap_used st' = exfat_heap_used st"

lemma wrote_trans: "wrote st p xs st1 \<Longrightarrow> wrote st1 (p + length xs) ys st2 \<Longrightarrow> wrote st p (xs @ ys) st2"
  by (auto simp: wrote_def overwrite_append)

lemma mk_write_ok:
  assumes "ok (mk_io st)" "unat (dev_pos (mk_dev st)) = p" "{p..<p + n} \<subseteq> vol" "p + n \<le> 2 ^ 63" "n \<le> length buf"
  obtains st' where "mk_write ops buf n st = Some (int n, st')" "wrote st p (take n buf) st'"
proof -
  obtain io' where w: "exfat_pwrite ops buf 0 n (dev_pos (mk_dev st)) (mk_io st) = Some (int n, io')" "ok io'"
    "img io' = overwrite (img (mk_io st)) p (buf_get n buf 0)" using pwrite_law[OF assms(1), of "dev_pos (mk_dev st)" n 0 buf] assms(2,3,5) by auto
  let ?st = "st\<lparr>mk_dev := (mk_dev st)\<lparr>dev_pos := dev_pos (mk_dev st) + of_nat n\<rparr>, mk_io := io'\<rparr>"
  have "mk_write ops buf n st = Some (int n, ?st)" using w(1) by (auto simp: mk_write_def exfat_write_def)
  moreover have "unat (dev_pos (mk_dev st) + of_nat n) = p + n"
    using assms(2,4) by (subst unat_add_nowrap) (auto simp: unat_of_nat take_bit_nat_eq_self_iff)
  then have "wrote st p (take n buf) ?st" using w(2,3) assms(5) by (simp add: wrote_def buf_get_def min_absorb2)
  ultimately show thesis by (rule that)
qed

lemma wrote_next:
  assumes "wrote st p xs st1" "{p + length xs..<p + length xs + n} \<subseteq> vol" "p + length xs + n \<le> 2 ^ 63" "n \<le> length buf"
  obtains st' where "mk_write ops buf n st1 = Some (int n, st')" "wrote st p (xs @ take n buf) st'"
proof -
  have "ok (mk_io st1)" "unat (dev_pos (mk_dev st1)) = p + length xs" using assms(1) by (auto simp: wrote_def)
  from mk_write_ok[OF this assms(2-4)] obtain st' where "mk_write ops buf n st1 = Some (int n, st')" "wrote st1 (p + length xs) (take n buf) st'" by blast
  then show thesis using that wrote_trans[OF assms(1)] by blast
qed

end

end
