(* ===== verification/Exfat_Objects.thy ===== *)
theory Exfat_Objects
  imports Exfat_Format
begin

text \<open>What the objects of the formatter write.\<close>

section \<open>The bytes\<close>

definition sig_sector :: bytes where
  "sig_sector = replicate 508 0 @ to_le 4 (0xaa550000 :: u32)"

definition add_sectors :: "nat \<Rightarrow> bytes \<Rightarrow> u32 \<Rightarrow> u32" where
  "add_sectors n sector = ((\<lambda>c. exfat_vbr_add_checksum sector 512 c) ^^ n)"

definition fmt_checksum :: "mkfs_param \<Rightarrow> u32" where
  "fmt_checksum p = add_sectors 2 (replicate 512 0) (add_sectors 8 sig_sector (exfat_vbr_start_checksum (sb_bytes (fmt_sb p)) 512))"

definition fmt_vbr :: "mkfs_param \<Rightarrow> bytes" where
  "fmt_vbr p = sb_bytes (fmt_sb p) @ concat (replicate 8 sig_sector) @ concat (replicate 2 (replicate 512 0)) @ concat (replicate 128 (to_le 4 (fmt_checksum p)))"

definition run_links :: "nat \<Rightarrow> nat \<Rightarrow> u32 list" where
  "run_links c n = map (\<lambda>i. of_nat (Suc i)) [c..<c + n]"

definition fmt_chain :: "nat \<Rightarrow> nat \<Rightarrow> u32 list" where
  "fmt_chain c n = run_links c (n - 1) @ [0xffffffff]"

definition fmt_cbm_clusters :: "nat \<Rightarrow> nat" where
  "fmt_cbm_clusters v = (fmt_cbm_size v + 4095) div 4096"

definition fmt_fat :: "nat \<Rightarrow> u32 list" where
  "fmt_fat v = [0xfffffff8, 0xffffffff] @ fmt_chain 2 (fmt_cbm_clusters v) @ fmt_chain (2 + fmt_cbm_clusters v) 2 @ fmt_chain (4 + fmt_cbm_clusters v) 1"

definition le32s :: "u32 list \<Rightarrow> bytes" where
  "le32s ws = concat (map (to_le 4) ws)"

definition fmt_allocated :: "nat \<Rightarrow> nat" where
  "fmt_allocated v = fmt_cbm_clusters v + 3"

definition bitmap_bits :: "nat \<Rightarrow> nat" where
  "bitmap_bits n = (n + 7) div 8 * 8"

definition fmt_bitmap :: "nat \<Rightarrow> u64 list" where
  "fmt_bitmap n = foldl (\<lambda>b i. if i < n then BMAP_SET b i else b) (replicate (BMAP_SIZE (bitmap_bits n) div 8) 0) [0..<bitmap_bits n]"

definition fmt_cbm_bytes :: "nat \<Rightarrow> bytes" where
  "fmt_cbm_bytes n = take (bitmap_bits n div 8) (concat (map (to_le 8) (fmt_bitmap n)))"

definition fmt_root_bytes :: "mkfs_param \<Rightarrow> bytes" where
  "fmt_root_bytes p = label_bytes (the (init_label_entry p)) @ bitmap_bytes (the (init_bitmap_entry p)) @ upcase_bytes (the (init_upcase_entry p))"

lemma length_le32s [simp]: "length (le32s ws) = 4 * length ws"
  by (induction ws) (auto simp: le32s_def)

lemma le32s_append [simp]: "le32s (xs @ ys) = le32s xs @ le32s ys"
  by (simp add: le32s_def)

lemma le32s_Cons [simp]: "le32s (x # ys) = to_le 4 x @ le32s ys"
  by (simp add: le32s_def)

lemma le32s_Nil [simp]: "le32s [] = []"
  by (simp add: le32s_def)

lemma length_concat_map_le8 [simp]: "length (concat (map (to_le 8) ws)) = 8 * length (ws :: u64 list)"
  by (induction ws) auto

lemma length_concat_replicate [simp]: "length (concat (replicate n xs)) = n * length xs"
  by (induction n) auto

lemma length_sig_sector [simp]: "length sig_sector = 512"
  by (simp add: sig_sector_def)

lemma length_fmt_vbr: "fmt_params p v \<Longrightarrow> fmt_fits v \<Longrightarrow> length (fmt_vbr p) = 6144"
  by (simp add: fmt_vbr_def init_sb_ok(2))

lemma length_fmt_bitmap: "length (fmt_bitmap n) = BMAP_SIZE (bitmap_bits n) div 8"
proof -
  have "length (foldl (\<lambda>b i. if i < n then BMAP_SET b i else b) b is) = length b" for b :: "u64 list" and "is"
    by (induction "is" arbitrary: b) (auto simp: BMAP_SET_def Let_def)
  then show ?thesis by (simp add: fmt_bitmap_def)
qed

lemma bmap_size: "BMAP_SIZE n div 8 = (n + 63) div 64" "8 dvd BMAP_SIZE n" "n \<le> 64 * ((n + 63) div 64)"
proof -
  have e: "BMAP_SIZE n = 8 * ((n + 63) div 64)" by (simp add: BMAP_SIZE_def)
  then show "BMAP_SIZE n div 8 = (n + 63) div 64" "8 dvd BMAP_SIZE n" by simp_all
  have "n + 63 = (n + 63) div 64 * 64 + (n + 63) mod 64" by simp
  moreover have "(n + 63) mod 64 < 64" by simp
  ultimately show "n \<le> 64 * ((n + 63) div 64)" by linarith
qed

lemma bitmap_bits: "n \<le> bitmap_bits n" "bitmap_bits n < n + 8" "bitmap_bits n div 8 * 8 = bitmap_bits n"
proof -
  have "n + 7 = (n + 7) div 8 * 8 + (n + 7) mod 8" by simp
  moreover have "(n + 7) mod 8 < 8" by simp
  ultimately show "n \<le> bitmap_bits n" "bitmap_bits n < n + 8" unfolding bitmap_bits_def by linarith+
qed (simp add: bitmap_bits_def)

lemma length_fmt_cbm_bytes [simp]: "length (fmt_cbm_bytes n) = bitmap_bits n div 8"
proof -
  have "bitmap_bits n div 8 \<le> 8 * ((bitmap_bits n + 63) div 64)" using bmap_size(3)[of "bitmap_bits n"] bitmap_bits(3)[of n] by linarith
  then show ?thesis unfolding fmt_cbm_bytes_def by (simp add: length_fmt_bitmap bmap_size(1) min_absorb2)
qed

text \<open>The bitmap has exactly the allocated clusters.\<close>

lemma used_fmt_bitmap:
  assumes "j < bitmap_bits n"
  shows "used_bit (fmt_bitmap n) j \<longleftrightarrow> j < n"
proof -
  let ?f = "\<lambda>b i. if i < n then BMAP_SET b i else b" and ?b0 = "replicate (BMAP_SIZE (bitmap_bits n) div 8) (0 :: u64)"
  have "length (foldl ?f b [0..<k]) = length b \<and> (\<forall>j < 64 * length b. used_bit (foldl ?f b [0..<k]) j \<longleftrightarrow> used_bit b j \<or> (j < k \<and> j < n))" if "k \<le> 64 * length b" for k and b :: "u64 list"
    using that
  proof (induction k)
    case (Suc k)
    let ?b = "foldl ?f b [0..<k]"
    have k: "k < 64 * length ?b" "length ?b = length b" using Suc by simp_all
    have "length (foldl ?f b [0..<Suc k]) = length ?b" by (simp add: BMAP_SET_def Let_def)
    moreover have "used_bit (foldl ?f b [0..<Suc k]) j \<longleftrightarrow> used_bit ?b j \<or> (j = k \<and> j < n)" for j by (auto simp: used_bit_set[OF k(1)])
    ultimately show ?case using Suc k(2) by (auto simp: less_Suc_eq)
  qed simp
  moreover have l: "bitmap_bits n \<le> 64 * length ?b0" using bmap_size(1,3)[of "bitmap_bits n"] by simp
  ultimately have "used_bit (fmt_bitmap n) j \<longleftrightarrow> used_bit ?b0 j \<or> (j < bitmap_bits n \<and> j < n)"
    using assms unfolding fmt_bitmap_def by (meson less_le_trans order_refl)
  moreover have "j div 64 < length ?b0" using assms l by (simp add: less_mult_imp_div_less mult.commute)
  ultimately show ?thesis using assms bitmap_bits(1)[of n] by (simp add: used_bit_def)
qed

text \<open>The objects in clusters.\<close>

lemma up4096_add: "4096 dvd c \<Longrightarrow> up4096 (c + n) = c + up4096 n"
proof -
  assume "4096 dvd c"
  then obtain k where k: "c = k * 4096" by (metis dvdE mult.commute)
  then have "(c + n + 4095) div 4096 = k + (n + 4095) div 4096" by (simp add: add.assoc)
  then show ?thesis by (simp add: up4096_def k algebra_simps)
qed

lemma fmt_clusters:
  assumes "fmt_fits v"
  shows "fmt_uct v = fmt_cbm v + 4096 * fmt_cbm_clusters v" "fmt_root v = fmt_uct v + 8192" "0 < fmt_cbm_clusters v" "fmt_cbm_clusters v + 19 \<le> v div 4096" "v div 4096 < 2 ^ 32"
    "fmt_cbm_size v < 2 ^ 44" "4096 dvd fmt_cbm v"
proof -
  note o = fmt_order[OF assms]
  show c: "4096 dvd fmt_cbm v" unfolding fmt_cbm_def by (rule up4096(3))
  show u: "fmt_uct v = fmt_cbm v + 4096 * fmt_cbm_clusters v" unfolding fmt_uct_def up4096_add[OF c] by (simp add: up4096_def fmt_cbm_clusters_def)
  have "4096 dvd fmt_uct v" unfolding fmt_uct_def by (rule up4096(3))
  then show r: "fmt_root v = fmt_uct v + 8192" unfolding fmt_root_def by (simp add: up4096_add) (simp add: up4096_def)
  have "1 \<le> (v - fmt_cbm v) div 4096" using o div_le_mono[of 4096 "v - fmt_cbm v" 4096] by simp
  then have "1 \<le> fmt_cbm_size v" unfolding fmt_cbm_size_def using div_le_mono[of 8 "(v - fmt_cbm v) div 4096 + 7" 8] by simp
  then show "0 < fmt_cbm_clusters v" unfolding fmt_cbm_clusters_def using div_le_mono[of 4096 "fmt_cbm_size v + 4095" 4096] by simp
  have "65536 \<le> fmt_cbm v" using o(1) by (rule add_leD1)
  then have "(fmt_cbm_clusters v + 19) * 4096 \<le> v" using o(4) u r by simp
  then show "fmt_cbm_clusters v + 19 \<le> v div 4096" by (simp add: less_eq_div_iff_mult_less_eq)
  show "v div 4096 < 2 ^ 32" using o(5) by (simp add: less_mult_imp_div_less)
  show "fmt_cbm_size v < 2 ^ 44" using o by linarith
qed

lemma length_fmt_chain [simp]: "0 < n \<Longrightarrow> length (fmt_chain c n) = n"
  by (simp add: fmt_chain_def run_links_def)

lemma length_fmt_fat: "fmt_fits v \<Longrightarrow> length (fmt_fat v) = fmt_cbm_clusters v + 5"
  using fmt_clusters(3)[of v] by (simp add: fmt_fat_def)

text \<open>The entries of the root directory exist and take 32 bytes each.\<close>

lemma root_entries:
  assumes "fmt_params p v" "fmt_fits v"
  shows "init_label_entry p \<noteq> None" "init_bitmap_entry p \<noteq> None" "init_upcase_entry p \<noteq> None"
    "length (label_bytes (the (init_label_entry p))) = 32" "length (bitmap_bytes (the (init_bitmap_entry p))) = 32" "length (upcase_bytes (the (init_upcase_entry p))) = 32"
proof -
  note o = fmt_order[OF assms(2)]
  have V: "mp_volume_size p = int v" using assms(1) by (simp add: fmt_params_def)
  obtain us where "mp_volume_label p = 0 # us" using assms(1) by (cases "mp_volume_label p") (auto simp: fmt_params_def)
  then have l: "init_label_entry p = Some \<lparr>le_type = EXFAT_ENTRY_LABEL XOR EXFAT_ENTRY_VALID, le_length = 0, le_name = replicate 15 0\<rparr>"
    by (simp add: init_label_entry_def)
  have b: "init_bitmap_entry p = Some \<lparr>be_type = EXFAT_ENTRY_BITMAP, be_unknown1 = replicate 19 0, be_start_cluster = EXFAT_FIRST_DATA_CLUSTER, be_size = word_of_int (int (fmt_cbm_size v))\<rparr>"
    unfolding init_bitmap_entry_def size_cbm[OF V o(6)] by (rule option.map)
  note pos = position_cbm[OF V] position_uct[OF V o(6)]
  have u: "init_upcase_entry p = Some \<lparr>ue_type = EXFAT_ENTRY_UPCASE, ue_unknown1 = replicate 3 0, ue_checksum = upcase_sum, ue_unknown2 = replicate 12 0,
            ue_start_cluster = word_of_int (c_div (int (fmt_uct v) - int (fmt_cbm v)) get_cluster_size + 2), ue_size = 5836\<rparr>"
    unfolding init_upcase_entry_def pos by simp
  show "init_label_entry p \<noteq> None" "init_bitmap_entry p \<noteq> None" "init_upcase_entry p \<noteq> None"
    "length (label_bytes (the (init_label_entry p))) = 32" "length (bitmap_bytes (the (init_bitmap_entry p))) = 32" "length (upcase_bytes (the (init_upcase_entry p))) = 32"
    unfolding l b u by (simp_all add: label_of_bytes(2) bitmap_of_bytes(2) upcase_of_bytes(2))
qed

section \<open>Memory\<close>

lemma malloc_ok:
  assumes "unat h + unat n + 7 \<le> 2 * 1024 * 1024"
  obtains h' where "exfat_malloc n h = (Some h, h')" "unat h' \<le> unat h + unat n + 7"
proof -
  let ?n = "(n + 7) AND NOT 7"
  have a: "unat (n + 7) = unat n + 7" using assms by (subst unat_add_nowrap) auto
  have "?n \<le> n + 7" by (rule word_and_le2)
  then have n: "unat ?n \<le> unat n + 7" by (simp only: word_le_nat_alt a)
  then have u: "unat (h + ?n) = unat h + unat ?n" using assms by (subst unat_add_nowrap) auto
  then have "\<not> h + ?n > 2 * 1024 * 1024" using assms n by (simp add: word_less_nat_alt)
  then have "exfat_malloc n h = (Some h, h + ?n)" by (simp add: exfat_malloc_def Let_def)
  then show thesis using that u n by simp
qed

section \<open>The writes\<close>

context byte_volume
begin

lemma wrote_start: "ok (mk_io st) \<Longrightarrow> unat (dev_pos (mk_dev st)) = p \<Longrightarrow> wrote st p [] st"
  by (simp add: wrote_def)

lemma write_equal_sectors_ok:
  assumes "wrote st p xs st1" "length sector = 512" "{p..<p + length xs + n * 512} \<subseteq> vol" "p + length xs + n * 512 \<le> 2 ^ 63"
  shows "\<exists>st2. write_equal_sectors ops n sector chk st1 = Some (True, add_sectors n sector chk, st2) \<and> wrote st p (xs @ concat (replicate n sector)) st2"
  using assms
proof (induction n arbitrary: xs st1 chk)
  case 0
  then show ?case by (simp add: add_sectors_def)
next
  case (Suc n)
  obtain st2 where w: "mk_write ops sector 512 st1 = Some (512, st2)" "wrote st p (xs @ sector) st2"
  proof (rule wrote_next[OF Suc.prems(1), of 512 sector])
    show "{p + length xs..<p + length xs + 512} \<subseteq> vol" using Suc.prems(3) by auto
  qed (use Suc.prems in auto)
  have "\<exists>st3. write_equal_sectors ops n sector (exfat_vbr_add_checksum sector 512 chk) st2 = Some (True, add_sectors n sector (exfat_vbr_add_checksum sector 512 chk), st3) \<and>
      wrote st p ((xs @ sector) @ concat (replicate n sector)) st3"
    by (rule Suc.IH[OF w(2)]) (use Suc.prems in auto)
  moreover have "add_sectors n sector (exfat_vbr_add_checksum sector 512 chk) = add_sectors (Suc n) sector chk" by (simp add: add_sectors_def funpow_swap1)
  ultimately show ?case using w(1) by auto
qed

text \<open>An object is written at \<open>p\<close> with at most \<open>k\<close> bytes of memory.\<close>

definition made :: "'s mkfs_run \<Rightarrow> nat \<Rightarrow> bytes \<Rightarrow> nat \<Rightarrow> 's mkfs_run \<Rightarrow> bool" where
  "made st p bs k st' \<longleftrightarrow> ok (mk_io st') \<and> img (mk_io st') = overwrite (img (mk_io st)) p bs \<and> mk_param st' = mk_param st \<and>
     unat (exfat_heap_used st') \<le> unat (exfat_heap_used st) + k"

lemma wrote_made: "wrote (st\<lparr>exfat_heap_used := u\<rparr>) p bs st' \<Longrightarrow> unat u \<le> unat (exfat_heap_used st) + k \<Longrightarrow> made st p bs k st'"
  by (simp add: wrote_def made_def)

lemma wrote_made': "wrote st p bs st' \<Longrightarrow> made st p bs 0 st'"
  by (simp add: wrote_def made_def)

lemma vbr_write_ok:
  assumes "fmt_params (mk_param st) v" "fmt_fits v" "ok (mk_io st)" "unat (dev_pos (mk_dev st)) = p" "{p..<p + 6144} \<subseteq> vol" "p + 6144 \<le> 2 ^ 63"
    "unat (exfat_heap_used st) + 519 \<le> 2 * 1024 * 1024"
  shows "\<exists>st'. vbr_write ops st = Some (0, st') \<and> made st p (fmt_vbr (mk_param st)) 519 st'"
proof -
  note sb = init_sb_ok[OF assms(1,2)]
  obtain u where u: "exfat_malloc 512 (exfat_heap_used st) = (Some (exfat_heap_used st), u)" "unat u \<le> unat (exfat_heap_used st) + 519"
  proof (rule malloc_ok[of "exfat_heap_used st" 512])
    show "unat (exfat_heap_used st) + unat (512 :: u64) + 7 \<le> 2 * 1024 * 1024" using assms(7) by simp
  qed simp
  define s0 s1 s2 z c k0 k1 where d: "s0 = st\<lparr>exfat_heap_used := u\<rparr>" "s1 = sb_bytes (fmt_sb (mk_param st))" "s2 = concat (replicate 8 sig_sector)"
    "z = concat (replicate 2 (replicate 512 (0 :: u8)))" "c = concat (replicate 128 (to_le 4 (fmt_checksum (mk_param st))))"
    "k0 = exfat_vbr_start_checksum s1 512" "k1 = add_sectors 8 sig_sector k0"
  have l: "length s1 = 512" "length s2 = 4096" "length z = 1024" "length c = 512" unfolding d using sb(2) by (simp_all only: length_concat_replicate length_replicate length_to_le length_sig_sector) simp_all
  have sub: "{p + a..<p + a + n} \<subseteq> vol" "p + a + n \<le> 2 ^ 63" if "a + n \<le> 6144" for a n using assms(5,6) that by (auto simp: subset_iff)
  have w0: "wrote s0 p [] s0" by (rule wrote_start) (use assms(3,4) in \<open>auto simp: d\<close>)
  obtain t1 where w1: "mk_write ops s1 512 s0 = Some (int 512, t1)" "wrote s0 p ([] @ take 512 s1) t1"
    by (rule wrote_next[OF w0, of 512 s1]) (use sub[of 0 512] l in auto)
  have w1': "wrote s0 p s1 t1" using w1(2) l(1) by simp
  have w1'': "{p..<p + length s1 + 8 * 512} \<subseteq> vol" "p + length s1 + 8 * 512 \<le> 2 ^ 63" using sub[of 0 4608] l by (simp_all add: add.commute)
  obtain t2 where w2: "write_equal_sectors ops 8 sig_sector k0 t1 = Some (True, k1, t2)" "wrote s0 p (s1 @ s2) t2"
    using write_equal_sectors_ok[OF w1' length_sig_sector w1'', of k0] unfolding d(3,7) by blast
  have w2': "{p..<p + length (s1 @ s2) + 2 * 512} \<subseteq> vol" "p + length (s1 @ s2) + 2 * 512 \<le> 2 ^ 63" using sub[of 0 5632] l by (simp_all add: add.commute)
  obtain t3 where w3: "write_equal_sectors ops 2 (replicate 512 0) k1 t2 = Some (True, fmt_checksum (mk_param st), t3)" "wrote s0 p ((s1 @ s2) @ z) t3"
    using write_equal_sectors_ok[OF w2(2) length_replicate w2', of 0 k1] unfolding d(4) fmt_checksum_def d(2)[symmetric] d(6)[symmetric] d(7)[symmetric] by blast
  have l3: "length ((s1 @ s2) @ z) = 5632" using l by simp
  obtain t4 where w4: "mk_write ops c 512 t3 = Some (int 512, t4)" "wrote s0 p (((s1 @ s2) @ z) @ take 512 c) t4"
    by (rule wrote_next[OF w3(2), of 512 c]) (use sub[of 5632 512] l l3 in auto)
  have "fmt_vbr (mk_param st) = ((s1 @ s2) @ z) @ take 512 c" unfolding fmt_vbr_def d(2)[symmetric] d(3)[symmetric] d(4)[symmetric] d(5)[symmetric] using l(4) by simp
  then have "made st p (fmt_vbr (mk_param st)) 519 t4" using w4(2) u(2) unfolding d(1) by (simp only: wrote_made)
  moreover have "vbr_write ops st = Some (0, t4)"
    unfolding vbr_write_def sig_sector_def[symmetric] u(1) prod.case option.case sb(1)
    by (simp add: d(1)[symmetric] d(2)[symmetric] d(5)[symmetric] d(6)[symmetric] w1(1) w2(1) w3(1) w4(1))
  ultimately show ?thesis by blast
qed

text \<open>The file allocation table.\<close>

lemma entry_ok:
  assumes "wrote st p xs st1" "{p + length xs..<p + length xs + 4} \<subseteq> vol" "p + length xs + 4 \<le> 2 ^ 63"
  shows "\<exists>st2. fat_write_entry ops c w st1 = Some (c + 1, st2) \<and> wrote st p (xs @ to_le 4 w) st2"
proof -
  obtain st2 where "mk_write ops (to_le 4 w) 4 st1 = Some (int 4, st2)" "wrote st p (xs @ take 4 (to_le 4 w)) st2"
    by (rule wrote_next[OF assms, of "to_le 4 w"]) simp
  then show ?thesis by (simp add: fat_write_entry_def)
qed

lemma run_links_Suc: "run_links c (Suc n) = of_nat (Suc c) # run_links (Suc c) n"
  by (simp add: run_links_def upt_conv_Cons del: upt_Suc)

lemma length_run_links [simp]: "length (run_links c n) = n"
  by (simp add: run_links_def)

lemma entries_loop_ok:
  assumes "wrote st p xs st1" "unat c + n < 2 ^ 32" "unat c + n = unat (stop - 1)" "{p + length xs..<p + length xs + 4 * n} \<subseteq> vol" "p + length xs + 4 * n \<le> 2 ^ 63"
  shows "\<exists>st2. entries_loop ops stop c st1 = Some (Some (stop - 1), st2) \<and> wrote st p (xs @ le32s (run_links (unat c) n)) st2"
  using assms
proof (induction n arbitrary: c xs st1)
  case 0
  then have "c = stop - 1" by (simp add: word_unat_eq_iff)
  with 0 show ?case by (subst entries_loop.simps) (simp add: run_links_def)
next
  case (Suc n)
  then have lt: "c < stop - 1" by (simp add: word_less_nat_alt)
  have c: "unat (c + 1) = Suc (unat c)" using Suc.prems(2) by (subst unat_add_nowrap) auto
  have "\<exists>st2. fat_write_entry ops c (c + 1) st1 = Some (c + 1, st2) \<and> wrote st p (xs @ to_le 4 (c + 1)) st2"
    by (rule entry_ok[OF Suc.prems(1)]) (use Suc.prems(4,5) in \<open>auto simp: subset_iff\<close>)
  then obtain st2 where w: "fat_write_entry ops c (c + 1) st1 = Some (c + 1, st2)" "wrote st p (xs @ to_le 4 (c + 1)) st2" by blast
  have "\<exists>st3. entries_loop ops stop (c + 1) st2 = Some (Some (stop - 1), st3) \<and> wrote st p ((xs @ to_le 4 (c + 1)) @ le32s (run_links (unat (c + 1)) n)) st3"
    by (rule Suc.IH[OF w(2)]) (use Suc.prems c in \<open>auto simp: subset_iff\<close>)
  moreover have "c + 1 \<noteq> 0" using c by auto
  moreover have "of_nat (Suc (unat c)) = c + 1" by simp
  ultimately show ?case using lt w(1) c by (subst entries_loop.simps) (auto simp: run_links_Suc add.commute[of 1] simp del: entries_loop.simps)
qed

lemma chain_ok:
  assumes "wrote st p xs st1" "unat c + k < 2 ^ 32" "0 < k" "(unat m + 4095) div 4096 = k" "unat m < 2 ^ 60" "{p + length xs..<p + length xs + 4 * k} \<subseteq> vol" "p + length xs + 4 * k \<le> 2 ^ 63"
  shows "\<exists>st2. fat_write_entries ops c m st1 = Some (of_nat (unat c + k), st2) \<and> wrote st p (xs @ le32s (fmt_chain (unat c) k)) st2"
proof -
  define stop :: u32 where "stop = ucast (ucast c + (m + 4096 - 1) div (4096 :: u64))"
  have "unat (m + 4096) = unat m + 4096" using assms(5) by (subst unat_add_nowrap) auto
  then have "unat (m + 4096 - 1) = unat m + 4095" by (subst unat_sub) (auto simp: word_le_nat_alt)
  then have k: "unat ((m + 4096 - 1) div (4096 :: u64)) = k" using assms(4) by (simp add: unat_div)
  have "unat (ucast c + (m + 4096 - 1) div (4096 :: u64)) = unat c + k" using assms(2) k by (subst unat_add_nowrap) auto
  then have s: "unat stop = unat c + k" unfolding stop_def using assms(2) by (subst unat_ucast_64_32) auto
  then have s1: "unat (stop - 1) = unat c + (k - 1)" using assms(3) by (subst unat_sub) (auto simp: word_le_nat_alt)
  have "\<exists>st2. entries_loop ops stop c st1 = Some (Some (stop - 1), st2) \<and> wrote st p (xs @ le32s (run_links (unat c) (k - 1))) st2"
    by (rule entries_loop_ok[OF assms(1)]) (use assms s1 in \<open>auto simp: subset_iff\<close>)
  then obtain st2 where w: "entries_loop ops stop c st1 = Some (Some (stop - 1), st2)" "wrote st p (xs @ le32s (run_links (unat c) (k - 1))) st2" by blast
  have "\<exists>st3. fat_write_entry ops (stop - 1) EXFAT_CLUSTER_END st2 = Some (stop - 1 + 1, st3) \<and> wrote st p ((xs @ le32s (run_links (unat c) (k - 1))) @ to_le 4 EXFAT_CLUSTER_END) st3"
    by (rule entry_ok[OF w(2)]) (use assms(3,6,7) in \<open>auto simp: subset_iff\<close>)
  then obtain st3 where "fat_write_entry ops (stop - 1) EXFAT_CLUSTER_END st2 = Some (stop, st3)" "wrote st p (xs @ le32s (fmt_chain (unat c) k)) st3"
    by (auto simp: fmt_chain_def)
  moreover have "stop = of_nat (unat c + k)" by (simp add: s[symmetric] del: of_nat_add)
  ultimately show ?thesis unfolding fat_write_entries_def stop_def[symmetric] Let_def w(1) by simp
qed

lemma fat_write_ok:
  assumes "fmt_params (mk_param st) v" "fmt_fits v" "ok (mk_io st)" "unat (dev_pos (mk_dev st)) = 65536" "{..<v} \<subseteq> vol"
  shows "\<exists>st'. fat_write ops st = Some (0, st') \<and> made st 65536 (le32s (fmt_fat v)) 0 st'"
proof -
  note o = fmt_order[OF assms(2)] and c = fmt_clusters[OF assms(2)]
  define k where "k = fmt_cbm_clusters v"
  have kb: "k + 19 \<le> v div 4096" "0 < k" "k < 2 ^ 32 - 19" using c(3-5) unfolding k_def by linarith+
  have V: "mp_volume_size (mk_param st) = int v" using assms(1) by (simp add: fmt_params_def)
  have sub: "{65536 + a..<65536 + a + n} \<subseteq> vol" "65536 + a + n \<le> 2 ^ 63" if "a + n \<le> 4 * (k + 5)" for a n
  proof -
    have "65536 + a + n \<le> 65536 + v div 4096 * 4" using that kb(1) by simp
    then have "65536 + a + n \<le> v" using o(1,6) by (rule order_trans[OF order_trans])
    then show "{65536 + a..<65536 + a + n} \<subseteq> vol" "65536 + a + n \<le> 2 ^ 63" using assms(5) o(5) by (auto simp: subset_iff)
  qed
  have w0: "wrote st 65536 [] st" by (rule wrote_start) (use assms(3,4) in auto)
  obtain t1 where w1: "fat_write_entry ops 0 0xfffffff8 st = Some (1, t1)" "wrote st 65536 (to_le 4 (0xfffffff8 :: u32)) t1"
    using entry_ok[OF w0, of 0 "0xfffffff8"] sub[of 0 4] by auto
  obtain t2 where w2: "fat_write_entry ops 1 0xffffffff t1 = Some (2, t2)" "wrote st 65536 (le32s [0xfffffff8, 0xffffffff]) t2"
    using entry_ok[OF w1(2), of 1 "0xffffffff"] sub[of 4 4] by auto
  define x2 x3 x4 where x: "x2 = le32s [0xfffffff8, 0xffffffff]" "x3 = x2 @ le32s (fmt_chain 2 k)" "x4 = x3 @ le32s (fmt_chain (2 + k) 2)"
  have l: "length x2 = 8" "length x3 = 8 + 4 * k" "length x4 = 16 + 4 * k" using kb(2) by (auto simp: x)
  have p1: "mk_param t2 = mk_param st" using w2(2) by (simp add: wrote_def)
  have sz: "get_size (mk_param st) Cbm = Some (int (fmt_cbm_size v))" by (rule size_cbm[OF V o(6)])
  have m: "unat (of_nat (fmt_cbm_size v) :: u64) = fmt_cbm_size v" using c(6) by (simp add: unat_of_nat take_bit_nat_eq_self_iff)
  have "\<exists>t3. fat_write_entries ops 2 (of_nat (fmt_cbm_size v)) t2 = Some (of_nat (unat (2 :: u32) + k), t3) \<and> wrote st 65536 (x2 @ le32s (fmt_chain (unat (2 :: u32)) k)) t3"
    by (rule chain_ok[OF w2(2)[folded x(1)]]) (use kb c(6) m sub[of 8 "4 * k"] l in \<open>auto simp: k_def fmt_cbm_clusters_def\<close>)
  then obtain t3 where w3: "fat_write_entries ops 2 (of_nat (fmt_cbm_size v)) t2 = Some (of_nat (2 + k), t3)" "wrote st 65536 x3 t3" unfolding x(2) by auto
  have u: "unat (of_nat (2 + k) :: u32) = 2 + k" "unat (of_nat (4 + k) :: u32) = 4 + k" by (rule unat_of_nat_small, use kb(3) in simp)+
  have "\<exists>t4. fat_write_entries ops (of_nat (2 + k)) 5836 t3 = Some (of_nat (unat (of_nat (2 + k) :: u32) + 2), t4) \<and> wrote st 65536 (x3 @ le32s (fmt_chain (unat (of_nat (2 + k) :: u32)) 2)) t4"
    by (rule chain_ok[OF w3(2)]) (use kb u sub[of "8 + 4 * k" 8] l in auto)
  then obtain t4 where w4: "fat_write_entries ops (of_nat (2 + k)) 5836 t3 = Some (of_nat (4 + k), t4)" "wrote st 65536 x4 t4" unfolding x(3) u by (auto simp: add.commute)
  have "\<exists>t5. fat_write_entries ops (of_nat (4 + k)) 4096 t4 = Some (of_nat (unat (of_nat (4 + k) :: u32) + 1), t5) \<and> wrote st 65536 (x4 @ le32s (fmt_chain (unat (of_nat (4 + k) :: u32)) 1)) t5"
    by (rule chain_ok[OF w4(2)]) (use kb u sub[of "16 + 4 * k" 4] l in auto)
  then obtain t5 where w5: "fat_write_entries ops (of_nat (4 + k)) 4096 t4 = Some (of_nat (5 + k), t5)" "wrote st 65536 (x4 @ le32s (fmt_chain (4 + k) 1)) t5" unfolding u by (auto simp: add.commute)
  define c3 c4 c5 :: u32 where cs: "c3 = of_nat (2 + k)" "c4 = of_nat (4 + k)" "c5 = of_nat (5 + k)"
  have "le32s (fmt_fat v) = x4 @ le32s (fmt_chain (4 + k) 1)" by (simp add: fmt_fat_def x k_def)
  then have "made st 65536 (le32s (fmt_fat v)) 0 t5" using wrote_made'[OF w5(2)] by simp
  moreover have "unat c3 = 2 + k" "unat c4 = 4 + k" "unat c5 = 5 + k" unfolding cs by (rule unat_of_nat_small, use kb(3) in simp)+
  then have "c3 \<noteq> 0" "c4 \<noteq> 0" "c5 \<noteq> 0" by auto
  moreover have "mk_param t3 = mk_param st" "mk_param t4 = mk_param st" using w3(2) w4(2) by (auto simp: wrote_def)
  ultimately show ?thesis unfolding fat_write_def
    by (simp add: w1(1) w2(1) sz p1 w3(1)[folded cs] w4(1)[folded cs] w5(1)[folded cs] uct_size_def rootdir_size_def get_cluster_size_def del: get_size.simps(3) of_nat_add)
qed

text \<open>The allocation bitmap, the up-case table and the root directory.\<close>

lemma cbm_write_ok:
  assumes "fmt_params (mk_param st) v" "fmt_fits v" "ok (mk_io st)" "unat (dev_pos (mk_dev st)) = fmt_cbm v" "{..<v} \<subseteq> vol"
    "unat (exfat_heap_used st) + fmt_allocated v + 15 \<le> 2 * 1024 * 1024"
  shows "\<exists>st'. cbm_write ops st = Some (0, st') \<and> made st (fmt_cbm v) (fmt_cbm_bytes (fmt_allocated v)) (fmt_allocated v + 15) st'"
proof -
  note o = fmt_order[OF assms(2)] and c = fmt_clusters[OF assms(2)]
  have V: "mp_volume_size (mk_param st) = int v" using assms(1) by (simp add: fmt_params_def)
  define a where "a = fmt_allocated v"
  have a: "a + 16 \<le> v div 4096" "a < 2 ^ 21" using c(4) assms(6) by (auto simp: a_def fmt_allocated_def)
  have sz: "get_size (mk_param st) Cbm = Some (int (fmt_cbm_size v))" by (rule size_cbm[OF V o(6)])
  have "DIV_ROUND_UP (int (fmt_cbm_size v)) get_cluster_size = int (fmt_cbm_clusters v)" by (simp add: DIV_ROUND_UP_def get_cluster_size_def fmt_cbm_clusters_def zdiv_int)
  then have A: "DIV_ROUND_UP (int (fmt_cbm_size v)) get_cluster_size + DIV_ROUND_UP uct_size get_cluster_size + DIV_ROUND_UP rootdir_size get_cluster_size = int a"
    by (simp add: DIV_ROUND_UP_def get_cluster_size_def uct_size_def rootdir_size_def a_def fmt_allocated_def)
  have ua: "unat (of_nat a :: u32) = a" by (rule unat_of_nat_small) (use a(2) in simp)
  have "unat (of_nat a + 8 :: u32) = a + 8" using ua a(2) by (subst unat_add_nowrap) auto
  then have "unat (of_nat a + 8 - 1 :: u32) = a + 7" by (subst unat_sub) (auto simp: word_le_nat_alt)
  then have b: "unat ((of_nat a + 8 - 1 :: u32) div 8 * 8) = bitmap_bits a" using a(2) by (subst unat_mult_nowrap) (auto simp: unat_div bitmap_bits_def)
  have B: "BMAP_SIZE (bitmap_bits a) \<le> a + 8"
  proof -
    have "BMAP_SIZE (bitmap_bits a) = 8 * ((bitmap_bits a + 63) div 64)" by (simp add: BMAP_SIZE_def)
    moreover have "(bitmap_bits a + 63) div 64 \<le> (a + 70) div 64" using bitmap_bits(2)[of a] by (intro div_le_mono) simp
    moreover have "64 * ((a + 70) div 64) \<le> a + 70" by (rule times_div_less_eq_dividend)
    ultimately show ?thesis by linarith
  qed
  have uB: "unat (of_nat (BMAP_SIZE (bitmap_bits a)) :: u64) = BMAP_SIZE (bitmap_bits a)" by (rule unat_of_nat_small) (use B a(2) in simp)
  obtain u where u: "exfat_malloc (of_nat (BMAP_SIZE (bitmap_bits a))) (exfat_heap_used st) = (Some (exfat_heap_used st), u)"
    "unat u \<le> unat (exfat_heap_used st) + BMAP_SIZE (bitmap_bits a) + 7"
  proof (rule malloc_ok[of "exfat_heap_used st" "of_nat (BMAP_SIZE (bitmap_bits a))"])
    show "unat (exfat_heap_used st) + unat (of_nat (BMAP_SIZE (bitmap_bits a)) :: u64) + 7 \<le> 2 * 1024 * 1024" using assms(6) B unfolding uB a_def[symmetric] by linarith
  qed (simp add: uB)
  define s0 bs n where d: "s0 = st\<lparr>exfat_heap_used := u\<rparr>" "bs = concat (map (to_le 8) (fmt_bitmap a))" "n = bitmap_bits a div 8"
  have n: "n \<le> length bs" "n \<le> a + 1" using length_fmt_cbm_bytes[of a] bitmap_bits(2)[of a] by (auto simp: d fmt_cbm_bytes_def min_def split: if_splits)
  have e: "fmt_cbm v + n \<le> v"
  proof -
    have "n \<le> 4096 * fmt_cbm_clusters v" using n(2) c(3) by (simp add: a_def fmt_allocated_def)
    then show ?thesis using c(1) o by linarith
  qed
  have w0: "wrote s0 (fmt_cbm v) [] s0" by (rule wrote_start) (use assms(3,4) in \<open>auto simp: d\<close>)
  obtain t where w: "mk_write ops bs n s0 = Some (int n, t)" "wrote s0 (fmt_cbm v) ([] @ take n bs) t"
    by (rule wrote_next[OF w0, of n bs]) (use n e o assms(5) in \<open>auto simp: subset_iff\<close>)
  have "made st (fmt_cbm v) (take n bs) (a + 15) t" using w(2) u(2) B unfolding d(1) by (simp add: wrote_made)
  moreover have "take n bs = fmt_cbm_bytes a" by (simp add: d fmt_cbm_bytes_def)
  moreover have "cbm_write ops st = Some (0, t)" unfolding cbm_write_def
    by (simp only: sz get_size.simps(4,5) bind.bind_lunit A word_of_int_nat b ua u(1) Let_def prod.case option.case fmt_bitmap_def[symmetric] d[symmetric] w(1)) simp
  ultimately show ?thesis unfolding a_def by auto
qed

lemma uct_write_ok:
  assumes "ok (mk_io st)" "unat (dev_pos (mk_dev st)) = fmt_uct v" "{..<v} \<subseteq> vol" "fmt_fits v"
  shows "\<exists>st'. uct_write ops st = Some (0, st') \<and> made st (fmt_uct v) upcase_table 0 st'"
proof -
  note o = fmt_order[OF assms(4)]
  have w0: "wrote st (fmt_uct v) [] st" by (rule wrote_start) (use assms(1,2) in auto)
  obtain t where w: "mk_write ops upcase_table 5836 st = Some (int 5836, t)" "wrote st (fmt_uct v) ([] @ take 5836 upcase_table) t"
    by (rule wrote_next[OF w0, of 5836 upcase_table]) (use o assms(3) in \<open>auto simp: subset_iff\<close>)
  have "made st (fmt_uct v) upcase_table 0 t" using wrote_made'[OF w(2)] by simp
  then show ?thesis using w(1) by (simp add: uct_write_def)
qed

lemma rootdir_write_ok:
  assumes "fmt_params (mk_param st) v" "fmt_fits v" "ok (mk_io st)" "unat (dev_pos (mk_dev st)) = fmt_root v" "{..<v} \<subseteq> vol"
  shows "\<exists>st'. rootdir_write ops st = Some (0, st') \<and> made st (fmt_root v) (fmt_root_bytes (mk_param st)) 0 st'"
proof -
  note o = fmt_order[OF assms(2)] and e = root_entries[OF assms(1,2)]
  obtain l b u where x: "init_label_entry (mk_param st) = Some l" "init_bitmap_entry (mk_param st) = Some b" "init_upcase_entry (mk_param st) = Some u" using e by auto
  have len: "length (label_bytes l) = 32" "length (bitmap_bytes b) = 32" "length (upcase_bytes u) = 32" using e x by auto
  have sub: "{fmt_root v + a..<fmt_root v + a + 32} \<subseteq> vol" "fmt_root v + a + 32 \<le> 2 ^ 63" if "a \<le> 64" for a
    using that o assms(5) by (auto simp: subset_iff)
  have w0: "wrote st (fmt_root v) [] st" by (rule wrote_start) (use assms(3,4) in auto)
  obtain t1 where w1: "mk_write ops (label_bytes l) 32 st = Some (int 32, t1)" "wrote st (fmt_root v) ([] @ take 32 (label_bytes l)) t1"
    by (rule wrote_next[OF w0, of 32 "label_bytes l"]) (use sub[of 0] len in auto)
  obtain t2 where w2: "mk_write ops (bitmap_bytes b) 32 t1 = Some (int 32, t2)" "wrote st (fmt_root v) (([] @ take 32 (label_bytes l)) @ take 32 (bitmap_bytes b)) t2"
    by (rule wrote_next[OF w1(2), of 32 "bitmap_bytes b"]) (use sub[of 32] len in auto)
  obtain t3 where w3: "mk_write ops (upcase_bytes u) 32 t2 = Some (int 32, t3)" "wrote st (fmt_root v) ((([] @ take 32 (label_bytes l)) @ take 32 (bitmap_bytes b)) @ take 32 (upcase_bytes u)) t3"
    by (rule wrote_next[OF w2(2), of 32 "upcase_bytes u"]) (use sub[of 64] len in auto)
  have "made st (fmt_root v) (fmt_root_bytes (mk_param st)) 0 t3" using wrote_made'[OF w3(2)] by (simp add: fmt_root_bytes_def x len)
  moreover have "rootdir_write ops st = Some (0, t3)" by (simp add: rootdir_write_def x w1(1) w2(1) w3(1))
  ultimately show ?thesis by blast
qed

text \<open>The erasing pass.\<close>

lemma erase_blocks_ok:
  assumes "wrote st p xs st1" "i \<le> n \<or> 0 < n" "i mod 4096 = 0" "length xs = min i n" "{p..<p + n} \<subseteq> vol" "p + n \<le> 2 ^ 63"
  shows "\<exists>st2. erase_blocks ops (replicate 4096 0) (int n) (int i) st1 = Some (0, st2) \<and> wrote st p (xs @ replicate (n - i) 0) st2"
  using assms
proof (induction "n - i" arbitrary: i xs st1 rule: less_induct)
  case less
  show ?case
  proof (cases "i < n")
    case True
    define m where "m = min (n - i) 4096"
    have m: "nat (min (int n - int i) (4 * 1024)) = m" "m \<le> 4096" "i + m \<le> n" "0 < m" using True by (auto simp: m_def min_def)
    have l: "length xs = i" using less.prems(4) True by simp
    obtain st2 where w: "mk_write ops (replicate 4096 0) m st1 = Some (int m, st2)" "wrote st p (xs @ take m (replicate 4096 0)) st2"
      by (rule wrote_next[OF less.prems(1), of m "replicate 4096 0"]) (use less.prems(5,6) m l in \<open>auto simp: subset_iff\<close>)
    have w2: "wrote st p (xs @ replicate m 0) st2" using w(2) m(2) by (simp only: take_replicate min_absorb1)
    have mod: "(i + 4096) mod 4096 = 0" using less.prems(3) by simp
    have "\<exists>st3. erase_blocks ops (replicate 4096 0) (int n) (int (i + 4096)) st2 = Some (0, st3) \<and> wrote st p ((xs @ replicate m 0) @ replicate (n - (i + 4096)) 0) st3"
      by (rule less.hyps[OF _ w2 _ mod]) (use True less.prems(5,6) l in \<open>auto simp: m_def\<close>)
    moreover have "replicate m (0 :: u8) @ replicate (n - (i + 4096)) 0 = replicate (n - i) 0" by (simp add: replicate_add[symmetric] m_def min_def)
    ultimately show ?thesis using True m(1) w(1) by (subst erase_blocks.simps) (auto simp: add.commute simp del: erase_blocks.simps)
  next
    case False
    then show ?thesis using less.prems(1) by (subst erase_blocks.simps) simp
  qed
qed

text \<open>Seeking, and one object of either pass.\<close>

lemma mk_seek_ok: "mk_seek (int p) st = (True, st\<lparr>mk_dev := (mk_dev st)\<lparr>dev_pos := of_nat p\<rparr>\<rparr>)" if "p < 2 ^ 63"
proof -
  have "unat (of_nat p :: u64) = p" using that by (intro unat_of_nat_small) simp
  then have "(of_nat p :: u64) \<noteq> -1" using that by (auto simp: unsigned_minus_1_eq_mask mask_eq_exp_minus_1)
  then show ?thesis by (simp add: mk_seek_def exfat_seek_def)
qed

end

end
