(* ===== verification/Exfat_Grow.thy ===== *)
theory Exfat_Grow
  imports Exfat_Chain
begin

text \<open>
  Growing files: turning a contiguous file into a chain, the allocation loop with its roll-back when the
  volume is full, and what \<^verbatim>\<open>grow_file\<close> does to a file and to the rest of the volume.
\<close>

context exfat_volume
begin

lemma alloc_word: "i < unat (sb_cluster_count sb) \<Longrightarrow> unat (of_nat i + 2 :: u32) = i + 2"
  using count_le by (simp add: unat_word_ariths unat_of_nat)

lemma alloc_frame:
  assumes "vol_ok ef" "i < unat (cmap_size ef)"
  defines "ef' \<equiv> ef\<lparr>cmap_chunk := BMAP_SET (cmap_chunk ef) i, cmap_dirty := True\<rparr>"
  shows "fat_frame {} ef ef'" "used ef' j \<longleftrightarrow> used ef j \<or> j = i"
proof -
  have ok: "vol_ok ef'" using assms(1) by (auto simp: vol_ok_def map_ok_def ef'_def)
  then show "fat_frame {} ef ef'" by (auto simp: fat_frame_def meta_eq_def table_def data_def ef'_def)
  have "i < 64 * length (cmap_chunk ef)" using map_len[OF vol_okD(2)[OF assms(1)]] assms(2) by linarith
  then show "used ef' j \<longleftrightarrow> used ef j \<or> j = i" by (simp add: ef'_def used_bit_set)
qed

lemma allocate_ok:
  assumes "vol_ok ef"
  obtains (full) "free_count ef = 0" "allocate_cluster hint ef = Some (0xffffffff, ef)"
  | (found) c ef' where "allocate_cluster hint ef = Some (c, ef')" "data_cluster sb c" "\<not> used ef (idx c)" "fat_frame {} ef ef'"
      "\<And>j. used ef' j \<longleftrightarrow> used ef j \<or> j = idx c" "free_count ef = Suc (free_count ef')"
  using vol_okD(2)[OF assms]
proof (cases rule: allocate_cases[where hint = hint])
  case full
  have "free_count ef = 0" using full(1) by (auto simp: free_count_def)
  then show thesis using full(2) that(1) by blast
next
  case (found i)
  let ?ef = "ef\<lparr>cmap_chunk := BMAP_SET (cmap_chunk ef) i, cmap_dirty := True\<rparr>"
  have i: "i < unat (sb_cluster_count sb)" using found(1) vol_okD(4)[OF assms] by simp
  have c: "unat (of_nat i + 2 :: u32) = i + 2" by (rule alloc_word[OF i])
  note fr = alloc_frame[OF assms found(1)]
  have "{j. j < unat (cmap_size ef) \<and> \<not> used ef j} = insert i {j. j < unat (cmap_size ef) \<and> \<not> used ?ef j}"
    using found(1,2) fr(2) by auto
  moreover have "i \<notin> {j. j < unat (cmap_size ef) \<and> \<not> used ?ef j}" using fr(2) by simp
  ultimately have "free_count ef = Suc (free_count ?ef)" unfolding free_count_def by simp
  moreover have "data_cluster sb (of_nat i + 2)" "idx (of_nat i + 2) = i" using c i by (auto simp: data_cluster_def idx_def)
  ultimately show thesis using that(2)[of "of_nat i + 2" ?ef] found(2,4) fr by simp
qed

lemma end_invalid: "\<not> data_cluster sb 0xffffffff"
  using count_le by (simp add: data_cluster_def)

lemma contiguous_nth: "linked ef True cs \<Longrightarrow> i < length cs \<Longrightarrow> unat (cs ! i) = unat (hd cs) + i"
proof (induction i)
  case 0
  then show ?case by (simp add: hd_conv_nth)
next
  case (Suc i)
  then have "cs ! Suc i = cs ! i + 1" by (simp add: linked_def)
  then show ?case using Suc valid_Suc[OF linked_nth[OF Suc.prems(1), of i]] by simp
qed

lemma make_noncontiguous_loop_ok:
  assumes "vol_ok ef" "\<forall>n \<in> set ns. n < 2 ^ 32 \<and> data_cluster sb (of_nat n)" "distinct ns"
  shows "\<exists>ef'. make_noncontiguous_loop ops ns ef = Some (True, ef') \<and> fat_frame (of_nat ` set ns) ef ef' \<and> cmap_chunk ef' = cmap_chunk ef \<and>
    (\<forall>n \<in> set ns. table ef' (of_nat n) = of_nat n + 1)"
  using assms
proof (induction ns arbitrary: ef)
  case Nil
  then show ?case using fat_frame_refl by auto
next
  case (Cons n ns)
  then have v: "data_cluster sb (of_nat n)" by simp
  obtain ef1 where w: "set_next_cluster ops False (of_nat n) (of_nat n + 1) ef = Some (True, ef1)" "fat_frame {of_nat n} ef ef1"
    "cmap_chunk ef1 = cmap_chunk ef" "table ef1 (of_nat n) = of_nat n + 1"
    using set_next_any[OF Cons.prems(1) v, of False "of_nat n + 1"] by auto
  from Cons.IH[OF fat_frameD(1)[OF w(2)]] Cons.prems obtain ef' where
    r: "make_noncontiguous_loop ops ns ef1 = Some (True, ef')" "fat_frame (of_nat ` set ns) ef1 ef'" "cmap_chunk ef' = cmap_chunk ef1"
      "\<forall>n \<in> set ns. table ef' (of_nat n) = of_nat n + 1" by auto
  have "(of_nat n :: u32) \<notin> of_nat ` set ns"
  proof
    assume "(of_nat n :: u32) \<in> of_nat ` set ns"
    then obtain m where m: "m \<in> set ns" "(of_nat n :: u32) = of_nat m" by auto
    have "n < 2 ^ 32" "m < 2 ^ 32" using Cons.prems(2) m(1) by auto
    then have "n = m" using arg_cong[OF m(2), of unat] by (simp add: unat_of_nat take_bit_nat_eq_self_iff)
    then show False using m(1) Cons.prems(3) by simp
  qed
  then have "table ef' (of_nat n) = of_nat n + 1" using fat_frameD(2)[OF r(2) v] w(4) by simp
  moreover have "fat_frame (of_nat ` set (n # ns)) ef ef'" by (rule fat_frame_trans[OF w(2) r(2)]) auto
  ultimately show ?case using w(1,3) r(1,3,4) by simp
qed

lemma make_noncontiguous_ok:
  assumes "vol_ok ef" "linked ef True cs" "cs \<noteq> []"
  obtains ef' where "make_noncontiguous ops (hd cs) (last cs) ef = Some (True, ef')" "fat_frame (set cs) ef ef'"
    "cmap_chunk ef' = cmap_chunk ef" "linked ef' False cs"
proof -
  let ?ns = "[unat (hd cs)..<unat (last cs)]"
  have la: "unat (last cs) = unat (hd cs) + (length cs - 1)"
    using contiguous_nth[OF assms(2), of "length cs - 1"] assms(3) by (simp add: last_conv_nth)
  have el: "of_nat (unat (hd cs) + i) = cs ! i" if "i < length cs" for i
    unfolding contiguous_nth[OF assms(2) that, symmetric] by simp
  have in_ns: "\<exists>i. Suc i < length cs \<and> n = unat (hd cs) + i" if "n \<in> set ?ns" for n
    using that la assms(3) by (intro exI[of _ "n - unat (hd cs)"]) auto
  have m: "n < 2 ^ 32 \<and> (of_nat n :: u32) \<in> set cs" if "n \<in> set ?ns" for n
  proof -
    from in_ns[OF that] obtain i where i: "Suc i < length cs" "n = unat (hd cs) + i" by blast
    then have "n = unat (cs ! i)" "of_nat n = cs ! i" using contiguous_nth[OF assms(2), of i] el[of i] by auto
    then show ?thesis using i(1) unat_u32_bound[of "cs ! i"] by auto
  qed
  have v: "\<forall>n \<in> set ?ns. n < 2 ^ 32 \<and> data_cluster sb (of_nat n)" using m assms(2) by (auto simp: linked_def)
  obtain ef' where r: "make_noncontiguous_loop ops ?ns ef = Some (True, ef')" "fat_frame (of_nat ` set ?ns) ef ef'" "cmap_chunk ef' = cmap_chunk ef"
    "\<forall>n \<in> set ?ns. table ef' (of_nat n) = of_nat n + 1"
    using make_noncontiguous_loop_ok[OF assms(1) v] by auto
  have "linked ef' False cs"
    unfolding linked_def
  proof (intro conjI allI impI)
    fix i assume i: "Suc i < length cs"
    then have "unat (hd cs) + i \<in> set ?ns" using la by auto
    then have "table ef' (cs ! i) = cs ! i + 1" using r(4) el[of i] i by (metis Suc_lessD)
    then show "cs ! Suc i = (if False then cs ! i + 1 else table ef' (cs ! i))" using assms(2) i by (simp add: linked_def)
  qed (use assms(2) in \<open>auto simp: linked_def\<close>)
  moreover have "fat_frame (set cs) ef ef'"
    by (rule fat_frame_trans[OF r(2) fat_frame_refl[OF fat_frameD(1)[OF r(2)]], of "{}"]) (use m in auto)
  ultimately show thesis using that r(1,3) by (simp add: make_noncontiguous_def)
qed

section \<open>The allocation loop\<close>

lemma linked_snoc:
  assumes "linked ef b cs" "cs \<noteq> []" "data_cluster sb c" "c \<notin> set cs" "c = (if b then last cs + 1 else table ef (last cs))"
  shows "linked ef b (cs @ [c])"
  unfolding linked_def
proof (intro conjI allI impI)
  fix i assume i: "Suc i < length (cs @ [c])"
  show "(cs @ [c]) ! Suc i = (if b then (cs @ [c]) ! i + 1 else table ef ((cs @ [c]) ! i))"
  proof (cases "Suc i < length cs")
    case True
    then show ?thesis using assms(1) by (simp add: linked_def nth_append)
  next
    case False
    then have "i = length cs - 1" "Suc i = length cs" using i assms(2) by auto
    then show ?thesis using assms(2,5) by (simp add: nth_append last_conv_nth)
  qed
qed (use assms in \<open>auto simp: linked_def\<close>)

lemma file_at_snoc:
  assumes "file_at ef node cs" "cs \<noteq> []" "linked ef' (is_contiguous node') (cs @ [c])" "\<forall>d \<in> set (cs @ [c]). used ef' (idx d)"
    "start_cluster node' = start_cluster node" "fptr_index node' = fptr_index node" "fptr_cluster node' = fptr_cluster node"
  shows "file_at ef' node' (cs @ [c])"
  using assms by (auto simp: file_at_def nth_append)

lemma append_cluster:
  assumes "vol_ok ef" "file_at ef node cs" "cs \<noteq> []" "data_cluster sb c" "\<not> used ef (idx c)" "fat_frame {} ef ef1"
    "\<And>j. used ef1 j \<longleftrightarrow> used ef j \<or> j = idx c"
  obtains node2 ef2 ef3 where
    "(if c \<noteq> last cs + 1 \<and> is_contiguous node then
        map_option (\<lambda>(ok, ef2). (ok, if ok then node\<lparr>is_contiguous := False, is_dirty := True\<rparr> else node, ef2))
          (make_noncontiguous ops (start_cluster node) (last cs) ef1)
      else Some (True, node, ef1)) = Some (True, node2, ef2)"
    "set_next_cluster ops (is_contiguous node2) (last cs) c ef2 = Some (True, ef3)" "file_at ef3 node2 (cs @ [c])"
    "node_eq node node2" "fat_frame (set cs) ef1 ef3" "cmap_chunk ef3 = cmap_chunk ef1"
proof -
  note ok1 = fat_frameD(1)[OF assms(6)]
  have lk: "linked ef (is_contiguous node) cs" using assms(2) by (simp add: file_at_def)
  have l1: "linked ef1 (is_contiguous node) cs"
    by (rule linked_frame[OF lk]) (use fat_frameD(2)[OF assms(6)] linked_nth[OF lk] in auto)
  have c: "c \<notin> set cs" using assms(2,5) by (auto simp: file_at_def)
  have last: "data_cluster sb (last cs)" "last cs \<in> set cs" using lk assms(3) by (auto simp: linked_def)
  have us: "\<forall>d \<in> set (cs @ [c]). used ef1 (idx d)" using assms(2,7) by (auto simp: file_at_def)
  show thesis
  proof (cases "c = last cs + 1 \<and> is_contiguous node")
    case True
    have "linked ef1 (is_contiguous node) (cs @ [c])" by (rule linked_snoc[OF l1 assms(3,4) c]) (use True in simp)
    then have "file_at ef1 node (cs @ [c])" by (intro file_at_snoc[OF assms(2,3)] us) simp_all
    then show thesis using True that[of node ef1 ef1] fat_frame_refl[OF ok1] by (simp add: set_next_cluster_def)
  next
    case False
    obtain node2 ef2 where mk: "(if c \<noteq> last cs + 1 \<and> is_contiguous node then
        map_option (\<lambda>(ok, ef2). (ok, if ok then node\<lparr>is_contiguous := False, is_dirty := True\<rparr> else node, ef2))
          (make_noncontiguous ops (start_cluster node) (last cs) ef1)
      else Some (True, node, ef1)) = Some (True, node2, ef2)" "\<not> is_contiguous node2" "linked ef2 False cs" "fat_frame (set cs) ef1 ef2" "cmap_chunk ef2 = cmap_chunk ef1"
      "node_eq node node2" "start_cluster node2 = start_cluster node" "fptr_index node2 = fptr_index node" "fptr_cluster node2 = fptr_cluster node"
    proof (cases "is_contiguous node")
      case True
      have st: "start_cluster node = hd cs" using assms(2,3) by (simp add: file_at_def)
      obtain ef2 where "make_noncontiguous ops (hd cs) (last cs) ef1 = Some (True, ef2)" "fat_frame (set cs) ef1 ef2"
        "cmap_chunk ef2 = cmap_chunk ef1" "linked ef2 False cs"
        by (rule make_noncontiguous_ok[OF ok1 _ assms(3)]) (use l1 True in simp)
      then show ?thesis using that[of "node\<lparr>is_contiguous := False, is_dirty := True\<rparr>" ef2] True False st by (simp add: node_eq_def)
    next
      case nc: False
      then show ?thesis using that[of node ef1] l1 fat_frame_refl[OF ok1] by simp
    qed
    obtain ef3 where w: "set_next_cluster ops False (last cs) c ef2 = Some (True, ef3)" "fat_frame {last cs} ef2 ef3" "cmap_chunk ef3 = cmap_chunk ef2"
      "table ef3 (last cs) = c" using set_next_any[OF fat_frameD(1)[OF mk(4)] last(1), of False c] by auto
    have "linked ef3 False cs"
    proof (rule linked_frame[OF mk(3)])
      fix i assume "Suc i < length cs"
      then have "cs ! i \<noteq> last cs" using lk assms(3) by (simp add: linked_def last_conv_nth nth_eq_iff_index_eq)
      then show "table ef3 (cs ! i) = table ef2 (cs ! i)" using fat_frameD(2)[OF w(2) linked_nth[OF lk]] \<open>Suc i < length cs\<close> by simp
    qed
    then have "linked ef3 (is_contiguous node2) (cs @ [c])" using linked_snoc[OF _ assms(3,4) c, of ef3 False] w(4) mk(2) by simp
    then have "file_at ef3 node2 (cs @ [c])"
      by (rule file_at_snoc[OF assms(2,3)]) (use us w(3) mk in auto)
    moreover have "fat_frame (set cs) ef1 ef3" by (rule fat_frame_trans[OF mk(4) w(2)]) (use last(2) in auto)
    ultimately show thesis using that[OF mk(1)] w mk by simp
  qed
qed

definition grow_frame :: "u32 list \<Rightarrow> 's exfat \<Rightarrow> 's exfat \<Rightarrow> bool" where
  "grow_frame cs ef ef' \<longleftrightarrow> fat_frame (set cs \<union> {c. \<not> used ef (idx c)}) ef ef'"

definition grown :: "u32 list \<Rightarrow> u32 list \<Rightarrow> 's exfat \<Rightarrow> exfat_node \<Rightarrow> 's exfat \<Rightarrow> bool" where
  "grown cs new ef node' ef' \<longleftrightarrow> file_at ef' node' (cs @ new) \<and> (\<forall>c \<in> set new. \<not> used ef (idx c)) \<and>
     (\<forall>j. used ef' j \<longleftrightarrow> used ef j \<or> j \<in> idx ` set new)"

definition rolled_back :: "nat \<Rightarrow> u32 list \<Rightarrow> 's exfat \<Rightarrow> exfat_node \<Rightarrow> 's exfat \<Rightarrow> bool" where
  "rolled_back n cs ef node' ef' \<longleftrightarrow> file_at ef' node' (take n cs) \<and> ended ef' node' (take n cs) \<and>
     (\<forall>j. used ef' j \<longleftrightarrow> used ef j \<and> j \<notin> idx ` set (drop n cs))"

lemma grow_loop_ok:
  assumes "vol_ok ef" "file_at ef node cs" "cs \<noteq> []" "length cs = unat current + unat allocated" "unat allocated \<le> unat difference"
    "allocated = 0 \<Longrightarrow> ended ef node cs"
  shows "\<exists>r node' ef'. grow_loop ops current difference (last cs) allocated node ef = Some (r, node', ef') \<and> node_eq node node' \<and> grow_frame cs ef ef' \<and>
    (if unat difference - unat allocated \<le> free_count ef
     then \<exists>new. r = Inr (last (cs @ new)) \<and> length new = unat difference - unat allocated \<and> grown cs new ef node' ef'
     else r = Inl (-28) \<and> rolled_back (unat current) cs ef node' ef')"
  using assms
proof (induction "unat difference - unat allocated" arbitrary: allocated node ef cs)
  case 0
  then have "\<not> allocated < difference" by (simp add: word_less_nat_alt)
  then show ?case using 0 fat_frame_refl[OF 0(2)]
    by (subst grow_loop.simps) (auto simp: grown_def grow_frame_def intro: exI[of _ "[]"])
next
  case (Suc d)
  then have lt: "allocated < difference" by (simp add: word_less_nat_alt)
  have a1: "unat (allocated + 1) = unat allocated + 1"
    using lt unat_u32_bound[of difference] by (simp add: unat_word_ariths word_less_nat_alt)
  have lk: "linked ef (is_contiguous node) cs" using Suc.prems(2) by (simp add: file_at_def)
  show ?case
    using Suc.prems(1)
  proof (cases rule: allocate_ok[where hint = "last cs + 1"])
    case full
    show ?thesis
    proof (cases "allocated = 0")
      case True
      then have "grow_loop ops current difference (last cs) allocated node ef = Some (Inl (-28), node, ef)"
        using lt full(2) vol_okD(1)[OF Suc.prems(1)] end_invalid by (subst grow_loop.simps) (simp add: invalid_iff)
      then show ?thesis using True Suc full(1) fat_frame_refl[OF Suc.prems(1)] by (auto simp: rolled_back_def grow_frame_def)
    next
      case False
      then have al: "0 < unat allocated" by (simp add: unat_gt_0)
      have ca: "unat (current + allocated) = unat current + unat allocated"
        using linked_length[OF lk] count_le Suc.prems(4) by (subst unat_add_nowrap) auto
      obtain node' ef' where s: "shrink_file ops (current + allocated) allocated node ef = Some (0, node', ef')" "file_at ef' node' (take (unat current) cs)"
        "ended ef' node' (take (unat current) cs)" "node_eq node node'" "fat_frame (set cs) ef ef'" "\<forall>j. used ef' j \<longleftrightarrow> used ef j \<and> j \<notin> idx ` set (drop (unat current) cs)"
        using shrink_file_ok[OF Suc.prems(1,2), of "current + allocated" allocated] Suc.prems(4) al unfolding ca by auto
      have "grow_loop ops current difference (last cs) allocated node ef = Some (Inl (-28), node', ef')"
        using lt full(2) vol_okD(1)[OF Suc.prems(1)] end_invalid False s(1) by (subst grow_loop.simps) (simp add: invalid_iff)
      moreover have "grow_frame cs ef ef'" unfolding grow_frame_def
        by (rule fat_frame_trans[OF s(5) fat_frame_refl[OF fat_frameD(1)[OF s(5)]], of "{}"]) auto
      ultimately show ?thesis using Suc full(1) s by (auto simp: rolled_back_def)
    qed
  next
    case (found c ef1)
    obtain node2 ef2 ef3 where ap: "(if c \<noteq> last cs + 1 \<and> is_contiguous node then
        map_option (\<lambda>(ok, ef2). (ok, if ok then node\<lparr>is_contiguous := False, is_dirty := True\<rparr> else node, ef2))
          (make_noncontiguous ops (start_cluster node) (last cs) ef1)
      else Some (True, node, ef1)) = Some (True, node2, ef2)"
      "set_next_cluster ops (is_contiguous node2) (last cs) c ef2 = Some (True, ef3)" "file_at ef3 node2 (cs @ [c])"
      "node_eq node node2" "fat_frame (set cs) ef1 ef3" "cmap_chunk ef3 = cmap_chunk ef1"
      by (rule append_cluster[OF Suc.prems(1-3) found(2,3,4,5)])
    have step: "grow_loop ops current difference (last cs) allocated node ef = grow_loop ops current difference (last (cs @ [c])) (allocated + 1) node2 ef3"
      using lt found(1,2) ap(1,2) vol_okD(1)[OF fat_frameD(1)[OF found(4)]] by (subst grow_loop.simps) (simp add: invalid_iff)
    have us: "used ef3 j \<longleftrightarrow> used ef j \<or> j = idx c" for j using found(5) ap(6) by simp
    have fc: "free_count ef = Suc (free_count ef3)" using found(6) ap(5,6) fat_frameD(4)[OF ap(5)] by (simp add: free_count_def)
    have f3: "fat_frame (set cs) ef ef3" by (rule fat_frame_trans[OF found(4) ap(5)]) simp
    have "\<exists>r node' ef'. grow_loop ops current difference (last (cs @ [c])) (allocated + 1) node2 ef3 = Some (r, node', ef') \<and> node_eq node2 node' \<and> grow_frame (cs @ [c]) ef3 ef' \<and>
      (if unat difference - unat (allocated + 1) \<le> free_count ef3
       then \<exists>new. r = Inr (last ((cs @ [c]) @ new)) \<and> length new = unat difference - unat (allocated + 1) \<and> grown (cs @ [c]) new ef3 node' ef'
       else r = Inl (-28) \<and> rolled_back (unat current) (cs @ [c]) ef3 node' ef')"
      by (rule Suc.hyps(1)) (use Suc.hyps(2) Suc.prems(4,5) a1 ap(3) fat_frameD(1)[OF ap(5)] in \<open>auto simp: unat_eq_zero[symmetric] simp del: unat_eq_zero\<close>)
    then obtain r node' ef' where r: "grow_loop ops current difference (last (cs @ [c])) (allocated + 1) node2 ef3 = Some (r, node', ef')" "node_eq node2 node'" "grow_frame (cs @ [c]) ef3 ef'"
      "if unat difference - unat (allocated + 1) \<le> free_count ef3
       then \<exists>new. r = Inr (last ((cs @ [c]) @ new)) \<and> length new = unat difference - unat (allocated + 1) \<and> grown (cs @ [c]) new ef3 node' ef'
       else r = Inl (-28) \<and> rolled_back (unat current) (cs @ [c]) ef3 node' ef'" by blast
    have gf: "grow_frame cs ef ef'" using r(3) found(3) us unfolding grow_frame_def by (intro fat_frame_trans[OF f3]) auto
    have le: "unat difference - unat (allocated + 1) \<le> free_count ef3 \<longleftrightarrow> unat difference - unat allocated \<le> free_count ef"
      using Suc.hyps(2) a1 fc by linarith
    have "if unat difference - unat allocated \<le> free_count ef
     then \<exists>new. r = Inr (last (cs @ new)) \<and> length new = unat difference - unat allocated \<and> grown cs new ef node' ef'
     else r = Inl (-28) \<and> rolled_back (unat current) cs ef node' ef'"
    proof (cases "unat difference - unat allocated \<le> free_count ef")
      case True
      then obtain new where "r = Inr (last ((cs @ [c]) @ new))" "length new = unat difference - unat (allocated + 1)" "grown (cs @ [c]) new ef3 node' ef'"
        using r(4) le by auto
      then show ?thesis using True found(3) us a1 Suc.hyps(2) by (auto simp: grown_def intro!: exI[of _ "c # new"])
    next
      case False
      have cl: "unat current \<le> length cs" using Suc.prems(4) by simp
      have "idx c \<notin> idx ` set (drop (unat current) cs)" using found(3) Suc.prems(2) by (auto simp: file_at_def dest: in_set_dropD)
      then show ?thesis using False r(4) le us found(3) cl by (auto simp: rolled_back_def)
    qed
    then show ?thesis unfolding step r(1) using node_eq_trans[OF ap(4) r(2)] gf by auto
  qed
qed

lemma grow_frame_step: "fat_frame {} ef ef1 \<Longrightarrow> grow_frame cs ef1 ef' \<Longrightarrow> (\<And>c. \<not> used ef1 (idx c) \<Longrightarrow> \<not> used ef (idx c)) \<Longrightarrow>
    (\<And>c. c \<in> set cs \<Longrightarrow> c \<in> set ds \<or> \<not> used ef (idx c)) \<Longrightarrow> grow_frame ds ef ef'"
  unfolding grow_frame_def by (rule fat_frame_trans) auto

text \<open>The end of \<^verbatim>\<open>grow_file\<close>: terminating the chain.\<close>

lemma grow_end:
  assumes "vol_ok ef" "file_at ef node cs" "cs \<noteq> []"
  obtains ef' where "set_next_cluster ops (is_contiguous node) (last cs) 0xffffffff ef = Some (True, ef')" "fat_frame (set cs) ef ef'"
    "cmap_chunk ef' = cmap_chunk ef" "file_at ef' node cs" "ended ef' node cs"
proof -
  have lk: "linked ef (is_contiguous node) cs" using assms(2) by (simp add: file_at_def)
  have last: "data_cluster sb (last cs)" "last cs \<in> set cs" using lk assms(3) by (auto simp: linked_def)
  obtain ef' where w: "set_next_cluster ops (is_contiguous node) (last cs) 0xffffffff ef = Some (True, ef')" "fat_frame (if is_contiguous node then {} else {last cs}) ef ef'"
    "cmap_chunk ef' = cmap_chunk ef" "\<not> is_contiguous node \<Longrightarrow> table ef' (last cs) = 0xffffffff"
    by (rule set_next_any[OF assms(1) last(1), of "is_contiguous node" "0xffffffff"]) blast
  have "linked ef' (is_contiguous node) cs"
  proof (rule linked_frame[OF lk])
    fix i assume i: "Suc i < length cs"
    then have "cs ! i \<noteq> last cs" using lk assms(3) by (simp add: linked_def last_conv_nth nth_eq_iff_index_eq)
    then show "table ef' (cs ! i) = table ef (cs ! i)" using fat_frameD(2)[OF w(2) linked_nth[OF lk]] i by (simp split: if_splits)
  qed
  then have "file_at ef' node cs" using assms(2) w(3) by (simp add: file_at_def)
  moreover have "fat_frame (set cs) ef ef'"
    by (rule fat_frame_trans[OF w(2) fat_frame_refl[OF fat_frameD(1)[OF w(2)]], of "{}"]) (use last(2) in auto)
  moreover have "ended ef' node cs" using w(4) by (auto simp: ended_def)
  ultimately show thesis using that w(1,3) by blast
qed

lemma grow_file_ok:
  assumes "vol_ok ef" "file_at ef node cs" "ended ef node cs" "length cs = unat current" "0 < unat difference"
  shows "\<exists>rc node' ef'. grow_file ops current difference node ef = Some (rc, node', ef') \<and> node_eq node node' \<and> grow_frame cs ef ef' \<and>
    (if unat difference \<le> free_count ef
     then \<exists>new. rc = 0 \<and> length new = unat difference \<and> grown cs new ef node' ef' \<and> ended ef' node' (cs @ new)
     else rc = -28 \<and> file_at ef' node' cs \<and> ended ef' node' cs \<and> (\<forall>j. used ef' j \<longleftrightarrow> used ef j))"
proof -
  have d0: "difference \<noteq> 0" using assms(5) by auto
  have finish: ?thesis
    if first: "grow_first ops current node ef = Some (Inr (last xs, allocated), node1, ef1)" and ok: "vol_ok ef1" "file_at ef1 node1 xs" "xs \<noteq> []"
      and len: "length xs = unat current + unat allocated" "unat allocated \<le> unat difference" and xs: "xs = cs @ extra" "\<And>c. c \<in> set extra \<Longrightarrow> \<not> used ef (idx c)"
      and en: "allocated = 0 \<Longrightarrow> ended ef1 node1 xs" and eq: "node_eq node node1" and fr: "fat_frame {} ef ef1"
      and us: "\<And>j. used ef1 j \<longleftrightarrow> used ef j \<or> j \<in> idx ` set extra" and fc: "free_count ef = free_count ef1 + unat allocated"
    for xs extra allocated node1 ef1
  proof -
    obtain r node2 ef2 where g: "grow_loop ops current difference (last xs) allocated node1 ef1 = Some (r, node2, ef2)" "node_eq node1 node2" "grow_frame xs ef1 ef2"
      "if unat difference - unat allocated \<le> free_count ef1
       then \<exists>new. r = Inr (last (xs @ new)) \<and> length new = unat difference - unat allocated \<and> grown xs new ef1 node2 ef2
       else r = Inl (-28) \<and> rolled_back (unat current) xs ef1 node2 ef2"
      using grow_loop_ok[OF ok len en] by blast
    have gf: "grow_frame cs ef ef2" by (rule grow_frame_step[OF fr g(3)]) (use us xs in auto)
    have le: "unat difference - unat allocated \<le> free_count ef1 \<longleftrightarrow> unat difference \<le> free_count ef" using fc len(2) by linarith
    show ?thesis
    proof (cases "unat difference \<le> free_count ef")
      case True
      then obtain new where n: "r = Inr (last (xs @ new))" "length new = unat difference - unat allocated" "grown xs new ef1 node2 ef2" using g(4) le by auto
      have gs: "file_at ef2 node2 (xs @ new)" using n(3) by (simp add: grown_def)
      obtain ef3 where e: "set_next_cluster ops (is_contiguous node2) (last (xs @ new)) 0xffffffff ef2 = Some (True, ef3)" "fat_frame (set (xs @ new)) ef2 ef3"
        "cmap_chunk ef3 = cmap_chunk ef2" "file_at ef3 node2 (xs @ new)" "ended ef3 node2 (xs @ new)"
        by (rule grow_end[OF _ gs]) (use gf ok(3) in \<open>auto simp: grow_frame_def dest: fat_frameD\<close>)
      have "grow_file ops current difference node ef = Some (0, node2, ef3)" using d0 first g(1) n(1) e(1) by (simp add: grow_file_def)
      moreover have "grow_frame cs ef ef3" unfolding grow_frame_def
        by (rule fat_frame_trans[OF gf[unfolded grow_frame_def] e(2)]) (use n(3) us xs in \<open>auto simp: grown_def\<close>)
      moreover have "grown cs (extra @ new) ef node2 ef3" using n(3) e(3,4) us xs by (auto simp: grown_def)
      moreover have "length (extra @ new) = unat difference" using n(2) len xs(1) assms(4) by simp
      ultimately show ?thesis using True node_eq_trans[OF eq g(2)] e(5) xs(1) by (auto intro!: exI[of _ "extra @ new"])
    next
      case False
      then have rb: "r = Inl (-28)" "rolled_back (unat current) xs ef1 node2 ef2" using g(4) le by auto
      have "take (unat current) xs = cs" "drop (unat current) xs = extra" using xs(1) assms(4) by simp_all
      then show ?thesis using False rb d0 first g(1) node_eq_trans[OF eq g(2)] gf us xs(2) by (auto simp: rolled_back_def grow_file_def)
    qed
  qed
  show ?thesis
  proof (cases "cs = []")
    case False
    then have start: "start_cluster node \<noteq> 0" using assms(2) valid_nonzero[of "hd cs"] by (auto simp: file_at_def linked_def)
    have "1 \<le> unat current" using assms(4) False by (cases cs) auto
    then have cu: "unat (current - 1) = length cs - 1"
      using assms(4) by (subst unat_sub) (simp_all add: word_le_nat_alt)
    have lt: "unat (current - 1) < length cs" using cu False by (cases cs) auto
    have last: "cs ! (length cs - 1) = last cs" using False by (simp add: last_conv_nth)
    obtain ef1 where a: "exfat_advance_cluster ops (current - 1) node ef = Some (last cs, node\<lparr>fptr_index := current - 1, fptr_cluster := last cs\<rparr>, ef1)"
      "fat_frame {} ef ef1" "cmap_chunk ef1 = cmap_chunk ef"
      using advance_ok[OF assms(1,2) lt] unfolding cu last by blast
    let ?node = "node\<lparr>fptr_index := current - 1, fptr_cluster := last cs\<rparr>"
    have fa: "file_at ef ?node cs" using file_at_pointer[OF assms(2) lt] unfolding cu last by simp
    have en: "ended ef ?node cs" using assms(3) by (simp add: ended_def)
    have f1: "file_at ef1 ?node cs" "ended ef1 ?node cs"
      using file_at_frame[OF fa a(2)] en a(3) by auto
    have v: "data_cluster sb (last cs)" using assms(2) False by (auto simp: file_at_def linked_def)
    have g: "grow_first ops current node ef = Some (Inr (last cs, 0), ?node, ef1)"
      using start a(1) v vol_okD(1)[OF fat_frameD(1)[OF a(2)]] by (simp add: grow_first_def invalid_iff)
    show ?thesis
      by (rule finish[OF g fat_frameD(1)[OF a(2)] f1(1) False, where extra = "[]"])
        (use assms(4) f1(2) a fat_frameD(4)[OF a(2)] in \<open>auto simp: node_eq_def free_count_def\<close>)
  next
    case True
    have st: "start_cluster node = 0" "fptr_index node = 0" using assms(2) True by (auto simp: file_at_def)
    show ?thesis
      using assms(1)
    proof (cases rule: allocate_ok[where hint = 0])
      case full
      then have "grow_first ops current node ef = Some (Inl (-28), node, ef)"
        using st vol_okD(1)[OF assms(1)] end_invalid by (simp add: grow_first_def invalid_iff)
      then show ?thesis using full(1) assms fat_frame_refl[OF assms(1)] d0 by (simp add: grow_file_def grow_frame_def)
    next
      case (found c ef1)
      let ?node = "node\<lparr>fptr_cluster := c, start_cluster := c, is_contiguous := True\<rparr>"
      have g: "grow_first ops current node ef = Some (Inr (last [c], 1), ?node, ef1)"
        using st found(1,2) vol_okD(1)[OF fat_frameD(1)[OF found(4)]] by (simp add: grow_first_def invalid_iff)
      have f1: "file_at ef1 ?node [c]" using found(2,5) st by (simp add: file_at_def linked_def)
      show ?thesis
        by (rule finish[OF g fat_frameD(1)[OF found(4)] f1, where extra = "[c]"])
          (use assms(4,5) True found in \<open>auto simp: node_eq_def\<close>)
    qed
  qed
qed

end

end
