(* ===== verification/Exfat_Truncate.thy ===== *)
theory Exfat_Truncate
  imports Exfat_Grow
begin

text \<open>
  The contents of files.  A file is an array of bytes, stored cluster by cluster, in which everything
  from \<^verbatim>\<open>valid_size\<close> on reads as zero; erasing and truncating are described on that array.
\<close>

lemma or_mask_nat: "(x :: nat) OR mask k = (x div 2 ^ k) * 2 ^ k + mask k"
proof -
  have "push_bit k (x div 2 ^ k) + mask k = push_bit k (x div 2 ^ k) OR mask k"
    by (rule disjunctive_add) (auto simp: bit_push_bit_iff bit_mask_iff)
  moreover have "x OR mask k = push_bit k (x div 2 ^ k) OR mask k"
    unfolding drop_bit_eq_div[symmetric] by (rule bit_eqI) (auto simp: bit_or_iff bit_push_bit_iff bit_mask_iff bit_drop_bit_eq)
  ultimately show ?thesis by (simp add: push_bit_eq_mult)
qed

lemma next_multiple: "Suc (q div c) * c - q = c - q mod (c :: nat)"
  using div_mult_mod_eq[of q c] unfolding mult_Suc by linarith

text \<open>An array of bytes cut or filled up with zeros to a length.\<close>

definition resize :: "nat \<Rightarrow> bytes \<Rightarrow> bytes" where
  "resize n bs = take n bs @ replicate (n - length bs) 0"

lemma resize_nth: "k < n \<Longrightarrow> resize n bs ! k = (if k < length bs then bs ! k else 0)"
  by (auto simp: resize_def nth_append)

lemma length_resize [simp]: "length (resize n bs) = n"
  by (simp add: resize_def)

context exfat_volume
begin

definition mounted :: "'s exfat \<Rightarrow> bool" where
  "mounted ef \<longleftrightarrow> vol_ok ef \<and> zero_cluster ef = replicate (clus_size sb) 0"

lemma mounted_frame: "mounted ef \<Longrightarrow> fat_frame S ef ef' \<Longrightarrow> mounted ef'"
  by (simp add: mounted_def fat_frame_def meta_eq_def)

section \<open>Writing into clusters\<close>

definition content :: "'s exfat \<Rightarrow> u32 list \<Rightarrow> nat \<Rightarrow> u8" where
  "content ef cs k = data ef (cs ! (k div clus_size sb)) (k mod clus_size sb)"

text \<open>Bytes \<open>bs\<close> have been stored at position \<open>p\<close> of a file, and nothing else has changed.\<close>

definition stored :: "u32 list \<Rightarrow> nat \<Rightarrow> bytes \<Rightarrow> 's exfat \<Rightarrow> 's exfat \<Rightarrow> bool" where
  "stored cs p bs ef ef' \<longleftrightarrow> vol_ok ef' \<and> meta_eq ef ef' \<and> cmap_chunk ef' = cmap_chunk ef \<and>
     (\<forall>c. data_cluster sb c \<longrightarrow> table ef' c = table ef c \<and> (c \<notin> set cs \<longrightarrow> (\<forall>k < clus_size sb. data ef' c k = data ef c k))) \<and>
     (\<forall>k < length cs * clus_size sb. content ef' cs k = (if p \<le> k \<and> k < p + length bs then bs ! (k - p) else content ef cs k))"

lemma stored_refl: "vol_ok ef \<Longrightarrow> stored cs p [] ef ef"
  by (auto simp: stored_def meta_eq_def)

lemma stored_trans: "stored cs p xs ef ef1 \<Longrightarrow> stored cs (p + length xs) ys ef1 ef2 \<Longrightarrow> stored cs p (xs @ ys) ef ef2"
  by (auto simp: stored_def meta_eq_def nth_append)

lemma stored_frame: "fat_frame {} ef ef1 \<Longrightarrow> cmap_chunk ef1 = cmap_chunk ef \<Longrightarrow> linked ef b cs \<Longrightarrow> stored cs p [] ef ef1"
proof -
  assume a: "fat_frame {} ef ef1" "cmap_chunk ef1 = cmap_chunk ef" "linked ef b cs"
  have "content ef1 cs k = content ef cs k" if "k < length cs * clus_size sb" for k
    unfolding content_def by (rule fat_frameD(3)[OF a(1) linked_nth[OF a(3)]]) (use that clus_pos in \<open>auto simp: less_mult_imp_div_less\<close>)
  with a show ?thesis by (auto simp: stored_def fat_frame_def)
qed

lemma linked_stored: "stored cs' p bs ef ef' \<Longrightarrow> linked ef b cs \<Longrightarrow> linked ef' b cs"
  by (rule linked_frame) (auto simp: stored_def linked_nth)

lemma file_at_stored: "stored cs' p bs ef ef' \<Longrightarrow> file_at ef node cs \<Longrightarrow> file_at ef' node cs"
proof -
  assume a: "stored cs' p bs ef ef'" "file_at ef node cs"
  from a(2) have "linked ef' (is_contiguous node) cs" by (intro linked_stored[OF a(1)]) (simp add: file_at_def)
  moreover have "cmap_chunk ef' = cmap_chunk ef" using a(1) by (simp add: stored_def)
  ultimately show ?thesis using a(2) by (simp add: file_at_def)
qed

lemma ended_stored: "stored cs' p bs ef ef' \<Longrightarrow> file_at ef node cs \<Longrightarrow> ended ef node cs \<Longrightarrow> ended ef' node cs"
  by (cases "cs = []") (auto simp: ended_def stored_def file_at_def linked_def)

lemma data_position:
  assumes "data_cluster sb c" "data_cluster sb d" "k < clus_size sb" "m < clus_size sb" "clus_off sb c + k = clus_off sb d + m"
  shows "c = d \<and> k = m"
proof -
  have e: "(unat c - 2) * clus_size sb + k = (unat d - 2) * clus_size sb + m" using assms(5) by (simp add: clus_off_def)
  have "((unat c - 2) * clus_size sb + k) div clus_size sb = unat c - 2" "((unat d - 2) * clus_size sb + m) div clus_size sb = unat d - 2"
    using assms(3,4) by simp_all
  then have "unat c - 2 = unat d - 2" using e by simp
  then show ?thesis using e assms(1,2) idx_inj[OF assms(1,2)] by (simp add: idx_def)
qed

lemma cell_iff:
  assumes "i < length cs" "p + n \<le> clus_size sb"
  shows "i * clus_size sb + p \<le> k \<and> k < i * clus_size sb + p + n \<longleftrightarrow> k div clus_size sb = i \<and> p \<le> k mod clus_size sb \<and> k mod clus_size sb < p + n"
proof -
  have k: "k = k div clus_size sb * clus_size sb + k mod clus_size sb" by simp
  have "k mod clus_size sb < clus_size sb" using clus_pos by simp
  show ?thesis
  proof
    assume a: "i * clus_size sb + p \<le> k \<and> k < i * clus_size sb + p + n"
    then have "k div clus_size sb = i" using assms(2) by (intro div_nat_eqI) (auto simp: algebra_simps)
    then show "k div clus_size sb = i \<and> p \<le> k mod clus_size sb \<and> k mod clus_size sb < p + n" using a k by (metis add.assoc add_le_cancel_left add_less_cancel_left)
  next
    assume a: "k div clus_size sb = i \<and> p \<le> k mod clus_size sb \<and> k mod clus_size sb < p + n"
    then show "i * clus_size sb + p \<le> k \<and> k < i * clus_size sb + p + n" using k by (metis add.assoc add_le_cancel_left add_less_cancel_left)
  qed
qed

lemma store_cluster:
  assumes "vol_ok ef" "linked ef b cs" "i < length cs" "p + n \<le> clus_size sb" "bi + n \<le> length buf" "unat off = clus_off sb (cs ! i) + p"
  obtains io' where "exfat_pwrite ops buf bi n off (ef_io ef) = Some (int n, io')" "stored cs (i * clus_size sb + p) (buf_get n buf bi) ef (ef\<lparr>ef_io := io'\<rparr>)"
proof -
  let ?c = "cs ! i"
  have v: "data_cluster sb ?c" by (rule linked_nth[OF assms(2,3)])
  have sub: "{unat off..<unat off + n} \<subseteq> vol"
  proof
    fix q assume "q \<in> {unat off..<unat off + n}"
    then have "q = clus_off sb ?c + (q - clus_off sb ?c)" "q - clus_off sb ?c < clus_size sb" using assms(4,6) by auto
    then show "q \<in> vol" using data_bound(1)[OF v] by metis
  qed
  obtain io' where w: "exfat_pwrite ops buf bi n off (ef_io ef) = Some (int n, io')" "ok io'" "img io' = overwrite (img (ef_io ef)) (unat off) (buf_get n buf bi)"
    using pwrite_law[OF vol_okD(3)[OF assms(1)] sub assms(5)] by blast
  let ?ef = "ef\<lparr>ef_io := io'\<rparr>" and ?bs = "buf_get n buf bi"
  have lb: "length ?bs = n" using assms(5) by simp
  have tab: "table ?ef d = table ef d" if "data_cluster sb d" for d
  proof -
    have "fat_pos sb d + 4 \<le> unat off" using fat_bound(3)[OF that] assms(6) by (simp add: clus_off_def)
    then have "map (overwrite (img (ef_io ef)) (unat off) ?bs) [fat_pos sb d..<fat_pos sb d + 4] = map (img (ef_io ef)) [fat_pos sb d..<fat_pos sb d + 4]"
      by (intro map_overwrite_other) simp
    then show ?thesis using w(3) by (simp add: table_def del: map_eq_conv)
  qed
  have dat: "data ?ef d k = (if d = ?c \<and> p \<le> k \<and> k < p + n then ?bs ! (k - p) else data ef d k)" if d: "data_cluster sb d" and k: "k < clus_size sb" for d k
  proof (cases "unat off \<le> clus_off sb d + k \<and> clus_off sb d + k < unat off + n")
    case True
    then have "clus_off sb d + k = clus_off sb ?c + (clus_off sb d + k - clus_off sb ?c)" "clus_off sb d + k - clus_off sb ?c < clus_size sb"
      using assms(4,6) by auto
    from data_position[OF d v k this(2) this(1)] have "d = ?c" by blast
    then show ?thesis using True w(3) lb assms(6) by (simp add: data_def overwrite_def)
  next
    case False
    then have "\<not> (d = ?c \<and> p \<le> k \<and> k < p + n)" using assms(6) by auto
    moreover have "overwrite (img (ef_io ef)) (unat off) ?bs (clus_off sb d + k) = img (ef_io ef) (clus_off sb d + k)"
      using False lb by (auto simp: overwrite_def)
    ultimately show ?thesis using w(3) by (auto simp: data_def)
  qed
  have "content ?ef cs k = (if i * clus_size sb + p \<le> k \<and> k < i * clus_size sb + p + length ?bs then ?bs ! (k - (i * clus_size sb + p)) else content ef cs k)"
    if k: "k < length cs * clus_size sb" for k
  proof -
    have kl: "k div clus_size sb < length cs" "k mod clus_size sb < clus_size sb" using k clus_pos by (simp_all add: less_mult_imp_div_less)
    have eq: "cs ! (k div clus_size sb) = ?c \<longleftrightarrow> k div clus_size sb = i" using assms(2,3) kl(1) by (simp add: linked_def nth_eq_iff_index_eq)
    have "k - (i * clus_size sb + p) = k mod clus_size sb - p" if "k div clus_size sb = i"
      using that div_mult_mod_eq[of k "clus_size sb"] by (metis add_diff_cancel_left)
    then show ?thesis
      unfolding content_def lb dat[OF linked_nth[OF assms(2) kl(1)] kl(2)] cell_iff[OF assms(3,4)] eq by auto
  qed
  moreover have "data ?ef d k = data ef d k" if "data_cluster sb d" "d \<notin> set cs" "k < clus_size sb" for d k
    using dat[OF that(1,3)] that(2) assms(3) by auto
  moreover have "vol_ok ?ef" using assms(1) w(2) by (auto simp: vol_ok_def map_ok_def)
  ultimately have "stored cs (i * clus_size sb + p) ?bs ef ?ef" using tab by (simp add: stored_def meta_eq_def)
  with w(1) that show thesis by blast
qed

section \<open>Erasing\<close>

lemma erase_raw_ok:
  assumes "mounted ef" "linked ef b cs" "i < length cs" "p + unat n \<le> clus_size sb" "unat off = clus_off sb (cs ! i) + p"
  obtains ef' where "erase_raw ops n off ef = Some (True, ef')" "stored cs (i * clus_size sb + p) (replicate (unat n) 0) ef ef'"
proof -
  have z: "zero_cluster ef = replicate (clus_size sb) 0" using assms(1) by (simp add: mounted_def)
  obtain io' where w: "exfat_pwrite ops (zero_cluster ef) 0 (unat n) off (ef_io ef) = Some (int (unat n), io')"
    "stored cs (i * clus_size sb + p) (buf_get (unat n) (zero_cluster ef) 0) ef (ef\<lparr>ef_io := io'\<rparr>)"
    by (rule store_cluster[of ef b cs i p "unat n" 0 "zero_cluster ef" off]) (use assms z in \<open>auto simp: mounted_def\<close>)
  have "buf_get (unat n) (zero_cluster ef) 0 = replicate (unat n) 0" using assms(4) by (simp add: z buf_get_def min_absorb1)
  with w that[of "ef\<lparr>ef_io := io'\<rparr>"] show thesis by (simp add: erase_raw_def)
qed

lemma mounted_stored: "mounted ef \<Longrightarrow> stored cs p bs ef ef' \<Longrightarrow> mounted ef'"
  by (simp add: mounted_def stored_def meta_eq_def)

lemma erase_loop_ok:
  assumes "mounted ef" "linked ef (is_contiguous node) cs" "i < length cs" "unat bound = Suc i * clus_size sb" "unat stop \<le> length cs * clus_size sb" "unat stop < 2 ^ 63"
  shows "\<exists>ef' m. erase_loop ops (cs ! i) bound stop node ef = Some (0, ef') \<and> stored cs (Suc i * clus_size sb) (replicate m 0) ef ef' \<and>
    unat stop \<le> Suc i * clus_size sb + m"
  using assms
proof (induction "length cs - i" arbitrary: i bound ef)
  case 0
  then show ?case by simp
next
  case (Suc d)
  note vo = Suc.prems(1)[unfolded mounted_def, THEN conjunct1]
  show ?case
  proof (cases "bound < stop")
    case False
    then have "erase_loop ops (cs ! i) bound stop node ef = Some (0, ef)" by (subst erase_loop.simps) simp
    then show ?thesis using False Suc.prems(4) stored_refl[OF vo]
      by (intro exI[of _ ef] exI[of _ 0]) (auto simp: word_less_nat_alt)
  next
    case True
    then have "Suc i * clus_size sb < length cs * clus_size sb" using Suc.prems(4,5) by (simp add: word_less_nat_alt)
    then have i: "Suc i < length cs" using mult_less_cancel2 by blast
    have v: "data_cluster sb (cs ! i)" "data_cluster sb (cs ! Suc i)" using linked_nth[OF Suc.prems(2)] i by auto
    obtain ef1 where n: "exfat_next_cluster ops node (cs ! i) ef = Some (if is_contiguous node then cs ! i + 1 else table ef (cs ! i), ef1)"
      "fat_frame {} ef ef1" "cmap_chunk ef1 = cmap_chunk ef" by (rule next_cluster_any[OF vo v(1), of node])
    have nx: "(if is_contiguous node then cs ! i + 1 else table ef (cs ! i)) = cs ! Suc i" using Suc.prems(2) i by (auto simp: linked_def)
    have s1: "stored cs (Suc i * clus_size sb) [] ef ef1" by (rule stored_frame[OF n(2,3) Suc.prems(2)])
    have m1: "mounted ef1" by (rule mounted_frame[OF Suc.prems(1) n(2)])
    have l1: "linked ef1 (is_contiguous node) cs" by (rule linked_stored[OF s1 Suc.prems(2)])
    obtain off where o: "exfat_c2o sb (cs ! Suc i) = Some off" "unat off = clus_off sb (cs ! Suc i)" by (rule c2o_eq[OF v(2)])
    obtain ef2 where e: "erase_raw ops (ucast (CLUSTER_SIZE sb)) off ef1 = Some (True, ef2)" "stored cs (Suc i * clus_size sb + 0) (replicate (clus_size sb) 0) ef1 ef2"
      using erase_raw_ok[OF m1 l1 i, of 0 "ucast (CLUSTER_SIZE sb)" off] o(2) by (auto simp: CLUSTER_SIZE_eq)
    have sb: "ef_sb ef1 = sb" "ef_sb ef2 = sb" using fat_frameD(1)[OF n(2)] e(2) by (auto simp: stored_def vol_ok_def)
    let ?b = "bound + ucast (CLUSTER_SIZE sb)"
    have step: "erase_loop ops (cs ! i) bound stop node ef = erase_loop ops (cs ! Suc i) ?b stop node ef2"
      using True n(1) nx o(1) e(1) v(2) sb by (subst erase_loop.simps) (simp add: invalid_iff)
    have b: "unat ?b = Suc (Suc i) * clus_size sb"
      using True Suc.prems(4,6) clus_pos(2) by (subst unat_add_nowrap) (auto simp: CLUSTER_SIZE_eq word_less_nat_alt)
    have "\<exists>ef' m. erase_loop ops (cs ! Suc i) ?b stop node ef2 = Some (0, ef') \<and> stored cs (Suc (Suc i) * clus_size sb) (replicate m 0) ef2 ef' \<and>
        unat stop \<le> Suc (Suc i) * clus_size sb + m"
      by (rule Suc.hyps(1)) (use Suc.hyps(2) i b Suc.prems(5,6) mounted_stored[OF m1 e(2)] linked_stored[OF e(2) l1] in auto)
    then obtain ef' m where r: "erase_loop ops (cs ! Suc i) ?b stop node ef2 = Some (0, ef')" "stored cs (Suc (Suc i) * clus_size sb) (replicate m 0) ef2 ef'"
      "unat stop \<le> Suc (Suc i) * clus_size sb + m" by blast
    have s2: "stored cs (Suc i * clus_size sb) (replicate (clus_size sb) 0) ef ef2"
      using stored_trans[OF s1, of "replicate (clus_size sb) 0" ef2] e(2) by simp
    have "stored cs (Suc i * clus_size sb) (replicate (clus_size sb) 0 @ replicate m 0) ef ef'"
      by (rule stored_trans[OF s2]) (use r(2) in \<open>simp add: ac_simps\<close>)
    then show ?thesis unfolding step r(1) using r(3) by (intro exI[of _ ef'] exI[of _ "clus_size sb + m"]) (simp add: replicate_add)
  qed
qed

lemma boundary_eq:
  assumes "unat start < 2 ^ 63"
  shows "unat ((start OR (ucast (CLUSTER_SIZE sb) - 1)) + 1 :: u64) = Suc (unat start div clus_size sb) * clus_size sb"
proof -
  let ?k = "unat (sb_sector_bits sb) + unat (sb_spc_bits sb)"
  have "unat (ucast (CLUSTER_SIZE sb) - 1 :: u64) = clus_size sb - 1"
    using clus_pos(1) by (subst unat_sub) (auto simp: CLUSTER_SIZE_eq word_le_nat_alt)
  then have "unat (ucast (CLUSTER_SIZE sb) - 1 :: u64) = mask ?k" by (simp add: clus_size_def mask_eq_exp_minus_1)
  then have "unat (start OR (ucast (CLUSTER_SIZE sb) - 1)) = unat start OR mask ?k" unfolding unsigned_or_eq by simp
  then have u: "unat (start OR (ucast (CLUSTER_SIZE sb) - 1)) = unat start div clus_size sb * clus_size sb + (clus_size sb - 1)"
    unfolding or_mask_nat by (simp add: clus_size_def mask_eq_exp_minus_1)
  have "unat start div clus_size sb * clus_size sb + (clus_size sb - 1) + 1 \<le> unat start + clus_size sb"
    using div_times_less_eq_dividend[of "unat start" "clus_size sb"] clus_pos(1) by linarith
  also have "\<dots> < 2 ^ 63 + 2 ^ 26" using assms clus_pos(2) by simp
  also have "\<dots> \<le> 2 ^ 64" by simp
  finally have "unat (start OR (ucast (CLUSTER_SIZE sb) - 1)) + 1 < 2 ^ 64" unfolding u .
  then have "unat ((start OR (ucast (CLUSTER_SIZE sb) - 1)) + 1) = unat (start OR (ucast (CLUSTER_SIZE sb) - 1)) + 1"
    by (subst unat_add_nowrap) auto
  then show ?thesis using u clus_pos(1) by simp
qed

lemma erase_range_ok:
  assumes "mounted ef" "file_at ef node cs" "unat stop \<le> length cs * clus_size sb" "unat stop < 2 ^ 63" "length cs < 2 ^ 32"
  obtains node' ef' m where "erase_range ops start stop node ef = Some (0, node', ef')" "stored cs (unat start) (replicate m 0) ef ef'"
    "unat stop \<le> unat start + m" "file_at ef' node' cs" "node_eq node node'" "is_contiguous node' = is_contiguous node"
proof (cases "start \<ge> stop")
  case True
  then show thesis using that[of node ef 0] assms(1,2) stored_refl by (auto simp: erase_range_def mounted_def word_le_nat_alt)
next
  case False
  let ?cs = "ucast (CLUSTER_SIZE sb) :: u64"
  have lt: "unat start < unat stop" using False by (simp add: word_le_nat_alt)
  note vo = assms(1)[unfolded mounted_def, THEN conjunct1]
  let ?i = "unat start div clus_size sb" and ?p = "unat start mod clus_size sb"
  have sp: "unat start = ?i * clus_size sb + ?p" "?p < clus_size sb" using clus_pos(1) by simp_all
  have i: "?i < length cs" using lt assms(3) by (simp add: less_mult_imp_div_less)
  have cnt: "unat (ucast (start div ?cs) :: u32) = ?i"
    using i assms(5) by (subst unat_ucast_64_32) (auto simp: unat_div CLUSTER_SIZE_eq)
  obtain ef1 where a: "exfat_advance_cluster ops (ucast (start div ?cs)) node ef =
      Some (cs ! ?i, node\<lparr>fptr_index := ucast (start div ?cs), fptr_cluster := cs ! ?i\<rparr>, ef1)" "fat_frame {} ef ef1" "cmap_chunk ef1 = cmap_chunk ef"
    using advance_ok[OF vo assms(2), of "ucast (start div ?cs)"] i unfolding cnt by blast
  let ?node = "node\<lparr>fptr_index := ucast (start div ?cs), fptr_cluster := cs ! ?i\<rparr>"
  have fa: "file_at ef ?node cs" using file_at_pointer[OF assms(2), of "ucast (start div ?cs)"] i unfolding cnt by simp
  have lk: "linked ef (is_contiguous node) cs" using assms(2) by (simp add: file_at_def)
  have s1: "stored cs (unat start) [] ef ef1" by (rule stored_frame[OF a(2,3) lk])
  have m1: "mounted ef1" by (rule mounted_frame[OF assms(1) a(2)])
  have l1: "linked ef1 (is_contiguous ?node) cs" using linked_stored[OF s1 lk] by simp
  have v: "data_cluster sb (cs ! ?i)" by (rule linked_nth[OF lk i])
  obtain off where o: "exfat_c2o sb (cs ! ?i) = Some off" "unat off = clus_off sb (cs ! ?i)" by (rule c2o_eq[OF v])
  let ?b = "(start OR (?cs - 1)) + 1"
  have b: "unat ?b = Suc ?i * clus_size sb" by (rule boundary_eq) (use lt assms(4) in simp)
  have sle: "unat start \<le> Suc ?i * clus_size sb" using sp by (metis add_le_cancel_left mult_Suc add.commute less_imp_le)
  from this have le: "start \<le> min ?b stop" using lt b by (auto simp: min_def word_le_nat_alt)
  have n: "unat (min ?b stop - start) = min (Suc ?i * clus_size sb) (unat stop) - unat start"
    using le b by (subst unat_sub) (auto simp: min_def word_le_nat_alt)
  have off2: "unat (off + start mod ?cs) = clus_off sb (cs ! ?i) + ?p"
    using data_bound(2)[OF v sp(2)] o(2) by (subst unat_add_nowrap) (auto simp: unat_mod CLUSTER_SIZE_eq)
  have pn: "?p + unat (min ?b stop - start) \<le> clus_size sb" using n next_multiple[of "unat start" "clus_size sb"] sp(2) by linarith
  obtain ef2 where e: "erase_raw ops (min ?b stop - start) (off + start mod ?cs) ef1 = Some (True, ef2)"
    "stored cs (unat start) (replicate (unat (min ?b stop - start)) 0) ef1 ef2"
    using erase_raw_ok[OF m1 l1 i pn off2] sp(1) by metis
  have s2: "stored cs (unat start) (replicate (unat (min ?b stop - start)) 0) ef ef2" using stored_trans[OF s1, of "replicate (unat (min ?b stop - start)) 0" ef2] e(2) by simp
  obtain ef3 m where r: "erase_loop ops (cs ! ?i) ?b stop ?node ef2 = Some (0, ef3)" "stored cs (Suc ?i * clus_size sb) (replicate m 0) ef2 ef3" "unat stop \<le> Suc ?i * clus_size sb + m"
    using erase_loop_ok[OF mounted_stored[OF m1 e(2)] linked_stored[OF e(2) l1] i b assms(3,4)] by blast
  have sb: "ef_sb ef = sb" "ef_sb ef1 = sb" using vo fat_frameD(1)[OF a(2)] by (auto simp: vol_ok_def)
  have eq: "erase_range ops start stop node ef = Some (0, ?node, ef3)"
    using False a(1) v o(1) e(1) r(1) unfolding erase_range_def Let_def sb by (simp add: invalid_iff sb)
  have f3: "file_at ef3 ?node cs" using file_at_stored[OF r(2) file_at_stored[OF s2 fa]] .
  show thesis
  proof (cases "Suc ?i * clus_size sb < unat stop")
    case True
    then have "min (Suc ?i * clus_size sb) (unat stop) = Suc ?i * clus_size sb" by linarith
    then have k: "unat start + unat (min ?b stop - start) = Suc ?i * clus_size sb" using n sle by linarith
    have "stored cs (unat start) (replicate (unat (min ?b stop - start)) 0 @ replicate m 0) ef ef3"
      by (rule stored_trans[OF s2]) (use k r(2) in simp)
    then show thesis using k r(3) eq f3
      by (intro that[of ?node ef3 "unat (min ?b stop - start) + m"]) (simp_all add: replicate_add node_eq_def)
  next
    case F: False
    then have "\<not> ?b < stop" using b by (simp add: word_less_nat_alt)
    then have "ef3 = ef2" using r(1) by (subst (asm) erase_loop.simps) simp
    then show thesis using that[of ?node ef3 "unat (min ?b stop - start)"] s2 eq f3 F n lt by (auto simp: node_eq_def)
  qed
qed

section \<open>Changing the number of clusters\<close>

text \<open>The clusters of a file have changed from \<open>cs\<close> to \<open>cs'\<close>.\<close>

definition moved :: "u32 list \<Rightarrow> u32 list \<Rightarrow> 's exfat \<Rightarrow> 's exfat \<Rightarrow> bool" where
  "moved cs cs' ef ef' \<longleftrightarrow> (\<forall>j. used ef' j \<longleftrightarrow> (used ef j \<and> j \<notin> idx ` set cs) \<or> j \<in> idx ` set cs') \<and>
     (\<forall>c \<in> set cs'. c \<in> set cs \<or> \<not> used ef (idx c)) \<and> (\<forall>i < min (length cs) (length cs'). cs' ! i = cs ! i)"

lemma moved_refl: "file_at ef node cs \<Longrightarrow> (\<And>j. used ef' j \<longleftrightarrow> used ef j) \<Longrightarrow> moved cs cs ef ef'"
  by (auto simp: moved_def file_at_def)

definition change_clusters :: "u32 \<Rightarrow> u32 \<Rightarrow> exfat_node \<Rightarrow> 's exfat \<Rightarrow> (int \<times> exfat_node \<times> 's exfat) option" where
  "change_clusters c1 c2 node ef =
     (if c1 < c2 then grow_file ops c1 (c2 - c1) node ef
      else if c1 > c2 then shrink_file ops c1 (c1 - c2) node ef
      else Some (0, node, ef))"

lemma change_clusters_ok:
  assumes "vol_ok ef" "file_at ef node cs" "ended ef node cs" "length cs = unat c1"
  shows "\<exists>rc node' ef' cs'. change_clusters c1 c2 node ef = Some (rc, node', ef') \<and> file_at ef' node' cs' \<and> ended ef' node' cs' \<and> node_eq node node' \<and>
    grow_frame cs ef ef' \<and> moved cs cs' ef ef' \<and>
    (if unat c2 \<le> length cs + free_count ef then rc = 0 \<and> length cs' = unat c2 else rc = -28 \<and> cs' = cs)"
proof -
  consider "unat c1 < unat c2" | "unat c2 < unat c1" | "c1 = c2" by (metis linorder_neqE_nat word_unat_eq_iff)
  then show ?thesis
  proof cases
    case 1
    then have d: "unat (c2 - c1) = unat c2 - unat c1" by (subst unat_sub) (auto simp: word_le_nat_alt)
    obtain rc node' ef' where g: "grow_file ops c1 (c2 - c1) node ef = Some (rc, node', ef')" "node_eq node node'" "grow_frame cs ef ef'"
      "if unat c2 - unat c1 \<le> free_count ef
       then \<exists>new. rc = 0 \<and> length new = unat c2 - unat c1 \<and> grown cs new ef node' ef' \<and> ended ef' node' (cs @ new)
       else rc = -28 \<and> file_at ef' node' cs \<and> ended ef' node' cs \<and> (\<forall>j. used ef' j \<longleftrightarrow> used ef j)"
      using grow_file_ok[OF assms(1-4), of "c2 - c1"] 1 unfolding d by auto
    have ch: "change_clusters c1 c2 node ef = Some (rc, node', ef')" using 1 g(1) by (simp add: change_clusters_def word_less_nat_alt)
    have le: "unat c2 - unat c1 \<le> free_count ef \<longleftrightarrow> unat c2 \<le> length cs + free_count ef" using assms(4) by linarith
    show ?thesis
    proof (cases "unat c2 \<le> length cs + free_count ef")
      case True
      then obtain new where n: "rc = 0" "length new = unat c2 - unat c1" "grown cs new ef node' ef'" "ended ef' node' (cs @ new)" using g(4) le by auto
      have "moved cs (cs @ new) ef ef'" using n(3) assms(2) by (auto simp: moved_def grown_def file_at_def nth_append)
      then show ?thesis using True ch g(2,3) n 1 assms(4) by (auto simp: grown_def intro!: exI[of _ "cs @ new"])
    next
      case False
      then show ?thesis using g le ch moved_refl[OF assms(2)] by auto
    qed
  next
    case 2
    then have d: "unat (c1 - c2) = unat c1 - unat c2" by (subst unat_sub) (auto simp: word_le_nat_alt)
    have e: "unat c1 - (unat c1 - unat c2) = unat c2" using 2 by simp
    obtain node' ef' where s: "shrink_file ops c1 (c1 - c2) node ef = Some (0, node', ef')" "file_at ef' node' (take (unat c2) cs)" "ended ef' node' (take (unat c2) cs)"
      "node_eq node node'" "fat_frame (set cs) ef ef'" "\<forall>j. used ef' j \<longleftrightarrow> used ef j \<and> j \<notin> idx ` set (drop (unat c2) cs)"
      using shrink_file_ok[OF assms(1,2,4), of "c1 - c2"] 2 unfolding d e by auto
    have ch: "change_clusters c1 c2 node ef = Some (0, node', ef')" using 2 s(1) by (simp add: change_clusters_def word_less_nat_alt)
    have lk: "linked ef (is_contiguous node) cs" using assms(2) by (simp add: file_at_def)
    have img: "idx ` set cs = idx ` set (take (unat c2) cs) \<union> idx ` set (drop (unat c2) cs)" by (metis append_take_drop_id image_Un set_append)
    have us: "\<And>c. c \<in> set (take (unat c2) cs) \<Longrightarrow> used ef (idx c)" using assms(2) by (auto simp: file_at_def dest: in_set_takeD)
    have "moved cs (take (unat c2) cs) ef ef'"
      unfolding moved_def img using s(6) idx_image_disjoint[OF lk, of _ "unat c2"] us by (auto dest: in_set_takeD)
    moreover have "grow_frame cs ef ef'" unfolding grow_frame_def
      by (rule fat_frame_trans[OF s(5) fat_frame_refl[OF fat_frameD(1)[OF s(5)]], of "{}"]) auto
    ultimately show ?thesis using ch s 2 assms(4) by (auto intro!: exI[of _ "take (unat c2) cs"])
  next
    case 3
    then show ?thesis using assms fat_frame_refl[OF assms(1)] moved_refl[OF assms(2), of ef]
      by (auto simp: change_clusters_def grow_frame_def intro!: exI[of _ cs])
  qed
qed

section \<open>Files\<close>

definition clusters_for :: "nat \<Rightarrow> nat" where
  "clusters_for n = (n + clus_size sb - 1) div clus_size sb"

definition file_ok :: "'s exfat \<Rightarrow> exfat_node \<Rightarrow> u32 list \<Rightarrow> bool" where
  "file_ok ef node cs \<longleftrightarrow> file_at ef node cs \<and> ended ef node cs \<and> length cs = clusters_for (unat (nd_size node)) \<and>
     valid_size node \<le> nd_size node \<and> unat (nd_size node) < 2 ^ 63"

definition node_bytes :: "'s exfat \<Rightarrow> exfat_node \<Rightarrow> u32 list \<Rightarrow> bytes" where
  "node_bytes ef node cs = map (\<lambda>k. if k < unat (valid_size node) then content ef cs k else 0) [0..<unat (nd_size node)]"

definition others :: "u32 list \<Rightarrow> 's exfat \<Rightarrow> 's exfat \<Rightarrow> bool" where
  "others cs ef ef' \<longleftrightarrow> (\<forall>c. data_cluster sb c \<and> used ef (idx c) \<and> c \<notin> set cs \<longrightarrow>
     used ef' (idx c) \<and> table ef' c = table ef c \<and> (\<forall>k < clus_size sb. data ef' c k = data ef c k))"

lemma clusters_for_ge: "n \<le> clusters_for n * clus_size sb"
proof -
  have "n + clus_size sb - 1 = clusters_for n * clus_size sb + (n + clus_size sb - 1) mod clus_size sb" by (simp add: clusters_for_def)
  moreover have "(n + clus_size sb - 1) mod clus_size sb < clus_size sb" using clus_pos(1) by simp
  ultimately show ?thesis by linarith
qed

lemma clusters_for_le: "n \<le> m * clus_size sb \<Longrightarrow> clusters_for n \<le> m"
proof -
  assume "n \<le> m * clus_size sb"
  then have "clusters_for n \<le> (m * clus_size sb + (clus_size sb - 1)) div clus_size sb"
    unfolding clusters_for_def by (intro div_le_mono) (use clus_pos(1) in linarith)
  also have "\<dots> = m" using clus_pos(1) by (intro div_nat_eqI) (auto simp: mult.commute)
  finally show ?thesis .
qed

lemma bytes2clusters_eq:
  assumes "unat n < 2 ^ 63" "clusters_for (unat n) < 2 ^ 32"
  shows "unat (bytes2clusters sb n) = clusters_for (unat n)"
proof -
  have a: "unat (n + ucast (CLUSTER_SIZE sb)) = unat n + clus_size sb"
    using assms(1) clus_pos(2) by (subst unat_add_nowrap) (auto simp: CLUSTER_SIZE_eq)
  have "unat (n + ucast (CLUSTER_SIZE sb) - 1) = unat n + clus_size sb - 1"
    using clus_pos(1) by (subst unat_sub) (auto simp: a word_le_nat_alt)
  then have "unat ((n + ucast (CLUSTER_SIZE sb) - 1) div ucast (CLUSTER_SIZE sb) :: u64) = clusters_for (unat n)"
    by (simp add: unat_div CLUSTER_SIZE_eq clusters_for_def)
  then show ?thesis using assms(2) unfolding bytes2clusters_def Let_def by (subst unat_ucast_64_32) auto
qed

lemma node_bytes_cong:
  assumes "\<And>k. k < unat (valid_size node) \<Longrightarrow> k < unat (nd_size node) \<Longrightarrow> content ef' cs' k = content ef cs k" "nd_size node' = nd_size node" "valid_size node' = valid_size node"
  shows "node_bytes ef' node' cs' = node_bytes ef node cs"
  using assms by (simp add: node_bytes_def)

lemma file_ok_size: "file_ok ef node cs \<Longrightarrow> k < unat (nd_size node) \<Longrightarrow> k div clus_size sb < length cs"
  using clusters_for_ge[of "unat (nd_size node)"] by (auto simp: file_ok_def intro!: less_mult_imp_div_less)

lemma others_file:
  assumes "others cs ef ef'" "file_ok ef node2 cs2" "set cs2 \<inter> set cs = {}"
  shows "file_ok ef' node2 cs2" "node_bytes ef' node2 cs2 = node_bytes ef node2 cs2"
proof -
  have o: "used ef' (idx c)" "table ef' c = table ef c" "k < clus_size sb \<Longrightarrow> data ef' c k = data ef c k" if "c \<in> set cs2" for c k
    using assms that by (auto simp: others_def file_ok_def file_at_def linked_def)
  have lk: "linked ef (is_contiguous node2) cs2" using assms(2) by (simp add: file_ok_def file_at_def)
  have "linked ef' (is_contiguous node2) cs2" by (rule linked_frame[OF lk]) (use o in auto)
  moreover have "ended ef' node2 cs2" using assms(2) o(2)[of "last cs2"] by (cases "cs2 = []") (auto simp: ended_def file_ok_def)
  ultimately show "file_ok ef' node2 cs2" using assms(2) o(1) by (auto simp: file_ok_def file_at_def)
  show "node_bytes ef' node2 cs2 = node_bytes ef node2 cs2"
    by (rule node_bytes_cong) (use o(3) file_ok_size[OF assms(2)] clus_pos(1) in \<open>auto simp: content_def\<close>)
qed

lemma grow_frame_others:
  assumes "grow_frame cs ef ef'" "moved cs cs' ef ef'" "linked ef b cs"
  shows "others cs ef ef'"
  unfolding others_def
proof (intro allI impI)
  fix c assume c: "data_cluster sb c \<and> used ef (idx c) \<and> c \<notin> set cs"
  then have "idx c \<notin> idx ` set cs" using assms(3) idx_inj by (auto simp: linked_def)
  then have "used ef' (idx c)" using assms(2) c by (simp add: moved_def)
  then show "used ef' (idx c) \<and> table ef' c = table ef c \<and> (\<forall>k < clus_size sb. data ef' c k = data ef c k)"
    using c assms(1) by (auto simp: grow_frame_def dest: fat_frameD)
qed

lemma length_node_bytes [simp]: "length (node_bytes ef node cs) = unat (nd_size node)"
  by (simp add: node_bytes_def)

section \<open>Truncation\<close>

lemma content_moved:
  assumes "grow_frame cs ef ef'" "moved cs cs' ef ef'" "linked ef b cs" "k < length cs * clus_size sb" "k < length cs' * clus_size sb"
  shows "content ef' cs' k = content ef cs k"
proof -
  have i: "k div clus_size sb < length cs" "k div clus_size sb < length cs'" using assms(4,5) by (simp_all add: less_mult_imp_div_less)
  then have "cs' ! (k div clus_size sb) = cs ! (k div clus_size sb)" using assms(2) by (simp add: moved_def)
  then show ?thesis
    using fat_frameD(3)[OF assms(1)[unfolded grow_frame_def] linked_nth[OF assms(3) i(1)]] clus_pos(1) by (simp add: content_def)
qed

lemma others_stored:
  assumes "others cs ef ef1" "moved cs cs' ef ef1" "stored cs' p bs ef1 ef2" "linked ef b cs"
  shows "others cs ef ef2"
  unfolding others_def
proof (intro allI impI)
  fix c assume c: "data_cluster sb c \<and> used ef (idx c) \<and> c \<notin> set cs"
  then have "c \<notin> set cs'" using assms(2) by (auto simp: moved_def)
  then show "used ef2 (idx c) \<and> table ef2 c = table ef c \<and> (\<forall>k < clus_size sb. data ef2 c k = data ef c k)"
    using c assms(1,3) by (auto simp: others_def stored_def)
qed

definition truncated :: "bool \<Rightarrow> u64 \<Rightarrow> exfat_node \<Rightarrow> exfat_node \<Rightarrow> bool" where
  "truncated erase n node node' \<longleftrightarrow> nd_size node' = n \<and> nd_attrib node' = nd_attrib node \<and> nd_references node' = nd_references node \<and> nd_parent node' = nd_parent node \<and>
     valid_size node' = (if nd_size node = n then valid_size node else if erase then n else min (valid_size node) n)"

lemma truncate_ok:
  assumes m: "mounted ef" and f: "file_ok ef node cs" and r: "nd_references node \<noteq> 0 \<or> \<not> nd_parent node"
    and n: "unat n < 2 ^ 63" "clusters_for (unat n) < 2 ^ 32"
  shows "\<exists>rc node' ef' cs'. exfat_truncate ops n erase node ef = Some (rc, node', ef') \<and> mounted ef' \<and> file_ok ef' node' cs' \<and> others cs ef ef' \<and> moved cs cs' ef ef' \<and>
    (if clusters_for (unat n) \<le> length cs + free_count ef
     then rc = 0 \<and> truncated erase n node node' \<and> node_bytes ef' node' cs' = resize (unat n) (node_bytes ef node cs)
     else rc = -28 \<and> node_eq node node' \<and> cs' = cs \<and> node_bytes ef' node' cs' = node_bytes ef node cs)"
proof (cases "nd_size node = n")
  case True
  have fa: "file_at ef node cs" "clusters_for (unat n) = length cs" using f True by (auto simp: file_ok_def)
  have "exfat_truncate ops n erase node ef = Some (0, node, ef)" using True r by (simp add: exfat_truncate_def Let_def)
  moreover have "resize (unat n) (node_bytes ef node cs) = node_bytes ef node cs" by (rule nth_equalityI) (auto simp: resize_nth True[symmetric])
  ultimately show ?thesis using True m f fa moved_refl[OF fa(1), of ef] by (auto simp: truncated_def others_def intro!: exI[of _ cs])
next
  case False
  note vo = m[unfolded mounted_def, THEN conjunct1]
  have fa: "file_at ef node cs" "ended ef node cs" and len: "length cs = clusters_for (unat (nd_size node))" and vs: "unat (valid_size node) \<le> unat (nd_size node)"
    and sz: "unat (nd_size node) < 2 ^ 63" using f by (auto simp: file_ok_def word_le_nat_alt)
  have lk: "linked ef (is_contiguous node) cs" using fa(1) by (simp add: file_at_def)
  have l32: "length cs < 2 ^ 32" using linked_length[OF lk] count_le by simp
  have c1: "unat (bytes2clusters sb (nd_size node)) = length cs" using bytes2clusters_eq[OF sz] len l32 by simp
  have c2: "unat (bytes2clusters sb n) = clusters_for (unat n)" by (rule bytes2clusters_eq[OF n])
  obtain rc node1 ef1 cs1 where ch: "change_clusters (bytes2clusters sb (nd_size node)) (bytes2clusters sb n) node ef = Some (rc, node1, ef1)"
    "file_at ef1 node1 cs1" "ended ef1 node1 cs1" "node_eq node node1" "grow_frame cs ef ef1" "moved cs cs1 ef ef1"
    "if clusters_for (unat n) \<le> length cs + free_count ef then rc = 0 \<and> length cs1 = clusters_for (unat n) else rc = -28 \<and> cs1 = cs"
    using change_clusters_ok[OF vo fa c1[symmetric], of "bytes2clusters sb n"] unfolding c2 by blast
  have m1: "mounted ef1" using ch(5) mounted_frame[OF m] by (auto simp: grow_frame_def)
  have ot: "others cs ef ef1" by (rule grow_frame_others[OF ch(5,6) lk])
  have size: "unat (nd_size node) \<le> length cs * clus_size sb" using clusters_for_ge[of "unat (nd_size node)"] len by simp
  have eq: "nd_size node1 = nd_size node" "valid_size node1 = valid_size node" "nd_references node1 = nd_references node" "nd_parent node1 = nd_parent node" "nd_attrib node1 = nd_attrib node"
    using ch(4) by (auto simp: node_eq_def)
  have run: "exfat_truncate ops n erase node ef =
      (if rc \<noteq> 0 then Some (rc, node1, ef1)
       else (case (if erase then map_option (\<lambda>(rc, node2, ef2). (rc, if rc = 0 then node2\<lparr>valid_size := n\<rparr> else node2, ef2)) (erase_range ops (valid_size node1) n node1 ef1)
                   else Some (0, node1\<lparr>valid_size := min (valid_size node1) n\<rparr>, ef1)) of
               None \<Rightarrow> None
             | Some (rc, node2, ef2) \<Rightarrow>
                 if rc \<noteq> 0 then Some (rc, node2, ef2) else Some (0, (exfat_update_mtime node2)\<lparr>nd_size := n, is_dirty := True\<rparr>, ef2)))"
    using ch(1) False r vol_okD(1)[OF vo] unfolding exfat_truncate_def change_clusters_def Let_def by auto
  show ?thesis
  proof (cases "clusters_for (unat n) \<le> length cs + free_count ef")
    case no: False
    then have rc: "rc = -28" "cs1 = cs" using ch(7) by auto
    have "content ef1 cs k = content ef cs k" if "k < unat (nd_size node)" for k
      by (rule content_moved[OF ch(5) ch(6)[unfolded rc(2)] lk]) (use that size in auto)
    then have "node_bytes ef1 node1 cs = node_bytes ef node cs" by (intro node_bytes_cong) (auto simp: eq)
    moreover have "file_ok ef1 node1 cs" using ch(2,3) rc(2) f eq by (simp add: file_ok_def)
    ultimately show ?thesis unfolding run using no rc ch(4,6) m1 ot by (auto intro!: exI[of _ cs])
  next
    case yes: True
    then have rc: "rc = 0" and len1: "length cs1 = clusters_for (unat n)" using ch(7) by auto
    have size1: "unat n \<le> length cs1 * clus_size sb" using clusters_for_ge[of "unat n"] len1 by simp
    have cont: "content ef1 cs1 k = content ef cs k" if "k < unat n" "k < unat (nd_size node)" for k
      by (rule content_moved[OF ch(5,6) lk]) (use that size size1 in auto)
    show ?thesis
    proof (cases erase)
      case E: True
      obtain node2 ef2 mz where e: "erase_range ops (valid_size node1) n node1 ef1 = Some (0, node2, ef2)" "stored cs1 (unat (valid_size node1)) (replicate mz 0) ef1 ef2"
        "unat n \<le> unat (valid_size node1) + mz" "file_at ef2 node2 cs1" "node_eq node1 node2" "is_contiguous node2 = is_contiguous node1"
        by (rule erase_range_ok[OF m1 ch(2) size1 n(1)]) (use len1 n(2) in auto)
      let ?node = "(exfat_update_mtime (node2\<lparr>valid_size := n\<rparr>))\<lparr>nd_size := n, is_dirty := True\<rparr>"
      have tr: "exfat_truncate ops n erase node ef = Some (0, ?node, ef2)" unfolding run using rc E e(1) by simp
      have n2: "file_at ef2 ?node cs1" "ended ef2 ?node cs1"
        using e(4,6) ended_stored[OF e(2) ch(2,3)] by (auto simp: file_at_def ended_def exfat_update_mtime_def)
      then have fo: "file_ok ef2 ?node cs1" using len1 n(1) by (simp add: file_ok_def exfat_update_mtime_def)
      have bts: "node_bytes ef2 ?node cs1 = resize (unat n) (node_bytes ef node cs)"
      proof (rule nth_equalityI)
        fix k assume "k < length (node_bytes ef2 ?node cs1)"
        then have k: "k < unat n" by (simp add: exfat_update_mtime_def)
        then have "content ef2 cs1 k = (if unat (valid_size node) \<le> k then 0 else content ef1 cs1 k)"
          using e(2,3) size1 eq(2) by (auto simp: stored_def)
        then show "node_bytes ef2 ?node cs1 ! k = resize (unat n) (node_bytes ef node cs) ! k"
          using k cont[OF k] vs by (auto simp: node_bytes_def resize_nth exfat_update_mtime_def)
      qed (simp add: exfat_update_mtime_def)
      have "moved cs cs1 ef ef2" using ch(6) e(2) by (simp add: moved_def stored_def)
      moreover have "truncated erase n node ?node" using E False eq e(5) by (simp add: truncated_def exfat_update_mtime_def node_eq_def)
      ultimately show ?thesis using tr fo bts yes mounted_stored[OF m1 e(2)] others_stored[OF ot ch(6) e(2) lk] by auto
    next
      case E: False
      let ?node = "(exfat_update_mtime (node1\<lparr>valid_size := min (valid_size node1) n\<rparr>))\<lparr>nd_size := n, is_dirty := True\<rparr>"
      have tr: "exfat_truncate ops n erase node ef = Some (0, ?node, ef1)" unfolding run using rc E by simp
      have "file_at ef1 ?node cs1" "ended ef1 ?node cs1" using ch(2,3) by (auto simp: file_at_def ended_def exfat_update_mtime_def)
      then have fo: "file_ok ef1 ?node cs1" using len1 n(1) by (simp add: file_ok_def exfat_update_mtime_def)
      have bts: "node_bytes ef1 ?node cs1 = resize (unat n) (node_bytes ef node cs)"
      proof (rule nth_equalityI)
        fix k assume "k < length (node_bytes ef1 ?node cs1)"
        then have k: "k < unat n" by (simp add: exfat_update_mtime_def)
        have "unat (min (valid_size node1) n) = min (unat (valid_size node)) (unat n)" by (auto simp: eq min_def word_le_nat_alt)
        then show "node_bytes ef1 ?node cs1 ! k = resize (unat n) (node_bytes ef node cs) ! k"
          using k cont[OF k] vs by (auto simp: node_bytes_def resize_nth exfat_update_mtime_def)
      qed (simp add: exfat_update_mtime_def)
      have "truncated erase n node ?node" using E False eq by (simp add: truncated_def exfat_update_mtime_def)
      then show ?thesis using tr fo bts yes m1 ot ch(6) by auto
    qed
  qed
qed

end

end
