(* ===== verification/Exfat_File.thy ===== *)
theory Exfat_File
  imports Exfat_Truncate
begin

text \<open>
  Reading and writing files on the array of bytes of \<open>Exfat_Truncate\<close>.
\<close>

lemma sint64_small: "unat (w :: u64) < 2 ^ 63 \<Longrightarrow> sint w = int (unat w)"
proof -
  assume a: "unat w < 2 ^ 63"
  then have "\<not> bit w 63" using bit_small[of w 63 63] by auto
  then have "\<not> bit (uint w) 63" by (simp add: bit_uint_iff)
  moreover have "int (unat w) < 2 ^ 63" using a by (metis of_nat_less_iff of_nat_numeral of_nat_power)
  ultimately show ?thesis by (simp add: sint_uint signed_take_bit_eq_if_positive take_bit_int_eq_self)
qed

lemma nonneg_small: "unat (w :: u64) < 2 ^ 63 \<Longrightarrow> \<not> w <s 0"
  by (simp add: word_sless_alt sint64_small)

lemma unat_word_of_int: "k < 2 ^ 64 \<Longrightarrow> unat (word_of_int (int k) :: u64) = k"
  by (simp add: unat_of_nat take_bit_nat_eq_self_iff)

context exfat_volume
begin

lemma content_run:
  assumes "p + n \<le> clus_size sb"
  shows "map (img (ef_io ef)) [clus_off sb (cs ! i) + p..<clus_off sb (cs ! i) + p + n] = map (content ef cs) [i * clus_size sb + p..<i * clus_size sb + p + n]"
proof (rule nth_equalityI)
  fix k assume "k < length (map (img (ef_io ef)) [clus_off sb (cs ! i) + p..<clus_off sb (cs ! i) + p + n])"
  then have k: "k < n" by simp
  have "(i * clus_size sb + p + k) div clus_size sb = i" "(i * clus_size sb + p + k) mod clus_size sb = p + k"
    using k assms clus_pos(1) by (simp_all add: add.assoc)
  then show "map (img (ef_io ef)) [clus_off sb (cs ! i) + p..<clus_off sb (cs ! i) + p + n] ! k = map (content ef cs) [i * clus_size sb + p..<i * clus_size sb + p + n] ! k"
    using k by (simp add: content_def data_def add.assoc)
qed simp

lemma cluster_range: "data_cluster sb c \<Longrightarrow> p + n \<le> clus_size sb \<Longrightarrow> {clus_off sb c + p..<clus_off sb c + p + n} \<subseteq> vol"
proof
  fix q assume a: "data_cluster sb c" "p + n \<le> clus_size sb" "q \<in> {clus_off sb c + p..<clus_off sb c + p + n}"
  then have "q = clus_off sb c + (q - clus_off sb c)" "q - clus_off sb c < clus_size sb" by auto
  then show "q \<in> vol" using data_bound(1)[OF a(1)] by metis
qed

lemma cluster_address:
  assumes "data_cluster sb c" "p < clus_size sb" "unat (off :: u64) = clus_off sb c"
  shows "unat (off + word_of_int (int p)) = clus_off sb c + p"
proof -
  have "clus_off sb c + p < 2 ^ 63" by (rule data_bound(2)[OF assms(1,2)])
  moreover have "unat (word_of_int (int p) :: u64) = p" using assms(2) clus_pos(2) by (intro unat_word_of_int) simp
  ultimately show ?thesis using assms(3) by (subst unat_add_nowrap) auto
qed

section \<open>The loops\<close>

lemma read_clusters_ok:
  assumes "vol_ok ef" "linked ef (is_contiguous node) cs" "0 < R \<Longrightarrow> i < length cs \<and> cluster = cs ! i" "L < clus_size sb"
    "i * clus_size sb + L + R \<le> length cs * clus_size sb" "bi + R \<le> length buf"
  shows "\<exists>ef'. read_clusters ops node buf bi cluster (int L) (int R) ef =
      Some (Inr 0, buf_put buf bi (map (content ef cs) [i * clus_size sb + L..<i * clus_size sb + L + R]), ef') \<and> stored cs 0 [] ef ef'"
  using assms
proof (induction R arbitrary: i L bi buf cluster ef rule: less_induct)
  case (less R)
  show ?case
  proof (cases "R = 0")
    case True
    then show ?thesis using stored_refl[OF less.prems(1)] by (subst read_clusters.simps) auto
  next
    case False
    then have i: "i < length cs" "cluster = cs ! i" using less.prems(3) by auto
    have v: "data_cluster sb (cs ! i)" by (rule linked_nth[OF less.prems(2) i(1)])
    define l where "l = min (clus_size sb - L) R"
    have l: "0 < l" "l \<le> R" "L + l \<le> clus_size sb" using False less.prems(4) by (auto simp: l_def)
    have ls: "min (sint (CLUSTER_SIZE sb) - int L) (int R) = int l"
      using less.prems(4) by (simp add: l_def CLUSTER_SIZE_sint of_nat_diff)
    obtain off where o: "exfat_c2o sb (cs ! i) = Some off" "unat off = clus_off sb (cs ! i)" by (rule c2o_eq[OF v])
    have ad: "unat (off + word_of_int (int L)) = clus_off sb (cs ! i) + L" by (rule cluster_address[OF v less.prems(4) o(2)])
    let ?bs = "map (content ef cs) [i * clus_size sb + L..<i * clus_size sb + L + l]"
    obtain io1 where p: "exfat_pread ops buf bi l (off + word_of_int (int L)) (ef_io ef) = Some (int l, buf_put buf bi ?bs, io1)" "ok io1" "img io1 = img (ef_io ef)"
      using pread_law[OF vol_okD(3)[OF less.prems(1)], of "off + word_of_int (int L)" l bi buf] cluster_range[OF v l(3)] less.prems(6) l(2)
      unfolding ad content_run[OF l(3)] by auto
    let ?ef = "ef\<lparr>ef_io := io1\<rparr>"
    have vo1: "vol_ok ?ef" using less.prems(1) p(2) by (auto simp: vol_ok_def map_ok_def)
    have s1: "stored cs 0 [] ef ?ef" using vo1 p(3) by (auto simp: stored_def meta_eq_def table_def data_def content_def)
    have l1: "linked ?ef (is_contiguous node) cs" by (rule linked_stored[OF s1 less.prems(2)])
    obtain ef2 where n: "exfat_next_cluster ops node (cs ! i) ?ef = Some (if is_contiguous node then cs ! i + 1 else table ?ef (cs ! i), ef2)"
      "fat_frame {} ?ef ef2" "cmap_chunk ef2 = cmap_chunk ?ef" by (rule next_cluster_any[OF vo1 v, of node])
    let ?c = "if is_contiguous node then cs ! i + 1 else table ?ef (cs ! i)"
    have s2: "stored cs 0 [] ef ef2" using stored_trans[OF s1, of "[]" ef2] stored_frame[OF n(2,3) l1] by simp
    have step: "read_clusters ops node buf bi cluster (int L) (int R) ef = read_clusters ops node (buf_put buf bi ?bs) (bi + l) ?c 0 (int (R - l)) ef2"
      using False i(2) v o(1) p(1) n(1) vol_okD(1)[OF less.prems(1)] l(2) ls by (subst read_clusters.simps) (simp add: Let_def invalid_iff of_nat_diff)
    have more: "L + l = clus_size sb" if "0 < R - l" using that less.prems(4) by (auto simp: l_def)
    have lt: "Suc i < length cs" if "0 < R - l"
    proof -
      have "Suc i * clus_size sb < length cs * clus_size sb" using less.prems(5) more[OF that] that by simp
      then show ?thesis using mult_less_cancel2 by blast
    qed
    have nx: "?c = cs ! Suc i" if "0 < R - l" using lt[OF that] l1 by (auto simp: linked_def)
    have len: "length (buf_put buf bi ?bs) = length buf" using less.prems(6) l(2) by simp
    have cont: "content ef2 cs k = content ef cs k" if "k < length cs * clus_size sb" for k using s2 that by (auto simp: stored_def)
    have "\<exists>ef'. read_clusters ops node (buf_put buf bi ?bs) (bi + l) ?c (int 0) (int (R - l)) ef2 =
        Some (Inr 0, buf_put (buf_put buf bi ?bs) (bi + l) (map (content ef2 cs) [Suc i * clus_size sb + 0..<Suc i * clus_size sb + 0 + (R - l)]), ef') \<and> stored cs 0 [] ef2 ef'"
      if "0 < R - l"
      by (rule less.IH) (use l fat_frameD(1)[OF n(2)] linked_stored[OF s2 less.prems(2)] lt nx less.prems(5,6) more[OF that] clus_pos(1) len that in auto)
    moreover have "map (content ef2 cs) [Suc i * clus_size sb + 0..<Suc i * clus_size sb + 0 + (R - l)] =
        map (content ef cs) [i * clus_size sb + L + l..<i * clus_size sb + L + l + (R - l)]" if "0 < R - l"
    proof -
      have e: "Suc i * clus_size sb + 0 = i * clus_size sb + L + l" using more[OF that] by simp
      show ?thesis unfolding e using less.prems(5) l(2) by (auto intro!: cont)
    qed
    moreover have "buf_put (buf_put buf bi ?bs) (bi + l) (map (content ef cs) [i * clus_size sb + L + l..<i * clus_size sb + L + l + (R - l)]) =
        buf_put buf bi (map (content ef cs) [i * clus_size sb + L..<i * clus_size sb + L + R])"
      using buf_put_put[of bi ?bs "map (content ef cs) [i * clus_size sb + L + l..<i * clus_size sb + L + l + (R - l)]" buf] less.prems(6) l(2)
        sum_upt[of "i * clus_size sb + L" l "R - l"] by simp
    ultimately have A: "0 < R - l \<Longrightarrow> ?thesis" unfolding step using stored_trans[OF s2, of "[]"] by fastforce
    have B: ?thesis if "R = l"
      unfolding step using that s2 by (subst read_clusters.simps) auto
    have "0 < R - l \<or> R = l" using l(2) by linarith
    then show ?thesis by (rule disjE) (erule A, erule B)
  qed
qed

lemma write_clusters_ok:
  assumes "vol_ok ef" "linked ef (is_contiguous node) cs" "0 < R \<Longrightarrow> i < length cs \<and> cluster = cs ! i" "L < clus_size sb"
    "i * clus_size sb + L + R \<le> length cs * clus_size sb" "bi + R \<le> length buf" "R \<le> unat (uoffset + n)"
  shows "\<exists>ef'. write_clusters ops buf bi n uoffset cluster (int L) (int R) node ef =
      Some (Inr 0, node\<lparr>valid_size := (if R = 0 then valid_size node else max (valid_size node) (uoffset + n))\<rparr>, ef') \<and>
      stored cs (i * clus_size sb + L) (buf_get R buf bi) ef ef'"
  using assms
proof (induction R arbitrary: i L bi cluster node ef rule: less_induct)
  case (less R)
  show ?case
  proof (cases "R = 0")
    case True
    then show ?thesis using stored_refl[OF less.prems(1)] by (subst write_clusters.simps) (auto simp: buf_get_def)
  next
    case False
    then have i: "i < length cs" "cluster = cs ! i" using less.prems(3) by auto
    have v: "data_cluster sb (cs ! i)" by (rule linked_nth[OF less.prems(2) i(1)])
    define l where "l = min (clus_size sb - L) R"
    have l: "0 < l" "l \<le> R" "L + l \<le> clus_size sb" using False less.prems(4) by (auto simp: l_def)
    have ls: "min (sint (CLUSTER_SIZE sb) - int L) (int R) = int l"
      using less.prems(4) by (simp add: l_def CLUSTER_SIZE_sint of_nat_diff)
    obtain off where o: "exfat_c2o sb (cs ! i) = Some off" "unat off = clus_off sb (cs ! i)" by (rule c2o_eq[OF v])
    have ad: "unat (off + word_of_int (int L)) = clus_off sb (cs ! i) + L" by (rule cluster_address[OF v less.prems(4) o(2)])
    obtain io1 where p: "exfat_pwrite ops buf bi l (off + word_of_int (int L)) (ef_io ef) = Some (int l, io1)"
      "stored cs (i * clus_size sb + L) (buf_get l buf bi) ef (ef\<lparr>ef_io := io1\<rparr>)"
      by (rule store_cluster[OF less.prems(1,2) i(1) l(3) _ ad, of bi buf]) (use less.prems(6) l(2) in auto)
    let ?ef = "ef\<lparr>ef_io := io1\<rparr>"
    have vo1: "vol_ok ?ef" using p(2) by (simp add: stored_def)
    let ?v = "uoffset + n - word_of_int (int (R - l))"
    let ?node = "node\<lparr>valid_size := max (valid_size node) ?v\<rparr>"
    have l1: "linked ?ef (is_contiguous ?node) cs" using linked_stored[OF p(2) less.prems(2)] by simp
    obtain ef2 where nc: "exfat_next_cluster ops ?node (cs ! i) ?ef = Some (if is_contiguous ?node then cs ! i + 1 else table ?ef (cs ! i), ef2)"
      "fat_frame {} ?ef ef2" "cmap_chunk ef2 = cmap_chunk ?ef" by (rule next_cluster_any[OF vo1 v, of ?node])
    let ?c = "if is_contiguous ?node then cs ! i + 1 else table ?ef (cs ! i)"
    have lb: "length (buf_get l buf bi) = l" using less.prems(6) l(2) by simp
    have s2: "stored cs (i * clus_size sb + L) (buf_get l buf bi) ef ef2" using stored_trans[OF p(2), of "[]" ef2] stored_frame[OF nc(2,3) l1] by simp
    have step: "write_clusters ops buf bi n uoffset cluster (int L) (int R) node ef = write_clusters ops buf (bi + l) n uoffset ?c 0 (int (R - l)) ?node ef2"
      using False i(2) v o(1) p(1) nc(1) vol_okD(1)[OF less.prems(1)] l(2) ls by (subst write_clusters.simps) (simp add: Let_def invalid_iff of_nat_diff)
    have more: "L + l = clus_size sb" if "0 < R - l" using that less.prems(4) by (auto simp: l_def)
    have lt: "Suc i < length cs" if "0 < R - l"
    proof -
      have "Suc i * clus_size sb < length cs * clus_size sb" using less.prems(5) more[OF that] that by simp
      then show ?thesis using mult_less_cancel2 by blast
    qed
    have nx: "?c = cs ! Suc i" if "0 < R - l" using lt[OF that] l1 by (auto simp: linked_def)
    have "unat (uoffset + n) < 2 ^ LENGTH(64)" by (rule unsigned_less)
    then have w: "unat (word_of_int (int (R - l)) :: u64) = R - l" using less.prems(7) by (intro unat_word_of_int) simp
    have vl: "?v \<le> uoffset + n" using w less.prems(7) by (simp add: word_le_nat_alt unat_sub)
    show ?thesis
    proof (cases "0 < R - l")
      case T: True
      have "\<exists>ef'. write_clusters ops buf (bi + l) n uoffset ?c (int 0) (int (R - l)) ?node ef2 =
          Some (Inr 0, ?node\<lparr>valid_size := (if R - l = 0 then valid_size ?node else max (valid_size ?node) (uoffset + n))\<rparr>, ef') \<and>
          stored cs (Suc i * clus_size sb + 0) (buf_get (R - l) buf (bi + l)) ef2 ef'"
        by (rule less.IH) (use l fat_frameD(1)[OF nc(2)] linked_stored[OF s2 less.prems(2)] lt nx less.prems(5-7) more[OF T] clus_pos(1) T in auto)
      moreover have e: "Suc i * clus_size sb + 0 = i * clus_size sb + L + l" using more[OF T] by simp
      ultimately obtain ef' where r: "write_clusters ops buf (bi + l) n uoffset ?c (int 0) (int (R - l)) ?node ef2 =
          Some (Inr 0, ?node\<lparr>valid_size := max (max (valid_size node) ?v) (uoffset + n)\<rparr>, ef')"
          "stored cs (i * clus_size sb + L + l) (buf_get (R - l) buf (bi + l)) ef2 ef'" unfolding e using T by auto
      have "max (max (valid_size node) ?v) (uoffset + n) = max (valid_size node) (uoffset + n)" using vl by (simp add: max.assoc max_absorb2)
      moreover have "stored cs (i * clus_size sb + L) (buf_get l buf bi @ buf_get (R - l) buf (bi + l)) ef ef'"
        by (rule stored_trans[OF s2]) (use r(2) lb in simp)
      ultimately show ?thesis unfolding step using r(1) False buf_get_append[of l buf bi "R - l"] l(2) by auto
    next
      case F: False
      then have "R = l" using l(2) by linarith
      then show ?thesis unfolding step using s2 False by (subst write_clusters.simps) auto
    qed
  qed
qed

section \<open>Positions in files\<close>

lemma mod_position: "uint ((uoffset :: u64) mod ucast (CLUSTER_SIZE sb)) = int (unat uoffset mod clus_size sb)"
proof -
  have "unat (uoffset mod ucast (CLUSTER_SIZE sb)) = unat uoffset mod clus_size sb" by (simp only: unat_mod CLUSTER_SIZE_64)
  then show ?thesis by (metis of_nat_unat)
qed

lemma div_position:
  assumes "unat (uoffset :: u64) div clus_size sb < 2 ^ 32"
  shows "unat (ucast (uoffset div ucast (CLUSTER_SIZE sb)) :: u32) = unat uoffset div clus_size sb"
  using assms by (subst unat_ucast_64_32) (auto simp: unat_div CLUSTER_SIZE_eq)

lemma seek_ok:
  assumes "vol_ok ef" "file_ok ef node cs" "unat (uoffset :: u64) < unat (nd_size node)"
  defines "i \<equiv> unat uoffset div clus_size sb"
  obtains ef1 where "exfat_advance_cluster ops (ucast (uoffset div ucast (CLUSTER_SIZE sb))) node ef =
      Some (cs ! i, node\<lparr>fptr_index := ucast (uoffset div ucast (CLUSTER_SIZE sb)), fptr_cluster := cs ! i\<rparr>, ef1)"
    "stored cs 0 [] ef ef1" "file_ok ef1 (node\<lparr>fptr_index := ucast (uoffset div ucast (CLUSTER_SIZE sb)), fptr_cluster := cs ! i\<rparr>) cs" "i < length cs"
proof -
  let ?n = "ucast (uoffset div ucast (CLUSTER_SIZE sb)) :: u32"
  have fa: "file_at ef node cs" "ended ef node cs" using assms(2) by (auto simp: file_ok_def)
  have lk: "linked ef (is_contiguous node) cs" using fa(1) by (simp add: file_at_def)
  have i: "i < length cs" unfolding i_def by (rule file_ok_size[OF assms(2,3)])
  have u: "unat ?n = i" using i linked_length[OF lk] count_le unfolding i_def by (intro div_position) simp
  obtain ef1 where a: "exfat_advance_cluster ops ?n node ef = Some (cs ! i, node\<lparr>fptr_index := ?n, fptr_cluster := cs ! i\<rparr>, ef1)" "fat_frame {} ef ef1" "cmap_chunk ef1 = cmap_chunk ef"
    using advance_ok[OF assms(1) fa(1), of ?n] i unfolding u by blast
  have s: "stored cs 0 [] ef ef1" by (rule stored_frame[OF a(2,3) lk])
  let ?node = "node\<lparr>fptr_index := ?n, fptr_cluster := cs ! i\<rparr>"
  have "file_at ef ?node cs" "ended ef ?node cs" using file_at_pointer[OF fa(1), of ?n] i fa(2) unfolding u by (auto simp: ended_def)
  then have "file_ok ef1 ?node cs" using file_at_stored[OF s] ended_stored[OF s] assms(2) by (simp add: file_ok_def)
  then show thesis using that a(1) s i by blast
qed

lemma file_ok_stored: "stored cs' p bs ef ef' \<Longrightarrow> file_ok ef node cs \<Longrightarrow> file_ok ef' node cs"
  using file_at_stored ended_stored by (simp add: file_ok_def)

lemma file_ok_cong:
  assumes "file_ok ef node cs" "start_cluster node' = start_cluster node" "is_contiguous node' = is_contiguous node" "fptr_index node' = fptr_index node"
    "fptr_cluster node' = fptr_cluster node" "nd_size node' = nd_size node" "valid_size node' \<le> nd_size node"
  shows "file_ok ef node' cs"
  using assms(1,7) unfolding file_ok_def file_at_def ended_def assms(2-6) by blast

lemma pread_clusters_ok:
  assumes "vol_ok ef" "file_ok ef node cs" "unat uoffset < unat (nd_size node)" "bi + M \<le> length buf"
    and M: "M = min (unat n) (unat (nd_size node) - unat uoffset)"
  shows "\<exists>node' ef'. pread_clusters ops node buf bi n uoffset ef =
      Some (int M, buf_put buf bi (map (content ef cs) [unat uoffset..<unat uoffset + M]), node', ef') \<and> stored cs 0 [] ef ef' \<and> file_ok ef' node' cs \<and> node_eq node node'"
proof -
  let ?i = "unat uoffset div clus_size sb" and ?L = "unat uoffset mod clus_size sb"
  let ?node = "node\<lparr>fptr_index := ucast (uoffset div ucast (CLUSTER_SIZE sb)), fptr_cluster := cs ! ?i\<rparr>"
  obtain ef1 where a: "exfat_advance_cluster ops (ucast (uoffset div ucast (CLUSTER_SIZE sb))) node ef = Some (cs ! ?i, ?node, ef1)"
    "stored cs 0 [] ef ef1" "file_ok ef1 ?node cs" "?i < length cs" by (rule seek_ok[OF assms(1-3)])
  have vo1: "vol_ok ef1" using a(2) by (simp add: stored_def)
  have lk: "linked ef1 (is_contiguous ?node) cs" using a(3) by (simp add: file_ok_def file_at_def)
  have v: "data_cluster sb (cs ! ?i)" by (rule linked_nth[OF lk a(4)])
  have sz: "unat (nd_size node) < 2 ^ 63" "unat (nd_size node) \<le> length cs * clus_size sb"
    using assms(2) clusters_for_ge[of "unat (nd_size node)"] by (auto simp: file_ok_def)
  have lt: "?L < clus_size sb" "?i * clus_size sb + ?L = unat uoffset" using clus_pos(1) by simp_all
  have m: "unat (min n (nd_size node - uoffset)) = M"
    using assms(3) by (auto simp: M min_def word_le_nat_alt unat_sub)
  have sm: "sint (min n (nd_size node - uoffset)) = int M" using sint64_small[of "min n (nd_size node - uoffset)"] m M sz(1) by simp
  have bd: "unat uoffset + M \<le> length cs * clus_size sb" using M assms(3) sz(2) by auto
  obtain ef2 where r: "read_clusters ops ?node buf bi (cs ! ?i) (int ?L) (int M) ef1 =
      Some (Inr 0, buf_put buf bi (map (content ef1 cs) [unat uoffset..<unat uoffset + M]), ef2)" "stored cs 0 [] ef1 ef2"
    using read_clusters_ok[OF vo1 lk, of M ?i "cs ! ?i" ?L bi buf] a(4) lt assms(4) bd by auto
  have same: "map (content ef1 cs) [unat uoffset..<unat uoffset + M] = map (content ef cs) [unat uoffset..<unat uoffset + M]"
    using a(2) bd by (auto simp: stored_def)
  have "stored cs 0 [] ef ef2" using stored_trans[OF a(2), of "[]" ef2] r(2) by simp
  moreover have f2: "file_ok ef2 ?node cs" by (rule file_ok_stored[OF r(2) a(3)])
  moreover have "file_ok ef2 (exfat_update_atime ?node) cs" by (rule file_ok_cong[OF f2]) (use assms(2) in \<open>auto simp: exfat_update_atime_def file_ok_def\<close>)
  moreover have "node_eq node ?node" "node_eq node (exfat_update_atime ?node)" by (simp_all add: node_eq_def exfat_update_atime_def)
  moreover have "pread_clusters ops node buf bi n uoffset ef = Some (int M, buf_put buf bi (map (content ef cs) [unat uoffset..<unat uoffset + M]),
      if nd_attrib node AND EXFAT_ATTRIB_DIR = 0 \<and> \<not> ef_ro ef2 \<and> \<not> ef_noatime ef2 then exfat_update_atime ?node else ?node, ef2)"
    unfolding pread_clusters_def Let_def vol_okD(1)[OF assms(1)] mod_position sm same[symmetric] using a(1) v r(1) sm by (simp add: invalid_iff vol_okD(1)[OF vo1])
  ultimately show ?thesis
    by (cases "nd_attrib node AND EXFAT_ATTRIB_DIR = 0 \<and> \<not> ef_ro ef2 \<and> \<not> ef_noatime ef2") auto
qed

lemma pwrite_clusters_ok:
  assumes "vol_ok ef" "file_ok ef node cs" "0 < unat n" "unat uoffset + unat n \<le> unat (nd_size node)" "unat n \<le> length buf"
  shows "\<exists>node' ef'. pwrite_clusters ops buf n uoffset node ef = Some (int (unat n), node', ef') \<and> stored cs (unat uoffset) (take (unat n) buf) ef ef' \<and>
    file_ok ef' node' cs \<and> valid_size node' = max (valid_size node) (uoffset + n) \<and> nd_size node' = nd_size node \<and> nd_attrib node' = nd_attrib node \<and>
    nd_references node' = nd_references node \<and> nd_parent node' = nd_parent node"
proof -
  let ?i = "unat uoffset div clus_size sb" and ?L = "unat uoffset mod clus_size sb"
  let ?node = "node\<lparr>fptr_index := ucast (uoffset div ucast (CLUSTER_SIZE sb)), fptr_cluster := cs ! ?i\<rparr>"
  obtain ef1 where a: "exfat_advance_cluster ops (ucast (uoffset div ucast (CLUSTER_SIZE sb))) node ef = Some (cs ! ?i, ?node, ef1)"
    "stored cs 0 [] ef ef1" "file_ok ef1 ?node cs" "?i < length cs" by (rule seek_ok[OF assms(1,2)]) (use assms(3,4) in auto)
  have vo1: "vol_ok ef1" using a(2) by (simp add: stored_def)
  have lk: "linked ef1 (is_contiguous ?node) cs" using a(3) by (simp add: file_ok_def file_at_def)
  have v: "data_cluster sb (cs ! ?i)" by (rule linked_nth[OF lk a(4)])
  have sz: "unat (nd_size node) < 2 ^ 63" "unat (nd_size node) \<le> length cs * clus_size sb" "unat (valid_size node) \<le> unat (nd_size node)"
    using assms(2) clusters_for_ge[of "unat (nd_size node)"] by (auto simp: file_ok_def word_le_nat_alt)
  have lt: "?L < clus_size sb" "?i * clus_size sb + ?L = unat uoffset" using clus_pos(1) by simp_all
  have un: "unat (uoffset + n) = unat uoffset + unat n" using assms(4) sz(1) by (subst unat_add_nowrap) auto
  have sm: "sint n = int (unat n)" using sint64_small[of n] assms(4) sz(1) by simp
  let ?node2 = "?node\<lparr>valid_size := max (valid_size node) (uoffset + n)\<rparr>"
  have bg: "buf_get (unat n) buf 0 = take (unat n) buf" by (simp add: buf_get_def)
  obtain ef2 where r: "write_clusters ops buf 0 n uoffset (cs ! ?i) (int ?L) (int (unat n)) ?node ef1 = Some (Inr 0, ?node2, ef2)"
    "stored cs (unat uoffset) (take (unat n) buf) ef1 ef2"
    using write_clusters_ok[OF vo1 lk, of "unat n" ?i "cs ! ?i" ?L 0 buf uoffset n] a(4) lt assms(3-5) sz(2) un unfolding bg by auto
  have st: "stored cs (unat uoffset) (take (unat n) buf) ef ef2"
  proof -
    have "stored cs (unat uoffset) [] ef ef1" using a(2) by (auto simp: stored_def)
    then show ?thesis using stored_trans[of cs "unat uoffset" "[]" ef ef1 "take (unat n) buf" ef2] r(2) by simp
  qed
  have "max (valid_size node) (uoffset + n) \<le> nd_size node" using sz(3) un assms(4) by (simp add: max_def word_le_nat_alt)
  then have f2: "file_ok ef2 ?node2 cs" by (intro file_ok_cong[OF file_ok_stored[OF r(2) a(3)]]) auto
  moreover have "file_ok ef2 (exfat_update_mtime ?node2) cs"
    by (rule file_ok_cong[OF f2]) (use f2 in \<open>auto simp: exfat_update_mtime_def file_ok_def\<close>)
  moreover have "pwrite_clusters ops buf n uoffset node ef =
      Some (int (unat n), if nd_attrib node AND EXFAT_ATTRIB_DIR = 0 then exfat_update_mtime ?node2 else ?node2, ef2)"
    unfolding pwrite_clusters_def Let_def vol_okD(1)[OF assms(1)] mod_position sm using a(1) v r(1) sm by (simp add: invalid_iff vol_okD(1)[OF vo1])
  ultimately show ?thesis
    using st by (cases "nd_attrib node AND EXFAT_ATTRIB_DIR = 0") (auto simp: exfat_update_mtime_def)
qed

end

end
