(* ===== verification/Exfat_Access.thy ===== *)
theory Exfat_Access
  imports Exfat_File
begin

text \<open>
  \<^verbatim>\<open>exfat_generic_pread\<close> and \<^verbatim>\<open>exfat_generic_pwrite\<close> on the bytes of a file.
\<close>

context exfat_volume
begin

section \<open>Reading\<close>

lemma node_bytes_slice:
  assumes "p + m \<le> unat (nd_size node)" "q \<le> m" "\<And>k. k < m \<Longrightarrow> p + k < unat (valid_size node) \<longleftrightarrow> k < q"
  shows "take m (drop p (node_bytes ef node cs)) = map (content ef cs) [p..<p + q] @ replicate (m - q) 0"
  using assms by (intro nth_equalityI) (auto simp: node_bytes_def nth_append)

lemma generic_pread_ok:
  assumes vo: "vol_ok ef" and f: "file_ok ef node cs" and o: "unat offset < 2 ^ 63" and n: "unat n < 2 ^ 63" "bi + unat n \<le> length buf"
  defines "m \<equiv> min (unat n) (unat (nd_size node) - unat offset)"
  shows "\<exists>bs node' ef'. exfat_generic_pread ops node buf bi n offset ef = Some (int m, buf_put buf bi bs, node', ef') \<and>
    m \<le> length bs \<and> length bs \<le> unat n \<and> take m bs = take m (drop (unat offset) (node_bytes ef node cs)) \<and>
    stored cs 0 [] ef ef' \<and> file_ok ef' node' cs \<and> node_eq node node'"
proof -
  let ?s = "unat (nd_size node)" and ?v = "unat (valid_size node)" and ?o = "unat offset" and ?n = "unat n"
  have pos: "\<not> offset <s 0" by (rule nonneg_small[OF o])
  have sz: "?s < 2 ^ 63" "?v \<le> ?s" using f by (auto simp: file_ok_def word_le_nat_alt)
  have on: "unat (offset + n) = ?o + ?n" using o n(1) by (subst unat_add_nowrap) auto
  have same: "stored cs 0 [] ef ef" by (rule stored_refl[OF vo])
  consider (none) "?s \<le> ?o \<or> ?n = 0" | (inside) "?o < ?s" "0 < ?n" "?o + ?n \<le> ?v"
    | (across) "?o < ?s" "0 < ?n" "?v < ?o + ?n" "?o < ?v" | (beyond) "?o < ?s" "0 < ?n" "?v \<le> ?o" by linarith
  then show ?thesis
  proof cases
    case none
    then have "exfat_generic_pread ops node buf bi n offset ef = Some (int m, buf_put buf bi [], node, ef)"
      using pos by (auto simp: exfat_generic_pread_def m_def word_le_nat_alt unat_eq_0)
    moreover have "m = 0" using none by (auto simp: m_def)
    ultimately show ?thesis using same f by (auto intro!: exI[of _ "[]"])
  next
    case inside
    have run: "exfat_generic_pread ops node buf bi n offset ef = pread_clusters ops node buf bi n offset ef"
      using pos inside on by (auto simp: exfat_generic_pread_def word_le_nat_alt word_less_nat_alt)
    have m: "m = ?n" using inside sz(2) by (simp add: m_def)
    have "take m (drop ?o (node_bytes ef node cs)) = map (content ef cs) [?o..<?o + m] @ replicate (m - m) 0"
      by (rule node_bytes_slice) (use inside sz(2) m in auto)
    then show ?thesis unfolding run using pread_clusters_ok[OF vo f inside(1) _ refl, of bi n buf] n(2) m m_def
      by (auto intro!: exI[of _ "map (content ef cs) [?o..<?o + m]"])
  next
    case across
    have nz: "n \<noteq> 0" using across(2) by auto
    let ?M = "?v - ?o" and ?k = "min (?n - (?v - ?o)) (?s - ?v)"
    have ux: "unat (valid_size node - offset) = ?M" using across by (simp add: unat_sub word_le_nat_alt)
    have M: "?M = min (unat (valid_size node - offset)) (?s - ?o)" using ux sz(2) by simp
    have fit: "bi + ?M \<le> length buf" using across(3) n(2) by linarith
    obtain node1 ef1 where r: "pread_clusters ops node buf bi (valid_size node - offset) offset ef =
        Some (int ?M, buf_put buf bi (map (content ef cs) [?o..<?o + ?M]), node1, ef1)"
      "stored cs 0 [] ef ef1" "file_ok ef1 node1 cs" "node_eq node node1"
      using pread_clusters_ok[OF vo f across(1) fit M] by blast
    have ne: "nd_size node1 = nd_size node" "valid_size node1 = valid_size node" using r(4) by (auto simp: node_eq_def)
    have w: "unat (word_of_int (int ?M) :: u64) = ?M" by (rule unat_word_of_int) (use sz in simp)
    have we: "(word_of_int (int ?M) :: u64) = valid_size node - offset" using w ux by (simp add: word_unat_eq_iff)
    have k: "unat (min (n - word_of_int (int ?M)) (nd_size node - valid_size node)) = ?k"
      using across sz(2) w by (auto simp: min_def word_le_nat_alt unat_sub)
    have m: "m = ?M + ?k" using across sz(2) by (auto simp: m_def)
    have mm: "unat (min n (nd_size node - offset)) = m" using across by (auto simp: m_def min_def word_le_nat_alt unat_sub)
    have sm: "sint (min n (nd_size node - offset)) = int m" using sint64_small[of "min n (nd_size node - offset)"] mm n(1) by (simp add: m_def)
    let ?bs = "map (content ef cs) [?o..<?o + ?M] @ replicate ?k 0"
    have p: "buf_put (buf_put buf bi (map (content ef cs) [?o..<?o + ?M])) (bi + ?M) (replicate ?k 0) = buf_put buf bi ?bs"
      using buf_put_put[of bi "map (content ef cs) [?o..<?o + ?M]" "replicate ?k 0" buf] across n(2) by simp
    have "memset (buf_put buf bi (map (content ef cs) [?o..<?o + ?M])) (bi + ?M) 0 ?k = Some (buf_put buf bi ?bs)"
      unfolding p[symmetric] by (rule memset_eq) (use across n(2) in auto)
    then have run: "exfat_generic_pread ops node buf bi n offset ef = Some (int m, buf_put buf bi ?bs, node1, ef1)"
      using pos across on r(1) k ne we sm nz by (simp add: exfat_generic_pread_def word_le_nat_alt word_less_nat_alt unat_eq_0 flip: of_nat_diff)
    have "take m (drop ?o (node_bytes ef node cs)) = map (content ef cs) [?o..<?o + ?M] @ replicate (m - ?M) 0"
      by (rule node_bytes_slice) (use across sz(2) m in auto)
    moreover have "m \<le> ?n" by (simp add: m_def)
    ultimately show ?thesis using run r(2-4) m
      by (intro exI[of _ ?bs] exI[of _ node1] exI[of _ ef1]) simp
  next
    case beyond
    have nz: "n \<noteq> 0" using beyond(2) by auto
    let ?k = "min ?n (?s - ?v)"
    have k: "unat (min n (nd_size node - valid_size node)) = ?k" using sz(2) by (auto simp: min_def word_le_nat_alt unat_sub)
    have mm: "unat (min n (nd_size node - offset)) = m" using beyond by (auto simp: m_def min_def word_le_nat_alt unat_sub)
    have sm: "sint (min n (nd_size node - offset)) = int m" using sint64_small[of "min n (nd_size node - offset)"] mm n(1) by (simp add: m_def)
    have "memset buf bi 0 ?k = Some (buf_put buf bi (replicate ?k 0))" by (rule memset_eq) (use n(2) in auto)
    then have run: "exfat_generic_pread ops node buf bi n offset ef = Some (int m, buf_put buf bi (replicate ?k 0), node, ef)"
      using pos beyond on k sm nz by (simp add: exfat_generic_pread_def word_le_nat_alt word_less_nat_alt unat_eq_0)
    have "m \<le> ?k" using beyond by (auto simp: m_def)
    moreover have "take m (drop ?o (node_bytes ef node cs)) = map (content ef cs) [?o..<?o + 0] @ replicate (m - 0) 0"
      by (rule node_bytes_slice) (use beyond in \<open>auto simp: m_def\<close>)
    ultimately show ?thesis using run same f by (auto intro!: exI[of _ "replicate ?k 0"])
  qed
qed

section \<open>Writing\<close>

lemma moved_count:
  assumes "vol_ok ef" "vol_ok ef'" "moved cs cs' ef ef'" "file_at ef node cs" "file_at ef' node' cs'"
  shows "free_count ef' + length cs' = free_count ef + length cs"
proof -
  let ?N = "unat (sb_cluster_count sb)"
  let ?U = "\<lambda>ef. {j. j < ?N \<and> used ef j}" and ?I = "\<lambda>cs. idx ` set cs"
  have free: "free_count e = ?N - card (?U e)" if "vol_ok e" for e
  proof -
    have "{i. i < ?N \<and> \<not> used e i} = {..<?N} - ?U e" by auto
    moreover have "card ({..<?N} - ?U e) = card {..<?N} - card (?U e)" by (rule card_Diff_subset) auto
    ultimately show ?thesis using vol_okD(4)[OF that] by (simp add: free_count_def)
  qed
  have le: "card (?U e) \<le> ?N" for e :: "'s exfat" using card_mono[of "{..<?N}" "?U e"] by auto
  have I: "?I ds \<subseteq> {..<?N}" "card (?I ds) = length ds" if "linked e b ds" for e b ds
  proof -
    show "?I ds \<subseteq> {..<?N}" using that by (auto simp: linked_def data_cluster_def idx_def)
    have "inj_on idx (set ds)" using that idx_inj by (auto simp: inj_on_def linked_def)
    then show "card (?I ds) = length ds" using that by (simp add: card_image distinct_card linked_def)
  qed
  note lk = assms(4,5)[unfolded file_at_def, THEN conjunct1]
  have sub: "?I cs \<subseteq> ?U ef" using I(1)[OF lk(1)] assms(4) by (auto simp: file_at_def)
  have dis: "?I cs' \<inter> (?U ef - ?I cs) = {}" using assms(3) by (auto simp: moved_def)
  have eq: "?U ef' = (?U ef - ?I cs) \<union> ?I cs'" using assms(3) I(1)[OF lk(2)] by (auto simp: moved_def)
  have "card (?U ef') = card (?U ef - ?I cs) + card (?I cs')" unfolding eq by (rule card_Un_disjoint) (use dis in auto)
  moreover have "card (?U ef - ?I cs) = card (?U ef) - length cs" using card_Diff_subset[OF _ sub] I(2)[OF lk(1)] by simp
  moreover have "length cs \<le> card (?U ef)" using card_mono[OF _ sub] I(2)[OF lk(1)] by simp
  ultimately show ?thesis using free[OF assms(1)] free[OF assms(2)] I(2)[OF lk(2)] le[of ef] le[of ef'] by linarith
qed

lemma files_count:
  assumes "mounted ef" "mounted ef'" "moved cs cs' ef ef'" "file_ok ef node cs" "file_ok ef' node' cs'"
  shows "free_count ef' + length cs' = free_count ef + length cs"
  using assms by (intro moved_count[of ef ef' cs cs' node node']) (simp_all add: mounted_def file_ok_def)

lemma others_trans:
  assumes "others cs ef ef1" "moved cs cs1 ef ef1" "others cs1 ef1 ef2"
  shows "others cs ef ef2"
  unfolding others_def
proof (intro allI impI)
  fix c assume c: "data_cluster sb c \<and> used ef (idx c) \<and> c \<notin> set cs"
  then have "c \<notin> set cs1" using assms(2) by (auto simp: moved_def)
  then show "used ef2 (idx c) \<and> table ef2 c = table ef c \<and> (\<forall>k < clus_size sb. data ef2 c k = data ef c k)"
    using c assms(1,3) by (auto simp: others_def)
qed

lemma write_within_ok:
  assumes m: "mounted ef" and f: "file_ok ef node cs" and n: "0 < unat n" "unat offset + unat n \<le> unat (nd_size node)" "unat n \<le> length buf"
    and v: "unat offset \<le> unat (valid_size node)"
  shows "\<exists>node' ef'. pwrite_clusters ops buf n offset node ef = Some (int (unat n), node', ef') \<and> mounted ef' \<and> file_ok ef' node' cs \<and>
    stored cs (unat offset) (take (unat n) buf) ef ef' \<and> node_bytes ef' node' cs = buf_put (node_bytes ef node cs) (unat offset) (take (unat n) buf)"
proof -
  let ?o = "unat offset" and ?n = "unat n"
  note vo = m[unfolded mounted_def, THEN conjunct1]
  obtain node' ef' where w: "pwrite_clusters ops buf n offset node ef = Some (int ?n, node', ef')" "stored cs ?o (take ?n buf) ef ef'" "file_ok ef' node' cs"
    "valid_size node' = max (valid_size node) (offset + n)" "nd_size node' = nd_size node"
    using pwrite_clusters_ok[OF vo f n] by blast
  have s: "unat (nd_size node) < 2 ^ 63" "unat (nd_size node) \<le> length cs * clus_size sb"
    using f clusters_for_ge[of "unat (nd_size node)"] by (auto simp: file_ok_def)
  have "unat (offset + n) = ?o + ?n" using n(2) s(1) by (subst unat_add_nowrap) auto
  then have vs: "unat (valid_size node') = max (unat (valid_size node)) (?o + ?n)" by (auto simp: w(4) max_def word_le_nat_alt)
  have "node_bytes ef' node' cs = buf_put (node_bytes ef node cs) ?o (take ?n buf)"
  proof (rule nth_equalityI)
    show "length (node_bytes ef' node' cs) = length (buf_put (node_bytes ef node cs) ?o (take ?n buf))" using n by (simp add: w(5))
    fix k assume "k < length (node_bytes ef' node' cs)"
    then have k: "k < unat (nd_size node)" by (simp add: w(5))
    then have "content ef' cs k = (if ?o \<le> k \<and> k < ?o + ?n then take ?n buf ! (k - ?o) else content ef cs k)"
      using w(2) s(2) n(3) by (auto simp: stored_def)
    moreover have "buf_put (node_bytes ef node cs) ?o (take ?n buf) ! k = (if ?o \<le> k \<and> k < ?o + ?n then take ?n buf ! (k - ?o) else node_bytes ef node cs ! k)"
      using k n by (auto simp: buf_put_def nth_append min_absorb1 min_absorb2)
    ultimately show "node_bytes ef' node' cs ! k = buf_put (node_bytes ef node cs) ?o (take ?n buf) ! k"
      using k v vs by (auto simp: node_bytes_def w(5))
  qed
  then show ?thesis using w(1-3) mounted_stored[OF m w(2)] by blast
qed

definition pwrite_tail :: "bytes \<Rightarrow> u64 \<Rightarrow> u64 \<Rightarrow> exfat_node \<Rightarrow> 's exfat \<Rightarrow> (int \<times> exfat_node \<times> 's exfat) option" where
  "pwrite_tail buf n offset node ef =
     (case (if offset + n > nd_size node then exfat_truncate ops (offset + n) False node ef else Some (0, node, ef)) of
        None \<Rightarrow> None
      | Some (rc, node2, ef2) \<Rightarrow>
          if rc \<noteq> 0 then Some (rc, node2, ef2)
          else if n = 0 then Some (0, node2, ef2)
          else pwrite_clusters ops buf n offset node2 ef2)"

text \<open>The outcome of a write: all of it, or no room and the bytes \<open>old\<close> left in the file.\<close>

definition pwritten :: "u32 list \<Rightarrow> 's exfat \<Rightarrow> bytes \<Rightarrow> (int \<times> exfat_node \<times> 's exfat) option \<Rightarrow> int \<Rightarrow> bool" where
  "pwritten cs ef bs r rc \<longleftrightarrow> (\<exists>node' ef' cs'. r = Some (rc, node', ef') \<and> mounted ef' \<and> file_ok ef' node' cs' \<and> others cs ef ef' \<and>
     free_count ef' + length cs' = free_count ef + length cs \<and> node_bytes ef' node' cs' = bs)"

lemma pwritten_same: "mounted ef \<Longrightarrow> file_ok ef node cs \<Longrightarrow> pwritten cs ef (node_bytes ef node cs) (Some (rc, node, ef)) rc"
  by (auto simp: pwritten_def others_def)

lemma pwritten_trans:
  assumes "pwritten cs1 ef1 bs r rc" "others cs ef ef1" "moved cs cs1 ef ef1" "free_count ef1 + length cs1 = free_count ef + length cs"
  shows "pwritten cs ef bs r rc"
  using assms others_trans[OF assms(2,3)] unfolding pwritten_def by metis

lemma pwrite_tail_ok:
  assumes m: "mounted ef" and f: "file_ok ef node cs" and r: "nd_references node \<noteq> 0 \<or> \<not> nd_parent node"
    and n: "unat offset + unat n < 2 ^ 63" "clusters_for (unat offset + unat n) < 2 ^ 32" "unat n \<le> length buf"
    and v: "unat offset \<le> unat (valid_size node)"
  defines "S \<equiv> max (unat (nd_size node)) (unat offset + unat n)"
  shows "if clusters_for S \<le> length cs + free_count ef
    then pwritten cs ef (buf_put (resize S (node_bytes ef node cs)) (unat offset) (take (unat n) buf)) (pwrite_tail buf n offset node ef) (int (unat n))
    else pwritten cs ef (node_bytes ef node cs) (pwrite_tail buf n offset node ef) (-28)"
proof -
  let ?o = "unat offset" and ?n = "unat n" and ?s = "unat (nd_size node)"
  have on: "unat (offset + n) = ?o + ?n" using n(1) by (subst unat_add_nowrap) auto
  have sz: "unat (valid_size node) \<le> ?s" "?s < 2 ^ 63" "length cs = clusters_for ?s" using f by (auto simp: file_ok_def word_le_nat_alt)
  note vo = m[unfolded mounted_def, THEN conjunct1]
  have lk: "linked ef (is_contiguous node) cs" using f by (simp add: file_ok_def file_at_def)
  show ?thesis
  proof (cases "?o + ?n \<le> ?s")
    case True
    then have S: "S = ?s" by (simp add: S_def)
    have rs: "resize ?s (node_bytes ef node cs) = node_bytes ef node cs" by (simp add: resize_def)
    have tail: "pwrite_tail buf n offset node ef = (if n = 0 then Some (0, node, ef) else pwrite_clusters ops buf n offset node ef)"
      using True on by (simp add: pwrite_tail_def word_less_nat_alt)
    show ?thesis
    proof (cases "n = 0")
      case N: True
      then have "pwrite_tail buf n offset node ef = Some (int ?n, node, ef)" using tail by simp
      then show ?thesis using N pwritten_same[OF m f] sz(3) by (simp add: S rs)
    next
      case N: False
      then have "0 < ?n" by (simp add: unat_gt_0)
      then obtain node' ef' where w: "pwrite_clusters ops buf n offset node ef = Some (int ?n, node', ef')" "mounted ef'" "file_ok ef' node' cs"
        "stored cs ?o (take ?n buf) ef ef'" "node_bytes ef' node' cs = buf_put (node_bytes ef node cs) ?o (take ?n buf)"
        using write_within_ok[OF m f _ True n(3) v] by blast
      have mv: "moved cs cs ef ef" by (rule moved_refl) (use f in \<open>auto simp: file_ok_def\<close>)
      have "others cs ef ef'" by (rule others_stored[OF _ mv w(4) lk]) (simp add: others_def)
      moreover have "free_count ef' = free_count ef" using w(4) by (simp add: stored_def meta_eq_def free_count_def)
      ultimately show ?thesis using N w sz(3) by (auto simp: tail S rs pwritten_def)
    qed
  next
    case False
    then have S: "S = ?o + ?n" and N: "n \<noteq> 0" "0 < ?n" using v sz(1) by (auto simp: S_def unat_gt_0 intro: gr0I)
    obtain rc node1 ef1 cs1 where t: "exfat_truncate ops (offset + n) False node ef = Some (rc, node1, ef1)" "mounted ef1" "file_ok ef1 node1 cs1" "others cs ef ef1"
      "moved cs cs1 ef ef1" "if clusters_for (?o + ?n) \<le> length cs + free_count ef
       then rc = 0 \<and> truncated False (offset + n) node node1 \<and> node_bytes ef1 node1 cs1 = resize (?o + ?n) (node_bytes ef node cs)
       else rc = -28 \<and> node_eq node node1 \<and> cs1 = cs \<and> node_bytes ef1 node1 cs1 = node_bytes ef node cs"
      using truncate_ok[OF m f r, of "offset + n" False] n(1,2) unfolding on by blast
    have c1: "free_count ef1 + length cs1 = free_count ef + length cs"
      by (rule files_count[OF m t(2,5) f t(3)])
    have tail: "pwrite_tail buf n offset node ef = (if rc \<noteq> 0 then Some (rc, node1, ef1) else pwrite_clusters ops buf n offset node1 ef1)"
      using False on N t(1) by (simp add: pwrite_tail_def word_less_nat_alt)
    show ?thesis
    proof (cases "clusters_for (?o + ?n) \<le> length cs + free_count ef")
      case no: False
      then show ?thesis using t(2-6) c1 unfolding tail S pwritten_def by auto
    next
      case yes: True
      then have t6: "rc = 0" "truncated False (offset + n) node node1" "node_bytes ef1 node1 cs1 = resize (?o + ?n) (node_bytes ef node cs)" using t(6) by auto
      have s1: "unat (nd_size node1) = ?o + ?n" using t6(2) on by (simp add: truncated_def)
      have "nd_size node \<noteq> offset + n" "valid_size node \<le> offset + n" using False sz(1) on by (auto simp: word_le_nat_alt)
      then have v1: "valid_size node1 = valid_size node" using t6(2) by (simp add: truncated_def min_def)
      obtain node' ef' where w: "pwrite_clusters ops buf n offset node1 ef1 = Some (int ?n, node', ef')" "mounted ef'" "file_ok ef' node' cs1"
        "stored cs1 ?o (take ?n buf) ef1 ef'" "node_bytes ef' node' cs1 = buf_put (node_bytes ef1 node1 cs1) ?o (take ?n buf)"
        using write_within_ok[OF t(2,3) N(2) _ n(3), of offset] s1 v v1 by auto
      have "others cs ef ef'" by (rule others_stored[OF t(4,5) w(4) lk])
      moreover have "free_count ef' = free_count ef1" using w(4) by (simp add: stored_def meta_eq_def free_count_def)
      ultimately show ?thesis using w c1 t6 yes unfolding tail S pwritten_def by auto
    qed
  qed
qed

lemma generic_pwrite_ok:
  assumes m: "mounted ef" and f: "file_ok ef node cs" and r: "nd_references node \<noteq> 0 \<or> \<not> nd_parent node"
    and n: "unat offset + unat n < 2 ^ 63" "clusters_for (unat offset + unat n) < 2 ^ 32" "unat n \<le> length buf"
    and v: "unat offset \<le> unat (valid_size node) \<or> unat (nd_size node) < unat offset"
  defines "S \<equiv> max (unat (nd_size node)) (unat offset + unat n)"
  shows "if clusters_for S \<le> length cs + free_count ef
    then pwritten cs ef (buf_put (resize S (node_bytes ef node cs)) (unat offset) (take (unat n) buf)) (exfat_generic_pwrite ops buf n offset node ef) (int (unat n))
    else pwritten cs ef (if unat offset \<le> unat (nd_size node) \<or> length cs + free_count ef < clusters_for (unat offset) then node_bytes ef node cs
                        else resize (unat offset) (node_bytes ef node cs)) (exfat_generic_pwrite ops buf n offset node ef) (-28)"
proof -
  let ?o = "unat offset" and ?n = "unat n" and ?s = "unat (nd_size node)"
  note vo = m[unfolded mounted_def, THEN conjunct1]
  have pos: "\<not> offset <s 0" by (rule nonneg_small) (use n(1) in simp)
  have sz: "unat (valid_size node) \<le> ?s" using f by (auto simp: file_ok_def word_le_nat_alt)
  have mono: "clusters_for ?o \<le> clusters_for (?o + ?n)" by (simp add: clusters_for_def div_le_mono)
  show ?thesis
  proof (cases "?o \<le> ?s")
    case True
    then have "exfat_generic_pwrite ops buf n offset node ef = pwrite_tail buf n offset node ef"
      using pos by (simp add: exfat_generic_pwrite_def pwrite_tail_def word_less_nat_alt)
    then show ?thesis using pwrite_tail_ok[OF m f r n] True v unfolding S_def by auto
  next
    case False
    then have S: "S = ?o + ?n" by (simp add: S_def)
    obtain rc node1 ef1 cs1 where t: "exfat_truncate ops offset True node ef = Some (rc, node1, ef1)" "mounted ef1" "file_ok ef1 node1 cs1" "others cs ef ef1"
      "moved cs cs1 ef ef1" "if clusters_for ?o \<le> length cs + free_count ef
       then rc = 0 \<and> truncated True offset node node1 \<and> node_bytes ef1 node1 cs1 = resize ?o (node_bytes ef node cs)
       else rc = -28 \<and> node_eq node node1 \<and> cs1 = cs \<and> node_bytes ef1 node1 cs1 = node_bytes ef node cs"
      using truncate_ok[OF m f r, of offset True] n(1,2) mono by fastforce
    have c1: "free_count ef1 + length cs1 = free_count ef + length cs"
      by (rule files_count[OF m t(2,5) f t(3)])
    have run: "exfat_generic_pwrite ops buf n offset node ef = (if rc \<noteq> 0 then Some (rc, node1, ef1) else pwrite_tail buf n offset node1 ef1)"
      using False pos t(1) by (simp add: exfat_generic_pwrite_def pwrite_tail_def word_less_nat_alt)
    show ?thesis
    proof (cases "clusters_for ?o \<le> length cs + free_count ef")
      case no: False
      then have "\<not> clusters_for S \<le> length cs + free_count ef" using mono unfolding S by linarith
      moreover have "pwritten cs ef (node_bytes ef node cs) (exfat_generic_pwrite ops buf n offset node ef) (-28)"
        using t(2-6) no c1 unfolding run pwritten_def by auto
      ultimately show ?thesis using no False by auto
    next
      case yes: True
      then have t6: "rc = 0" "truncated True offset node node1" "node_bytes ef1 node1 cs1 = resize ?o (node_bytes ef node cs)" using t(6) by auto
      have s1: "nd_size node1 = offset" "valid_size node1 = offset" "nd_references node1 \<noteq> 0 \<or> \<not> nd_parent node1"
        using t6(2) r False by (auto simp: truncated_def)
      have rs: "resize (?o + ?n) (resize ?o (node_bytes ef node cs)) = resize (?o + ?n) (node_bytes ef node cs)"
        using False by (intro nth_equalityI) (auto simp: resize_nth)
      have "if clusters_for S \<le> length cs1 + free_count ef1
        then pwritten cs1 ef1 (buf_put (resize S (node_bytes ef1 node1 cs1)) ?o (take ?n buf)) (pwrite_tail buf n offset node1 ef1) (int ?n)
        else pwritten cs1 ef1 (node_bytes ef1 node1 cs1) (pwrite_tail buf n offset node1 ef1) (-28)"
        using pwrite_tail_ok[OF t(2,3) s1(3) n] unfolding s1 S max_absorb2[OF le_add1] by simp
      then have "if clusters_for S \<le> length cs + free_count ef
        then pwritten cs1 ef1 (buf_put (resize S (node_bytes ef node cs)) ?o (take ?n buf)) (pwrite_tail buf n offset node1 ef1) (int ?n)
        else pwritten cs1 ef1 (resize ?o (node_bytes ef node cs)) (pwrite_tail buf n offset node1 ef1) (-28)"
        unfolding t6(3) S rs by (simp only: c1[symmetric] add.commute[of "free_count ef1"] add.commute[of "length cs"])
      then show ?thesis using pwritten_trans[OF _ t(4,5) c1] t6(1) False yes unfolding run by (auto split: if_splits)
    qed
  qed
qed

end

end
