(* ===== verification/Exfat_Correct.thy ===== *)
theory Exfat_Correct
  imports Exfat_Access
begin

text \<open>
  The correctness statements of the exFAT cluster and file access, for an arbitrary device that satisfies
  the block-device contract and a super block whose table and clusters lie on it.
\<close>

context block_device
begin

lemma volume_contract: "byte_volume ops (vol_byte sect) (io_ok dev_ok P) (vol_bytes lbas P)"
  by unfold_locales

end

lemma exfat_on_block_device:
  assumes "block_device ops sect dev_ok lbas" "geometry sb (vol_bytes lbas P)"
  shows "exfat_volume ops (vol_byte sect) (io_ok dev_ok P) (vol_bytes lbas P) sb"
proof -
  have "byte_volume ops (vol_byte sect) (io_ok dev_ok P) (vol_bytes lbas P)" by (rule block_device.volume_contract[OF assms(1)])
  then show ?thesis using assms(2) by (simp add: exfat_volume_def exfat_volume_axioms_def)
qed

abbreviation exfat_mounted where "exfat_mounted dev_ok P sb \<equiv> exfat_volume.mounted (io_ok dev_ok P) sb"
abbreviation exfat_file where "exfat_file sect sb \<equiv> exfat_volume.file_ok (vol_byte sect) sb"
abbreviation exfat_bytes where "exfat_bytes sect sb \<equiv> exfat_volume.node_bytes (vol_byte sect) sb"
abbreviation clusters_needed where "clusters_needed sb \<equiv> exfat_volume.clusters_for sb"

text \<open>Every file that owns none of the clusters \<open>cs\<close> is where and what it was.\<close>

definition other_files_kept :: "('s \<Rightarrow> nat \<Rightarrow> bytes) \<Rightarrow> exfat_super_block \<Rightarrow> u32 list \<Rightarrow> 's exfat \<Rightarrow> 's exfat \<Rightarrow> bool" where
  "other_files_kept sect sb cs ef ef' \<longleftrightarrow> (\<forall>node2 cs2. exfat_file sect sb ef node2 cs2 \<and> set cs2 \<inter> set cs = {} \<longrightarrow>
     exfat_file sect sb ef' node2 cs2 \<and> exfat_bytes sect sb ef' node2 cs2 = exfat_bytes sect sb ef node2 cs2)"

lemma others_kept:
  "exfat_volume ops (vol_byte sect) ok vol sb \<Longrightarrow> exfat_volume.others (vol_byte sect) sb cs ef ef' \<Longrightarrow> other_files_kept sect sb cs ef ef'"
  unfolding other_files_kept_def by (blast dest: exfat_volume.others_file)

section \<open>A small volume\<close>

text \<open>Sixteen one-sector clusters from sector 2 on, the table in sector 1; no cluster is used.\<close>

definition sample_sb :: exfat_super_block where
  "sample_sb = \<lparr>sb_jump = [0xeb, 0x76, 0x90], sb_oem_name = replicate 8 32, sb_unused1 = replicate 53 0, sb_sector_start = 0, sb_sector_count = 64, sb_fat_sector_start = 1, sb_fat_sector_count = 1,
     sb_cluster_sector_start = 2, sb_cluster_count = 16, sb_rootdir_cluster = 2, sb_volume_serial = 1,
     sb_version_minor = 0, sb_version_major = 1, sb_volume_state = 0, sb_sector_bits = 9, sb_spc_bits = 0, sb_fat_count = 1, sb_drive_no = 0x80,
     sb_allocated_percent = 0, sb_unused2 = replicate 397 0, sb_boot_signature = 0xaa55\<rparr>"

definition sample_exfat :: "(nat \<Rightarrow> bytes) exfat" where
  "sample_exfat = \<lparr>ef_io = \<lparr>io_disk = \<lambda>l. replicate 512 0, exfat_partition_offset = 0, pread_buf = replicate 512 0, pwrite_buf = replicate 512 0\<rparr>,
     ef_sb = sample_sb, cmap_start_cluster = 2, cmap_size = 16, cmap_chunk = [0], cmap_chunk_size = 16, cmap_dirty = False,
     zero_cluster = replicate 512 0, ef_ro = False, ef_noatime = False\<rparr>"

definition sample_node :: exfat_node where
  "sample_node = \<lparr>nd_parent = False, nd_references = 1, fptr_index = 0, fptr_cluster = 0, start_cluster = 0, nd_attrib = 0, is_contiguous = False,
     is_dirty = False, valid_size = 0, nd_size = 0, nd_mtime = 0, nd_atime = 0\<rparr>"

lemma sample_geometry: "geometry sample_sb (vol_bytes UNIV 0)"
  by (auto simp: geometry_def sample_sb_def vol_bytes_def clus_size_def)

interpretation sample: exfat_volume ram_storage "vol_byte (\<lambda>d. d)" "io_ok ram_ok 0" "vol_bytes UNIV 0" sample_sb
  by (rule exfat_on_block_device[OF ram_block_device sample_geometry])

lemma sample_mounted: "exfat_mounted ram_ok 0 sample_sb sample_exfat"
  by (simp add: sample.mounted_def sample.vol_ok_def sample_exfat_def io_ok_def ram_ok_def map_ok_def clus_size_def) (simp add: sample_sb_def)

lemma sample_all_free: "free_count sample_exfat = 16"
proof -
  have "{i. i < unat (cmap_size sample_exfat) \<and> \<not> used sample_exfat i} = {..<16}" by (auto simp: sample_exfat_def used_bit_def)
  then show ?thesis by (simp add: free_count_def)
qed

lemma sample_needed: "clusters_needed sample_sb n = (n + 511) div 512"
  unfolding sample.clusters_for_def by (simp add: clus_size_def sample_sb_def)

lemma sample_file: "exfat_file (\<lambda>d. d) sample_sb sample_exfat sample_node []"
  by (simp add: sample.file_ok_def sample.file_at_def sample.linked_def sample.ended_def sample_node_def sample_needed)

text \<open>A full free-space bitmap of 16 clusters in which only clusters 2 and 5 are taken.\<close>

definition sample_bitmap :: "(nat \<Rightarrow> bytes) exfat" where
  "sample_bitmap = sample_exfat\<lparr>cmap_chunk := [9]\<rparr>"

text \<open>
  The allocator returns and takes the first free cluster at or after the hint, searching on from the
  beginning of the volume when there is none; it sets exactly that bit, and changes nothing when every
  cluster is used.
\<close>

theorem allocate_cluster_next_free:
  assumes "map_ok ef"
  shows "\<exists>c ef'. allocate_cluster hint ef = Some (c, ef') \<and>
    (if \<forall>i < unat (cmap_size ef). used ef i then c = 0xffffffff \<and> ef' = ef
     else \<exists>i < unat (cmap_size ef). c = of_nat i + 2 \<and> \<not> used ef i \<and>
       (if start_at hint ef \<le> i then \<forall>j. start_at hint ef \<le> j \<and> j < i \<longrightarrow> used ef j
        else \<forall>j < unat (cmap_size ef). j < i \<or> start_at hint ef \<le> j \<longrightarrow> used ef j) \<and>
       (\<forall>j. used ef' j \<longleftrightarrow> used ef j \<or> j = i))"
  using assms
proof (cases rule: allocate_cases[where hint = hint])
  case full
  then show ?thesis by auto
next
  case (found i)
  have "i < 64 * length (cmap_chunk ef)" using map_len[OF assms] found(1) by linarith
  then have "\<forall>j. used (ef\<lparr>cmap_chunk := BMAP_SET (cmap_chunk ef) i, cmap_dirty := True\<rparr>) j \<longleftrightarrow> used ef j \<or> j = i"
    by (simp add: used_bit_set)
  with found show ?thesis by (intro exI[of _ "of_nat i + 2"] exI) (auto simp del: not_all)
qed

theorem allocate_cluster_next_free_witness:
  "\<exists>c ef'. allocate_cluster 2 sample_bitmap = Some (c, ef') \<and>
    (if \<forall>i < unat (cmap_size sample_bitmap). used sample_bitmap i then c = 0xffffffff \<and> ef' = sample_bitmap
     else \<exists>i < unat (cmap_size sample_bitmap). c = of_nat i + 2 \<and> \<not> used sample_bitmap i \<and>
       (if start_at 2 sample_bitmap \<le> i then \<forall>j. start_at 2 sample_bitmap \<le> j \<and> j < i \<longrightarrow> used sample_bitmap j
        else \<forall>j < unat (cmap_size sample_bitmap). j < i \<or> start_at 2 sample_bitmap \<le> j \<longrightarrow> used sample_bitmap j) \<and>
       (\<forall>j. used ef' j \<longleftrightarrow> used sample_bitmap j \<or> j = i))"
  by (rule allocate_cluster_next_free) (simp add: map_ok_def sample_bitmap_def sample_exfat_def sample_sb_def)

section \<open>Truncation\<close>

text \<open>
  C7 (refinement).  \<^verbatim>\<open>exfat_truncate\<close> is the resizing of an array of bytes: it returns, and when the clusters for the new
  length fit into those of the file and the free ones, the file has the new length, its old bytes up to
  that length and zeros after them; otherwise it fails with \<^verbatim>\<open>ENOSPC\<close> and the file is as it was.  The
  file system stays well formed, no cluster is lost, and no other file is touched.
\<close>

theorem exfat_truncate_refines:
  assumes "block_device ops sect dev_ok lbas" "geometry sb (vol_bytes lbas P)" "exfat_mounted dev_ok P sb ef" "exfat_file sect sb ef node cs"
    "nd_references node \<noteq> 0 \<or> \<not> nd_parent node" "unat n < 2 ^ 63" "clusters_needed sb (unat n) < 2 ^ 32"
  shows "\<exists>rc node' ef' cs'. exfat_truncate ops n erase node ef = Some (rc, node', ef') \<and>
    exfat_mounted dev_ok P sb ef' \<and> exfat_file sect sb ef' node' cs' \<and> other_files_kept sect sb cs ef ef' \<and>
    free_count ef' + length cs' = free_count ef + length cs \<and>
    (if clusters_needed sb (unat n) \<le> length cs + free_count ef
     then rc = 0 \<and> exfat_bytes sect sb ef' node' cs' = resize (unat n) (exfat_bytes sect sb ef node cs)
     else rc = -28 \<and> exfat_bytes sect sb ef' node' cs' = exfat_bytes sect sb ef node cs)"
proof -
  note vol = exfat_on_block_device[OF assms(1,2)]
  from exfat_volume.truncate_ok[OF vol assms(3-7), of erase] obtain rc node' ef' cs' where
    t: "exfat_truncate ops n erase node ef = Some (rc, node', ef')" "exfat_mounted dev_ok P sb ef'" "exfat_file sect sb ef' node' cs'"
      "exfat_volume.others (vol_byte sect) sb cs ef ef'" "exfat_volume.moved cs cs' ef ef'"
      "if clusters_needed sb (unat n) \<le> length cs + free_count ef then rc = 0 \<and> exfat_bytes sect sb ef' node' cs' = resize (unat n) (exfat_bytes sect sb ef node cs)
       else rc = -28 \<and> exfat_bytes sect sb ef' node' cs' = exfat_bytes sect sb ef node cs" by (auto split: if_splits)
  moreover have "free_count ef' + length cs' = free_count ef + length cs"
    using exfat_volume.files_count[OF vol assms(3) t(2,5) assms(4) t(3)] .
  ultimately show ?thesis using others_kept[OF vol] by blast
qed

theorem exfat_truncate_refines_witness:
  "\<exists>rc node' ef' cs'. exfat_truncate ram_storage 700 True sample_node sample_exfat = Some (rc, node', ef') \<and>
    exfat_mounted ram_ok 0 sample_sb ef' \<and> exfat_file (\<lambda>d. d) sample_sb ef' node' cs' \<and> other_files_kept (\<lambda>d. d) sample_sb [] sample_exfat ef' \<and>
    free_count ef' + length cs' = 16 \<and> rc = 0 \<and> exfat_bytes (\<lambda>d. d) sample_sb ef' node' cs' = resize 700 (exfat_bytes (\<lambda>d. d) sample_sb sample_exfat sample_node [])"
  using exfat_truncate_refines[OF ram_block_device sample_geometry sample_mounted sample_file, of 700 True]
  by (simp add: sample_all_free sample_needed) (simp add: sample_node_def)

section \<open>Writing and reading\<close>

text \<open>
  C12 (refinement).  \<^verbatim>\<open>exfat_generic_pwrite\<close> at a position inside the valid part of a file or beyond its end is the update of an
  array of bytes: when there is room it writes all of the bytes, the file grows to hold them, a gap
  reads as zeros, and every other byte of the file and every other file are as before.
\<close>

theorem exfat_write_refines:
  assumes "block_device ops sect dev_ok lbas" "geometry sb (vol_bytes lbas P)" "exfat_mounted dev_ok P sb ef" "exfat_file sect sb ef node cs"
    "nd_references node \<noteq> 0 \<or> \<not> nd_parent node" "unat offset + unat n < 2 ^ 63" "clusters_needed sb (unat offset + unat n) < 2 ^ 32" "unat n \<le> length buf"
    "unat offset \<le> unat (valid_size node) \<or> unat (nd_size node) < unat offset"
    "clusters_needed sb (max (unat (nd_size node)) (unat offset + unat n)) \<le> length cs + free_count ef"
  shows "\<exists>node' ef' cs'. exfat_generic_pwrite ops buf n offset node ef = Some (int (unat n), node', ef') \<and>
    exfat_mounted dev_ok P sb ef' \<and> exfat_file sect sb ef' node' cs' \<and> other_files_kept sect sb cs ef ef' \<and>
    free_count ef' + length cs' = free_count ef + length cs \<and>
    exfat_bytes sect sb ef' node' cs' =
      buf_put (resize (max (unat (nd_size node)) (unat offset + unat n)) (exfat_bytes sect sb ef node cs)) (unat offset) (take (unat n) buf)"
proof -
  note vol = exfat_on_block_device[OF assms(1,2)]
  show ?thesis using exfat_volume.generic_pwrite_ok[OF vol assms(3-9)] assms(10) others_kept[OF vol]
    unfolding exfat_volume.pwritten_def[OF vol] by auto
qed

theorem exfat_write_refines_witness:
  "\<exists>node' ef' cs'. exfat_generic_pwrite ram_storage [7, 8, 9] 2 600 sample_node sample_exfat = Some (2, node', ef') \<and>
    exfat_mounted ram_ok 0 sample_sb ef' \<and> exfat_file (\<lambda>d. d) sample_sb ef' node' cs' \<and> other_files_kept (\<lambda>d. d) sample_sb [] sample_exfat ef' \<and>
    free_count ef' + length cs' = 16 \<and>
    exfat_bytes (\<lambda>d. d) sample_sb ef' node' cs' = buf_put (resize 602 (exfat_bytes (\<lambda>d. d) sample_sb sample_exfat sample_node [])) 600 [7, 8]"
  using exfat_write_refines[OF ram_block_device sample_geometry sample_mounted sample_file, of 600 2 "[7, 8, 9]"]
  by (simp add: sample_all_free sample_needed) (simp add: sample_node_def)

text \<open>
  C6 (roundtrip).  What \<^verbatim>\<open>exfat_generic_pwrite\<close> has written to a file, \<^verbatim>\<open>exfat_generic_pread\<close> reads back at the same position, whatever chain of clusters the
  bytes have been stored in; both calls return, and the rest of the reader's buffer is as it was.
\<close>

theorem exfat_write_read_file:
  assumes "block_device ops sect dev_ok lbas" "geometry sb (vol_bytes lbas P)" "exfat_mounted dev_ok P sb ef" "exfat_file sect sb ef node cs"
    "nd_references node \<noteq> 0 \<or> \<not> nd_parent node" "unat offset + unat n < 2 ^ 63" "clusters_needed sb (unat offset + unat n) < 2 ^ 32" "unat n \<le> length buf"
    "unat offset \<le> unat (valid_size node) \<or> unat (nd_size node) < unat offset"
    "clusters_needed sb (max (unat (nd_size node)) (unat offset + unat n)) \<le> length cs + free_count ef" "unat n \<le> length out"
  shows "\<exists>node1 ef1 node2 ef2. exfat_generic_pwrite ops buf n offset node ef = Some (int (unat n), node1, ef1) \<and>
    exfat_generic_pread ops node1 out 0 n offset ef1 = Some (int (unat n), take (unat n) buf @ drop (unat n) out, node2, ef2)"
proof -
  note vol = exfat_on_block_device[OF assms(1,2)]
  let ?n = "unat n" and ?o = "unat offset" and ?S = "max (unat (nd_size node)) (unat offset + unat n)"
  obtain node1 ef1 cs1 where w: "exfat_generic_pwrite ops buf n offset node ef = Some (int ?n, node1, ef1)"
    "exfat_mounted dev_ok P sb ef1" "exfat_file sect sb ef1 node1 cs1"
    "exfat_bytes sect sb ef1 node1 cs1 = buf_put (resize ?S (exfat_bytes sect sb ef node cs)) ?o (take ?n buf)"
    using exfat_volume.generic_pwrite_ok[OF vol assms(3-9)] assms(10) unfolding exfat_volume.pwritten_def[OF vol] by auto
  have "unat (nd_size node1) = length (exfat_bytes sect sb ef1 node1 cs1)" by (simp add: exfat_volume.length_node_bytes[OF vol])
  then have s: "unat (nd_size node1) = ?S" using assms(8) by (simp add: w(4))
  have vo: "exfat_volume.vol_ok (io_ok dev_ok P) sb ef1" using w(2) by (simp add: exfat_volume.mounted_def[OF vol])
  have m: "min ?n (unat (nd_size node1) - ?o) = ?n" by (simp add: s)
  obtain bs node2 ef2 where r: "exfat_generic_pread ops node1 out 0 n offset ef1 = Some (int ?n, buf_put out 0 bs, node2, ef2)" "?n \<le> length bs" "length bs \<le> ?n"
    "take ?n bs = take ?n (drop ?o (exfat_bytes sect sb ef1 node1 cs1))"
    using exfat_volume.generic_pread_ok[OF vol vo w(3), of offset n 0 out] assms(6,11) unfolding m by auto
  have "take ?n (drop ?o (exfat_bytes sect sb ef1 node1 cs1)) = take ?n buf" using assms(8) by (simp add: w(4) buf_put_def min_absorb1 min_absorb2)
  then have "bs = take ?n buf" using r(2-4) by simp
  then show ?thesis using w(1) r(1) assms(8) by (auto simp: buf_put_def min_absorb2)
qed

theorem exfat_write_read_file_witness:
  "\<exists>node1 ef1 node2 ef2. exfat_generic_pwrite ram_storage [7, 8, 9] 3 1022 sample_node sample_exfat = Some (3, node1, ef1) \<and>
    exfat_generic_pread ram_storage node1 [0, 0, 0, 5] 0 3 1022 ef1 = Some (3, [7, 8, 9, 5], node2, ef2)"
  using exfat_write_read_file[OF ram_block_device sample_geometry sample_mounted sample_file, of 1022 3 "[7, 8, 9]" "[0, 0, 0, 5]"]
  by (simp add: sample_all_free sample_needed) (simp add: sample_node_def)

section \<open>The gap behind the valid part\<close>

context exfat_volume
begin

lemma write_gap:
  assumes m: "mounted ef" and f: "file_ok ef node cs" and n: "0 < unat n" "unat offset + unat n \<le> unat (nd_size node)" "unat n \<le> length buf"
    and k: "unat (valid_size node) \<le> k" "k < unat offset"
  shows "\<exists>node' ef'. exfat_generic_pwrite ops buf n offset node ef = Some (int (unat n), node', ef') \<and>
    node_bytes ef node cs ! k = 0 \<and> node_bytes ef' node' cs ! k = content ef cs k"
proof -
  let ?s = "unat (nd_size node)"
  note vo = m[unfolded mounted_def, THEN conjunct1]
  have s: "?s < 2 ^ 63" "?s \<le> length cs * clus_size sb" using f clusters_for_ge[of ?s] by (auto simp: file_ok_def)
  have pos: "\<not> offset <s 0" by (rule nonneg_small) (use n(2) s(1) in simp)
  have on: "unat (offset + n) = unat offset + unat n" using n(2) s(1) by (subst unat_add_nowrap) auto
  have nz: "n \<noteq> 0" using n(1) by auto
  obtain node' ef' where w: "pwrite_clusters ops buf n offset node ef = Some (int (unat n), node', ef')" "stored cs (unat offset) (take (unat n) buf) ef ef'"
    "valid_size node' = max (valid_size node) (offset + n)" "nd_size node' = nd_size node" using pwrite_clusters_ok[OF vo f n] by blast
  have "exfat_generic_pwrite ops buf n offset node ef = pwrite_clusters ops buf n offset node ef"
    using pos n nz on by (simp add: exfat_generic_pwrite_def word_less_nat_alt)
  moreover have "k < unat (valid_size node')" using k(2) on by (simp add: w(3) max_def word_le_nat_alt)
  moreover have "content ef' cs k = content ef cs k" using w(2) k(2) n(2) s(2) by (auto simp: stored_def)
  ultimately show ?thesis using w(1,4) k n(2) by (auto simp: node_bytes_def)
qed

end

text \<open>
  A write that starts behind the valid part of a file but inside the file makes the bytes between the two
  valid without clearing them: a byte that read as zero before the write reads as whatever its cluster
  happens to hold afterwards, such as the contents of a deleted file.
\<close>

theorem exfat_write_exposes_gap:
  assumes "block_device ops sect dev_ok lbas" "geometry sb (vol_bytes lbas P)" "exfat_mounted dev_ok P sb ef" "exfat_file sect sb ef node cs"
    "0 < unat n" "unat offset + unat n \<le> unat (nd_size node)" "unat n \<le> length buf" "unat (valid_size node) \<le> k" "k < unat offset"
  shows "\<exists>node' ef'. exfat_generic_pwrite ops buf n offset node ef = Some (int (unat n), node', ef') \<and>
    exfat_bytes sect sb ef node cs ! k = 0 \<and>
    exfat_bytes sect sb ef' node' cs ! k = vol_byte sect (ef_io ef) (clus_off sb (cs ! (k div clus_size sb)) + k mod clus_size sb)"
proof -
  note vol = exfat_on_block_device[OF assms(1,2)]
  show ?thesis using exfat_volume.write_gap[OF vol assms(3-9)] unfolding exfat_volume.content_def[OF vol] exfat_volume.data_def[OF vol] .
qed

text \<open>A file of 100 bytes, none of them valid yet, whose cluster holds old data.\<close>

definition stale_exfat :: "(nat \<Rightarrow> bytes) exfat" where
  "stale_exfat = sample_exfat\<lparr>ef_io := (ef_io sample_exfat)\<lparr>io_disk := \<lambda>l. replicate 512 5\<rparr>, cmap_chunk := [1]\<rparr>"

definition stale_node :: exfat_node where
  "stale_node = sample_node\<lparr>fptr_cluster := 2, start_cluster := 2, is_contiguous := True, nd_size := 100\<rparr>"

theorem exfat_write_exposes_gap_witness:
  "\<exists>node' ef'. exfat_generic_pwrite ram_storage [7] 1 10 stale_node stale_exfat = Some (1, node', ef') \<and>
    exfat_bytes (\<lambda>d. d) sample_sb stale_exfat stale_node [2] ! 3 = 0 \<and> exfat_bytes (\<lambda>d. d) sample_sb ef' node' [2] ! 3 = 5"
proof -
  have m: "exfat_mounted ram_ok 0 sample_sb stale_exfat"
    by (simp add: sample.mounted_def sample.vol_ok_def stale_exfat_def sample_exfat_def io_ok_def ram_ok_def map_ok_def clus_size_def) (simp add: sample_sb_def)
  have f: "exfat_file (\<lambda>d. d) sample_sb stale_exfat stale_node [2]"
    by (simp add: sample.file_ok_def sample.file_at_def sample.linked_def sample.ended_def stale_node_def sample_node_def sample_needed)
       (simp add: data_cluster_def sample_sb_def sample.idx_def stale_exfat_def used_bit_def)
  have "vol_byte (\<lambda>d. d) (ef_io stale_exfat) (clus_off sample_sb ([2] ! (3 div clus_size sample_sb)) + 3 mod clus_size sample_sb) = 5"
    by (simp add: vol_byte_def disk_byte_def clus_off_def clus_size_def sample_sb_def stale_exfat_def sample_exfat_def)
  then show ?thesis using exfat_write_exposes_gap[OF ram_block_device sample_geometry m f, of 1 10 "[7]" 3]
    by (simp add: stale_node_def sample_node_def)
qed

end
