(* ===== verification/Exfat_Mkfs.thy ===== *)
theory Exfat_Mkfs
  imports Exfat_Objects Exfat_Correct
begin

text \<open>
  The passes of the formatter.  The layout lists the objects with their positions and sizes; the erasing pass
  clears all of them and the creating pass stores the contents, so that in the end every object's region
  is its contents followed by zeros.
\<close>

section \<open>The layout\<close>

definition fmt_layout :: "nat \<Rightarrow> (fs_object \<times> nat \<times> nat) list" where
  "fmt_layout v = [(Vbr, 0, 6144), (Vbr, 6144, 6144), (Fat, 65536, v div 4096 * 4), (Cbm, fmt_cbm v, fmt_cbm_size v), (Uct, fmt_uct v, 5836), (Rootdir, fmt_root v, 4096)]"

fun laid :: "mkfs_param \<Rightarrow> (fs_object \<times> nat \<times> nat) list \<Rightarrow> int \<Rightarrow> bool" where
  "laid p [] position \<longleftrightarrow> True"
| "laid p ((ob, a, n) # ls) position \<longleftrightarrow> ROUND_UP position (get_alignment ob) = int a \<and> get_size p ob = Some (int n) \<and> laid p ls (int (a + n))"

lemma fmt_laid:
  assumes "fmt_params p v" "fmt_fits v"
  shows "laid p (fmt_layout v) 0"
proof -
  have V: "mp_volume_size p = int v" using assms(1) by (simp add: fmt_params_def)
  note o = fmt_order[OF assms(2)]
  have "laid p [(Cbm, fmt_cbm v, fmt_cbm_size v), (Uct, fmt_uct v, 5836), (Rootdir, fmt_root v, 4096)] (int (65536 + v div 4096 * 4))"
    unfolding laid.simps get_alignment.simps round_up_4096 size_cbm[OF V o(6)] get_size.simps(4,5)
    by (simp add: fmt_cbm_def fmt_uct_def fmt_root_def uct_size_def rootdir_size_def get_cluster_size_def)
  moreover have "laid p [(Vbr, 0, 6144), (Vbr, 6144, 6144), (Fat, 65536, v div 4096 * 4)] 0"
    by (simp add: ROUND_UP_def DIV_ROUND_UP_def get_sector_size_def vbr_size_def fat_size_def get_cluster_size_def V zdiv_int)
  ultimately show ?thesis by (simp add: fmt_layout_def del: get_size.simps)
qed

text \<open>The objects lie inside the volume and do not overlap.\<close>

definition apart :: "nat \<times> nat \<Rightarrow> nat \<times> nat \<Rightarrow> bool" where
  "apart x y \<longleftrightarrow> fst x + snd x \<le> fst y \<or> fst y + snd y \<le> fst x"

lemma fmt_inside: "fmt_fits v \<Longrightarrow> (ob, a, n) \<in> set (fmt_layout v) \<Longrightarrow> a + n \<le> v"
  using fmt_order[of v] by (auto simp: fmt_layout_def)

lemma fmt_apart: "fmt_fits v \<Longrightarrow> fmt_layout v = xs @ (ob, a, n) # ys \<Longrightarrow> x \<in> set (xs @ ys) \<Longrightarrow> apart (snd x) (a, n)"
proof -
  assume v: "fmt_fits v" and e: "fmt_layout v = xs @ (ob, a, n) # ys" and x: "x \<in> set (xs @ ys)"
  have "sorted_wrt (\<lambda>x y. fst (snd x) + snd (snd x) \<le> fst (snd y)) (fmt_layout v)"
    using fmt_order[OF v] by (simp add: fmt_layout_def)
  then show ?thesis using x unfolding e by (auto simp: sorted_wrt_append apart_def)
qed

section \<open>Runs of writes\<close>

definition stores :: "(nat \<times> bytes) list \<Rightarrow> (nat \<Rightarrow> u8) \<Rightarrow> nat \<Rightarrow> u8" where
  "stores = fold (\<lambda>(a, bs) f. overwrite f a bs)"

lemma stores_simps [simp]: "stores [] f = f" "stores ((a, bs) # ws) f = stores ws (overwrite f a bs)" "stores (ws @ us) f = stores us (stores ws f)"
  by (simp_all add: stores_def)

lemma stores_other:
  assumes "\<forall>(a, bs) \<in> set ws. apart (a, length bs) (b, n)"
  shows "map (stores ws f) [b..<b + n] = map f [b..<b + n]"
  using assms
proof (induction ws arbitrary: f)
  case (Cons w ws)
  obtain a bs where w: "w = (a, bs)" by (cases w)
  have "map (overwrite f a bs) [b..<b + n] = map f [b..<b + n]" using Cons.prems w by (intro map_overwrite_other) (auto simp: apart_def)
  then show ?case using Cons w by simp
qed simp

lemma map_overwrite_prefix:
  assumes "length bs \<le> n"
  shows "map (overwrite f a bs) [a..<a + n] = bs @ drop (length bs) (map f [a..<a + n])"
proof (rule nth_equalityI)
  fix i assume "i < length (map (overwrite f a bs) [a..<a + n])"
  then show "map (overwrite f a bs) [a..<a + n] ! i = (bs @ drop (length bs) (map f [a..<a + n])) ! i"
    using assms by (cases "i < length bs") (auto simp: nth_append overwrite_def)
qed (use assms in simp)

text \<open>Clearing all regions and then storing a prefix of each leaves the prefix and zeros.\<close>

lemma stores_layout:
  assumes apart: "\<And>x. x \<in> set (xs @ ys) \<Longrightarrow> apart (snd x) (a, n)" and len: "\<And>ob a n. (ob, a, n) \<in> set (xs @ ys) \<Longrightarrow> length (content ob) \<le> n"
    and n: "length (content ob) \<le> n"
  defines "ls \<equiv> xs @ (ob, a, n) # ys"
  shows "map (stores (map (\<lambda>(ob, a, n). (a, content ob)) ls) (stores (map (\<lambda>(ob, a, n). (a, replicate n 0)) ls) f)) [a..<a + n] = content ob @ replicate (n - length (content ob)) 0"
proof -
  let ?e = "map (\<lambda>(ob, a, n). (a, replicate n (0 :: u8)))" and ?c = "map (\<lambda>(ob, a, n). (a, content ob))"
  have e: "map (stores (?e zs) g) [a..<a + n] = map g [a..<a + n]" if "set zs \<subseteq> set (xs @ ys)" for zs g
    by (rule stores_other) (use apart that in fastforce)
  have c: "map (stores (?c zs) g) [a..<a + n] = map g [a..<a + n]" if "set zs \<subseteq> set (xs @ ys)" for zs g
  proof (rule stores_other, clarsimp)
    fix ob1 a1 n1 assume "(ob1, a1, n1) \<in> set zs"
    then have "(ob1, a1, n1) \<in> set (xs @ ys)" using that by blast
    from apart[OF this] len[OF this] show "apart (a1, length (content ob1)) (a, n)" by (auto simp: apart_def)
  qed
  have "map (stores (?e ls) f) [a..<a + n] = map (overwrite (stores (?e xs) f) a (replicate n 0)) [a..<a + n]" unfolding ls_def using e[of ys] by simp
  also have "\<dots> = replicate n 0" by (simp add: map_overwrite_same)
  finally have z: "map (stores (?e ls) f) [a..<a + n] = replicate n 0" .
  let ?g = "stores (?e ls) f"
  have "map (stores (?c ls) ?g) [a..<a + n] = map (overwrite (stores (?c xs) ?g) a (content ob)) [a..<a + n]" unfolding ls_def using c[of ys] by simp
  also have "\<dots> = content ob @ drop (length (content ob)) (map (stores (?c xs) ?g) [a..<a + n])" by (rule map_overwrite_prefix[OF n])
  also have "map (stores (?c xs) ?g) [a..<a + n] = replicate n 0" using c[of xs ?g] z by simp
  finally show ?thesis by simp
qed

section \<open>The passes\<close>

fun fmt_content :: "mkfs_param \<Rightarrow> nat \<Rightarrow> fs_object \<Rightarrow> bytes" where
  "fmt_content p v Vbr = fmt_vbr p"
| "fmt_content p v Fat = le32s (fmt_fat v)"
| "fmt_content p v Cbm = fmt_cbm_bytes (fmt_allocated v)"
| "fmt_content p v Uct = upcase_table"
| "fmt_content p v Rootdir = fmt_root_bytes p"

text \<open>The memory an object takes; nothing of it is given back.\<close>

fun fmt_need :: "nat \<Rightarrow> fs_object \<Rightarrow> nat" where
  "fmt_need v Vbr = 519"
| "fmt_need v Cbm = fmt_allocated v + 15"
| "fmt_need v ob = 0"

lemma fmt_allocated_bounds:
  assumes "fmt_fits v"
  shows "fmt_allocated v \<le> (v - fmt_cbm v) div 4096" "fmt_allocated v \<le> 131076"
proof -
  note o = fmt_order[OF assms] and c = fmt_clusters[OF assms]
  have "fmt_allocated v * 4096 \<le> v - fmt_cbm v" using o c(1,2) by (simp add: fmt_allocated_def)
  then show "fmt_allocated v \<le> (v - fmt_cbm v) div 4096" by (simp add: less_eq_div_iff_mult_less_eq)
  have "(v - fmt_cbm v) div 4096 < 2 ^ 32" using o(5) by (simp add: less_mult_imp_div_less)
  then have "fmt_cbm_size v \<le> (2 ^ 32 + 6) div 8" unfolding fmt_cbm_size_def by (intro div_le_mono) simp
  then have "fmt_cbm_clusters v \<le> ((2 ^ 32 + 6) div 8 + 4095) div 4096" unfolding fmt_cbm_clusters_def by (intro div_le_mono) simp
  then show "fmt_allocated v \<le> 131076" by (simp add: fmt_allocated_def)
qed

lemma length_fmt_content:
  assumes "fmt_params p v" "fmt_fits v" "(ob, a, n) \<in> set (fmt_layout v)"
  shows "length (fmt_content p v ob) \<le> n"
proof -
  have "length (fmt_vbr p) \<le> 6144" using length_fmt_vbr[OF assms(1,2)] by simp
  moreover have "length (le32s (fmt_fat v)) \<le> v div 4096 * 4" using length_fmt_fat[OF assms(2)] fmt_clusters(4)[OF assms(2)] by simp
  moreover have "length (fmt_cbm_bytes (fmt_allocated v)) \<le> fmt_cbm_size v"
    using fmt_allocated_bounds(1)[OF assms(2)] by (simp add: bitmap_bits_def fmt_cbm_size_def div_le_mono)
  moreover have "length (fmt_root_bytes p) \<le> 4096" using root_entries[OF assms(1,2)] by (simp add: fmt_root_bytes_def)
  ultimately show ?thesis using assms(3) by (auto simp: fmt_layout_def)
qed

context byte_volume
begin

definition ran :: "'s mkfs_run \<Rightarrow> (nat \<times> bytes) list \<Rightarrow> nat \<Rightarrow> 's mkfs_run \<Rightarrow> bool" where
  "ran st ws k st' \<longleftrightarrow> ok (mk_io st') \<and> img (mk_io st') = stores ws (img (mk_io st)) \<and> mk_param st' = mk_param st \<and>
     unat (exfat_heap_used st') \<le> unat (exfat_heap_used st) + k"

lemma made_ran: "made st a bs k st1 \<Longrightarrow> ran st1 ws m st2 \<Longrightarrow> ran st ((a, bs) # ws) (k + m) st2"
  by (simp add: made_def ran_def)

lemma made_seek [simp]: "made (st\<lparr>mk_dev := d\<rparr>) a bs k st' \<longleftrightarrow> made st a bs k st'"
  by (simp add: made_def)

lemma erase_object_ok:
  assumes "ok (mk_io st)" "{a..<a + n} \<subseteq> vol" "a + n < 2 ^ 63"
  shows "\<exists>st'. erase_object ops (replicate 4096 0) (int a) (int n) st = Some (0, st') \<and> made st a (replicate n 0) 0 st'"
proof -
  let ?st = "st\<lparr>mk_dev := (mk_dev st)\<lparr>dev_pos := of_nat a\<rparr>\<rparr>"
  have "wrote ?st a [] ?st" by (rule wrote_start) (use assms in \<open>auto intro!: unat_of_nat_small\<close>)
  then have "\<exists>st2. erase_blocks ops (replicate 4096 0) (int n) (int 0) ?st = Some (0, st2) \<and> wrote ?st a ([] @ replicate (n - 0) 0) st2"
    by (rule erase_blocks_ok) (use assms in auto)
  then obtain st2 where w: "erase_blocks ops (replicate 4096 0) (int n) 0 ?st = Some (0, st2)" "wrote ?st a (replicate n 0) st2" by (auto simp del: erase_blocks.simps)
  then have "made st a (replicate n 0) 0 st2" using wrote_made'[OF w(2)] by simp
  moreover have "mk_seek (int a) st = (True, ?st)" by (rule mk_seek_ok) (use assms(3) in simp)
  ultimately show ?thesis using w(1) by (auto simp: erase_object_def simp del: erase_blocks.simps)
qed

lemma erase_objects_ok:
  assumes "laid (mk_param st) ls position" "ok (mk_io st)" "\<forall>(ob, a, n) \<in> set ls. {a..<a + n} \<subseteq> vol \<and> a + n < 2 ^ 63"
  shows "\<exists>st'. erase_objects ops (replicate 4096 0) (map fst ls) position st = Some (0, st') \<and> ran st (map (\<lambda>(ob, a, n). (a, replicate n 0)) ls) 0 st'"
  using assms
proof (induction ls arbitrary: position st)
  case Nil
  then show ?case by (simp add: ran_def)
next
  case (Cons l ls)
  obtain ob a n where l: "l = (ob, a, n)" by (cases l) auto
  from Cons.prems l obtain st1 where w: "erase_object ops (replicate 4096 0) (int a) (int n) st = Some (0, st1)" "made st a (replicate n 0) 0 st1"
    using erase_object_ok[of st a n] by auto
  then have "mk_param st1 = mk_param st" "ok (mk_io st1)" by (auto simp: made_def)
  then obtain st2 where "erase_objects ops (replicate 4096 0) (map fst ls) (int (a + n)) st1 = Some (0, st2)" "ran st1 (map (\<lambda>(ob, a, n). (a, replicate n 0)) ls) 0 st2"
    using Cons.IH[of st1 "int (a + n)"] Cons.prems l by auto
  then show ?case using Cons.prems(1) l w made_ran[OF w(2)] by (auto simp del: get_size.simps)
qed

lemma create_objects_ok:
  assumes "laid p ls position" "mk_param st = p" "ok (mk_io st)" "\<forall>(ob, a, n) \<in> set ls. a < 2 ^ 63"
    and step: "\<And>ob a n st1. (ob, a, n) \<in> set ls \<Longrightarrow> mk_param st1 = p \<Longrightarrow> ok (mk_io st1) \<Longrightarrow> unat (dev_pos (mk_dev st1)) = a \<Longrightarrow>
      unat (exfat_heap_used st1) + need ob \<le> 2 * 1024 * 1024 \<Longrightarrow> \<exists>st2. object_write ops ob st1 = Some (0, st2) \<and> made st1 a (content ob) (need ob) st2"
    and "unat (exfat_heap_used st) + sum_list (map (need \<circ> fst) ls) \<le> 2 * 1024 * 1024"
  shows "\<exists>st'. create_objects ops (map fst ls) position st = Some (0, st') \<and> ran st (map (\<lambda>(ob, a, n). (a, content ob)) ls) (sum_list (map (need \<circ> fst) ls)) st'"
  using assms
proof (induction ls arbitrary: position st)
  case Nil
  then show ?case by (simp add: ran_def)
next
  case (Cons l ls)
  obtain ob a n where l: "l = (ob, a, n)" by (cases l) auto
  let ?st = "st\<lparr>mk_dev := (mk_dev st)\<lparr>dev_pos := of_nat a\<rparr>\<rparr>"
  have sk: "mk_seek (int a) st = (True, ?st)" by (rule mk_seek_ok) (use Cons.prems(4) l in simp)
  have "\<exists>st2. object_write ops ob ?st = Some (0, st2) \<and> made ?st a (content ob) (need ob) st2"
    by (rule Cons.prems(5)) (use Cons.prems l in \<open>auto intro!: unat_of_nat_small\<close>)
  then obtain st2 where w: "object_write ops ob ?st = Some (0, st2)" "made st a (content ob) (need ob) st2" by auto
  then have s2: "mk_param st2 = p" "ok (mk_io st2)" "unat (exfat_heap_used st2) \<le> unat (exfat_heap_used st) + need ob" using Cons.prems(2) by (auto simp: made_def)
  have "\<exists>st3. create_objects ops (map fst ls) (int (a + n)) st2 = Some (0, st3) \<and> ran st2 (map (\<lambda>(ob, a, n). (a, content ob)) ls) (sum_list (map (need \<circ> fst) ls)) st3"
  proof (rule Cons.IH[OF _ s2(1,2)])
    show "unat (exfat_heap_used st2) + sum_list (map (need \<circ> fst) ls) \<le> 2 * 1024 * 1024" using Cons.prems(6) s2(3) l by (simp add: comp_def)
    show "\<exists>st2. object_write ops ob1 st1 = Some (0, st2) \<and> made st1 a1 (content ob1) (need ob1) st2" if "(ob1, a1, n1) \<in> set ls" "mk_param st1 = p"
      "ok (mk_io st1)" "unat (dev_pos (mk_dev st1)) = a1" "unat (exfat_heap_used st1) + need ob1 \<le> 2 * 1024 * 1024" for ob1 a1 n1 st1
      using Cons.prems(5)[of ob1 a1 n1 st1] that by simp
  qed (use Cons.prems(1,4) l in auto)
  then obtain st3 where c: "create_objects ops (map fst ls) (int (a + n)) st2 = Some (0, st3)" "ran st2 (map (\<lambda>(ob, a, n). (a, content ob)) ls) (sum_list (map (need \<circ> fst) ls)) st3" by blast
  have "get_size (mk_param st2) ob = Some (int n)" "ROUND_UP position (get_alignment ob) = int a" using Cons.prems(1) l s2(1) by auto
  then show ?case using sk w(1) c(1) made_ran[OF w(2) c(2)] l by (auto simp: Let_def comp_def simp del: get_size.simps)
qed

lemma object_write_ok:
  assumes "fmt_params p v" "fmt_fits v" "{..<v} \<subseteq> vol" "(ob, a, n) \<in> set (fmt_layout v)" "mk_param st = p" "ok (mk_io st)"
    "unat (dev_pos (mk_dev st)) = a" "unat (exfat_heap_used st) + fmt_need v ob \<le> 2 * 1024 * 1024"
  shows "\<exists>st'. object_write ops ob st = Some (0, st') \<and> made st a (fmt_content p v ob) (fmt_need v ob) st'"
proof -
  note o = fmt_order[OF assms(2)]
  have p: "fmt_params (mk_param st) v" using assms(1,5) by simp
  have vol: "{a..<a + 6144} \<subseteq> vol" "a + 6144 \<le> 2 ^ 63" if "ob = Vbr"
  proof -
    have "a \<le> 6144" using assms(4) that by (auto simp: fmt_layout_def)
    then have "a + 6144 \<le> v" using o by linarith
    then show "{a..<a + 6144} \<subseteq> vol" "a + 6144 \<le> 2 ^ 63" using assms(3) o(5) by (auto simp: subset_iff)
  qed
  show ?thesis
  proof (cases ob)
    case Vbr
    then show ?thesis using vbr_write_ok[OF p assms(2,6,7) vol] assms(5,8) by simp
  next
    case Fat
    then show ?thesis using fat_write_ok[OF p assms(2,6) _ assms(3)] assms(4,7) by (auto simp: fmt_layout_def)
  next
    case Cbm
    then show ?thesis using cbm_write_ok[OF p assms(2,6) _ assms(3)] assms(4,7,8) by (auto simp: fmt_layout_def add.assoc)
  next
    case Uct
    then show ?thesis using uct_write_ok[OF assms(6) _ assms(3,2)] assms(4,7) by (auto simp: fmt_layout_def)
  next
    case Rootdir
    then show ?thesis using rootdir_write_ok[OF p assms(2,6) _ assms(3)] assms(4,5,7) by (auto simp: fmt_layout_def)
  qed
qed

lemma mkfs_ok:
  assumes p: "fmt_params (mk_param st) v" and v: "fmt_fits v" and io: "ok (mk_io st)" and vol: "{..<v} \<subseteq> vol" and h: "unat (exfat_heap_used st) \<le> 1024 * 1024 + 31"
  shows "\<exists>st'. mkfs ops (int v) st = Some (0, st') \<and> ok (mk_io st') \<and> mk_param st' = mk_param st \<and>
    (\<forall>(ob, a, n) \<in> set (fmt_layout v). map (img (mk_io st')) [a..<a + n] =
       fmt_content (mk_param st) v ob @ replicate (n - length (fmt_content (mk_param st) v ob)) 0)"
proof -
  note o = fmt_order[OF v]
  let ?ls = "fmt_layout v" and ?c = "fmt_content (mk_param st) v"
  have V: "mp_volume_size (mk_param st) = int v" using p by (simp add: fmt_params_def)
  have ob: "map fst ?ls = objects" by (simp add: fmt_layout_def objects_def)
  have in_vol: "\<forall>(ob, a, n) \<in> set ?ls. {a..<a + n} \<subseteq> vol \<and> a + n < 2 ^ 63"
  proof (intro ballI, clarify)
    fix ob a n assume "(ob, a, n) \<in> set ?ls"
    then have "a + n \<le> v" by (rule fmt_inside[OF v])
    then show "{a..<a + n} \<subseteq> vol \<and> a + n < 2 ^ 63" using vol o(5) by (auto simp: subset_iff)
  qed
  obtain u where u: "exfat_malloc (4 * 1024) (exfat_heap_used st) = (Some (exfat_heap_used st), u)" "unat u \<le> unat (exfat_heap_used st) + 4103"
  proof (rule malloc_ok[of "exfat_heap_used st" "4 * 1024"])
    show "unat (exfat_heap_used st) + unat (4 * 1024 :: u64) + 7 \<le> 2 * 1024 * 1024" using h by simp
  qed simp
  let ?st = "st\<lparr>exfat_heap_used := u\<rparr>"
  have "\<exists>st1. erase_objects ops (replicate 4096 0) (map fst ?ls) 0 ?st = Some (0, st1) \<and> ran ?st (map (\<lambda>(ob, a, n). (a, replicate n 0)) ?ls) 0 st1"
    by (rule erase_objects_ok) (use fmt_laid[OF p v] io in_vol in auto)
  then obtain st1 where e: "erase_objects ops (replicate 4096 0) objects 0 ?st = Some (0, st1)" "ran ?st (map (\<lambda>(ob, a, n). (a, replicate n 0)) ?ls) 0 st1"
    unfolding ob by blast
  then have E: "mkfs_erase ops st = Some (0, st1)" unfolding mkfs_erase_def u(1) by simp
  have s1: "mk_param st1 = mk_param st" "ok (mk_io st1)" "unat (exfat_heap_used st1) \<le> 1024 * 1024 + 31 + 4103" using e(2) u(2) h by (auto simp: ran_def)
  have "\<exists>st2. create_objects ops (map fst ?ls) 0 st1 = Some (0, st2) \<and> ran st1 (map (\<lambda>(ob, a, n). (a, ?c ob)) ?ls) (sum_list (map (fmt_need v \<circ> fst) ?ls)) st2"
  proof (rule create_objects_ok[OF fmt_laid[OF p v] s1(1,2)])
    show "\<forall>(ob, a, n) \<in> set ?ls. a < 2 ^ 63" using in_vol by fastforce
    show "unat (exfat_heap_used st1) + sum_list (map (fmt_need v \<circ> fst) ?ls) \<le> 2 * 1024 * 1024"
      using s1(3) fmt_allocated_bounds(2)[OF v] by (simp add: fmt_layout_def)
  qed (rule object_write_ok[OF p v vol])
  then obtain st2 where c: "create_objects ops objects 0 st1 = Some (0, st2)" "ran st1 (map (\<lambda>(ob, a, n). (a, ?c ob)) ?ls) (sum_list (map (fmt_need v \<circ> fst) ?ls)) st2"
    unfolding ob by blast
  have img: "img (mk_io st2) = stores (map (\<lambda>(ob, a, n). (a, ?c ob)) ?ls) (stores (map (\<lambda>(ob, a, n). (a, replicate n 0)) ?ls) (img (mk_io st)))"
    using c(2) e(2) by (simp add: ran_def)
  have "map (img (mk_io st2)) [a..<a + n] = ?c ob @ replicate (n - length (?c ob)) 0" if l: "(ob, a, n) \<in> set ?ls" for ob a n
  proof -
    obtain xs ys where s: "?ls = xs @ (ob, a, n) # ys" using split_list[OF l] by blast
    show ?thesis unfolding img s
    proof (rule stores_layout[where content = ?c])
      show "length (?c ob1) \<le> n1" if "(ob1, a1, n1) \<in> set (xs @ ys)" for ob1 a1 n1 by (rule length_fmt_content[OF p v, of _ a1]) (use that s in auto)
      show "length (?c ob) \<le> n" by (rule length_fmt_content[OF p v l])
    qed (rule fmt_apart[OF v s])
  qed
  moreover have "mkfs ops (int v) st = Some (0, st2)" using check_size_ok[OF V o(4)] E c(1) by (simp add: mkfs_def mkfs_create_def)
  ultimately show ?thesis using c(2) s1(1) by (auto simp: ran_def)
qed

end

section \<open>Formatting a partition\<close>

text \<open>The capacity calls of the drivers leave the disk as it is.\<close>

definition capacity_keeps :: "('s \<Rightarrow> nat \<Rightarrow> bytes) \<Rightarrow> ('s \<Rightarrow> bool) \<Rightarrow> ('s \<Rightarrow> int \<times> u64 \<times> 's) \<Rightarrow> bool" where
  "capacity_keeps sect dev_ok sata_blocks \<longleftrightarrow> (\<forall>s rc n s'. dev_ok s \<longrightarrow> sata_blocks s = (rc, n, s') \<longrightarrow> dev_ok s' \<and> sect s' = sect s)"

lemma exfat_open_ok:
  assumes "capacity_keeps sect dev_ok sata_blocks" "dev_ok s"
  obtains dev s' where "exfat_open ops ms_blocks sata_blocks True False mode s = (Some dev, s')" "dev_ok s'" "sect s' = sect s" "dev_mode dev = mode"
proof -
  have "\<exists>dev s'. exfat_open ops ms_blocks sata_blocks True False mode s = (Some dev, s') \<and> dev_ok s' \<and> sect s' = sect s \<and> dev_mode dev = mode"
    using assms by (auto simp: exfat_open_def capacity_keeps_def split: prod.splits)
  then show thesis using that by blast
qed

definition fmt_region :: "mkfs_param \<Rightarrow> nat \<Rightarrow> (nat \<Rightarrow> u8) \<Rightarrow> fs_object \<times> nat \<times> nat \<Rightarrow> bool" where
  "fmt_region p v f l \<longleftrightarrow> (case l of (ob, a, n) \<Rightarrow> map f [a..<a + n] = fmt_content p v ob @ replicate (n - length (fmt_content p v ob)) 0)"

lemma volume_in_bytes:
  assumes "v = 512 * unat (total_sectors :: u64)" "v < 2 ^ 44"
  shows "sint (total_sectors * 512) = int v"
proof -
  have "unat (total_sectors * 512) = v" using assms by (subst unat_mult_nowrap) auto
  then show ?thesis using assms(2) by (simp add: sint64_small)
qed

lemma io_ok_disk: "io_ok dev_ok P io \<Longrightarrow> dev_ok s \<Longrightarrow> io_ok dev_ok P (io\<lparr>io_disk := s\<rparr>)"
  by (simp add: io_ok_def)

lemma vol_byte_disk: "sect s = sect (io_disk io) \<Longrightarrow> vol_byte sect (io\<lparr>io_disk := s\<rparr>) = vol_byte sect io"
  by (auto simp: vol_byte_def disk_byte_def fun_eq_iff)

lemma exfat_format_regions:
  assumes dev: "block_device ops sect dev_ok lbas" and cap: "capacity_keeps sect dev_ok sata_blocks" and io: "io_ok dev_ok P (mk_io st)"
    and vol: "{..<v} \<subseteq> vol_bytes lbas P" and v: "v = 512 * unat total_sectors" "fmt_fits v"
    and p: "fmt_params (exfat_mkfs_set_volume_size (int v) (mk_param st)) v" and h: "unat (exfat_heap_used st) \<le> 1024 * 1024"
  shows "\<exists>st'. exfat_format ops ms_blocks sata_blocks total_sectors st = Some (0, st') \<and> io_ok dev_ok P (mk_io st') \<and> exfat_heap_used st' = 0 \<and>
    mk_param st' = exfat_mkfs_set_volume_size (int v) (mk_param st) \<and> (\<forall>l \<in> set (fmt_layout v). fmt_region (mk_param st') v (vol_byte sect (mk_io st')) l)"
proof -
  have D: "dev_ok (io_disk (mk_io st))" using io by (simp add: io_ok_def)
  obtain u where u: "exfat_malloc 24 (exfat_heap_used st) = (Some (exfat_heap_used st), u)" "unat u \<le> unat (exfat_heap_used st) + 31"
  proof (rule malloc_ok[of "exfat_heap_used st" 24])
    show "unat (exfat_heap_used st) + unat (24 :: u64) + 7 \<le> 2 * 1024 * 1024" using h by simp
  qed simp
  obtain d s where o: "exfat_open ops ms_blocks sata_blocks True False EXFAT_MODE_RW (io_disk (mk_io st)) = (Some d, s)" "dev_ok s" "sect s = sect (io_disk (mk_io st))"
    by (rule exfat_open_ok[OF cap D, of ops ms_blocks EXFAT_MODE_RW])
  let ?st = "st\<lparr>mk_io := (mk_io st)\<lparr>io_disk := s\<rparr>, exfat_heap_used := u, mk_dev := d, mk_param := exfat_mkfs_set_volume_size (int v) (mk_param st)\<rparr>"
  have "\<exists>st1. mkfs ops (int v) ?st = Some (0, st1) \<and> io_ok dev_ok P (mk_io st1) \<and> mk_param st1 = mk_param ?st \<and>
    (\<forall>(ob, a, n) \<in> set (fmt_layout v). map (vol_byte sect (mk_io st1)) [a..<a + n] =
       fmt_content (mk_param ?st) v ob @ replicate (n - length (fmt_content (mk_param ?st) v ob)) 0)"
    by (rule byte_volume.mkfs_ok[OF block_device.volume_contract[OF dev] _ v(2) _ vol]) (use p io o(2) u(2) h in \<open>auto simp: io_ok_disk\<close>)
  then obtain st1 where m: "mkfs ops (int v) ?st = Some (0, st1)" "io_ok dev_ok P (mk_io st1)" "mk_param st1 = exfat_mkfs_set_volume_size (int v) (mk_param st)"
    "\<forall>l \<in> set (fmt_layout v). fmt_region (mk_param st1) v (vol_byte sect (mk_io st1)) l" by (auto simp: fmt_region_def)
  obtain rc s1 where f: "st_sata_flush ops (io_disk (mk_io st1)) = (rc, s1)" by (cases "st_sata_flush ops (io_disk (mk_io st1))")
  have s1: "dev_ok s1" "sect s1 = sect (io_disk (mk_io st1))" using block_device.flush_law[OF dev _ f] m(2) by (auto simp: io_ok_def)
  have "block_is_present ops (io_disk (mk_io st))" by (rule block_device.present[OF dev D])
  then have "exfat_format ops ms_blocks sata_blocks total_sectors st = Some (0, st1\<lparr>mk_io := (mk_io st1)\<lparr>io_disk := s1\<rparr>, exfat_heap_used := exfat_heap_reset\<rparr>)"
    using u(1) o(1) m(1) f volume_in_bytes[OF v(1)] v(2) by (simp add: exfat_format_def fmt_fits_def Let_def)
  then show ?thesis using m(2-4) s1 by (auto simp: io_ok_disk vol_byte_disk exfat_heap_reset_def)
qed

end
