(* ===== verification/Exfat_Node_Model.thy ===== *)
theory Exfat_Node_Model
  imports Exfat_Format_Model
begin

text \<open>
  The nodes of the exFAT driver, \<^verbatim>\<open>fs/exfat/node.c\<close>, with the repair hooks of \<^verbatim>\<open>fs/exfat/repair.c\<close>.  A node is a record in a store indexed by
  its address; \<open>None\<close> as an address is the null pointer.  A function returns \<open>None\<close> where the C code stops in \<^verbatim>\<open>exfat_bug\<close>,
  follows a null pointer or writes outside an array.  \<^verbatim>\<open>free\<close> is a no-op in this build, so nodes stay in the
  store.
\<close>

section \<open>State\<close>

abbreviation (input) ENOENT :: int where "ENOENT \<equiv> 2"
abbreviation (input) ENOMEM :: int where "ENOMEM \<equiv> 12"
abbreviation (input) EEXIST :: int where "EEXIST \<equiv> 17"
abbreviation (input) ENODEV :: int where "ENODEV \<equiv> 19"
abbreviation (input) ENOTDIR :: int where "ENOTDIR \<equiv> 20"
abbreviation (input) EISDIR :: int where "EISDIR \<equiv> 21"
abbreviation (input) ENOTEMPTY :: int where "ENOTEMPTY \<equiv> 41"
abbreviation (input) EXFAT_ATTRIB_ARCH :: u16 where "EXFAT_ATTRIB_ARCH \<equiv> 0x20"
abbreviation (input) EXFAT_NAME_MAX :: nat where "EXFAT_NAME_MAX \<equiv> 255"
abbreviation (input) EXFAT_FLAG_ALWAYS1 :: u8 where "EXFAT_FLAG_ALWAYS1 \<equiv> 1"
abbreviation (input) EXFAT_FLAG_CONTIGUOUS :: u8 where "EXFAT_FLAG_CONTIGUOUS \<equiv> 2"
abbreviation (input) EXFAT_ENTRY_NONE :: int where "EXFAT_ENTRY_NONE \<equiv> -1"

type_synonym node_ptr = "u64 option"

record tree_node =
  tn_node :: exfat_node
  tn_parent :: node_ptr
  tn_child :: node_ptr
  tn_next :: node_ptr
  tn_prev :: node_ptr
  tn_entry_offset :: u64
  tn_continuations :: u8
  tn_cached :: bool
  tn_unlinked :: bool
  tn_name :: "u16 list"

datatype exfat_repair = EXFAT_REPAIR_NO | EXFAT_REPAIR_ASK | EXFAT_REPAIR_YES

record 's exfat_fs =
  fs_ef :: "'s exfat"
  fs_dev :: "exfat_dev option"
  fs_upcase :: "u16 list option"
  fs_root :: node_ptr
  fs_chunk :: bool
  fs_label :: bytes
  fs_dmask :: int
  fs_fmask :: int
  fs_repair :: exfat_repair
  fs_nodes :: "u64 \<rightharpoonup> tree_node"
  fs_heap :: u64
  exfat_errors_fixed :: int

definition zero_node :: tree_node where
  "zero_node = \<lparr>tn_node = \<lparr>nd_parent = False, nd_references = 0, fptr_index = 0, fptr_cluster = 0, start_cluster = 0, nd_attrib = 0,
       is_contiguous = False, is_dirty = False, valid_size = 0, nd_size = 0, nd_mtime = 0, nd_atime = 0\<rparr>,
     tn_parent = None, tn_child = None, tn_next = None, tn_prev = None, tn_entry_offset = 0, tn_continuations = 0,
     tn_cached = False, tn_unlinked = False, tn_name = replicate 256 0\<rparr>"

definition put_tn :: "u64 \<Rightarrow> tree_node \<Rightarrow> 's exfat_fs \<Rightarrow> 's exfat_fs" where
  "put_tn i t st = st\<lparr>fs_nodes := (fs_nodes st)(i \<mapsto> t)\<rparr>"

definition change_tn :: "u64 \<Rightarrow> (tree_node \<Rightarrow> tree_node) \<Rightarrow> 's exfat_fs \<Rightarrow> 's exfat_fs option" where
  "change_tn i f st = map_option (\<lambda>t. put_tn i (f t) st) (fs_nodes st i)"

text \<open>The part of a node the functions of \<^verbatim>\<open>io.c\<close> and \<^verbatim>\<open>cluster.c\<close> use, and such a call on a node of the store.\<close>

definition tn_base :: "tree_node \<Rightarrow> exfat_node" where
  "tn_base t = (tn_node t)\<lparr>nd_parent := tn_parent t \<noteq> None\<rparr>"

definition on_node :: "u64 \<Rightarrow> (exfat_node \<Rightarrow> 's exfat \<Rightarrow> ('a \<times> exfat_node \<times> 's exfat) option) \<Rightarrow> 's exfat_fs \<Rightarrow> ('a \<times> 's exfat_fs) option" where
  "on_node i f st =
     do {
       t \<leftarrow> fs_nodes st i;
       (r, nd, ef) \<leftarrow> f (tn_base t) (fs_ef st);
       Some (r, (put_tn i (t\<lparr>tn_node := nd\<rparr>) st)\<lparr>fs_ef := ef\<rparr>)
     }"

definition alloc :: "u64 \<Rightarrow> 's exfat_fs \<Rightarrow> u64 option \<times> 's exfat_fs" where
  "alloc n st = (case exfat_malloc n (fs_heap st) of (p, h) \<Rightarrow> (p, st\<lparr>fs_heap := h\<rparr>))"

definition exfat_ask_to_fix :: "exfat_repair \<Rightarrow> bool" where
  "exfat_ask_to_fix repair = (case repair of EXFAT_REPAIR_NO \<Rightarrow> False | EXFAT_REPAIR_YES \<Rightarrow> True | EXFAT_REPAIR_ASK \<Rightarrow> False)"

section \<open>References\<close>

definition exfat_get_name :: "u16 list \<Rightarrow> bytes option" where
  "exfat_get_name name =
     (case exfat_utf16_to_utf8 TYPE(16) (replicate 766 0) (take EXFAT_NAME_MAX name) 766 of
        (rc, buf) \<Rightarrow> if rc \<noteq> UTF_OK then None else Some buf)"

definition exfat_get_node :: "u64 \<Rightarrow> 's exfat_fs \<Rightarrow> 's exfat_fs option" where
  "exfat_get_node i st = change_tn i (\<lambda>t. t\<lparr>tn_node := (tn_node t)\<lparr>nd_references := nd_references (tn_node t) + 1\<rparr>\<rparr>) st"

definition exfat_put_node :: "u64 \<Rightarrow> 's exfat_fs \<Rightarrow> 's exfat_fs option" where
  "exfat_put_node i st =
     do {
       t \<leftarrow> fs_nodes st i;
       let r = nd_references (tn_node t) - 1;
       let st1 = put_tn i (t\<lparr>tn_node := (tn_node t)\<lparr>nd_references := r\<rparr>\<rparr>) st;
       if r < 0 then None
       else if r = 0 \<and> fs_root st \<noteq> Some i \<and> is_dirty (tn_node t) then map_option (\<lambda>_. st1) (exfat_get_name (tn_name t))
       else Some st1
     }"

definition exfat_cleanup_node :: "'s storage \<Rightarrow> u64 \<Rightarrow> 's exfat_fs \<Rightarrow> (int \<times> 's exfat_fs) option" where
  "exfat_cleanup_node ops i st =
     do {
       t \<leftarrow> fs_nodes st i;
       if nd_references (tn_node t) \<noteq> 0 then None
       else if tn_unlinked t then on_node i (exfat_truncate ops 0 True) st
       else Some (0, st)
     }"

section \<open>Directory entries\<close>

fun cut_entries :: "nat \<Rightarrow> bytes \<Rightarrow> bytes list" where
  "cut_entries 0 bs = []"
| "cut_entries (Suc n) bs = take 32 bs # cut_entries n (drop 32 bs)"

definition entries_rc :: "nat \<Rightarrow> int \<Rightarrow> int" where
  "entries_rc n got = (if got = 32 * int n then 0 else if got = 0 then -ENOENT else if got < 0 then -EIO else -EIO)"

definition read_dir_entries :: "'s storage \<Rightarrow> u64 \<Rightarrow> nat \<Rightarrow> u64 \<Rightarrow> 's exfat_fs \<Rightarrow> ((int \<times> bytes list) \<times> 's exfat_fs) option" where
  "read_dir_entries ops dir n offset st =
     do {
       t \<leftarrow> fs_nodes st dir;
       if nd_attrib (tn_node t) AND EXFAT_ATTRIB_DIR = 0 then None
       else on_node dir (\<lambda>nd ef. do {
              (got, buf, nd, ef) \<leftarrow> exfat_generic_pread ops nd (replicate (32 * n) 0) 0 (of_nat (32 * n)) offset ef;
              Some ((entries_rc n got, cut_entries n buf), nd, ef)
            }) st
     }"

definition write_dir_entries :: "'s storage \<Rightarrow> u64 \<Rightarrow> bytes list \<Rightarrow> u64 \<Rightarrow> 's exfat_fs \<Rightarrow> (int \<times> 's exfat_fs) option" where
  "write_dir_entries ops dir entries offset st =
     do {
       t \<leftarrow> fs_nodes st dir;
       if nd_attrib (tn_node t) AND EXFAT_ATTRIB_DIR = 0 then None
       else on_node dir (\<lambda>nd ef. do {
              (got, nd, ef) \<leftarrow> exfat_generic_pwrite ops (concat entries) (of_nat (32 * length entries)) offset nd ef;
              Some (if got = 32 * int (length entries) then 0 else -EIO, nd, ef)
            }) st
     }"

definition allocate_node :: "'s exfat_fs \<Rightarrow> node_ptr \<times> 's exfat_fs" where
  "allocate_node st = (case alloc 608 st of (None, st1) \<Rightarrow> (None, st1) | (Some i, st1) \<Rightarrow> (Some i, put_tn i zero_node st1))"

definition init_node_meta1 :: "exfat_entry_meta1 \<Rightarrow> tree_node \<Rightarrow> tree_node" where
  "init_node_meta1 meta1 t =
     t\<lparr>tn_node := (tn_node t)\<lparr>nd_attrib := m1_attrib meta1,
         nd_mtime := exfat_exfat2unix exfat_tzset (m1_mdate meta1) (m1_mtime meta1) (m1_mtime_cs meta1) (m1_mtime_tzo meta1),
         nd_atime := exfat_exfat2unix exfat_tzset (m1_adate meta1) (m1_atime meta1) 0 (m1_atime_tzo meta1)\<rparr>,
       tn_continuations := m1_continuations meta1\<rparr>"

definition init_node_meta2 :: "exfat_entry_meta2 \<Rightarrow> tree_node \<Rightarrow> tree_node" where
  "init_node_meta2 meta2 t =
     t\<lparr>tn_node := (tn_node t)\<lparr>valid_size := m2_valid_size meta2, nd_size := m2_size meta2, start_cluster := m2_start_cluster meta2,
         fptr_cluster := m2_start_cluster meta2, is_contiguous := m2_flags meta2 AND EXFAT_FLAG_CONTIGUOUS \<noteq> 0\<rparr>\<rparr>"

definition init_node_name :: "bytes list \<Rightarrow> tree_node \<Rightarrow> tree_node" where
  "init_node_name entries t =
     t\<lparr>tn_name := foldl (\<lambda>name i. put_units name (i * EXFAT_ENAME_MAX) (ne_name (name_of (entries ! i)))) (tn_name t) [0..<length entries]\<rparr>"

definition entry_follows :: "int \<Rightarrow> int \<Rightarrow> bool" where
  "entry_follows previous current =
     (if previous = EXFAT_ENTRY_NONE then current = uint EXFAT_ENTRY_FILE
      else if previous = uint EXFAT_ENTRY_FILE then current = uint EXFAT_ENTRY_FILE_INFO
      else if previous = uint EXFAT_ENTRY_FILE_INFO then current = uint EXFAT_ENTRY_FILE_NAME
      else if previous = uint EXFAT_ENTRY_FILE_NAME
        then current = uint EXFAT_ENTRY_FILE_NAME \<or> current = EXFAT_ENTRY_NONE \<or> current \<ge> uint EXFAT_ENTRY_FILE_TAIL
      else if uint EXFAT_ENTRY_FILE_TAIL \<le> previous \<and> previous \<le> 0xff
        then current \<ge> uint EXFAT_ENTRY_FILE_TAIL \<or> current = EXFAT_ENTRY_NONE
      else False)"

fun check_types :: "int \<Rightarrow> int list \<Rightarrow> bool" where
  "check_types previous [] \<longleftrightarrow> True"
| "check_types previous (current # types) \<longleftrightarrow> entry_follows previous current \<and> check_types current types"

definition check_entries :: "bytes list \<Rightarrow> bool" where
  "check_entries entries = check_types EXFAT_ENTRY_NONE (map (\<lambda>e. uint (e ! 0)) entries @ [EXFAT_ENTRY_NONE])"

text \<open>The last component of the result counts repaired errors.\<close>

definition check_node :: "exfat_repair \<Rightarrow> exfat_super_block \<Rightarrow> u16 \<Rightarrow> exfat_entry_meta1 \<Rightarrow> tree_node \<Rightarrow> (bool \<times> tree_node \<times> int) option" where
  "check_node repair sb actual_checksum meta1 t =
     (let nd = tn_node t;
          cluster_size = (ucast (CLUSTER_SIZE sb) :: u64);
          clusters_heap_size = ucast (sb_cluster_count sb) * cluster_size;
          bad_checksum = (actual_checksum \<noteq> m1_checksum meta1);
          fix_it = (bad_checksum \<and> exfat_ask_to_fix repair);
          bad = (valid_size nd > nd_size nd \<or> (nd_size nd = 0 \<and> start_cluster nd \<noteq> EXFAT_CLUSTER_FREE) \<or>
                 (nd_size nd > 0 \<and> CLUSTER_INVALID sb (start_cluster nd)) \<or> nd_size nd > clusters_heap_size \<or>
                 (nd_size nd = 0 \<and> is_contiguous nd) \<or> (nd_attrib nd AND EXFAT_ATTRIB_DIR \<noteq> 0 \<and> nd_size nd mod cluster_size \<noteq> 0)) in
      if (bad_checksum \<or> bad) \<and> exfat_get_name (tn_name t) = None then None
      else Some (\<not> bad \<and> (bad_checksum \<longrightarrow> fix_it), if fix_it then t\<lparr>tn_node := nd\<lparr>is_dirty := True\<rparr>\<rparr> else t, if fix_it then 1 else 0))"

definition parse_file_entries :: "exfat_repair \<Rightarrow> exfat_super_block \<Rightarrow> bytes list \<Rightarrow> tree_node \<Rightarrow> (int \<times> tree_node \<times> int) option" where
  "parse_file_entries repair sb entries t =
     (if \<not> check_entries entries then Some (-EIO, t, 0)
      else
        let meta1 = meta1_of (entries ! 0) in
        if m1_continuations meta1 < 2 then Some (-EIO, t, 0)
        else
          let meta2 = meta2_of (entries ! 1) in
          if m2_flags meta2 AND NOT (EXFAT_FLAG_ALWAYS1 OR EXFAT_FLAG_CONTIGUOUS) \<noteq> 0 then Some (-EIO, t, 0)
          else
            let mandatory_entries = 2 + (unat (m2_name_length meta2) + EXFAT_ENAME_MAX - 1) div EXFAT_ENAME_MAX in
            if unat (m1_continuations meta1) < mandatory_entries - 1 then Some (-EIO, t, 0)
            else
              case check_node repair sb (exfat_calc_checksum entries) meta1
                     (init_node_name (take (mandatory_entries - 2) (drop 2 entries)) (init_node_meta2 meta2 (init_node_meta1 meta1 t))) of
                None \<Rightarrow> None
              | Some (ok, t1, n) \<Rightarrow> Some (if ok then 0 else -EIO, t1, n))"

definition parse_file_entry :: "'s storage \<Rightarrow> u64 \<Rightarrow> u64 \<Rightarrow> nat \<Rightarrow> 's exfat_fs \<Rightarrow> ((int \<times> node_ptr \<times> u64) \<times> 's exfat_fs) option" where
  "parse_file_entry ops parent offset n st =
     do {
       ((rc, entries), st) \<leftarrow> read_dir_entries ops parent n offset st;
       if rc \<noteq> 0 then Some ((rc, None, offset), st)
       else
         case allocate_node st of
           (None, st) \<Rightarrow> Some ((-ENOMEM, None, offset), st)
         | (Some i, st) \<Rightarrow>
             do {
               (rc, t, fixed) \<leftarrow> parse_file_entries (fs_repair st) (ef_sb (fs_ef st)) entries (zero_node\<lparr>tn_entry_offset := offset\<rparr>);
               let st = (put_tn i t st)\<lparr>exfat_errors_fixed := exfat_errors_fixed st + fixed\<rparr>;
               if rc \<noteq> 0 then Some ((rc, Some i, offset), st)
               else Some ((0, Some i, offset + of_nat (32 * n)), st)
             }
     }"

section \<open>Reading a directory\<close>

fun decompress_loop :: "u16 list \<Rightarrow> nat \<Rightarrow> u16 list \<Rightarrow> u16 list" where
  "decompress_loop [] oi output = output"
| "decompress_loop [ch] oi output = (if oi < EXFAT_UPCASE_CHARS then output[oi := ch] else output)"
| "decompress_loop (ch # run # source) oi output =
     (if oi < EXFAT_UPCASE_CHARS then
        if ch = 0xffff then decompress_loop source (oi + unat run) output
        else decompress_loop (run # source) (oi + 1) (output[oi := ch])
      else output)"

definition decompress_upcase :: "u16 list \<Rightarrow> u16 list" where
  "decompress_upcase source = decompress_loop source 0 (map of_nat [0..<EXFAT_UPCASE_CHARS])"

text \<open>What an entry that is not a file does: a return code, or \<open>None\<close> to go on with the next entry.\<close>

definition read_upcase :: "'s storage \<Rightarrow> exfat_entry_upcase \<Rightarrow> 's exfat_fs \<Rightarrow> (int option \<times> 's exfat_fs) option" where
  "read_upcase ops upcase st =
     (if fs_upcase st \<noteq> None then Some (None, st)
      else if CLUSTER_INVALID (ef_sb (fs_ef st)) (ue_start_cluster upcase) then Some (Some (-EIO), st)
      else if ue_size upcase = 0 \<or> ue_size upcase > of_nat (EXFAT_UPCASE_CHARS * 2) \<or> ue_size upcase mod 2 \<noteq> 0 then Some (Some (-EIO), st)
      else
        case alloc (ue_size upcase) st of
          (None, st) \<Rightarrow> Some (Some (-ENOMEM), st)
        | (Some p, st) \<Rightarrow>
            do {
              offset \<leftarrow> exfat_c2o (ef_sb (fs_ef st)) (ue_start_cluster upcase);
              (r, upcase_comp, io) \<leftarrow> exfat_pread ops (replicate (unat (ue_size upcase)) 0) 0 (unat (ue_size upcase)) offset (ef_io (fs_ef st));
              let st = st\<lparr>fs_ef := (fs_ef st)\<lparr>ef_io := io\<rparr>\<rparr>;
              if r < 0 then Some (Some (-EIO), st)
              else
                case alloc (of_nat (EXFAT_UPCASE_CHARS * 2)) st of
                  (None, st) \<Rightarrow> Some (Some (-ENOMEM), st)
                | (Some p, st) \<Rightarrow> Some (None, st\<lparr>fs_upcase := Some (decompress_upcase (units_of upcase_comp))\<rparr>)
            })"

fun words_of :: "bytes \<Rightarrow> nat \<Rightarrow> u64 list" where
  "words_of bs 0 = []"
| "words_of bs (Suc n) = of_le (take 8 bs) # words_of (drop 8 bs) n"

definition read_bitmap :: "'s storage \<Rightarrow> exfat_entry_bitmap \<Rightarrow> 's exfat_fs \<Rightarrow> (int option \<times> 's exfat_fs) option" where
  "read_bitmap ops bitmap st =
     (let sb = ef_sb (fs_ef st);
          st = st\<lparr>fs_ef := (fs_ef st)\<lparr>cmap_start_cluster := be_start_cluster bitmap\<rparr>\<rparr> in
      if CLUSTER_INVALID sb (be_start_cluster bitmap) then Some (Some (-EIO), st)
      else
        let st = st\<lparr>fs_ef := (fs_ef st)\<lparr>cmap_size := sb_cluster_count sb\<rparr>\<rparr> in
        if be_size bitmap < ucast ((sb_cluster_count sb + 8 - 1) div 8) then Some (Some (-EIO), st)
        else
          let st = st\<lparr>fs_ef := (fs_ef st)\<lparr>cmap_chunk_size := sb_cluster_count sb\<rparr>\<rparr>;
              n = BMAP_SIZE (unat (sb_cluster_count sb)) in
          case alloc (of_nat n) st of
            (None, st) \<Rightarrow> Some (Some (-ENOMEM), st\<lparr>fs_chunk := False\<rparr>)
          | (Some p, st) \<Rightarrow>
              do {
                offset \<leftarrow> exfat_c2o sb (be_start_cluster bitmap);
                (r, chunk, io) \<leftarrow> exfat_pread ops (replicate n 0) 0 n offset (ef_io (fs_ef st));
                let st = st\<lparr>fs_chunk := True, fs_ef := (fs_ef st)\<lparr>ef_io := io, cmap_chunk := words_of chunk (n div 8)\<rparr>\<rparr>;
                Some (if r < 0 then Some (-EIO) else None, st)
              })"

definition read_label :: "exfat_entry_label \<Rightarrow> 's exfat_fs \<Rightarrow> int option \<times> 's exfat_fs" where
  "read_label label st =
     (if unat (le_length label) > EXFAT_ENAME_MAX then (Some (-EIO), st)
      else
        case exfat_utf16_to_utf8 TYPE(16) (fs_label st) (le_name label) 46 of
          (rc, buf) \<Rightarrow> (if rc \<noteq> UTF_OK then Some (-EIO) else None, st\<lparr>fs_label := buf\<rparr>))"

definition exfat_fix_unknown_entry :: "'s storage \<Rightarrow> u64 \<Rightarrow> bytes \<Rightarrow> u64 \<Rightarrow> 's exfat_fs \<Rightarrow> (bool \<times> 's exfat_fs) option" where
  "exfat_fix_unknown_entry ops dir entry offset st =
     do {
       (r, st) \<leftarrow> on_node dir (exfat_generic_pwrite ops (entry[0 := entry ! 0 AND NOT EXFAT_ENTRY_VALID]) 32 offset) st;
       if r \<noteq> 32 then Some (False, st)
       else Some (True, st\<lparr>exfat_errors_fixed := exfat_errors_fixed st + 1\<rparr>)
     }"

definition read_unknown :: "'s storage \<Rightarrow> u64 \<Rightarrow> bytes \<Rightarrow> u64 \<Rightarrow> 's exfat_fs \<Rightarrow> (int option \<times> 's exfat_fs) option" where
  "read_unknown ops parent entry offset st =
     (if entry ! 0 AND EXFAT_ENTRY_VALID = 0 then Some (None, st)
      else if \<not> exfat_ask_to_fix (fs_repair st) then Some (Some (-EIO), st)
      else map_option (\<lambda>(ok, st). (if ok then None else Some (-EIO), st)) (exfat_fix_unknown_entry ops parent entry offset st))"

definition read_other :: "'s storage \<Rightarrow> u64 \<Rightarrow> bytes \<Rightarrow> u64 \<Rightarrow> 's exfat_fs \<Rightarrow> (int option \<times> 's exfat_fs) option" where
  "read_other ops parent entry offset st =
     (if entry ! 0 = EXFAT_ENTRY_UPCASE then read_upcase ops (upcase_of entry) st
      else if entry ! 0 = EXFAT_ENTRY_BITMAP then read_bitmap ops (bitmap_of entry) st
      else if entry ! 0 = EXFAT_ENTRY_LABEL then Some (read_label (label_of entry) st)
      else read_unknown ops parent entry offset st)"

partial_function (option) readdir :: "'s storage \<Rightarrow> u64 \<Rightarrow> u64 \<Rightarrow> 's exfat_fs \<Rightarrow> ((int \<times> node_ptr \<times> u64) \<times> 's exfat_fs) option" where
  "readdir ops parent offset st =
     do {
       ((rc, entries), st) \<leftarrow> read_dir_entries ops parent 1 offset st;
       if rc \<noteq> 0 then Some ((rc, None, offset), st)
       else if hd entries ! 0 = EXFAT_ENTRY_FILE
         then parse_file_entry ops parent offset (1 + unat (m1_continuations (meta1_of (hd entries)))) st
       else do {
         (rc, st) \<leftarrow> read_other ops parent (hd entries) offset st;
         case rc of Some rc \<Rightarrow> Some ((rc, None, offset), st) | None \<Rightarrow> readdir ops parent (offset + 32) st
       }
     }"

text \<open>A node read from the directory is linked behind the previous one.\<close>

definition link_node :: "u64 \<Rightarrow> u64 \<Rightarrow> node_ptr \<Rightarrow> 's exfat_fs \<Rightarrow> 's exfat_fs option" where
  "link_node dir i current st =
     do {
       st \<leftarrow> change_tn i (\<lambda>t. t\<lparr>tn_parent := Some dir\<rparr>) st;
       case current of
         Some c \<Rightarrow> do { st \<leftarrow> change_tn c (\<lambda>t. t\<lparr>tn_next := Some i\<rparr>) st; change_tn i (\<lambda>t. t\<lparr>tn_prev := Some c\<rparr>) st }
       | None \<Rightarrow> change_tn dir (\<lambda>t. t\<lparr>tn_child := Some i\<rparr>) st
     }"

partial_function (option) cache_loop :: "'s storage \<Rightarrow> u64 \<Rightarrow> u64 \<Rightarrow> node_ptr \<Rightarrow> 's exfat_fs \<Rightarrow> (int \<times> 's exfat_fs) option" where
  "cache_loop ops dir offset current st =
     do {
       ((rc, node, offset), st) \<leftarrow> readdir ops dir offset st;
       if rc \<noteq> 0 then Some (rc, st)
       else do { i \<leftarrow> node; st \<leftarrow> link_node dir i current st; cache_loop ops dir offset (Some i) st }
     }"

definition exfat_cache_directory :: "'s storage \<Rightarrow> u64 \<Rightarrow> 's exfat_fs \<Rightarrow> (int \<times> 's exfat_fs) option" where
  "exfat_cache_directory ops dir st =
     do {
       t \<leftarrow> fs_nodes st dir;
       if tn_cached t then Some (0, st)
       else do {
         (rc, st) \<leftarrow> cache_loop ops dir 0 None st;
         if rc \<noteq> -ENOENT then map_option (Pair rc) (change_tn dir (\<lambda>t. t\<lparr>tn_child := None\<rparr>) st)
         else map_option (Pair 0) (change_tn dir (\<lambda>t. t\<lparr>tn_cached := True\<rparr>) st)
       }
     }"

section \<open>The tree\<close>

definition tree_attach :: "u64 \<Rightarrow> u64 \<Rightarrow> 's exfat_fs \<Rightarrow> 's exfat_fs option" where
  "tree_attach dir node st =
     do {
       st \<leftarrow> change_tn node (\<lambda>t. t\<lparr>tn_parent := Some dir\<rparr>) st;
       d \<leftarrow> fs_nodes st dir;
       st \<leftarrow> (case tn_child d of
                None \<Rightarrow> Some st
              | Some c \<Rightarrow> do { st \<leftarrow> change_tn c (\<lambda>t. t\<lparr>tn_prev := Some node\<rparr>) st; change_tn node (\<lambda>t. t\<lparr>tn_next := Some c\<rparr>) st });
       change_tn dir (\<lambda>t. t\<lparr>tn_child := Some node\<rparr>) st
     }"

definition tree_detach :: "u64 \<Rightarrow> 's exfat_fs \<Rightarrow> 's exfat_fs option" where
  "tree_detach node st =
     do {
       t \<leftarrow> fs_nodes st node;
       st \<leftarrow> (case tn_prev t of
                Some p \<Rightarrow> change_tn p (\<lambda>u. u\<lparr>tn_next := tn_next t\<rparr>) st
              | None \<Rightarrow> do { d \<leftarrow> tn_parent t; change_tn d (\<lambda>u. u\<lparr>tn_child := tn_next t\<rparr>) st });
       st \<leftarrow> (case tn_next t of Some n \<Rightarrow> change_tn n (\<lambda>u. u\<lparr>tn_prev := tn_prev t\<rparr>) st | None \<Rightarrow> Some st);
       change_tn node (\<lambda>u. u\<lparr>tn_parent := None, tn_prev := None, tn_next := None\<rparr>) st
     }"

partial_function (option) put_references :: "u64 \<Rightarrow> 's exfat_fs \<Rightarrow> 's exfat_fs option" where
  "put_references i st =
     do {
       t \<leftarrow> fs_nodes st i;
       if nd_references (tn_node t) = 0 then Some st
       else do { st \<leftarrow> exfat_put_node i st; put_references i st }
     }"

definition reset_node :: "u64 \<Rightarrow> 's exfat_fs \<Rightarrow> 's exfat_fs option" where
  "reset_node i st =
     do {
       st \<leftarrow> change_tn i (\<lambda>t. t\<lparr>tn_cached := False\<rparr>) st;
       t \<leftarrow> fs_nodes st i;
       if nd_references (tn_node t) \<noteq> 0 \<and> exfat_get_name (tn_name t) = None then None
       else if fs_root st \<noteq> Some i \<and> is_dirty (tn_node t) then None
       else put_references i st
     }"

text \<open>The loop over the children and the recursion are the same call: a node is visited again until it has no child.\<close>

partial_function (option) reset_cache :: "u64 \<Rightarrow> 's exfat_fs \<Rightarrow> 's exfat_fs option" where
  "reset_cache i st =
     do {
       t \<leftarrow> fs_nodes st i;
       case tn_child t of
         None \<Rightarrow> reset_node i st
       | Some p \<Rightarrow> do { st \<leftarrow> reset_cache p st; st \<leftarrow> tree_detach p st; reset_cache i st }
     }"

definition exfat_reset_cache :: "'s exfat_fs \<Rightarrow> 's exfat_fs option" where
  "exfat_reset_cache st = do { r \<leftarrow> fs_root st; reset_cache r st }"

section \<open>Flushing\<close>

definition flushed_meta1 :: "exfat_node \<Rightarrow> exfat_entry_meta1 \<Rightarrow> exfat_entry_meta1" where
  "flushed_meta1 nd meta1 =
     (let m = exfat_unix2exfat exfat_tzset (nd_mtime nd); a = exfat_unix2exfat exfat_tzset (nd_atime nd) in
      meta1\<lparr>m1_attrib := nd_attrib nd, m1_mtime_cs := es_centisec m, m1_mtime_tzo := es_tzoffset m, m1_mdate := es_date m, m1_mtime := es_time m,
            m1_atime_tzo := es_tzoffset a, m1_adate := es_date a, m1_atime := es_time a\<rparr>)"

definition flushed_meta2 :: "exfat_node \<Rightarrow> exfat_entry_meta2 \<Rightarrow> exfat_entry_meta2" where
  "flushed_meta2 nd meta2 =
     meta2\<lparr>m2_valid_size := valid_size nd, m2_size := nd_size nd, m2_start_cluster := start_cluster nd,
           m2_flags := if nd_size nd \<noteq> 0 \<and> is_contiguous nd then EXFAT_FLAG_ALWAYS1 OR EXFAT_FLAG_CONTIGUOUS else EXFAT_FLAG_ALWAYS1\<rparr>"

text \<open>The checksum leaves out its own field, so that it may be computed before the field is set.\<close>

definition seal_entries :: "exfat_entry_meta1 \<Rightarrow> bytes list \<Rightarrow> bytes list" where
  "seal_entries meta1 rest = meta1_bytes (meta1\<lparr>m1_checksum := exfat_calc_checksum (meta1_bytes meta1 # rest)\<rparr>) # rest"

definition flushed_entries :: "exfat_node \<Rightarrow> bytes list \<Rightarrow> bytes list" where
  "flushed_entries nd entries =
     seal_entries (flushed_meta1 nd (meta1_of (entries ! 0))) (meta2_bytes (flushed_meta2 nd (meta2_of (entries ! 1))) # drop 2 entries)"

definition exfat_flush_node :: "'s storage \<Rightarrow> u64 \<Rightarrow> 's exfat_fs \<Rightarrow> (int \<times> 's exfat_fs) option" where
  "exfat_flush_node ops i st =
     do {
       t \<leftarrow> fs_nodes st i;
       if \<not> is_dirty (tn_node t) then Some (0, st)
       else if ef_ro (fs_ef st) then None
       else
         case tn_parent t of
           None \<Rightarrow> Some (0, st)
         | Some parent \<Rightarrow>
             do {
               let n = 1 + unat (tn_continuations t);
               ((rc, entries), st) \<leftarrow> read_dir_entries ops parent n (tn_entry_offset t) st;
               if rc \<noteq> 0 then Some (rc, st)
               else if \<not> check_entries entries then Some (-EIO, st)
               else do {
                 (rc, st) \<leftarrow> write_dir_entries ops parent (flushed_entries (tn_node t) entries) (tn_entry_offset t) st;
                 if rc \<noteq> 0 then Some (rc, st)
                 else do {
                   st \<leftarrow> change_tn i (\<lambda>t. t\<lparr>tn_node := (tn_node t)\<lparr>is_dirty := False\<rparr>\<rparr>) st;
                   (rc, ef) \<leftarrow> exfat_flush ops (fs_ef st);
                   Some (rc, st\<lparr>fs_ef := ef\<rparr>)
                 }
               }
             }
     }"

text \<open>The children of a node, each with its own children first.\<close>

partial_function (option) flush_children :: "'s storage \<Rightarrow> node_ptr \<Rightarrow> 's exfat_fs \<Rightarrow> (int \<times> 's exfat_fs) option" where
  "flush_children ops p st =
     (case p of
        None \<Rightarrow> Some (0, st)
      | Some i \<Rightarrow>
          do {
            t \<leftarrow> fs_nodes st i;
            (rc, st) \<leftarrow> flush_children ops (tn_child t) st;
            if rc \<noteq> 0 then Some (rc, st)
            else do {
              (rc, st) \<leftarrow> exfat_flush_node ops i st;
              if rc \<noteq> 0 then Some (rc, st)
              else do { t \<leftarrow> fs_nodes st i; flush_children ops (tn_next t) st }
            }
          })"

definition flush_nodes :: "'s storage \<Rightarrow> u64 \<Rightarrow> 's exfat_fs \<Rightarrow> (int \<times> 's exfat_fs) option" where
  "flush_nodes ops i st =
     do {
       t \<leftarrow> fs_nodes st i;
       (rc, st) \<leftarrow> flush_children ops (tn_child t) st;
       if rc \<noteq> 0 then Some (rc, st) else exfat_flush_node ops i st
     }"

definition exfat_flush_nodes :: "'s storage \<Rightarrow> 's exfat_fs \<Rightarrow> (int \<times> 's exfat_fs) option" where
  "exfat_flush_nodes ops st = do { r \<leftarrow> fs_root st; flush_nodes ops r st }"

section \<open>Removing nodes\<close>

definition erase_entries :: "'s storage \<Rightarrow> u64 \<Rightarrow> nat \<Rightarrow> u64 \<Rightarrow> 's exfat_fs \<Rightarrow> (int \<times> 's exfat_fs) option" where
  "erase_entries ops dir n offset st =
     do {
       ((rc, entries), st) \<leftarrow> read_dir_entries ops dir n offset st;
       if rc \<noteq> 0 then Some (rc, st)
       else write_dir_entries ops dir (map (\<lambda>e. e[0 := e ! 0 AND NOT EXFAT_ENTRY_VALID]) entries) offset st
     }"

definition erase_node :: "'s storage \<Rightarrow> u64 \<Rightarrow> 's exfat_fs \<Rightarrow> (int \<times> 's exfat_fs) option" where
  "erase_node ops i st =
     do {
       t \<leftarrow> fs_nodes st i;
       parent \<leftarrow> tn_parent t;
       st \<leftarrow> exfat_get_node parent st;
       (rc, st) \<leftarrow> erase_entries ops parent (1 + unat (tn_continuations t)) (tn_entry_offset t) st;
       if rc \<noteq> 0 then map_option (Pair rc) (exfat_put_node parent st)
       else do { (rc, st) \<leftarrow> exfat_flush_node ops parent st; map_option (Pair rc) (exfat_put_node parent st) }
     }"

text \<open>The last entry among the children; \<open>Some None\<close> when an entry lies behind the deleted one.\<close>

partial_function (option) last_entry :: "u64 \<Rightarrow> tree_node option \<Rightarrow> node_ptr \<Rightarrow> 's exfat_fs \<Rightarrow> tree_node option option option" where
  "last_entry deleted_offset last_node p st =
     (case p of
        None \<Rightarrow> Some (Some last_node)
      | Some i \<Rightarrow>
          do {
            t \<leftarrow> fs_nodes st i;
            if deleted_offset <s tn_entry_offset t then Some None
            else last_entry deleted_offset
                   (case last_node of None \<Rightarrow> Some t | Some l \<Rightarrow> if tn_entry_offset l <s tn_entry_offset t then Some t else Some l) (tn_next t) st
          })"

definition shrink_directory :: "'s storage \<Rightarrow> u64 \<Rightarrow> u64 \<Rightarrow> 's exfat_fs \<Rightarrow> (int \<times> 's exfat_fs) option" where
  "shrink_directory ops dir deleted_offset st =
     do {
       d \<leftarrow> fs_nodes st dir;
       if nd_attrib (tn_node d) AND EXFAT_ATTRIB_DIR = 0 \<or> \<not> tn_cached d then None
       else do {
         found \<leftarrow> last_entry deleted_offset None (tn_child d) st;
         case found of
           None \<Rightarrow> Some (0, st)
         | Some last_node \<Rightarrow>
             do {
               entries \<leftarrow> (case last_node of
                            None \<Rightarrow> Some (0 :: u64)
                          | Some l \<Rightarrow> map_option (\<lambda>n. tn_entry_offset l div 32 + 2 + of_nat ((n + EXFAT_ENAME_MAX - 1) div EXFAT_ENAME_MAX)) (exfat_utf16_length (tn_name l)));
               let cs = ucast (CLUSTER_SIZE (ef_sb (fs_ef st)));
               let new_size = (entries * 32 + cs - 1) div cs * cs;
               let new_size = (if new_size = 0 then cs else new_size);
               if new_size = nd_size (tn_node d) then Some (0, st) else on_node dir (exfat_truncate ops new_size True) st
             }
       }
     }"

definition delete_node :: "'s storage \<Rightarrow> u64 \<Rightarrow> 's exfat_fs \<Rightarrow> (int \<times> 's exfat_fs) option" where
  "delete_node ops node st =
     do {
       t \<leftarrow> fs_nodes st node;
       parent \<leftarrow> tn_parent t;
       st \<leftarrow> exfat_get_node parent st;
       (rc, st) \<leftarrow> erase_node ops node st;
       if rc \<noteq> 0 then map_option (Pair rc) (exfat_put_node parent st)
       else do {
         st \<leftarrow> tree_detach node st;
         (rc, st) \<leftarrow> shrink_directory ops parent (tn_entry_offset t) st;
         st \<leftarrow> change_tn node (\<lambda>t. t\<lparr>tn_unlinked := True\<rparr>) st;
         if rc \<noteq> 0 then do { (rc1, st) \<leftarrow> exfat_flush_node ops parent st; map_option (Pair rc) (exfat_put_node parent st) }
         else do {
           st \<leftarrow> change_tn parent (\<lambda>t. t\<lparr>tn_node := exfat_update_mtime (tn_node t)\<rparr>) st;
           (rc, st) \<leftarrow> exfat_flush_node ops parent st;
           map_option (Pair rc) (exfat_put_node parent st)
         }
       }
     }"

definition exfat_unlink :: "'s storage \<Rightarrow> u64 \<Rightarrow> 's exfat_fs \<Rightarrow> (int \<times> 's exfat_fs) option" where
  "exfat_unlink ops node st =
     do {
       t \<leftarrow> fs_nodes st node;
       if nd_attrib (tn_node t) AND EXFAT_ATTRIB_DIR \<noteq> 0 then Some (-EISDIR, st) else delete_node ops node st
     }"

definition exfat_rmdir :: "'s storage \<Rightarrow> u64 \<Rightarrow> 's exfat_fs \<Rightarrow> (int \<times> 's exfat_fs) option" where
  "exfat_rmdir ops node st =
     do {
       t \<leftarrow> fs_nodes st node;
       if nd_attrib (tn_node t) AND EXFAT_ATTRIB_DIR = 0 then Some (-ENOTDIR, st)
       else do {
         (rc, st) \<leftarrow> exfat_cache_directory ops node st;
         if rc \<noteq> 0 then Some (rc, st)
         else do {
           t \<leftarrow> fs_nodes st node;
           if tn_child t \<noteq> None then Some (-ENOTEMPTY, st) else delete_node ops node st
         }
       }
     }"

section \<open>Adding nodes\<close>

definition check_slot :: "'s storage \<Rightarrow> u64 \<Rightarrow> u64 \<Rightarrow> nat \<Rightarrow> 's exfat_fs \<Rightarrow> (int \<times> 's exfat_fs) option" where
  "check_slot ops dir offset n st =
     (if fs_root st \<noteq> Some dir then Some (0, st)
      else do {
        ((rc, entries), st) \<leftarrow> read_dir_entries ops dir n offset st;
        if rc \<noteq> 0 then Some (rc, st)
        else Some (if \<exists>e \<in> set entries. e ! 0 AND EXFAT_ENTRY_VALID \<noteq> 0 then -EINVAL else 0, st)
      })"

text \<open>The bitmap of the entries the children take.\<close>

partial_function (option) fill_slots :: "u64 list \<Rightarrow> node_ptr \<Rightarrow> 's exfat_fs \<Rightarrow> u64 list option" where
  "fill_slots dmap p st =
     (case p of
        None \<Rightarrow> Some dmap
      | Some i \<Rightarrow>
          do {
            t \<leftarrow> fs_nodes st i;
            let first = unat (tn_entry_offset t div 32);
            let n = 1 + unat (tn_continuations t);
            if first + n > 64 * length dmap then None
            else fill_slots (foldl BMAP_SET dmap [first..<first + n]) (tn_next t) st
          })"

text \<open>The search: \<open>Some rc\<close> when it is over, else the slot begun at the end of the directory.\<close>

partial_function (option) slot_loop :: "'s storage \<Rightarrow> u64 \<Rightarrow> u64 list \<Rightarrow> nat \<Rightarrow> nat \<Rightarrow> nat \<Rightarrow> nat \<Rightarrow> u64 \<Rightarrow> 's exfat_fs \<Rightarrow> ((int option \<times> nat \<times> u64) \<times> 's exfat_fs) option" where
  "slot_loop ops dir dmap count n i contiguous offset st =
     (if i < count then
        if BMAP_GET dmap i = 0 then
          let offset = (if contiguous = 0 then of_nat i * 32 else offset) in
          if contiguous + 1 = n then
            do {
              (rc, st) \<leftarrow> check_slot ops dir offset n st;
              if rc = -EINVAL then slot_loop ops dir dmap count n (i - contiguous + 1) 0 offset st
              else Some ((Some rc, contiguous + 1, offset), st)
            }
          else slot_loop ops dir dmap count n (i + 1) (contiguous + 1) offset st
        else slot_loop ops dir dmap count n (i + 1) 0 offset st
      else Some ((None, contiguous, offset), st))"

definition find_slot :: "'s storage \<Rightarrow> u64 \<Rightarrow> u64 \<Rightarrow> nat \<Rightarrow> 's exfat_fs \<Rightarrow> ((int \<times> u64) \<times> 's exfat_fs) option" where
  "find_slot ops dir offset n st =
     do {
       d \<leftarrow> fs_nodes st dir;
       if \<not> tn_cached d then None
       else
         let count = unat (nd_size (tn_node d) div 32) in
         case alloc (of_nat (BMAP_SIZE count * 8)) st of
           (None, st) \<Rightarrow> Some ((-ENOMEM, offset), st)
         | (Some p, st) \<Rightarrow>
             do {
               dmap \<leftarrow> fill_slots (replicate (BMAP_SIZE count) 0) (tn_child d) st;
               ((rc, contiguous, offset), st) \<leftarrow> slot_loop ops dir dmap count n 0 0 offset st;
               case rc of
                 Some rc \<Rightarrow> Some ((rc, offset), st)
               | None \<Rightarrow>
                   do {
                     d \<leftarrow> fs_nodes st dir;
                     let n1 = nd_size (tn_node d);
                     let cs = ucast (CLUSTER_SIZE (ef_sb (fs_ef st)));
                     (rc, st) \<leftarrow> on_node dir (exfat_truncate ops ((n1 + of_nat (32 * (n - contiguous)) + cs - 1) div cs * cs) True) st;
                     Some ((rc, if contiguous = 0 then n1 else offset), st)
                   }
             }
     }"

definition name_entries :: "u16 list \<Rightarrow> nat \<Rightarrow> bytes list" where
  "name_entries name n =
     map (\<lambda>i. name_bytes \<lparr>ne_type = EXFAT_ENTRY_FILE_NAME, ne_unknown = 0, ne_name = take EXFAT_ENAME_MAX (drop (i * EXFAT_ENAME_MAX) name)\<rparr>) [0..<n]"

definition new_meta1 :: "nat \<Rightarrow> u16 \<Rightarrow> exfat_entry_meta1" where
  "new_meta1 n attrib =
     (let e = exfat_unix2exfat exfat_tzset 0 in
      \<lparr>m1_type = EXFAT_ENTRY_FILE, m1_continuations = of_nat (1 + n), m1_checksum = 0, m1_attrib = attrib, m1_unknown1 = 0,
       m1_crtime = es_time e, m1_crdate = es_date e, m1_mtime = es_time e, m1_mdate = es_date e, m1_atime = es_time e, m1_adate = es_date e,
       m1_crtime_cs = es_centisec e, m1_mtime_cs = es_centisec e, m1_crtime_tzo = es_tzoffset e, m1_mtime_tzo = es_tzoffset e,
       m1_atime_tzo = es_tzoffset e, m1_unknown2 = replicate 7 0\<rparr>)"

definition new_meta2 :: "nat \<Rightarrow> u16 \<Rightarrow> exfat_entry_meta2" where
  "new_meta2 name_length hash =
     \<lparr>m2_type = EXFAT_ENTRY_FILE_INFO, m2_flags = EXFAT_FLAG_ALWAYS1, m2_unknown1 = 0, m2_name_length = of_nat name_length, m2_name_hash = hash,
      m2_unknown2 = 0, m2_valid_size = 0, m2_unknown3 = replicate 4 0, m2_start_cluster = EXFAT_CLUSTER_FREE, m2_size = 0\<rparr>"

definition commit_entry :: "'s storage \<Rightarrow> u64 \<Rightarrow> u16 list \<Rightarrow> u64 \<Rightarrow> u16 \<Rightarrow> 's exfat_fs \<Rightarrow> (int \<times> 's exfat_fs) option" where
  "commit_entry ops dir name offset attrib st =
     do {
       name_length \<leftarrow> exfat_utf16_length name;
       upcase \<leftarrow> fs_upcase st;
       let k = (name_length + EXFAT_ENAME_MAX - 1) div EXFAT_ENAME_MAX;
       let meta1 = new_meta1 k attrib;
       let meta2 = new_meta2 name_length (exfat_calc_name_hash upcase name name_length);
       (rc, st) \<leftarrow> write_dir_entries ops dir (seal_entries meta1 (meta2_bytes meta2 # name_entries name k)) offset st;
       if rc \<noteq> 0 then Some (rc, st)
       else
         case allocate_node st of
           (None, st) \<Rightarrow> Some (-ENOMEM, st)
         | (Some i, st) \<Rightarrow>
             do {
               let t = zero_node\<lparr>tn_entry_offset := offset, tn_name := put_units (tn_name zero_node) 0 (take name_length name)\<rparr>;
               map_option (Pair 0) (tree_attach dir i (put_tn i (init_node_meta2 meta2 (init_node_meta1 meta1 t)) st))
             }
     }"

end
