(* ===== verification/Exfat_Lookup_Model.thy ===== *)
theory Exfat_Lookup_Model
  imports Exfat_Node_Model
begin

text \<open>
  Names and paths of the exFAT driver: \<^verbatim>\<open>fs/exfat/lookup.c\<close>, and the operations of \<^verbatim>\<open>fs/exfat/node.c\<close> that take paths.  A path is the list of its
  bytes without the terminator.
\<close>

section \<open>Iterators\<close>

record exfat_iterator =
  it_parent :: node_ptr
  it_current :: node_ptr

definition exfat_opendir :: "'s storage \<Rightarrow> u64 \<Rightarrow> 's exfat_fs \<Rightarrow> ((int \<times> exfat_iterator) \<times> 's exfat_fs) option" where
  "exfat_opendir ops dir st =
     do {
       st \<leftarrow> exfat_get_node dir st;
       (rc, st) \<leftarrow> exfat_cache_directory ops dir st;
       let it = \<lparr>it_parent = Some dir, it_current = None\<rparr>;
       if rc \<noteq> 0 then map_option (Pair (rc, it)) (exfat_put_node dir st) else Some ((rc, it), st)
     }"

definition exfat_closedir :: "exfat_iterator \<Rightarrow> 's exfat_fs \<Rightarrow> 's exfat_fs option" where
  "exfat_closedir it st = do { p \<leftarrow> it_parent it; exfat_put_node p st }"

definition exfat_readdir :: "exfat_iterator \<Rightarrow> 's exfat_fs \<Rightarrow> ((node_ptr \<times> exfat_iterator) \<times> 's exfat_fs) option" where
  "exfat_readdir it st =
     do {
       current \<leftarrow> (case it_current it of
                    None \<Rightarrow> do { p \<leftarrow> it_parent it; map_option tn_child (fs_nodes st p) }
                  | Some c \<Rightarrow> map_option tn_next (fs_nodes st c));
       let it = it\<lparr>it_current := current\<rparr>;
       case current of
         None \<Rightarrow> Some ((None, it), st)
       | Some c \<Rightarrow> map_option (Pair (Some c, it)) (exfat_get_node c st)
     }"

section \<open>Names\<close>

definition compare_char :: "u16 list \<Rightarrow> u16 \<Rightarrow> u16 \<Rightarrow> int" where
  "compare_char upcase a b = uint (upcase ! unat a) - uint (upcase ! unat b)"

text \<open>\<open>None\<close> is a read past the end of an unterminated name.\<close>

fun compare_name :: "u16 list \<Rightarrow> u16 list \<Rightarrow> u16 list \<Rightarrow> int option" where
  "compare_name upcase (a # as) (b # bs) =
     (if a \<noteq> 0 \<and> b \<noteq> 0 then
        if compare_char upcase a b \<noteq> 0 then Some (compare_char upcase a b) else compare_name upcase as bs
      else Some (compare_char upcase a b))"
| "compare_name upcase as bs = None"

fun utf_errno :: "utf_rc \<Rightarrow> int" where
  "utf_errno UTF_OK = 0"
| "utf_errno EILSEQ = -42"
| "utf_errno ENAMETOOLONG = -38"

partial_function (option) lookup_loop :: "u16 list \<Rightarrow> exfat_iterator \<Rightarrow> 's exfat_fs \<Rightarrow> ((int \<times> node_ptr) \<times> 's exfat_fs) option" where
  "lookup_loop buffer it st =
     do {
       ((node, it), st) \<leftarrow> exfat_readdir it st;
       case node of
         None \<Rightarrow> map_option (Pair (-ENOENT, None)) (exfat_closedir it st)
       | Some i \<Rightarrow>
           do {
             t \<leftarrow> fs_nodes st i;
             upcase \<leftarrow> fs_upcase st;
             cmp \<leftarrow> compare_name upcase buffer (tn_name t);
             if cmp = 0 then map_option (Pair (0, Some i)) (exfat_closedir it st)
             else do { st \<leftarrow> exfat_put_node i st; lookup_loop buffer it st }
           }
     }"

definition lookup_name :: "'s storage \<Rightarrow> u64 \<Rightarrow> bytes \<Rightarrow> 's exfat_fs \<Rightarrow> ((int \<times> node_ptr) \<times> 's exfat_fs) option" where
  "lookup_name ops parent name st =
     (case exfat_utf8_to_utf16 TYPE(16) (replicate 256 0) name 256 of
        (rc, buffer) \<Rightarrow>
          if rc \<noteq> UTF_OK then Some ((utf_errno rc, None), st)
          else do {
            ((rc, it), st) \<leftarrow> exfat_opendir ops parent st;
            if rc \<noteq> 0 then Some ((rc, None), st) else lookup_loop buffer it st
          })"

section \<open>Paths\<close>

text \<open>The first component of a path and what follows the slashes in front of it.\<close>

definition get_comp :: "bytes \<Rightarrow> nat \<times> bytes" where
  "get_comp path = (let part = dropWhile (\<lambda>c. c = 0x2f) path in (length (takeWhile (\<lambda>c. c \<noteq> 0x2f) part), part))"

lemma get_comp_less: "(n, p) = get_comp path \<Longrightarrow> 0 < n \<Longrightarrow> length p - n < length path"
proof -
  assume a: "(n, p) = get_comp path" "0 < n"
  then have p: "p = dropWhile (\<lambda>c. c = 0x2f) path" "n = length (takeWhile (\<lambda>c. c \<noteq> 0x2f) p)" by (auto simp: get_comp_def Let_def)
  have "length p \<le> length path" unfolding p(1) by (rule length_dropWhile_le)
  moreover have "n \<le> length p" unfolding p(2) by (rule length_takeWhile_le)
  ultimately show ?thesis using a(2) by simp
qed

function lookup_path :: "'s storage \<Rightarrow> bytes \<Rightarrow> u64 \<Rightarrow> 's exfat_fs \<Rightarrow> ((int \<times> node_ptr) \<times> 's exfat_fs) option" where
  "lookup_path ops path parent st =
     (case get_comp path of
        (n, p) \<Rightarrow>
          if n = 0 then Some ((0, Some parent), st)
          else if n = 1 \<and> hd p = 0x2e then lookup_path ops (drop n p) parent st
          else
            case lookup_name ops parent (take n p) st of
              None \<Rightarrow> None
            | Some ((rc, node), st) \<Rightarrow>
                (case exfat_put_node parent st of
                   None \<Rightarrow> None
                 | Some st \<Rightarrow>
                     if rc \<noteq> 0 then Some ((rc, None), st)
                     else case node of None \<Rightarrow> None | Some i \<Rightarrow> lookup_path ops (drop n p) i st))"
  by pat_completeness auto
termination
  by (relation "measure (\<lambda>(ops, path, parent, st). length path)") (auto intro: get_comp_less simp: get_comp_less)

declare lookup_path.simps [simp del]

definition exfat_lookup :: "'s storage \<Rightarrow> bytes \<Rightarrow> 's exfat_fs \<Rightarrow> ((int \<times> node_ptr) \<times> 's exfat_fs) option" where
  "exfat_lookup ops path st = do { r \<leftarrow> fs_root st; st \<leftarrow> exfat_get_node r st; lookup_path ops path r st }"

definition is_last_comp :: "bytes \<Rightarrow> nat \<Rightarrow> bool" where
  "is_last_comp part n = (fst (get_comp (drop n part)) = 0)"

definition is_allowed :: "bytes \<Rightarrow> bool" where
  "is_allowed part = (\<forall>c \<in> set part. \<not> (0x01 \<le> c \<and> c \<le> 0x1f) \<and> c \<notin> {0x2f, 0x5c, 0x3a, 0x2a, 0x3f, 0x22, 0x3c, 0x3e, 0x7c})"

text \<open>The result of a split: the code, the directory, the node if there is one, and the name of 256 units.\<close>

record split_result =
  sp_rc :: int
  sp_parent :: node_ptr
  sp_node :: node_ptr
  sp_name :: "u16 list"

definition split_fail :: "int \<Rightarrow> u64 \<Rightarrow> u16 list \<Rightarrow> 's exfat_fs \<Rightarrow> (split_result \<times> 's exfat_fs) option" where
  "split_fail rc parent name st = map_option (Pair \<lparr>sp_rc = rc, sp_parent = Some parent, sp_node = None, sp_name = name\<rparr>) (exfat_put_node parent st)"

definition split_last :: "'s storage \<Rightarrow> bytes \<Rightarrow> u64 \<Rightarrow> u16 list \<Rightarrow> 's exfat_fs \<Rightarrow> (split_result \<times> 's exfat_fs) option" where
  "split_last ops part parent name st =
     (if \<not> is_allowed part then split_fail (-ENOENT) parent name st
      else
        case exfat_utf8_to_utf16 TYPE(16) name part 256 of
          (rc, name) \<Rightarrow>
            if rc \<noteq> UTF_OK then split_fail (utf_errno rc) parent name st
            else do {
              ((rc, node), st) \<leftarrow> lookup_name ops parent part st;
              if rc \<noteq> 0 \<and> rc \<noteq> -ENOENT then split_fail rc parent name st
              else Some (\<lparr>sp_rc = 0, sp_parent = Some parent, sp_node = node, sp_name = name\<rparr>, st)
            })"

function split_path :: "'s storage \<Rightarrow> bytes \<Rightarrow> u64 \<Rightarrow> u16 list \<Rightarrow> 's exfat_fs \<Rightarrow> (split_result \<times> 's exfat_fs) option" where
  "split_path ops path parent name st =
     (case get_comp path of
        (n, p) \<Rightarrow>
          if n = 0 then None
          else if n = 1 \<and> hd p = 0x2e then split_path ops (drop n p) parent name st
          else if is_last_comp p n then split_last ops (take n p) parent name st
          else
            case lookup_name ops parent (take n p) st of
              None \<Rightarrow> None
            | Some ((rc, node), st) \<Rightarrow>
                if rc \<noteq> 0 then split_fail rc parent name st
                else
                  (case exfat_put_node parent st of
                     None \<Rightarrow> None
                   | Some st \<Rightarrow> (case node of None \<Rightarrow> None | Some i \<Rightarrow> split_path ops (drop n p) i name st)))"
  by pat_completeness auto
termination
  by (relation "measure (\<lambda>(ops, path, parent, name, st). length path)") (auto intro: get_comp_less simp: get_comp_less)

declare split_path.simps [simp del]

definition exfat_split :: "'s storage \<Rightarrow> bytes \<Rightarrow> 's exfat_fs \<Rightarrow> (split_result \<times> 's exfat_fs) option" where
  "exfat_split ops path st = do { r \<leftarrow> fs_root st; st \<leftarrow> exfat_get_node r st; split_path ops path r (replicate 256 0) st }"

section \<open>Creating\<close>

text \<open>Puts a node and returns a code.\<close>

definition put_and :: "u64 \<Rightarrow> int \<Rightarrow> 's exfat_fs \<Rightarrow> (int \<times> 's exfat_fs) option" where
  "put_and i rc st = map_option (Pair rc) (exfat_put_node i st)"

definition create_node :: "'s storage \<Rightarrow> bytes \<Rightarrow> u16 \<Rightarrow> 's exfat_fs \<Rightarrow> (int \<times> 's exfat_fs) option" where
  "create_node ops path attrib st =
     do {
       (sp, st) \<leftarrow> exfat_split ops path st;
       if sp_rc sp \<noteq> 0 then Some (sp_rc sp, st)
       else do {
         dir \<leftarrow> sp_parent sp;
         case sp_node sp of
           Some existing \<Rightarrow> do { st \<leftarrow> exfat_put_node existing st; put_and dir (-EEXIST) st }
         | None \<Rightarrow>
             do {
               n \<leftarrow> exfat_utf16_length (sp_name sp);
               ((rc, offset), st) \<leftarrow> find_slot ops dir (-1) (2 + (n + EXFAT_ENAME_MAX - 1) div EXFAT_ENAME_MAX) st;
               if rc \<noteq> 0 then put_and dir rc st
               else do {
                 (rc, st) \<leftarrow> commit_entry ops dir (sp_name sp) offset attrib st;
                 if rc \<noteq> 0 then put_and dir rc st
                 else do {
                   st \<leftarrow> change_tn dir (\<lambda>t. t\<lparr>tn_node := exfat_update_mtime (tn_node t)\<rparr>) st;
                   (rc, st) \<leftarrow> exfat_flush_node ops dir st;
                   put_and dir rc st
                 }
               }
             }
       }
     }"

definition exfat_mknod :: "'s storage \<Rightarrow> bytes \<Rightarrow> 's exfat_fs \<Rightarrow> (int \<times> 's exfat_fs) option" where
  "exfat_mknod ops path st = create_node ops path EXFAT_ATTRIB_ARCH st"

definition delete_and_put :: "'s storage \<Rightarrow> u64 \<Rightarrow> int \<Rightarrow> 's exfat_fs \<Rightarrow> (int \<times> 's exfat_fs) option" where
  "delete_and_put ops node rc st = do { (rc1, st) \<leftarrow> delete_node ops node st; put_and node rc st }"

definition exfat_mkdir :: "'s storage \<Rightarrow> bytes \<Rightarrow> 's exfat_fs \<Rightarrow> (int \<times> 's exfat_fs) option" where
  "exfat_mkdir ops path st =
     do {
       (rc, st) \<leftarrow> create_node ops path EXFAT_ATTRIB_DIR st;
       if rc \<noteq> 0 then Some (rc, st)
       else do {
         ((rc, node), st) \<leftarrow> exfat_lookup ops path st;
         if rc \<noteq> 0 then Some (0, st)
         else do {
           node \<leftarrow> node;
           (rc, st) \<leftarrow> on_node node (exfat_truncate ops (ucast (CLUSTER_SIZE (ef_sb (fs_ef st)))) True) st;
           if rc \<noteq> 0 then delete_and_put ops node rc st
           else do {
             (rc, st) \<leftarrow> exfat_flush_node ops node st;
             if rc \<noteq> 0 then delete_and_put ops node rc st else put_and node 0 st
           }
         }
       }
     }"

section \<open>Renaming\<close>

definition rename_entry :: "'s storage \<Rightarrow> u64 \<Rightarrow> u64 \<Rightarrow> u16 list \<Rightarrow> u64 \<Rightarrow> 's exfat_fs \<Rightarrow> (int \<times> 's exfat_fs) option" where
  "rename_entry ops dir node name new_offset st =
     do {
       name_length \<leftarrow> exfat_utf16_length name;
       upcase \<leftarrow> fs_upcase st;
       let k = (name_length + EXFAT_ENAME_MAX - 1) div EXFAT_ENAME_MAX;
       t \<leftarrow> fs_nodes st node;
       parent \<leftarrow> tn_parent t;
       ((rc, entries), st) \<leftarrow> read_dir_entries ops parent 2 (tn_entry_offset t) st;
       if rc \<noteq> 0 then Some (rc, st)
       else do {
         let meta1 = (meta1_of (entries ! 0))\<lparr>m1_continuations := of_nat (1 + k)\<rparr>;
         let meta2 = (meta2_of (entries ! 1))\<lparr>m2_name_length := of_nat name_length, m2_name_hash := exfat_calc_name_hash upcase name name_length\<rparr>;
         (rc, st) \<leftarrow> erase_node ops node st;
         if rc \<noteq> 0 then Some (rc, st)
         else do {
           st \<leftarrow> change_tn node (\<lambda>t. t\<lparr>tn_entry_offset := new_offset, tn_continuations := of_nat (1 + k)\<rparr>) st;
           (rc, st) \<leftarrow> write_dir_entries ops dir (seal_entries meta1 (meta2_bytes meta2 # name_entries name k)) new_offset st;
           if rc \<noteq> 0 then Some (rc, st)
           else do {
             st \<leftarrow> change_tn node (\<lambda>t. t\<lparr>tn_name := name\<rparr>) st;
             st \<leftarrow> tree_detach node st;
             st \<leftarrow> tree_attach dir node st;
             Some (0, st)
           }
         }
       }
     }"

partial_function (option) is_ancestor :: "u64 \<Rightarrow> node_ptr \<Rightarrow> 's exfat_fs \<Rightarrow> bool option" where
  "is_ancestor node p st =
     (case p of
        None \<Rightarrow> Some False
      | Some i \<Rightarrow> if i = node then Some True else do { t \<leftarrow> fs_nodes st i; is_ancestor node (tn_parent t) st })"

definition remove_target :: "'s storage \<Rightarrow> u64 \<Rightarrow> u64 \<Rightarrow> 's exfat_fs \<Rightarrow> (int \<times> 's exfat_fs) option" where
  "remove_target ops existing node st =
     (if existing = node then put_and existing 0 st
      else do {
        e \<leftarrow> fs_nodes st existing;
        t \<leftarrow> fs_nodes st node;
        let e_dir = (nd_attrib (tn_node e) AND EXFAT_ATTRIB_DIR \<noteq> 0);
        let n_dir = (nd_attrib (tn_node t) AND EXFAT_ATTRIB_DIR \<noteq> 0);
        (rc, st) \<leftarrow> (if e_dir then if n_dir then exfat_rmdir ops existing st else Some (-ENOTDIR, st)
                    else if \<not> n_dir then exfat_unlink ops existing st else Some (-EISDIR, st));
        st \<leftarrow> exfat_put_node existing st;
        (rc1, st) \<leftarrow> exfat_cleanup_node ops existing st;
        Some (if rc \<noteq> 0 then rc else rc1, st)
      })"

definition put_both :: "u64 \<Rightarrow> u64 \<Rightarrow> int \<Rightarrow> 's exfat_fs \<Rightarrow> (int \<times> 's exfat_fs) option" where
  "put_both dir node rc st = do { st \<leftarrow> exfat_put_node dir st; put_and node rc st }"

definition exfat_rename :: "'s storage \<Rightarrow> bytes \<Rightarrow> bytes \<Rightarrow> 's exfat_fs \<Rightarrow> (int \<times> 's exfat_fs) option" where
  "exfat_rename ops old_path new_path st =
     do {
       ((rc, node), st) \<leftarrow> exfat_lookup ops old_path st;
       if rc \<noteq> 0 then Some (rc, st)
       else do {
         node \<leftarrow> node;
         (sp, st) \<leftarrow> exfat_split ops new_path st;
         if sp_rc sp \<noteq> 0 then put_and node (sp_rc sp) st
         else do {
           dir \<leftarrow> sp_parent sp;
           t \<leftarrow> fs_nodes st node;
           inside \<leftarrow> (if nd_attrib (tn_node t) AND EXFAT_ATTRIB_DIR \<noteq> 0 then is_ancestor node (Some dir) st else Some False);
           if inside then do {
             st \<leftarrow> (case sp_node sp of Some existing \<Rightarrow> exfat_put_node existing st | None \<Rightarrow> Some st);
             put_both dir node (-EINVAL) st
           }
           else do {
             (rc, st) \<leftarrow> (case sp_node sp of None \<Rightarrow> Some (0, st) | Some existing \<Rightarrow> remove_target ops existing node st);
             if rc \<noteq> 0 then put_both dir node rc st
             else do {
               n \<leftarrow> exfat_utf16_length (sp_name sp);
               ((rc, offset), st) \<leftarrow> find_slot ops dir (-1) (2 + (n + EXFAT_ENAME_MAX - 1) div EXFAT_ENAME_MAX) st;
               if rc \<noteq> 0 then put_both dir node rc st
               else do {
                 (rc, st) \<leftarrow> rename_entry ops dir node (sp_name sp) offset st;
                 if rc \<noteq> 0 then put_both dir node rc st
                 else do { (rc, st) \<leftarrow> exfat_flush_node ops dir st; put_both dir node rc st }
               }
             }
           }
         }
       }
     }"

section \<open>Times and labels\<close>

definition exfat_utimes :: "u64 \<Rightarrow> int \<Rightarrow> int \<Rightarrow> 's exfat_fs \<Rightarrow> 's exfat_fs option" where
  "exfat_utimes i atime mtime st = change_tn i (\<lambda>t. t\<lparr>tn_node := (tn_node t)\<lparr>nd_atime := atime, nd_mtime := mtime, is_dirty := True\<rparr>\<rparr>) st"

definition exfat_get_label :: "'s exfat_fs \<Rightarrow> bytes" where
  "exfat_get_label st = fs_label st"

partial_function (option) find_label :: "'s storage \<Rightarrow> u64 \<Rightarrow> u64 \<Rightarrow> 's exfat_fs \<Rightarrow> ((int \<times> u64) \<times> 's exfat_fs) option" where
  "find_label ops root offset st =
     do {
       ((rc, entries), st) \<leftarrow> read_dir_entries ops root 1 offset st;
       if rc \<noteq> 0 then Some ((rc, offset), st)
       else if hd entries ! 0 = EXFAT_ENTRY_LABEL then Some ((0, offset), st)
       else find_label ops root (offset + 32) st
     }"

definition exfat_set_label :: "'s storage \<Rightarrow> bytes \<Rightarrow> 's exfat_fs \<Rightarrow> (int \<times> 's exfat_fs) option" where
  "exfat_set_label ops label st =
     (case exfat_utf8_to_utf16 TYPE(16) (replicate 16 0) label 16 of
        (rc, label_utf16) \<Rightarrow>
          if rc \<noteq> UTF_OK then Some (utf_errno rc, st)
          else do {
            root \<leftarrow> fs_root st;
            ((rc, offset), st) \<leftarrow> find_label ops root 0 st;
            ((rc, offset), st) \<leftarrow> (if rc = -ENOENT then find_slot ops root offset 1 st else Some ((rc, offset), st));
            if rc \<noteq> 0 then Some (rc, st)
            else do {
              n \<leftarrow> exfat_utf16_length label_utf16;
              let entry = \<lparr>le_type = if n = 0 then EXFAT_ENTRY_LABEL XOR EXFAT_ENTRY_VALID else EXFAT_ENTRY_LABEL, le_length = of_nat n, le_name = take 15 label_utf16\<rparr>;
              (rc, st) \<leftarrow> write_dir_entries ops root [label_bytes entry] offset st;
              if rc \<noteq> 0 then Some (rc, st) else Some (0, st\<lparr>fs_label := buf_put (fs_label st) 0 (label @ [0])\<rparr>)
            }
          })"

end
