(* ===== verification/Exfat_Mount_Model.thy ===== *)
theory Exfat_Mount_Model
  imports Exfat_Lookup_Model
begin

text \<open>
  Mounting: \<^verbatim>\<open>fs/exfat/mount.c\<close> with the string functions of \<^verbatim>\<open>fs/exfat/compat.c\<close> it uses, and the interface of the port, \<^verbatim>\<open>fs/exfat/exfat.c\<close>.  Strings
  are lists of bytes without the terminator.
\<close>

section \<open>Strings\<close>

definition char_at :: "bytes \<Rightarrow> nat \<Rightarrow> u8" where
  "char_at s i = (if i < length s then s ! i else 0)"

fun strncmp :: "bytes \<Rightarrow> bytes \<Rightarrow> nat \<Rightarrow> int" where
  "strncmp s1 s2 0 = 0"
| "strncmp (a # s1) (b # s2) (Suc n) = (if a = b then strncmp s1 s2 n else uint a - uint b)"
| "strncmp (a # s1) [] (Suc n) = uint a"
| "strncmp [] (b # s2) (Suc n) = - uint b"
| "strncmp [] [] (Suc n) = 0"

fun strstr_loop :: "bytes \<Rightarrow> bytes \<Rightarrow> nat option" where
  "strstr_loop needle [] = None"
| "strstr_loop needle (h # hs) = (if h = hd needle \<and> strncmp (h # hs) needle (length needle) = 0 then Some 0 else map_option Suc (strstr_loop needle hs))"

definition strstr :: "bytes \<Rightarrow> bytes \<Rightarrow> nat option" where
  "strstr haystack needle = (if needle = [] then Some 0 else strstr_loop needle haystack)"

fun strtol_loop :: "int \<Rightarrow> bytes \<Rightarrow> int \<Rightarrow> int" where
  "strtol_loop base [] result = result"
| "strtol_loop base (c # cs) result = (if 0x30 \<le> c \<and> c \<le> 0x39 then strtol_loop base cs (result * base + (uint c - 0x30)) else result)"

definition strtol :: "bytes \<Rightarrow> int \<Rightarrow> int" where
  "strtol nptr base = (if char_at nptr 0 = 0x2d then - strtol_loop base (tl nptr) 0 else strtol_loop base nptr 0)"

text \<open>The positions of an option's name, one after the other.\<close>

function option_loop :: "(nat \<Rightarrow> bool) \<Rightarrow> bytes \<Rightarrow> bytes \<Rightarrow> nat \<Rightarrow> nat option" where
  "option_loop ends options name k =
     (if k > length options then None
      else
        case strstr (drop k options) name of
          None \<Rightarrow> None
        | Some j \<Rightarrow>
            if (k + j = 0 \<or> char_at options (k + j - 1) = 0x2c) \<and> ends (k + j + length name) then Some (k + j)
            else option_loop ends options name (k + j + 1))"
  by pat_completeness auto
termination by (relation "measure (\<lambda>(ends, options, name, k). length options + 1 - k)") auto

declare option_loop.simps [simp del]

definition get_option :: "bytes \<Rightarrow> bytes \<Rightarrow> bytes option" where
  "get_option options name = map_option (\<lambda>p. drop (p + length name + 1) options) (option_loop (\<lambda>e. char_at options e = 0x3d) options name 0)"

definition get_int_option :: "bytes \<Rightarrow> bytes \<Rightarrow> int \<Rightarrow> int \<Rightarrow> int" where
  "get_int_option options name base dflt = (case get_option options name of None \<Rightarrow> dflt | Some p \<Rightarrow> strtol p base)"

definition exfat_match_option :: "bytes \<Rightarrow> bytes \<Rightarrow> bool" where
  "exfat_match_option options name = (option_loop (\<lambda>e. char_at options e = 0x2c \<or> char_at options e = 0) options name 0 \<noteq> None)"

definition opt :: "string \<Rightarrow> bytes" where
  "opt s = map (of_nat \<circ> of_char) s"

definition parse_options :: "bytes \<Rightarrow> 's exfat_fs \<Rightarrow> 's exfat_fs" where
  "parse_options options st =
     (let opt_umask = get_int_option options (opt ''umask'') 8 0;
          r = get_int_option options (opt ''repair'') 10 0 in
      st\<lparr>fs_dmask := get_int_option options (opt ''dmask'') 8 opt_umask, fs_fmask := get_int_option options (opt ''fmask'') 8 opt_umask,
         fs_ef := (fs_ef st)\<lparr>ef_noatime := exfat_match_option options (opt ''noatime'')\<rparr>,
         fs_repair := if r = 1 then EXFAT_REPAIR_ASK else if r = 2 then EXFAT_REPAIR_YES else EXFAT_REPAIR_NO\<rparr>)"

section \<open>The super block\<close>

text \<open>The clusters of the root directory; 0 stands for a broken chain.\<close>

fun rootdir_loop :: "'s storage \<Rightarrow> exfat_node \<Rightarrow> nat \<Rightarrow> u32 \<Rightarrow> u32 \<Rightarrow> 's exfat \<Rightarrow> (u32 \<times> 's exfat) option" where
  "rootdir_loop ops root 0 clusters c ef = Some (0, ef)"
| "rootdir_loop ops root (Suc k) clusters c ef =
     (if CLUSTER_INVALID (ef_sb ef) c then Some (0, ef)
      else
        case exfat_next_cluster ops root c ef of
          None \<Rightarrow> None
        | Some (c1, ef1) \<Rightarrow> if c1 = EXFAT_CLUSTER_END then Some (clusters + 1, ef1) else rootdir_loop ops root k (clusters + 1) c1 ef1)"

definition mount_rootdir_size :: "'s storage \<Rightarrow> exfat_node \<Rightarrow> 's exfat \<Rightarrow> (u64 \<times> 's exfat) option" where
  "mount_rootdir_size ops root ef =
     map_option (\<lambda>(n, ef1). (ucast n * ucast (CLUSTER_SIZE (ef_sb ef)), ef1))
       (rootdir_loop ops root (unat (sb_cluster_count (ef_sb ef))) 0 (sb_rootdir_cluster (ef_sb ef)) ef)"

fun vbr_loop :: "'s storage \<Rightarrow> nat \<Rightarrow> nat list \<Rightarrow> bytes \<Rightarrow> u32 \<Rightarrow> 's exfat_io \<Rightarrow> ((bool \<times> u32 \<times> bytes) \<times> 's exfat_io) option" where
  "vbr_loop ops sector_size [] sector checksum io = Some ((True, checksum, sector), io)"
| "vbr_loop ops sector_size (i # is) sector checksum io =
     (case exfat_pread ops sector 0 sector_size (of_nat (i * sector_size)) io of
        None \<Rightarrow> None
      | Some (r, sector1, io1) \<Rightarrow>
          if r < 0 then Some ((False, checksum, sector1), io1)
          else vbr_loop ops sector_size is sector1 (exfat_vbr_add_checksum sector1 sector_size checksum) io1)"

definition exfat_fix_invalid_vbr_checksum :: "'s storage \<Rightarrow> nat \<Rightarrow> bytes \<Rightarrow> u32 \<Rightarrow> 's exfat_fs \<Rightarrow> ((bool \<times> bytes) \<times> 's exfat_fs) option" where
  "exfat_fix_invalid_vbr_checksum ops sector_size sector vbr_checksum st =
     (let sector1 = buf_put sector 0 (concat (replicate (sector_size div 4) (to_le 4 vbr_checksum))) in
      case exfat_pwrite ops sector1 0 sector_size (of_nat (11 * sector_size)) (ef_io (fs_ef st)) of
        None \<Rightarrow> None
      | Some (r, io) \<Rightarrow>
          let st1 = st\<lparr>fs_ef := (fs_ef st)\<lparr>ef_io := io\<rparr>\<rparr> in
          if r < 0 then Some ((False, sector1), st1) else Some ((True, sector1), st1\<lparr>exfat_errors_fixed := exfat_errors_fixed st1 + 1\<rparr>))"

fun verify_words :: "'s storage \<Rightarrow> nat \<Rightarrow> nat list \<Rightarrow> bytes \<Rightarrow> u32 \<Rightarrow> 's exfat_fs \<Rightarrow> (bool \<times> 's exfat_fs) option" where
  "verify_words ops sector_size [] sector checksum st = Some (True, st)"
| "verify_words ops sector_size (i # is) sector checksum st =
     (if of_le (buf_get 4 sector (4 * i)) = checksum then verify_words ops sector_size is sector checksum st
      else if \<not> exfat_ask_to_fix (fs_repair st) then Some (False, st)
      else
        case exfat_fix_invalid_vbr_checksum ops sector_size sector checksum st of
          None \<Rightarrow> None
        | Some ((ok, sector1), st1) \<Rightarrow> if ok then verify_words ops sector_size is sector1 checksum st1 else Some (False, st1))"

definition verify_vbr_checksum :: "'s storage \<Rightarrow> bytes \<Rightarrow> 's exfat_fs \<Rightarrow> (bool \<times> 's exfat_fs) option" where
  "verify_vbr_checksum ops sector st =
     (let n = unat (SECTOR_SIZE (ef_sb (fs_ef st))) in
      do {
        (r, sector, io) \<leftarrow> exfat_pread ops sector 0 n 0 (ef_io (fs_ef st));
        if r < 0 then Some (False, st\<lparr>fs_ef := (fs_ef st)\<lparr>ef_io := io\<rparr>\<rparr>)
        else do {
          ((ok, checksum, sector), io) \<leftarrow> vbr_loop ops n [1..<11] sector (exfat_vbr_start_checksum sector n) io;
          if \<not> ok then Some (False, st\<lparr>fs_ef := (fs_ef st)\<lparr>ef_io := io\<rparr>\<rparr>)
          else do {
            (r, sector, io) \<leftarrow> exfat_pread ops sector 0 n (of_nat (11 * n)) io;
            let st = st\<lparr>fs_ef := (fs_ef st)\<lparr>ef_io := io\<rparr>\<rparr>;
            if r < 0 then Some (False, st) else verify_words ops n [0..<n div 4] sector checksum st
          }
        }
      })"

definition commit_super_block :: "'s storage \<Rightarrow> 's exfat_fs \<Rightarrow> (int \<times> 's exfat_fs) option" where
  "commit_super_block ops st =
     do {
       (r, io) \<leftarrow> exfat_pwrite ops (sb_bytes (ef_sb (fs_ef st))) 0 512 0 (ef_io (fs_ef st));
       Some (if r < 0 then 1 else 0, st\<lparr>fs_ef := (fs_ef st)\<lparr>ef_io := io\<rparr>\<rparr>)
     }"

definition exfat_soil_super_block :: "'s storage \<Rightarrow> 's exfat_fs \<Rightarrow> (int \<times> 's exfat_fs) option" where
  "exfat_soil_super_block ops st =
     (if ef_ro (fs_ef st) then Some (0, st)
      else
        let sb = ef_sb (fs_ef st) in
        commit_super_block ops (st\<lparr>fs_ef := (fs_ef st)\<lparr>ef_sb := sb\<lparr>sb_volume_state := sb_volume_state sb OR 2\<rparr>\<rparr>\<rparr>))"

definition zero_sb :: exfat_super_block where
  "zero_sb = sb_of (replicate 512 0)"

definition exfat_free :: "'s exfat_fs \<Rightarrow> 's exfat_fs" where
  "exfat_free st = st\<lparr>fs_ef := (fs_ef st)\<lparr>ef_sb := zero_sb, cmap_chunk := [], zero_cluster := []\<rparr>,
     fs_dev := None, fs_root := None, fs_chunk := False, fs_upcase := None\<rparr>"

section \<open>Mounting\<close>

definition zero_fs :: "'s exfat_fs \<Rightarrow> 's exfat_fs" where
  "zero_fs st =
     st\<lparr>fs_ef := \<lparr>ef_io = ef_io (fs_ef st), ef_sb = zero_sb, cmap_start_cluster = 0, cmap_size = 0, cmap_chunk = [], cmap_chunk_size = 0,
          cmap_dirty = False, zero_cluster = [], ef_ro = False, ef_noatime = False\<rparr>,
        fs_dev := None, fs_upcase := None, fs_root := None, fs_chunk := False, fs_label := replicate 46 0, fs_dmask := 0, fs_fmask := 0,
        fs_repair := EXFAT_REPAIR_NO\<rparr>"

text \<open>The checks of the super block behind the checksum; \<open>None\<close> passes.\<close>

definition check_sb :: "exfat_super_block \<Rightarrow> exfat_dev \<Rightarrow> bool" where
  "check_sb sb dev \<longleftrightarrow> sb_version_major sb = 1 \<and> sb_version_minor sb = 0 \<and> sb_fat_count sb = 1 \<and>
     \<not> (dev_size dev <s ucast (sb_cluster_count sb) * ucast (CLUSTER_SIZE sb))"

definition root_node :: "exfat_super_block \<Rightarrow> tree_node" where
  "root_node sb = zero_node\<lparr>tn_node := (tn_node zero_node)\<lparr>nd_attrib := EXFAT_ATTRIB_DIR, start_cluster := sb_rootdir_cluster sb, fptr_cluster := sb_rootdir_cluster sb\<rparr>\<rparr>"

definition mount_tree :: "'s storage \<Rightarrow> u64 \<Rightarrow> 's exfat_fs \<Rightarrow> (int \<times> 's exfat_fs) option" where
  "mount_tree ops root st =
     do {
       st \<leftarrow> exfat_get_node root st;
       (rc, st) \<leftarrow> exfat_cache_directory ops root st;
       if rc \<noteq> 0 \<or> fs_upcase st = None \<or> \<not> fs_chunk st then
         do { st \<leftarrow> exfat_put_node root st; st \<leftarrow> exfat_reset_cache st; Some (-EIO, exfat_free st) }
       else Some (0, st)
     }"

definition mount_root :: "'s storage \<Rightarrow> 's exfat_fs \<Rightarrow> (int \<times> 's exfat_fs) option" where
  "mount_root ops st =
     (case alloc 608 st of
        (None, st) \<Rightarrow> Some (-ENOMEM, exfat_free st)
      | (Some root, st) \<Rightarrow>
          do {
            let t = root_node (ef_sb (fs_ef st));
            (n, ef) \<leftarrow> mount_rootdir_size ops (tn_base t) (fs_ef st);
            let t = t\<lparr>tn_node := (tn_node t)\<lparr>valid_size := n, nd_size := n\<rparr>\<rparr>;
            let st = (put_tn root t st)\<lparr>fs_ef := ef, fs_root := Some root\<rparr>;
            if n = 0 then Some (-EIO, exfat_free st) else mount_tree ops root st
          })"

definition mount_volume :: "'s storage \<Rightarrow> exfat_dev \<Rightarrow> 's exfat_fs \<Rightarrow> (int \<times> 's exfat_fs) option" where
  "mount_volume ops dev st =
     (let sb = ef_sb (fs_ef st); n = unat (CLUSTER_SIZE sb) in
      if sb_oem_name sb \<noteq> opt ''EXFAT   '' then Some (-EIO, exfat_free st)
      else if sb_sector_bits sb < 9 then Some (-EIO, exfat_free st)
      else if unat (sb_sector_bits sb) + unat (sb_spc_bits sb) > 25 then Some (-EIO, exfat_free st)
      else
        case alloc (ucast (CLUSTER_SIZE sb)) st of
          (None, st) \<Rightarrow> Some (-ENOMEM, exfat_free st)
        | (Some p, st) \<Rightarrow>
            do {
              (ok, st) \<leftarrow> verify_vbr_checksum ops (replicate n 0) st;
              if \<not> ok then Some (-EIO, exfat_free st)
              else
                let st = st\<lparr>fs_ef := (fs_ef st)\<lparr>zero_cluster := replicate n 0\<rparr>\<rparr> in
                if \<not> check_sb sb dev then Some (-EIO, exfat_free st) else mount_root ops st
            })"

definition exfat_mount :: "'s storage \<Rightarrow> ('s \<Rightarrow> u64) \<Rightarrow> ('s \<Rightarrow> int \<times> u64 \<times> 's) \<Rightarrow> bool \<Rightarrow> bytes \<Rightarrow> 's exfat_fs \<Rightarrow> (int \<times> 's exfat_fs) option" where
  "exfat_mount ops ms_blocks sata_blocks spec options st =
     (let st = parse_options options (zero_fs st);
          mode = (if exfat_match_option options (opt ''ro'') then EXFAT_MODE_RO
                  else if exfat_match_option options (opt ''ro_fallback'') then EXFAT_MODE_ANY else EXFAT_MODE_RW) in
      case (if spec then (None, st) else alloc 24 st) of
        (p, st) \<Rightarrow>
          (case exfat_open ops ms_blocks sata_blocks (p \<noteq> None) spec mode (io_disk (ef_io (fs_ef st))) of
             (dev, s) \<Rightarrow>
               let st = st\<lparr>fs_ef := (fs_ef st)\<lparr>ef_io := (ef_io (fs_ef st))\<lparr>io_disk := s\<rparr>\<rparr>, fs_dev := dev\<rparr> in
               (case dev of
                  None \<Rightarrow> Some (-ENODEV, st)
                | Some dev \<Rightarrow>
                    let st = st\<lparr>fs_ef := (fs_ef st)\<lparr>ef_ro := (dev_mode dev = EXFAT_MODE_RO)\<rparr>\<rparr> in
                    (case alloc 512 st of
                       (None, st) \<Rightarrow> Some (-ENOMEM, exfat_free st)
                     | (Some p, st) \<Rightarrow>
                         do {
                           (r, b, io) \<leftarrow> exfat_pread ops (replicate 512 0) 0 512 0 (ef_io (fs_ef st));
                           let st = st\<lparr>fs_ef := (fs_ef st)\<lparr>ef_io := io, ef_sb := sb_of b\<rparr>\<rparr>;
                           if r < 0 then Some (-EIO, exfat_free st) else mount_volume ops dev st
                         }))))"

definition finalize_super_block :: "'s storage \<Rightarrow> 's exfat_fs \<Rightarrow> 's exfat_fs option" where
  "finalize_super_block ops st =
     (if ef_ro (fs_ef st) then Some st
      else
        let ef = fs_ef st; sb = (ef_sb ef)\<lparr>sb_volume_state := sb_volume_state (ef_sb ef) AND NOT 2\<rparr>; total = sb_cluster_count sb in
        do {
          sb \<leftarrow> (if sb_allocated_percent sb = 0xff then Some sb
                 else if total = 0 then None
                 else map_option (\<lambda>free. sb\<lparr>sb_allocated_percent := ucast (((total - free) * 100 + total div 2) div total)\<rparr>) (exfat_count_free_clusters ef));
          map_option snd (commit_super_block ops (st\<lparr>fs_ef := ef\<lparr>ef_sb := sb\<rparr>\<rparr>))
        })"

definition exfat_unmount :: "'s storage \<Rightarrow> 's exfat_fs \<Rightarrow> 's exfat_fs option" where
  "exfat_unmount ops st =
     do {
       (rc, st) \<leftarrow> exfat_flush_nodes ops st;
       (rc, ef) \<leftarrow> exfat_flush ops (fs_ef st);
       let st = st\<lparr>fs_ef := ef\<rparr>;
       r \<leftarrow> fs_root st;
       st \<leftarrow> exfat_put_node r st;
       st \<leftarrow> exfat_reset_cache st;
       st \<leftarrow> finalize_super_block ops st;
       Some (exfat_free st)
     }"

end
