(* ===== verification/Exfat_Mount.thy ===== *)
theory Exfat_Mount
  imports Exfat_Mkfs Exfat_Mount_Model
begin

text \<open>
  Mounting a formatted volume.  The driver finds the super block intact, walks the root directory and loads
  the bitmap and the up-case table; the result is a mounted volume in the sense of the cluster layer.
\<close>

section \<open>Memory and words\<close>

lemma alloc_ok:
  assumes "unat (fs_heap st) + unat n + 7 \<le> 2 * 1024 * 1024"
  obtains h where "alloc n st = (Some (fs_heap st), st\<lparr>fs_heap := h\<rparr>)" "unat h \<le> unat (fs_heap st) + unat n + 7"
proof (rule malloc_ok[OF assms])
  fix h assume "exfat_malloc n (fs_heap st) = (Some (fs_heap st), h)" "unat h \<le> unat (fs_heap st) + unat n + 7"
  then show thesis using that[of h] by (simp add: alloc_def)
qed

lemma alloc_none:
  assumes "unat n < 2 ^ 32" "unat (fs_heap st) < 2 ^ 32" "2 * 1024 * 1024 < unat (fs_heap st) + unat n"
  shows "alloc n st = (None, st)"
proof -
  let ?n = "(n + 7) AND NOT 7"
  have a: "unat (n + 7) = unat n + 7" using assms(1) by (subst unat_add_nowrap) auto
  have "?n \<le> n + 7" by (rule word_and_le2)
  then have n: "unat ?n \<le> unat n + 7" by (simp only: word_le_nat_alt a)
  have m: "(7 :: u64) = mask 3" by (simp add: mask_eq_exp_minus_1)
  have "x AND NOT (mask 3) = push_bit 3 (drop_bit 3 x)" for x :: u64
    by (rule bit_word_eqI) (auto simp only: bit_and_iff bit_not_iff bit_push_bit_iff bit_drop_bit_eq bit_mask_iff not_less comp_apply le_add_diff_inverse possible_bit_word)
  then have "?n = push_bit 3 (drop_bit 3 (n + 7))" unfolding m .
  moreover have "unat (drop_bit 3 (n + 7)) = (unat n + 7) div 8" using a assms(1)
    by (simp only: unsigned_drop_bit_eq) (simp add: drop_bit_eq_div take_bit_nat_eq_self)
  ultimately have "unat ?n = (unat n + 7) div 8 * 8" using assms(1) by (simp only:) (subst unat_push_bit, auto)
  then have "unat n \<le> unat ?n" by presburger
  moreover have "unat (fs_heap st + ?n) = unat (fs_heap st) + unat ?n" using n assms(1,2) by (subst unat_add_nowrap) auto
  ultimately have "fs_heap st + ?n > 2 * 1024 * 1024" using assms(3) by (simp add: word_less_nat_alt)
  then show ?thesis by (simp add: alloc_def exfat_malloc_def Let_def)
qed

lemma length_words_of [simp]: "length (words_of bs n) = n"
  by (induction n arbitrary: bs) auto

lemma concat_words_of: "length bs = 8 * n \<Longrightarrow> concat (map (to_le 8) (words_of bs n)) = bs"
proof (induction n arbitrary: bs)
  case (Suc n)
  then have "to_le 8 (of_le (take 8 bs) :: u64) = take 8 bs" by (intro to_le_of_le) simp_all
  then show ?case using Suc by simp
qed simp

lemma nth_concat_le8: "i < 8 * length ws \<Longrightarrow> concat (map (to_le 8) ws) ! i = to_le 8 (ws ! (i div 8)) ! (i mod 8)" for ws :: "u64 list"
proof (induction ws arbitrary: i)
  case (Cons w ws)
  show ?case
  proof (cases "i < 8")
    case False
    then have "i = 8 + (i - 8)" by simp
    then obtain j where j: "i = 8 + j" by blast
    have "to_le 8 w = to_le 8 w" ..
    then show ?thesis using Cons.IH[of j] Cons.prems j by (simp add: nth_append div_add_self1 del: to_le.simps)
  qed (use Cons in \<open>simp add: nth_append del: to_le.simps\<close>)
qed simp

text \<open>The bits of a bitmap are the bits of its bytes.\<close>

lemma used_bit_bytes:
  assumes "j < 64 * length ws"
  shows "used_bit ws j \<longleftrightarrow> bit (concat (map (to_le 8) ws) ! (j div 8)) (j mod 8)"
proof -
  have "j div 8 < 8 * length ws" using assms by (simp add: less_mult_imp_div_less mult.commute)
  then have e: "concat (map (to_le 8) ws) ! (j div 8) = to_le 8 (ws ! (j div 64)) ! (j div 8 mod 8)" by (simp add: nth_concat_le8 div_mult2_eq[symmetric])
  have "8 * (j div 8 mod 8) + j mod 8 = j mod 64" using mod_mult2_eq[of j 8 8] by simp
  moreover have "j mod 64 < 64" by simp
  ultimately show ?thesis unfolding e used_bit_def by (simp add: bit_nth_to_le)
qed

section \<open>Reading without a bitmap\<close>

context exfat_volume
begin

lemma next_cluster_table:
  assumes "ok (ef_io ef)" "ef_sb ef = sb" "data_cluster sb c" "\<not> is_contiguous node"
  shows "\<exists>io'. exfat_next_cluster ops node c ef = Some (table ef c, ef\<lparr>ef_io := io'\<rparr>) \<and> ok io' \<and> img io' = img (ef_io ef)"
proof -
  have "\<exists>io'. exfat_pread ops (replicate 4 0) 0 4 (fat_offset sb c) (ef_io ef) =
      Some (int 4, buf_put (replicate 4 0) 0 (map (img (ef_io ef)) [unat (fat_offset sb c)..<unat (fat_offset sb c) + 4]), io') \<and> ok io' \<and> img io' = img (ef_io ef)"
    by (rule pread_law) (use assms fat_bound[OF assms(3)] fat_offset_eq[OF assms(3)] in auto)
  then show ?thesis using assms unfolding fat_offset_eq[OF assms(3)]
    by (auto simp: exfat_next_cluster_def data_cluster_def word_less_nat_alt table_def buf_put_def)
qed

text \<open>A directory of one cluster.\<close>

definition one_cluster :: "exfat_node \<Rightarrow> u32 \<Rightarrow> bool" where
  "one_cluster node c \<longleftrightarrow> data_cluster sb c \<and> start_cluster node = c \<and> fptr_cluster node = c \<and> fptr_index node = 0 \<and> \<not> is_contiguous node \<and>
     nd_attrib node AND EXFAT_ATTRIB_DIR \<noteq> 0 \<and> unat (nd_size node) = clus_size sb \<and> valid_size node = nd_size node"

lemma read_one_cluster:
  assumes "ok (ef_io ef)" "ef_sb ef = sb" "one_cluster node c" "0 < n" "a + n \<le> clus_size sb"
  shows "\<exists>io'. exfat_generic_pread ops node (replicate n 0) 0 (of_nat n) (of_nat a) ef =
      Some (int n, map (img (ef_io ef)) [clus_off sb c + a..<clus_off sb c + a + n], node, ef\<lparr>ef_io := io'\<rparr>) \<and> ok io' \<and> img io' = img (ef_io ef)"
proof -
  have c: "data_cluster sb c" using assms(3) by (simp add: one_cluster_def)
  have cs: "clus_size sb \<le> 2 ^ 25" "0 < clus_size sb" using clus_pos by auto
  have an: "a < 2 ^ 25" "n \<le> 2 ^ 25" using assms(4,5) cs by linarith+
  have u: "unat (of_nat a :: u64) = a" "unat (of_nat n :: u64) = n" by (rule unat_of_nat_small, use an in simp)+
  have un: "unat (of_nat a + of_nat n :: u64) = a + n" using an u by (subst unat_add_nowrap) auto
  have pos: "\<not> (of_nat a :: u64) <s 0" by (rule nonneg_small) (use an u in simp)
  have sz: "unat (nd_size node) = clus_size sb" "valid_size node = nd_size node" using assms(3) by (auto simp: one_cluster_def)
  have d: "of_nat a div ucast (CLUSTER_SIZE sb) = (0 :: u64)" "of_nat a mod ucast (CLUSTER_SIZE sb) = (of_nat a :: u64)"
    using assms(4,5) by (auto simp: word_unat_eq_iff unat_div unat_mod u CLUSTER_SIZE_eq)
  obtain off where o: "exfat_c2o sb c = Some off" "unat off = clus_off sb c" by (rule c2o_eq[OF c])
  have bound: "clus_off sb c + a < 2 ^ 63" by (rule data_bound(2)[OF c]) (use assms(4,5) in simp)
  have oa: "unat (off + of_nat a) = clus_off sb c + a" using o(2) u bound by (subst unat_add_nowrap) auto
  have "{clus_off sb c + a..<clus_off sb c + a + n} \<subseteq> vol"
  proof
    fix q assume "q \<in> {clus_off sb c + a..<clus_off sb c + a + n}"
    then obtain k where "q = clus_off sb c + k" "k < clus_size sb" using assms(5) by (metis add.assoc atLeastLessThan_iff le_Suc_ex nat_add_left_cancel_less less_le_trans)
    then show "q \<in> vol" using data_bound(1)[OF c] by simp
  qed
  then have "\<exists>io1. exfat_pread ops (replicate n 0) 0 n (off + of_nat a) (ef_io ef) =
      Some (int n, buf_put (replicate n 0) 0 (map (img (ef_io ef)) [unat (off + of_nat a)..<unat (off + of_nat a) + n]), io1) \<and> ok io1 \<and> img io1 = img (ef_io ef)"
    by (intro pread_law) (use assms(1) oa in auto)
  then obtain io1 where r: "exfat_pread ops (replicate n 0) 0 n (off + of_nat a) (ef_io ef) = Some (int n, map (img (ef_io ef)) [clus_off sb c + a..<clus_off sb c + a + n], io1)"
    "ok io1" "img io1 = img (ef_io ef)" unfolding oa by (auto simp: buf_put_def)
  obtain io2 where nx: "exfat_next_cluster ops node c (ef\<lparr>ef_io := io1\<rparr>) = Some (table (ef\<lparr>ef_io := io1\<rparr>) c, ef\<lparr>ef_io := io2\<rparr>)" "ok io2" "img io2 = img (ef_io ef)"
    using next_cluster_table[of "ef\<lparr>ef_io := io1\<rparr>" c node] assms(2,3) c r(2,3) by (auto simp: one_cluster_def)
  have sn: "sint (of_nat n :: u64) = int n" using u(2) an by (subst sint64_small) auto
  have ua: "uint (of_nat a :: u64) = int a" using u(1) by (metis uint_nat unsigned_of_nat of_nat_unat)
  have mn: "min (of_nat n) (nd_size node - of_nat a) = (of_nat n :: u64)"
    using assms(5) u sz by (auto simp: min_def word_le_nat_alt unat_sub)
  have l: "min (sint (CLUSTER_SIZE sb) - int a) (int n) = int n" using assms(5) by (simp add: CLUSTER_SIZE_sint)
  have adv: "exfat_advance_cluster ops 0 node ef = Some (c, node, ef)" using assms(3) by (simp add: exfat_advance_cluster_def one_cluster_def)
  have inv: "\<not> CLUSTER_INVALID sb c" using c by (simp add: invalid_iff)
  have rc: "read_clusters ops node (replicate n 0) 0 c (int a) (int n) ef = Some (Inr 0, map (img (ef_io ef)) [clus_off sb c + a..<clus_off sb c + a + n], ef\<lparr>ef_io := io2\<rparr>)"
    using assms(2,4) inv o(1) r(1) nx(1) l by (simp add: read_clusters.simps[of _ _ _ _ _ "int a"] read_clusters.simps[of _ _ _ _ _ 0 0] Let_def del: map_map)
  have "pread_clusters ops node (replicate n 0) 0 (of_nat n) (of_nat a) ef = Some (int n, map (img (ef_io ef)) [clus_off sb c + a..<clus_off sb c + a + n], node, ef\<lparr>ef_io := io2\<rparr>)"
    using assms(2,3) adv inv rc by (simp add: pread_clusters_def d mn sn ua Let_def one_cluster_def)
  moreover have "\<not> of_nat a \<ge> nd_size node" "(of_nat n :: u64) \<noteq> 0" "\<not> of_nat a + of_nat n > valid_size node"
    using assms(4,5) u un sz by (auto simp: word_le_nat_alt word_less_nat_alt word_unat_eq_iff)
  ultimately show ?thesis using pos nx(2,3) by (intro exI[of _ io2]) (simp add: exfat_generic_pread_def)
qed

lemma read_past_cluster:
  assumes "one_cluster node c" "clus_size sb \<le> unat a" "unat a < 2 ^ 63"
  shows "exfat_generic_pread ops node buf 0 n a ef = Some (0, buf, node, ef)"
  using assms nonneg_small[OF assms(3)] by (simp add: exfat_generic_pread_def one_cluster_def word_le_nat_alt)

section \<open>Walking the root directory\<close>

definition at_root :: "u64 \<Rightarrow> u32 \<Rightarrow> (nat \<Rightarrow> u8) \<Rightarrow> 's exfat_fs \<Rightarrow> bool" where
  "at_root r c f st \<longleftrightarrow> (\<exists>t. fs_nodes st r = Some t \<and> tn_base t = tn_node t \<and> one_cluster (tn_node t) c) \<and>
     ok (ef_io (fs_ef st)) \<and> ef_sb (fs_ef st) = sb \<and> img (ef_io (fs_ef st)) = f"

definition with_io :: "'s exfat_io \<Rightarrow> 's exfat_fs \<Rightarrow> 's exfat_fs" where
  "with_io io st = st\<lparr>fs_ef := (fs_ef st)\<lparr>ef_io := io\<rparr>\<rparr>"

lemma with_io_twice [simp]: "with_io io (with_io io1 st) = with_io io st"
  by (simp add: with_io_def)

lemma at_root_with_io: "at_root r c f st \<Longrightarrow> ok io \<Longrightarrow> img io = f \<Longrightarrow> at_root r c f (with_io io st)"
  by (simp add: at_root_def with_io_def)

lemma at_root_io: "at_root r c f st \<Longrightarrow> ok (ef_io (fs_ef st)) \<and> img (ef_io (fs_ef st)) = f \<and> with_io (ef_io (fs_ef st)) st = st"
  by (simp add: at_root_def with_io_def)

lemma tn_base_same: "nd_parent (tn_node t) \<longleftrightarrow> tn_parent t \<noteq> None \<Longrightarrow> tn_base t = tn_node t"
  by (simp add: tn_base_def)

lemma put_same: "fs_nodes st i = Some t \<Longrightarrow> put_tn i t st = st"
  by (simp add: put_tn_def fun_upd_idem)

lemma read_root_entry:
  assumes "at_root r c f st" "a + 32 \<le> clus_size sb"
  shows "\<exists>io. read_dir_entries ops r 1 (of_nat a) st = Some ((0, [map f [clus_off sb c + a..<clus_off sb c + a + 32]]), with_io io st) \<and> ok io \<and> img io = f"
proof -
  obtain t where t: "fs_nodes st r = Some t" "tn_base t = tn_node t" "one_cluster (tn_node t) c" using assms(1) by (auto simp: at_root_def)
  have e: "ok (ef_io (fs_ef st))" "ef_sb (fs_ef st) = sb" "img (ef_io (fs_ef st)) = f" using assms(1) by (auto simp: at_root_def)
  from read_one_cluster[OF e(1,2) t(3), of 32 a] assms(2) e(3) obtain io where
    r: "exfat_generic_pread ops (tn_node t) (replicate 32 0) 0 32 (of_nat a) (fs_ef st) =
      Some (32, map f [clus_off sb c + a..<clus_off sb c + a + 32], tn_node t, (fs_ef st)\<lparr>ef_io := io\<rparr>)" "ok io" "img io = f" by auto
  have d: "nd_attrib (tn_node t) AND 16 \<noteq> 0" using t(3) by (simp add: one_cluster_def)
  have "cut_entries 1 (map f [clus_off sb c + a..<clus_off sb c + a + 32]) = [map f [clus_off sb c + a..<clus_off sb c + a + 32]]" by (simp add: One_nat_def del: One_nat_def[symmetric])
  then show ?thesis using t(1,2) d r put_same[OF t(1)]
    by (intro exI[of _ io]) (simp add: read_dir_entries_def on_node_def entries_rc_def with_io_def One_nat_def[symmetric] del: One_nat_def cut_entries.simps)
qed

lemma read_root_end:
  assumes "at_root r c f st"
  shows "read_dir_entries ops r 1 (of_nat (clus_size sb)) st = Some ((-2, [replicate 32 0]), st)"
proof -
  obtain t where t: "fs_nodes st r = Some t" "tn_base t = tn_node t" "one_cluster (tn_node t) c" using assms(1) by (auto simp: at_root_def)
  have u: "unat (of_nat (clus_size sb) :: u64) = clus_size sb" by (rule unat_of_nat_small) (use clus_pos in simp)
  have d: "nd_attrib (tn_node t) AND 16 \<noteq> 0" using t(3) by (simp add: one_cluster_def)
  have "exfat_generic_pread ops (tn_node t) (replicate 32 0) 0 32 (of_nat (clus_size sb)) (fs_ef st) = Some (0, replicate 32 0, tn_node t, fs_ef st)"
    by (rule read_past_cluster[OF t(3)]) (use u clus_pos in auto)
  then show ?thesis using t d put_same[OF t(1)] by (simp add: read_dir_entries_def on_node_def entries_rc_def)
qed

lemma readdir_other:
  assumes "at_root r c f st" "a + 32 \<le> clus_size sb" "f (clus_off sb c + a) \<noteq> EXFAT_ENTRY_FILE"
    "\<And>io. ok io \<Longrightarrow> img io = f \<Longrightarrow> read_other ops r (map f [clus_off sb c + a..<clus_off sb c + a + 32]) (of_nat a) (with_io io st) = Some (res io)"
  shows "\<exists>io. ok io \<and> img io = f \<and> readdir ops r (of_nat a) st =
    (case res io of (Some rc, st1) \<Rightarrow> Some ((rc, None, of_nat a), st1) | (None, st1) \<Rightarrow> readdir ops r (of_nat (a + 32)) st1)"
proof -
  obtain io where r: "read_dir_entries ops r 1 (of_nat a) st = Some ((0, [map f [clus_off sb c + a..<clus_off sb c + a + 32]]), with_io io st)" "ok io" "img io = f"
    using read_root_entry[OF assms(1,2)] by blast
  define E where "E = map f [clus_off sb c + a..<clus_off sb c + a + 32]"
  have h: "E ! 0 \<noteq> 0x85" using assms(3) by (simp add: E_def)
  obtain rc st1 where res: "res io = (rc, st1)" by (cases "res io")
  then have "read_other ops r E (of_nat a) (with_io io st) = Some (rc, st1)" using assms(4)[OF r(2,3)] by (simp add: E_def)
  then have "readdir ops r (of_nat a) st = (case rc of Some rc \<Rightarrow> Some ((rc, None, of_nat a), st1) | None \<Rightarrow> readdir ops r (of_nat a + 32) st1)"
    using r(1)[folded E_def] h by (subst readdir.simps) simp
  then show ?thesis using r(2,3) res by (intro exI[of _ io]) (auto simp: add.commute split: option.splits)
qed

text \<open>Entries that are not in use are passed over to the end of the directory.\<close>

lemma readdir_unused:
  assumes "at_root r c f st" "a + 32 * n = clus_size sb" "\<forall>i < n. f (clus_off sb c + a + 32 * i) AND EXFAT_ENTRY_VALID = 0"
  shows "\<exists>io. ok io \<and> img io = f \<and> readdir ops r (of_nat a) st = Some ((-2, None, of_nat (clus_size sb)), with_io io st)"
  using assms
proof (induction n arbitrary: a st)
  case 0
  then have "readdir ops r (of_nat a) st = Some ((-2, None, of_nat a), st)" using read_root_end[OF 0(1)] by (subst readdir.simps) simp
  then show ?case using 0 at_root_io[OF 0(1)] by (intro exI[of _ "ef_io (fs_ef st)"]) simp
next
  case (Suc n)
  have z: "f (clus_off sb c + a) AND 0x80 = 0" using Suc.prems(3) by fastforce
  have k: "f (clus_off sb c + a) \<notin> {0x81, 0x82, 0x83, 0x85}" using z by auto
  have "read_other ops r (map f [clus_off sb c + a..<clus_off sb c + a + 32]) (of_nat a) (with_io io st) = Some (None, with_io io st)" for io
    using z k by (simp add: read_other_def read_unknown_def)
  then obtain io where io: "ok io" "img io = f" "readdir ops r (of_nat a) st = readdir ops r (of_nat (a + 32)) (with_io io st)"
    using readdir_other[OF Suc.prems(1), of a "\<lambda>io. (None, with_io io st)"] Suc.prems(2) k by auto
  have "\<exists>io'. ok io' \<and> img io' = f \<and> readdir ops r (of_nat (a + 32)) (with_io io st) = Some ((-2, None, of_nat (clus_size sb)), with_io io' (with_io io st))"
  proof (rule Suc.IH[OF at_root_with_io[OF Suc.prems(1) io(1,2)]])
    show "\<forall>i < n. f (clus_off sb c + (a + 32) + 32 * i) AND EXFAT_ENTRY_VALID = 0" using Suc.prems(3) by (auto dest: spec[of _ "Suc _"] simp: algebra_simps)
  qed (use Suc.prems(2) in simp)
  then show ?case using io(3) by simp
qed

text \<open>The bitmap entry.\<close>

definition bitmap_loaded :: "u32 \<Rightarrow> bytes \<Rightarrow> 's exfat_io \<Rightarrow> u64 \<Rightarrow> 's exfat_fs \<Rightarrow> 's exfat_fs" where
  "bitmap_loaded c bs io h st = st\<lparr>fs_heap := h, fs_chunk := True, fs_ef := (fs_ef st)\<lparr>ef_io := io, cmap_start_cluster := c,
     cmap_size := sb_cluster_count sb, cmap_chunk_size := sb_cluster_count sb, cmap_chunk := words_of bs (BMAP_SIZE (unat (sb_cluster_count sb)) div 8)\<rparr>\<rparr>"

lemma count_bytes: "unat ((sb_cluster_count sb + 8 - 1) div 8) = (unat (sb_cluster_count sb) + 7) div 8"
proof -
  have c: "unat (sb_cluster_count sb) \<le> 4294967285" by (rule count_le)
  then have "unat (sb_cluster_count sb + 8) = unat (sb_cluster_count sb) + 8" by (subst unat_add_nowrap) auto
  then have "unat (sb_cluster_count sb + 8 - 1) = unat (sb_cluster_count sb) + 7" by (subst unat_sub) (auto simp: word_le_nat_alt)
  then show ?thesis by (simp add: unat_div)
qed

lemma read_bitmap_ok:
  assumes "ok (ef_io (fs_ef st))" "ef_sb (fs_ef st) = sb" "data_cluster sb (be_start_cluster e)" "(unat (sb_cluster_count sb) + 7) div 8 \<le> unat (be_size e)"
    "BMAP_SIZE (unat (sb_cluster_count sb)) = n" "unat (fs_heap st) + n + 7 \<le> 2 * 1024 * 1024" "{clus_off sb (be_start_cluster e)..<clus_off sb (be_start_cluster e) + n} \<subseteq> vol"
  shows "\<exists>io h. read_bitmap ops e st = Some (None, bitmap_loaded (be_start_cluster e) (map (img (ef_io (fs_ef st))) [clus_off sb (be_start_cluster e)..<clus_off sb (be_start_cluster e) + n]) io h st) \<and>
    ok io \<and> img io = img (ef_io (fs_ef st)) \<and> unat h \<le> unat (fs_heap st) + n + 7"
proof -
  let ?c = "be_start_cluster e" and ?s = "st\<lparr>fs_ef := (fs_ef st)\<lparr>cmap_start_cluster := be_start_cluster e, cmap_size := sb_cluster_count sb, cmap_chunk_size := sb_cluster_count sb\<rparr>\<rparr>"
  have un: "unat (of_nat n :: u64) = n" by (rule unat_of_nat_small) (use assms(6) in simp)
  obtain h where h: "alloc (of_nat n) ?s = (Some (fs_heap ?s), ?s\<lparr>fs_heap := h\<rparr>)" "unat h \<le> unat (fs_heap ?s) + n + 7"
    using alloc_ok[of ?s "of_nat n"] assms(6) un by auto
  obtain off where o: "exfat_c2o sb ?c = Some off" "unat off = clus_off sb ?c" by (rule c2o_eq[OF assms(3)])
  have "\<exists>io. exfat_pread ops (replicate n 0) 0 n off (ef_io (fs_ef st)) =
      Some (int n, buf_put (replicate n 0) 0 (map (img (ef_io (fs_ef st))) [unat off..<unat off + n]), io) \<and> ok io \<and> img io = img (ef_io (fs_ef st))"
    by (rule pread_law) (use assms(1,7) o(2) in auto)
  then obtain io where r: "exfat_pread ops (replicate n 0) 0 n off (ef_io (fs_ef st)) =
      Some (int n, map (img (ef_io (fs_ef st))) [clus_off sb ?c..<clus_off sb ?c + n], io)" "ok io" "img io = img (ef_io (fs_ef st))"
    unfolding o(2) by (auto simp: buf_put_def)
  have "\<not> be_size e < ucast ((sb_cluster_count sb + 8 - 1) div 8)" using assms(4) count_bytes by (simp add: word_less_nat_alt)
  moreover have "\<not> CLUSTER_INVALID sb ?c" using assms(3) by (simp add: invalid_iff)
  ultimately have "read_bitmap ops e st = Some (None, bitmap_loaded ?c (map (img (ef_io (fs_ef st))) [clus_off sb ?c..<clus_off sb ?c + n]) io h st)"
    using h(1) o(1) r(1) assms(2,5) by (simp add: read_bitmap_def bitmap_loaded_def Let_def)
  then show ?thesis using r(2,3) h(2) by auto
qed

text \<open>The up-case entry.\<close>

lemma read_upcase_ok:
  assumes "ok (ef_io (fs_ef st))" "ef_sb (fs_ef st) = sb" "fs_upcase st = None" "data_cluster sb (ue_start_cluster e)" "0 < n" "n \<le> 131072" "even n" "unat (ue_size e) = n"
    "unat (fs_heap st) + n + 131086 \<le> 2 * 1024 * 1024" "{clus_off sb (ue_start_cluster e)..<clus_off sb (ue_start_cluster e) + n} \<subseteq> vol"
  shows "\<exists>io h. read_upcase ops e st = Some (None, (with_io io st)\<lparr>fs_heap := h,
      fs_upcase := Some (decompress_upcase (units_of (map (img (ef_io (fs_ef st))) [clus_off sb (ue_start_cluster e)..<clus_off sb (ue_start_cluster e) + n])))\<rparr>) \<and>
    ok io \<and> img io = img (ef_io (fs_ef st))"
proof -
  let ?c = "ue_start_cluster e"
  obtain h where h: "alloc (ue_size e) st = (Some (fs_heap st), st\<lparr>fs_heap := h\<rparr>)" "unat h \<le> unat (fs_heap st) + n + 7"
    using alloc_ok[of st "ue_size e"] assms(8,9) by auto
  obtain off where o: "exfat_c2o sb ?c = Some off" "unat off = clus_off sb ?c" by (rule c2o_eq[OF assms(4)])
  have "\<exists>io. exfat_pread ops (replicate n 0) 0 n off (ef_io (fs_ef st)) =
      Some (int n, buf_put (replicate n 0) 0 (map (img (ef_io (fs_ef st))) [unat off..<unat off + n]), io) \<and> ok io \<and> img io = img (ef_io (fs_ef st))"
    by (rule pread_law) (use assms(1,10) o(2) in auto)
  then obtain io where r: "exfat_pread ops (replicate n 0) 0 n off (ef_io (fs_ef st)) =
      Some (int n, map (img (ef_io (fs_ef st))) [clus_off sb ?c..<clus_off sb ?c + n], io)" "ok io" "img io = img (ef_io (fs_ef st))"
    unfolding o(2) by (auto simp: buf_put_def)
  let ?s = "(st\<lparr>fs_heap := h\<rparr>)\<lparr>fs_ef := (fs_ef st)\<lparr>ef_io := io\<rparr>\<rparr>"
  obtain h2 where h2: "alloc 131072 ?s = (Some (fs_heap ?s), ?s\<lparr>fs_heap := h2\<rparr>)"
    using alloc_ok[of ?s 131072] h(2) assms(9) by auto
  have sz: "\<not> (ue_size e = 0 \<or> ue_size e > 131072 \<or> ue_size e mod 2 \<noteq> 0)"
    using assms(5-8) by (auto simp: word_unat_eq_iff word_less_nat_alt unat_mod even_iff_mod_2_eq_zero)
  have "\<not> CLUSTER_INVALID sb ?c" using assms(4) by (simp add: invalid_iff)
  then have "read_upcase ops e st = Some (None, (with_io io st)\<lparr>fs_heap := h2,
      fs_upcase := Some (decompress_upcase (units_of (map (img (ef_io (fs_ef st))) [clus_off sb ?c..<clus_off sb ?c + n])))\<rparr>)"
    using h(1) o(1) r(1) h2 sz assms(2,3,8) by (simp add: read_upcase_def with_io_def)
  then show ?thesis using r(2,3) by blast
qed

end

section \<open>The formatted volume\<close>

definition disk_formatted :: "mkfs_param \<Rightarrow> nat \<Rightarrow> (nat \<Rightarrow> u8) \<Rightarrow> bool" where
  "disk_formatted p v f \<longleftrightarrow> fmt_params p v \<and> fmt_fits v \<and> (\<forall>l \<in> set (fmt_layout v). fmt_region p v f l)"

lemma map_slice: "map f [a..<a + n] = xs \<Longrightarrow> i + m \<le> n \<Longrightarrow> map f [a + i..<a + i + m] = take m (drop i xs)"
  by (auto simp: take_map drop_map)

lemma formatted_region: "disk_formatted p v f \<Longrightarrow> (ob, a, n) \<in> set (fmt_layout v) \<Longrightarrow> map f [a..<a + n] = fmt_content p v ob @ replicate (n - length (fmt_content p v ob)) 0"
  by (auto simp: disk_formatted_def fmt_region_def)

lemma formatted_slice:
  assumes "disk_formatted p v f" "(ob, a, n) \<in> set (fmt_layout v)" "i + m \<le> length (fmt_content p v ob)"
  shows "map f [a + i..<a + i + m] = take m (drop i (fmt_content p v ob))"
proof -
  have "length (fmt_content p v ob) \<le> n" using assms(1,2) length_fmt_content by (auto simp: disk_formatted_def)
  then have "map f [a + i..<a + i + m] = take m (drop i (fmt_content p v ob @ replicate (n - length (fmt_content p v ob)) 0))"
    using assms(3) by (intro map_slice[OF formatted_region[OF assms(1,2)]]) simp
  then show ?thesis using assms(3) by simp
qed

lemma formatted_rest:
  assumes "disk_formatted p v f" "(ob, a, n) \<in> set (fmt_layout v)" "length (fmt_content p v ob) \<le> i" "i < n"
  shows "f (a + i) = 0"
proof -
  have "map f [a..<a + n] ! i = f (a + i)" using assms(4) by simp
  then show ?thesis unfolding formatted_region[OF assms(1,2)] using assms(3,4) by (simp add: nth_append)
qed

text \<open>The geometry in bytes.\<close>

lemma fmt_clus_size: "fmt_params p v \<Longrightarrow> fmt_fits v \<Longrightarrow> clus_size (fmt_sb p) = 4096"
  by (simp add: clus_size_def init_sb_ok)

lemma fmt_positions:
  assumes "fmt_params p v" "fmt_fits v"
  shows "clus_off (fmt_sb p) c = fmt_cbm v + (unat c - 2) * 4096" "fat_pos (fmt_sb p) c = 65536 + 4 * unat c"
proof -
  have "512 dvd fmt_cbm v" using fmt_clusters(7)[OF assms(2)] by (auto intro: dvd_trans[of 512 4096])
  then have "fmt_cbm v div 512 * 512 = fmt_cbm v" by simp
  then show "clus_off (fmt_sb p) c = fmt_cbm v + (unat c - 2) * 4096" unfolding clus_off_def fmt_clus_size[OF assms] init_sb_ok[OF assms] by simp
  show "fat_pos (fmt_sb p) c = 65536 + 4 * unat c" unfolding fat_pos_def init_sb_ok[OF assms] by simp
qed

lemma diff_div_4096: "4096 dvd c \<Longrightarrow> c \<le> v \<Longrightarrow> v div 4096 - c div 4096 = (v - c) div (4096 :: nat)"
proof -
  assume c: "4096 dvd c" "c \<le> v"
  then obtain m where m: "c = 4096 * m" by (elim dvdE)
  obtain w where "v = c + w" using c(2) by (metis le_Suc_ex)
  then show ?thesis by (simp add: m)
qed

lemma fmt_count:
  assumes "fmt_params p v" "fmt_fits v"
  shows "unat (sb_cluster_count (fmt_sb p)) = (v - fmt_cbm v) div 4096" "fmt_cbm_clusters v + 3 \<le> unat (sb_cluster_count (fmt_sb p))"
proof -
  have "fmt_cbm v \<le> v" using fmt_order[OF assms(2)] by simp
  then show e: "unat (sb_cluster_count (fmt_sb p)) = (v - fmt_cbm v) div 4096" unfolding init_sb_ok[OF assms] by (rule diff_div_4096[OF fmt_clusters(7)[OF assms(2)]])
  show "fmt_cbm_clusters v + 3 \<le> unat (sb_cluster_count (fmt_sb p))" using fmt_allocated_bounds(1)[OF assms(2)] unfolding e by (simp add: fmt_allocated_def)
qed

lemma fmt_root_cluster:
  assumes "fmt_params p v" "fmt_fits v"
  shows "unat (sb_rootdir_cluster (fmt_sb p)) = fmt_cbm_clusters v + 4" "data_cluster (fmt_sb p) (sb_rootdir_cluster (fmt_sb p))"
    "clus_off (fmt_sb p) (sb_rootdir_cluster (fmt_sb p)) = fmt_root v"
proof -
  note c = fmt_clusters[OF assms(2)]
  have d: "fmt_root v - fmt_cbm v = (fmt_cbm_clusters v + 2) * 4096" using c(1,2) by simp
  show u: "unat (sb_rootdir_cluster (fmt_sb p)) = fmt_cbm_clusters v + 4" unfolding init_sb_ok[OF assms] d by simp
  show "data_cluster (fmt_sb p) (sb_rootdir_cluster (fmt_sb p))" using fmt_count(2)[OF assms] by (simp add: data_cluster_def u)
  show "clus_off (fmt_sb p) (sb_rootdir_cluster (fmt_sb p)) = fmt_root v" unfolding fmt_positions[OF assms] u using c(1,2) by simp
qed

text \<open>The table: the last entry ends the root directory.\<close>

lemma le32s_slice: "i < length ws \<Longrightarrow> take 4 (drop (4 * i) (le32s ws)) = to_le 4 (ws ! i)"
proof (induction ws arbitrary: i)
  case (Cons w ws)
  then show ?case by (cases i) (auto simp del: to_le.simps)
qed simp

lemma formatted_fat:
  assumes "disk_formatted p v f" "i < fmt_cbm_clusters v + 5"
  shows "of_le (map f [65536 + 4 * i..<65536 + 4 * i + 4]) = fmt_fat v ! i"
proof -
  have v: "fmt_fits v" using assms(1) by (simp add: disk_formatted_def)
  have l: "length (fmt_fat v) = fmt_cbm_clusters v + 5" by (rule length_fmt_fat[OF v])
  have "map f [65536 + 4 * i..<65536 + 4 * i + 4] = take 4 (drop (4 * i) (fmt_content p v Fat))"
    by (rule formatted_slice[OF assms(1), of Fat 65536 "v div 4096 * 4"]) (use assms(2) l in \<open>auto simp: fmt_layout_def\<close>)
  also have "\<dots> = to_le 4 (fmt_fat v ! i)" using le32s_slice[of i "fmt_fat v"] assms(2) l by simp
  finally show ?thesis by simp
qed

lemma fmt_fat_root:
  assumes "fmt_fits v"
  shows "fmt_fat v ! (fmt_cbm_clusters v + 4) = 0xffffffff"
proof -
  let ?xs = "[0xfffffff8, 0xffffffff] @ fmt_chain 2 (fmt_cbm_clusters v) @ fmt_chain (2 + fmt_cbm_clusters v) 2"
  have "fmt_fat v = ?xs @ [0xffffffff]" by (simp add: fmt_fat_def fmt_chain_def run_links_def)
  moreover have "length ?xs = fmt_cbm_clusters v + 4" using fmt_clusters(3)[OF assms] by simp
  ultimately show ?thesis by (metis nth_append_length)
qed

text \<open>The root directory.\<close>

lemma fmt_root_entries:
  assumes "fmt_params p v" "fmt_fits v"
  obtains l b u where "fmt_root_bytes p = l @ b @ u" "length l = 32" "length b = 32" "length u = 32" "l ! 0 = 3" "b ! 0 = 0x81" "u ! 0 = 0x82"
    "bitmap_of b = \<lparr>be_type = 0x81, be_unknown1 = replicate 19 0, be_start_cluster = 2, be_size = of_nat (fmt_cbm_size v)\<rparr>"
    "upcase_of u = \<lparr>ue_type = 0x82, ue_unknown1 = replicate 3 0, ue_checksum = upcase_sum, ue_unknown2 = replicate 12 0,
       ue_start_cluster = of_nat (fmt_cbm_clusters v + 2), ue_size = 5836\<rparr>"
proof -
  note o = fmt_order[OF assms(2)]
  have V: "mp_volume_size p = int v" using assms(1) by (simp add: fmt_params_def)
  obtain us where "mp_volume_label p = 0 # us" using assms(1) by (cases "mp_volume_label p") (auto simp: fmt_params_def)
  then have l: "init_label_entry p = Some \<lparr>le_type = 3, le_length = 0, le_name = replicate 15 0\<rparr>" by (simp add: init_label_entry_def)
  define b where "b = \<lparr>be_type = 0x81 :: u8, be_unknown1 = replicate 19 (0 :: u8), be_start_cluster = 2 :: u32, be_size = of_nat (fmt_cbm_size v) :: u64\<rparr>"
  have b: "init_bitmap_entry p = Some b" unfolding init_bitmap_entry_def size_cbm[OF V o(6)] by (simp add: b_def)
  define u where "u = \<lparr>ue_type = 0x82 :: u8, ue_unknown1 = replicate 3 (0 :: u8), ue_checksum = upcase_sum, ue_unknown2 = replicate 12 (0 :: u8),
       ue_start_cluster = of_nat (fmt_cbm_clusters v + 2) :: u32, ue_size = 5836 :: u64\<rparr>"
  have "c_div (int (fmt_uct v) - int (fmt_cbm v)) get_cluster_size + 2 = int (fmt_cbm_clusters v + 2)"
    using fmt_clusters(1)[OF assms(2)] by (simp add: get_cluster_size_def)
  then have u: "init_upcase_entry p = Some u"
    unfolding init_upcase_entry_def position_cbm[OF V] position_uct[OF V o(6)] prod.case option.case by (simp only: u_def word_of_int_nat)
  let ?l = "label_bytes \<lparr>le_type = 3, le_length = 0, le_name = replicate 15 0\<rparr>"
  show thesis
  proof (rule that[of ?l "bitmap_bytes b" "upcase_bytes u"])
    show "fmt_root_bytes p = ?l @ bitmap_bytes b @ upcase_bytes u" unfolding fmt_root_bytes_def l b u option.sel ..
    show "bitmap_of (bitmap_bytes b) = \<lparr>be_type = 0x81, be_unknown1 = replicate 19 0, be_start_cluster = 2, be_size = of_nat (fmt_cbm_size v)\<rparr>"
      by (subst bitmap_of_bytes(1)) (simp_all only: b_def exfat_entry_bitmap.select_convs length_replicate)
    show "upcase_of (upcase_bytes u) = \<lparr>ue_type = 0x82, ue_unknown1 = replicate 3 0, ue_checksum = upcase_sum, ue_unknown2 = replicate 12 0,
       ue_start_cluster = of_nat (fmt_cbm_clusters v + 2), ue_size = 5836\<rparr>"
      by (subst upcase_of_bytes(1)) (simp_all only: u_def exfat_entry_upcase.select_convs length_replicate)
  qed (simp_all add: label_of_bytes(2) bitmap_of_bytes(2) upcase_of_bytes(2) b_def u_def label_bytes_def bitmap_bytes_def upcase_bytes_def)
qed

lemma formatted_root:
  assumes "disk_formatted p v f"
  obtains l b u where "map f [fmt_root v..<fmt_root v + 32] = l" "map f [fmt_root v + 32..<fmt_root v + 32 + 32] = b" "map f [fmt_root v + 64..<fmt_root v + 64 + 32] = u"
    "l ! 0 = 3" "b ! 0 = 0x81" "u ! 0 = 0x82" "\<forall>i. 96 \<le> i \<and> i < 4096 \<longrightarrow> f (fmt_root v + i) = 0"
    "be_start_cluster (bitmap_of b) = 2" "unat (be_size (bitmap_of b)) = fmt_cbm_size v"
    "unat (ue_start_cluster (upcase_of u)) = fmt_cbm_clusters v + 2" "ue_size (upcase_of u) = 5836"
proof -
  have p: "fmt_params p v" "fmt_fits v" using assms by (auto simp: disk_formatted_def)
  obtain l b u where e: "fmt_root_bytes p = l @ b @ u" "length l = 32" "length b = 32" "length u = 32" "l ! 0 = 3" "b ! 0 = 0x81" "u ! 0 = 0x82"
    "bitmap_of b = \<lparr>be_type = 0x81, be_unknown1 = replicate 19 0, be_start_cluster = 2, be_size = of_nat (fmt_cbm_size v)\<rparr>"
    "upcase_of u = \<lparr>ue_type = 0x82, ue_unknown1 = replicate 3 0, ue_checksum = upcase_sum, ue_unknown2 = replicate 12 0,
       ue_start_cluster = of_nat (fmt_cbm_clusters v + 2), ue_size = 5836\<rparr>" by (rule fmt_root_entries[OF p])
  have m: "(Rootdir, fmt_root v, 4096) \<in> set (fmt_layout v)" by (simp add: fmt_layout_def)
  have sl: "map f [fmt_root v + i..<fmt_root v + i + 32] = take 32 (drop i (l @ b @ u))" if "i \<le> 64" for i
    using formatted_slice[OF assms m, of i 32] that e(1-4) by simp
  note c = fmt_clusters[OF p(2)]
  show thesis
  proof (rule that[of l b u])
    show "map f [fmt_root v..<fmt_root v + 32] = l" "map f [fmt_root v + 32..<fmt_root v + 32 + 32] = b" "map f [fmt_root v + 64..<fmt_root v + 64 + 32] = u"
      using sl[of 0] sl[of 32] sl[of 64] e(2-4) by simp_all
    have "f (fmt_root v + i) = 0" if "96 \<le> i" "i < 4096" for i by (rule formatted_rest[OF assms m]) (use that e(1-4) in simp_all)
    then show "\<forall>i. 96 \<le> i \<and> i < 4096 \<longrightarrow> f (fmt_root v + i) = 0" by blast
    show "unat (be_size (bitmap_of b)) = fmt_cbm_size v" unfolding e(8) exfat_entry_bitmap.select_convs by (rule unat_of_nat_small) (use c(6) in simp)
    show "unat (ue_start_cluster (upcase_of u)) = fmt_cbm_clusters v + 2" unfolding e(9) exfat_entry_upcase.select_convs by (rule unat_of_nat_small) (use c(4,5) in simp)
  qed (simp_all only: e(5-9) exfat_entry_bitmap.select_convs exfat_entry_upcase.select_convs)
qed

text \<open>The driver reads the bitmap in whole words; they end before the up-case table.\<close>

lemma fmt_bitmap_room:
  assumes "fmt_params p v" "fmt_fits v"
  shows "BMAP_SIZE (unat (sb_cluster_count (fmt_sb p))) \<le> 4096 * fmt_cbm_clusters v"
proof -
  let ?q = "unat (sb_cluster_count (fmt_sb p))" and ?k = "fmt_cbm_clusters v"
  have "?q \<le> 8 * fmt_cbm_size v" using bitmap_bits(1)[of "(v - fmt_cbm v) div 4096"] unfolding fmt_count(1)[OF assms] bitmap_bits_def fmt_cbm_size_def by simp
  moreover have "fmt_cbm_size v \<le> 4096 * ?k" using up4096(1)[of "fmt_cbm_size v"] unfolding up4096_def fmt_cbm_clusters_def by simp
  ultimately have "?q + 63 \<le> 512 * ?k * 64 + 63" by simp
  then have "(?q + 63) div 64 \<le> (512 * ?k * 64 + 63) div 64" by (rule div_le_mono)
  then have "(?q + 63) div 64 \<le> 512 * ?k" by simp
  then show ?thesis by (simp add: BMAP_SIZE_def)
qed

text \<open>The table the driver keeps once it has expanded the one the formatter wrote.\<close>

definition fmt_upcase :: "u16 list" where
  "fmt_upcase = decompress_upcase (units_of upcase_table)"

context exfat_volume
begin

lemma readdir_skip:
  assumes "at_root r c f st" "a + 32 \<le> clus_size sb" "f (clus_off sb c + a) \<noteq> EXFAT_ENTRY_FILE"
    "\<And>io. ok io \<Longrightarrow> img io = f \<Longrightarrow>
       \<exists>st1. read_other ops r (map f [clus_off sb c + a..<clus_off sb c + a + 32]) (of_nat a) (with_io io st) = Some (None, st1) \<and> Q st1"
  obtains st1 where "Q st1" "readdir ops r (of_nat a) st = readdir ops r (of_nat (a + 32)) st1"
proof -
  have "\<exists>res. \<forall>io. ok io \<and> img io = f \<longrightarrow>
      read_other ops r (map f [clus_off sb c + a..<clus_off sb c + a + 32]) (of_nat a) (with_io io st) = Some (None, res io) \<and> Q (res io)"
    using assms(4) by (intro choice) blast
  then obtain res where res: "ok io \<Longrightarrow> img io = f \<Longrightarrow>
      read_other ops r (map f [clus_off sb c + a..<clus_off sb c + a + 32]) (of_nat a) (with_io io st) = Some (None, res io) \<and> Q (res io)" for io by blast
  then obtain io where "ok io" "img io = f" "readdir ops r (of_nat a) st = readdir ops r (of_nat (a + 32)) (res io)"
    using readdir_other[OF assms(1-3), of "\<lambda>io. (None, res io)"] by auto
  then show thesis using that res by blast
qed

lemma bitmap_loaded_with_io [simp]: "bitmap_loaded c bs io h (with_io io1 st) = bitmap_loaded c bs io h st"
  by (simp add: bitmap_loaded_def with_io_def)

definition upcase_loaded :: "u16 list \<Rightarrow> 's exfat_io \<Rightarrow> u64 \<Rightarrow> 's exfat_fs \<Rightarrow> 's exfat_fs" where
  "upcase_loaded up io h st = (with_io io st)\<lparr>fs_heap := h, fs_upcase := Some up\<rparr>"

lemma readdir_formatted:
  assumes fm: "disk_formatted p v f" and sb: "sb = fmt_sb p" and vol: "{..<v} \<subseteq> vol" and root: "at_root r (sb_rootdir_cluster sb) f st"
    and up: "fs_upcase st = None" and n: "BMAP_SIZE (unat (sb_cluster_count sb)) = n" and heap: "unat (fs_heap st) + n + 136929 \<le> 2 * 1024 * 1024"
  shows "\<exists>io h. readdir ops r 0 st = Some ((-2, None, 4096), upcase_loaded fmt_upcase io h (bitmap_loaded 2 (map f [fmt_cbm v..<fmt_cbm v + n]) io h st)) \<and> ok io \<and> img io = f"
proof -
  have p: "fmt_params p v" "fmt_fits v" using fm by (auto simp: disk_formatted_def)
  note o = fmt_order[OF p(2)] and c = fmt_clusters[OF p(2)] and cs = fmt_clus_size[OF p, folded sb] and pos = fmt_positions[OF p, folded sb] and rc = fmt_root_cluster[OF p, folded sb]
    and cnt = fmt_count[OF p, folded sb]
  obtain l b u where e: "map f [fmt_root v..<fmt_root v + 32] = l" "map f [fmt_root v + 32..<fmt_root v + 32 + 32] = b" "map f [fmt_root v + 64..<fmt_root v + 64 + 32] = u"
    "l ! 0 = 3" "b ! 0 = 0x81" "u ! 0 = 0x82" "\<forall>i. 96 \<le> i \<and> i < 4096 \<longrightarrow> f (fmt_root v + i) = 0"
    "be_start_cluster (bitmap_of b) = 2" "unat (be_size (bitmap_of b)) = fmt_cbm_size v"
    "unat (ue_start_cluster (upcase_of u)) = fmt_cbm_clusters v + 2" "ue_size (upcase_of u) = 5836" by (rule formatted_root[OF fm])
  have h: "f (fmt_root v) = 3" "f (fmt_root v + 32) = 0x81" "f (fmt_root v + 64) = 0x82"
    using e(1)[THEN arg_cong[where f = "\<lambda>x. x ! 0"]] e(2)[THEN arg_cong[where f = "\<lambda>x. x ! 0"]] e(3)[THEN arg_cong[where f = "\<lambda>x. x ! 0"]] e(4-6) by simp_all
  obtain st1 where s1: "\<exists>io. ok io \<and> img io = f \<and> st1 = with_io io st" "readdir ops r (of_nat 0) st = readdir ops r (of_nat (0 + 32)) st1"
    by (rule readdir_skip[OF root, of 0 "\<lambda>st1. \<exists>io. ok io \<and> img io = f \<and> st1 = with_io io st"])
      (use e(1,4) h cs rc(3) in \<open>auto simp: read_other_def read_unknown_def\<close>)
  obtain io1 where io1: "ok io1" "img io1 = f" "st1 = with_io io1 st" using s1(1) by blast
  have r1: "at_root r (sb_rootdir_cluster sb) f st1" using at_root_with_io[OF root io1(1,2)] io1(3) by simp
  have n4: "fmt_cbm v + n \<le> fmt_uct v" using fmt_bitmap_room[OF p] n c(1) by (simp add: sb)
  have bn: "{clus_off sb 2..<clus_off sb 2 + n} \<subseteq> vol" using n4 o vol by (auto simp: pos(1) subset_iff)
  have d2: "data_cluster sb 2" using cnt(2) by (simp add: data_cluster_def)
  have sz: "(unat (sb_cluster_count sb) + 7) div 8 \<le> fmt_cbm_size v" unfolding cnt(1) fmt_cbm_size_def by simp
  let ?B = "map f [fmt_cbm v..<fmt_cbm v + n]"
  have bm: "\<exists>st2. read_other ops r b (of_nat 32) (with_io io st1) = Some (None, st2) \<and>
      (\<exists>io h. ok io \<and> img io = f \<and> unat h \<le> unat (fs_heap st) + n + 7 \<and> st2 = bitmap_loaded 2 ?B io h st)" if "ok io" "img io = f" for io
  proof -
    have "\<exists>io' h. read_bitmap ops (bitmap_of b) (with_io io st1) = Some (None, bitmap_loaded (be_start_cluster (bitmap_of b))
        (map (img (ef_io (fs_ef (with_io io st1)))) [clus_off sb (be_start_cluster (bitmap_of b))..<clus_off sb (be_start_cluster (bitmap_of b)) + n]) io' h (with_io io st1)) \<and>
      ok io' \<and> img io' = img (ef_io (fs_ef (with_io io st1))) \<and> unat h \<le> unat (fs_heap (with_io io st1)) + n + 7"
      by (rule read_bitmap_ok) (use that r1 e(8,9) d2 sz n heap bn io1(3) in \<open>auto simp: with_io_def at_root_def\<close>)
    then show ?thesis using e(5,8) that io1(3) by (auto simp: read_other_def with_io_def pos(1) bitmap_loaded_def)
  qed
  obtain st2 where s2: "\<exists>io h. ok io \<and> img io = f \<and> unat h \<le> unat (fs_heap st) + n + 7 \<and> st2 = bitmap_loaded 2 ?B io h st" "readdir ops r (of_nat 32) st1 = readdir ops r (of_nat (32 + 32)) st2"
    by (rule readdir_skip[OF r1, of 32 "\<lambda>st2. \<exists>io h. ok io \<and> img io = f \<and> unat h \<le> unat (fs_heap st) + n + 7 \<and> st2 = bitmap_loaded 2 ?B io h st"])
      (use bm e(2) h cs rc(3) in \<open>auto simp del: map_eq_conv\<close>)
  obtain io2 h2 where io2: "ok io2" "img io2 = f" "unat h2 \<le> unat (fs_heap st) + n + 7" "st2 = bitmap_loaded 2 ?B io2 h2 st" using s2(1) by blast
  have r2: "at_root r (sb_rootdir_cluster sb) f st2" using root io2 by (simp add: at_root_def bitmap_loaded_def)
  let ?c = "ue_start_cluster (upcase_of u)"
  have uc: "clus_off sb ?c = fmt_uct v" "data_cluster sb ?c" using e(10) c(1) cnt(2) by (simp_all add: pos(1) data_cluster_def)
  have ub: "{clus_off sb ?c..<clus_off sb ?c + 5836} \<subseteq> vol" using o vol by (auto simp: uc(1) subset_iff)
  have table: "map f [fmt_uct v..<fmt_uct v + 5836] = upcase_table"
    using formatted_region[OF fm, of Uct "fmt_uct v" 5836] by (simp add: fmt_layout_def)
  have ue: "\<exists>st3. read_other ops r u (of_nat 64) (with_io io st2) = Some (None, st3) \<and>
      (\<exists>io h. ok io \<and> img io = f \<and> st3 = upcase_loaded fmt_upcase io h (bitmap_loaded 2 ?B io h st))" if "ok io" "img io = f" for io
  proof -
    have "\<exists>io' h. read_upcase ops (upcase_of u) (with_io io st2) = Some (None, (with_io io' (with_io io st2))\<lparr>fs_heap := h,
        fs_upcase := Some (decompress_upcase (units_of (map (img (ef_io (fs_ef (with_io io st2)))) [clus_off sb ?c..<clus_off sb ?c + 5836])))\<rparr>) \<and>
      ok io' \<and> img io' = img (ef_io (fs_ef (with_io io st2)))"
      by (rule read_upcase_ok) (use that r2 e(11) uc(2) ub heap io2(3,4) up in \<open>auto simp: with_io_def at_root_def bitmap_loaded_def\<close>)
    moreover have i: "img (ef_io (fs_ef (with_io io st2))) = f" using that by (simp add: with_io_def)
    ultimately obtain io' h where x: "read_upcase ops (upcase_of u) (with_io io st2) = Some (None, (with_io io' st2)\<lparr>fs_heap := h, fs_upcase := Some fmt_upcase\<rparr>)" "ok io'" "img io' = f"
      unfolding i uc(1) table fmt_upcase_def[symmetric] with_io_twice by blast
    have "(with_io io' st2)\<lparr>fs_heap := h, fs_upcase := Some fmt_upcase\<rparr> = upcase_loaded fmt_upcase io' h (bitmap_loaded 2 ?B io' h st)"
      unfolding io2(4) by (simp add: upcase_loaded_def bitmap_loaded_def with_io_def)
    then show ?thesis using x e(6) by (auto simp: read_other_def)
  qed
  obtain st3 where s3: "\<exists>io h. ok io \<and> img io = f \<and> st3 = upcase_loaded fmt_upcase io h (bitmap_loaded 2 ?B io h st)" "readdir ops r (of_nat 64) st2 = readdir ops r (of_nat (64 + 32)) st3"
    by (rule readdir_skip[OF r2, of 64 "\<lambda>st3. \<exists>io h. ok io \<and> img io = f \<and> st3 = upcase_loaded fmt_upcase io h (bitmap_loaded 2 ?B io h st)"])
      (use ue e(3) h cs rc(3) in \<open>auto simp del: map_eq_conv\<close>)
  obtain io3 h3 where io3: "ok io3" "img io3 = f" "st3 = upcase_loaded fmt_upcase io3 h3 (bitmap_loaded 2 ?B io3 h3 st)" using s3(1) by blast
  have r3: "at_root r (sb_rootdir_cluster sb) f st3" using root io3 by (simp add: at_root_def bitmap_loaded_def upcase_loaded_def with_io_def)
  have z: "f (fmt_root v + 96 + 32 * i) = 0" if "i < 125" for i using e(7)[THEN spec, of "96 + 32 * i"] that by (simp add: add.assoc)
  have "\<exists>io. ok io \<and> img io = f \<and> readdir ops r (of_nat 96) st3 = Some ((-2, None, of_nat (clus_size sb)), with_io io st3)"
    by (rule readdir_unused[OF r3, where n = 125]) (use cs rc(3) z in auto)
  then obtain io where "ok io" "img io = f" "readdir ops r 96 st3 = Some ((-2, None, 4096), with_io io st3)" using cs by auto
  moreover have "with_io io st3 = upcase_loaded fmt_upcase io h3 (bitmap_loaded 2 ?B io h3 st)" unfolding io3(3) by (simp add: upcase_loaded_def bitmap_loaded_def with_io_def)
  moreover have "readdir ops r 0 st = readdir ops r 96 st3" using s1(2) s2(2) s3(2) by simp
  ultimately show ?thesis by auto
qed

text \<open>The tree of the mounted volume: a cached root directory without children.\<close>

definition bitmap_ef :: "bytes \<Rightarrow> 's exfat_io \<Rightarrow> 's exfat \<Rightarrow> 's exfat" where
  "bitmap_ef bs io ef = ef\<lparr>ef_io := io, cmap_start_cluster := 2, cmap_size := sb_cluster_count sb, cmap_chunk_size := sb_cluster_count sb,
     cmap_chunk := words_of bs (BMAP_SIZE (unat (sb_cluster_count sb)) div 8)\<rparr>"

lemma mount_tree_formatted:
  assumes fm: "disk_formatted p v f" and sb: "sb = fmt_sb p" and vol: "{..<v} \<subseteq> vol"
    and t: "fs_nodes st r = Some t" "nd_parent (tn_node t) \<longleftrightarrow> tn_parent t \<noteq> None" "one_cluster (tn_node t) (sb_rootdir_cluster sb)" "\<not> tn_cached t"
    and io: "ok (ef_io (fs_ef st))" "ef_sb (fs_ef st) = sb" "img (ef_io (fs_ef st)) = f"
    and up: "fs_upcase st = None" and n: "BMAP_SIZE (unat (sb_cluster_count sb)) = n" and heap: "unat (fs_heap st) + n + 136929 \<le> 2 * 1024 * 1024"
  shows "\<exists>io st'. mount_tree ops r st = Some (0, st') \<and> fs_root st' = fs_root st \<and> fs_dev st' = fs_dev st \<and> fs_upcase st' = Some fmt_upcase \<and>
    fs_ef st' = bitmap_ef (map f [fmt_cbm v..<fmt_cbm v + n]) io (fs_ef st) \<and> ok io \<and> img io = f \<and>
    fs_nodes st' r = Some (t\<lparr>tn_node := (tn_node t)\<lparr>nd_references := nd_references (tn_node t) + 1\<rparr>, tn_cached := True\<rparr>)"
proof -
  let ?t = "t\<lparr>tn_node := (tn_node t)\<lparr>nd_references := nd_references (tn_node t) + 1\<rparr>\<rparr>"
  let ?st = "put_tn r ?t st"
  have g: "exfat_get_node r st = Some ?st" using t(1) by (simp add: exfat_get_node_def change_tn_def)
  have root: "at_root r (sb_rootdir_cluster sb) f ?st" using t(1,3) io tn_base_same[of ?t] t(2) by (simp add: at_root_def put_tn_def one_cluster_def)
  have "\<exists>io h. readdir ops r 0 ?st = Some ((-2, None, 4096), upcase_loaded fmt_upcase io h (bitmap_loaded 2 (map f [fmt_cbm v..<fmt_cbm v + n]) io h ?st)) \<and> ok io \<and> img io = f"
    by (rule readdir_formatted[OF fm sb vol root]) (use up n heap in \<open>auto simp: put_tn_def\<close>)
  then obtain io h where x: "readdir ops r 0 ?st = Some ((-2, None, 4096), upcase_loaded fmt_upcase io h (bitmap_loaded 2 (map f [fmt_cbm v..<fmt_cbm v + n]) io h ?st))" "ok io" "img io = f"
    by blast
  let ?s = "upcase_loaded fmt_upcase io h (bitmap_loaded 2 (map f [fmt_cbm v..<fmt_cbm v + n]) io h ?st)"
  have nodes: "fs_nodes ?s = (fs_nodes st)(r \<mapsto> ?t)" by (simp add: upcase_loaded_def bitmap_loaded_def with_io_def put_tn_def)
  have c: "exfat_cache_directory ops r ?st = Some (0, put_tn r (?t\<lparr>tn_cached := True\<rparr>) ?s)"
    using x(1) t(4) nodes by (simp add: exfat_cache_directory_def cache_loop.simps change_tn_def put_tn_def)
  have "mount_tree ops r st = Some (0, put_tn r (?t\<lparr>tn_cached := True\<rparr>) ?s)"
    using g c by (simp add: mount_tree_def) (simp add: put_tn_def upcase_loaded_def bitmap_loaded_def with_io_def)
  then show ?thesis using x(2,3) by (intro exI[of _ io] exI conjI) (assumption | simp add: put_tn_def upcase_loaded_def bitmap_loaded_def bitmap_ef_def with_io_def)+
qed

end

end
