(* ===== verification/Exfat_Mount_Correct.thy ===== *)
theory Exfat_Mount_Correct
  imports Exfat_Mount
begin

text \<open>
  A volume the formatter has written is one the driver mounts: the checksum of the boot region holds, the
  super block passes the checks, and the tree is the empty root directory.
\<close>

section \<open>The boot region\<close>

lemma concat_slice: "\<forall>x \<in> set xss. length x = n \<Longrightarrow> i < length xss \<Longrightarrow> take n (drop (n * i) (concat xss)) = xss ! i"
proof (induction xss arbitrary: i)
  case (Cons xs xss)
  then show ?case by (cases i) auto
qed simp

definition vbr_sectors :: "mkfs_param \<Rightarrow> bytes list" where
  "vbr_sectors p = [sb_bytes (fmt_sb p)] @ replicate 8 sig_sector @ replicate 2 (replicate 512 0) @ [le32s (replicate 128 (fmt_checksum p))]"

lemma le32s_replicate: "concat (replicate n (to_le 4 w)) = le32s (replicate n w)"
  by (induction n) auto

lemma vbr_sectors:
  assumes "fmt_params p v" "fmt_fits v"
  shows "fmt_vbr p = concat (vbr_sectors p)" "\<forall>x \<in> set (vbr_sectors p). length x = 512" "length (vbr_sectors p) = 12"
  using init_sb_ok(2)[OF assms] by (auto simp: fmt_vbr_def vbr_sectors_def le32s_replicate)

lemma formatted_sector:
  assumes "disk_formatted p v f" "i < 12"
  shows "map f [512 * i..<512 * i + 512] = vbr_sectors p ! i"
proof -
  have p: "fmt_params p v" "fmt_fits v" using assms(1) by (auto simp: disk_formatted_def)
  have "map f [0 + 512 * i..<0 + 512 * i + 512] = take 512 (drop (512 * i) (fmt_content p v Vbr))"
    by (rule formatted_slice[OF assms(1), of Vbr 0 6144]) (use assms(2) length_fmt_vbr[OF p] in \<open>auto simp: fmt_layout_def\<close>)
  then show ?thesis using concat_slice[OF vbr_sectors(2)[OF p], of i] assms(2) vbr_sectors[OF p] by simp
qed

lemma foldl_const: "foldl (\<lambda>c i. h c) a xs = (h ^^ length xs) a"
  by (induction xs arbitrary: a) (auto simp: funpow_swap1)

lemma sectors_checksum:
  "foldl (\<lambda>c i. exfat_vbr_add_checksum (vbr_sectors p ! i) 512 c) (exfat_vbr_start_checksum (vbr_sectors p ! 0) 512) [1..<11] = fmt_checksum p"
proof -
  let ?g = "\<lambda>c i. exfat_vbr_add_checksum (vbr_sectors p ! i) 512 c"
  have a: "foldl ?g a [1..<9] = add_sectors 8 sig_sector a" for a
  proof -
    have "foldl ?g a [1..<9] = foldl (\<lambda>c i. exfat_vbr_add_checksum sig_sector 512 c) a [1..<9]"
      by (rule foldl_cong) (auto simp: vbr_sectors_def nth_append nth_Cons')
    then show ?thesis by (simp only: foldl_const add_sectors_def length_upt) simp
  qed
  have b: "foldl ?g a [9..<11] = add_sectors 2 (replicate 512 0) a" for a
  proof -
    have "foldl ?g a [9..<11] = foldl (\<lambda>c i. exfat_vbr_add_checksum (replicate 512 0) 512 c) a [9..<11]"
      by (rule foldl_cong) (auto simp: vbr_sectors_def nth_append nth_Cons' simp del: replicate_eq_replicate)
    then show ?thesis by (simp only: foldl_const add_sectors_def length_upt) simp
  qed
  have "[1..<11] = [1..<9] @ [9..<11 :: nat]" by (simp add: upt_add_eq_append[of 1 9 2, simplified])
  then show ?thesis by (simp only: foldl_append a b fmt_checksum_def) (simp add: vbr_sectors_def)
qed

context byte_volume
begin

lemma sector_read:
  assumes "ok io" "i < 12" "{0..<6144} \<subseteq> vol" "512 \<le> length sector"
  shows "\<exists>io'. exfat_pread ops sector 0 512 (of_nat (i * 512)) io = Some (512, buf_put sector 0 (map (img io) [512 * i..<512 * i + 512]), io') \<and> ok io' \<and> img io' = img io"
proof -
  have u: "unat (of_nat (i * 512) :: u64) = 512 * i" using assms(2) by (subst unat_of_nat_small) auto
  have "{512 * i..<512 * i + 512} \<subseteq> vol" using assms(2,3) by (auto simp: subset_iff)
  then show ?thesis using pread_law[OF assms(1), of "of_nat (i * 512)" 512 0 sector] assms(4) unfolding u by simp
qed

lemma buf_put_front: "length bs \<le> length b \<Longrightarrow> j < length bs \<Longrightarrow> buf_put b 0 bs ! j = bs ! j"
  by (simp add: buf_put_def nth_append)

lemma vbr_loop_ok:
  assumes "ok io" "\<forall>i \<in> set is. i < 12" "{0..<6144} \<subseteq> vol" "512 \<le> length sector"
  shows "\<exists>io' sector'. vbr_loop ops 512 is sector k io =
      Some ((True, foldl (\<lambda>c i. exfat_vbr_add_checksum (map (img io) [512 * i..<512 * i + 512]) 512 c) k is, sector'), io') \<and>
    ok io' \<and> img io' = img io \<and> length sector' = length sector"
  using assms
proof (induction "is" arbitrary: io sector k)
  case (Cons i "is")
  obtain io1 where r: "exfat_pread ops sector 0 512 (of_nat (i * 512)) io = Some (512, buf_put sector 0 (map (img io) [512 * i..<512 * i + 512]), io1)" "ok io1" "img io1 = img io"
    using sector_read[OF Cons.prems(1) _ Cons.prems(3,4), of i] Cons.prems(2) by auto
  let ?s = "buf_put sector 0 (map (img io) [512 * i..<512 * i + 512])"
  have l: "length ?s = length sector" using Cons.prems(4) by (simp add: buf_put_def)
  have "exfat_vbr_add_checksum ?s 512 k = exfat_vbr_add_checksum (map (img io) [512 * i..<512 * i + 512]) 512 k"
    by (rule vbr_add_checksum_cong) (use Cons.prems(4) in \<open>simp add: buf_put_front del: nth_map\<close>)
  then show ?case using Cons.IH[OF r(2), of ?s "exfat_vbr_add_checksum ?s 512 k"] Cons.prems r l by auto
qed auto

lemma verify_words_ok:
  assumes "\<forall>i \<in> set is. of_le (buf_get 4 sector (4 * i)) = k"
  shows "verify_words ops n is sector k st = Some (True, st)"
  using assms by (induction "is") auto

lemma verify_vbr_ok:
  assumes "disk_formatted p v (img (ef_io (fs_ef st)))" "ok (ef_io (fs_ef st))" "{0..<6144} \<subseteq> vol" "ef_sb (fs_ef st) = fmt_sb p" "512 \<le> length sector"
  shows "\<exists>io. verify_vbr_checksum ops sector st = Some (True, st\<lparr>fs_ef := (fs_ef st)\<lparr>ef_io := io\<rparr>\<rparr>) \<and> ok io \<and> img io = img (ef_io (fs_ef st))"
proof -
  let ?io = "ef_io (fs_ef st)"
  have p: "fmt_params p v" "fmt_fits v" using assms(1) by (auto simp: disk_formatted_def)
  have n: "unat (SECTOR_SIZE (fmt_sb p)) = 512" by (simp add: SECTOR_SIZE_def init_sb_ok[OF p] push_bit_eq_mult)
  note sec = formatted_sector[OF assms(1)]
  obtain io1 where r1: "exfat_pread ops sector 0 512 0 ?io = Some (512, buf_put sector 0 (vbr_sectors p ! 0), io1)" "ok io1" "img io1 = img ?io"
    using sector_read[OF assms(2) _ assms(3,5), of 0] sec[of 0] by auto
  let ?s1 = "buf_put sector 0 (vbr_sectors p ! 0)"
  have l0: "length (vbr_sectors p ! i) = 512" if "i < 12" for i using vbr_sectors[OF p] that by auto
  have l1: "length ?s1 = length sector" using assms(5) l0[of 0] by (simp add: buf_put_def)
  have k: "exfat_vbr_start_checksum ?s1 512 = exfat_vbr_start_checksum (vbr_sectors p ! 0) 512"
    by (rule vbr_start_checksum_cong) (use assms(5) l0[of 0] in \<open>simp add: buf_put_front\<close>)
  have "\<exists>io' sector'. vbr_loop ops 512 [1..<11] ?s1 (exfat_vbr_start_checksum ?s1 512) io1 =
      Some ((True, foldl (\<lambda>c i. exfat_vbr_add_checksum (map (img io1) [512 * i..<512 * i + 512]) 512 c) (exfat_vbr_start_checksum ?s1 512) [1..<11], sector'), io') \<and>
    ok io' \<and> img io' = img io1 \<and> length sector' = length ?s1" by (rule vbr_loop_ok[OF r1(2)]) (use assms(3,5) l1 in auto)
  moreover have "foldl (\<lambda>c i. exfat_vbr_add_checksum (map (img io1) [512 * i..<512 * i + 512]) 512 c) (exfat_vbr_start_checksum ?s1 512) [1..<11] = fmt_checksum p"
    unfolding k sectors_checksum[of p, symmetric] by (rule foldl_cong) (use sec r1(3) in auto)
  ultimately obtain io2 s2 where r2: "vbr_loop ops 512 [1..<11] ?s1 (exfat_vbr_start_checksum ?s1 512) io1 = Some ((True, fmt_checksum p, s2), io2)" "ok io2" "img io2 = img ?io" "length s2 = length sector"
    using r1(3) l1 by auto
  obtain io3 where r3: "exfat_pread ops s2 0 512 (of_nat (11 * 512)) io2 = Some (512, buf_put s2 0 (vbr_sectors p ! 11), io3)" "ok io3" "img io3 = img ?io"
    using sector_read[OF r2(2) _ assms(3), of 11 s2] r2(3,4) assms(5) sec[of 11] by auto
  let ?s3 = "buf_put s2 0 (vbr_sectors p ! 11)"
  have c: "vbr_sectors p ! 11 = le32s (replicate 128 (fmt_checksum p))" by (simp add: vbr_sectors_def nth_append)
  have w: "of_le (buf_get 4 ?s3 (4 * i)) = fmt_checksum p" if "i < 128" for i
  proof -
    have "buf_get 4 ?s3 (4 * i) = take 4 (drop (4 * i) (le32s (replicate 128 (fmt_checksum p))))"
      unfolding c using that assms(5) r2(4) by (simp add: buf_get_def buf_put_def)
    also have "\<dots> = to_le 4 (fmt_checksum p)" using le32s_slice[of i "replicate 128 (fmt_checksum p)"] that by simp
    finally show ?thesis by simp
  qed
  have "verify_words ops 512 [0..<128] ?s3 (fmt_checksum p) (st\<lparr>fs_ef := (fs_ef st)\<lparr>ef_io := io3\<rparr>\<rparr>) = Some (True, st\<lparr>fs_ef := (fs_ef st)\<lparr>ef_io := io3\<rparr>\<rparr>)"
    by (rule verify_words_ok) (use w in auto)
  then have "verify_vbr_checksum ops sector st = Some (True, st\<lparr>fs_ef := (fs_ef st)\<lparr>ef_io := io3\<rparr>\<rparr>)"
    using r1(1) r2(1) r3(1) by (simp add: verify_vbr_checksum_def assms(4) n)
  then show ?thesis using r3(2,3) by blast
qed

end

section \<open>The root directory\<close>

context exfat_volume
begin

lemma rootdir_formatted:
  assumes fm: "disk_formatted p v (img (ef_io ef))" and sb: "sb = fmt_sb p" and ef: "ok (ef_io ef)" "ef_sb ef = sb" and nd: "\<not> is_contiguous nd"
  shows "\<exists>io. mount_rootdir_size ops nd ef = Some (4096, ef\<lparr>ef_io := io\<rparr>) \<and> ok io \<and> img io = img (ef_io ef)"
proof -
  have p: "fmt_params p v" "fmt_fits v" using fm by (auto simp: disk_formatted_def)
  let ?c = "sb_rootdir_cluster sb"
  note rc = fmt_root_cluster[OF p, folded sb] and pos = fmt_positions[OF p, folded sb]
  have "table ef ?c = of_le (map (img (ef_io ef)) [65536 + 4 * (fmt_cbm_clusters v + 4)..<65536 + 4 * (fmt_cbm_clusters v + 4) + 4])"
    unfolding table_def pos(2) rc(1) ..
  also have "\<dots> = fmt_fat v ! (fmt_cbm_clusters v + 4)" by (rule formatted_fat[OF fm]) simp
  finally have e: "table ef ?c = 0xffffffff" using fmt_fat_root[OF p(2)] by simp
  obtain io where io: "exfat_next_cluster ops nd ?c ef = Some (0xffffffff, ef\<lparr>ef_io := io\<rparr>)" "ok io" "img io = img (ef_io ef)"
    using next_cluster_table[OF ef(1,2) rc(2) nd] e by auto
  have "0 < unat (sb_cluster_count sb)" using fmt_count(2)[OF p] by (simp add: sb)
  then obtain k where k: "unat (sb_cluster_count sb) = Suc k" by (cases "unat (sb_cluster_count sb)") auto
  have "\<not> CLUSTER_INVALID sb ?c" using rc(2) by (simp add: invalid_iff)
  then have "rootdir_loop ops nd (unat (sb_cluster_count sb)) 0 ?c ef = Some (1, ef\<lparr>ef_io := io\<rparr>)" using k io(1) ef(2) by simp
  moreover have "ucast (CLUSTER_SIZE sb) = (4096 :: u64)" using CLUSTER_SIZE_64 fmt_clus_size[OF p] by (simp add: sb word_unat_eq_iff)
  ultimately have "mount_rootdir_size ops nd ef = Some (4096, ef\<lparr>ef_io := io\<rparr>)" using ef(2) by (simp add: mount_rootdir_size_def)
  then show ?thesis using io(2,3) by blast
qed

text \<open>The state in which the driver begins to read the root directory.\<close>

definition fmt_root_node :: tree_node where
  "fmt_root_node = (root_node sb)\<lparr>tn_node := (tn_node (root_node sb))\<lparr>valid_size := 4096, nd_size := 4096\<rparr>\<rparr>"

lemma fmt_root_node_ok:
  assumes "fmt_params p v" "fmt_fits v" "sb = fmt_sb p"
  shows "nd_parent (tn_node fmt_root_node) \<longleftrightarrow> tn_parent fmt_root_node \<noteq> None" "one_cluster (tn_node fmt_root_node) (sb_rootdir_cluster sb)" "\<not> tn_cached fmt_root_node"
    "nd_references (tn_node fmt_root_node) = 0" "tn_child fmt_root_node = None"
  using fmt_root_cluster(2)[OF assms(1,2), folded assms(3)] fmt_clus_size[OF assms(1,2), folded assms(3)]
  by (simp_all add: fmt_root_node_def root_node_def zero_node_def one_cluster_def)

lemma mount_root_formatted:
  assumes fm: "disk_formatted p v f" and sb: "sb = fmt_sb p" and io: "ok (ef_io (fs_ef st))" "ef_sb (fs_ef st) = sb" "img (ef_io (fs_ef st)) = f" and h: "fs_heap st = 4632"
  shows "\<exists>io. mount_root ops st = mount_tree ops 4632 ((put_tn 4632 fmt_root_node st)\<lparr>fs_ef := (fs_ef st)\<lparr>ef_io := io\<rparr>, fs_root := Some 4632, fs_heap := 5240\<rparr>) \<and> ok io \<and> img io = f"
proof -
  have a: "alloc 608 st = (Some 4632, st\<lparr>fs_heap := 5240\<rparr>)" using h by (simp add: alloc_def exfat_malloc_def)
  have "\<exists>io. mount_rootdir_size ops (tn_base (root_node sb)) (fs_ef st) = Some (4096, (fs_ef st)\<lparr>ef_io := io\<rparr>) \<and> ok io \<and> img io = img (ef_io (fs_ef st))"
    by (rule rootdir_formatted) (use fm sb io in \<open>auto simp: tn_base_def root_node_def zero_node_def\<close>)
  then obtain io1 where r: "mount_rootdir_size ops (tn_base (root_node sb)) (fs_ef st) = Some (4096, (fs_ef st)\<lparr>ef_io := io1\<rparr>)" "ok io1" "img io1 = f" using io(3) by auto
  then have "mount_root ops st = mount_tree ops 4632 ((put_tn 4632 fmt_root_node st)\<lparr>fs_ef := (fs_ef st)\<lparr>ef_io := io1\<rparr>, fs_root := Some 4632, fs_heap := 5240\<rparr>)"
    using a io(2) by (simp add: mount_root_def fmt_root_node_def put_tn_def Let_def) (rule arg_cong[where f = "mount_tree ops 4632"], rule exfat_fs.equality; simp)
  then show ?thesis using r(2,3) by blast
qed

lemma mount_volume_formatted:
  assumes fm: "disk_formatted p v f" and sb: "sb = fmt_sb p" and vol: "{..<v} \<subseteq> vol" and io: "ok (ef_io (fs_ef st))" "ef_sb (fs_ef st) = sb" "img (ef_io (fs_ef st)) = f"
    and h: "fs_heap st = 536" and dev: "int v \<le> sint (dev_size dev)"
  shows "\<exists>io. mount_volume ops dev st = mount_tree ops 4632 ((put_tn 4632 fmt_root_node st)\<lparr>fs_ef := (fs_ef st)\<lparr>ef_io := io, zero_cluster := replicate 4096 0\<rparr>, fs_root := Some 4632, fs_heap := 5240\<rparr>) \<and> ok io \<and> img io = f"
proof -
  have p: "fmt_params p v" "fmt_fits v" using fm by (auto simp: disk_formatted_def)
  note s = init_sb_ok[OF p, folded sb] and o = fmt_order[OF p(2)]
  have cs: "CLUSTER_SIZE sb = 4096" using CLUSTER_SIZE_eq fmt_clus_size[OF p] by (simp add: sb word_unat_eq_iff)
  have a: "alloc 4096 st = (Some 536, st\<lparr>fs_heap := 4632\<rparr>)" using h by (simp add: alloc_def exfat_malloc_def)
  have "6144 \<le> v" using o by linarith
  then have v6: "{0..<6144} \<subseteq> vol" using vol by (auto simp: subset_iff)
  have "\<exists>io. verify_vbr_checksum ops (replicate 4096 0) (st\<lparr>fs_heap := 4632\<rparr>) = Some (True, (st\<lparr>fs_heap := 4632\<rparr>)\<lparr>fs_ef := (fs_ef (st\<lparr>fs_heap := 4632\<rparr>))\<lparr>ef_io := io\<rparr>\<rparr>) \<and> ok io \<and> img io = img (ef_io (fs_ef (st\<lparr>fs_heap := 4632\<rparr>)))"
    by (rule verify_vbr_ok[where p = p and v = v]) (use fm sb io v6 in auto)
  then obtain io1 where r: "verify_vbr_checksum ops (replicate 4096 0) (st\<lparr>fs_heap := 4632\<rparr>) = Some (True, (st\<lparr>fs_heap := 4632\<rparr>)\<lparr>fs_ef := (fs_ef st)\<lparr>ef_io := io1\<rparr>\<rparr>)" "ok io1" "img io1 = f"
    using io(3) by auto
  let ?st = "(st\<lparr>fs_heap := 4632\<rparr>)\<lparr>fs_ef := (fs_ef st)\<lparr>ef_io := io1, zero_cluster := replicate 4096 0\<rparr>\<rparr>"
  have "\<exists>io. mount_root ops ?st = mount_tree ops 4632 ((put_tn 4632 fmt_root_node ?st)\<lparr>fs_ef := (fs_ef ?st)\<lparr>ef_io := io\<rparr>, fs_root := Some 4632, fs_heap := 5240\<rparr>) \<and> ok io \<and> img io = f"
    by (rule mount_root_formatted[OF fm sb]) (use r io in auto)
  then obtain io2 where m: "mount_root ops ?st = mount_tree ops 4632 ((put_tn 4632 fmt_root_node ?st)\<lparr>fs_ef := (fs_ef ?st)\<lparr>ef_io := io2\<rparr>, fs_root := Some 4632, fs_heap := 5240\<rparr>)" "ok io2" "img io2 = f" by blast
  have eq: "(put_tn 4632 fmt_root_node ?st)\<lparr>fs_ef := (fs_ef ?st)\<lparr>ef_io := io2\<rparr>, fs_root := Some 4632, fs_heap := 5240\<rparr> =
    (put_tn 4632 fmt_root_node st)\<lparr>fs_ef := (fs_ef st)\<lparr>ef_io := io2, zero_cluster := replicate 4096 0\<rparr>, fs_root := Some 4632, fs_heap := 5240\<rparr>"
    by (rule exfat_fs.equality; simp add: put_tn_def)
  have "\<not> dev_size dev <s ucast (sb_cluster_count sb) * 4096"
  proof -
    have c: "unat (sb_cluster_count sb) * 4096 \<le> v" using fmt_count(1)[OF p] o(6) by (simp add: sb)
    then have u: "unat (ucast (sb_cluster_count sb) * 4096 :: u64) = unat (sb_cluster_count sb) * 4096" using o(5) by (subst unat_mult_nowrap) auto
    then have "sint (ucast (sb_cluster_count sb) * 4096 :: u64) = int (unat (sb_cluster_count sb) * 4096)" using c o(5) by (subst sint64_small) auto
    moreover have "int (unat (sb_cluster_count sb) * 4096) \<le> sint (dev_size dev)" using c dev by linarith
    ultimately show ?thesis by (simp only: word_sless_alt not_less)
  qed
  then have "check_sb sb dev" using s cs by (simp add: check_sb_def)
  then have "mount_volume ops dev st = mount_root ops ?st"
    using a r(1) s cs io(2) by (simp add: mount_volume_def opt_def)
  then show ?thesis using m unfolding eq by auto
qed

end

section \<open>The bitmap\<close>

lemma used_formatted:
  assumes fm: "disk_formatted p v f" and n: "BMAP_SIZE (unat (sb_cluster_count (fmt_sb p))) = n" and j: "j < unat (sb_cluster_count (fmt_sb p))"
  shows "used_bit (words_of (map f [fmt_cbm v..<fmt_cbm v + n]) (n div 8)) j \<longleftrightarrow> j < fmt_allocated v"
proof -
  have p: "fmt_params p v" "fmt_fits v" using fm by (auto simp: disk_formatted_def)
  let ?q = "unat (sb_cluster_count (fmt_sb p))" and ?a = "fmt_allocated v"
  have n8: "n = 8 * (n div 8)" "?q \<le> 64 * (n div 8)" using n by (auto simp: BMAP_SIZE_def)
  have jq: "j div 8 < fmt_cbm_size v" using j unfolding fmt_count(1)[OF p] fmt_cbm_size_def by linarith
  have jn: "j div 8 < n" using j n8 by linarith
  have "used_bit (words_of (map f [fmt_cbm v..<fmt_cbm v + n]) (n div 8)) j \<longleftrightarrow> bit (map f [fmt_cbm v..<fmt_cbm v + n] ! (j div 8)) (j mod 8)"
    using used_bit_bytes[of j "words_of (map f [fmt_cbm v..<fmt_cbm v + n]) (n div 8)"] concat_words_of[of "map f [fmt_cbm v..<fmt_cbm v + n]" "n div 8"] j n8 by simp
  also have "map f [fmt_cbm v..<fmt_cbm v + n] ! (j div 8) = map f [fmt_cbm v..<fmt_cbm v + fmt_cbm_size v] ! (j div 8)" using jq jn by simp
  also have "\<dots> = (fmt_cbm_bytes ?a @ replicate (fmt_cbm_size v - length (fmt_cbm_bytes ?a)) 0) ! (j div 8)"
    using formatted_region[OF fm, of Cbm "fmt_cbm v" "fmt_cbm_size v"] by (simp add: fmt_layout_def)
  also have "bit (\<dots>) (j mod 8) \<longleftrightarrow> j < ?a"
  proof (cases "j < bitmap_bits ?a")
    case True
    then have l: "j div 8 < bitmap_bits ?a div 8" using bitmap_bits(3)[of ?a] by linarith
    have "64 * length (fmt_bitmap ?a) \<ge> bitmap_bits ?a" using bmap_size(3)[of "bitmap_bits ?a"] by (simp add: length_fmt_bitmap bmap_size(1))
    then have "used_bit (fmt_bitmap ?a) j \<longleftrightarrow> bit (concat (map (to_le 8) (fmt_bitmap ?a)) ! (j div 8)) (j mod 8)" using True by (intro used_bit_bytes) simp
    then show ?thesis using used_fmt_bitmap[OF True] l by (simp add: nth_append) (simp add: fmt_cbm_bytes_def)
  next
    case False
    then have "\<not> j div 8 < bitmap_bits ?a div 8" using bitmap_bits(3)[of ?a] by linarith
    moreover have "\<not> j < ?a" using False bitmap_bits(1)[of ?a] by linarith
    ultimately show ?thesis using jq by (simp add: nth_append)
  qed
  finally show ?thesis .
qed

section \<open>Mounting\<close>

text \<open>The device reports a capacity that holds \<open>v\<close> bytes.\<close>

definition capacity_covers :: "'s storage \<Rightarrow> ('s \<Rightarrow> bool) \<Rightarrow> ('s \<Rightarrow> u64) \<Rightarrow> ('s \<Rightarrow> int \<times> u64 \<times> 's) \<Rightarrow> nat \<Rightarrow> bool" where
  "capacity_covers ops dev_ok ms_blocks sata_blocks v \<longleftrightarrow>
     (\<forall>s dev s'. dev_ok s \<longrightarrow> exfat_open ops ms_blocks sata_blocks True False EXFAT_MODE_RW s = (Some dev, s') \<longrightarrow> int v \<le> sint (dev_size dev))"

lemma strstr_loop_empty [simp]: "option_loop ends [] (c # cs) 0 = None"
  by (simp add: option_loop.simps strstr_def)

lemma no_options [simp]:
  "\<not> exfat_match_option [] (opt ''ro'')" "\<not> exfat_match_option [] (opt ''ro_fallback'')" "\<not> exfat_match_option [] (opt ''noatime'')"
  "get_int_option [] (opt ''umask'') b d = d" "get_int_option [] (opt ''dmask'') b d = d" "get_int_option [] (opt ''fmask'') b d = d" "get_int_option [] (opt ''repair'') b d = d"
  by (simp_all add: exfat_match_option_def get_int_option_def get_option_def opt_def)

text \<open>The state behind the allocations of the mount: the device is open, nothing is loaded.\<close>

definition opened :: "'s exfat_io \<Rightarrow> exfat_dev \<Rightarrow> exfat_super_block \<Rightarrow> u64 \<Rightarrow> 's exfat_fs \<Rightarrow> 's exfat_fs" where
  "opened io dev b h st = (parse_options [] (zero_fs st))\<lparr>fs_dev := Some dev, fs_heap := h, fs_ef := (fs_ef (parse_options [] (zero_fs st)))\<lparr>ef_io := io, ef_sb := b\<rparr>\<rparr>"

lemma exfat_mount_volume:
  assumes dev: "block_device ops sect dev_ok lbas" and cap: "capacity_keeps sect dev_ok sata_blocks" and covers: "capacity_covers ops dev_ok ms_blocks sata_blocks v"
    and vol: "{..<v} \<subseteq> vol_bytes lbas P" and fm: "disk_formatted p v (vol_byte sect (ef_io (fs_ef st)))" and io: "io_ok dev_ok P (ef_io (fs_ef st))" and h: "fs_heap st = 0"
  obtains io1 d where "exfat_mount ops ms_blocks sata_blocks False [] st = mount_volume ops d (opened io1 d (fmt_sb p) 536 st)"
    "io_ok dev_ok P io1" "vol_byte sect io1 = vol_byte sect (ef_io (fs_ef st))" "int v \<le> sint (dev_size d)"
proof -
  have p: "fmt_params p v" "fmt_fits v" using fm by (auto simp: disk_formatted_def)
  let ?io = "ef_io (fs_ef st)"
  have D: "dev_ok (io_disk ?io)" using io by (simp add: io_ok_def)
  obtain d s where o: "exfat_open ops ms_blocks sata_blocks True False EXFAT_MODE_RW (io_disk ?io) = (Some d, s)" "dev_ok s" "sect s = sect (io_disk ?io)" "dev_mode d = EXFAT_MODE_RW"
    by (rule exfat_open_ok[OF cap D, of ops ms_blocks EXFAT_MODE_RW])
  have c: "int v \<le> sint (dev_size d)" using covers D o(1) unfolding capacity_covers_def by blast
  let ?io1 = "?io\<lparr>io_disk := s\<rparr>"
  have i1: "io_ok dev_ok P ?io1" using io o(2) by (simp add: io_ok_disk)
  have f1: "vol_byte sect ?io1 = vol_byte sect ?io" by (rule vol_byte_disk[OF o(3)])
  have "6144 \<le> v" using fmt_order[OF p(2)] by linarith
  then have "{0..<6144} \<subseteq> vol_bytes lbas P" using vol by (auto simp: subset_iff)
  then obtain io2 where r: "exfat_pread ops (replicate 512 0) 0 512 0 ?io1 = Some (512, buf_put (replicate 512 0) 0 (map (vol_byte sect ?io1) [0..<512]), io2)"
    "io_ok dev_ok P io2" "vol_byte sect io2 = vol_byte sect ?io1"
    using byte_volume.sector_read[OF block_device.volume_contract[OF dev] i1, of 0 "replicate 512 0"] by auto
  have "map (vol_byte sect ?io1) [0..<512] = sb_bytes (fmt_sb p)" using formatted_sector[OF fm, of 0] f1 by (simp add: vbr_sectors_def)
  then have b: "sb_of (buf_put (replicate 512 0) 0 (map (vol_byte sect ?io1) [0..<512])) = fmt_sb p"
    using init_sb_ok(2)[OF p] by (simp add: buf_put_def sb_of_bytes)
  have "exfat_mount ops ms_blocks sata_blocks False [] st = mount_volume ops d (opened io2 d (fmt_sb p) 536 st)"
    using o(1,4) r(1) b h by (simp add: exfat_mount_def opened_def alloc_def exfat_malloc_def parse_options_def zero_fs_def Let_def)
  then show thesis using that r(2,3) f1 c by simp
qed

lemma opened_simps [simp]:
  "ef_io (fs_ef (opened io d b h st)) = io" "ef_sb (fs_ef (opened io d b h st)) = b" "fs_heap (opened io d b h st) = h" "fs_upcase (opened io d b h st) = None"
  "fs_dev (opened io d b h st) = Some d" "ef_ro (fs_ef (opened io d b h st)) = False" "cmap_dirty (fs_ef (opened io d b h st)) = False"
  by (simp_all add: opened_def parse_options_def zero_fs_def)

text \<open>The volume the driver has mounted: an empty root directory, the three system files, everything else free.\<close>

definition fresh_mount :: "mkfs_param \<Rightarrow> nat \<Rightarrow> 's exfat_fs \<Rightarrow> bool" where
  "fresh_mount p v st \<longleftrightarrow> fs_upcase st = Some fmt_upcase \<and> \<not> ef_ro (fs_ef st) \<and> \<not> cmap_dirty (fs_ef st) \<and>
     (\<forall>j < unat (sb_cluster_count (fmt_sb p)). used (fs_ef st) j \<longleftrightarrow> j < fmt_allocated v) \<and>
     (\<exists>r t. fs_root st = Some r \<and> fs_nodes st r = Some t \<and> tn_cached t \<and> tn_child t = None \<and> nd_references (tn_node t) = 1 \<and>
        start_cluster (tn_node t) = sb_rootdir_cluster (fmt_sb p) \<and> nd_size (tn_node t) = 4096 \<and> tn_name t = replicate 256 0)"

lemma exfat_mount_formatted:
  assumes dev: "block_device ops sect dev_ok lbas" and cap: "capacity_keeps sect dev_ok sata_blocks" and covers: "capacity_covers ops dev_ok ms_blocks sata_blocks v"
    and vol: "{..<v} \<subseteq> vol_bytes lbas P" and fm: "disk_formatted p v (vol_byte sect (ef_io (fs_ef st)))" and io: "io_ok dev_ok P (ef_io (fs_ef st))" and h: "fs_heap st = 0"
    and n: "BMAP_SIZE (unat (sb_cluster_count (fmt_sb p))) + 142169 \<le> 2 * 1024 * 1024"
  shows "\<exists>st'. exfat_mount ops ms_blocks sata_blocks False [] st = Some (0, st') \<and> exfat_mounted dev_ok P (fmt_sb p) (fs_ef st') \<and> fresh_mount p v st' \<and>
    vol_byte sect (ef_io (fs_ef st')) = vol_byte sect (ef_io (fs_ef st))"
proof -
  have p: "fmt_params p v" "fmt_fits v" using fm by (auto simp: disk_formatted_def)
  let ?f = "vol_byte sect (ef_io (fs_ef st))" and ?n = "BMAP_SIZE (unat (sb_cluster_count (fmt_sb p)))" and ?sb = "fmt_sb p"
  have g: "geometry ?sb (vol_bytes lbas P)" by (rule fmt_geometry[OF p vol])
  have E: "exfat_volume ops (vol_byte sect) (io_ok dev_ok P) (vol_bytes lbas P) ?sb" by (rule exfat_on_block_device[OF dev g])
  obtain io1 d where m: "exfat_mount ops ms_blocks sata_blocks False [] st = mount_volume ops d (opened io1 d ?sb 536 st)"
    "io_ok dev_ok P io1" "vol_byte sect io1 = ?f" "int v \<le> sint (dev_size d)" by (rule exfat_mount_volume[OF dev cap covers vol fm io h])
  let ?o = "opened io1 d ?sb 536 st" and ?t = "exfat_volume.fmt_root_node ?sb"
  note t = exfat_volume.fmt_root_node_ok[OF E p refl]
  have "\<exists>io. mount_volume ops d ?o = mount_tree ops 4632 ((put_tn 4632 ?t ?o)\<lparr>fs_ef := (fs_ef ?o)\<lparr>ef_io := io, zero_cluster := replicate 4096 0\<rparr>, fs_root := Some 4632, fs_heap := 5240\<rparr>) \<and>
      io_ok dev_ok P io \<and> vol_byte sect io = ?f"
    by (rule exfat_volume.mount_volume_formatted[OF E fm refl vol]) (use m in auto)
  then obtain io2 where r: "mount_volume ops d ?o = mount_tree ops 4632 ((put_tn 4632 ?t ?o)\<lparr>fs_ef := (fs_ef ?o)\<lparr>ef_io := io2, zero_cluster := replicate 4096 0\<rparr>, fs_root := Some 4632, fs_heap := 5240\<rparr>)"
    "io_ok dev_ok P io2" "vol_byte sect io2 = ?f" by blast
  let ?s = "(put_tn 4632 ?t ?o)\<lparr>fs_ef := (fs_ef ?o)\<lparr>ef_io := io2, zero_cluster := replicate 4096 0\<rparr>, fs_root := Some 4632, fs_heap := 5240\<rparr>"
  have "\<exists>io st'. mount_tree ops 4632 ?s = Some (0, st') \<and> fs_root st' = fs_root ?s \<and> fs_dev st' = fs_dev ?s \<and> fs_upcase st' = Some fmt_upcase \<and>
    fs_ef st' = exfat_volume.bitmap_ef ?sb (map ?f [fmt_cbm v..<fmt_cbm v + ?n]) io (fs_ef ?s) \<and> io_ok dev_ok P io \<and> vol_byte sect io = ?f \<and>
    fs_nodes st' 4632 = Some (?t\<lparr>tn_node := (tn_node ?t)\<lparr>nd_references := nd_references (tn_node ?t) + 1\<rparr>, tn_cached := True\<rparr>)"
    by (rule exfat_volume.mount_tree_formatted[OF E fm refl vol]) (use t r n in \<open>auto simp: put_tn_def\<close>)
  then obtain io st' where x: "mount_tree ops 4632 ?s = Some (0, st')" "fs_root st' = Some 4632" "fs_upcase st' = Some fmt_upcase"
    "fs_ef st' = exfat_volume.bitmap_ef ?sb (map ?f [fmt_cbm v..<fmt_cbm v + ?n]) io (fs_ef ?s)" "io_ok dev_ok P io" "vol_byte sect io = ?f"
    "fs_nodes st' 4632 = Some (?t\<lparr>tn_node := (tn_node ?t)\<lparr>nd_references := nd_references (tn_node ?t) + 1\<rparr>, tn_cached := True\<rparr>)" by auto
  have e: "fs_ef st' = (fs_ef ?o)\<lparr>ef_io := io, zero_cluster := replicate 4096 0, cmap_start_cluster := 2, cmap_size := sb_cluster_count ?sb, cmap_chunk_size := sb_cluster_count ?sb,
     cmap_chunk := words_of (map ?f [fmt_cbm v..<fmt_cbm v + ?n]) (?n div 8)\<rparr>" unfolding x(4) exfat_volume.bitmap_ef_def[OF E] by simp
  have "unat (sb_cluster_count ?sb) \<le> 64 * (?n div 8)" "sb_cluster_count ?sb \<le> 0xFFFFFFF5"
    using g by (auto simp: BMAP_SIZE_def geometry_def word_le_nat_alt)
  then have "exfat_mounted dev_ok P ?sb (fs_ef st')" unfolding e exfat_volume.mounted_def[OF E] exfat_volume.vol_ok_def[OF E] map_ok_def
    using x(5) fmt_clus_size[OF p] by simp
  moreover have "fresh_mount p v st'" unfolding fresh_mount_def using x(2,3,7) t used_formatted[OF fm refl]
    by (simp add: e exfat_volume.fmt_root_node_def[OF E] root_node_def zero_node_def)
  ultimately show ?thesis using m(1) r(1) x(1,6) e by auto
qed

lemma bmap_size_bound: "BMAP_SIZE (unat (sb_cluster_count (fmt_sb p))) \<le> v div 32768 + 8" if "fmt_params p v" "fmt_fits v"
proof -
  have "unat (sb_cluster_count (fmt_sb p)) \<le> v div 4096" unfolding fmt_count(1)[OF that] by (rule div_le_mono) simp
  then have "BMAP_SIZE (unat (sb_cluster_count (fmt_sb p))) \<le> (v div 4096 + 63) div 64 * 8" unfolding BMAP_SIZE_def by (simp add: div_le_mono)
  also have "\<dots> \<le> v div 4096 div 8 + 8" by linarith
  also have "v div 4096 div 8 = v div 32768" by (simp add: div_mult2_eq[symmetric])
  finally show ?thesis .
qed

end
