(* ===== verification/Exfat_Port_Model.thy ===== *)
theory Exfat_Port_Model
  imports Exfat_Mount_Model
begin

text \<open>
  The interface of the exFAT port, \<^verbatim>\<open>fs/exfat/exfat.c\<close>: one mounted volume in a global, and the operations
  the boot loader and the installer call.  Strings are lists of bytes without the terminator; \<open>None\<close> for a pointer argument is the
  null pointer.
\<close>

section \<open>State\<close>

record 's exfat_port =
  g_ef :: "'s exfat_fs"
  g_initialized :: bool

record exfat_file_info =
  fi_valid :: bool
  fi_size :: u64
  fi_is_directory :: bool
  fi_first_cluster :: u32

definition is_dir :: "tree_node \<Rightarrow> bool" where
  "is_dir t \<longleftrightarrow> nd_attrib (tn_node t) AND EXFAT_ATTRIB_DIR \<noteq> 0"

text \<open>A call of the library on the mounted volume.\<close>

definition on_ef :: "('s exfat_fs \<Rightarrow> ('a \<times> 's exfat_fs) option) \<Rightarrow> 's exfat_port \<Rightarrow> ('a \<times> 's exfat_port) option" where
  "on_ef f st = map_option (\<lambda>(r, fs). (r, st\<lparr>g_ef := fs\<rparr>)) (f (g_ef st))"

section \<open>Directories by cluster\<close>

definition temp_root :: "u32 \<Rightarrow> tree_node" where
  "temp_root cluster = zero_node\<lparr>tn_node := (tn_node zero_node)\<lparr>nd_attrib := EXFAT_ATTRIB_DIR, start_cluster := cluster, fptr_cluster := cluster\<rparr>\<rparr>"

text \<open>A call with a temporary root; \<open>fail\<close> is the result without memory.\<close>

definition with_temp_root :: "'a \<Rightarrow> u32 \<Rightarrow> ('s exfat_fs \<Rightarrow> ('a \<times> 's exfat_fs) option) \<Rightarrow> 's exfat_fs \<Rightarrow> ('a \<times> 's exfat_fs) option" where
  "with_temp_root fail cluster f st =
     (case alloc 608 st of
        (None, st) \<Rightarrow> Some (fail, st)
      | (Some temp, st) \<Rightarrow> do { (r, st1) \<leftarrow> f ((put_tn temp (temp_root cluster) st)\<lparr>fs_root := Some temp\<rparr>); Some (r, st1\<lparr>fs_root := fs_root st\<rparr>) })"

definition lookup_in_cluster :: "'s storage \<Rightarrow> u32 \<Rightarrow> bytes \<Rightarrow> 's exfat_fs \<Rightarrow> ((int \<times> node_ptr) \<times> 's exfat_fs) option" where
  "lookup_in_cluster ops cluster path st = with_temp_root (-ENOMEM, None) cluster (exfat_lookup ops path) st"

section \<open>Mounting and directories\<close>

definition exfat_init :: "'s storage \<Rightarrow> ('s \<Rightarrow> u64) \<Rightarrow> ('s \<Rightarrow> int \<times> u64 \<times> 's) \<Rightarrow> 's exfat_port \<Rightarrow> (int \<times> 's exfat_port) option" where
  "exfat_init ops ms_blocks sata_blocks st =
     (if \<not> block_is_present ops (io_disk (ef_io (fs_ef (g_ef st)))) then Some (-1, st)
      else do {
        (rc, fs) \<leftarrow> exfat_mount ops ms_blocks sata_blocks False [] (zero_fs (g_ef st));
        if rc \<noteq> 0 then Some (-1, st\<lparr>g_ef := fs\<rparr>) else Some (0, st\<lparr>g_ef := fs, g_initialized := True\<rparr>)
      })"

definition exfat_create_directory :: "'s storage \<Rightarrow> bytes \<Rightarrow> 's exfat_port \<Rightarrow> (int \<times> 's exfat_port) option" where
  "exfat_create_directory ops dirname st = (if \<not> g_initialized st then Some (-1, st) else on_ef (exfat_mkdir ops dirname) st)"

text \<open>One directory per component; the buffer for the prefix has 8160 bytes.\<close>

function dir_path_loop :: "'s storage \<Rightarrow> bytes \<Rightarrow> nat \<Rightarrow> 's exfat_fs \<Rightarrow> (int \<times> 's exfat_fs) option" where
  "dir_path_loop ops path idx st =
     (if idx < length path then
        let i = length (takeWhile (\<lambda>c. c \<noteq> 0x2f) (drop idx path)); e = idx + i in
        if i > 0 then
          if e \<ge> EXFAT_NAME_MAX * 32 then None
          else
            case exfat_mkdir ops (take e path) st of
              None \<Rightarrow> None
            | Some (rc, st) \<Rightarrow> if rc \<noteq> 0 \<and> rc \<noteq> -EEXIST then Some (-1, st) else dir_path_loop ops path (e + 1) st
        else dir_path_loop ops path (e + 1) st
      else Some (0, st))"
  by pat_completeness auto
termination by (relation "measure (\<lambda>(ops, path, idx, st). length path - idx)") auto

declare dir_path_loop.simps [simp del]

definition exfat_create_dir_path :: "'s storage \<Rightarrow> ('s \<Rightarrow> u64) \<Rightarrow> ('s \<Rightarrow> int \<times> u64 \<times> 's) \<Rightarrow> bytes \<Rightarrow> 's exfat_port \<Rightarrow> (int \<times> 's exfat_port) option" where
  "exfat_create_dir_path ops ms_blocks sata_blocks path st =
     (if \<not> g_initialized st then Some (-1, st)
      else do {
        (rc, fs) \<leftarrow> dir_path_loop ops path 0 (g_ef st);
        if rc \<noteq> 0 then Some (-1, st\<lparr>g_ef := fs\<rparr>)
        else do {
          fs \<leftarrow> exfat_unmount ops fs;
          (rc, fs) \<leftarrow> exfat_mount ops ms_blocks sata_blocks False [] (zero_fs fs);
          if rc \<noteq> 0 then Some (-1, st\<lparr>g_ef := fs, g_initialized := False\<rparr>) else Some (0, st\<lparr>g_ef := fs\<rparr>)
        }
      })"

section \<open>Files\<close>

text \<open>What a lookup reports to the caller.\<close>

definition file_info :: "(int \<times> node_ptr) \<Rightarrow> exfat_file_info \<Rightarrow> 's exfat_fs \<Rightarrow> ((int \<times> exfat_file_info option) \<times> 's exfat_fs) option" where
  "file_info r info st =
     (case r of
        (rc, node) \<Rightarrow>
          if rc \<noteq> 0 then Some ((-1, Some (info\<lparr>fi_valid := False\<rparr>)), st)
          else do {
            i \<leftarrow> node;
            t \<leftarrow> fs_nodes st i;
            st \<leftarrow> exfat_put_node i st;
            Some ((0, Some \<lparr>fi_valid = True, fi_size = nd_size (tn_node t), fi_is_directory = is_dir t, fi_first_cluster = start_cluster (tn_node t)\<rparr>), st)
          })"

definition exfat_get_file_info :: "'s storage \<Rightarrow> bytes \<Rightarrow> exfat_file_info option \<Rightarrow> 's exfat_port \<Rightarrow> ((int \<times> exfat_file_info option) \<times> 's exfat_port) option" where
  "exfat_get_file_info ops path info st =
     (case info of
        Some old \<Rightarrow>
          if \<not> g_initialized st then Some ((-1, info), st)
          else on_ef (\<lambda>fs. do { (r, fs) \<leftarrow> exfat_lookup ops path fs; file_info r old fs }) st
      | None \<Rightarrow> Some ((-1, info), st))"

definition exfat_get_file_info_in :: "'s storage \<Rightarrow> u32 \<Rightarrow> bytes \<Rightarrow> exfat_file_info option \<Rightarrow> 's exfat_port \<Rightarrow> ((int \<times> exfat_file_info option) \<times> 's exfat_port) option" where
  "exfat_get_file_info_in ops parent_cluster name info st =
     (case info of
        Some old \<Rightarrow>
          if \<not> g_initialized st then Some ((-1, info), st)
          else on_ef (\<lambda>fs. do { (r, fs) \<leftarrow> lookup_in_cluster ops parent_cluster name fs; file_info r old fs }) st
      | None \<Rightarrow> Some ((-1, info), st))"

text \<open>The contents of a node become \<open>data\<close>.\<close>

definition replace_contents :: "'s storage \<Rightarrow> u64 \<Rightarrow> bytes \<Rightarrow> u32 \<Rightarrow> 's exfat_fs \<Rightarrow> (int \<times> 's exfat_fs) option" where
  "replace_contents ops i data n st =
     do {
       t \<leftarrow> fs_nodes st i;
       if is_dir t then put_and i (-1) st
       else do {
         (rc, st) \<leftarrow> on_node i (exfat_truncate ops (ucast n) True) st;
         if rc \<noteq> 0 then put_and i (-1) st
         else do {
           (written, st) \<leftarrow> on_node i (exfat_generic_pwrite ops data (ucast n) 0) st;
           (rc, st) \<leftarrow> exfat_flush_node ops i st;
           put_and i (if written = uint n then 0 else -1) st
         }
       }
     }"

text \<open>Finds the node, or makes it and finds it then.\<close>

definition open_or_create :: "('s exfat_fs \<Rightarrow> ((int \<times> node_ptr) \<times> 's exfat_fs) option) \<Rightarrow> ('s exfat_fs \<Rightarrow> (int \<times> 's exfat_fs) option) \<Rightarrow> 's exfat_fs \<Rightarrow> (node_ptr option \<times> 's exfat_fs) option" where
  "open_or_create look create st =
     do {
       ((rc, node), st) \<leftarrow> look st;
       if rc = 0 then Some (Some node, st)
       else do {
         (rc, st) \<leftarrow> create st;
         if rc \<noteq> 0 then Some (None, st)
         else do { ((rc, node), st) \<leftarrow> look st; Some (if rc \<noteq> 0 then None else Some node, st) }
       }
     }"

definition write_found :: "'s storage \<Rightarrow> bytes \<Rightarrow> u32 \<Rightarrow> (node_ptr option \<times> 's exfat_fs) option \<Rightarrow> (int \<times> 's exfat_fs) option" where
  "write_found ops data n r =
     (case r of
        None \<Rightarrow> None
      | Some (None, st) \<Rightarrow> Some (-1, st)
      | Some (Some node, st) \<Rightarrow> do { i \<leftarrow> node; replace_contents ops i data n st })"

definition exfat_write_file :: "'s storage \<Rightarrow> bytes \<Rightarrow> bytes \<Rightarrow> u32 \<Rightarrow> 's exfat_port \<Rightarrow> (int \<times> 's exfat_port) option" where
  "exfat_write_file ops name data n st =
     (if \<not> g_initialized st then Some (-1, st)
      else on_ef (\<lambda>fs. write_found ops data n (open_or_create (exfat_lookup ops name) (exfat_mknod ops name) fs)) st)"

definition exfat_write_file_in :: "'s storage \<Rightarrow> u32 \<Rightarrow> bytes \<Rightarrow> bytes \<Rightarrow> u32 \<Rightarrow> 's exfat_port \<Rightarrow> (int \<times> 's exfat_port) option" where
  "exfat_write_file_in ops parent_cluster name data n st =
     (if \<not> g_initialized st then Some (-1, st)
      else on_ef (\<lambda>fs. write_found ops data n
             (open_or_create (lookup_in_cluster ops parent_cluster name) (with_temp_root (-1) parent_cluster (exfat_mknod ops name)) fs)) st)"

definition exfat_read_file :: "'s storage \<Rightarrow> bytes option \<Rightarrow> bytes option \<Rightarrow> u32 \<Rightarrow> bool \<Rightarrow> 's exfat_port \<Rightarrow> ((int \<times> bytes option \<times> u32) \<times> 's exfat_port) option" where
  "exfat_read_file ops filename buffer max_size counted st =
     (case (filename, buffer) of
        (Some name, Some buf) \<Rightarrow>
          if \<not> g_initialized st \<or> max_size = 0 \<or> \<not> counted then Some ((-1, buffer, 0), st)
          else on_ef (\<lambda>fs. do {
                 ((rc, node), fs) \<leftarrow> exfat_lookup ops name fs;
                 if rc \<noteq> 0 then Some ((-1, buffer, 0), fs)
                 else do {
                   i \<leftarrow> node;
                   t \<leftarrow> fs_nodes fs i;
                   if is_dir t then do { fs \<leftarrow> exfat_put_node i fs; Some ((-1, buffer, 0), fs) }
                   else do {
                     let size64 = nd_size (tn_node t);
                     let to_read = (if size64 < ucast max_size then ucast size64 else max_size);
                     ((r, buf), fs) \<leftarrow> on_node i (\<lambda>nd ef. do { (r, buf, nd, ef) \<leftarrow> exfat_generic_pread ops nd buf 0 (ucast to_read) 0 ef; Some ((r, buf), nd, ef) }) fs;
                     fs \<leftarrow> exfat_put_node i fs;
                     Some (if r \<le> 0 then (-1, Some buf, 0) else (0, Some buf, word_of_int r), fs)
                   }
                 }
               }) st
      | _ \<Rightarrow> Some ((-1, buffer, 0), st))"

text \<open>The files the callback is shown: the name up to its terminator, the size and whether it is a directory.\<close>

partial_function (option) list_files_loop :: "exfat_iterator \<Rightarrow> (bytes \<times> u64 \<times> bool) list \<Rightarrow> 's exfat_fs \<Rightarrow> (((bytes \<times> u64 \<times> bool) list \<times> exfat_iterator) \<times> 's exfat_fs) option" where
  "list_files_loop it shown st =
     do {
       ((node, it), st) \<leftarrow> exfat_readdir it st;
       case node of
         None \<Rightarrow> Some ((shown, it), st)
       | Some i \<Rightarrow>
           do {
             t \<leftarrow> fs_nodes st i;
             name \<leftarrow> exfat_get_name (tn_name t);
             st \<leftarrow> exfat_put_node i st;
             list_files_loop it (shown @ [(takeWhile (\<lambda>c. c \<noteq> 0) name, nd_size (tn_node t), is_dir t)]) st
           }
     }"

definition exfat_list_files :: "'s storage \<Rightarrow> bool \<Rightarrow> 's exfat_port \<Rightarrow> ((int \<times> (bytes \<times> u64 \<times> bool) list) \<times> 's exfat_port) option" where
  "exfat_list_files ops callback st =
     (case fs_root (g_ef st) of
        Some root \<Rightarrow>
          if \<not> g_initialized st \<or> \<not> callback then Some ((-1, []), st)
          else on_ef (\<lambda>fs. do {
                 ((rc, it), fs) \<leftarrow> exfat_opendir ops root fs;
                 if rc \<noteq> 0 then Some ((-1, []), fs)
                 else do { ((shown, it), fs) \<leftarrow> list_files_loop it [] fs; fs \<leftarrow> exfat_closedir it fs; Some ((0, shown), fs) }
               }) st
      | None \<Rightarrow> Some ((-1, []), st))"

end
