(* ===== verification/Exfat_Tree.thy ===== *)
theory Exfat_Tree
  imports Exfat_Port_Model
begin

text \<open>
  The tree of nodes.  The children of a directory are a doubly linked list in the store of nodes; the relation \<open>children\<close>
  gives the list it stands for, and attaching, detaching, looking up and listing are operations on that list.
\<close>

section \<open>Sibling lists\<close>

text \<open>The links from \<open>q\<close>, whose predecessor is \<open>p\<close>, lead through the nodes \<open>xs\<close> to \<open>q'\<close>, whose predecessor is \<open>p'\<close>.\<close>

fun linked_path :: "(u64 \<rightharpoonup> tree_node) \<Rightarrow> u64 \<Rightarrow> node_ptr \<Rightarrow> node_ptr \<Rightarrow> u64 list \<Rightarrow> node_ptr \<Rightarrow> node_ptr \<Rightarrow> bool" where
  "linked_path N d p q [] p' q' \<longleftrightarrow> p' = p \<and> q' = q"
| "linked_path N d p q (i # xs) p' q' \<longleftrightarrow>
     q = Some i \<and> (\<exists>t. N i = Some t \<and> tn_parent t = Some d \<and> tn_prev t = p \<and> linked_path N d (Some i) (tn_next t) xs p' q')"

definition children :: "'s exfat_fs \<Rightarrow> u64 \<Rightarrow> u64 list \<Rightarrow> bool" where
  "children st d xs \<longleftrightarrow> (\<exists>t p. fs_nodes st d = Some t \<and> linked_path (fs_nodes st) d None (tn_child t) xs p None) \<and> distinct xs \<and> d \<notin> set xs"

lemma linked_path_append: "linked_path N d p q (xs @ ys) p' q' \<longleftrightarrow> (\<exists>pm qm. linked_path N d p q xs pm qm \<and> linked_path N d pm qm ys p' q')"
  by (induction xs arbitrary: p q) auto

text \<open>Only the links of the members matter.\<close>

definition same_links :: "tree_node \<Rightarrow> tree_node \<Rightarrow> bool" where
  "same_links t u \<longleftrightarrow> tn_parent u = tn_parent t \<and> tn_prev u = tn_prev t \<and> tn_next u = tn_next t"

lemma linked_path_cong:
  assumes "linked_path N d p q xs p' q'" "\<And>i t. i \<in> set xs \<Longrightarrow> N i = Some t \<Longrightarrow> \<exists>u. N' i = Some u \<and> same_links t u"
  shows "linked_path N' d p q xs p' q'"
  using assms
proof (induction xs arbitrary: p q)
  case (Cons i xs)
  obtain t where t: "q = Some i" "N i = Some t" "tn_parent t = Some d" "tn_prev t = p" "linked_path N d (Some i) (tn_next t) xs p' q'" using Cons.prems(1) by auto
  obtain u where u: "N' i = Some u" "same_links t u" using Cons.prems(2)[of i t] t(2) by auto
  have "linked_path N' d (Some i) (tn_next t) xs p' q'" by (rule Cons.IH[OF t(5)]) (use Cons.prems(2) in auto)
  then show ?case using t u by (auto simp: same_links_def)
qed simp

lemma linked_path_upd: "linked_path N d p q xs p' q' \<Longrightarrow> i \<notin> set xs \<Longrightarrow> linked_path (N(i := x)) d p q xs p' q'"
  by (erule linked_path_cong) (auto simp: same_links_def)

lemma linked_path_member: "linked_path N d p q xs p' q' \<Longrightarrow> i \<in> set xs \<Longrightarrow> \<exists>t. N i = Some t \<and> tn_parent t = Some d"
  by (induction xs arbitrary: p q) auto

text \<open>Changing the predecessor of the first node, and the successor of the last.\<close>

definition first_prev :: "node_ptr \<Rightarrow> node_ptr \<Rightarrow> (u64 \<rightharpoonup> tree_node) \<Rightarrow> u64 \<rightharpoonup> tree_node" where
  "first_prev q p N = (case q of None \<Rightarrow> N | Some b \<Rightarrow> N(b := map_option (\<lambda>t. t\<lparr>tn_prev := p\<rparr>) (N b)))"

definition last_next :: "node_ptr \<Rightarrow> node_ptr \<Rightarrow> (u64 \<rightharpoonup> tree_node) \<Rightarrow> u64 \<rightharpoonup> tree_node" where
  "last_next p q N = (case p of None \<Rightarrow> N | Some a \<Rightarrow> N(a := map_option (\<lambda>t. t\<lparr>tn_next := q\<rparr>) (N a)))"

lemma linked_path_first:
  assumes "linked_path N d p q xs p' None" "distinct xs"
  shows "\<exists>p'. linked_path (first_prev q p2 N) d p2 q xs p' None"
proof (cases xs)
  case Nil
  then show ?thesis using assms by (auto simp: first_prev_def)
next
  case (Cons b bs)
  then obtain t where t: "q = Some b" "N b = Some t" "tn_parent t = Some d" "linked_path N d (Some b) (tn_next t) bs p' None" using assms(1) by auto
  have "linked_path (N(b \<mapsto> t\<lparr>tn_prev := p2\<rparr>)) d (Some b) (tn_next t) bs p' None" by (rule linked_path_upd[OF t(4)]) (use assms(2) Cons in auto)
  then show ?thesis using t Cons by (auto simp: first_prev_def)
qed

lemma linked_path_last:
  assumes "linked_path N d None q xs p' q'" "distinct xs"
  shows "linked_path (last_next p' q2 N) d None (if xs = [] then q2 else q) xs p' q2"
proof (cases xs rule: rev_cases)
  case Nil
  then show ?thesis using assms by (auto simp: last_next_def)
next
  case (snoc as a)
  then obtain p t where t: "linked_path N d None q as p (Some a)" "N a = Some t" "tn_parent t = Some d" "tn_prev t = p" "p' = Some a" using assms(1) by (auto simp: linked_path_append)
  have "linked_path (N(a \<mapsto> t\<lparr>tn_next := q2\<rparr>)) d None q as p (Some a)" by (rule linked_path_upd[OF t(1)]) (use assms(2) snoc in auto)
  then show ?thesis using t snoc by (auto simp: last_next_def linked_path_append)
qed

section \<open>Attaching and detaching\<close>

text \<open>What attaching or detaching \<open>i\<close> leaves alone: the links of all nodes but those of the list \<open>xs\<close>, and the first child of all directories but \<open>d\<close>.\<close>

definition links_kept :: "u64 \<Rightarrow> u64 list \<Rightarrow> u64 \<Rightarrow> 's exfat_fs \<Rightarrow> 's exfat_fs \<Rightarrow> bool" where
  "links_kept i xs d st st' \<longleftrightarrow> (\<forall>k u. k \<noteq> i \<and> fs_nodes st k = Some u \<longrightarrow>
     (\<exists>u'. fs_nodes st' k = Some u' \<and> (k \<notin> set xs \<longrightarrow> same_links u u') \<and> (k \<noteq> d \<longrightarrow> tn_child u' = tn_child u)))"

lemma links_keptD:
  "links_kept i xs d st st' \<Longrightarrow> k \<noteq> i \<Longrightarrow> fs_nodes st k = Some u \<Longrightarrow>
   \<exists>u'. fs_nodes st' k = Some u' \<and> (k \<notin> set xs \<longrightarrow> same_links u u') \<and> (k \<noteq> d \<longrightarrow> tn_child u' = tn_child u)"
  by (auto simp: links_kept_def)

lemma children_frame:
  assumes "children st d xs" "\<And>i t. i \<in> set xs \<Longrightarrow> fs_nodes st i = Some t \<Longrightarrow> \<exists>u. fs_nodes st' i = Some u \<and> same_links t u"
    "\<And>t. fs_nodes st d = Some t \<Longrightarrow> \<exists>u. fs_nodes st' d = Some u \<and> tn_child u = tn_child t"
  shows "children st' d xs"
proof -
  obtain t p where t: "fs_nodes st d = Some t" "linked_path (fs_nodes st) d None (tn_child t) xs p None" "distinct xs" "d \<notin> set xs" using assms(1) by (auto simp: children_def)
  obtain u where u: "fs_nodes st' d = Some u" "tn_child u = tn_child t" using assms(3)[OF t(1)] by blast
  have "linked_path (fs_nodes st') d None (tn_child t) xs p None" by (rule linked_path_cong[OF t(2) assms(2)])
  then show ?thesis using t u by (auto simp: children_def)
qed

lemma tree_attach_children:
  assumes "children st d xs" "fs_nodes st i = Some t" "tn_prev t = None" "tn_next t = None" "i \<noteq> d" "i \<notin> set xs"
  obtains st' where "tree_attach d i st = Some st'" "children st' d (i # xs)"
    "links_kept i xs d st st'"
proof -
  obtain td p where d: "fs_nodes st d = Some td" "linked_path (fs_nodes st) d None (tn_child td) xs p None" "distinct xs" "d \<notin> set xs" using assms(1) by (auto simp: children_def)
  let ?M = "fs_nodes st" and ?q = "tn_child td"
  let ?N = "(first_prev ?q (Some i) ?M)(i \<mapsto> t\<lparr>tn_parent := Some d, tn_next := ?q\<rparr>, d \<mapsto> td\<lparr>tn_child := Some i\<rparr>)"
  have q: "?q = (case xs of [] \<Rightarrow> None | x # _ \<Rightarrow> Some x)" using d(2) by (cases xs) auto
  have a: "tree_attach d i st = Some (st\<lparr>fs_nodes := ?N\<rparr>)"
  proof (cases xs)
    case Nil
    have "t\<lparr>tn_parent := Some d, tn_next := None\<rparr> = t\<lparr>tn_parent := Some d\<rparr>" using assms(4) by (cases t) simp
    then show ?thesis using Nil q assms(2,5) d(1) by (simp add: tree_attach_def change_tn_def put_tn_def first_prev_def)
  next
    case (Cons b bs)
    obtain tb where tb: "?M b = Some tb" using d(2) Cons by auto
    have ne: "b \<noteq> i" "b \<noteq> d" "i \<noteq> b" "d \<noteq> b" "d \<noteq> i" using Cons assms(5,6) d(4) by auto
    have "tree_attach d i st = Some (st\<lparr>fs_nodes := ?M(i \<mapsto> t\<lparr>tn_parent := Some d\<rparr>, b \<mapsto> tb\<lparr>tn_prev := Some i\<rparr>, i \<mapsto> t\<lparr>tn_parent := Some d, tn_next := Some b\<rparr>, d \<mapsto> td\<lparr>tn_child := Some i\<rparr>)\<rparr>)"
      using q Cons assms(2) d(1) tb ne by (simp add: tree_attach_def change_tn_def put_tn_def)
    also have "?M(i \<mapsto> t\<lparr>tn_parent := Some d\<rparr>, b \<mapsto> tb\<lparr>tn_prev := Some i\<rparr>, i \<mapsto> t\<lparr>tn_parent := Some d, tn_next := Some b\<rparr>, d \<mapsto> td\<lparr>tn_child := Some i\<rparr>) = ?N"
      using q Cons tb ne by (auto simp: first_prev_def fun_eq_iff)
    finally show ?thesis .
  qed
  obtain p2 where "linked_path (first_prev ?q (Some i) ?M) d (Some i) ?q xs p2 None" using linked_path_first[OF d(2,3)] by blast
  then have "linked_path ?N d (Some i) ?q xs p2 None" using assms(6) d(4) by (intro linked_path_upd) auto
  then have "children (st\<lparr>fs_nodes := ?N\<rparr>) d (i # xs)" using assms(3,5,6) d(3,4) by (simp add: children_def) blast
  moreover have "\<exists>u'. ?N k = Some u' \<and> (k \<notin> set xs \<longrightarrow> same_links u u') \<and> (k \<noteq> d \<longrightarrow> tn_child u' = tn_child u)" if "k \<noteq> i" "?M k = Some u" for k u
    using that q d(1) by (cases xs) (auto simp: first_prev_def same_links_def)
  ultimately show thesis using that[of "st\<lparr>fs_nodes := ?N\<rparr>"] a by (auto simp: links_kept_def)
qed

lemma tree_detach_children:
  assumes "children st d xs" "i \<in> set xs"
  obtains st' where "tree_detach i st = Some st'" "children st' d (remove1 i xs)"
    "links_kept i xs d st st'"
    "\<exists>t. fs_nodes st' i = Some t \<and> tn_parent t = None \<and> tn_prev t = None \<and> tn_next t = None"
proof -
  obtain as bs where x: "xs = as @ i # bs" using assms(2) by (meson split_list)
  obtain td p where d: "fs_nodes st d = Some td" "linked_path (fs_nodes st) d None (tn_child td) xs p None" "distinct xs" "d \<notin> set xs" using assms(1) by (auto simp: children_def)
  let ?M = "fs_nodes st"
  obtain pa t where a: "linked_path ?M d None (tn_child td) as pa (Some i)" "?M i = Some t" "tn_parent t = Some d" "tn_prev t = pa" "linked_path ?M d (Some i) (tn_next t) bs p None"
    using d(2) x by (auto simp: linked_path_append)
  have pa: "pa = (if as = [] then None else Some (last as))" using a(1) by (cases as rule: rev_cases) (auto simp: linked_path_append)
  have qb: "tn_next t = (case bs of [] \<Rightarrow> None | b # _ \<Rightarrow> Some b)" using a(5) by (cases bs) auto
  let ?A = "if as = [] then ?M(d \<mapsto> td\<lparr>tn_child := tn_next t\<rparr>) else last_next pa (tn_next t) ?M"
  let ?B = "first_prev (tn_next t) pa ?A"
  let ?N = "?B(i \<mapsto> t\<lparr>tn_parent := None, tn_prev := None, tn_next := None\<rparr>)"
  have dist: "i \<notin> set as" "i \<notin> set bs" "distinct as" "distinct bs" "set as \<inter> set bs = {}" "d \<notin> set as" "d \<notin> set bs" "d \<noteq> i" using d(3,4) x by auto
  have sep: "as \<noteq> [] \<Longrightarrow> last as \<notin> set bs" "as \<noteq> [] \<Longrightarrow> last as \<noteq> i" "as \<noteq> [] \<Longrightarrow> last as \<noteq> d" using dist last_in_set[of as] by (metis disjoint_iff)+
  have ta: "as \<noteq> [] \<Longrightarrow> \<exists>ta. ?M (last as) = Some ta" using linked_path_member[OF a(1) last_in_set] by blast
  have tb: "bs \<noteq> [] \<Longrightarrow> \<exists>tb. ?M (hd bs) = Some tb" using linked_path_member[OF a(5) hd_in_set] by blast
  have det: "tree_detach i st = Some (st\<lparr>fs_nodes := ?N\<rparr>)"
    using a(2-4) pa qb d(1) ta tb sep dist
    by (cases as rule: rev_cases; cases bs) (auto simp: tree_detach_def change_tn_def put_tn_def last_next_def first_prev_def fun_eq_iff intro!: exfat_fs.equality)
  have l: "linked_path ?A d None (if as = [] then tn_next t else tn_child td) as pa (tn_next t)"
    using linked_path_last[OF a(1) dist(3), of "tn_next t"] pa by (cases "as = []") auto
  have l2: "linked_path ?B d None (if as = [] then tn_next t else tn_child td) as pa (tn_next t)"
    using l qb dist(5) by (cases bs) (auto simp: first_prev_def intro!: linked_path_upd)
  have "linked_path ?A d (Some i) (tn_next t) bs p None"
    using a(5) pa sep dist by (auto simp: last_next_def intro!: linked_path_upd)
  then obtain p2 where r2: "linked_path ?B d pa (tn_next t) bs p2 None" using linked_path_first[OF _ dist(4)] by blast
  have "linked_path ?N d None (if as = [] then tn_next t else tn_child td) as pa (tn_next t)" "linked_path ?N d pa (tn_next t) bs p2 None"
    using l2 r2 dist by (auto intro!: linked_path_upd)
  then have "linked_path ?N d None (if as = [] then tn_next t else tn_child td) (as @ bs) p2 None" unfolding linked_path_append by blast
  moreover have "\<exists>u. ?N d = Some u \<and> tn_child u = (if as = [] then tn_next t else tn_child td)"
    using d(1) pa sep dist qb by (cases bs) (auto simp: first_prev_def last_next_def)
  moreover have "remove1 i xs = as @ bs" using x dist by (simp add: remove1_append)
  ultimately have "children (st\<lparr>fs_nodes := ?N\<rparr>) d (remove1 i xs)" using dist by (auto simp: children_def)
  moreover have "\<exists>u'. ?N k = Some u' \<and> (k \<notin> set xs \<longrightarrow> same_links u u') \<and> (k \<noteq> d \<longrightarrow> tn_child u' = tn_child u)" if "k \<noteq> i" "?M k = Some u" for k u
    using that x pa qb d(1) by (cases bs; cases as rule: rev_cases) (auto simp: first_prev_def last_next_def same_links_def)
  ultimately show thesis using that[of "st\<lparr>fs_nodes := ?N\<rparr>"] det by (auto simp: links_kept_def)
qed

text \<open>Moving a node from one directory to another.\<close>

lemma tree_move_children:
  assumes "children st d xs" "children st e ys" "i \<in> set xs" "d \<noteq> e" "i \<noteq> e" "set xs \<inter> set ys = {}"
  obtains st1 st2 where "tree_detach i st = Some st1" "tree_attach e i st1 = Some st2" "children st2 d (remove1 i xs)" "children st2 e (i # ys)"
proof -
  have iy: "i \<notin> set ys" and dx: "d \<notin> set xs" "distinct xs" using assms by (auto simp: children_def)
  obtain st1 where 1: "tree_detach i st = Some st1" "children st1 d (remove1 i xs)"
    "links_kept i xs d st st1"
    "\<exists>t. fs_nodes st1 i = Some t \<and> tn_parent t = None \<and> tn_prev t = None \<and> tn_next t = None" by (rule tree_detach_children[OF assms(1,3)])
  obtain t where t: "fs_nodes st1 i = Some t" "tn_prev t = None" "tn_next t = None" using 1(4) by blast
  have e: "children st1 e ys"
  proof (rule children_frame[OF assms(2)])
    show "\<exists>u. fs_nodes st1 k = Some u \<and> same_links t u" if "k \<in> set ys" "fs_nodes st k = Some t" for k t
      using links_keptD[OF 1(3), of k t] that assms(6) iy by auto
    show "\<exists>u. fs_nodes st1 e = Some u \<and> tn_child u = tn_child t" if "fs_nodes st e = Some t" for t
      using links_keptD[OF 1(3), of e t] that assms(4,5) by auto
  qed
  obtain st2 where 2: "tree_attach e i st1 = Some st2" "children st2 e (i # ys)"
    "links_kept i ys e st1 st2"
    by (rule tree_attach_children[OF e t assms(5) iy])
  have "children st2 d (remove1 i xs)"
  proof (rule children_frame[OF 1(2)])
    show "\<exists>u. fs_nodes st2 k = Some u \<and> same_links t u" if "k \<in> set (remove1 i xs)" "fs_nodes st1 k = Some t" for k t
      using links_keptD[OF 2(3), of k t] that assms(6) dx(2) by auto
    show "\<exists>u. fs_nodes st2 d = Some u \<and> tn_child u = tn_child t" if "fs_nodes st1 d = Some t" for t
      using links_keptD[OF 2(3), of d t] that assms(3,4) dx(1) by auto
  qed
  then show thesis using that 1(1) 2(1,2) by blast
qed

section \<open>Names\<close>

text \<open>The units of a terminated name, and the name in upper case.\<close>

definition unit_name :: "u16 list \<Rightarrow> u16 list" where
  "unit_name ns = takeWhile (\<lambda>c. c \<noteq> 0) ns"

definition upper_name :: "u16 list \<Rightarrow> u16 list \<Rightarrow> u16 list" where
  "upper_name upcase ns = map (\<lambda>c. upcase ! unat c) (unit_name ns)"

text \<open>In a proper up-case table only the terminator is mapped to the terminator's entry.\<close>

definition upcase_ok :: "u16 list \<Rightarrow> bool" where
  "upcase_ok upcase \<longleftrightarrow> (\<forall>c. upcase ! unat c = upcase ! 0 \<longrightarrow> c = (0 :: u16))"

lemma compare_name_upper:
  assumes "upcase_ok upcase" "0 \<in> set as" "0 \<in> set bs"
  obtains c where "compare_name upcase as bs = Some c" "c = 0 \<longleftrightarrow> upper_name upcase as = upper_name upcase bs"
proof -
  have "\<exists>c. compare_name upcase as bs = Some c \<and> (c = 0 \<longleftrightarrow> upper_name upcase as = upper_name upcase bs)" using assms(2,3)
  proof (induction as arbitrary: bs)
    case (Cons a as)
    then obtain b bs' where b: "bs = b # bs'" by (cases bs) auto
    have z: "upcase ! unat c \<noteq> upcase ! 0" if "c \<noteq> 0" for c :: u16 using assms(1) that by (auto simp: upcase_ok_def)
    have e: "compare_char upcase x y = 0 \<longleftrightarrow> upcase ! unat x = upcase ! unat y" for x y by (simp add: compare_char_def word_uint_eq_iff)
    show ?case
    proof (cases "a \<noteq> 0 \<and> b \<noteq> 0 \<and> compare_char upcase a b = 0")
      case True
      then show ?thesis using Cons.IH[of bs'] Cons.prems b e[of a b] by (auto simp: upper_name_def unit_name_def)
    next
      case False
      then show ?thesis using b z[of a] z[of b] e[of a b] by (auto simp: upper_name_def unit_name_def)
    qed
  qed simp
  then show thesis using that by blast
qed

lemma wchar_to_utf16_fits: "wchar_to_utf16 wc n = Some us \<Longrightarrow> length us \<le> n"
  by (auto simp: wchar_to_utf16_def Let_def split: if_splits)

lemma utf8_to_utf16_terminates:
  fixes W :: "'w::len itself"
  shows "utf8_to_utf16_loop W out pos outsize input = (UTF_OK, out') \<Longrightarrow> outsize \<le> length out \<Longrightarrow> 0 \<in> set out'"
proof (induction W out pos outsize input rule: utf8_to_utf16_loop.induct)
  case (1 W out pos outsize input)
  show ?case
  proof (cases "input = []")
    case True
    then show ?thesis using 1(2,3) by (auto simp: utf8_to_utf16_loop.simps set_update_memI split: if_splits)
  next
    case False
    then obtain wc :: "'w word" and rest us where w: "utf8_to_wchar input = Some (wc, rest)" "wchar_to_utf16 wc (outsize - pos) = Some us"
      using 1(2) by (auto simp: utf8_to_utf16_loop.simps split: option.splits)
    have l: "outsize \<le> length (put_units out pos us)" using wchar_to_utf16_fits[OF w(2)] 1(3) by (cases us) (auto simp: put_units_def)
    show ?thesis
    proof (cases "wc = 0")
      case True
      then show ?thesis using 1(2) False w l by (auto simp: utf8_to_utf16_loop.simps set_update_memI split: if_splits)
    next
      case nz: False
      then show ?thesis using 1(1)[OF False w(1) _ w(2) nz] 1(2) False w l by (auto simp: utf8_to_utf16_loop.simps)
    qed
  qed
qed

lemma looked_up_terminates: "exfat_utf8_to_utf16 W (replicate 256 0) name 256 = (UTF_OK, buffer) \<Longrightarrow> 0 \<in> set buffer"
  unfolding exfat_utf8_to_utf16_def by (rule utf8_to_utf16_terminates) auto

section \<open>References\<close>

definition add_ref :: "u64 \<Rightarrow> 's exfat_fs \<Rightarrow> 's exfat_fs" where
  "add_ref i st = st\<lparr>fs_nodes := (fs_nodes st)(i := map_option (\<lambda>t. t\<lparr>tn_node := (tn_node t)\<lparr>nd_references := nd_references (tn_node t) + 1\<rparr>\<rparr>) (fs_nodes st i))\<rparr>"

text \<open>A node that can be put back: its references are counted, its name is terminated, and the name of a changed node can be shown.\<close>

definition node_sound :: "tree_node \<Rightarrow> bool" where
  "node_sound t \<longleftrightarrow> 0 \<le> nd_references (tn_node t) \<and> 0 \<in> set (tn_name t) \<and> exfat_get_name (tn_name t) \<noteq> None"

definition sound_at :: "'s exfat_fs \<Rightarrow> u64 \<Rightarrow> bool" where
  "sound_at st i \<longleftrightarrow> (\<exists>t. fs_nodes st i = Some t \<and> node_sound t)"

lemma get_add_ref: "sound_at st i \<Longrightarrow> exfat_get_node i st = Some (add_ref i st)"
  by (auto simp: sound_at_def exfat_get_node_def change_tn_def put_tn_def add_ref_def)

lemma put_add_ref: "sound_at st i \<Longrightarrow> exfat_put_node i (add_ref i st) = Some st"
  by (auto simp: sound_at_def node_sound_def exfat_put_node_def put_tn_def add_ref_def fun_upd_idem Let_def)

lemma add_ref_commute: "add_ref i (add_ref j st) = add_ref j (add_ref i st)"
  by (cases "i = j") (auto simp: add_ref_def fun_upd_twist)

lemma add_ref_simps [simp]:
  "fs_upcase (add_ref i st) = fs_upcase st" "fs_root (add_ref i st) = fs_root st" "fs_ef (add_ref i st) = fs_ef st"
  by (simp_all add: add_ref_def)

lemma add_ref_node: "fs_nodes st k = Some t \<Longrightarrow> \<exists>u. fs_nodes (add_ref i st) k = Some u \<and> same_links t u \<and> tn_child u = tn_child t \<and> tn_name u = tn_name t \<and> tn_cached u = tn_cached t \<and> (node_sound t \<longrightarrow> node_sound u)"
  by (auto simp: add_ref_def same_links_def node_sound_def)

lemma sound_add_ref: "sound_at st k \<Longrightarrow> sound_at (add_ref i st) k"
  by (auto simp: sound_at_def dest: add_ref_node[of st k _ i])

lemma children_add_ref: "children st d xs \<Longrightarrow> children (add_ref i st) d xs"
  by (erule children_frame) (blast dest: add_ref_node)+

section \<open>Looking up a name\<close>

text \<open>The position of an iterator behind the nodes \<open>as\<close>.\<close>

definition iter_at :: "u64 \<Rightarrow> u64 list \<Rightarrow> exfat_iterator" where
  "iter_at d as = \<lparr>it_parent = Some d, it_current = if as = [] then None else Some (last as)\<rparr>"

lemma iter_next:
  assumes "children st d (as @ bs)" "bs \<noteq> [] \<longrightarrow> sound_at st (hd bs)"
  shows "exfat_readdir (iter_at d as) st =
    (case bs of [] \<Rightarrow> Some ((None, (iter_at d as)\<lparr>it_current := None\<rparr>), st) | i # _ \<Rightarrow> Some ((Some i, iter_at d (as @ [i])), add_ref i st))"
proof -
  obtain t p where t: "fs_nodes st d = Some t" "linked_path (fs_nodes st) d None (tn_child t) (as @ bs) p None" using assms(1) by (auto simp: children_def)
  have n: "(if as = [] then Some (tn_child t) else map_option tn_next (fs_nodes st (last as))) = Some (case bs of [] \<Rightarrow> None | i # _ \<Rightarrow> Some i)"
  proof (cases as rule: rev_cases)
    case Nil
    then show ?thesis using t(2) by (cases bs) auto
  next
    case (snoc xs a)
    then show ?thesis using t(2) by (cases bs) (auto simp: linked_path_append)
  qed
  have "(case it_current (iter_at d as) of None \<Rightarrow> do { p \<leftarrow> it_parent (iter_at d as); map_option tn_child (fs_nodes st p) } | Some c \<Rightarrow> map_option tn_next (fs_nodes st c)) =
    (if as = [] then Some (tn_child t) else map_option tn_next (fs_nodes st (last as)))" using t(1) by (simp add: iter_at_def)
  then have r: "exfat_readdir (iter_at d as) st = do {
      current \<leftarrow> Some (case bs of [] \<Rightarrow> None | i # _ \<Rightarrow> Some i);
      let it = (iter_at d as)\<lparr>it_current := current\<rparr>;
      case current of None \<Rightarrow> Some ((None, it), st) | Some c \<Rightarrow> map_option (Pair (Some c, it)) (exfat_get_node c st) }"
    unfolding exfat_readdir_def n[symmetric] by simp
  show ?thesis
  proof (cases bs)
    case (Cons i bs')
    then have "exfat_get_node i st = Some (add_ref i st)" using assms(2) by (auto intro: get_add_ref)
    then show ?thesis using Cons r by (simp add: iter_at_def)
  qed (use r in simp)
qed

definition named :: "'s exfat_fs \<Rightarrow> u16 list \<Rightarrow> u16 list \<Rightarrow> u64 \<Rightarrow> bool" where
  "named st upcase buffer i \<longleftrightarrow> (\<exists>t. fs_nodes st i = Some t \<and> upper_name upcase buffer = upper_name upcase (tn_name t))"

text \<open>A directory whose entries are in memory.\<close>

definition cached_dir :: "'s exfat_fs \<Rightarrow> u64 \<Rightarrow> u64 list \<Rightarrow> bool" where
  "cached_dir st d xs \<longleftrightarrow> children st d xs \<and> (\<exists>t. fs_nodes st d = Some t \<and> tn_cached t) \<and> (\<forall>i \<in> set (d # xs). sound_at st i)"

lemma opened_close:
  assumes "sound_at st d"
  shows "exfat_closedir (iter_at d as) (add_ref d st) = Some st" "exfat_closedir ((iter_at d as)\<lparr>it_current := c\<rparr>) (add_ref d st) = Some st"
  using put_add_ref[OF assms] by (simp_all add: exfat_closedir_def iter_at_def)

lemma lookup_loop_finds:
  assumes "children st d (as @ bs)" "\<forall>i \<in> set bs. sound_at st i" "sound_at st d" "fs_upcase st = Some upcase" "upcase_ok upcase" "0 \<in> set buffer"
  shows "lookup_loop buffer (iter_at d as) (add_ref d st) =
    (case find (named st upcase buffer) bs of None \<Rightarrow> Some ((-ENOENT, None), st) | Some i \<Rightarrow> Some ((0, Some i), add_ref i st))"
  using assms(1,2)
proof (induction bs arbitrary: as)
  case Nil
  have "exfat_readdir (iter_at d as) (add_ref d st) = Some ((None, (iter_at d as)\<lparr>it_current := None\<rparr>), add_ref d st)"
    using iter_next[OF children_add_ref[OF Nil(1)]] by simp
  then show ?case using opened_close[OF assms(3)] by (subst lookup_loop.simps) simp
next
  case (Cons i bs)
  obtain t where t: "fs_nodes st i = Some t" "node_sound t" using Cons.prems(2) by (auto simp: sound_at_def)
  have r: "exfat_readdir (iter_at d as) (add_ref d st) = Some ((Some i, iter_at d (as @ [i])), add_ref i (add_ref d st))"
    using iter_next[OF children_add_ref[OF Cons.prems(1)]] Cons.prems(2) sound_add_ref by fastforce
  obtain u where u: "fs_nodes (add_ref i (add_ref d st)) i = Some u" "tn_name u = tn_name t" using add_ref_node[OF t(1), of d] add_ref_node by metis
  obtain c where c: "compare_name upcase buffer (tn_name t) = Some c" "c = 0 \<longleftrightarrow> upper_name upcase buffer = upper_name upcase (tn_name t)"
    by (rule compare_name_upper[OF assms(5,6)]) (use t(2) in \<open>auto simp: node_sound_def\<close>)
  have c0: "c = 0 \<longleftrightarrow> named st upcase buffer i" using c(2) t(1) by (simp add: named_def)
  have close: "exfat_closedir (iter_at d (as @ [i])) (add_ref i (add_ref d st)) = Some (add_ref i st)"
    unfolding add_ref_commute[of i d] by (rule opened_close(1)[OF sound_add_ref[OF assms(3)]])
  have put: "exfat_put_node i (add_ref i (add_ref d st)) = Some (add_ref d st)" by (rule put_add_ref[OF sound_add_ref]) (use Cons.prems(2) in simp)
  show ?case
  proof (cases "c = 0")
    case True
    then show ?thesis using r u c(1) c0 close assms(4) by (subst lookup_loop.simps) simp
  next
    case False
    then show ?thesis using r u c(1) c0 put assms(4) Cons.IH[of "as @ [i]"] Cons.prems by (subst lookup_loop.simps) simp
  qed
qed

lemma lookup_name_finds:
  assumes "cached_dir st d xs" "fs_upcase st = Some upcase" "upcase_ok upcase" "exfat_utf8_to_utf16 TYPE(16) (replicate 256 0) name 256 = (UTF_OK, buffer)"
  shows "lookup_name ops d name st =
    (case find (named st upcase buffer) xs of None \<Rightarrow> Some ((-ENOENT, None), st) | Some i \<Rightarrow> Some ((0, Some i), add_ref i st))"
proof -
  obtain t where t: "fs_nodes st d = Some t" "tn_cached t" using assms(1) by (auto simp: cached_dir_def)
  have s: "children st d xs" "\<forall>i \<in> set xs. sound_at st i" "sound_at st d" using assms(1) by (auto simp: cached_dir_def)
  have "exfat_opendir ops d st = Some ((0, iter_at d []), add_ref d st)"
    using add_ref_node[OF t(1), of d] t(2) get_add_ref[OF s(3)] by (auto simp: exfat_opendir_def exfat_cache_directory_def iter_at_def)
  then show ?thesis using lookup_loop_finds[of st d "[]" xs upcase buffer] s assms(2,3) looked_up_terminates[OF assms(4)] assms(4) by (simp add: lookup_name_def)
qed

section \<open>Paths\<close>

fun split_slash :: "bytes \<Rightarrow> bytes list" where
  "split_slash [] = [[]]"
| "split_slash (c # cs) = (if c = 0x2f then [] # split_slash cs else (c # hd (split_slash cs)) # tl (split_slash cs))"

definition words :: "bytes \<Rightarrow> bytes list" where
  "words path = filter (\<lambda>w. w \<noteq> []) (split_slash path)"

text \<open>The components of a path: what stands between the slashes, without empty ones and single dots.\<close>

definition components :: "bytes \<Rightarrow> bytes list" where
  "components path = filter (\<lambda>w. w \<noteq> [0x2e]) (words path)"

lemma split_slash_ne: "split_slash p \<noteq> []"
  by (cases p) auto

lemma words_skip: "words (dropWhile (\<lambda>c. c = 0x2f) p) = words p"
  by (induction p) (auto simp: words_def)

lemma split_slash_word: "split_slash p = takeWhile (\<lambda>c. c \<noteq> 0x2f) p # (case dropWhile (\<lambda>c. c \<noteq> 0x2f) p of [] \<Rightarrow> [] | _ # q \<Rightarrow> split_slash q)"
  by (induction p) auto

lemma words_step:
  assumes "get_comp path = (n, p)"
  shows "words path = (if n = 0 then [] else take n p # words (drop n p))"
proof -
  have p: "p = dropWhile (\<lambda>c. c = 0x2f) path" "n = length (takeWhile (\<lambda>c. c \<noteq> 0x2f) p)" using assms by (auto simp: get_comp_def Let_def)
  have w: "words path = words p" unfolding p(1) words_skip ..
  have t: "take n p = takeWhile (\<lambda>c. c \<noteq> 0x2f) p" "drop n p = dropWhile (\<lambda>c. c \<noteq> 0x2f) p" unfolding p(2) by (rule takeWhile_eq_take[symmetric], rule dropWhile_eq_drop[symmetric])
  show ?thesis
  proof (cases "n = 0")
    case True
    then have "p = [] \<or> hd p = 0x2f" using p(2) by (cases p) (auto split: if_splits)
    moreover have "p \<noteq> [] \<Longrightarrow> hd p \<noteq> 0x2f" unfolding p(1) by (rule hd_dropWhile[of "\<lambda>c. c = 0x2f"])
    ultimately have "p = []" by blast
    then show ?thesis using True w by (simp add: words_def)
  next
    case False
    then have ne: "takeWhile (\<lambda>c. c \<noteq> 0x2f) p \<noteq> []" using p(2) by auto
    have "words (dropWhile (\<lambda>c. c \<noteq> 0x2f) p) = filter (\<lambda>w. w \<noteq> []) (case dropWhile (\<lambda>c. c \<noteq> 0x2f) p of [] \<Rightarrow> [] | _ # q \<Rightarrow> split_slash q)"
    proof (cases "dropWhile (\<lambda>c. c \<noteq> 0x2f) p")
      case (Cons c q)
      then have "c = 0x2f" using hd_dropWhile[of "\<lambda>c. c \<noteq> 0x2f" p] by simp
      then show ?thesis unfolding Cons by (simp add: words_def)
    next
      case Nil
      show ?thesis unfolding Nil by (simp add: words_def)
    qed
    moreover have "words p = takeWhile (\<lambda>c. c \<noteq> 0x2f) p # filter (\<lambda>w. w \<noteq> []) (case dropWhile (\<lambda>c. c \<noteq> 0x2f) p of [] \<Rightarrow> [] | _ # q \<Rightarrow> split_slash q)"
      unfolding words_def using ne by (subst split_slash_word) simp
    ultimately show ?thesis using False w t by simp
  qed
qed

text \<open>Walking down the tree by a list of names.\<close>

inductive walk :: "'s exfat_fs \<Rightarrow> u16 list \<Rightarrow> u64 \<Rightarrow> bytes list \<Rightarrow> u64 option \<Rightarrow> bool" for st upcase where
  walk_here: "walk st upcase d [] (Some d)"
| walk_missing: "cached_dir st d xs \<Longrightarrow> exfat_utf8_to_utf16 TYPE(16) (replicate 256 0) name 256 = (UTF_OK, buffer) \<Longrightarrow>
    find (named st upcase buffer) xs = None \<Longrightarrow> walk st upcase d (name # ns) None"
| walk_down: "cached_dir st d xs \<Longrightarrow> exfat_utf8_to_utf16 TYPE(16) (replicate 256 0) name 256 = (UTF_OK, buffer) \<Longrightarrow>
    find (named st upcase buffer) xs = Some i \<Longrightarrow> walk st upcase i ns r \<Longrightarrow> walk st upcase d (name # ns) r"

inductive_cases walk_nilE: "walk st upcase d [] r"
inductive_cases walk_consE: "walk st upcase d (name # ns) r"

lemma cached_add_ref: "cached_dir st d xs \<Longrightarrow> cached_dir (add_ref i st) d xs"
  by (auto simp: cached_dir_def children_add_ref sound_add_ref dest: add_ref_node[of st d _ i])

lemma named_add_ref [simp]: "named (add_ref i st) upcase buffer = named st upcase buffer"
  by (rule ext) (auto simp: named_def add_ref_def)

lemma lookup_path_walks:
  assumes "walk st upcase d (components path) r" "sound_at st d" "fs_upcase st = Some upcase" "upcase_ok upcase"
  shows "lookup_path ops path d (add_ref d st) = (case r of None \<Rightarrow> Some ((-ENOENT, None), st) | Some j \<Rightarrow> Some ((0, Some j), add_ref j st))"
  using assms(1,2)
proof (induction path arbitrary: d rule: length_induct)
  case (1 path)
  obtain n p where g: "get_comp path = (n, p)" by (cases "get_comp path")
  note w = words_step[OF g]
  show ?case
  proof (cases "n = 0")
    case True
    then have "r = Some d" using 1(2) w by (auto simp: components_def elim: walk_nilE)
    then show ?thesis using True g by (simp add: lookup_path.simps[of ops path])
  next
    case n: False
    have l: "length (drop n p) < length path" using get_comp_less[OF g[symmetric]] n by simp
    have np: "n \<le> length p" using g by (auto simp: get_comp_def Let_def length_takeWhile_le)
    have dot: "take n p = [0x2e] \<longleftrightarrow> n = 1 \<and> hd p = 0x2e" using n np by (cases p) (auto simp: take_Cons' One_nat_def)
    show ?thesis
    proof (cases "take n p = [0x2e]")
      case True
      then have "components path = components (drop n p)" using w n by (simp add: components_def)
      then show ?thesis using 1(1)[rule_format, OF l] 1(2,3) True g n dot by (simp add: lookup_path.simps[of ops path])
    next
      case False
      then have c: "components path = take n p # components (drop n p)" using w n by (simp add: components_def)
      obtain xs buffer where x: "cached_dir st d xs" "exfat_utf8_to_utf16 TYPE(16) (replicate 256 0) (take n p) 256 = (UTF_OK, buffer)"
        "find (named st upcase buffer) xs = None \<and> r = None \<or> (\<exists>i. find (named st upcase buffer) xs = Some i \<and> walk st upcase i (components (drop n p)) r)"
        using 1(2) unfolding c by (auto elim: walk_consE)
      have f: "lookup_name ops d (take n p) (add_ref d st) = (case find (named st upcase buffer) xs of
          None \<Rightarrow> Some ((-ENOENT, None), add_ref d st) | Some i \<Rightarrow> Some ((0, Some i), add_ref i (add_ref d st)))"
        using lookup_name_finds[OF cached_add_ref[OF x(1)] _ assms(4) x(2), of d ops] assms(3) by simp
      show ?thesis
      proof (cases "find (named st upcase buffer) xs")
        case None
        then show ?thesis using x(3) f put_add_ref[OF 1(3)] False dot g n by (auto simp: lookup_path.simps[of ops path])
      next
        case (Some i)
        then have i: "sound_at st i" using x(1) by (auto simp: cached_dir_def find_Some_iff)
        have "exfat_put_node d (add_ref i (add_ref d st)) = Some (add_ref i st)"
          unfolding add_ref_commute[of i d] by (rule put_add_ref[OF sound_add_ref[OF 1(3)]])
        then show ?thesis using Some x(3) f False dot g n 1(1)[rule_format, OF l _ i] by (auto simp: lookup_path.simps[of ops path])
      qed
    qed
  qed
qed

section \<open>Listing\<close>

definition shown_node :: "'s exfat_fs \<Rightarrow> u64 \<Rightarrow> bytes \<times> u64 \<times> bool" where
  "shown_node st i = (case fs_nodes st i of Some t \<Rightarrow> (takeWhile (\<lambda>c. c \<noteq> 0) (the (exfat_get_name (tn_name t))), nd_size (tn_node t), is_dir t))"

lemma list_loop_shows:
  assumes "children st d (as @ bs)" "\<forall>i \<in> set bs. sound_at st i"
  shows "\<exists>it. it_parent it = Some d \<and> list_files_loop (iter_at d as) shown (add_ref d st) = Some ((shown @ map (shown_node st) bs, it), add_ref d st)"
  using assms
proof (induction bs arbitrary: as shown)
  case Nil
  have "exfat_readdir (iter_at d as) (add_ref d st) = Some ((None, (iter_at d as)\<lparr>it_current := None\<rparr>), add_ref d st)"
    using iter_next[OF children_add_ref[OF Nil(1)]] by simp
  then show ?case by (subst list_files_loop.simps) (simp add: iter_at_def)
next
  case (Cons i bs)
  obtain t where t: "fs_nodes st i = Some t" "node_sound t" using Cons.prems(2) by (auto simp: sound_at_def)
  have ne: "i \<noteq> d" using Cons.prems(1) by (auto simp: children_def)
  have r: "exfat_readdir (iter_at d as) (add_ref d st) = Some ((Some i, iter_at d (as @ [i])), add_ref i (add_ref d st))"
    using iter_next[OF children_add_ref[OF Cons.prems(1)]] Cons.prems(2) sound_add_ref by fastforce
  have put: "exfat_put_node i (add_ref i (add_ref d st)) = Some (add_ref d st)" by (rule put_add_ref[OF sound_add_ref]) (use Cons.prems(2) in simp)
  obtain nm where nm: "exfat_get_name (tn_name t) = Some nm" using t(2) by (auto simp: node_sound_def)
  have "list_files_loop (iter_at d as) shown (add_ref d st) = list_files_loop (iter_at d (as @ [i])) (shown @ [shown_node st i]) (add_ref d st)"
    using r put nm t(1) ne by (subst list_files_loop.simps) (simp add: add_ref_def shown_node_def is_dir_def)
  moreover obtain it where "it_parent it = Some d" "list_files_loop (iter_at d (as @ [i])) (shown @ [shown_node st i]) (add_ref d st) = Some (((shown @ [shown_node st i]) @ map (shown_node st) bs, it), add_ref d st)"
    using Cons.IH[of "as @ [i]" "shown @ [shown_node st i]"] Cons.prems by auto
  ultimately show ?case by auto
qed

lemma exfat_list_cached:
  assumes "cached_dir (g_ef port) r xs" "g_initialized port" "fs_root (g_ef port) = Some r"
  shows "exfat_list_files ops True port = Some ((0, map (shown_node (g_ef port)) xs), port)"
proof -
  let ?st = "g_ef port"
  obtain t where t: "fs_nodes ?st r = Some t" "tn_cached t" using assms(1) by (auto simp: cached_dir_def)
  have s: "children ?st r xs" "\<forall>i \<in> set xs. sound_at ?st i" "sound_at ?st r" using assms(1) by (auto simp: cached_dir_def)
  have o: "exfat_opendir ops r ?st = Some ((0, iter_at r []), add_ref r ?st)"
    using add_ref_node[OF t(1), of r] t(2) get_add_ref[OF s(3)] by (auto simp: exfat_opendir_def exfat_cache_directory_def iter_at_def)
  obtain it where "it_parent it = Some r" "list_files_loop (iter_at r []) [] (add_ref r ?st) = Some ((map (shown_node ?st) xs, it), add_ref r ?st)"
    using list_loop_shows[of ?st r "[]" xs "[]"] s by auto
  then show ?thesis using o put_add_ref[OF s(3)] assms(2,3) by (simp add: exfat_list_files_def on_ef_def exfat_closedir_def)
qed

section \<open>A small tree\<close>

text \<open>A root directory with the directory \<open>AB\<close>, which holds the file \<open>C\<close>.\<close>

definition unit_table :: "u16 list" where "unit_table = map of_nat [0..<65536]"

definition tree_name :: "u16 list \<Rightarrow> u16 list" where "tree_name us = us @ replicate (256 - length us) 0"

definition small_tree :: "'s exfat_fs \<Rightarrow> 's exfat_fs" where
  "small_tree st = st\<lparr>fs_upcase := Some unit_table, fs_root := Some 8, fs_nodes := Map.empty(
     8 \<mapsto> zero_node\<lparr>tn_cached := True, tn_child := Some 16\<rparr>,
     16 \<mapsto> zero_node\<lparr>tn_cached := True, tn_parent := Some 8, tn_child := Some 24, tn_name := tree_name [0x41, 0x42]\<rparr>,
     24 \<mapsto> zero_node\<lparr>tn_parent := Some 16, tn_name := tree_name [0x43]\<rparr>)\<rparr>"

lemma unit_table_ok: "upcase_ok unit_table"
proof -
  have "unit_table ! unat c = c" for c :: u16
  proof -
    have "unat c < 2 ^ LENGTH(16)" by (rule unsigned_less)
    then have "unat c < 65536" by simp
    then have "unat c < length [0..<65536]" "[0..<65536] ! unat c = unat c" by (simp_all only: length_upt nth_upt add_0 diff_zero)
    then show ?thesis unfolding unit_table_def by (simp only: nth_map) simp
  qed
  then show ?thesis by (metis upcase_ok_def unat_0)
qed

lemma zero_unit: "0 < n \<Longrightarrow> utf16_to_wchar (replicate n 0) = Some (0, replicate (n - 1) 0)"
  by (cases n) auto

lemma tree_name_sound: "exfat_get_name (tree_name []) \<noteq> None" "exfat_get_name (tree_name [0x41, 0x42]) \<noteq> None" "exfat_get_name (tree_name [0x43]) \<noteq> None"
  "0 \<in> set (tree_name [])" "0 \<in> set (tree_name [0x41, 0x42])" "0 \<in> set (tree_name [0x43])"
  by (simp_all add: exfat_get_name_def tree_name_def exfat_utf16_to_utf8_def utf16_to_utf8_loop.simps zero_unit wchar_to_utf8_def)

lemma small_tree_sound:
  "sound_at (small_tree st) 8" "sound_at (small_tree st) 16" "sound_at (small_tree st) 24"
  using tree_name_sound by (simp_all add: sound_at_def node_sound_def small_tree_def zero_node_def tree_name_def)

lemma small_tree_dirs: "cached_dir (small_tree st) 8 [16]" "cached_dir (small_tree st) 16 [24]"
proof -
  have "children (small_tree st) 8 [16]" "children (small_tree st) 16 [24]" by (simp_all add: children_def small_tree_def zero_node_def)
  moreover have "\<exists>t. fs_nodes (small_tree st) 8 = Some t \<and> tn_cached t" "\<exists>t. fs_nodes (small_tree st) 16 = Some t \<and> tn_cached t" by (simp_all add: small_tree_def)
  ultimately show "cached_dir (small_tree st) 8 [16]" "cached_dir (small_tree st) 16 [24]" using small_tree_sound[of st] by (simp_all add: cached_dir_def)
qed

lemma replicate_update: "(replicate n x)[i := x] = replicate n x"
  by (cases "i < n") (simp_all add: list_update_same_conv list_update_beyond)

lemma small_tree_walk: "walk (small_tree st) unit_table 8 [[0x41, 0x42], [0x43]] (Some 24)"
proof -
  have b: "exfat_utf8_to_utf16 TYPE(16) (replicate 256 0) [0x41, 0x42] 256 = (UTF_OK, tree_name [0x41, 0x42])"
    "exfat_utf8_to_utf16 TYPE(16) (replicate 256 0) [0x43] 256 = (UTF_OK, tree_name [0x43])"
    by (simp_all add: exfat_utf8_to_utf16_def utf8_to_utf16_loop.simps wchar_to_utf16_def put_units_def tree_name_def replicate_update)
  have "find (named (small_tree st) unit_table (tree_name [0x41, 0x42])) [16] = Some 16" "find (named (small_tree st) unit_table (tree_name [0x43])) [24] = Some 24"
    by (simp_all add: named_def small_tree_def)
  then show ?thesis using walk_down[OF small_tree_dirs(1) b(1)] walk_down[OF small_tree_dirs(2) b(2)] walk_here by fastforce
qed

section \<open>Properties\<close>

text \<open>
  C5 (refinement).  Moving a node, as renaming does, is moving an element between lists: when the children of two directories are the lists
  \<open>xs\<close> and \<open>ys\<close>, detaching a child of the first and attaching it to the second removes it from \<open>xs\<close> and puts it in front of \<open>ys\<close>.
\<close>

theorem tree_move_refines:
  assumes "children st d xs" "children st e ys" "i \<in> set xs" "d \<noteq> e" "i \<noteq> e" "set xs \<inter> set ys = {}"
  shows "\<exists>st1 st2. tree_detach i st = Some st1 \<and> tree_attach e i st1 = Some st2 \<and> children st2 d (remove1 i xs) \<and> children st2 e (i # ys)"
  by (rule tree_move_children[OF assms]) blast

theorem tree_move_refines_witness:
  "\<forall>st. \<exists>st1 st2. tree_detach 24 (small_tree st) = Some st1 \<and> tree_attach 8 24 st1 = Some st2 \<and> children st2 16 [] \<and> children st2 8 [24, 16]"
proof
  fix st
  show "\<exists>st1 st2. tree_detach 24 (small_tree st) = Some st1 \<and> tree_attach 8 24 st1 = Some st2 \<and> children st2 16 [] \<and> children st2 8 [24, 16]"
    using tree_move_refines[of "small_tree st" 16 "[24]" 8 "[16]" 24] small_tree_dirs[of st] by (simp add: cached_dir_def)
qed

text \<open>
  C3 (refinement).  \<^verbatim>\<open>exfat_lookup\<close> is a walk down the tree: it takes the components of the path between slashes, without single dots,
  and goes from a directory to its first child whose name is the component up to upper and lower case.  It returns the last node with one more
  reference, or reports that a component is missing and leaves every reference as it was.
\<close>

theorem exfat_lookup_walks:
  assumes "walk st upcase r (components path) res" "sound_at st r" "fs_root st = Some r" "fs_upcase st = Some upcase" "upcase_ok upcase"
  shows "exfat_lookup ops path st = (case res of None \<Rightarrow> Some ((-ENOENT, None), st) | Some j \<Rightarrow> Some ((0, Some j), add_ref j st))"
  using lookup_path_walks[OF assms(1,2,4,5), of ops] get_add_ref[OF assms(2)] assms(3) by (simp add: exfat_lookup_def)

theorem exfat_lookup_walks_witness:
  "\<forall>st. exfat_lookup ram_storage [0x2f, 0x41, 0x42, 0x2f, 0x2f, 0x2e, 0x2f, 0x43] (small_tree st) = Some ((0, Some 24), add_ref 24 (small_tree st))"
proof
  fix st
  have "components [0x2f, 0x41, 0x42, 0x2f, 0x2f, 0x2e, 0x2f, 0x43] = [[0x41, 0x42], [0x43]]" by (simp add: components_def words_def)
  then show "exfat_lookup ram_storage [0x2f, 0x41, 0x42, 0x2f, 0x2f, 0x2e, 0x2f, 0x43] (small_tree st) = Some ((0, Some 24), add_ref 24 (small_tree st))"
    using exfat_lookup_walks[of "small_tree st" unit_table 8 "[0x2f, 0x41, 0x42, 0x2f, 0x2f, 0x2e, 0x2f, 0x43]" "Some 24" ram_storage]
      small_tree_walk[of st] small_tree_sound(1)[of st] unit_table_ok by (simp add: small_tree_def)
qed

text \<open>
  C37 (functional).  \<^verbatim>\<open>exfat_list_files\<close> calls back once for each child of the root directory, in order, with its name in UTF-8, its size and whether it is a
  directory, and leaves every reference as it was.
\<close>

theorem exfat_list_files_shows:
  assumes "cached_dir (g_ef port) r xs" "g_initialized port" "fs_root (g_ef port) = Some r"
  shows "exfat_list_files ops True port = Some ((0, map (shown_node (g_ef port)) xs), port)"
  by (rule exfat_list_cached[OF assms])

theorem exfat_list_files_shows_witness:
  "\<forall>st. exfat_list_files ram_storage True \<lparr>g_ef = small_tree st, g_initialized = True\<rparr> =
     Some ((0, [shown_node (small_tree st) 16]), \<lparr>g_ef = small_tree st, g_initialized = True\<rparr>)"
proof
  fix st
  show "exfat_list_files ram_storage True \<lparr>g_ef = small_tree st, g_initialized = True\<rparr> =
     Some ((0, [shown_node (small_tree st) 16]), \<lparr>g_ef = small_tree st, g_initialized = True\<rparr>)"
    using exfat_list_files_shows[of "\<lparr>g_ef = small_tree st, g_initialized = True\<rparr>" 8 "[16]" ram_storage] small_tree_dirs(1)[of st] by (simp add: small_tree_def)
qed

end
