(* ===== verification/Exfat_Upcase_Correct.thy ===== *)
theory Exfat_Upcase_Correct
  imports Exfat_Tree Exfat_Mount
begin

text \<open>
  The up-case table of the formatter is proper: after the driver has expanded it, only the terminator of a name is mapped to zero.
\<close>

fun nonzero_units :: "bytes \<Rightarrow> bool" where
  "nonzero_units (a # b # bs) \<longleftrightarrow> (a \<noteq> 0 \<or> b \<noteq> 0) \<and> nonzero_units bs"
| "nonzero_units bs \<longleftrightarrow> True"

lemma nonzero_append: "even (length xs) \<Longrightarrow> nonzero_units (xs @ ys) \<longleftrightarrow> nonzero_units xs \<and> nonzero_units ys"
  by (induction xs rule: nonzero_units.induct) auto

lemma of_le_zero: "of_le [a, b] = (0 :: u16) \<Longrightarrow> a = 0 \<and> b = 0"
proof -
  assume "of_le [a, b] = (0 :: u16)"
  then have "[a, b] = to_le 2 (0 :: u16)" using to_le_of_le[of "[a, b]" 2, where 'a = 16] by simp
  then show ?thesis by (simp add: numeral_2_eq_2)
qed

lemma nonzero_units_of: "nonzero_units bs \<Longrightarrow> 0 \<notin> set (units_of bs)"
  by (induction bs rule: nonzero_units.induct) (auto dest: of_le_zero simp del: of_le.simps)

lemma nonzero_table_1: "nonzero_units upcase_table_1" "even (length upcase_table_1)"
  by (simp_all add: upcase_table_1_def)

lemma nonzero_table_2: "nonzero_units upcase_table_2" "even (length upcase_table_2)"
  by (simp_all add: upcase_table_2_def)

lemma nonzero_table_3: "nonzero_units upcase_table_3" "even (length upcase_table_3)"
  by (simp_all add: upcase_table_3_def)

lemma nonzero_table_4: "nonzero_units upcase_table_4" "even (length upcase_table_4)"
  by (simp_all add: upcase_table_4_def)

lemma nonzero_table_5: "nonzero_units upcase_table_5" "even (length upcase_table_5)"
  by (simp_all add: upcase_table_5_def)

lemma nonzero_table_6: "nonzero_units upcase_table_6" "even (length upcase_table_6)"
  by (simp_all add: upcase_table_6_def)

lemma nonzero_table_7: "nonzero_units upcase_table_7" "even (length upcase_table_7)"
  by (simp_all add: upcase_table_7_def)

lemma nonzero_table_8: "nonzero_units upcase_table_8" "even (length upcase_table_8)"
  by (simp_all add: upcase_table_8_def)

lemma nonzero_table_9: "nonzero_units upcase_table_9" "even (length upcase_table_9)"
  by (simp_all add: upcase_table_9_def)

lemma nonzero_table_10: "nonzero_units upcase_table_10" "even (length upcase_table_10)"
  by (simp_all add: upcase_table_10_def)

lemma nonzero_table_11: "nonzero_units upcase_table_11" "even (length upcase_table_11)"
  by (simp_all add: upcase_table_11_def)

lemma nonzero_table_12: "nonzero_units upcase_table_12" "even (length upcase_table_12)"
  by (simp_all add: upcase_table_12_def)

lemma nonzero_table_13: "nonzero_units upcase_table_13" "even (length upcase_table_13)"
  by (simp_all add: upcase_table_13_def)

lemma nonzero_table_14: "nonzero_units upcase_table_14" "even (length upcase_table_14)"
  by (simp_all add: upcase_table_14_def)

lemma nonzero_table_15: "nonzero_units upcase_table_15" "even (length upcase_table_15)"
  by (simp_all add: upcase_table_15_def)

lemma nonzero_table_16: "nonzero_units upcase_table_16" "even (length upcase_table_16)"
  by (simp_all add: upcase_table_16_def)

lemma nonzero_table_17: "nonzero_units upcase_table_17" "even (length upcase_table_17)"
  by (simp_all add: upcase_table_17_def)

lemma nonzero_table_18: "nonzero_units upcase_table_18" "even (length upcase_table_18)"
  by (simp_all add: upcase_table_18_def)

lemma nonzero_table_19: "nonzero_units upcase_table_19" "even (length upcase_table_19)"
  by (simp_all add: upcase_table_19_def)

lemma nonzero_table_20: "nonzero_units upcase_table_20" "even (length upcase_table_20)"
  by (simp_all add: upcase_table_20_def)

lemma nonzero_table_21: "nonzero_units upcase_table_21" "even (length upcase_table_21)"
  by (simp_all add: upcase_table_21_def)

lemma nonzero_table_22: "nonzero_units upcase_table_22" "even (length upcase_table_22)"
  by (simp_all add: upcase_table_22_def)

lemma nonzero_table_0: "upcase_table_0 = 0 # 0 # drop 2 upcase_table_0" "nonzero_units (drop 2 upcase_table_0)" "even (length (drop 2 upcase_table_0))"
  by (simp_all add: upcase_table_0_def)

definition table_rest :: bytes where
  "table_rest = concat [upcase_table_1, upcase_table_2, upcase_table_3, upcase_table_4, upcase_table_5, upcase_table_6, upcase_table_7, upcase_table_8, upcase_table_9, upcase_table_10, upcase_table_11, upcase_table_12, upcase_table_13, upcase_table_14, upcase_table_15, upcase_table_16, upcase_table_17, upcase_table_18, upcase_table_19, upcase_table_20, upcase_table_21, upcase_table_22]"

lemma nonzero_rest: "nonzero_units table_rest"
  by (simp only: table_rest_def concat.simps append_Nil2 nonzero_append nonzero_table_1 nonzero_table_2 nonzero_table_3 nonzero_table_4 nonzero_table_5 nonzero_table_6 nonzero_table_7 nonzero_table_8 nonzero_table_9 nonzero_table_10 nonzero_table_11 nonzero_table_12 nonzero_table_13 nonzero_table_14 nonzero_table_15 nonzero_table_16 nonzero_table_17 nonzero_table_18 nonzero_table_19 nonzero_table_20 nonzero_table_21 nonzero_table_22 simp_thms)

lemma table_units: "\<exists>us. units_of upcase_table = 0 # us \<and> 0 \<notin> set us"
proof -
  have "upcase_table = upcase_table_0 @ table_rest" unfolding upcase_table_def table_rest_def concat.simps by (simp only: append_assoc)
  also have "\<dots> = 0 # 0 # (drop 2 upcase_table_0 @ table_rest)" by (subst nonzero_table_0(1)) (simp only: append_Cons)
  finally have e: "upcase_table = 0 # 0 # (drop 2 upcase_table_0 @ table_rest)" .
  have "units_of upcase_table = of_le [0, 0] # units_of (drop 2 upcase_table_0 @ table_rest)" unfolding e units_of.simps ..
  moreover have "0 \<notin> set (units_of (drop 2 upcase_table_0 @ table_rest))" by (rule nonzero_units_of) (simp only: nonzero_append nonzero_table_0(2,3) nonzero_rest simp_thms)
  ultimately show ?thesis by simp
qed

lemma decompress_nonzero:
  assumes "0 \<notin> set us" "0 < oi" "\<forall>c. 0 < c \<and> c < length ts \<longrightarrow> ts ! c \<noteq> 0" "0 < c" "c < length ts"
  shows "decompress_loop us oi ts ! c \<noteq> 0 \<and> decompress_loop us oi ts ! 0 = ts ! 0"
  using assms
proof (induction us oi ts rule: decompress_loop.induct)
  case (3 ch run us oi ts)
  have "\<forall>c. 0 < c \<and> c < length ts \<longrightarrow> ts[oi := ch] ! c \<noteq> 0" using 3(3,5) by (metis list.set_intros(1) nth_list_update nth_list_update_neq)
  then show ?case using 3 by auto
next
  case (2 ch oi ts)
  then show ?case by (cases "c = oi") auto
qed auto

lemma unit_numbers: "0 < c \<Longrightarrow> c < n \<Longrightarrow> n \<le> 65536 \<Longrightarrow> map of_nat [0..<n] ! c \<noteq> (0 :: u16)"
proof -
  assume a: "0 < c" "c < n" "n \<le> 65536"
  then have "unat (of_nat c :: u16) = c" by (intro unat_of_nat_small) simp
  then show ?thesis using a by auto
qed

lemma fmt_upcase_ok: "upcase_ok fmt_upcase"
proof -
  define N :: nat where "N = 65536"
  define ts :: "u16 list" where "ts = (map of_nat [0..<N])[0 := 0]"
  obtain us where us: "units_of upcase_table = 0 # us" "0 \<notin> set us" using table_units by blast
  have t: "length ts = N" "ts ! 0 = 0" "\<forall>c. 0 < c \<and> c < length ts \<longrightarrow> ts ! c \<noteq> 0"
    using unit_numbers[of _ N] by (auto simp: ts_def N_def nth_list_update simp del: upt.simps nth_map upt_rec_numeral)
  have e: "fmt_upcase = decompress_loop us 1 ts"
    unfolding fmt_upcase_def decompress_upcase_def us(1) ts_def N_def[symmetric] by (cases us) (auto simp: N_def)
  have z: "fmt_upcase ! c \<noteq> 0" "fmt_upcase ! 0 = 0" if "0 < c" "c < N" for c
    using decompress_nonzero[OF us(2) _ t(3) that(1)] that t(1,2) unfolding e by auto
  have "c = 0" if "fmt_upcase ! unat c = fmt_upcase ! 0" for c :: u16
  proof (rule ccontr)
    assume "c \<noteq> 0"
    then have "0 < unat c" by (simp add: unat_gt_0)
    moreover have "unat c < 2 ^ LENGTH(16)" by (rule unsigned_less)
    then have "unat c < N" by (simp add: N_def)
    ultimately show False using z[of "unat c"] that by simp
  qed
  then show ?thesis by (auto simp: upcase_ok_def)
qed

end
