(* ===== verification/Exfat_Port.thy ===== *)
theory Exfat_Port
  imports Exfat_Mount_Correct Exfat_Upcase_Correct
begin

text \<open>
  The interface of the port: formatting a volume and initialising the driver on it.
\<close>

section \<open>From the formatter to the driver\<close>

lemma zero_fs_simps [simp]:
  "ef_io (fs_ef (zero_fs st)) = ef_io (fs_ef st)" "fs_heap (zero_fs st) = fs_heap st" "zero_fs (zero_fs st) = zero_fs st"
  by (simp_all add: zero_fs_def)

text \<open>The bitmap of a volume of at most 56 GiB fits the 2 MiB heap together with the up-case table.\<close>

lemma bitmap_fits:
  assumes "fmt_params p v" "fmt_fits v" "v \<le> 56 * 2 ^ 30"
  shows "BMAP_SIZE (unat (sb_cluster_count (fmt_sb p))) + 142169 \<le> 2 * 1024 * 1024"
  using bmap_size_bound[OF assms(1,2)] div_le_mono[OF assms(3), of 32768] by simp

lemma exfat_init_formatted:
  assumes dev: "block_device ops sect dev_ok lbas" and cap: "capacity_keeps sect dev_ok sata_blocks" "capacity_covers ops dev_ok ms_blocks sata_blocks v"
    and vol: "{..<v} \<subseteq> vol_bytes lbas P" and fm: "disk_formatted p v (vol_byte sect (ef_io (fs_ef (g_ef port))))" and io: "io_ok dev_ok P (ef_io (fs_ef (g_ef port)))"
    and h: "fs_heap (g_ef port) = 0" and n: "v \<le> 56 * 2 ^ 30"
  shows "\<exists>port'. exfat_init ops ms_blocks sata_blocks port = Some (0, port') \<and> g_initialized port' \<and> exfat_mounted dev_ok P (fmt_sb p) (fs_ef (g_ef port')) \<and>
    fresh_mount p v (g_ef port') \<and> vol_byte sect (ef_io (fs_ef (g_ef port'))) = vol_byte sect (ef_io (fs_ef (g_ef port)))"
proof -
  have p: "fmt_params p v" "fmt_fits v" using fm by (auto simp: disk_formatted_def)
  have b: "block_is_present ops (io_disk (ef_io (fs_ef (g_ef port))))" using block_device.present[OF dev] io by (simp add: io_ok_def)
  have "\<exists>st'. exfat_mount ops ms_blocks sata_blocks False [] (zero_fs (g_ef port)) = Some (0, st') \<and> exfat_mounted dev_ok P (fmt_sb p) (fs_ef st') \<and> fresh_mount p v st' \<and>
    vol_byte sect (ef_io (fs_ef st')) = vol_byte sect (ef_io (fs_ef (zero_fs (g_ef port))))"
    by (rule exfat_mount_formatted[OF dev cap vol]) (use fm io h bitmap_fits[OF p n] in auto)
  then show ?thesis using b by (auto simp: exfat_init_def)
qed

lemma exfat_format_formatted:
  assumes dev: "block_device ops sect dev_ok lbas" and cap: "capacity_keeps sect dev_ok sata_blocks" and io: "io_ok dev_ok P (mk_io st)"
    and vol: "{..<v} \<subseteq> vol_bytes lbas P" and v: "v = 512 * unat total_sectors" "fmt_fits v"
    and p: "mk_param st = mkfs_param_init\<lparr>mp_volume_size := n\<rparr>" and h: "unat (exfat_heap_used st) \<le> 1024 * 1024"
  obtains st' where "exfat_format ops ms_blocks sata_blocks total_sectors st = Some (0, st')" "io_ok dev_ok P (mk_io st')" "exfat_heap_used st' = 0"
    "mk_param st' = mkfs_param_init\<lparr>mp_volume_size := int v\<rparr>" "disk_formatted (mkfs_param_init\<lparr>mp_volume_size := int v\<rparr>) v (vol_byte sect (mk_io st'))"
proof -
  have s: "exfat_mkfs_set_volume_size (int v) (mk_param st) = mkfs_param_init\<lparr>mp_volume_size := int v\<rparr>" by (simp add: p exfat_mkfs_set_volume_size_def)
  have fp: "fmt_params (mkfs_param_init\<lparr>mp_volume_size := int v\<rparr>) v" by (simp add: fmt_params_def mkfs_param_init_def)
  show thesis using exfat_format_regions[OF dev cap io vol v, unfolded s, OF fp h] that fp v(2) unfolding disk_formatted_def by metis
qed

text \<open>A name the driver can convert; on a volume just mounted nothing is listed and nothing is found.\<close>

definition valid_name :: "bytes \<Rightarrow> bool" where
  "valid_name name \<longleftrightarrow> fst (exfat_utf8_to_utf16 TYPE(16) (replicate 256 0) name 256) = UTF_OK"

lemma fresh_mount_empty:
  assumes "fresh_mount p v (g_ef port)" "g_initialized port"
  shows "exfat_list_files ops True port = Some ((0, []), port)"
    "components path = name # names \<Longrightarrow> valid_name name \<Longrightarrow> exfat_lookup ops path (g_ef port) = Some ((-ENOENT, None), g_ef port)"
proof -
  let ?st = "g_ef port"
  obtain r t where t: "fs_root ?st = Some r" "fs_nodes ?st r = Some t" "tn_cached t" "tn_child t = None" "nd_references (tn_node t) = 1" "tn_name t = replicate 256 0"
    and up: "fs_upcase ?st = Some fmt_upcase" using assms(1) by (auto simp: fresh_mount_def)
  have "sound_at ?st r" using t(2,5,6) tree_name_sound(1,4) by (simp add: sound_at_def node_sound_def tree_name_def)
  moreover have c: "cached_dir ?st r []" using t(2-4) calculation by (auto simp: cached_dir_def children_def)
  ultimately show "exfat_list_files ops True port = Some ((0, []), port)" using exfat_list_cached[OF c assms(2) t(1)] by simp
  show "exfat_lookup ops path ?st = Some ((-ENOENT, None), ?st)" if n: "components path = name # names" "valid_name name"
  proof -
    obtain buffer where "exfat_utf8_to_utf16 TYPE(16) (replicate 256 0) name 256 = (UTF_OK, buffer)" using n(2) by (auto simp: valid_name_def prod_eq_iff)
    then have "walk ?st fmt_upcase r (components path) None" unfolding n(1) by (intro walk_missing[OF c]) auto
    then show ?thesis using lookup_path_walks[OF _ \<open>sound_at ?st r\<close> up fmt_upcase_ok] get_add_ref[OF \<open>sound_at ?st r\<close>] t(1) by (simp add: exfat_lookup_def)
  qed
qed

definition ram_run :: "(nat \<Rightarrow> bytes) mkfs_run" where
  "ram_run = \<lparr>mk_io = ef_io sample_exfat, mk_dev = \<lparr>dev_fd = -1, dev_mode = EXFAT_MODE_RW, dev_size = 0, dev_pos = 0\<rparr>, mk_param = mkfs_param_init, exfat_heap_used = 0\<rparr>"

definition ram_blocks :: "(nat \<Rightarrow> bytes) \<Rightarrow> u64" where "ram_blocks d = 2 ^ 40"

definition ram_sata_blocks :: "(nat \<Rightarrow> bytes) \<Rightarrow> int \<times> u64 \<times> (nat \<Rightarrow> bytes)" where "ram_sata_blocks d = (0, 2 ^ 40, d)"

lemma ram_capacity: "capacity_keeps (\<lambda>d. d) ram_ok ram_sata_blocks" "v \<le> 2 ^ 49 \<Longrightarrow> capacity_covers ram_storage ram_ok ram_blocks ram_sata_blocks v"
proof -
  show "capacity_keeps (\<lambda>d. d) ram_ok ram_sata_blocks" by (simp add: capacity_keeps_def ram_sata_blocks_def)
  have "sint (562949953421312 :: u64) = 562949953421312" by code_simp
  then show "v \<le> 2 ^ 49 \<Longrightarrow> capacity_covers ram_storage ram_ok ram_blocks ram_sata_blocks v"
    by (auto simp: capacity_covers_def exfat_open_def ram_blocks_def ram_sata_blocks_def ram_storage_def)
qed

text \<open>
  C2 (roundtrip).  What the formatter writes, the driver mounts: on every device that keeps the block
  contract, for a volume of up to 56 GiB, \<^verbatim>\<open>exfat_format\<close> succeeds, and \<^verbatim>\<open>exfat_init\<close> on the disk and heap it leaves succeeds.
  The checksum of the boot region, the super block, the table, the bitmap and the up-case table it wrote are accepted; the mounted volume satisfies the
  invariant of the cluster layer, its root directory is cached and one cluster long, exactly the clusters of the three system files are taken, the listing is empty and every name is reported missing.
\<close>

theorem exfat_format_init:
  assumes "block_device ops sect dev_ok lbas" "capacity_keeps sect dev_ok sata_blocks" "capacity_covers ops dev_ok ms_blocks sata_blocks v"
    "io_ok dev_ok P (mk_io st)" "{..<v} \<subseteq> vol_bytes lbas P" "v = 512 * unat total_sectors" "fmt_fits v" "v \<le> 56 * 2 ^ 30"
    "mk_param st = mkfs_param_init\<lparr>mp_volume_size := n\<rparr>" "unat (exfat_heap_used st) \<le> 1024 * 1024"
    and P: "p = mkfs_param_init\<lparr>mp_volume_size := int v\<rparr>"
  shows "\<exists>st'. exfat_format ops ms_blocks sata_blocks total_sectors st = Some (0, st') \<and>
    (\<forall>port. ef_io (fs_ef (g_ef port)) = mk_io st' \<and> fs_heap (g_ef port) = exfat_heap_used st' \<longrightarrow>
       (\<exists>port'. exfat_init ops ms_blocks sata_blocks port = Some (0, port') \<and> g_initialized port' \<and>
          exfat_mounted dev_ok P (fmt_sb p) (fs_ef (g_ef port')) \<and> fresh_mount p v (g_ef port') \<and>
          exfat_list_files ops True port' = Some ((0, []), port') \<and>
          (\<forall>path name names. components path = name # names \<and> valid_name name \<longrightarrow> exfat_lookup ops path (g_ef port') = Some ((-ENOENT, None), g_ef port'))))"
proof -
  obtain st' where f: "exfat_format ops ms_blocks sata_blocks total_sectors st = Some (0, st')" "io_ok dev_ok P (mk_io st')" "exfat_heap_used st' = 0"
    "disk_formatted p v (vol_byte sect (mk_io st'))" using exfat_format_formatted[OF assms(1,2,4-7,9,10)] unfolding P by metis
  have "\<exists>port'. exfat_init ops ms_blocks sata_blocks port = Some (0, port') \<and> g_initialized port' \<and>
      exfat_mounted dev_ok P (fmt_sb p) (fs_ef (g_ef port')) \<and> fresh_mount p v (g_ef port') \<and>
          exfat_list_files ops True port' = Some ((0, []), port') \<and>
          (\<forall>path name names. components path = name # names \<and> valid_name name \<longrightarrow> exfat_lookup ops path (g_ef port') = Some ((-ENOENT, None), g_ef port'))"
    if "ef_io (fs_ef (g_ef port)) = mk_io st'" "fs_heap (g_ef port) = exfat_heap_used st'" for port
    using exfat_init_formatted[OF assms(1-3,5), of p port] f(2-4) that assms(8) fresh_mount_empty by fastforce
  then show ?thesis using f(1) by blast
qed

theorem exfat_format_init_witness:
  "\<exists>st'. exfat_format ram_storage ram_blocks ram_sata_blocks 1024 ram_run = Some (0, st') \<and>
    (\<forall>port. ef_io (fs_ef (g_ef port)) = mk_io st' \<and> fs_heap (g_ef port) = exfat_heap_used st' \<longrightarrow>
       (\<exists>port'. exfat_init ram_storage ram_blocks ram_sata_blocks port = Some (0, port') \<and> g_initialized port' \<and>
          exfat_mounted ram_ok 0 (fmt_sb (mkfs_param_init\<lparr>mp_volume_size := int 524288\<rparr>)) (fs_ef (g_ef port')) \<and>
          fresh_mount (mkfs_param_init\<lparr>mp_volume_size := int 524288\<rparr>) 524288 (g_ef port') \<and>
          exfat_list_files ram_storage True port' = Some ((0, []), port') \<and>
          (\<forall>path name names. components path = name # names \<and> valid_name name \<longrightarrow> exfat_lookup ram_storage path (g_ef port') = Some ((-ENOENT, None), g_ef port'))))"
  by (rule exfat_format_init[OF ram_block_device ram_capacity, where n = 0])
    (auto simp: ram_run_def mkfs_param_init_def sample_exfat_def io_ok_def ram_ok_def vol_bytes_def fmt_fits_def fmt_root_def fmt_uct_def fmt_cbm_def fmt_cbm_size_def up4096_def)

section \<open>Directories by cluster\<close>

text \<open>The temporary root is a directory of size 0: it has no entries.\<close>

lemma empty_dir_read:
  assumes "fs_nodes st i = Some t" "nd_attrib (tn_node t) AND EXFAT_ATTRIB_DIR \<noteq> 0" "nd_size (tn_node t) = 0" "tn_parent t = None" "\<not> nd_parent (tn_node t)"
  shows "read_dir_entries ops i 1 0 st = Some ((-ENOENT, [replicate 32 0]), st)"
proof -
  have "tn_base t = tn_node t" using assms(4,5) by (simp add: tn_base_def)
  then show ?thesis using assms
    by (simp add: read_dir_entries_def on_node_def exfat_generic_pread_def entries_rc_def put_tn_def fun_upd_idem)
qed

definition temp_at :: "u64 \<Rightarrow> u32 \<Rightarrow> int \<Rightarrow> bool \<Rightarrow> 's exfat_fs \<Rightarrow> 's exfat_fs" where
  "temp_at i c k cached st = put_tn i ((temp_root c)\<lparr>tn_cached := cached, tn_node := (tn_node (temp_root c))\<lparr>nd_references := k\<rparr>\<rparr>) st"

lemma temp_at_node: "fs_nodes (temp_at i c k cached st) i = Some ((temp_root c)\<lparr>tn_cached := cached, tn_node := (tn_node (temp_root c))\<lparr>nd_references := k\<rparr>\<rparr>)"
  by (simp add: temp_at_def put_tn_def)

lemma temp_at_root [simp]: "fs_root (temp_at i c k cached st) = fs_root st"
  by (simp add: temp_at_def put_tn_def)

lemma temp_at_get: "exfat_get_node i (temp_at i c k cached st) = Some (temp_at i c (k + 1) cached st)"
  by (simp add: exfat_get_node_def change_tn_def temp_at_def put_tn_def)

lemma temp_at_put: "fs_root st = Some i \<Longrightarrow> 0 < k \<Longrightarrow> exfat_put_node i (temp_at i c k cached st) = Some (temp_at i c (k - 1) cached st)"
  by (simp add: exfat_put_node_def temp_at_def put_tn_def)

lemma temp_at_cache: "exfat_cache_directory ops i (temp_at i c k cached st) = Some (0, temp_at i c k True st)"
proof (cases cached)
  case False
  let ?s = "temp_at i c k False st"
  have "read_dir_entries ops i 1 0 ?s = Some ((-ENOENT, [replicate 32 0]), ?s)"
    by (rule empty_dir_read[OF temp_at_node]) (simp_all add: temp_root_def zero_node_def)
  then have "cache_loop ops i 0 None ?s = Some (-ENOENT, ?s)" by (simp add: cache_loop.simps readdir.simps)
  then show ?thesis using False temp_at_node[of i c k False st] by (simp add: exfat_cache_directory_def change_tn_def) (simp add: temp_at_def put_tn_def temp_root_def zero_node_def)
qed (simp add: exfat_cache_directory_def temp_at_node)

lemma temp_at_lookup_name:
  assumes "fs_root st = Some i" "0 \<le> k"
  obtains rc cached' where "lookup_name ops i name (temp_at i c k cached st) = Some ((rc, None), temp_at i c k cached' st)" "rc \<noteq> 0"
proof (cases "exfat_utf8_to_utf16 TYPE(16) (replicate 256 0) name 256")
  case (Pair rc buffer)
  show thesis
  proof (cases "rc = UTF_OK")
    case False
    then have "utf_errno rc \<noteq> 0" by (cases rc) auto
    then show thesis using that[of "utf_errno rc" cached] False Pair by (simp add: lookup_name_def)
  next
    case True
    have "lookup_loop buffer \<lparr>it_parent = Some i, it_current = None\<rparr> (temp_at i c (k + 1) True st) = Some ((-ENOENT, None), temp_at i c k True st)"
      using assms temp_at_put[OF assms(1), of "k + 1" c True] by (simp add: lookup_loop.simps exfat_readdir_def temp_at_node exfat_closedir_def temp_root_def zero_node_def)
    then show thesis using that[of "-ENOENT" True] True Pair by (simp add: lookup_name_def exfat_opendir_def temp_at_get temp_at_cache)
  qed
qed

text \<open>A name that begins with neither a slash nor a dot.\<close>

lemma lookup_in_cluster_fails:
  assumes "name \<noteq> []" "hd name \<noteq> 0x2f" "hd name \<noteq> 0x2e"
  obtains rc node st' where "lookup_in_cluster ops cluster name st = Some ((rc, node), st')" "rc \<noteq> 0"
proof (cases "alloc 608 st")
  case (Pair p st1)
  show thesis
  proof (cases p)
    case None
    then show thesis using that Pair by (simp add: lookup_in_cluster_def with_temp_root_def)
  next
    case (Some i)
    let ?s = "st1\<lparr>fs_root := Some i\<rparr>"
    have t: "(put_tn i (temp_root cluster) st1)\<lparr>fs_root := Some i\<rparr> = temp_at i cluster 0 False ?s" by (simp add: temp_at_def put_tn_def temp_root_def zero_node_def)
    obtain n p where g: "get_comp name = (n, p)" "n \<noteq> 0" "hd p \<noteq> 0x2e" using assms by (cases name) (auto simp: get_comp_def Let_def)
    obtain rc cached' where l: "lookup_name ops i (take n p) (temp_at i cluster 1 False ?s) = Some ((rc, None), temp_at i cluster 1 cached' ?s)" "rc \<noteq> 0"
      by (rule temp_at_lookup_name[of ?s i 1 ops "take n p" cluster False]) auto
    have "lookup_path ops name i (temp_at i cluster 1 False ?s) = Some ((rc, None), temp_at i cluster 0 cached' ?s)"
      using g l temp_at_put[of ?s i 1 cluster cached'] by (simp add: lookup_path.simps)
    then have "exfat_lookup ops name (temp_at i cluster 0 False ?s) = Some ((rc, None), temp_at i cluster 0 cached' ?s)"
      using temp_at_get[of i cluster 0 False ?s] by (simp add: exfat_lookup_def)
    then show thesis using that l(2) Pair Some t by (simp add: lookup_in_cluster_def with_temp_root_def)
  qed
qed

text \<open>
  C4 (error).  A file is never found through the cluster of its directory: whatever the device holds, \<^verbatim>\<open>exfat_get_file_info_in\<close> reports that
  there is no such file, and \<^verbatim>\<open>exfat_write_file_in\<close> never succeeds.
\<close>

theorem files_in_cluster_lost:
  assumes "g_initialized port" "name \<noteq> []" "hd name \<noteq> 0x2f" "hd name \<noteq> 0x2e"
  shows "(\<exists>port'. exfat_get_file_info_in ops cluster name (Some info) port = Some ((-1, Some (info\<lparr>fi_valid := False\<rparr>)), port')) \<and>
    (\<forall>rc port'. exfat_write_file_in ops cluster name data n port = Some (rc, port') \<longrightarrow> rc = -1)"
proof -
  have a: "\<exists>rc node st'. lookup_in_cluster ops cluster name st = Some ((rc, node), st') \<and> rc \<noteq> 0" for st
    using lookup_in_cluster_fails[OF assms(2-4)] by metis
  then obtain rc node st' where l: "lookup_in_cluster ops cluster name (g_ef port) = Some ((rc, node), st')" "rc \<noteq> 0" by blast
  have "r = None" if o: "open_or_create (lookup_in_cluster ops cluster name) f (g_ef port) = Some (r, st2)" for f r st2
  proof (cases "f st'")
    case (Some x)
    obtain rc2 st3 where x: "x = (rc2, st3)" by (cases x)
    obtain rc3 node3 st4 where "lookup_in_cluster ops cluster name st3 = Some ((rc3, node3), st4)" "rc3 \<noteq> 0" using a by blast
    then show ?thesis using o l Some x by (auto simp: open_or_create_def split: if_splits)
  qed (use o l in \<open>simp add: open_or_create_def\<close>)
  then show ?thesis using assms(1) l
    by (auto simp: exfat_get_file_info_in_def exfat_write_file_in_def on_ef_def file_info_def write_found_def split: option.splits)
qed

definition ram_port :: "(nat \<Rightarrow> bytes) exfat_port" where
  "ram_port = \<lparr>g_ef = \<lparr>fs_ef = sample_exfat, fs_dev = None, fs_upcase = None, fs_root = None, fs_chunk = False, fs_label = replicate 46 0, fs_dmask = 0, fs_fmask = 0,
     fs_repair = EXFAT_REPAIR_NO, fs_nodes = Map.empty, fs_heap = 0, exfat_errors_fixed = 0\<rparr>, g_initialized = True\<rparr>"

theorem files_in_cluster_lost_witness:
  "(\<exists>port'. exfat_get_file_info_in ram_storage 5 [0x41, 0x42] (Some \<lparr>fi_valid = True, fi_size = 0, fi_is_directory = False, fi_first_cluster = 0\<rparr>) ram_port =
      Some ((-1, Some \<lparr>fi_valid = False, fi_size = 0, fi_is_directory = False, fi_first_cluster = 0\<rparr>), port')) \<and>
    fst ` set_option (exfat_write_file_in ram_storage 5 [0x41, 0x42] [1] 1 ram_port) \<subseteq> {-1}"
  using files_in_cluster_lost[of ram_port "[0x41, 0x42]" ram_storage 5 "\<lparr>fi_valid = True, fi_size = 0, fi_is_directory = False, fi_first_cluster = 0\<rparr>" "[1]" 1]
  by (auto simp: ram_port_def)

end
