(* ===== verification/Exfat_Limits.thy ===== *)
theory Exfat_Limits
  imports Exfat_Port
begin

text \<open>
  The limit of the driver's heap: from 64 GiB on the bitmap of a volume does not fit, and what the formatter has written cannot be mounted.
\<close>

section \<open>A bitmap that does not fit\<close>

lemma large_count:
  assumes "fmt_params p v" "fmt_fits v" "2 ^ 36 \<le> v"
  shows "2 * 1024 * 1024 < 5240 + BMAP_SIZE (unat (sb_cluster_count (fmt_sb p)))" "BMAP_SIZE (unat (sb_cluster_count (fmt_sb p))) < 2 ^ 32"
proof -
  have "fmt_cbm v < 65536 + v div 4096 * 4 + 4096" unfolding fmt_cbm_def by (rule up4096(2))
  moreover have "v div 4096 * 4 \<le> v div 1024" by linarith
  ultimately have "v - v div 1024 - 69632 \<le> v - fmt_cbm v" by linarith
  moreover have "2 ^ 36 - 2 ^ 26 \<le> v - v div 1024" using assms(3) by simp
  ultimately have "2 ^ 36 - 2 ^ 26 - 69632 \<le> v - fmt_cbm v" by linarith
  then have "(2 ^ 36 - 2 ^ 26 - 69632) div 4096 \<le> unat (sb_cluster_count (fmt_sb p))" unfolding fmt_count(1)[OF assms(1,2)] by (rule div_le_mono)
  then have "(2 ^ 36 - 2 ^ 26 - 69632) div 4096 \<le> 8 * BMAP_SIZE (unat (sb_cluster_count (fmt_sb p)))" by (simp add: BMAP_SIZE_def)
  then show "2 * 1024 * 1024 < 5240 + BMAP_SIZE (unat (sb_cluster_count (fmt_sb p)))" by simp
  have "v div 32768 < 2 ^ 29" using fmt_order(5)[OF assms(2)] by (simp add: less_mult_imp_div_less)
  then show "BMAP_SIZE (unat (sb_cluster_count (fmt_sb p))) < 2 ^ 32" using bmap_size_bound[OF assms(1,2)] by simp
qed

context exfat_volume
begin

lemma readdir_stop:
  assumes "at_root r c f st" "a + 32 \<le> clus_size sb" "f (clus_off sb c + a) \<noteq> EXFAT_ENTRY_FILE"
    "\<And>io. ok io \<Longrightarrow> img io = f \<Longrightarrow>
       \<exists>st1. read_other ops r (map f [clus_off sb c + a..<clus_off sb c + a + 32]) (of_nat a) (with_io io st) = Some (Some rc, st1) \<and> Q st1"
  obtains st1 where "Q st1" "readdir ops r (of_nat a) st = Some ((rc, None, of_nat a), st1)"
proof -
  have "\<exists>res. \<forall>io. ok io \<and> img io = f \<longrightarrow>
      read_other ops r (map f [clus_off sb c + a..<clus_off sb c + a + 32]) (of_nat a) (with_io io st) = Some (Some rc, res io) \<and> Q (res io)"
    using assms(4) by (intro choice) blast
  then obtain res where res: "ok io \<Longrightarrow> img io = f \<Longrightarrow>
      read_other ops r (map f [clus_off sb c + a..<clus_off sb c + a + 32]) (of_nat a) (with_io io st) = Some (Some rc, res io) \<and> Q (res io)" for io by blast
  then obtain io where "ok io" "img io = f" "readdir ops r (of_nat a) st = Some ((rc, None, of_nat a), res io)"
    using readdir_other[OF assms(1-3), of "\<lambda>io. (Some rc, res io)"] by auto
  then show thesis using that res by blast
qed

lemma read_bitmap_fails:
  assumes "ef_sb (fs_ef st) = sb" "data_cluster sb (be_start_cluster e)" "(unat (sb_cluster_count sb) + 7) div 8 \<le> unat (be_size e)"
    "unat (fs_heap st) = h" "BMAP_SIZE (unat (sb_cluster_count sb)) = n" "n < 2 ^ 32" "h < 2 ^ 32" "2 * 1024 * 1024 < h + n"
  shows "\<exists>st1. read_bitmap ops e st = Some (Some (-ENOMEM), st1) \<and> fs_nodes st1 = fs_nodes st \<and> fs_root st1 = fs_root st"
proof -
  have u: "unat (of_nat n :: u64) = n" by (rule unat_of_nat_small) (use assms(6) in simp)
  have b: "\<not> be_size e < ucast ((sb_cluster_count sb + 8 - 1) div 8)" using assms(3) count_bytes by (simp add: word_less_nat_alt)
  let ?s = "st\<lparr>fs_ef := (fs_ef st)\<lparr>cmap_start_cluster := be_start_cluster e, cmap_size := sb_cluster_count sb, cmap_chunk_size := sb_cluster_count sb\<rparr>\<rparr>"
  have "alloc (of_nat n) ?s = (None, ?s)" by (rule alloc_none) (use assms u in auto)
  then show ?thesis using b assms(1,2,5) by (simp add: read_bitmap_def Let_def invalid_iff)
qed

lemma readdir_no_memory:
  assumes fm: "disk_formatted p v f" and sb: "sb = fmt_sb p" and root: "at_root r (sb_rootdir_cluster sb) f st" and h: "fs_heap st = 5240" and v: "2 ^ 36 \<le> v"
  shows "\<exists>st1. readdir ops r 0 st = Some ((-ENOMEM, None, 32), st1) \<and> fs_nodes st1 = fs_nodes st \<and> fs_root st1 = fs_root st"
proof -
  have p: "fmt_params p v" "fmt_fits v" using fm by (auto simp: disk_formatted_def)
  note cs = fmt_clus_size[OF p, folded sb] and rc = fmt_root_cluster[OF p, folded sb] and cnt = fmt_count[OF p, folded sb]
  obtain l b u where e: "map f [fmt_root v..<fmt_root v + 32] = l" "map f [fmt_root v + 32..<fmt_root v + 32 + 32] = b"
    "l ! 0 = 3" "b ! 0 = 0x81" "be_start_cluster (bitmap_of b) = 2" "unat (be_size (bitmap_of b)) = fmt_cbm_size v" by (rule formatted_root[OF fm]) (rule that; assumption)
  have hd: "f (fmt_root v) = 3" "f (fmt_root v + 32) = 0x81"
    using e(1)[THEN arg_cong[where f = "\<lambda>x. x ! 0"]] e(2)[THEN arg_cong[where f = "\<lambda>x. x ! 0"]] e(3,4) by simp_all
  obtain st1 where s1: "\<exists>io. ok io \<and> img io = f \<and> st1 = with_io io st" "readdir ops r (of_nat 0) st = readdir ops r (of_nat (0 + 32)) st1"
    by (rule readdir_skip[OF root, of 0 "\<lambda>st1. \<exists>io. ok io \<and> img io = f \<and> st1 = with_io io st"])
      (use e(1,3) hd cs rc(3) in \<open>auto simp: read_other_def read_unknown_def\<close>)
  obtain io1 where io1: "ok io1" "img io1 = f" "st1 = with_io io1 st" using s1(1) by blast
  have r1: "at_root r (sb_rootdir_cluster sb) f st1" using at_root_with_io[OF root io1(1,2)] io1(3) by simp
  have d2: "data_cluster sb 2" using cnt(2) by (simp add: data_cluster_def)
  have sz: "(unat (sb_cluster_count sb) + 7) div 8 \<le> fmt_cbm_size v" unfolding cnt(1) fmt_cbm_size_def by simp
  have bm: "\<exists>st2. read_other ops r b (of_nat 32) (with_io io st1) = Some (Some (-ENOMEM), st2) \<and> fs_nodes st2 = fs_nodes st \<and> fs_root st2 = fs_root st" for io
  proof -
    have "\<exists>st2. read_bitmap ops (bitmap_of b) (with_io io st1) = Some (Some (-ENOMEM), st2) \<and> fs_nodes st2 = fs_nodes (with_io io st1) \<and> fs_root st2 = fs_root (with_io io st1)"
      by (rule read_bitmap_fails[OF _ _ _ refl refl]) (use root io1(3) e(5,6) d2 sz h large_count[OF p v, folded sb] in \<open>auto simp: with_io_def at_root_def\<close>)
    then show ?thesis using e(4) io1(3) by (auto simp: read_other_def with_io_def)
  qed
  obtain st2 where "fs_nodes st2 = fs_nodes st \<and> fs_root st2 = fs_root st" "readdir ops r (of_nat 32) st1 = Some ((-ENOMEM, None, of_nat 32), st2)"
    by (rule readdir_stop[OF r1, of 32 "-ENOMEM" "\<lambda>st2. fs_nodes st2 = fs_nodes st \<and> fs_root st2 = fs_root st"]) (use bm e(2) hd cs rc(3) in \<open>auto simp del: map_eq_conv\<close>)
  then show ?thesis using s1(2) by auto
qed

lemma mount_tree_no_memory:
  assumes fm: "disk_formatted p v f" and sb: "sb = fmt_sb p" and h: "fs_heap st = 5240" and v: "2 ^ 36 \<le> v"
    and t: "fs_nodes st r = Some t" "nd_parent (tn_node t) \<longleftrightarrow> tn_parent t \<noteq> None" "one_cluster (tn_node t) (sb_rootdir_cluster sb)" "\<not> tn_cached t" "nd_references (tn_node t) = 0"
    and io: "ok (ef_io (fs_ef st))" "ef_sb (fs_ef st) = sb" "img (ef_io (fs_ef st)) = f" and root: "fs_root st = Some r"
  shows "\<exists>st'. mount_tree ops r st = Some (-EIO, st')"
proof -
  let ?t = "t\<lparr>tn_node := (tn_node t)\<lparr>nd_references := 1\<rparr>\<rparr>"
  let ?st = "put_tn r ?t st"
  have g: "exfat_get_node r st = Some ?st" using t(1,5) by (simp add: exfat_get_node_def change_tn_def)
  have at: "at_root r (sb_rootdir_cluster sb) f ?st" using t(1,3) io tn_base_same[of ?t] t(2) by (simp add: at_root_def put_tn_def one_cluster_def)
  obtain st1 where x: "readdir ops r 0 ?st = Some ((-ENOMEM, None, 32), st1)" "fs_nodes st1 = fs_nodes ?st" "fs_root st1 = fs_root ?st"
    using readdir_no_memory[OF fm sb at _ v] h by (auto simp: put_tn_def)
  have n1: "fs_nodes st1 r = Some ?t" using x(2) by (simp add: put_tn_def)
  have c: "exfat_cache_directory ops r ?st = Some (-ENOMEM, put_tn r (?t\<lparr>tn_child := None\<rparr>) st1)"
    using x(1) t(4) n1 by (simp add: exfat_cache_directory_def cache_loop.simps change_tn_def put_tn_def)
  show ?thesis using g c n1 x(3) root
    by (simp add: mount_tree_def exfat_put_node_def exfat_reset_cache_def reset_cache.simps reset_node_def put_references.simps change_tn_def put_tn_def)
qed

end

lemma large_fits:
  assumes "2 ^ 36 \<le> v" "v < 2 ^ 44"
  shows "fmt_fits v"
proof -
  have a: "fmt_cbm v < 65536 + v div 4096 * 4 + 4096" unfolding fmt_cbm_def by (rule up4096(2))
  have b: "fmt_cbm_size v \<le> v div 4096 + 1" unfolding fmt_cbm_size_def using div_le_mono[of "v - fmt_cbm v" v 4096] by linarith
  have c: "fmt_uct v < fmt_cbm v + fmt_cbm_size v + 4096" unfolding fmt_uct_def by (rule up4096(2))
  have "fmt_root v < fmt_uct v + 5836 + 4096" unfolding fmt_root_def by (rule up4096(2))
  then have "fmt_root v < v div 4096 * 5 + 100000" using a b c by linarith
  moreover have "v div 4096 * 5 + 100000 + 4096 \<le> v" using assms(1) by simp
  ultimately show ?thesis using assms(2) by (simp add: fmt_fits_def)
qed

lemma exfat_init_no_memory:
  assumes dev: "block_device ops sect dev_ok lbas" and cap: "capacity_keeps sect dev_ok sata_blocks" "capacity_covers ops dev_ok ms_blocks sata_blocks v"
    and vol: "{..<v} \<subseteq> vol_bytes lbas P" and fm: "disk_formatted p v (vol_byte sect (ef_io (fs_ef (g_ef port))))" and io: "io_ok dev_ok P (ef_io (fs_ef (g_ef port)))"
    and h: "fs_heap (g_ef port) = 0" and v: "2 ^ 36 \<le> v"
  shows "\<exists>port'. exfat_init ops ms_blocks sata_blocks port = Some (-1, port')"
proof -
  have p: "fmt_params p v" "fmt_fits v" using fm by (auto simp: disk_formatted_def)
  let ?f = "vol_byte sect (ef_io (fs_ef (g_ef port)))" and ?sb = "fmt_sb p" and ?z = "zero_fs (g_ef port)"
  have E: "exfat_volume ops (vol_byte sect) (io_ok dev_ok P) (vol_bytes lbas P) ?sb" by (rule exfat_on_block_device[OF dev fmt_geometry[OF p vol]])
  have z: "disk_formatted p v (vol_byte sect (ef_io (fs_ef ?z)))" "io_ok dev_ok P (ef_io (fs_ef ?z))" "fs_heap ?z = 0" using fm io h by simp_all
  obtain io1 d where m: "exfat_mount ops ms_blocks sata_blocks False [] ?z = mount_volume ops d (opened io1 d ?sb 536 ?z)"
    "io_ok dev_ok P io1" "vol_byte sect io1 = ?f" "int v \<le> sint (dev_size d)" using exfat_mount_volume[OF dev cap vol z] by (metis zero_fs_simps(1))
  let ?o = "opened io1 d ?sb 536 ?z" and ?t = "exfat_volume.fmt_root_node ?sb"
  note t = exfat_volume.fmt_root_node_ok[OF E p refl]
  have "\<exists>io. mount_volume ops d ?o = mount_tree ops 4632 ((put_tn 4632 ?t ?o)\<lparr>fs_ef := (fs_ef ?o)\<lparr>ef_io := io, zero_cluster := replicate 4096 0\<rparr>, fs_root := Some 4632, fs_heap := 5240\<rparr>) \<and>
      io_ok dev_ok P io \<and> vol_byte sect io = ?f"
    by (rule exfat_volume.mount_volume_formatted[OF E fm refl vol]) (use m in auto)
  then obtain io2 where r: "mount_volume ops d ?o = mount_tree ops 4632 ((put_tn 4632 ?t ?o)\<lparr>fs_ef := (fs_ef ?o)\<lparr>ef_io := io2, zero_cluster := replicate 4096 0\<rparr>, fs_root := Some 4632, fs_heap := 5240\<rparr>)"
    "io_ok dev_ok P io2" "vol_byte sect io2 = ?f" by blast
  let ?s = "(put_tn 4632 ?t ?o)\<lparr>fs_ef := (fs_ef ?o)\<lparr>ef_io := io2, zero_cluster := replicate 4096 0\<rparr>, fs_root := Some 4632, fs_heap := 5240\<rparr>"
  have "\<exists>st'. mount_tree ops 4632 ?s = Some (-EIO, st')"
    by (rule exfat_volume.mount_tree_no_memory[OF E fm refl _ v]) (use t r in \<open>auto simp: put_tn_def\<close>)
  then obtain st' where "exfat_mount ops ms_blocks sata_blocks False [] ?z = Some (-EIO, st')" using m(1) r(1) by auto
  moreover have "block_is_present ops (io_disk (ef_io (fs_ef (g_ef port))))" using block_device.present[OF dev] io by (simp add: io_ok_def)
  ultimately show ?thesis by (simp add: exfat_init_def)
qed

text \<open>
  C38 (error).  The heap of the driver is too small for the volumes the formatter makes: from 64 GiB on the formatter succeeds, but on
  the volume it leaves \<^verbatim>\<open>exfat_init\<close> runs out of memory for the bitmap and returns -1.
\<close>

theorem large_volume_not_mounted:
  assumes "block_device ops sect dev_ok lbas" "capacity_keeps sect dev_ok sata_blocks" "capacity_covers ops dev_ok ms_blocks sata_blocks v"
    "io_ok dev_ok P (mk_io st)" "{..<v} \<subseteq> vol_bytes lbas P" "v = 512 * unat total_sectors" "2 ^ 36 \<le> v" "v < 2 ^ 44"
    "mk_param st = mkfs_param_init\<lparr>mp_volume_size := n\<rparr>" "unat (exfat_heap_used st) \<le> 1024 * 1024"
  shows "\<exists>st'. exfat_format ops ms_blocks sata_blocks total_sectors st = Some (0, st') \<and>
    (\<forall>port. ef_io (fs_ef (g_ef port)) = mk_io st' \<and> fs_heap (g_ef port) = exfat_heap_used st' \<longrightarrow>
       (\<exists>port'. exfat_init ops ms_blocks sata_blocks port = Some (-1, port')))"
proof -
  let ?p = "mkfs_param_init\<lparr>mp_volume_size := int v\<rparr>"
  have fits: "fmt_fits v" by (rule large_fits) fact+
  obtain st' where f: "exfat_format ops ms_blocks sata_blocks total_sectors st = Some (0, st')" "io_ok dev_ok P (mk_io st')" "exfat_heap_used st' = 0"
    "disk_formatted ?p v (vol_byte sect (mk_io st'))" by (rule exfat_format_formatted[OF assms(1,2,4-6) fits assms(9,10)])
  have "\<exists>port'. exfat_init ops ms_blocks sata_blocks port = Some (-1, port')" if "ef_io (fs_ef (g_ef port)) = mk_io st'" "fs_heap (g_ef port) = exfat_heap_used st'" for port
    by (rule exfat_init_no_memory[OF assms(1-3,5), of ?p]) (use f that assms(7) in auto)
  then show ?thesis using f(1) by blast
qed

theorem large_volume_not_mounted_witness:
  "\<exists>st'. exfat_format ram_storage ram_blocks ram_sata_blocks 134217728 ram_run = Some (0, st') \<and>
    (\<forall>port. ef_io (fs_ef (g_ef port)) = mk_io st' \<and> fs_heap (g_ef port) = exfat_heap_used st' \<longrightarrow>
       (\<exists>port'. exfat_init ram_storage ram_blocks ram_sata_blocks port = Some (-1, port')))"
  by (rule large_volume_not_mounted[OF ram_block_device ram_capacity, where v = 68719476736 and n = 0])
    (auto simp: ram_run_def mkfs_param_init_def sample_exfat_def io_ok_def ram_ok_def vol_bytes_def)

end
