(* ===== verification/Gui_Model.thy ===== *)
theory Gui_Model
  imports Prelude
begin

text \<open>
  The drawing layer \<^verbatim>\<open>gui/helpers.c\<close>, every function of it.  The back buffer and the frame buffer are arrays of 32-bit
  pixels; a load or store outside its array is \<open>None\<close>.  The record \<open>gui\<close> holds the file-scope variables and the two
  memories.  A graphics protocol pointer is an option: \<open>None\<close> when it, its mode or its mode information is
  NULL.  The addresses of the two arrays are kept because the row routines take a 64-bit path on
  aligned rows.
\<close>

unbundle bit_operations_syntax

datatype pixel_format =
    PixelRedGreenBlueReserved8BitPerColor
  | PixelBlueGreenRedReserved8BitPerColor
  | PixelBitMask
  | PixelBltOnly

record gop =
  HorizontalResolution :: u32
  VerticalResolution :: u32
  PixelFormat :: pixel_format
  PixelsPerScanLine :: u32
  FrameBufferBase :: u64

record gui =
  framebuffer :: "u32 list"
  static_backbuffer :: "u32 list"
  backbuffer_addr :: u64
  g_backbuffer :: bool
  g_backbuf_width :: u32
  g_backbuf_height :: u32
  s_frame_dirty :: bool

section \<open>Row operations\<close>

definition store64 :: "u32 list \<Rightarrow> nat \<Rightarrow> u64 \<Rightarrow> u32 list option" where
  "store64 m i w = (if i + 1 < length m then Some (m[i := ucast w, i + 1 := ucast (drop_bit 32 w)]) else None)"

definition load64 :: "u32 list \<Rightarrow> nat \<Rightarrow> u64 option" where
  "load64 m i = (if i + 1 < length m then Some (push_bit 32 (ucast (m ! (i + 1))) OR ucast (m ! i)) else None)"

definition aligned8 :: "u64 \<Rightarrow> nat \<Rightarrow> bool" where
  "aligned8 addr i \<longleftrightarrow> (addr + 4 * of_nat i) AND 7 = 0"

fun copy64_loop :: "nat list \<Rightarrow> u32 list \<Rightarrow> nat \<Rightarrow> u32 list \<Rightarrow> nat \<Rightarrow> u32 list option" where
  "copy64_loop [] m d src s = Some m"
| "copy64_loop (j # js) m d src s =
     (case load64 src (s + 2 * j) of
        None \<Rightarrow> None
      | Some w \<Rightarrow> (case store64 m (d + 2 * j) w of None \<Rightarrow> None | Some m1 \<Rightarrow> copy64_loop js m1 d src s))"

fun copy64x4_loop :: "nat list \<Rightarrow> u32 list \<Rightarrow> nat \<Rightarrow> u32 list \<Rightarrow> nat \<Rightarrow> u32 list option" where
  "copy64x4_loop [] m d src s = Some m"
| "copy64x4_loop (j # js) m d src s =
     (case copy64_loop [j, j + 1, j + 2, j + 3] m d src s of
        None \<Rightarrow> None
      | Some m1 \<Rightarrow> copy64x4_loop js m1 d src s)"

fun copy32_loop :: "nat list \<Rightarrow> u32 list \<Rightarrow> nat \<Rightarrow> u32 list \<Rightarrow> nat \<Rightarrow> u32 list option" where
  "copy32_loop [] m d src s = Some m"
| "copy32_loop (i # is) m d src s =
     (if d + i < length m \<and> s + i < length src then copy32_loop is (m[d + i := src ! (s + i)]) d src s else None)"

text \<open>The destination is the array \<open>m\<close> at address \<open>da\<close> from index \<open>d\<close>, the source \<open>src\<close> at \<open>sa\<close> from index \<open>s\<close>.\<close>

definition row_copy :: "u64 \<Rightarrow> u32 list \<Rightarrow> nat \<Rightarrow> u64 \<Rightarrow> u32 list \<Rightarrow> nat \<Rightarrow> nat \<Rightarrow> u32 list option" where
  "row_copy da m d sa src s n =
     (if aligned8 da d \<and> aligned8 sa s then
        (let n64 = n div 2; n64x4 = n64 div 4 * 4 in
         case copy64x4_loop (map (\<lambda>k. 4 * k) [0..<n64 div 4]) m d src s of
           None \<Rightarrow> None
         | Some m1 \<Rightarrow>
             (case copy64_loop [n64x4..<n64] m1 d src s of
                None \<Rightarrow> None
              | Some m2 \<Rightarrow> copy32_loop [n64 * 2..<n] m2 d src s))
      else copy32_loop [0..<n] m d src s)"

fun fill64_loop :: "nat list \<Rightarrow> u32 list \<Rightarrow> nat \<Rightarrow> u64 \<Rightarrow> u32 list option" where
  "fill64_loop [] m d pat = Some m"
| "fill64_loop (j # js) m d pat =
     (case store64 m (d + 2 * j) pat of None \<Rightarrow> None | Some m1 \<Rightarrow> fill64_loop js m1 d pat)"

fun fill64x4_loop :: "nat list \<Rightarrow> u32 list \<Rightarrow> nat \<Rightarrow> u64 \<Rightarrow> u32 list option" where
  "fill64x4_loop [] m d pat = Some m"
| "fill64x4_loop (j # js) m d pat =
     (case fill64_loop [j, j + 1, j + 2, j + 3] m d pat of None \<Rightarrow> None | Some m1 \<Rightarrow> fill64x4_loop js m1 d pat)"

fun fill32_loop :: "nat list \<Rightarrow> u32 list \<Rightarrow> nat \<Rightarrow> u32 \<Rightarrow> u32 list option" where
  "fill32_loop [] m d color = Some m"
| "fill32_loop (i # is) m d color =
     (if d + i < length m then fill32_loop is (m[d + i := color]) d color else None)"

definition fill_row :: "u64 \<Rightarrow> u32 list \<Rightarrow> nat \<Rightarrow> u32 \<Rightarrow> nat \<Rightarrow> u32 list option" where
  "fill_row addr m d color n =
     (if aligned8 addr d then
        (let pat = push_bit 32 (ucast color) OR ucast color; n64 = n div 2; n64x4 = n64 div 4 * 4 in
         case fill64x4_loop (map (\<lambda>k. 4 * k) [0..<n64 div 4]) m d pat of
           None \<Rightarrow> None
         | Some m1 \<Rightarrow>
             (case fill64_loop [n64x4..<n64] m1 d pat of
                None \<Rightarrow> None
              | Some m2 \<Rightarrow> fill32_loop [n64 * 2..<n] m2 d color))
      else fill32_loop [0..<n] m d color)"

section \<open>Pixels\<close>

definition pack_pixel :: "pixel_format \<Rightarrow> u8 \<Rightarrow> u8 \<Rightarrow> u8 \<Rightarrow> u32" where
  "pack_pixel fmt r g b =
     (if fmt = PixelRedGreenBlueReserved8BitPerColor
      then ucast r OR push_bit 8 (ucast g) OR push_bit 16 (ucast b)
      else ucast b OR push_bit 8 (ucast g) OR push_bit 16 (ucast r))"

definition unpack_pixel_rgb :: "pixel_format \<Rightarrow> u32 \<Rightarrow> u8 \<times> u8 \<times> u8" where
  "unpack_pixel_rgb fmt px =
     (if fmt = PixelRedGreenBlueReserved8BitPerColor
      then (ucast px, ucast (drop_bit 8 px), ucast (drop_bit 16 px))
      else (ucast (drop_bit 16 px), ucast (drop_bit 8 px), ucast px))"

definition blend_chan :: "u8 \<Rightarrow> u8 \<Rightarrow> u8 \<Rightarrow> u8" where
  "blend_chan src dst a =
     (let x = (ucast src :: u32) * ucast a + ucast dst * ucast (255 - a) in ucast (drop_bit 8 (x + drop_bit 8 x + 0x80)))"

section \<open>The two surfaces\<close>

datatype surface = Back | Front

definition surf_mem :: "surface \<Rightarrow> gui \<Rightarrow> u32 list" where
  "surf_mem sf st = (case sf of Back \<Rightarrow> static_backbuffer st | Front \<Rightarrow> framebuffer st)"

definition surf_set :: "surface \<Rightarrow> u32 list \<Rightarrow> gui \<Rightarrow> gui" where
  "surf_set sf m st = (case sf of Back \<Rightarrow> st\<lparr>static_backbuffer := m\<rparr> | Front \<Rightarrow> st\<lparr>framebuffer := m\<rparr>)"

definition surf_addr :: "gop \<Rightarrow> surface \<Rightarrow> gui \<Rightarrow> u64" where
  "surf_addr g sf st = (case sf of Back \<Rightarrow> backbuffer_addr st | Front \<Rightarrow> FrameBufferBase g)"

definition surf_stride :: "gop \<Rightarrow> surface \<Rightarrow> gui \<Rightarrow> u32" where
  "surf_stride g sf st = (case sf of Back \<Rightarrow> g_backbuf_width st | Front \<Rightarrow> PixelsPerScanLine g)"

text \<open>The back buffer when it is in use and has the size of the screen, the frame buffer otherwise.\<close>

definition target :: "gop \<Rightarrow> gui \<Rightarrow> surface" where
  "target g st =
     (if g_backbuffer st \<and> g_backbuf_width st = HorizontalResolution g \<and> g_backbuf_height st = VerticalResolution g
      then Back else Front)"

definition put_pixel :: "gop option \<Rightarrow> u32 \<Rightarrow> u32 \<Rightarrow> u32 \<Rightarrow> gui \<Rightarrow> gui option" where
  "put_pixel gop x y color st =
     (case gop of
        None \<Rightarrow> Some st
      | Some g \<Rightarrow>
          if x \<ge> HorizontalResolution g \<or> y \<ge> VerticalResolution g then Some st
          else
            let sf = target g st; i = unat (y * surf_stride g sf st + x) in
            if i < length (surf_mem sf st) then
              let st1 = surf_set sf ((surf_mem sf st)[i := color]) st in
              Some (if sf = Back then st1\<lparr>s_frame_dirty := True\<rparr> else st1)
            else None)"

definition get_pixel :: "gop \<Rightarrow> u32 \<Rightarrow> u32 \<Rightarrow> gui \<Rightarrow> u32 option" where
  "get_pixel g x y st =
     (let sf = (if g_backbuffer st \<and> g_backbuf_width st = HorizontalResolution g then Back else Front);
          i = unat (y * surf_stride g sf st + x) in
      if i < length (surf_mem sf st) then Some (surf_mem sf st ! i) else None)"

fun fill_rows :: "gop \<Rightarrow> surface \<Rightarrow> nat list \<Rightarrow> nat \<Rightarrow> u32 \<Rightarrow> nat \<Rightarrow> gui \<Rightarrow> gui option" where
  "fill_rows g sf [] x0 color span st = Some st"
| "fill_rows g sf (y # ys) x0 color span st =
     (case fill_row (surf_addr g sf st) (surf_mem sf st) (y * unat (surf_stride g sf st) + x0) color span of
        None \<Rightarrow> None
      | Some m \<Rightarrow> fill_rows g sf ys x0 color span ((surf_set sf m st)\<lparr>s_frame_dirty := True\<rparr>))"

definition draw_box :: "gop option \<Rightarrow> u32 \<Rightarrow> u32 \<Rightarrow> u32 \<Rightarrow> u32 \<Rightarrow> u32 \<Rightarrow> gui \<Rightarrow> gui option" where
  "draw_box gop x0 y0 w h color st =
     (case gop of
        None \<Rightarrow> Some st
      | Some g \<Rightarrow>
          let sx = HorizontalResolution g; sy = VerticalResolution g in
          if x0 \<ge> sx \<or> y0 \<ge> sy then Some st
          else
            let x1 = (if x0 + w > sx then sx else x0 + w);
                y1 = (if y0 + h > sy then sy else y0 + h);
                span = unat (x1 - x0) in
            fill_rows g (target g st) [unat y0..<unat y1] (unat x0) color span st)"

definition clear_screen_fb :: "gop option \<Rightarrow> u8 \<Rightarrow> u8 \<Rightarrow> u8 \<Rightarrow> gui \<Rightarrow> gui option" where
  "clear_screen_fb gop r gr b st =
     (case gop of
        None \<Rightarrow> Some st
      | Some g \<Rightarrow>
          if PixelFormat g = PixelBltOnly then Some st
          else
            fill_rows g (target g st) [0..<unat (VerticalResolution g)] 0 (pack_pixel (PixelFormat g) r gr b)
              (unat (HorizontalResolution g)) st)"

abbreviation BACKBUF_MAX_W :: nat where "BACKBUF_MAX_W \<equiv> 1920"
abbreviation BACKBUF_MAX_H :: nat where "BACKBUF_MAX_H \<equiv> 1200"

definition init_backbuffer :: "gop option \<Rightarrow> gui \<Rightarrow> gui" where
  "init_backbuffer gop st =
     (case gop of
        None \<Rightarrow> st
      | Some g \<Rightarrow>
          if unat (HorizontalResolution g) \<le> BACKBUF_MAX_W \<and> unat (VerticalResolution g) \<le> BACKBUF_MAX_H
          then st\<lparr>g_backbuffer := True, g_backbuf_width := HorizontalResolution g, g_backbuf_height := VerticalResolution g\<rparr>
          else st\<lparr>g_backbuffer := False, g_backbuf_width := 0, g_backbuf_height := 0\<rparr>)"

fun blit_rows :: "gop \<Rightarrow> nat list \<Rightarrow> gui \<Rightarrow> gui option" where
  "blit_rows g [] st = Some st"
| "blit_rows g (y # ys) st =
     (case row_copy (FrameBufferBase g) (framebuffer st) (y * unat (PixelsPerScanLine g))
             (backbuffer_addr st) (static_backbuffer st) (y * unat (g_backbuf_width st)) (unat (g_backbuf_width st)) of
        None \<Rightarrow> None
      | Some m \<Rightarrow> blit_rows g ys (st\<lparr>framebuffer := m\<rparr>))"

definition blit_backbuffer :: "gop option \<Rightarrow> gui \<Rightarrow> gui option" where
  "blit_backbuffer gop st =
     (case gop of
        None \<Rightarrow> Some st
      | Some g \<Rightarrow>
          if \<not> g_backbuffer st then Some st
          else if PixelsPerScanLine g = g_backbuf_width st then
            (case row_copy (FrameBufferBase g) (framebuffer st) 0 (backbuffer_addr st) (static_backbuffer st) 0
                    (unat (g_backbuf_width st) * unat (g_backbuf_height st)) of
               None \<Rightarrow> None
             | Some m \<Rightarrow> Some (st\<lparr>framebuffer := m, s_frame_dirty := False\<rparr>))
          else
            (case blit_rows g [0..<unat (g_backbuf_height st)] st of
               None \<Rightarrow> None
             | Some st1 \<Rightarrow> Some (st1\<lparr>s_frame_dirty := False\<rparr>)))"

section \<open>Translucent boxes\<close>

definition blend_pixel :: "pixel_format \<Rightarrow> u8 \<Rightarrow> u8 \<Rightarrow> u8 \<Rightarrow> u8 \<Rightarrow> u32 \<Rightarrow> u32" where
  "blend_pixel fmt r g b a dst =
     (if fmt = PixelRedGreenBlueReserved8BitPerColor then
        ucast (blend_chan r (ucast dst) a) OR push_bit 8 (ucast (blend_chan g (ucast (drop_bit 8 dst)) a)) OR
        push_bit 16 (ucast (blend_chan b (ucast (drop_bit 16 dst)) a))
      else
        ucast (blend_chan b (ucast dst) a) OR push_bit 8 (ucast (blend_chan g (ucast (drop_bit 8 dst)) a)) OR
        push_bit 16 (ucast (blend_chan r (ucast (drop_bit 16 dst)) a)))"

fun blend_row :: "(u32 \<Rightarrow> u32) \<Rightarrow> nat list \<Rightarrow> u32 list \<Rightarrow> nat \<Rightarrow> u32 list option" where
  "blend_row f [] m d = Some m"
| "blend_row f (x # xs) m d =
     (if d + x < length m then blend_row f xs (m[d + x := f (m ! (d + x))]) d else None)"

fun blend_rows :: "gop \<Rightarrow> surface \<Rightarrow> (u32 \<Rightarrow> u32) \<Rightarrow> nat list \<Rightarrow> nat \<Rightarrow> nat \<Rightarrow> gui \<Rightarrow> gui option" where
  "blend_rows g sf f [] x0 span st = Some st"
| "blend_rows g sf f (y # ys) x0 span st =
     (case blend_row f [0..<span] (surf_mem sf st) (y * unat (surf_stride g sf st) + x0) of
        None \<Rightarrow> None
      | Some m \<Rightarrow> blend_rows g sf f ys x0 span (surf_set sf m st))"

definition draw_box_rgba :: "gop option \<Rightarrow> u32 \<Rightarrow> u32 \<Rightarrow> u32 \<Rightarrow> u32 \<Rightarrow> u32 \<Rightarrow> gui \<Rightarrow> gui option" where
  "draw_box_rgba gop x0 y0 w h rgba st =
     (case gop of
        None \<Rightarrow> Some st
      | Some g \<Rightarrow>
          let sx = HorizontalResolution g; sy = VerticalResolution g in
          if x0 \<ge> sx \<or> y0 \<ge> sy then Some st
          else
            let x1 = (if x0 + w > sx then sx else x0 + w);
                y1 = (if y0 + h > sy then sy else y0 + h);
                src_r = ucast (drop_bit 24 rgba); src_g = ucast (drop_bit 16 rgba); src_b = ucast (drop_bit 8 rgba);
                src_a = ucast rgba; span = unat (x1 - x0); fmt = PixelFormat g in
            if src_a = 0 then Some st
            else if src_a = 255 then
              fill_rows g (target g st) [unat y0..<unat y1] (unat x0) (pack_pixel fmt src_r src_g src_b) span st
            else
              (case blend_rows g (target g st) (blend_pixel fmt src_r src_g src_b src_a) [unat y0..<unat y1] (unat x0) span st of
                 None \<Rightarrow> None
               | Some st1 \<Rightarrow> Some (st1\<lparr>s_frame_dirty := True\<rparr>)))"

definition fill_row_pixels :: "gop \<Rightarrow> surface \<Rightarrow> nat \<Rightarrow> u32 \<Rightarrow> nat \<Rightarrow> gui \<Rightarrow> gui option" where
  "fill_row_pixels g sf d color n st =
     (case fill_row (surf_addr g sf st) (surf_mem sf st) d color n of
        None \<Rightarrow> None
      | Some m \<Rightarrow> Some ((surf_set sf m st)\<lparr>s_frame_dirty := True\<rparr>))"

definition mark_frame_dirty :: "gui \<Rightarrow> gui" where
  "mark_frame_dirty st = st\<lparr>s_frame_dirty := True\<rparr>"

text \<open>\<^verbatim>\<open>refresh\<close> of \<^verbatim>\<open>kernel/utils.c\<close> without the wait: the frame is copied to the screen only when it changed.\<close>

definition refresh :: "gop option \<Rightarrow> gui \<Rightarrow> gui option" where
  "refresh gop st = (if s_frame_dirty st then blit_backbuffer gop st else Some st)"

end
