(* ===== verification/Gui.thy ===== *)
theory Gui
  imports Gui_Model
begin

text \<open>
  Correctness of the drawing layer.  First the row routines: the unrolled 64-bit loops write exactly the pixels a
  plain loop writes.  Then the drawing calls, against the picture: \<open>pixel\<close> reads the surface the calls draw on,
  and every call changes exactly the pixels of its clipped rectangle.  The locale \<open>painter\<close> states that
  contract; its client lemma is that a drawing call followed by a blit shows on the frame buffer.
\<close>

unbundle bit_operations_syntax

section \<open>Row operations\<close>

text \<open>\<open>m'\<close> is \<open>m\<close> with the cells of \<open>[lo, hi)\<close> replaced.\<close>

definition written :: "u32 list \<Rightarrow> u32 list \<Rightarrow> nat \<Rightarrow> nat \<Rightarrow> (nat \<Rightarrow> u32) \<Rightarrow> bool" where
  "written m m' lo hi f \<longleftrightarrow>
     length m' = length m \<and> (\<forall>i < length m. m' ! i = (if lo \<le> i \<and> i < hi then f i else m ! i))"

lemma written_refl [simp]: "written m m' lo lo f \<longleftrightarrow> m' = m"
  by (auto simp: written_def list_eq_iff_nth_eq)

lemma written_trans:
  "written m m1 a b f \<Longrightarrow> written m1 m2 b c f \<Longrightarrow> a \<le> b \<Longrightarrow> b \<le> c \<Longrightarrow> written m m2 a c f"
  by (auto simp: written_def)

lemma written_cong:
  "written m m' a b f \<Longrightarrow> a = a' \<Longrightarrow> b = b' \<Longrightarrow> (\<And>i. a \<le> i \<Longrightarrow> i < b \<Longrightarrow> f i = f' i) \<Longrightarrow> written m m' a' b' f'"
  by (auto simp: written_def)

lemma written_unique: "written m m1 a b f \<Longrightarrow> written m m2 a b f \<Longrightarrow> m1 = m2"
  by (auto simp: written_def list_eq_iff_nth_eq)

lemma written_length: "written m m' a b f \<Longrightarrow> length m' = length m"
  by (simp add: written_def)

lemma pair_low: "(ucast (push_bit 32 (ucast (h :: u32)) OR ucast (l :: u32) :: u64) :: u32) = l"
  by (rule bit_word_eqI) (auto simp: bit_ucast_iff bit_or_iff bit_push_bit_iff)

lemma pair_high: "(ucast (drop_bit 32 (push_bit 32 (ucast (h :: u32))) OR drop_bit 32 (ucast (l :: u32)) :: u64) :: u32) = h"
  by (rule bit_word_eqI) (auto simp: bit_ucast_iff bit_or_iff bit_push_bit_iff bit_drop_bit_eq dest: bit_imp_le_length)

lemma store64_pair:
  "i + 1 < length m \<Longrightarrow> \<exists>m'. store64 m i (push_bit 32 (ucast h) OR ucast l) = Some m' \<and>
     written m m' i (i + 2) (\<lambda>k. if k = i then l else h)"
  by (auto simp: store64_def written_def nth_list_update pair_low pair_high)

lemma copy64_run:
  "d + 2 * b \<le> length m \<Longrightarrow> s + 2 * b \<le> length src \<Longrightarrow> a \<le> b \<Longrightarrow>
     \<exists>m'. copy64_loop [a..<b] m d src s = Some m' \<and> written m m' (d + 2 * a) (d + 2 * b) (\<lambda>i. src ! (s + (i - d)))"
proof (induction "b - a" arbitrary: a m)
  case 0
  then show ?case by simp
next
  case (Suc k)
  then have ab: "a < b" and idx: "d + 2 * a + 1 < length m" "s + 2 * a + 1 < length src" by simp_all
  obtain m1 where m1: "store64 m (d + 2 * a) (push_bit 32 (ucast (src ! (s + 2 * a + 1))) OR ucast (src ! (s + 2 * a))) = Some m1"
    and w1: "written m m1 (d + 2 * a) (d + 2 * a + 2) (\<lambda>k. if k = d + 2 * a then src ! (s + 2 * a) else src ! (s + 2 * a + 1))"
    using store64_pair[OF idx(1)] by blast
  have w1': "written m m1 (d + 2 * a) (d + 2 * Suc a) (\<lambda>i. src ! (s + (i - d)))"
  proof (rule written_cong[OF w1])
    fix i assume i: "d + 2 * a \<le> i" "i < d + 2 * a + 2"
    then consider "i = d + 2 * a" | "i = d + 2 * a + 1" by linarith
    then show "(if i = d + 2 * a then src ! (s + 2 * a) else src ! (s + 2 * a + 1)) = src ! (s + (i - d))" by cases simp_all
  qed simp_all
  have "\<exists>m'. copy64_loop [Suc a..<b] m1 d src s = Some m' \<and> written m1 m' (d + 2 * Suc a) (d + 2 * b) (\<lambda>i. src ! (s + (i - d)))"
    using Suc.hyps(2) Suc.prems ab written_length[OF w1] by (intro Suc.hyps(1)) auto
  then obtain m' where m': "copy64_loop [Suc a..<b] m1 d src s = Some m'" "written m1 m' (d + 2 * Suc a) (d + 2 * b) (\<lambda>i. src ! (s + (i - d)))"
    by blast
  have "written m m' (d + 2 * a) (d + 2 * b) (\<lambda>i. src ! (s + (i - d)))"
    by (rule written_trans[OF w1' m'(2)]) (use ab in simp_all)
  moreover have "copy64_loop [a..<b] m d src s = Some m'"
    using ab idx m1 m'(1) by (simp add: upt_conv_Cons load64_def)
  ultimately show ?case by blast
qed

lemma copy64_append:
  "copy64_loop (is @ js) m d src s = (case copy64_loop is m d src s of None \<Rightarrow> None | Some m1 \<Rightarrow> copy64_loop js m1 d src s)"
  by (induction "is" arbitrary: m) (auto split: option.splits)

lemma copy64x4_flat:
  "copy64x4_loop (map (\<lambda>k. 4 * k) [a..<b]) m d src s = copy64_loop [4 * a..<4 * b] m d src s"
proof (induction "b - a" arbitrary: a m)
  case 0
  then show ?case by simp
next
  case (Suc k)
  then have ab: "a < b" by simp
  have four: "[4 * a..<4 * b] = [4 * a, 4 * a + 1, 4 * a + 2, 4 * a + 3] @ [4 * Suc a..<4 * b]"
    using ab by (simp add: upt_conv_Cons numeral_eq_Suc)
  have IH: "copy64x4_loop (map (\<lambda>k. 4 * k) [Suc a..<b]) m1 d src s = copy64_loop [4 * Suc a..<4 * b] m1 d src s" for m1
    using Suc by simp
  show ?case unfolding four copy64_append using ab IH by (simp add: upt_conv_Cons split: option.split)
qed

lemma copy32_run:
  "d + b \<le> length m \<Longrightarrow> s + b \<le> length src \<Longrightarrow> a \<le> b \<Longrightarrow>
     \<exists>m'. copy32_loop [a..<b] m d src s = Some m' \<and> written m m' (d + a) (d + b) (\<lambda>i. src ! (s + (i - d)))"
proof (induction "b - a" arbitrary: a m)
  case 0
  then show ?case by simp
next
  case (Suc k)
  then have ab: "a < b" by simp
  let ?m1 = "m[d + a := src ! (s + a)]"
  have w1: "written m ?m1 (d + a) (d + Suc a) (\<lambda>i. src ! (s + (i - d)))"
    by (auto simp: written_def nth_list_update less_Suc_eq)
  have "\<exists>m'. copy32_loop [Suc a..<b] ?m1 d src s = Some m' \<and> written ?m1 m' (d + Suc a) (d + b) (\<lambda>i. src ! (s + (i - d)))"
    using Suc.hyps(2) Suc.prems ab by (intro Suc.hyps(1)) auto
  then obtain m' where m': "copy32_loop [Suc a..<b] ?m1 d src s = Some m'" "written ?m1 m' (d + Suc a) (d + b) (\<lambda>i. src ! (s + (i - d)))"
    by blast
  have "written m m' (d + a) (d + b) (\<lambda>i. src ! (s + (i - d)))"
    by (rule written_trans[OF w1 m'(2)]) (use ab in simp_all)
  moreover have "copy32_loop [a..<b] m d src s = Some m'" using ab Suc.prems m'(1) by (simp add: upt_conv_Cons)
  ultimately show ?case by blast
qed

lemma row_copy_run:
  assumes "d + n \<le> length m" "s + n \<le> length src"
  shows "\<exists>m'. row_copy da m d sa src s n = Some m' \<and> written m m' d (d + n) (\<lambda>i. src ! (s + (i - d)))"
proof (cases "aligned8 da d \<and> aligned8 sa s")
  case False
  then have "row_copy da m d sa src s n = copy32_loop [0..<n] m d src s" by (auto simp: row_copy_def)
  then show ?thesis using copy32_run[of d n m s src 0] assms by simp
next
  case True
  define q where "q = n div 2"
  have q: "2 * q \<le> n" "4 * (q div 4) \<le> q" by (simp_all add: q_def)
  have f: "[0..<q] = [0..<4 * (q div 4)] @ [4 * (q div 4)..<q]"
    using upt_add_eq_append[of 0 "4 * (q div 4)" "q - 4 * (q div 4)"] q by simp
  obtain m1 where m1: "copy64_loop [0..<q] m d src s = Some m1" "written m m1 (d + 2 * 0) (d + 2 * q) (\<lambda>i. src ! (s + (i - d)))"
    using copy64_run[of d q m s src 0] assms q by auto
  obtain m2 where m2: "copy32_loop [2 * q..<n] m1 d src s = Some m2" "written m1 m2 (d + 2 * q) (d + n) (\<lambda>i. src ! (s + (i - d)))"
    using copy32_run[of d n m1 s src "2 * q"] assms q written_length[OF m1(2)] by auto
  have "written m m2 d (d + n) (\<lambda>i. src ! (s + (i - d)))"
    by (rule written_trans[of m m1 d "d + 2 * q"]) (use m1(2) m2(2) q in auto)
  moreover have "row_copy da m d sa src s n = Some m2"
  proof -
    have c: "q * 2 = 2 * q" "q div 4 * 4 = 4 * (q div 4)" by simp_all
    show ?thesis
      using True m1(1) m2(1) copy64x4_flat[of 0 "q div 4" m d src s]
      unfolding row_copy_def q_def[symmetric] Let_def f copy64_append c by (auto split: option.splits)
  qed
  ultimately show ?thesis by blast
qed

text \<open>Filling a row is copying from a row of one colour.\<close>

lemma fill64_copy64:
  assumes "list_all (\<lambda>j. d + 2 * j + 1 < length src) js" "list_all (\<lambda>c. c = color) src"
  shows "fill64_loop js m d (push_bit 32 (ucast color) OR ucast color) = copy64_loop js m d src d"
  using assms(1)
proof (induction js arbitrary: m)
  case (Cons j js)
  have "src ! (d + 2 * j) = color" "src ! (d + 2 * j + 1) = color"
    using assms(2) Cons.prems by (auto simp: list_all_length)
  with Cons show ?case by (auto simp: load64_def split: option.splits)
qed simp

lemma fill64x4_flat:
  "fill64x4_loop (map (\<lambda>k. 4 * k) [a..<b]) m d pat = fill64_loop [4 * a..<4 * b] m d pat"
proof (induction "b - a" arbitrary: a m)
  case 0
  then show ?case by simp
next
  case (Suc k)
  then have ab: "a < b" by simp
  have four: "[4 * a..<4 * b] = 4 * a # (4 * a + 1) # (4 * a + 2) # (4 * a + 3) # [4 * Suc a..<4 * b]"
    using ab by (simp add: upt_conv_Cons numeral_eq_Suc)
  have IH: "fill64x4_loop (map (\<lambda>k. 4 * k) [Suc a..<b]) m1 d pat = fill64_loop [4 * Suc a..<4 * b] m1 d pat" for m1
    using Suc by simp
  show ?case unfolding four using ab IH by (simp add: upt_conv_Cons split: option.split)
qed

lemma fill32_copy32:
  assumes "list_all (\<lambda>i. d + i < length src) is" "list_all (\<lambda>c. c = color) src"
  shows "fill32_loop is m d color = copy32_loop is m d src d"
  using assms(1)
proof (induction "is" arbitrary: m)
  case (Cons i "is")
  have "src ! (d + i) = color" using assms(2) Cons.prems by (auto simp: list_all_length)
  with Cons show ?case by auto
qed simp

lemma fill_row_run:
  assumes "d + n \<le> length m"
  shows "\<exists>m'. fill_row addr m d color n = Some m' \<and> written m m' d (d + n) (\<lambda>i. color)"
proof -
  define src where "src = replicate (d + n) color"
  have all: "list_all (\<lambda>c. c = color) src" by (simp add: src_def list_all_length)
  have le: "2 * (n div 2) \<le> n" "4 * (n div 2 div 4) \<le> n div 2" by simp_all
  have a: "list_all (\<lambda>j. d + 2 * j + 1 < length src) [i..<k]" if "2 * k \<le> n" for i k
    using that by (auto simp: src_def list_all_iff)
  have b: "list_all (\<lambda>i. d + i < length src) [i..<n]" for i by (auto simp: src_def list_all_iff)
  have "fill_row addr m d color n = row_copy addr m d addr src d n"
    using fill64_copy64[OF a all] fill32_copy32[OF b all] le
    by (simp add: fill_row_def row_copy_def fill64x4_flat copy64x4_flat Let_def mult.commute split: option.split)
  moreover obtain m' where m': "row_copy addr m d addr src d n = Some m'" "written m m' d (d + n) (\<lambda>i. src ! (d + (i - d)))"
    using row_copy_run[of d n m d src addr addr] assms by (auto simp: src_def)
  moreover have "written m m' d (d + n) (\<lambda>i. color)"
    by (rule written_cong[OF m'(2)]) (simp_all add: src_def)
  ultimately show ?thesis by auto
qed

section \<open>Rectangles\<close>

lemma cell_index: "(x :: nat) < S \<Longrightarrow> (y * S + x) div S = y" "x < S \<Longrightarrow> (y * S + x) mod S = x"
  by (auto simp: div_mult_self3)

lemma cell_in_row:
  assumes "(x :: nat) < S" "x0 + span \<le> S"
  shows "z * S + x0 \<le> y * S + x \<and> y * S + x < z * S + x0 + span \<longleftrightarrow> y = z \<and> x0 \<le> x \<and> x < x0 + span"
proof
  assume in_row: "z * S + x0 \<le> y * S + x \<and> y * S + x < z * S + x0 + span"
  define k where "k = y * S + x - (z * S + x0)"
  have k: "y * S + x = z * S + (x0 + k)" "k < span" using in_row unfolding k_def by linarith+
  have "(z * S + (x0 + k)) div S = z" "(z * S + (x0 + k)) mod S = x0 + k"
    using cell_index[of "x0 + k" S z] k(2) assms(2) by simp_all
  with cell_index[OF assms(1), of y] k show "y = z \<and> x0 \<le> x \<and> x < x0 + span" by simp
qed auto

lemma cell_bound: "(x :: nat) < S \<Longrightarrow> y < h \<Longrightarrow> h * S \<le> n \<Longrightarrow> y * S + x < n"
proof -
  assume a: "x < S" "y < h" "h * S \<le> n"
  have "y * S + x < Suc y * S" using a(1) by simp
  also have "\<dots> \<le> h * S" using a(2) by (intro mult_le_mono1) simp
  finally show ?thesis using a(3) by simp
qed

text \<open>The row loops of the file, on one array: \<open>op\<close> handles row \<open>y\<close>.\<close>

fun mem_rows :: "(nat \<Rightarrow> u32 list \<Rightarrow> u32 list option) \<Rightarrow> nat list \<Rightarrow> u32 list \<Rightarrow> u32 list option" where
  "mem_rows f [] m = Some m"
| "mem_rows f (y # ys) m = (case f y m of None \<Rightarrow> None | Some m1 \<Rightarrow> mem_rows f ys m1)"

definition row_law :: "(nat \<Rightarrow> u32 list \<Rightarrow> u32 list option) \<Rightarrow> nat \<Rightarrow> nat \<Rightarrow> nat \<Rightarrow> nat \<Rightarrow> nat \<Rightarrow> (nat \<Rightarrow> nat \<Rightarrow> u32 \<Rightarrow> u32) \<Rightarrow> bool" where
  "row_law f L S x0 span h v \<longleftrightarrow>
     (\<forall>y m. y < h \<longrightarrow> length m = L \<longrightarrow>
        (\<exists>m'. f y m = Some m' \<and> written m m' (y * S + x0) (y * S + x0 + span) (\<lambda>i. v (i - y * S) y (m ! i))))"

definition boxed :: "nat \<Rightarrow> nat \<Rightarrow> nat \<Rightarrow> nat \<Rightarrow> nat \<Rightarrow> nat \<Rightarrow> bool" where
  "boxed x0 x1 y0 y1 x y \<longleftrightarrow> x0 \<le> x \<and> x < x1 \<and> y0 \<le> y \<and> y < y1"

lemma mem_rows_run:
  assumes law: "row_law f (length m) S x0 span h v" and "y1 \<le> h" "h * S \<le> length m" "x0 + span \<le> S" "y0 \<le> y1"
  shows "\<exists>m'. mem_rows f [y0..<y1] m = Some m' \<and> length m' = length m \<and>
           (\<forall>x y. x < S \<longrightarrow> y * S + x < length m \<longrightarrow>
              m' ! (y * S + x) = (if boxed x0 (x0 + span) y0 y1 x y then v x y (m ! (y * S + x)) else m ! (y * S + x)))"
  using assms
proof (induction "y1 - y0" arbitrary: y0 m)
  case 0
  then show ?case by (auto simp: boxed_def)
next
  case (Suc k)
  then have lt: "y0 < y1" and lth: "y0 < h" by simp_all
  obtain m1 where m1: "f y0 m = Some m1" "written m m1 (y0 * S + x0) (y0 * S + x0 + span) (\<lambda>i. v (i - y0 * S) y0 (m ! i))"
    using Suc.prems(1) lth unfolding row_law_def by blast
  note len = written_length[OF m1(2)]
  have cell: "m1 ! (y * S + x) = (if y = y0 \<and> x0 \<le> x \<and> x < x0 + span then v x y (m ! (y * S + x)) else m ! (y * S + x))"
    if "x < S" "y * S + x < length m" for x y
    using m1(2) that cell_in_row[OF that(1) Suc.prems(4), of y0 y] by (auto simp: written_def)
  have "\<exists>m'. mem_rows f [Suc y0..<y1] m1 = Some m' \<and> length m' = length m1 \<and>
           (\<forall>x y. x < S \<longrightarrow> y * S + x < length m1 \<longrightarrow>
              m' ! (y * S + x) = (if boxed x0 (x0 + span) (Suc y0) y1 x y then v x y (m1 ! (y * S + x)) else m1 ! (y * S + x)))"
    using Suc.hyps(2) Suc.prems lt by (intro Suc.hyps(1)) (simp_all add: len)
  then obtain m' where m': "mem_rows f [Suc y0..<y1] m1 = Some m'" "length m' = length m1"
    "\<And>x y. x < S \<Longrightarrow> y * S + x < length m1 \<Longrightarrow>
       m' ! (y * S + x) = (if boxed x0 (x0 + span) (Suc y0) y1 x y then v x y (m1 ! (y * S + x)) else m1 ! (y * S + x))"
    by blast
  have "mem_rows f [y0..<y1] m = Some m'" using lt m1(1) m'(1) by (simp add: upt_conv_Cons)
  moreover have "m' ! (y * S + x) = (if boxed x0 (x0 + span) y0 y1 x y then v x y (m ! (y * S + x)) else m ! (y * S + x))"
    if "x < S" "y * S + x < length m" for x y
    using m'(3)[of x y] cell[OF that] that len lt by (auto simp: boxed_def)
  ultimately show ?case using m'(2) len by auto
qed

lemma surf_simps [simp]:
  "surf_mem sf (surf_set sf m st) = m"
  "surf_mem sf (st\<lparr>s_frame_dirty := b\<rparr>) = surf_mem sf st"
  "surf_set sf m ((surf_set sf m1 st)) = surf_set sf m st"
  "surf_addr g sf (surf_set sf' m st) = surf_addr g sf st"
  "surf_stride g sf (surf_set sf' m st) = surf_stride g sf st"
  "surf_addr g sf (st\<lparr>s_frame_dirty := b\<rparr>) = surf_addr g sf st"
  "surf_stride g sf (st\<lparr>s_frame_dirty := b\<rparr>) = surf_stride g sf st"
  "surf_set sf m (st\<lparr>s_frame_dirty := b\<rparr>) = (surf_set sf m st)\<lparr>s_frame_dirty := b\<rparr>"
  "s_frame_dirty (surf_set sf m st) = s_frame_dirty st"
  "target g (surf_set sf m st) = target g st"
  "target g (st\<lparr>s_frame_dirty := b\<rparr>) = target g st"
  "g_backbuffer (surf_set sf m st) = g_backbuffer st"
  "g_backbuf_width (surf_set sf m st) = g_backbuf_width st"
  "g_backbuf_height (surf_set sf m st) = g_backbuf_height st"
  "surf_set sf (surf_mem sf st) st = st"
  by (auto simp: surf_mem_def surf_set_def surf_addr_def surf_stride_def target_def split: surface.splits)

lemma fill_rows_mem:
  "fill_rows g sf ys x0 color span st =
     map_option (\<lambda>m. (surf_set sf m st)\<lparr>s_frame_dirty := s_frame_dirty st \<or> ys \<noteq> []\<rparr>)
       (mem_rows (\<lambda>y m. fill_row (surf_addr g sf st) m (y * unat (surf_stride g sf st) + x0) color span) ys (surf_mem sf st))"
  by (induction ys arbitrary: st) (auto split: option.splits)

lemma blend_rows_mem:
  "blend_rows g sf f ys x0 span st =
     map_option (\<lambda>m. surf_set sf m st)
       (mem_rows (\<lambda>y m. blend_row f [0..<span] m (y * unat (surf_stride g sf st) + x0)) ys (surf_mem sf st))"
  by (induction ys arbitrary: st) (auto split: option.splits)

lemma blend_row_run:
  "d + b \<le> length m \<Longrightarrow> a \<le> b \<Longrightarrow> \<exists>m'. blend_row f [a..<b] m d = Some m' \<and> written m m' (d + a) (d + b) (\<lambda>i. f (m ! i))"
proof (induction "b - a" arbitrary: a m)
  case 0
  then show ?case by simp
next
  case (Suc k)
  then have ab: "a < b" by simp
  let ?m1 = "m[d + a := f (m ! (d + a))]"
  have w1: "written m ?m1 (d + a) (d + Suc a) (\<lambda>i. f (m ! i))" by (auto simp: written_def nth_list_update less_Suc_eq)
  have "\<exists>m'. blend_row f [Suc a..<b] ?m1 d = Some m' \<and> written ?m1 m' (d + Suc a) (d + b) (\<lambda>i. f (?m1 ! i))"
    using Suc.hyps(2) Suc.prems ab by (intro Suc.hyps(1)) auto
  then obtain m' where m': "blend_row f [Suc a..<b] ?m1 d = Some m'" "written ?m1 m' (d + Suc a) (d + b) (\<lambda>i. f (?m1 ! i))"
    by blast
  have "written ?m1 m' (d + Suc a) (d + b) (\<lambda>i. f (m ! i))" by (rule written_cong[OF m'(2)]) simp_all
  then have "written m m' (d + a) (d + b) (\<lambda>i. f (m ! i))"
    by (rule written_trans[OF w1]) (use ab in simp_all)
  moreover have "blend_row f [a..<b] m d = Some m'" using ab Suc.prems m'(1) by (simp add: upt_conv_Cons)
  ultimately show ?case by blast
qed

lemma row_bound: "(y :: nat) < h \<Longrightarrow> h * S \<le> L \<Longrightarrow> x0 + span \<le> S \<Longrightarrow> y * S + x0 + span \<le> L"
proof -
  assume a: "y < h" "h * S \<le> L" "x0 + span \<le> S"
  have "y * S + S \<le> h * S" using mult_le_mono1[of "Suc y" h S] a(1) by simp
  with a show ?thesis by simp
qed

lemma fill_law:
  "h * S \<le> L \<Longrightarrow> x0 + span \<le> S \<Longrightarrow>
   row_law (\<lambda>y m. fill_row addr m (y * S + x0) color span) L S x0 span h (\<lambda>x y px. color)"
  unfolding row_law_def using fill_row_run row_bound by blast

lemma blend_law:
  "h * S \<le> L \<Longrightarrow> x0 + span \<le> S \<Longrightarrow>
   row_law (\<lambda>y m. blend_row f [0..<span] m (y * S + x0)) L S x0 span h (\<lambda>x y px. f px)"
  unfolding row_law_def using blend_row_run[of _ span _ 0 f] row_bound by (metis add.right_neutral zero_le)

section \<open>The picture\<close>

definition on_screen :: "gop \<Rightarrow> nat \<Rightarrow> nat \<Rightarrow> bool" where
  "on_screen g x y \<longleftrightarrow> x < unat (HorizontalResolution g) \<and> y < unat (VerticalResolution g)"

definition pixel :: "gop \<Rightarrow> gui \<Rightarrow> nat \<Rightarrow> nat \<Rightarrow> u32" where
  "pixel g st x y = surf_mem (target g st) st ! (y * unat (surf_stride g (target g st) st) + x)"

definition shown :: "gop \<Rightarrow> gui \<Rightarrow> nat \<Rightarrow> nat \<Rightarrow> u32" where
  "shown g st x y = framebuffer st ! (y * unat (PixelsPerScanLine g) + x)"

text \<open>What the firmware and \<^verbatim>\<open>init_backbuffer\<close> establish: both memories are large enough for the screen.\<close>

definition screen_ok :: "gop \<Rightarrow> gui \<Rightarrow> bool" where
  "screen_ok g st \<longleftrightarrow>
     length (static_backbuffer st) = BACKBUF_MAX_W * BACKBUF_MAX_H \<and>
     (g_backbuffer st \<longrightarrow> unat (g_backbuf_width st) \<le> BACKBUF_MAX_W \<and> unat (g_backbuf_height st) \<le> BACKBUF_MAX_H) \<and>
     HorizontalResolution g \<le> PixelsPerScanLine g \<and>
     unat (VerticalResolution g) * unat (PixelsPerScanLine g) \<le> length (framebuffer st) \<and>
     unat (VerticalResolution g) * unat (PixelsPerScanLine g) < 2 ^ 32"

text \<open>A clean frame is on the screen.\<close>

definition synced :: "gop \<Rightarrow> gui \<Rightarrow> bool" where
  "synced g st \<longleftrightarrow> s_frame_dirty st \<or> (\<forall>x y. on_screen g x y \<longrightarrow> shown g st x y = pixel g st x y)"

text \<open>The effect of a drawing call: it returns, keeps the state usable, changes exactly the pixels of \<open>region\<close>
  and marks the frame when there are any.\<close>

definition painted :: "gop \<Rightarrow> (nat \<Rightarrow> nat \<Rightarrow> bool) \<Rightarrow> (u32 \<Rightarrow> u32) \<Rightarrow> gui \<Rightarrow> gui \<Rightarrow> bool" where
  "painted g region ink st st' \<longleftrightarrow>
     screen_ok g st' \<and> target g st' = target g st \<and>
     (\<forall>x y. on_screen g x y \<longrightarrow> pixel g st' x y = (if region x y then ink (pixel g st x y) else pixel g st x y)) \<and>
     (s_frame_dirty st \<longrightarrow> s_frame_dirty st') \<and>
     (target g st = Back \<longrightarrow> framebuffer st' = framebuffer st \<and> ((\<exists>x y. on_screen g x y \<and> region x y) \<longrightarrow> s_frame_dirty st'))"

lemma surface_size:
  assumes "screen_ok g st"
  shows "unat (HorizontalResolution g) \<le> unat (surf_stride g (target g st) st)"
    and "unat (VerticalResolution g) * unat (surf_stride g (target g st) st) \<le> length (surf_mem (target g st) st)"
    and "unat (VerticalResolution g) * unat (surf_stride g (target g st) st) < 2 ^ 32"
proof -
  have "unat (g_backbuf_height st) * unat (g_backbuf_width st) \<le> 1200 * 1920" if "g_backbuffer st"
    using assms that by (intro mult_le_mono) (auto simp: screen_ok_def)
  then show "unat (HorizontalResolution g) \<le> unat (surf_stride g (target g st) st)"
    "unat (VerticalResolution g) * unat (surf_stride g (target g st) st) \<le> length (surf_mem (target g st) st)"
    "unat (VerticalResolution g) * unat (surf_stride g (target g st) st) < 2 ^ 32"
    using assms by (auto simp: screen_ok_def target_def surf_stride_def surf_mem_def word_le_nat_alt)
qed

lemma screen_ok_set:
  "screen_ok g st \<Longrightarrow> length m = length (surf_mem sf st) \<Longrightarrow> screen_ok g ((surf_set sf m st)\<lparr>s_frame_dirty := b\<rparr>)"
  by (cases sf) (auto simp: screen_ok_def surf_set_def surf_mem_def)

lemma framebuffer_set_back [simp]:
  "framebuffer (surf_set Back m st) = framebuffer st"
  by (simp add: surf_set_def)

lemma painted_mem:
  assumes ok: "screen_ok g st" and len: "length m = length (surf_mem (target g st) st)"
    and cells: "\<And>x y. on_screen g x y \<Longrightarrow> m ! (y * unat (surf_stride g (target g st) st) + x) =
                  (if region x y then ink (pixel g st x y) else pixel g st x y)"
    and dirty: "s_frame_dirty st \<or> (\<exists>x y. on_screen g x y \<and> region x y) \<Longrightarrow> target g st = Back \<or> s_frame_dirty st \<Longrightarrow> b"
  shows "painted g region ink st ((surf_set (target g st) m st)\<lparr>s_frame_dirty := b\<rparr>)"
  unfolding painted_def using screen_ok_set[OF ok len] cells dirty by (auto simp: pixel_def)

lemma rows_painted:
  assumes ok: "screen_ok g st" and y: "y0 \<le> y1" "y1 \<le> unat (VerticalResolution g)" and x: "x0 + span \<le> unat (HorizontalResolution g)"
    and law: "row_law f (length (surf_mem (target g st) st)) (unat (surf_stride g (target g st) st)) x0 span (unat (VerticalResolution g)) (\<lambda>x y. ink)"
  obtains m where "mem_rows f [y0..<y1] (surf_mem (target g st) st) = Some m"
    "\<And>b. (s_frame_dirty st \<or> (y0 < y1 \<and> target g st = Back) \<Longrightarrow> b) \<Longrightarrow>
       painted g (boxed x0 (x0 + span) y0 y1) ink st ((surf_set (target g st) m st)\<lparr>s_frame_dirty := b\<rparr>)"
proof -
  let ?m = "surf_mem (target g st) st" and ?S = "unat (surf_stride g (target g st) st)"
  note sz = surface_size[OF ok]
  obtain m where m: "mem_rows f [y0..<y1] ?m = Some m" "length m = length ?m"
    "\<And>x y. x < ?S \<Longrightarrow> y * ?S + x < length ?m \<Longrightarrow>
       m ! (y * ?S + x) = (if boxed x0 (x0 + span) y0 y1 x y then ink (?m ! (y * ?S + x)) else ?m ! (y * ?S + x))"
    using mem_rows_run[OF law y(2) sz(2) _ y(1)] x sz(1) by auto
  have cells: "m ! (y * ?S + x) = (if boxed x0 (x0 + span) y0 y1 x y then ink (pixel g st x y) else pixel g st x y)"
    if "on_screen g x y" for x y
  proof -
    have "x < ?S" using that sz(1) by (simp add: on_screen_def)
    moreover have "y * ?S + x < length ?m" by (rule cell_bound[OF calculation _ sz(2)]) (use that in \<open>simp add: on_screen_def\<close>)
    ultimately show ?thesis using m(3) by (simp add: pixel_def)
  qed
  have "painted g (boxed x0 (x0 + span) y0 y1) ink st ((surf_set (target g st) m st)\<lparr>s_frame_dirty := b\<rparr>)"
    if b: "s_frame_dirty st \<or> (y0 < y1 \<and> target g st = Back) \<Longrightarrow> b" for b
    by (rule painted_mem[OF ok m(2) cells]) (use b in \<open>auto simp: boxed_def\<close>)
  with m(1) show thesis by (rule that)
qed

lemma fill_rows_painted:
  assumes "screen_ok g st" "y0 \<le> y1" "y1 \<le> unat (VerticalResolution g)" "x0 + span \<le> unat (HorizontalResolution g)"
  shows "\<exists>st'. fill_rows g (target g st) [y0..<y1] x0 color span st = Some st' \<and> painted g (boxed x0 (x0 + span) y0 y1) (\<lambda>_. color) st st'"
proof -
  note sz = surface_size[OF assms(1)]
  have le: "x0 + span \<le> unat (surf_stride g (target g st) st)" using assms(4) sz(1) by simp
  show ?thesis
  proof (rule rows_painted[OF assms fill_law[OF sz(2) le, where addr = "surf_addr g (target g st) st" and color = color]], goal_cases)
    case (1 m)
    from 1(1) show ?case
      by (intro exI conjI) (simp add: fill_rows_mem, rule 1(2), auto)
  qed
qed

lemma blend_rows_painted:
  assumes "screen_ok g st" "y0 \<le> y1" "y1 \<le> unat (VerticalResolution g)" "x0 + span \<le> unat (HorizontalResolution g)"
  shows "\<exists>st'. blend_rows g (target g st) f [y0..<y1] x0 span st = Some st' \<and>
           painted g (boxed x0 (x0 + span) y0 y1) f st (st'\<lparr>s_frame_dirty := True\<rparr>)"
proof -
  note sz = surface_size[OF assms(1)]
  have le: "x0 + span \<le> unat (surf_stride g (target g st) st)" using assms(4) sz(1) by simp
  show ?thesis
  proof (rule rows_painted[OF assms blend_law[OF sz(2) le, where f = f]], goal_cases)
    case (1 m)
    from 1(1) show ?case
      by (intro exI conjI) (simp add: blend_rows_mem, rule 1(2), auto)
  qed
qed

lemma painted_region:
  "painted g r ink st st' \<Longrightarrow> (\<And>x y. on_screen g x y \<Longrightarrow> r x y \<longleftrightarrow> r' x y) \<Longrightarrow> painted g r' ink st st'"
  unfolding painted_def by (metis (no_types, lifting))

lemma painted_nothing:
  "screen_ok g st \<Longrightarrow> (\<And>x y. on_screen g x y \<Longrightarrow> \<not> r x y) \<Longrightarrow> painted g r ink st st"
  by (auto simp: painted_def)

lemma clip:
  assumes "unat (a :: u32) + unat w < 2 ^ 32" "a < s"
  shows "unat a \<le> unat (if a + w > s then s else a + w)" "unat (if a + w > s then s else a + w) \<le> unat s"
    "unat a + unat ((if a + w > s then s else a + w) - a) = min (unat a + unat w) (unat s)"
proof -
  have s: "unat (a + w) = unat a + unat w" using assms(1) by (simp add: unat_add_nowrap)
  show "unat a \<le> unat (if a + w > s then s else a + w)" "unat (if a + w > s then s else a + w) \<le> unat s"
    using assms(2) s by (auto simp: word_less_nat_alt)
  show "unat a + unat ((if a + w > s then s else a + w) - a) = min (unat a + unat w) (unat s)"
    using assms(2) s by (auto simp: word_less_nat_alt unat_sub word_le_nat_alt)
qed

definition box_fits :: "u32 \<Rightarrow> u32 \<Rightarrow> u32 \<Rightarrow> u32 \<Rightarrow> bool" where
  "box_fits x0 y0 w h \<longleftrightarrow> unat x0 + unat w < 2 ^ 32 \<and> unat y0 + unat h < 2 ^ 32"

definition box_region :: "u32 \<Rightarrow> u32 \<Rightarrow> u32 \<Rightarrow> u32 \<Rightarrow> nat \<Rightarrow> nat \<Rightarrow> bool" where
  "box_region x0 y0 w h = boxed (unat x0) (unat x0 + unat w) (unat y0) (unat y0 + unat h)"

lemma clipped_region:
  assumes "box_fits x0 y0 w h" "x0 < HorizontalResolution g" "y0 < VerticalResolution g" "on_screen g x y"
  shows "boxed (unat x0) (unat x0 + unat ((if x0 + w > HorizontalResolution g then HorizontalResolution g else x0 + w) - x0))
           (unat y0) (unat (if y0 + h > VerticalResolution g then VerticalResolution g else y0 + h)) x y \<longleftrightarrow> box_region x0 y0 w h x y"
proof -
  have "unat (if y0 + h > VerticalResolution g then VerticalResolution g else y0 + h) = min (unat y0 + unat h) (unat (VerticalResolution g))"
    using assms(1) by (auto simp: box_fits_def unat_add_nowrap word_less_nat_alt)
  then show ?thesis
    using clip(3)[of x0 w "HorizontalResolution g"] assms by (auto simp: box_region_def boxed_def on_screen_def box_fits_def)
qed

lemma clipped_bounds:
  assumes "box_fits x0 y0 w h" "x0 < HorizontalResolution g" "y0 < VerticalResolution g"
  shows "unat y0 \<le> unat (if y0 + h > VerticalResolution g then VerticalResolution g else y0 + h)"
    "unat (if y0 + h > VerticalResolution g then VerticalResolution g else y0 + h) \<le> unat (VerticalResolution g)"
    "unat x0 + unat ((if x0 + w > HorizontalResolution g then HorizontalResolution g else x0 + w) - x0) \<le> unat (HorizontalResolution g)"
  using clip[of x0 w "HorizontalResolution g"] clip[of y0 h "VerticalResolution g"] assms
  unfolding box_fits_def by (blast, blast, simp)

lemma box_off_screen:
  "x0 \<ge> HorizontalResolution g \<or> y0 \<ge> VerticalResolution g \<Longrightarrow> on_screen g x y \<Longrightarrow> \<not> box_region x0 y0 w h x y"
  by (auto simp: box_region_def boxed_def on_screen_def word_le_nat_alt)

lemma draw_box_painted:
  assumes ok: "screen_ok g st" and fits: "box_fits x0 y0 w h"
  shows "\<exists>st'. draw_box (Some g) x0 y0 w h color st = Some st' \<and> painted g (box_region x0 y0 w h) (\<lambda>_. color) st st'"
proof (cases "x0 \<ge> HorizontalResolution g \<or> y0 \<ge> VerticalResolution g")
  case True
  then show ?thesis using painted_nothing[OF ok box_off_screen] by (auto simp: draw_box_def)
next
  case False
  then have lt: "x0 < HorizontalResolution g" "y0 < VerticalResolution g" by auto
  let ?x1 = "if x0 + w > HorizontalResolution g then HorizontalResolution g else x0 + w"
  let ?y1 = "if y0 + h > VerticalResolution g then VerticalResolution g else y0 + h"
  obtain st' where st': "fill_rows g (target g st) [unat y0..<unat ?y1] (unat x0) color (unat (?x1 - x0)) st = Some st'"
    "painted g (boxed (unat x0) (unat x0 + unat (?x1 - x0)) (unat y0) (unat ?y1)) (\<lambda>_. color) st st'"
    using fill_rows_painted[OF ok clipped_bounds[OF fits lt]] by blast
  have "draw_box (Some g) x0 y0 w h color st = Some st'" using False st'(1) by (simp only: draw_box_def option.case Let_def if_False)
  moreover have "painted g (box_region x0 y0 w h) (\<lambda>_. color) st st'"
    by (rule painted_region[OF st'(2) clipped_region[OF fits lt]])
  ultimately show ?thesis by blast
qed

definition rgba_ink :: "gop \<Rightarrow> u32 \<Rightarrow> u32 \<Rightarrow> u32" where
  "rgba_ink g rgba =
     (let r = ucast (drop_bit 24 rgba); gr = ucast (drop_bit 16 rgba); b = ucast (drop_bit 8 rgba); a = ucast rgba in
      if a = 0 then (\<lambda>px. px) else if a = 255 then (\<lambda>px. pack_pixel (PixelFormat g) r gr b)
      else blend_pixel (PixelFormat g) r gr b a)"

definition rgba_region :: "u32 \<Rightarrow> u32 \<Rightarrow> u32 \<Rightarrow> u32 \<Rightarrow> u32 \<Rightarrow> nat \<Rightarrow> nat \<Rightarrow> bool" where
  "rgba_region x0 y0 w h rgba x y \<longleftrightarrow> box_region x0 y0 w h x y \<and> (ucast rgba :: u8) \<noteq> 0"

lemma draw_box_rgba_painted:
  assumes ok: "screen_ok g st" and fits: "box_fits x0 y0 w h"
  shows "\<exists>st'. draw_box_rgba (Some g) x0 y0 w h rgba st = Some st' \<and> painted g (rgba_region x0 y0 w h rgba) (rgba_ink g rgba) st st'"
proof (cases "x0 \<ge> HorizontalResolution g \<or> y0 \<ge> VerticalResolution g \<or> (ucast rgba :: u8) = 0")
  case True
  have "painted g (rgba_region x0 y0 w h rgba) (rgba_ink g rgba) st st"
    by (rule painted_nothing[OF ok]) (use True box_off_screen[of g x0 y0] in \<open>auto simp: rgba_region_def\<close>)
  moreover have "draw_box_rgba (Some g) x0 y0 w h rgba st = Some st" using True by (auto simp: draw_box_rgba_def Let_def)
  ultimately show ?thesis by blast
next
  case False
  then have lt: "x0 < HorizontalResolution g" "y0 < VerticalResolution g" and a: "(ucast rgba :: u8) \<noteq> 0" by auto
  let ?x1 = "if x0 + w > HorizontalResolution g then HorizontalResolution g else x0 + w"
  let ?y1 = "if y0 + h > VerticalResolution g then VerticalResolution g else y0 + h"
  let ?c = "pack_pixel (PixelFormat g) (ucast (drop_bit 24 rgba)) (ucast (drop_bit 16 rgba)) (ucast (drop_bit 8 rgba))"
  let ?f = "blend_pixel (PixelFormat g) (ucast (drop_bit 24 rgba)) (ucast (drop_bit 16 rgba)) (ucast (drop_bit 8 rgba)) (ucast rgba)"
  have region: "painted g (rgba_region x0 y0 w h rgba) ink st st'"
    if "painted g (boxed (unat x0) (unat x0 + unat (?x1 - x0)) (unat y0) (unat ?y1)) ink st st'" for st' ink
    by (rule painted_region[OF that]) (use a clipped_region[OF fits lt] in \<open>simp add: rgba_region_def\<close>)
  have neg: "\<not> (x0 \<ge> HorizontalResolution g \<or> y0 \<ge> VerticalResolution g)" using False by blast
  show ?thesis
  proof (cases "(ucast rgba :: u8) = 255")
    case True
    obtain st' where st': "fill_rows g (target g st) [unat y0..<unat ?y1] (unat x0) ?c (unat (?x1 - x0)) st = Some st'"
      "painted g (boxed (unat x0) (unat x0 + unat (?x1 - x0)) (unat y0) (unat ?y1)) (\<lambda>_. ?c) st st'"
      using fill_rows_painted[OF ok clipped_bounds[OF fits lt]] by blast
    have "draw_box_rgba (Some g) x0 y0 w h rgba st = Some st'"
      using neg True a st'(1) by (simp only: draw_box_rgba_def option.case Let_def if_False if_True simp_thms)
    moreover have "rgba_ink g rgba = (\<lambda>_. ?c)" using True by (simp add: rgba_ink_def Let_def)
    ultimately show ?thesis using region[OF st'(2)] by auto
  next
    case False
    obtain st' where st': "blend_rows g (target g st) ?f [unat y0..<unat ?y1] (unat x0) (unat (?x1 - x0)) st = Some st'"
      "painted g (boxed (unat x0) (unat x0 + unat (?x1 - x0)) (unat y0) (unat ?y1)) ?f st (st'\<lparr>s_frame_dirty := True\<rparr>)"
      using blend_rows_painted[OF ok clipped_bounds[OF fits lt]] by blast
    have "draw_box_rgba (Some g) x0 y0 w h rgba st = Some (st'\<lparr>s_frame_dirty := True\<rparr>)"
      using neg False a st'(1) by (simp only: draw_box_rgba_def option.case Let_def if_False if_True)
    moreover have "rgba_ink g rgba = ?f" using False a by (simp add: rgba_ink_def Let_def)
    ultimately show ?thesis using region[OF st'(2)] by auto
  qed
qed

lemma clear_screen_painted:
  assumes "screen_ok g st"
  shows "\<exists>st'. clear_screen_fb (Some g) r gr b st = Some st' \<and>
           painted g (\<lambda>x y. PixelFormat g \<noteq> PixelBltOnly) (\<lambda>_. pack_pixel (PixelFormat g) r gr b) st st'"
proof (cases "PixelFormat g = PixelBltOnly")
  case True
  then show ?thesis using painted_nothing[OF assms] by (auto simp: clear_screen_fb_def)
next
  case False
  obtain st' where st': "fill_rows g (target g st) [0..<unat (VerticalResolution g)] 0 (pack_pixel (PixelFormat g) r gr b)
      (unat (HorizontalResolution g)) st = Some st'"
    "painted g (boxed 0 (0 + unat (HorizontalResolution g)) 0 (unat (VerticalResolution g))) (\<lambda>_. pack_pixel (PixelFormat g) r gr b) st st'"
    using fill_rows_painted[OF assms, of 0 "unat (VerticalResolution g)" 0 "unat (HorizontalResolution g)"] by auto
  have "painted g (\<lambda>x y. PixelFormat g \<noteq> PixelBltOnly) (\<lambda>_. pack_pixel (PixelFormat g) r gr b) st st'"
    by (rule painted_region[OF st'(2)]) (use False in \<open>auto simp: boxed_def on_screen_def\<close>)
  with False st'(1) show ?thesis by (auto simp: clear_screen_fb_def)
qed

lemma cell_eq: "(x :: nat) < S \<Longrightarrow> x' < S \<Longrightarrow> y * S + x = y' * S + x' \<longleftrightarrow> x = x' \<and> y = y'"
  by (metis cell_index)

lemma put_pixel_painted:
  assumes ok: "screen_ok g st"
  shows "\<exists>st'. put_pixel (Some g) x y color st = Some st' \<and> painted g (\<lambda>x' y'. x' = unat x \<and> y' = unat y) (\<lambda>_. color) st st'"
proof (cases "x \<ge> HorizontalResolution g \<or> y \<ge> VerticalResolution g")
  case True
  have "painted g (\<lambda>x' y'. x' = unat x \<and> y' = unat y) (\<lambda>_. color) st st"
    by (rule painted_nothing[OF ok]) (use True in \<open>auto simp: on_screen_def word_le_nat_alt\<close>)
  with True show ?thesis by (auto simp: put_pixel_def)
next
  case False
  let ?S = "surf_stride g (target g st) st" and ?m = "surf_mem (target g st) st"
  note sz = surface_size[OF ok]
  have on: "on_screen g (unat x) (unat y)" using False by (auto simp: on_screen_def word_le_nat_alt)
  then have xS: "unat x < unat ?S" using sz(1) by (simp add: on_screen_def)
  have idx: "unat y * unat ?S + unat x < unat (VerticalResolution g) * unat ?S"
    by (rule cell_bound[OF xS]) (use on in \<open>auto simp: on_screen_def\<close>)
  then have i: "unat (y * ?S + x) = unat y * unat ?S + unat x" "unat y * unat ?S + unat x < length ?m"
    using sz by (simp_all add: unat_add_nowrap unat_mult_nowrap)
  define m where "m = ?m[unat (y * ?S + x) := color]"
  have len: "length m = length ?m" by (simp add: m_def)
  define b where "b = (target g st = Back \<or> s_frame_dirty st)"
  have cells: "m ! (y' * unat ?S + x') = (if x' = unat x \<and> y' = unat y then color else pixel g st x' y')"
    if "on_screen g x' y'" for x' y'
  proof -
    have x'S: "x' < unat ?S" using that sz(1) by (simp add: on_screen_def)
    show ?thesis using cell_eq[OF x'S xS, of y' "unat y"] i by (auto simp: m_def pixel_def nth_list_update)
  qed
  have "painted g (\<lambda>x' y'. x' = unat x \<and> y' = unat y) (\<lambda>_. color) st ((surf_set (target g st) m st)\<lparr>s_frame_dirty := b\<rparr>)"
    by (rule painted_mem[OF ok len cells]) (auto simp: b_def)
  moreover have "put_pixel (Some g) x y color st = Some ((surf_set (target g st) m st)\<lparr>s_frame_dirty := b\<rparr>)"
    using False i by (cases "target g st") (auto simp: put_pixel_def Let_def m_def b_def surf_set_def)
  ultimately show ?thesis by blast
qed

section \<open>Showing the picture\<close>

lemma blit_rows_mem:
  "blit_rows g ys st =
     map_option (\<lambda>m. st\<lparr>framebuffer := m\<rparr>)
       (mem_rows (\<lambda>y m. row_copy (FrameBufferBase g) m (y * unat (PixelsPerScanLine g)) (backbuffer_addr st) (static_backbuffer st)
            (y * unat (g_backbuf_width st)) (unat (g_backbuf_width st))) ys (framebuffer st))"
  by (induction ys arbitrary: st) (auto split: option.splits)

lemma copy_law:
  assumes "h * S \<le> L" "W \<le> S" "h * W \<le> length src"
  shows "row_law (\<lambda>y m. row_copy da m (y * S) sa src (y * W) W) L S 0 W h (\<lambda>x y px. src ! (y * W + x))"
  unfolding row_law_def
proof (intro allI impI)
  fix y and m :: "u32 list"
  assume y: "y < h" and m: "length m = L"
  have "y * S + 0 + W \<le> L" "y * W + 0 + W \<le> length src"
    using row_bound[OF y assms(1), of 0 W] row_bound[OF y assms(3), of 0 W] assms(2) by simp_all
  then obtain m' where "row_copy da m (y * S) sa src (y * W) W = Some m'" "written m m' (y * S) (y * S + W) (\<lambda>i. src ! (y * W + (i - y * S)))"
    using row_copy_run[of "y * S" W m "y * W" src da sa] m by auto
  then show "\<exists>m'. row_copy da m (y * S) sa src (y * W) W = Some m' \<and>
      written m m' (y * S + 0) (y * S + 0 + W) (\<lambda>i. src ! (y * W + (i - y * S)))" by simp
qed

lemma blit_shows:
  assumes ok: "screen_ok g st" and tb: "target g st = Back"
  shows "\<exists>st'. blit_backbuffer (Some g) st = Some st' \<and> screen_ok g st' \<and> target g st' = Back \<and> \<not> s_frame_dirty st' \<and>
           (\<forall>x y. on_screen g x y \<longrightarrow> shown g st' x y = pixel g st x y \<and> pixel g st' x y = pixel g st x y)"
proof -
  let ?W = "unat (g_backbuf_width st)" and ?H = "unat (g_backbuf_height st)" and ?P = "unat (PixelsPerScanLine g)"
  have b: "g_backbuffer st" "g_backbuf_width st = HorizontalResolution g" "g_backbuf_height st = VerticalResolution g"
    using tb by (auto simp: target_def split: if_splits)
  have sz: "?W \<le> ?P" "?H * ?W \<le> length (static_backbuffer st)" "?H * ?P \<le> length (framebuffer st)"
    using surface_size[OF ok] tb ok b by (auto simp: surf_stride_def surf_mem_def screen_ok_def word_le_nat_alt)
  have finish: ?thesis
    if "blit_backbuffer (Some g) st = Some (st\<lparr>framebuffer := m, s_frame_dirty := False\<rparr>)" "length m = length (framebuffer st)"
      "\<And>x y. on_screen g x y \<Longrightarrow> m ! (y * ?P + x) = static_backbuffer st ! (y * ?W + x)" for m
    using that ok tb b by (auto simp: screen_ok_def target_def shown_def pixel_def surf_stride_def surf_mem_def)
  show ?thesis
  proof (cases "PixelsPerScanLine g = g_backbuf_width st")
    case True
    have le: "0 + ?W * ?H \<le> length (framebuffer st)" "0 + ?W * ?H \<le> length (static_backbuffer st)"
      using sz True by (simp_all add: mult.commute)
    obtain m where m: "row_copy (FrameBufferBase g) (framebuffer st) 0 (backbuffer_addr st) (static_backbuffer st) 0 (?W * ?H) = Some m"
      "written (framebuffer st) m 0 (0 + ?W * ?H) (\<lambda>i. static_backbuffer st ! (0 + (i - 0)))"
      using row_copy_run[OF le] by blast
    show ?thesis
    proof (rule finish)
      show "blit_backbuffer (Some g) st = Some (st\<lparr>framebuffer := m, s_frame_dirty := False\<rparr>)"
        using True b(1) m(1) by (simp add: blit_backbuffer_def)
      show "length m = length (framebuffer st)" by (rule written_length[OF m(2)])
      fix x y assume "on_screen g x y"
      then have "y * ?W + x < ?H * ?W" using b by (intro cell_bound) (auto simp: on_screen_def)
      then show "m ! (y * ?P + x) = static_backbuffer st ! (y * ?W + x)"
        using m(2) le True by (simp add: written_def mult.commute)
    qed
  next
    case False
    let ?op = "\<lambda>y m. row_copy (FrameBufferBase g) m (y * ?P) (backbuffer_addr st) (static_backbuffer st) (y * ?W) ?W"
    have le: "0 + ?W \<le> ?P" using sz(1) by simp
    have law: "row_law ?op (length (framebuffer st)) ?P 0 ?W ?H (\<lambda>x y px. static_backbuffer st ! (y * ?W + x))"
      by (rule copy_law[OF sz(3,1,2)])
    obtain m where m: "mem_rows ?op [0..<?H] (framebuffer st) = Some m" "length m = length (framebuffer st)"
      "\<And>x y. x < ?P \<Longrightarrow> y * ?P + x < length (framebuffer st) \<Longrightarrow> m ! (y * ?P + x) =
         (if boxed 0 (0 + ?W) 0 ?H x y then static_backbuffer st ! (y * ?W + x) else framebuffer st ! (y * ?P + x))"
      using mem_rows_run[OF law order.refl sz(3) le, of 0] by blast
    show ?thesis
    proof (rule finish)
      show "blit_backbuffer (Some g) st = Some (st\<lparr>framebuffer := m, s_frame_dirty := False\<rparr>)"
        using False b(1) m(1) by (simp add: blit_backbuffer_def blit_rows_mem)
      show "length m = length (framebuffer st)" by (rule m(2))
      fix x y assume on: "on_screen g x y"
      then have x: "x < ?P" using sz(1) b by (simp add: on_screen_def)
      have "y * ?P + x < length (framebuffer st)" by (rule cell_bound[OF x _ sz(3)]) (use on b in \<open>simp add: on_screen_def\<close>)
      then show "m ! (y * ?P + x) = static_backbuffer st ! (y * ?W + x)"
        using m(3)[OF x] on b by (simp add: boxed_def on_screen_def)
    qed
  qed
qed

lemma painted_synced:
  assumes "synced g st" "painted g r ink st st'" "target g st = Back"
  shows "synced g st'"
  using assms unfolding synced_def painted_def shown_def by metis

lemma refresh_shows:
  assumes "screen_ok g st" "target g st = Back" "synced g st"
  shows "\<exists>st'. refresh (Some g) st = Some st' \<and> screen_ok g st' \<and> target g st' = Back \<and> synced g st' \<and>
           (\<forall>x y. on_screen g x y \<longrightarrow> shown g st' x y = pixel g st x y \<and> pixel g st' x y = pixel g st x y)"
proof (cases "s_frame_dirty st")
  case True
  then show ?thesis using blit_shows[OF assms(1,2)] by (auto simp: refresh_def synced_def)
next
  case False
  then show ?thesis using assms by (auto simp: refresh_def synced_def)
qed

text \<open>
  The contract of a drawing call \<open>run\<close> with arguments \<open>a\<close>: wherever it \<open>fits\<close>, it paints its region with its ink.
\<close>

locale painter =
  fixes run :: "gop \<Rightarrow> 'a \<Rightarrow> gui \<Rightarrow> gui option"
    and fits :: "gop \<Rightarrow> 'a \<Rightarrow> bool"
    and region :: "gop \<Rightarrow> 'a \<Rightarrow> nat \<Rightarrow> nat \<Rightarrow> bool"
    and ink :: "gop \<Rightarrow> 'a \<Rightarrow> u32 \<Rightarrow> u32"
  assumes paints: "screen_ok g st \<Longrightarrow> fits g a \<Longrightarrow> \<exists>st'. run g a st = Some st' \<and> painted g (region g a) (ink g a) st st'"
begin

lemma then_shown:
  assumes "screen_ok g st" "fits g a" "target g st = Back" "synced g st"
  shows "\<exists>st1 st2. run g a st = Some st1 \<and> refresh (Some g) st1 = Some st2 \<and> screen_ok g st2 \<and> target g st2 = Back \<and> synced g st2 \<and>
           (\<forall>x y. on_screen g x y \<longrightarrow> shown g st2 x y = (if region g a x y then ink g a (pixel g st x y) else pixel g st x y))"
proof -
  obtain st1 where st1: "run g a st = Some st1" "painted g (region g a) (ink g a) st st1" using paints[OF assms(1,2)] by blast
  have ok: "screen_ok g st1" "target g st1 = Back" "synced g st1"
    using st1(2) assms(3) painted_synced[OF assms(4) st1(2) assms(3)] by (simp_all add: painted_def)
  obtain st2 where "refresh (Some g) st1 = Some st2" "screen_ok g st2" "target g st2 = Back" "synced g st2"
    "\<forall>x y. on_screen g x y \<longrightarrow> shown g st2 x y = pixel g st1 x y"
    using refresh_shows[OF ok] by blast
  with st1 show ?thesis by (auto simp: painted_def)
qed

lemma keeps_screen:
  assumes "screen_ok g st" "fits g a"
  obtains st' where "run g a st = Some st'" "screen_ok g st'" "target g st' = target g st"
  using paints[OF assms] by (auto simp: painted_def)

end

interpretation box: painter "\<lambda>g (x0, y0, w, h, color). draw_box (Some g) x0 y0 w h color" "\<lambda>g (x0, y0, w, h, color). box_fits x0 y0 w h"
  "\<lambda>g (x0, y0, w, h, color). box_region x0 y0 w h" "\<lambda>g (x0, y0, w, h, color) _. color"
  by unfold_locales (auto split: prod.splits dest: draw_box_painted)

interpretation rgba_box: painter "\<lambda>g (x0, y0, w, h, rgba). draw_box_rgba (Some g) x0 y0 w h rgba" "\<lambda>g (x0, y0, w, h, rgba). box_fits x0 y0 w h"
  "\<lambda>g (x0, y0, w, h, rgba). rgba_region x0 y0 w h rgba" "\<lambda>g (x0, y0, w, h, rgba). rgba_ink g rgba"
  by unfold_locales (auto split: prod.splits dest: draw_box_rgba_painted)

interpretation point: painter "\<lambda>g (x, y, color). put_pixel (Some g) x y color" "\<lambda>g a. True"
  "\<lambda>g (x, y, color) x' y'. x' = unat x \<and> y' = unat y" "\<lambda>g (x, y, color) _. color"
  by unfold_locales (auto split: prod.splits dest: put_pixel_painted)

interpretation clear: painter "\<lambda>g (r, gr, b). clear_screen_fb (Some g) r gr b" "\<lambda>g a. True"
  "\<lambda>g a x y. PixelFormat g \<noteq> PixelBltOnly" "\<lambda>g (r, gr, b) _. pack_pixel (PixelFormat g) r gr b"
  by unfold_locales (auto split: prod.splits dest: clear_screen_painted)

section \<open>Overruns\<close>

lemma store64_length: "store64 m i w = Some m' \<Longrightarrow> length m' = length m"
  by (auto simp: store64_def split: if_splits)

lemma fill64_length: "fill64_loop js m d pat = Some m' \<Longrightarrow> length m' = length m"
  by (induction js arbitrary: m) (auto dest: store64_length split: option.splits)

lemma fill64_overrun: "j \<in> set js \<Longrightarrow> length m \<le> d + 2 * j + 1 \<Longrightarrow> fill64_loop js m d pat = None"
  by (induction js arbitrary: m) (auto simp: store64_def dest: store64_length split: option.splits if_splits)

lemma fill32_overrun: "i \<in> set is \<Longrightarrow> length m \<le> d + i \<Longrightarrow> fill32_loop is m d color = None"
  by (induction "is" arbitrary: m) auto

lemma fill64_append:
  "fill64_loop (is @ js) m d pat = (case fill64_loop is m d pat of None \<Rightarrow> None | Some m1 \<Rightarrow> fill64_loop js m1 d pat)"
  by (induction "is" arbitrary: m) (auto split: option.splits)

lemma fill_row_overrun:
  assumes "0 < n" "length m < d + n"
  shows "fill_row addr m d color n = None"
proof (cases "aligned8 addr d")
  case False
  then show ?thesis using fill32_overrun[of "n - 1" "[0..<n]" m d color] assms by (auto simp: fill_row_def)
next
  case True
  define q where "q = n div 2"
  let ?pat = "push_bit 32 (ucast color) OR ucast color :: u64"
  have f: "[0..<q] = [0..<4 * (q div 4)] @ [4 * (q div 4)..<q]"
    using upt_add_eq_append[of 0 "4 * (q div 4)" "q - 4 * (q div 4)"] by simp
  have c: "q * 2 = 2 * q" "q div 4 * 4 = 4 * (q div 4)" by simp_all
  have eq: "fill_row addr m d color n =
      (case fill64_loop [0..<q] m d ?pat of None \<Rightarrow> None | Some m2 \<Rightarrow> fill32_loop [2 * q..<n] m2 d color)"
    using True fill64x4_flat[of 0 "q div 4" m d ?pat]
    unfolding fill_row_def q_def[symmetric] Let_def f fill64_append c by (auto split: option.splits)
  have "n = 2 * q \<or> n = 2 * q + 1" unfolding q_def by presburger
  then have "q > 0 \<and> length m \<le> d + 2 * (q - 1) + 1 \<or> n = 2 * q + 1 \<and> length m \<le> d + 2 * q" using assms by linarith
  then show ?thesis
  proof (elim disjE conjE, goal_cases)
    case 1
    then show ?thesis using eq fill64_overrun[of "q - 1" "[0..<q]" m d ?pat] by simp
  next
    case 2
    then show ?thesis
      using eq fill32_overrun[of "2 * q" "[2 * q..<n]" _ d color] fill64_length[of "[0..<q]" m d ?pat] by (auto split: option.splits)
  qed
qed

lemma copy64_length: "copy64_loop js m d src s = Some m' \<Longrightarrow> length m' = length m"
  by (induction js arbitrary: m) (auto dest: store64_length split: option.splits)

lemma copy64_overrun:
  "j \<in> set js \<Longrightarrow> length m \<le> d + 2 * j + 1 \<or> length src \<le> s + 2 * j + 1 \<Longrightarrow> copy64_loop js m d src s = None"
  by (induction js arbitrary: m) (auto simp: store64_def load64_def dest: store64_length split: option.splits if_splits)

lemma copy32_overrun:
  "i \<in> set is \<Longrightarrow> length m \<le> d + i \<or> length src \<le> s + i \<Longrightarrow> copy32_loop is m d src s = None"
  by (induction "is" arbitrary: m) auto

lemma copy32_row_overrun:
  assumes "0 < n" "length m < d + n \<or> length src < s + n"
  shows "copy32_loop [0..<n] m d src s = None"
  by (rule copy32_overrun[of "n - 1"]) (use assms in \<open>simp, linarith\<close>)

lemma row_copy_overrun:
  assumes "0 < n" "length m < d + n \<or> length src < s + n"
  shows "row_copy da m d sa src s n = None"
proof (cases "aligned8 da d \<and> aligned8 sa s")
  case False
  then show ?thesis using copy32_row_overrun[OF assms] by (auto simp: row_copy_def)
next
  case True
  define q where "q = n div 2"
  have f: "[0..<q] = [0..<4 * (q div 4)] @ [4 * (q div 4)..<q]"
    using upt_add_eq_append[of 0 "4 * (q div 4)" "q - 4 * (q div 4)"] by simp
  have c: "q * 2 = 2 * q" "q div 4 * 4 = 4 * (q div 4)" by simp_all
  have eq: "row_copy da m d sa src s n =
      (case copy64_loop [0..<q] m d src s of None \<Rightarrow> None | Some m2 \<Rightarrow> copy32_loop [2 * q..<n] m2 d src s)"
    using True copy64x4_flat[of 0 "q div 4" m d src s]
    unfolding row_copy_def q_def[symmetric] Let_def f copy64_append c by (auto split: option.splits)
  have "n = 2 * q \<or> n = 2 * q + 1" unfolding q_def by presburger
  then have "q > 0 \<and> (length m \<le> d + 2 * (q - 1) + 1 \<or> length src \<le> s + 2 * (q - 1) + 1) \<or>
      n = 2 * q + 1 \<and> (length m \<le> d + 2 * q \<or> length src \<le> s + 2 * q)" using assms by linarith
  then show ?thesis
  proof (elim disjE[of "q > 0 \<and> _"] conjE, goal_cases)
    case 1
    then show ?thesis using eq copy64_overrun[of "q - 1" "[0..<q]" m d src s] by simp
  next
    case 2
    then show ?thesis
      using eq copy32_overrun[of "2 * q" "[2 * q..<n]" _ d src s] copy64_length[of "[0..<q]" m d src s] by (auto split: option.splits)
  qed
qed

end
