(* ===== verification/Gui_Correct.thy ===== *)
theory Gui_Correct
  imports Gui
begin

text \<open>
  The properties of the drawing layer, over the contract \<open>painter\<close> of the theory \<open>Gui\<close>, with a 640 by 480 screen as
  the concrete instance of the witnesses.
\<close>

unbundle bit_operations_syntax

section \<open>Blending\<close>

definition blend_sum :: "u8 \<Rightarrow> u8 \<Rightarrow> u8 \<Rightarrow> nat" where
  "blend_sum s d a = unat s * unat a + unat d * (255 - unat a)"

lemma byte_le: "unat (b :: u8) \<le> 255"
proof -
  have "unat b < 2 ^ LENGTH(8)" by (rule unsigned_less)
  then show ?thesis by simp
qed

lemma unat_255_minus: "unat (255 - a :: u8) = 255 - unat a"
proof -
  have "a \<le> 255" using byte_le[of a] by (simp add: word_le_nat_alt)
  then show ?thesis by (simp add: unat_sub)
qed

lemma mix_bounds:
  assumes "(a :: nat) \<le> 255"
  shows "255 * min s d \<le> s * a + d * (255 - a)" "s * a + d * (255 - a) \<le> 255 * max s d"
proof -
  have "min s d * a \<le> s * a" "min s d * (255 - a) \<le> d * (255 - a)"
    "s * a \<le> max s d * a" "d * (255 - a) \<le> max s d * (255 - a)" by (simp_all add: mult_le_mono1)
  moreover have "n * a + n * (255 - a) = 255 * n" for n
    using assms by (metis add_mult_distrib2 le_add_diff_inverse mult.commute)
  ultimately show "255 * min s d \<le> s * a + d * (255 - a)" "s * a + d * (255 - a) \<le> 255 * max s d"
    by (metis add_le_mono)+
qed

lemma blend_sum_le: "blend_sum s d a \<le> 65025"
proof -
  have "max (unat s) (unat d) \<le> 255" using byte_le[of s] byte_le[of d] by simp
  then have "255 * max (unat s) (unat d) \<le> 65025" by simp
  with mix_bounds(2)[OF byte_le[of a], of "unat s" "unat d"] show ?thesis unfolding blend_sum_def by (rule order_trans)
qed

lemma low_byte_u32: "unat (w :: u32) < 256 \<Longrightarrow> unat (ucast w :: u8) = unat w"
  by (simp add: unsigned_ucast_eq take_bit_nat_eq_self_iff)

lemma unat_blend: "unat (blend_chan s d a) = (blend_sum s d a + blend_sum s d a div 256 + 128) div 256"
proof -
  let ?x = "(ucast s :: u32) * ucast a + ucast d * ucast (255 - a)"
  have p: "unat s * unat a \<le> 65025" "unat d * (255 - unat a) \<le> 65025"
    using blend_sum_le[of s d a] by (simp_all add: blend_sum_def)
  have m: "unat ((ucast s :: u32) * ucast a) = unat s * unat a" "unat ((ucast d :: u32) * ucast (255 - a)) = unat d * (255 - unat a)"
    using p by (simp_all add: unat_mult_nowrap unat_255_minus)
  have x: "unat ?x = blend_sum s d a"
    using p m by (simp add: unat_add_nowrap blend_sum_def)
  have d: "unat (drop_bit 8 ?x) = blend_sum s d a div 256" using x by (simp add: unat_drop_bit_eq drop_bit_eq_div unat_div)
  have y: "unat (?x + drop_bit 8 ?x + 0x80) = blend_sum s d a + blend_sum s d a div 256 + 128"
    using x d blend_sum_le[of s d a] by (simp add: unat_add_nowrap)
  then have z: "unat (drop_bit 8 (?x + drop_bit 8 ?x + 0x80)) = (blend_sum s d a + blend_sum s d a div 256 + 128) div 256"
    by (simp add: unat_drop_bit_eq drop_bit_eq_div unat_div)
  have lt: "(blend_sum s d a + blend_sum s d a div 256 + 128) div 256 < 256" using blend_sum_le[of s d a] by linarith
  have "unat (ucast (drop_bit 8 (?x + drop_bit 8 ?x + 0x80)) :: u8) = unat (drop_bit 8 (?x + drop_bit 8 ?x + 0x80))"
    by (rule low_byte_u32) (use z lt in \<open>simp only:\<close>)
  then show ?thesis using z by (simp only: blend_chan_def Let_def)
qed

lemma blend_mono: "x \<le> y \<Longrightarrow> (x + x div 256 + 128) div 256 \<le> (y + y div 256 + 128) div (256 :: nat)"
  by (intro div_le_mono add_mono) simp_all

lemma blend_exact: "v \<le> 255 \<Longrightarrow> (255 * v + 255 * v div 256 + 128) div 256 = (v :: nat)"
proof (cases v)
  case (Suc u)
  assume "v \<le> 255"
  with Suc have "255 * v = 256 * u + (255 - u)" by simp
  then have "255 * v div 256 = u" by simp
  with Suc \<open>v \<le> 255\<close> show ?thesis by simp
qed simp

lemma blend_error:
  assumes "x \<le> (65025 :: int)" "0 \<le> x"
  shows "\<bar>255 * ((x + x div 256 + 128) div 256) - x\<bar> \<le> 128"
proof -
  define k where "k = x div 256"
  define m where "m = x mod 256"
  have x: "x = 256 * k + m" "0 \<le> m" "m < 256" by (simp_all add: k_def m_def)
  define e where "e = (m + k + 128) div 256"
  have "x + x div 256 + 128 = 256 * k + (m + k + 128)" using x(1) k_def by simp
  then have r: "(x + x div 256 + 128) div 256 = k + e" by (simp add: e_def)
  have "256 * e \<le> m + k + 128" "m + k + 128 < 256 * e + 256" unfolding e_def by linarith+
  moreover have "0 \<le> k" "k \<le> 254" using x assms by linarith+
  ultimately have "\<bar>255 * e - k - m\<bar> \<le> 128" using x by linarith
  with x r show ?thesis by (simp add: algebra_simps)
qed

text \<open>
  Alpha blending of a colour channel is accurate: the result differs from the exact mixture
  \<open>(s a + d (255 - a)) / 255\<close> by at most 128/255, lies between the two channels, and is exact at the opaque and
  the transparent end.  No intermediate value overflows.
\<close>

theorem blend_chan_accurate:
  "\<bar>255 * int (unat (blend_chan s d a)) - (int (unat s) * int (unat a) + int (unat d) * (255 - int (unat a)))\<bar> \<le> 128 \<and>
   min (unat s) (unat d) \<le> unat (blend_chan s d a) \<and> unat (blend_chan s d a) \<le> max (unat s) (unat d) \<and>
   blend_chan s d 255 = s \<and> blend_chan s d 0 = d"
proof (intro conjI)
  have "int (blend_sum s d a) = int (unat s) * int (unat a) + int (unat d) * (255 - int (unat a))"
    using byte_le[of a] by (simp add: blend_sum_def of_nat_diff)
  moreover have "\<bar>255 * int (unat (blend_chan s d a)) - int (blend_sum s d a)\<bar> \<le> 128"
    using blend_error[of "int (blend_sum s d a)"] blend_sum_le[of s d a] by (simp add: unat_blend zdiv_int)
  ultimately show "\<bar>255 * int (unat (blend_chan s d a)) - (int (unat s) * int (unat a) + int (unat d) * (255 - int (unat a)))\<bar> \<le> 128"
    by simp
  note mix = mix_bounds[OF byte_le[of a], of "unat s" "unat d", folded blend_sum_def]
  show "min (unat s) (unat d) \<le> unat (blend_chan s d a)"
    using blend_mono[OF mix(1)] blend_exact[of "min (unat s) (unat d)"] byte_le[of s] by (simp add: unat_blend min_le_iff_disj)
  show "unat (blend_chan s d a) \<le> max (unat s) (unat d)"
    using blend_mono[OF mix(2)] blend_exact[of "max (unat s) (unat d)"] byte_le[of s] byte_le[of d] by (simp add: unat_blend)
  show "blend_chan s d 255 = s" "blend_chan s d 0 = d"
    using blend_exact[of "unat s"] blend_exact[of "unat d"] byte_le[of s] byte_le[of d]
    by (simp_all add: word_unat_eq_iff unat_blend blend_sum_def mult.commute)
qed

section \<open>Drawing\<close>

text \<open>
  C40 (equivalence).  The row routines, with their 64-bit stores unrolled four times on aligned rows, do exactly what
  the plain pixel loops do, on every input: the same memory, or the same failure when the row leaves its
  array.
\<close>

theorem rows_are_plain_loops:
  "row_copy da m d sa src s n = copy32_loop [0..<n] m d src s \<and> fill_row da m d color n = fill32_loop [0..<n] m d color"
proof
  show "row_copy da m d sa src s n = copy32_loop [0..<n] m d src s"
  proof (cases "n = 0 \<or> (d + n \<le> length m \<and> s + n \<le> length src)")
    case False
    then show ?thesis
      using row_copy_overrun[of n m d src s da sa] copy32_row_overrun[of n m d src s] by (auto simp: not_le)
  next
    case True
    show ?thesis
    proof (cases "n = 0")
      case False
      with True have le: "d + n \<le> length m" "s + n \<le> length src" by simp_all
      show ?thesis
        using row_copy_run[OF le, of da sa] copy32_run[OF le, of 0] written_unique by fastforce
    qed (simp add: row_copy_def)
  qed
  show "fill_row da m d color n = fill32_loop [0..<n] m d color"
  proof (cases "n = 0 \<or> d + n \<le> length m")
    case False
    then show ?thesis using fill_row_overrun[of n m d da color] fill32_overrun[of "n - 1" "[0..<n]" m d color] by auto
  next
    case True
    show ?thesis
    proof (cases "n = 0")
      case False
      with True have le: "d + n \<le> length m" "d + n \<le> length (replicate (d + n) color)" by simp_all
      have "fill32_loop [0..<n] m d color = copy32_loop [0..<n] m d (replicate (d + n) color) d"
        by (rule fill32_copy32) (simp_all add: list_all_length)
      then obtain m' where m': "fill32_loop [0..<n] m d color = Some m'" "written m m' d (d + n) (\<lambda>i. replicate (d + n) color ! (d + (i - d)))"
        using copy32_run[OF le, of 0] by auto
      have "written m m' d (d + n) (\<lambda>i. color)" by (rule written_cong[OF m'(2)]) simp_all
      then show ?thesis using fill_row_run[OF le(1), of da color] m'(1) written_unique by fastforce
    qed (simp add: fill_row_def)
  qed
qed

text \<open>
  C19 (functional).  \<^verbatim>\<open>draw_box\<close> returns and changes exactly the pixels of the rectangle that are on the screen, on
  the back buffer or directly on the frame buffer, whenever the far corner does not pass \<open>2^32\<close>.
\<close>

theorem draw_box_exact:
  assumes "screen_ok g st" "unat x0 + unat w < 2 ^ 32" "unat y0 + unat h < 2 ^ 32"
  shows "\<exists>st'. draw_box (Some g) x0 y0 w h color st = Some st' \<and> screen_ok g st' \<and>
           (\<forall>x y. on_screen g x y \<longrightarrow> pixel g st' x y =
              (if unat x0 \<le> x \<and> x < unat x0 + unat w \<and> unat y0 \<le> y \<and> y < unat y0 + unat h then color else pixel g st x y))"
  using draw_box_painted[OF assms(1), of x0 y0 w h color] assms
  by (auto simp: painted_def box_region_def boxed_def box_fits_def)

text \<open>
  C39 (refinement).  A translucent box drawn on a clean or dirty frame and followed by \<^verbatim>\<open>refresh\<close> is on the screen, whenever its
  far corner does not pass \<open>2^32\<close>: every pixel of the frame buffer is the blended colour inside the box and the previous
  picture outside.
\<close>

theorem rgba_box_shown:
  assumes "screen_ok g st" "target g st = Back" "synced g st" "unat x0 + unat w < 2 ^ 32" "unat y0 + unat h < 2 ^ 32"
  shows "\<exists>st1 st2. draw_box_rgba (Some g) x0 y0 w h rgba st = Some st1 \<and> refresh (Some g) st1 = Some st2 \<and>
           screen_ok g st2 \<and> synced g st2 \<and>
           (\<forall>x y. on_screen g x y \<longrightarrow> shown g st2 x y =
              (if rgba_region x0 y0 w h rgba x y then rgba_ink g rgba (pixel g st x y) else pixel g st x y))"
  using rgba_box.then_shown[OF assms(1), where a = "(x0, y0, w, h, rgba)"] assms by (fastforce simp: box_fits_def)

text \<open>
  A width that wraps around is not clipped: \<^verbatim>\<open>x0 + w\<close> becomes smaller than \<^verbatim>\<open>x0\<close>, the span is then
  almost \<open>2^32\<close> pixels, and \<^verbatim>\<open>draw_box\<close> writes past the end of the back buffer.
\<close>

theorem draw_box_wrap_overruns:
  assumes "screen_ok g st" "target g st = Back" "x0 < HorizontalResolution g" "y0 < VerticalResolution g"
    and "2 ^ 32 \<le> unat x0 + unat w" "0 < h" "unat y0 + unat h < 2 ^ 32"
  shows "draw_box (Some g) x0 y0 w h color st = None"
proof -
  let ?y1 = "if y0 + h > VerticalResolution g then VerticalResolution g else y0 + h"
  have "unat x0 < 2 ^ LENGTH(32)" "unat w < 2 ^ LENGTH(32)" by (rule unsigned_less)+
  then have lt: "unat x0 < 2 ^ 32" "unat w < 2 ^ 32" by simp_all
  have "x0 + w = word_of_nat (unat x0 + unat w)" by simp
  then have "unat (x0 + w) = (unat x0 + unat w) mod 2 ^ 32" by (simp add: unat_of_nat take_bit_eq_mod del: of_nat_add)
  also have "\<dots> = unat x0 + unat w - 2 ^ 32" using lt assms(5) by (simp add: mod_if)
  finally have "x0 + w < x0" using lt assms(5) unfolding word_less_nat_alt by linarith
  then have x1: "\<not> x0 + w > HorizontalResolution g" using assms(3) by auto
  have h: "unat y0 < unat ?y1"
    using assms(4,6,7) by (auto simp: word_less_nat_alt unat_add_nowrap)
  have w: "x0 + w - x0 = w" by simp
  have len: "length (surf_mem Back st) = 2304000" using assms(1) by (simp add: screen_ok_def surf_mem_def)
  have "unat x0 \<le> 1920" using assms(1-3) by (auto simp: screen_ok_def target_def word_less_nat_alt split: if_splits)
  then have n: "0 < unat w" "2304000 < unat y0 * k + unat x0 + unat w" for k using assms(5) by auto
  have "fill_rows g Back (unat y0 # ys) (unat x0) color (unat w) st = None" for ys
    using fill_row_overrun[OF n(1)] n(2) len by simp
  then have "fill_rows g Back [unat y0..<unat ?y1] (unat x0) color (unat w) st = None"
    using h by (simp only: upt_conv_Cons)
  then show ?thesis using assms(2-4) x1 w by (simp add: draw_box_def Let_def not_le)
qed

section \<open>Witnesses\<close>

definition vga :: gop where
  "vga = \<lparr>HorizontalResolution = 640, VerticalResolution = 480, PixelFormat = PixelBlueGreenRedReserved8BitPerColor,
          PixelsPerScanLine = 704, FrameBufferBase = 0xE0000000\<rparr>"

definition vga_start :: gui where
  "vga_start = init_backbuffer (Some vga)
     \<lparr>framebuffer = replicate 337920 0, static_backbuffer = replicate 2304000 0, backbuffer_addr = 0x100000,
      g_backbuffer = False, g_backbuf_width = 0, g_backbuf_height = 0, s_frame_dirty = True\<rparr>"

lemma vga_ok: "screen_ok vga vga_start" "target vga vga_start = Back" "synced vga vga_start"
  by (simp_all add: screen_ok_def vga_start_def init_backbuffer_def vga_def target_def synced_def)

lemma vga_pixel: "on_screen vga x y \<Longrightarrow> pixel vga vga_start x y = 0"
  using cell_bound[of x 640 y 480 2304000] vga_ok(2)
  by (simp add: pixel_def surf_mem_def surf_stride_def vga_start_def init_backbuffer_def vga_def on_screen_def)

theorem draw_box_exact_witness:
  "\<exists>st'. draw_box (Some vga) 630 10 50 20 0xFFFFFF vga_start = Some st' \<and> pixel vga st' 639 29 = 0xFFFFFF \<and> pixel vga st' 629 29 = 0"
  using draw_box_exact[OF vga_ok(1), of 630 50 10 20 "0xFFFFFF"] vga_pixel[of 629 29] by (auto simp: on_screen_def vga_def)

theorem rgba_box_shown_witness:
  "\<exists>st1 st2. draw_box_rgba (Some vga) 600 400 100 100 0xFF000080 vga_start = Some st1 \<and> refresh (Some vga) st1 = Some st2 \<and>
     shown vga st2 620 450 = 0x800000 \<and> shown vga st2 599 450 = 0"
proof -
  have "rgba_ink vga 0xFF000080 0 = 0x800000"
    by (simp add: rgba_ink_def vga_def blend_pixel_def blend_chan_def Let_def)
  moreover have "rgba_region 600 400 100 100 0xFF000080 620 450" "\<not> rgba_region 600 400 100 100 0xFF000080 599 450"
    by (simp_all add: rgba_region_def box_region_def boxed_def)
  moreover have "on_screen vga 620 450" "on_screen vga 599 450" by (simp_all add: on_screen_def vga_def)
  ultimately show ?thesis
    using rgba_box_shown[OF vga_ok, of 600 100 400 100 "0xFF000080"] vga_pixel[of 620 450] vga_pixel[of 599 450] by auto
qed

theorem draw_box_wrap_overruns_witness: "draw_box (Some vga) 5 5 0xFFFFFFFF 1 0xFFFFFF vga_start = None"
  by (rule draw_box_wrap_overruns[OF vga_ok(1,2)]) (simp_all add: vga_def)

end
