(* ===== verification/Fonts_Data.thy ===== *)
theory Fonts_Data
  imports Prelude
begin

text \<open>
  The pictures of the 8 by 16 font, \<^verbatim>\<open>fonts_init\<close> of \<^verbatim>\<open>gui/fonts.c\<close>: one constant per glyph, sixteen lines of \<^verbatim>\<open>#\<close> and \<^verbatim>\<open>.\<close> each, as
  they stand in the source (a few lines have seven or nine columns), and the table of registrations.
\<close>

definition glyph_Space :: "string list" where
  "glyph_Space =
     [''........'', ''........'', ''........'', ''........'', ''........'', ''........'', ''........'', ''........'',
      ''........'', ''........'', ''........'', ''........'', ''........'', ''........'', ''........'', ''........'']"

definition glyph_ExcMark :: "string list" where
  "glyph_ExcMark =
     [''...##...'', ''...##...'', ''...##...'', ''...##...'', ''...##...'', ''...##...'', ''...##...'', ''...##...'',
      ''...##...'', ''...##...'', ''...##...'', ''...##...'', ''........'', ''...##...'', ''...##...'', ''........'']"

definition glyph_DoubQuot :: "string list" where
  "glyph_DoubQuot =
     [''##....##'', ''##....##'', ''##....##'', ''##....##'', ''##....##'', ''........'', ''........'', ''........'',
      ''........'', ''........'', ''........'', ''........'', ''........'', ''........'', ''........'', ''........'']"

definition glyph_Hash :: "string list" where
  "glyph_Hash =
     [''.##..##.'', ''.##..##.'', ''########'', ''########'', ''.##..##.'', ''.##..##.'', ''.##..##.'', ''.##..##.'',
      ''.##..##.'', ''.##..##.'', ''.##..##.'', ''########'', ''########'', ''.##..##.'', ''.##..##.'', ''........'']"

definition glyph_Dollar :: "string list" where
  "glyph_Dollar =
     [''...####.'', ''.#######'', ''.####..#'', ''##.##...'', ''##.##...'', ''##.##...'', ''##.##...'', ''##.##...'',
      ''.####...'', ''...##...'', ''...####.'', ''...#####'', ''#######.'', ''#####...'', ''...##...'', ''........'']"

definition glyph_Procent :: "string list" where
  "glyph_Procent =
     [''.###..##'', ''.###..##'', ''.###.##.'', ''.....##.'', ''....##..'', ''....##..'', ''...##...'', ''...##...'',
      ''..##....'', ''..##....'', ''.##.....'', ''.##.....'', ''##..###.'', ''##..###.'', ''##..###.'', ''........'']"

definition glyph_Ampersand :: "string list" where
  "glyph_Ampersand =
     [''.######.'', ''##....##'', ''##....##'', ''.######.'', ''..####..'', ''...##...'', ''..##....'', ''.####...'',
      ''##.##...'', ''##.##.##'', ''##.##.##'', ''##..####'', ''##..###.'', ''########'', ''.####.##'', ''........'']"

definition glyph_Quote :: "string list" where
  "glyph_Quote =
     [''...##...'', ''...##...'', ''...##...'', ''...##...'', ''...##...'', ''........'', ''........'', ''........'',
      ''........'', ''........'', ''........'', ''........'', ''........'', ''........'', ''........'', ''........'']"

definition glyph_Lparanthesis :: "string list" where
  "glyph_Lparanthesis =
     [''....##..'', ''..###...'', ''###.....'', ''##......'', ''##......'', ''##......'', ''##......'', ''##......'',
      ''##......'', ''##......'', ''##......'', ''##......'', ''###.....'', ''..###...'', ''....##..'', ''........'']"

definition glyph_Rparanthesis :: "string list" where
  "glyph_Rparanthesis =
     [''..##....'', ''...###..'', ''.....###'', ''......##'', ''......##'', ''......##'', ''......##'', ''......##'',
      ''......##'', ''......##'', ''......##'', ''......##'', ''.....###'', ''...###..'', ''..##....'', ''........'']"

definition glyph_Mul :: "string list" where
  "glyph_Mul =
     [''##.##.##'', ''##.##.##'', ''.######.'', ''##.##.##'', ''##.##.##'', ''........'', ''........'', ''........'',
      ''........'', ''........'', ''........'', ''........'', ''........'', ''........'', ''........'', ''........'']"

definition glyph_Plus :: "string list" where
  "glyph_Plus =
     [''........'', ''...##...'', ''...##...'', ''...##...'', ''...##...'', ''########'', ''########'', ''...##...'',
      ''...##...'', ''...##...'', ''...##...'', ''...##...'', ''...##...'', ''........'', ''........'', ''........'']"

definition glyph_Comma :: "string list" where
  "glyph_Comma =
     [''........'', ''........'', ''........'', ''........'', ''........'', ''........'', ''........'', ''........'',
      ''........'', ''........'', ''........'', ''........'', ''........'', ''...##...'', ''...##...'', ''..##....'']"

definition glyph_Minus :: "string list" where
  "glyph_Minus =
     [''........'', ''........'', ''........'', ''........'', ''........'', ''########'', ''########'', ''........'',
      ''........'', ''........'', ''........'', ''........'', ''........'', ''........'', ''........'', ''........'']"

definition glyph_Dot :: "string list" where
  "glyph_Dot =
     [''........'', ''........'', ''........'', ''........'', ''........'', ''........'', ''........'', ''........'',
      ''........'', ''........'', ''........'', ''........'', ''........'', ''...##...'', ''...##...'', ''........'']"

definition glyph_Slash :: "string list" where
  "glyph_Slash =
     [''......##'', ''......##'', ''.....##.'', ''.....##.'', ''....##..'', ''....##..'', ''...##...'', ''...##...'',
      ''..##....'', ''..##....'', ''.##.....'', ''.##.....'', ''##......'', ''##......'', ''##......'', ''........'']"

definition glyph_TwoDots :: "string list" where
  "glyph_TwoDots =
     [''........'', ''...##...'', ''...##...'', ''........'', ''........'', ''........'', ''........'', ''........'',
      ''........'', ''........'', ''........'', ''........'', ''........'', ''...##...'', ''...##...'', ''........'']"

definition glyph_Semicolon :: "string list" where
  "glyph_Semicolon =
     [''........'', ''...##...'', ''...##...'', ''........'', ''........'', ''........'', ''........'', ''........'',
      ''........'', ''........'', ''........'', ''........'', ''...##...'', ''...##...'', ''..##....'', ''........'']"

definition glyph_Rgreater :: "string list" where
  "glyph_Rgreater =
     [''........'', ''........'', ''......##'', ''.....##.'', ''....##..'', ''...##...'', ''..##....'', ''.##.....'',
      ''##......'', ''.##.....'', ''..##....'', ''...##...'', ''....##..'', ''.....##.'', ''......##'', ''........'']"

definition glyph_Equal :: "string list" where
  "glyph_Equal =
     [''........'', ''........'', ''........'', ''........'', ''########'', ''########'', ''........'', ''........'',
      ''........'', ''........'', ''########'', ''########'', ''........'', ''........'', ''........'', ''........'']"

definition glyph_Lgreater :: "string list" where
  "glyph_Lgreater =
     [''........'', ''##......'', ''.##.....'', ''..##....'', ''...##...'', ''....##..'', ''.....##.'', ''......##'',
      ''......##'', ''.....##.'', ''....##..'', ''...##...'', ''..##....'', ''.##.....'', ''##......'', ''........'']"

definition glyph_QuestMark :: "string list" where
  "glyph_QuestMark =
     [''........'', ''.####...'', ''##..##..'', ''#....##.'', ''......##'', ''......##'', ''......##'', ''.....##.'',
      ''....##..'', ''...##...'', ''...##...'', ''...##...'', ''........'', ''...##...'', ''...##...'', ''........'']"

definition glyph_Aron :: "string list" where
  "glyph_Aron =
     [''........'', ''........'', ''...####.'', ''..#....#'', ''.#..##.#'', ''.#.#.#.#'', ''.#.#.#.#'', ''.#..##.#'',
      ''..#.....'', ''...####.'', ''........'', ''........'', ''........'', ''........'', ''........'', ''........'']"

definition glyph_A :: "string list" where
  "glyph_A =
     [''.######.'', ''##....##'', ''##....##'', ''##....##'', ''########'', ''########'', ''##....##'', ''##....##'',
      ''##....##'', ''##....##'', ''##....##'', ''##....##'', ''##....##'', ''##....##'', ''##....##'', ''........'']"

definition glyph_B :: "string list" where
  "glyph_B =
     [''#######.'', ''##....##'', ''##....##'', ''##....##'', ''##....##'', ''#######.'', ''#######.'', ''##....##'',
      ''##....##'', ''##....##'', ''##....##'', ''##....##'', ''##....##'', ''##....##'', ''#######.'', ''........'']"

definition glyph_C :: "string list" where
  "glyph_C =
     [''.######.'', ''########'', ''##....##'', ''##......'', ''##......'', ''##......'', ''##......'', ''##......'',
      ''##......'', ''##......'', ''##......'', ''##......'', ''##....##'', ''.#######'', ''..#####.'', ''........'']"

definition glyph_D :: "string list" where
  "glyph_D =
     [''######..'', ''#######.'', ''##....##'', ''##....##'', ''##....##'', ''##....##'', ''##....##'', ''##....##'',
      ''##....##'', ''##....##'', ''##....##'', ''##....##'', ''##....##'', ''#######.'', ''######..'', ''........'']"

definition glyph_E :: "string list" where
  "glyph_E =
     [''########'', ''########'', ''##......'', ''##......'', ''##......'', ''##......'', ''########'', ''########'',
      ''##......'', ''##......'', ''##......'', ''##......'', ''##......'', ''########'', ''########'', ''........'']"

definition glyph_F :: "string list" where
  "glyph_F =
     [''########'', ''########'', ''##......'', ''##......'', ''##......'', ''##......'', ''########'', ''########'',
      ''##......'', ''##......'', ''##......'', ''##......'', ''##......'', ''##......'', ''##......'', ''........'']"

definition glyph_G :: "string list" where
  "glyph_G =
     [''..####..'', ''.#######'', ''###...##'', ''##......'', ''##......'', ''##......'', ''##......'', ''##......'',
      ''##..####'', ''##..####'', ''##....##'', ''##....##'', ''##...###'', ''########'', ''.#####.#'', ''........'']"

definition glyph_H :: "string list" where
  "glyph_H =
     [''##....##'', ''##....##'', ''##....##'', ''##....##'', ''##....##'', ''########'', ''########'', ''##....##'',
      ''##....##'', ''##....##'', ''##....##'', ''##....##'', ''##....##'', ''##....##'', ''##....##'', ''........'']"

definition glyph_I :: "string list" where
  "glyph_I =
     [''...##...'', ''...##...'', ''...##...'', ''...##...'', ''...##...'', ''...##...'', ''...##...'', ''...##...'',
      ''...##...'', ''...##...'', ''...##...'', ''...##...'', ''...##...'', ''...##...'', ''...##...'', ''........'']"

definition glyph_J :: "string list" where
  "glyph_J =
     [''########'', ''########'', ''...##...'', ''...##...'', ''...##...'', ''...##...'', ''...##...'', ''...##...'',
      ''...##...'', ''...##...'', ''...##...'', ''...##...'', ''..###...'', ''####....'', ''###.....'', ''........'']"

definition glyph_K :: "string list" where
  "glyph_K =
     [''##....##'', ''##...##.'', ''##..##..'', ''##.##...'', ''####....'', ''###.....'', ''####....'', ''##.##...'',
      ''##..##..'', ''##...##.'', ''##....##'', ''##....##'', ''##....##'', ''##....##'', ''##....##'', ''........'']"

definition glyph_L :: "string list" where
  "glyph_L =
     [''##......'', ''##......'', ''##......'', ''##......'', ''##......'', ''##......'', ''##......'', ''##......'',
      ''##......'', ''##......'', ''##......'', ''##......'', ''##......'', ''########'', ''########'', ''........'']"

definition glyph_M :: "string list" where
  "glyph_M =
     [''########'', ''########'', ''########'', ''##.##.##'', ''##.##.##'', ''##.##.##'', ''##.##.##'', ''##.##.##'',
      ''##.##.##'', ''##.##.##'', ''##.##.##'', ''##.##.##'', ''##.##.##'', ''##.##.##'', ''##.##.##'', ''........'']"

definition glyph_N :: "string list" where
  "glyph_N =
     [''###...##'', ''####..##'', ''####..##'', ''####..##'', ''####..##'', ''##.##.##'', ''##.##.##'', ''##.##.##'',
      ''##.##.##'', ''##..####'', ''##..####'', ''##..####'', ''##..####'', ''##...###'', ''##....##'', ''........'']"

definition glyph_O :: "string list" where
  "glyph_O =
     [''...##...'', ''.######.'', ''##....##'', ''##....##'', ''##....##'', ''##....##'', ''##....##'', ''##....##'',
      ''##....##'', ''##....##'', ''##....##'', ''##....##'', ''##....##'', ''.######.'', ''...##...'', ''........'']"

definition glyph_P :: "string list" where
  "glyph_P =
     [''#######.'', ''########'', ''##....##'', ''########'', ''#######.'', ''##......'', ''##......'', ''##......'',
      ''##......'', ''##......'', ''##......'', ''##......'', ''##......'', ''##......'', ''##......'', ''........'']"

definition glyph_Q :: "string list" where
  "glyph_Q =
     [''...##...'', ''.######.'', ''##....##'', ''##....##'', ''##....##'', ''##....##'', ''##....##'', ''##....##'',
      ''##....##'', ''##....##'', ''##....##'', ''##.##.##'', ''##..####'', ''.######.'', ''......##'', ''........'']"

definition glyph_R :: "string list" where
  "glyph_R =
     [''#######.'', ''########'', ''##....##'', ''########'', ''#######.'', ''####....'', ''##.##...'', ''##.##....'',
      ''##..##..'', ''##..##..'', ''##...##.'', ''##...##.'', ''##....##'', ''##....##'', ''##....##'', ''........'']"

definition glyph_S :: "string list" where
  "glyph_S =
     [''..#####.'', ''.#######'', ''###..###'', ''###...##'', ''###.....'', ''.###....'', ''..###...'', ''....###.'',
      ''.....###'', ''.....###'', ''.....###'', ''#...###.'', ''##.###..'', ''#####...'', ''.###....'', ''........'']"

definition glyph_T :: "string list" where
  "glyph_T =
     [''########'', ''########'', ''...##...'', ''...##...'', ''...##...'', ''...##...'', ''...##...'', ''...##...'',
      ''...##...'', ''...##...'', ''...##...'', ''...##...'', ''...##...'', ''...##...'', ''...##...'', ''........'']"

definition glyph_U :: "string list" where
  "glyph_U =
     [''##....##'', ''##....##'', ''##....##'', ''##....##'', ''##....##'', ''##....##'', ''##....##'', ''##....##'',
      ''##....##'', ''##....##'', ''##....##'', ''##....##'', ''###..###'', ''.######.'', ''..####..'', ''........'']"

definition glyph_V :: "string list" where
  "glyph_V =
     [''##....##'', ''##....##'', ''##....##'', ''##....##'', ''.##..##.'', ''.##..##.'', ''.##..##.'', ''.##..##.'',
      ''..####..'', ''..####..'', ''..####..'', ''..####..'', ''...##...'', ''...##...'', ''...##...'', ''........'']"

definition glyph_W :: "string list" where
  "glyph_W =
     [''##..##.#'', ''##..##.#'', ''##..##.#'', ''##..##.#'', ''.##.##.#'', ''.##.##.#'', ''.##.##.#'', ''.##.##.#'',
      ''.##.##.#'', ''.##.##.#'', ''.##.##.#'', ''.#######'', ''.#######'', ''.######.'', ''..####..'', ''........'']"

definition glyph_X :: "string list" where
  "glyph_X =
     [''###..###'', ''.######.'', ''..####..'', ''...##...'', ''...##...'', ''...##...'', ''..####..'', ''..####..'',
      ''..####..'', ''.##..##.'', ''.##..##.'', ''.##..##.'', ''##....##'', ''##....##'', ''##....##'', ''........'']"

definition glyph_Y :: "string list" where
  "glyph_Y =
     [''##....##'', ''##....##'', ''##....##'', ''.##..##.'', ''.##..##.'', ''..####..'', ''...##...'', ''...##...'',
      ''...##...'', ''...##...'', ''...##...'', ''...##...'', ''...##...'', ''...##...'', ''...##...'', ''........'']"

definition glyph_Z :: "string list" where
  "glyph_Z =
     [''########'', ''########'', ''......##'', ''......##'', ''.....##.'', ''.....##.'', ''....##..'', ''....##..'',
      ''...##...'', ''...##...'', ''..##....'', ''..##....'', ''.##.....'', ''########'', ''########'', ''........'']"

definition glyph_Lbracket :: "string list" where
  "glyph_Lbracket =
     [''########'', ''########'', ''##......'', ''##......'', ''##......'', ''##......'', ''##......'', ''##......'',
      ''##......'', ''##......'', ''##......'', ''##......'', ''##......'', ''########'', ''########'', ''........'']"

definition glyph_BKslash :: "string list" where
  "glyph_BKslash =
     [''##......'', ''##......'', ''.##.....'', ''.##.....'', ''..##....'', ''..##....'', ''...##...'', ''...##...'',
      ''....##..'', ''....##..'', ''.....##.'', ''.....##.'', ''......##'', ''......##'', ''......##'', ''........'']"

definition glyph_Rbracket :: "string list" where
  "glyph_Rbracket =
     [''########'', ''########'', ''......##'', ''......##'', ''......##'', ''......##'', ''......##'', ''......##'',
      ''......##'', ''......##'', ''......##'', ''......##'', ''......##'', ''########'', ''########'', ''........'']"

definition glyph_Pow :: "string list" where
  "glyph_Pow =
     [''...##...'', ''..####..'', ''.##..##.'', ''##....##'', ''........'', ''........'', ''........'', ''........'',
      ''........'', ''........'', ''........'', ''........'', ''........'', ''........'', ''........'', ''........'']"

definition glyph_Underscore :: "string list" where
  "glyph_Underscore =
     [''........'', ''........'', ''........'', ''........'', ''........'', ''........'', ''........'', ''........'',
      ''........'', ''........'', ''........'', ''........'', ''........'', ''########'', ''########'', ''........'']"

definition glyph_GraveAcc :: "string list" where
  "glyph_GraveAcc =
     [''##......'', ''.##.....'', ''..##....'', ''........'', ''........'', ''........'', ''........'', ''........'',
      ''........'', ''........'', ''........'', ''........'', ''........'', ''........'', ''........'', ''........'']"

definition glyph_a :: "string list" where
  "glyph_a =
     [''........'', ''........'', ''........'', ''..####..'', ''.######.'', ''###..###'', ''......##'', ''......##'',
      ''..######'', ''.#######'', ''####..##'', ''###...##'', ''########'', ''.####.##'', ''..##..##'', ''........'']"

definition glyph_b :: "string list" where
  "glyph_b =
     [''........'', ''........'', ''........'', ''##......'', ''##......'', ''##......'', ''##......'', ''######..'',
      ''##...##.'', ''##....##'', ''##....##'', ''##....##'', ''##....##'', ''#######.'', ''.#####..'', ''........'']"

definition glyph_c :: "string list" where
  "glyph_c =
     [''........'', ''........'', ''........'', ''...####.'', ''.###..##'', ''##......'', ''##......'', ''##......'',
      ''##......'', ''##......'', ''##......'', ''##......'', ''##......'', ''.###..##'', ''...####.'', ''........'']"

definition glyph_d :: "string list" where
  "glyph_d =
     [''........'', ''........'', ''........'', ''......##'', ''......##'', ''......##'', ''......##'', ''..###.##'',
      ''.##.####'', ''##....##'', ''##....##'', ''##....##'', ''##....##'', ''.##.####'', ''..###.##'', ''........'']"

definition glyph_e :: "string list" where
  "glyph_e =
     [''........'', ''........'', ''........'', ''..####..'', ''.######.'', ''##...###'', ''########'', ''########'',
      ''##......'', ''##......'', ''##......'', ''###.....'', ''.#####..'', ''..######'', ''....###.'', ''........'']"

definition glyph_f :: "string list" where
  "glyph_f =
     [''........'', ''........'', ''........'', ''.....###'', ''....####'', ''...##...'', ''...##...'', ''########'',
      ''########'', ''...##...'', ''...##...'', ''...##...'', ''...##...'', ''...##...'', ''...##...'', ''........'']"

definition glyph_g :: "string list" where
  "glyph_g =
     [''........'', ''........'', ''........'', ''..###.##'', ''.#######'', ''##....##'', ''##....##'', ''##....##'',
      ''###...##'', ''.#######'', ''..######'', ''......##'', ''......##'', ''#######.'', ''######..'', ''........'']"

definition glyph_h :: "string list" where
  "glyph_h =
     [''........'', ''........'', ''........'', ''##......'', ''##......'', ''##......'', ''##......'', ''##.###..'',
      ''####.###'', ''##....##'', ''##....##'', ''##....##'', ''##....##'', ''##....##'', ''##....##'', ''........'']"

definition glyph_i :: "string list" where
  "glyph_i =
     [''........'', ''........'', ''........'', ''...##...'', ''...##...'', ''........'', ''...##...'', ''...##...'',
      ''...##...'', ''...##...'', ''...##...'', ''...##...'', ''...##...'', ''...##...'', ''...##...'', ''........'']"

definition glyph_j :: "string list" where
  "glyph_j =
     [''........'', ''........'', ''...##...'', ''...##...'', ''........'', ''..###...'', ''...##...'', ''...##...'',
      ''...##...'', ''...##...'', ''...##...'', ''...##...'', ''...##...'', ''..##....'', ''###.....'', ''........'']"

definition glyph_k :: "string list" where
  "glyph_k =
     [''........'', ''........'', ''........'', ''##......'', ''##......'', ''##....##'', ''##...##.'', ''##..##..'',
      ''#####...'', ''####....'', ''##.##...'', ''##..##..'', ''##...##.'', ''##....##'', ''##....##'', ''........'']"

definition glyph_l :: "string list" where
  "glyph_l =
     [''........'', ''........'', ''........'', ''#####...'', ''#####...'', ''...##...'', ''...##...'', ''...##...'',
      ''...##...'', ''...##...'', ''...##...'', ''...##...'', ''...##...'', ''....##..'', ''.....###'', ''........'']"

definition glyph_m :: "string list" where
  "glyph_m =
     [''........'', ''........'', ''........'', ''#####.#.'', ''##.#####'', ''##.##.##'', ''##.##.##'', ''##.##.##'',
      ''##.##.##'', ''##.##.##'', ''##.##.##'', ''##.##.##'', ''##.##.##'', ''##.##.##'', ''##.##.##'', ''........'']"

definition glyph_n :: "string list" where
  "glyph_n =
     [''........'', ''........'', ''........'', ''#.#####.'', ''##....##'', ''##....##'', ''##....##'', ''##....##'',
      ''##....##'', ''##....##'', ''##....##'', ''##....##'', ''##....##'', ''##....##'', ''##....##'', ''........'']"

definition glyph_o :: "string list" where
  "glyph_o =
     [''........'', ''........'', ''........'', ''...##...'', ''.######.'', ''###..###'', ''##....##'', ''##....##'',
      ''##....##'', ''##....##'', ''##....##'', ''##....##'', ''###..###'', ''.######.'', ''..####..'', ''........'']"

definition glyph_p :: "string list" where
  "glyph_p =
     [''........'', ''........'', ''........'', ''#.#####.'', ''##....##'', ''##....##'', ''##....##'', ''##....##'',
      ''##....##'', ''#######.'', ''##......'', ''##......'', ''##......'', ''##......'', ''##......'', ''........'']"

definition glyph_q :: "string list" where
  "glyph_q =
     [''........'', ''........'', ''........'', ''...##...'', ''.######.'', ''###..###'', ''##....##'', ''##....##'',
      ''##....##'', ''##....##'', ''##..#.##'', ''##..####'', ''###..##.'', ''.####.##'', ''..###..#'', ''........'']"

definition glyph_r :: "string list" where
  "glyph_r =
     [''........'', ''........'', ''........'', ''##.###..'', ''###..###'', ''##....##'', ''##......'', ''##......'',
      ''##......'', ''##......'', ''##......'', ''##......'', ''##......'', ''##......'', ''##......'', ''........'']"

definition glyph_s :: "string list" where
  "glyph_s =
     [''........'', ''........'', ''........'', ''....####'', ''.#######'', ''.###....'', ''##......'', ''.###....'',
      ''..###...'', ''...###..'', ''......##'', ''...####.'', ''..###...'', ''.####...'', ''###.....'', ''........'']"

definition glyph_t :: "string list" where
  "glyph_t =
     [''........'', ''........'', ''........'', ''...##...'', ''########'', ''########'', ''...##...'', ''...##...'',
      ''...##...'', ''...##...'', ''...##...'', ''...##...'', ''...##...'', ''....##..'', ''....####'', ''........'']"

definition glyph_u :: "string list" where
  "glyph_u =
     [''........'', ''........'', ''........'', ''##....##'', ''##....##'', ''##....##'', ''##....##'', ''##....##'',
      ''##....##'', ''##....##'', ''##....##'', ''##....##'', ''###..###'', ''.######.'', ''..####..'', ''........'']"

definition glyph_v :: "string list" where
  "glyph_v =
     [''........'', ''........'', ''........'', ''##....##'', ''.##..##.'', ''.##..##.'', ''.##..##.'', ''.##..##.'',
      ''..####..'', ''..####..'', ''..####..'', ''..####..'', ''...##...'', ''...##...'', ''...##...'', ''........'']"

definition glyph_w :: "string list" where
  "glyph_w =
     [''........'', ''........'', ''........'', ''##..##.#'', ''.##.##.#'', ''.##.##.#'', ''.##.##.#'', ''.##.##.#'',
      ''.##.##.#'', ''.##.##.#'', ''.##.##.#'', ''.#######'', ''.#######'', ''.######.'', ''..####..'', ''........'']"

definition glyph_x :: "string list" where
  "glyph_x =
     [''........'', ''........'', ''........'', ''##....##'', ''##....##'', ''.##..##.'', ''.##..##.'', ''..####..'',
      ''..####..'', ''...##...'', ''...##...'', ''..####..'', ''..####..'', ''.##..##.'', ''###..###'', ''........'']"

definition glyph_y :: "string list" where
  "glyph_y =
     [''........'', ''........'', ''........'', ''##....##'', ''##....##'', ''##....##'', ''.##..##.'', ''.##..##.'',
      ''..####..'', ''...##...'', ''...##...'', ''...##...'', ''...##...'', ''...##...'', ''...##...'', ''........'']"

definition glyph_z :: "string list" where
  "glyph_z =
     [''........'', ''........'', ''........'', ''########'', ''########'', ''......##'', ''......##'', ''.....##.'',
      ''.....##.'', ''....##..'', ''....##..'', ''...##...'', ''.##.....'', ''########'', ''########'', ''........'']"

definition glyph_curlybracketR :: "string list" where
  "glyph_curlybracketR =
     [''..###...'', ''..#####.'', ''.....##.'', ''.....##.'', ''.....##.'', ''.....###'', ''.....###'', ''.....###'',
      ''.....##.'', ''.....##.'', ''.....##.'', ''.....##.'', ''.....##.'', ''..#####.'', ''..###...'', ''........'']"

definition glyph_bar :: "string list" where
  "glyph_bar =
     [''...##...'', ''...##...'', ''...##...'', ''...##...'', ''...##...'', ''...##...'', ''...##...'', ''...##...'',
      ''...##...'', ''...##...'', ''...##...'', ''...##...'', ''...##...'', ''...##...'', ''...##...'', ''........'']"

definition glyph_curlybracketL :: "string list" where
  "glyph_curlybracketL =
     [''...###..'', ''.#####..'', ''.##.....'', ''.##.....'', ''.##.....'', ''###.....'', ''###.....'', ''###.....'',
      ''.##.....'', ''.##.....'', ''.##.....'', ''.##.....'', ''.##.....'', ''.#####..'', ''...###..'', ''........'']"

definition glyph_Wavedash :: "string list" where
  "glyph_Wavedash =
     [''........'', ''........'', ''........'', ''........'', ''........'', ''........'', ''..###.##'', ''##..##..'',
      ''........'', ''........'', ''........'', ''........'', ''........'', ''........'', ''........'', ''........'']"

definition glyph_Zero :: "string list" where
  "glyph_Zero =
     [''..####..'', ''.######.'', ''##....##'', ''##....##'', ''##....##'', ''##....##'', ''##....##'', ''##....##'',
      ''##....##'', ''##....##'', ''##....##'', ''##....##'', ''##....##'', ''##....##'', ''.######.'', ''..####..'']"

definition glyph_One :: "string list" where
  "glyph_One =
     [''...##...'', ''.####...'', ''#####...'', ''...##...'', ''...##...'', ''...##...'', ''...##...'', ''...##...'',
      ''...##...'', ''...##...'', ''...##...'', ''...##...'', ''...##...'', ''...##...'', ''########'', ''########'']"

definition glyph_Two :: "string list" where
  "glyph_Two =
     [''..####..'', ''########'', ''##....##'', ''......##'', ''......##'', ''......##'', ''.....##.'', ''....##..'',
      ''...##...'', ''..##....'', ''.##.....'', ''.##......'', ''.##.....'', ''##......'', ''########'', ''########'']"

definition glyph_Three :: "string list" where
  "glyph_Three =
     [''.#####..'', ''#######.'', ''##....##'', ''......##'', ''.....###'', ''....###.'', ''######..'', ''######..'',
      ''....###.'', ''.....###'', ''......##'', ''......##'', ''......##'', ''##....##'', ''#######.'', ''.#####..'']"

definition glyph_Four :: "string list" where
  "glyph_Four =
     [''.....##'', ''....###'', ''...####'', ''..#####'', ''.###.##'', ''###..##'', ''#######'', ''#######'',
      ''.....##'', ''.....##'', ''.....##'', ''.....##'', ''.....##'', ''.....##'', ''.....##'', ''.....##'']"

definition glyph_Five :: "string list" where
  "glyph_Five =
     [''#######'', ''#######'', ''##.....'', ''##.....'', ''##.....'', ''##.....'', ''###....'', ''.###...'',
      ''..###..'', ''...###.'', ''....###'', ''....###'', ''...###.'', ''..###..'', ''.###...'', ''##.....'']"

definition glyph_Six :: "string list" where
  "glyph_Six =
     [''..#####'', ''.######'', ''###....'', ''###....'', ''###....'', ''###....'', ''#####..'', ''###.##.'',
      ''###..##'', ''###..##'', ''###..##'', ''###..##'', ''###..##'', ''###..##'', ''.#####.'', ''..###..'']"

definition glyph_Seven :: "string list" where
  "glyph_Seven =
     [''#######'', ''#######'', ''.....##'', ''.....##'', ''....##.'', ''....##.'', ''...##..'', ''...##..'',
      ''..##...'', ''..##...'', ''.##....'', ''.##....'', ''##.....'', ''##.....'', ''##.....'', ''##.....'']"

definition glyph_Eight :: "string list" where
  "glyph_Eight =
     [''.#####.'', ''#######'', ''##...##'', ''##...##'', ''###.###'', ''.#####.'', ''.#####.'', ''###.###'',
      ''##...##'', ''##...##'', ''##...##'', ''##...##'', ''##...##'', ''##...##'', ''#######'', ''.#####.'']"

definition glyph_Nine :: "string list" where
  "glyph_Nine =
     [''.#####.'', ''#######'', ''##...##'', ''##...##'', ''##...##'', ''##...##'', ''###..##'', ''.###.##'',
      ''...####'', ''.....##'', ''.....##'', ''.....##'', ''.....##'', ''....##.'', ''...##..'', ''####...'']"

text \<open>The registrations at the end of \<^verbatim>\<open>fonts_init\<close>, in its order.\<close>

definition font_table :: "(u8 \<times> string list) list" where
  "font_table =
     [(48, glyph_Zero), (49, glyph_One), (50, glyph_Two), (51, glyph_Three), (52, glyph_Four), (53, glyph_Five),
      (54, glyph_Six), (55, glyph_Seven), (56, glyph_Eight), (57, glyph_Nine), (58, glyph_TwoDots), (59, glyph_Semicolon),
      (60, glyph_Rgreater), (61, glyph_Equal), (62, glyph_Lgreater), (63, glyph_QuestMark), (64, glyph_Aron), (91, glyph_Lbracket),
      (92, glyph_BKslash), (93, glyph_Rbracket), (94, glyph_Pow), (95, glyph_Underscore), (96, glyph_GraveAcc), (32, glyph_Space),
      (33, glyph_ExcMark), (34, glyph_DoubQuot), (35, glyph_Hash), (36, glyph_Dollar), (37, glyph_Procent), (38, glyph_Ampersand),
      (39, glyph_Quote), (40, glyph_Lparanthesis), (41, glyph_Rparanthesis), (42, glyph_Mul), (43, glyph_Plus), (44, glyph_Comma),
      (45, glyph_Minus), (46, glyph_Dot), (47, glyph_Slash), (65, glyph_A), (66, glyph_B), (67, glyph_C),
      (68, glyph_D), (69, glyph_E), (70, glyph_F), (71, glyph_G), (72, glyph_H), (73, glyph_I),
      (74, glyph_J), (75, glyph_K), (76, glyph_L), (77, glyph_M), (78, glyph_N), (79, glyph_O),
      (80, glyph_P), (81, glyph_Q), (82, glyph_R), (83, glyph_S), (84, glyph_T), (85, glyph_U),
      (86, glyph_V), (87, glyph_W), (88, glyph_X), (89, glyph_Y), (90, glyph_Z), (97, glyph_a),
      (98, glyph_b), (99, glyph_c), (100, glyph_d), (101, glyph_e), (102, glyph_f), (103, glyph_g),
      (104, glyph_h), (105, glyph_i), (106, glyph_j), (107, glyph_k), (108, glyph_l), (109, glyph_m),
      (110, glyph_n), (111, glyph_o), (112, glyph_p), (113, glyph_q), (114, glyph_r), (115, glyph_s),
      (116, glyph_t), (117, glyph_u), (118, glyph_v), (119, glyph_w), (120, glyph_x), (121, glyph_y),
      (122, glyph_z), (123, glyph_curlybracketL), (124, glyph_bar), (125, glyph_curlybracketR), (126, glyph_Wavedash)]"

end
