(* ===== verification/Fonts.thy ===== *)
theory Fonts
  imports Fonts_Data
begin

text \<open>
  The font store of \<^verbatim>\<open>gui/fonts.c\<close>: glyph pictures are parsed into sixteen bytes, the most significant bit leftmost,
  and looked up by character.  A read past the terminator of a line is \<open>None\<close>.
\<close>

unbundle bit_operations_syntax

record fonts =
  ascii_font :: "u8 list list"
  ascii_present :: "bool list"

text \<open>Column \<open>i\<close> of a line: a NULL line and the terminator count as a dot.\<close>

definition line_char :: "string option \<Rightarrow> nat \<Rightarrow> char option" where
  "line_char s i =
     (case s of
        None \<Rightarrow> Some (CHR ''.'')
      | Some t \<Rightarrow>
          if i < length t then Some (if t ! i = CHR 0x00 then CHR ''.'' else t ! i)
          else if i = length t then Some (CHR ''.'') else None)"

fun parse_loop :: "string option \<Rightarrow> nat list \<Rightarrow> u8 \<Rightarrow> u8 option" where
  "parse_loop s [] v = Some v"
| "parse_loop s (i # is) v =
     (case line_char s i of
        None \<Rightarrow> None
      | Some ch \<Rightarrow> parse_loop s is (push_bit 1 v OR (if ch = CHR ''#'' then 1 else 0)))"

definition parse_line :: "string option \<Rightarrow> u8 option" where
  "parse_line s = parse_loop s [0..<8] 0"

fun register_loop :: "string list \<Rightarrow> nat list \<Rightarrow> u8 list \<Rightarrow> u8 list option" where
  "register_loop lines [] row = Some row"
| "register_loop lines (i # is) row =
     (if i < length lines \<and> i < length row then
        (case parse_line (Some (lines ! i)) of None \<Rightarrow> None | Some v \<Rightarrow> register_loop lines is (row[i := v]))
      else None)"

definition font8x16_register_from_text :: "u8 \<Rightarrow> string list \<Rightarrow> fonts \<Rightarrow> (int \<times> fonts) option" where
  "font8x16_register_from_text c lines st =
     (if c < 32 \<or> c > 127 then Some (-1, st)
      else
        let idx = unat (c - 32) in
        case register_loop lines [0..<16] (ascii_font st ! idx) of
          None \<Rightarrow> None
        | Some row \<Rightarrow> Some (0, st\<lparr>ascii_font := (ascii_font st)[idx := row], ascii_present := (ascii_present st)[idx := True]\<rparr>))"

definition font8x16_get :: "u8 \<Rightarrow> fonts \<Rightarrow> u8 list option" where
  "font8x16_get c st =
     (if c < 32 \<or> c > 127 then None
      else let idx = unat (c - 32) in if \<not> ascii_present st ! idx then None else Some (ascii_font st ! idx))"

fun register_all :: "(u8 \<times> string list) list \<Rightarrow> fonts \<Rightarrow> fonts option" where
  "register_all [] st = Some st"
| "register_all ((c, lines) # tab) st =
     (case font8x16_register_from_text c lines st of None \<Rightarrow> None | Some (rc, st1) \<Rightarrow> register_all tab st1)"

definition fonts_init :: "fonts \<Rightarrow> fonts option" where
  "fonts_init st = register_all font_table st"

text \<open>The static arrays start out as zeros.\<close>

definition fonts_zero :: fonts where
  "fonts_zero = \<lparr>ascii_font = replicate 96 (replicate 16 0), ascii_present = replicate 96 False\<rparr>"

section \<open>Parsing\<close>

definition ink_at :: "string \<Rightarrow> nat \<Rightarrow> bool" where
  "ink_at t i \<longleftrightarrow> i < length t \<and> t ! i = CHR ''#''"

lemma line_char_ink: "i \<le> length t \<Longrightarrow> \<exists>ch. line_char (Some t) i = Some ch \<and> (ch = CHR ''#'' \<longleftrightarrow> ink_at t i)"
  by (auto simp: line_char_def ink_at_def)

lemma parse_prefix:
  "n \<le> 8 \<Longrightarrow> n \<le> Suc (length t) \<Longrightarrow>
     \<exists>v. parse_loop (Some t) [0..<n] 0 = Some v \<and> (\<forall>k < 8. bit v k \<longleftrightarrow> k < n \<and> ink_at t (n - 1 - k))"
proof (induction n)
  case 0
  then show ?case by simp
next
  case (Suc n)
  then obtain v where v: "parse_loop (Some t) [0..<n] 0 = Some v" "\<And>k. k < 8 \<Longrightarrow> bit v k \<longleftrightarrow> k < n \<and> ink_at t (n - 1 - k)" by auto
  have app: "parse_loop s (is @ js) u = (case parse_loop s is u of None \<Rightarrow> None | Some w \<Rightarrow> parse_loop s js w)" for s "is" js u
    by (induction "is" arbitrary: u) (auto split: option.splits)
  obtain ch where ch: "line_char (Some t) n = Some ch" "ch = CHR ''#'' \<longleftrightarrow> ink_at t n" using line_char_ink[of n t] Suc.prems by auto
  let ?w = "push_bit 1 v OR (if ch = CHR ''#'' then 1 else 0)"
  have "bit ?w k \<longleftrightarrow> k < Suc n \<and> ink_at t (Suc n - 1 - k)" if k: "k < 8" for k
  proof -
    have "bit (push_bit 1 v) k \<longleftrightarrow> 1 \<le> k \<and> bit v (k - 1)" unfolding bit_push_bit_iff using k by auto
    moreover have "bit (if ch = CHR ''#'' then 1 else 0 :: u8) k \<longleftrightarrow> k = 0 \<and> ink_at t n" using ch(2) by (simp add: bit_1_iff)
    ultimately have "bit ?w k \<longleftrightarrow> 1 \<le> k \<and> bit v (k - 1) \<or> k = 0 \<and> ink_at t n" unfolding bit_or_iff by blast
    then show ?thesis using v(2)[of "k - 1"] k by (cases k) auto
  qed
  with v(1) ch(1) show ?case by (simp add: app)
qed

lemma parse_line_bits:
  assumes "7 \<le> length t"
  obtains v where "parse_line (Some t) = Some v" "\<And>gx. gx < 8 \<Longrightarrow> bit v (7 - gx) \<longleftrightarrow> ink_at t gx"
proof -
  obtain v where v: "parse_line (Some t) = Some v" "\<And>k. k < 8 \<Longrightarrow> bit v k \<longleftrightarrow> ink_at t (7 - k)"
    using parse_prefix[of 8 t] assms by (auto simp: parse_line_def)
  have "bit v (7 - gx) \<longleftrightarrow> ink_at t gx" if "gx < 8" for gx using v(2)[of "7 - gx"] that by simp
  with v(1) show thesis by (rule that)
qed

definition depicts :: "u8 list \<Rightarrow> string list \<Rightarrow> bool" where
  "depicts gl pic \<longleftrightarrow> length gl = 16 \<and> (\<forall>gy < 16. \<forall>gx < 8. bit (gl ! gy) (7 - gx) \<longleftrightarrow> ink_at (pic ! gy) gx)"

definition drawable :: "string list \<Rightarrow> bool" where
  "drawable pic \<longleftrightarrow> length pic = 16 \<and> list_all (\<lambda>t. 7 \<le> length t) pic"

lemma register_loop_run:
  assumes "drawable pic" "length row = 16"
  shows "\<exists>row'. register_loop pic [0..<16] row = Some row' \<and> depicts row' pic"
proof -
  have "n \<le> 16 \<Longrightarrow> \<exists>row'. register_loop pic [0..<n] row = Some row' \<and> length row' = 16 \<and>
      (\<forall>gy < n. \<forall>gx < 8. bit (row' ! gy) (7 - gx) \<longleftrightarrow> ink_at (pic ! gy) gx)" for n
  proof (induction n)
    case 0
    then show ?case using assms(2) by simp
  next
    case (Suc n)
    then obtain row1 where row1: "register_loop pic [0..<n] row = Some row1" "length row1 = 16"
      "\<And>gy gx. gy < n \<Longrightarrow> gx < 8 \<Longrightarrow> bit (row1 ! gy) (7 - gx) \<longleftrightarrow> ink_at (pic ! gy) gx" by auto
    have app: "register_loop p (is @ js) r = (case register_loop p is r of None \<Rightarrow> None | Some w \<Rightarrow> register_loop p js w)" for p "is" js r
      by (induction "is" arbitrary: r) (auto split: option.splits)
    have n: "n < 16" "n < length pic" "7 \<le> length (pic ! n)"
      using Suc.prems assms(1) by (auto simp: drawable_def list_all_length)
    obtain v where v: "parse_line (Some (pic ! n)) = Some v" "\<And>gx. gx < 8 \<Longrightarrow> bit v (7 - gx) \<longleftrightarrow> ink_at (pic ! n) gx"
      using parse_line_bits[OF n(3)] by blast
    have "register_loop pic [0..<Suc n] row = Some (row1[n := v])" using row1 n v(1) by (simp add: app)
    with row1 v(2) n show ?case by (auto simp: nth_list_update less_Suc_eq)
  qed
  from this[of 16] show ?thesis by (auto simp: depicts_def)
qed

section \<open>Registration\<close>

definition fonts_inv :: "(u8 \<Rightarrow> string list option) \<Rightarrow> fonts \<Rightarrow> bool" where
  "fonts_inv pics st \<longleftrightarrow>
     length (ascii_font st) = 96 \<and> length (ascii_present st) = 96 \<and> (\<forall>i < 96. length (ascii_font st ! i) = 16) \<and>
     (\<forall>c. 32 \<le> c \<and> c \<le> 127 \<longrightarrow>
        (case pics c of
           None \<Rightarrow> \<not> ascii_present st ! unat (c - 32)
         | Some pic \<Rightarrow> ascii_present st ! unat (c - 32) \<and> depicts (ascii_font st ! unat (c - 32)) pic))"

lemma char_index: "32 \<le> (c :: u8) \<Longrightarrow> c \<le> 127 \<Longrightarrow> unat (c - 32) < 96 \<and> unat (c - 32) = unat c - 32"
  by (auto simp: word_le_nat_alt unat_sub)

lemma register_inv:
  assumes inv: "fonts_inv pics st" and pic: "drawable pic" and c: "32 \<le> c" "c \<le> 127"
  shows "\<exists>st'. font8x16_register_from_text c pic st = Some (0, st') \<and> fonts_inv (pics(c \<mapsto> pic)) st'"
proof -
  let ?i = "unat (c - 32)"
  have i: "?i < 96" using char_index[OF c] by simp
  obtain row where row: "register_loop pic [0..<16] (ascii_font st ! ?i) = Some row" "depicts row pic"
    using register_loop_run[OF pic, of "ascii_font st ! ?i"] inv i by (auto simp: fonts_inv_def)
  have other: "unat (d - 32) = ?i \<longleftrightarrow> d = c" if "32 \<le> d" "d \<le> 127" for d :: u8
    using char_index[OF that] char_index[OF c] that c by (auto simp: word_unat_eq_iff word_le_nat_alt)
  let ?st = "st\<lparr>ascii_font := (ascii_font st)[?i := row], ascii_present := (ascii_present st)[?i := True]\<rparr>"
  have "font8x16_register_from_text c pic st = Some (0, ?st)" using c row(1) by (simp add: font8x16_register_from_text_def Let_def not_less)
  moreover have "case (pics(c \<mapsto> pic)) d of None \<Rightarrow> \<not> ascii_present ?st ! unat (d - 32)
      | Some p \<Rightarrow> ascii_present ?st ! unat (d - 32) \<and> depicts (ascii_font ?st ! unat (d - 32)) p" if d: "32 \<le> d" "d \<le> 127" for d
  proof (cases "d = c")
    case True
    then show ?thesis using inv row(2) i by (simp add: fonts_inv_def)
  next
    case False
    then have "unat (d - 32) \<noteq> ?i" using other[OF d] by simp
    moreover have "case pics d of None \<Rightarrow> \<not> ascii_present st ! unat (d - 32)
        | Some p \<Rightarrow> ascii_present st ! unat (d - 32) \<and> depicts (ascii_font st ! unat (d - 32)) p"
      using inv d unfolding fonts_inv_def by blast
    ultimately show ?thesis using False by (simp split: option.splits)
  qed
  moreover have "length (ascii_font ?st ! k) = 16" if "k < 96" for k
    using inv row(2) that by (cases "k = ?i") (simp_all add: fonts_inv_def depicts_def)
  ultimately have "font8x16_register_from_text c pic st = Some (0, ?st)" "fonts_inv (pics(c \<mapsto> pic)) ?st"
    using inv unfolding fonts_inv_def by simp_all
  then show ?thesis by blast
qed

lemma register_all_inv:
  assumes "fonts_inv pics st" "list_all (\<lambda>(c, pic). 32 \<le> c \<and> c \<le> 127 \<and> drawable pic) tab"
  shows "\<exists>st'. register_all tab st = Some st' \<and> fonts_inv (pics ++ map_of (rev tab)) st'"
  using assms
proof (induction tab arbitrary: pics st)
  case Nil
  then show ?case by simp
next
  case (Cons e tab)
  obtain c pic where e: "e = (c, pic)" by (cases e)
  have tab: "list_all (\<lambda>(c, pic). 32 \<le> c \<and> c \<le> 127 \<and> drawable pic) tab" using Cons.prems(2) by simp
  obtain st1 where st1: "font8x16_register_from_text c pic st = Some (0, st1)" "fonts_inv (pics(c \<mapsto> pic)) st1"
    using register_inv[OF Cons.prems(1)] Cons.prems(2) e by auto
  obtain st' where "register_all tab st1 = Some st'" "fonts_inv (pics(c \<mapsto> pic) ++ map_of (rev tab)) st'"
    using Cons.IH[OF st1(2) tab] by blast
  with st1(1) e show ?case by simp
qed

lemma table_drawable: "list_all (\<lambda>(c, pic). 32 \<le> c \<and> c \<le> 127 \<and> drawable pic) font_table"
  by code_simp

lemma table_keys: "map (\<lambda>e. unat (fst e)) font_table = [48..<65] @ [91..<97] @ [32..<48] @ [65..<91] @ [97..<123] @ [123..<127]"
  by (simp add: font_table_def)

lemma printable_ranges:
  "n \<in> {48..<65} \<union> ({91..<97} \<union> ({32..<48} \<union> ({65..<91} \<union> ({97..<123} \<union> {123..<127})))) \<longleftrightarrow> 32 \<le> n \<and> n \<le> (126 :: nat)"
  unfolding Un_iff atLeastLessThan_iff by linarith

lemma table_chars: "map_of (rev font_table) c = None \<longleftrightarrow> c < 32 \<or> c > 126"
proof -
  have inj: "inj (unat :: u8 \<Rightarrow> nat)" by (auto simp: inj_def word_unat_eq_iff)
  have "map_of (rev font_table) c = None \<longleftrightarrow> c \<notin> fst ` set font_table" by (simp only: map_of_eq_None_iff set_rev)
  also have "\<dots> \<longleftrightarrow> unat c \<notin> set (map (\<lambda>e. unat (fst e)) font_table)"
    by (simp only: inj_image_mem_iff[OF inj, symmetric] set_map image_image)
  also have "\<dots> \<longleftrightarrow> \<not> (32 \<le> unat c \<and> unat c \<le> 126)"
    unfolding table_keys set_append set_upt printable_ranges ..
  finally show ?thesis by (simp add: word_less_nat_alt not_le)
qed

section \<open>The font\<close>

text \<open>
  After \<^verbatim>\<open>fonts_init\<close> the font has a glyph for exactly the printable ASCII characters, and bit \<open>7 - x\<close> of byte \<open>y\<close>
  of a glyph is set exactly where the picture registered for the character has a hash sign in column
  \<open>x\<close> of line \<open>y\<close>.  No line of the table is read past its end.
\<close>

theorem fonts_init_glyphs:
  "\<exists>st. fonts_init fonts_zero = Some st \<and>
     (\<forall>c. case font8x16_get c st of
            None \<Rightarrow> c < 32 \<or> c > 126
          | Some gl \<Rightarrow> 32 \<le> c \<and> c \<le> 126 \<and>
              (\<exists>pic. (c, pic) \<in> set font_table \<and> length gl = 16 \<and>
                 (\<forall>y x. y < 16 \<and> x < 8 \<longrightarrow> (bit (gl ! y) (7 - x) \<longleftrightarrow> x < length (pic ! y) \<and> pic ! y ! x = CHR ''#''))))"
proof -
  have "fonts_inv Map.empty fonts_zero" by (auto simp: fonts_inv_def fonts_zero_def dest: char_index)
  from register_all_inv[OF this table_drawable]
  obtain st where st: "fonts_init fonts_zero = Some st" "fonts_inv (map_of (rev font_table)) st" by (auto simp: fonts_init_def)
  have "case font8x16_get c st of
            None \<Rightarrow> c < 32 \<or> c > 126
          | Some gl \<Rightarrow> 32 \<le> c \<and> c \<le> 126 \<and>
              (\<exists>pic. (c, pic) \<in> set font_table \<and> length gl = 16 \<and>
                 (\<forall>y x. y < 16 \<and> x < 8 \<longrightarrow> (bit (gl ! y) (7 - x) \<longleftrightarrow> x < length (pic ! y) \<and> pic ! y ! x = CHR ''#'')))" for c
  proof (cases "map_of (rev font_table) c")
    case None
    then show ?thesis using st(2) table_chars[of c] by (auto simp: font8x16_get_def fonts_inv_def Let_def not_less)
  next
    case (Some pic)
    then have c: "32 \<le> c" "c \<le> 126" using table_chars[of c] by auto
    then have c7: "c \<le> 127" by (auto simp: word_le_nat_alt)
    have "(c, pic) \<in> set font_table" using map_of_SomeD[OF Some] by simp
    moreover have "ascii_present st ! unat (c - 32)" "depicts (ascii_font st ! unat (c - 32)) pic"
      using st(2) Some c(1) c7 by (auto simp: fonts_inv_def)
    moreover from this have "font8x16_get c st = Some (ascii_font st ! unat (c - 32))"
      using c(1) c7 by (simp add: font8x16_get_def Let_def not_less)
    ultimately show ?thesis using c by (auto simp: depicts_def ink_at_def)
  qed
  with st(1) show ?thesis by blast
qed

theorem fonts_init_glyphs_witness:
  "\<exists>st gl pic. fonts_init fonts_zero = Some st \<and> font8x16_get 65 st = Some gl \<and> (65, pic) \<in> set font_table \<and>
     (bit (gl ! 3) (7 - 2) \<longleftrightarrow> 2 < length (pic ! 3) \<and> pic ! 3 ! 2 = CHR ''#'')"
proof -
  obtain st where st: "fonts_init fonts_zero = Some st" and all: "\<forall>c. case font8x16_get c st of
            None \<Rightarrow> c < 32 \<or> c > 126
          | Some gl \<Rightarrow> 32 \<le> c \<and> c \<le> 126 \<and>
              (\<exists>pic. (c, pic) \<in> set font_table \<and> length gl = 16 \<and>
                 (\<forall>y x. y < 16 \<and> x < 8 \<longrightarrow> (bit (gl ! y) (7 - x) \<longleftrightarrow> x < length (pic ! y) \<and> pic ! y ! x = CHR ''#'')))"
    using fonts_init_glyphs by blast
  obtain gl where gl: "font8x16_get 65 st = Some gl" using spec[OF all, of 65] by (cases "font8x16_get 65 st") auto
  obtain pic where pic: "(65, pic) \<in> set font_table"
    "\<forall>y x. y < 16 \<and> x < 8 \<longrightarrow> (bit (gl ! y) (7 - x) \<longleftrightarrow> x < length (pic ! y) \<and> pic ! y ! x = CHR ''#'')"
    using spec[OF all, of 65] unfolding gl option.case by blast
  show ?thesis using st gl pic(1) pic(2)[rule_format, of 3 2] by fastforce
qed

end
