(* ===== verification/Gui_Text_Model.thy ===== *)
theory Gui_Text_Model
  imports Gui_Model Fonts
begin

text \<open>
  Text, icons and the log: \<^verbatim>\<open>gui/console.c\<close> and \<^verbatim>\<open>draw_icon\<close> of \<^verbatim>\<open>gui/icons.c\<close>.  A C string is the list of its bytes without the
  terminator.  The lines of the log are arrays of 160 bytes.  \<open>text_log\<close> is the function \<^verbatim>\<open>text\<close>.
\<close>

unbundle bit_operations_syntax

abbreviation (input) EFI_BLACK :: u8 where "EFI_BLACK \<equiv> 0"
abbreviation (input) EFI_WHITE :: u8 where "EFI_WHITE \<equiv> 0xF"

section \<open>Text\<close>

text \<open>The two colour switches of \<^verbatim>\<open>text_with_pos\<close>, which differ in their default.\<close>

definition text_rgb :: "u8 \<times> u8 \<times> u8 \<Rightarrow> u8 \<Rightarrow> u8 \<times> u8 \<times> u8" where
  "text_rgb dflt c =
     (if c = 0 then (0, 0, 0) else if c = 1 then (0, 0, 0xAA) else if c = 2 then (0, 0xAA, 0) else if c = 3 then (0, 0xAA, 0xAA)
      else if c = 4 then (0xAA, 0, 0) else if c = 5 then (0xAA, 0, 0xAA) else if c = 6 then (0xAA, 0x55, 0)
      else if c = 7 then (0xCC, 0xCC, 0xCC) else if c = 0xF then (0xFF, 0xFF, 0xFF) else dflt)"

definition pack_rgb :: "pixel_format \<Rightarrow> u8 \<times> u8 \<times> u8 \<Rightarrow> u32" where
  "pack_rgb fmt c = (case c of (r, g, b) \<Rightarrow> pack_pixel fmt r g b)"

fun bg_rows :: "gop \<Rightarrow> surface \<Rightarrow> nat list \<Rightarrow> u32 \<Rightarrow> u32 \<Rightarrow> u32 \<Rightarrow> u32 \<Rightarrow> gui \<Rightarrow> gui option" where
  "bg_rows g sf [] px py clipped_w bg st = Some st"
| "bg_rows g sf (ry # rys) px py clipped_w bg st =
     (let y = py + of_nat ry in
      if y \<ge> VerticalResolution g then Some st
      else if clipped_w = 0 then bg_rows g sf rys px py clipped_w bg st
      else
        case fill_row_pixels g sf (unat y * unat (surf_stride g sf st) + unat px) bg (unat clipped_w) st of
          None \<Rightarrow> None
        | Some st1 \<Rightarrow> bg_rows g sf rys px py clipped_w bg st1)"

fun glyph_row :: "u8 \<Rightarrow> nat list \<Rightarrow> u32 \<Rightarrow> u32 \<Rightarrow> u32 \<Rightarrow> u32 list \<Rightarrow> nat \<Rightarrow> u32 list option" where
  "glyph_row bits [] screen_w px fg m d = Some m"
| "glyph_row bits (gx # gxs) screen_w px fg m d =
     (if unat px + gx < unat screen_w then
        (if bits AND drop_bit gx 0x80 \<noteq> 0 then
           (if d + gx < length m then glyph_row bits gxs screen_w px fg (m[d + gx := fg]) d else None)
         else glyph_row bits gxs screen_w px fg m d)
      else Some m)"

fun glyph_rows :: "gop \<Rightarrow> surface \<Rightarrow> nat list \<Rightarrow> u8 list \<Rightarrow> u32 \<Rightarrow> u32 \<Rightarrow> u32 \<Rightarrow> gui \<Rightarrow> gui option" where
  "glyph_rows g sf [] glyph px py fg st = Some st"
| "glyph_rows g sf (gy # gys) glyph px py fg st =
     (let y = py + of_nat gy in
      if \<not> gy < length glyph then None
      else if y \<ge> VerticalResolution g then Some st
      else if px \<ge> HorizontalResolution g then Some st
      else
        case glyph_row (glyph ! gy) [0..<8] (HorizontalResolution g) px fg (surf_mem sf st)
               (unat y * unat (surf_stride g sf st) + unat px) of
          None \<Rightarrow> None
        | Some m \<Rightarrow> glyph_rows g sf gys glyph px py fg (surf_set sf m st))"

definition clipped_width :: "gop \<Rightarrow> u32 \<Rightarrow> u32" where
  "clipped_width g px =
     (if px < HorizontalResolution g then
        (if px + 10 > HorizontalResolution g then HorizontalResolution g - px else 10)
      else 0)"

definition put_char :: "gop \<Rightarrow> u8 list option \<Rightarrow> u32 \<Rightarrow> u32 \<Rightarrow> u32 \<Rightarrow> u32 \<Rightarrow> gui \<Rightarrow> gui option" where
  "put_char g glyph px py fg bg st =
     (let sf = target g st in
      case bg_rows g sf [0..<16] px py (clipped_width g px) bg st of
        None \<Rightarrow> None
      | Some st1 \<Rightarrow>
          (case glyph of
             None \<Rightarrow> Some st1
           | Some gl \<Rightarrow> glyph_rows g sf [0..<16] gl px py fg st1))"

fun text_loop :: "gop \<Rightarrow> fonts \<Rightarrow> u32 \<Rightarrow> u32 \<Rightarrow> u32 \<Rightarrow> bytes \<Rightarrow> u32 \<Rightarrow> u32 \<Rightarrow> gui \<Rightarrow> gui option" where
  "text_loop g fonts start_px fg bg [] px py st = Some st"
| "text_loop g fonts start_px fg bg (c # cs) px py st =
     (if c = 10 then
        (if unat (py + 16) + 16 > unat (VerticalResolution g) then Some st
         else text_loop g fonts start_px fg bg cs start_px (py + 16) st)
      else
        let glyph = font8x16_get c fonts;
            wrap = (px \<ge> HorizontalResolution g);
            px1 = (if wrap then start_px else px);
            py1 = (if wrap then py + 16 else py) in
        if unat py1 + 16 > unat (VerticalResolution g) then Some st
        else
          case put_char g glyph px1 py1 fg bg st of
            None \<Rightarrow> None
          | Some st1 \<Rightarrow> text_loop g fonts start_px fg bg cs (px1 + 10) py1 st1)"

definition text_with_pos :: "gop option \<Rightarrow> fonts \<Rightarrow> u64 \<Rightarrow> u64 \<Rightarrow> u8 \<Rightarrow> u8 \<Rightarrow> bytes \<Rightarrow> gui \<Rightarrow> gui option" where
  "text_with_pos gop fonts col row fg bg s st =
     (case gop of
        None \<Rightarrow> Some st
      | Some g \<Rightarrow>
          text_loop g fonts (ucast col) (pack_rgb (PixelFormat g) (text_rgb (0xFF, 0xFF, 0xFF) fg))
            (pack_rgb (PixelFormat g) (text_rgb (0, 0, 0) bg)) s (ucast col) (ucast row) st)"

section \<open>The log\<close>

abbreviation CONSOLE_MAX_LOG_LINES :: nat where "CONSOLE_MAX_LOG_LINES \<equiv> 64"
abbreviation CONSOLE_MAX_LOG_LINE_LEN :: nat where "CONSOLE_MAX_LOG_LINE_LEN \<equiv> 160"

record console =
  s_logs :: "bytes list"
  s_logs_next :: nat
  s_logs_count :: nat

text \<open>The copy loop: the line and the number of bytes copied.\<close>

fun log_copy :: "bytes \<Rightarrow> nat \<Rightarrow> bytes \<Rightarrow> bytes \<times> nat" where
  "log_copy [] i line = (line, i)"
| "log_copy (c # cs) i line =
     (if i < CONSOLE_MAX_LOG_LINE_LEN - 1 then log_copy cs (i + 1) (line[i := c]) else (line, i))"

definition text_log :: "bytes \<Rightarrow> console \<Rightarrow> console" where
  "text_log s con =
     (case log_copy s 0 (s_logs con ! s_logs_next con) of
        (line, i) \<Rightarrow>
          con\<lparr>s_logs := (s_logs con)[s_logs_next con := line[i := 0]],
              s_logs_next := (s_logs_next con + 1) mod CONSOLE_MAX_LOG_LINES,
              s_logs_count := (if s_logs_count con < CONSOLE_MAX_LOG_LINES then s_logs_count con + 1 else s_logs_count con)\<rparr>)"

definition console_zero :: console where
  "console_zero = \<lparr>s_logs = replicate CONSOLE_MAX_LOG_LINES (replicate CONSOLE_MAX_LOG_LINE_LEN 0), s_logs_next = 0, s_logs_count = 0\<rparr>"

definition cstring :: "bytes \<Rightarrow> bytes" where
  "cstring b = takeWhile (\<lambda>c. c \<noteq> 0) b"

fun render_loop :: "gop \<Rightarrow> fonts \<Rightarrow> console \<Rightarrow> nat \<Rightarrow> nat list \<Rightarrow> gui \<Rightarrow> gui option" where
  "render_loop g fonts con start [] st = Some st"
| "render_loop g fonts con start (i # is) st =
     (case text_with_pos (Some g) fonts 8 (40 + of_nat i * 18) EFI_WHITE EFI_BLACK
             (cstring (s_logs con ! ((start + i) mod CONSOLE_MAX_LOG_LINES))) st of
        None \<Rightarrow> None
      | Some st1 \<Rightarrow> render_loop g fonts con start is st1)"

definition console_render_history :: "gop option \<Rightarrow> fonts \<Rightarrow> console \<Rightarrow> gui \<Rightarrow> gui option" where
  "console_render_history gop fonts con st =
     (case gop of
        None \<Rightarrow> Some st
      | Some g \<Rightarrow>
          render_loop g fonts con
            ((s_logs_next con + CONSOLE_MAX_LOG_LINES - s_logs_count con) mod CONSOLE_MAX_LOG_LINES) [0..<s_logs_count con] st)"

section \<open>Icons\<close>

abbreviation (input) ICON_SIZE :: nat where "ICON_SIZE \<equiv> 32"

definition icon_color :: "pixel_format \<Rightarrow> u8 \<Rightarrow> u32" where
  "icon_color fmt c = pack_rgb fmt
     (if c = 0 then (0, 0, 0) else if c = 1 then (0, 0, 255) else if c = 2 then (0, 255, 0) else if c = 3 then (0, 255, 255)
      else if c = 4 then (255, 0, 0) else if c = 5 then (255, 0, 255) else if c = 6 then (170, 85, 0)
      else if c = 7 then (170, 170, 170) else if c = 8 then (85, 85, 85) else if c = 9 then (85, 85, 255)
      else if c = 10 then (85, 255, 85) else if c = 11 then (85, 255, 255) else if c = 12 then (255, 85, 85)
      else if c = 13 then (255, 85, 255) else if c = 14 then (255, 255, 85) else (255, 255, 255))"

fun icon_row :: "string \<Rightarrow> nat list \<Rightarrow> u32 \<Rightarrow> u32 list \<Rightarrow> nat \<Rightarrow> u32 list option" where
  "icon_row pixels [] color m d = Some m"
| "icon_row pixels (dx # dxs) color m d =
     (if \<not> dx < length pixels then None
      else if pixels ! dx \<noteq> CHR ''.'' then
        (if d + dx < length m then icon_row pixels dxs color (m[d + dx := color]) d else None)
      else icon_row pixels dxs color m d)"

text \<open>The test for a negative row never succeeds because the coordinates are unsigned, and the comparison with the
  height, cast to \<^verbatim>\<open>int\<close>, is made after conversion back to unsigned.  \<^verbatim>\<open>draw_icon\<close> tests only the protocol pointer for NULL.\<close>

fun icon_rows :: "gop \<Rightarrow> surface \<Rightarrow> string list \<Rightarrow> nat list \<Rightarrow> u32 \<Rightarrow> u32 \<Rightarrow> u32 \<Rightarrow> gui \<Rightarrow> gui option" where
  "icon_rows g sf icon [] x y color st = Some st"
| "icon_rows g sf icon (dy # dys) x y color st =
     (let yy = y + of_nat dy in
      if yy \<ge> VerticalResolution g then Some st
      else if \<not> dy < length icon then None
      else
        case icon_row (icon ! dy) [0..<ICON_SIZE] color (surf_mem sf st) (unat yy * unat (surf_stride g sf st) + unat x) of
          None \<Rightarrow> None
        | Some m \<Rightarrow> icon_rows g sf icon dys x y color (surf_set sf m st))"

definition draw_icon :: "gop option \<Rightarrow> string list option \<Rightarrow> u32 \<Rightarrow> u32 \<Rightarrow> u8 \<Rightarrow> gui \<Rightarrow> gui option" where
  "draw_icon gop icon x y color st =
     (case (gop, icon) of
        (Some g, Some ic) \<Rightarrow> icon_rows g (target g st) ic [0..<ICON_SIZE] x y (icon_color (PixelFormat g) color) st
      | _ \<Rightarrow> Some st)"

end
