(* ===== verification/Gui_Text.thy ===== *)
theory Gui_Text
  imports Gui_Correct Gui_Text_Model
begin

text \<open>
  Correctness of text and the log.  The log is a queue of the last 64 messages.  A string drawn by \<^verbatim>\<open>text_with_pos\<close> is a
  sequence of character cells, laid out with wrapping and clipping; every pixel of the picture is that
  of the last cell over it.
\<close>

unbundle bit_operations_syntax

section \<open>The log\<close>

definition log_inv :: "console \<Rightarrow> bool" where
  "log_inv con \<longleftrightarrow> length (s_logs con) = 64 \<and> (\<forall>l \<in> set (s_logs con). length l = 160) \<and> s_logs_next con < 64 \<and> s_logs_count con \<le> 64"

definition log_slot :: "console \<Rightarrow> nat \<Rightarrow> nat" where
  "log_slot con i = (s_logs_next con + 64 - s_logs_count con + i) mod 64"

definition log_lines :: "console \<Rightarrow> bytes list" where
  "log_lines con = map (\<lambda>i. cstring (s_logs con ! log_slot con i)) [0..<s_logs_count con]"

definition last_n :: "nat \<Rightarrow> 'a list \<Rightarrow> 'a list" where
  "last_n n xs = drop (length xs - n) xs"

lemma log_copy_run:
  "i \<le> 159 \<Longrightarrow> length line = 160 \<Longrightarrow>
   log_copy s i line = (take i line @ take (159 - i) s @ drop (i + length (take (159 - i) s)) line, i + length (take (159 - i) s))"
proof (induction s arbitrary: i line)
  case (Cons c s)
  show ?case
  proof (cases "i < 159")
    case True
    have "take (Suc i) (line[i := c]) = take i line @ [c]" using True Cons.prems by (simp add: take_Suc_conv_app_nth)
    moreover have "159 - i = Suc (159 - Suc i)" using True by simp
    ultimately show ?thesis using True Cons.IH[of "Suc i" "line[i := c]"] Cons.prems by (simp add: drop_update_cancel)
  qed (use Cons.prems in simp)
qed simp

lemma logged_line:
  assumes "length line = 160" "0 \<notin> set s" "log_copy s 0 line = (line', i)"
  shows "cstring (line'[i := 0]) = take 159 s" "length (line'[i := 0]) = 160"
proof -
  have r: "line' = take 159 s @ drop (length (take 159 s)) line" "i = length (take 159 s)"
    using log_copy_run[of 0 line s] assms by simp_all
  have "drop (length (take 159 s)) line \<noteq> []" using assms(1) by simp
  then have "line'[i := 0] = take 159 s @ 0 # tl (drop (length (take 159 s)) line)"
    unfolding r by (cases "drop (length (take 159 s)) line") (simp_all add: list_update_append)
  moreover have "\<forall>c \<in> set (take 159 s). c \<noteq> 0" using assms(2) by (metis in_set_takeD)
  ultimately show "cstring (line'[i := 0]) = take 159 s" by (simp add: cstring_def takeWhile_append2)
  show "length (line'[i := 0]) = 160" using r assms(1) by simp
qed

lemma mod64: "a < 128 \<Longrightarrow> a mod 64 = (if a < 64 then a else a - 64 :: nat)"
  by (simp add: mod_if)

lemma log_slot_eq:
  assumes "s_logs_count con \<le> 64" "s_logs_next con < 64" "i \<le> s_logs_count con" "i < 64"
  shows "log_slot con i = (if s_logs_next con + i < s_logs_count con then s_logs_next con + 64 - s_logs_count con + i
                           else s_logs_next con + i - s_logs_count con)"
  unfolding log_slot_def using assms by (subst mod64) auto

lemma log_slot_old:
  assumes "s_logs_count con \<le> 64" "s_logs_next con < 64" "i < s_logs_count con" "s_logs_count con < 64 \<or> 0 < i"
  shows "log_slot con i \<noteq> s_logs_next con"
  using assms by (subst log_slot_eq) auto

lemma log_slot_next:
  assumes "s_logs_count con \<le> 64" "s_logs_next con < 64"
    and "s_logs_next con' = (s_logs_next con + 1) mod 64" "s_logs_count con' = min 64 (s_logs_count con + 1)" "i < s_logs_count con'"
  shows "log_slot con' i = (if i + 1 = s_logs_count con' then s_logs_next con else log_slot con (i + (s_logs_count con + 1 - s_logs_count con')))"
proof -
  have n: "s_logs_next con' = (if s_logs_next con = 63 then 0 else s_logs_next con + 1)" using assms(2,3) by auto
  have lhs: "log_slot con' i = (if s_logs_next con' + i < s_logs_count con' then s_logs_next con' + 64 - s_logs_count con' + i
                           else s_logs_next con' + i - s_logs_count con')"
    by (rule log_slot_eq) (use assms n in auto)
  show ?thesis
  proof (cases "i + 1 = s_logs_count con'")
    case True
    then show ?thesis using lhs n assms(2,4) by (cases "s_logs_next con = 63") auto
  next
    case False
    define k where "k = i + (s_logs_count con + 1 - s_logs_count con')"
    have rhs: "log_slot con k = (if s_logs_next con + k < s_logs_count con then s_logs_next con + 64 - s_logs_count con + k
                           else s_logs_next con + k - s_logs_count con)"
      by (rule log_slot_eq) (use assms False in \<open>auto simp: k_def\<close>)
    have "log_slot con' i = log_slot con k"
    proof (cases "s_logs_count con < 64")
      case True
      then have "s_logs_count con' = s_logs_count con + 1" "k = i" using assms(4) by (simp_all add: k_def)
      then show ?thesis unfolding lhs rhs n using True assms(2,5) False by (cases "s_logs_next con = 63") auto
    next
      case full: False
      then have "s_logs_count con = 64" "s_logs_count con' = 64" "k = i + 1" using assms(1,4) by (simp_all add: k_def)
      then show ?thesis unfolding lhs rhs n using assms(2,5) False by (cases "s_logs_next con = 63") auto
    qed
    with False show ?thesis by (simp add: k_def)
  qed
qed

lemma text_log_fields:
  assumes "log_inv con" "0 \<notin> set s"
  obtains l where "s_logs (text_log s con) = (s_logs con)[s_logs_next con := l]" "cstring l = take 159 s" "length l = 160"
    "s_logs_next (text_log s con) = (s_logs_next con + 1) mod 64" "s_logs_count (text_log s con) = min 64 (s_logs_count con + 1)"
proof -
  obtain line i where r: "log_copy s 0 (s_logs con ! s_logs_next con) = (line, i)" by (cases "log_copy s 0 (s_logs con ! s_logs_next con)")
  have "length (s_logs con ! s_logs_next con) = 160" using assms(1) by (auto simp: log_inv_def)
  from logged_line[OF this assms(2) r] show thesis
    using that[of "line[i := 0]"] r assms(1) by (auto simp: text_log_def log_inv_def)
qed

lemma text_log_inv:
  assumes "log_inv con" "0 \<notin> set s"
  shows "log_inv (text_log s con)"
  using assms by (rule text_log_fields) (use assms(1) in \<open>auto simp: log_inv_def dest: set_update_subset_insert[THEN subsetD]\<close>)

lemma text_log_lines:
  assumes "log_inv con" "0 \<notin> set s"
  shows "log_lines (text_log s con) = last_n 64 (log_lines con @ [take 159 s])"
proof -
  let ?con = "text_log s con" and ?n = "s_logs_next con" and ?k = "s_logs_count con"
  obtain l where l: "s_logs ?con = (s_logs con)[?n := l]" "cstring l = take 159 s" "length l = 160"
    "s_logs_next ?con = (?n + 1) mod 64" "s_logs_count ?con = min 64 (?k + 1)"
    by (rule text_log_fields[OF assms])
  have b: "?k \<le> 64" "?n < 64" "length (s_logs con) = 64" using assms(1) by (simp_all add: log_inv_def)
  let ?d = "?k + 1 - s_logs_count ?con"
  have len: "length (log_lines ?con) = s_logs_count ?con" "length (last_n 64 (log_lines con @ [take 159 s])) = s_logs_count ?con"
    using l(5) by (auto simp: log_lines_def last_n_def)
  show "log_lines ?con = last_n 64 (log_lines con @ [take 159 s])"
  proof (rule nth_equalityI)
    show "length (log_lines ?con) = length (last_n 64 (log_lines con @ [take 159 s]))" using len by simp
    fix i assume "i < length (log_lines ?con)"
    then have i: "i < s_logs_count ?con" using len by simp
    have d: "length (log_lines con @ [take 159 s]) - 64 = ?d" using l(5) b(1) by (simp add: log_lines_def)
    have rhs: "last_n 64 (log_lines con @ [take 159 s]) ! i = (log_lines con @ [take 159 s]) ! (?d + i)"
      unfolding last_n_def d by (rule nth_drop) (use l(5) b(1) in \<open>simp add: log_lines_def\<close>)
    show "log_lines ?con ! i = last_n 64 (log_lines con @ [take 159 s]) ! i"
    proof (cases "i + 1 = s_logs_count ?con")
      case True
      then have "?d + i = ?k" using l(5) b(1) by auto
      with True show ?thesis
        using rhs i l(1,2) b log_slot_next[OF b(1,2) l(4,5) i] by (simp add: log_lines_def nth_append)
    next
      case False
      then have lt: "i + ?d < ?k" using i l(5) b(1) by auto
      have "log_slot con (i + ?d) \<noteq> ?n" by (rule log_slot_old[OF b(1,2) lt]) (use l(5) b(1) in auto)
      with False lt show ?thesis
        using rhs i l(1) log_slot_next[OF b(1,2) l(4,5) i] by (simp add: log_lines_def nth_append add.commute)
    qed
  qed
qed

text \<open>
  C17 (refinement).  The log is a queue of the last 64 messages: \<^verbatim>\<open>text\<close> appends its argument, cut to 159 bytes, and drops the
  oldest message once there are 64; the ring indices stay inside the array.
\<close>

theorem text_log_queue:
  assumes "log_inv con" "0 \<notin> set s"
  shows "log_inv (text_log s con) \<and> log_lines (text_log s con) = last_n 64 (log_lines con @ [take 159 s])"
  using text_log_inv[OF assms] text_log_lines[OF assms] by (rule conjI)

theorem text_log_queue_witness:
  "log_lines (text_log [72, 105] console_zero) = [[72, 105]]"
proof -
  have "log_inv console_zero" by (simp add: log_inv_def console_zero_def)
  moreover have "log_lines console_zero = []" by (simp add: log_lines_def console_zero_def)
  ultimately show ?thesis using text_log_queue[of console_zero "[72, 105]"] by (simp add: last_n_def)
qed

section \<open>Compositions of drawing calls\<close>

definition drawn :: "gop \<Rightarrow> (nat \<Rightarrow> nat \<Rightarrow> u32 \<Rightarrow> u32) \<Rightarrow> gui \<Rightarrow> gui \<Rightarrow> bool" where
  "drawn g F st st' \<longleftrightarrow>
     screen_ok g st' \<and> target g st' = target g st \<and>
     (\<forall>x y. on_screen g x y \<longrightarrow> pixel g st' x y = F x y (pixel g st x y)) \<and>
     (target g st = Back \<longrightarrow> framebuffer st' = framebuffer st \<and> (synced g st \<longrightarrow> synced g st'))"

lemma drawn_refl: "screen_ok g st \<Longrightarrow> drawn g (\<lambda>x y p. p) st st"
  by (simp add: drawn_def)

lemma drawn_trans: "drawn g F st st1 \<Longrightarrow> drawn g G st1 st2 \<Longrightarrow> drawn g (\<lambda>x y p. G x y (F x y p)) st st2"
  by (auto simp: drawn_def)

lemma drawn_cong: "drawn g F st st' \<Longrightarrow> (\<And>x y p. on_screen g x y \<Longrightarrow> F x y p = G x y p) \<Longrightarrow> drawn g G st st'"
  by (auto simp: drawn_def)

lemma painted_drawn: "painted g r ink st st' \<Longrightarrow> drawn g (\<lambda>x y p. if r x y then ink p else p) st st'"
  using painted_synced[of g st r ink st'] by (auto simp: drawn_def painted_def)

section \<open>One character\<close>

definition cell_ink :: "u8 list option \<Rightarrow> nat \<Rightarrow> nat \<Rightarrow> u32 \<Rightarrow> u32 \<Rightarrow> nat \<Rightarrow> nat \<Rightarrow> u32 \<Rightarrow> u32" where
  "cell_ink glyph px py fg bg x y p =
     (if px \<le> x \<and> x < px + 10 \<and> py \<le> y \<and> y < py + 16 then
        (case glyph of
           None \<Rightarrow> bg
         | Some gl \<Rightarrow> if x < px + 8 \<and> bit (gl ! (y - py)) (7 - (x - px)) then fg else bg)
      else p)"

lemma row_no_wrap: "unat py + 16 \<le> unat (h :: u32) \<Longrightarrow> i < 16 \<Longrightarrow> unat (py + of_nat i) = unat py + i \<and> \<not> py + of_nat i \<ge> h"
proof -
  assume a: "unat py + 16 \<le> unat h" "i < 16"
  have "unat h < 2 ^ LENGTH(32)" by (rule unsigned_less)
  moreover have "unat (of_nat i :: u32) = i" using a(2) by (simp add: unat_of_nat take_bit_nat_eq_self)
  ultimately have "unat (py + of_nat i) = unat py + i" using a by (simp add: unat_add_nowrap)
  with a show ?thesis by (simp add: word_le_nat_alt)
qed

lemma bg_rows_fill:
  assumes "unat py + 16 \<le> unat (VerticalResolution g)" "clipped \<noteq> 0"
  shows "list_all (\<lambda>i. i < 16) is \<Longrightarrow>
    bg_rows g sf is px py clipped bg st = fill_rows g sf (map (\<lambda>i. unat py + i) is) (unat px) bg (unat clipped) st"
proof (induction "is" arbitrary: st)
  case (Cons i "is")
  then have "unat (py + of_nat i) = unat py + i" "\<not> py + of_nat i \<ge> VerticalResolution g" using row_no_wrap[OF assms(1), of i] by auto
  then show ?case using Cons assms(2) by (auto simp: Let_def fill_row_pixels_def split: option.split)
qed simp

lemma bg_rows_none:
  assumes "unat py + 16 \<le> unat (VerticalResolution g)"
  shows "list_all (\<lambda>i. i < 16) is \<Longrightarrow> bg_rows g sf is px py 0 bg st = Some st"
  by (induction "is") (auto simp: Let_def)

lemma glyph_bit: "gx < 8 \<Longrightarrow> (bits :: u8) AND drop_bit gx 0x80 \<noteq> 0 \<longleftrightarrow> bit bits (7 - gx)"
proof -
  assume gx: "gx < 8"
  have "bit (drop_bit gx (0x80 :: u8)) k \<longleftrightarrow> k = 7 - gx" if "k < 8" for k
  proof -
    have "(0x80 :: u8) = push_bit 7 1" by simp
    then have "bit (drop_bit gx (0x80 :: u8)) k \<longleftrightarrow> bit (push_bit 7 1 :: u8) (gx + k)" by (simp only: bit_drop_bit_eq o_apply)
    also have "\<dots> \<longleftrightarrow> gx + k = 7" unfolding bit_push_bit_iff bit_1_iff by auto
    finally show ?thesis using gx by auto
  qed
  then have "bits AND drop_bit gx 0x80 \<noteq> 0 \<longleftrightarrow> (\<exists>k < 8. bit bits k \<and> k = 7 - gx)"
    by (auto simp: bit_eq_iff bit_and_iff dest: bit_imp_le_length)
  then show ?thesis using gx by auto
qed

lemma glyph_row_run:
  "b \<le> 8 \<Longrightarrow> a \<le> b \<Longrightarrow> d + min b (unat W - unat px) \<le> length m \<Longrightarrow> unat px \<le> unat W \<Longrightarrow>
   \<exists>m'. glyph_row bits [a..<b] W px fg m d = Some m' \<and>
     written m m' (d + min a (unat W - unat px)) (d + min b (unat W - unat px)) (\<lambda>i. if bit bits (7 - (i - d)) then fg else m ! i)"
proof (induction "b - a" arbitrary: a m)
  case 0
  then show ?case by simp
next
  case (Suc k)
  then have ab: "a < b" by simp
  show ?case
  proof (cases "unat px + a < unat W")
    case False
    then have "min a (unat W - unat px) = unat W - unat px" "min b (unat W - unat px) = unat W - unat px" using ab by auto
    then show ?thesis using False ab by (simp add: upt_conv_Cons)
  next
    case True
    let ?m = "if bit bits (7 - a) then m[d + a := fg] else m"
    have step: "glyph_row bits [a..<b] W px fg m d = glyph_row bits [Suc a..<b] W px fg ?m d"
      using True ab Suc.prems glyph_bit[of a bits] by (auto simp: upt_conv_Cons)
    have w1: "written m ?m (d + a) (d + Suc a) (\<lambda>i. if bit bits (7 - (i - d)) then fg else m ! i)"
      by (auto simp: written_def nth_list_update less_Suc_eq)
    have len: "length ?m = length m" by simp
    have "\<exists>m'. glyph_row bits [Suc a..<b] W px fg ?m d = Some m' \<and>
      written ?m m' (d + min (Suc a) (unat W - unat px)) (d + min b (unat W - unat px)) (\<lambda>i. if bit bits (7 - (i - d)) then fg else ?m ! i)"
      by (rule Suc.hyps(1)) (use Suc.hyps(2) Suc.prems ab in simp_all)
    then obtain m' where m': "glyph_row bits [Suc a..<b] W px fg ?m d = Some m'"
      "written ?m m' (d + min (Suc a) (unat W - unat px)) (d + min b (unat W - unat px)) (\<lambda>i. if bit bits (7 - (i - d)) then fg else ?m ! i)"
      by blast
    have mins: "min a (unat W - unat px) = a" "min (Suc a) (unat W - unat px) = Suc a" using True by auto
    have w2: "written ?m m' (d + Suc a) (d + min b (unat W - unat px)) (\<lambda>i. if bit bits (7 - (i - d)) then fg else m ! i)"
      by (rule written_cong[OF m'(2)]) (use mins in auto)
    have "written m m' (d + a) (d + min b (unat W - unat px)) (\<lambda>i. if bit bits (7 - (i - d)) then fg else m ! i)"
      by (rule written_trans[OF w1 w2]) (use True ab in auto)
    then show ?thesis using step m'(1) mins(1) by auto
  qed
qed

lemma glyph_rows_mem:
  assumes "unat py + 16 \<le> unat (VerticalResolution g)" "px < HorizontalResolution g" "length gl = 16"
  shows "list_all (\<lambda>i. i < 16) is \<Longrightarrow>
    glyph_rows g sf is gl px py fg st =
      map_option (\<lambda>m. surf_set sf m st)
        (mem_rows (\<lambda>y m. glyph_row (gl ! (y - unat py)) [0..<8] (HorizontalResolution g) px fg m (y * unat (surf_stride g sf st) + unat px))
           (map (\<lambda>i. unat py + i) is) (surf_mem sf st))"
proof (induction "is" arbitrary: st)
  case (Cons i "is")
  then have "unat (py + of_nat i) = unat py + i" "\<not> py + of_nat i \<ge> VerticalResolution g" using row_no_wrap[OF assms(1), of i] by auto
  then show ?case using Cons assms(2,3) by (auto simp: Let_def not_le split: option.split)
qed simp

lemma unat_clipped:
  assumes "unat (HorizontalResolution g) + 10 < 2 ^ 32"
  shows "unat (clipped_width g px) = min 10 (unat (HorizontalResolution g) - unat px)"
proof (cases "px < HorizontalResolution g")
  case True
  then have "unat (px + 10) = unat px + 10" using assms by (simp add: unat_add_nowrap word_less_nat_alt)
  with True show ?thesis by (auto simp: clipped_width_def word_less_nat_alt unat_sub word_le_nat_alt)
qed (auto simp: clipped_width_def word_less_nat_alt not_less)

lemma glyph_rows_drawn:
  assumes ok: "screen_ok g st" and py: "unat py + 16 \<le> unat (VerticalResolution g)" and px: "px < HorizontalResolution g"
    and gl: "length gl = 16" and dirty: "target g st = Back \<Longrightarrow> s_frame_dirty st"
  shows "\<exists>st'. glyph_rows g (target g st) [0..<16] gl px py fg st = Some st' \<and>
    drawn g (\<lambda>x y p. if unat px \<le> x \<and> x < unat px + 8 \<and> unat py \<le> y \<and> y < unat py + 16 \<and>
                         bit (gl ! (y - unat py)) (7 - (x - unat px)) then fg else p) st st'"
proof -
  let ?sf = "target g st" let ?S = "unat (surf_stride g ?sf st)" and ?m = "surf_mem ?sf st" and ?W = "unat (HorizontalResolution g)"
  let ?span = "min 8 (?W - unat px)"
  let ?op = "\<lambda>y m. glyph_row (gl ! (y - unat py)) [0..<8] (HorizontalResolution g) px fg m (y * ?S + unat px)"
  let ?v = "\<lambda>x y p. if bit (gl ! (y - unat py)) (7 - (x - unat px)) then fg else p"
  note sz = surface_size[OF ok]
  have pxW: "unat px < ?W" using px by (simp add: word_less_nat_alt)
  have le: "unat px + ?span \<le> ?S" using pxW sz(1) by simp
  have law: "row_law ?op (length ?m) ?S (unat px) ?span (unat (VerticalResolution g)) ?v"
    unfolding row_law_def
  proof (intro allI impI)
    fix y and m :: "u32 list"
    assume y: "y < unat (VerticalResolution g)" and m: "length m = length ?m"
    have "y * ?S + unat px + ?span \<le> length m" using row_bound[OF y sz(2) le] m by simp
    then obtain m' where m': "?op y m = Some m'" "written m m' (y * ?S + unat px + min 0 (?W - unat px)) (y * ?S + unat px + ?span)
        (\<lambda>i. if bit (gl ! (y - unat py)) (7 - (i - (y * ?S + unat px))) then fg else m ! i)"
      using glyph_row_run[of 8 0 "y * ?S + unat px" "HorizontalResolution g" px m "gl ! (y - unat py)" fg] pxW by auto
    have "written m m' (y * ?S + unat px) (y * ?S + unat px + ?span) (\<lambda>i. ?v (i - y * ?S) y (m ! i))"
      by (rule written_cong[OF m'(2)]) simp_all
    with m'(1) show "\<exists>m'. ?op y m = Some m' \<and> written m m' (y * ?S + unat px) (y * ?S + unat px + ?span) (\<lambda>i. ?v (i - y * ?S) y (m ! i))"
      by blast
  qed
  obtain m' where m': "mem_rows ?op [unat py..<unat py + 16] ?m = Some m'" "length m' = length ?m"
    "\<And>x y. x < ?S \<Longrightarrow> y * ?S + x < length ?m \<Longrightarrow> m' ! (y * ?S + x) =
       (if boxed (unat px) (unat px + ?span) (unat py) (unat py + 16) x y then ?v x y (?m ! (y * ?S + x)) else ?m ! (y * ?S + x))"
    using mem_rows_run[OF law py sz(2) le, of "unat py"] by auto
  have upt: "map (\<lambda>i. unat py + i) [0..<16] = [unat py..<unat py + 16]" by (simp add: map_add_upt add.commute)
  have "glyph_rows g ?sf [0..<16] gl px py fg st = Some (surf_set ?sf m' st)"
    using glyph_rows_mem[OF py px gl, of "[0..<16]" ?sf fg st] m'(1) unfolding upt by (simp add: list_all_iff)
  moreover have "pixel g (surf_set ?sf m' st) x y =
      (if unat px \<le> x \<and> x < unat px + 8 \<and> unat py \<le> y \<and> y < unat py + 16 \<and> bit (gl ! (y - unat py)) (7 - (x - unat px)) then fg else pixel g st x y)"
    if on: "on_screen g x y" for x y
  proof -
    have x: "x < ?S" using on sz(1) by (simp add: on_screen_def)
    have "y * ?S + x < length ?m" by (rule cell_bound[OF x _ sz(2)]) (use on in \<open>simp add: on_screen_def\<close>)
    from m'(3)[OF x this] show ?thesis using on by (auto simp: pixel_def boxed_def on_screen_def)
  qed
  moreover have "screen_ok g (surf_set ?sf m' st)"
    using screen_ok_set[OF ok m'(2), of "s_frame_dirty st"] by (simp add: screen_ok_def)
  ultimately show ?thesis using dirty by (auto simp: drawn_def synced_def)
qed

lemma put_char_drawn:
  assumes ok: "screen_ok g st" and py: "unat py + 16 \<le> unat (VerticalResolution g)" and W: "unat (HorizontalResolution g) + 10 < 2 ^ 32"
    and gl: "\<And>gl. glyph = Some gl \<Longrightarrow> length gl = 16"
  shows "\<exists>st'. put_char g glyph px py fg bg st = Some st' \<and> drawn g (cell_ink glyph (unat px) (unat py) fg bg) st st'"
proof (cases "px < HorizontalResolution g")
  case False
  have bg: "bg_rows g (target g st) [0..<16] px py 0 bg st = Some st" by (rule bg_rows_none[OF py]) (simp add: list_all_iff)
  have "glyph_rows g (target g st) (0 # is) gl px py fg st = Some st" if "glyph = Some gl" for gl "is"
    using False gl[OF that] by (simp add: Let_def not_less)
  then have "put_char g glyph px py fg bg st = Some st"
    using False bg by (auto simp: put_char_def clipped_width_def upt_conv_Cons[of 0] split: option.split simp del: upt_rec_numeral)
  moreover have "drawn g (cell_ink glyph (unat px) (unat py) fg bg) st st"
    by (rule drawn_cong[OF drawn_refl[OF ok]]) (use False in \<open>auto simp: cell_ink_def on_screen_def word_less_nat_alt\<close>)
  ultimately show ?thesis by blast
next
  case True
  let ?cw = "clipped_width g px"
  have cw: "unat ?cw = min 10 (unat (HorizontalResolution g) - unat px)" by (rule unat_clipped[OF W])
  have pxW: "unat px < unat (HorizontalResolution g)" using True by (simp add: word_less_nat_alt)
  then have nz: "?cw \<noteq> 0" using cw by (auto simp: word_unat_eq_iff)
  have upt: "map (\<lambda>i. unat py + i) [0..<16] = [unat py..<unat py + 16]" by (simp add: map_add_upt add.commute)
  have fits: "unat px + unat ?cw \<le> unat (HorizontalResolution g)" using cw pxW by simp
  obtain st1 where st1: "fill_rows g (target g st) [unat py..<unat py + 16] (unat px) bg (unat ?cw) st = Some st1"
    "painted g (boxed (unat px) (unat px + unat ?cw) (unat py) (unat py + 16)) (\<lambda>_. bg) st st1"
    using fill_rows_painted[OF ok le_add1 py fits, of bg] by blast
  have bg: "bg_rows g (target g st) [0..<16] px py ?cw bg st = Some st1"
    using bg_rows_fill[OF py nz, of "[0..<16]"] st1(1) unfolding upt by (simp add: list_all_iff)
  have d1: "drawn g (\<lambda>x y p. if boxed (unat px) (unat px + unat ?cw) (unat py) (unat py + 16) x y then bg else p) st st1"
    using painted_drawn[OF st1(2)] by simp
  have dirty: "s_frame_dirty st1" if "target g st = Back"
  proof -
    have "on_screen g (unat px) (unat py) \<and> boxed (unat px) (unat px + unat ?cw) (unat py) (unat py + 16) (unat px) (unat py)"
      using pxW py cw by (auto simp: on_screen_def boxed_def)
    with st1(2) that show ?thesis unfolding painted_def by blast
  qed
  have ok1: "screen_ok g st1" "target g st1 = target g st" using st1(2) by (simp_all add: painted_def)
  have clip: "boxed (unat px) (unat px + unat ?cw) (unat py) (unat py + 16) x y \<longleftrightarrow>
      unat px \<le> x \<and> x < unat px + 10 \<and> unat py \<le> y \<and> y < unat py + 16" if "on_screen g x y" for x y
    using that cw by (auto simp: boxed_def on_screen_def)
  show ?thesis
  proof (cases glyph)
    case None
    have "drawn g (cell_ink glyph (unat px) (unat py) fg bg) st st1"
      by (rule drawn_cong[OF d1]) (use clip None in \<open>auto simp: cell_ink_def\<close>)
    then show ?thesis using bg None by (simp add: put_char_def)
  next
    case (Some gl')
    obtain st2 where st2: "glyph_rows g (target g st) [0..<16] gl' px py fg st1 = Some st2"
      "drawn g (\<lambda>x y p. if unat px \<le> x \<and> x < unat px + 8 \<and> unat py \<le> y \<and> y < unat py + 16 \<and>
                         bit (gl' ! (y - unat py)) (7 - (x - unat px)) then fg else p) st1 st2"
      using glyph_rows_drawn[OF ok1(1) py True gl[OF Some]] dirty ok1(2) by auto
    have "drawn g (cell_ink glyph (unat px) (unat py) fg bg) st st2"
      by (rule drawn_cong[OF drawn_trans[OF d1 st2(2)]]) (use clip Some in \<open>auto simp: cell_ink_def\<close>)
    then show ?thesis using bg Some st2(1) by (simp add: put_char_def)
  qed
qed

section \<open>Strings\<close>

text \<open>Where the characters of a string go, without machine arithmetic: the character and the upper left corner of its cell.\<close>

fun text_layout :: "nat \<Rightarrow> nat \<Rightarrow> nat \<Rightarrow> bytes \<Rightarrow> nat \<Rightarrow> nat \<Rightarrow> (u8 \<times> nat \<times> nat) list" where
  "text_layout W H start [] px py = []"
| "text_layout W H start (c # cs) px py =
     (if c = 10 then (if py + 32 > H then [] else text_layout W H start cs start (py + 16))
      else
        let px1 = (if px \<ge> W then start else px); py1 = (if px \<ge> W then py + 16 else py) in
        if py1 + 16 > H then [] else (c, px1, py1) # text_layout W H start cs (px1 + 10) py1)"

definition text_ink :: "fonts \<Rightarrow> u32 \<Rightarrow> u32 \<Rightarrow> (u8 \<times> nat \<times> nat) list \<Rightarrow> nat \<Rightarrow> nat \<Rightarrow> u32 \<Rightarrow> u32" where
  "text_ink fonts fg bg cells x y p = fold (\<lambda>(c, px, py). cell_ink (font8x16_get c fonts) px py fg bg x y) cells p"

definition font_ok :: "fonts \<Rightarrow> bool" where
  "font_ok fonts \<longleftrightarrow> (\<forall>c gl. font8x16_get c fonts = Some gl \<longrightarrow> length gl = 16)"

lemma text_loop_drawn:
  assumes font: "font_ok fonts" and W: "unat (HorizontalResolution g) + 10 < 2 ^ 32" and H: "unat (VerticalResolution g) + 16 < 2 ^ 32"
    and start: "unat start + 10 < 2 ^ 32"
  shows "screen_ok g st \<Longrightarrow> unat py + 16 < 2 ^ 32 \<Longrightarrow>
    \<exists>st'. text_loop g fonts start fg bg cs px py st = Some st' \<and>
      drawn g (text_ink fonts fg bg (text_layout (unat (HorizontalResolution g)) (unat (VerticalResolution g)) (unat start) cs (unat px) (unat py))) st st'"
proof (induction cs arbitrary: px py st)
  case Nil
  then show ?case using drawn_refl by (auto simp: text_ink_def)
next
  case (Cons c cs)
  have py16: "unat (py + 16) = unat py + 16" using Cons.prems(2) by (simp add: unat_add_nowrap)
  have stop: ?case if "text_loop g fonts start fg bg (c # cs) px py st = Some st"
    "text_layout (unat (HorizontalResolution g)) (unat (VerticalResolution g)) (unat start) (c # cs) (unat px) (unat py) = []"
    using that drawn_refl[OF Cons.prems(1)] by (simp add: text_ink_def)
  show ?case
  proof (cases "c = 10")
    case True
    show ?thesis
    proof (cases "unat (py + 16) + 16 > unat (VerticalResolution g)")
      case more: False
      have "\<exists>st'. text_loop g fonts start fg bg cs start (py + 16) st = Some st' \<and>
        drawn g (text_ink fonts fg bg (text_layout (unat (HorizontalResolution g)) (unat (VerticalResolution g)) (unat start) cs (unat start) (unat (py + 16)))) st st'"
        by (rule Cons.IH[OF Cons.prems(1)]) (use more H in simp)
      then show ?thesis using True more py16 by auto
    qed (rule stop; use True py16 in simp)
  next
    case False
    define px1 where "px1 = (if px \<ge> HorizontalResolution g then start else px)"
    define py1 where "py1 = (if px \<ge> HorizontalResolution g then py + 16 else py)"
    have u: "unat px1 = (if unat px \<ge> unat (HorizontalResolution g) then unat start else unat px)"
      "unat py1 = (if unat px \<ge> unat (HorizontalResolution g) then unat py + 16 else unat py)"
      by (simp_all add: px1_def py1_def py16 word_le_nat_alt)
    have loop: "text_loop g fonts start fg bg (c # cs) px py st =
        (if unat py1 + 16 > unat (VerticalResolution g) then Some st
         else case put_char g (font8x16_get c fonts) px1 py1 fg bg st of
            None \<Rightarrow> None | Some st1 \<Rightarrow> text_loop g fonts start fg bg cs (px1 + 10) py1 st1)"
      using False by (simp only: text_loop.simps px1_def py1_def Let_def if_False)
    have lay: "text_layout (unat (HorizontalResolution g)) (unat (VerticalResolution g)) (unat start) (c # cs) (unat px) (unat py) =
        (if unat py1 + 16 > unat (VerticalResolution g) then []
         else (c, unat px1, unat py1) # text_layout (unat (HorizontalResolution g)) (unat (VerticalResolution g)) (unat start) cs (unat px1 + 10) (unat py1))"
      using False u by (simp add: Let_def)
    have px10: "unat (px1 + 10) = unat px1 + 10" using u(1) W start by (auto simp: unat_add_nowrap)
    show ?thesis
    proof (cases "unat py1 + 16 > unat (VerticalResolution g)")
      case more: False
      obtain st1 where st1: "put_char g (font8x16_get c fonts) px1 py1 fg bg st = Some st1"
        "drawn g (cell_ink (font8x16_get c fonts) (unat px1) (unat py1) fg bg) st st1"
        using put_char_drawn[OF Cons.prems(1) _ W, of py1 "font8x16_get c fonts" px1 fg bg] more font by (auto simp: font_ok_def)
      have "\<exists>st'. text_loop g fonts start fg bg cs (px1 + 10) py1 st1 = Some st' \<and>
        drawn g (text_ink fonts fg bg (text_layout (unat (HorizontalResolution g)) (unat (VerticalResolution g)) (unat start) cs (unat (px1 + 10)) (unat py1))) st1 st'"
        by (rule Cons.IH) (use st1(2) more H in \<open>auto simp: drawn_def\<close>)
      then obtain st' where "text_loop g fonts start fg bg cs (px1 + 10) py1 st1 = Some st'"
        "drawn g (text_ink fonts fg bg (text_layout (unat (HorizontalResolution g)) (unat (VerticalResolution g)) (unat start) cs (unat px1 + 10) (unat py1))) st1 st'"
        unfolding px10 by blast
      with drawn_trans[OF st1(2) this(2)] st1(1) more show ?thesis unfolding loop lay by (simp add: text_ink_def)
    qed (rule stop; use loop lay in simp)
  qed
qed

lemma text_with_pos_drawn:
  assumes "screen_ok g st" "font_ok fonts" "unat (HorizontalResolution g) + 10 < 2 ^ 32" "unat (VerticalResolution g) + 16 < 2 ^ 32"
    and "unat col + 10 < 2 ^ 32" "unat row + 16 < 2 ^ 32"
  shows "\<exists>st'. text_with_pos (Some g) fonts col row fg bg s st = Some st' \<and>
    drawn g (text_ink fonts (pack_rgb (PixelFormat g) (text_rgb (0xFF, 0xFF, 0xFF) fg)) (pack_rgb (PixelFormat g) (text_rgb (0, 0, 0) bg))
      (text_layout (unat (HorizontalResolution g)) (unat (VerticalResolution g)) (unat col) s (unat col) (unat row))) st st'"
proof -
  have u: "unat (ucast col :: u32) = unat col" "unat (ucast row :: u32) = unat row" using assms(5,6) by (simp_all add: unat_ucast_64_32)
  show ?thesis
    unfolding text_with_pos_def option.case
    using text_loop_drawn[OF assms(2-4), of "ucast col" st "ucast row" _ _ s "ucast col"] assms(1,5,6) unfolding u by blast
qed

lemma render_loop_drawn:
  assumes "font_ok fonts" "unat (HorizontalResolution g) + 10 < 2 ^ 32" "unat (VerticalResolution g) + 16 < 2 ^ 32"
  shows "screen_ok g st \<Longrightarrow> list_all (\<lambda>i. i < 64) is \<Longrightarrow> \<exists>st'. render_loop g fonts con start is st = Some st' \<and>
    drawn g (\<lambda>x y. fold (\<lambda>i. text_ink fonts (pack_rgb (PixelFormat g) (0xFF, 0xFF, 0xFF)) (pack_rgb (PixelFormat g) (0, 0, 0))
       (text_layout (unat (HorizontalResolution g)) (unat (VerticalResolution g)) 8
          (cstring (s_logs con ! ((start + i) mod 64))) 8 (40 + 18 * i)) x y) is) st st'"
proof (induction "is" arbitrary: st)
  case Nil
  then show ?case using drawn_refl by (auto simp: drawn_def)
next
  case (Cons i "is")
  then have i: "i < 64" by simp
  have u: "unat (40 + of_nat i * 18 :: u64) = 40 + 18 * i"
    using i by (simp add: unat_add_nowrap unat_mult_nowrap unat_of_nat take_bit_nat_eq_self)
  obtain st1 where st1: "text_with_pos (Some g) fonts 8 (40 + of_nat i * 18) EFI_WHITE EFI_BLACK (cstring (s_logs con ! ((start + i) mod 64))) st = Some st1"
    "drawn g (text_ink fonts (pack_rgb (PixelFormat g) (0xFF, 0xFF, 0xFF)) (pack_rgb (PixelFormat g) (0, 0, 0))
       (text_layout (unat (HorizontalResolution g)) (unat (VerticalResolution g)) 8 (cstring (s_logs con ! ((start + i) mod 64))) 8 (40 + 18 * i))) st st1"
    using text_with_pos_drawn[OF Cons.prems(1) assms, of 8 "40 + of_nat i * 18" EFI_WHITE EFI_BLACK "cstring (s_logs con ! ((start + i) mod 64))"] u i
    by (auto simp: text_rgb_def)
  have "screen_ok g st1" using st1(2) by (simp add: drawn_def)
  from Cons.IH[OF this] Cons.prems(2) obtain st' where "render_loop g fonts con start is st1 = Some st'"
    "drawn g (\<lambda>x y. fold (\<lambda>i. text_ink fonts (pack_rgb (PixelFormat g) (0xFF, 0xFF, 0xFF)) (pack_rgb (PixelFormat g) (0, 0, 0))
       (text_layout (unat (HorizontalResolution g)) (unat (VerticalResolution g)) 8
          (cstring (s_logs con ! ((start + i) mod 64))) 8 (40 + 18 * i)) x y) is) st1 st'" by auto
  with st1(1) drawn_trans[OF st1(2) this(2)] show ?case by simp
qed

text \<open>
  C18 (functional).  \<^verbatim>\<open>text_with_pos\<close> returns without leaving the pixel arrays and draws exactly the character cells of the
  layout: text wraps at the right edge to its starting column, stops at the lower edge, cells are
  clipped, and later cells cover earlier ones.
\<close>

theorem text_with_pos_draws:
  assumes "screen_ok g st" "font_ok fonts" "unat (HorizontalResolution g) + 10 < 2 ^ 32" "unat (VerticalResolution g) + 16 < 2 ^ 32"
    and "unat col + 10 < 2 ^ 32" "unat row + 16 < 2 ^ 32"
  shows "\<exists>st'. text_with_pos (Some g) fonts col row fg bg s st = Some st' \<and> screen_ok g st' \<and>
    (\<forall>x y. on_screen g x y \<longrightarrow> pixel g st' x y =
       text_ink fonts (pack_rgb (PixelFormat g) (text_rgb (0xFF, 0xFF, 0xFF) fg)) (pack_rgb (PixelFormat g) (text_rgb (0, 0, 0) bg))
         (text_layout (unat (HorizontalResolution g)) (unat (VerticalResolution g)) (unat col) s (unat col) (unat row)) x y (pixel g st x y))"
  using text_with_pos_drawn[OF assms, of fg bg s] unfolding drawn_def by blast

text \<open>
  C16 (refinement).  Rendering the log and refreshing puts the logged messages on the screen, oldest first, one line of
  text every 18 pixels from row 40 on.
\<close>

theorem console_history_shown:
  assumes "screen_ok g st" "target g st = Back" "synced g st" "font_ok fonts" "log_inv con"
    and "unat (HorizontalResolution g) + 10 < 2 ^ 32" "unat (VerticalResolution g) + 16 < 2 ^ 32"
  shows "\<exists>st1 st2. console_render_history (Some g) fonts con st = Some st1 \<and> refresh (Some g) st1 = Some st2 \<and>
    (\<forall>x y. on_screen g x y \<longrightarrow> shown g st2 x y =
       fold (\<lambda>i. text_ink fonts (pack_rgb (PixelFormat g) (0xFF, 0xFF, 0xFF)) (pack_rgb (PixelFormat g) (0, 0, 0))
         (text_layout (unat (HorizontalResolution g)) (unat (VerticalResolution g)) 8 (log_lines con ! i) 8 (40 + 18 * i)) x y)
         [0..<length (log_lines con)] (pixel g st x y))"
proof -
  let ?start = "(s_logs_next con + 64 - s_logs_count con) mod 64"
  let ?ink = "\<lambda>l i. text_ink fonts (pack_rgb (PixelFormat g) (0xFF, 0xFF, 0xFF)) (pack_rgb (PixelFormat g) (0, 0, 0))
         (text_layout (unat (HorizontalResolution g)) (unat (VerticalResolution g)) 8 l 8 (40 + 18 * i))"
  have all: "list_all (\<lambda>i. i < 64) [0..<s_logs_count con]" using assms(5) by (auto simp: log_inv_def list_all_iff)
  obtain st1 where st1: "render_loop g fonts con ?start [0..<s_logs_count con] st = Some st1"
    "drawn g (\<lambda>x y. fold (\<lambda>i. ?ink (cstring (s_logs con ! ((?start + i) mod 64))) i x y) [0..<s_logs_count con]) st st1"
    using render_loop_drawn[OF assms(4,6,7,1) all, of con ?start] by blast
  have slot: "(?start + i) mod 64 = log_slot con i" for i by (simp add: log_slot_def mod_add_left_eq)
  have lines: "fold (\<lambda>i. ?ink (cstring (s_logs con ! log_slot con i)) i x y) [0..<s_logs_count con] p =
      fold (\<lambda>i. ?ink (log_lines con ! i) i x y) [0..<length (log_lines con)] p" for x y p
    by (rule fold_cong) (auto simp: log_lines_def)
  have ok: "screen_ok g st1" "target g st1 = Back" "synced g st1" using st1(2) assms(2,3) by (auto simp: drawn_def)
  obtain st2 where "refresh (Some g) st1 = Some st2" "\<forall>x y. on_screen g x y \<longrightarrow> shown g st2 x y = pixel g st1 x y"
    using refresh_shows[OF ok] by blast
  moreover have "console_render_history (Some g) fonts con st = Some st1" using st1(1) by (simp add: console_render_history_def)
  ultimately show ?thesis using st1(2) unfolding slot lines by (auto simp: drawn_def)
qed

section \<open>Icons\<close>

definition icon_wf :: "string list \<Rightarrow> bool" where
  "icon_wf icon \<longleftrightarrow> length icon = 32 \<and> (\<forall>row \<in> set icon. length row = 32)"

lemma icon_row_run:
  "b \<le> length pixels \<Longrightarrow> a \<le> b \<Longrightarrow> d + b \<le> length m \<Longrightarrow>
   \<exists>m'. icon_row pixels [a..<b] color m d = Some m' \<and> written m m' (d + a) (d + b) (\<lambda>i. if pixels ! (i - d) \<noteq> CHR ''.'' then color else m ! i)"
proof (induction "b - a" arbitrary: a m)
  case 0
  then show ?case by simp
next
  case (Suc k)
  then have ab: "a < b" by simp
  let ?m = "if pixels ! a \<noteq> CHR ''.'' then m[d + a := color] else m"
  have step: "icon_row pixels [a..<b] color m d = icon_row pixels [Suc a..<b] color ?m d"
    using ab Suc.prems by (auto simp: upt_conv_Cons)
  have w1: "written m ?m (d + a) (d + Suc a) (\<lambda>i. if pixels ! (i - d) \<noteq> CHR ''.'' then color else m ! i)"
    by (auto simp: written_def nth_list_update less_Suc_eq)
  have "\<exists>m'. icon_row pixels [Suc a..<b] color ?m d = Some m' \<and>
      written ?m m' (d + Suc a) (d + b) (\<lambda>i. if pixels ! (i - d) \<noteq> CHR ''.'' then color else ?m ! i)"
    by (rule Suc.hyps(1)) (use Suc.hyps(2) Suc.prems ab in simp_all)
  then obtain m' where m': "icon_row pixels [Suc a..<b] color ?m d = Some m'"
    "written ?m m' (d + Suc a) (d + b) (\<lambda>i. if pixels ! (i - d) \<noteq> CHR ''.'' then color else ?m ! i)" by blast
  have w2: "written ?m m' (d + Suc a) (d + b) (\<lambda>i. if pixels ! (i - d) \<noteq> CHR ''.'' then color else m ! i)"
    by (rule written_cong[OF m'(2)]) auto
  show ?case using step m'(1) written_trans[OF w1 w2] ab by auto
qed

lemma icon_rows_mem:
  assumes "unat y + 32 < 2 ^ 32"
  shows "n \<le> 32 \<Longrightarrow> a \<le> n \<Longrightarrow> n \<le> length icon \<Longrightarrow>
    icon_rows g sf icon [a..<n] x y color st =
      map_option (\<lambda>m. surf_set sf m st)
        (mem_rows (\<lambda>yy m. icon_row (icon ! (yy - unat y)) [0..<32] color m (yy * unat (surf_stride g sf st) + unat x))
           [unat y + a..<max (unat y + a) (min (unat y + n) (unat (VerticalResolution g)))] (surf_mem sf st))"
proof (induction "n - a" arbitrary: a st)
  case 0
  then show ?case by simp
next
  case (Suc k)
  then have an: "a < n" by simp
  have u: "unat (of_nat a :: u32) = a" using an Suc.prems(1) by (simp add: unat_of_nat take_bit_nat_eq_self)
  then have ua: "unat (y + of_nat a) = unat y + a" using assms an Suc.prems(1) by (simp add: unat_add_nowrap)
  show ?case
  proof (cases "y + of_nat a \<ge> VerticalResolution g")
    case True
    then have "min (unat y + n) (unat (VerticalResolution g)) \<le> unat y + a" using ua by (simp add: word_le_nat_alt)
    then show ?thesis using True an by (simp add: upt_conv_Cons Let_def max_absorb1)
  next
    case False
    then have lt: "unat y + a < unat (VerticalResolution g)" using ua by (simp add: word_le_nat_alt)
    define e where "e = min (unat y + n) (unat (VerticalResolution g))"
    have e: "unat y + a < e" using lt an by (simp add: e_def)
    have IH: "icon_rows g sf icon [Suc a..<n] x y color st1 =
      map_option (\<lambda>m. surf_set sf m st1)
        (mem_rows (\<lambda>yy m. icon_row (icon ! (yy - unat y)) [0..<32] color m (yy * unat (surf_stride g sf st1) + unat x))
           [Suc (unat y + a)..<e] (surf_mem sf st1))" for st1
      using Suc.hyps(1)[of "Suc a" st1] Suc.hyps(2) Suc.prems an e by (simp add: e_def[symmetric] max_absorb2)
    have ll: "[unat y + a..<max (unat y + a) e] = (unat y + a) # [Suc (unat y + a)..<e]" using e by (simp add: upt_conv_Cons max_absorb2)
    have l: "[a..<n] = a # [Suc a..<n]" using an by (rule upt_conv_Cons)
    have ai: "a < length icon" using an Suc.prems by simp
    show ?thesis unfolding e_def[symmetric] ll l icon_rows.simps mem_rows.simps Let_def ua
      using False ai
      by (cases "icon_row (icon ! a) [0..<32] color (surf_mem sf st) ((unat y + a) * unat (surf_stride g sf st) + unat x)")
         (simp_all add: IH)
  qed
qed

definition icon_ink :: "string list \<Rightarrow> nat \<Rightarrow> nat \<Rightarrow> u32 \<Rightarrow> nat \<Rightarrow> nat \<Rightarrow> u32 \<Rightarrow> u32" where
  "icon_ink icon x0 y0 color x y p =
     (if x0 \<le> x \<and> x < x0 + 32 \<and> y0 \<le> y \<and> y < y0 + 32 \<and> icon ! (y - y0) ! (x - x0) \<noteq> CHR ''.'' then color else p)"

lemma icon_rows_pixels:
  assumes ok: "screen_ok g st" and wf: "icon_wf icon" and x: "unat x + 32 \<le> unat (HorizontalResolution g)" and y: "unat y + 32 < 2 ^ 32"
  obtains m where "icon_rows g (target g st) icon [0..<32] x y color st = Some (surf_set (target g st) m st)"
    "length m = length (surf_mem (target g st) st)"
    "\<And>a b. on_screen g a b \<Longrightarrow> m ! (b * unat (surf_stride g (target g st) st) + a) = icon_ink icon (unat x) (unat y) color a b (pixel g st a b)"
proof -
  let ?sf = "target g st" let ?S = "unat (surf_stride g ?sf st)" and ?m = "surf_mem ?sf st" and ?H = "unat (VerticalResolution g)"
  let ?op = "\<lambda>yy m. icon_row (icon ! (yy - unat y)) [0..<32] color m (yy * ?S + unat x)"
  let ?e = "max (unat y) (min (unat y + 32) ?H)"
  note sz = surface_size[OF ok]
  have mem: "icon_rows g ?sf icon [0..<32] x y color st = map_option (\<lambda>m. surf_set ?sf m st) (mem_rows ?op [unat y..<?e] ?m)"
    using icon_rows_mem[OF y, of 32 0 icon g ?sf x color st] wf by (simp add: icon_wf_def)
  have le: "unat x + 32 \<le> ?S" using x sz(1) by simp
  show thesis
  proof (cases "unat y < ?H")
    case False
    then have nil: "[unat y..<?e] = []" by simp
    have "icon_rows g ?sf icon [0..<32] x y color st = Some (surf_set ?sf ?m st)" unfolding mem nil by simp
    then show thesis by (rule that) (use False in \<open>auto simp: icon_ink_def on_screen_def pixel_def\<close>)
  next
    case True
    let ?rel = "\<lambda>yy m. icon_row (icon ! ((yy - unat y) mod 32)) [0..<32] color m (yy * ?S + unat x)"
    let ?v = "\<lambda>a b p. if icon ! ((b - unat y) mod 32) ! (a - unat x) \<noteq> CHR ''.'' then color else p"
    have law: "row_law ?rel (length ?m) ?S (unat x) 32 ?H ?v"
      unfolding row_law_def
    proof (intro allI impI)
      fix b and m :: "u32 list"
      assume b: "b < ?H" and m: "length m = length ?m"
      have "b * ?S + unat x + 32 \<le> length m" using row_bound[OF b sz(2) le] m by simp
      moreover have "32 \<le> length (icon ! ((b - unat y) mod 32))" using wf by (simp add: icon_wf_def)
      ultimately obtain m' where m': "?rel b m = Some m'" "written m m' (b * ?S + unat x + 0) (b * ?S + unat x + 32)
          (\<lambda>i. if icon ! ((b - unat y) mod 32) ! (i - (b * ?S + unat x)) \<noteq> CHR ''.'' then color else m ! i)"
        using icon_row_run[of 32 "icon ! ((b - unat y) mod 32)" 0 "b * ?S + unat x" m color] by auto
      have "written m m' (b * ?S + unat x) (b * ?S + unat x + 32) (\<lambda>i. ?v (i - b * ?S) b (m ! i))"
        by (rule written_cong[OF m'(2)]) simp_all
      with m'(1) show "\<exists>m'. ?rel b m = Some m' \<and> written m m' (b * ?S + unat x) (b * ?S + unat x + 32) (\<lambda>i. ?v (i - b * ?S) b (m ! i))"
        by blast
    qed
    have same: "mem_rows ?op ys m = mem_rows ?rel ys m" if "\<forall>yy \<in> set ys. yy - unat y < 32" for ys m
      using that by (induction ys arbitrary: m) (auto split: option.split)
    obtain m where m: "mem_rows ?rel [unat y..<?e] ?m = Some m" "length m = length ?m"
      "\<And>a b. a < ?S \<Longrightarrow> b * ?S + a < length ?m \<Longrightarrow> m ! (b * ?S + a) =
         (if boxed (unat x) (unat x + 32) (unat y) ?e a b then ?v a b (?m ! (b * ?S + a)) else ?m ! (b * ?S + a))"
      using mem_rows_run[OF law _ sz(2) le, of ?e "unat y"] True by auto
    have "icon_rows g ?sf icon [0..<32] x y color st = Some (surf_set ?sf m st)"
      unfolding mem using m(1) by (subst same) auto
    then show thesis
    proof (rule that)
      show "length m = length ?m" by (rule m(2))
      fix a b assume on: "on_screen g a b"
      have a: "a < ?S" using on sz(1) by (simp add: on_screen_def)
      have "b * ?S + a < length ?m" by (rule cell_bound[OF a _ sz(2)]) (use on in \<open>simp add: on_screen_def\<close>)
      from m(3)[OF a this] show "m ! (b * ?S + a) = icon_ink icon (unat x) (unat y) color a b (pixel g st a b)"
        using on True by (auto simp: icon_ink_def boxed_def on_screen_def pixel_def)
    qed
  qed
qed

text \<open>The icon routine does not mark the frame; whoever draws an icon relies on another call of the same frame for that.\<close>

lemma draw_icon_drawn:
  assumes ok: "screen_ok g st" and "icon_wf icon" "unat x + 32 \<le> unat (HorizontalResolution g)" "unat y + 32 < 2 ^ 32"
  shows "\<exists>st'. draw_icon (Some g) (Some icon) x y color st = Some st' \<and> screen_ok g st' \<and> target g st' = target g st \<and>
    s_frame_dirty st' = s_frame_dirty st \<and> (target g st = Back \<longrightarrow> framebuffer st' = framebuffer st) \<and>
    (\<forall>a b. on_screen g a b \<longrightarrow> pixel g st' a b = icon_ink icon (unat x) (unat y) (icon_color (PixelFormat g) color) a b (pixel g st a b))"
proof -
  obtain m where m: "icon_rows g (target g st) icon [0..<32] x y (icon_color (PixelFormat g) color) st = Some (surf_set (target g st) m st)"
    "length m = length (surf_mem (target g st) st)"
    "\<And>a b. on_screen g a b \<Longrightarrow> m ! (b * unat (surf_stride g (target g st) st) + a) =
       icon_ink icon (unat x) (unat y) (icon_color (PixelFormat g) color) a b (pixel g st a b)"
    using icon_rows_pixels[OF assms] by blast
  have "screen_ok g (surf_set (target g st) m st)" using screen_ok_set[OF ok m(2), of "s_frame_dirty st"] by (simp add: screen_ok_def)
  with m show ?thesis by (auto simp: draw_icon_def pixel_def)
qed

text \<open>
  \<^verbatim>\<open>draw_icon\<close> does not mark the frame dirty: on a clean frame the icon is drawn into the back buffer and \<^verbatim>\<open>refresh\<close>
  leaves the screen as it was.
\<close>

theorem icon_not_shown:
  assumes "screen_ok g st" "target g st = Back" "\<not> s_frame_dirty st" "icon_wf icon"
    and "unat x + 32 \<le> unat (HorizontalResolution g)" "unat y + 32 < 2 ^ 32"
  shows "\<exists>st1. draw_icon (Some g) (Some icon) x y color st = Some st1 \<and> refresh (Some g) st1 = Some st1 \<and>
    (\<forall>a b. shown g st1 a b = shown g st a b) \<and>
    (\<forall>a b. on_screen g a b \<longrightarrow> pixel g st1 a b = icon_ink icon (unat x) (unat y) (icon_color (PixelFormat g) color) a b (pixel g st a b))"
  using draw_icon_drawn[OF assms(1,4-6), of color] assms(2,3) by (auto simp: refresh_def shown_def)

section \<open>Witnesses\<close>

definition bang_font :: fonts where
  "bang_font = fonts_zero\<lparr>ascii_font := (ascii_font fonts_zero)[1 := replicate 16 0x18], ascii_present := (ascii_present fonts_zero)[1 := True]\<rparr>"

lemma bang_font_ok: "font_ok bang_font"
proof -
  have "length (ascii_font bang_font ! unat (c - 32)) = 16" if "32 \<le> c" "c \<le> 127" for c :: u8
    using char_index[OF that] by (cases "unat (c - 32) = 1") (auto simp: bang_font_def fonts_zero_def)
  then show ?thesis by (auto simp: font_ok_def font8x16_get_def Let_def not_less split: if_splits)
qed

lemma bang_glyph: "font8x16_get 33 bang_font = Some (replicate 16 0x18)"
  by (simp add: font8x16_get_def bang_font_def fonts_zero_def)

lemma vga_dims: "unat (HorizontalResolution vga) = 640" "unat (VerticalResolution vga) = 480" "PixelFormat vga = PixelBlueGreenRedReserved8BitPerColor"
  by (simp_all add: vga_def)

lemma white: "pack_rgb PixelBlueGreenRedReserved8BitPerColor (0xFF, 0xFF, 0xFF) = 0xFFFFFF"
  by (simp add: pack_rgb_def pack_pixel_def)

theorem text_with_pos_draws_witness:
  "\<exists>st'. text_with_pos (Some vga) bang_font 8 40 0xF 0 [33] vga_start = Some st' \<and> pixel vga st' 11 41 = 0xFFFFFF"
proof -
  have "text_layout 640 480 8 [33] 8 40 = [(33, 8, 40)]" by (simp add: Let_def)
  moreover have "on_screen vga 11 41" by (simp add: on_screen_def vga_def)
  ultimately show ?thesis
    using text_with_pos_draws[OF vga_ok(1) bang_font_ok, of 8 40 "0xF" 0 "[33]"]
    by (auto simp: vga_dims text_ink_def cell_ink_def bang_glyph text_rgb_def white)
qed

theorem console_history_shown_witness:
  "\<exists>st1 st2. console_render_history (Some vga) bang_font (text_log [33] console_zero) vga_start = Some st1 \<and>
     refresh (Some vga) st1 = Some st2 \<and> shown vga st2 11 41 = 0xFFFFFF"
proof -
  have zero: "log_inv console_zero" "log_lines console_zero = []" by (simp_all add: log_inv_def log_lines_def console_zero_def)
  have inv: "log_inv (text_log [33] console_zero)" by (rule text_log_inv[OF zero(1)]) simp
  have lines: "log_lines (text_log [33] console_zero) = [[33]]"
    using text_log_lines[OF zero(1), of "[33]"] zero(2) by (simp add: last_n_def)
  have "text_layout 640 480 8 [33] 8 40 = [(33, 8, 40)]" by (simp add: Let_def)
  moreover have "on_screen vga 11 41" by (simp add: on_screen_def vga_def)
  ultimately show ?thesis
    using console_history_shown[OF vga_ok bang_font_ok inv]
    by (auto simp: vga_dims text_ink_def cell_ink_def bang_glyph white lines)
qed

theorem icon_not_shown_witness:
  "\<exists>st1. draw_icon (Some vga) (Some (replicate 32 (replicate 32 CHR ''#''))) 0 0 0xF (vga_start\<lparr>s_frame_dirty := False\<rparr>) = Some st1 \<and>
     refresh (Some vga) st1 = Some st1 \<and> shown vga st1 0 0 = 0 \<and> pixel vga st1 0 0 = 0xFFFFFF"
proof -
  let ?st = "vga_start\<lparr>s_frame_dirty := False\<rparr>"
  have "screen_ok vga ?st" "target vga ?st = Back" using vga_ok by (simp_all add: screen_ok_def)
  moreover have "icon_wf (replicate 32 (replicate 32 CHR ''#''))" by (simp add: icon_wf_def)
  moreover have "shown vga ?st 0 0 = 0" by (simp add: shown_def vga_start_def init_backbuffer_def vga_def)
  moreover have "on_screen vga 0 0" by (simp add: on_screen_def vga_def)
  ultimately show ?thesis
    using icon_not_shown[of vga ?st "replicate 32 (replicate 32 CHR ''#'')" 0 0 "0xF"]
    by (auto simp: vga_dims icon_ink_def icon_color_def white)
qed

end
