(* ===== verification/Icons.thy ===== *)
theory Icons
  imports Prelude
begin

text \<open>The five icons of \<^verbatim>\<open>gui/icons.c\<close>: 32 rows of 32 characters, a dot for a transparent pixel.
  The picture of \<open>ENTER\<close> has 31 rows in the source, so the last row of its array is filled with zero bytes.\<close>

definition icon_CURSOR :: "string list" where
  "icon_CURSOR =
     [''#...............................'', ''##..............................'', ''###.............................'',
      ''####............................'', ''#####...........................'', ''######..........................'',
      ''#######.........................'', ''########........................'', ''#########.......................'',
      ''##########......................'', ''###########.....................'', ''############....................'',
      ''#############...................'', ''##############..................'', ''###############.................'',
      ''################................'', ''###########.....................'', ''######.###......................'',
      ''#####..###......................'', ''###....###......................'', ''##.....###......................'',
      ''#......###......................'', ''.......###......................'', ''.......###......................'',
      ''........###.....................'', ''................................'', ''................................'',
      ''................................'', ''................................'', ''................................'',
      ''................................'', ''................................'']"

definition icon_LOGO :: "string list" where
  "icon_LOGO =
     [''####....####....####....####....'', ''####....####....####....####....'', ''####....####....####....####....'',
      ''####....####....####....####....'', ''....####....####....####....####'', ''....####....####....####....####'',
      ''....####....####....####....####'', ''....####....####....####....####'', ''####....####....####....####....'',
      ''####....####....####....####....'', ''####....####....####....####....'', ''####....####....####....####....'',
      ''....####....####....####....####'', ''....####....####....####....####'', ''....####....####....####....####'',
      ''....####....####....####....####'', ''####....####....####....####....'', ''####....####....####....####....'',
      ''####....####....####....####....'', ''####....####....####....####....'', ''....####....####....####....####'',
      ''....####....####....####....####'', ''....####....####....####....####'', ''....####....####....####....####'',
      ''####....####....####....####....'', ''####....####....####....####....'', ''####....####....####....####....'',
      ''####....####....####....####....'', ''....####....####....####....####'', ''....####....####....####....####'',
      ''....####....####....####....####'', ''....####....####....####....####'']"

definition icon_SHUTDOWN :: "string list" where
  "icon_SHUTDOWN =
     [''................................'', ''...............####.............'', ''............##########..........'',
      ''...........###.####.###.........'', ''..........###..####..###........'', ''.........###...####...###.......'',
      ''........###....####....###......'', ''.......###.....####.....###.....'', ''......###......####......###....'',
      ''.....###.......####.......###...'', ''.....###.......####........###..'', ''....###....................###..'',
      ''....###....................###..'', ''....###....................###..'', ''....###....................###..'',
      ''....###....................###..'', ''....###....................###..'', ''....###....................###..'',
      ''....###....................###..'', ''....###....................###..'', ''.....###..................###...'',
      ''.....###..................###...'', ''......###................###....'', ''.......###..............###.....'',
      ''........###............###......'', ''.........###..........###.......'', ''..........##############........'',
      ''...........############.........'', ''.............########...........'', ''................................'',
      ''................................'', ''................................'']"

definition icon_REBOOT :: "string list" where
  "icon_REBOOT =
     [''................................'', ''................................'', ''.............######.............'',
      ''...........##########...........'', ''..........############..........'', ''.........###........###.........'',
      ''........###..........###........'', ''.......###............###.......'', ''......###..............###......'',
      ''.....###................###.....'', ''.#########..............###.....'', ''..#######................###....'',
      ''...#####.................###....'', ''................................'', ''................................'',
      ''................................'', ''................................'', ''....###.................#####...'',
      ''....###................#######..'', ''....###...............#########.'', ''.....###................####....'',
      ''.....###................###.....'', ''......###..............###......'', ''.......###............###.......'',
      ''........###..........###........'', ''.........###........###.........'', ''..........###......###..........'',
      ''...........##########...........'', ''.............######.............'', ''................................'',
      ''................................'', ''................................'']"

definition icon_ENTER :: "string list" where
  "icon_ENTER =
     [''.................###########....'', ''..................#########.....'', ''...................#######......'',
      ''...................#######......'', ''...................#######......'', ''...................#######......'',
      ''...................#######......'', ''...................#######......'', ''...................#######......'',
      ''...................#######......'', ''...................#######......'', ''...................#######......'',
      ''...................#######......'', ''......#............#######......'', ''.....###...........#######......'',
      ''....#####..........#######......'', ''...#######.........#######......'', ''..#########........#######......'',
      ''.###########.......#######......'', ''#############......#######......'', ''....#####..........#######......'',
      ''....#####..........#######......'', ''....#####.........########......'', ''.....#####.......#######........'',
      ''......#################.........'', ''.......###############..........'', ''........############............'',
      ''................................'', ''................................'', ''................................'',
      ''................................'', replicate 32 (CHR 0x00)]"

end
