(* ===== verification/Desktop_Model.thy ===== *)
theory Desktop_Model
  imports Gui_Text_Model Icons "HOL-Library.Signed_Division"
begin

text \<open>
  The buttons of \<^verbatim>\<open>gui/button.c\<close> and the pointer part of the frame loop in \<^verbatim>\<open>gui/graphics_init.c\<close>: the cursor, the pointer modes,
  clicks outside the start menu and the box placed with the right button.  Coordinates of type
  \<^verbatim>\<open>int\<close> are integers; they become 32-bit words where the code passes them to the drawing layer.  A callback
  is a value; a drawing call returns the callbacks it has called.
\<close>

unbundle bit_operations_syntax

section \<open>Buttons\<close>

record 'cb button =
  btn_icon :: "string list option"
  btn_x :: int
  btn_y :: int
  btn_w :: int
  btn_h :: int
  btn_pressed :: bool
  btn_cb :: "'cb option"
  btn_rgba :: u32

record 'cb ui =
  ui_gop :: "gop option"
  g_cursor_x :: int
  g_cursor_y :: int
  g_buttons :: u8
  g_btn :: "'cb button"

definition button_init :: "gop option \<Rightarrow> 'cb ui \<Rightarrow> 'cb ui" where
  "button_init gop u =
     u\<lparr>ui_gop := gop,
       g_btn := (g_btn u)\<lparr>btn_x := 40, btn_y := 40, btn_w := int ICON_SIZE + 8, btn_h := int ICON_SIZE + 8,
                         btn_pressed := False, btn_icon := None, btn_cb := None\<rparr>\<rparr>"

definition button_update_cursor :: "int \<Rightarrow> int \<Rightarrow> u8 \<Rightarrow> 'cb ui \<Rightarrow> 'cb ui" where
  "button_update_cursor cursor_x cursor_y buttons u = u\<lparr>g_cursor_x := cursor_x, g_cursor_y := cursor_y, g_buttons := buttons\<rparr>"

abbreviation (input) word32 :: "int \<Rightarrow> u32" where "word32 i \<equiv> word_of_int i"

text \<open>The background and the four border lines.\<close>

definition draw_frame :: "gop option \<Rightarrow> 'cb button \<Rightarrow> u32 \<Rightarrow> u32 \<Rightarrow> gui \<Rightarrow> gui option" where
  "draw_frame gop b bg border st =
     Option.bind (draw_box gop (word32 (btn_x b)) (word32 (btn_y b)) (word32 (btn_w b)) (word32 (btn_h b)) bg st) (\<lambda>st.
     Option.bind (draw_box gop (word32 (btn_x b)) (word32 (btn_y b)) 1 (word32 (btn_h b)) border st) (\<lambda>st.
     Option.bind (draw_box gop (word32 (btn_x b + btn_w b - 1)) (word32 (btn_y b)) 1 (word32 (btn_h b)) border st) (\<lambda>st.
     Option.bind (draw_box gop (word32 (btn_x b)) (word32 (btn_y b)) (word32 (btn_w b)) 1 border st) (\<lambda>st.
     draw_box gop (word32 (btn_x b)) (word32 (btn_y b + btn_h b - 1)) (word32 (btn_w b)) 1 border st))))"

definition hit :: "int \<Rightarrow> int \<Rightarrow> int \<Rightarrow> int \<Rightarrow> int \<Rightarrow> int \<Rightarrow> bool" where
  "hit cx cy x y w h \<longleftrightarrow> cx \<ge> x \<and> cx < x + w \<and> cy \<ge> y \<and> cy < y + h"

text \<open>The hit test at the end of both drawing calls: whether the cursor is inside, the callbacks called, the state.\<close>

definition press_button :: "'cb ui \<Rightarrow> bool \<times> 'cb list \<times> 'cb ui" where
  "press_button u =
     (let b = g_btn u;
          inside = hit (g_cursor_x u) (g_cursor_y u) (btn_x b) (btn_y b) (btn_w b) (btn_h b);
          left = (g_buttons u AND 1 \<noteq> 0);
          fires = (inside \<and> left \<and> \<not> btn_pressed b);
          pressed = (if left then fires \<or> btn_pressed b else False) in
      (inside, if fires then (case btn_cb b of None \<Rightarrow> [] | Some cb \<Rightarrow> [cb]) else [], u\<lparr>g_btn := b\<lparr>btn_pressed := pressed\<rparr>\<rparr>))"

definition drawButton :: "string list option \<Rightarrow> 'cb option \<Rightarrow> int \<Rightarrow> int \<Rightarrow> 'cb ui \<Rightarrow> gui \<Rightarrow> ((bool \<times> 'cb list \<times> 'cb ui) \<times> gui) option" where
  "drawButton icon cb x y u st =
     (case ui_gop u of
        None \<Rightarrow> Some ((False, [], u), st)
      | Some g \<Rightarrow>
          let b = (g_btn u)\<lparr>btn_icon := icon, btn_cb := cb, btn_x := x, btn_y := y\<rparr>;
              bg = pack_pixel (PixelFormat g) 0xDD 0xDD 0xDD;
              border = pack_pixel (PixelFormat g) 0x88 0x88 0x88;
              ix = btn_x b + (btn_w b - int ICON_SIZE) sdiv 2;
              iy = btn_y b + (btn_h b - int ICON_SIZE) sdiv 2 in
          Option.bind (draw_frame (Some g) b bg border st) (\<lambda>st.
          Option.bind (draw_icon (Some g) icon (word32 ix) (word32 iy) EFI_BLACK st) (\<lambda>st.
          Some (press_button (u\<lparr>g_btn := b\<rparr>), st))))"

definition drawButtonBox :: "'cb option \<Rightarrow> int \<Rightarrow> int \<Rightarrow> int \<Rightarrow> int \<Rightarrow> u32 \<Rightarrow> 'cb ui \<Rightarrow> gui \<Rightarrow> ((bool \<times> 'cb list \<times> 'cb ui) \<times> gui) option" where
  "drawButtonBox cb x y w h rgba u st =
     (case ui_gop u of
        None \<Rightarrow> Some ((False, [], u), st)
      | Some g \<Rightarrow>
          let b = (g_btn u)\<lparr>btn_cb := cb, btn_x := x, btn_y := y, btn_w := w, btn_h := h, btn_rgba := rgba\<rparr>;
              border = pack_pixel (PixelFormat g) 0x88 0x88 0x88 in
          Option.bind (draw_frame (Some g) b rgba border st) (\<lambda>st. Some (press_button (u\<lparr>g_btn := b\<rparr>), st)))"

section \<open>Rounded boxes\<close>

text \<open>Whether the corner tests skip a pixel; the distances are \<^verbatim>\<open>int\<close>s.\<close>

definition in_corner :: "u32 \<Rightarrow> u32 \<Rightarrow> u32 \<Rightarrow> bool" where
  "in_corner dx dy r \<longleftrightarrow> sint dx * sint dx + sint dy * sint dy > sint r * sint r"

definition round_skip :: "u32 \<Rightarrow> u32 \<Rightarrow> u32 \<Rightarrow> u32 \<Rightarrow> u32 \<Rightarrow> u32 \<Rightarrow> u32 \<Rightarrow> bool" where
  "round_skip x0 y0 x1 y1 r x y \<longleftrightarrow>
     (x < x0 + r \<and> y < y0 + r \<and> in_corner ((x0 + r) - x) ((y0 + r) - y) r) \<or>
     (x \<ge> x1 - r \<and> y < y0 + r \<and> in_corner (x - (x1 - r)) ((y0 + r) - y) r) \<or>
     (x < x0 + r \<and> y \<ge> y1 - r \<and> in_corner ((x0 + r) - x) (y - (y1 - r)) r) \<or>
     (x \<ge> x1 - r \<and> y \<ge> y1 - r \<and> in_corner (x - (x1 - r)) (y - (y1 - r)) r)"

fun round_cells :: "gop \<Rightarrow> u32 \<Rightarrow> u32 \<Rightarrow> u32 \<Rightarrow> u32 \<Rightarrow> u32 \<Rightarrow> u32 \<Rightarrow> (nat \<times> nat) list \<Rightarrow> gui \<Rightarrow> gui option" where
  "round_cells g x0 y0 x1 y1 r color [] st = Some st"
| "round_cells g x0 y0 x1 y1 r color ((x, y) # cells) st =
     (if round_skip x0 y0 x1 y1 r (of_nat x) (of_nat y) then round_cells g x0 y0 x1 y1 r color cells st
      else
        case put_pixel (Some g) (of_nat x) (of_nat y) color st of
          None \<Rightarrow> None
        | Some st1 \<Rightarrow> round_cells g x0 y0 x1 y1 r color cells st1)"

definition draw_round_box :: "gop option \<Rightarrow> u32 \<Rightarrow> u32 \<Rightarrow> u32 \<Rightarrow> u32 \<Rightarrow> u32 \<Rightarrow> u32 \<Rightarrow> gui \<Rightarrow> gui option" where
  "draw_round_box gop x0 y0 w h r color st =
     (case gop of
        None \<Rightarrow> Some st
      | Some g \<Rightarrow>
          let sx = HorizontalResolution g; sy = VerticalResolution g in
          if x0 \<ge> sx \<or> y0 \<ge> sy then Some st
          else
            let x1 = (if x0 + w > sx then sx else x0 + w);
                y1 = (if y0 + h > sy then sy else y0 + h) in
            round_cells g x0 y0 x1 y1 r color [(x, y). y \<leftarrow> [unat y0..<unat y1], x \<leftarrow> [unat x0..<unat x1]] st)"

section \<open>The pointer\<close>

record desktop =
  cursor_x :: int
  cursor_y :: int
  cursor_initialized :: bool
  absolute_mode :: bool
  sat_count :: int
  saw_x_sat :: bool
  saw_y_sat :: bool
  cursor_hidden :: bool
  prev_buttons :: u8
  g_button_toggled :: bool
  menu_cache_valid :: bool
  g_light_theme :: bool
  g_left_box_active :: bool
  g_left_box_x :: int
  g_left_box_y :: int
  g_left_box_rgba :: u32

definition start_menu :: "desktop \<Rightarrow> desktop" where
  "start_menu d = d\<lparr>g_button_toggled := \<not> g_button_toggled d, menu_cache_valid := False\<rparr>"

definition SecondMenuThing :: "desktop \<Rightarrow> desktop" where
  "SecondMenuThing d = (if g_button_toggled d then d\<lparr>g_button_toggled := False\<rparr> else d)"

text \<open>What the two pointer drivers report: whether there was a report, two numbers and the buttons.\<close>

type_synonym report = "bool \<times> int \<times> int \<times> u8"

definition clamp32 :: "int \<Rightarrow> int" where
  "clamp32 v = (let v = (if v > 32 then 32 else v) in if v < -32 then -32 else v)"

definition saturated :: "int \<Rightarrow> bool" where
  "saturated v \<longleftrightarrow> v = 127 \<or> v = -128"

text \<open>Three saturated reports in a row, with both axes seen saturated, switch to absolute mode.\<close>

definition note_saturation :: "int \<Rightarrow> int \<Rightarrow> desktop \<Rightarrow> desktop" where
  "note_saturation raw_dx raw_dy d =
     (let d = (if saturated raw_dx then d\<lparr>saw_x_sat := True\<rparr> else d);
          d = (if saturated raw_dy then d\<lparr>saw_y_sat := True\<rparr> else d);
          d = (if saturated raw_dx \<or> saturated raw_dy then d\<lparr>sat_count := sat_count d + 1\<rparr>
               else d\<lparr>sat_count := 0, saw_x_sat := False, saw_y_sat := False\<rparr>) in
      if sat_count d \<ge> 3 \<and> saw_x_sat d \<and> saw_y_sat d then d\<lparr>absolute_mode := True\<rparr> else d)"

definition keep_inside :: "int \<Rightarrow> int \<Rightarrow> desktop \<Rightarrow> desktop" where
  "keep_inside screen_w screen_h d =
     (let d = (if cursor_x d < 0 then d\<lparr>cursor_x := 0\<rparr> else d);
          d = (if cursor_x d \<ge> screen_w then d\<lparr>cursor_x := screen_w - 1\<rparr> else d);
          d = (if cursor_y d < 0 then d\<lparr>cursor_y := 0\<rparr> else d) in
      if cursor_y d \<ge> screen_h then d\<lparr>cursor_y := screen_h - 1\<rparr> else d)"

definition center_cursor :: "int \<Rightarrow> int \<Rightarrow> desktop \<Rightarrow> desktop" where
  "center_cursor screen_w screen_h d =
     (if cursor_initialized d then d
      else d\<lparr>cursor_x := screen_w sdiv 2, cursor_y := screen_h sdiv 2, cursor_initialized := True\<rparr>)"

text \<open>Polling and motion: \<open>rel\<close> is the report of \<^verbatim>\<open>usb_touchpad_poll\<close>, \<open>pos\<close> that of \<^verbatim>\<open>touchpad_poll_absolute\<close> after the casts to \<^verbatim>\<open>int\<close>.\<close>

definition poll_pointer :: "int \<Rightarrow> int \<Rightarrow> report \<Rightarrow> report \<Rightarrow> desktop \<Rightarrow> bool \<times> u8 \<times> desktop" where
  "poll_pointer screen_w screen_h rel pos d =
     (if \<not> absolute_mode d then
        (case rel of
           (got, raw_dx, raw_dy, buttons) \<Rightarrow>
             if got then
               let d1 = note_saturation raw_dx raw_dy d in
               if \<not> absolute_mode d1 then
                 (got, buttons,
                  keep_inside screen_w screen_h
                    (d1\<lparr>cursor_x := cursor_x d1 + clamp32 raw_dx, cursor_y := cursor_y d1 - clamp32 raw_dy\<rparr>))
               else (got, buttons, d1)
             else (got, buttons, d))
      else
        (case pos of
           (got, absx, absy, buttons) \<Rightarrow>
             (got, buttons, if got then keep_inside screen_w screen_h (d\<lparr>cursor_x := absx, cursor_y := absy\<rparr>) else d)))"

definition clamp_icon :: "int \<Rightarrow> int \<Rightarrow> desktop \<Rightarrow> desktop" where
  "clamp_icon screen_w screen_h d =
     (let d = (if cursor_x d < 0 then d\<lparr>cursor_x := 0\<rparr> else d);
          d = (if cursor_y d < 0 then d\<lparr>cursor_y := 0\<rparr> else d);
          d = (if cursor_x d > screen_w - int ICON_SIZE then d\<lparr>cursor_x := screen_w - int ICON_SIZE\<rparr> else d) in
      if cursor_y d > screen_h - int ICON_SIZE then d\<lparr>cursor_y := screen_h - int ICON_SIZE\<rparr> else d)"

text \<open>The first opaque pixel of an icon in row order, as column and row; the upper left corner if there is none.\<close>

definition first_pixel :: "string list \<Rightarrow> int \<times> int" where
  "first_pixel icon =
     (case List.find (\<lambda>(xx, yy). icon ! yy ! xx \<noteq> CHR ''.'') [(xx, yy). yy \<leftarrow> [0..<ICON_SIZE], xx \<leftarrow> [0..<ICON_SIZE]] of
        None \<Rightarrow> (0, 0)
      | Some (xx, yy) \<Rightarrow> (int xx, int yy))"

definition menu_top :: "int \<Rightarrow> int" where
  "menu_top screen_h = (let y = screen_h - (int ICON_SIZE + 8) - 400 in if y < 8 then 8 else y)"

definition handle_clicks :: "int \<Rightarrow> u8 \<Rightarrow> desktop \<Rightarrow> desktop" where
  "handle_clicks screen_h buttons d =
     (let new_press = buttons AND NOT (prev_buttons d);
          in_box = (\<lambda>d. hit (cursor_x d) (cursor_y d) (g_left_box_x d) (g_left_box_y d) (int ICON_SIZE) (int ICON_SIZE));
          inside_menu = hit (cursor_x d) (cursor_y d) 8 (menu_top screen_h) 320 400;
          inside_start_btn = hit (cursor_x d) (cursor_y d) 8 (screen_h - (int ICON_SIZE + 8)) (int ICON_SIZE + 8) (int ICON_SIZE + 8);
          d1 = (if new_press AND 0x3 \<noteq> 0 then
                  let d0 = (if g_button_toggled d \<and> \<not> (inside_menu \<or> inside_start_btn)
                            then d\<lparr>g_button_toggled := False, menu_cache_valid := False\<rparr> else d) in
                  if g_left_box_active d0 \<and> \<not> in_box d0 then d0\<lparr>g_left_box_active := False\<rparr> else d0
                else d);
          d2 = (if new_press AND 0x2 \<noteq> 0 then
                  (if \<not> g_left_box_active d1 then
                     (case first_pixel icon_CURSOR of
                        (dx0, dy0) \<Rightarrow>
                          d1\<lparr>g_left_box_x := cursor_x d1 + dx0, g_left_box_y := cursor_y d1 + dy0,
                             g_left_box_rgba := (if g_light_theme d1 then 0x0000FF88 else 0xFF000088), g_left_box_active := True\<rparr>)
                   else if in_box d1 then d1\<lparr>g_left_box_active := False\<rparr> else d1)
                else d1) in
      d2\<lparr>prev_buttons := buttons\<rparr>)"

text \<open>The end of a frame; \<open>key\<close> tells whether \<^verbatim>\<open>keyboard_get_scancode_and_clear\<close> had a scan code.\<close>

definition finish_frame :: "gop \<Rightarrow> bool \<Rightarrow> u8 \<Rightarrow> bool \<Rightarrow> desktop \<times> 'cb ui \<times> gui \<Rightarrow> (desktop \<times> 'cb ui \<times> gui) option" where
  "finish_frame g got buttons key s =
     (case s of
        (d, u, st) \<Rightarrow>
          let screen_w = sint (HorizontalResolution g); screen_h = sint (VerticalResolution g);
              d1 = (if key then d\<lparr>cursor_hidden := True\<rparr> else d) in
          if cursor_hidden d1 \<and> \<not> got then Some (d1, u, st)
          else
            let d2 = clamp_icon screen_w screen_h (d1\<lparr>cursor_hidden := False\<rparr>) in
            case draw_icon (Some g) (Some icon_CURSOR) (word32 (cursor_x d2)) (word32 (cursor_y d2)) EFI_BLACK st of
              None \<Rightarrow> None
            | Some st1 \<Rightarrow>
                Some (handle_clicks screen_h buttons d2, button_update_cursor (cursor_x d2) (cursor_y d2) buttons u, st1))"

end
