(* ===== verification/Desktop.thy ===== *)
theory Desktop
  imports Gui_Text Desktop_Model
begin

text \<open>
  Correctness of buttons and pointer: a press of the mouse button fires at most one callback however many
  frames it lasts, the cursor never leaves the screen, and drawing it never leaves the pixel arrays.
\<close>

unbundle bit_operations_syntax

section \<open>Buttons\<close>

lemma unat_word32: "0 \<le> i \<Longrightarrow> i < 2 ^ 32 \<Longrightarrow> unat (word32 i) = nat i"
  by (simp add: unsigned_of_int take_bit_int_eq_self)

definition frame_fits :: "'cb button \<Rightarrow> bool" where
  "frame_fits b \<longleftrightarrow> 0 \<le> btn_x b \<and> 0 \<le> btn_y b \<and> 1 \<le> btn_w b \<and> 1 \<le> btn_h b \<and> btn_x b + btn_w b < 2 ^ 31 \<and> btn_y b + btn_h b < 2 ^ 31"

lemma draw_box_step:
  assumes "screen_ok g st" "box_fits x y w h"
  obtains st' where "draw_box (Some g) x y w h c st = Some st'" "screen_ok g st'" "target g st' = target g st"
  using draw_box_painted[OF assms, of c] by (auto simp: painted_def)

lemma draw_frame_returns:
  assumes ok: "screen_ok g st" and fits: "frame_fits b"
  shows "\<exists>st'. draw_frame (Some g) b bg border st = Some st' \<and> screen_ok g st' \<and> target g st' = target g st"
proof -
  let ?x = "word32 (btn_x b)" and ?y = "word32 (btn_y b)" and ?w = "word32 (btn_w b)" and ?h = "word32 (btn_h b)"
  have u: "unat ?x = nat (btn_x b)" "unat ?y = nat (btn_y b)" "unat ?w = nat (btn_w b)" "unat ?h = nat (btn_h b)"
    "unat (word32 (btn_x b + btn_w b - 1)) = nat (btn_x b + btn_w b - 1)" "unat (word32 (btn_y b + btn_h b - 1)) = nat (btn_y b + btn_h b - 1)"
    by (rule unat_word32; use fits in \<open>simp add: frame_fits_def\<close>)+
  have f: "box_fits ?x ?y ?w ?h" "box_fits ?x ?y 1 ?h" "box_fits (word32 (btn_x b + btn_w b - 1)) ?y 1 ?h" "box_fits ?x ?y ?w 1"
    "box_fits ?x (word32 (btn_y b + btn_h b - 1)) ?w 1"
    using fits unfolding box_fits_def u frame_fits_def by auto
  obtain s1 where 1: "draw_box (Some g) ?x ?y ?w ?h bg st = Some s1" "screen_ok g s1" "target g s1 = target g st"
    using draw_box_step[OF ok f(1), of bg] by metis
  obtain s2 where 2: "draw_box (Some g) ?x ?y 1 ?h border s1 = Some s2" "screen_ok g s2" "target g s2 = target g s1"
    using draw_box_step[OF 1(2) f(2), of border] by metis
  obtain s3 where 3: "draw_box (Some g) (word32 (btn_x b + btn_w b - 1)) ?y 1 ?h border s2 = Some s3" "screen_ok g s3" "target g s3 = target g s2"
    using draw_box_step[OF 2(2) f(3), of border] by metis
  obtain s4 where 4: "draw_box (Some g) ?x ?y ?w 1 border s3 = Some s4" "screen_ok g s4" "target g s4 = target g s3"
    using draw_box_step[OF 3(2) f(4), of border] by metis
  obtain s5 where 5: "draw_box (Some g) ?x (word32 (btn_y b + btn_h b - 1)) ?w 1 border s4 = Some s5" "screen_ok g s5" "target g s5 = target g s4"
    using draw_box_step[OF 4(2) f(5), of border] by metis
  show ?thesis using 1 2 3 4 5 by (simp add: draw_frame_def)
qed

text \<open>An icon button that lies on the screen.\<close>

definition button_at :: "gop \<Rightarrow> string list \<Rightarrow> int \<Rightarrow> int \<Rightarrow> bool" where
  "button_at g icon x y \<longleftrightarrow> icon_wf icon \<and> 0 \<le> x \<and> 0 \<le> y \<and> x + 40 \<le> uint (HorizontalResolution g) \<and> x + 40 < 2 ^ 31 \<and> y + 40 < 2 ^ 31"

definition icon_sized :: "gop \<Rightarrow> 'cb ui \<Rightarrow> bool" where
  "icon_sized g u \<longleftrightarrow> ui_gop u = Some g \<and> btn_w (g_btn u) = 40 \<and> btn_h (g_btn u) = 40"

lemma drawButton_returns:
  assumes ok: "screen_ok g st" and u: "icon_sized g u" and at: "button_at g icon x y"
  shows "\<exists>st'. drawButton (Some icon) cb x y u st =
      Some (press_button (u\<lparr>g_btn := (g_btn u)\<lparr>btn_icon := Some icon, btn_cb := cb, btn_x := x, btn_y := y\<rparr>\<rparr>), st') \<and> screen_ok g st'"
proof -
  let ?b = "(g_btn u)\<lparr>btn_icon := Some icon, btn_cb := cb, btn_x := x, btn_y := y\<rparr>"
  have "frame_fits ?b" using u at by (simp add: frame_fits_def icon_sized_def button_at_def)
  from draw_frame_returns[OF ok this]
  obtain s1 where s1: "draw_frame (Some g) ?b (pack_pixel (PixelFormat g) 0xDD 0xDD 0xDD) (pack_pixel (PixelFormat g) 0x88 0x88 0x88) st = Some s1"
    "screen_ok g s1" by blast
  have four: "(40 - 32 :: int) sdiv 2 = 4" by (simp add: signed_divide_int_def)
  have ux: "unat (word32 (x + 4)) = nat (x + 4)" "unat (word32 (y + 4)) = nat (y + 4)"
    by (rule unat_word32; use at in \<open>simp add: button_at_def\<close>)+
  have le: "nat (x + 4) + 32 \<le> unat (HorizontalResolution g)" using at unfolding button_at_def unat_eq_nat_uint by linarith
  have le2: "nat (y + 4) + 32 < 2 ^ 32" using at unfolding button_at_def by (simp, linarith)
  have wf: "icon_wf icon" using at by (simp add: button_at_def)
  have "\<exists>s2. draw_icon (Some g) (Some icon) (word32 (x + 4)) (word32 (y + 4)) EFI_BLACK s1 = Some s2 \<and> screen_ok g s2"
    using draw_icon_drawn[OF s1(2) wf, of "word32 (x + 4)" "word32 (y + 4)" EFI_BLACK] le le2 unfolding ux by blast
  with s1(1) u four show ?thesis by (auto simp: drawButton_def icon_sized_def Let_def)
qed

text \<open>A run of the button interface: draw calls and cursor updates, with the callbacks called.\<close>

datatype 'cb button_call = Draw "string list" "'cb option" int int | Cursor int int u8

fun run_calls :: "'cb button_call list \<Rightarrow> 'cb ui \<Rightarrow> gui \<Rightarrow> ('cb list \<times> 'cb ui \<times> gui) option" where
  "run_calls [] u st = Some ([], u, st)"
| "run_calls (Draw icon cb x y # cs) u st =
     (case drawButton (Some icon) cb x y u st of
        None \<Rightarrow> None
      | Some ((inside, fired, u1), st1) \<Rightarrow> map_option (\<lambda>(fs, r). (fired @ fs, r)) (run_calls cs u1 st1))"
| "run_calls (Cursor x y b # cs) u st = run_calls cs (button_update_cursor x y b u) st"

fun held :: "gop \<Rightarrow> 'cb button_call \<Rightarrow> bool" where
  "held g (Draw icon cb x y) \<longleftrightarrow> button_at g icon x y"
| "held g (Cursor x y b) \<longleftrightarrow> b AND 1 \<noteq> 0"

lemma press_held_form:
  assumes "g_buttons u AND 1 \<noteq> 0" "press_button u = (inside, fired, u')"
  obtains fires where "fires \<longrightarrow> \<not> btn_pressed (g_btn u)" "fired = (if fires then case_option [] (\<lambda>cb. [cb]) (btn_cb (g_btn u)) else [])"
    "u' = u\<lparr>g_btn := (g_btn u)\<lparr>btn_pressed := fires \<or> btn_pressed (g_btn u)\<rparr>\<rparr>"
proof
  let ?fires = "hit (g_cursor_x u) (g_cursor_y u) (btn_x (g_btn u)) (btn_y (g_btn u)) (btn_w (g_btn u)) (btn_h (g_btn u)) \<and> \<not> btn_pressed (g_btn u)"
  show "?fires \<longrightarrow> \<not> btn_pressed (g_btn u)" by simp
  have l: "(g_buttons u AND 1 \<noteq> 0) = True" using assms(1) by blast
  show "fired = (if ?fires then case_option [] (\<lambda>cb. [cb]) (btn_cb (g_btn u)) else [])"
    "u' = u\<lparr>g_btn := (g_btn u)\<lparr>btn_pressed := ?fires \<or> btn_pressed (g_btn u)\<rparr>\<rparr>"
    using assms(2) unfolding press_button_def Let_def l if_True prod.inject simp_thms by blast+
qed

lemma press_held:
  assumes "g_buttons u AND 1 \<noteq> 0" "press_button u = (inside, fired, u')"
  shows "length fired \<le> (if btn_pressed (g_btn u) then 0 else 1)" "g_buttons u' = g_buttons u"
    "btn_pressed (g_btn u) \<Longrightarrow> btn_pressed (g_btn u')" "fired \<noteq> [] \<Longrightarrow> btn_pressed (g_btn u')"
    "icon_sized g u' = icon_sized g u"
proof -
  from assms obtain fires where f: "fires \<longrightarrow> \<not> btn_pressed (g_btn u)" "fired = (if fires then case_option [] (\<lambda>cb. [cb]) (btn_cb (g_btn u)) else [])"
    "u' = u\<lparr>g_btn := (g_btn u)\<lparr>btn_pressed := fires \<or> btn_pressed (g_btn u)\<rparr>\<rparr>" by (rule press_held_form)
  show "length fired \<le> (if btn_pressed (g_btn u) then 0 else 1)" using f(1,2) by (cases "btn_cb (g_btn u)") auto
  show "fired \<noteq> [] \<Longrightarrow> btn_pressed (g_btn u')" using f(2,3) by (cases fires) simp_all
  show "g_buttons u' = g_buttons u" "btn_pressed (g_btn u) \<Longrightarrow> btn_pressed (g_btn u')" "icon_sized g u' = icon_sized g u"
    using f(3) by (simp_all add: icon_sized_def)
qed

text \<open>
  C20 (safety).  While the left button is held, a run of buttons fires at most one callback, and none at all if the press has
  already fired; every call returns.  The buttons are icon buttons on the screen, in any number and order,
  and the cursor may move between them.
\<close>

theorem held_press_fires_once:
  assumes "screen_ok g st" "icon_sized g u" "g_buttons u AND 1 \<noteq> 0" "list_all (held g) cs"
  shows "\<exists>fired u' st'. run_calls cs u st = Some (fired, u', st') \<and> length fired \<le> (if btn_pressed (g_btn u) then 0 else 1)"
  using assms
proof (induction cs arbitrary: u st)
  case Nil
  then show ?case by simp
next
  case (Cons c cs)
  show ?case
  proof (cases c)
    case (Cursor x y b)
    have "icon_sized g (button_update_cursor x y b u)" "g_buttons (button_update_cursor x y b u) = b" "g_btn (button_update_cursor x y b u) = g_btn u"
      using Cons.prems(2) by (simp_all add: icon_sized_def button_update_cursor_def)
    then show ?thesis using Cons.IH[of st "button_update_cursor x y b u"] Cons.prems Cursor by simp
  next
    case (Draw icon cb x y)
    let ?u = "u\<lparr>g_btn := (g_btn u)\<lparr>btn_icon := Some icon, btn_cb := cb, btn_x := x, btn_y := y\<rparr>\<rparr>"
    obtain st1 where st1: "drawButton (Some icon) cb x y u st = Some (press_button ?u, st1)" "screen_ok g st1"
      using drawButton_returns[OF Cons.prems(1,2)] Cons.prems(4) Draw by fastforce
    obtain inside fired u1 where p: "press_button ?u = (inside, fired, u1)" by (cases "press_button ?u")
    have h: "g_buttons ?u AND 1 \<noteq> 0" "icon_sized g ?u" using Cons.prems(2,3) by (simp_all add: icon_sized_def)
    note f = press_held[OF h(1) p]
    obtain fs u' st' where r: "run_calls cs u1 st1 = Some (fs, u', st')" "length fs \<le> (if btn_pressed (g_btn u1) then 0 else 1)"
      using Cons.IH[OF st1(2), of u1] f(2,5) h Cons.prems(4) by auto
    have "length (fired @ fs) \<le> (if btn_pressed (g_btn u) then 0 else 1)"
      using f(1,3,4) r(2) by (cases "fired = []") (auto split: if_splits)
    with st1(1) p r(1) Draw show ?thesis by simp
  qed
qed

section \<open>The cursor\<close>

lemma cursor_icon: "icon_wf icon_CURSOR"
  by (simp add: icon_wf_def icon_CURSOR_def)

definition in_screen :: "gop \<Rightarrow> desktop \<Rightarrow> bool" where
  "in_screen g d \<longleftrightarrow> 0 \<le> cursor_x d \<and> cursor_x d < uint (HorizontalResolution g) \<and>
     0 \<le> cursor_y d \<and> cursor_y d < uint (VerticalResolution g)"

definition usual_screen :: "gop \<Rightarrow> bool" where
  "usual_screen g \<longleftrightarrow> 32 \<le> uint (HorizontalResolution g) \<and> uint (HorizontalResolution g) < 2 ^ 31 \<and>
     32 \<le> uint (VerticalResolution g) \<and> uint (VerticalResolution g) < 2 ^ 31"

lemma sint_small: "uint (w :: u32) < 2 ^ 31 \<Longrightarrow> sint w = uint w"
proof -
  assume a: "uint w < 2 ^ 31"
  then have "unat w < 2 ^ 31" unfolding unat_eq_nat_uint using nat_less_iff[OF uint_ge_0, of w "2 ^ 31"] by simp
  then have "\<not> bit w 31" using bit_small[of w 31 31] by auto
  then have "\<not> bit (uint w) 31" by (simp add: bit_uint_iff)
  with a show ?thesis by (simp add: sint_uint signed_take_bit_eq_if_positive take_bit_int_eq_self)
qed

lemma usual_screenD:
  assumes "usual_screen g"
  shows "sint (HorizontalResolution g) = uint (HorizontalResolution g)" "sint (VerticalResolution g) = uint (VerticalResolution g)"
    "32 \<le> uint (HorizontalResolution g)" "32 \<le> uint (VerticalResolution g)"
    "uint (HorizontalResolution g) < 2 ^ 31" "uint (VerticalResolution g) < 2 ^ 31"
  using assms sint_small unfolding usual_screen_def by blast+

lemma keep_inside_in: "0 < w \<Longrightarrow> 0 < h \<Longrightarrow> 0 \<le> cursor_x (keep_inside w h d) \<and> cursor_x (keep_inside w h d) < w \<and>
    0 \<le> cursor_y (keep_inside w h d) \<and> cursor_y (keep_inside w h d) < h"
  by (simp add: keep_inside_def Let_def)

lemma note_saturation_cursor [simp]:
  "cursor_x (note_saturation a b d) = cursor_x d" "cursor_y (note_saturation a b d) = cursor_y d"
  by (simp_all add: note_saturation_def Let_def)

lemma poll_pointer_in:
  assumes "usual_screen g" "in_screen g d" "poll_pointer (sint (HorizontalResolution g)) (sint (VerticalResolution g)) rel pos d = (got, buttons, d')"
  shows "in_screen g d'"
proof -
  let ?w = "uint (HorizontalResolution g)" and ?h = "uint (VerticalResolution g)"
  have s: "sint (HorizontalResolution g) = ?w" "sint (VerticalResolution g) = ?h" "0 < ?w" "0 < ?h"
    using usual_screenD[OF assms(1)] by linarith+
  have k: "in_screen g (keep_inside ?w ?h d1)" for d1 using keep_inside_in[OF s(3,4), of d1] by (simp add: in_screen_def)
  have n: "in_screen g (note_saturation a b d)" for a b using assms(2) by (simp add: in_screen_def)
  show ?thesis
    using assms(2,3) k n unfolding s(1,2) poll_pointer_def Let_def by (auto split: prod.splits if_splits)
qed

lemma center_cursor_in:
  assumes "usual_screen g" "cursor_initialized d \<Longrightarrow> in_screen g d"
  shows "in_screen g (center_cursor (sint (HorizontalResolution g)) (sint (VerticalResolution g)) d)"
proof -
  have "sint (HorizontalResolution g) = uint (HorizontalResolution g)" "sint (VerticalResolution g) = uint (VerticalResolution g)"
    by (fact usual_screenD[OF assms(1)])+
  then show ?thesis using assms usual_screenD(3,4)[OF assms(1)] by (auto simp: center_cursor_def in_screen_def signed_divide_int_def)
qed

lemma clamp_icon_in:
  "32 \<le> w \<Longrightarrow> 32 \<le> h \<Longrightarrow> 0 \<le> cursor_x (clamp_icon w h d) \<and> cursor_x (clamp_icon w h d) \<le> w - 32 \<and>
    0 \<le> cursor_y (clamp_icon w h d) \<and> cursor_y (clamp_icon w h d) \<le> h - 32"
  by (simp add: clamp_icon_def Let_def)

lemma handle_clicks_cursor [simp]:
  "cursor_x (handle_clicks h b d) = cursor_x d" "cursor_y (handle_clicks h b d) = cursor_y d"
  "cursor_initialized (handle_clicks h b d) = cursor_initialized d"
  by (simp_all add: handle_clicks_def Let_def split: prod.split)

lemma initialized_kept [simp]:
  "cursor_initialized (clamp_icon w h d) = cursor_initialized d"
  "cursor_initialized (keep_inside w h d) = cursor_initialized d"
  "cursor_initialized (note_saturation a b d) = cursor_initialized d"
  "cursor_initialized (center_cursor w h d)"
  by (simp_all add: clamp_icon_def keep_inside_def note_saturation_def center_cursor_def Let_def)

lemma poll_pointer_initialized:
  "poll_pointer w h rel pos d = (got, buttons, d') \<Longrightarrow> cursor_initialized d' = cursor_initialized d"
  by (auto simp: poll_pointer_def Let_def split: prod.splits if_splits)

lemma finish_frame_safe:
  assumes "usual_screen g" "screen_ok g st" "in_screen g d" "cursor_initialized d"
  shows "\<exists>d' u' st'. finish_frame g got buttons key (d, u, st) = Some (d', u', st') \<and> screen_ok g st' \<and> in_screen g d' \<and> cursor_initialized d' \<and>
    (\<not> cursor_hidden d' \<longrightarrow> cursor_x d' + 32 \<le> uint (HorizontalResolution g) \<and> cursor_y d' + 32 \<le> uint (VerticalResolution g))"
proof -
  let ?w = "uint (HorizontalResolution g)" and ?h = "uint (VerticalResolution g)"
  have s: "sint (HorizontalResolution g) = ?w" "sint (VerticalResolution g) = ?h" by (fact usual_screenD[OF assms(1)])+
  let ?d1 = "if key then d\<lparr>cursor_hidden := True\<rparr> else d"
  show ?thesis
  proof (cases "cursor_hidden ?d1 \<and> \<not> got")
    case True
    then have "finish_frame g got buttons key (d, u, st) = Some (?d1, u, st)" by (simp add: finish_frame_def Let_def)
    then show ?thesis using assms True by (auto simp: in_screen_def)
  next
    case False
    define d2 where "d2 = clamp_icon ?w ?h (?d1\<lparr>cursor_hidden := False\<rparr>)"
    have c: "0 \<le> cursor_x d2" "cursor_x d2 \<le> ?w - 32" "0 \<le> cursor_y d2" "cursor_y d2 \<le> ?h - 32"
      using clamp_icon_in[OF usual_screenD(3,4)[OF assms(1)]] by (simp_all add: d2_def)
    have ux: "unat (word32 (cursor_x d2)) = nat (cursor_x d2)" "unat (word32 (cursor_y d2)) = nat (cursor_y d2)"
      by (rule unat_word32; use c usual_screenD(5,6)[OF assms(1)] in simp)+
    have le: "unat (word32 (cursor_x d2)) + 32 \<le> unat (HorizontalResolution g)"
      unfolding ux unat_eq_nat_uint[of "HorizontalResolution g"] using c by linarith
    have "cursor_y d2 < 2 ^ 31" using c usual_screenD(6)[OF assms(1)] by linarith
    with c(3) have le2: "unat (word32 (cursor_y d2)) + 32 < 2 ^ 32" unfolding ux by simp
    obtain st1 where st1: "draw_icon (Some g) (Some icon_CURSOR) (word32 (cursor_x d2)) (word32 (cursor_y d2)) EFI_BLACK st = Some st1" "screen_ok g st1"
      using draw_icon_drawn[OF assms(2) cursor_icon le le2, of EFI_BLACK] by blast
    have "finish_frame g got buttons key (d, u, st) =
        Some (handle_clicks ?h buttons d2, button_update_cursor (cursor_x d2) (cursor_y d2) buttons u, st1)"
      unfolding finish_frame_def prod.case Let_def s if_not_P[OF False] d2_def[symmetric] st1(1) option.case by (rule refl)
    moreover have "in_screen g (handle_clicks ?h buttons d2)" using c by (simp add: in_screen_def)
    moreover have "cursor_initialized (handle_clicks ?h buttons d2)" using assms(4) by (simp add: d2_def)
    moreover have "cursor_x (handle_clicks ?h buttons d2) + 32 \<le> ?w" "cursor_y (handle_clicks ?h buttons d2) + 32 \<le> ?h" using c by simp_all
    ultimately show ?thesis using st1(2) by blast
  qed
qed

text \<open>
  What happens between the poll and the end of a frame: drawing calls, changes of the button state, and the
  callbacks of the menu button.
\<close>

inductive ui_calls :: "gop \<Rightarrow> desktop \<times> 'cb ui \<times> gui \<Rightarrow> desktop \<times> 'cb ui \<times> gui \<Rightarrow> bool" for g where
  none: "ui_calls g s s"
| draw: "ui_calls g s (d, u, st) \<Longrightarrow> drawn g F st st' \<Longrightarrow> ui_calls g s (d, u', st')"
| menu: "ui_calls g s (d, u, st) \<Longrightarrow> ui_calls g s (start_menu d, u, st)"
| second: "ui_calls g s (d, u, st) \<Longrightarrow> ui_calls g s (SecondMenuThing d, u, st)"

inductive desktop_run :: "gop \<Rightarrow> desktop \<times> 'cb ui \<times> gui \<Rightarrow> bool" for g where
  start: "screen_ok g st \<Longrightarrow> \<not> cursor_initialized d \<Longrightarrow> desktop_run g (d, u, st)"
| frame: "desktop_run g (d, u, st) \<Longrightarrow>
    poll_pointer (sint (HorizontalResolution g)) (sint (VerticalResolution g)) rel pos
      (center_cursor (sint (HorizontalResolution g)) (sint (VerticalResolution g)) d) = (got, buttons, d1) \<Longrightarrow>
    ui_calls g (d1, u, st) s2 \<Longrightarrow> finish_frame g got buttons key s2 = Some s3 \<Longrightarrow> desktop_run g s3"

inductive_cases ui_callsE: "ui_calls g s s'"

lemma ui_calls_keep:
  "ui_calls g s s' \<Longrightarrow> screen_ok g (snd (snd s)) \<Longrightarrow> in_screen g (fst s) \<Longrightarrow> cursor_initialized (fst s) \<Longrightarrow>
     screen_ok g (snd (snd s')) \<and> in_screen g (fst s') \<and> cursor_initialized (fst s')"
  by (induction rule: ui_calls.induct) (auto simp: drawn_def in_screen_def start_menu_def SecondMenuThing_def)

lemma desktop_run_inv:
  "desktop_run g s \<Longrightarrow> usual_screen g \<Longrightarrow> screen_ok g (snd (snd s)) \<and> (cursor_initialized (fst s) \<longrightarrow> in_screen g (fst s))"
proof (induction rule: desktop_run.induct)
  case (start st d u)
  then show ?case by simp
next
  case (frame d u st rel pos got buttons d1 s2 key s3)
  have "in_screen g d1" "cursor_initialized d1"
    using poll_pointer_in[OF frame.prems center_cursor_in[OF frame.prems] frame.hyps(2)] poll_pointer_initialized[OF frame.hyps(2)] frame.IH frame.prems
    by auto
  with ui_calls_keep[OF frame.hyps(3)] frame.IH frame.prems
  have k: "screen_ok g (snd (snd s2))" "in_screen g (fst s2)" "cursor_initialized (fst s2)" by auto
  obtain d2 u2 st2 where s2: "s2 = (d2, u2, st2)" by (cases s2)
  show ?case using finish_frame_safe[OF frame.prems, of st2 d2 got buttons key u2] k frame.hyps(4) unfolding s2 by auto
qed

text \<open>
  C15 (invariant).  In every frame of every run, whatever the pointer drivers report and whatever is drawn in between, the
  cursor is on the screen after the motion, the end of the frame returns (the cursor icon never leaves
  the pixel arrays), and the cursor icon is then entirely visible.
\<close>

theorem cursor_stays_on_screen:
  assumes "usual_screen g" "desktop_run g (d, u, st)"
    and "poll_pointer (sint (HorizontalResolution g)) (sint (VerticalResolution g)) rel pos
           (center_cursor (sint (HorizontalResolution g)) (sint (VerticalResolution g)) d) = (got, buttons, d1)"
    and "ui_calls g (d1, u, st) s2"
  shows "0 \<le> cursor_x d1 \<and> cursor_x d1 < uint (HorizontalResolution g) \<and>
    0 \<le> cursor_y d1 \<and> cursor_y d1 < uint (VerticalResolution g) \<and>
    (\<exists>d' u' st'. finish_frame g got buttons key s2 = Some (d', u', st') \<and> desktop_run g (d', u', st') \<and>
       (\<not> cursor_hidden d' \<longrightarrow> cursor_x d' + 32 \<le> uint (HorizontalResolution g) \<and> cursor_y d' + 32 \<le> uint (VerticalResolution g)))"
proof -
  have inv: "screen_ok g st" "cursor_initialized d \<Longrightarrow> in_screen g d" using desktop_run_inv[OF assms(2,1)] by auto
  have d1: "in_screen g d1" "cursor_initialized d1"
    using poll_pointer_in[OF assms(1) center_cursor_in[OF assms(1) inv(2)] assms(3)] poll_pointer_initialized[OF assms(3)] by auto
  obtain d2 u2 st2 where s2: "s2 = (d2, u2, st2)" by (cases s2)
  have "screen_ok g st2" "in_screen g d2" "cursor_initialized d2" using ui_calls_keep[OF assms(4)] inv(1) d1 s2 by auto
  from finish_frame_safe[OF assms(1) this] obtain d' u' st' where f: "finish_frame g got buttons key s2 = Some (d', u', st')"
    "(\<not> cursor_hidden d' \<longrightarrow> cursor_x d' + 32 \<le> uint (HorizontalResolution g) \<and> cursor_y d' + 32 \<le> uint (VerticalResolution g))" unfolding s2 by blast
  from desktop_run.frame[OF assms(2-4) f(1)] f d1(1) show ?thesis by (auto simp: in_screen_def)
qed

section \<open>Clicks\<close>

lemma two_bits: "(w :: u8) AND 1 \<noteq> 0 \<Longrightarrow> w AND 3 \<noteq> 0"
proof -
  assume a: "w AND 1 \<noteq> 0"
  have "w AND 1 = (w AND 3) AND 1" by (simp add: and.assoc)
  with a show ?thesis by auto
qed

text \<open>
  A new left click closes the open start menu exactly when it falls outside both the menu and the start
  button, and the box placed with the right button exactly when it falls outside the box; without a new press
  nothing changes but the remembered buttons.
\<close>

theorem left_click_closes:
  assumes "buttons AND 2 = 0"
  shows "(buttons AND NOT (prev_buttons d) AND 1 \<noteq> 0 \<longrightarrow>
      g_button_toggled (handle_clicks h buttons d) =
        (g_button_toggled d \<and> (hit (cursor_x d) (cursor_y d) 8 (menu_top h) 320 400 \<or> hit (cursor_x d) (cursor_y d) 8 (h - 40) 40 40)) \<and>
      g_left_box_active (handle_clicks h buttons d) =
        (g_left_box_active d \<and> hit (cursor_x d) (cursor_y d) (g_left_box_x d) (g_left_box_y d) 32 32)) \<and>
    (buttons AND NOT (prev_buttons d) AND 3 = 0 \<longrightarrow> handle_clicks h buttons d = d\<lparr>prev_buttons := buttons\<rparr>)"
proof -
  have no_right: "buttons AND NOT (prev_buttons d) AND 2 = 0"
  proof -
    have "buttons AND NOT (prev_buttons d) AND 2 = (buttons AND 2) AND NOT (prev_buttons d)" by (simp add: ac_simps)
    with assms show ?thesis by simp
  qed
  show ?thesis
    using no_right two_bits[of "buttons AND NOT (prev_buttons d)"] by (simp add: handle_clicks_def Let_def and.assoc) blast
qed

section \<open>Witnesses\<close>

definition desk0 :: desktop where
  "desk0 = \<lparr>cursor_x = 0, cursor_y = 0, cursor_initialized = False, absolute_mode = False, sat_count = 0, saw_x_sat = False,
     saw_y_sat = False, cursor_hidden = False, prev_buttons = 0, g_button_toggled = True, menu_cache_valid = False,
     g_light_theme = False, g_left_box_active = False, g_left_box_x = 0, g_left_box_y = 0, g_left_box_rgba = 0\<rparr>"

definition ui0 :: "nat ui" where
  "ui0 = button_init (Some vga) \<lparr>ui_gop = None, g_cursor_x = 10, g_cursor_y = 450, g_buttons = 1,
     g_btn = \<lparr>btn_icon = None, btn_x = 0, btn_y = 0, btn_w = 0, btn_h = 0, btn_pressed = False, btn_cb = None, btn_rgba = 0\<rparr>\<rparr>"

theorem held_press_fires_once_witness:
  "\<exists>fired u' st'. run_calls [Draw icon_CURSOR (Some 7) 8 440, Draw icon_CURSOR (Some 9) 8 430, Cursor 20 445 1, Draw icon_CURSOR (Some 7) 8 440] ui0 vga_start =
     Some (fired, u', st') \<and> length fired \<le> 1"
proof -
  have "icon_sized vga ui0" "g_buttons ui0 AND 1 \<noteq> 0" "\<not> btn_pressed (g_btn ui0)" by (simp_all add: icon_sized_def ui0_def button_init_def)
  moreover have "button_at vga icon_CURSOR 8 440" "button_at vga icon_CURSOR 8 430" using cursor_icon by (simp_all add: button_at_def vga_def)
  ultimately show ?thesis
    using held_press_fires_once[OF vga_ok(1), of ui0 "[Draw icon_CURSOR (Some 7) 8 440, Draw icon_CURSOR (Some 9) 8 430, Cursor 20 445 1, Draw icon_CURSOR (Some 7) 8 440]"]
    by simp
qed

theorem cursor_stays_on_screen_witness:
  "\<exists>d1 d' u' st'. poll_pointer 640 480 (True, 100, -100, 0) (False, 0, 0, 0) (center_cursor 640 480 desk0) = (True, 0, d1) \<and>
     cursor_x d1 = 352 \<and> finish_frame vga True 0 False (d1, ui0, vga_start) = Some (d', u', st')"
proof -
  have w: "sint (HorizontalResolution vga) = 640" "sint (VerticalResolution vga) = 480" by (simp_all add: vga_def)
  have u: "usual_screen vga" by (simp add: usual_screen_def vga_def)
  have r: "desktop_run vga (desk0, ui0, vga_start)" by (rule desktop_run.start[OF vga_ok(1)]) (simp add: desk0_def)
  obtain d1 where d1: "poll_pointer 640 480 (True, 100, -100, 0) (False, 0, 0, 0) (center_cursor 640 480 desk0) = (True, 0, d1)" "cursor_x d1 = 352"
    by (simp add: poll_pointer_def desk0_def center_cursor_def note_saturation_def saturated_def keep_inside_def clamp32_def signed_divide_int_def Let_def)
  from cursor_stays_on_screen[OF u r d1(1)[folded w] ui_calls.none, of False] d1 show ?thesis unfolding w by blast
qed

theorem left_click_closes_witness: "\<not> g_button_toggled (handle_clicks 480 1 (desk0\<lparr>cursor_x := 600, cursor_y := 100\<rparr>))"
  using left_click_closes[of 1 "desk0\<lparr>cursor_x := 600, cursor_y := 100\<rparr>" 480] by (simp add: desk0_def hit_def)

end
