(* ===== verification/Spec2Isabelle.thy ===== *)
theory Spec2Isabelle
  imports Scheduler_Correct Ps2_Correct Sata_Correct Usb_Target Fat32_Correct Fat32_Format Gpt Gpt_Create Exfat_Time Exfat_Utf Exfat_Limits Gui_Correct Desktop
begin

text \<open>
  \<^bold>\<open>A verification of the operating system in this repository.\<close>

  The program is a small UEFI operating system in C.  A storage stack (AHCI and USB mass-storage drivers
  behind \<^verbatim>\<open>drivers/block/block.c\<close>, with GPT, FAT32 and exFAT above it), an input stack (PS/2 controller, HID
  adapters), a drawing stack (\<^verbatim>\<open>gui/helpers.c\<close>, fonts, console, icons, buttons, the desktop loop) and a cooperative
  scheduler that runs the tasks of all of them.  There is one thread; interrupts are not used, so every
  component is a state and a set of functions on it, and interleaving is the order of calls.

  \<^bold>\<open>How code is translated.\<close>  A C function is a function from its arguments and the state it touches to its result and the new
  state.  Fixed-width integers are words and wrap as in C; \<^verbatim>\<open>int\<close> return codes are integers.  An outer \<open>option\<close> is
  \<open>None\<close> where the C code would read or write outside an array, stop in an assertion, or never return; so a
  theorem that concludes \<open>f x = Some r\<close> says that the call returns and stays inside its buffers.  Loops that
  may run forever are \<open>partial_function (option)\<close>; loops whose bound depends on device behaviour take fuel in the model of
  the device only.  Code outside the repository is a parameter: port and memory-mapped input and output
  (\<open>port_io\<close>, \<open>ps2_io\<close>, the host bus adapter), task bodies (\<open>call\<close>), the floating-point comparison of the
  scheduler's timers (\<open>fp\<close>), the time zone and the width of \<^verbatim>\<open>wchar_t\<close>.

  \<^bold>\<open>Theories.\<close>
  \<^item> \<open>Prelude\<close>, \<open>CMem\<close>: machine integers, little-endian fields, buffers; the memory and string loops the drivers define for themselves.
  \<^item> \<open>Block\<close>: \<^verbatim>\<open>block.c\<close>.  The locale \<open>block_device\<close> is the contract all file systems use; \<open>storage_backends\<close> is what the two drivers
    owe it, and a sublocale shows that the dispatch code turns one into the other.
  \<^item> \<open>Mass_Storage\<close>, \<open>Usb_Host\<close>, \<open>Usb_Target\<close>: \<^verbatim>\<open>mass_storage.c\<close> and \<^verbatim>\<open>usb_host_xhci.c\<close>, the contract \<open>bulk_only_target\<close> between them, the search for
    the last sector.
  \<^item> \<open>Pci\<close>: \<^verbatim>\<open>pci.c\<close> and \<^verbatim>\<open>pcie.c\<close>; enumeration and the capability walk.
  \<^item> \<open>Sata_Model\<close>, \<open>Sata\<close>, \<open>Sata_Correct\<close>: \<^verbatim>\<open>sata.c\<close>; on every host bus adapter that conforms to \<open>ahci_conforms\<close> the driver is a storage
    backend, with a reference adapter for which this is shown.  \<open>ahci_rejects\<close> adds what an adapter does with a read beyond its disk;
    on such an adapter the size probe of \<^verbatim>\<open>usb_host_xhci.c\<close> finds the last sector through this driver.
  \<^item> \<open>Fat32_Model\<close>, \<open>Fat32_Table\<close>, \<open>Fat32_Dirs\<close>, \<open>Fat32_Files\<close>, \<open>Fat32_Ops\<close>, \<open>Fat32_Correct\<close>, \<open>Fat32_Format\<close>: \<^verbatim>\<open>fat32.c\<close>.  The allocation table is a map, a chain a
    list of clusters, a directory a list of slots; each operation is described on these views.
  \<^item> \<open>Crc32\<close>, \<open>Gpt_Model\<close>, \<open>Gpt\<close>, \<open>Gpt_Residue\<close>, \<open>Gpt_Create\<close>: \<^verbatim>\<open>gpt.c\<close>; the checksum against polynomial division, the invariant of the table in memory and on
    disk, and what goes wrong after creation, with the disk sizes for which two headers share a checksum.
  \<^item> \<open>Exfat_Time\<close>, \<open>Exfat_Utf\<close>: \<^verbatim>\<open>fs/exfat/time.c\<close> and \<^verbatim>\<open>utf.c\<close>; conversions and their inverses.
  \<^item> \<open>Exfat_Model\<close>, \<open>Exfat_Io\<close>, \<open>Exfat_Alloc\<close>, \<open>Exfat_Chain\<close>, \<open>Exfat_Grow\<close>, \<open>Exfat_Truncate\<close>, \<open>Exfat_File\<close>, \<open>Exfat_Access\<close>, \<open>Exfat_Correct\<close>: \<^verbatim>\<open>fs/exfat/io.c\<close> and \<^verbatim>\<open>cluster.c\<close> in the UEFI build.
    \<open>byte_volume\<close> is the contract of byte access, given by every block device; \<open>exfat_volume\<close> adds a geometry.  Below it
    a file is an array of bytes over a chain of clusters, whether contiguous or linked, and truncating,
    reading and writing are operations on that array that touch no other file.
  \<^item> \<open>Exfat_Disk\<close>, \<open>Exfat_Upcase\<close>, \<open>Exfat_Format_Model\<close>, \<open>Exfat_Format\<close>, \<open>Exfat_Objects\<close>, \<open>Exfat_Mkfs\<close>: the structures of \<^verbatim>\<open>exfatfs.h\<close> as bytes, the checksums of \<^verbatim>\<open>utils.c\<close>, and the formatter
    \<^verbatim>\<open>fs/exfat/mkfs\<close> with the heap and parameters of \<^verbatim>\<open>compat.c\<close>.  The layout of a volume is a list of regions; each object is shown to write
    its content into its region, and the formatter to fill all of them.
  \<^item> \<open>Exfat_Node_Model\<close>, \<open>Exfat_Lookup_Model\<close>, \<open>Exfat_Mount_Model\<close>, \<open>Exfat_Port_Model\<close>: \<^verbatim>\<open>node.c\<close>, \<^verbatim>\<open>repair.c\<close>, \<^verbatim>\<open>lookup.c\<close>, \<^verbatim>\<open>mount.c\<close> and the interface \<^verbatim>\<open>exfat.c\<close>.  Nodes are
    records in a store indexed by address, the heap is the number of bytes in use.  \<open>Exfat_Tree\<close>: the children of a directory as a list in
    the store; attaching, detaching, looking up a path and listing on that list.  \<open>Exfat_Mount\<close>, \<open>Exfat_Mount_Correct\<close>, \<open>Exfat_Upcase_Correct\<close>, \<open>Exfat_Port\<close>, \<open>Exfat_Limits\<close>: mounting
    what the formatter has written, the volume one gets, and the two limits of the port, directories addressed by cluster and bitmaps
    larger than the heap.
  \<^item> \<open>Scheduler_Model\<close>, \<open>Scheduler\<close>, \<open>Scheduler_Correct\<close>: \<^verbatim>\<open>scheduler.c\<close>; the invariant over all states reachable through its interface by tasks that
    may call back into it, dispatch order, fairness, sleeping.
  \<^item> \<open>Ps2_Model\<close>, \<open>Ps2\<close>, \<open>Ps2_Correct\<close>: \<^verbatim>\<open>ps2.c\<close>, the stand-alone pollers and the HID adapters; rings as bounded queues, decoding of packets.
  \<^item> \<open>Gui_Model\<close>, \<open>Gui\<close>, \<open>Gui_Correct\<close>: \<^verbatim>\<open>helpers.c\<close>; every drawing call as a picture, through the contract \<open>painter\<close>.  \<open>Fonts_Data\<close>, \<open>Fonts\<close>, \<open>Icons\<close>, \<open>Gui_Text_Model\<close>, \<open>Gui_Text\<close>:
    fonts, icons, text and the log.  \<open>Desktop_Model\<close>, \<open>Desktop\<close>: buttons and the pointer part of \<^verbatim>\<open>graphics_init.c\<close>.

  \<^bold>\<open>Bounds.\<close>  Volumes are limited by what the code can address: byte positions below \<open>2 ^ 63\<close> (\<^verbatim>\<open>off_t\<close>), exFAT
  clusters of at most \<open>2 ^ 25\<close> bytes and at most 4294967285 of them, which the format demands; formatted volumes below \<open>2 ^ 44\<close> bytes,
  and mounted ones of at most 56 GiB, because of the 2 MiB heap.  The SATA driver sends 48 address bits, so its contract covers sectors
  below \<open>2 ^ 48\<close>; the size probe doubles its address and so needs a last sector below \<open>2 ^ 47\<close>.  FAT32 volumes have fewer than
  2147480000 sectors, as many as the 32-bit arithmetic of the formatter takes.  \<open>gpt_verify_fails_after_create\<close> covers disks of up to \<open>2 ^ 32\<close>
  sectors; beyond, a checksum of 32 bits must coincide for some sizes.  Rectangles have far corners below \<open>2 ^ 32\<close>; where \<open>x0 + w\<close> wraps,
  \<open>draw_box_wrap_overruns\<close> says what happens.  Time stamps lie between 1980 and 2107.  The fuel of the reference
  devices is the time-out the drivers wait for.

  \<^bold>\<open>Not modelled.\<close>  Log messages and the libc stubs of \<^verbatim>\<open>compat.c\<close> without effect; \<^verbatim>\<open>exfat_find_used_sectors\<close>, \<^verbatim>\<open>exfat_stat\<close> and \<^verbatim>\<open>exfat_print_info\<close>, which only report.
  Creating, renaming, deleting and flushing nodes of the exFAT tree are definitions without a theorem of their own, apart from the
  list operations they share.  The drawing of taskbar and menu with their caches in \<^verbatim>\<open>graphics_init.c\<close>.  The xHCI start-up,
  boot loaders and installer, whose logic is the order of firmware and register accesses.  Busy waiting
  on the time stamp counter.
\<close>

end
